(* ===== verification/Prelude.thy ===== *)
theory Prelude
  imports Main "HOL-Library.List_Lexorder" "HOL-Library.Char_ord" "HOL-Library.Code_Target_Nat"
begin

text \<open>
  Shared vocabulary of the development.

  \<^item> Rust strings are sequences of UTF-8 bytes: \<open>&str\<close>, \<open>String\<close> and \<open>SmolStr\<close> are HOL's
    \<^typ>\<open>string\<close>, whose characters are bytes, and \<open>len()\<close> is \<^const>\<open>length\<close>. The
    byte order of \<open>Ord for str\<close> is the lexicographic order of List_Lexorder.
  \<^item> The \<open>str\<close> operations the code uses (\<open>strip_prefix\<close>, \<open>split\<close>, \<open>split_once\<close>,
    \<open>trim\<close>, the ASCII character classes) are functions on byte lists.
  \<^item> \<open>BTreeMap\<close> is an association list sorted by key and \<open>BTreeSet\<close> a sorted list
    without duplicates, so that iteration in key order is list order; the interface
    the clients use is the locale \<open>ordered_map\<close>.
  \<^item> \<open>Result\<close> is \<^typ>\<open>'e + 'a\<close> with \<^const>\<open>Inl\<close> for \<open>Err\<close>.
\<close>

named_theorems str_simps "equations for the string operations"
named_theorems bmap_simps "equations for the ordered map"

section \<open>Characters\<close>

abbreviation byte :: "char \<Rightarrow> nat" where
  "byte c \<equiv> of_char c"

definition is_ascii_char :: "char \<Rightarrow> bool" where
  "is_ascii_char c \<longleftrightarrow> byte c < 128"

definition is_ascii_digit :: "char \<Rightarrow> bool" where
  "is_ascii_digit c \<longleftrightarrow> 48 \<le> byte c \<and> byte c \<le> 57"

definition is_ascii_lowercase :: "char \<Rightarrow> bool" where
  "is_ascii_lowercase c \<longleftrightarrow> 97 \<le> byte c \<and> byte c \<le> 122"

definition is_ascii_uppercase :: "char \<Rightarrow> bool" where
  "is_ascii_uppercase c \<longleftrightarrow> 65 \<le> byte c \<and> byte c \<le> 90"

definition is_ascii_alphanumeric :: "char \<Rightarrow> bool" where
  "is_ascii_alphanumeric c \<longleftrightarrow> is_ascii_digit c \<or> is_ascii_lowercase c \<or> is_ascii_uppercase c"

definition is_ascii_hexdigit :: "char \<Rightarrow> bool" where
  "is_ascii_hexdigit c \<longleftrightarrow>
     is_ascii_digit c \<or> (97 \<le> byte c \<and> byte c \<le> 102) \<or> (65 \<le> byte c \<and> byte c \<le> 70)"

text \<open>Rust's \<open>u8::is_ascii_whitespace\<close>: tab, line feed, form feed, carriage return, space.\<close>

definition is_ascii_whitespace :: "char \<Rightarrow> bool" where
  "is_ascii_whitespace c \<longleftrightarrow> byte c \<in> {9, 10, 12, 13, 32}"

definition is_ascii_control :: "char \<Rightarrow> bool" where
  "is_ascii_control c \<longleftrightarrow> byte c < 32 \<or> byte c = 127"

definition to_ascii_lowercase :: "char \<Rightarrow> char" where
  "to_ascii_lowercase c = (if is_ascii_uppercase c then char_of (byte c + 32) else c)"

definition to_ascii_uppercase :: "char \<Rightarrow> char" where
  "to_ascii_uppercase c = (if is_ascii_lowercase c then char_of (byte c - 32) else c)"

lemmas ascii_defs =
  is_ascii_char_def is_ascii_digit_def is_ascii_lowercase_def is_ascii_uppercase_def
  is_ascii_alphanumeric_def is_ascii_hexdigit_def is_ascii_whitespace_def is_ascii_control_def
  to_ascii_lowercase_def to_ascii_uppercase_def

lemma byte_char_of [simp]: "n < 256 \<Longrightarrow> byte (char_of n) = n"
  by simp

lemma char_of_byte_eqI: "byte c = byte d \<Longrightarrow> c = d"
  by simp

lemma byte_to_ascii_lowercase:
  "byte (to_ascii_lowercase c) = (if is_ascii_uppercase c then byte c + 32 else byte c)"
  by (auto simp: ascii_defs)

lemma byte_to_ascii_uppercase:
  "byte (to_ascii_uppercase c) = (if is_ascii_lowercase c then byte c - 32 else byte c)"
  by (auto simp: ascii_defs)

lemma not_uppercase_to_lowercase [simp]: "\<not> is_ascii_uppercase (to_ascii_lowercase c)"
  unfolding is_ascii_uppercase_def byte_to_ascii_lowercase by auto

lemma not_lowercase_to_uppercase [simp]: "\<not> is_ascii_lowercase (to_ascii_uppercase c)"
  unfolding is_ascii_lowercase_def byte_to_ascii_uppercase by auto

lemma to_ascii_lowercase_idem [simp]:
  "to_ascii_lowercase (to_ascii_lowercase c) = to_ascii_lowercase c"
  by (simp add: to_ascii_lowercase_def [of "to_ascii_lowercase c"])

lemma to_ascii_uppercase_idem [simp]:
  "to_ascii_uppercase (to_ascii_uppercase c) = to_ascii_uppercase c"
  by (simp add: to_ascii_uppercase_def [of "to_ascii_uppercase c"])

lemma to_ascii_lowercase_classes [simp]:
  "is_ascii_char (to_ascii_lowercase c) = is_ascii_char c"
  "is_ascii_digit (to_ascii_lowercase c) = is_ascii_digit c"
  "is_ascii_alphanumeric (to_ascii_lowercase c) = is_ascii_alphanumeric c"
  "is_ascii_hexdigit (to_ascii_lowercase c) = is_ascii_hexdigit c"
  "is_ascii_whitespace (to_ascii_lowercase c) = is_ascii_whitespace c"
  "is_ascii_control (to_ascii_lowercase c) = is_ascii_control c"
  by (auto simp: is_ascii_char_def is_ascii_digit_def is_ascii_alphanumeric_def
      is_ascii_hexdigit_def is_ascii_whitespace_def is_ascii_control_def
      is_ascii_lowercase_def is_ascii_uppercase_def byte_to_ascii_lowercase split: if_splits)

lemma to_ascii_lowercase_eq_iff:
  "\<not> is_ascii_lowercase d \<Longrightarrow> \<not> is_ascii_uppercase d \<Longrightarrow> to_ascii_lowercase c = d \<longleftrightarrow> c = d"
proof
  assume d: "\<not> is_ascii_lowercase d" "\<not> is_ascii_uppercase d" and eq: "to_ascii_lowercase c = d"
  from eq have "byte (to_ascii_lowercase c) = byte d" by simp
  with d show "c = d"
    by (auto simp: byte_to_ascii_lowercase is_ascii_lowercase_def is_ascii_uppercase_def
        split: if_splits)
next
  assume "\<not> is_ascii_uppercase d" and "c = d"
  then show "to_ascii_lowercase c = d" by (simp add: to_ascii_lowercase_def)
qed

abbreviation str_lower :: "string \<Rightarrow> string" where
  "str_lower \<equiv> map to_ascii_lowercase"

section \<open>Prefixes, suffixes and splitting\<close>

fun strip_prefix :: "'a list \<Rightarrow> 'a list \<Rightarrow> 'a list option" where
  "strip_prefix [] s = Some s"
| "strip_prefix (p # ps) [] = None"
| "strip_prefix (p # ps) (x # xs) = (if p = x then strip_prefix ps xs else None)"

definition strip_suffix :: "'a list \<Rightarrow> 'a list \<Rightarrow> 'a list option" where
  "strip_suffix p s = map_option rev (strip_prefix (rev p) (rev s))"

definition starts_with :: "'a list \<Rightarrow> 'a list \<Rightarrow> bool" where
  "starts_with p s \<longleftrightarrow> strip_prefix p s \<noteq> None"

definition ends_with :: "'a list \<Rightarrow> 'a list \<Rightarrow> bool" where
  "ends_with p s \<longleftrightarrow> strip_suffix p s \<noteq> None"

fun split_on :: "'a \<Rightarrow> 'a list \<Rightarrow> 'a list list" where
  "split_on c [] = [[]]"
| "split_on c (x # xs) =
     (if x = c then [] # split_on c xs
      else case split_on c xs of [] \<Rightarrow> [[x]] | y # ys \<Rightarrow> (x # y) # ys)"

fun split_once :: "'a \<Rightarrow> 'a list \<Rightarrow> ('a list \<times> 'a list) option" where
  "split_once c [] = None"
| "split_once c (x # xs) =
     (if x = c then Some ([], xs)
      else map_option (\<lambda>(a, b). (x # a, b)) (split_once c xs))"

definition rsplit_once :: "'a \<Rightarrow> 'a list \<Rightarrow> ('a list \<times> 'a list) option" where
  "rsplit_once c s = map_option (\<lambda>(a, b). (rev b, rev a)) (split_once c (rev s))"

fun join_with :: "'a list \<Rightarrow> 'a list list \<Rightarrow> 'a list" where
  "join_with sep [] = []"
| "join_with sep [x] = x"
| "join_with sep (x # y # ys) = x @ sep @ join_with sep (y # ys)"

lemma strip_prefix_iff [str_simps]: "strip_prefix p s = Some r \<longleftrightarrow> s = p @ r"
  by (induction p s rule: strip_prefix.induct) auto

lemma strip_prefix_append [simp]: "strip_prefix p (p @ r) = Some r"
  by (simp add: strip_prefix_iff)

lemma strip_suffix_iff [str_simps]: "strip_suffix p s = Some r \<longleftrightarrow> s = r @ p"
proof -
  have "strip_suffix p s = Some r \<longleftrightarrow> strip_prefix (rev p) (rev s) = Some (rev r)"
    by (auto simp: strip_suffix_def)
  also have "\<dots> \<longleftrightarrow> rev s = rev p @ rev r" by (simp add: strip_prefix_iff)
  also have "\<dots> \<longleftrightarrow> s = r @ p" by (metis rev_append rev_rev_ident)
  finally show ?thesis .
qed

lemma strip_suffix_append [simp]: "strip_suffix p (r @ p) = Some r"
  by (simp add: strip_suffix_iff)

lemma starts_with_iff: "starts_with p s \<longleftrightarrow> (\<exists>r. s = p @ r)"
  by (auto simp: starts_with_def strip_prefix_iff)

lemma ends_with_iff: "ends_with p s \<longleftrightarrow> (\<exists>r. s = r @ p)"
  by (auto simp: ends_with_def strip_suffix_iff)

lemma starts_with_refl [simp]: "starts_with p p"
  by (auto simp: starts_with_iff)

lemma starts_with_trans: "starts_with p q \<Longrightarrow> starts_with q s \<Longrightarrow> starts_with p s"
  by (auto simp: starts_with_iff)

lemma starts_with_length: "starts_with p s \<Longrightarrow> length p \<le> length s"
  by (auto simp: starts_with_iff)

lemma starts_with_linear:
  assumes "starts_with p s" and "starts_with q s" and "length p \<le> length q"
  shows "starts_with p q"
proof -
  from assms(1) have "take (length p) s = p" by (auto simp: starts_with_iff)
  moreover from assms(2,3) have "take (length p) s = take (length p) q"
    by (auto simp: starts_with_iff)
  ultimately have "q = p @ drop (length p) q" by (metis append_take_drop_id)
  then show ?thesis unfolding starts_with_iff by blast
qed

lemma split_on_nonempty [simp]: "split_on c s \<noteq> []"
  by (induction s) (auto split: list.splits)

lemma join_with_Cons: "ys \<noteq> [] \<Longrightarrow> join_with sep (y # ys) = y @ sep @ join_with sep ys"
  by (cases ys) auto

lemma join_split_on [simp]: "join_with [c] (split_on c s) = s"
proof (induction s)
  case Nil
  then show ?case by simp
next
  case (Cons x xs)
  obtain y ys where ys: "split_on c xs = y # ys"
    by (meson list.exhaust split_on_nonempty)
  with Cons.IH show ?case by (cases ys) auto
qed

lemma split_on_no_sep: "p \<in> set (split_on c s) \<Longrightarrow> c \<notin> set p"
  by (induction s arbitrary: p) (auto split: list.splits if_splits)

lemma split_on_char_in: "p \<in> set (split_on c s) \<Longrightarrow> set p \<subseteq> set s"
  by (induction s arbitrary: p) (fastforce split: list.splits if_splits)+

lemma split_on_absent: "c \<notin> set s \<Longrightarrow> split_on c s = [s]"
  by (induction s) auto

lemma split_on_append_sep: "c \<notin> set p \<Longrightarrow> split_on c (p @ c # s) = p # split_on c s"
  by (induction p) auto

lemma split_on_join:
  "ps \<noteq> [] \<Longrightarrow> (\<forall>p \<in> set ps. c \<notin> set p) \<Longrightarrow> split_on c (join_with [c] ps) = ps"
proof (induction ps rule: induct_list012)
  case (3 p q ps)
  then show ?case by (simp add: split_on_append_sep)
qed (auto simp: split_on_absent)

lemma split_on_map:
  "(\<And>x. x \<in> set s \<Longrightarrow> f x = c \<longleftrightarrow> x = c) \<Longrightarrow> split_on c (map f s) = map (map f) (split_on c s)"
  by (induction s) (auto split: list.splits)

lemma split_once_iff:
  "split_once c s = Some (a, b) \<longleftrightarrow> c \<notin> set a \<and> s = a @ c # b"
proof (induction s arbitrary: a)
  case (Cons x xs)
  then show ?case by (cases a) auto
qed simp

lemma split_once_None_iff: "split_once c s = None \<longleftrightarrow> c \<notin> set s"
  by (induction s) auto

lemma rsplit_once_iff:
  "rsplit_once c s = Some (a, b) \<longleftrightarrow> c \<notin> set b \<and> s = a @ c # b"
proof -
  have "rsplit_once c s = Some (a, b) \<longleftrightarrow> split_once c (rev s) = Some (rev b, rev a)"
    by (force simp: rsplit_once_def)
  also have "\<dots> \<longleftrightarrow> c \<notin> set b \<and> rev s = rev b @ c # rev a"
    by (simp add: split_once_iff)
  also have "\<dots> \<longleftrightarrow> c \<notin> set b \<and> s = a @ c # b"
  proof -
    have "rev s = rev b @ c # rev a \<longleftrightarrow> s = a @ c # b"
      by (metis append.assoc append_Cons append_Nil rev.simps(2) rev_append rev_rev_ident)
    then show ?thesis by simp
  qed
  finally show ?thesis .
qed

lemma rsplit_once_None_iff: "rsplit_once c s = None \<longleftrightarrow> c \<notin> set s"
  by (simp add: rsplit_once_def split_once_None_iff)

text \<open>The last piece of a split is what follows the last separator.\<close>

lemma last_split_on_rsplit:
  "last (split_on c s) = (case rsplit_once c s of None \<Rightarrow> s | Some (_, b) \<Rightarrow> b)"
proof (cases "rsplit_once c s")
  case None
  then have "c \<notin> set s" by (simp add: rsplit_once_None_iff)
  with None show ?thesis by (simp add: split_on_absent)
next
  case (Some ab)
  then obtain a b where "rsplit_once c s = Some (a, b)" by (cases ab) auto
  then have b: "c \<notin> set b" and s: "s = a @ c # b" by (auto simp: rsplit_once_iff)
  have "last (split_on c (a @ c # b)) = b" for a
  proof (induction a)
    case Nil
    with b show ?case by (simp add: split_on_absent)
  next
    case (Cons x xs)
    obtain y ys where y: "split_on c (xs @ c # b) = y # ys"
      by (meson list.exhaust split_on_nonempty)
    moreover have "ys \<noteq> []"
    proof
      assume "ys = []"
      then have "join_with [c] (split_on c (xs @ c # b)) = y" by (simp add: y)
      then have "y = xs @ c # b" by simp
      moreover have "c \<notin> set y" using split_on_no_sep [of y c "xs @ c # b"] y by simp
      ultimately show False by simp
    qed
    ultimately show ?case using Cons.IH by (auto split: list.splits)
  qed
  with s \<open>rsplit_once c s = Some (a, b)\<close> show ?thesis by simp
qed

section \<open>Iterators\<close>

text \<open>\<open>Iterator::find\<close>, \<open>find_map\<close> and \<open>position\<close> stop at the first hit.\<close>

fun find_map :: "('a \<Rightarrow> 'b option) \<Rightarrow> 'a list \<Rightarrow> 'b option" where
  "find_map f [] = None"
| "find_map f (x # xs) = (case f x of Some y \<Rightarrow> Some y | None \<Rightarrow> find_map f xs)"

fun position_of :: "('a \<Rightarrow> bool) \<Rightarrow> 'a list \<Rightarrow> nat option" where
  "position_of p [] = None"
| "position_of p (x # xs) = (if p x then Some 0 else map_option Suc (position_of p xs))"

definition filter_map :: "('a \<Rightarrow> 'b option) \<Rightarrow> 'a list \<Rightarrow> 'b list" where
  "filter_map f xs = List.map_filter f xs"

lemma find_map_None_iff: "find_map f xs = None \<longleftrightarrow> (\<forall>x \<in> set xs. f x = None)"
  by (induction xs) (auto split: option.splits)

lemma find_map_Some_in: "find_map f xs = Some y \<Longrightarrow> \<exists>x \<in> set xs. f x = Some y"
  by (induction xs) (auto split: option.splits)

lemma find_map_split:
  "find_map f xs = Some y \<longleftrightarrow>
   (\<exists>as x bs. xs = as @ x # bs \<and> f x = Some y \<and> (\<forall>a \<in> set as. f a = None))"
proof (induction xs)
  case (Cons x xs)
  show ?case
  proof (cases "f x")
    case None
    have "(\<exists>as z bs. x # xs = as @ z # bs \<and> f z = Some y \<and> (\<forall>a \<in> set as. f a = None)) \<longleftrightarrow>
          (\<exists>as z bs. xs = as @ z # bs \<and> f z = Some y \<and> (\<forall>a \<in> set as. f a = None))"
      (is "?l \<longleftrightarrow> ?r")
    proof
      assume ?l
      then obtain as z bs where "x # xs = as @ z # bs" "f z = Some y" "\<forall>a \<in> set as. f a = None" by blast
      with None show ?r by (cases as) auto
    next
      assume ?r
      then obtain as z bs where "xs = as @ z # bs" "f z = Some y" "\<forall>a \<in> set as. f a = None" by blast
      with None show ?l by (intro exI [of _ "x # as"] exI [of _ z] exI [of _ bs]) auto
    qed
    with None Cons show ?thesis by simp
  next
    case (Some z)
    show ?thesis
    proof
      assume "find_map f (x # xs) = Some y"
      with Some have "f x = Some y" by simp
      then show "\<exists>as z bs. x # xs = as @ z # bs \<and> f z = Some y \<and> (\<forall>a \<in> set as. f a = None)"
        by (intro exI [of _ "[]"] exI [of _ x] exI [of _ xs]) simp
    next
      assume "\<exists>as z bs. x # xs = as @ z # bs \<and> f z = Some y \<and> (\<forall>a \<in> set as. f a = None)"
      then obtain as z' bs where s: "x # xs = as @ z' # bs" "f z' = Some y" "\<forall>a \<in> set as. f a = None"
        by blast
      with Some have "as = []" by (cases as) auto
      with s show "find_map f (x # xs) = Some y" by simp
    qed
  qed
qed simp

lemma find_map_cong: "(\<And>x. x \<in> set xs \<Longrightarrow> f x = g x) \<Longrightarrow> find_map f xs = find_map g xs"
  by (induction xs) (auto split: option.splits)

lemma position_of_Some:
  "position_of p xs = Some i \<longleftrightarrow> i < length xs \<and> p (xs ! i) \<and> (\<forall>j < i. \<not> p (xs ! j))"
proof (induction xs arbitrary: i)
  case (Cons x xs)
  show ?case
  proof (cases i)
    case 0
    then show ?thesis by auto
  next
    case (Suc k)
    have all: "(\<forall>j < Suc k. \<not> p ((x # xs) ! j)) \<longleftrightarrow> \<not> p x \<and> (\<forall>j < k. \<not> p (xs ! j))"
      by (auto simp: nth_Cons split: nat.splits)
    show ?thesis unfolding Suc all using Cons.IH [of k] by auto
  qed
qed simp

lemma position_of_None: "position_of p xs = None \<longleftrightarrow> (\<forall>x \<in> set xs. \<not> p x)"
  by (induction xs) auto

lemma set_filter_map: "set (filter_map f xs) = {y. \<exists>x \<in> set xs. f x = Some y}"
  by (induction xs) (auto simp: filter_map_def List.map_filter_simps split: option.splits)

lemma filter_map_simps [simp]:
  "filter_map f [] = []"
  "filter_map f (x # xs) = (case f x of None \<Rightarrow> filter_map f xs | Some y \<Rightarrow> y # filter_map f xs)"
  by (simp_all add: filter_map_def List.map_filter_simps split: option.split)

lemma filter_map_append [simp]: "filter_map f (xs @ ys) = filter_map f xs @ filter_map f ys"
  by (induction xs) (auto split: option.split)

section \<open>Results\<close>

text \<open>The \<open>?\<close> operator, \<open>map_err\<close>, and \<open>collect\<close> into a \<open>Result\<close>, which stops at the first error.\<close>

definition res_bind :: "'e + 'a \<Rightarrow> ('a \<Rightarrow> 'e + 'b) \<Rightarrow> 'e + 'b" where
  "res_bind r f = (case r of Inl e \<Rightarrow> Inl e | Inr x \<Rightarrow> f x)"

definition res_map :: "('a \<Rightarrow> 'b) \<Rightarrow> 'e + 'a \<Rightarrow> 'e + 'b" where
  "res_map f r = (case r of Inl e \<Rightarrow> Inl e | Inr x \<Rightarrow> Inr (f x))"

definition map_err :: "('e \<Rightarrow> 'f) \<Rightarrow> 'e + 'a \<Rightarrow> 'f + 'a" where
  "map_err g r = (case r of Inl e \<Rightarrow> Inl (g e) | Inr x \<Rightarrow> Inr x)"

definition ok_or :: "'e \<Rightarrow> 'a option \<Rightarrow> 'e + 'a" where
  "ok_or e x = (case x of None \<Rightarrow> Inl e | Some y \<Rightarrow> Inr y)"

fun res_collect :: "('a \<Rightarrow> 'e + 'b) \<Rightarrow> 'a list \<Rightarrow> 'e + 'b list" where
  "res_collect f [] = Inr []"
| "res_collect f (x # xs) = res_bind (f x) (\<lambda>y. res_map (\<lambda>ys. y # ys) (res_collect f xs))"

lemma res_bind_Inr [simp]: "res_bind (Inr x) f = f x"
  by (simp add: res_bind_def)

lemma res_bind_Inl [simp]: "res_bind (Inl e) f = Inl e"
  by (simp add: res_bind_def)

lemma res_bind_eq_Inr [simp]: "res_bind r f = Inr y \<longleftrightarrow> (\<exists>x. r = Inr x \<and> f x = Inr y)"
  by (cases r) auto

lemma res_map_simps [simp]: "res_map f (Inr x) = Inr (f x)" "res_map f (Inl e) = Inl e"
  by (simp_all add: res_map_def)

lemma res_map_eq_Inr [simp]: "res_map f r = Inr y \<longleftrightarrow> (\<exists>x. r = Inr x \<and> y = f x)"
  by (cases r) auto

lemma map_err_simps [simp]: "map_err g (Inl e) = Inl (g e)" "map_err g (Inr x) = Inr x"
  by (simp_all add: map_err_def)

lemma map_err_eq_Inr [simp]: "map_err g r = Inr y \<longleftrightarrow> r = Inr y"
  by (cases r) auto

lemma ok_or_simps [simp]: "ok_or e None = Inl e" "ok_or e (Some x) = Inr x"
  by (simp_all add: ok_or_def)

lemma ok_or_eq_Inr [simp]: "ok_or e x = Inr y \<longleftrightarrow> x = Some y"
  by (cases x) auto

lemma res_collect_Inr: "res_collect f xs = Inr ys \<Longrightarrow> list_all2 (\<lambda>x y. f x = Inr y) xs ys"
  by (induction xs arbitrary: ys) auto

lemma res_collect_set: "res_collect f xs = Inr ys \<Longrightarrow> y \<in> set ys \<Longrightarrow> \<exists>x \<in> set xs. f x = Inr y"
  by (induction xs arbitrary: ys) auto

end
