(* ===== verification/Ordered_Map.thy ===== *)
theory Ordered_Map
  imports Prelude
begin

text \<open>
  The standard library's \<open>BTreeMap\<close> and \<open>BTreeSet\<close>: a map is an association list in
  strictly increasing key order, a set a strictly increasing list. Iteration is list
  order. What the components rely on is the locale \<open>ordered_map\<close>: a lookup after an
  insertion, removal or filtering pass, and the order invariant that every operation
  keeps; \<open>bm\<close> interprets it on the functions below.
\<close>

type_synonym ('k, 'v) bmap = "('k \<times> 'v) list"
type_synonym 'a bset = "'a list"

definition bm_ok :: "('k::linorder, 'v) bmap \<Rightarrow> bool" where
  "bm_ok m \<longleftrightarrow> sorted_wrt (<) (map fst m)"

definition bm_get :: "('k, 'v) bmap \<Rightarrow> 'k \<Rightarrow> 'v option" where
  "bm_get m k = map_of m k"

fun bm_insert :: "'k::linorder \<Rightarrow> 'v \<Rightarrow> ('k, 'v) bmap \<Rightarrow> ('k, 'v) bmap" where
  "bm_insert k v [] = [(k, v)]"
| "bm_insert k v ((k', v') # m) =
     (if k < k' then (k, v) # (k', v') # m
      else if k = k' then (k, v) # m
      else (k', v') # bm_insert k v m)"

fun bm_remove :: "'k \<Rightarrow> ('k, 'v) bmap \<Rightarrow> ('k, 'v) bmap" where
  "bm_remove k [] = []"
| "bm_remove k ((k', v') # m) = (if k = k' then m else (k', v') # bm_remove k m)"

definition bm_retain :: "('k \<Rightarrow> 'v \<Rightarrow> bool) \<Rightarrow> ('k, 'v) bmap \<Rightarrow> ('k, 'v) bmap" where
  "bm_retain p m = filter (\<lambda>(k, v). p k v) m"

definition bm_keys :: "('k, 'v) bmap \<Rightarrow> 'k list" where
  "bm_keys m = map fst m"

definition bm_values :: "('k, 'v) bmap \<Rightarrow> 'v list" where
  "bm_values m = map snd m"

definition bm_map :: "('v \<Rightarrow> 'w) \<Rightarrow> ('k, 'v) bmap \<Rightarrow> ('k, 'w) bmap" where
  "bm_map f m = map (\<lambda>(k, v). (k, f v)) m"

text \<open>\<open>collect()\<close> into a \<open>BTreeMap\<close>: later entries overwrite earlier ones.\<close>

definition bm_of_list :: "('k::linorder \<times> 'v) list \<Rightarrow> ('k, 'v) bmap" where
  "bm_of_list xs = fold (\<lambda>(k, v). bm_insert k v) xs []"

definition bs_of_list :: "'a::linorder list \<Rightarrow> 'a bset" where
  "bs_of_list xs = sort (remdups xs)"

definition bs_contains :: "'a bset \<Rightarrow> 'a \<Rightarrow> bool" where
  "bs_contains s x \<longleftrightarrow> x \<in> set s"

section \<open>Laws\<close>

lemma bm_ok_Nil [simp]: "bm_ok []"
  by (simp add: bm_ok_def)

lemma bm_ok_Cons: "bm_ok ((k, v) # m) \<longleftrightarrow> (\<forall>k' \<in> fst ` set m. k < k') \<and> bm_ok m"
  by (auto simp: bm_ok_def)

lemma bm_ok_distinct: "bm_ok m \<Longrightarrow> distinct (map fst m)"
  by (simp add: bm_ok_def strict_sorted_iff)

lemma bm_get_Nil [simp]: "bm_get [] k = None"
  by (simp add: bm_get_def)

lemma bm_get_Cons [simp]: "bm_get ((k', v) # m) k = (if k = k' then Some v else bm_get m k)"
  by (simp add: bm_get_def)

lemma bm_get_in: "bm_get m k = Some v \<Longrightarrow> (k, v) \<in> set m"
  by (simp add: bm_get_def map_of_SomeD)

lemma bm_get_iff: "bm_ok m \<Longrightarrow> bm_get m k = Some v \<longleftrightarrow> (k, v) \<in> set m"
  by (simp add: bm_get_def bm_ok_distinct map_of_eq_Some_iff)

lemma bm_get_None_iff: "bm_get m k = None \<longleftrightarrow> k \<notin> fst ` set m"
  by (simp add: bm_get_def map_of_eq_None_iff)

lemma keys_bm_insert: "fst ` set (bm_insert k v m) = insert k (fst ` set m)"
  by (induction k v m rule: bm_insert.induct) auto

lemma bm_ok_insert: "bm_ok m \<Longrightarrow> bm_ok (bm_insert k v m)"
  by (induction k v m rule: bm_insert.induct) (auto simp: bm_ok_Cons keys_bm_insert)

lemma bm_get_insert: "bm_ok m \<Longrightarrow> bm_get (bm_insert k v m) k' = (if k' = k then Some v else bm_get m k')"
  by (induction k v m rule: bm_insert.induct) (auto simp: bm_ok_Cons)

lemma keys_bm_remove: "bm_ok m \<Longrightarrow> fst ` set (bm_remove k m) = fst ` set m - {k}"
  by (induction k m rule: bm_remove.induct) (auto simp: bm_ok_Cons)

lemma bm_ok_remove: "bm_ok m \<Longrightarrow> bm_ok (bm_remove k m)"
  by (induction k m rule: bm_remove.induct) (auto simp: bm_ok_Cons keys_bm_remove)

lemma bm_get_remove: "bm_ok m \<Longrightarrow> bm_get (bm_remove k m) k' = (if k' = k then None else bm_get m k')"
proof (induction k m rule: bm_remove.induct)
  case (2 k k'' v m)
  then have "bm_get m k'' = None" by (force simp: bm_ok_Cons bm_get_None_iff)
  with 2 show ?case by (auto simp: bm_ok_Cons)
qed simp

lemma bm_ok_retain: "bm_ok m \<Longrightarrow> bm_ok (bm_retain p m)"
  by (induction m) (auto simp: bm_retain_def bm_ok_Cons)

lemma bm_get_retain:
  assumes "bm_ok m"
  shows "bm_get (bm_retain p m) k =
    (case bm_get m k of None \<Rightarrow> None | Some v \<Rightarrow> if p k v then Some v else None)"
  using assms
proof (induction m)
  case (Cons kv m)
  obtain k' v' where kv: "kv = (k', v')" by fastforce
  with Cons.prems have ok: "bm_ok m" and notin: "k' \<notin> fst ` set m"
    by (auto simp: bm_ok_Cons)
  from notin have "bm_get m k' = None" by (simp add: bm_get_None_iff)
  with Cons.IH [OF ok] kv show ?case
    by (auto simp: bm_retain_def split: option.splits)
qed (simp add: bm_retain_def)

lemma bm_get_map [simp]: "bm_get (bm_map f m) k = map_option f (bm_get m k)"
  by (induction m) (auto simp: bm_map_def)

lemma bm_keys_map [simp]: "bm_keys (bm_map f m) = bm_keys m"
  by (simp add: bm_keys_def bm_map_def comp_def case_prod_beta)

lemma bm_ok_map [simp]: "bm_ok (bm_map f m) = bm_ok m"
  using bm_keys_map [of f m] by (simp add: bm_ok_def bm_keys_def)

lemma bm_ok_of_list [simp]: "bm_ok (bm_of_list xs)"
proof -
  have "bm_ok m \<Longrightarrow> bm_ok (fold (\<lambda>(k, v). bm_insert k v) xs m)" for m
    by (induction xs arbitrary: m) (auto simp: bm_ok_insert)
  then show ?thesis by (simp add: bm_of_list_def)
qed

lemma bm_get_of_list: "bm_get (bm_of_list xs) k = map_of (rev xs) k"
proof -
  have "bm_ok m \<Longrightarrow> bm_get (fold (\<lambda>(k, v). bm_insert k v) xs m) k =
      (case map_of (rev xs) k of None \<Rightarrow> bm_get m k | Some v \<Rightarrow> Some v)" for m
  proof (induction xs arbitrary: m)
    case (Cons kv xs)
    obtain k' v' where "kv = (k', v')" by fastforce
    with Cons show ?case
      by (auto simp: bm_ok_insert bm_get_insert map_add_def split: option.splits)
  qed simp
  from this [OF bm_ok_Nil] show ?thesis by (simp add: bm_of_list_def split: option.splits)
qed

lemma bm_of_list_get_in: "bm_get (bm_of_list xs) k = Some v \<Longrightarrow> (k, v) \<in> set xs"
  by (auto simp: bm_get_of_list dest: map_of_SomeD)

lemma keys_bm_of_list: "fst ` set (bm_of_list xs) = fst ` set xs"
proof -
  have "fst ` set (fold (\<lambda>(k, v). bm_insert k v) xs m) = fst ` set xs \<union> fst ` set m" for m
  proof (induction xs arbitrary: m)
    case (Cons kv xs)
    then show ?case by (cases kv) (simp add: keys_bm_insert)
  qed simp
  from this [of "[]"] show ?thesis by (simp add: bm_of_list_def)
qed

lemma bs_contains_of_list [simp]: "bs_contains (bs_of_list xs) x \<longleftrightarrow> x \<in> set xs"
  by (simp add: bs_contains_def bs_of_list_def)

section \<open>The interface\<close>

locale ordered_map =
  fixes emp :: "'m"
    and get :: "'m \<Rightarrow> 'k::linorder \<Rightarrow> 'v option"
    and put :: "'k \<Rightarrow> 'v \<Rightarrow> 'm \<Rightarrow> 'm"
    and del :: "'k \<Rightarrow> 'm \<Rightarrow> 'm"
    and retain :: "('k \<Rightarrow> 'v \<Rightarrow> bool) \<Rightarrow> 'm \<Rightarrow> 'm"
    and ok :: "'m \<Rightarrow> bool"
  assumes get_emp: "get emp k = None"
    and get_put: "ok m \<Longrightarrow> get (put k v m) k' = (if k' = k then Some v else get m k')"
    and get_del: "ok m \<Longrightarrow> get (del k m) k' = (if k' = k then None else get m k')"
    and get_retain: "ok m \<Longrightarrow> get (retain p m) k =
      (case get m k of None \<Rightarrow> None | Some v \<Rightarrow> if p k v then Some v else None)"
    and ok_emp: "ok emp"
    and ok_put: "ok m \<Longrightarrow> ok (put k v m)"
    and ok_del: "ok m \<Longrightarrow> ok (del k m)"
    and ok_retain: "ok m \<Longrightarrow> ok (retain p m)"
begin

lemmas map_laws = get_emp get_put get_del get_retain ok_emp ok_put ok_del ok_retain

lemma get_put_same: "ok m \<Longrightarrow> get (put k v m) k = Some v"
  by (simp add: get_put)

lemma get_put_other: "ok m \<Longrightarrow> k' \<noteq> k \<Longrightarrow> get (put k v m) k' = get m k'"
  by (simp add: get_put)

lemma retain_subset: "ok m \<Longrightarrow> get (retain p m) k = Some v \<Longrightarrow> get m k = Some v \<and> p k v"
  by (auto simp: get_retain split: option.splits if_splits)

lemma retain_keeps: "ok m \<Longrightarrow> get m k = Some v \<Longrightarrow> p k v \<Longrightarrow> get (retain p m) k = Some v"
  by (simp add: get_retain)

lemma put_del: "ok m \<Longrightarrow> get (put k v (del k m)) k' = get (put k v m) k'"
  by (simp add: get_put get_del ok_del)

end

interpretation bm: ordered_map "[]" bm_get bm_insert bm_remove bm_retain bm_ok
  by unfold_locales
    (auto simp: bm_get_insert bm_get_remove bm_get_retain bm_ok_insert bm_ok_remove bm_ok_retain)

end
