(* ===== verification/Std_Time.thy ===== *)
theory Std_Time
  imports Prelude
begin

text \<open>
  The parts of \<open>std::time\<close> the crates use. A \<open>Duration\<close> is a number of nanoseconds, at
  most \<open>Duration::MAX\<close>; an \<open>Instant\<close> is a number of nanoseconds of the monotonic clock,
  and the largest instant the platform can represent is a parameter \<open>horizon\<close> of the operations
  that may overflow.
\<close>

type_synonym duration = nat
type_synonym instant = nat

definition nanos_per_sec :: nat where
  "nanos_per_sec = 1000000000"

definition duration_max :: duration where
  "duration_max = (2 ^ 64 - 1) * nanos_per_sec + (nanos_per_sec - 1)"

definition duration_from_secs :: "nat \<Rightarrow> duration" where
  "duration_from_secs s = s * nanos_per_sec"

text \<open>\<open>Duration::saturating_mul\<close> by a \<open>u32\<close>, \<open>Duration::saturating_add\<close>.\<close>

definition duration_saturating_mul :: "duration \<Rightarrow> nat \<Rightarrow> duration" where
  "duration_saturating_mul d k = min (d * k) duration_max"

definition duration_saturating_add :: "duration \<Rightarrow> duration \<Rightarrow> duration" where
  "duration_saturating_add d e = min (d + e) duration_max"

definition instant_checked_add :: "instant \<Rightarrow> instant \<Rightarrow> duration \<Rightarrow> instant option" where
  "instant_checked_add horizon now d = (if now + d \<le> horizon then Some (now + d) else None)"

text \<open>\<open>saturating_duration_since\<close> is zero when the argument is later.\<close>

definition saturating_duration_since :: "instant \<Rightarrow> instant \<Rightarrow> duration" where
  "saturating_duration_since now earlier = now - earlier"

lemma duration_saturating_mul_le: "duration_saturating_mul d k \<le> duration_max"
  by (simp add: duration_saturating_mul_def)

lemma duration_saturating_mul_mono:
  "d \<le> d' \<Longrightarrow> k \<le> k' \<Longrightarrow> duration_saturating_mul d k \<le> duration_saturating_mul d' k'"
  unfolding duration_saturating_mul_def by (intro min.mono mult_le_mono) auto

end
