(* ===== verification/Route_Plan.thy ===== *)
theory Route_Plan
  imports Ordered_Map Std_Time "HOL-Library.Product_Lexorder"
begin

text \<open>
  Route policies (crates/policy/src/route.rs): the managed and relay routes with their
  targets, the axes derived from a route, the provider allowlist, and the model scores
  with their precomputed prefix table. Identifiers are strings, scores are \<open>i32\<close> values
  that are only compared and so are integers here.
\<close>

section \<open>Data\<close>

datatype route_kind = Managed_Kind | Relay_Kind
datatype payload_transform = Structured | Opaque
datatype credential_policy = Account_Credentials | Client_Credentials
datatype destination_policy = Selected_Provider | Original_Destination
datatype operation_policy = Preserve | Translate_Compatible
datatype header_strategy =
    Provider_Owned
  | Cross_Origin_Replace_Credentials
  | Cross_Origin_Forward
  | Same_Origin_Replace_Credentials
  | Same_Origin_Forward
datatype qualification_namespace = Driver_Namespace | Provider_Namespace

record model_family =
  mf_name :: string
  mf_members :: "string list"

datatype model_selector =
    Capability
  | Qualified qualification_namespace
  | Family "model_family list"

datatype provider_selector = Any_Provider | Fixed_Provider string

record managed_target =
  mt_provider :: provider_selector
  mt_model :: model_selector

datatype relay_destination = Original | To_Provider string
datatype relay_credentials = Client | From_Pool

record retry_policy_plan =
  rp_max_retries :: nat
  rp_initial_backoff :: duration

datatype managed_retry = Managed_Never | Recoverable string
datatype relay_retry = Relay_Never | Safe_Methods string | Buffered string
datatype wire_identity = No_Identity | Provider_Default | Named_Identity string

type_synonym score_table = "(string, (string, int) bmap) bmap"

record managed_route =
  mr_target :: managed_target
  mr_operation :: operation_policy
  mr_header_patches :: "string option"
  mr_retry :: managed_retry
  mr_providers :: "string bset option"
  mr_model_scores :: score_table
  mr_model_score_prefixes :: "(string \<times> (string, int) bmap) list"

record relay_route =
  rr_destination :: relay_destination
  rr_credentials :: relay_credentials
  rr_header_patches :: "string option"
  rr_retry :: relay_retry
  rr_providers :: "string bset option"

datatype route_plan = Managed managed_route | Relay relay_route

record api_binding_plan =
  ab_path :: string
  ab_endpoints :: "string bset"

record profile_plan =
  pp_route :: string
  pp_wire_identity :: wire_identity
  pp_account_pool :: "string option"
  pp_api_binding :: "api_binding_plan option"

section \<open>Routes\<close>

definition new_managed_route ::
  "managed_target \<Rightarrow> operation_policy \<Rightarrow> string option \<Rightarrow> managed_retry \<Rightarrow> managed_route" where
  "new_managed_route target operation header_patches retry =
     \<lparr>mr_target = target, mr_operation = operation, mr_header_patches = header_patches,
      mr_retry = retry, mr_providers = None, mr_model_scores = [], mr_model_score_prefixes = []\<rparr>"

definition new_relay_route ::
  "relay_destination \<Rightarrow> relay_credentials \<Rightarrow> string option \<Rightarrow> relay_retry \<Rightarrow> relay_route" where
  "new_relay_route destination credentials header_patches retry =
     \<lparr>rr_destination = destination, rr_credentials = credentials,
      rr_header_patches = header_patches, rr_retry = retry, rr_providers = None\<rparr>"

text \<open>
  The sort order of the prefix table: longer prefixes first, equal lengths by text.
  \<open>sort_by\<close> is a stable sort on that key.
\<close>

definition prefix_key :: "string \<times> (string, int) bmap \<Rightarrow> int \<times> string" where
  "prefix_key entry = (- int (length (fst entry)), fst entry)"

definition score_prefixes :: "score_table \<Rightarrow> (string \<times> (string, int) bmap) list" where
  "score_prefixes scores =
     sort_key prefix_key
       (filter_map (\<lambda>(pattern, provider_scores).
          map_option (\<lambda>prefix. (prefix, provider_scores)) (strip_suffix ''*'' pattern)) scores)"

definition with_model_scores :: "managed_route \<Rightarrow> score_table \<Rightarrow> managed_route" where
  "with_model_scores route scores =
     route\<lparr>mr_model_score_prefixes := score_prefixes scores, mr_model_scores := scores\<rparr>"

definition provider_score :: "managed_route \<Rightarrow> string \<Rightarrow> string \<Rightarrow> int" where
  "provider_score route model provider =
     (case (case bm_get (mr_model_scores route) model of
              Some scores \<Rightarrow> if ends_with ''*'' model then None else bm_get scores provider
            | None \<Rightarrow> None) of
        Some score \<Rightarrow> score
      | None \<Rightarrow>
          (case find_map (\<lambda>(prefix, scores).
                  if starts_with prefix model then bm_get scores provider else None)
                (mr_model_score_prefixes route) of
             Some score \<Rightarrow> score
           | None \<Rightarrow> 0))"

section \<open>Axes of a route\<close>

fun with_providers :: "route_plan \<Rightarrow> string bset option \<Rightarrow> route_plan" where
  "with_providers (Managed route) providers = Managed (route\<lparr>mr_providers := providers\<rparr>)"
| "with_providers (Relay route) providers = Relay (route\<lparr>rr_providers := providers\<rparr>)"

fun route_providers :: "route_plan \<Rightarrow> string bset option" where
  "route_providers (Managed route) = mr_providers route"
| "route_providers (Relay route) = rr_providers route"

definition allows_provider :: "route_plan \<Rightarrow> string \<Rightarrow> bool" where
  "allows_provider route provider =
     (case route_providers route of None \<Rightarrow> True | Some allowed \<Rightarrow> bs_contains allowed provider)"

fun kind_of_route :: "route_plan \<Rightarrow> route_kind" where
  "kind_of_route (Managed _) = Managed_Kind"
| "kind_of_route (Relay _) = Relay_Kind"

fun request_transform :: "route_plan \<Rightarrow> payload_transform" where
  "request_transform (Managed _) = Structured"
| "request_transform (Relay _) = Opaque"

definition response_transform :: "route_plan \<Rightarrow> payload_transform" where
  "response_transform route = request_transform route"

fun credential_policy_of :: "route_plan \<Rightarrow> credential_policy" where
  "credential_policy_of (Managed _) = Account_Credentials"
| "credential_policy_of (Relay route) =
     (case rr_credentials route of
        Client \<Rightarrow> Client_Credentials
      | From_Pool \<Rightarrow> Account_Credentials)"

fun destination_policy_of :: "route_plan \<Rightarrow> destination_policy" where
  "destination_policy_of (Managed _) = Selected_Provider"
| "destination_policy_of (Relay route) =
     (case rr_destination route of
        To_Provider _ \<Rightarrow> Selected_Provider
      | Original \<Rightarrow> Original_Destination)"

fun operation_policy_of :: "route_plan \<Rightarrow> operation_policy" where
  "operation_policy_of (Managed route) = mr_operation route"
| "operation_policy_of (Relay _) = Preserve"

fun header_strategy_of :: "route_plan \<Rightarrow> header_strategy" where
  "header_strategy_of (Managed _) = Provider_Owned"
| "header_strategy_of (Relay route) =
     (case (rr_destination route, rr_credentials route) of
        (To_Provider _, From_Pool) \<Rightarrow> Cross_Origin_Replace_Credentials
      | (To_Provider _, Client) \<Rightarrow> Cross_Origin_Forward
      | (Original, From_Pool) \<Rightarrow> Same_Origin_Replace_Credentials
      | (Original, Client) \<Rightarrow> Same_Origin_Forward)"

fun header_patches_of :: "route_plan \<Rightarrow> string option" where
  "header_patches_of (Managed route) = mr_header_patches route"
| "header_patches_of (Relay route) = rr_header_patches route"

definition new_profile_plan :: "string \<Rightarrow> wire_identity \<Rightarrow> profile_plan" where
  "new_profile_plan route identity =
     \<lparr>pp_route = route, pp_wire_identity = identity, pp_account_pool = None, pp_api_binding = None\<rparr>"

section \<open>The prefix table picks the longest prefix\<close>

text \<open>
  The reference: without an exact rule, ask every prefix of the model, from the whole
  model down to the empty text, for a rule \<open>prefix*\<close> that configures the provider.
\<close>

definition exact_rule :: "score_table \<Rightarrow> string \<Rightarrow> string \<Rightarrow> int option" where
  "exact_rule scores model provider =
     (if ends_with ''*'' model then None
      else Option.bind (bm_get scores model) (\<lambda>t. bm_get t provider))"

definition prefix_rule :: "score_table \<Rightarrow> string \<Rightarrow> string \<Rightarrow> nat \<Rightarrow> int option" where
  "prefix_rule scores model provider n =
     Option.bind (bm_get scores (take n model @ ''*'')) (\<lambda>t. bm_get t provider)"

definition reference_score :: "score_table \<Rightarrow> string \<Rightarrow> string \<Rightarrow> int" where
  "reference_score scores model provider =
     (case exact_rule scores model provider of
        Some s \<Rightarrow> s
      | None \<Rightarrow>
          (case find_map (prefix_rule scores model provider) (rev [0..<Suc (length model)]) of
             Some s \<Rightarrow> s
           | None \<Rightarrow> 0))"

lemma set_score_prefixes:
  "set (score_prefixes scores) = {(p, t). (p @ ''*'', t) \<in> set scores}"
  by (force simp: score_prefixes_def set_filter_map strip_suffix_iff)

lemma sorted_score_prefixes:
  "sorted_wrt (\<lambda>a b. length (fst b) \<le> length (fst a)) (score_prefixes scores)"
proof -
  have "sorted (map prefix_key (score_prefixes scores))" by (simp add: score_prefixes_def)
  then have "sorted_wrt (\<lambda>a b. prefix_key a \<le> prefix_key b) (score_prefixes scores)"
    by (simp add: sorted_map)
  then show ?thesis
    by (rule sorted_wrt_mono_rel [rotated]) (auto simp: prefix_key_def less_eq_prod_def)
qed

lemma find_map_longest:
  assumes "sorted_wrt (\<lambda>a b. length (fst b) \<le> length (fst a)) xs" and "find_map f xs = Some y"
  shows "\<exists>x \<in> set xs. f x = Some y \<and> (\<forall>x' \<in> set xs. length (fst x) < length (fst x') \<longrightarrow> f x' = None)"
proof -
  from assms(2) obtain as x bs where xs: "xs = as @ x # bs" "f x = Some y" "\<forall>a \<in> set as. f a = None"
    by (auto simp: find_map_split)
  with assms(1) have "\<forall>b \<in> set bs. length (fst b) \<le> length (fst x)"
    by (simp add: sorted_wrt_append)
  with xs show ?thesis by (intro bexI [of _ x]) (auto simp: not_less)
qed

lemma find_map_down:
  "find_map g (rev [0..<n]) = Some y \<longleftrightarrow> (\<exists>k < n. g k = Some y \<and> (\<forall>k'. k < k' \<longrightarrow> k' < n \<longrightarrow> g k' = None))"
proof (induction n)
  case (Suc n)
  show ?case
  proof (cases "g n")
    case None
    have "(\<exists>k < Suc n. g k = Some y \<and> (\<forall>k'. k < k' \<longrightarrow> k' < Suc n \<longrightarrow> g k' = None)) \<longleftrightarrow>
          (\<exists>k < n. g k = Some y \<and> (\<forall>k'. k < k' \<longrightarrow> k' < n \<longrightarrow> g k' = None))"
      using None less_Suc_eq by (metis option.distinct(1))
    with None Suc show ?thesis by simp
  next
    case (Some z)
    then have "find_map g (rev [0..<Suc n]) = Some z" by simp
    moreover have "(\<exists>k < Suc n. g k = Some y \<and> (\<forall>k'. k < k' \<longrightarrow> k' < Suc n \<longrightarrow> g k' = None)) \<longleftrightarrow> z = y"
      using Some less_Suc_eq by (metis option.distinct(1) option.inject not_less_eq)
    ultimately show ?thesis by auto
  qed
qed simp

lemma prefix_table_lookup:
  assumes ok: "bm_ok scores"
  shows "find_map (\<lambda>(prefix, t). if starts_with prefix model then bm_get t provider else None)
      (score_prefixes scores) =
    find_map (prefix_rule scores model provider) (rev [0..<Suc (length model)])"
    (is "find_map ?f ?ps = find_map ?g ?ks")
proof -
  have entry: "?g n = ?f (take n model, t)"
    if "(take n model @ ''*'', t) \<in> set scores" for n t
  proof -
    have "bm_get scores (take n model @ ''*'') = Some t" using that ok by (simp add: bm_get_iff)
    moreover have "starts_with (take n model) model"
      by (auto simp: starts_with_iff intro: exI [of _ "drop n model"])
    ultimately show ?thesis by (simp add: prefix_rule_def)
  qed
  have up: "\<exists>n \<le> length model. n = length p \<and> take n model = p" if "?f (p, t) = Some y" for p t y
    using that by (auto simp: starts_with_iff split: if_splits)
  show ?thesis
  proof (cases "find_map ?f ?ps")
    case None
    have "?g n = None" for n
    proof (rule ccontr)
      assume n: "?g n \<noteq> None"
      then obtain t where t: "(take n model @ ''*'', t) \<in> set scores"
        by (auto simp: prefix_rule_def bind_eq_Some_conv dest: bm_get_in)
      then have "(take n model, t) \<in> set ?ps" by (simp add: set_score_prefixes)
      with None have "?f (take n model, t) = None" by (simp only: find_map_None_iff)
      with entry [OF t] n show False by simp
    qed
    then have "find_map ?g ?ks = None" by (simp only: find_map_None_iff) simp
    with None show ?thesis by simp
  next
    case (Some y)
    obtain p t where pt: "(p, t) \<in> set ?ps" "?f (p, t) = Some y"
      and max: "\<And>p' t'. (p', t') \<in> set ?ps \<Longrightarrow> length p < length p' \<Longrightarrow> ?f (p', t') = None"
      using find_map_longest [OF sorted_score_prefixes Some] by fastforce
    obtain n where n: "n \<le> length model" "n = length p" "take n model = p" using up [OF pt(2)] by blast
    have tn: "(take n model @ ''*'', t) \<in> set scores" using pt(1) n by (simp add: set_score_prefixes)
    have "?g n = Some y" using entry [OF tn] pt(2) n by simp
    moreover have "?g k = None" if "n < k" "k < Suc (length model)" for k
    proof (rule ccontr)
      assume k: "?g k \<noteq> None"
      then obtain t' where t': "(take k model @ ''*'', t') \<in> set scores"
        by (auto simp: prefix_rule_def bind_eq_Some_conv dest: bm_get_in)
      then have "(take k model, t') \<in> set ?ps" by (simp add: set_score_prefixes)
      moreover have "length p < length (take k model)" using that n by simp
      ultimately have "?f (take k model, t') = None" by (rule max)
      with entry [OF t'] k show False by simp
    qed
    ultimately have "find_map ?g ?ks = Some y" using n by (auto simp only: find_map_down less_Suc_eq_le)
    with Some show ?thesis by simp
  qed
qed

section \<open>Properties\<close>

text \<open>
  C33. The precomputed, sorted prefix table gives the documented answer: an exact rule of
  the provider first, then the longest \<open>prefix*\<close> rule that configures this provider, and
  the neutral score zero without any.
\<close>

theorem provider_score_longest_prefix:
  assumes "bm_ok scores"
  shows "provider_score (with_model_scores route scores) model provider =
    reference_score scores model provider"
  using prefix_table_lookup [OF assms, of model provider]
  by (auto simp: provider_score_def with_model_scores_def reference_score_def exact_rule_def
      split: option.splits)

theorem provider_score_longest_prefix_witness:
  "provider_score
     (with_model_scores (new_managed_route \<lparr>mt_provider = Any_Provider, mt_model = Capability\<rparr>
        Preserve None Managed_Never)
        [(''gpt-*'', [(''a'', 1), (''b'', 2)]), (''gpt-5*'', [(''a'', 7)])])
     ''gpt-5'' ''b'' = 2"
proof -
  have "bm_ok [(''gpt-*'', [(''a'', 1), (''b'', 2::int)]), (''gpt-5*'', [(''a'', 7)])]" by code_simp
  moreover have "reference_score [(''gpt-*'', [(''a'', 1), (''b'', 2)]), (''gpt-5*'', [(''a'', 7)])]
      ''gpt-5'' ''b'' = 2" by code_simp
  ultimately show ?thesis by (simp only: provider_score_longest_prefix)
qed

end
