(* ===== verification/Ip_Addr.thy ===== *)
theory Ip_Addr
  imports Prelude
begin

text \<open>
  What the program uses of the standard library's \<open>std::net\<close>: the text forms of IPv4
  and IPv6 addresses. The readers follow the library's recursive-descent parser, which
  works on the remaining input and backtracks by not consuming it; an octet or a group
  is a \<^typ>\<open>nat\<close> bounded by what the reader accepts. Integer parsing
  (\<open>from_str_radix\<close>) is here too.
\<close>

section \<open>Numbers\<close>

definition digit_value :: "nat \<Rightarrow> char \<Rightarrow> nat option" where
  "digit_value radix c =
     (let v = (if 48 \<le> byte c \<and> byte c \<le> 57 then byte c - 48
               else if 97 \<le> byte c \<and> byte c \<le> 122 then byte c - 87
               else if 65 \<le> byte c \<and> byte c \<le> 90 then byte c - 55
               else radix)
      in if v < radix then Some v else None)"

definition digit_char :: "nat \<Rightarrow> char" where
  "digit_char d = char_of (if d < 10 then 48 + d else 87 + d)"

fun read_digits :: "nat \<Rightarrow> string \<Rightarrow> nat list \<times> string" where
  "read_digits radix [] = ([], [])"
| "read_digits radix (c # cs) =
     (case digit_value radix c of
        None \<Rightarrow> ([], c # cs)
      | Some d \<Rightarrow> (case read_digits radix cs of (ds, rest) \<Rightarrow> (d # ds, rest)))"

definition number_of :: "nat \<Rightarrow> nat list \<Rightarrow> nat" where
  "number_of radix ds = foldl (\<lambda>acc d. acc * radix + d) 0 ds"

fun show_radix :: "nat \<Rightarrow> nat \<Rightarrow> string" where
  "show_radix radix n =
     (if n < radix \<or> radix < 2 then [digit_char n]
      else show_radix radix (n div radix) @ [digit_char (n mod radix)])"

declare show_radix.simps [simp del]

text \<open>
  \<open>read_number\<close>: a maximal run of digits, at most \<open>max_digits\<close> of them, below
  \<open>limit\<close>, and without a superfluous leading zero unless the caller allows it.
\<close>

definition read_number ::
  "nat \<Rightarrow> nat \<Rightarrow> bool \<Rightarrow> nat \<Rightarrow> string \<Rightarrow> (nat \<times> string) option" where
  "read_number radix max_digits allow_zero_prefix limit s =
     (let (ds, rest) = read_digits radix s;
          n = number_of radix ds
      in if ds = [] \<or> max_digits < length ds
            \<or> (\<not> allow_zero_prefix \<and> hd ds = 0 \<and> 1 < length ds) \<or> limit \<le> n
         then None else Some (n, rest))"

text \<open>
  \<open>uN::from_str_radix\<close>: an optional \<open>+\<close>, then digits only, below \<open>limit\<close> (overflow is
  an error).
\<close>

definition from_str_radix :: "nat \<Rightarrow> nat \<Rightarrow> string \<Rightarrow> nat option" where
  "from_str_radix limit radix s =
     (let body = (case s of c # cs \<Rightarrow> if c = CHR ''+'' then cs else s | [] \<Rightarrow> s);
          (ds, rest) = read_digits radix body
      in if body = [] \<or> rest \<noteq> [] \<or> limit \<le> number_of radix ds then None
         else Some (number_of radix ds))"

definition read_char :: "char \<Rightarrow> string \<Rightarrow> string option" where
  "read_char c s = (case s of [] \<Rightarrow> None | x # xs \<Rightarrow> if x = c then Some xs else None)"

definition read_separator :: "char \<Rightarrow> nat \<Rightarrow> string \<Rightarrow> string option" where
  "read_separator c index s = (if 0 < index then read_char c s else Some s)"

section \<open>IPv4\<close>

datatype ipv4_addr = Ipv4 nat nat nat nat

definition ipv4_ok :: "ipv4_addr \<Rightarrow> bool" where
  "ipv4_ok a = (case a of Ipv4 p q r s \<Rightarrow> p < 256 \<and> q < 256 \<and> r < 256 \<and> s < 256)"

definition read_octet :: "nat \<Rightarrow> string \<Rightarrow> (nat \<times> string) option" where
  "read_octet index s =
     Option.bind (read_separator CHR ''.'' index s) (read_number 10 3 False 256)"

definition read_ipv4 :: "string \<Rightarrow> (ipv4_addr \<times> string) option" where
  "read_ipv4 s =
     Option.bind (read_octet 0 s) (\<lambda>(a, s1).
     Option.bind (read_octet 1 s1) (\<lambda>(b, s2).
     Option.bind (read_octet 2 s2) (\<lambda>(c, s3).
     Option.bind (read_octet 3 s3) (\<lambda>(d, s4). Some (Ipv4 a b c d, s4)))))"

definition ipv4_of_u32 :: "nat \<Rightarrow> ipv4_addr" where
  "ipv4_of_u32 v = Ipv4 (v div 2 ^ 24 mod 256) (v div 2 ^ 16 mod 256) (v div 2 ^ 8 mod 256) (v mod 256)"

definition show_ipv4 :: "ipv4_addr \<Rightarrow> string" where
  "show_ipv4 a = (case a of Ipv4 p q r s \<Rightarrow>
     show_radix 10 p @ ''.'' @ show_radix 10 q @ ''.'' @ show_radix 10 r @ ''.'' @ show_radix 10 s)"

definition ipv4_is_loopback :: "ipv4_addr \<Rightarrow> bool" where
  "ipv4_is_loopback a = (case a of Ipv4 p q r s \<Rightarrow> p = 127)"

section \<open>IPv6\<close>

text \<open>
  \<open>read_groups\<close>: up to \<open>limit\<close> groups; while two groups remain, an embedded IPv4
  address takes two of them and ends the reading. The result is the groups read, whether
  the last two came from an IPv4 address, and the remaining input.
\<close>

fun read_groups :: "nat \<Rightarrow> nat \<Rightarrow> string \<Rightarrow> nat list \<times> bool \<times> string" where
  "read_groups 0 i s = ([], False, s)"
| "read_groups (Suc left) i s =
     (case (if 0 < left then Option.bind (read_separator CHR '':'' i s) read_ipv4 else None) of
        Some (Ipv4 a b c d, rest) \<Rightarrow> ([a * 256 + b, c * 256 + d], True, rest)
      | None \<Rightarrow>
          (case Option.bind (read_separator CHR '':'' i s) (read_number 16 4 True 65536) of
             None \<Rightarrow> ([], False, s)
           | Some (g, rest) \<Rightarrow>
               (case read_groups left (Suc i) rest of (gs, v4, rest') \<Rightarrow> (g # gs, v4, rest'))))"

definition read_ipv6 :: "string \<Rightarrow> (nat list \<times> string) option" where
  "read_ipv6 s =
     (let (head, head_ipv4, s1) = read_groups 8 0 s
      in if length head = 8 then Some (head, s1)
         else if head_ipv4 then None
         else Option.bind (read_char CHR '':'' s1) (\<lambda>s2.
              Option.bind (read_char CHR '':'' s2) (\<lambda>s3.
                let (tail, _, s4) = read_groups (8 - (length head + 1)) 0 s3
                in Some (head @ replicate (8 - length head - length tail) 0 @ tail, s4))))"

definition ipv6_ok :: "nat list \<Rightarrow> bool" where
  "ipv6_ok gs \<longleftrightarrow> length gs = 8 \<and> (\<forall>g \<in> set gs. g < 65536)"

text \<open>The first longest run of zero groups, as (start, length).\<close>

fun zero_run :: "nat \<Rightarrow> nat \<times> nat \<Rightarrow> nat \<times> nat \<Rightarrow> nat list \<Rightarrow> nat \<times> nat" where
  "zero_run i cur longest [] = longest"
| "zero_run i cur longest (g # gs) =
     (if g = 0 then
        (let start = (if snd cur = 0 then i else fst cur);
             cur' = (start, Suc (snd cur));
             longest' = (if snd longest < snd cur' then cur' else longest)
         in zero_run (Suc i) cur' longest' gs)
      else zero_run (Suc i) (0, 0) longest gs)"

definition show_groups :: "nat list \<Rightarrow> string" where
  "show_groups gs = join_with '':'' (map (show_radix 16) gs)"

definition ipv4_mapped :: "nat list \<Rightarrow> ipv4_addr option" where
  "ipv4_mapped gs =
     (if take 6 gs = [0, 0, 0, 0, 0, 65535] \<and> length gs = 8
      then Some (Ipv4 (gs ! 6 div 256) (gs ! 6 mod 256) (gs ! 7 div 256) (gs ! 7 mod 256))
      else None)"

definition show_ipv6 :: "nat list \<Rightarrow> string" where
  "show_ipv6 gs =
     (case ipv4_mapped gs of
        Some v4 \<Rightarrow> ''::ffff:'' @ show_ipv4 v4
      | None \<Rightarrow>
          (case zero_run 0 (0, 0) (0, 0) gs of (start, len) \<Rightarrow>
             if 1 < len
             then show_groups (take start gs) @ ''::'' @ show_groups (drop (start + len) gs)
             else show_groups gs))"

definition ipv6_is_loopback :: "nat list \<Rightarrow> bool" where
  "ipv6_is_loopback gs \<longleftrightarrow> gs = [0, 0, 0, 0, 0, 0, 0, 1]"

section \<open>Whole-string parsing\<close>

datatype ip_addr = V4 ipv4_addr | V6 "nat list"

definition parse_ipv6 :: "string \<Rightarrow> nat list option" where
  "parse_ipv6 s = (case read_ipv6 s of Some (a, []) \<Rightarrow> Some a | _ \<Rightarrow> None)"

definition parse_ip :: "string \<Rightarrow> ip_addr option" where
  "parse_ip s =
     (case read_ipv4 s of
        Some (a, rest) \<Rightarrow> if rest = [] then Some (V4 a) else None
      | None \<Rightarrow>
          (case read_ipv6 s of
             Some (a, rest) \<Rightarrow> if rest = [] then Some (V6 a) else None
           | None \<Rightarrow> None))"

definition show_ip :: "ip_addr \<Rightarrow> string" where
  "show_ip a = (case a of V4 v \<Rightarrow> show_ipv4 v | V6 gs \<Rightarrow> show_ipv6 gs)"

definition ip_is_loopback :: "ip_addr \<Rightarrow> bool" where
  "ip_is_loopback a = (case a of V4 v \<Rightarrow> ipv4_is_loopback v | V6 gs \<Rightarrow> ipv6_is_loopback gs)"

section \<open>Numbers round trip\<close>

lemma digit_value_char: "d < radix \<Longrightarrow> radix \<le> 36 \<Longrightarrow> digit_value radix (digit_char d) = Some d"
  by (auto simp: digit_value_def digit_char_def Let_def)

lemma digit_value_less: "digit_value radix c = Some d \<Longrightarrow> d < radix"
  by (auto simp: digit_value_def Let_def split: if_splits)

lemma digit_value_dec_iff: "digit_value 10 c = None \<longleftrightarrow> \<not> is_ascii_digit c"
  by (auto simp: digit_value_def is_ascii_digit_def Let_def)

lemma read_digits_stop:
  "(s = [] \<or> digit_value radix (hd s) = None) \<Longrightarrow> read_digits radix s = ([], s)"
  by (cases s) auto

lemma read_digits_map:
  assumes "\<forall>d \<in> set ds. d < radix" and "radix \<le> 36"
    and "s = [] \<or> digit_value radix (hd s) = None"
  shows "read_digits radix (map digit_char ds @ s) = (ds, s)"
  using assms by (induction ds) (auto simp: read_digits_stop digit_value_char)

fun digits_of :: "nat \<Rightarrow> nat \<Rightarrow> nat list" where
  "digits_of radix n =
     (if n < radix \<or> radix < 2 then [n] else digits_of radix (n div radix) @ [n mod radix])"

declare digits_of.simps [simp del]

lemma show_radix_digits: "show_radix radix n = map digit_char (digits_of radix n)"
proof (induction radix n rule: show_radix.induct)
  case (1 radix n)
  then show ?case
    by (subst show_radix.simps, subst digits_of.simps) auto
qed

lemma digits_of_less: "2 \<le> radix \<Longrightarrow> \<forall>d \<in> set (digits_of radix n). d < radix"
proof (induction radix n rule: digits_of.induct)
  case (1 radix n)
  then show ?case by (subst digits_of.simps) auto
qed

lemma digits_of_nonempty [simp]: "digits_of radix n \<noteq> []"
  by (subst digits_of.simps) auto

lemma number_of_append: "number_of radix (ds @ [d]) = number_of radix ds * radix + d"
  by (simp add: number_of_def)

lemma number_of_digits: "2 \<le> radix \<Longrightarrow> number_of radix (digits_of radix n) = n"
proof (induction radix n rule: digits_of.induct)
  case (1 radix n)
  show ?case
  proof (cases "n < radix")
    case True
    then show ?thesis by (subst digits_of.simps) (simp add: number_of_def)
  next
    case False
    with 1 show ?thesis
      by (subst digits_of.simps) (simp add: number_of_append)
  qed
qed

lemma length_digits_of:
  "2 \<le> radix \<Longrightarrow> 0 < k \<Longrightarrow> n < radix ^ k \<Longrightarrow> length (digits_of radix n) \<le> k"
proof (induction radix n arbitrary: k rule: digits_of.induct)
  case (1 radix n)
  show ?case
  proof (cases "n < radix")
    case True
    with "1.prems" show ?thesis by (subst digits_of.simps) simp
  next
    case False
    have "k \<noteq> 1" using False "1.prems" by auto
    then obtain j where k: "k = Suc j" "0 < j" using "1.prems" by (cases k) auto
    have "n div radix < radix ^ j"
      using "1.prems" k by (simp add: less_mult_imp_div_less mult.commute)
    with False "1.prems" k have "length (digits_of radix (n div radix)) \<le> j"
      using "1.IH" by simp
    with False k "1.prems" show ?thesis by (subst digits_of.simps) simp
  qed
qed

lemma hd_digits_of: "2 \<le> radix \<Longrightarrow> hd (digits_of radix n) = 0 \<Longrightarrow> n = 0"
proof (induction radix n rule: digits_of.induct)
  case (1 radix n)
  show ?case
  proof (cases "n < radix")
    case True
    with "1.prems" show ?thesis by (subst (asm) digits_of.simps) simp
  next
    case False
    with "1.prems" have "hd (digits_of radix (n div radix)) = 0"
      by (subst (asm) digits_of.simps) simp
    with False "1.prems" "1.IH" have "n div radix = 0" by simp
    with False "1.prems" show ?thesis by (simp add: div_eq_0_iff)
  qed
qed

lemma read_number_show:
  assumes "n < limit" "limit \<le> radix ^ m" "2 \<le> radix" "radix \<le> 36" "0 < m"
    and "s = [] \<or> digit_value radix (hd s) = None"
  shows "read_number radix m z limit (show_radix radix n @ s) = Some (n, s)"
proof -
  have d: "read_digits radix (show_radix radix n @ s) = (digits_of radix n, s)"
    unfolding show_radix_digits using assms digits_of_less
    by (intro read_digits_map) auto
  have "length (digits_of radix n) \<le> m"
    using assms by (intro length_digits_of) auto
  moreover have "\<not> (hd (digits_of radix n) = 0 \<and> 1 < length (digits_of radix n))"
  proof
    assume h: "hd (digits_of radix n) = 0 \<and> 1 < length (digits_of radix n)"
    then have "n = 0" using hd_digits_of [of radix n] assms by simp
    then have "digits_of radix n = [0]" using assms by (subst digits_of.simps) simp
    with h show False by simp
  qed
  ultimately show ?thesis
    using assms by (auto simp: read_number_def d number_of_digits)
qed

lemma read_number_limit: "read_number radix m z limit s = Some (n, rest) \<Longrightarrow> n < limit"
  by (auto simp: read_number_def Let_def split: prod.splits if_splits)

section \<open>IPv4 round trip\<close>

lemma read_ipv4_ok: "read_ipv4 s = Some (a, rest) \<Longrightarrow> ipv4_ok a"
  by (auto simp: read_ipv4_def read_octet_def ipv4_ok_def bind_eq_Some_conv dest!: read_number_limit)

lemma read_octet_show:
  assumes "n < 256" and "s = [] \<or> \<not> is_ascii_digit (hd s)"
  shows "read_octet 0 (show_radix 10 n @ s) = Some (n, s)"
    and "0 < i \<Longrightarrow> read_octet i (CHR ''.'' # show_radix 10 n @ s) = Some (n, s)"
proof -
  have "read_number 10 3 False 256 (show_radix 10 n @ s) = Some (n, s)"
    using assms by (intro read_number_show) (auto simp: digit_value_dec_iff)
  then show "read_octet 0 (show_radix 10 n @ s) = Some (n, s)"
    and "0 < i \<Longrightarrow> read_octet i (CHR ''.'' # show_radix 10 n @ s) = Some (n, s)"
    by (auto simp: read_octet_def read_separator_def read_char_def)
qed

lemma read_ipv4_show:
  assumes "ipv4_ok a" and "s = [] \<or> \<not> is_ascii_digit (hd s)"
  shows "read_ipv4 (show_ipv4 a @ s) = Some (a, s)"
proof -
  obtain p q r t where a: "a = Ipv4 p q r t" by (cases a)
  have dot: "\<not> is_ascii_digit CHR ''.''" by (simp add: is_ascii_digit_def)
  have "read_octet 0 (show_radix 10 p @ CHR ''.'' # show_radix 10 q @ CHR ''.'' # show_radix 10 r @ CHR ''.'' # show_radix 10 t @ s)
      = Some (p, CHR ''.'' # show_radix 10 q @ CHR ''.'' # show_radix 10 r @ CHR ''.'' # show_radix 10 t @ s)"
    using assms a dot by (intro read_octet_show(1)) (auto simp: ipv4_ok_def)
  moreover have "read_octet 1 (CHR ''.'' # show_radix 10 q @ CHR ''.'' # show_radix 10 r @ CHR ''.'' # show_radix 10 t @ s)
      = Some (q, CHR ''.'' # show_radix 10 r @ CHR ''.'' # show_radix 10 t @ s)"
    using assms a dot by (intro read_octet_show(2)) (auto simp: ipv4_ok_def)
  moreover have "read_octet 2 (CHR ''.'' # show_radix 10 r @ CHR ''.'' # show_radix 10 t @ s)
      = Some (r, CHR ''.'' # show_radix 10 t @ s)"
    using assms a dot by (intro read_octet_show(2)) (auto simp: ipv4_ok_def)
  moreover have "read_octet 3 (CHR ''.'' # show_radix 10 t @ s) = Some (t, s)"
    using assms a by (intro read_octet_show(2)) (auto simp: ipv4_ok_def)
  ultimately show ?thesis by (simp add: a read_ipv4_def show_ipv4_def)
qed

lemma parse_show_ipv4: "ipv4_ok a \<Longrightarrow> parse_ip (show_ipv4 a) = Some (V4 a)"
  using read_ipv4_show [of a "[]"] by (simp add: parse_ip_def)

section \<open>IPv6 round trip\<close>

lemma digit_char_hex: "d < 16 \<Longrightarrow> digit_char d \<noteq> CHR ''.'' \<and> digit_char d \<noteq> CHR '':''"
proof -
  assume "d < 16"
  then have "byte (digit_char d) \<noteq> 46 \<and> byte (digit_char d) \<noteq> 58"
    by (auto simp: digit_char_def)
  moreover have "byte CHR ''.'' = 46" "byte CHR '':'' = 58" by simp_all
  ultimately show ?thesis by metis
qed

lemma show_hex_chars: "c \<in> set (show_radix 16 n) \<Longrightarrow> c \<noteq> CHR ''.'' \<and> c \<noteq> CHR '':''"
  using digits_of_less [of 16 n] by (auto simp: show_radix_digits digit_char_hex)

lemma show_radix_nonempty [simp]: "show_radix r n \<noteq> []"
  by (simp add: show_radix_digits)

text \<open>An IPv4 reader gives up on a hexadecimal group: no dot follows its digits.\<close>

lemma read_digits_no_dot:
  "CHR ''.'' \<notin> set w \<Longrightarrow> s = [] \<or> hd s = CHR '':'' \<Longrightarrow>
   read_char CHR ''.'' (snd (read_digits 10 (w @ s))) = None"
proof (induction w)
  case Nil
  have "digit_value 10 CHR '':'' = None" by (simp add: digit_value_def)
  with Nil show ?case by (cases s) (auto simp: read_char_def)
next
  case (Cons c w)
  then show ?case
    by (auto simp: read_char_def split: option.splits prod.splits)
qed

lemma read_ipv4_no_dot:
  assumes "CHR ''.'' \<notin> set w" and "s = [] \<or> hd s = CHR '':''"
  shows "read_ipv4 (w @ s) = None"
proof -
  have "Option.bind (read_octet 0 (w @ s)) (\<lambda>(a, s1). read_octet 1 s1) = None"
    using read_digits_no_dot [OF assms]
    by (auto simp: read_octet_def read_separator_def read_number_def Let_def
        split: prod.splits bind_splits)
  then show ?thesis
    by (auto simp: read_ipv4_def split: bind_splits)
qed

definition stops :: "nat \<Rightarrow> string \<Rightarrow> bool" where
  "stops i s \<longleftrightarrow> s = [] \<or> (if i = 0 then hd s = CHR '':'' else \<exists>t. s = CHR '':'' # CHR '':'' # t)"

lemma read_number_colon: "s = [] \<or> hd s = CHR '':'' \<Longrightarrow> read_number 16 4 z l s = None"
proof -
  have "digit_value 16 CHR '':'' = None" by (simp add: digit_value_def)
  moreover assume "s = [] \<or> hd s = CHR '':''"
  ultimately have "read_digits 16 s = ([], s)" by (intro read_digits_stop) auto
  then show ?thesis by (simp add: read_number_def)
qed

lemma read_groups_stops:
  assumes "stops i s"
  shows "read_groups left i s = ([], False, s)"
proof (cases left)
  case (Suc n)
  have "Option.bind (read_separator CHR '':'' i s) (read_number 16 4 True 65536) = None"
    and "Option.bind (read_separator CHR '':'' i s) read_ipv4 = None"
    using assms read_number_colon read_ipv4_no_dot [of "[]"]
    by (auto simp: stops_def read_separator_def read_char_def split: if_splits list.splits)
  with Suc show ?thesis by (auto split: prod.splits)
qed simp

lemma show_groups_Cons:
  "show_groups (g # gs) = show_radix 16 g @ (if gs = [] then [] else CHR '':'' # show_groups gs)"
  by (cases gs) (simp_all add: show_groups_def)

lemma read_groups_show:
  assumes "\<forall>g \<in> set gs. g < 65536" and "length gs \<le> left"
    and "length gs = left \<or> stops (i + length gs) s" and "s = [] \<or> hd s = CHR '':''"
  shows "read_groups left i
    ((if gs = [] \<or> i = 0 then [] else [CHR '':'']) @ show_groups gs @ s) = (gs, False, s)"
  using assms
proof (induction gs arbitrary: left i)
  case Nil
  then show ?case by (cases left) (auto simp: show_groups_def read_groups_stops simp del: read_groups.simps(2))
next
  case (Cons g gs)
  then obtain n where left: "left = Suc n" by (cases left) auto
  let ?more = "(if gs = [] then [] else CHR '':'' # show_groups gs) @ s"
  let ?in = "(if i = 0 then [] else [CHR '':'']) @ show_radix 16 g @ ?more"
  have more: "?more = [] \<or> hd ?more = CHR '':''" using Cons.prems by auto
  have sep: "read_separator CHR '':'' i ?in = Some (show_radix 16 g @ ?more)"
    by (auto simp: read_separator_def read_char_def)
  have v4: "read_ipv4 (show_radix 16 g @ ?more) = None"
    using more show_hex_chars by (intro read_ipv4_no_dot) auto
  have colon: "digit_value 16 CHR '':'' = None" by (simp add: digit_value_def)
  have num: "read_number 16 4 True 65536 (show_radix 16 g @ ?more) = Some (g, ?more)"
    using Cons.prems more colon by (intro read_number_show) auto
  have rest: "read_groups n (Suc i) ?more = (gs, False, s)"
  proof -
    have "?more = (if gs = [] \<or> Suc i = 0 then [] else [CHR '':'']) @ show_groups gs @ s"
      by (simp add: show_groups_def)
    then show ?thesis using Cons.IH [of n "Suc i"] Cons.prems left by simp
  qed
  have "(if g # gs = [] \<or> i = 0 then [] else [CHR '':'']) @ show_groups (g # gs) @ s = ?in"
    by (simp add: show_groups_Cons)
  moreover have "0 < n" if "gs \<noteq> []" using that Cons.prems left by (cases gs) auto
  ultimately show ?case using sep v4 num rest by (auto simp: left)
qed

lemma read_groups_bounds:
  "read_groups left i s = (gs, v4, r) \<Longrightarrow> length gs \<le> left \<and> (\<forall>g \<in> set gs. g < 65536)"
proof (induction left i s arbitrary: gs v4 r rule: read_groups.induct)
  case (2 left i s)
  show ?case
  proof (cases "if 0 < left then Option.bind (read_separator CHR '':'' i s) read_ipv4 else None")
    case None
    with 2 show ?thesis
      by (fastforce simp: bind_eq_Some_conv split: option.splits prod.splits dest: read_number_limit)
  next
    case (Some p)
    then have left: "0 < left" by (auto split: if_splits)
    obtain a b c d rest where p: "p = (Ipv4 a b c d, rest)" by (metis surj_pair ipv4_addr.exhaust)
    with Some have "ipv4_ok (Ipv4 a b c d)"
      by (auto simp: bind_eq_Some_conv split: if_splits intro: read_ipv4_ok)
    with Some p left 2 show ?thesis by (auto simp: ipv4_ok_def)
  qed
qed simp

lemma read_ipv6_ok: "read_ipv6 s = Some (gs, r) \<Longrightarrow> ipv6_ok gs"
proof -
  assume *: "read_ipv6 s = Some (gs, r)"
  obtain hd8 h4 s1 where r1: "read_groups 8 0 s = (hd8, h4, s1)" by (metis surj_pair)
  note b1 = read_groups_bounds [OF r1]
  show "ipv6_ok gs"
  proof (cases "length hd8 = 8")
    case True
    with * r1 b1 show ?thesis by (auto simp: read_ipv6_def ipv6_ok_def)
  next
    case False
    with * r1 obtain s3 where *: "(let (tail, _, s4) = read_groups (8 - (length hd8 + 1)) 0 s3
        in Some (hd8 @ replicate (8 - length hd8 - length tail) 0 @ tail, s4)) = Some (gs, r)"
      by (auto simp: read_ipv6_def bind_eq_Some_conv split: if_splits)
    obtain tl8 t4 s4 where r2: "read_groups (8 - (length hd8 + 1)) 0 s3 = (tl8, t4, s4)"
      by (metis surj_pair)
    from read_groups_bounds [OF r2] b1 False * r2 show ?thesis
      by (auto simp: ipv6_ok_def)
  qed
qed

definition run_ok :: "nat list \<Rightarrow> nat \<times> nat \<Rightarrow> bool" where
  "run_ok gs r \<longleftrightarrow> (0 < snd r \<longrightarrow> (\<exists>xs ys. gs = xs @ replicate (snd r) 0 @ ys \<and> length xs = fst r))"

lemma run_ok_append: "run_ok gs r \<Longrightarrow> run_ok (gs @ hs) r"
  unfolding run_ok_def by force

lemma zero_run_ok:
  assumes "run_ok done longest"
    and "0 < snd cur \<longrightarrow> (\<exists>xs. done = xs @ replicate (snd cur) 0 \<and> length xs = fst cur)"
    and "i = length done"
  shows "run_ok (done @ gs) (zero_run i cur longest gs)"
  using assms
proof (induction i cur longest gs arbitrary: "done" rule: zero_run.induct)
  case (2 i cur longest g gs)
  let ?cur' = "(if snd cur = 0 then i else fst cur, Suc (snd cur))"
  show ?case
  proof (cases "g = 0")
    case True
    obtain xs where xs: "done = xs @ replicate (snd cur) 0" "length xs = fst ?cur'"
      using "2.prems" by (cases "snd cur = 0") auto
    then have cur': "done @ [0] = xs @ replicate (snd ?cur') 0"
      by (simp add: replicate_append_same)
    then have run': "run_ok (done @ [0]) ?cur'"
      unfolding run_ok_def using xs(2) by (metis append_Nil2)
    have "run_ok (done @ [0]) longest" using "2.prems" by (intro run_ok_append)
    with run' have "run_ok (done @ [0]) (if snd longest < snd ?cur' then ?cur' else longest)" by simp
    from "2.IH"(1) [OF True refl refl refl this] cur' xs(2) "2.prems" True show ?thesis
      by (auto simp: Let_def replicate_app_Cons_same)
  next
    case False
    have "run_ok (done @ [g]) longest" using "2.prems" by (intro run_ok_append)
    from "2.IH"(2) [OF False this] "2.prems" False show ?thesis by auto
  qed
qed simp

lemma zero_run_split:
  assumes "zero_run 0 (0, 0) (0, 0) gs = (start, len)" and "0 < len"
  shows "gs = take start gs @ replicate len 0 @ drop (start + len) gs" and "start + len \<le> length gs"
proof -
  have "run_ok ([] @ gs) (zero_run 0 (0, 0) (0, 0) gs)"
    by (rule zero_run_ok) (simp_all add: run_ok_def)
  with assms obtain xs ys where gs: "gs = xs @ replicate len 0 @ ys" and "length xs = start"
    by (auto simp: run_ok_def)
  then show "gs = take start gs @ replicate len 0 @ drop (start + len) gs"
    and "start + len \<le> length gs" by simp_all
qed

lemma read_groups_v4:
  "0 < left \<Longrightarrow> read_separator CHR '':'' i s = Some s' \<Longrightarrow> read_ipv4 s' = Some (Ipv4 a b c d, r) \<Longrightarrow>
   read_groups (Suc left) i s = ([a * 256 + b, c * 256 + d], True, r)"
  by simp

lemma read_groups_group:
  "read_separator CHR '':'' i s = Some s' \<Longrightarrow> read_ipv4 s' = None \<Longrightarrow>
   read_number 16 4 True 65536 s' = Some (g, r) \<Longrightarrow> read_groups left (Suc i) r = (gs, v4, r') \<Longrightarrow>
   read_groups (Suc left) i s = (g # gs, v4, r')"
  by (cases left) auto

lemma read_show_mapped:
  assumes "ipv6_ok gs" and "ipv4_mapped gs = Some v4"
  shows "read_ipv6 (''::ffff:'' @ show_ipv4 v4) = Some (gs, [])"
proof -
  from assms have len: "length gs = 8" and six: "take 6 gs = [0, 0, 0, 0, 0, 65535]"
    and v4: "v4 = Ipv4 (gs ! 6 div 256) (gs ! 6 mod 256) (gs ! 7 div 256) (gs ! 7 mod 256)"
    by (auto simp: ipv4_mapped_def ipv6_ok_def split: if_splits)
  have gs: "gs = [0, 0, 0, 0, 0, 65535, gs ! 6, gs ! 7]"
  proof -
    have "gs = take 6 gs @ [gs ! 6, gs ! 7]"
      using len by (simp add: list_eq_iff_nth_eq nth_append less_Suc_eq numeral_eq_Suc)
    with six show ?thesis by simp
  qed
  have "gs ! 6 < 65536" "gs ! 7 < 65536" using assms(1) len by (auto simp: ipv6_ok_def)
  then have "ipv4_ok v4" by (auto simp: v4 ipv4_ok_def)
  then have r4: "read_ipv4 (show_ipv4 v4) = Some (v4, [])"
    using read_ipv4_show [of v4 "[]"] by simp
  have f: "digit_char 15 = CHR ''f''"
    by (rule char_of_byte_eqI) (simp add: digit_char_def)
  have hex: "show_radix 16 65535 = ''ffff''"
    by (simp add: show_radix.simps f)
  have num: "read_number 16 4 True 65536 (''ffff'' @ CHR '':'' # show_ipv4 v4) =
      Some (65535, CHR '':'' # show_ipv4 v4)"
    using read_number_show [of 65535 65536 16 4 "CHR '':'' # show_ipv4 v4" True]
    by (simp add: hex digit_value_def)
  have no4: "read_ipv4 (''ffff'' @ CHR '':'' # show_ipv4 v4) = None"
    by (rule read_ipv4_no_dot) simp_all
  have tail2: "read_groups (Suc 5) (Suc 0) (CHR '':'' # show_ipv4 v4) = ([gs ! 6, gs ! 7], True, [])"
    using read_groups_v4 [of 5 "Suc 0" _ "show_ipv4 v4" "gs ! 6 div 256" "gs ! 6 mod 256"
        "gs ! 7 div 256" "gs ! 7 mod 256" "[]"] r4
    by (simp only: v4) (simp add: read_separator_def read_char_def del: read_groups.simps)
  have "read_groups (Suc (Suc 5)) 0 (''ffff'' @ CHR '':'' # show_ipv4 v4) =
      ([65535, gs ! 6, gs ! 7], True, [])"
    by (rule read_groups_group [OF _ no4 num tail2]) (simp add: read_separator_def)
  then have tail: "read_groups 7 0 (''ffff'' @ CHR '':'' # show_ipv4 v4) = ([65535, gs ! 6, gs ! 7], True, [])"
    by (simp only: Suc_numeral add_num_simps One_nat_def)
  have hd8: "read_groups 8 0 (''::'' @ t) = ([], False, ''::'' @ t)" for t
    by (rule read_groups_stops) (simp add: stops_def)
  have "read_ipv6 (''::ffff:'' @ show_ipv4 v4) = Some (replicate 5 0 @ [65535, gs ! 6, gs ! 7], [])"
    using hd8 [of "''ffff:'' @ show_ipv4 v4"] tail by (simp add: read_ipv6_def read_char_def)
  moreover have "replicate 5 (0::nat) = [0, 0, 0, 0, 0]" by (simp add: numeral_eq_Suc)
  then have "replicate 5 0 @ [65535, gs ! 6, gs ! 7] = gs" by (subst gs) simp
  ultimately show ?thesis by simp
qed

lemma read_show_ipv6:
  assumes "ipv6_ok gs"
  shows "read_ipv6 (show_ipv6 gs) = Some (gs, [])"
proof (cases "ipv4_mapped gs")
  case (Some v4)
  with assms read_show_mapped show ?thesis by (simp add: show_ipv6_def)
next
  case None
  obtain start len where run: "zero_run 0 (0, 0) (0, 0) gs = (start, len)" by fastforce
  from assms have gs: "length gs = 8" "\<forall>g \<in> set gs. g < 65536" by (auto simp: ipv6_ok_def)
  show ?thesis
  proof (cases "1 < len")
    case True
    let ?front = "take start gs" and ?bk = "drop (start + len) gs"
    note split = zero_run_split [OF run]
    from True split(2) gs have front: "length ?front = start" "start + len \<le> 8" by auto
    let ?in = "show_groups ?front @ ''::'' @ show_groups ?bk"
    have small: "\<forall>g \<in> set ?front. g < 65536" "\<forall>g \<in> set ?bk. g < 65536"
      using gs by (auto dest: in_set_takeD in_set_dropD)
    have r1: "read_groups 8 0 ?in = (?front, False, ''::'' @ show_groups ?bk)"
      using read_groups_show [OF small(1), of 8 0 "''::'' @ show_groups ?bk"] front
      by (simp add: stops_def)
    have r2: "read_groups (8 - (start + 1)) 0 (show_groups ?bk) = (?bk, False, [])"
      using read_groups_show [OF small(2), of "8 - (start + 1)" 0 "[]"] gs front True
      by (simp add: stops_def)
    have "8 - start - length ?bk = len" using gs front by simp
    with r1 r2 front gs True split(1) show ?thesis
      by (simp add: show_ipv6_def None run read_ipv6_def Let_def read_char_def)
  next
    case False
    have "read_groups 8 0 (show_groups gs) = (gs, False, [])"
      using read_groups_show [of gs 8 0 "[]"] gs by auto
    with gs False show ?thesis by (simp add: show_ipv6_def None run read_ipv6_def)
  qed
qed

text \<open>No IPv6 text is mistaken for IPv4, so \<open>IpAddr\<close> parsing round-trips too.\<close>

lemma read_ipv4_show_ipv6: "ipv6_ok gs \<Longrightarrow> read_ipv4 (show_ipv6 gs) = None"
proof -
  assume "ipv6_ok gs"
  then have ne: "gs \<noteq> []" by (auto simp: ipv6_ok_def)
  have groups: "\<exists>w t. show_groups hs @ r = w @ t \<and> CHR ''.'' \<notin> set w \<and> (t = [] \<or> hd t = CHR '':'')"
    if "hs \<noteq> [] \<or> r \<noteq> []" "r = [] \<or> hd r = CHR '':''" for hs r
  proof (cases hs)
    case Nil
    with that show ?thesis by (intro exI [of _ "[]"] exI [of _ r]) (simp add: show_groups_def)
  next
    case (Cons g gs')
    then show ?thesis using that show_hex_chars [of _ g]
      by (intro exI [of _ "show_radix 16 g"] exI [of _ "(if gs' = [] then [] else CHR '':'' # show_groups gs') @ r"])
        (auto simp: show_groups_Cons)
  qed
  have "\<exists>w t. show_ipv6 gs = w @ t \<and> CHR ''.'' \<notin> set w \<and> (t = [] \<or> hd t = CHR '':'')"
  proof (cases "ipv4_mapped gs")
    case (Some v4)
    then show ?thesis
      by (intro exI [of _ "[]"] exI [of _ "show_ipv6 gs"]) (simp add: show_ipv6_def)
  next
    case None
    with groups [of gs "[]"] ne groups [of "take start gs" "''::'' @ show_groups (drop (start + len) gs)" for start len]
    show ?thesis by (auto simp: show_ipv6_def split: prod.splits)
  qed
  then show ?thesis using read_ipv4_no_dot by metis
qed

lemma parse_show_ipv6: "ipv6_ok gs \<Longrightarrow> parse_ip (show_ipv6 gs) = Some (V6 gs)"
  by (simp add: parse_ip_def read_ipv4_show_ipv6 read_show_ipv6)

end
