(* ===== verification/Authority.thy ===== *)
theory Authority
  imports Ip_Addr
begin

text \<open>
  Canonical hosts and authorities (crates/policy/src/authority.rs): the strict host
  parser that keeps DNS names apart from every textual form of an IP address, the
  authority parser on top of it, and the ingress authority of a request, against which
  an inner request authority is checked.

  A port (\<open>NonZeroU16\<close>) is a \<^typ>\<open>nat\<close>, bounded by what \<open>parse_port\<close> accepts; the
  parameter \<open>default_port\<close> of the callers is a \<^typ>\<open>nat\<close> too.
\<close>

section \<open>Hosts\<close>

datatype host_kind = Dns | Ipv4_Kind | Ipv6_Kind

record canonical_host =
  ch_value :: string
  ch_kind :: host_kind

datatype invalid_host =
    Host_Empty
  | Non_Ascii
  | Whitespace_Or_Control
  | Malformed_Brackets
  | Invalid_Bracketed_Ipv6
  | Port_Not_Allowed
  | Trailing_Dot
  | Too_Long
  | Invalid_Dns_Label
  | Ambiguous_Numeric_Suffix
  | Non_Canonical_Ipv4 ipv4_addr

definition is_dns :: "canonical_host \<Rightarrow> bool" where
  "is_dns h \<longleftrightarrow> ch_kind h = Dns"

definition is_ip :: "canonical_host \<Rightarrow> bool" where
  "is_ip h \<longleftrightarrow> ch_kind h = Ipv4_Kind \<or> ch_kind h = Ipv6_Kind"

definition is_ipv6 :: "canonical_host \<Rightarrow> bool" where
  "is_ipv6 h \<longleftrightarrow> ch_kind h = Ipv6_Kind"

definition is_loopback :: "canonical_host \<Rightarrow> bool" where
  "is_loopback h =
     (case ch_kind h of
        Dns \<Rightarrow> False
      | _ \<Rightarrow> (case parse_ip (ch_value h) of Some a \<Rightarrow> ip_is_loopback a | None \<Rightarrow> False))"

definition is_strict_subdomain_of :: "canonical_host \<Rightarrow> canonical_host \<Rightarrow> bool" where
  "is_strict_subdomain_of h suffix \<longleftrightarrow>
     is_dns h \<and> is_dns suffix \<and>
     (case strip_suffix (ch_value suffix) (ch_value h) of
        None \<Rightarrow> False
      | Some prefix \<Rightarrow> ends_with ''.'' prefix \<and> 1 < length prefix)"

definition authority_host_text :: "canonical_host \<Rightarrow> string" where
  "authority_host_text h =
     (if is_ipv6 h then ''['' @ ch_value h @ '']'' else ch_value h)"

definition parse_legacy_ipv4_number :: "string \<Rightarrow> nat option" where
  "parse_legacy_ipv4_number raw =
     (if raw = [] then None
      else
        let (digits, radix) =
          (case strip_prefix ''0x'' raw of
             Some d \<Rightarrow> (d, 16)
           | None \<Rightarrow>
               (case strip_prefix ''0X'' raw of
                  Some d \<Rightarrow> (d, 16)
                | None \<Rightarrow>
                    if 1 < length raw
                    then (case strip_prefix ''0'' raw of Some d \<Rightarrow> (d, 8) | None \<Rightarrow> (raw, 10))
                    else (raw, 10)))
        in if digits = [] then Some 0 else from_str_radix (2 ^ 64) radix digits)"

fun collect_some :: "'a option list \<Rightarrow> 'a list option" where
  "collect_some [] = Some []"
| "collect_some (None # xs) = None"
| "collect_some (Some x # xs) = map_option (\<lambda>ys. x # ys) (collect_some xs)"

definition legacy_value :: "nat list \<Rightarrow> nat" where
  "legacy_value numbers =
     last numbers +
     sum_list (map (\<lambda>(index, number). number * 2 ^ (8 * (3 - index))) (enumerate 0 (butlast numbers)))"

definition parse_legacy_ipv4 :: "string \<Rightarrow> ipv4_addr option" where
  "parse_legacy_ipv4 raw =
     (let pieces = split_on CHR ''.'' raw
      in if pieces = [] \<or> 4 < length pieces then None
         else
           (case collect_some (map parse_legacy_ipv4_number pieces) of
              None \<Rightarrow> None
            | Some numbers \<Rightarrow>
                if \<exists>number \<in> set (butlast numbers). 255 < number then None
                else
                  let last_bytes = 5 - length numbers;
                      last_limit = 2 ^ (last_bytes * 8)
                  in if last_limit \<le> last numbers then None
                     else Some (ipv4_of_u32 (legacy_value numbers mod 2 ^ 32))))"

definition valid_dns_label :: "string \<Rightarrow> bool" where
  "valid_dns_label label \<longleftrightarrow>
     label \<noteq> [] \<and> length label \<le> 63 \<and>
     is_ascii_alphanumeric (hd label) \<and> is_ascii_alphanumeric (last label) \<and>
     (\<forall>c \<in> set label. is_ascii_alphanumeric c \<or> c = CHR ''-'')"

definition top_level_label :: "string \<Rightarrow> string" where
  "top_level_label raw = (case rsplit_once CHR ''.'' raw of None \<Rightarrow> raw | Some (_, tld) \<Rightarrow> tld)"

definition validate_dns_name :: "string \<Rightarrow> invalid_host + unit" where
  "validate_dns_name raw =
     (if 253 < length raw then Inl Too_Long
      else if \<exists>label \<in> set (split_on CHR ''.'' raw). \<not> valid_dns_label label
      then Inl Invalid_Dns_Label
      else if (\<forall>c \<in> set (top_level_label raw). is_ascii_digit c)
              \<or> parse_legacy_ipv4_number (top_level_label raw) \<noteq> None
      then Inl Ambiguous_Numeric_Suffix
      else Inr ())"

definition ip_host :: "ip_addr \<Rightarrow> canonical_host" where
  "ip_host a =
     \<lparr>ch_value = show_ip a,
      ch_kind = (case a of V4 _ \<Rightarrow> Ipv4_Kind | V6 _ \<Rightarrow> Ipv6_Kind)\<rparr>"

definition bracketed :: "string \<Rightarrow> string option" where
  "bracketed raw = Option.bind (strip_prefix ''['' raw) (strip_suffix '']'')"

definition parse_host :: "string \<Rightarrow> invalid_host + canonical_host" where
  "parse_host raw =
     (if raw = [] then Inl Host_Empty
      else if \<exists>c \<in> set raw. \<not> is_ascii_char c then Inl Non_Ascii
      else if \<exists>c \<in> set raw. is_ascii_whitespace c \<or> is_ascii_control c then Inl Whitespace_Or_Control
      else
        (case bracketed raw of
           Some inner \<Rightarrow>
             (case parse_ipv6 inner of
                None \<Rightarrow> Inl Invalid_Bracketed_Ipv6
              | Some gs \<Rightarrow> Inr \<lparr>ch_value = show_ipv6 gs, ch_kind = Ipv6_Kind\<rparr>)
         | None \<Rightarrow>
             if CHR ''['' \<in> set raw \<or> CHR '']'' \<in> set raw then Inl Malformed_Brackets
             else
               (case parse_ip raw of
                  Some a \<Rightarrow> Inr (ip_host a)
                | None \<Rightarrow>
                    if CHR '':'' \<in> set raw then Inl Port_Not_Allowed
                    else if ends_with ''.'' raw then Inl Trailing_Dot
                    else
                      (case parse_legacy_ipv4 raw of
                         Some a \<Rightarrow> Inl (Non_Canonical_Ipv4 a)
                       | None \<Rightarrow>
                           (case validate_dns_name raw of
                              Inl e \<Rightarrow> Inl e
                            | Inr _ \<Rightarrow> Inr \<lparr>ch_value = str_lower raw, ch_kind = Dns\<rparr>)))))"

section \<open>Authorities\<close>

record canonical_authority =
  ca_host :: canonical_host
  ca_port :: "nat option"

record resolved_authority =
  ra_host :: canonical_host
  ra_port :: nat

datatype invalid_authority =
    Authority_Empty
  | Invalid_Characters
  | User_Info_Not_Allowed
  | Malformed_Ipv6_Brackets
  | Brackets_Require_Ipv6
  | Ipv6_Must_Be_Bracketed
  | Invalid_Port
  | Missing_Port
  | Authority_Host invalid_host

definition parse_port :: "string \<Rightarrow> invalid_authority + nat" where
  "parse_port raw =
     (if raw = [] \<or> (\<exists>c \<in> set raw. \<not> is_ascii_digit c) then Inl Invalid_Port
      else
        (case from_str_radix (2 ^ 16) 10 raw of
           Some (Suc p) \<Rightarrow> Inr (Suc p)
         | _ \<Rightarrow> Inl Invalid_Port))"

definition parse_authority_port_suffix :: "string \<Rightarrow> invalid_authority + nat option" where
  "parse_authority_port_suffix raw =
     (if raw = [] then Inr None
      else
        (case strip_prefix '':'' raw of
           None \<Rightarrow> Inl Malformed_Ipv6_Brackets
         | Some port \<Rightarrow> (case parse_port port of Inl e \<Rightarrow> Inl e | Inr p \<Rightarrow> Inr (Some p))))"

definition parse_bracketed_authority :: "string \<Rightarrow> invalid_authority + canonical_authority" where
  "parse_bracketed_authority rest =
     (case split_once CHR '']'' rest of
        None \<Rightarrow> Inl Malformed_Ipv6_Brackets
      | Some (raw_host, suffix) \<Rightarrow>
          (case parse_host raw_host of
             Inl e \<Rightarrow> Inl (Authority_Host e)
           | Inr host \<Rightarrow>
               if \<not> is_ipv6 host then Inl Brackets_Require_Ipv6
               else
                 (case parse_authority_port_suffix suffix of
                    Inl e \<Rightarrow> Inl e
                  | Inr port \<Rightarrow> Inr \<lparr>ca_host = host, ca_port = port\<rparr>)))"

definition parse_plain_authority :: "string \<Rightarrow> invalid_authority + canonical_authority" where
  "parse_plain_authority raw =
     (if CHR ''['' \<in> set raw \<or> CHR '']'' \<in> set raw then Inl Malformed_Ipv6_Brackets
      else if 1 < length (filter (\<lambda>c. c = CHR '':'') raw) then Inl Ipv6_Must_Be_Bracketed
      else
        (case (case split_once CHR '':'' raw of
                 Some (host, raw_port) \<Rightarrow>
                   (case parse_port raw_port of Inl e \<Rightarrow> Inl e | Inr p \<Rightarrow> Inr (host, Some p))
               | None \<Rightarrow> Inr (raw, None)) of
           Inl e \<Rightarrow> Inl e
         | Inr (raw_host, port) \<Rightarrow>
             (case parse_host raw_host of
                Inl e \<Rightarrow> Inl (Authority_Host e)
              | Inr host \<Rightarrow> Inr \<lparr>ca_host = host, ca_port = port\<rparr>)))"

definition parse_authority :: "string \<Rightarrow> invalid_authority + canonical_authority" where
  "parse_authority raw =
     (if raw = [] then Inl Authority_Empty
      else if (\<exists>c \<in> set raw. \<not> is_ascii_char c)
              \<or> (\<exists>c \<in> set raw. is_ascii_whitespace c \<or> is_ascii_control c)
      then Inl Invalid_Characters
      else if CHR ''@'' \<in> set raw then Inl User_Info_Not_Allowed
      else if \<exists>c \<in> {CHR ''/'', CHR ''?'', CHR ''#'', CHR 0x5C, CHR ''%''}. c \<in> set raw then Inl Invalid_Characters
      else
        (case strip_prefix ''['' raw of
           Some rest \<Rightarrow> parse_bracketed_authority rest
         | None \<Rightarrow> parse_plain_authority raw))"

definition authority_text :: "canonical_authority \<Rightarrow> string" where
  "authority_text a =
     authority_host_text (ca_host a) @
     (case ca_port a of None \<Rightarrow> [] | Some p \<Rightarrow> CHR '':'' # show_radix 10 p)"

definition resolved_text :: "resolved_authority \<Rightarrow> string" where
  "resolved_text a = authority_host_text (ra_host a) @ CHR '':'' # show_radix 10 (ra_port a)"

definition into_resolved :: "canonical_authority \<Rightarrow> nat \<Rightarrow> resolved_authority" where
  "into_resolved a default_port =
     \<lparr>ra_host = ca_host a,
      ra_port = (case ca_port a of Some p \<Rightarrow> p | None \<Rightarrow> default_port)\<rparr>"

definition into_explicit :: "canonical_authority \<Rightarrow> invalid_authority + resolved_authority" where
  "into_explicit a =
     (case ca_port a of
        None \<Rightarrow> Inl Missing_Port
      | Some port \<Rightarrow> Inr \<lparr>ra_host = ca_host a, ra_port = port\<rparr>)"

section \<open>Ingress authorities\<close>

datatype ingress_source = Direct_Http | Connect

record ingress_authority =
  ia_authority :: resolved_authority
  ia_source :: ingress_source

record authority_mismatch =
  am_expected :: resolved_authority
  am_found :: resolved_authority

definition from_http :: "canonical_authority \<Rightarrow> nat \<Rightarrow> ingress_authority" where
  "from_http authority default_port =
     \<lparr>ia_authority = into_resolved authority default_port, ia_source = Direct_Http\<rparr>"

definition from_connect_authority :: "canonical_authority \<Rightarrow> invalid_authority + ingress_authority" where
  "from_connect_authority authority =
     (case into_explicit authority of
        Inl e \<Rightarrow> Inl e
      | Inr a \<Rightarrow> Inr \<lparr>ia_authority = a, ia_source = Connect\<rparr>)"

definition from_connect :: "string \<Rightarrow> invalid_authority + ingress_authority" where
  "from_connect raw =
     (case parse_authority raw of Inl e \<Rightarrow> Inl e | Inr a \<Rightarrow> from_connect_authority a)"

definition ia_host :: "ingress_authority \<Rightarrow> canonical_host" where
  "ia_host ingress = ra_host (ia_authority ingress)"

definition ia_port :: "ingress_authority \<Rightarrow> nat" where
  "ia_port ingress = ra_port (ia_authority ingress)"

definition validate_inner ::
  "ingress_authority \<Rightarrow> canonical_authority \<Rightarrow> nat \<Rightarrow> authority_mismatch + unit" where
  "validate_inner ingress inner default_port =
     (let found = into_resolved inner default_port
      in if found = ia_authority ingress then Inr ()
         else Inl \<lparr>am_expected = ia_authority ingress, am_found = found\<rparr>)"

section \<open>Label boundaries\<close>

lemma split_on_append: "split_on c (a @ c # b) = split_on c a @ split_on c b"
  by (induction a) (auto split: list.splits)

lemma valid_labels_no_dot_edges:
  assumes "\<forall>l \<in> set (split_on CHR ''.'' v). l \<noteq> []"
  shows "v \<noteq> []" and "hd v \<noteq> CHR ''.''"
  using assms by (cases v; auto split: if_splits)+

text \<open>
  The byte-level test of \<open>is_strict_subdomain_of\<close> is the label-level notion: the host's
  labels end with the suffix's labels and at least one label precedes them.
\<close>

definition labels :: "canonical_host \<Rightarrow> string list" where
  "labels h = split_on CHR ''.'' (ch_value h)"

definition dns_labelled :: "canonical_host \<Rightarrow> bool" where
  "dns_labelled h \<longleftrightarrow> is_dns h \<and> (\<forall>l \<in> set (labels h). l \<noteq> [])"

lemma strict_subdomain_labels:
  assumes "dns_labelled h" and "dns_labelled s"
  shows "is_strict_subdomain_of h s \<longleftrightarrow> (\<exists>ls. ls \<noteq> [] \<and> labels h = ls @ labels s)"
proof
  assume "is_strict_subdomain_of h s"
  then obtain prefix where v: "ch_value h = prefix @ ch_value s" and "ends_with ''.'' prefix"
    by (auto simp: is_strict_subdomain_of_def strip_suffix_iff split: option.splits)
  then obtain q where "prefix = q @ ''.''" by (auto simp: ends_with_iff)
  with v have "labels h = split_on CHR ''.'' q @ labels s"
    by (simp add: labels_def split_on_append)
  then show "\<exists>ls. ls \<noteq> [] \<and> labels h = ls @ labels s"
    by (intro exI [of _ "split_on CHR ''.'' q"]) simp
next
  assume "\<exists>ls. ls \<noteq> [] \<and> labels h = ls @ labels s"
  then obtain ls where ls: "ls \<noteq> []" "labels h = ls @ labels s" by blast
  have join: "ys \<noteq> [] \<Longrightarrow> zs \<noteq> [] \<Longrightarrow> join_with sep (ys @ zs) = join_with sep ys @ sep @ join_with sep zs"
    for sep :: string and ys zs
  proof (induction ys)
    case (Cons y ys)
    then show ?case by (cases ys) (auto simp: join_with_Cons)
  qed simp
  have "labels s \<noteq> []" by (simp add: labels_def)
  with ls have "join_with ''.'' (labels h) = join_with ''.'' ls @ ''.'' @ join_with ''.'' (labels s)"
    by (simp add: join)
  then have v: "ch_value h = (join_with ''.'' ls @ ''.'') @ ch_value s"
    by (simp add: labels_def)
  from ls assms(1) have "hd ls \<noteq> []" by (cases ls) (auto simp: dns_labelled_def)
  with ls(1) have "join_with ''.'' ls \<noteq> []" by (cases ls; cases "tl ls") auto
  then have "1 < length (join_with ''.'' ls @ ''.'')" by (cases "join_with ''.'' ls") auto
  moreover have "ends_with ''.'' (join_with ''.'' ls @ ''.'')" by (auto simp: ends_with_iff)
  ultimately show "is_strict_subdomain_of h s"
    using assms strip_suffix_append [of "ch_value s" "join_with ''.'' ls @ ''.''"]
    by (simp add: is_strict_subdomain_of_def dns_labelled_def v)
qed

lemma strict_subdomain_irrefl: "\<not> is_strict_subdomain_of h h"
  using strip_suffix_append [of "ch_value h" "[]"] by (simp add: is_strict_subdomain_of_def)

lemma strict_subdomain_length: "is_strict_subdomain_of h s \<Longrightarrow> length (ch_value s) < length (ch_value h)"
  by (auto simp: is_strict_subdomain_of_def strip_suffix_iff split: option.splits)

lemma strict_subdomain_trans:
  assumes "is_strict_subdomain_of h s" and "is_strict_subdomain_of s t"
  shows "is_strict_subdomain_of h t"
proof -
  from assms obtain p q where p: "ch_value h = p @ ch_value s" "1 < length p"
    and q: "ch_value s = q @ ch_value t" "ends_with ''.'' q"
    and "is_dns h" "is_dns t"
    by (auto simp: is_strict_subdomain_of_def strip_suffix_iff split: option.splits)
  moreover have "ch_value h = (p @ q) @ ch_value t" using p q by simp
  moreover have "ends_with ''.'' (p @ q)" using q(2) by (auto simp: ends_with_iff)
  ultimately show ?thesis
    using strip_suffix_append [of "ch_value t" "p @ q"] by (simp add: is_strict_subdomain_of_def)
qed

text \<open>The suffixes of one host are linearly ordered by \<open>is_strict_subdomain_of\<close>.\<close>

lemma strict_subdomain_asym: "is_strict_subdomain_of h s \<Longrightarrow> \<not> is_strict_subdomain_of s h"
  using strict_subdomain_length [of h s] strict_subdomain_length [of s h] by auto

section \<open>Ports\<close>

lemma parse_port_bounds: "parse_port raw = Inr p \<Longrightarrow> 0 < p \<and> p < 65536"
  by (auto simp: parse_port_def from_str_radix_def Let_def split: if_splits option.splits nat.splits prod.splits)

lemma digit_char_is_digit: "d < 10 \<Longrightarrow> is_ascii_digit (digit_char d)"
  by (auto simp: is_ascii_digit_def digit_char_def)

lemma show_dec_digits: "c \<in> set (show_radix 10 n) \<Longrightarrow> is_ascii_digit c"
  using digits_of_less [of 10 n] by (auto simp: show_radix_digits digit_char_is_digit)

lemma not_digit_plus: "\<not> is_ascii_digit CHR ''+''"
  by (simp add: is_ascii_digit_def)

lemma from_str_radix_show:
  assumes "n < limit"
  shows "from_str_radix limit 10 (show_radix 10 n) = Some n"
proof -
  have "read_digits 10 (show_radix 10 n @ []) = (digits_of 10 n, [])"
    unfolding show_radix_digits using digits_of_less by (intro read_digits_map) auto
  moreover obtain c cs where cs: "show_radix 10 n = c # cs" by (cases "show_radix 10 n") auto
  moreover have "c \<noteq> CHR ''+''" using show_dec_digits [of c n] cs not_digit_plus by auto
  ultimately show ?thesis using assms by (simp add: from_str_radix_def number_of_digits)
qed

lemma parse_port_show: "0 < p \<Longrightarrow> p < 65536 \<Longrightarrow> parse_port (show_radix 10 p) = Inr p"
  using show_dec_digits [of _ p] by (cases p) (auto simp: parse_port_def from_str_radix_show)

section \<open>Case folding\<close>

text \<open>Every check of the DNS branch gives the same answer on the lowercased text.\<close>

lemma digit_value_lower [simp]: "digit_value radix (to_ascii_lowercase c) = digit_value radix c"
  by (auto simp: digit_value_def byte_to_ascii_lowercase is_ascii_uppercase_def)

lemma read_digits_lower:
  "read_digits radix (str_lower s) = (fst (read_digits radix s), str_lower (snd (read_digits radix s)))"
  by (induction radix s rule: read_digits.induct) (auto split: option.splits prod.splits)

lemma lower_eq_symbol [simp]:
  "to_ascii_lowercase c = CHR ''.'' \<longleftrightarrow> c = CHR ''.''"
  "to_ascii_lowercase c = CHR ''-'' \<longleftrightarrow> c = CHR ''-''"
  "to_ascii_lowercase c = CHR '':'' \<longleftrightarrow> c = CHR '':''"
  "to_ascii_lowercase c = CHR ''+'' \<longleftrightarrow> c = CHR ''+''"
  "to_ascii_lowercase c = CHR ''['' \<longleftrightarrow> c = CHR ''[''"
  "to_ascii_lowercase c = CHR '']'' \<longleftrightarrow> c = CHR '']''"
  "to_ascii_lowercase c = CHR ''0'' \<longleftrightarrow> c = CHR ''0''"
  by (rule to_ascii_lowercase_eq_iff; simp add: is_ascii_lowercase_def is_ascii_uppercase_def)+

lemma lower_eq_symbol' [simp]:
  "CHR ''.'' = to_ascii_lowercase c \<longleftrightarrow> c = CHR ''.''"
  "CHR '':'' = to_ascii_lowercase c \<longleftrightarrow> c = CHR '':''"
  "CHR ''['' = to_ascii_lowercase c \<longleftrightarrow> c = CHR ''[''"
  "CHR '']'' = to_ascii_lowercase c \<longleftrightarrow> c = CHR '']''"
  "CHR ''0'' = to_ascii_lowercase c \<longleftrightarrow> c = CHR ''0''"
  using lower_eq_symbol [of c] by metis+

lemma lower_x: "to_ascii_lowercase c = CHR ''x'' \<longleftrightarrow> c = CHR ''x'' \<or> c = CHR ''X''"
proof
  assume "to_ascii_lowercase c = CHR ''x''"
  then have "byte (to_ascii_lowercase c) = 120" by simp
  then have "byte c = byte CHR ''x'' \<or> byte c = byte CHR ''X''"
    by (auto simp: byte_to_ascii_lowercase split: if_splits)
  then show "c = CHR ''x'' \<or> c = CHR ''X''" using char_of_byte_eqI by blast
next
  have "byte (to_ascii_lowercase CHR ''X'') = byte CHR ''x''"
    by (simp add: byte_to_ascii_lowercase is_ascii_uppercase_def)
  moreover assume "c = CHR ''x'' \<or> c = CHR ''X''"
  ultimately show "to_ascii_lowercase c = CHR ''x''"
    using char_of_byte_eqI [of "to_ascii_lowercase CHR ''X''" "CHR ''x''"]
    by (auto simp: to_ascii_lowercase_def [of "CHR ''x''"] is_ascii_uppercase_def)
qed

lemma lower_not_X: "to_ascii_lowercase c \<noteq> CHR ''X''"
  using not_uppercase_to_lowercase [of c] by (auto simp: is_ascii_uppercase_def)

lemma from_str_radix_lower: "from_str_radix l r (str_lower s) = from_str_radix l r s"
proof (cases s)
  case Nil
  then show ?thesis by simp
next
  case (Cons c cs)
  have "from_str_radix l r (str_lower s) = from_str_radix l r s"
    if "body = (if c = CHR ''+'' then cs else s)" for body
    using that Cons read_digits_lower [of r s] read_digits_lower [of r cs]
    by (auto simp: from_str_radix_def Let_def split: prod.splits if_splits)
  then show ?thesis by blast
qed

lemma legacy_number_lower [simp]:
  "parse_legacy_ipv4_number (str_lower s) = parse_legacy_ipv4_number s"
proof -
  consider "s = []" | c where "s = [c]" | c d r where "s = c # d # r"
    by (metis list.exhaust)
  then show ?thesis
  proof cases
    case 3
    show ?thesis
      using from_str_radix_lower [of _ _ s] from_str_radix_lower [of _ _ r]
        from_str_radix_lower [of _ _ "d # r"]
      unfolding 3
      by (cases "c = CHR ''0''"; cases "d = CHR ''x'' \<or> d = CHR ''X''")
        (auto simp: parse_legacy_ipv4_number_def lower_x eq_commute [of "CHR ''x''"]
          eq_commute [of "CHR ''X''"] lower_not_X)
  next
    case (2 c)
    show ?thesis
      using from_str_radix_lower [of _ _ s] unfolding 2
      by (cases "c = CHR ''0''") (auto simp: parse_legacy_ipv4_number_def)
  qed (simp add: parse_legacy_ipv4_number_def)
qed

lemma split_on_lower:
  "\<not> is_ascii_lowercase d \<Longrightarrow> \<not> is_ascii_uppercase d \<Longrightarrow>
   split_on d (str_lower s) = map str_lower (split_on d s)"
  by (rule split_on_map) (simp add: to_ascii_lowercase_eq_iff)

lemma dot_neutral: "\<not> is_ascii_lowercase CHR ''.''" "\<not> is_ascii_uppercase CHR ''.''"
  by (simp_all add: is_ascii_lowercase_def is_ascii_uppercase_def)

lemma legacy_ipv4_lower [simp]: "parse_legacy_ipv4 (str_lower s) = parse_legacy_ipv4 s"
  by (simp add: parse_legacy_ipv4_def split_on_lower dot_neutral comp_def Let_def)

lemma valid_label_lower [simp]: "valid_dns_label (str_lower l) = valid_dns_label l"
  by (cases "l = []") (auto simp: valid_dns_label_def hd_map last_map)

lemma top_level_label_last: "top_level_label s = last (split_on CHR ''.'' s)"
  by (simp add: top_level_label_def last_split_on_rsplit)

lemma top_level_label_lower: "top_level_label (str_lower s) = str_lower (top_level_label s)"
  by (simp add: top_level_label_last split_on_lower dot_neutral last_map)

lemma validate_dns_lower [simp]: "validate_dns_name (str_lower s) = validate_dns_name s"
  by (simp add: validate_dns_name_def split_on_lower dot_neutral top_level_label_lower)

end
