(* ===== verification/Authority_Text.thy ===== *)
theory Authority_Text
  imports Authority
begin

text \<open>
  The text forms of hosts and authorities (crates/policy/src/authority.rs): parsing a
  host is idempotent on the canonical text it produces, and the text of an authority
  parses back to the same authority.
\<close>

section \<open>Canonicalisation is idempotent\<close>

definition host_char :: "char \<Rightarrow> bool" where
  "host_char c \<longleftrightarrow> is_ascii_alphanumeric c \<or> c = CHR ''-'' \<or> c = CHR ''.'' \<or> c = CHR '':''"

lemma host_char_byte:
  assumes "host_char c"
  shows "byte c = 45 \<or> byte c = 46 \<or> byte c = 58 \<or> 48 \<le> byte c \<and> byte c \<le> 57
    \<or> 65 \<le> byte c \<and> byte c \<le> 90 \<or> 97 \<le> byte c \<and> byte c \<le> 122"
  using assms unfolding host_char_def is_ascii_alphanumeric_def is_ascii_digit_def
    is_ascii_lowercase_def is_ascii_uppercase_def by (elim disjE) simp_all

lemma host_char_ascii: "host_char c \<Longrightarrow> is_ascii_char c"
  unfolding is_ascii_char_def by (drule host_char_byte) linarith

lemma host_char_not_space: "host_char c \<Longrightarrow> \<not> is_ascii_whitespace c"
  unfolding is_ascii_whitespace_def by (drule host_char_byte) force

lemma host_char_not_control: "host_char c \<Longrightarrow> \<not> is_ascii_control c"
  unfolding is_ascii_control_def by (drule host_char_byte) linarith

lemma not_host_char:
  "\<not> host_char CHR ''[''" "\<not> host_char CHR '']''" "\<not> host_char CHR ''@''" "\<not> host_char CHR ''/''"
  "\<not> host_char CHR ''?''" "\<not> host_char CHR ''#''" "\<not> host_char CHR 0x5C" "\<not> host_char CHR ''%''"
  by (rule notI, drule host_char_byte, simp)+

lemma host_char_plain:
  assumes "host_char c"
  shows "is_ascii_char c" "\<not> is_ascii_whitespace c" "\<not> is_ascii_control c"
    "c \<noteq> CHR ''[''" "c \<noteq> CHR '']''" "c \<noteq> CHR ''@''"
    "c \<notin> {CHR ''/'', CHR ''?'', CHR ''#'', CHR 0x5C, CHR ''%''}"
  using assms host_char_ascii host_char_not_space host_char_not_control not_host_char
  by blast+

lemma lower_symbol_mem:
  "CHR '':'' \<in> set (str_lower s) \<longleftrightarrow> CHR '':'' \<in> set s"
  "CHR ''['' \<in> set (str_lower s) \<longleftrightarrow> CHR ''['' \<in> set s"
  "CHR '']'' \<in> set (str_lower s) \<longleftrightarrow> CHR '']'' \<in> set s"
  by (induction s) (simp_all add: eq_commute)

lemma digit_host_char: "is_ascii_digit c \<Longrightarrow> host_char c \<and> c \<noteq> CHR '':''"
  by (auto simp: host_char_def is_ascii_alphanumeric_def is_ascii_digit_def)

lemma hex_digit_host_char: "d < 16 \<Longrightarrow> host_char (digit_char d)"
  by (auto simp: host_char_def is_ascii_alphanumeric_def is_ascii_digit_def is_ascii_lowercase_def digit_char_def)

lemma show_ipv4_chars: "c \<in> set (show_ipv4 a) \<Longrightarrow> host_char c \<and> c \<noteq> CHR '':''"
proof (cases a)
  case (Ipv4 p q r t)
  moreover have "host_char CHR ''.''" by (simp add: host_char_def)
  moreover assume "c \<in> set (show_ipv4 a)"
  ultimately show ?thesis by (auto simp: show_ipv4_def dest: show_dec_digits digit_host_char)
qed

lemma join_with_chars: "c \<in> set (join_with sep ps) \<Longrightarrow> c \<in> set sep \<or> (\<exists>p \<in> set ps. c \<in> set p)"
  by (induction sep ps rule: join_with.induct) auto

lemma show_groups_chars: "c \<in> set (show_groups gs) \<Longrightarrow> host_char c"
proof -
  have "c \<in> set (show_radix 16 g) \<Longrightarrow> host_char c" for g
    using digits_of_less [of 16 g] by (auto simp: show_radix_digits hex_digit_host_char)
  moreover have "host_char CHR '':''" by (simp add: host_char_def)
  moreover assume "c \<in> set (show_groups gs)"
  ultimately show ?thesis by (auto simp: show_groups_def dest!: join_with_chars)
qed

lemma show_ipv6_chars: "c \<in> set (show_ipv6 gs) \<Longrightarrow> host_char c"
proof -
  have "host_char CHR '':''" "host_char CHR ''f''"
    by (simp_all add: host_char_def is_ascii_alphanumeric_def is_ascii_lowercase_def)
  moreover assume "c \<in> set (show_ipv6 gs)"
  ultimately show ?thesis
    by (auto simp: show_ipv6_def dest: show_groups_chars show_ipv4_chars
        split: option.splits prod.splits if_splits)
qed

lemma show_ip_chars: "c \<in> set (show_ip a) \<Longrightarrow> host_char c"
  by (cases a) (auto simp: show_ip_def dest: show_ipv4_chars show_ipv6_chars)

definition ip_ok :: "ip_addr \<Rightarrow> bool" where
  "ip_ok a = (case a of V4 v \<Rightarrow> ipv4_ok v | V6 gs \<Rightarrow> ipv6_ok gs)"

lemma parse_ip_ok: "parse_ip s = Some a \<Longrightarrow> ip_ok a"
  by (auto simp: parse_ip_def ip_ok_def dest: read_ipv4_ok read_ipv6_ok
      split: option.splits prod.splits if_splits)

lemma parse_ipv6_ok: "parse_ipv6 s = Some gs \<Longrightarrow> ipv6_ok gs"
  by (auto simp: parse_ipv6_def dest: read_ipv6_ok split: option.splits prod.splits list.splits)

lemma parse_show_ip: "ip_ok a \<Longrightarrow> parse_ip (show_ip a) = Some a"
  by (cases a) (auto simp: ip_ok_def show_ip_def parse_show_ipv4 parse_show_ipv6)

lemma plain_host_text:
  assumes "v \<noteq> []" and "\<forall>c \<in> set v. host_char c"
  shows "parse_host v =
    (case parse_ip v of
       Some a \<Rightarrow> Inr (ip_host a)
     | None \<Rightarrow>
         if CHR '':'' \<in> set v then Inl Port_Not_Allowed
         else if ends_with ''.'' v then Inl Trailing_Dot
         else (case parse_legacy_ipv4 v of
                 Some a \<Rightarrow> Inl (Non_Canonical_Ipv4 a)
               | None \<Rightarrow> (case validate_dns_name v of
                            Inl e \<Rightarrow> Inl e
                          | Inr _ \<Rightarrow> Inr \<lparr>ch_value = str_lower v, ch_kind = Dns\<rparr>)))"
proof -
  have "hd v \<noteq> CHR ''[''" using assms by (cases v) (auto dest: host_char_plain)
  then have "bracketed v = None"
    using assms(1) by (cases v) (auto simp: bracketed_def)
  moreover have "CHR ''['' \<notin> set v" "CHR '']'' \<notin> set v"
    using assms(2) host_char_plain by blast+
  moreover have "\<not> (\<exists>c \<in> set v. \<not> is_ascii_char c)"
    "\<not> (\<exists>c \<in> set v. is_ascii_whitespace c \<or> is_ascii_control c)"
    using assms(2) host_char_plain by blast+
  ultimately show ?thesis using assms(1) by (simp only: parse_host_def) simp
qed

text \<open>An IPv4 text is digits and dots, an IPv6 text has a colon.\<close>

lemma read_digits_consumes:
  "read_digits r s = (ds, rest) \<Longrightarrow> \<exists>w. s = w @ rest \<and> (\<forall>c \<in> set w. digit_value r c \<noteq> None)"
proof (induction r s arbitrary: ds rest rule: read_digits.induct)
  case (2 radix c cs)
  show ?case
  proof (cases "digit_value radix c")
    case None
    with 2 show ?thesis by (intro exI [of _ "[]"]) auto
  next
    case (Some d)
    obtain ds' rest' where r: "read_digits radix cs = (ds', rest')" by fastforce
    with "2.IH" [OF Some r] obtain w where "cs = w @ rest'" "\<forall>c \<in> set w. digit_value radix c \<noteq> None"
      by blast
    with Some r "2.prems" show ?thesis by (intro exI [of _ "c # w"]) auto
  qed
qed simp

lemma read_number_consumes:
  "read_number 10 m z l s = Some (n, rest) \<Longrightarrow> \<exists>w. s = w @ rest \<and> (\<forall>c \<in> set w. is_ascii_digit c)"
  using read_digits_consumes [of 10 s]
  by (fastforce simp: read_number_def Let_def digit_value_dec_iff split: prod.splits if_splits)

lemma read_octet_consumes:
  assumes "read_octet i s = Some (n, rest)"
  shows "\<exists>w. s = w @ rest \<and> (\<forall>c \<in> set w. is_ascii_digit c \<or> c = CHR ''.'')"
proof (cases "0 < i")
  case True
  with assms obtain cs where "s = CHR ''.'' # cs" and "read_number 10 3 False 256 cs = Some (n, rest)"
    by (auto simp: read_octet_def read_separator_def read_char_def bind_eq_Some_conv split: list.splits if_splits)
  with read_number_consumes show ?thesis by (fastforce intro: exI [of _ "CHR ''.'' # w" for w])
next
  case False
  with assms read_number_consumes show ?thesis
    by (fastforce simp: read_octet_def read_separator_def)
qed

lemma read_ipv4_consumes:
  assumes "read_ipv4 s = Some (a, rest)"
  shows "\<exists>w. s = w @ rest \<and> (\<forall>c \<in> set w. is_ascii_digit c \<or> c = CHR ''.'')"
proof -
  from assms obtain n0 s1 n1 s2 n2 s3 n3 where
    o: "read_octet 0 s = Some (n0, s1)" "read_octet 1 s1 = Some (n1, s2)"
       "read_octet 2 s2 = Some (n2, s3)" "read_octet 3 s3 = Some (n3, rest)"
    by (auto simp: read_ipv4_def bind_eq_Some_conv)
  obtain w0 where w0: "s = w0 @ s1" "\<forall>c \<in> set w0. is_ascii_digit c \<or> c = CHR ''.''"
    using read_octet_consumes [OF o(1)] by blast
  obtain w1 where w1: "s1 = w1 @ s2" "\<forall>c \<in> set w1. is_ascii_digit c \<or> c = CHR ''.''"
    using read_octet_consumes [OF o(2)] by blast
  obtain w2 where w2: "s2 = w2 @ s3" "\<forall>c \<in> set w2. is_ascii_digit c \<or> c = CHR ''.''"
    using read_octet_consumes [OF o(3)] by blast
  obtain w3 where w3: "s3 = w3 @ rest" "\<forall>c \<in> set w3. is_ascii_digit c \<or> c = CHR ''.''"
    using read_octet_consumes [OF o(4)] by blast
  show ?thesis using w0 w1 w2 w3 by (intro exI [of _ "w0 @ w1 @ w2 @ w3"]) auto
qed

lemma read_groups_no_colon:
  "CHR '':'' \<notin> set s \<Longrightarrow> read_groups left (Suc i) s = ([], False, s)"
proof -
  assume "CHR '':'' \<notin> set s"
  then have "read_separator CHR '':'' (Suc i) s = None"
    by (cases s) (auto simp: read_separator_def read_char_def)
  then show ?thesis by (cases left) auto
qed

lemma read_groups_none:
  assumes "read_separator CHR '':'' i s = Some s'" and "read_ipv4 s' = None"
    and "read_number 16 4 True 65536 s' = None"
  shows "read_groups (Suc left) i s = ([], False, s)"
  using assms by simp

lemma read_ipv6_colon:
  assumes "read_ipv6 s = Some (gs, rest)"
  shows "CHR '':'' \<in> set s"
proof (rule ccontr)
  assume nc: "CHR '':'' \<notin> set s"
  obtain hd8 h4 s1 where r: "read_groups (Suc 7) 0 s = (hd8, h4, s1)" by (metis surj_pair)
  then have r8: "read_groups 8 0 s = (hd8, h4, s1)" by simp
  have "length hd8 \<noteq> 8 \<and> (h4 \<or> CHR '':'' \<notin> set s1)"
  proof (cases "read_ipv4 s")
    case (Some p)
    then obtain a b c d t where "read_ipv4 s = Some (Ipv4 a b c d, t)"
      by (metis surj_pair ipv4_addr.exhaust)
    with read_groups_v4 [of 7 0 s s] r show ?thesis by (auto simp: read_separator_def simp del: read_groups.simps)
  next
    case None
    show ?thesis
    proof (cases "read_number 16 4 True 65536 s")
      case None
      have "read_separator CHR '':'' 0 s = Some s" by (simp add: read_separator_def)
      from read_groups_none [OF this \<open>read_ipv4 s = None\<close> None, of 7] r nc show ?thesis
        by (simp only: prod.inject) auto
    next
      case (Some p)
      then obtain g t where g: "read_number 16 4 True 65536 s = Some (g, t)" by (cases p) auto
      then have "\<exists>w. s = w @ t" using read_digits_consumes [of 16 s]
        by (fastforce simp: read_number_def Let_def split: prod.splits if_splits)
      with nc have "CHR '':'' \<notin> set t" by auto
      with read_groups_group [of 0 s s g t 7 "[]" False t] g \<open>read_ipv4 s = None\<close> r show ?thesis
        by (auto simp: read_separator_def read_groups_no_colon simp del: read_groups.simps)
    qed
  qed
  moreover from this have "read_char CHR '':'' s1 = None \<or> h4"
    by (cases s1) (auto simp: read_char_def)
  ultimately have "read_ipv6 s = None"
    unfolding read_ipv6_def r8 by auto
  with assms show False by simp
qed

lemma parse_ip_nil: "parse_ip [] = None"
proof -
  have "read_ipv4 [] = None"
    by (simp add: read_ipv4_def read_octet_def read_separator_def read_number_def)
  moreover have "read_ipv6 [] = None"
    using read_ipv6_colon [of "[]"] by (cases "read_ipv6 []") auto
  ultimately show ?thesis by (simp add: parse_ip_def)
qed

lemma parse_ip_host: "ip_ok a \<Longrightarrow> parse_host (show_ip a) = Inr (ip_host a)"
proof -
  assume ok: "ip_ok a"
  then have "show_ip a \<noteq> []" using parse_show_ip parse_ip_nil by fastforce
  then show ?thesis using plain_host_text [of "show_ip a"] show_ip_chars parse_show_ip [OF ok] by simp
qed

lemma parse_ip_lower:
  assumes "CHR '':'' \<notin> set s" and "parse_ip s = None"
  shows "parse_ip (str_lower s) = None"
proof (rule ccontr)
  assume "parse_ip (str_lower s) \<noteq> None"
  then obtain a where a: "parse_ip (str_lower s) = Some a" by auto
  have "CHR '':'' \<notin> set (str_lower s)" using assms(1) unfolding lower_symbol_mem .
  with a have "\<exists>v. read_ipv4 (str_lower s) = Some (v, [])"
    by (auto simp: parse_ip_def split: option.splits prod.splits if_splits dest: read_ipv6_colon)
  then have "\<forall>c \<in> set (str_lower s). is_ascii_digit c \<or> c = CHR ''.''"
    using read_ipv4_consumes by fastforce
  then have "\<forall>c \<in> set s. is_ascii_digit c \<or> c = CHR ''.''" by simp
  then have "\<forall>c \<in> set s. \<not> is_ascii_uppercase c"
    by (auto simp: is_ascii_digit_def is_ascii_uppercase_def)
  then have "str_lower s = s" by (intro map_idI) (auto simp: to_ascii_lowercase_def)
  with a assms(2) show False by simp
qed

lemma validate_dns_chars:
  assumes "validate_dns_name s = Inr u"
  shows "\<forall>c \<in> set s. is_ascii_alphanumeric c \<or> c = CHR ''-'' \<or> c = CHR ''.''"
proof -
  have "\<forall>l \<in> set (split_on CHR ''.'' s). valid_dns_label l"
    using assms by (auto simp: validate_dns_name_def split: if_splits)
  moreover have "c \<in> set s \<Longrightarrow> c = CHR ''.'' \<or> (\<exists>l \<in> set (split_on CHR ''.'' s). c \<in> set l)" for c
    using join_with_chars [of c "''.''" "split_on CHR ''.'' s"] by auto
  ultimately show ?thesis by (fastforce simp: valid_dns_label_def)
qed

text \<open>The two ways \<open>parse_host\<close> succeeds.\<close>

lemma parse_host_cases:
  assumes "parse_host raw = Inr h"
  obtains (ip) a where "h = ip_host a" "ip_ok a"
  | (dns) "h = \<lparr>ch_value = str_lower raw, ch_kind = Dns\<rparr>" "raw \<noteq> []" "parse_ip raw = None"
      "CHR '':'' \<notin> set raw" "\<not> ends_with ''.'' raw" "parse_legacy_ipv4 raw = None"
      "validate_dns_name raw = Inr ()"
proof (cases "bracketed raw")
  case None
  with assms that show ?thesis
    by (auto simp: parse_host_def dest: parse_ip_ok split: if_splits option.splits sum.splits)
next
  case (Some inner)
  with assms obtain gs where "parse_ipv6 inner = Some gs" "h = ip_host (V6 gs)"
    by (auto simp: parse_host_def ip_host_def show_ip_def split: if_splits option.splits)
  with that(1) [of "V6 gs"] parse_ipv6_ok show ?thesis by (simp add: ip_ok_def)
qed

lemma ends_with_dot_lower: "ends_with ''.'' (str_lower s) = ends_with ''.'' s"
  by (cases s rule: rev_cases) (auto simp: ends_with_iff)

lemma parse_host_canonical:
  assumes "parse_host raw = Inr h"
  shows "parse_host (ch_value h) = Inr h"
  using assms
proof (cases rule: parse_host_cases)
  case (ip a)
  then show ?thesis using parse_ip_host [of a] by (simp add: ip_host_def)
next
  case dns
  have chars: "\<forall>c \<in> set (str_lower raw). host_char c"
    using validate_dns_chars [OF dns(7)] by (fastforce simp: host_char_def)
  have idem: "str_lower (str_lower raw) = str_lower raw" by (simp add: comp_def)
  have "str_lower raw \<noteq> []" using dns(2) by simp
  note text_eq = plain_host_text [OF this chars]
  have nc: "CHR '':'' \<notin> set (str_lower raw)" using dns(4) unfolding lower_symbol_mem .
  have nd: "\<not> ends_with ''.'' (str_lower raw)" using dns(5) by (simp only: ends_with_dot_lower) simp
  have "parse_host (str_lower raw) = Inr \<lparr>ch_value = str_lower raw, ch_kind = Dns\<rparr>"
    unfolding text_eq parse_ip_lower [OF dns(4,3)] legacy_ipv4_lower dns(6) validate_dns_lower dns(7) idem
    unfolding option.case sum.case if_not_P [OF nc] if_not_P [OF nd] ..
  then show ?thesis using dns(1) by simp
qed

lemma parse_host_text:
  assumes "parse_host raw = Inr h"
  shows "ch_value h \<noteq> []" and "\<And>c. c \<in> set (ch_value h) \<Longrightarrow> host_char c"
    and "\<not> is_ipv6 h \<Longrightarrow> CHR '':'' \<notin> set (ch_value h)"
proof -
  show "ch_value h \<noteq> []"
    using parse_host_canonical [OF assms] by (auto simp: parse_host_def)
  show "c \<in> set (ch_value h) \<Longrightarrow> host_char c" for c
    using assms
    by (cases rule: parse_host_cases)
      (fastforce simp: ip_host_def host_char_def dest: show_ip_chars validate_dns_chars)+
  show "CHR '':'' \<notin> set (ch_value h)" if "\<not> is_ipv6 h"
    using assms
  proof (cases rule: parse_host_cases)
    case (ip a)
    with that show ?thesis
      by (auto simp: is_ipv6_def ip_host_def show_ip_def dest: show_ipv4_chars split: ip_addr.splits)
  next
    case dns
    then show ?thesis unfolding dns(1) canonical_host.select_convs lower_symbol_mem by simp
  qed
qed

lemma parse_host_dns_labelled:
  assumes "parse_host raw = Inr h" and "is_dns h"
  shows "dns_labelled h"
  using assms(1)
proof (cases rule: parse_host_cases)
  case (ip a)
  with assms(2) show ?thesis by (auto simp: is_dns_def ip_host_def split: ip_addr.splits)
next
  case dns
  then have "\<forall>l \<in> set (split_on CHR ''.'' raw). l \<noteq> []"
    by (auto simp: validate_dns_name_def valid_dns_label_def split: if_splits)
  with dns(1) show ?thesis
    by (auto simp: dns_labelled_def is_dns_def labels_def split_on_lower dot_neutral)
qed

section \<open>Authorities round trip\<close>

definition authority_ok :: "canonical_authority \<Rightarrow> bool" where
  "authority_ok a \<longleftrightarrow>
     parse_host (ch_value (ca_host a)) = Inr (ca_host a) \<and>
     (case ca_port a of None \<Rightarrow> True | Some p \<Rightarrow> 0 < p \<and> p < 65536)"

lemma parse_authority_ok:
  assumes "parse_authority raw = Inr a"
  shows "authority_ok a"
proof -
  from assms consider (b) rest where "parse_bracketed_authority rest = Inr a"
    | (p) "parse_plain_authority raw = Inr a"
    by (auto simp: parse_authority_def split: if_splits option.splits)
  then show ?thesis
  proof cases
    case b
    then show ?thesis
      by (auto simp: parse_bracketed_authority_def authority_ok_def parse_authority_port_suffix_def
          dest: parse_host_canonical parse_port_bounds split: option.splits prod.splits sum.splits if_splits)
  next
    case p
    then show ?thesis
      by (auto simp: parse_plain_authority_def authority_ok_def
          dest: parse_host_canonical parse_port_bounds split: option.splits prod.splits sum.splits if_splits)
  qed
qed

lemma filter_colon_absent: "CHR '':'' \<notin> set v \<Longrightarrow> filter (\<lambda>c. c = CHR '':'') v = []"
  by (auto simp: filter_empty_conv)

text \<open>What \<open>parse_authority\<close> checks of every byte before it looks at the structure.\<close>

definition authority_char :: "char \<Rightarrow> bool" where
  "authority_char c \<longleftrightarrow>
     is_ascii_char c \<and> \<not> is_ascii_whitespace c \<and> \<not> is_ascii_control c \<and> c \<noteq> CHR ''@'' \<and>
     c \<notin> {CHR ''/'', CHR ''?'', CHR ''#'', CHR 0x5C, CHR ''%''}"

lemma host_char_authority: "host_char c \<Longrightarrow> authority_char c"
  unfolding authority_char_def using host_char_plain by presburger

lemma bracket_authority: "authority_char CHR ''[''" "authority_char CHR '']''"
  by (simp_all add: authority_char_def is_ascii_char_def is_ascii_whitespace_def is_ascii_control_def)

lemma parse_authority_guards:
  assumes "raw \<noteq> []" and chars: "\<forall>c \<in> set raw. authority_char c"
  shows "parse_authority raw =
    (case strip_prefix ''['' raw of
       Some rest \<Rightarrow> parse_bracketed_authority rest
     | None \<Rightarrow> parse_plain_authority raw)"
proof -
  have 1: "\<not> ((\<exists>c \<in> set raw. \<not> is_ascii_char c)
      \<or> (\<exists>c \<in> set raw. is_ascii_whitespace c \<or> is_ascii_control c))"
    using chars by (simp add: authority_char_def)
  have 2: "CHR ''@'' \<notin> set raw"
    using chars by (auto simp: authority_char_def)
  have 3: "\<not> (\<exists>c \<in> {CHR ''/'', CHR ''?'', CHR ''#'', CHR 0x5C, CHR ''%''}. c \<in> set raw)"
    using chars unfolding authority_char_def by meson
  show ?thesis
    unfolding parse_authority_def if_not_P [OF assms(1)] if_not_P [OF 1] if_not_P [OF 2] if_not_P [OF 3] ..
qed

definition port_text :: "nat option \<Rightarrow> string" where
  "port_text p = (case p of None \<Rightarrow> [] | Some n \<Rightarrow> CHR '':'' # show_radix 10 n)"

lemma port_text_chars: "c \<in> set (port_text p) \<Longrightarrow> host_char c"
  by (cases p) (auto simp: port_text_def host_char_def dest!: show_dec_digits digit_host_char)

lemma authority_text_bracketed:
  assumes "authority_ok a" and "is_ipv6 (ca_host a)"
  shows "parse_bracketed_authority (ch_value (ca_host a) @ CHR '']'' # port_text (ca_port a)) = Inr a"
proof -
  from assms(1) have ph: "parse_host (ch_value (ca_host a)) = Inr (ca_host a)"
    by (simp add: authority_ok_def)
  have suffix: "parse_authority_port_suffix (port_text (ca_port a)) = Inr (ca_port a)"
    using assms(1) parse_port_show
    by (cases "ca_port a") (auto simp: parse_authority_port_suffix_def port_text_def authority_ok_def)
  have "CHR '']'' \<notin> set (ch_value (ca_host a))"
    using parse_host_text(2) [OF ph] not_host_char(2) by blast
  then have "split_once CHR '']'' (ch_value (ca_host a) @ CHR '']'' # port_text (ca_port a))
      = Some (ch_value (ca_host a), port_text (ca_port a))"
    by (simp add: split_once_iff)
  then show ?thesis by (simp add: parse_bracketed_authority_def ph assms(2) suffix)
qed

lemma authority_text_plain:
  assumes "authority_ok a" and "\<not> is_ipv6 (ca_host a)"
  shows "parse_plain_authority (ch_value (ca_host a) @ port_text (ca_port a)) = Inr a"
proof -
  let ?v = "ch_value (ca_host a)" and ?t = "ch_value (ca_host a) @ port_text (ca_port a)"
  from assms(1) have ph: "parse_host ?v = Inr (ca_host a)" by (simp add: authority_ok_def)
  have nc: "CHR '':'' \<notin> set ?v" using parse_host_text(3) [OF ph assms(2)] .
  have chars: "host_char c" if "c \<in> set ?t" for c
    using that parse_host_text(2) [OF ph] port_text_chars by auto
  then have nb: "\<not> (CHR ''['' \<in> set ?t \<or> CHR '']'' \<in> set ?t)" using not_host_char by blast
  show ?thesis
  proof (cases "ca_port a")
    case None
    then have t: "?t = ?v" by (simp add: port_text_def)
    have "filter (\<lambda>c. c = CHR '':'') ?v = []" "split_once CHR '':'' ?v = None"
      using nc by (simp_all add: filter_colon_absent split_once_None_iff)
    with nb ph None show ?thesis
      unfolding t parse_plain_authority_def by simp
  next
    case (Some p)
    then have t: "?t = ?v @ CHR '':'' # show_radix 10 p" by (simp add: port_text_def)
    have "CHR '':'' \<notin> set (show_radix 10 p)" using show_dec_digits digit_host_char by blast
    then have "filter (\<lambda>c. c = CHR '':'') (?v @ CHR '':'' # show_radix 10 p) = [CHR '':'']"
      using nc by (simp add: filter_colon_absent)
    moreover have "split_once CHR '':'' (?v @ CHR '':'' # show_radix 10 p) = Some (?v, show_radix 10 p)"
      using nc by (simp add: split_once_iff)
    moreover have "parse_port (show_radix 10 p) = Inr p"
      using assms(1) Some by (simp add: authority_ok_def parse_port_show)
    ultimately show ?thesis
      using nb ph Some unfolding t parse_plain_authority_def by simp
  qed
qed

lemma parse_authority_text:
  assumes "authority_ok a"
  shows "parse_authority (authority_text a) = Inr a"
proof -
  from assms have ph: "parse_host (ch_value (ca_host a)) = Inr (ca_host a)"
    by (simp add: authority_ok_def)
  note chars = parse_host_text [OF ph] port_text_chars
  have pt: "(case ca_port a of None \<Rightarrow> [] | Some p \<Rightarrow> CHR '':'' # show_radix 10 p) = port_text (ca_port a)"
    by (simp add: port_text_def)
  show ?thesis
  proof (cases "is_ipv6 (ca_host a)")
    case True
    then have t: "authority_text a = ''['' @ (ch_value (ca_host a) @ CHR '']'' # port_text (ca_port a))"
      by (simp add: authority_text_def authority_host_text_def pt)
    have "parse_authority (authority_text a) =
        parse_bracketed_authority (ch_value (ca_host a) @ CHR '']'' # port_text (ca_port a))"
      unfolding t by (subst parse_authority_guards) (use chars host_char_authority bracket_authority in auto)
    then show ?thesis using authority_text_bracketed [OF assms True] by simp
  next
    case False
    then have t: "authority_text a = ch_value (ca_host a) @ port_text (ca_port a)"
      by (simp add: authority_text_def authority_host_text_def pt)
    have "hd (ch_value (ca_host a)) \<noteq> CHR ''[''"
      using chars(1,2) not_host_char(1) by (metis list.set_sel(1))
    then have "strip_prefix ''['' (authority_text a) = None"
      unfolding t using chars(1) by (cases "ch_value (ca_host a)") auto
    then have "parse_authority (authority_text a) = parse_plain_authority (authority_text a)"
      by (subst parse_authority_guards) (use chars host_char_authority t in auto)
    then show ?thesis using authority_text_plain [OF assms False] t by simp
  qed
qed

section \<open>Properties\<close>

text \<open>
  A host accepted as a DNS name is not an IP address in disguise: its text is no
  address in any accepted or legacy (decimal, octal, hexadecimal, shortened) notation,
  and its last label is not a number.
\<close>

lemma dns_host_is_no_address:
  assumes "parse_host raw = Inr h" and "is_dns h"
  shows "parse_ip (ch_value h) = None \<and> parse_legacy_ipv4 (ch_value h) = None \<and>
    parse_legacy_ipv4_number (top_level_label (ch_value h)) = None"
  using assms(1)
proof (cases rule: parse_host_cases)
  case (ip a)
  with assms(2) show ?thesis by (auto simp: is_dns_def ip_host_def split: ip_addr.splits)
next
  case dns
  then have "parse_legacy_ipv4_number (top_level_label raw) = None"
    by (auto simp: validate_dns_name_def split: if_splits)
  with dns parse_ip_lower [OF dns(4,3)] show ?thesis by (simp add: top_level_label_lower)
qed

text \<open>
  C32. Authorities round trip: the text of every accepted authority, IPv6 brackets and port
  included, is accepted and gives the same authority.
\<close>

theorem authority_round_trip:
  assumes "parse_authority raw = Inr a"
  shows "parse_authority (authority_text a) = Inr a"
  using parse_authority_ok [OF assms] by (rule parse_authority_text)

theorem authority_round_trip_witness:
  "\<exists>a. parse_authority ''EXAMPLE.com:443'' = Inr a \<and> authority_text a = ''example.com:443'' \<and>
       parse_authority ''example.com:443'' = Inr a"
proof -
  let ?a = "\<lparr>ca_host = \<lparr>ch_value = ''example.com'', ch_kind = Dns\<rparr>, ca_port = Some 443\<rparr>"
  have *: "parse_authority ''EXAMPLE.com:443'' = Inr ?a" by code_simp
  moreover have "authority_text ?a = ''example.com:443''" by code_simp
  ultimately show ?thesis using authority_round_trip [OF *] by auto
qed

end
