(* ===== verification/Topology.thy ===== *)
theory Topology
  imports Route_Plan Authority_Text
begin

text \<open>
  The gateway plan (crates/policy/src/topology.rs and cors.rs): listeners, host patterns,
  the matchers of HTTP bindings and CONNECT rules, account pools and providers. The
  locale \<open>pattern_cover\<close> is what the shadowing analysis of the configuration compiler
  needs of a pattern language; host patterns interpret it.
\<close>

section \<open>Host patterns\<close>

datatype host_pattern = Exact canonical_host | Subdomains_Of canonical_host

datatype invalid_subdomain_suffix = Invalid_Subdomain_Suffix

definition subdomains_of :: "canonical_host \<Rightarrow> invalid_subdomain_suffix + host_pattern" where
  "subdomains_of suffix =
     (if \<not> is_dns suffix then Inl Invalid_Subdomain_Suffix else Inr (Subdomains_Of suffix))"

fun pattern_host :: "host_pattern \<Rightarrow> canonical_host" where
  "pattern_host (Exact host) = host"
| "pattern_host (Subdomains_Of host) = host"

fun pattern_matches :: "host_pattern \<Rightarrow> canonical_host \<Rightarrow> bool" where
  "pattern_matches (Exact expected) host = (host = expected)"
| "pattern_matches (Subdomains_Of suffix) host = is_strict_subdomain_of host suffix"

fun pattern_subsumes :: "host_pattern \<Rightarrow> host_pattern \<Rightarrow> bool" where
  "pattern_subsumes (Exact left) (Exact right) = (left = right)"
| "pattern_subsumes (Subdomains_Of suffix) (Exact host) = is_strict_subdomain_of host suffix"
| "pattern_subsumes (Subdomains_Of left) (Subdomains_Of right) =
     (left = right \<or> is_strict_subdomain_of right left)"
| "pattern_subsumes (Exact _) (Subdomains_Of _) = False"

section \<open>Matchers\<close>

record http_match =
  hm_hosts :: "host_pattern list"
  hm_path_prefixes :: "string list"
  hm_methods :: "string list"
  hm_operations :: "string list"

record connect_match =
  cm_hosts :: "host_pattern list"
  cm_ports :: "nat list"

datatype empty_http_match = Empty_Http_Match
datatype empty_connect_match = Empty_Connect_Match

definition new_http_match ::
  "host_pattern list \<Rightarrow> string list \<Rightarrow> string list \<Rightarrow> string list \<Rightarrow> empty_http_match + http_match" where
  "new_http_match hosts path_prefixes methods operations =
     (if hosts = [] \<and> path_prefixes = [] \<and> methods = [] \<and> operations = [] then Inl Empty_Http_Match
      else Inr \<lparr>hm_hosts = hosts, hm_path_prefixes = path_prefixes, hm_methods = methods,
                hm_operations = operations\<rparr>)"

definition new_connect_match :: "host_pattern list \<Rightarrow> nat list \<Rightarrow> empty_connect_match + connect_match" where
  "new_connect_match hosts ports =
     (if hosts = [] \<and> ports = [] then Inl Empty_Connect_Match
      else Inr \<lparr>cm_hosts = hosts, cm_ports = ports\<rparr>)"

datatype http_action = Route_To string | Http_Reject
datatype connect_action = Intercept | Tunnel | Connect_Reject

record http_binding_plan =
  hb_id :: string
  hb_matcher :: http_match
  hb_action :: http_action

record connect_rule_plan =
  cr_id :: string
  cr_matcher :: connect_match
  cr_action :: connect_action

section \<open>Listeners\<close>

datatype client_auth_plan = No_Auth | Local_Keys

record cors_plan =
  cp_allowed_origins :: "string bset"
  cp_allow_localhost :: bool

definition default_cors :: cors_plan where
  "default_cors = \<lparr>cp_allowed_origins = [], cp_allow_localhost = False\<rparr>"

text \<open>A bind address: the address, the port and the IPv6 scope (\<open>SocketAddr\<close>).\<close>

record socket_addr =
  sa_ip :: ip_addr
  sa_port :: nat
  sa_scope :: nat

record tls_plan =
  tp_ca_dir :: string

record llm_api_listener_plan =
  la_bind :: socket_addr
  la_client_auth :: client_auth_plan
  la_cors :: cors_plan

record forward_proxy_listener_plan =
  fp_bind :: socket_addr
  fp_client_auth :: client_auth_plan
  fp_request_body_max_bytes :: nat
  fp_http_bindings :: "http_binding_plan list"
  fp_default_http_action :: http_action
  fp_connect_rules :: "connect_rule_plan list"
  fp_default_connect_action :: connect_action
  fp_tls :: "tls_plan option"

datatype listener_plan =
    Llm_Api llm_api_listener_plan
  | Forward_Proxy forward_proxy_listener_plan

definition default_forward_proxy_request_body_max_bytes :: nat where
  "default_forward_proxy_request_body_max_bytes = 10 * 1024 * 1024"

definition new_llm_api_listener :: "socket_addr \<Rightarrow> client_auth_plan \<Rightarrow> llm_api_listener_plan" where
  "new_llm_api_listener addr auth =
     \<lparr>la_bind = addr, la_client_auth = auth, la_cors = default_cors\<rparr>"

definition new_forward_proxy_listener ::
  "socket_addr \<Rightarrow> client_auth_plan \<Rightarrow> http_binding_plan list \<Rightarrow> http_action \<Rightarrow>
   connect_rule_plan list \<Rightarrow> connect_action \<Rightarrow> tls_plan option \<Rightarrow> forward_proxy_listener_plan" where
  "new_forward_proxy_listener addr auth http_bindings default_http rules default_connect tls =
     \<lparr>fp_bind = addr, fp_client_auth = auth,
      fp_request_body_max_bytes = default_forward_proxy_request_body_max_bytes,
      fp_http_bindings = http_bindings, fp_default_http_action = default_http,
      fp_connect_rules = rules, fp_default_connect_action = default_connect, fp_tls = tls\<rparr>"

fun listener_bind :: "listener_plan \<Rightarrow> socket_addr" where
  "listener_bind (Llm_Api l) = la_bind l"
| "listener_bind (Forward_Proxy l) = fp_bind l"

fun listener_client_auth :: "listener_plan \<Rightarrow> client_auth_plan" where
  "listener_client_auth (Llm_Api l) = la_client_auth l"
| "listener_client_auth (Forward_Proxy l) = fp_client_auth l"

section \<open>Account pools and providers\<close>

record account_selector =
  as_providers :: "string bset option"
  as_accounts :: "string bset option"

datatype account_selection_strategy = Round_Robin

record session_affinity_plan =
  sp_ttl :: duration
  sp_expired_retention :: duration

record account_pool_plan =
  ap_selector :: account_selector
  ap_strategy :: account_selection_strategy
  ap_failure_cooldown :: duration
  ap_session_affinity :: "session_affinity_plan option"

record provider_plan =
  vp_driver :: string
  vp_base_url :: "string option"
  vp_origins :: "string list"
  vp_allow_insecure_http :: bool

record gateway_plan =
  gp_listeners :: "(string, listener_plan) bmap"
  gp_profiles :: "(string, profile_plan) bmap"
  gp_routes :: "(string, route_plan) bmap"
  gp_retry_policies :: "(string, retry_policy_plan) bmap"
  gp_account_pools :: "(string, account_pool_plan) bmap"
  gp_providers :: "(string, provider_plan) bmap"

section \<open>Covering\<close>

text \<open>
  A pattern language with a covering test: covering is a preorder, and a covering pattern
  matches whatever the covered one matches.
\<close>

locale pattern_cover =
  fixes matches :: "'p \<Rightarrow> 'h \<Rightarrow> bool"
    and covers :: "'p \<Rightarrow> 'p \<Rightarrow> bool"
  assumes covers_refl: "covers p p"
    and covers_trans: "covers p q \<Longrightarrow> covers q r \<Longrightarrow> covers p r"
    and covers_matches: "covers p q \<Longrightarrow> matches q h \<Longrightarrow> matches p h"
begin

text \<open>A list of alternatives; the empty list is the unconstrained dimension.\<close>

definition dim_matches :: "'p list \<Rightarrow> 'h \<Rightarrow> bool" where
  "dim_matches ps h \<longleftrightarrow> ps = [] \<or> (\<exists>p \<in> set ps. matches p h)"

lemma dim_covers_matches:
  assumes "ps = [] \<or> qs \<noteq> [] \<and> (\<forall>q \<in> set qs. \<exists>p \<in> set ps. covers p q)"
    and "dim_matches qs h"
  shows "dim_matches ps h"
  using assms covers_matches unfolding dim_matches_def by blast

lemma atom_covers_matches:
  assumes "ps = [] \<or> (\<exists>p \<in> set ps. covers p q)" and "matches q h"
  shows "dim_matches ps h"
  using assms covers_matches unfolding dim_matches_def by blast

lemma mutually_covering_same_matches:
  "covers p q \<Longrightarrow> covers q p \<Longrightarrow> matches p h = matches q h"
  using covers_matches by blast

end

lemma pattern_subsumes_refl: "pattern_subsumes p p"
  by (cases p) auto

lemma pattern_subsumes_trans: "pattern_subsumes p q \<Longrightarrow> pattern_subsumes q r \<Longrightarrow> pattern_subsumes p r"
  by (cases p; cases q; cases r) (auto dest: strict_subdomain_trans)

lemma pattern_subsumes_matches: "pattern_subsumes p q \<Longrightarrow> pattern_matches q h \<Longrightarrow> pattern_matches p h"
  by (cases p; cases q) (auto dest: strict_subdomain_trans)

interpretation hosts: pattern_cover pattern_matches pattern_subsumes
  by unfold_locales
    (auto intro: pattern_subsumes_refl dest: pattern_subsumes_trans pattern_subsumes_matches)

text \<open>Path prefixes, method names and operation names are pattern languages too.\<close>

interpretation prefixes: pattern_cover starts_with "\<lambda>p q. starts_with p (q :: string)"
  by unfold_locales (auto dest: starts_with_trans)

interpretation names: pattern_cover "(=) :: string \<Rightarrow> string \<Rightarrow> bool" "(=)"
  by unfold_locales auto

interpretation ports: pattern_cover "(=) :: nat \<Rightarrow> nat \<Rightarrow> bool" "(=)"
  by unfold_locales auto

lemma pattern_subsumes_antisym:
  "pattern_subsumes p q \<Longrightarrow> pattern_subsumes q p \<Longrightarrow> p = q"
  by (cases p; cases q) (auto dest: strict_subdomain_asym)

text \<open>
  Completeness: patterns over parsed hosts that match the same or fewer hosts are
  subsumed. The host \<open>x.suffix\<close> (a one-letter label before the suffix) tells a subdomain
  pattern apart from every pattern that does not subsume it; it may be longer than a
  DNS name is allowed to be, so the statement quantifies over all host values.
\<close>

definition probe_host :: "char \<Rightarrow> canonical_host \<Rightarrow> canonical_host" where
  "probe_host c s = \<lparr>ch_value = c # CHR ''.'' # ch_value s, ch_kind = Dns\<rparr>"

lemma strict_subdomain_iff:
  "is_strict_subdomain_of h s \<longleftrightarrow>
   is_dns h \<and> is_dns s \<and> (\<exists>q. q \<noteq> [] \<and> ch_value h = q @ CHR ''.'' # ch_value s)"
proof
  assume "is_strict_subdomain_of h s"
  then show "is_dns h \<and> is_dns s \<and> (\<exists>q. q \<noteq> [] \<and> ch_value h = q @ CHR ''.'' # ch_value s)"
    by (auto simp: is_strict_subdomain_of_def strip_suffix_iff ends_with_iff split: option.splits)
next
  assume "is_dns h \<and> is_dns s \<and> (\<exists>q. q \<noteq> [] \<and> ch_value h = q @ CHR ''.'' # ch_value s)"
  then obtain q where q: "is_dns h" "is_dns s" "q \<noteq> []" "ch_value h = (q @ ''.'') @ ch_value s" by auto
  have "strip_suffix (ch_value s) (ch_value h) = Some (q @ ''.'')"
    unfolding q(4) by (rule strip_suffix_append)
  moreover have "ends_with ''.'' (q @ ''.'')" unfolding ends_with_iff by blast
  ultimately show "is_strict_subdomain_of h s"
    using q(1-3) by (simp add: is_strict_subdomain_of_def)
qed

lemma probe_matches: "is_dns s \<Longrightarrow> is_strict_subdomain_of (probe_host c s) s"
  unfolding strict_subdomain_iff probe_host_def is_dns_def by (simp add: exI [of _ "[c]"])

lemma probe_subdomain:
  assumes "is_strict_subdomain_of (probe_host c s) t" and "is_dns s" and "hd (ch_value s) \<noteq> CHR ''.''"
  shows "t = s \<or> is_strict_subdomain_of s t"
proof -
  from assms(1) obtain q where v: "c # CHR ''.'' # ch_value s = q @ CHR ''.'' # ch_value t"
    and q: "q \<noteq> []" and dns: "is_dns t"
    unfolding strict_subdomain_iff by (auto simp: probe_host_def)
  from q v obtain q' where v': "CHR ''.'' # ch_value s = q' @ CHR ''.'' # ch_value t" by (cases q) auto
  show ?thesis
  proof (cases q')
    case Nil
    with v' have "ch_value s = ch_value t" by simp
    with assms(2) dns show ?thesis by (cases s; cases t) (auto simp: is_dns_def)
  next
    case (Cons d r)
    with v' have s: "ch_value s = r @ CHR ''.'' # ch_value t" by simp
    with assms(3) have "r \<noteq> []" by auto
    with s assms(2) dns show ?thesis unfolding strict_subdomain_iff by blast
  qed
qed

section \<open>Properties\<close>

text \<open>
  The covering test of host patterns is exact: over parsed hosts, one pattern subsumes
  another exactly when it matches every host the other matches.
\<close>

lemma pattern_subsumes_exact:
  assumes "parse_host rp = Inr (pattern_host p)" and "parse_host rq = Inr (pattern_host q)"
    and "subdomains_of (pattern_host q) = Inr (Subdomains_Of (pattern_host q)) \<or> q = Exact (pattern_host q)"
  shows "pattern_subsumes p q \<longleftrightarrow> (\<forall>h. pattern_matches q h \<longrightarrow> pattern_matches p h)"
proof
  assume "pattern_subsumes p q"
  then show "\<forall>h. pattern_matches q h \<longrightarrow> pattern_matches p h" using hosts.covers_matches by blast
next
  assume sub: "\<forall>h. pattern_matches q h \<longrightarrow> pattern_matches p h"
  show "pattern_subsumes p q"
  proof (cases q)
    case (Exact h)
    with sub have "pattern_matches p h" by simp
    with Exact show ?thesis by (cases p) auto
  next
    case (Subdomains_Of s)
    with assms(3) have dns: "is_dns s" by (auto simp: subdomains_of_def split: if_splits)
    have "dns_labelled s" using parse_host_dns_labelled [OF assms(2)] Subdomains_Of dns by simp
    then have hd: "hd (ch_value s) \<noteq> CHR ''.''"
      using valid_labels_no_dot_edges(2) by (simp add: dns_labelled_def labels_def)
    have m: "pattern_matches p (probe_host c s)" for c
      using sub Subdomains_Of probe_matches [OF dns] by simp
    show ?thesis
    proof (cases p)
      case (Exact h)
      with m [of "CHR ''a''"] m [of "CHR ''b''"] have "probe_host CHR ''a'' s = probe_host CHR ''b'' s" by simp
      then show ?thesis by (simp add: probe_host_def)
    next
      case (Subdomains_Of t)
      with m have "is_strict_subdomain_of (probe_host CHR ''a'' s) t" by simp
      from probe_subdomain [OF this dns hd] Subdomains_Of \<open>q = Subdomains_Of s\<close> show ?thesis by auto
    qed
  qed
qed

end
