(* ===== verification/Identifiers.thy ===== *)
theory Identifiers
  imports Prelude
begin

text \<open>
  Policy identifiers (crates/policy/src/id.rs): the scanning check \<open>parse_identifier\<close>
  that every identifier type of the policy graph goes through. The eleven newtypes the
  macro defines differ only in the \<open>kind\<close> they report, so they share one
  constructor here; an identifier is carried as its text.

  The scan is compared with an independent grammar: a valid identifier is a non-empty
  sequence of non-empty words of lowercase letters and digits, joined by single
  separators.
\<close>

record invalid_identifier =
  ii_kind :: string
  ii_value :: string

datatype identifier_kind =
    Listener_Id | Binding_Id | Route_Id | Profile_Id | Account_Pool_Id | Driver_Id
  | Provider_Id | Header_Patch_Set_Id | Retry_Policy_Id | Wire_Identity_Id | Operation_Id

fun kind_name :: "identifier_kind \<Rightarrow> string" where
  "kind_name Listener_Id = ''listener''"
| "kind_name Binding_Id = ''binding''"
| "kind_name Route_Id = ''route''"
| "kind_name Profile_Id = ''profile''"
| "kind_name Account_Pool_Id = ''account pool''"
| "kind_name Driver_Id = ''driver''"
| "kind_name Provider_Id = ''provider''"
| "kind_name Header_Patch_Set_Id = ''header patch set''"
| "kind_name Retry_Policy_Id = ''retry policy''"
| "kind_name Wire_Identity_Id = ''wire identity''"
| "kind_name Operation_Id = ''operation''"

definition id_alnum :: "char \<Rightarrow> bool" where
  "id_alnum c \<longleftrightarrow> is_ascii_lowercase c \<or> is_ascii_digit c"

definition id_separator :: "char \<Rightarrow> bool" where
  "id_separator c \<longleftrightarrow> c \<in> {CHR ''.'', CHR ''-'', CHR ''_''}"

text \<open>
  The loop of \<open>parse_identifier\<close>: its state is the position and whether the previous
  byte was a separator; \<open>all\<close> stops at the first invalid byte. The result is whether
  every byte was accepted, and the flag after the last byte looked at.
\<close>

fun scan_identifier :: "nat \<Rightarrow> bool \<Rightarrow> string \<Rightarrow> bool \<times> bool" where
  "scan_identifier index prev [] = (True, prev)"
| "scan_identifier index prev (c # cs) =
     (let is_sep = id_separator c;
          valid = id_alnum c \<or> (index > 0 \<and> is_sep \<and> \<not> prev)
      in if valid then scan_identifier (Suc index) is_sep cs else (False, is_sep))"

definition parse_identifier :: "string \<Rightarrow> string \<Rightarrow> invalid_identifier + string" where
  "parse_identifier kind value =
     (let (all_valid, prev) = scan_identifier 0 False value;
          valid = value \<noteq> [] \<and> all_valid \<and> \<not> prev
      in if valid then Inr value
         else Inl \<lparr>ii_kind = kind, ii_value = value\<rparr>)"

definition new_identifier :: "identifier_kind \<Rightarrow> string \<Rightarrow> invalid_identifier + string" where
  "new_identifier k value = parse_identifier (kind_name k) value"

definition valid_identifier :: "string \<Rightarrow> bool" where
  "valid_identifier value \<longleftrightarrow>
     value \<noteq> [] \<and> fst (scan_identifier 0 False value) \<and> \<not> snd (scan_identifier 0 False value)"

section \<open>The grammar\<close>

inductive id_word :: "string \<Rightarrow> bool" where
  one: "id_alnum c \<Longrightarrow> id_word [c]"
| more: "id_alnum c \<Longrightarrow> id_word w \<Longrightarrow> id_word (c # w)"

inductive id_grammar :: "string \<Rightarrow> bool" where
  word: "id_word w \<Longrightarrow> id_grammar w"
| sep: "id_word w \<Longrightarrow> id_separator c \<Longrightarrow> id_grammar s \<Longrightarrow> id_grammar (w @ c # s)"

lemma alnum_not_separator: "id_alnum c \<Longrightarrow> \<not> id_separator c"
  by (auto simp: id_alnum_def id_separator_def is_ascii_lowercase_def is_ascii_digit_def)

lemma id_word_nonempty: "id_word w \<Longrightarrow> w \<noteq> []"
  by (induction rule: id_word.induct) auto

lemma id_grammar_Cons: "id_alnum c \<Longrightarrow> id_grammar s \<Longrightarrow> id_grammar (c # s)"
proof (erule id_grammar.cases)
  fix w assume "id_alnum c" and "s = w" and "id_word w"
  then show ?thesis by (auto intro: id_grammar.word id_word.more)
next
  fix w d t assume "id_alnum c" "s = w @ d # t" "id_word w" "id_separator d" "id_grammar t"
  then show ?thesis using id_grammar.sep [of "c # w" d t] by (auto intro: id_word.more)
qed

text \<open>
  What the scan accepts from the middle of an identifier: with a separator just read, a
  whole identifier must follow; otherwise the rest may also be empty or begin with one
  separator.
\<close>

lemma scan_sound:
  assumes "fst (scan_identifier i prev s)" and "\<not> snd (scan_identifier i prev s)" and "0 < i"
  shows "if prev then id_grammar s
    else s = [] \<or> id_grammar s \<or> (\<exists>c t. id_separator c \<and> s = c # t \<and> id_grammar t)"
  using assms
proof (induction i prev s rule: scan_identifier.induct)
  case (2 index prev c cs)
  show ?case
  proof (cases "id_alnum c")
    case True
    then have nsep: "\<not> id_separator c" by (rule alnum_not_separator)
    with True 2 have
      "cs = [] \<or> id_grammar cs \<or> (\<exists>d t. id_separator d \<and> cs = d # t \<and> id_grammar t)"
      by (auto simp: Let_def)
    then have "id_grammar (c # cs)"
    proof (elim disjE exE conjE)
      assume "cs = []"
      with True show ?thesis by (auto intro: id_grammar.word id_word.one)
    next
      assume "id_grammar cs"
      with True show ?thesis by (rule id_grammar_Cons)
    next
      fix d t assume "id_separator d" "cs = d # t" "id_grammar t"
      with True show ?thesis using id_grammar.sep [of "[c]" d t] by (auto intro: id_word.one)
    qed
    then show ?thesis by simp
  next
    case False
    with 2 have "id_separator c" and "\<not> prev" and "id_grammar cs"
      by (auto simp: Let_def split: if_splits)
    then show ?thesis by auto
  qed
qed auto

lemma scan_word: "id_word w \<Longrightarrow> scan_identifier i prev (w @ s) = scan_identifier (i + length w) False s"
  by (induction arbitrary: i prev rule: id_word.induct) (auto simp: alnum_not_separator)

lemma scan_complete: "id_grammar s \<Longrightarrow> scan_identifier i prev s = (True, False)"
proof (induction arbitrary: i prev rule: id_grammar.induct)
  case (word w)
  then show ?case using scan_word [of w i prev "[]"] by simp
next
  case (sep w c s)
  then have "0 < length w" by (simp add: id_word_nonempty)
  with sep show ?case by (auto simp: scan_word)
qed

lemma id_grammar_nonempty: "id_grammar s \<Longrightarrow> s \<noteq> []"
  by (induction rule: id_grammar.induct) (auto simp: id_word_nonempty)

lemma valid_identifier_iff_grammar: "valid_identifier s \<longleftrightarrow> id_grammar s"
proof
  assume v: "valid_identifier s"
  then obtain c cs where s: "s = c # cs" by (auto simp: valid_identifier_def neq_Nil_conv)
  with v have c: "id_alnum c" and scan: "fst (scan_identifier 1 False cs)" "\<not> snd (scan_identifier 1 False cs)"
    by (auto simp: valid_identifier_def Let_def alnum_not_separator split: if_splits)
  from scan_sound [OF scan] have
    "cs = [] \<or> id_grammar cs \<or> (\<exists>d t. id_separator d \<and> cs = d # t \<and> id_grammar t)" by simp
  then show "id_grammar s"
  proof (elim disjE exE conjE)
    assume "cs = []"
    with s c show ?thesis by (auto intro: id_grammar.word id_word.one)
  next
    assume "id_grammar cs"
    with s c show ?thesis by (auto intro: id_grammar_Cons)
  next
    fix d t assume "id_separator d" "cs = d # t" "id_grammar t"
    with s c show ?thesis using id_grammar.sep [of "[c]" d t] by (auto intro: id_word.one)
  qed
next
  assume "id_grammar s"
  then show "valid_identifier s"
    by (auto simp: valid_identifier_def scan_complete id_grammar_nonempty)
qed

lemma parse_identifier_valid:
  "parse_identifier kind s =
     (if valid_identifier s then Inr s else Inl \<lparr>ii_kind = kind, ii_value = s\<rparr>)"
  by (auto simp: parse_identifier_def valid_identifier_def case_prod_beta Let_def)

lemma new_identifier_valid:
  "new_identifier k s = Inr t \<longleftrightarrow> valid_identifier s \<and> t = s"
  by (auto simp: new_identifier_def parse_identifier_valid)

text \<open>An identifier contains no character with a meaning in a path, an authority or a key.\<close>

lemma id_word_chars: "id_word w \<Longrightarrow> c \<in> set w \<Longrightarrow> id_alnum c"
  by (induction rule: id_word.induct) auto

lemma id_grammar_chars: "id_grammar s \<Longrightarrow> c \<in> set s \<Longrightarrow> id_alnum c \<or> id_separator c"
  by (induction rule: id_grammar.induct) (auto dest: id_word_chars)

section \<open>Properties\<close>

text \<open>
  The identifier check decides the grammar: a name is accepted, unchanged, exactly when
  it is words of lowercase letters and digits joined by single separators; otherwise the
  error carries the kind and the rejected text.
\<close>

lemma identifier_scan_decides_grammar:
  "new_identifier k s =
     (if id_grammar s then Inr s else Inl \<lparr>ii_kind = kind_name k, ii_value = s\<rparr>)"
  by (simp add: new_identifier_def parse_identifier_valid valid_identifier_iff_grammar)

end
