(* ===== verification/Listener_Compile.thy ===== *)
theory Listener_Compile
  imports Topology Identifiers
begin

text \<open>
  The listener part of the configuration compiler
  (crates/config/src/v2/compile/listeners.rs, with the raw types of v2/raw.rs, the errors of
  v2/error.rs and v2/cors.rs): from the raw listeners, bindings and CONNECT rules to the
  listener plans of the gateway. Three things are parameters: \<open>cors_origin\<close>, the URL
  library's reading of a CORS origin with its error text, and \<open>relative_to\<close>, which resolves
  a relative path against the directory of the configuration file (\<open>Path\<close> operations), and
  the text of socket addresses is read by the standard library's parser, written out below.
\<close>

section \<open>Socket addresses\<close>

definition read_scope_id :: "string \<Rightarrow> nat \<times> string" where
  "read_scope_id s =
     (case Option.bind (read_char CHR ''%'' s) (\<lambda>t. read_number 10 (length t) True (2 ^ 32) t) of
        Some (n, rest) \<Rightarrow> (n, rest)
      | None \<Rightarrow> (0, s))"

definition read_port :: "string \<Rightarrow> (nat \<times> string) option" where
  "read_port s = Option.bind (read_char CHR '':'' s) (\<lambda>t. read_number 10 (length t) True (2 ^ 16) t)"

definition read_socket_v4 :: "string \<Rightarrow> (socket_addr \<times> string) option" where
  "read_socket_v4 s =
     Option.bind (read_ipv4 s) (\<lambda>(a, s1).
     map_option (\<lambda>(p, s2). (\<lparr>sa_ip = V4 a, sa_port = p, sa_scope = 0\<rparr>, s2)) (read_port s1))"

definition read_socket_v6 :: "string \<Rightarrow> (socket_addr \<times> string) option" where
  "read_socket_v6 s =
     Option.bind (read_char CHR ''['' s) (\<lambda>s1.
     Option.bind (read_ipv6 s1) (\<lambda>(gs, s2).
     (case read_scope_id s2 of (scope, s3) \<Rightarrow>
     Option.bind (read_char CHR '']'' s3) (\<lambda>s4.
     map_option (\<lambda>(p, s5). (\<lparr>sa_ip = V6 gs, sa_port = p, sa_scope = scope\<rparr>, s5)) (read_port s4)))))"

definition parse_socket_addr :: "string \<Rightarrow> socket_addr option" where
  "parse_socket_addr s =
     (case (case read_socket_v4 s of Some r \<Rightarrow> Some r | None \<Rightarrow> read_socket_v6 s) of
        Some (a, rest) \<Rightarrow> if rest = [] then Some a else None
      | None \<Rightarrow> None)"

definition show_socket_addr :: "socket_addr \<Rightarrow> string" where
  "show_socket_addr a =
     (case sa_ip a of
        V4 v \<Rightarrow> show_ipv4 v
      | V6 gs \<Rightarrow> ''['' @ show_ipv6 gs
          @ (if sa_scope a = 0 then [] else CHR ''%'' # show_radix 10 (sa_scope a)) @ '']'')
     @ CHR '':'' # show_radix 10 (sa_port a)"

definition ip_is_unspecified :: "ip_addr \<Rightarrow> bool" where
  "ip_is_unspecified a = (case a of V4 v \<Rightarrow> v = Ipv4 0 0 0 0 | V6 gs \<Rightarrow> gs = replicate 8 0)"

section \<open>Raw configuration and errors\<close>

datatype raw_client_auth = Raw_No_Auth | Raw_Local_Keys
datatype raw_connect_action = Raw_Intercept | Raw_Tunnel | Raw_Connect_Reject
datatype raw_binding_action = Raw_Route string | Raw_Reject

record raw_cors =
  rc_enabled :: bool
  rc_allow_localhost :: bool
  rc_allowed_origins :: "string list"

record raw_llm_api =
  rl_bind :: string
  rl_client_auth :: raw_client_auth
  rl_cors :: raw_cors
  rl_allow_insecure_public :: bool

record raw_forward_proxy =
  rf_bind :: string
  rf_client_auth :: raw_client_auth
  rf_allow_insecure_public :: bool
  rf_request_body_max_bytes :: nat
  rf_default_http_action :: raw_binding_action
  rf_default_connect :: raw_connect_action
  rf_ca_dir :: "string option"

datatype raw_listener = Raw_Llm_Api raw_llm_api | Raw_Forward_Proxy raw_forward_proxy

record raw_binding =
  rb_id :: string
  rb_listener :: string
  rb_action :: raw_binding_action
  rb_hosts :: "string list"
  rb_path_prefixes :: "string list"
  rb_methods :: "string list"
  rb_operations :: "string list"

record raw_connect_rule =
  rx_id :: string
  rx_listener :: string
  rx_action :: raw_connect_action
  rx_hosts :: "string list"
  rx_ports :: "nat list"

record raw_listeners =
  rw_listeners :: "(string, raw_listener) bmap"
  rw_bindings :: "raw_binding list"
  rw_connect_rules :: "raw_connect_rule list"

datatype compile_error =
    Bad_Identifier string invalid_identifier
  | Empty_Registry string
  | Duplicate_Id string string
  | Duplicate_Bind string string string string
  | Duplicate_Origin string string string
  | Unresolved_Reference string string string string string
  | Invalid_Value string string

definition compile_id :: "identifier_kind \<Rightarrow> string \<Rightarrow> string \<Rightarrow> compile_error + string" where
  "compile_id kind resource value = map_err (Bad_Identifier resource) (new_identifier kind value)"

definition duplicate_value :: "string \<Rightarrow> string \<Rightarrow> compile_error" where
  "duplicate_value location value =
     Invalid_Value location (''contains duplicate value `'' @ value @ ''` after normalization'')"

definition redundant_value :: "string \<Rightarrow> string \<Rightarrow> string \<Rightarrow> compile_error" where
  "redundant_value location redundant covering =
     Invalid_Value location
       (''selector `'' @ redundant @ ''` is redundant because `'' @ covering @ ''` already covers it'')"

fun invalid_host_text :: "invalid_host \<Rightarrow> string" where
  "invalid_host_text Host_Empty = ''host must not be empty''"
| "invalid_host_text Non_Ascii = ''host must contain ASCII characters only''"
| "invalid_host_text Whitespace_Or_Control = ''host must not contain whitespace or control characters''"
| "invalid_host_text Malformed_Brackets = ''host has malformed IPv6 brackets''"
| "invalid_host_text Invalid_Bracketed_Ipv6 = ''brackets may only contain a valid IPv6 address''"
| "invalid_host_text Port_Not_Allowed = ''host must not include a port''"
| "invalid_host_text Trailing_Dot = ''host must not have a trailing dot''"
| "invalid_host_text Too_Long = ''DNS name exceeds 253 bytes''"
| "invalid_host_text Invalid_Dns_Label = ''DNS labels must be 1-63 ASCII letters, digits, or interior hyphens''"
| "invalid_host_text Ambiguous_Numeric_Suffix =
     ''the final DNS label is numeric-like and ambiguous with legacy IPv4 syntax''"
| "invalid_host_text (Non_Canonical_Ipv4 a) = ''noncanonical IPv4 address; use `'' @ show_ipv4 a @ ''`''"

section \<open>Selectors of one dimension\<close>

text \<open>
  The loop of \<open>compile_hosts\<close> and \<open>compile_path_prefixes\<close> over the selectors claimed so far:
  a duplicate, a selector an earlier one covers, or one that covers an earlier one.
\<close>

fun check_claimed ::
  "('p \<Rightarrow> 'p \<Rightarrow> bool) \<Rightarrow> string \<Rightarrow> string \<Rightarrow> 'p \<Rightarrow> (string \<times> 'p) list \<Rightarrow> compile_error + unit" where
  "check_claimed covers location raw pattern [] = Inr ()"
| "check_claimed covers location raw pattern ((prior_raw, prior) # claimed) =
     (if prior = pattern then Inl (duplicate_value location raw)
      else if covers prior pattern then Inl (redundant_value location raw prior_raw)
      else if covers pattern prior then Inl (redundant_value location prior_raw raw)
      else check_claimed covers location raw pattern claimed)"

fun compile_selectors ::
  "(string \<Rightarrow> compile_error + 'p) \<Rightarrow> ('p \<Rightarrow> 'p \<Rightarrow> bool) \<Rightarrow> string \<Rightarrow> (string \<times> 'p) list \<Rightarrow>
   string list \<Rightarrow> compile_error + 'p list" where
  "compile_selectors one covers location claimed [] = Inr (map snd claimed)"
| "compile_selectors one covers location claimed (raw # raws) =
     res_bind (one raw) (\<lambda>pattern.
     res_bind (check_claimed covers location raw pattern claimed) (\<lambda>_.
     compile_selectors one covers location (claimed @ [(raw, pattern)]) raws))"

definition compile_host :: "string \<Rightarrow> string \<Rightarrow> compile_error + host_pattern" where
  "compile_host location raw =
     (case strip_prefix ''*.'' raw of
        Some raw_suffix \<Rightarrow>
          if CHR ''*'' \<in> set raw_suffix
          then Inl (Invalid_Value location ''wildcard is only allowed once as the `*.` prefix'')
          else
            (case parse_host raw_suffix of
               Inl e \<Rightarrow> Inl (Invalid_Value location (invalid_host_text e))
             | Inr suffix \<Rightarrow>
                 map_err (\<lambda>_. Invalid_Value location
                     ''subdomain patterns require a DNS suffix, not an IP address'')
                   (subdomains_of suffix))
      | None \<Rightarrow>
          if CHR ''*'' \<in> set raw
          then Inl (Invalid_Value location
                 ''wildcard is only allowed as a `*.` prefix; a lone `*` is not a catch-all'')
          else
            (case parse_host raw of
               Inl e \<Rightarrow> Inl (Invalid_Value location (invalid_host_text e))
             | Inr host \<Rightarrow> Inr (Exact host)))"

definition compile_hosts :: "string list \<Rightarrow> string \<Rightarrow> compile_error + host_pattern list" where
  "compile_hosts raw_hosts location =
     compile_selectors (compile_host location) pattern_subsumes location [] raw_hosts"

definition is_rfc3986_pchar :: "char \<Rightarrow> bool" where
  "is_rfc3986_pchar c \<longleftrightarrow> is_ascii_alphanumeric c \<or> c \<in> set ''-._~!$&'' \<or> byte c = 39 \<or> c \<in> set ''()*+,;=:@''"

fun canonical_path_bytes :: "string \<Rightarrow> string \<Rightarrow> compile_error + string" where
  "canonical_path_bytes location [] = Inr []"
| "canonical_path_bytes location (c # cs) =
     (if c = CHR ''%'' then
        (case cs of
           h # l # rest \<Rightarrow>
             if \<not> (is_ascii_hexdigit h \<and> is_ascii_hexdigit l)
             then Inl (Invalid_Value location
               ''percent escapes in path prefixes must contain exactly two hexadecimal digits'')
             else res_map (\<lambda>t. CHR ''%'' # to_ascii_uppercase h # to_ascii_uppercase l # t)
                    (canonical_path_bytes location rest)
         | _ \<Rightarrow> Inl (Invalid_Value location
               ''percent escapes in path prefixes must contain exactly two hexadecimal digits''))
      else if c \<noteq> CHR ''/'' \<and> \<not> is_rfc3986_pchar c
      then Inl (Invalid_Value location
             ''path prefixes may only contain RFC 3986 path characters and percent escapes'')
      else res_map (\<lambda>t. c # t) (canonical_path_bytes location cs))"

text \<open>The number of dots of a segment made of dots only, literal or escaped.\<close>

fun dot_count :: "string \<Rightarrow> nat option" where
  "dot_count [] = Some 0"
| "dot_count (c # cs) =
     (if c = CHR ''.'' then map_option Suc (dot_count cs)
      else case c # cs of
             a # b # d # rest \<Rightarrow>
               if a = CHR ''%'' \<and> b = CHR ''2'' \<and> d = CHR ''E'' then map_option Suc (dot_count rest) else None
           | _ \<Rightarrow> None)"

definition is_dot_segment :: "string \<Rightarrow> bool" where
  "is_dot_segment segment \<longleftrightarrow> dot_count segment \<in> {Some 1, Some 2}"

definition canonical_path_prefix :: "string \<Rightarrow> string \<Rightarrow> compile_error + string" where
  "canonical_path_prefix location raw =
     (if raw = [] \<or> hd raw \<noteq> CHR ''/''
      then Inl (Invalid_Value location ''path prefixes must be non-empty and start with `/`'')
      else if raw = ''/''
      then Inl (Invalid_Value location
        ''`/` matches every path; omit this dimension (and use the listener default action if no constraints remain)'')
      else if \<exists>c \<in> set raw. \<not> is_ascii_char c
      then Inl (Invalid_Value location ''path prefixes must be ASCII URI paths; percent-encode non-ASCII bytes'')
      else
        res_bind (canonical_path_bytes location raw) (\<lambda>canonical.
          if \<exists>segment \<in> set (split_on CHR ''/'' canonical). is_dot_segment segment
          then Inl (Invalid_Value location
            ''path prefixes must not contain literal or percent-encoded `.` or `..` segments'')
          else Inr canonical))"

definition compile_path_prefixes :: "string list \<Rightarrow> string \<Rightarrow> compile_error + string list" where
  "compile_path_prefixes raw_paths binding_id =
     (let location = ''bindings.'' @ binding_id @ ''.path_prefixes''
      in compile_selectors (canonical_path_prefix location) starts_with location [] raw_paths)"

definition is_http_token_byte :: "char \<Rightarrow> bool" where
  "is_http_token_byte c \<longleftrightarrow> is_ascii_alphanumeric c \<or> c \<in> set ''!#$%&'' \<or> byte c = 39 \<or> c \<in> set ''*+-.^_`|~''"

fun compile_methods_from :: "string \<Rightarrow> string list \<Rightarrow> string list \<Rightarrow> compile_error + string list" where
  "compile_methods_from location claimed [] = Inr claimed"
| "compile_methods_from location claimed (m # ms) =
     (if m = [] \<or> (\<exists>c \<in> set m. \<not> is_http_token_byte c)
      then Inl (Invalid_Value location ''methods must be valid non-empty HTTP tokens'')
      else if CHR ''*'' \<in> set m
      then Inl (Invalid_Value location ''`*` is not a supported method selector'')
      else if \<exists>c \<in> set m. is_ascii_lowercase c
      then Inl (Invalid_Value location
             ''methods are case-sensitive and must use canonical uppercase ASCII tokens'')
      else if m \<in> set claimed then Inl (duplicate_value location m)
      else compile_methods_from location (claimed @ [m]) ms)"

definition compile_methods :: "string list \<Rightarrow> string \<Rightarrow> compile_error + string list" where
  "compile_methods raw_methods binding_id =
     compile_methods_from (''bindings.'' @ binding_id @ ''.methods'') [] raw_methods"

fun compile_operations_from :: "string \<Rightarrow> string list \<Rightarrow> string list \<Rightarrow> compile_error + string list" where
  "compile_operations_from location claimed [] = Inr claimed"
| "compile_operations_from location claimed (raw # raws) =
     res_bind (compile_id Operation_Id ''operation selector'' raw) (\<lambda>operation.
       if operation \<in> set claimed then Inl (duplicate_value location raw)
       else compile_operations_from location (claimed @ [operation]) raws)"

definition compile_operations :: "string list \<Rightarrow> string \<Rightarrow> compile_error + string list" where
  "compile_operations raw_operations binding_id =
     compile_operations_from (''bindings.'' @ binding_id @ ''.operations'') [] raw_operations"

fun compile_ports_from :: "string \<Rightarrow> nat list \<Rightarrow> nat list \<Rightarrow> compile_error + nat list" where
  "compile_ports_from location claimed [] = Inr claimed"
| "compile_ports_from location claimed (port # rest) =
     (if port = 0 then Inl (Invalid_Value location ''port zero is not allowed'')
      else if port \<in> set claimed then Inl (duplicate_value location (show_radix 10 port))
      else compile_ports_from location (claimed @ [port]) rest)"

section \<open>Match keys and shadowing\<close>

text \<open>
  The derived order of \<open>HostPattern\<close>, used to sort the keys: exact patterns first, then by
  the text and the kind of the host.
\<close>

definition host_pattern_key :: "host_pattern \<Rightarrow> nat \<times> string \<times> nat" where
  "host_pattern_key p =
     (case p of Exact _ \<Rightarrow> 0 | Subdomains_Of _ \<Rightarrow> 1,
      ch_value (pattern_host p),
      case ch_kind (pattern_host p) of Dns \<Rightarrow> 0 | Ipv4_Kind \<Rightarrow> 1 | Ipv6_Kind \<Rightarrow> 2)"

record http_match_key =
  hk_hosts :: "host_pattern list"
  hk_path_prefixes :: "string list"
  hk_methods :: "string list"
  hk_operations :: "string list"

record connect_match_key =
  ck_hosts :: "host_pattern list"
  ck_ports :: "nat list"

definition dimension_subsumes :: "('a \<Rightarrow> 'a \<Rightarrow> bool) \<Rightarrow> 'a list \<Rightarrow> 'a list \<Rightarrow> bool" where
  "dimension_subsumes covers covering covered \<longleftrightarrow>
     covering = [] \<or>
     covered \<noteq> [] \<and> list_all (\<lambda>candidate. list_ex (\<lambda>alternative. covers alternative candidate) covering) covered"

definition dimension_subsumes_atom :: "('a \<Rightarrow> 'a \<Rightarrow> bool) \<Rightarrow> 'a list \<Rightarrow> 'a option \<Rightarrow> bool" where
  "dimension_subsumes_atom covers covering atom =
     (case atom of
        None \<Rightarrow> covering = []
      | Some a \<Rightarrow> covering = [] \<or> list_ex (\<lambda>alternative. covers alternative a) covering)"

definition all_atoms :: "'a list \<Rightarrow> ('a option \<Rightarrow> bool) \<Rightarrow> bool" where
  "all_atoms alternatives predicate =
     (if alternatives = [] then predicate None
      else list_all (\<lambda>atom. predicate (Some atom)) alternatives)"

definition http_key_subsumes :: "http_match_key \<Rightarrow> http_match_key \<Rightarrow> bool" where
  "http_key_subsumes self other \<longleftrightarrow>
     dimension_subsumes pattern_subsumes (hk_hosts self) (hk_hosts other) \<and>
     dimension_subsumes starts_with (hk_path_prefixes self) (hk_path_prefixes other) \<and>
     dimension_subsumes (=) (hk_methods self) (hk_methods other) \<and>
     dimension_subsumes (=) (hk_operations self) (hk_operations other)"

definition http_key_subsumes_atom ::
  "http_match_key \<Rightarrow> host_pattern option \<Rightarrow> string option \<Rightarrow> string option \<Rightarrow> string option \<Rightarrow> bool" where
  "http_key_subsumes_atom self host path_prefix meth operation \<longleftrightarrow>
     dimension_subsumes_atom pattern_subsumes (hk_hosts self) host \<and>
     dimension_subsumes_atom starts_with (hk_path_prefixes self) path_prefix \<and>
     dimension_subsumes_atom (=) (hk_methods self) meth \<and>
     dimension_subsumes_atom (=) (hk_operations self) operation"

definition http_matchers_subsume_union :: "(http_match_key \<times> string) list \<Rightarrow> http_match_key \<Rightarrow> bool" where
  "http_matchers_subsume_union prior matcher =
     all_atoms (hk_hosts matcher) (\<lambda>host.
       all_atoms (hk_path_prefixes matcher) (\<lambda>path_prefix.
         all_atoms (hk_methods matcher) (\<lambda>meth.
           all_atoms (hk_operations matcher) (\<lambda>operation.
             list_ex (\<lambda>(candidate, _). http_key_subsumes_atom candidate host path_prefix meth operation) prior))))"

definition connect_key_subsumes :: "connect_match_key \<Rightarrow> connect_match_key \<Rightarrow> bool" where
  "connect_key_subsumes self other \<longleftrightarrow>
     dimension_subsumes pattern_subsumes (ck_hosts self) (ck_hosts other) \<and>
     dimension_subsumes (=) (ck_ports self) (ck_ports other)"

definition connect_key_subsumes_atom ::
  "connect_match_key \<Rightarrow> host_pattern option \<Rightarrow> nat option \<Rightarrow> bool" where
  "connect_key_subsumes_atom self host port \<longleftrightarrow>
     dimension_subsumes_atom pattern_subsumes (ck_hosts self) host \<and>
     dimension_subsumes_atom (=) (ck_ports self) port"

definition connect_matchers_subsume_union ::
  "(connect_match_key \<times> string) list \<Rightarrow> connect_match_key \<Rightarrow> bool" where
  "connect_matchers_subsume_union prior matcher =
     all_atoms (ck_hosts matcher) (\<lambda>host.
       all_atoms (ck_ports matcher) (\<lambda>port.
         list_ex (\<lambda>(candidate, _). connect_key_subsumes_atom candidate host port) prior))"

definition compile_http_match :: "raw_binding \<Rightarrow> compile_error + http_match \<times> http_match_key" where
  "compile_http_match raw =
     res_bind (compile_hosts (rb_hosts raw) (''bindings.'' @ rb_id raw @ ''.hosts'')) (\<lambda>hosts.
     res_bind (compile_path_prefixes (rb_path_prefixes raw) (rb_id raw)) (\<lambda>paths.
     res_bind (compile_methods (rb_methods raw) (rb_id raw)) (\<lambda>methods.
     res_bind (compile_operations (rb_operations raw) (rb_id raw)) (\<lambda>operations.
     res_map (\<lambda>matcher.
         (matcher,
          \<lparr>hk_hosts = sort_key host_pattern_key hosts, hk_path_prefixes = sort paths,
           hk_methods = sort methods, hk_operations = sort operations\<rparr>))
       (map_err (\<lambda>_. Invalid_Value (''bindings.'' @ rb_id raw)
           ''an HTTP binding must constrain at least one match dimension; use the listener default HTTP action for catch-all behavior'')
         (new_http_match hosts paths methods operations))))))"

definition compile_connect_match :: "raw_connect_rule \<Rightarrow> compile_error + connect_match \<times> connect_match_key" where
  "compile_connect_match raw =
     res_bind (compile_hosts (rx_hosts raw) (''connect_rules.'' @ rx_id raw @ ''.hosts'')) (\<lambda>hosts.
     res_bind (compile_ports_from (''connect_rules.'' @ rx_id raw @ ''.ports'') [] (rx_ports raw)) (\<lambda>ports.
     res_map (\<lambda>matcher.
         (matcher, \<lparr>ck_hosts = sort_key host_pattern_key hosts, ck_ports = sort ports\<rparr>))
       (map_err (\<lambda>_. Invalid_Value (''connect_rules.'' @ rx_id raw)
           ''a CONNECT rule must constrain hosts or ports; use the listener default CONNECT action for catch-all behavior'')
         (new_connect_match hosts ports))))"

section \<open>Listener drafts\<close>

datatype listener_flavor = Llm_Api_Flavor | Forward_Proxy_Flavor

record listener_draft =
  ld_flavor :: listener_flavor
  ld_bind :: socket_addr
  ld_client_auth :: client_auth_plan
  ld_cors :: cors_plan
  ld_request_body_max_bytes :: "nat option"
  ld_default_http_action :: "http_action option"
  ld_default_connect_action :: "connect_action option"
  ld_ca_dir :: "string option"

definition cors_validate :: "(string \<Rightarrow> string + string) \<Rightarrow> raw_cors \<Rightarrow> string + unit" where
  "cors_validate cors_origin c =
     (if rc_enabled c \<and> \<not> rc_allow_localhost c \<and> rc_allowed_origins c = []
      then Inl ''[server.cors] must set allowed_origins or allow_localhost when CORS is enabled''
      else res_map (\<lambda>_. ()) (res_collect cors_origin (rc_allowed_origins c)))"

definition compile_cors ::
  "(string \<Rightarrow> string + string) \<Rightarrow> raw_cors \<Rightarrow> string \<Rightarrow> compile_error + cors_plan" where
  "compile_cors cors_origin c listener_id =
     (let invalid = Invalid_Value (''listeners.'' @ listener_id @ ''.cors'')
      in res_bind (map_err invalid (cors_validate cors_origin c)) (\<lambda>_.
           if \<not> rc_enabled c then Inr default_cors
           else res_map (\<lambda>origins. \<lparr>cp_allowed_origins = bs_of_list origins,
                                   cp_allow_localhost = rc_allow_localhost c\<rparr>)
                  (map_err invalid (res_collect cors_origin (rc_allowed_origins c)))))"

definition compile_bind :: "string \<Rightarrow> string \<Rightarrow> compile_error + socket_addr" where
  "compile_bind raw listener_id =
     (case parse_socket_addr raw of
        None \<Rightarrow> Inl (Invalid_Value (''listeners.'' @ listener_id @ ''.bind'')
          ''must be a numeric IP socket address such as `127.0.0.1:8080` or `[::1]:8080`'')
      | Some addr \<Rightarrow>
          if sa_port addr = 0
          then Inl (Invalid_Value (''listeners.'' @ listener_id @ ''.bind'') ''port zero is not allowed'')
          else Inr addr)"

definition bind_addresses_overlap :: "socket_addr \<Rightarrow> socket_addr \<Rightarrow> bool" where
  "bind_addresses_overlap a b \<longleftrightarrow>
     sa_port a = sa_port b \<and>
     (sa_ip a = sa_ip b \<or> ip_is_unspecified (sa_ip a) \<or> ip_is_unspecified (sa_ip b))"

fun compile_client_auth :: "raw_client_auth \<Rightarrow> client_auth_plan" where
  "compile_client_auth Raw_No_Auth = No_Auth"
| "compile_client_auth Raw_Local_Keys = Local_Keys"

fun compile_connect_action :: "raw_connect_action \<Rightarrow> connect_action" where
  "compile_connect_action Raw_Intercept = Intercept"
| "compile_connect_action Raw_Tunnel = Tunnel"
| "compile_connect_action Raw_Connect_Reject = Connect_Reject"

definition resolve_ca_dir ::
  "(string \<Rightarrow> string) \<Rightarrow> string option \<Rightarrow> string \<Rightarrow> compile_error + string option" where
  "resolve_ca_dir relative_to raw listener_id =
     (case raw of
        None \<Rightarrow> Inr None
      | Some dir \<Rightarrow>
          if dir = [] then Inl (Invalid_Value (''listeners.'' @ listener_id @ ''.ca_dir'') ''must not be empty'')
          else if hd dir = CHR ''/'' then Inr (Some dir)
          else Inr (Some (relative_to dir)))"

record http_action_context =
  hc_owner_kind :: string
  hc_owner :: string
  hc_reference_field :: string

definition compile_http_action ::
  "raw_binding_action \<Rightarrow> http_action_context \<Rightarrow> (string, profile_plan) bmap \<Rightarrow> compile_error + http_action" where
  "compile_http_action raw context profiles =
     (case raw of
        Raw_Reject \<Rightarrow> Inr Http_Reject
      | Raw_Route raw_profile \<Rightarrow>
          res_bind (compile_id Profile_Id ''profile reference'' raw_profile) (\<lambda>profile_id.
            (case bm_get profiles profile_id of
               None \<Rightarrow> Inl (Unresolved_Reference (hc_owner_kind context) (hc_owner context)
                 (hc_reference_field context) ''profile'' raw_profile)
             | Some _ \<Rightarrow> Inr (Route_To profile_id))))"

definition check_public_bind ::
  "string \<Rightarrow> socket_addr \<Rightarrow> client_auth_plan \<Rightarrow> bool \<Rightarrow> compile_error + unit" where
  "check_public_bind raw_id addr auth allow_insecure_public =
     (if \<not> ip_is_loopback (sa_ip addr) then
        (if auth = No_Auth
         then Inl (Invalid_Value (''listeners.'' @ raw_id @ ''.client_auth'')
                ''unauthenticated listeners must bind to a loopback address'')
         else if \<not> allow_insecure_public
         then Inl (Invalid_Value (''listeners.'' @ raw_id @ ''.allow_insecure_public'')
                ''non-loopback listeners are plaintext; bind to loopback or explicitly set allow_insecure_public = true'')
         else Inr ())
      else Inr ())"

definition check_overlap ::
  "(socket_addr \<times> string) list \<Rightarrow> string \<Rightarrow> socket_addr \<Rightarrow> compile_error + unit" where
  "check_overlap binds raw_id addr =
     (case List.find (\<lambda>(first_bind, _). bind_addresses_overlap first_bind addr) binds of
        Some (first_bind, first_listener) \<Rightarrow>
          Inl (Duplicate_Bind first_listener (show_socket_addr first_bind) raw_id (show_socket_addr addr))
      | None \<Rightarrow> Inr ())"

text \<open>One iteration of the loop over the raw listeners, up to the draft.\<close>

definition compile_draft ::
  "(string \<Rightarrow> string + string) \<Rightarrow> (string \<Rightarrow> string) \<Rightarrow> (string, profile_plan) bmap \<Rightarrow>
   (socket_addr \<times> string) list \<Rightarrow> string \<Rightarrow> raw_listener \<Rightarrow> compile_error + string \<times> listener_draft" where
  "compile_draft cors_origin relative_to profiles binds raw_id raw =
     res_bind (compile_id Listener_Id ''listener id'' raw_id) (\<lambda>id.
       (case raw of
          Raw_Llm_Api l \<Rightarrow>
            res_bind (compile_cors cors_origin (rl_cors l) raw_id) (\<lambda>cors.
            res_bind (compile_bind (rl_bind l) raw_id) (\<lambda>addr.
            res_bind (check_public_bind raw_id addr (compile_client_auth (rl_client_auth l))
                        (rl_allow_insecure_public l)) (\<lambda>_.
            res_bind (check_overlap binds raw_id addr) (\<lambda>_.
            Inr (id, \<lparr>ld_flavor = Llm_Api_Flavor, ld_bind = addr,
                      ld_client_auth = compile_client_auth (rl_client_auth l), ld_cors = cors,
                      ld_request_body_max_bytes = None, ld_default_http_action = None,
                      ld_default_connect_action = None, ld_ca_dir = None\<rparr>)))))
        | Raw_Forward_Proxy f \<Rightarrow>
            res_bind (resolve_ca_dir relative_to (rf_ca_dir f) raw_id) (\<lambda>ca_dir.
            res_bind (compile_bind (rf_bind f) raw_id) (\<lambda>addr.
            if rf_request_body_max_bytes f = 0
            then Inl (Invalid_Value (''listeners.'' @ raw_id @ ''.request_body_max_bytes'') ''must be greater than zero'')
            else
            res_bind (check_public_bind raw_id addr (compile_client_auth (rf_client_auth f))
                        (rf_allow_insecure_public f)) (\<lambda>_.
            res_bind (check_overlap binds raw_id addr) (\<lambda>_.
            res_bind (compile_http_action (rf_default_http_action f)
                        \<lparr>hc_owner_kind = ''listener'', hc_owner = raw_id,
                         hc_reference_field = ''default_http_action.profile''\<rparr> profiles) (\<lambda>action.
            Inr (id, \<lparr>ld_flavor = Forward_Proxy_Flavor, ld_bind = addr,
                      ld_client_auth = compile_client_auth (rf_client_auth f), ld_cors = default_cors,
                      ld_request_body_max_bytes = Some (rf_request_body_max_bytes f),
                      ld_default_http_action = Some action,
                      ld_default_connect_action = Some (compile_connect_action (rf_default_connect f)),
                      ld_ca_dir = ca_dir\<rparr>))))))))"

fun compile_drafts ::
  "(string \<Rightarrow> string + string) \<Rightarrow> (string \<Rightarrow> string) \<Rightarrow> (string, profile_plan) bmap \<Rightarrow>
   (socket_addr \<times> string) list \<Rightarrow> (string, listener_draft) bmap \<Rightarrow> (string \<times> raw_listener) list \<Rightarrow>
   compile_error + (string, listener_draft) bmap" where
  "compile_drafts cors_origin relative_to profiles binds drafts [] = Inr drafts"
| "compile_drafts cors_origin relative_to profiles binds drafts ((raw_id, raw) # rest) =
     res_bind (compile_draft cors_origin relative_to profiles binds raw_id raw) (\<lambda>(id, draft).
       compile_drafts cors_origin relative_to profiles (binds @ [(ld_bind draft, id)])
         (bm_insert id draft drafts) rest)"

section \<open>Bindings and CONNECT rules\<close>

definition claim_binding_id :: "string \<Rightarrow> string list \<Rightarrow> compile_error + string" where
  "claim_binding_id raw ids =
     res_bind (compile_id Binding_Id ''binding id'' raw) (\<lambda>id.
       if id \<in> set ids then Inl (Duplicate_Id ''binding'' raw) else Inr id)"

definition resolve_listener ::
  "string \<Rightarrow> string \<Rightarrow> string \<Rightarrow> string \<Rightarrow> (string, listener_draft) bmap \<Rightarrow> compile_error + string" where
  "resolve_listener raw_listener owner_kind owner field listeners =
     res_bind (compile_id Listener_Id ''listener reference'' raw_listener) (\<lambda>listener.
       (case bm_get listeners listener of
          Some _ \<Rightarrow> Inr listener
        | None \<Rightarrow> Inl (Unresolved_Reference owner_kind owner field ''listener'' raw_listener)))"

text \<open>\<open>entry(k).or_default()\<close> and \<open>push\<close> on a map of vectors.\<close>

definition bm_entry :: "('k, 'v list) bmap \<Rightarrow> 'k \<Rightarrow> 'v list" where
  "bm_entry m k = (case bm_get m k of None \<Rightarrow> [] | Some xs \<Rightarrow> xs)"

definition bm_push :: "'k::linorder \<Rightarrow> 'v \<Rightarrow> ('k, 'v list) bmap \<Rightarrow> ('k, 'v list) bmap" where
  "bm_push k v m = bm_insert k (bm_entry m k @ [v]) m"

record ('key, 'plan) rule_state =
  rs_ids :: "string list"
  rs_plans :: "(string, 'plan list) bmap"
  rs_matchers :: "(string, ('key \<times> string) list) bmap"

definition compile_binding ::
  "(string, profile_plan) bmap \<Rightarrow> (string, listener_draft) bmap \<Rightarrow> raw_binding \<Rightarrow>
   (http_match_key, http_binding_plan) rule_state \<Rightarrow>
   compile_error + (http_match_key, http_binding_plan) rule_state" where
  "compile_binding profiles drafts raw st =
     res_bind (claim_binding_id (rb_id raw) (rs_ids st)) (\<lambda>id.
     res_bind (resolve_listener (rb_listener raw) ''binding'' (rb_id raw) ''listener'' drafts) (\<lambda>listener_id.
     if map_option ld_flavor (bm_get drafts listener_id) \<noteq> Some Forward_Proxy_Flavor
     then Inl (Invalid_Value (''bindings.'' @ rb_id raw @ ''.listener'')
       ''HTTP bindings are only supported on forward-proxy listeners; configure profiles.<id>.binding for API paths'')
     else
     res_bind (compile_http_match raw) (\<lambda>(matcher, key).
     (let prior = bm_entry (rs_matchers st) listener_id
      in (case List.find (\<lambda>(p, _). http_key_subsumes p key) prior of
            Some (_, first) \<Rightarrow>
              Inl (Invalid_Value (''bindings.'' @ rb_id raw)
                (''matcher is unreachable because binding `'' @ first
                   @ ''` matches all of its requests on listener `'' @ listener_id @ ''`''))
          | None \<Rightarrow>
              if http_matchers_subsume_union prior key
              then Inl (Invalid_Value (''bindings.'' @ rb_id raw)
                (''matcher is unreachable because earlier bindings collectively match all of its requests on listener `''
                   @ listener_id @ ''`''))
              else
              res_map (\<lambda>action.
                  \<lparr>rs_ids = rs_ids st @ [id],
                   rs_plans = bm_push listener_id \<lparr>hb_id = id, hb_matcher = matcher, hb_action = action\<rparr> (rs_plans st),
                   rs_matchers = bm_push listener_id (key, id) (rs_matchers st)\<rparr>)
                (compile_http_action (rb_action raw)
                   \<lparr>hc_owner_kind = ''binding'', hc_owner = rb_id raw, hc_reference_field = ''action.profile''\<rparr>
                   profiles))))))"

definition compile_connect_rule ::
  "(string, listener_draft) bmap \<Rightarrow> raw_connect_rule \<Rightarrow>
   (connect_match_key, connect_rule_plan) rule_state \<Rightarrow>
   compile_error + (connect_match_key, connect_rule_plan) rule_state" where
  "compile_connect_rule drafts raw st =
     res_bind (claim_binding_id (rx_id raw) (rs_ids st)) (\<lambda>id.
     res_bind (resolve_listener (rx_listener raw) ''CONNECT rule'' (rx_id raw) ''listener'' drafts) (\<lambda>listener_id.
     if map_option ld_flavor (bm_get drafts listener_id) \<noteq> Some Forward_Proxy_Flavor
     then Inl (Invalid_Value (''connect_rules.'' @ rx_id raw @ ''.listener'')
       (''listener `'' @ listener_id @ ''` is not a forward proxy''))
     else
     res_bind (compile_connect_match raw) (\<lambda>(matcher, key).
     (let prior = bm_entry (rs_matchers st) listener_id
      in (case List.find (\<lambda>(p, _). connect_key_subsumes p key) prior of
            Some (_, first) \<Rightarrow>
              Inl (Invalid_Value (''connect_rules.'' @ rx_id raw)
                (''matcher is unreachable because CONNECT rule `'' @ first
                   @ ''` matches all of its requests on listener `'' @ listener_id @ ''`''))
          | None \<Rightarrow>
              if connect_matchers_subsume_union prior key
              then Inl (Invalid_Value (''connect_rules.'' @ rx_id raw)
                (''matcher is unreachable because earlier CONNECT rules collectively match all of its requests on listener `''
                   @ listener_id @ ''`''))
              else
              Inr \<lparr>rs_ids = rs_ids st @ [id],
                   rs_plans = bm_push listener_id
                     \<lparr>cr_id = id, cr_matcher = matcher, cr_action = compile_connect_action (rx_action raw)\<rparr> (rs_plans st),
                   rs_matchers = bm_push listener_id (key, id) (rs_matchers st)\<rparr>)))))"

fun res_fold :: "('a \<Rightarrow> 's \<Rightarrow> 'e + 's) \<Rightarrow> 'a list \<Rightarrow> 's \<Rightarrow> 'e + 's" where
  "res_fold f [] s = Inr s"
| "res_fold f (x # xs) s = res_bind (f x s) (res_fold f xs)"

lemma res_fold_invariant:
  "res_fold f xs s = Inr s' \<Longrightarrow> P s \<Longrightarrow> (\<And>x s s'. f x s = Inr s' \<Longrightarrow> P s \<Longrightarrow> P s') \<Longrightarrow> P s'"
  by (induction xs arbitrary: s) auto

section \<open>The compiler\<close>

definition finish_listener ::
  "(string, http_binding_plan list) bmap \<Rightarrow> (string, connect_rule_plan list) bmap \<Rightarrow>
   string \<times> listener_draft \<Rightarrow> compile_error + string \<times> listener_plan" where
  "finish_listener http_bindings connect_rules entry =
     (case entry of (lid, draft) \<Rightarrow>
        (case ld_flavor draft of
           Llm_Api_Flavor \<Rightarrow>
             Inr (lid, Llm_Api ((new_llm_api_listener (ld_bind draft) (ld_client_auth draft))\<lparr>la_cors := ld_cors draft\<rparr>))
         | Forward_Proxy_Flavor \<Rightarrow>
             (let rules = bm_entry connect_rules lid;
                  default_connect = the (ld_default_connect_action draft);
                  needs_tls = (default_connect = Intercept \<or> (\<exists>rule \<in> set rules. cr_action rule = Intercept))
              in if needs_tls \<and> ld_ca_dir draft = None
                 then Inl (Invalid_Value (''listeners.'' @ lid @ ''.ca_dir'')
                   ''ca_dir is required when the listener can intercept CONNECT requests'')
                 else
                   Inr (lid, Forward_Proxy
                     ((new_forward_proxy_listener (ld_bind draft) (ld_client_auth draft)
                         (bm_entry http_bindings lid) (the (ld_default_http_action draft)) rules default_connect
                         (map_option (\<lambda>dir. \<lparr>tp_ca_dir = dir\<rparr>) (ld_ca_dir draft)))
                      \<lparr>fp_request_body_max_bytes := the (ld_request_body_max_bytes draft)\<rparr>)))))"

definition compile_listeners ::
  "(string \<Rightarrow> string + string) \<Rightarrow> (string \<Rightarrow> string) \<Rightarrow> raw_listeners \<Rightarrow> (string, profile_plan) bmap \<Rightarrow>
   compile_error + (string, listener_plan) bmap" where
  "compile_listeners cors_origin relative_to raw profiles =
     (if rw_listeners raw = [] then Inl (Empty_Registry ''listener'')
      else
        res_bind (compile_drafts cors_origin relative_to profiles [] [] (rw_listeners raw)) (\<lambda>drafts.
        res_bind (res_fold (compile_binding profiles drafts) (rw_bindings raw)
                    \<lparr>rs_ids = [], rs_plans = [], rs_matchers = []\<rparr>) (\<lambda>http.
        res_bind (res_fold (compile_connect_rule drafts) (rw_connect_rules raw)
                    \<lparr>rs_ids = rs_ids http, rs_plans = [], rs_matchers = []\<rparr>) (\<lambda>connect.
        res_map bm_of_list
          (res_collect (finish_listener (rs_plans http) (rs_plans connect)) drafts)))))"

section \<open>Successful compilation\<close>

lemma compile_listeners_InrE:
  assumes "compile_listeners cors_origin relative_to raw profiles = Inr plans"
  obtains drafts http connect entries where
    "rw_listeners raw \<noteq> []"
    "compile_drafts cors_origin relative_to profiles [] [] (rw_listeners raw) = Inr drafts"
    "res_fold (compile_binding profiles drafts) (rw_bindings raw)
       \<lparr>rs_ids = [], rs_plans = [], rs_matchers = []\<rparr> = Inr http"
    "res_fold (compile_connect_rule drafts) (rw_connect_rules raw)
       \<lparr>rs_ids = rs_ids http, rs_plans = [], rs_matchers = []\<rparr> = Inr connect"
    "res_collect (finish_listener (rs_plans http) (rs_plans connect)) drafts = Inr entries"
    "plans = bm_of_list entries"
proof -
  have ne: "rw_listeners raw \<noteq> []" using assms by (auto simp: compile_listeners_def)
  obtain drafts where d: "compile_drafts cors_origin relative_to profiles [] [] (rw_listeners raw) = Inr drafts"
    using assms ne by (auto simp: compile_listeners_def)
  obtain http where h: "res_fold (compile_binding profiles drafts) (rw_bindings raw)
       \<lparr>rs_ids = [], rs_plans = [], rs_matchers = []\<rparr> = Inr http"
    using assms ne d by (auto simp: compile_listeners_def)
  obtain connect where c: "res_fold (compile_connect_rule drafts) (rw_connect_rules raw)
       \<lparr>rs_ids = rs_ids http, rs_plans = [], rs_matchers = []\<rparr> = Inr connect"
    using assms ne d h by (auto simp: compile_listeners_def)
  obtain entries where
    "res_collect (finish_listener (rs_plans http) (rs_plans connect)) drafts = Inr entries"
    "plans = bm_of_list entries"
    using assms ne d h c by (auto simp: compile_listeners_def)
  with ne d h c show thesis by (rule that)
qed

end
