(* ===== verification/Json.thy ===== *)
theory Json
  imports Ordered_Map
begin

text \<open>
  The JSON values of the \<open>serde_json\<close> crate, as far as the modelled code inspects them:
  an object is an ordered map (the crate is built without \<open>preserve_order\<close>); a number is an
  integer or a float, and no modelled operation computes with a float, so it is carried as
  its text.
\<close>

datatype json_number = N_Int int | N_Float string

datatype json =
    J_Null
  | J_Bool bool
  | J_Number json_number
  | J_String string
  | J_Array "json list"
  | J_Object "(string \<times> json) list"

text \<open>\<open>Value::get\<close> with a string key, and the typed views.\<close>

fun json_get :: "json \<Rightarrow> string \<Rightarrow> json option" where
  "json_get (J_Object m) k = bm_get m k"
| "json_get _ k = None"

fun json_str :: "json \<Rightarrow> string option" where
  "json_str (J_String s) = Some s"
| "json_str _ = None"

fun json_bool :: "json \<Rightarrow> bool option" where
  "json_bool (J_Bool b) = Some b"
| "json_bool _ = None"

fun json_array :: "json \<Rightarrow> json list option" where
  "json_array (J_Array xs) = Some xs"
| "json_array _ = None"

text \<open>\<open>as_u64\<close> and \<open>as_i64\<close>, which answer for the integers of their range; \<open>as_f64\<close> for any number.\<close>

fun json_u64 :: "json \<Rightarrow> nat option" where
  "json_u64 (J_Number (N_Int n)) = (if 0 \<le> n \<and> n < 2 ^ 64 then Some (nat n) else None)"
| "json_u64 _ = None"

fun json_i64 :: "json \<Rightarrow> int option" where
  "json_i64 (J_Number (N_Int n)) = (if - (2 ^ 63) \<le> n \<and> n < 2 ^ 63 then Some n else None)"
| "json_i64 _ = None"

fun json_number_of :: "json \<Rightarrow> json_number option" where
  "json_number_of (J_Number n) = Some n"
| "json_number_of _ = None"

definition json_nat :: "nat \<Rightarrow> json" where
  "json_nat n = J_Number (N_Int (int n))"

text \<open>The values of \<open>json!\<close>: objects from their entries, \<open>None\<close> as null.\<close>

definition json_obj :: "(string \<times> json) list \<Rightarrow> json" where
  "json_obj entries = J_Object (bm_of_list entries)"

fun json_opt_str :: "string option \<Rightarrow> json" where
  "json_opt_str None = J_Null"
| "json_opt_str (Some s) = J_String s"

text \<open>\<open>v.get(key).and_then(Value::as_str)\<close> and its like.\<close>

definition get_str :: "json \<Rightarrow> string \<Rightarrow> string option" where
  "get_str v k = Option.bind (json_get v k) json_str"

definition get_array :: "json \<Rightarrow> string \<Rightarrow> json list option" where
  "get_array v k = Option.bind (json_get v k) json_array"

definition get_u64 :: "json \<Rightarrow> string \<Rightarrow> nat option" where
  "get_u64 v k = Option.bind (json_get v k) json_u64"

fun or_else :: "'a option \<Rightarrow> 'a option \<Rightarrow> 'a option" where
  "or_else (Some x) y = Some x"
| "or_else None y = y"

definition unwrap_or :: "'a \<Rightarrow> 'a option \<Rightarrow> 'a" where
  "unwrap_or d x = (case x of None \<Rightarrow> d | Some y \<Rightarrow> y)"

lemma unwrap_or_simps [simp]: "unwrap_or d None = d" "unwrap_or d (Some x) = x"
  by (simp_all add: unwrap_or_def)

fun json_object :: "json \<Rightarrow> (string \<times> json) list option" where
  "json_object (J_Object m) = Some m"
| "json_object _ = None"

text \<open>
  \<open>Value::pointer\<close> along keys that are not array indices: an array on the way has no
  such member.
\<close>

fun json_pointer :: "json \<Rightarrow> string list \<Rightarrow> json option" where
  "json_pointer v [] = Some v"
| "json_pointer v (k # ks) = (case json_get v k of None \<Rightarrow> None | Some w \<Rightarrow> json_pointer w ks)"

lemma json_pointer_append:
  "json_pointer v (ks @ ls) = Option.bind (json_pointer v ks) (\<lambda>w. json_pointer w ls)"
  by (induction v ks rule: json_pointer.induct) (auto split: option.splits)

lemma json_get_obj: "json_get (json_obj entries) k = map_of (rev entries) k"
  by (simp add: json_obj_def bm_get_of_list)

lemma json_u64_nat: "n < 2 ^ 64 \<Longrightarrow> json_u64 (json_nat n) = Some n"
  by (simp add: json_nat_def)

lemma get_obj:
  "get_str (json_obj entries) k = Option.bind (map_of (rev entries) k) json_str"
  "get_array (json_obj entries) k = Option.bind (map_of (rev entries) k) json_array"
  "get_u64 (json_obj entries) k = Option.bind (map_of (rev entries) k) json_u64"
  by (simp_all add: get_str_def get_array_def get_u64_def json_get_obj)

end
