(* ===== verification/Provider_Core.thy ===== *)
theory Provider_Core
  imports Json
begin

text \<open>
  Providers (crates/core/src/provider.rs, provider/reasoning.rs): endpoints and their
  inference from a path, the endpoint rules with their glob patterns, the model cache and
  the default methods of the \<open>Provider\<close> trait, with the two drivers that override them
  (crates/provider-llama-cpp, crates/provider-opencode).

  Of \<open>ModelInfo\<close> the model keeps the id and the reasoning efforts, the only fields that the
  modelled code reads. The locks of the cache are never poisoned: no code panics while
  it holds them.
\<close>

section \<open>Endpoints\<close>

datatype endpoint = Chat_Completions | Responses | Messages

fun endpoint_str :: "endpoint \<Rightarrow> string" where
  "endpoint_str Chat_Completions = ''chat_completions''"
| "endpoint_str Responses = ''responses''"
| "endpoint_str Messages = ''messages''"

definition infer_from :: "string \<Rightarrow> endpoint option" where
  "infer_from path =
     (if ends_with ''/chat/completions'' path then Some Chat_Completions
      else if ends_with ''/responses'' path then Some Responses
      else if ends_with ''/messages'' path then Some Messages
      else None)"

datatype provider_request_kind = Operation endpoint | Models_Request | Opaque_Request

fun request_kind_endpoint :: "provider_request_kind \<Rightarrow> endpoint option" where
  "request_kind_endpoint (Operation e) = Some e"
| "request_kind_endpoint Models_Request = None"
| "request_kind_endpoint Opaque_Request = None"

definition trim_end_matches :: "'a \<Rightarrow> 'a list \<Rightarrow> 'a list" where
  "trim_end_matches c s = rev (dropWhile (\<lambda>x. x = c) (rev s))"

definition from_provider_path :: "string \<Rightarrow> provider_request_kind" where
  "from_provider_path path =
     (let path_only = trim_end_matches CHR ''/'' (hd (split_on CHR ''?'' path))
      in if ends_with ''/models'' path_only then Models_Request else Opaque_Request)"

section \<open>Official providers\<close>

record official_provider_preset =
  op_id :: string
  op_driver :: string

definition official_provider_presets :: "official_provider_preset list" where
  "official_provider_presets = map (\<lambda>(i, d). \<lparr>op_id = i, op_driver = d\<rparr>)
     [(''codex'', ''codex''), (''deepseek'', ''deepseek''), (''github-copilot'', ''github-copilot''),
      (''llama-cpp'', ''llama-cpp''), (''openai'', ''openai''), (''opencode-go'', ''opencode-go''),
      (''zai'', ''zai''), (''zai-coding-plan'', ''zai''), (''zhipuai'', ''zai''),
      (''zhipuai-coding-plan'', ''zai'')]"

definition official_preset :: "string \<Rightarrow> official_provider_preset option" where
  "official_preset i = List.find (\<lambda>preset. op_id preset = i) official_provider_presets"

section \<open>Endpoint rules\<close>

record endpoint_rule =
  er_pattern :: string
  er_endpoints :: "endpoint list"

text \<open>
  The matcher of \<open>glob_match\<close>, on the remaining pattern and the remaining input. A run of
  stars is collapsed; a trailing run accepts everything; otherwise the rest of the pattern
  is tried at every position of the input, the end included.
\<close>

function glob_rec :: "string \<Rightarrow> string \<Rightarrow> bool" and glob_from :: "string \<Rightarrow> string \<Rightarrow> bool" where
  "glob_rec [] s = (s = [])"
| "glob_rec (c # p) s =
     (if c = CHR ''*'' then
        (let rest = dropWhile (\<lambda>x. x = CHR ''*'') p
         in if rest = [] then True else glob_from rest s)
      else (case s of [] \<Rightarrow> False | x # xs \<Rightarrow> if c \<noteq> x then False else glob_rec p xs))"
| "glob_from p s =
     (if glob_rec p s then True else (case s of [] \<Rightarrow> False | x # xs \<Rightarrow> glob_from p xs))"
  by pat_completeness auto

termination
proof (relation "measure (\<lambda>x. case x of Inl (p, s) \<Rightarrow> 2 * (length p + length s)
                                      | Inr (p, s) \<Rightarrow> 2 * (length p + length s) + 1)",
    goal_cases)
  case (2 c p s x)
  have "length (dropWhile (\<lambda>x. x = CHR ''*'') p) \<le> length p" by (rule length_dropWhile_le)
  with 2 show ?case by simp
qed auto

definition glob_match :: "string \<Rightarrow> string \<Rightarrow> bool" where
  "glob_match pattern input = glob_rec pattern input"

fun match_endpoint_rule :: "endpoint_rule list \<Rightarrow> string \<Rightarrow> endpoint \<Rightarrow> bool option" where
  "match_endpoint_rule [] model e = None"
| "match_endpoint_rule (rule # rules) model e =
     (if glob_match (er_pattern rule) model then Some (e \<in> set (er_endpoints rule))
      else match_endpoint_rule rules model e)"

section \<open>Reasoning efforts\<close>

datatype reasoning_effort = Minimal | Low | Medium | High | X_High | Max_Effort | Custom string

definition effort_from :: "string \<Rightarrow> reasoning_effort" where
  "effort_from v =
     (if v = ''minimal'' then Minimal else if v = ''low'' then Low
      else if v = ''medium'' then Medium else if v = ''high'' then High
      else if v = ''xhigh'' then X_High else if v = ''max'' then Max_Effort
      else Custom v)"

fun effort_str :: "reasoning_effort \<Rightarrow> string" where
  "effort_str Minimal = ''minimal''"
| "effort_str Low = ''low''"
| "effort_str Medium = ''medium''"
| "effort_str High = ''high''"
| "effort_str X_High = ''xhigh''"
| "effort_str Max_Effort = ''max''"
| "effort_str (Custom v) = v"

fun all_some :: "'a option list \<Rightarrow> 'a list option" where
  "all_some [] = Some []"
| "all_some (x # xs) = (case x of None \<Rightarrow> None | Some y \<Rightarrow> map_option (\<lambda>ys. y # ys) (all_some xs))"

text \<open>\<open>serde_json::from_value\<close> into a list of efforts: an array of strings, or an error.\<close>

definition efforts_from_value :: "json \<Rightarrow> reasoning_effort list option" where
  "efforts_from_value v =
     Option.bind (json_array v) (\<lambda>xs. all_some (map (\<lambda>x. map_option effort_from (json_str x)) xs))"

definition upstream_reasoning_efforts :: "json \<Rightarrow> reasoning_effort list option" where
  "upstream_reasoning_efforts model =
     (case json_pointer model [''capabilities'', ''supports'', ''reasoning_effort''] of
        Some vs \<Rightarrow> efforts_from_value vs
      | None \<Rightarrow>
          (case (case json_get model ''supported_reasoning_levels'' of
                   Some vs \<Rightarrow> Some vs
                 | None \<Rightarrow> json_pointer model [''x_codex'', ''supported_reasoning_levels'']) of
             Some vs \<Rightarrow>
               Option.bind (json_array vs) (\<lambda>xs.
                 all_some (map (\<lambda>preset. Option.bind (json_get preset ''effort'')
                   (\<lambda>e. map_option effort_from (json_str e))) xs))
           | None \<Rightarrow>
               Option.bind (Option.bind (json_pointer model [''capabilities'', ''effort'']) json_object)
                 (\<lambda>capability.
                    if Option.bind (bm_get capability ''supported'') json_bool = Some False then Some []
                    else
                      let supports = filter_map (\<lambda>(effort, support).
                            map_option (\<lambda>b. (effort, b))
                              (Option.bind (json_get support ''supported'') json_bool)) capability
                      in if supports = [] then None
                         else Some (map (\<lambda>(effort, _). effort_from effort) (filter snd supports)))))"

section \<open>The model cache\<close>

record model_info =
  mi_id :: string
  mi_reasoning_efforts :: "reasoning_effort list option"

record cached_models =
  cm_ids :: "string set"
  cm_reasoning_efforts :: "string \<Rightarrow> reasoning_effort list option"

record model_cache =
  mc_inner :: "cached_models option"
  mc_catalogue :: "model_info list option"

definition empty_model_cache :: model_cache where
  "empty_model_cache = \<lparr>mc_inner = None, mc_catalogue = None\<rparr>"

definition set_catalogue :: "model_info list \<Rightarrow> model_cache \<Rightarrow> model_cache" where
  "set_catalogue models c = c\<lparr>mc_catalogue := Some models\<rparr>"

definition catalogue_contains :: "model_cache \<Rightarrow> string \<Rightarrow> bool option" where
  "catalogue_contains c i = map_option (list_ex (\<lambda>m. mi_id m = i)) (mc_catalogue c)"

definition catalogue_model :: "model_cache \<Rightarrow> string \<Rightarrow> model_info option option" where
  "catalogue_model c i = map_option (List.find (\<lambda>m. mi_id m = i)) (mc_catalogue c)"

definition set_ids :: "string set \<Rightarrow> model_cache \<Rightarrow> model_cache" where
  "set_ids ids c = c\<lparr>mc_inner := Some \<lparr>cm_ids = ids, cm_reasoning_efforts = (\<lambda>_. None)\<rparr>\<rparr>"

definition add_model :: "json \<Rightarrow> cached_models \<Rightarrow> cached_models" where
  "add_model model cached =
     (case Option.bind (json_get model ''id'') json_str of
        None \<Rightarrow> cached
      | Some i \<Rightarrow>
          if i = [] then cached
          else
            let cached' = cached\<lparr>cm_ids := insert i (cm_ids cached)\<rparr>
            in (case upstream_reasoning_efforts model of
                  None \<Rightarrow> cached'
                | Some efforts \<Rightarrow>
                    cached'\<lparr>cm_reasoning_efforts := (cm_reasoning_efforts cached)(i := Some efforts)\<rparr>))"

definition set_models :: "json list \<Rightarrow> model_cache \<Rightarrow> model_cache" where
  "set_models models c =
     (let cached = fold add_model models \<lparr>cm_ids = {}, cm_reasoning_efforts = (\<lambda>_. None)\<rparr>
      in if cm_ids cached \<noteq> {} then c\<lparr>mc_inner := Some cached\<rparr> else c)"

definition cache_reasoning_efforts :: "model_cache \<Rightarrow> string \<Rightarrow> reasoning_effort list option" where
  "cache_reasoning_efforts c model = Option.bind (mc_inner c) (\<lambda>cached. cm_reasoning_efforts cached model)"

definition cache_contains :: "model_cache \<Rightarrow> string \<Rightarrow> bool" where
  "cache_contains c i = (case mc_inner c of None \<Rightarrow> False | Some cached \<Rightarrow> i \<in> cm_ids cached)"

definition is_warm :: "model_cache \<Rightarrow> bool" where
  "is_warm c \<longleftrightarrow> mc_inner c \<noteq> None"

section \<open>The provider trait\<close>

datatype auth_kind = Auth_None | Auth_Device_Flow | Auth_Static_Key

record provider_info =
  pi_id :: string
  pi_auth_kind :: auth_kind
  pi_default_models :: "model_info list"
  pi_default_endpoints :: "endpoint list"
  pi_model_cache :: model_cache

text \<open>
  A driver: the defaults of the trait with its rule table, or one of the overriding
  drivers. The embedded catalogue that OpenCode consults is generated data, so it is a
  field of the driver.
\<close>

datatype driver =
    Default_Driver "endpoint_rule list option"
  | Llama_Cpp_Driver
  | Opencode_Driver "endpoint_rule list" "string \<Rightarrow> endpoint option"

record provider =
  pv_id :: string
  pv_info :: provider_info
  pv_driver :: driver

definition default_model_info :: "provider_info \<Rightarrow> string \<Rightarrow> model_info option" where
  "default_model_info info model =
     (case catalogue_model (pi_model_cache info) model of
        Some known \<Rightarrow> known
      | None \<Rightarrow> List.find (\<lambda>m. mi_id m = model) (pi_default_models info))"

definition reasoning_efforts :: "provider \<Rightarrow> string \<Rightarrow> reasoning_effort list option" where
  "reasoning_efforts p model =
     (case cache_reasoning_efforts (pi_model_cache (pv_info p)) model of
        Some efforts \<Rightarrow> Some efforts
      | None \<Rightarrow> Option.bind (default_model_info (pv_info p) model) mi_reasoning_efforts)"

definition default_has_model :: "provider_info \<Rightarrow> string \<Rightarrow> bool" where
  "default_has_model info model =
     (if model = [] then True
      else cache_contains (pi_model_cache info) model
           \<or> (case catalogue_contains (pi_model_cache info) model of
                Some b \<Rightarrow> b
              | None \<Rightarrow> list_ex (\<lambda>m. mi_id m = model) (pi_default_models info)))"

definition llama_has_model :: "provider_info \<Rightarrow> string \<Rightarrow> bool" where
  "llama_has_model info model =
     (if model = [] then True
      else
        let cache = pi_model_cache info;
            catalogue = (case mc_catalogue cache of Some ms \<Rightarrow> ms | None \<Rightarrow> pi_default_models info)
        in cache_contains cache model
           \<or> list_ex (\<lambda>m. mi_id m = model) catalogue
           \<or> (\<not> is_warm cache \<and> catalogue = []))"

definition has_model :: "provider \<Rightarrow> string \<Rightarrow> bool" where
  "has_model p model =
     (case pv_driver p of
        Llama_Cpp_Driver \<Rightarrow> llama_has_model (pv_info p) model
      | _ \<Rightarrow> default_has_model (pv_info p) model)"

definition default_has_endpoint ::
  "endpoint_rule list option \<Rightarrow> provider_info \<Rightarrow> string \<Rightarrow> endpoint \<Rightarrow> bool" where
  "default_has_endpoint rules info model e =
     (case Option.bind rules (\<lambda>rs. match_endpoint_rule rs model e) of
        Some decision \<Rightarrow> decision
      | None \<Rightarrow> e \<in> set (pi_default_endpoints info))"

definition opencode_has_endpoint ::
  "endpoint_rule list \<Rightarrow> (string \<Rightarrow> endpoint option) \<Rightarrow> string \<Rightarrow> endpoint \<Rightarrow> bool" where
  "opencode_has_endpoint rules catalogue model e =
     (case match_endpoint_rule rules model e of
        Some allowed \<Rightarrow> allowed
      | None \<Rightarrow>
          (case catalogue model of
             Some expected \<Rightarrow> e = expected
           | None \<Rightarrow> e = Chat_Completions))"

definition has_endpoint :: "provider \<Rightarrow> string \<Rightarrow> endpoint \<Rightarrow> bool" where
  "has_endpoint p model e =
     (case pv_driver p of
        Default_Driver rules \<Rightarrow> default_has_endpoint rules (pv_info p) model e
      | Llama_Cpp_Driver \<Rightarrow> default_has_endpoint (Some []) (pv_info p) model e
      | Opencode_Driver rules catalogue \<Rightarrow> opencode_has_endpoint rules catalogue model e)"

definition supports :: "provider \<Rightarrow> string \<Rightarrow> endpoint \<Rightarrow> bool" where
  "supports p model e =
     (if model \<noteq> [] \<and> \<not> has_model p model then False else has_endpoint p model e)"

section \<open>Globs\<close>

text \<open>The meaning of a pattern: a star stands for any text, everything else for itself.\<close>

inductive glob_lang :: "string \<Rightarrow> string \<Rightarrow> bool" where
  empty: "glob_lang [] []"
| literal: "c \<noteq> CHR ''*'' \<Longrightarrow> glob_lang p s \<Longrightarrow> glob_lang (c # p) (c # s)"
| star: "glob_lang p s \<Longrightarrow> glob_lang (CHR ''*'' # p) (w @ s)"

inductive_cases glob_lang_NilE: "glob_lang [] s"
inductive_cases glob_lang_ConsE: "glob_lang (c # p) s"

lemma glob_lang_Nil: "glob_lang [] s \<longleftrightarrow> s = []"
  by (auto elim: glob_lang_NilE intro: glob_lang.empty)

lemma glob_lang_literal:
  "c \<noteq> CHR ''*'' \<Longrightarrow> glob_lang (c # p) s \<longleftrightarrow> (\<exists>t. s = c # t \<and> glob_lang p t)"
  by (auto elim: glob_lang_ConsE intro: glob_lang.literal)

lemma glob_lang_star: "glob_lang (CHR ''*'' # p) s \<longleftrightarrow> (\<exists>w t. s = w @ t \<and> glob_lang p t)"
  by (blast elim: glob_lang_ConsE intro: glob_lang.star)

lemma glob_lang_stars:
  "glob_lang (CHR ''*'' # p) s \<longleftrightarrow> (\<exists>w t. s = w @ t \<and> glob_lang (dropWhile (\<lambda>x. x = CHR ''*'') p) t)"
proof (induction p arbitrary: s)
  case (Cons c p)
  show ?case
  proof (cases "c = CHR ''*''")
    case True
    have "glob_lang (CHR ''*'' # c # p) s \<longleftrightarrow> (\<exists>w t. s = w @ t \<and> glob_lang (CHR ''*'' # p) t)"
      using True by (simp add: glob_lang_star)
    also have "\<dots> \<longleftrightarrow> (\<exists>w t. s = w @ t \<and> glob_lang (dropWhile (\<lambda>x. x = CHR ''*'') p) t)"
      unfolding Cons.IH by (metis append.assoc append_Nil)
    finally show ?thesis using True by simp
  next
    case False
    then show ?thesis by (simp add: glob_lang_star)
  qed
qed (simp add: glob_lang_star)

lemma glob_rec_lang:
  "glob_rec p s \<longleftrightarrow> glob_lang p s"
  "glob_from p s \<longleftrightarrow> (\<exists>w t. s = w @ t \<and> glob_lang p t)"
proof (induction p s and p s rule: glob_rec_glob_from.induct)
  case (1 s)
  then show ?case by (simp add: glob_lang_Nil)
next
  case (2 c p s)
  show ?case
  proof (cases "c = CHR ''*''")
    case True
    show ?thesis
    proof (cases "dropWhile (\<lambda>x. x = CHR ''*'') p = []")
      case True
      have "glob_lang (CHR ''*'' # p) s" unfolding glob_lang_stars True glob_lang_Nil by simp
      with True show ?thesis using \<open>c = CHR ''*''\<close> by (simp add: Let_def)
    next
      case False
      with 2(1) True show ?thesis by (auto simp: glob_lang_stars simp del: glob_from.simps)
    qed
  next
    case False
    with 2(2) show ?thesis by (cases s) (auto simp: glob_lang_literal)
  qed
next
  case (3 p s)
  show ?case
  proof (cases s)
    case Nil
    with 3(1) show ?thesis by auto
  next
    case (Cons x xs)
    have "(\<exists>w t. s = w @ t \<and> glob_lang p t) \<longleftrightarrow> glob_lang p s \<or> (\<exists>w t. xs = w @ t \<and> glob_lang p t)"
      (is "?l \<longleftrightarrow> ?r")
    proof
      assume ?l
      then obtain w t where w: "s = w @ t" "glob_lang p t" by blast
      with Cons show ?r by (cases w) auto
    next
      assume ?r
      then show ?l
      proof
        assume "glob_lang p s"
        then show ?l by (intro exI [of _ "[]"] exI [of _ s]) simp
      next
        assume "\<exists>w t. xs = w @ t \<and> glob_lang p t"
        then obtain w t where "xs = w @ t" "glob_lang p t" by blast
        with Cons show ?l by (intro exI [of _ "x # w"] exI [of _ t]) simp
      qed
    qed
    with 3 Cons show ?thesis by auto
  qed
qed

section \<open>Capabilities\<close>

text \<open>
  What selection relies on: \<open>supports\<close> is the endpoint capability together with model
  membership, and the empty model is known to every provider.
\<close>

locale capability =
  fixes knows :: "'p \<Rightarrow> 'm list \<Rightarrow> bool"
    and serves :: "'p \<Rightarrow> 'm list \<Rightarrow> 'e \<Rightarrow> bool"
    and offers :: "'p \<Rightarrow> 'm list \<Rightarrow> 'e \<Rightarrow> bool"
  assumes offers_iff: "offers p m e \<longleftrightarrow> knows p m \<and> serves p m e"
    and knows_Nil: "knows p []"
begin

lemma offers_serves: "offers p m e \<Longrightarrow> serves p m e"
  by (simp add: offers_iff)

lemma offers_knows: "offers p m e \<Longrightarrow> knows p m"
  by (simp add: offers_iff)

lemma offers_Nil: "offers p [] e = serves p [] e"
  by (simp add: offers_iff knows_Nil)

lemma serving_offers: "serves p m e \<Longrightarrow> knows p m \<Longrightarrow> offers p m e"
  by (simp add: offers_iff)

end

lemma has_model_Nil: "has_model p []"
  by (auto simp: has_model_def default_has_model_def llama_has_model_def split: driver.splits)

interpretation cap: capability has_model has_endpoint supports
  by unfold_locales (auto simp: supports_def has_model_Nil)

lemma set_models_keeps_catalogue: "mc_catalogue (set_models models c) = mc_catalogue c"
  by (simp add: set_models_def Let_def)

lemma set_catalogue_keeps_live: "cache_contains (set_catalogue models c) i = cache_contains c i"
  by (simp add: set_catalogue_def cache_contains_def)

lemma find_exists: "List.find P xs \<noteq> None \<longleftrightarrow> list_ex P xs"
  by (induction xs) auto

section \<open>Properties\<close>

text \<open>
  The glob matcher implements the documented patterns: \<open>glob_match\<close> accepts an input
  exactly when the pattern, read with every star as any text, describes it.
\<close>

lemma glob_match_decides_language: "glob_match pattern input \<longleftrightarrow> glob_lang pattern input"
  by (simp add: glob_match_def glob_rec_lang)

text \<open>
  The two knowledge sources are independent: a catalogue refresh never removes a model
  that the live list contains, and a live refresh never changes the catalogue's answer, so
  a provider's membership after both refreshes is the union of the two sources.
\<close>

lemma refreshes_are_independent:
  "default_has_model (info\<lparr>pi_model_cache := set_models live (set_catalogue known (pi_model_cache info))\<rparr>) m \<longleftrightarrow>
     m = [] \<or> cache_contains (set_models live (pi_model_cache info)) m \<or> m \<in> mi_id ` set known"
  by (cases "cm_ids (fold add_model live \<lparr>cm_ids = {}, cm_reasoning_efforts = (\<lambda>_. None)\<rparr>) = {}")
    (auto simp: default_has_model_def catalogue_contains_def set_models_def set_catalogue_def
      cache_contains_def Let_def list_ex_iff)

end
