(* ===== verification/Proxy_Matching.thy ===== *)
theory Proxy_Matching
  imports Topology Provider_Core
begin

text \<open>
  Rule selection on a forward-proxy listener (crates/router/src/v2/mod.rs): CONNECT rules
  and HTTP bindings are tried in order and the first match wins; without a match the
  listener's default applies. An HTTP method is its token, a request path the path of
  the request URI as the HTTP library gives it.
\<close>

datatype api_error =
    Api_Internal string
  | Api_Forbidden string
  | Api_Not_Found string
  | Api_Bad_Request string
  | Api_Unauthorized string
  | Api_Payload_Too_Large string
  | Api_Upstream nat string

definition eq_ignore_ascii_case :: "string \<Rightarrow> string \<Rightarrow> bool" where
  "eq_ignore_ascii_case a b \<longleftrightarrow> str_lower a = str_lower b"

definition connect_matches :: "connect_match \<Rightarrow> canonical_host \<Rightarrow> nat \<Rightarrow> bool" where
  "connect_matches matcher host port \<longleftrightarrow>
     (cm_hosts matcher = [] \<or> list_ex (\<lambda>pattern. pattern_matches pattern host) (cm_hosts matcher)) \<and>
     (cm_ports matcher = [] \<or> port \<in> set (cm_ports matcher))"

definition connect_action_of :: "forward_proxy_listener_plan \<Rightarrow> canonical_host \<Rightarrow> nat \<Rightarrow> connect_action" where
  "connect_action_of listener host port =
     (case List.find (\<lambda>rule. connect_matches (cr_matcher rule) host port) (fp_connect_rules listener) of
        Some rule \<Rightarrow> cr_action rule
      | None \<Rightarrow> fp_default_connect_action listener)"

definition connect_action_for :: "forward_proxy_listener_plan \<Rightarrow> ingress_authority \<Rightarrow> connect_action" where
  "connect_action_for listener ingress = connect_action_of listener (ia_host ingress) (ia_port ingress)"

definition proxy_operation :: "string \<Rightarrow> string \<Rightarrow> endpoint option" where
  "proxy_operation meth path = (if meth = ''POST'' then infer_from path else None)"

fun operation_name :: "endpoint \<Rightarrow> string" where
  "operation_name Chat_Completions = ''chat_completions''"
| "operation_name Responses = ''responses''"
| "operation_name Messages = ''messages''"

definition http_matches ::
  "http_match \<Rightarrow> canonical_host option \<Rightarrow> string \<Rightarrow> string \<Rightarrow> string option \<Rightarrow> bool" where
  "http_matches matcher host meth path operation \<longleftrightarrow>
     (hm_hosts matcher = [] \<or>
      (case host of None \<Rightarrow> False
       | Some h \<Rightarrow> list_ex (\<lambda>pattern. pattern_matches pattern h) (hm_hosts matcher))) \<and>
     (hm_path_prefixes matcher = [] \<or> list_ex (\<lambda>prefix. starts_with prefix path) (hm_path_prefixes matcher)) \<and>
     (hm_methods matcher = [] \<or> list_ex (\<lambda>candidate. eq_ignore_ascii_case candidate meth) (hm_methods matcher)) \<and>
     (hm_operations matcher = [] \<or>
      (case operation of None \<Rightarrow> False
       | Some oper \<Rightarrow> list_ex (\<lambda>candidate. candidate = oper) (hm_operations matcher)))"

definition http_action_of ::
  "http_binding_plan list \<Rightarrow> http_action \<Rightarrow> canonical_host \<Rightarrow> string \<Rightarrow> string \<Rightarrow> string option \<Rightarrow> http_action" where
  "http_action_of bindings fallback host meth path operation =
     (case List.find (\<lambda>binding. http_matches (hb_matcher binding) (Some host) meth path operation) bindings of
        Some binding \<Rightarrow> hb_action binding
      | None \<Rightarrow> fallback)"

definition select_proxy_profile ::
  "forward_proxy_listener_plan \<Rightarrow> (string, 'r) bmap \<Rightarrow> ingress_authority \<Rightarrow> string \<Rightarrow> string \<Rightarrow> api_error + 'r" where
  "select_proxy_profile listener profiles ingress meth path =
     (let operation = map_option operation_name (proxy_operation meth path)
      in (case http_action_of (fp_http_bindings listener) (fp_default_http_action listener)
                 (ia_host ingress) meth path operation of
            Route_To profile_id \<Rightarrow>
              ok_or (Api_Internal (''listener selected missing profile '' @ [CHR 0x27] @ profile_id @ [CHR 0x27]))
                (bm_get profiles profile_id)
          | Http_Reject \<Rightarrow> Inl (Api_Forbidden ''request rejected by v2 listener policy'')))"

definition display_authority :: "ingress_authority \<Rightarrow> string \<Rightarrow> string" where
  "display_authority ingress scheme =
     (let host = (if is_ipv6 (ia_host ingress) then ''['' @ ch_value (ia_host ingress) @ '']''
                  else ch_value (ia_host ingress));
          default_port = (if scheme = ''https'' then 443 else 80)
      in if ia_port ingress = default_port then host
         else host @ CHR '':'' # show_radix 10 (ia_port ingress))"

definition canonical_origin :: "string \<Rightarrow> ingress_authority \<Rightarrow> string" where
  "canonical_origin scheme ingress = scheme @ ''://'' @ display_authority ingress scheme"

definition request_record_mode :: "route_plan \<Rightarrow> string" where
  "request_record_mode route =
     (case route of
        Managed r \<Rightarrow>
          (case mt_model (mr_target r) of
             Capability \<Rightarrow> ''route''
           | Qualified _ \<Rightarrow> ''exact''
           | Family _ \<Rightarrow> ''fuzzy'')
      | Relay r \<Rightarrow>
          (case rr_credentials r of
             Client \<Rightarrow> ''passthrough''
           | From_Pool \<Rightarrow> ''switch''))"

fun wire_agent :: "wire_identity \<Rightarrow> string option" where
  "wire_agent No_Identity = None"
| "wire_agent Provider_Default = None"
| "wire_agent (Named_Identity identity) = Some identity"

section \<open>What a policy decides\<close>

text \<open>
  A request is a host, a method and a path: its operation follows from the method and the path. The
  first binding that matches decides, and without one the default.
\<close>

definition request_matches :: "http_match \<Rightarrow> canonical_host \<Rightarrow> string \<Rightarrow> string \<Rightarrow> bool" where
  "request_matches m host meth path \<longleftrightarrow>
     http_matches m (Some host) meth path (map_option operation_name (proxy_operation meth path))"

definition policy_decides :: "forward_proxy_listener_plan \<Rightarrow> canonical_host \<Rightarrow> string \<Rightarrow> string \<Rightarrow> http_action \<Rightarrow> bool" where
  "policy_decides listener host meth path action \<longleftrightarrow>
     (\<exists>as b bs. fp_http_bindings listener = as @ b # bs \<and> request_matches (hb_matcher b) host meth path \<and>
        (\<forall>a \<in> set as. \<not> request_matches (hb_matcher a) host meth path) \<and> action = hb_action b) \<or>
     (\<forall>b \<in> set (fp_http_bindings listener). \<not> request_matches (hb_matcher b) host meth path) \<and>
     action = fp_default_http_action listener"

lemma find_splitD:
  "List.find p xs = Some x \<Longrightarrow> \<exists>as bs. xs = as @ x # bs \<and> p x \<and> (\<forall>a \<in> set as. \<not> p a)"
proof (induction xs)
  case (Cons y xs)
  show ?case
  proof (cases "p y")
    case True
    with Cons.prems show ?thesis by (intro exI [of _ "[]"] exI [of _ xs]) simp
  next
    case False
    with Cons obtain as bs where "xs = as @ x # bs" "p x" "\<forall>a \<in> set as. \<not> p a" by auto
    with False show ?thesis by (intro exI [of _ "y # as"] exI [of _ bs]) simp
  qed
qed simp

lemma find_splitI: "p x \<Longrightarrow> \<forall>a \<in> set as. \<not> p a \<Longrightarrow> List.find p (as @ x # bs) = Some x"
  by (induction as) auto

lemma http_action_decided:
  "policy_decides listener host meth path
     (http_action_of (fp_http_bindings listener) (fp_default_http_action listener) host meth path
        (map_option operation_name (proxy_operation meth path)))"
proof (cases "List.find (\<lambda>b. request_matches (hb_matcher b) host meth path) (fp_http_bindings listener)")
  case None
  then show ?thesis
    by (simp add: http_action_of_def policy_decides_def request_matches_def [symmetric]) (simp add: find_None_iff)
next
  case (Some b)
  then have "http_action_of (fp_http_bindings listener) (fp_default_http_action listener) host meth path
      (map_option operation_name (proxy_operation meth path)) = hb_action b"
    by (simp add: http_action_of_def request_matches_def)
  with find_splitD [OF Some] show ?thesis unfolding policy_decides_def by metis
qed

lemma select_proxy_profile_decided:
  "case select_proxy_profile listener profiles ingress meth path of
     Inl (Api_Forbidden _) \<Rightarrow> policy_decides listener (ia_host ingress) meth path Http_Reject
   | Inl _ \<Rightarrow> \<exists>i. policy_decides listener (ia_host ingress) meth path (Route_To i) \<and> bm_get profiles i = None
   | Inr r \<Rightarrow> \<exists>i. policy_decides listener (ia_host ingress) meth path (Route_To i) \<and> bm_get profiles i = Some r"
  using http_action_decided [of listener "ia_host ingress" meth path]
  by (auto simp: select_proxy_profile_def Let_def ok_or_def split: http_action.split option.split)

section \<open>Selection without a shadowed rule\<close>

lemma find_remove_covered:
  assumes "\<And>x. p b \<Longrightarrow> \<exists>a \<in> set as. p a"
  shows "List.find p (as @ b # bs) = List.find p (as @ bs)"
proof (cases "List.find p as")
  case None
  then have "\<forall>a \<in> set as. \<not> p a" by (simp add: find_None_iff)
  with assms have "\<not> p b" by blast
  then show ?thesis by (induction as) auto
next
  case (Some a)
  have "List.find p (as @ cs) = Some a" for cs using Some by (induction as) (auto split: if_splits)
  then show ?thesis by simp
qed

text \<open>The authority shown for an ingress is one its text parses back to.\<close>

lemma display_authority_parses:
  assumes "parse_host (ch_value (ia_host i)) = Inr (ia_host i)" and "0 < ia_port i" and "ia_port i < 65536"
  shows "res_map (\<lambda>a. into_resolved a (if scheme = ''https'' then 443 else 80))
      (parse_authority (display_authority i scheme)) = Inr (ia_authority i)"
proof -
  let ?d = "if scheme = ''https'' then 443 else (80::nat)"
  let ?a = "\<lparr>ca_host = ia_host i, ca_port = (if ia_port i = ?d then None else Some (ia_port i))\<rparr>"
  have "authority_ok ?a" using assms by (simp add: authority_ok_def)
  moreover have "display_authority i scheme = authority_text ?a"
    by (auto simp: display_authority_def authority_text_def authority_host_text_def Let_def)
  ultimately have "parse_authority (display_authority i scheme) = Inr ?a"
    using parse_authority_text by metis
  then show ?thesis by (simp add: into_resolved_def ia_host_def ia_port_def)
qed

end
