(* ===== verification/Rule_Shadowing.thy ===== *)
theory Rule_Shadowing
  imports Listener_Compile Proxy_Matching
begin

text \<open>
  The shadowing analysis of the configuration compiler against the rule selection of the
  proxy: a rule that the earlier rules of its listener cover is rejected, and for which matchers
  the analysis finds every rule that no request reaches.

  The locale \<open>pattern_probe\<close> extends the covering contract of one dimension by a generic
  point: for an alternative, a value that the alternative matches and that another pattern
  matches only if it covers the alternative; for the unconstrained dimension, a value no
  pattern matches. The four dimensions of an HTTP matcher interpret it.
\<close>

locale pattern_probe = pattern_cover matches covers
  for matches :: "'p \<Rightarrow> 'h \<Rightarrow> bool" and covers :: "'p \<Rightarrow> 'p \<Rightarrow> bool" +
  fixes usable :: "'p \<Rightarrow> bool" and probe :: "'p list \<Rightarrow> 'p option \<Rightarrow> 'h"
  assumes probe_in: "usable q \<Longrightarrow> matches q (probe ps (Some q))"
    and probe_generic:
      "usable q \<Longrightarrow> usable p \<Longrightarrow> p \<in> set ps \<Longrightarrow> matches p (probe ps (Some q)) \<Longrightarrow> covers p q"
    and probe_none: "usable p \<Longrightarrow> p \<in> set ps \<Longrightarrow> \<not> matches p (probe ps None)"
begin

definition atoms :: "'p list \<Rightarrow> 'p option set" where
  "atoms qs = (if qs = [] then {None} else Some ` set qs)"

definition inside :: "'p option \<Rightarrow> 'h \<Rightarrow> bool" where
  "inside a h = (case a of None \<Rightarrow> True | Some q \<Rightarrow> matches q h)"

lemma dim_matches_atom: "dim_matches qs h \<longleftrightarrow> (\<exists>a \<in> atoms qs. inside a h)"
  by (auto simp: dim_matches_def atoms_def inside_def)

lemma subsumes_atom_inside:
  "dimension_subsumes_atom covers cs a \<Longrightarrow> inside a h \<Longrightarrow> dim_matches cs h"
  using covers_matches
  by (fastforce simp: dimension_subsumes_atom_def inside_def dim_matches_def list_ex_iff split: option.splits)

lemma probe_inside: "a \<in> atoms qs \<Longrightarrow> \<forall>q \<in> set qs. usable q \<Longrightarrow> inside a (probe ps a)"
  using probe_in by (auto simp: atoms_def inside_def split: if_splits)

lemma probe_subsumes_atom:
  assumes "dim_matches cs (probe ps a)" and "set cs \<subseteq> set ps" and "\<forall>c \<in> set cs. usable c"
    and "a \<in> atoms qs" and "\<forall>q \<in> set qs. usable q"
  shows "dimension_subsumes_atom covers cs a"
  using assms probe_generic probe_none
  by (fastforce simp: dimension_subsumes_atom_def dim_matches_def atoms_def list_ex_iff
      split: option.splits if_splits)

lemma subsumes_dim_matches:
  assumes "dimension_subsumes covers cs qs" and "dim_matches qs h"
  shows "dim_matches cs h"
  using assms dim_covers_matches [of cs qs h]
  by (auto simp: dimension_subsumes_def list_all_iff list_ex_iff)

lemma all_atoms_iff: "all_atoms qs P \<longleftrightarrow> (\<forall>a \<in> atoms qs. P a)"
  by (auto simp: all_atoms_def atoms_def list_all_iff)

end

section \<open>The dimensions\<close>

text \<open>A host whose first label is longer than every pattern.\<close>

definition long_label :: "host_pattern list \<Rightarrow> string" where
  "long_label ps = replicate (Suc (sum_list (map (\<lambda>p. length (ch_value (pattern_host p))) ps))) CHR ''a''"

definition host_probe :: "host_pattern list \<Rightarrow> host_pattern option \<Rightarrow> canonical_host" where
  "host_probe ps a =
     (case a of
        None \<Rightarrow> \<lparr>ch_value = long_label ps, ch_kind = Dns\<rparr>
      | Some (Exact h) \<Rightarrow> h
      | Some (Subdomains_Of s) \<Rightarrow> \<lparr>ch_value = long_label ps @ CHR ''.'' # ch_value s, ch_kind = Dns\<rparr>)"

definition usable_pattern :: "host_pattern \<Rightarrow> bool" where
  "usable_pattern p \<longleftrightarrow>
     (case p of Exact _ \<Rightarrow> True
      | Subdomains_Of s \<Rightarrow> is_dns s \<and> ch_value s \<noteq> [] \<and> hd (ch_value s) \<noteq> CHR ''.'')"

lemma long_label_longer:
  "p \<in> set ps \<Longrightarrow> length (ch_value (pattern_host p)) < length (long_label ps)"
  using member_le_sum_list [of "length (ch_value (pattern_host p))" "map (\<lambda>p. length (ch_value (pattern_host p))) ps"]
  by (auto simp: long_label_def)

lemma long_label_no_dot: "CHR ''.'' \<notin> set (long_label ps)"
  by (auto simp: long_label_def)

lemma label_subdomain:
  assumes "w @ CHR ''.'' # v = q @ CHR ''.'' # t" and "CHR ''.'' \<notin> set w"
  shows "v = t \<or> (\<exists>r. v = r @ CHR ''.'' # t)"
proof -
  from assms(1) consider us where "w = q @ us" "us @ CHR ''.'' # v = CHR ''.'' # t"
    | us where "q = w @ us" "CHR ''.'' # v = us @ CHR ''.'' # t"
    by (auto simp: append_eq_append_conv2)
  then show ?thesis
  proof cases
    case (1 us)
    with assms(2) show ?thesis by (cases us) auto
  next
    case (2 us)
    then show ?thesis by (cases us) auto
  qed
qed

lemma host_probe_subdomain:
  assumes "is_strict_subdomain_of (host_probe ps (Some (Subdomains_Of s))) t"
    and "usable_pattern (Subdomains_Of s)"
  shows "t = s \<or> is_strict_subdomain_of s t"
proof -
  from assms(1) obtain q where
    "long_label ps @ CHR ''.'' # ch_value s = q @ CHR ''.'' # ch_value t" and dns: "is_dns t"
    unfolding strict_subdomain_iff by (auto simp: host_probe_def)
  from label_subdomain [OF this(1) long_label_no_dot]
  consider "ch_value s = ch_value t" | r where "ch_value s = r @ CHR ''.'' # ch_value t" by blast
  then show ?thesis
  proof cases
    case 1
    with assms(2) dns show ?thesis by (cases s; cases t) (auto simp: is_dns_def usable_pattern_def)
  next
    case (2 r)
    with assms(2) have "r \<noteq> []" by (auto simp: usable_pattern_def)
    with 2 assms(2) dns show ?thesis unfolding strict_subdomain_iff usable_pattern_def by auto
  qed
qed

lemma host_probe_generic:
  assumes "usable_pattern q" "p \<in> set ps" "pattern_matches p (host_probe ps (Some q))"
  shows "pattern_subsumes p q"
proof (cases q)
  case (Exact h)
  with assms(3) show ?thesis by (cases p) (auto simp: host_probe_def)
next
  case (Subdomains_Of s)
  show ?thesis
  proof (cases p)
    case (Exact h)
    with assms(3) Subdomains_Of have "ch_value h = long_label ps @ CHR ''.'' # ch_value s"
      by (auto simp: host_probe_def)
    with long_label_longer [OF assms(2)] Exact show ?thesis by simp
  next
    case (Subdomains_Of t)
    with assms \<open>q = Subdomains_Of s\<close> show ?thesis using host_probe_subdomain [of ps s t] by auto
  qed
qed

lemma host_probe_none:
  assumes "p \<in> set ps"
  shows "\<not> pattern_matches p (host_probe ps None)"
proof (cases p)
  case (Exact h)
  with long_label_longer [OF assms] show ?thesis by (auto simp: host_probe_def)
next
  case (Subdomains_Of s)
  have "\<not> is_strict_subdomain_of \<lparr>ch_value = long_label ps, ch_kind = Dns\<rparr> s"
    unfolding strict_subdomain_iff using long_label_no_dot [of ps] by auto
  with Subdomains_Of show ?thesis by (simp add: host_probe_def)
qed

lemma host_probe_in: "usable_pattern q \<Longrightarrow> pattern_matches q (host_probe ps (Some q))"
  by (cases q)
    (auto simp: host_probe_def usable_pattern_def strict_subdomain_iff is_dns_def long_label_def)

interpretation host_dim: pattern_probe pattern_matches pattern_subsumes usable_pattern host_probe
  by unfold_locales (auto intro: host_probe_in host_probe_generic simp: host_probe_none)

definition path_probe :: "string list \<Rightarrow> string option \<Rightarrow> string" where
  "path_probe ps a = (case a of None \<Rightarrow> ''/'' | Some p \<Rightarrow> p)"

text \<open>A compiled prefix begins with a slash, and never holds a bar, which a request's path may.\<close>

definition usable_prefix :: "string \<Rightarrow> bool" where
  "usable_prefix p \<longleftrightarrow> 1 < length p \<and> hd p = CHR ''/'' \<and> CHR ''|'' \<notin> set p"

interpretation path_dim: pattern_probe starts_with "\<lambda>p q. starts_with p (q :: string)" usable_prefix path_probe
  by unfold_locales (auto simp: path_probe_def usable_prefix_def dest: starts_with_length)

text \<open>Methods are compared case-insensitively; the compiler only accepts canonical ones.\<close>

definition usable_method :: "string \<Rightarrow> bool" where
  "usable_method m \<longleftrightarrow> (\<forall>c \<in> set m. \<not> is_ascii_lowercase c)"

definition method_probe :: "string list \<Rightarrow> string option \<Rightarrow> string" where
  "method_probe ps a =
     (case a of None \<Rightarrow> replicate (Suc (sum_list (map length ps))) CHR ''A'' | Some m \<Rightarrow> m)"

lemma upper_lower_inj:
  assumes "\<not> is_ascii_lowercase c" "\<not> is_ascii_lowercase d" "to_ascii_lowercase c = to_ascii_lowercase d"
  shows "c = d"
proof -
  from assms(3) have "byte (to_ascii_lowercase c) = byte (to_ascii_lowercase d)" by simp
  with assms(1,2) have "byte c = byte d"
    by (auto simp: byte_to_ascii_lowercase is_ascii_uppercase_def is_ascii_lowercase_def split: if_splits)
  then show ?thesis by (rule char_of_byte_eqI)
qed

lemma usable_method_inj:
  assumes "usable_method a" and "usable_method b" and "eq_ignore_ascii_case a b"
  shows "a = b"
proof -
  from assms(3) have "list_all2 (\<lambda>c d. to_ascii_lowercase c = to_ascii_lowercase d) a b"
    unfolding eq_ignore_ascii_case_def by (simp add: list.rel_map list.rel_eq [symmetric])
  then have "list_all2 (=) a b"
  proof (rule list.rel_mono_strong)
    fix c d assume "c \<in> set a" "d \<in> set b" "to_ascii_lowercase c = to_ascii_lowercase d"
    with assms(1,2) show "c = d" unfolding usable_method_def by (blast intro: upper_lower_inj)
  qed
  then show ?thesis by (simp only: list.rel_eq)
qed

lemma method_probe_none:
  assumes "p \<in> set ps"
  shows "\<not> eq_ignore_ascii_case p (method_probe ps None)"
proof
  assume "eq_ignore_ascii_case p (method_probe ps None)"
  then have "length p = length (method_probe ps None)"
    unfolding eq_ignore_ascii_case_def by (metis length_map)
  moreover have "length p \<le> sum_list (map length ps)"
    using assms by (intro member_le_sum_list) auto
  ultimately show False by (simp add: method_probe_def)
qed

interpretation method_dim: pattern_probe eq_ignore_ascii_case "(=)" usable_method method_probe
proof unfold_locales
  show "usable_method q \<Longrightarrow> usable_method p \<Longrightarrow> p \<in> set ps \<Longrightarrow>
      eq_ignore_ascii_case p (method_probe ps (Some q)) \<Longrightarrow> p = q" for p q ps
    by (simp add: method_probe_def usable_method_inj)
qed (auto simp: method_probe_none, simp add: method_probe_def eq_ignore_ascii_case_def)

definition operation_probe :: "string list \<Rightarrow> string option \<Rightarrow> string option" where
  "operation_probe ps a = a"

interpretation operation_dim: pattern_probe "\<lambda>oper x. x = Some oper" "(=) :: string \<Rightarrow> _"
    "\<lambda>_. True" operation_probe
  by unfold_locales (auto simp: operation_probe_def)

section \<open>What the compiler produces is usable\<close>

lemma compile_selectors_all:
  assumes "compile_selectors one covers location claimed raws = Inr ps"
    and "\<forall>c \<in> set claimed. P (snd c)" and "\<And>raw p. one raw = Inr p \<Longrightarrow> P p"
  shows "\<forall>p \<in> set ps. P p"
  using assms
proof (induction one covers location claimed raws arbitrary: ps rule: compile_selectors.induct)
  case (2 one covers location claimed raw raws)
  then obtain pattern where p: "one raw = Inr pattern"
    and c: "check_claimed covers location raw pattern claimed = Inr ()"
    and rest: "compile_selectors one covers location (claimed @ [(raw, pattern)]) raws = Inr ps"
    by auto
  have "\<forall>c \<in> set (claimed @ [(raw, pattern)]). P (snd c)" using 2(3,4) p by auto
  from 2(1) [OF rest this 2(4)] show ?case .
qed auto

lemma compile_host_usable: "compile_host location raw = Inr p \<Longrightarrow> usable_pattern p"
proof -
  assume c: "compile_host location raw = Inr p"
  show ?thesis
  proof (cases p)
    case (Exact h)
    then show ?thesis by (simp add: usable_pattern_def)
  next
    case (Subdomains_Of s)
    with c obtain suffix where h: "parse_host suffix = Inr s" and dns: "is_dns s"
      by (auto simp: compile_host_def subdomains_of_def split: option.splits if_splits sum.splits)
    from parse_host_dns_labelled [OF h dns] have "\<forall>l \<in> set (split_on CHR ''.'' (ch_value s)). l \<noteq> []"
      by (simp add: dns_labelled_def labels_def)
    from valid_labels_no_dot_edges [OF this] dns Subdomains_Of show ?thesis by (simp add: usable_pattern_def)
  qed
qed

lemma compile_hosts_usable: "compile_hosts raws location = Inr ps \<Longrightarrow> \<forall>p \<in> set ps. usable_pattern p"
  unfolding compile_hosts_def by (rule compile_selectors_all) (auto intro: compile_host_usable)

lemma canonical_path_bytes_length: "canonical_path_bytes location s = Inr t \<Longrightarrow> length t = length s"
  by (induction location s arbitrary: t rule: canonical_path_bytes.induct)
    (auto split: if_splits list.splits)

lemma hexdigit_no_bar: "is_ascii_hexdigit c \<Longrightarrow> CHR ''|'' \<noteq> to_ascii_uppercase c"
proof
  assume h: "is_ascii_hexdigit c" and "CHR ''|'' = to_ascii_uppercase c"
  then have "byte (to_ascii_uppercase c) = byte (CHR ''|'')" by simp
  with h show False
    by (auto simp: to_ascii_uppercase_def is_ascii_hexdigit_def is_ascii_digit_def is_ascii_lowercase_def split: if_splits)
qed

lemma canonical_path_bytes_no_bar: "canonical_path_bytes location s = Inr t \<Longrightarrow> CHR ''|'' \<notin> set t"
proof (induction location s arbitrary: t rule: canonical_path_bytes.induct)
  case (2 location c cs)
  have "\<not> is_rfc3986_pchar CHR ''|''" by code_simp
  with 2 show ?case by (auto split: if_splits list.splits dest: hexdigit_no_bar)
qed simp

lemma canonical_path_prefix_usable: "canonical_path_prefix location raw = Inr p \<Longrightarrow> usable_prefix p"
proof -
  assume "canonical_path_prefix location raw = Inr p"
  then have r: "raw \<noteq> []" "hd raw = CHR ''/''" "raw \<noteq> ''/''" "canonical_path_bytes location raw = Inr p"
    by (auto simp: canonical_path_prefix_def split: if_splits)
  then have "hd p = CHR ''/''" by (cases raw) auto
  moreover have "1 < length p"
    using r canonical_path_bytes_length [of location raw p] by (cases raw; cases "tl raw") auto
  ultimately show ?thesis
    unfolding usable_prefix_def using canonical_path_bytes_no_bar [OF r(4)] by blast
qed

lemma compile_path_prefixes_usable:
  "compile_path_prefixes raws binding = Inr ps \<Longrightarrow> \<forall>p \<in> set ps. usable_prefix p"
  unfolding compile_path_prefixes_def Let_def
  by (rule compile_selectors_all) (auto intro: canonical_path_prefix_usable)

lemma compile_methods_from_usable:
  "compile_methods_from location claimed ms = Inr ps \<Longrightarrow> \<forall>m \<in> set claimed. usable_method m \<Longrightarrow>
   \<forall>m \<in> set ps. usable_method m"
  by (induction location claimed ms arbitrary: ps rule: compile_methods_from.induct)
    (auto simp: usable_method_def split: if_splits)

section \<open>Exactness\<close>

definition key_matches ::
  "http_match_key \<Rightarrow> canonical_host \<Rightarrow> string \<Rightarrow> string \<Rightarrow> string option \<Rightarrow> bool" where
  "key_matches k host meth target operation \<longleftrightarrow>
     hosts.dim_matches (hk_hosts k) host \<and> prefixes.dim_matches (hk_path_prefixes k) target \<and>
     method_dim.dim_matches (hk_methods k) meth \<and> operation_dim.dim_matches (hk_operations k) operation"

definition usable_key :: "http_match_key \<Rightarrow> bool" where
  "usable_key k \<longleftrightarrow>
     (\<forall>p \<in> set (hk_hosts k). usable_pattern p) \<and> (\<forall>p \<in> set (hk_path_prefixes k). usable_prefix p) \<and>
     (\<forall>m \<in> set (hk_methods k). usable_method m)"

lemma compile_http_match_key:
  assumes "compile_http_match raw = Inr (m, k)"
  shows "key_matches k host meth target operation = http_matches m (Some host) meth target operation"
    and "usable_key k"
proof -
  from assms obtain hosts paths methods operations where
    h: "compile_hosts (rb_hosts raw) (''bindings.'' @ rb_id raw @ ''.hosts'') = Inr hosts"
    and p: "compile_path_prefixes (rb_path_prefixes raw) (rb_id raw) = Inr paths"
    and ms: "compile_methods (rb_methods raw) (rb_id raw) = Inr methods"
    and k: "k = \<lparr>hk_hosts = sort_key host_pattern_key hosts, hk_path_prefixes = sort paths,
           hk_methods = sort methods, hk_operations = sort operations\<rparr>"
    and m: "m = \<lparr>hm_hosts = hosts, hm_path_prefixes = paths, hm_methods = methods, hm_operations = operations\<rparr>"
    by (auto simp: compile_http_match_def new_http_match_def split: if_splits)
  have nil: "sort_key f xs = [] \<longleftrightarrow> xs = []" for f :: "'a \<Rightarrow> 'b::linorder" and xs
    by (metis length_0_conv length_sort)
  show "key_matches k host meth target operation = http_matches m (Some host) meth target operation"
    by (simp add: key_matches_def http_matches_def k m hosts.dim_matches_def prefixes.dim_matches_def
        method_dim.dim_matches_def operation_dim.dim_matches_def list_ex_iff nil)
      (auto simp: list_ex_iff split: option.splits)
  show "usable_key k"
    using compile_hosts_usable [OF h] compile_path_prefixes_usable [OF p]
      compile_methods_from_usable [of _ "[]" "rb_methods raw" methods] ms
    by (simp add: usable_key_def k compile_methods_def)
qed

lemma key_subsumes_matches:
  "http_key_subsumes a b \<Longrightarrow> key_matches b host meth target operation \<Longrightarrow> key_matches a host meth target operation"
  unfolding http_key_subsumes_def key_matches_def
  using host_dim.subsumes_dim_matches path_dim.subsumes_dim_matches method_dim.subsumes_dim_matches
    operation_dim.subsumes_dim_matches by blast

lemma union_atoms:
  "http_matchers_subsume_union prior key \<longleftrightarrow>
   (\<forall>a \<in> host_dim.atoms (hk_hosts key). \<forall>b \<in> path_dim.atoms (hk_path_prefixes key).
    \<forall>c \<in> method_dim.atoms (hk_methods key). \<forall>d \<in> operation_dim.atoms (hk_operations key).
    \<exists>k \<in> set (map fst prior). http_key_subsumes_atom k a b c d)"
  by (simp add: http_matchers_subsume_union_def host_dim.all_atoms_iff path_dim.all_atoms_iff
      method_dim.all_atoms_iff operation_dim.all_atoms_iff list_ex_iff case_prod_beta)

lemma union_sound:
  assumes "http_matchers_subsume_union prior key" and "key_matches key host meth target operation"
  shows "\<exists>k \<in> set (map fst prior). key_matches k host meth target operation"
proof -
  from assms(2) obtain a b c d where
    a: "a \<in> host_dim.atoms (hk_hosts key)" "host_dim.inside a host"
    and b: "b \<in> path_dim.atoms (hk_path_prefixes key)" "path_dim.inside b target"
    and c: "c \<in> method_dim.atoms (hk_methods key)" "method_dim.inside c meth"
    and d: "d \<in> operation_dim.atoms (hk_operations key)" "operation_dim.inside d operation"
    unfolding key_matches_def host_dim.dim_matches_atom path_dim.dim_matches_atom
      method_dim.dim_matches_atom operation_dim.dim_matches_atom by blast
  from assms(1) a(1) b(1) c(1) d(1) obtain k where
    k: "k \<in> set (map fst prior)" "http_key_subsumes_atom k a b c d"
    unfolding union_atoms by blast
  have "key_matches k host meth target operation"
    using k(2) host_dim.subsumes_atom_inside [OF _ a(2)] path_dim.subsumes_atom_inside [OF _ b(2)]
      method_dim.subsumes_atom_inside [OF _ c(2)] operation_dim.subsumes_atom_inside [OF _ d(2)]
    unfolding http_key_subsumes_atom_def key_matches_def by blast
  with k(1) show ?thesis by blast
qed

lemma union_complete:
  assumes cover: "\<And>host meth target operation. key_matches key host meth target operation \<Longrightarrow>
      \<exists>k \<in> set (map fst prior). key_matches k host meth target operation"
    and key: "usable_key key" and prior: "\<forall>k \<in> set (map fst prior). usable_key k"
  shows "http_matchers_subsume_union prior key"
  unfolding union_atoms
proof (intro ballI)
  fix a b c d
  assume a: "a \<in> host_dim.atoms (hk_hosts key)" and b: "b \<in> path_dim.atoms (hk_path_prefixes key)"
    and c: "c \<in> method_dim.atoms (hk_methods key)" and d: "d \<in> operation_dim.atoms (hk_operations key)"
  let ?ks = "map fst prior"
  let ?hs = "concat (map hk_hosts ?ks)" and ?ps = "concat (map hk_path_prefixes ?ks)"
    and ?ms = "concat (map hk_methods ?ks)" and ?os = "concat (map hk_operations ?ks)"
  have u: "\<forall>q \<in> set (hk_hosts key). usable_pattern q" "\<forall>q \<in> set (hk_path_prefixes key). usable_prefix q"
    "\<forall>q \<in> set (hk_methods key). usable_method q" "\<forall>q \<in> set (hk_operations key). True"
    using key by (auto simp: usable_key_def)
  have "key_matches key (host_probe ?hs a) (method_probe ?ms c) (path_probe ?ps b) (operation_probe ?os d)"
    unfolding key_matches_def host_dim.dim_matches_atom path_dim.dim_matches_atom
      method_dim.dim_matches_atom operation_dim.dim_matches_atom
    using a b c d host_dim.probe_inside [OF a u(1)] path_dim.probe_inside [OF b u(2)]
      method_dim.probe_inside [OF c u(3)] operation_dim.probe_inside [OF d u(4)] by blast
  from cover [OF this] obtain k where k: "k \<in> set ?ks"
    and m: "key_matches k (host_probe ?hs a) (method_probe ?ms c) (path_probe ?ps b) (operation_probe ?os d)"
    by blast
  from k have sub: "set (hk_hosts k) \<subseteq> set ?hs" "set (hk_path_prefixes k) \<subseteq> set ?ps"
    "set (hk_methods k) \<subseteq> set ?ms" "set (hk_operations k) \<subseteq> set ?os" by auto
  have uk: "\<forall>q \<in> set (hk_hosts k). usable_pattern q" "\<forall>q \<in> set (hk_path_prefixes k). usable_prefix q"
    "\<forall>q \<in> set (hk_methods k). usable_method q" "\<forall>q \<in> set (hk_operations k). True"
    using prior k by (auto simp: usable_key_def)
  have "http_key_subsumes_atom k a b c d"
    using m unfolding key_matches_def http_key_subsumes_atom_def
    using host_dim.probe_subsumes_atom [OF _ sub(1) uk(1) a u(1)]
      path_dim.probe_subsumes_atom [OF _ sub(2) uk(2) b u(2)]
      method_dim.probe_subsumes_atom [OF _ sub(3) uk(3) c u(3)]
      operation_dim.probe_subsumes_atom [OF _ sub(4) uk(4) d u(4)] by blast
  with k show "\<exists>k \<in> set ?ks. http_key_subsumes_atom k a b c d" by blast
qed

section \<open>Every compiled rule can be selected\<close>

text \<open>
  The two tables of the compiler agree: the keys of a listener are the keys of its rules, in
  order, and no key was shadowed by the ones before it when it was added.
\<close>

text \<open>
  The analysis takes the operation as a fourth, independent criterion. A request's operation follows from
  its method and its path: it is one of three, and only a POST has it. A matcher is \<open>plain\<close>
  when that makes no difference: it names no operation, or known operations and the method POST.
  Every point of the analysis that a plain matcher matches then has a request that the
  compiled matchers treat alike: the path goes on with a bar, which no prefix holds, and with the
  end by which the operation is known.
\<close>

definition plain_match :: "http_match \<Rightarrow> bool" where
  "plain_match m \<longleftrightarrow>
     hm_operations m = [] \<or>
     hm_methods m = [''POST''] \<and> set (hm_operations m) \<subseteq> {''chat_completions'', ''responses'', ''messages''}"

definition real_method :: "string list \<Rightarrow> string \<Rightarrow> string" where
  "real_method operations meth = (if operations = [] then meth else ''POST'')"

definition operation_end :: "string list \<Rightarrow> string option \<Rightarrow> string" where
  "operation_end operations operation =
     (if operations = [] then []
      else if operation = Some ''chat_completions'' then ''/chat/completions''
      else if operation = Some ''responses'' then ''/responses'' else ''/messages'')"

definition real_path :: "string list \<Rightarrow> string \<Rightarrow> string option \<Rightarrow> string" where
  "real_path operations target operation = target @ CHR ''|'' # operation_end operations operation"

lemma starts_with_bar:
  assumes "CHR ''|'' \<notin> set p"
  shows "starts_with p (t @ CHR ''|'' # r) = starts_with p t"
proof
  assume "starts_with p (t @ CHR ''|'' # r)"
  then obtain q where "p @ q = t @ CHR ''|'' # r" by (auto simp: starts_with_iff)
  with assms show "starts_with p t"
    by (auto simp: append_eq_append_conv2 starts_with_iff append_eq_Cons_conv)
qed (auto simp: starts_with_iff)

lemma ends_with_last: "ends_with p (t @ [c]) \<Longrightarrow> p = [] \<or> last p = c"
  by (auto simp: ends_with_iff append_eq_append_conv2 Cons_eq_append_conv append_eq_Cons_conv)

lemma ends_with_tail: "ends_with p s \<Longrightarrow> ends_with p (t @ s)"
  by (auto simp: ends_with_iff)

lemma ends_with_suffix_of: "ends_with p (t @ s) \<Longrightarrow> ends_with (drop (length p - length s) p) s"
proof -
  assume "ends_with p (t @ s)"
  then obtain r where r: "t @ s = r @ p" by (auto simp: ends_with_iff)
  then have "s = drop (length t) (r @ p)" by (metis append_eq_conv_conj)
  then show "ends_with (drop (length p - length s) p) s"
  proof (cases "length s \<le> length p")
    case True
    then have "s = drop (length p - length s) p" using r by (metis append_eq_append_conv append_take_drop_id append_assoc diff_diff_cancel length_drop)
    then show ?thesis by (metis ends_with_iff append_Nil)
  next
    case False
    then obtain u where "s = u @ p" using r by (auto simp: append_eq_append_conv2)
    then show ?thesis using False by (simp add: ends_with_iff)
  qed
qed

lemma infer_from_end:
  assumes "operation \<in> {Some ''chat_completions'', Some ''responses'', Some ''messages''}" "ops \<noteq> []"
  shows "map_option operation_name (infer_from (t @ CHR ''|'' # operation_end ops operation)) = operation"
proof -
  have self: "ends_with p (t @ CHR ''|'' # p)" for p using ends_with_tail [of p "CHR ''|'' # p" t] by (auto simp: ends_with_iff)
  have "\<not> ends_with ''completions'' ''|/responses''" "\<not> ends_with ''ompletions'' ''|/messages''"
    "\<not> ends_with ''/responses'' ''|/messages''" by code_simp+
  then have other: "\<not> ends_with ''/chat/completions'' (t @ CHR ''|'' # ''/responses'')" "\<not> ends_with ''/chat/completions'' (t @ CHR ''|'' # ''/messages'')"
    "\<not> ends_with ''/responses'' (t @ CHR ''|'' # ''/messages'')"
    using ends_with_suffix_of [of "''/chat/completions''" t "''|/responses''"] ends_with_suffix_of [of "''/chat/completions''" t "''|/messages''"]
      ends_with_suffix_of [of "''/responses''" t "''|/messages''"] by auto
  show ?thesis using assms self other by (auto simp: infer_from_def operation_end_def)
qed

lemma real_request_operation:
  assumes "ops = [] \<or> operation \<in> {Some ''chat_completions'', Some ''responses'', Some ''messages''}"
  shows "map_option operation_name (proxy_operation (real_method ops meth) (real_path ops target operation)) =
    (if ops = [] then None else operation)"
proof (cases "ops = []")
  case True
  have "infer_from (target @ ''|'') = None"
    using ends_with_last [of "''/chat/completions''" target "CHR ''|''"] ends_with_last [of "''/responses''" target "CHR ''|''"]
      ends_with_last [of "''/messages''" target "CHR ''|''"] by (auto simp: infer_from_def)
  with True show ?thesis by (simp add: proxy_operation_def real_path_def operation_end_def)
next
  case False
  with assms infer_from_end [of operation ops target] show ?thesis
    by (simp add: proxy_operation_def real_path_def real_method_def)
qed

lemma compiled_match_prefixes:
  assumes "compile_http_match raw = Inr (m, k)" and "p \<in> set (hm_path_prefixes m)"
  shows "CHR ''|'' \<notin> set p"
proof -
  from assms(1) obtain paths where "compile_path_prefixes (rb_path_prefixes raw) (rb_id raw) = Inr paths"
      "hm_path_prefixes m = paths"
    by (auto simp: compile_http_match_def new_http_match_def split: if_splits)
  with assms(2) compile_path_prefixes_usable show ?thesis by (auto simp: usable_prefix_def)
qed

lemma prefixes_real:
  assumes "\<forall>p \<in> set ps. CHR ''|'' \<notin> set p"
  shows "list_ex (\<lambda>p. starts_with p (real_path ops target operation)) ps = list_ex (\<lambda>p. starts_with p target) ps"
  using assms starts_with_bar unfolding real_path_def list_ex_iff by blast

lemma plain_match_point:
  assumes "plain_match m" and "http_matches m (Some host) meth target operation"
  shows "hm_operations m = [] \<or> operation \<in> {Some ''chat_completions'', Some ''responses'', Some ''messages''}"
    and "hm_operations m \<noteq> [] \<Longrightarrow> eq_ignore_ascii_case ''POST'' meth"
  using assms by (auto simp: plain_match_def http_matches_def list_ex_iff split: option.splits)

lemma plain_match_realised:
  assumes "compile_http_match raw = Inr (m, k)" and "plain_match m" and "http_matches m (Some host) meth target operation"
  shows "request_matches m host (real_method (hm_operations m) meth) (real_path (hm_operations m) target operation)"
proof -
  note known = plain_match_point(1) [OF assms(2,3)]
  have bars: "\<forall>p \<in> set (hm_path_prefixes m). CHR ''|'' \<notin> set p" using compiled_match_prefixes [OF assms(1)] by blast
  show ?thesis
    using assms(2,3) unfolding request_matches_def real_request_operation [OF known]
    by (auto simp: http_matches_def prefixes_real [OF bars] plain_match_def real_method_def eq_ignore_ascii_case_def)
qed

lemma real_request_matched:
  assumes "compile_http_match raw = Inr (m, k)" and "ops = [] \<or> operation \<in> {Some ''chat_completions'', Some ''responses'', Some ''messages''}"
    and "ops \<noteq> [] \<Longrightarrow> eq_ignore_ascii_case ''POST'' meth"
    and "request_matches m host (real_method ops meth) (real_path ops target operation)"
  shows "http_matches m (Some host) meth target operation"
proof -
  have bars: "\<forall>p \<in> set (hm_path_prefixes m). CHR ''|'' \<notin> set p" using compiled_match_prefixes [OF assms(1)] by blast
  show ?thesis
    using assms(3,4) unfolding request_matches_def real_request_operation [OF assms(2)]
    by (auto simp: http_matches_def prefixes_real [OF bars] real_method_def eq_ignore_ascii_case_def split: if_splits option.splits)
qed

lemma real_path_slash:
  assumes "compile_http_match raw = Inr (m, k)" "http_matches m (Some host) meth target operation" "hm_path_prefixes m \<noteq> []"
  shows "\<exists>rest. real_path ops target operation = CHR ''/'' # rest"
proof -
  from assms(1) obtain paths where "compile_path_prefixes (rb_path_prefixes raw) (rb_id raw) = Inr paths"
      "hm_path_prefixes m = paths"
    by (auto simp: compile_http_match_def new_http_match_def split: if_splits)
  with assms(2,3) obtain p where "usable_prefix p" "starts_with p target"
    using compile_path_prefixes_usable by (fastforce simp: http_matches_def list_ex_iff)
  then show ?thesis by (cases p) (auto simp: usable_prefix_def starts_with_iff real_path_def)
qed

definition binding_has_key :: "http_binding_plan \<Rightarrow> http_match_key \<times> string \<Rightarrow> bool" where
  "binding_has_key binding entry \<longleftrightarrow>
     snd entry = hb_id binding \<and> (\<exists>raw. compile_http_match raw = Inr (hb_matcher binding, fst entry))"

definition unshadowed :: "(http_match_key \<times> string) list \<Rightarrow> bool" where
  "unshadowed keys \<longleftrightarrow>
     (\<forall>i < length keys. \<not> http_matchers_subsume_union (take i keys) (fst (keys ! i)))"

definition http_rules_ok ::
  "(http_match_key, http_binding_plan) rule_state \<Rightarrow> bool" where
  "http_rules_ok st \<longleftrightarrow> bm_ok (rs_plans st) \<and> bm_ok (rs_matchers st) \<and>
     (\<forall>l. list_all2 binding_has_key (bm_entry (rs_plans st) l) (bm_entry (rs_matchers st) l) \<and>
          unshadowed (bm_entry (rs_matchers st) l))"

lemma bm_entry_push: "bm_ok m \<Longrightarrow> bm_entry (bm_push k v m) k' = (if k' = k then bm_entry m k @ [v] else bm_entry m k')"
  by (simp add: bm_push_def bm_entry_def bm_get_insert)

lemma bm_ok_push: "bm_ok m \<Longrightarrow> bm_ok (bm_push k v m)"
  by (simp add: bm_push_def bm_ok_insert)

lemma unshadowed_snoc:
  "unshadowed keys \<Longrightarrow> \<not> http_matchers_subsume_union keys (fst k) \<Longrightarrow> unshadowed (keys @ [k])"
  by (auto simp: unshadowed_def nth_append less_Suc_eq)

lemma compile_binding_ok:
  assumes "compile_binding profiles drafts raw st = Inr st'" and "http_rules_ok st"
  shows "http_rules_ok st'"
proof -
  from assms(1) obtain id l matcher key action where
    m: "compile_http_match raw = Inr (matcher, key)"
    and u: "\<not> http_matchers_subsume_union (bm_entry (rs_matchers st) l) key"
    and st': "st' = \<lparr>rs_ids = rs_ids st @ [id],
        rs_plans = bm_push l \<lparr>hb_id = id, hb_matcher = matcher, hb_action = action\<rparr> (rs_plans st),
        rs_matchers = bm_push l (key, id) (rs_matchers st)\<rparr>"
    by (auto simp: compile_binding_def Let_def split: if_splits option.splits)
  have "binding_has_key \<lparr>hb_id = id, hb_matcher = matcher, hb_action = action\<rparr> (key, id)"
    using m by (auto simp: binding_has_key_def)
  with assms(2) u show ?thesis
    by (auto simp: st' http_rules_ok_def bm_entry_push bm_ok_push intro!: list_all2_appendI unshadowed_snoc)
qed

lemma unshadowed_reachable:
  assumes "list_all2 binding_has_key (as @ b # bs) keys" and "unshadowed keys"
  shows "\<exists>host meth target operation.
    http_matches (hb_matcher b) (Some host) meth target operation \<and>
    (\<forall>a \<in> set as. \<not> http_matches (hb_matcher a) (Some host) meth target operation)"
proof (rule ccontr)
  assume none: "\<not> ?thesis"
  from assms(1) obtain ks k ls where keys: "keys = ks @ k # ls" and as: "list_all2 binding_has_key as ks"
    and bk: "binding_has_key b k" by (auto simp: list_all2_append1 list_all2_Cons1)
  from bk obtain raw where raw: "compile_http_match raw = Inr (hb_matcher b, fst k)"
    by (auto simp: binding_has_key_def)
  have usable: "\<forall>k \<in> set (map fst ks). usable_key k"
    using as by (induction rule: list_all2_induct) (auto simp: binding_has_key_def dest: compile_http_match_key(2))
  have "\<exists>c \<in> set (map fst ks). key_matches c host meth target operation"
    if matched: "key_matches (fst k) host meth target operation" for host meth target operation
  proof -
    from matched have "http_matches (hb_matcher b) (Some host) meth target operation"
      by (simp add: compile_http_match_key(1) [OF raw])
    with none obtain a where a: "a \<in> set as"
      and am: "http_matches (hb_matcher a) (Some host) meth target operation"
      by blast
    from as a obtain c where "c \<in> set ks" "binding_has_key a c"
      by (induction rule: list_all2_induct) auto
    then obtain raw' where "compile_http_match raw' = Inr (hb_matcher a, fst c)"
      by (auto simp: binding_has_key_def)
    with am have "key_matches (fst c) host meth target operation"
      using compile_http_match_key(1) by blast
    with \<open>c \<in> set ks\<close> show ?thesis by auto
  qed
  from union_complete [OF this compile_http_match_key(2) [OF raw] usable]
  have "http_matchers_subsume_union ks (fst k)" by blast
  moreover have "\<not> http_matchers_subsume_union (take (length ks) keys) (fst (keys ! length ks))"
    using assms(2) [unfolded unshadowed_def, rule_format, of "length ks"] keys by (simp only: length_append) simp
  ultimately show False using keys by simp
qed

lemma compile_listeners_rules:
  assumes "compile_listeners cors_origin relative_to raw profiles = Inr plans"
    and "bm_get plans l = Some (Forward_Proxy p)"
  shows "\<exists>keys. list_all2 binding_has_key (fp_http_bindings p) keys \<and> unshadowed keys"
proof -
  from assms(1) obtain drafts http connect entries where
    "rw_listeners raw \<noteq> []"
    "compile_drafts cors_origin relative_to profiles [] [] (rw_listeners raw) = Inr drafts"
    and h: "res_fold (compile_binding profiles drafts) (rw_bindings raw)
          \<lparr>rs_ids = [], rs_plans = [], rs_matchers = []\<rparr> = Inr http"
    and "res_fold (compile_connect_rule drafts) (rw_connect_rules raw)
          \<lparr>rs_ids = rs_ids http, rs_plans = [], rs_matchers = []\<rparr> = Inr connect"
    and e: "res_collect (finish_listener (rs_plans http) (rs_plans connect)) drafts = Inr entries"
    and plans: "plans = bm_of_list entries"
    by (rule compile_listeners_InrE)
  have "http_rules_ok \<lparr>rs_ids = [], rs_plans = [], rs_matchers = []\<rparr>"
    by (simp add: http_rules_ok_def bm_entry_def unshadowed_def)
  from res_fold_invariant [where P = http_rules_ok, OF h this] have ok: "http_rules_ok http"
    using compile_binding_ok by blast
  have "(l, Forward_Proxy p) \<in> set entries" using assms(2) bm_of_list_get_in plans by metis
  from res_collect_set [OF e this] obtain lid draft where
    "finish_listener (rs_plans http) (rs_plans connect) (lid, draft) = Inr (l, Forward_Proxy p)" by auto
  then have "fp_http_bindings p = bm_entry (rs_plans http) l"
    by (auto simp: finish_listener_def new_forward_proxy_listener_def Let_def
        split: listener_flavor.splits if_splits)
  with ok show ?thesis unfolding http_rules_ok_def by metis
qed

section \<open>CONNECT rules\<close>

lemma compile_connect_match_key:
  assumes "compile_connect_match raw = Inr (m, k)"
  shows "connect_matches m host port \<longleftrightarrow>
    hosts.dim_matches (ck_hosts k) host \<and> ports.dim_matches (ck_ports k) port"
proof -
  from assms obtain hs ps where
    k: "k = \<lparr>ck_hosts = sort_key host_pattern_key hs, ck_ports = sort ps\<rparr>"
    and m: "m = \<lparr>cm_hosts = hs, cm_ports = ps\<rparr>"
    by (auto simp: compile_connect_match_def new_connect_match_def split: if_splits)
  have nil: "sort_key f xs = [] \<longleftrightarrow> xs = []" for f :: "'a \<Rightarrow> 'b::linorder" and xs
    by (metis length_0_conv length_sort)
  show ?thesis
    by (auto simp: connect_matches_def k m hosts.dim_matches_def ports.dim_matches_def list_ex_iff nil)
qed

lemma connect_union_sound:
  assumes "connect_matchers_subsume_union prior key"
    and "hosts.dim_matches (ck_hosts key) host" and "ports.dim_matches (ck_ports key) port"
  shows "\<exists>k \<in> set (map fst prior).
    hosts.dim_matches (ck_hosts k) host \<and> ports.dim_matches (ck_ports k) port"
proof -
  from assms(2) obtain a where a: "a \<in> host_dim.atoms (ck_hosts key)" "host_dim.inside a host"
    unfolding host_dim.dim_matches_atom by blast
  define b where "b = (if ck_ports key = [] then None else Some port)"
  from assms(1) a(1) have "all_atoms (ck_ports key)
      (\<lambda>port. list_ex (\<lambda>(candidate, _). connect_key_subsumes_atom candidate a port) prior)"
    unfolding connect_matchers_subsume_union_def host_dim.all_atoms_iff by blast
  then have "list_ex (\<lambda>(candidate, _). connect_key_subsumes_atom candidate a b) prior"
    using assms(3) by (auto simp: all_atoms_def b_def list_all_iff ports.dim_matches_def split: if_splits)
  then obtain k where k: "k \<in> set (map fst prior)" "connect_key_subsumes_atom k a b"
    by (force simp: list_ex_iff)
  then have "hosts.dim_matches (ck_hosts k) host"
    using host_dim.subsumes_atom_inside [OF _ a(2)] by (auto simp: connect_key_subsumes_atom_def)
  moreover have "ports.dim_matches (ck_ports k) port"
    using k(2) by (auto simp: connect_key_subsumes_atom_def b_def dimension_subsumes_atom_def
        ports.dim_matches_def list_ex_iff split: if_splits)
  ultimately show ?thesis using k(1) by blast
qed

text \<open>Over the four criteria taken as independent, the analysis is exact for every matcher.\<close>

lemma subsumed_iff_covered:
  assumes "compile_http_match raw = Inr (m, key)" and "list_all2 binding_has_key earlier prior"
  shows "http_matchers_subsume_union prior key \<longleftrightarrow>
    (\<forall>host meth target operation. http_matches m (Some host) meth target operation \<longrightarrow>
       (\<exists>b \<in> set earlier. http_matches (hb_matcher b) (Some host) meth target operation))"
proof -
  have corr: "(\<exists>k \<in> set (map fst prior). key_matches k host meth target operation) \<longleftrightarrow>
      (\<exists>b \<in> set earlier. http_matches (hb_matcher b) (Some host) meth target operation)"
    for host meth target operation
    using assms(2)
    by (induction rule: list_all2_induct) (auto simp: binding_has_key_def compile_http_match_key(1))
  have usable: "\<forall>k \<in> set (map fst prior). usable_key k"
    using assms(2) by (induction rule: list_all2_induct) (auto simp: binding_has_key_def dest: compile_http_match_key(2))
  note own = compile_http_match_key [OF assms(1)]
  show ?thesis
    using union_sound [of prior key] union_complete [OF _ own(2) usable]
    unfolding corr [symmetric] own(1) [symmetric] by blast
qed

section \<open>Listener safety\<close>

text \<open>What holds of every draft, and pairwise of the drafts, while the raw listeners are read.\<close>

definition draft_safe :: "listener_draft \<Rightarrow> bool" where
  "draft_safe d \<longleftrightarrow> (ip_is_loopback (sa_ip (ld_bind d)) \<or> ld_client_auth d = Local_Keys) \<and> sa_port (ld_bind d) \<noteq> 0"

definition drafts_disjoint :: "(string, listener_draft) bmap \<Rightarrow> bool" where
  "drafts_disjoint ds \<longleftrightarrow>
     (\<forall>(i, d) \<in> set ds. \<forall>(j, e) \<in> set ds. i \<noteq> j \<longrightarrow> \<not> bind_addresses_overlap (ld_bind d) (ld_bind e))"

lemma drafts_disjointD:
  "drafts_disjoint ds \<Longrightarrow> (i, d) \<in> set ds \<Longrightarrow> (j, e) \<in> set ds \<Longrightarrow> i \<noteq> j \<Longrightarrow>
   \<not> bind_addresses_overlap (ld_bind d) (ld_bind e)"
  by (auto simp: drafts_disjoint_def)

lemma overlap_sym: "bind_addresses_overlap a b = bind_addresses_overlap b a"
  by (auto simp: bind_addresses_overlap_def)

lemma compile_bind_port: "compile_bind raw l = Inr a \<Longrightarrow> sa_port a \<noteq> 0"
  by (auto simp: compile_bind_def split: option.splits if_splits)

lemma check_public_bind_safe:
  "check_public_bind raw a auth allow = Inr u \<Longrightarrow> ip_is_loopback (sa_ip a) \<or> auth = Local_Keys"
  by (cases auth) (auto simp: check_public_bind_def split: if_splits)

lemma check_overlap_disjoint:
  "check_overlap binds raw a = Inr u \<Longrightarrow> (b, i) \<in> set binds \<Longrightarrow> \<not> bind_addresses_overlap b a"
  by (auto simp: check_overlap_def find_None_iff split: option.splits prod.splits)

lemma compile_draft_safe:
  assumes "compile_draft cors_origin relative_to profiles binds raw_id raw = Inr (i, d)"
  shows "draft_safe d" and "(b, j) \<in> set binds \<Longrightarrow> \<not> bind_addresses_overlap b (ld_bind d)"
  using assms
  by (cases raw; auto simp: compile_draft_def draft_safe_def dest: compile_bind_port
      check_public_bind_safe check_overlap_disjoint split: if_splits)+

lemma compile_drafts_safe:
  assumes "compile_drafts cors_origin relative_to profiles binds drafts raws = Inr ds"
    and "bm_ok drafts" and "\<forall>(i, d) \<in> set drafts. draft_safe d \<and> (ld_bind d, i) \<in> set binds"
    and "drafts_disjoint drafts"
  shows "bm_ok ds \<and> (\<forall>(i, d) \<in> set ds. draft_safe d) \<and> drafts_disjoint ds"
  using assms
proof (induction cors_origin relative_to profiles binds drafts raws arbitrary: ds rule: compile_drafts.induct)
  case (1 cors_origin relative_to profiles binds drafts)
  then show ?case by auto
next
  case (2 cors_origin relative_to profiles binds drafts raw_id raw rest)
  from "2.prems"(1) obtain i d where
    d: "compile_draft cors_origin relative_to profiles binds raw_id raw = Inr (i, d)"
    and rest: "compile_drafts cors_origin relative_to profiles (binds @ [(ld_bind d, i)])
        (bm_insert i d drafts) rest = Inr ds"
    by auto
  note safe = compile_draft_safe [OF d]
  have new: "(j, e) \<in> set (bm_insert i d drafts) \<Longrightarrow> (j, e) = (i, d) \<or> j \<noteq> i \<and> (j, e) \<in> set drafts" for j e
    using "2.prems"(2) by (auto simp: bm_get_iff [symmetric] bm_ok_insert bm_get_insert split: if_splits)
  have "\<forall>(j, e) \<in> set (bm_insert i d drafts). draft_safe e \<and> (ld_bind e, j) \<in> set (binds @ [(ld_bind d, i)])"
    using new safe(1) "2.prems"(3) by fastforce
  moreover have "drafts_disjoint (bm_insert i d drafts)"
    unfolding drafts_disjoint_def
  proof clarify
    fix j e k f
    assume j: "(j, e) \<in> set (bm_insert i d drafts)" and k: "(k, f) \<in> set (bm_insert i d drafts)"
      and "j \<noteq> k" and o: "bind_addresses_overlap (ld_bind e) (ld_bind f)"
    have old: "(j', e') \<in> set drafts \<Longrightarrow> \<not> bind_addresses_overlap (ld_bind e') (ld_bind d)" for j' e'
      using "2.prems"(3) safe(2) by fastforce
    from new [OF j] new [OF k] \<open>j \<noteq> k\<close> consider
      "(j, e) \<in> set drafts" "(k, f) \<in> set drafts" | "e = d" "(k, f) \<in> set drafts" | "f = d" "(j, e) \<in> set drafts"
      by auto
    then show False
      using o \<open>j \<noteq> k\<close> old "2.prems"(4) overlap_sym by cases (fastforce simp: drafts_disjoint_def)+
  qed
  ultimately show ?case using "2.IH" [OF rest] "2.prems"(2) by (simp add: bm_ok_insert)
qed

lemma finish_listener_safe:
  assumes "finish_listener hb cr (i, d) = Inr (j, plan)"
  shows "j = i" and "listener_bind plan = ld_bind d" and "listener_client_auth plan = ld_client_auth d"
  using assms
  by (auto simp: finish_listener_def new_llm_api_listener_def new_forward_proxy_listener_def Let_def
      split: listener_flavor.splits if_splits)

lemma finish_listener_tls:
  assumes "finish_listener hb cr (i, d) = Inr (j, Forward_Proxy p)"
    and "fp_default_connect_action p = Intercept \<or> (\<exists>r \<in> set (fp_connect_rules p). cr_action r = Intercept)"
  shows "fp_tls p \<noteq> None"
  using assms
  by (auto simp: finish_listener_def new_forward_proxy_listener_def Let_def
      split: listener_flavor.splits if_splits)

lemma compile_listeners_entries:
  assumes "compile_listeners cors_origin relative_to raw profiles = Inr plans"
    and "bm_get plans l = Some plan"
  obtains drafts hb cr d where
    "compile_drafts cors_origin relative_to profiles [] [] (rw_listeners raw) = Inr drafts"
    "(l, d) \<in> set drafts" "finish_listener hb cr (l, d) = Inr (l, plan)"
  using assms(1)
proof (rule compile_listeners_InrE)
  fix drafts http connect entries
  assume d: "compile_drafts cors_origin relative_to profiles [] [] (rw_listeners raw) = Inr drafts"
    and e: "res_collect (finish_listener (rs_plans http) (rs_plans connect)) drafts = Inr entries"
    and plans: "plans = bm_of_list entries"
  from assms(2) plans have "(l, plan) \<in> set entries" by (metis bm_of_list_get_in)
  from res_collect_set [OF e this] obtain i dr where
    i: "(i, dr) \<in> set drafts" "finish_listener (rs_plans http) (rs_plans connect) (i, dr) = Inr (l, plan)" by auto
  with finish_listener_safe(1) [OF i(2)] d show thesis using that by blast
qed

section \<open>A small configuration\<close>

definition sample_binding :: "string \<Rightarrow> string list \<Rightarrow> string list \<Rightarrow> raw_binding" where
  "sample_binding i hosts paths =
     \<lparr>rb_id = i, rb_listener = ''proxy'', rb_action = Raw_Reject, rb_hosts = hosts,
      rb_path_prefixes = paths, rb_methods = [], rb_operations = []\<rparr>"

definition sample_match :: "host_pattern list \<Rightarrow> string list \<Rightarrow> http_match" where
  "sample_match hosts paths =
     \<lparr>hm_hosts = hosts, hm_path_prefixes = paths, hm_methods = [], hm_operations = []\<rparr>"

definition sample_key :: "host_pattern list \<Rightarrow> string list \<Rightarrow> http_match_key" where
  "sample_key hosts paths =
     \<lparr>hk_hosts = hosts, hk_path_prefixes = paths, hk_methods = [], hk_operations = []\<rparr>"

abbreviation sample_host :: "string \<Rightarrow> canonical_host" where
  "sample_host v \<equiv> \<lparr>ch_value = v, ch_kind = Dns\<rparr>"

definition sample_raw :: raw_listeners where
  "sample_raw =
     \<lparr>rw_listeners = [(''proxy'', Raw_Forward_Proxy
        \<lparr>rf_bind = ''127.0.0.1:8080'', rf_client_auth = Raw_No_Auth, rf_allow_insecure_public = False,
         rf_request_body_max_bytes = 1024, rf_default_http_action = Raw_Reject,
         rf_default_connect = Raw_Tunnel, rf_ca_dir = None\<rparr>)],
      rw_bindings = [sample_binding ''one'' [''*.example.com''] [''/v1'']],
      rw_connect_rules = []\<rparr>"

definition sample_proxy :: forward_proxy_listener_plan where
  "sample_proxy =
     \<lparr>fp_bind = \<lparr>sa_ip = V4 (Ipv4 127 0 0 1), sa_port = 8080, sa_scope = 0\<rparr>,
      fp_client_auth = No_Auth, fp_request_body_max_bytes = 1024,
      fp_http_bindings =
        [\<lparr>hb_id = ''one'', hb_matcher = sample_match [Subdomains_Of (sample_host ''example.com'')] [''/v1''],
          hb_action = Http_Reject\<rparr>],
      fp_default_http_action = Http_Reject, fp_connect_rules = [],
      fp_default_connect_action = Tunnel, fp_tls = None\<rparr>"

lemma sample_compiled:
  "compile_listeners Inl (\<lambda>d. d) sample_raw [] = Inr [(''proxy'', Forward_Proxy sample_proxy)]"
  by code_simp

lemma sample_lookup: "bm_get [(''proxy'', Forward_Proxy sample_proxy)] ''proxy'' = Some (Forward_Proxy sample_proxy)"
  by simp

section \<open>Properties\<close>

text \<open>
  C29. The shadowing analysis of HTTP bindings against the selection at run time, where a request's operation
  follows from its method and its path. A matcher that the compiler finds covered by the
  earlier bindings of its listener matches no request that none of them matches. Conversely,
  for a plain matcher (it names no operation, or it names known operations and the method POST), if they match
  every request it matches, the compiler finds it covered. Other matchers may be covered, or match
  no request at all, without being found: the analysis takes the operation as independent of method and
  path (\<open>unmatchable_binding_accepted\<close>). Requests range over all host values and paths; the
  DNS length limits are not imposed.
\<close>

theorem shadow_analysis_exact:
  assumes "compile_http_match raw = Inr (m, key)" and "list_all2 binding_has_key earlier prior"
  shows "(http_matchers_subsume_union prior key \<longrightarrow>
      (\<forall>host meth path. request_matches m host meth path \<longrightarrow> (\<exists>b \<in> set earlier. request_matches (hb_matcher b) host meth path))) \<and>
    (plain_match m \<longrightarrow>
      (\<forall>host meth path. request_matches m host meth path \<longrightarrow> (\<exists>b \<in> set earlier. request_matches (hb_matcher b) host meth path)) \<longrightarrow>
      http_matchers_subsume_union prior key)"
proof (intro conjI impI allI)
  note covered = subsumed_iff_covered [OF assms]
  show "\<exists>b \<in> set earlier. request_matches (hb_matcher b) host meth path"
    if "http_matchers_subsume_union prior key" "request_matches m host meth path" for host meth path
    using that unfolding covered request_matches_def by blast
  assume plain: "plain_match m"
    and all: "\<forall>host meth path. request_matches m host meth path \<longrightarrow> (\<exists>b \<in> set earlier. request_matches (hb_matcher b) host meth path)"
  have "\<exists>b \<in> set earlier. http_matches (hb_matcher b) (Some host) meth target operation"
    if m: "http_matches m (Some host) meth target operation" for host meth target operation
  proof -
    from all plain_match_realised [OF assms(1) plain m] obtain b where b: "b \<in> set earlier"
      "request_matches (hb_matcher b) host (real_method (hm_operations m) meth) (real_path (hm_operations m) target operation)"
      by blast
    from assms(2) b(1) obtain k where "binding_has_key b k" by (induction rule: list_all2_induct) auto
    then obtain raw' where "compile_http_match raw' = Inr (hb_matcher b, fst k)" by (auto simp: binding_has_key_def)
    from real_request_matched [OF this plain_match_point(1) [OF plain m] plain_match_point(2) [OF plain m] b(2)] b(1)
    show ?thesis by blast
  qed
  then show "http_matchers_subsume_union prior key" unfolding covered by blast
qed

theorem shadow_analysis_exact_witness:
  "request_matches (sample_match [Subdomains_Of (sample_host ''example.com'')] [''/v1''])
     (sample_host ''api.example.com'') ''GET'' ''/v1/models'' \<and>
   http_matchers_subsume_union [(sample_key [Subdomains_Of (sample_host ''example.com'')] [''/v1''], ''one'')]
     (sample_key [Exact (sample_host ''api.example.com'')] [''/v1/models''])"
proof -
  let ?m = "sample_match [Exact (sample_host ''api.example.com'')] [''/v1/models'']"
    and ?k = "sample_key [Exact (sample_host ''api.example.com'')] [''/v1/models'']"
    and ?b = "\<lparr>hb_id = ''one'', hb_matcher = sample_match [Subdomains_Of (sample_host ''example.com'')] [''/v1''],
        hb_action = Http_Reject\<rparr>"
    and ?p = "(sample_key [Subdomains_Of (sample_host ''example.com'')] [''/v1''], ''one'')"
  have m: "compile_http_match (sample_binding ''two'' [''api.example.com''] [''/v1/models'']) = Inr (?m, ?k)"
    by code_simp
  have "compile_http_match (sample_binding ''one'' [''*.example.com''] [''/v1'']) = Inr (hb_matcher ?b, fst ?p)"
    by code_simp
  then have "list_all2 binding_has_key [?b] [?p]" by (auto simp: binding_has_key_def)
  from shadow_analysis_exact [OF m this]
  have "http_matchers_subsume_union [?p] ?k \<longrightarrow>
      request_matches ?m (sample_host ''api.example.com'') ''GET'' ''/v1/models'' \<longrightarrow>
      request_matches (hb_matcher ?b) (sample_host ''api.example.com'') ''GET'' ''/v1/models''"
    by auto
  moreover have "http_matchers_subsume_union [?p] ?k" by code_simp
  moreover have "request_matches ?m (sample_host ''api.example.com'') ''GET'' ''/v1/models''" by code_simp
  ultimately show ?thesis by simp
qed

text \<open>
  What the analysis misses: a binding for the responses operation and the method GET is accepted, and no request matches it.
\<close>

lemma unmatchable_binding_accepted:
  "\<exists>m key. compile_http_match ((sample_binding ''two'' [] [])\<lparr>rb_methods := [''GET''], rb_operations := [''responses'']\<rparr>) = Inr (m, key) \<and>
     \<not> http_matchers_subsume_union [] key \<and> (\<forall>host meth path. \<not> request_matches m host meth path)"
proof -
  let ?m = "\<lparr>hm_hosts = [], hm_path_prefixes = [], hm_methods = [''GET''], hm_operations = [''responses'']\<rparr>"
    and ?k = "\<lparr>hk_hosts = [], hk_path_prefixes = [], hk_methods = [''GET''], hk_operations = [''responses'']\<rparr>"
  have "compile_http_match ((sample_binding ''two'' [] [])\<lparr>rb_methods := [''GET''], rb_operations := [''responses'']\<rparr>) = Inr (?m, ?k)"
    "\<not> http_matchers_subsume_union [] ?k" "\<not> eq_ignore_ascii_case ''GET'' ''POST''"
    by code_simp+
  then show ?thesis by (auto simp: request_matches_def http_matches_def proxy_operation_def split: option.splits)
qed



text \<open>
  A CONNECT rule that the compiler rejects as covered by earlier rules never decides a
  connection: with it or without it, every host and port gets the same action.
\<close>

lemma shadowed_connect_rule_is_dead:
  assumes "compile_connect_match raw = Inr (cr_matcher rule, key)"
    and "list_all2 (\<lambda>r (k, i). \<exists>raw. compile_connect_match raw = Inr (cr_matcher r, k)) earlier prior"
    and "connect_matchers_subsume_union prior key"
  shows "connect_action_of (listener\<lparr>fp_connect_rules := earlier @ rule # later\<rparr>) host port =
    connect_action_of (listener\<lparr>fp_connect_rules := earlier @ later\<rparr>) host port"
proof -
  have "\<exists>a \<in> set earlier. connect_matches (cr_matcher a) host port"
    if "connect_matches (cr_matcher rule) host port"
  proof -
    from that compile_connect_match_key [OF assms(1)] obtain k where "k \<in> set (map fst prior)"
      and "hosts.dim_matches (ck_hosts k) host" "ports.dim_matches (ck_ports k) port"
      using connect_union_sound [OF assms(3)] by blast
    with assms(2) show ?thesis
      by (induction rule: list_all2_induct) (auto simp: compile_connect_match_key)
  qed
  then show ?thesis
    using find_remove_covered [of "\<lambda>r. connect_matches (cr_matcher r) host port" rule earlier later]
    by (simp add: connect_action_of_def split: option.split)
qed

text \<open>
  C31. Network exposure of a compiled gateway: a listener on a non-loopback address
  authenticates its clients with keys, no two listeners have overlapping addresses, and a
  proxy that may intercept TLS has a certificate authority.
\<close>

theorem compiled_listeners_are_safe:
  assumes "compile_listeners cors_origin relative_to raw profiles = Inr plans"
    and "bm_get plans l = Some plan"
  shows "(ip_is_loopback (sa_ip (listener_bind plan)) \<or> listener_client_auth plan = Local_Keys) \<and>
    (\<forall>l' plan'. bm_get plans l' = Some plan' \<longrightarrow> l' \<noteq> l \<longrightarrow>
       \<not> bind_addresses_overlap (listener_bind plan) (listener_bind plan')) \<and>
    (\<forall>p. plan = Forward_Proxy p \<longrightarrow>
       fp_default_connect_action p = Intercept \<or> (\<exists>r \<in> set (fp_connect_rules p). cr_action r = Intercept) \<longrightarrow>
       fp_tls p \<noteq> None)"
proof -
  obtain drafts hb cr d where d: "compile_drafts cors_origin relative_to profiles [] [] (rw_listeners raw) = Inr drafts"
    "(l, d) \<in> set drafts" "finish_listener hb cr (l, d) = Inr (l, plan)"
    by (rule compile_listeners_entries [OF assms])
  note f = finish_listener_safe [OF d(3)]
  have safe: "\<forall>(i, d) \<in> set drafts. draft_safe d" "drafts_disjoint drafts"
  proof -
    have "bm_ok drafts \<and> (\<forall>(i, d) \<in> set drafts. draft_safe d) \<and> drafts_disjoint drafts"
      by (rule compile_drafts_safe [OF d(1)]) (simp_all add: drafts_disjoint_def)
    then show "\<forall>(i, d) \<in> set drafts. draft_safe d" "drafts_disjoint drafts" by blast+
  qed
  have "\<not> bind_addresses_overlap (listener_bind plan) (listener_bind plan')"
    if other: "bm_get plans l' = Some plan'" "l' \<noteq> l" for l' plan'
  proof -
    obtain drafts' hb' cr' d' where d': "compile_drafts cors_origin relative_to profiles [] [] (rw_listeners raw) = Inr drafts'"
      "(l', d') \<in> set drafts'" "finish_listener hb' cr' (l', d') = Inr (l', plan')"
      by (rule compile_listeners_entries [OF assms(1) other(1)])
    with d(1) have "(l', d') \<in> set drafts" by simp
    from drafts_disjointD [OF safe(2) d(2) this] other(2)
    have "\<not> bind_addresses_overlap (ld_bind d) (ld_bind d')" by blast
    then show ?thesis unfolding f(2) finish_listener_safe(2) [OF d'(3)] .
  qed
  moreover have "ip_is_loopback (sa_ip (listener_bind plan)) \<or> listener_client_auth plan = Local_Keys"
    using safe(1) d(2) f by (auto simp: draft_safe_def)
  moreover have "fp_tls p \<noteq> None"
    if "plan = Forward_Proxy p"
      and "fp_default_connect_action p = Intercept \<or> (\<exists>r \<in> set (fp_connect_rules p). cr_action r = Intercept)" for p
    using finish_listener_tls [OF _ that(2)] d(3) that(1) by blast
  ultimately show ?thesis by blast
qed

theorem compiled_listeners_are_safe_witness:
  "ip_is_loopback (sa_ip (listener_bind (Forward_Proxy sample_proxy)))"
proof -
  have "listener_client_auth (Forward_Proxy sample_proxy) = No_Auth" by (simp add: sample_proxy_def)
  with compiled_listeners_are_safe [OF sample_compiled sample_lookup] show ?thesis by auto
qed

end
