(* ===== verification/Ir.thy ===== *)
theory Ir
  imports Json
begin

text \<open>
  The endpoint-neutral representation of responses that every dialect is converted through
  (crates/convert/src/ir.rs): roles, content parts, tool calls, usage and the deltas of a
  streamed response, and how deltas accumulate into a response.

  Token counts are \<open>u64\<close>: their sum wraps, as in the release profile. The vector of tool
  calls grows to the index of a delta.
\<close>

section \<open>Types\<close>

datatype role = System_Role | User_Role | Assistant_Role | Tool_Role | Other_Role string

definition role_from_wire :: "string \<Rightarrow> role" where
  "role_from_wire s =
     (if s = ''system'' then System_Role
      else if s = ''user'' then User_Role
      else if s = ''assistant'' then Assistant_Role
      else if s = ''tool'' then Tool_Role
      else Other_Role s)"

fun role_str :: "role \<Rightarrow> string" where
  "role_str System_Role = ''system''"
| "role_str User_Role = ''user''"
| "role_str Assistant_Role = ''assistant''"
| "role_str Tool_Role = ''tool''"
| "role_str (Other_Role s) = s"

record tool_call =
  tc_id :: "string option"
  tc_name :: string
  tc_arguments :: json

definition default_tool_call :: tool_call where
  "default_tool_call = \<lparr>tc_id = None, tc_name = [], tc_arguments = J_Null\<rparr>"

datatype content_part =
    Text_Part string
  | Reasoning_Part string
  | Tool_Call_Part tool_call
  | Tool_Result_Part "string option" json
  | Raw_Part json

record ir_usage =
  us_input_tokens :: "nat option"
  us_output_tokens :: "nat option"
  us_total_tokens :: "nat option"
  us_input_tokens_details :: "json option"
  us_output_tokens_details :: "json option"
  us_extras :: "(string, json) bmap"

record ir_response =
  ir_id :: "string option"
  ir_model :: "string option"
  ir_role :: "role option"
  ir_content :: "content_part list"
  ir_tool_calls :: "tool_call list"
  ir_usage :: "ir_usage option"
  ir_finish_reason :: "string option"

definition empty_response :: ir_response where
  "empty_response =
     \<lparr>ir_id = None, ir_model = None, ir_role = None, ir_content = [], ir_tool_calls = [], ir_usage = None,
      ir_finish_reason = None\<rparr>"

datatype ir_delta =
    D_Text string
  | D_Reasoning string
  | D_Tool_Call nat "string option" "string option" string
  | D_Usage ir_usage
  | D_Finish "string option"

section \<open>Usage\<close>

definition merge_extras :: "(string, json) bmap \<Rightarrow> (string, json) bmap \<Rightarrow> (string, json) bmap" where
  "merge_extras m update = fold (\<lambda>(k, v). bm_insert k v) update m"

definition usage_merge :: "ir_usage \<Rightarrow> ir_usage \<Rightarrow> ir_usage" where
  "usage_merge u update =
     \<lparr>us_input_tokens = or_else (us_input_tokens update) (us_input_tokens u),
      us_output_tokens = or_else (us_output_tokens update) (us_output_tokens u),
      us_total_tokens = or_else (us_total_tokens update) (us_total_tokens u),
      us_input_tokens_details = or_else (us_input_tokens_details update) (us_input_tokens_details u),
      us_output_tokens_details = or_else (us_output_tokens_details update) (us_output_tokens_details u),
      us_extras = merge_extras (us_extras u) (us_extras update)\<rparr>"

definition merge_usage :: "ir_usage option \<Rightarrow> ir_usage \<Rightarrow> ir_usage option" where
  "merge_usage current usage = Some (case current of None \<Rightarrow> usage | Some u \<Rightarrow> usage_merge u usage)"

definition extras_from_object :: "(string, json) bmap \<Rightarrow> string list \<Rightarrow> (string, json) bmap" where
  "extras_from_object obj known = filter (\<lambda>(k, v). k \<notin> set known) obj"

definition openai_usage_keys :: "string list" where
  "openai_usage_keys =
     [''prompt_tokens'', ''completion_tokens'', ''input_tokens'', ''output_tokens'', ''total_tokens'',
      ''prompt_tokens_details'', ''completion_tokens_details'', ''input_tokens_details'', ''output_tokens_details'']"

definition usage_from_openai :: "json \<Rightarrow> ir_usage option" where
  "usage_from_openai v =
     map_option (\<lambda>u.
       \<lparr>us_input_tokens = Option.bind (or_else (json_get u ''prompt_tokens'') (json_get u ''input_tokens'')) json_u64,
        us_output_tokens = Option.bind (or_else (json_get u ''completion_tokens'') (json_get u ''output_tokens'')) json_u64,
        us_total_tokens = get_u64 u ''total_tokens'',
        us_input_tokens_details = or_else (json_get u ''input_tokens_details'') (json_get u ''prompt_tokens_details''),
        us_output_tokens_details = or_else (json_get u ''output_tokens_details'') (json_get u ''completion_tokens_details''),
        us_extras = (case json_object u of None \<Rightarrow> [] | Some obj \<Rightarrow> extras_from_object obj openai_usage_keys)\<rparr>)
       (json_get v ''usage'')"

definition usage_total :: "ir_usage \<Rightarrow> nat" where
  "usage_total u =
     (case us_total_tokens u of
        Some t \<Rightarrow> t
      | None \<Rightarrow> (unwrap_or 0 (us_input_tokens u) + unwrap_or 0 (us_output_tokens u)) mod 2 ^ 64)"

fun insert_some :: "string \<Rightarrow> json option \<Rightarrow> (string, json) bmap \<Rightarrow> (string, json) bmap" where
  "insert_some k None m = m"
| "insert_some k (Some v) m = bm_insert k v m"

definition usage_to_chat :: "ir_usage \<Rightarrow> json" where
  "usage_to_chat u =
     J_Object
       (insert_some ''completion_tokens_details'' (us_output_tokens_details u)
       (insert_some ''prompt_tokens_details'' (us_input_tokens_details u)
       (bm_insert ''total_tokens'' (json_nat (usage_total u))
       (bm_insert ''completion_tokens'' (json_nat (unwrap_or 0 (us_output_tokens u)))
       (bm_insert ''prompt_tokens'' (json_nat (unwrap_or 0 (us_input_tokens u)))
       (merge_extras [] (us_extras u)))))))"

definition usage_to_io :: "ir_usage \<Rightarrow> json" where
  "usage_to_io u =
     J_Object
       (insert_some ''output_tokens_details'' (us_output_tokens_details u)
       (insert_some ''input_tokens_details'' (us_input_tokens_details u)
       (bm_insert ''total_tokens'' (json_nat (usage_total u))
       (bm_insert ''output_tokens'' (json_nat (unwrap_or 0 (us_output_tokens u)))
       (bm_insert ''input_tokens'' (json_nat (unwrap_or 0 (us_input_tokens u)))
       (merge_extras [] (us_extras u)))))))"

text \<open>The terminal status of a finish reason, with the reason of an incomplete response.\<close>

definition responses_completion_status :: "string option \<Rightarrow> string \<times> string option" where
  "responses_completion_status finish_reason =
     (case finish_reason of
        None \<Rightarrow> (''completed'', None)
      | Some r \<Rightarrow>
          if r \<in> {''length'', ''max_tokens'', ''max_output_tokens''} then (''incomplete'', Some ''max_output_tokens'')
          else if r = ''content_filter'' then (''incomplete'', Some ''content_filter'')
          else if r \<in> {''failed'', ''error''} then (''failed'', None)
          else if r = ''cancelled'' then (''cancelled'', None)
          else (''completed'', None))"

section \<open>Accumulation\<close>

definition push_text_part :: "content_part list \<Rightarrow> string \<Rightarrow> content_part list" where
  "push_text_part parts text =
     (if text = [] then parts
      else if parts = [] then [Text_Part text]
      else (case last parts of
              Text_Part existing \<Rightarrow> butlast parts @ [Text_Part (existing @ text)]
            | _ \<Rightarrow> parts @ [Text_Part text]))"

definition push_reasoning_part :: "content_part list \<Rightarrow> string \<Rightarrow> content_part list" where
  "push_reasoning_part parts text =
     (if text = [] then parts
      else if parts = [] then [Reasoning_Part text]
      else (case last parts of
              Reasoning_Part existing \<Rightarrow> butlast parts @ [Reasoning_Part (existing @ text)]
            | _ \<Rightarrow> parts @ [Reasoning_Part text]))"

definition push_tool_call ::
  "tool_call list \<Rightarrow> nat \<Rightarrow> string option \<Rightarrow> string option \<Rightarrow> string \<Rightarrow> tool_call list" where
  "push_tool_call calls index call_id name arguments_delta =
     (let calls' = calls @ replicate (index + 1 - length calls) default_tool_call;
          call = calls' ! index
      in calls'[index :=
           \<lparr>tc_id = or_else call_id (tc_id call), tc_name = unwrap_or (tc_name call) name,
            tc_arguments = J_String (unwrap_or [] (json_str (tc_arguments call)) @ arguments_delta)\<rparr>])"

fun push_delta :: "ir_delta \<Rightarrow> ir_response \<Rightarrow> ir_response" where
  "push_delta (D_Text text) r = r\<lparr>ir_content := push_text_part (ir_content r) text\<rparr>"
| "push_delta (D_Reasoning text) r = r\<lparr>ir_content := push_reasoning_part (ir_content r) text\<rparr>"
| "push_delta (D_Tool_Call index call_id name arguments_delta) r =
     r\<lparr>ir_tool_calls := push_tool_call (ir_tool_calls r) index call_id name arguments_delta\<rparr>"
| "push_delta (D_Usage usage) r = r\<lparr>ir_usage := merge_usage (ir_usage r) usage\<rparr>"
| "push_delta (D_Finish reason) r = r\<lparr>ir_finish_reason := reason\<rparr>"

definition push_deltas :: "ir_delta list \<Rightarrow> ir_response \<Rightarrow> ir_response" where
  "push_deltas ds r = fold push_delta ds r"

definition text_from_parts :: "content_part list \<Rightarrow> string" where
  "text_from_parts parts = concat (filter_map (\<lambda>p. case p of Text_Part t \<Rightarrow> Some t | _ \<Rightarrow> None) parts)"

definition reasoning_from_parts :: "content_part list \<Rightarrow> string option" where
  "reasoning_from_parts parts =
     (let text = concat (filter_map (\<lambda>p. case p of Reasoning_Part t \<Rightarrow> Some t | _ \<Rightarrow> None) parts)
      in if text = [] then None else Some text)"

section \<open>What a stream of deltas says\<close>

definition delta_text :: "ir_delta list \<Rightarrow> string" where
  "delta_text ds = concat (filter_map (\<lambda>d. case d of D_Text t \<Rightarrow> Some t | _ \<Rightarrow> None) ds)"

definition delta_reasoning :: "ir_delta list \<Rightarrow> string" where
  "delta_reasoning ds = concat (filter_map (\<lambda>d. case d of D_Reasoning t \<Rightarrow> Some t | _ \<Rightarrow> None) ds)"

definition delta_arguments :: "nat \<Rightarrow> ir_delta list \<Rightarrow> string" where
  "delta_arguments i ds =
     concat (filter_map (\<lambda>d. case d of D_Tool_Call j _ _ a \<Rightarrow> if i = j then Some a else None | _ \<Rightarrow> None) ds)"

definition reasoning_of_parts :: "content_part list \<Rightarrow> string" where
  "reasoning_of_parts parts = concat (filter_map (\<lambda>p. case p of Reasoning_Part t \<Rightarrow> Some t | _ \<Rightarrow> None) parts)"

definition call_arguments :: "tool_call list \<Rightarrow> nat \<Rightarrow> string" where
  "call_arguments calls i = (if i < length calls then unwrap_or [] (json_str (tc_arguments (calls ! i))) else [])"

lemma text_push_text: "text_from_parts (push_text_part parts t) = text_from_parts parts @ t"
  by (induction parts rule: rev_induct)
    (auto simp: text_from_parts_def push_text_part_def split: content_part.splits)

lemma text_push_reasoning: "text_from_parts (push_reasoning_part parts t) = text_from_parts parts"
  by (induction parts rule: rev_induct)
    (auto simp: text_from_parts_def push_reasoning_part_def split: content_part.splits)

lemma reasoning_push_text: "reasoning_of_parts (push_text_part parts t) = reasoning_of_parts parts"
  by (induction parts rule: rev_induct)
    (auto simp: reasoning_of_parts_def push_text_part_def split: content_part.splits)

lemma reasoning_push_reasoning: "reasoning_of_parts (push_reasoning_part parts t) = reasoning_of_parts parts @ t"
  by (induction parts rule: rev_induct)
    (auto simp: reasoning_of_parts_def push_reasoning_part_def split: content_part.splits)

lemma arguments_push_tool_call:
  "call_arguments (push_tool_call calls i c n a) j = call_arguments calls j @ (if i = j then a else [])"
  by (auto simp: push_tool_call_def Let_def call_arguments_def nth_append nth_list_update default_tool_call_def)

text \<open>A response accumulates exactly the text, the reasoning and the arguments of its deltas.\<close>

lemma push_deltas_accumulate:
  "text_from_parts (ir_content (push_deltas ds r)) = text_from_parts (ir_content r) @ delta_text ds \<and>
   reasoning_of_parts (ir_content (push_deltas ds r)) = reasoning_of_parts (ir_content r) @ delta_reasoning ds \<and>
   call_arguments (ir_tool_calls (push_deltas ds r)) i = call_arguments (ir_tool_calls r) i @ delta_arguments i ds"
proof (induction ds arbitrary: r)
  case Nil
  then show ?case by (simp add: push_deltas_def delta_text_def delta_reasoning_def delta_arguments_def)
next
  case (Cons d ds)
  have step: "push_deltas (d # ds) r = push_deltas ds (push_delta d r)" by (simp add: push_deltas_def)
  show ?case unfolding step using Cons.IH [of "push_delta d r"]
    by (cases d) (auto simp: text_push_text text_push_reasoning reasoning_push_text reasoning_push_reasoning
        arguments_push_tool_call delta_text_def delta_reasoning_def delta_arguments_def)
qed

lemma delta_append:
  "delta_text (ds @ es) = delta_text ds @ delta_text es"
  "delta_reasoning (ds @ es) = delta_reasoning ds @ delta_reasoning es"
  "delta_arguments i (ds @ es) = delta_arguments i ds @ delta_arguments i es"
  by (simp_all add: delta_text_def delta_reasoning_def delta_arguments_def)

end
