(* ===== verification/Std_Str.thy ===== *)
theory Std_Str
  imports Prelude
begin

text \<open>
  \<open>str::trim\<close>: removes leading and trailing characters of the Unicode property White_Space,
  here as the byte sequences that encode them in UTF-8.
\<close>

definition white_space :: "string list" where
  "white_space = map (map char_of)
     ([[9], [10], [11], [12], [13], [32], [194, 133], [194, 160], [225, 154, 128],
       [226, 128, 168], [226, 128, 169], [226, 128, 175], [226, 129, 159], [227, 128, 128 :: nat]]
      @ map (\<lambda>n. [226, 128, n]) [128 ..< 139])"

lemma white_space_nonempty: "w \<in> set white_space \<Longrightarrow> w \<noteq> []"
  by (auto simp: white_space_def)

function trim_start :: "string \<Rightarrow> string" where
  "trim_start s =
     (case List.find (\<lambda>w. starts_with w s) white_space of
        Some w \<Rightarrow> trim_start (drop (length w) s)
      | None \<Rightarrow> s)"
  by pat_completeness auto
termination
proof (relation "measure length", goal_cases)
  case (2 s w)
  then have "w \<in> set white_space" "starts_with w s" by (auto simp: find_Some_iff)
  with white_space_nonempty [of w] starts_with_length [of w s] show ?case
    by (cases w; cases s) auto
qed simp

declare trim_start.simps [simp del]

function trim_end :: "string \<Rightarrow> string" where
  "trim_end s =
     (case List.find (\<lambda>w. ends_with w s) white_space of
        Some w \<Rightarrow> trim_end (take (length s - length w) s)
      | None \<Rightarrow> s)"
  by pat_completeness auto
termination
proof (relation "measure length", goal_cases)
  case (2 s w)
  then have "w \<in> set white_space" "ends_with w s" by (auto simp: find_Some_iff)
  with white_space_nonempty [of w] show ?case by (auto simp: ends_with_iff)
qed simp

declare trim_end.simps [simp del]

definition str_trim :: "string \<Rightarrow> string" where
  "str_trim s = trim_end (trim_start s)"

lemma trim_start_suffix: "\<exists>p. s = p @ trim_start s"
proof (induction s rule: trim_start.induct)
  case (1 s)
  show ?case
  proof (cases "List.find (\<lambda>w. starts_with w s) white_space")
    case None
    then show ?thesis by (subst trim_start.simps) simp
  next
    case (Some w)
    then have "starts_with w s" by (auto simp: find_Some_iff)
    then have "s = w @ drop (length w) s" by (auto simp: starts_with_iff)
    with 1 [OF Some] Some show ?thesis by (subst trim_start.simps) (metis append.assoc option.simps(5))
  qed
qed

lemma trim_end_prefix: "\<exists>p. s = trim_end s @ p"
proof (induction s rule: trim_end.induct)
  case (1 s)
  show ?case
  proof (cases "List.find (\<lambda>w. ends_with w s) white_space")
    case None
    then show ?thesis by (subst trim_end.simps) simp
  next
    case (Some w)
    then have "ends_with w s" by (auto simp: find_Some_iff)
    then have "s = take (length s - length w) s @ w" by (auto simp: ends_with_iff)
    with 1 [OF Some] Some show ?thesis by (subst trim_end.simps) (metis append.assoc option.simps(5))
  qed
qed

text \<open>Trimming removes nothing but a prefix and a suffix, and nothing from an untrimmable text.\<close>

lemma str_trim_infix: "\<exists>p q. s = p @ str_trim s @ q"
  using trim_start_suffix [of s] trim_end_prefix [of "trim_start s"] unfolding str_trim_def by metis

lemma str_trim_Nil [simp]: "str_trim [] = []"
proof -
  have "List.find (\<lambda>w. starts_with w []) white_space = None"
    using white_space_nonempty by (auto simp: find_None_iff starts_with_iff)
  then have "trim_start [] = []" by (subst trim_start.simps) simp
  moreover have "List.find (\<lambda>w. ends_with w []) white_space = None"
    using white_space_nonempty by (auto simp: find_None_iff ends_with_iff)
  then have "trim_end [] = []" by (subst trim_end.simps) simp
  ultimately show ?thesis by (simp add: str_trim_def)
qed

text \<open>Trimming twice trims once, and a text that starts and ends with no white space is unchanged.\<close>

lemma trim_start_fixed: "trim_start s = s \<longleftrightarrow> (\<forall>w \<in> set white_space. \<not> starts_with w s)"
proof (cases "List.find (\<lambda>w. starts_with w s) white_space")
  case None
  then have "trim_start s = s" by (simp add: trim_start.simps [of s])
  then show ?thesis using None by (auto simp: find_None_iff)
next
  case (Some w)
  then have w: "w \<in> set white_space" "starts_with w s" by (auto simp: find_Some_iff)
  obtain p where "drop (length w) s = p @ trim_start (drop (length w) s)" using trim_start_suffix by blast
  then have "length (trim_start (drop (length w) s)) \<le> length s - length w" by (metis length_append length_drop le_add2)
  then have "length (trim_start s) < length s"
    using w white_space_nonempty [of w] starts_with_length [of w s] Some
    by (subst trim_start.simps) (cases w; simp)
  then show ?thesis using w by auto
qed

lemma trim_start_trimmed: "w \<in> set white_space \<Longrightarrow> \<not> starts_with w (trim_start s)"
proof (induction s rule: trim_start.induct)
  case (1 s)
  then show ?case
    by (subst trim_start.simps) (auto simp: find_None_iff split: option.split)
qed

lemma trim_end_fixed: "\<forall>w \<in> set white_space. \<not> ends_with w s \<Longrightarrow> trim_end s = s"
proof -
  assume "\<forall>w \<in> set white_space. \<not> ends_with w s"
  then have "List.find (\<lambda>w. ends_with w s) white_space = None" by (auto simp: find_None_iff)
  then show ?thesis by (subst trim_end.simps) simp
qed

lemma trim_end_trimmed: "w \<in> set white_space \<Longrightarrow> \<not> ends_with w (trim_end s)"
proof (induction s rule: trim_end.induct)
  case (1 s)
  then show ?case
    by (subst trim_end.simps) (auto simp: find_None_iff split: option.split)
qed

lemma str_trim_fixed:
  assumes "\<forall>w \<in> set white_space. \<not> starts_with w s \<and> \<not> ends_with w s"
  shows "str_trim s = s"
proof -
  have "trim_start s = s" using assms trim_start_fixed by blast
  then show ?thesis using assms trim_end_fixed by (simp add: str_trim_def)
qed

lemma str_trim_idem [simp]: "str_trim (str_trim s) = str_trim s"
proof (rule str_trim_fixed, intro ballI conjI)
  fix w
  assume w: "w \<in> set white_space"
  obtain p where "trim_start s = trim_end (trim_start s) @ p" using trim_end_prefix by blast
  then show "\<not> starts_with w (str_trim s)"
    using trim_start_trimmed [OF w, of s] unfolding str_trim_def starts_with_iff by (metis append.assoc)
  show "\<not> ends_with w (str_trim s)" using trim_end_trimmed [OF w] by (simp add: str_trim_def)
qed

end
