(* ===== verification/Sse_Delta.thy ===== *)
theory Sse_Delta
  imports Ir Std_Str
begin

text \<open>
  Server-sent events and the translation between the events of each dialect and the
  endpoint-neutral deltas (crates/convert/src/sse/event.rs, value/chat.rs, value/messages.rs and
  value/responses.rs).

  The data of an event that the gateway builds is the rendering of a JSON value by
  \<open>serde_json\<close>; it is kept as that value, since no rendering is the sentinel \<open>[DONE]\<close>.
  Where the code stores a rendering in another value, \<open>render\<close> is that function; \<open>parse\<close> is
  \<open>serde_json::from_str\<close>.
\<close>

section \<open>Events\<close>

datatype sse_data = Text_Data string | Rendered json

record sse_event =
  se_event :: "string option"
  se_data :: sse_data
  se_json :: "json option"

definition done_sentinel :: string where
  "done_sentinel = ''[DONE]''"

definition sse_raw :: "(string \<Rightarrow> json option) \<Rightarrow> string option \<Rightarrow> string \<Rightarrow> sse_event" where
  "sse_raw parse event data =
     (let payload = str_trim data
      in \<lparr>se_event = event, se_data = Text_Data data,
          se_json = (if payload = [] \<or> payload = done_sentinel then None else parse payload)\<rparr>)"

definition sse_json :: "string option \<Rightarrow> json \<Rightarrow> sse_event" where
  "sse_json event v = \<lparr>se_event = event, se_data = Rendered v, se_json = Some v\<rparr>"

definition sse_done :: sse_event where
  "sse_done = \<lparr>se_event = None, se_data = Text_Data done_sentinel, se_json = None\<rparr>"

definition is_done :: "sse_event \<Rightarrow> bool" where
  "is_done e = (case se_data e of Text_Data data \<Rightarrow> str_trim data = done_sentinel | Rendered _ \<Rightarrow> False)"

section \<open>Chat completions\<close>

text \<open>\<open>choices[0]\<close>.\<close>

definition first_choice :: "json \<Rightarrow> json option" where
  "first_choice v = (case get_array v ''choices'' of Some (c # _) \<Rightarrow> Some c | _ \<Rightarrow> None)"

definition usage_delta :: "json \<Rightarrow> ir_delta list" where
  "usage_delta v = (case usage_from_openai v of Some u \<Rightarrow> [D_Usage u] | None \<Rightarrow> [])"

definition chat_call_delta :: "json \<Rightarrow> ir_delta" where
  "chat_call_delta call =
     D_Tool_Call (unwrap_or 0 (get_u64 call ''index'')) (get_str call ''id'')
       (Option.bind (json_get call ''function'') (\<lambda>f. get_str f ''name''))
       (unwrap_or [] (Option.bind (json_get call ''function'') (\<lambda>f. get_str f ''arguments'')))"

definition chat_content_deltas :: "json \<Rightarrow> ir_delta list" where
  "chat_content_deltas delta =
     (case get_str delta ''content'' of Some text \<Rightarrow> [D_Text text] | None \<Rightarrow> []) @
     (case get_str delta ''reasoning_content'' of Some text \<Rightarrow> [D_Reasoning text] | None \<Rightarrow> []) @
     (case get_array delta ''tool_calls'' of Some calls \<Rightarrow> map chat_call_delta calls | None \<Rightarrow> [])"

definition delta_from_chat_chunk :: "json \<Rightarrow> ir_delta list" where
  "delta_from_chat_chunk v =
     (case first_choice v of
        None \<Rightarrow> usage_delta v
      | Some choice \<Rightarrow>
          (case json_get choice ''delta'' of Some delta \<Rightarrow> chat_content_deltas delta | None \<Rightarrow> []) @
          (case json_get choice ''finish_reason'' of
             None \<Rightarrow> []
           | Some reason \<Rightarrow> if reason = J_Null then [] else [D_Finish (json_str reason)]) @
          usage_delta v)"

definition chat_chunk :: "string \<Rightarrow> string \<Rightarrow> json list \<Rightarrow> json" where
  "chat_chunk resp_id model choices =
     json_obj [(''id'', J_String resp_id), (''object'', J_String ''chat.completion.chunk''), (''model'', J_String model),
               (''choices'', J_Array choices)]"

definition chat_choice :: "json \<Rightarrow> json \<Rightarrow> json" where
  "chat_choice delta finish_reason =
     json_obj [(''index'', json_nat 0), (''delta'', delta), (''finish_reason'', finish_reason)]"

fun chunk_of_delta :: "string \<Rightarrow> string \<Rightarrow> ir_delta \<Rightarrow> json" where
  "chunk_of_delta resp_id model (D_Text text) =
     chat_chunk resp_id model [chat_choice (json_obj [(''content'', J_String text)]) J_Null]"
| "chunk_of_delta resp_id model (D_Reasoning text) =
     chat_chunk resp_id model [chat_choice (json_obj [(''reasoning_content'', J_String text)]) J_Null]"
| "chunk_of_delta resp_id model (D_Tool_Call index call_id name arguments_delta) =
     chat_chunk resp_id model
       [chat_choice (json_obj [(''tool_calls'', J_Array [json_obj
           [(''index'', json_nat index), (''id'', json_opt_str call_id), (''type'', J_String ''function''),
            (''function'', json_obj [(''name'', json_opt_str name), (''arguments'', J_String arguments_delta)])]])])
         J_Null]"
| "chunk_of_delta resp_id model (D_Usage usage) =
     json_obj [(''id'', J_String resp_id), (''object'', J_String ''chat.completion.chunk''), (''model'', J_String model),
               (''choices'', J_Array []), (''usage'', usage_to_chat usage)]"
| "chunk_of_delta resp_id model (D_Finish reason) =
     chat_chunk resp_id model [chat_choice (json_obj []) (J_String (unwrap_or ''stop'' reason))]"

definition chunk_from_deltas :: "string \<Rightarrow> string \<Rightarrow> ir_delta list \<Rightarrow> bool \<Rightarrow> json list" where
  "chunk_from_deltas resp_id model deltas finish =
     map (chunk_of_delta resp_id model) deltas @
     (if finish then [chat_chunk resp_id model [chat_choice (json_obj []) (J_String ''stop'')]] else [])"

section \<open>Messages\<close>

definition usage_extras :: "json \<Rightarrow> string list \<Rightarrow> (string, json) bmap" where
  "usage_extras u known = (case json_object u of None \<Rightarrow> [] | Some obj \<Rightarrow> extras_from_object obj known)"

definition finish_reason_from_messages :: "string \<Rightarrow> string" where
  "finish_reason_from_messages reason =
     (if reason = ''end_turn'' \<or> reason = ''stop_sequence'' then ''stop''
      else if reason = ''max_tokens'' then ''length''
      else if reason = ''tool_use'' then ''tool_calls''
      else reason)"

definition finish_reason_to_messages :: "string option \<Rightarrow> string" where
  "finish_reason_to_messages reason =
     (case reason of
        None \<Rightarrow> ''end_turn''
      | Some r \<Rightarrow>
          if r \<in> {''stop'', ''end_turn'', ''stop_sequence''} then ''end_turn''
          else if r \<in> {''length'', ''max_tokens'', ''max_output_tokens''} then ''max_tokens''
          else if r = ''tool_calls'' \<or> r = ''tool_use'' then ''tool_use''
          else r)"

definition messages_usage :: "nat option \<Rightarrow> json \<Rightarrow> string list \<Rightarrow> ir_usage" where
  "messages_usage input u known =
     \<lparr>us_input_tokens = input, us_output_tokens = get_u64 u ''output_tokens'', us_total_tokens = None,
      us_input_tokens_details = None, us_output_tokens_details = None, us_extras = usage_extras u known\<rparr>"

definition block_start_delta :: "(json \<Rightarrow> string) \<Rightarrow> json \<Rightarrow> ir_delta list" where
  "block_start_delta render v =
     (case json_get v ''content_block'' of
        None \<Rightarrow> []
      | Some block \<Rightarrow>
          if get_str block ''type'' = Some ''tool_use''
          then [D_Tool_Call (unwrap_or 0 (get_u64 v ''index'')) (get_str block ''id'') (get_str block ''name'')
                  (case json_get block ''input'' of
                     None \<Rightarrow> []
                   | Some input \<Rightarrow> if input = J_Object [] then [] else render input)]
          else [])"

definition block_delta_delta :: "json \<Rightarrow> ir_delta list" where
  "block_delta_delta v =
     (case json_get v ''delta'' of
        None \<Rightarrow> []
      | Some delta \<Rightarrow>
          (case get_str delta ''type'' of
             None \<Rightarrow> []
           | Some kind \<Rightarrow>
               if kind = ''text_delta''
               then (case get_str delta ''text'' of Some text \<Rightarrow> [D_Text text] | None \<Rightarrow> [])
               else if kind = ''thinking_delta''
               then (case get_str delta ''thinking'' of Some text \<Rightarrow> [D_Reasoning text] | None \<Rightarrow> [])
               else if kind = ''input_json_delta''
               then [D_Tool_Call (unwrap_or 0 (get_u64 v ''index'')) None None (unwrap_or [] (get_str delta ''partial_json''))]
               else []))"

definition delta_from_messages_event :: "(json \<Rightarrow> string) \<Rightarrow> json \<Rightarrow> ir_delta list" where
  "delta_from_messages_event render v =
     (case get_str v ''type'' of
        None \<Rightarrow> []
      | Some kind \<Rightarrow>
          if kind = ''content_block_start'' then block_start_delta render v
          else if kind = ''content_block_delta'' then block_delta_delta v
          else if kind = ''message_delta'' then
            (case Option.bind (json_get v ''delta'') (\<lambda>d. get_str d ''stop_reason'') of
               Some stop \<Rightarrow> [D_Finish (Some (finish_reason_from_messages stop))] | None \<Rightarrow> []) @
            (case json_get v ''usage'' of
               Some u \<Rightarrow> [D_Usage (messages_usage None u [''output_tokens''])] | None \<Rightarrow> [])
          else if kind = ''message_start'' then
            (case Option.bind (json_get v ''message'') (\<lambda>m. json_get m ''usage'') of
               Some u \<Rightarrow> [D_Usage (messages_usage (get_u64 u ''input_tokens'') u [''input_tokens'', ''output_tokens''])]
             | None \<Rightarrow> [])
          else [])"

definition block_delta_event :: "nat \<Rightarrow> json \<Rightarrow> string \<times> json" where
  "block_delta_event index delta =
     (''content_block_delta'',
      json_obj [(''type'', J_String ''content_block_delta''), (''index'', json_nat index), (''delta'', delta)])"

fun event_of_delta :: "ir_delta \<Rightarrow> string \<times> json" where
  "event_of_delta (D_Text text) =
     block_delta_event 0 (json_obj [(''type'', J_String ''text_delta''), (''text'', J_String text)])"
| "event_of_delta (D_Reasoning text) =
     block_delta_event 0 (json_obj [(''type'', J_String ''thinking_delta''), (''thinking'', J_String text)])"
| "event_of_delta (D_Tool_Call index call_id name arguments_delta) =
     block_delta_event index
       (json_obj [(''type'', J_String ''input_json_delta''), (''partial_json'', J_String arguments_delta)])"
| "event_of_delta (D_Usage usage) =
     (''message_delta'',
      json_obj [(''type'', J_String ''message_delta''), (''delta'', json_obj []),
                (''usage'', J_Object (bm_insert ''output_tokens'' (json_nat (unwrap_or 0 (us_output_tokens usage)))
                   (merge_extras [] (us_extras usage))))])"
| "event_of_delta (D_Finish reason) =
     (''message_delta'',
      json_obj [(''type'', J_String ''message_delta''),
                (''delta'', json_obj [(''stop_reason'', J_String (finish_reason_to_messages reason)), (''stop_sequence'', J_Null)])])"

definition message_start_event :: "string \<Rightarrow> string \<Rightarrow> string \<times> json" where
  "message_start_event resp_id model =
     (''message_start'',
      json_obj [(''type'', J_String ''message_start''),
        (''message'', json_obj [(''id'', J_String resp_id), (''type'', J_String ''message''), (''role'', J_String ''assistant''),
           (''model'', J_String model), (''content'', J_Array []), (''stop_reason'', J_Null), (''stop_sequence'', J_Null),
           (''usage'', json_obj [(''input_tokens'', json_nat 0), (''output_tokens'', json_nat 0)])])])"

definition block_stop_event :: "nat \<Rightarrow> string \<times> json" where
  "block_stop_event index =
     (''content_block_stop'', json_obj [(''type'', J_String ''content_block_stop''), (''index'', json_nat index)])"

definition message_stop_event :: "string \<times> json" where
  "message_stop_event = (''message_stop'', json_obj [(''type'', J_String ''message_stop'')])"

definition messages_events_from_deltas :: "string \<Rightarrow> string \<Rightarrow> ir_delta list \<Rightarrow> bool \<Rightarrow> (string \<times> json) list" where
  "messages_events_from_deltas resp_id model deltas finish =
     (if finish
      then message_start_event resp_id model # map event_of_delta deltas @ [block_stop_event 0, message_stop_event]
      else map event_of_delta deltas)"

section \<open>Responses\<close>

definition response_has_tool_call_output :: "json \<Rightarrow> bool" where
  "response_has_tool_call_output response =
     (case get_array response ''output'' of
        None \<Rightarrow> False
      | Some output \<Rightarrow>
          list_ex (\<lambda>item. get_str item ''type'' \<in> {Some ''function_call'', Some ''custom_tool_call''}) output)"

definition completed_finish_reason :: "json \<Rightarrow> string" where
  "completed_finish_reason response = (if response_has_tool_call_output response then ''tool_calls'' else ''stop'')"

definition delta_from_responses_event :: "json \<Rightarrow> ir_delta list" where
  "delta_from_responses_event v =
     (case get_str v ''type'' of
        None \<Rightarrow> []
      | Some kind \<Rightarrow>
          if kind = ''response.output_text.delta'' then
            (case get_str v ''delta'' of Some delta \<Rightarrow> [D_Text delta] | None \<Rightarrow> [])
          else if kind = ''response.reasoning_summary_text.delta'' \<or> kind = ''response.reasoning_text.delta'' then
            (case get_str v ''delta'' of Some delta \<Rightarrow> [D_Reasoning delta] | None \<Rightarrow> [])
          else if kind = ''response.function_call_arguments.delta'' \<or> kind = ''response.custom_tool_call_input.delta'' then
            [D_Tool_Call (unwrap_or 0 (get_u64 v ''output_index''))
               (Option.bind (or_else (json_get v ''call_id'') (json_get v ''item_id'')) json_str)
               None (unwrap_or [] (get_str v ''delta''))]
          else if kind = ''response.completed'' then
            (case json_get v ''response'' of Some resp \<Rightarrow> usage_delta resp | None \<Rightarrow> []) @
            [D_Finish (Some (case json_get v ''response'' of Some resp \<Rightarrow> completed_finish_reason resp | None \<Rightarrow> ''stop''))]
          else [])"

section \<open>Round trips\<close>

lemmas json_eval = json_get_obj get_obj bind_eq_Some_conv

text \<open>What is left of a delta after one trip through the chunks of chat completions.\<close>

fun chat_view :: "ir_delta \<Rightarrow> ir_delta list" where
  "chat_view (D_Usage usage) = usage_delta (json_obj [(''usage'', usage_to_chat usage)])"
| "chat_view (D_Finish reason) = [D_Finish (Some (unwrap_or ''stop'' reason))]"
| "chat_view d = [d]"

fun delta_in_range :: "ir_delta \<Rightarrow> bool" where
  "delta_in_range (D_Tool_Call index _ _ _) \<longleftrightarrow> index < 2 ^ 64"
| "delta_in_range _ \<longleftrightarrow> True"

lemma json_opt_str_back [simp]: "json_str (json_opt_str x) = x"
  by (cases x) simp_all

lemma chat_chunk_fields:
  "first_choice (chat_chunk i m (c # cs)) = Some c"
  "json_get (chat_chunk i m choices) ''usage'' = None"
  by (simp_all add: chat_chunk_def first_choice_def json_eval)

lemma chat_choice_fields:
  "json_get (chat_choice d r) ''delta'' = Some d"
  "json_get (chat_choice d r) ''finish_reason'' = Some r"
  by (simp_all add: chat_choice_def json_eval)

lemma chunk_round_trip:
  assumes "delta_in_range d"
  shows "delta_from_chat_chunk (chunk_of_delta resp_id model d) = chat_view d"
proof -
  have no_usage: "usage_delta (chat_chunk resp_id model choices) = []" for choices
    by (simp add: usage_delta_def usage_from_openai_def chat_chunk_fields)
  show ?thesis
  proof (cases d)
    case (D_Usage u)
    then show ?thesis
      by (simp add: delta_from_chat_chunk_def first_choice_def json_eval usage_delta_def usage_from_openai_def)
  next
    case (D_Tool_Call index call_id name arguments)
    with assms show ?thesis
      by (simp add: delta_from_chat_chunk_def chat_chunk_fields chat_choice_fields no_usage chat_content_deltas_def
          json_eval chat_call_delta_def json_u64_nat)
  qed (simp_all add: delta_from_chat_chunk_def chat_chunk_fields chat_choice_fields no_usage chat_content_deltas_def json_eval)
qed

text \<open>What is left of a delta after one trip through the events of the messages API.\<close>

fun messages_view :: "ir_delta \<Rightarrow> ir_delta list" where
  "messages_view (D_Tool_Call index _ _ arguments) = [D_Tool_Call index None None arguments]"
| "messages_view (D_Usage usage) =
     [D_Usage (messages_usage None (J_Object (bm_insert ''output_tokens'' (json_nat (unwrap_or 0 (us_output_tokens usage)))
        (merge_extras [] (us_extras usage)))) [''output_tokens''])]"
| "messages_view (D_Finish reason) = [D_Finish (Some (finish_reason_from_messages (finish_reason_to_messages reason)))]"
| "messages_view d = [d]"

lemma event_round_trip:
  assumes "delta_in_range d"
  shows "delta_from_messages_event render (snd (event_of_delta d)) = messages_view d"
  using assms
  by (cases d) (simp_all add: delta_from_messages_event_def block_delta_event_def json_eval block_delta_delta_def json_u64_nat)

end
