(* ===== verification/Sse_Accumulate.thy ===== *)
theory Sse_Accumulate
  imports Sse_Delta Provider_Core
begin

text \<open>
  The accumulator of a streamed response (crates/convert/src/sse/accumulate.rs): it observes
  the events of one dialect, remembers the identity of the response and what it needs to
  complete the deltas (tool calls by output index, tool blocks without arguments), and folds
  the deltas into a response.
\<close>

section \<open>State\<close>

record output_item =
  oi_type :: "string option"
  oi_id :: "string option"
  oi_call_id :: "string option"
  oi_name :: "string option"
  oi_status :: "string option"
  oi_text :: string
  oi_reasoning_summary :: "(nat, string) bmap"
  oi_reasoning_content :: "(nat, string) bmap"
  oi_arguments :: string

definition default_item :: output_item where
  "default_item =
     \<lparr>oi_type = None, oi_id = None, oi_call_id = None, oi_name = None, oi_status = None, oi_text = [],
      oi_reasoning_summary = [], oi_reasoning_content = [], oi_arguments = []\<rparr>"

record accumulator =
  ac_endpoint :: endpoint
  ac_response :: ir_response
  ac_response_id :: "string option"
  ac_model :: "string option"
  ac_output_items :: "(nat, output_item) bmap"
  ac_tool_arguments_seen :: "(nat, bool) bmap"

definition new_accumulator :: "endpoint \<Rightarrow> accumulator" where
  "new_accumulator e =
     \<lparr>ac_endpoint = e, ac_response = empty_response, ac_response_id = None, ac_model = None, ac_output_items = [],
      ac_tool_arguments_seen = []\<rparr>"

section \<open>Observing\<close>

text \<open>The identity of the response is the first one seen.\<close>

definition observe_identity :: "json \<Rightarrow> accumulator \<Rightarrow> accumulator" where
  "observe_identity v a =
     a\<lparr>ac_response_id := or_else (ac_response_id a) (get_str v ''id''), ac_model := or_else (ac_model a) (get_str v ''model'')\<rparr>"

definition observe_chat_chunk :: "json \<Rightarrow> accumulator \<Rightarrow> accumulator" where
  "observe_chat_chunk = observe_identity"

definition observe_messages_event :: "json \<Rightarrow> accumulator \<Rightarrow> accumulator" where
  "observe_messages_event v a =
     (if get_str v ''type'' \<noteq> Some ''message_start'' then a
      else (case json_get v ''message'' of None \<Rightarrow> a | Some message \<Rightarrow> observe_identity message a))"

definition observe_responses_response :: "json \<Rightarrow> accumulator \<Rightarrow> accumulator" where
  "observe_responses_response v a =
     (case json_get v ''response'' of
        None \<Rightarrow> a
      | Some response \<Rightarrow>
          (let a' = observe_identity response a
           in case usage_from_openai response of
                None \<Rightarrow> a'
              | Some usage \<Rightarrow> a'\<lparr>ac_response := (ac_response a')\<lparr>ir_usage := merge_usage (ir_usage (ac_response a')) usage\<rparr>\<rparr>))"

definition item_of :: "(nat, output_item) bmap \<Rightarrow> nat \<Rightarrow> output_item" where
  "item_of items index = unwrap_or default_item (bm_get items index)"

definition observe_item :: "json \<Rightarrow> json \<Rightarrow> output_item \<Rightarrow> output_item" where
  "observe_item v item entry =
     (let entry' = entry\<lparr>oi_type := or_else (oi_type entry) (get_str item ''type''),
                         oi_status := or_else (oi_status entry) (get_str item ''status''),
                         oi_id := or_else (oi_id entry) (Option.bind (or_else (json_get item ''id'') (json_get v ''item_id'')) json_str),
                         oi_call_id := or_else (oi_call_id entry) (get_str item ''call_id''),
                         oi_name := or_else (oi_name entry) (get_str item ''name'')\<rparr>
      in case Option.bind (or_else (json_get item ''arguments'') (json_get item ''input'')) json_str of
           None \<Rightarrow> entry'
         | Some arguments \<Rightarrow> entry'\<lparr>oi_arguments := arguments\<rparr>)"

definition observe_responses_output_item :: "json \<Rightarrow> accumulator \<Rightarrow> accumulator" where
  "observe_responses_output_item v a =
     (if get_str v ''type'' \<notin> {Some ''response.output_item.added'', Some ''response.output_item.done''} then a
      else
        (case (get_u64 v ''output_index'', json_get v ''item'') of
           (Some index, Some item) \<Rightarrow>
             a\<lparr>ac_output_items := bm_insert index (observe_item v item (item_of (ac_output_items a) index)) (ac_output_items a)\<rparr>
         | _ \<Rightarrow> a))"

definition observe_part :: "json \<Rightarrow> output_item \<Rightarrow> output_item" where
  "observe_part v entry =
     (let kind = get_str v ''type'' in
      if kind = Some ''response.output_text.done'' then
        (case get_str v ''text'' of Some text \<Rightarrow> entry\<lparr>oi_text := text\<rparr> | None \<Rightarrow> entry)
      else if kind = Some ''response.reasoning_summary_text.done'' then
        (case (get_u64 v ''summary_index'', get_str v ''text'') of
           (Some i, Some text) \<Rightarrow> entry\<lparr>oi_reasoning_summary := bm_insert i text (oi_reasoning_summary entry)\<rparr>
         | _ \<Rightarrow> entry)
      else if kind = Some ''response.function_call_arguments.done'' \<or> kind = Some ''response.custom_tool_call_input.done'' then
        (case Option.bind (or_else (json_get v ''arguments'') (json_get v ''input'')) json_str of
           Some arguments \<Rightarrow> entry\<lparr>oi_arguments := arguments\<rparr> | None \<Rightarrow> entry)
      else entry)"

definition observe_responses_part :: "json \<Rightarrow> accumulator \<Rightarrow> accumulator" where
  "observe_responses_part v a =
     (case get_u64 v ''output_index'' of
        None \<Rightarrow> a
      | Some index \<Rightarrow>
          (case bm_get (ac_output_items a) index of
             None \<Rightarrow> a
           | Some entry \<Rightarrow> a\<lparr>ac_output_items := bm_insert index (observe_part v entry) (ac_output_items a)\<rparr>))"

definition append_at :: "nat \<Rightarrow> string \<Rightarrow> (nat, string) bmap \<Rightarrow> (nat, string) bmap" where
  "append_at i text m = bm_insert i (unwrap_or [] (bm_get m i) @ text) m"

fun observe_delta :: "json \<Rightarrow> ir_delta \<Rightarrow> output_item \<Rightarrow> output_item" where
  "observe_delta v (D_Text text) entry = entry\<lparr>oi_text := oi_text entry @ text\<rparr>"
| "observe_delta v (D_Reasoning text) entry =
     (if get_str v ''type'' = Some ''response.reasoning_summary_text.delta'' then
        (case get_u64 v ''summary_index'' of
           Some i \<Rightarrow> entry\<lparr>oi_reasoning_summary := append_at i text (oi_reasoning_summary entry)\<rparr> | None \<Rightarrow> entry)
      else if get_str v ''type'' = Some ''response.reasoning_text.delta'' then
        (case get_u64 v ''content_index'' of
           Some i \<Rightarrow> entry\<lparr>oi_reasoning_content := append_at i text (oi_reasoning_content entry)\<rparr> | None \<Rightarrow> entry)
      else entry)"
| "observe_delta v (D_Tool_Call _ _ _ arguments_delta) entry = entry\<lparr>oi_arguments := oi_arguments entry @ arguments_delta\<rparr>"
| "observe_delta v _ entry = entry"

definition observe_responses_deltas :: "json \<Rightarrow> ir_delta list \<Rightarrow> accumulator \<Rightarrow> accumulator" where
  "observe_responses_deltas v deltas a =
     (case get_u64 v ''output_index'' of
        None \<Rightarrow> a
      | Some index \<Rightarrow>
          a\<lparr>ac_output_items :=
             bm_insert index (fold (observe_delta v) deltas (item_of (ac_output_items a) index)) (ac_output_items a)\<rparr>)"

definition is_tool_item :: "output_item \<Rightarrow> bool" where
  "is_tool_item item \<longleftrightarrow> oi_type item \<in> {Some ''function_call'', Some ''custom_tool_call''}"

definition has_tool_call :: "accumulator \<Rightarrow> bool" where
  "has_tool_call a = list_ex is_tool_item (bm_values (ac_output_items a))"

definition responses_completed_finish_reason :: "accumulator \<Rightarrow> json option \<Rightarrow> string" where
  "responses_completed_finish_reason a v =
     (if (case Option.bind v (\<lambda>event. json_get event ''response'') of None \<Rightarrow> False | Some r \<Rightarrow> response_has_tool_call_output r)
         \<or> has_tool_call a
      then ''tool_calls'' else ''stop'')"

section \<open>Deltas\<close>

fun set_finish :: "string option \<Rightarrow> ir_delta \<Rightarrow> ir_delta" where
  "set_finish reason (D_Finish _) = D_Finish reason"
| "set_finish reason d = d"

fun complete_tool_call :: "(nat, output_item) bmap \<Rightarrow> ir_delta \<Rightarrow> ir_delta" where
  "complete_tool_call items (D_Tool_Call index call_id name arguments) =
     (case bm_get items index of
        None \<Rightarrow> D_Tool_Call index call_id name arguments
      | Some item \<Rightarrow>
          D_Tool_Call index
            (if oi_call_id item \<noteq> None then oi_call_id item else or_else call_id (oi_id item))
            (or_else name (oi_name item)) arguments)"
| "complete_tool_call items d = d"

definition responses_deltas :: "json \<Rightarrow> accumulator \<Rightarrow> ir_delta list \<times> accumulator" where
  "responses_deltas v a0 =
     (let a1 = observe_responses_part v (observe_responses_output_item v (observe_responses_response v a0));
          ds0 = delta_from_responses_event v;
          a2 = observe_responses_deltas v ds0 a1;
          ds1 = (if get_str v ''type'' = Some ''response.completed''
                 then map (set_finish (Some (responses_completed_finish_reason a2 (Some v)))) ds0 else ds0)
      in (map (complete_tool_call (ac_output_items a2)) ds1, a2))"

definition arguments_seen :: "ir_delta list \<Rightarrow> bool" where
  "arguments_seen ds = list_ex (\<lambda>d. case d of D_Tool_Call _ _ _ a \<Rightarrow> a \<noteq> [] | _ \<Rightarrow> False) ds"

definition messages_deltas :: "(json \<Rightarrow> string) \<Rightarrow> json \<Rightarrow> accumulator \<Rightarrow> ir_delta list \<times> accumulator" where
  "messages_deltas render v a =
     (let ds = delta_from_messages_event render v;
          index = unwrap_or 0 (get_u64 v ''index'');
          kind = get_str v ''type''
      in if kind = Some ''content_block_start'' \<and>
            Option.bind (json_get v ''content_block'') (\<lambda>b. get_str b ''type'') = Some ''tool_use''
         then (ds, a\<lparr>ac_tool_arguments_seen := bm_insert index (arguments_seen ds) (ac_tool_arguments_seen a)\<rparr>)
         else if kind = Some ''content_block_delta''
         then (ds, if arguments_seen ds
                   then a\<lparr>ac_tool_arguments_seen := bm_insert index True (ac_tool_arguments_seen a)\<rparr> else a)
         else if kind = Some ''content_block_stop''
         then (if bm_get (ac_tool_arguments_seen a) index = Some False
               then ds @ [D_Tool_Call index None None ''{}''] else ds,
               a\<lparr>ac_tool_arguments_seen := bm_remove index (ac_tool_arguments_seen a)\<rparr>)
         else (ds, a))"

definition push_value :: "(json \<Rightarrow> string) \<Rightarrow> json \<Rightarrow> accumulator \<Rightarrow> ir_delta list \<times> accumulator" where
  "push_value render v a =
     (let (ds, a') = (case ac_endpoint a of
                        Chat_Completions \<Rightarrow> (delta_from_chat_chunk v, observe_chat_chunk v a)
                      | Responses \<Rightarrow> responses_deltas v a
                      | Messages \<Rightarrow> messages_deltas render v (observe_messages_event v a))
      in (ds, a'\<lparr>ac_response := push_deltas ds (ac_response a')\<rparr>))"

definition acc_finish :: "accumulator \<Rightarrow> ir_response" where
  "acc_finish a =
     (let r = ac_response a;
          r1 = r\<lparr>ir_id := or_else (ir_id r) (ac_response_id a), ir_model := or_else (ir_model r) (ac_model a)\<rparr>
      in if ac_endpoint a = Responses \<and> ir_finish_reason r1 = None \<and> has_tool_call a
         then r1\<lparr>ir_finish_reason := Some ''tool_calls''\<rparr> else r1)"

text \<open>
  The loops of \<open>accumulate\<close> and \<open>accumulate_bytes\<close> over the events of a body: they stop at
  the sentinel and fail on an event without a JSON payload or an error of the stream.
\<close>

datatype convert_error =
    Missing_Field string
  | Bad_Shape string string
  | Unsupported_Feature string
  | Json_Error string
  | Sse_Error string

fun accumulate_events ::
  "(json \<Rightarrow> string) \<Rightarrow> (string + sse_event) list \<Rightarrow> accumulator \<Rightarrow> convert_error + ir_response" where
  "accumulate_events render [] a = Inr (acc_finish a)"
| "accumulate_events render (Inl message # events) a = Inl (Sse_Error message)"
| "accumulate_events render (Inr event # events) a =
     (if is_done event then Inr (acc_finish a)
      else
        (case se_json event of
           None \<Rightarrow> Inl (Sse_Error ''expected JSON SSE payload'')
         | Some v \<Rightarrow> accumulate_events render events (snd (push_value render v a))))"

definition sse_accumulate :: "(json \<Rightarrow> string) \<Rightarrow> endpoint \<Rightarrow> (string + sse_event) list \<Rightarrow> convert_error + ir_response" where
  "sse_accumulate render e events = accumulate_events render events (new_accumulator e)"

section \<open>What the accumulator keeps\<close>

lemma responses_deltas_frame:
  "ac_endpoint (snd (responses_deltas v a)) = ac_endpoint a"
  "ir_content (ac_response (snd (responses_deltas v a))) = ir_content (ac_response a)"
  "ir_tool_calls (ac_response (snd (responses_deltas v a))) = ir_tool_calls (ac_response a)"
  by (simp_all add: responses_deltas_def Let_def observe_responses_deltas_def observe_responses_part_def
      observe_responses_output_item_def observe_responses_response_def observe_identity_def split: option.split)

lemma messages_deltas_frame:
  "ac_endpoint (snd (messages_deltas render v a)) = ac_endpoint a"
  "ac_response (snd (messages_deltas render v a)) = ac_response a"
  by (simp_all add: messages_deltas_def Let_def)

lemma observe_frame:
  "ac_endpoint (observe_chat_chunk v a) = ac_endpoint a" "ac_response (observe_chat_chunk v a) = ac_response a"
  "ac_endpoint (observe_messages_event v a) = ac_endpoint a" "ac_response (observe_messages_event v a) = ac_response a"
  by (simp_all add: observe_chat_chunk_def observe_messages_event_def observe_identity_def split: option.split)

lemma push_value_response:
  assumes "push_value render v a = (ds, a')"
  shows "ac_endpoint a' = ac_endpoint a"
    and "ir_content (ac_response a') = ir_content (push_deltas ds (ac_response a))"
    and "ir_tool_calls (ac_response a') = ir_tool_calls (push_deltas ds (ac_response a))"
proof -
  have push: "ir_content (push_deltas ds r) = ir_content (push_deltas ds r')"
    "ir_tool_calls (push_deltas ds r) = ir_tool_calls (push_deltas ds r')"
    if "ir_content r = ir_content r'" "ir_tool_calls r = ir_tool_calls r'" for ds r r'
    using that
  proof (induction ds arbitrary: r r')
    case (Cons d ds)
    { case 1 with Cons.IH(1) [of "push_delta d r" "push_delta d r'"] show ?case by (cases d) (simp_all add: push_deltas_def) }
    { case 2 with Cons.IH(2) [of "push_delta d r" "push_delta d r'"] show ?case by (cases d) (simp_all add: push_deltas_def) }
  qed (simp_all add: push_deltas_def)
  obtain x a1 where step: "(case ac_endpoint a of
       Chat_Completions \<Rightarrow> (delta_from_chat_chunk v, observe_chat_chunk v a)
     | Responses \<Rightarrow> responses_deltas v a
     | Messages \<Rightarrow> messages_deltas render v (observe_messages_event v a)) = (x, a1)" by fastforce
  have frame: "ac_endpoint a1 = ac_endpoint a" "ir_content (ac_response a1) = ir_content (ac_response a)"
    "ir_tool_calls (ac_response a1) = ir_tool_calls (ac_response a)"
    using step responses_deltas_frame [of v a] messages_deltas_frame [of render v "observe_messages_event v a"]
    by (auto simp: observe_frame split: endpoint.splits)
  from assms step have "ds = x" "a' = a1\<lparr>ac_response := push_deltas ds (ac_response a1)\<rparr>"
    by (auto simp: push_value_def Let_def)
  with frame push [OF frame(2,3)] show "ac_endpoint a' = ac_endpoint a"
    "ir_content (ac_response a') = ir_content (push_deltas ds (ac_response a))"
    "ir_tool_calls (ac_response a') = ir_tool_calls (push_deltas ds (ac_response a))" by simp_all
qed

end
