(* ===== verification/Responses_Emit.thy ===== *)
theory Responses_Emit
  imports Sse_Delta Ip_Addr
begin

text \<open>
  The emitter of the Responses event lifecycle (crates/convert/src/sse/responses_emit.rs): a
  state machine that turns deltas into output items, one open at a time, each closed before
  the next is added. The counters are machine integers that a stream cannot exhaust, taken
  as naturals; the creation time is an argument.

  The contract is a client of the protocol that reads the JSON of the events alone and gives
  up on the first violation: every emitted stream is accepted by it.
\<close>

section \<open>State\<close>

datatype open_item =
    Open_Message (oi_index: nat) (oi_item_id: string) string bool
  | Open_Function_Call (oi_index: nat) nat (oi_item_id: string) string string string
  | Open_Reasoning (oi_index: nat) (oi_item_id: string) string bool

record emitter =
  em_id :: string
  em_model :: string
  em_created_at :: nat
  em_sequence :: nat
  em_next_output_index :: nat
  em_next_item_counter :: nat
  em_current :: "open_item option"
  em_closed :: "json list"
  em_created_emitted :: bool
  em_in_progress_emitted :: bool
  em_finished :: bool
  em_usage :: "ir_usage option"
  em_finish_reason :: "string option"

definition new_emitter :: "nat \<Rightarrow> string \<Rightarrow> string \<Rightarrow> emitter" where
  "new_emitter created_at i model =
     \<lparr>em_id = i, em_model = model, em_created_at = created_at, em_sequence = 0, em_next_output_index = 0,
      em_next_item_counter = 0, em_current = None, em_closed = [], em_created_emitted = False,
      em_in_progress_emitted = False, em_finished = False, em_usage = None, em_finish_reason = None\<rparr>"

definition update_id :: "string \<Rightarrow> emitter \<Rightarrow> emitter" where
  "update_id i em = em\<lparr>em_id := i\<rparr>"

definition update_model :: "string \<Rightarrow> emitter \<Rightarrow> emitter" where
  "update_model m em = em\<lparr>em_model := m\<rparr>"

section \<open>Events\<close>

text \<open>An event with the next sequence number: its name is repeated in the payload.\<close>

definition emit_event :: "string \<Rightarrow> (string \<times> json) list \<Rightarrow> emitter \<Rightarrow> sse_event \<times> emitter" where
  "emit_event kind payload em =
     (sse_json (Some kind)
        (json_obj ([(''type'', J_String kind), (''sequence_number'', json_nat (em_sequence em))] @ payload)),
      em\<lparr>em_sequence := em_sequence em + 1\<rparr>)"

definition synth_item_id :: "string \<Rightarrow> emitter \<Rightarrow> string \<times> emitter" where
  "synth_item_id prefix em =
     (let n = em_next_item_counter em + 1
      in (prefix @ ''_'' @ show_radix 10 n, em\<lparr>em_next_item_counter := n\<rparr>))"

definition response_snapshot :: "string \<Rightarrow> bool \<Rightarrow> emitter \<Rightarrow> json" where
  "response_snapshot status completed em =
     J_Object
       ((if completed then
           insert_some ''incomplete_details''
             (map_option (\<lambda>reason. json_obj [(''reason'', J_String reason)]) (snd (responses_completion_status (em_finish_reason em))))
           \<circ> bm_insert ''completed_at'' (json_nat (em_created_at em))
         else id)
       (bm_of_list
         [(''id'', J_String (em_id em)), (''object'', J_String ''response''), (''created_at'', json_nat (em_created_at em)),
          (''status'', J_String status), (''model'', J_String (em_model em)),
          (''output'', J_Array (if completed then em_closed em else [])),
          (''usage'', case em_usage em of None \<Rightarrow> J_Null | Some u \<Rightarrow> usage_to_io u)]))"

definition ensure_created :: "emitter \<Rightarrow> sse_event list \<times> emitter" where
  "ensure_created em =
     (if em_created_emitted em then ([], em)
      else let (e, em') = emit_event ''response.created'' [(''response'', response_snapshot ''in_progress'' False em)] em
           in ([e], em'\<lparr>em_created_emitted := True\<rparr>))"

definition ensure_in_progress :: "emitter \<Rightarrow> sse_event list \<times> emitter" where
  "ensure_in_progress em =
     (if em_in_progress_emitted em then ([], em)
      else let (e, em') = emit_event ''response.in_progress'' [(''response'', response_snapshot ''in_progress'' False em)] em
           in ([e], em'\<lparr>em_in_progress_emitted := True\<rparr>))"

definition ensure_started :: "emitter \<Rightarrow> sse_event list \<times> emitter" where
  "ensure_started em =
     (let (es, em1) = ensure_created em; (fs, em2) = ensure_in_progress em1 in (es @ fs, em2))"

section \<open>Closing an item\<close>

definition text_part :: "string \<Rightarrow> json" where
  "text_part text = json_obj [(''type'', J_String ''output_text''), (''text'', J_String text), (''annotations'', J_Array [])]"

definition close_message :: "nat \<Rightarrow> string \<Rightarrow> string \<Rightarrow> bool \<Rightarrow> emitter \<Rightarrow> sse_event list \<times> emitter" where
  "close_message index item_id text part_open em =
     (let place = [(''item_id'', J_String item_id), (''output_index'', json_nat index), (''content_index'', json_nat 0)];
          (es, em1) =
            (if part_open then
               let (e1, em1) = emit_event ''response.output_text.done'' (place @ [(''text'', J_String text)]) em;
                   (e2, em2) = emit_event ''response.content_part.done'' (place @ [(''part'', text_part text)]) em1
               in ([e1, e2], em2)
             else ([], em));
          item = json_obj [(''id'', J_String item_id), (''type'', J_String ''message''), (''status'', J_String ''completed''),
                           (''role'', J_String ''assistant''), (''content'', J_Array [text_part text])];
          (e, em2) = emit_event ''response.output_item.done'' [(''output_index'', json_nat index), (''item'', item)] em1
      in (es @ [e], em2\<lparr>em_closed := em_closed em2 @ [item]\<rparr>))"

definition close_function_call ::
  "nat \<Rightarrow> string \<Rightarrow> string \<Rightarrow> string \<Rightarrow> string \<Rightarrow> emitter \<Rightarrow> sse_event list \<times> emitter" where
  "close_function_call index item_id call_id name arguments0 em =
     (let arguments = (if str_trim arguments0 = [] then ''{}'' else arguments0);
          (e1, em1) = emit_event ''response.function_call_arguments.done''
            [(''item_id'', J_String item_id), (''output_index'', json_nat index), (''arguments'', J_String arguments)] em;
          item = json_obj [(''id'', J_String item_id), (''type'', J_String ''function_call''), (''status'', J_String ''completed''),
                           (''call_id'', J_String call_id), (''name'', J_String name), (''arguments'', J_String arguments)];
          (e2, em2) = emit_event ''response.output_item.done'' [(''output_index'', json_nat index), (''item'', item)] em1
      in ([e1, e2], em2\<lparr>em_closed := em_closed em2 @ [item]\<rparr>))"

definition close_reasoning :: "nat \<Rightarrow> string \<Rightarrow> string \<Rightarrow> bool \<Rightarrow> emitter \<Rightarrow> sse_event list \<times> emitter" where
  "close_reasoning index item_id text part_open em =
     (let (es, em1) =
            (if part_open then
               let (e, em1) = emit_event ''response.reasoning_text.done''
                     [(''item_id'', J_String item_id), (''output_index'', json_nat index), (''content_index'', json_nat 0),
                      (''text'', J_String text)] em
               in ([e], em1)
             else ([], em));
          item = json_obj [(''id'', J_String item_id), (''type'', J_String ''reasoning''), (''status'', J_String ''completed''),
                           (''content'', J_Array [json_obj [(''type'', J_String ''reasoning_text''), (''text'', J_String text)]]),
                           (''summary'', J_Array [])];
          (e, em2) = emit_event ''response.output_item.done'' [(''output_index'', json_nat index), (''item'', item)] em1
      in (es @ [e], em2\<lparr>em_closed := em_closed em2 @ [item]\<rparr>))"

fun close_item :: "open_item \<Rightarrow> emitter \<Rightarrow> sse_event list \<times> emitter" where
  "close_item (Open_Message index item_id text part_open) em = close_message index item_id text part_open em"
| "close_item (Open_Function_Call index chat_index item_id call_id name arguments) em =
     close_function_call index item_id call_id name arguments em"
| "close_item (Open_Reasoning index item_id text part_open) em = close_reasoning index item_id text part_open em"

definition close_current :: "emitter \<Rightarrow> sse_event list \<times> emitter" where
  "close_current em =
     (case em_current em of
        None \<Rightarrow> ([], em)
      | Some item \<Rightarrow> close_item item (em\<lparr>em_current := None\<rparr>))"

section \<open>Deltas\<close>

text \<open>The next output item of a kind: closes the open one, allots the index and the identifier.\<close>

definition begin_item :: "string \<Rightarrow> emitter \<Rightarrow> nat \<times> string \<times> sse_event list \<times> emitter" where
  "begin_item prefix em =
     (let (es, em1) = close_current em;
          index = em_next_output_index em1;
          (item_id, em2) = synth_item_id prefix (em1\<lparr>em_next_output_index := index + 1\<rparr>)
      in (index, item_id, es, em2))"

definition open_message :: "emitter \<Rightarrow> sse_event list \<times> emitter" where
  "open_message em =
     (let (index, item_id, es, em1) = begin_item ''msg'' em;
          (e1, em2) = emit_event ''response.output_item.added''
            [(''output_index'', json_nat index),
             (''item'', json_obj [(''id'', J_String item_id), (''type'', J_String ''message''), (''status'', J_String ''in_progress''),
                                  (''role'', J_String ''assistant''), (''content'', J_Array [])])] em1;
          (e2, em3) = emit_event ''response.content_part.added''
            [(''item_id'', J_String item_id), (''output_index'', json_nat index), (''content_index'', json_nat 0),
             (''part'', text_part [])] em2
      in (es @ [e1, e2], em3\<lparr>em_current := Some (Open_Message index item_id [] True)\<rparr>))"

definition handle_text :: "string \<Rightarrow> emitter \<Rightarrow> sse_event list \<times> emitter" where
  "handle_text text em =
     (if text = [] then ([], em)
      else
        let (es, em1) = (case em_current em of Some (Open_Message _ _ _ _) \<Rightarrow> ([], em) | _ \<Rightarrow> open_message em)
        in case em_current em1 of
             Some (Open_Message index item_id buf part_open) \<Rightarrow>
               (let (e, em2) = emit_event ''response.output_text.delta''
                      [(''item_id'', J_String item_id), (''output_index'', json_nat index), (''content_index'', json_nat 0),
                       (''delta'', J_String text)]
                      (em1\<lparr>em_current := Some (Open_Message index item_id (buf @ text) part_open)\<rparr>)
                in (es @ [e], em2))
           | _ \<Rightarrow> (es, em1))"

definition open_reasoning :: "emitter \<Rightarrow> sse_event list \<times> emitter" where
  "open_reasoning em =
     (let (index, item_id, es, em1) = begin_item ''rs'' em;
          (e, em2) = emit_event ''response.output_item.added''
            [(''output_index'', json_nat index),
             (''item'', json_obj [(''id'', J_String item_id), (''type'', J_String ''reasoning''), (''status'', J_String ''in_progress''),
                                  (''content'', J_Array []), (''summary'', J_Array [])])] em1
      in (es @ [e], em2\<lparr>em_current := Some (Open_Reasoning index item_id [] True)\<rparr>))"

definition handle_reasoning :: "string \<Rightarrow> emitter \<Rightarrow> sse_event list \<times> emitter" where
  "handle_reasoning text em =
     (if text = [] then ([], em)
      else
        let (es, em1) = (case em_current em of Some (Open_Reasoning _ _ _ _) \<Rightarrow> ([], em) | _ \<Rightarrow> open_reasoning em)
        in case em_current em1 of
             Some (Open_Reasoning index item_id buf part_open) \<Rightarrow>
               (let (e, em2) = emit_event ''response.reasoning_text.delta''
                      [(''item_id'', J_String item_id), (''output_index'', json_nat index), (''content_index'', json_nat 0),
                       (''delta'', J_String text)]
                      (em1\<lparr>em_current := Some (Open_Reasoning index item_id (buf @ text) part_open)\<rparr>)
                in (es @ [e], em2))
           | _ \<Rightarrow> (es, em1))"

definition open_function_call :: "nat \<Rightarrow> string option \<Rightarrow> string option \<Rightarrow> emitter \<Rightarrow> sse_event list \<times> emitter" where
  "open_function_call chat_index id_hint name_hint em =
     (let (index, item_id, es, em1) = begin_item ''fc'' em;
          call_id = unwrap_or item_id id_hint;
          name = unwrap_or [] name_hint;
          (e, em2) = emit_event ''response.output_item.added''
            [(''output_index'', json_nat index),
             (''item'', json_obj [(''id'', J_String item_id), (''type'', J_String ''function_call''), (''status'', J_String ''in_progress''),
                                  (''call_id'', J_String call_id), (''name'', J_String name), (''arguments'', J_String [])])] em1
      in (es @ [e], em2\<lparr>em_current := Some (Open_Function_Call index chat_index item_id call_id name [])\<rparr>))"

definition same_call :: "nat \<Rightarrow> emitter \<Rightarrow> bool" where
  "same_call chat_index em =
     (case em_current em of Some (Open_Function_Call _ ci _ _ _ _) \<Rightarrow> ci = chat_index | _ \<Rightarrow> False)"

definition handle_tool_call ::
  "nat \<Rightarrow> string option \<Rightarrow> string option \<Rightarrow> string \<Rightarrow> emitter \<Rightarrow> sse_event list \<times> emitter" where
  "handle_tool_call chat_index id_hint name_hint args_delta em =
     (let (es, em1) = (if same_call chat_index em then ([], em) else open_function_call chat_index id_hint name_hint em)
      in case em_current em1 of
           Some (Open_Function_Call index ci item_id call_id name arguments) \<Rightarrow>
             (let name' = (case name_hint of Some n \<Rightarrow> if name = [] then n else name | None \<Rightarrow> name);
                  call_id' = (case id_hint of
                                Some i \<Rightarrow> if call_id = item_id \<or> call_id = [] then i else call_id | None \<Rightarrow> call_id);
                  em2 = em1\<lparr>em_current := Some (Open_Function_Call index ci item_id call_id' name' (arguments @ args_delta))\<rparr>
              in if args_delta = [] then (es, em2)
                 else
                   let (e, em3) = emit_event ''response.function_call_arguments.delta''
                         [(''item_id'', J_String item_id), (''output_index'', json_nat index), (''delta'', J_String args_delta)] em2
                   in (es @ [e], em3))
         | _ \<Rightarrow> (es, em1))"

fun handle_delta :: "ir_delta \<Rightarrow> emitter \<Rightarrow> sse_event list \<times> emitter" where
  "handle_delta (D_Text text) em = handle_text text em"
| "handle_delta (D_Reasoning text) em = handle_reasoning text em"
| "handle_delta (D_Tool_Call index call_id name arguments_delta) em = handle_tool_call index call_id name arguments_delta em"
| "handle_delta (D_Usage usage) em = ([], em\<lparr>em_usage := merge_usage (em_usage em) usage\<rparr>)"
| "handle_delta (D_Finish reason) em = ([], em\<lparr>em_finish_reason := reason\<rparr>)"

fun handle_deltas :: "ir_delta list \<Rightarrow> emitter \<Rightarrow> sse_event list \<times> emitter" where
  "handle_deltas [] em = ([], em)"
| "handle_deltas (d # ds) em =
     (let (es, em1) = handle_delta d em; (fs, em2) = handle_deltas ds em1 in (es @ fs, em2))"

definition emitter_emit :: "ir_delta list \<Rightarrow> emitter \<Rightarrow> sse_event list \<times> emitter" where
  "emitter_emit deltas em =
     (if deltas = [] then ([], em)
      else let (es, em1) = ensure_started em; (fs, em2) = handle_deltas deltas em1 in (es @ fs, em2))"

definition terminal_event :: "string \<Rightarrow> string" where
  "terminal_event status =
     (if status = ''incomplete'' then ''response.incomplete''
      else if status = ''failed'' then ''response.failed''
      else if status = ''cancelled'' then ''response.cancelled''
      else ''response.completed'')"

definition emitter_finish :: "emitter \<Rightarrow> sse_event list \<times> emitter" where
  "emitter_finish em =
     (if em_finished em then ([], em)
      else
        let (es, em1) = ensure_started (em\<lparr>em_finished := True\<rparr>);
            (fs, em2) = close_current em1;
            status = fst (responses_completion_status (em_finish_reason em2));
            (e, em3) = emit_event (terminal_event status)
              [(''response'', response_snapshot status True em2)] em2
        in (es @ fs @ [e], em3))"

section \<open>A client of the protocol\<close>

text \<open>
  What a client knows after reading a prefix of the stream: the next sequence number and
  output index, the open item with its kind, identifier, text so far and whether its content
  part is open, the completed items, and the end of the stream.
\<close>

record client_item =
  ci_index :: nat
  ci_kind :: string
  ci_id :: string
  ci_text :: string
  ci_part_open :: bool

record client =
  cl_sequence :: nat
  cl_created :: bool
  cl_in_progress :: bool
  cl_next_index :: nat
  cl_open :: "client_item option"
  cl_items :: "json list"
  cl_terminal :: "string option"

definition new_client :: client where
  "new_client =
     \<lparr>cl_sequence = 0, cl_created = False, cl_in_progress = False, cl_next_index = 0, cl_open = None, cl_items = [],
      cl_terminal = None\<rparr>"

definition guarded :: "bool \<Rightarrow> 'a \<Rightarrow> 'a option" where
  "guarded b x = (if b then Some x else None)"

text \<open>An event about the open item names its index and identifier.\<close>

definition about :: "json \<Rightarrow> client_item \<Rightarrow> bool" where
  "about v i \<longleftrightarrow> json_get v ''output_index'' = Some (json_nat (ci_index i)) \<and> get_str v ''item_id'' = Some (ci_id i)"

definition with_open :: "client \<Rightarrow> (client_item \<Rightarrow> client option) \<Rightarrow> client option" where
  "with_open c f = Option.bind (cl_open c) f"

definition client_added :: "json \<Rightarrow> client \<Rightarrow> client option" where
  "client_added v c =
     Option.bind (json_get v ''item'') (\<lambda>item.
     Option.bind (get_str item ''id'') (\<lambda>i.
     Option.bind (get_str item ''type'') (\<lambda>kind.
       guarded (cl_open c = None \<and> json_get v ''output_index'' = Some (json_nat (cl_next_index c)) \<and>
                get_str item ''status'' = Some ''in_progress'')
         (c\<lparr>cl_next_index := cl_next_index c + 1,
            cl_open := Some \<lparr>ci_index = cl_next_index c, ci_kind = kind, ci_id = i, ci_text = [], ci_part_open = False\<rparr>\<rparr>))))"

definition client_part_added :: "json \<Rightarrow> client \<Rightarrow> client option" where
  "client_part_added v c = with_open c (\<lambda>i.
     guarded (about v i \<and> ci_kind i = ''message'' \<and> \<not> ci_part_open i) (c\<lparr>cl_open := Some (i\<lparr>ci_part_open := True\<rparr>)\<rparr>))"

definition client_delta :: "string \<Rightarrow> json \<Rightarrow> client \<Rightarrow> client option" where
  "client_delta kind v c = with_open c (\<lambda>i. Option.bind (get_str v ''delta'') (\<lambda>t.
     guarded (about v i \<and> ci_kind i = kind \<and> (kind = ''message'' \<longrightarrow> ci_part_open i) \<and> t \<noteq> [])
       (c\<lparr>cl_open := Some (i\<lparr>ci_text := ci_text i @ t\<rparr>)\<rparr>)))"

text \<open>The completed text must be the text of the deltas; empty arguments may be completed to an object.\<close>

definition client_done :: "string \<Rightarrow> string \<Rightarrow> json \<Rightarrow> client \<Rightarrow> client option" where
  "client_done kind field v c = with_open c (\<lambda>i. Option.bind (get_str v field) (\<lambda>t.
     guarded (about v i \<and> ci_kind i = kind \<and>
              (t = ci_text i \<or> kind = ''function_call'' \<and> str_trim (ci_text i) = [] \<and> t = ''{}''))
       (c\<lparr>cl_open := Some (i\<lparr>ci_text := t\<rparr>)\<rparr>)))"

definition client_part_done :: "json \<Rightarrow> client \<Rightarrow> client option" where
  "client_part_done v c = with_open c (\<lambda>i. Option.bind (json_get v ''part'') (\<lambda>part.
     guarded (about v i \<and> ci_part_open i \<and> get_str part ''text'' = Some (ci_text i))
       (c\<lparr>cl_open := Some (i\<lparr>ci_part_open := False\<rparr>)\<rparr>)))"

text \<open>The text a completed item carries.\<close>

definition item_text :: "json \<Rightarrow> string option" where
  "item_text item =
     (if get_str item ''type'' = Some ''function_call'' then get_str item ''arguments''
      else (case get_array item ''content'' of Some [part] \<Rightarrow> get_str part ''text'' | _ \<Rightarrow> None))"

definition client_item_done :: "json \<Rightarrow> client \<Rightarrow> client option" where
  "client_item_done v c = with_open c (\<lambda>i. Option.bind (json_get v ''item'') (\<lambda>item.
     guarded (json_get v ''output_index'' = Some (json_nat (ci_index i)) \<and> get_str item ''id'' = Some (ci_id i) \<and>
              get_str item ''type'' = Some (ci_kind i) \<and> get_str item ''status'' = Some ''completed'' \<and>
              item_text item = Some (ci_text i) \<and> \<not> ci_part_open i)
       (c\<lparr>cl_open := None, cl_items := cl_items c @ [item]\<rparr>)))"

definition client_terminal :: "string \<Rightarrow> json \<Rightarrow> client \<Rightarrow> client option" where
  "client_terminal status v c =
     Option.bind (json_get v ''response'') (\<lambda>response.
       guarded (cl_open c = None \<and> get_str response ''status'' = Some status \<and>
                get_array response ''output'' = Some (cl_items c))
         (c\<lparr>cl_terminal := Some status\<rparr>))"

definition client_payload :: "string \<Rightarrow> json \<Rightarrow> client \<Rightarrow> client option" where
  "client_payload kind v c =
     (if kind = ''response.created'' then guarded (\<not> cl_created c) (c\<lparr>cl_created := True\<rparr>)
      else if kind = ''response.in_progress'' then guarded (cl_created c \<and> \<not> cl_in_progress c) (c\<lparr>cl_in_progress := True\<rparr>)
      else if \<not> cl_in_progress c then None
      else if kind = ''response.output_item.added'' then client_added v c
      else if kind = ''response.content_part.added'' then client_part_added v c
      else if kind = ''response.output_text.delta'' then client_delta ''message'' v c
      else if kind = ''response.reasoning_text.delta'' then client_delta ''reasoning'' v c
      else if kind = ''response.function_call_arguments.delta'' then client_delta ''function_call'' v c
      else if kind = ''response.output_text.done'' then client_done ''message'' ''text'' v c
      else if kind = ''response.reasoning_text.done'' then client_done ''reasoning'' ''text'' v c
      else if kind = ''response.function_call_arguments.done'' then client_done ''function_call'' ''arguments'' v c
      else if kind = ''response.content_part.done'' then client_part_done v c
      else if kind = ''response.output_item.done'' then client_item_done v c
      else if kind = ''response.completed'' then client_terminal ''completed'' v c
      else if kind = ''response.incomplete'' then client_terminal ''incomplete'' v c
      else if kind = ''response.failed'' then client_terminal ''failed'' v c
      else if kind = ''response.cancelled'' then client_terminal ''cancelled'' v c
      else None)"

definition client_read :: "sse_event \<Rightarrow> client \<Rightarrow> client option" where
  "client_read e c =
     Option.bind (se_json e) (\<lambda>v. Option.bind (se_event e) (\<lambda>kind.
       if cl_terminal c = None \<and> get_str v ''type'' = Some kind \<and> json_get v ''sequence_number'' = Some (json_nat (cl_sequence c))
       then client_payload kind v (c\<lparr>cl_sequence := cl_sequence c + 1\<rparr>) else None))"

fun client_reads :: "sse_event list \<Rightarrow> client \<Rightarrow> client option" where
  "client_reads [] c = Some c"
| "client_reads (e # es) c = Option.bind (client_read e c) (client_reads es)"

lemma client_reads_append: "client_reads (es @ fs) c = Option.bind (client_reads es c) (client_reads fs)"
  by (induction es arbitrary: c) (auto split: bind_split)

section \<open>The simulation\<close>

fun client_view :: "open_item \<Rightarrow> client_item" where
  "client_view (Open_Message index item_id text part_open) =
     \<lparr>ci_index = index, ci_kind = ''message'', ci_id = item_id, ci_text = text, ci_part_open = part_open\<rparr>"
| "client_view (Open_Function_Call index _ item_id _ _ arguments) =
     \<lparr>ci_index = index, ci_kind = ''function_call'', ci_id = item_id, ci_text = arguments, ci_part_open = False\<rparr>"
| "client_view (Open_Reasoning index item_id text _) =
     \<lparr>ci_index = index, ci_kind = ''reasoning'', ci_id = item_id, ci_text = text, ci_part_open = False\<rparr>"

text \<open>An open message or reasoning item has its part open: the code never closes the part alone.\<close>

fun part_flag :: "open_item \<Rightarrow> bool" where
  "part_flag (Open_Message _ _ _ part_open) = part_open"
| "part_flag (Open_Reasoning _ _ _ part_open) = part_open"
| "part_flag (Open_Function_Call _ _ _ _ _ _) = True"

definition sees :: "client \<Rightarrow> emitter \<Rightarrow> bool" where
  "sees c em \<longleftrightarrow>
     cl_sequence c = em_sequence em \<and> cl_created c = em_created_emitted em \<and>
     cl_in_progress c = em_in_progress_emitted em \<and> cl_next_index c = em_next_output_index em \<and>
     cl_open c = map_option client_view (em_current em) \<and> cl_items c = em_closed em \<and> cl_terminal c = None \<and>
     (\<forall>item. em_current em = Some item \<longrightarrow> part_flag item) \<and>
     (em_in_progress_emitted em \<longrightarrow> em_created_emitted em) \<and>
     (em_current em \<noteq> None \<longrightarrow> em_in_progress_emitted em)"


lemma emit_event_state: "snd (emit_event kind payload em) = em\<lparr>em_sequence := em_sequence em + 1\<rparr>"
  by (simp add: emit_event_def)

lemma sse_json_fields [simp]: "se_event (sse_json k v) = k" "se_json (sse_json k v) = Some v"
  by (simp_all add: sse_json_def)

lemma guarded_Some [simp]: "guarded b x = Some y \<longleftrightarrow> b \<and> x = y"
  by (simp add: guarded_def)

lemma guarded_True [simp]: "guarded True x = Some x"
  by simp

lemma payload_kinds:
  "client_payload ''response.created'' v c = guarded (\<not> cl_created c) (c\<lparr>cl_created := True\<rparr>)"
  "client_payload ''response.in_progress'' v c =
     guarded (cl_created c \<and> \<not> cl_in_progress c) (c\<lparr>cl_in_progress := True\<rparr>)"
  by (simp_all add: client_payload_def)

lemma item_kinds:
  assumes "cl_in_progress c"
  shows "client_payload ''response.output_item.added'' v c = client_added v c"
    and "client_payload ''response.content_part.added'' v c = client_part_added v c"
    and "client_payload ''response.output_text.delta'' v c = client_delta ''message'' v c"
    and "client_payload ''response.reasoning_text.delta'' v c = client_delta ''reasoning'' v c"
    and "client_payload ''response.function_call_arguments.delta'' v c = client_delta ''function_call'' v c"
    and "client_payload ''response.output_text.done'' v c = client_done ''message'' ''text'' v c"
    and "client_payload ''response.reasoning_text.done'' v c = client_done ''reasoning'' ''text'' v c"
    and "client_payload ''response.function_call_arguments.done'' v c = client_done ''function_call'' ''arguments'' v c"
    and "client_payload ''response.content_part.done'' v c = client_part_done v c"
    and "client_payload ''response.output_item.done'' v c = client_item_done v c"
    and "client_payload ''response.completed'' v c = client_terminal ''completed'' v c"
    and "client_payload ''response.incomplete'' v c = client_terminal ''incomplete'' v c"
    and "client_payload ''response.failed'' v c = client_terminal ''failed'' v c"
    and "client_payload ''response.cancelled'' v c = client_terminal ''cancelled'' v c"
  using assms by (simp_all add: client_payload_def)


text \<open>The client reads the payload of a numbered event.\<close>

definition event_value :: "string \<Rightarrow> (string \<times> json) list \<Rightarrow> nat \<Rightarrow> json" where
  "event_value kind payload n = json_obj ([(''type'', J_String kind), (''sequence_number'', json_nat n)] @ payload)"

definition plain_payload :: "(string \<times> json) list \<Rightarrow> bool" where
  "plain_payload payload \<longleftrightarrow> ''type'' \<notin> fst ` set payload \<and> ''sequence_number'' \<notin> fst ` set payload"

lemma emit_event_eq: "emit_event kind payload em = (sse_json (Some kind) (event_value kind payload (em_sequence em)), em\<lparr>em_sequence := em_sequence em + 1\<rparr>)"
  by (simp add: emit_event_def event_value_def)

lemma event_value_get:
  assumes "plain_payload payload"
  shows "json_get (event_value kind payload n) k =
    (if k = ''type'' then Some (J_String kind) else if k = ''sequence_number'' then Some (json_nat n) else map_of (rev payload) k)"
proof -
  have "map_of (rev payload) k = None" if "k \<notin> fst ` set payload" for k
    using that by (simp add: map_of_eq_None_iff)
  with assms show ?thesis by (auto simp: event_value_def json_get_obj map_add_def plain_payload_def split: option.split)
qed

lemma client_read_event:
  assumes "plain_payload payload" and "cl_terminal c = None" and "cl_sequence c = n"
  shows "client_read (sse_json (Some kind) (event_value kind payload n)) c =
    client_payload kind (event_value kind payload n) (c\<lparr>cl_sequence := n + 1\<rparr>)"
  using assms by (simp add: client_read_def get_str_def event_value_get)

lemma json_nat_inject [simp]: "json_nat n = json_nat m \<longleftrightarrow> n = m"
  by (simp add: json_nat_def)

lemmas client_eval = emit_event_eq client_read_event plain_payload_def event_value_get get_str_def get_array_def json_get_obj
  about_def with_open_def

lemma started_sim:
  assumes "sees c em" and "ensure_started em = (es, em')"
  shows "\<exists>c'. client_reads es c = Some c' \<and> sees c' em' \<and> em_in_progress_emitted em' \<and> cl_items c' = cl_items c \<and>
    cl_open c' = cl_open c"
  using assms
  by (auto simp: ensure_started_def ensure_created_def ensure_in_progress_def client_eval payload_kinds sees_def Let_def
      split: if_splits)

text \<open>The text a client has been given for a kind of item.\<close>

definition items_text :: "string \<Rightarrow> json list \<Rightarrow> string" where
  "items_text kind items =
     concat (filter_map (\<lambda>item. if get_str item ''type'' = Some kind then item_text item else None) items)"

definition client_text :: "string \<Rightarrow> client \<Rightarrow> string" where
  "client_text kind c =
     items_text kind (cl_items c) @ (case cl_open c of Some i \<Rightarrow> if ci_kind i = kind then ci_text i else [] | None \<Rightarrow> [])"

lemma items_text_append: "items_text kind (xs @ ys) = items_text kind xs @ items_text kind ys"
  by (simp add: items_text_def)

definition running :: "client \<Rightarrow> emitter \<Rightarrow> bool" where
  "running c em \<longleftrightarrow> sees c em \<and> em_in_progress_emitted em"

text \<open>A run of the emitter that a client follows, with the text and the reasoning it is given.\<close>

definition advances :: "client \<Rightarrow> sse_event list \<times> emitter \<Rightarrow> string \<Rightarrow> string \<Rightarrow> bool" where
  "advances c out text reasoning \<longleftrightarrow>
     (\<exists>c'. client_reads (fst out) c = Some c' \<and> running c' (snd out) \<and>
        client_text ''message'' c' = client_text ''message'' c @ text \<and>
        client_text ''reasoning'' c' = client_text ''reasoning'' c @ reasoning)"

lemma advances_id: "running c em \<Longrightarrow> advances c ([], em) [] []"
  by (simp add: advances_def)

lemma advances_append:
  assumes "advances c (es, em1) t r" and "\<And>c'. running c' em1 \<Longrightarrow> advances c' (fs, em2) t' r'"
  shows "advances c (es @ fs, em2) (t @ t') (r @ r')"
proof -
  from assms(1) obtain c1 where c1: "client_reads es c = Some c1" "running c1 em1"
    "client_text ''message'' c1 = client_text ''message'' c @ t" "client_text ''reasoning'' c1 = client_text ''reasoning'' c @ r"
    by (auto simp: advances_def)
  from assms(2) [OF c1(2)] c1 show ?thesis by (auto simp: advances_def client_reads_append)
qed

lemma close_current_advances:
  assumes "running c em"
  shows "advances c (close_current em) [] [] \<and> em_current (snd (close_current em)) = None"
proof (cases "em_current em")
  case None
  then show ?thesis using advances_id [OF assms] by (simp add: close_current_def)
next
  case (Some item)
  show ?thesis
  proof (cases item)
    case (Open_Message index item_id t part_open)
    with Some assms show ?thesis
      by (auto simp: advances_def running_def close_current_def close_message_def client_eval item_kinds sees_def Let_def
          client_done_def client_part_done_def client_item_done_def text_part_def item_text_def client_text_def
          items_text_def)
  next
    case (Open_Function_Call index chat_index item_id call_id name arguments)
    with Some assms show ?thesis
      by (auto simp: advances_def running_def close_current_def close_function_call_def client_eval item_kinds sees_def Let_def
          client_done_def client_item_done_def item_text_def client_text_def items_text_def)
  next
    case (Open_Reasoning index item_id t part_open)
    with Some assms show ?thesis
      by (auto simp: advances_def running_def close_current_def close_reasoning_def client_eval item_kinds sees_def Let_def
          client_done_def client_item_done_def item_text_def client_text_def items_text_def)
  qed
qed

text \<open>Adding an item of a kind once the open one is closed.\<close>

lemma begin_item_advances:
  assumes "running c em" and "begin_item prefix em = (index, item_id, es, em')"
  shows "\<exists>c'. client_reads es c = Some c' \<and> running (c'\<lparr>cl_next_index := index + 1\<rparr>) em' \<and> cl_next_index c' = index \<and>
    em_current em' = None \<and>
    client_text ''message'' c' = client_text ''message'' c \<and> client_text ''reasoning'' c' = client_text ''reasoning'' c"
proof -
  obtain es1 em1 where cl: "close_current em = (es1, em1)" by fastforce
  with close_current_advances [OF assms(1)] obtain c' where c': "client_reads es1 c = Some c'" "running c' em1"
    "client_text ''message'' c' = client_text ''message'' c" "client_text ''reasoning'' c' = client_text ''reasoning'' c"
    and cur: "em_current em1 = None" by (auto simp: advances_def)
  from assms(2) cl have "es = es1" "index = em_next_output_index em1"
    "em' = em1\<lparr>em_next_output_index := index + 1, em_next_item_counter := em_next_item_counter em1 + 1\<rparr>"
    by (auto simp: begin_item_def Let_def synth_item_id_def)
  with c' cur show ?thesis by (auto simp: running_def sees_def)
qed

lemma open_message_advances:
  assumes "running c em"
  shows "advances c (open_message em) [] [] \<and>
    (\<exists>index item_id. em_current (snd (open_message em)) = Some (Open_Message index item_id [] True))"
proof -
  obtain index item_id es em1 where b: "begin_item ''msg'' em = (index, item_id, es, em1)" by (metis prod_cases4)
  from begin_item_advances [OF assms b] obtain c1 where c1: "client_reads es c = Some c1"
    "running (c1\<lparr>cl_next_index := index + 1\<rparr>) em1" "cl_next_index c1 = index" "em_current em1 = None"
    "client_text ''message'' c1 = client_text ''message'' c" "client_text ''reasoning'' c1 = client_text ''reasoning'' c"
    by blast
  then show ?thesis
    by (auto simp: open_message_def b advances_def client_reads_append client_eval running_def sees_def item_kinds
        client_added_def client_part_added_def text_part_def client_text_def)
qed

lemma open_reasoning_advances:
  assumes "running c em"
  shows "advances c (open_reasoning em) [] [] \<and>
    (\<exists>index item_id. em_current (snd (open_reasoning em)) = Some (Open_Reasoning index item_id [] True))"
proof -
  obtain index item_id es em1 where b: "begin_item ''rs'' em = (index, item_id, es, em1)" by (metis prod_cases4)
  from begin_item_advances [OF assms b] obtain c1 where c1: "client_reads es c = Some c1"
    "running (c1\<lparr>cl_next_index := index + 1\<rparr>) em1" "cl_next_index c1 = index" "em_current em1 = None"
    "client_text ''message'' c1 = client_text ''message'' c" "client_text ''reasoning'' c1 = client_text ''reasoning'' c"
    by blast
  then show ?thesis
    by (auto simp: open_reasoning_def b advances_def client_reads_append client_eval running_def sees_def item_kinds
        client_added_def client_text_def)
qed

lemma open_function_call_advances:
  assumes "running c em"
  shows "advances c (open_function_call ci id_hint name_hint em) [] [] \<and>
    (\<exists>index item_id call_id name. em_current (snd (open_function_call ci id_hint name_hint em)) =
       Some (Open_Function_Call index ci item_id call_id name []))"
proof -
  obtain index item_id es em1 where b: "begin_item ''fc'' em = (index, item_id, es, em1)" by (metis prod_cases4)
  from begin_item_advances [OF assms b] obtain c1 where c1: "client_reads es c = Some c1"
    "running (c1\<lparr>cl_next_index := index + 1\<rparr>) em1" "cl_next_index c1 = index" "em_current em1 = None"
    "client_text ''message'' c1 = client_text ''message'' c" "client_text ''reasoning'' c1 = client_text ''reasoning'' c"
    by blast
  then show ?thesis
    by (auto simp: open_function_call_def b advances_def client_reads_append client_eval running_def sees_def item_kinds
        client_added_def client_text_def Let_def)
qed

text \<open>One delta for an item of its kind that is open.\<close>

lemma text_delta_advances:
  assumes "running c em" and "em_current em = Some (Open_Message index item_id buf part_open)" and "t \<noteq> []"
  shows "advances c (handle_text t em) t []"
  using assms
  by (auto simp: handle_text_def advances_def client_eval running_def sees_def item_kinds client_delta_def client_text_def)

lemma reasoning_delta_advances:
  assumes "running c em" and "em_current em = Some (Open_Reasoning index item_id buf part_open)" and "t \<noteq> []"
  shows "advances c (handle_reasoning t em) [] t"
  using assms
  by (auto simp: handle_reasoning_def advances_def client_eval running_def sees_def item_kinds client_delta_def client_text_def)

lemma tool_delta_advances:
  assumes "running c em" and "em_current em = Some (Open_Function_Call index ci item_id call_id name arguments)"
  shows "advances c (handle_tool_call ci id_hint name_hint args em) [] []"
  using assms
  by (cases "args = []")
    (auto simp: handle_tool_call_def same_call_def advances_def client_eval running_def sees_def item_kinds client_delta_def
      client_text_def Let_def)

text \<open>A delta of a kind whose item is not open first opens one.\<close>

lemma handle_text_opens:
  assumes "t \<noteq> []" and "\<And>i j b p. em_current em \<noteq> Some (Open_Message i j b p)"
    and "open_message em = (es, em1)" and "em_current em1 = Some (Open_Message index item_id buf part_open)"
  shows "handle_text t em = (es @ fst (handle_text t em1), snd (handle_text t em1))"
  using assms by (auto simp: handle_text_def Let_def split: option.split open_item.split prod.split)

lemma handle_reasoning_opens:
  assumes "t \<noteq> []" and "\<And>i j b p. em_current em \<noteq> Some (Open_Reasoning i j b p)"
    and "open_reasoning em = (es, em1)" and "em_current em1 = Some (Open_Reasoning index item_id buf part_open)"
  shows "handle_reasoning t em = (es @ fst (handle_reasoning t em1), snd (handle_reasoning t em1))"
  using assms by (auto simp: handle_reasoning_def Let_def split: option.split open_item.split prod.split)

lemma handle_tool_call_opens:
  assumes "\<not> same_call ci em" and "open_function_call ci id_hint name_hint em = (es, em1)"
    and "em_current em1 = Some (Open_Function_Call index ci item_id call_id name [])"
  shows "handle_tool_call ci id_hint name_hint args em =
    (es @ fst (handle_tool_call ci id_hint name_hint args em1), snd (handle_tool_call ci id_hint name_hint args em1))"
  using assms by (auto simp: handle_tool_call_def same_call_def Let_def split: prod.split)

lemma running_usage: "running c em \<Longrightarrow> running c (em\<lparr>em_usage := u\<rparr>)"
  by (simp add: running_def sees_def)

lemma running_finish: "running c em \<Longrightarrow> running c (em\<lparr>em_finish_reason := r\<rparr>)"
  by (simp add: running_def sees_def)

lemma handle_text_advances:
  assumes "running c em"
  shows "advances c (handle_text t em) t []"
proof (cases "t = []")
  case True
  with advances_id [OF assms] show ?thesis by (simp add: handle_text_def)
next
  case False
  show ?thesis
  proof (cases "\<exists>i j b p. em_current em = Some (Open_Message i j b p)")
    case True
    with text_delta_advances [OF assms _ False] show ?thesis by blast
  next
    case no: False
    obtain es em1 where o: "open_message em = (es, em1)" by fastforce
    with open_message_advances [OF assms] obtain index item_id where a: "advances c (es, em1) [] []"
      and cur: "em_current em1 = Some (Open_Message index item_id [] True)" by auto
    have "advances c (es @ fst (handle_text t em1), snd (handle_text t em1)) ([] @ t) ([] @ [])"
      by (rule advances_append [OF a]) (use text_delta_advances [OF _ cur False] in simp)
    with handle_text_opens [OF False _ o cur] no show ?thesis by simp
  qed
qed

lemma handle_reasoning_advances:
  assumes "running c em"
  shows "advances c (handle_reasoning t em) [] t"
proof (cases "t = []")
  case True
  with advances_id [OF assms] show ?thesis by (simp add: handle_reasoning_def)
next
  case False
  show ?thesis
  proof (cases "\<exists>i j b p. em_current em = Some (Open_Reasoning i j b p)")
    case True
    with reasoning_delta_advances [OF assms _ False] show ?thesis by blast
  next
    case no: False
    obtain es em1 where o: "open_reasoning em = (es, em1)" by fastforce
    with open_reasoning_advances [OF assms] obtain index item_id where a: "advances c (es, em1) [] []"
      and cur: "em_current em1 = Some (Open_Reasoning index item_id [] True)" by auto
    have "advances c (es @ fst (handle_reasoning t em1), snd (handle_reasoning t em1)) ([] @ []) ([] @ t)"
      by (rule advances_append [OF a]) (use reasoning_delta_advances [OF _ cur False] in simp)
    with handle_reasoning_opens [OF False _ o cur] no show ?thesis by simp
  qed
qed

lemma handle_tool_call_advances:
  assumes "running c em"
  shows "advances c (handle_tool_call ci id_hint name_hint args em) [] []"
proof (cases "same_call ci em")
  case True
  then obtain index item_id call_id name arguments where
    "em_current em = Some (Open_Function_Call index ci item_id call_id name arguments)"
    by (auto simp: same_call_def split: option.splits open_item.splits)
  with tool_delta_advances [OF assms] show ?thesis by blast
next
  case False
  obtain es em1 where o: "open_function_call ci id_hint name_hint em = (es, em1)" by fastforce
  with open_function_call_advances [OF assms, of ci id_hint name_hint] obtain index item_id call_id name where
    a: "advances c (es, em1) [] []" and cur: "em_current em1 = Some (Open_Function_Call index ci item_id call_id name [])"
    by auto
  have "advances c (es @ fst (handle_tool_call ci id_hint name_hint args em1), snd (handle_tool_call ci id_hint name_hint args em1))
      ([] @ []) ([] @ [])"
    by (rule advances_append [OF a]) (use tool_delta_advances [OF _ cur] in simp)
  with handle_tool_call_opens [OF False o cur] show ?thesis by simp
qed

lemma handle_delta_advances:
  assumes "running c em"
  shows "advances c (handle_delta d em) (delta_text [d]) (delta_reasoning [d])"
  using handle_text_advances [OF assms] handle_reasoning_advances [OF assms] handle_tool_call_advances [OF assms]
    advances_id [OF running_usage [OF assms]] advances_id [OF running_finish [OF assms]]
  by (cases d) (simp_all add: delta_text_def delta_reasoning_def)

lemma handle_deltas_advances:
  "running c em \<Longrightarrow> advances c (handle_deltas ds em) (delta_text ds) (delta_reasoning ds)"
proof (induction ds arbitrary: c em)
  case Nil
  then show ?case using advances_id [OF Nil] by (simp add: delta_text_def delta_reasoning_def)
next
  case (Cons d ds)
  obtain es em1 where d: "handle_delta d em = (es, em1)" by fastforce
  obtain fs em2 where ds: "handle_deltas ds em1 = (fs, em2)" by fastforce
  have "advances c (es @ fs, em2) (delta_text [d] @ delta_text ds) (delta_reasoning [d] @ delta_reasoning ds)"
    by (rule advances_append) (use handle_delta_advances [OF Cons.prems, of d] Cons.IH [of _ em1] d ds in simp_all)
  with d ds delta_append(1,2) [of "[d]" ds] show ?case by simp
qed

section \<open>A whole stream\<close>

datatype emitter_call = Call_Emit "ir_delta list" | Call_Id string | Call_Model string

fun run_call :: "emitter_call \<Rightarrow> emitter \<Rightarrow> sse_event list \<times> emitter" where
  "run_call (Call_Emit ds) em = emitter_emit ds em"
| "run_call (Call_Id i) em = ([], update_id i em)"
| "run_call (Call_Model m) em = ([], update_model m em)"

fun run_calls :: "emitter_call list \<Rightarrow> emitter \<Rightarrow> sse_event list \<times> emitter" where
  "run_calls [] em = ([], em)"
| "run_calls (call # calls) em =
     (let (es, em1) = run_call call em; (fs, em2) = run_calls calls em1 in (es @ fs, em2))"

fun call_deltas :: "emitter_call \<Rightarrow> ir_delta list" where
  "call_deltas (Call_Emit ds) = ds"
| "call_deltas _ = []"

definition calls_deltas :: "emitter_call list \<Rightarrow> ir_delta list" where
  "calls_deltas calls = concat (map call_deltas calls)"

text \<open>The last finish reason given.\<close>

definition last_finish :: "string option \<Rightarrow> ir_delta list \<Rightarrow> string option" where
  "last_finish r ds = fold (\<lambda>d r. case d of D_Finish r' \<Rightarrow> r' | _ \<Rightarrow> r) ds r"

lemma close_item_reason: "em_finish_reason (snd (close_item item em)) = em_finish_reason em"
  by (cases item)
    (simp_all add: close_message_def close_function_call_def close_reasoning_def emit_event_eq Let_def)

lemma close_current_reason: "em_finish_reason (snd (close_current em)) = em_finish_reason em"
  by (cases "em_current em") (simp_all add: close_current_def close_item_reason)

lemma open_reason:
  "em_finish_reason (snd (open_message em)) = em_finish_reason em"
  "em_finish_reason (snd (open_reasoning em)) = em_finish_reason em"
  "em_finish_reason (snd (open_function_call ci i n em)) = em_finish_reason em"
  using close_current_reason [of em]
  by (simp_all add: open_message_def open_reasoning_def open_function_call_def begin_item_def synth_item_id_def
      emit_event_eq Let_def split_beta)

lemma handle_text_reason: "em_finish_reason (snd (handle_text t em)) = em_finish_reason em"
  using open_reason(1) [of em]
  by (simp add: handle_text_def emit_event_eq Let_def split_beta split: option.split open_item.split)

lemma handle_reasoning_reason: "em_finish_reason (snd (handle_reasoning t em)) = em_finish_reason em"
  using open_reason(2) [of em]
  by (simp add: handle_reasoning_def emit_event_eq Let_def split_beta split: option.split open_item.split)

lemma handle_tool_call_reason: "em_finish_reason (snd (handle_tool_call ci i n a em)) = em_finish_reason em"
  using open_reason(3) [of ci i n em]
  by (simp add: handle_tool_call_def emit_event_eq Let_def split_beta split: option.split open_item.split)

lemma handle_deltas_reason: "em_finish_reason (snd (handle_deltas ds em)) = last_finish (em_finish_reason em) ds"
proof (induction ds arbitrary: em)
  case (Cons d ds)
  have "em_finish_reason (snd (handle_delta d em)) = (case d of D_Finish r \<Rightarrow> r | _ \<Rightarrow> em_finish_reason em)"
    by (cases d) (simp_all add: handle_text_reason handle_reasoning_reason handle_tool_call_reason)
  with Cons.IH [of "snd (handle_delta d em)"] show ?case by (simp add: last_finish_def split_beta Let_def)
qed (simp add: last_finish_def)

lemma ensure_started_reason: "em_finish_reason (snd (ensure_started em)) = em_finish_reason em"
  by (simp add: ensure_started_def ensure_created_def ensure_in_progress_def emit_event_eq Let_def)

lemma emitter_emit_reason: "em_finish_reason (snd (emitter_emit ds em)) = last_finish (em_finish_reason em) ds"
  using handle_deltas_reason [of ds "snd (ensure_started em)"] ensure_started_reason [of em]
  by (simp add: emitter_emit_def Let_def split_beta last_finish_def)

lemma calls_reason: "em_finish_reason (snd (run_calls calls em)) = last_finish (em_finish_reason em) (calls_deltas calls)"
proof (induction calls arbitrary: em)
  case (Cons call calls)
  have "em_finish_reason (snd (run_call call em)) = last_finish (em_finish_reason em) (call_deltas call)"
    by (cases call) (simp_all add: emitter_emit_reason update_id_def update_model_def last_finish_def)
  with Cons.IH [of "snd (run_call call em)"] show ?case
    by (simp add: split_beta Let_def calls_deltas_def last_finish_def)
qed (simp add: last_finish_def calls_deltas_def)

text \<open>The client follows any sequence of calls.\<close>

definition follows :: "client \<Rightarrow> sse_event list \<times> emitter \<Rightarrow> string \<Rightarrow> string \<Rightarrow> bool" where
  "follows c out t r \<longleftrightarrow>
     (\<exists>c'. client_reads (fst out) c = Some c' \<and> sees c' (snd out) \<and>
        client_text ''message'' c' = client_text ''message'' c @ t \<and>
        client_text ''reasoning'' c' = client_text ''reasoning'' c @ r)"

lemma emitter_emit_follows:
  assumes "sees c em"
  shows "follows c (emitter_emit ds em) (delta_text ds) (delta_reasoning ds)"
proof (cases "ds = []")
  case True
  with assms show ?thesis by (simp add: follows_def emitter_emit_def delta_text_def delta_reasoning_def)
next
  case False
  obtain es em1 where s: "ensure_started em = (es, em1)" by fastforce
  obtain fs em2 where d: "handle_deltas ds em1 = (fs, em2)" by fastforce
  from started_sim [OF assms s] obtain c1 where c1: "client_reads es c = Some c1" "running c1 em1"
    "client_text k c1 = client_text k c" for k by (auto simp: running_def client_text_def)
  from handle_deltas_advances [OF c1(2), of ds] d False s c1(1,3) show ?thesis
    by (auto simp: follows_def advances_def emitter_emit_def client_reads_append running_def)
qed

lemma sees_named: "sees c (update_id i em) = sees c em" "sees c (update_model i em) = sees c em"
  by (simp_all add: sees_def update_id_def update_model_def)

lemma call_follows:
  assumes "sees c em"
  shows "follows c (run_call call em) (delta_text (call_deltas call)) (delta_reasoning (call_deltas call))"
  using assms emitter_emit_follows [OF assms]
  by (cases call) (simp_all add: follows_def sees_named delta_text_def delta_reasoning_def)

lemma calls_follow:
  "sees c em \<Longrightarrow> follows c (run_calls calls em) (delta_text (calls_deltas calls)) (delta_reasoning (calls_deltas calls))"
proof (induction calls arbitrary: c em)
  case Nil
  then show ?case by (simp add: follows_def calls_deltas_def delta_text_def delta_reasoning_def)
next
  case (Cons call calls)
  obtain es em1 where s: "run_call call em = (es, em1)" by fastforce
  obtain fs em2 where d: "run_calls calls em1 = (fs, em2)" by fastforce
  have "follows c (es, em1) (delta_text (call_deltas call)) (delta_reasoning (call_deltas call))"
    using call_follows [OF Cons.prems, of call] s by simp
  then obtain c1 where c1: "client_reads es c = Some c1" "sees c1 em1"
    "client_text ''message'' c1 = client_text ''message'' c @ delta_text (call_deltas call)"
    "client_text ''reasoning'' c1 = client_text ''reasoning'' c @ delta_reasoning (call_deltas call)"
    by (auto simp: follows_def)
  from Cons.IH [OF c1(2)] d obtain c2 where c2: "client_reads fs c1 = Some c2" "sees c2 em2"
    "client_text ''message'' c2 = client_text ''message'' c1 @ delta_text (calls_deltas calls)"
    "client_text ''reasoning'' c2 = client_text ''reasoning'' c1 @ delta_reasoning (calls_deltas calls)"
    by (auto simp: follows_def)
  have "client_reads (es @ fs) c = Some c2" using c1(1) c2(1) by (simp add: client_reads_append)
  moreover have "run_calls (call # calls) em = (es @ fs, em2)" using s d by simp
  moreover have "calls_deltas (call # calls) = call_deltas call @ calls_deltas calls" by (simp add: calls_deltas_def)
  ultimately show ?case using c1(3,4) c2(2-4) by (simp add: follows_def delta_append)
qed

lemma new_client_sees: "sees new_client (new_emitter created_at i m)"
  by (simp add: sees_def new_client_def new_emitter_def)

lemma status_cases:
  "fst (responses_completion_status r) \<in> {''completed'', ''incomplete'', ''failed'', ''cancelled''}"
  by (simp add: responses_completion_status_def split: option.split)

lemma snapshot_entry:
  assumes "k \<noteq> ''incomplete_details''" and "k \<noteq> ''completed_at''"
  shows "bm_get (insert_some ''incomplete_details'' x (bm_insert ''completed_at'' y (bm_of_list m))) k = map_of (rev m) k"
  using assms by (cases x) (simp_all add: bm_get_insert bm_ok_insert bm_get_of_list)

lemma snapshot_fields:
  "get_str (response_snapshot status True em) ''status'' = Some status"
  "get_array (response_snapshot status True em) ''output'' = Some (em_closed em)"
  by (simp_all add: response_snapshot_def get_str_def get_array_def snapshot_entry)

lemma terminal_kind:
  assumes "cl_in_progress c" and "status \<in> {''completed'', ''incomplete'', ''failed'', ''cancelled''}"
  shows "client_payload (terminal_event status) v c = client_terminal status v c"
  using assms(2) item_kinds(11-14) [OF assms(1), of v] by (elim insertE emptyE) (simp_all add: terminal_event_def)

lemma terminal_reads:
  assumes "running c em" and "em_current em = None" and "status \<in> {''completed'', ''incomplete'', ''failed'', ''cancelled''}"
  shows "\<exists>c'. client_read (fst (emit_event (terminal_event status) [(''response'', response_snapshot status True em)] em)) c = Some c' \<and>
    cl_terminal c' = Some status \<and> cl_items c' = cl_items c \<and> cl_open c' = None"
proof -
  let ?v = "event_value (terminal_event status) [(''response'', response_snapshot status True em)] (em_sequence em)"
  let ?c = "c\<lparr>cl_sequence := em_sequence em + 1\<rparr>"
  have c: "cl_in_progress ?c" "cl_terminal c = None" "cl_sequence c = em_sequence em" "cl_open c = None"
    "cl_items c = em_closed em"
    using assms(1,2) by (simp_all add: running_def sees_def)
  have "client_read (fst (emit_event (terminal_event status) [(''response'', response_snapshot status True em)] em)) c =
      client_terminal status ?v ?c"
    using client_read_event [of "[(''response'', response_snapshot status True em)]" c, OF _ c(2,3)]
      terminal_kind [OF c(1) assms(3)] by (simp add: emit_event_eq plain_payload_def)
  moreover have "json_get ?v ''response'' = Some (response_snapshot status True em)"
    by (simp add: event_value_get plain_payload_def)
  ultimately show ?thesis using c(4,5) by (simp add: client_terminal_def snapshot_fields)
qed

text \<open>Nothing but the finish marks the emitter finished.\<close>

lemma close_current_finished: "em_finished (snd (close_current em)) = em_finished em"
proof (cases "em_current em")
  case (Some item)
  then show ?thesis
    by (cases item) (simp_all add: close_current_def close_message_def close_function_call_def close_reasoning_def emit_event_eq Let_def)
qed (simp add: close_current_def)

lemma open_finished:
  "em_finished (snd (open_message em)) = em_finished em"
  "em_finished (snd (open_reasoning em)) = em_finished em"
  "em_finished (snd (open_function_call ci i n em)) = em_finished em"
  using close_current_finished [of em]
  by (simp_all add: open_message_def open_reasoning_def open_function_call_def begin_item_def synth_item_id_def
      emit_event_eq Let_def split_beta)

lemma handle_finished:
  "em_finished (snd (handle_text t em)) = em_finished em"
  "em_finished (snd (handle_reasoning t em)) = em_finished em"
  "em_finished (snd (handle_tool_call ci i n a em)) = em_finished em"
  using open_finished(1,2) [of em] open_finished(3) [of ci i n em]
  by (simp_all add: handle_text_def handle_reasoning_def handle_tool_call_def emit_event_eq Let_def split_beta
      split: option.split open_item.split)

lemma handle_deltas_finished: "em_finished (snd (handle_deltas ds em)) = em_finished em"
proof (induction ds arbitrary: em)
  case (Cons d ds)
  have "em_finished (snd (handle_delta d em)) = em_finished em" by (cases d) (simp_all add: handle_finished)
  with Cons.IH [of "snd (handle_delta d em)"] show ?case by (simp add: split_beta Let_def)
qed simp

lemma ensure_started_finished: "em_finished (snd (ensure_started em)) = em_finished em"
  by (simp add: ensure_started_def ensure_created_def ensure_in_progress_def emit_event_eq Let_def)

lemma calls_unfinished: "em_finished (snd (run_calls calls em)) = em_finished em"
proof (induction calls arbitrary: em)
  case (Cons call calls)
  have "em_finished (snd (run_call call em)) = em_finished em"
    by (cases call)
      (simp_all add: emitter_emit_def Let_def split_beta handle_deltas_finished ensure_started_finished update_id_def update_model_def)
  with Cons.IH [of "snd (run_call call em)"] show ?case by (simp add: split_beta Let_def)
qed simp

section \<open>Properties\<close>

text \<open>
  C5. Every emitted stream follows the protocol: whatever deltas arrive in whatever batches,
  a client that checks the sequence numbers, the output indices, the nesting of items and
  parts, the completed texts and the final output accepts the events of a run and its finish;
  the stream ends with one terminal event of the status of the last finish reason, and the
  completed message and reasoning items carry exactly the text and reasoning of the deltas.
  A second finish adds nothing.
\<close>

theorem emitted_stream_follows_protocol:
  "case run_calls calls (new_emitter created_at i m) of
     (es, em) \<Rightarrow> (case emitter_finish em of
       (fs, em') \<Rightarrow>
         (\<exists>c. client_reads (es @ fs) new_client = Some c \<and>
            cl_terminal c = Some (fst (responses_completion_status (last_finish None (calls_deltas calls)))) \<and>
            cl_open c = None \<and>
            items_text ''message'' (cl_items c) = delta_text (calls_deltas calls) \<and>
            items_text ''reasoning'' (cl_items c) = delta_reasoning (calls_deltas calls)) \<and>
         fst (emitter_finish em') = [])"
proof -
  obtain es em where run: "run_calls calls (new_emitter created_at i m) = (es, em)" by fastforce
  let ?s = "fst (responses_completion_status (em_finish_reason em))"
  have "follows new_client (es, em) (delta_text (calls_deltas calls)) (delta_reasoning (calls_deltas calls))"
    using calls_follow [OF new_client_sees, of calls created_at i m] run by simp
  moreover have "client_text k new_client = []" for k by (simp add: client_text_def new_client_def items_text_def)
  ultimately obtain c where c: "client_reads es new_client = Some c" "sees c em"
    "client_text ''message'' c = delta_text (calls_deltas calls)" "client_text ''reasoning'' c = delta_reasoning (calls_deltas calls)"
    by (auto simp: follows_def)
  have reason: "em_finish_reason em = last_finish None (calls_deltas calls)"
    using calls_reason [of calls "new_emitter created_at i m"] run by (simp add: new_emitter_def)
  have fin: "em_finished em = False"
    using calls_unfinished [of calls "new_emitter created_at i m"] run by (simp add: new_emitter_def)
  let ?em = "em\<lparr>em_finished := True\<rparr>"
  have sees': "sees c ?em" using c(2) by (simp add: sees_def)
  obtain fs em1 where s: "ensure_started ?em = (fs, em1)" by fastforce
  from started_sim [OF sees' s] obtain c1 where c1: "client_reads fs c = Some c1" "running c1 em1"
    "client_text k c1 = client_text k c" for k by (auto simp: running_def client_text_def)
  obtain gs em2 where g: "close_current em1 = (gs, em2)" by fastforce
  with close_current_advances [OF c1(2)] obtain c2 where c2: "client_reads gs c1 = Some c2" "running c2 em2"
    "client_text ''message'' c2 = client_text ''message'' c1" "client_text ''reasoning'' c2 = client_text ''reasoning'' c1"
    and cur: "em_current em2 = None" by (auto simp: advances_def)
  have r2: "em_finish_reason em2 = em_finish_reason em"
    using close_current_reason [of em1] ensure_started_reason [of ?em] s g by simp
  let ?e = "emit_event (terminal_event ?s) [(''response'', response_snapshot ?s True em2)] em2"
  from terminal_reads [OF c2(2) cur status_cases [of "em_finish_reason em"]] obtain c3 where
    c3: "client_read (fst ?e) c2 = Some c3" "cl_terminal c3 = Some ?s" "cl_items c3 = cl_items c2" "cl_open c3 = None"
    by blast
  have e: "emitter_finish em = (fs @ gs @ [fst ?e], snd ?e)"
    using fin s g r2 by (simp add: emitter_finish_def Let_def split_beta)
  have fin': "em_finished (snd ?e)"
    using close_current_finished [of em1] ensure_started_finished [of ?em] s g by (simp add: emit_event_eq)
  have "client_reads (es @ fs @ gs @ [fst ?e]) new_client = Some c3"
    using c(1) c1(1) c2(1) c3(1) by (simp add: client_reads_append)
  moreover have "items_text k (cl_items c3) = client_text k c2" for k
    using c2(2) cur c3(3) by (simp add: client_text_def running_def sees_def)
  ultimately show ?thesis
    using run e c3(2,4) c(3,4) c1(3) c2(3,4) reason fin' by (auto simp: emitter_finish_def)
qed

end
