(* ===== verification/Sse_Translate.thy ===== *)
theory Sse_Translate
  imports Sse_Accumulate Responses_Emit
begin

text \<open>
  The translator of a streamed response from one dialect to another
  (crates/convert/src/sse/translate.rs): the source's accumulator turns an event into deltas,
  the emitter of the target turns the deltas into events, and the translator decides which
  delta ends the response. Its state changes even when it fails.
\<close>

section \<open>The emitting side\<close>

record emit_state =
  es_to :: endpoint
  es_id :: string
  es_model :: string
  es_started :: bool
  es_finished :: bool
  es_responses :: "emitter option"

definition new_emit_state :: "nat \<Rightarrow> endpoint \<Rightarrow> emit_state" where
  "new_emit_state created_at target =
     (let i = (case target of
                 Chat_Completions \<Rightarrow> ''chatcmpl-converted'' | Responses \<Rightarrow> ''resp_converted'' | Messages \<Rightarrow> ''msg_converted'')
      in \<lparr>es_to = target, es_id = i, es_model = [], es_started = False, es_finished = False,
          es_responses = (if target = Responses then Some (new_emitter created_at i []) else None)\<rparr>)"

definition update_metadata :: "accumulator \<Rightarrow> emit_state \<Rightarrow> emit_state" where
  "update_metadata a s0 =
     (let s1 = (case ac_response_id a of
                  None \<Rightarrow> s0
                | Some i \<Rightarrow> s0\<lparr>es_id := i, es_responses := map_option (update_id i) (es_responses s0)\<rparr>)
      in case ac_model a of
           None \<Rightarrow> s1
         | Some m \<Rightarrow> s1\<lparr>es_model := m, es_responses := map_option (update_model m) (es_responses s1)\<rparr>)"

definition named_event :: "string \<times> json \<Rightarrow> sse_event" where
  "named_event e = sse_json (Some (fst e)) (snd e)"

definition block_start_event :: "string \<times> json" where
  "block_start_event =
     (''content_block_start'',
      json_obj [(''type'', J_String ''content_block_start''), (''index'', json_nat 0),
                (''content_block'', json_obj [(''type'', J_String ''text''), (''text'', J_String [])])])"

definition start_events :: "emit_state \<Rightarrow> sse_event list" where
  "start_events s =
     (case es_to s of
        Messages \<Rightarrow> map named_event [message_start_event (es_id s) (es_model s), block_start_event]
      | _ \<Rightarrow> [])"

definition ensure_emit_started :: "emit_state \<Rightarrow> sse_event list \<times> emit_state" where
  "ensure_emit_started s =
     (if \<not> es_started s \<and> es_to s \<noteq> Responses then (start_events s, s\<lparr>es_started := True\<rparr>) else ([], s))"

definition emit_deltas :: "ir_delta list \<Rightarrow> emit_state \<Rightarrow> sse_event list \<times> emit_state" where
  "emit_deltas deltas s0 =
     (if deltas = [] then ([], s0)
      else
        let (es, s) = ensure_emit_started s0
        in case es_to s of
             Chat_Completions \<Rightarrow>
               (es @ map (sse_json None) (chunk_from_deltas (es_id s) (es_model s) deltas False), s)
           | Responses \<Rightarrow>
               (case es_responses s of
                  None \<Rightarrow> (es, s)
                | Some em \<Rightarrow>
                    (let (fs, em') = emitter_emit deltas em
                     in (es @ fs, s\<lparr>es_responses := Some em', es_started := True\<rparr>)))
           | Messages \<Rightarrow>
               (es @ map named_event (messages_events_from_deltas (es_id s) (es_model s) deltas False), s))"

definition emit_finish :: "emit_state \<Rightarrow> sse_event list \<times> emit_state" where
  "emit_finish s0 =
     (if es_finished s0 then ([], s0)
      else
        let (es, s) = ensure_emit_started (s0\<lparr>es_finished := True\<rparr>)
        in case es_to s of
             Chat_Completions \<Rightarrow> (es @ [sse_done], s)
           | Responses \<Rightarrow>
               (case es_responses s of
                  None \<Rightarrow> (es, s)
                | Some em \<Rightarrow> (let (fs, em') = emitter_finish em in (es @ fs, s\<lparr>es_responses := Some em'\<rparr>)))
           | Messages \<Rightarrow> (es @ map named_event [block_stop_event 0, message_stop_event], s))"

section \<open>The translator\<close>

record translator =
  tr_from :: endpoint
  tr_acc :: accumulator
  tr_emit :: emit_state
  tr_terminal_seen :: bool
  tr_finished :: bool

definition new_translator :: "nat \<Rightarrow> endpoint \<Rightarrow> endpoint \<Rightarrow> translator" where
  "new_translator created_at source target =
     \<lparr>tr_from = source, tr_acc = new_accumulator source, tr_emit = new_emit_state created_at target,
      tr_terminal_seen = False, tr_finished = False\<rparr>"

definition finish_once :: "translator \<Rightarrow> (convert_error + sse_event list) \<times> translator" where
  "finish_once t0 =
     (if tr_finished t0 then (Inr [], t0)
      else
        let t = t0\<lparr>tr_finished := True\<rparr>
        in if \<not> tr_terminal_seen t then (Inl (Sse_Error ''upstream stream ended before a terminal event''), t)
           else
             let (es, s) = emit_finish (update_metadata (tr_acc t) (tr_emit t))
             in (Inr es, t\<lparr>tr_emit := s\<rparr>))"

definition non_null :: "json option \<Rightarrow> json option" where
  "non_null v = (case v of Some J_Null \<Rightarrow> None | _ \<Rightarrow> v)"

fun is_finish :: "ir_delta \<Rightarrow> bool" where
  "is_finish (D_Finish _) = True"
| "is_finish _ = False"

definition finish_reason_of :: "ir_delta \<Rightarrow> string option option" where
  "finish_reason_of d = (case d of D_Finish r \<Rightarrow> Some r | _ \<Rightarrow> None)"

definition chat_terminal_reason :: "json \<Rightarrow> string option option" where
  "chat_terminal_reason v =
     Option.bind (get_array v ''choices'')
       (find_map (\<lambda>choice. map_option json_str (non_null (json_get choice ''finish_reason''))))"

definition messages_terminal_reason :: "json \<Rightarrow> ir_delta list \<Rightarrow> string option option" where
  "messages_terminal_reason v deltas =
     (if get_str v ''type'' = Some ''message_stop'' then Some (Some ''stop'')
      else if get_str v ''type'' = Some ''message_delta'' then
        map_option (\<lambda>reason. case find_map finish_reason_of deltas of Some r \<Rightarrow> r | None \<Rightarrow> json_str reason)
          (non_null (json_pointer v [''delta'', ''stop_reason'']))
      else None)"

definition responses_terminal_reason :: "json \<Rightarrow> accumulator \<Rightarrow> string option option" where
  "responses_terminal_reason v a =
     (let kind = get_str v ''type'' in
      if kind = Some ''response.completed'' then Some (Some (responses_completed_finish_reason a (Some v)))
      else if kind = Some ''response.incomplete'' then
        Some (Some (case Option.bind (json_pointer v [''response'', ''incomplete_details'', ''reason'']) json_str of
                      None \<Rightarrow> ''incomplete''
                    | Some reason \<Rightarrow> if reason = ''max_output_tokens'' then ''length'' else reason))
      else if kind = Some ''response.failed'' \<or> kind = Some ''error'' then Some (Some ''failed'')
      else if kind = Some ''response.cancelled'' then Some (Some ''cancelled'')
      else None)"

definition terminal_reason :: "endpoint \<Rightarrow> json \<Rightarrow> accumulator \<Rightarrow> ir_delta list \<Rightarrow> string option option" where
  "terminal_reason e v a deltas =
     (case e of
        Chat_Completions \<Rightarrow> chat_terminal_reason v
      | Messages \<Rightarrow> messages_terminal_reason v deltas
      | Responses \<Rightarrow> responses_terminal_reason v a)"

text \<open>The deltas that reach the emitter, and whether the terminal event has been seen.\<close>

definition settle_finish :: "string option option \<Rightarrow> bool \<Rightarrow> ir_delta list \<Rightarrow> ir_delta list \<times> bool" where
  "settle_finish reason seen deltas =
     (case reason of
        Some r \<Rightarrow>
          if seen then (filter (\<lambda>d. \<not> is_finish d) deltas, True)
          else if list_ex is_finish deltas then (map (set_finish r) deltas, True)
          else (deltas @ [D_Finish r], True)
      | None \<Rightarrow>
          if list_ex is_finish deltas
          then (if seen then (filter (\<lambda>d. \<not> is_finish d) deltas, True) else (deltas, True))
          else (deltas, seen))"

definition transform_done :: "translator \<Rightarrow> (convert_error + sse_event list) \<times> translator" where
  "transform_done t =
     (let infer = (\<not> tr_terminal_seen t \<and> tr_from t = Responses \<and> has_tool_call (tr_acc t));
          (es, s) = (if infer then emit_deltas [D_Finish (Some ''tool_calls'')] (tr_emit t) else ([], tr_emit t));
          (r, t') = finish_once (t\<lparr>tr_terminal_seen := True, tr_emit := s\<rparr>)
      in (res_map (\<lambda>fs. es @ fs) r, t'))"

definition transform_value :: "(json \<Rightarrow> string) \<Rightarrow> json \<Rightarrow> translator \<Rightarrow> sse_event list \<times> translator" where
  "transform_value render v t =
     (let (ds, a) = push_value render v (tr_acc t);
          (ds', seen) = settle_finish (terminal_reason (tr_from t) v a ds) (tr_terminal_seen t) ds;
          (es, s) = emit_deltas ds' (update_metadata a (tr_emit t))
      in (es, t\<lparr>tr_acc := a, tr_terminal_seen := seen, tr_emit := s\<rparr>))"

definition transform :: "(json \<Rightarrow> string) \<Rightarrow> sse_event \<Rightarrow> translator \<Rightarrow> (convert_error + sse_event list) \<times> translator" where
  "transform render event t =
     (if tr_finished t then (Inr [], t)
      else if is_done event then transform_done t
      else
        (case se_json event of
           None \<Rightarrow> (Inl (Sse_Error ''expected JSON SSE payload''), t)
         | Some v \<Rightarrow> (let (es, t') = transform_value render v t in (Inr es, t'))))"

text \<open>A whole stream: the events one by one, the finish at its end, and the first error ends it.\<close>

fun translate_events ::
  "(json \<Rightarrow> string) \<Rightarrow> sse_event list \<Rightarrow> translator \<Rightarrow> (convert_error + sse_event list) \<times> translator" where
  "translate_events render [] t = finish_once t"
| "translate_events render (event # events) t =
     (case transform render event t of
        (Inl e, t') \<Rightarrow> (Inl e, t')
      | (Inr es, t') \<Rightarrow>
          (let (r, t'') = translate_events render events t' in (res_map (\<lambda>fs. es @ fs) r, t'')))"

definition translate_stream ::
  "(json \<Rightarrow> string) \<Rightarrow> nat \<Rightarrow> endpoint \<Rightarrow> endpoint \<Rightarrow> sse_event list \<Rightarrow> convert_error + sse_event list" where
  "translate_stream render created_at source target events =
     fst (translate_events render events (new_translator created_at source target))"

section \<open>What a reader of a stream is told\<close>

text \<open>The deltas of one event, without what the accumulator adds to tool calls.\<close>

definition plain_deltas :: "endpoint \<Rightarrow> (json \<Rightarrow> string) \<Rightarrow> json \<Rightarrow> ir_delta list" where
  "plain_deltas e render v =
     (case e of
        Chat_Completions \<Rightarrow> delta_from_chat_chunk v
      | Responses \<Rightarrow> delta_from_responses_event v
      | Messages \<Rightarrow> delta_from_messages_event render v)"

definition event_deltas :: "endpoint \<Rightarrow> (json \<Rightarrow> string) \<Rightarrow> sse_event list \<Rightarrow> ir_delta list" where
  "event_deltas e render es = concat (map (\<lambda>ev. plain_deltas e render (the (se_json ev))) es)"

lemma event_deltas_append: "event_deltas e render (es @ fs) = event_deltas e render es @ event_deltas e render fs"
  by (simp add: event_deltas_def)

text \<open>Two lists of deltas that say the same text and reasoning.\<close>

definition same_words :: "ir_delta list \<Rightarrow> ir_delta list \<Rightarrow> bool" where
  "same_words ds es \<longleftrightarrow> delta_text ds = delta_text es \<and> delta_reasoning ds = delta_reasoning es"

lemma same_words_refl [simp]: "same_words ds ds"
  by (simp add: same_words_def)

lemma same_words_append: "same_words ds es \<Longrightarrow> same_words ds' es' \<Longrightarrow> same_words (ds @ ds') (es @ es')"
  by (simp add: same_words_def delta_append)

lemma same_words_trans: "same_words ds es \<Longrightarrow> same_words es fs \<Longrightarrow> same_words ds fs"
  by (simp add: same_words_def)

lemma same_words_map:
  assumes "\<And>d. d \<in> set ds \<Longrightarrow> same_words [f d] [d]"
  shows "same_words (map f ds) ds"
  using assms
proof (induction ds)
  case (Cons d ds)
  have "same_words ([f d] @ map f ds) ([d] @ ds)"
    by (rule same_words_append) (use Cons in simp_all)
  then show ?case by simp
qed simp

lemma same_words_concat:
  assumes "\<And>d. same_words (f d) [d]"
  shows "same_words (concat (map f ds)) ds"
proof (induction ds)
  case (Cons d ds)
  have "same_words (f d @ concat (map f ds)) ([d] @ ds)" by (rule same_words_append [OF assms Cons])
  then show ?case by simp
qed simp

lemma wordless:
  "same_words [D_Tool_Call i c n a] []" "same_words [D_Usage u] []" "same_words [D_Finish r] []"
  by (simp_all add: same_words_def delta_text_def delta_reasoning_def)

lemma set_finish_words: "same_words [set_finish r d] [d]"
  by (cases d) (simp_all add: same_words_def delta_text_def delta_reasoning_def)

lemma complete_tool_call_words: "same_words [complete_tool_call items d] [d]"
  by (cases d) (simp_all add: same_words_def delta_text_def delta_reasoning_def split: option.split)

lemma push_value_words: "same_words (fst (push_value render v a)) (plain_deltas (ac_endpoint a) render v)"
proof -
  have resp: "same_words (fst (responses_deltas v a)) (delta_from_responses_event v)"
    unfolding responses_deltas_def Let_def fst_conv
    by (rule same_words_trans [OF same_words_map [OF complete_tool_call_words]])
      (auto intro: same_words_map [OF set_finish_words])
  have msgs: "same_words (fst (messages_deltas render v b)) (delta_from_messages_event render v)" for b
    using same_words_append [OF same_words_refl wordless(1), of "delta_from_messages_event render v"]
    by (auto simp: messages_deltas_def Let_def)
  show ?thesis
    using resp msgs by (cases "ac_endpoint a") (auto simp: push_value_def plain_deltas_def Let_def split_beta)
qed

text \<open>Events that an accumulator reads without stopping.\<close>

definition readable :: "sse_event \<Rightarrow> bool" where
  "readable e \<longleftrightarrow> \<not> is_done e \<and> se_json e \<noteq> None"

lemma readable_json [simp]: "readable (sse_json k v)"
  by (simp add: readable_def is_done_def sse_json_def)

definition read_all :: "(json \<Rightarrow> string) \<Rightarrow> sse_event list \<Rightarrow> accumulator \<Rightarrow> accumulator" where
  "read_all render es a = fold (\<lambda>e a. snd (push_value render (the (se_json e)) a)) es a"

lemma accumulate_readable:
  "\<forall>e \<in> set es. readable e \<Longrightarrow>
   accumulate_events render (map Inr es @ rest) a = accumulate_events render rest (read_all render es a)"
  by (induction es arbitrary: a) (auto simp: readable_def read_all_def)

lemma acc_finish_said:
  "ir_content (acc_finish a) = ir_content (ac_response a)" "ir_tool_calls (acc_finish a) = ir_tool_calls (ac_response a)"
  by (simp_all add: acc_finish_def Let_def)

text \<open>The words an accumulator has gathered.\<close>

definition gathered :: "ir_response \<Rightarrow> string \<times> string" where
  "gathered r = (text_from_parts (ir_content r), reasoning_of_parts (ir_content r))"

lemma gathered_push:
  assumes "push_value render v a = (ds, a')"
  shows "gathered (ac_response a') = (fst (gathered (ac_response a)) @ delta_text ds, snd (gathered (ac_response a)) @ delta_reasoning ds)"
  using push_deltas_accumulate [of ds "ac_response a"] push_value_response(2) [OF assms] by (simp add: gathered_def)

lemma read_all_gathers:
  "ac_endpoint (read_all render es a) = ac_endpoint a \<and>
   gathered (ac_response (read_all render es a)) =
     (fst (gathered (ac_response a)) @ delta_text (event_deltas (ac_endpoint a) render es),
      snd (gathered (ac_response a)) @ delta_reasoning (event_deltas (ac_endpoint a) render es))"
proof (induction es arbitrary: a)
  case Nil
  then show ?case by (simp add: read_all_def event_deltas_def delta_text_def delta_reasoning_def)
next
  case (Cons e es)
  obtain ds a' where p: "push_value render (the (se_json e)) a = (ds, a')" by fastforce
  have w: "same_words ds (plain_deltas (ac_endpoint a) render (the (se_json e)))"
    using push_value_words [of render "the (se_json e)" a] p by simp
  have "read_all render (e # es) a = read_all render es a'" using p by (simp add: read_all_def)
  with Cons.IH [of a'] gathered_push [OF p] push_value_response(1) [OF p] w show ?case
    by (simp add: event_deltas_def delta_append same_words_def)
qed

section \<open>What the emitters say\<close>

text \<open>Events that say the words of some deltas to a reader of the target.\<close>

definition says :: "endpoint \<Rightarrow> (json \<Rightarrow> string) \<Rightarrow> sse_event list \<Rightarrow> ir_delta list \<Rightarrow> bool" where
  "says e render es ds \<longleftrightarrow> (\<forall>ev \<in> set es. readable ev) \<and> same_words (event_deltas e render es) ds"

lemma says_Nil [simp]: "says e render [] []"
  by (simp add: says_def event_deltas_def)

lemma says_append: "says e render es ds \<Longrightarrow> says e render fs ds' \<Longrightarrow> says e render (es @ fs) (ds @ ds')"
  by (auto simp: says_def event_deltas_append intro: same_words_append)

lemma says_silent: "says e render es ds \<Longrightarrow> says e render fs [] \<Longrightarrow> says e render (es @ fs) ds"
  using says_append [of e render es ds fs "[]"] by simp

lemma says_after: "says e render es [] \<Longrightarrow> says e render fs ds \<Longrightarrow> says e render (es @ fs) ds"
  using says_append [of e render es "[]" fs ds] by simp

lemma says_words: "says e render es ds \<Longrightarrow> same_words ds ds' \<Longrightarrow> says e render es ds'"
  by (auto simp: says_def intro: same_words_trans)

lemma chunk_words: "same_words (delta_from_chat_chunk (chunk_of_delta i m d)) [d]"
proof (cases "delta_in_range d")
  case True
  have "same_words (chat_view d) [d]"
    by (cases d) (auto simp: wordless same_words_def delta_text_def delta_reasoning_def usage_delta_def split: option.split)
  then show ?thesis unfolding chunk_round_trip [OF True] .
next
  case False
  then obtain j c n a where d: "d = D_Tool_Call j c n a" by (cases d) auto
  show ?thesis
    unfolding d
    by (simp add: delta_from_chat_chunk_def chat_chunk_fields chat_choice_fields chat_content_deltas_def json_eval
        chat_call_delta_def usage_delta_def usage_from_openai_def same_words_def delta_text_def delta_reasoning_def)
qed

lemma messages_event_words: "same_words (delta_from_messages_event render (snd (event_of_delta d))) [d]"
  by (cases d) (simp_all add: delta_from_messages_event_def block_delta_event_def json_eval block_delta_delta_def
      same_words_def delta_text_def delta_reasoning_def)

lemma chat_chunks_say: "says Chat_Completions render (map (sse_json None) (chunk_from_deltas i m ds False)) ds"
proof -
  have "event_deltas Chat_Completions render (map (sse_json None) (chunk_from_deltas i m ds False)) =
      concat (map (\<lambda>d. delta_from_chat_chunk (chunk_of_delta i m d)) ds)"
    by (simp add: event_deltas_def plain_deltas_def chunk_from_deltas_def comp_def)
  with same_words_concat [of "\<lambda>d. delta_from_chat_chunk (chunk_of_delta i m d)", OF chunk_words]
  show ?thesis by (simp add: says_def)
qed

lemma messages_events_say:
  "says Messages render (map named_event (messages_events_from_deltas i m ds False)) ds"
proof -
  have "event_deltas Messages render (map named_event (messages_events_from_deltas i m ds False)) =
      concat (map (\<lambda>d. delta_from_messages_event render (snd (event_of_delta d))) ds)"
    by (simp add: event_deltas_def plain_deltas_def messages_events_from_deltas_def comp_def named_event_def)
  with same_words_concat [of "\<lambda>d. delta_from_messages_event render (snd (event_of_delta d))", OF messages_event_words]
  show ?thesis by (simp add: says_def named_event_def)
qed

lemma messages_frame_say:
  "says Messages render (map named_event [message_start_event i m, block_start_event]) []"
  "says Messages render (map named_event [block_stop_event 0, message_stop_event]) []"
  by (simp_all add: says_def event_deltas_def plain_deltas_def named_event_def message_start_event_def block_start_event_def
      block_stop_event_def message_stop_event_def delta_from_messages_event_def json_eval block_start_delta_def same_words_def
      delta_text_def delta_reasoning_def)

text \<open>The events of the Responses lifecycle: only the delta events say something.\<close>

definition wordless_kinds :: "string set" where
  "wordless_kinds =
     {''response.created'', ''response.in_progress'', ''response.output_item.added'', ''response.content_part.added'',
      ''response.output_text.done'', ''response.content_part.done'', ''response.output_item.done'',
      ''response.reasoning_text.done'', ''response.function_call_arguments.done'', ''response.function_call_arguments.delta'',
      ''response.completed'', ''response.incomplete'', ''response.failed'', ''response.cancelled''}"

lemma wordless_kind:
  assumes "get_str v ''type'' = Some kind" and "kind \<in> wordless_kinds"
  shows "same_words (delta_from_responses_event v) []"
  using assms(2,1) unfolding wordless_kinds_def
  by (elim insertE emptyE)
    (simp_all add: delta_from_responses_event_def usage_delta_def same_words_def delta_text_def delta_reasoning_def
      split: option.split)

lemma silent_event:
  assumes "kind \<in> wordless_kinds" and "plain_payload payload"
  shows "says Responses render [fst (emit_event kind payload em)] []"
proof -
  have "get_str (event_value kind payload n) ''type'' = Some kind" for n
    by (simp add: get_str_def event_value_get [OF assms(2)])
  from wordless_kind [OF this assms(1)] show ?thesis
    by (simp add: says_def event_deltas_def plain_deltas_def emit_event_eq)
qed

text \<open>The same for lists of events built one by one.\<close>

lemma says_Cons: "says e render [ev] ds \<Longrightarrow> says e render evs ds' \<Longrightarrow> says e render (ev # evs) (ds @ ds')"
  using says_append [of e render "[ev]" ds evs ds'] by simp

lemma silent_step:
  assumes "kind \<in> wordless_kinds" and "plain_payload payload" and "says Responses render es ds"
  shows "says Responses render (sse_json (Some kind) (event_value kind payload n) # es) ds"
  using says_Cons [OF silent_event [OF assms(1,2), of render "new_emitter 0 [] []\<lparr>em_sequence := n\<rparr>"] assms(3)]
  by (simp add: emit_event_eq)

lemmas silent_eval = silent_step plain_payload_def wordless_kinds_def emit_event_eq Let_def

lemma close_item_silent: "says Responses render (fst (close_item item em)) []"
  by (cases item) (simp_all add: close_message_def close_function_call_def close_reasoning_def silent_eval)

lemma close_current_silent: "says Responses render (fst (close_current em)) []"
  by (cases "em_current em") (simp_all add: close_current_def close_item_silent)

lemma ensure_started_silent: "says Responses render (fst (ensure_started em)) []"
  by (simp add: ensure_started_def ensure_created_def ensure_in_progress_def silent_eval)

lemma open_silent:
  "says Responses render (fst (open_message em)) []"
  "says Responses render (fst (open_reasoning em)) []"
  "says Responses render (fst (open_function_call ci i n em)) []"
  using close_current_silent [of render em]
  by (auto simp: open_message_def open_reasoning_def open_function_call_def begin_item_def synth_item_id_def silent_eval
      split_beta intro!: says_silent)

lemma open_current:
  "\<exists>i j. em_current (snd (open_message em)) = Some (Open_Message i j [] True)"
  "\<exists>i j. em_current (snd (open_reasoning em)) = Some (Open_Reasoning i j [] True)"
  by (simp_all add: open_message_def open_reasoning_def Let_def split_beta)

lemma text_event_says:
  "says Responses render
     [sse_json (Some ''response.output_text.delta'')
        (event_value ''response.output_text.delta''
           [(''item_id'', i), (''output_index'', j), (''content_index'', k), (''delta'', J_String t)] n)] [D_Text t]"
  by (simp add: says_def event_deltas_def plain_deltas_def delta_from_responses_event_def get_str_def event_value_get
      plain_payload_def)

lemma reasoning_event_says:
  "says Responses render
     [sse_json (Some ''response.reasoning_text.delta'')
        (event_value ''response.reasoning_text.delta''
           [(''item_id'', i), (''output_index'', j), (''content_index'', k), (''delta'', J_String t)] n)] [D_Reasoning t]"
  by (simp add: says_def event_deltas_def plain_deltas_def delta_from_responses_event_def get_str_def event_value_get
      plain_payload_def)

lemma no_text: "same_words [] [D_Text []]" "same_words [] [D_Reasoning []]"
  by (simp_all add: same_words_def delta_text_def delta_reasoning_def)

lemma handle_text_says: "says Responses render (fst (handle_text t em)) [D_Text t]"
proof (cases "t = []")
  case True
  then show ?thesis using says_words [OF says_Nil no_text(1)] by (simp add: handle_text_def)
next
  case False
  let ?o = "case em_current em of Some (Open_Message _ _ _ _) \<Rightarrow> ([], em) | _ \<Rightarrow> open_message em"
  have "says Responses render (fst ?o) []" and "\<exists>i j b p. em_current (snd ?o) = Some (Open_Message i j b p)"
    using open_silent(1) [of render em] open_current(1) [of em] by (auto split: option.split open_item.split)
  with False show ?thesis
    by (auto simp: handle_text_def Let_def split_beta emit_event_eq intro!: says_after text_event_says)
qed

lemma handle_reasoning_says: "says Responses render (fst (handle_reasoning t em)) [D_Reasoning t]"
proof (cases "t = []")
  case True
  then show ?thesis using says_words [OF says_Nil no_text(2)] by (simp add: handle_reasoning_def)
next
  case False
  let ?o = "case em_current em of Some (Open_Reasoning _ _ _ _) \<Rightarrow> ([], em) | _ \<Rightarrow> open_reasoning em"
  have "says Responses render (fst ?o) []" and "\<exists>i j b p. em_current (snd ?o) = Some (Open_Reasoning i j b p)"
    using open_silent(2) [of render em] open_current(2) [of em] by (auto split: option.split open_item.split)
  with False show ?thesis
    by (auto simp: handle_reasoning_def Let_def split_beta emit_event_eq intro!: says_after reasoning_event_says)
qed

lemma handle_tool_call_silent: "says Responses render (fst (handle_tool_call ci i n a em)) []"
proof -
  let ?o = "if same_call ci em then ([], em) else open_function_call ci i n em"
  have o: "says Responses render (fst ?o) []" using open_silent(3) [of render ci i n em] by simp
  show ?thesis
    unfolding handle_tool_call_def
    using o
    by (auto simp: Let_def split_beta emit_event_eq plain_payload_def wordless_kinds_def
        intro!: says_silent silent_step split: option.split open_item.split)
qed

lemma handle_deltas_say: "says Responses render (fst (handle_deltas ds em)) ds"
proof (induction ds arbitrary: em)
  case (Cons d ds)
  have "says Responses render (fst (handle_delta d em)) [d]"
    using handle_text_says handle_reasoning_says says_words [OF handle_tool_call_silent]
      says_words [OF says_Nil, of "[d]"] wordless
    by (cases d) (auto simp: same_words_def)
  from says_append [OF this Cons.IH [of "snd (handle_delta d em)"]] show ?case by (simp add: split_beta Let_def)
qed simp

lemma emitter_emit_says: "says Responses render (fst (emitter_emit ds em)) ds"
  using says_append [OF ensure_started_silent handle_deltas_say] by (auto simp: emitter_emit_def Let_def split_beta)

lemma terminal_silent: "terminal_event status \<in> wordless_kinds"
  by (simp add: terminal_event_def wordless_kinds_def)

lemma emitter_finish_silent: "says Responses render (fst (emitter_finish em)) []"
  using silent_event [OF terminal_silent]
  by (auto simp: emitter_finish_def Let_def split_beta plain_payload_def intro!: says_silent
      ensure_started_silent close_current_silent)

section \<open>What the translator says\<close>

definition emit_ok :: "emit_state \<Rightarrow> bool" where
  "emit_ok s \<longleftrightarrow> (es_to s = Responses \<longrightarrow> es_responses s \<noteq> None)"

lemma new_emit_ok: "emit_ok (new_emit_state created_at target)"
  by (simp add: emit_ok_def new_emit_state_def Let_def)

lemma update_metadata_frame:
  "es_to (update_metadata a s) = es_to s" "emit_ok (update_metadata a s) = emit_ok s"
  "es_finished (update_metadata a s) = es_finished s"
  by (auto simp: update_metadata_def emit_ok_def Let_def split: option.split)

lemma ensure_emit_started_silent:
  "says (es_to s) render (fst (ensure_emit_started s)) []"
  "es_to (snd (ensure_emit_started s)) = es_to s" "es_responses (snd (ensure_emit_started s)) = es_responses s"
  "es_finished (snd (ensure_emit_started s)) = es_finished s"
  using messages_frame_say(1)
  by (auto simp: ensure_emit_started_def start_events_def split: endpoint.split)

lemma emit_deltas_say:
  assumes "emit_ok s"
  shows "says (es_to s) render (fst (emit_deltas ds s)) ds \<and> emit_ok (snd (emit_deltas ds s)) \<and>
    es_to (snd (emit_deltas ds s)) = es_to s \<and> es_finished (snd (emit_deltas ds s)) = es_finished s"
proof (cases "ds = []")
  case False
  note started = ensure_emit_started_silent [of s]
  show ?thesis
  proof (cases "es_to s")
    case Chat_Completions
    with False started show ?thesis
      by (auto simp: emit_deltas_def Let_def split_beta emit_ok_def intro!: says_after chat_chunks_say)
  next
    case Messages
    with False started show ?thesis
      by (auto simp: emit_deltas_def Let_def split_beta emit_ok_def intro!: says_after messages_events_say)
  next
    case Responses
    with assms obtain em where "es_responses s = Some em" by (auto simp: emit_ok_def)
    with Responses False started show ?thesis
      by (auto simp: emit_deltas_def Let_def split_beta emit_ok_def intro!: says_after emitter_emit_says)
  qed
qed (use assms in \<open>simp add: emit_deltas_def\<close>)

text \<open>The end of a stream is silent and, for chat completions, the sentinel.\<close>

definition sentinel :: "endpoint \<Rightarrow> sse_event list" where
  "sentinel e = (if e = Chat_Completions then [sse_done] else [])"

lemma emit_finish_silent:
  assumes "emit_ok s" and "\<not> es_finished s"
  shows "\<exists>fs. fst (emit_finish s) = fs @ sentinel (es_to s) \<and> says (es_to s) render fs []"
proof -
  note started = ensure_emit_started_silent [of "s\<lparr>es_finished := True\<rparr>"]
  show ?thesis
  proof (cases "es_to s")
    case Chat_Completions
    with assms(2) started(1) [of render] started(2) show ?thesis
      by (auto simp: emit_finish_def Let_def split_beta sentinel_def)
  next
    case Messages
    with assms(2) started(1) [of render] started(2) show ?thesis
      by (auto simp: emit_finish_def Let_def split_beta sentinel_def intro!: says_after messages_frame_say(2) [simplified])
  next
    case Responses
    with assms obtain em where "es_responses s = Some em" by (auto simp: emit_ok_def)
    with Responses assms(2) started(1) [of render] started(2,3) show ?thesis
      by (auto simp: emit_finish_def Let_def split_beta sentinel_def intro!: says_after emitter_finish_silent)
  qed
qed

lemma filter_finish_words: "same_words (filter (\<lambda>d. \<not> is_finish d) ds) ds"
proof (induction ds)
  case (Cons d ds)
  then show ?case
    by (cases d) (simp_all add: same_words_def delta_text_def delta_reasoning_def)
qed simp

lemma settle_finish_words: "same_words (fst (settle_finish r seen ds)) ds"
  using filter_finish_words [of ds] same_words_map [of ds "set_finish x" for x, OF set_finish_words]
    same_words_append [OF same_words_refl wordless(3), of ds]
  by (auto simp: settle_finish_def split: option.split)

text \<open>The invariant of a translator that has not finished.\<close>

definition translating :: "translator \<Rightarrow> bool" where
  "translating t \<longleftrightarrow> \<not> tr_finished t \<and> emit_ok (tr_emit t) \<and> \<not> es_finished (tr_emit t)"

abbreviation target_of :: "translator \<Rightarrow> endpoint" where
  "target_of t \<equiv> es_to (tr_emit t)"

lemma new_translating: "translating (new_translator created_at source target)"
  by (simp add: translating_def new_translator_def new_emit_ok) (simp add: new_emit_state_def Let_def)

lemma transform_value_step:
  assumes "translating t" and "transform_value render v t = (es, t')"
  shows "\<exists>ds. push_value render v (tr_acc t) = (ds, tr_acc t') \<and> says (target_of t) render es ds \<and>
    translating t' \<and> target_of t' = target_of t"
proof -
  obtain ds a where p: "push_value render v (tr_acc t) = (ds, a)" by fastforce
  obtain ds' seen where s: "settle_finish (terminal_reason (tr_from t) v a ds) (tr_terminal_seen t) ds = (ds', seen)"
    by fastforce
  have w: "same_words ds' ds" using settle_finish_words [of "terminal_reason (tr_from t) v a ds" "tr_terminal_seen t" ds] s by simp
  have ok: "emit_ok (update_metadata a (tr_emit t))" using assms(1) by (simp add: translating_def update_metadata_frame)
  from emit_deltas_say [OF ok, of render ds'] w assms p s show ?thesis
    by (auto simp: transform_value_def Let_def split_beta translating_def update_metadata_frame intro: says_words)
qed

lemma finish_step:
  assumes "translating t" and "finish_once t = (Inr es, t')"
  shows "tr_finished t' \<and> (\<exists>fs. es = fs @ sentinel (target_of t) \<and> says (target_of t) render fs [])"
proof -
  let ?s = "update_metadata (tr_acc t) (tr_emit t)"
  have "emit_ok ?s" "\<not> es_finished ?s" using assms(1) by (simp_all add: translating_def update_metadata_frame)
  from emit_finish_silent [OF this, of render] obtain fs where
    "fst (emit_finish ?s) = fs @ sentinel (target_of t)" "says (target_of t) render fs []"
    by (auto simp: update_metadata_frame)
  moreover have "es = fst (emit_finish ?s) \<and> tr_finished t'"
    using assms by (auto simp: finish_once_def translating_def Let_def split_beta split: if_splits)
  ultimately show ?thesis by blast
qed

lemma transform_done_step:
  assumes "translating t" and "transform_done t = (Inr es, t')"
  shows "tr_finished t' \<and> (\<exists>fs. es = fs @ sentinel (target_of t) \<and> says (target_of t) render fs [])"
proof -
  let ?o = "if \<not> tr_terminal_seen t \<and> tr_from t = Responses \<and> has_tool_call (tr_acc t)
    then emit_deltas [D_Finish (Some ''tool_calls'')] (tr_emit t) else ([], tr_emit t)"
  have ok: "emit_ok (tr_emit t)" "\<not> es_finished (tr_emit t)" using assms(1) by (simp_all add: translating_def)
  have o: "says (target_of t) render (fst ?o) []" "emit_ok (snd ?o)" "es_to (snd ?o) = target_of t" "\<not> es_finished (snd ?o)"
    using emit_deltas_say [OF ok(1), of render "[D_Finish (Some ''tool_calls'')]"] ok says_words [OF _ wordless(3)]
    by auto
  let ?t = "t\<lparr>tr_terminal_seen := True, tr_emit := snd ?o\<rparr>"
  have tr: "translating ?t" using assms(1) o(2,4) by (simp add: translating_def)
  obtain r t2 where f: "finish_once ?t = (r, t2)" by fastforce
  have "transform_done t = (res_map (\<lambda>fs. fst ?o @ fs) r, t2)"
    using f by (simp add: transform_done_def Let_def split_beta)
  with assms(2) obtain fs where "r = Inr fs" "es = fst ?o @ fs" "t2 = t'" by (cases r) auto
  with finish_step [OF tr, of fs t' render] f o(1,3) show ?thesis
    by (auto intro!: says_after)
qed

lemma finished_silent:
  assumes "tr_finished t"
  shows "translate_events render events t = (Inr [], t)"
proof (induction events)
  case Nil
  then show ?case using assms by (simp add: finish_once_def)
next
  case (Cons e events)
  then show ?case using assms by (simp add: transform_def)
qed

lemma accumulate_until_done:
  assumes "says e render es ds" and "e = ac_endpoint a"
  shows "\<exists>r. accumulate_events render (map Inr (es @ sentinel e)) a = Inr r \<and>
    gathered r = (fst (gathered (ac_response a)) @ delta_text ds, snd (gathered (ac_response a)) @ delta_reasoning ds)"
proof -
  have r: "\<forall>x \<in> set es. readable x" using assms(1) by (simp add: says_def)
  have "accumulate_events render (map Inr es @ map Inr (sentinel e)) a = Inr (acc_finish (read_all render es a))"
    unfolding accumulate_readable [OF r]
    by (simp add: sentinel_def is_done_def sse_done_def done_sentinel_def) code_simp
  with read_all_gathers [of render es a] assms show ?thesis
    by (auto simp: says_def same_words_def gathered_def acc_finish_said)
qed

lemma translate_says:
  "translating t \<Longrightarrow> translate_events render events t = (Inr outs, t') \<Longrightarrow>
   \<exists>r fs ds. accumulate_events render (map Inr events) (tr_acc t) = Inr r \<and>
     outs = fs @ sentinel (target_of t) \<and> says (target_of t) render fs ds \<and>
     gathered r = (fst (gathered (ac_response (tr_acc t))) @ delta_text ds, snd (gathered (ac_response (tr_acc t))) @ delta_reasoning ds)"
proof (induction events arbitrary: t outs)
  case Nil
  then have "finish_once t = (Inr outs, t')" by simp
  from finish_step [OF Nil.prems(1) this, of render] obtain fs where
    "outs = fs @ sentinel (target_of t)" "says (target_of t) render fs []" by blast
  then show ?case
    by (intro exI [of _ "acc_finish (tr_acc t)"] exI [of _ fs] exI [of _ "[]"])
      (simp add: gathered_def acc_finish_said delta_text_def delta_reasoning_def)
next
  case (Cons ev events)
  from Cons.prems(2) obtain es t1 r1 where tr: "transform render ev t = (Inr es, t1)"
    and rest: "translate_events render events t1 = (Inr r1, t')" and outs: "outs = es @ r1"
    by (auto simp: Let_def split: sum.splits prod.splits)
  have alive: "\<not> tr_finished t" using Cons.prems(1) by (simp add: translating_def)
  show ?case
  proof (cases "is_done ev")
    case True
    with tr alive have "transform_done t = (Inr es, t1)" by (simp add: transform_def)
    from transform_done_step [OF Cons.prems(1) this, of render] obtain fs where
      f: "tr_finished t1" "es = fs @ sentinel (target_of t)" "says (target_of t) render fs []" by blast
    from finished_silent [OF f(1), of render events] rest have "r1 = []" by simp
    with True f(2,3) outs show ?thesis
      by (intro exI [of _ "acc_finish (tr_acc t)"] exI [of _ fs] exI [of _ "[]"])
        (simp add: gathered_def acc_finish_said delta_text_def delta_reasoning_def)
  next
    case False
    with tr alive obtain v where v: "se_json ev = Some v" "transform_value render v t = (es, t1)"
      by (auto simp: transform_def Let_def split: option.splits prod.splits)
    from transform_value_step [OF Cons.prems(1) v(2)] obtain ds where
      p: "push_value render v (tr_acc t) = (ds, tr_acc t1)" and s: "says (target_of t) render es ds"
      and t1: "translating t1" "target_of t1 = target_of t" by blast
    from Cons.IH [OF t1(1) rest] obtain r fs ds2 where
      r: "accumulate_events render (map Inr events) (tr_acc t1) = Inr r" "r1 = fs @ sentinel (target_of t)"
        "says (target_of t) render fs ds2"
      and g: "gathered r = (fst (gathered (ac_response (tr_acc t1))) @ delta_text ds2,
        snd (gathered (ac_response (tr_acc t1))) @ delta_reasoning ds2)"
      unfolding t1(2) by blast
    have "accumulate_events render (map Inr (ev # events)) (tr_acc t) = Inr r"
      using False v(1) p r(1) by simp
    moreover have "outs = (es @ fs) @ sentinel (target_of t)" using outs r(2) by simp
    moreover have "says (target_of t) render (es @ fs) (ds @ ds2)" by (rule says_append [OF s r(3)])
    moreover have "gathered r = (fst (gathered (ac_response (tr_acc t))) @ delta_text (ds @ ds2),
        snd (gathered (ac_response (tr_acc t))) @ delta_reasoning (ds @ ds2))"
      using g gathered_push [OF p] by (simp add: delta_append)
    ultimately show ?thesis by blast
  qed
qed

section \<open>Properties\<close>

text \<open>
  C1. Translating a stream keeps its words: when a stream translates from one dialect to
  another without an error, accumulating the translated events as the target dialect
  succeeds and gives a response with exactly the text and the reasoning of the response that
  the source's own events accumulate to.
\<close>

theorem translated_stream_keeps_words:
  assumes "translate_stream render created_at source target events = Inr outs"
  shows "\<exists>r r'. sse_accumulate render source (map Inr events) = Inr r \<and> sse_accumulate render target (map Inr outs) = Inr r' \<and>
    text_from_parts (ir_content r') = text_from_parts (ir_content r) \<and>
    reasoning_from_parts (ir_content r') = reasoning_from_parts (ir_content r)"
proof -
  let ?t = "new_translator created_at source target"
  obtain t' where run: "translate_events render events ?t = (Inr outs, t')"
    using assms unfolding translate_stream_def by (metis prod.collapse)
  have init: "tr_acc ?t = new_accumulator source" "target_of ?t = target"
    by (simp_all add: new_translator_def new_emit_state_def Let_def)
  have empty: "gathered (ac_response (new_accumulator e)) = ([], [])" for e
    by (simp add: gathered_def new_accumulator_def empty_response_def text_from_parts_def reasoning_of_parts_def)
  from translate_says [OF new_translating run, unfolded init empty] obtain r fs ds where
    r: "accumulate_events render (map Inr events) (new_accumulator source) = Inr r" "outs = fs @ sentinel target"
    "says target render fs ds" "gathered r = (delta_text ds, delta_reasoning ds)" by auto
  have "target = ac_endpoint (new_accumulator target)" by (simp add: new_accumulator_def)
  from accumulate_until_done [OF r(3) this, unfolded empty] obtain r' where
    r': "accumulate_events render (map Inr outs) (new_accumulator target) = Inr r'" "gathered r' = (delta_text ds, delta_reasoning ds)"
    unfolding r(2) by auto
  have "reasoning_from_parts p = (if reasoning_of_parts p = [] then None else Some (reasoning_of_parts p))" for p
    by (simp add: reasoning_from_parts_def reasoning_of_parts_def Let_def)
  with r(1,4) r' show ?thesis by (auto simp: sse_accumulate_def gathered_def)
qed

definition sample_chat_stream :: "sse_event list" where
  "sample_chat_stream =
     [sse_json None (chunk_of_delta ''c1'' ''gpt'' (D_Reasoning ''hm'')), sse_json None (chunk_of_delta ''c1'' ''gpt'' (D_Text ''hi'')),
      sse_json None (chunk_of_delta ''c1'' ''gpt'' (D_Finish (Some ''stop''))), sse_done]"

lemma sample_chat_translates:
  "\<exists>outs. translate_stream (\<lambda>_. []) 7 Chat_Completions Responses sample_chat_stream = Inr outs"
proof -
  have "case translate_stream (\<lambda>_. []) 7 Chat_Completions Responses sample_chat_stream of Inr _ \<Rightarrow> True | Inl _ \<Rightarrow> False"
    by code_simp
  then show ?thesis by (auto split: sum.splits)
qed

theorem translated_stream_keeps_words_witness:
  "\<exists>outs r r'. translate_stream (\<lambda>_. []) 7 Chat_Completions Responses sample_chat_stream = Inr outs \<and>
     sse_accumulate (\<lambda>_. []) Chat_Completions (map Inr sample_chat_stream) = Inr r \<and>
     sse_accumulate (\<lambda>_. []) Responses (map Inr outs) = Inr r' \<and>
     text_from_parts (ir_content r') = text_from_parts (ir_content r)"
proof -
  from sample_chat_translates obtain outs where
    o: "translate_stream (\<lambda>_. []) 7 Chat_Completions Responses sample_chat_stream = Inr outs" by blast
  from translated_stream_keeps_words [OF o] o show ?thesis by blast
qed

text \<open>
  Whether a stream ends its response, read off the accumulator alone: the sentinel, an event
  with a terminal reason, or a finish delta.
\<close>

fun ends_response :: "(json \<Rightarrow> string) \<Rightarrow> sse_event list \<Rightarrow> accumulator \<Rightarrow> bool" where
  "ends_response render [] a = False"
| "ends_response render (ev # events) a =
     (is_done ev \<or>
      (let v = the (se_json ev); (ds, a') = push_value render v a
       in terminal_reason (ac_endpoint a) v a' ds \<noteq> None \<or> list_ex is_finish ds \<or> ends_response render events a'))"

definition truncated_error :: convert_error where
  "truncated_error = Sse_Error ''upstream stream ended before a terminal event''"

lemma settle_finish_seen:
  "snd (settle_finish r seen ds) \<longleftrightarrow> seen \<or> r \<noteq> None \<or> list_ex is_finish ds"
  by (auto simp: settle_finish_def split: option.split)

lemma transform_value_state:
  assumes "transform_value render v t = (es, t')" and "push_value render v (tr_acc t) = (ds, a)"
  shows "tr_acc t' = a" and "tr_from t' = tr_from t" and "tr_finished t' = tr_finished t"
    and "tr_terminal_seen t' \<longleftrightarrow>
      tr_terminal_seen t \<or> terminal_reason (tr_from t) v a ds \<noteq> None \<or> list_ex is_finish ds"
  using assms settle_finish_seen [of "terminal_reason (tr_from t) v a ds" "tr_terminal_seen t" ds]
  by (auto simp: transform_value_def Let_def split_beta)

lemma translate_outcome:
  assumes "\<not> tr_finished t" and "tr_from t = ac_endpoint (tr_acc t)" and "\<forall>ev \<in> set events. is_done ev \<or> se_json ev \<noteq> None"
  shows "if tr_terminal_seen t \<or> ends_response render events (tr_acc t)
     then \<exists>outs t'. translate_events render events t = (Inr outs, t')
     else \<exists>t'. translate_events render events t = (Inl truncated_error, t')"
  using assms
proof (induction events arbitrary: t)
  case Nil
  then show ?case by (simp add: finish_once_def Let_def split_beta truncated_error_def)
next
  case (Cons ev events)
  show ?case
  proof (cases "is_done ev")
    case True
    let ?o = "if \<not> tr_terminal_seen t \<and> tr_from t = Responses \<and> has_tool_call (tr_acc t)
      then emit_deltas [D_Finish (Some ''tool_calls'')] (tr_emit t) else ([], tr_emit t)"
    let ?t = "t\<lparr>tr_terminal_seen := True, tr_emit := snd ?o\<rparr>"
    obtain fs t2 where f: "finish_once ?t = (Inr fs, t2)" "tr_finished t2"
      using Cons.prems(1) by (auto simp: finish_once_def Let_def split_beta)
    have "transform render ev t = (Inr (fst ?o @ fs), t2)"
      using True Cons.prems(1) f(1) by (simp add: transform_def transform_done_def Let_def split_beta)
    with True finished_silent [OF f(2)] show ?thesis by simp
  next
    case False
    with Cons.prems(3) obtain v where v: "se_json ev = Some v" by auto
    obtain es t1 where e: "transform_value render v t = (es, t1)" by fastforce
    obtain ds a where p: "push_value render v (tr_acc t) = (ds, a)" by fastforce
    note st = transform_value_state [OF e p]
    have "tr_from t1 = ac_endpoint (tr_acc t1)" using Cons.prems(2) st(1,2) push_value_response(1) [OF p] by simp
    from Cons.IH [of t1, OF _ this] Cons.prems st(3) have ih:
      "if tr_terminal_seen t1 \<or> ends_response render events a
       then \<exists>outs t'. translate_events render events t1 = (Inr outs, t')
       else \<exists>t'. translate_events render events t1 = (Inl truncated_error, t')"
      unfolding st(1) by simp
    have step: "translate_events render (ev # events) t =
        (let (r, t'') = translate_events render events t1 in (res_map (\<lambda>fs. es @ fs) r, t''))"
      using False v e Cons.prems(1) by (simp add: transform_def)
    have "tr_terminal_seen t1 \<or> ends_response render events a \<longleftrightarrow>
        tr_terminal_seen t \<or> ends_response render (ev # events) (tr_acc t)"
      using False v p st(4) Cons.prems(2) by auto
    with ih step show ?thesis by (auto split: if_splits)
  qed
qed

text \<open>
  C9. A truncated stream is never completed: a stream of JSON events and sentinels translates
  exactly when one of its events ends the response, and fails with the truncation error
  otherwise, whatever has been emitted before.
\<close>

theorem truncated_stream_is_an_error:
  assumes "\<forall>ev \<in> set events. is_done ev \<or> se_json ev \<noteq> None"
  shows "if ends_response render events (new_accumulator source)
     then \<exists>outs. translate_stream render created_at source target events = Inr outs
     else translate_stream render created_at source target events = Inl truncated_error"
proof -
  let ?t = "new_translator created_at source target"
  have t: "\<not> tr_finished ?t" "tr_from ?t = ac_endpoint (tr_acc ?t)" "tr_acc ?t = new_accumulator source" "\<not> tr_terminal_seen ?t"
    by (simp_all add: new_translator_def new_accumulator_def)
  from translate_outcome [OF t(1,2) assms, of render] t(3,4) show ?thesis
    by (auto simp: translate_stream_def split: if_splits)
qed

theorem truncated_stream_is_an_error_witness:
  "translate_stream (\<lambda>_. []) 7 Chat_Completions Messages [sse_json None (chunk_of_delta ''c1'' ''gpt'' (D_Text ''par''))] =
     Inl truncated_error"
proof -
  have "\<not> ends_response (\<lambda>_. []) [sse_json None (chunk_of_delta ''c1'' ''gpt'' (D_Text ''par''))] (new_accumulator Chat_Completions)"
    by code_simp
  with truncated_stream_is_an_error [of "[sse_json None (chunk_of_delta ''c1'' ''gpt'' (D_Text ''par''))]" "\<lambda>_. []" Chat_Completions 7 Messages]
  show ?thesis by simp
qed

section \<open>A loss\<close>

text \<open>
  The messages target starts a text block only: the arguments of a tool call are sent as deltas
  of a block that was never started, and its name and identifier are lost.
\<close>

definition sample_tool_stream :: "sse_event list" where
  "sample_tool_stream =
     [sse_json None (chunk_of_delta ''c1'' ''gpt'' (D_Tool_Call 0 (Some ''call_1'') (Some ''lookup'') ''{}'')),
      sse_json None (chunk_of_delta ''c1'' ''gpt'' (D_Finish (Some ''tool_calls''))), sse_done]"

definition calls_seen :: "endpoint \<Rightarrow> convert_error + sse_event list \<Rightarrow> (string option \<times> string) list option" where
  "calls_seen e stream =
     (case stream of
        Inl _ \<Rightarrow> None
      | Inr events \<Rightarrow>
          (case sse_accumulate (\<lambda>_. []) e (map Inr events) of
             Inl _ \<Rightarrow> None
           | Inr r \<Rightarrow> Some (map (\<lambda>c. (tc_id c, tc_name c)) (ir_tool_calls r))))"

lemma messages_target_loses_tool_identity:
  "calls_seen Chat_Completions (Inr sample_tool_stream) = Some [(Some ''call_1'', ''lookup'')] \<and>
   calls_seen Messages (translate_stream (\<lambda>_. []) 0 Chat_Completions Messages sample_tool_stream) = Some [(None, [])]"
  by code_simp

end
