(* ===== verification/Sse_Pipeline.thy ===== *)
theory Sse_Pipeline
  imports Sse_Translate
begin

text \<open>
  The streaming pipeline (crates/convert/src/sse/pipeline.rs and codec.rs): a stream that the
  client polls, a chain of transformers, an observer that is told what passes, and a
  finalizer that runs at the end of the stream or when the client drops it.

  The event decoder is the eventsource library: what it does is a script, the steps it takes
  as it is polled (\<open>script_step\<close>). A transformer is a state with its two operations \<open>tf\<close>
  and \<open>fin\<close>, arguments of what uses them; the endpoint translator is the one the gateway
  installs. Sending to the observer never fails the stream.
\<close>

section \<open>Encoding\<close>

text \<open>\<open>str::lines\<close>: the last line may lack its newline, and a carriage return before one is dropped.\<close>

definition chomp_cr :: "string \<Rightarrow> string" where
  "chomp_cr l = (if l \<noteq> [] \<and> last l = CHR 0x0D then butlast l else l)"

fun str_lines :: "string \<Rightarrow> string list" where
  "str_lines s =
     (let ls = split_on (CHR 0x0A) s
      in if last ls = [] then map chomp_cr (butlast ls) else map chomp_cr (butlast ls) @ [last ls])"

definition newline :: string where
  "newline = [CHR 0x0A]"

definition encode_sse :: "string option \<Rightarrow> string \<Rightarrow> string" where
  "encode_sse event data =
     (case event of Some name \<Rightarrow> ''event: '' @ name @ newline | None \<Rightarrow> []) @
     (if data = [] then ''data:'' @ newline @ newline
      else concat (map (\<lambda>line. ''data: '' @ line @ newline) (str_lines data)) @ newline)"

definition encode_done :: string where
  "encode_done = ''data: [DONE]'' @ newline @ newline"

fun data_text :: "(json \<Rightarrow> string) \<Rightarrow> sse_data \<Rightarrow> string" where
  "data_text render (Text_Data data) = data"
| "data_text render (Rendered v) = render v"

definition encode_event :: "(json \<Rightarrow> string) \<Rightarrow> sse_event \<Rightarrow> string" where
  "encode_event render e =
     (if is_done e then encode_done else encode_sse (se_event e) (data_text render (se_data e)))"

text \<open>The message of an error.\<close>

fun convert_error_text :: "convert_error \<Rightarrow> string" where
  "convert_error_text (Missing_Field field) = ''missing required field `'' @ field @ ''`''"
| "convert_error_text (Bad_Shape field message) = ''bad `'' @ field @ ''` shape: '' @ message"
| "convert_error_text (Unsupported_Feature message) = ''unsupported conversion feature: '' @ message"
| "convert_error_text (Json_Error _) = ''json conversion failed''"
| "convert_error_text (Sse_Error message) = ''sse conversion failed: '' @ message"

section \<open>The stream\<close>

datatype script_step = Chunk string | Decoded sse_event | Fault string | Wait

datatype observer_msg =
    Obs_From string
  | Obs_Parsed "json option"
  | Obs_Transformed "json option"
  | Obs_To string
  | Obs_Done
  | Obs_Error string

record tap_kinds =
  tk_from :: bool
  tk_parsed :: bool
  tk_transformed :: bool
  tk_to :: bool

definition all_taps :: tap_kinds where
  "all_taps = \<lparr>tk_from = True, tk_parsed = True, tk_transformed = True, tk_to = True\<rparr>"

definition parsed_only :: tap_kinds where
  "parsed_only = \<lparr>tk_from = False, tk_parsed = True, tk_transformed = False, tk_to = False\<rparr>"

text \<open>
  The pipeline as it runs: \<open>sp_tap\<close> holds what the observer was sent, if one is attached;
  \<open>sp_fin\<close> that the finalizer has not run yet.
\<close>

record 't stream_pipeline =
  sp_source :: "script_step list"
  sp_transformers :: "'t list"
  sp_tap :: "observer_msg list option"
  sp_kinds :: tap_kinds
  sp_pending :: "(string + string) list"
  sp_source_done :: bool
  sp_fin :: bool

definition new_pipeline :: "script_step list \<Rightarrow> 't list \<Rightarrow> tap_kinds option \<Rightarrow> 't stream_pipeline" where
  "new_pipeline source transformers tap =
     \<lparr>sp_source = source, sp_transformers = transformers, sp_tap = map_option (\<lambda>_. []) tap,
      sp_kinds = (case tap of Some kinds \<Rightarrow> kinds
                  | None \<Rightarrow> \<lparr>tk_from = False, tk_parsed = False, tk_transformed = False, tk_to = False\<rparr>),
      sp_pending = [], sp_source_done = False, sp_fin = True\<rparr>"

definition send_tap :: "observer_msg \<Rightarrow> 't stream_pipeline \<Rightarrow> 't stream_pipeline" where
  "send_tap msg p = p\<lparr>sp_tap := map_option (\<lambda>log. log @ [msg]) (sp_tap p)\<rparr>"

definition send_tap_if :: "bool \<Rightarrow> observer_msg \<Rightarrow> 't stream_pipeline \<Rightarrow> 't stream_pipeline" where
  "send_tap_if enabled msg p = (if enabled then send_tap msg p else p)"

text \<open>One event to the client.\<close>

definition output_event :: "(json \<Rightarrow> string) \<Rightarrow> sse_event \<Rightarrow> 't stream_pipeline \<Rightarrow> 't stream_pipeline" where
  "output_event render e p =
     (let p1 = send_tap_if (tk_transformed (sp_kinds p)) (Obs_Transformed (se_json e)) p;
          encoded = encode_event render e
      in if encoded = [] then p1
         else
           let p2 = send_tap_if (tk_to (sp_kinds p)) (Obs_To encoded) p1
           in p2\<lparr>sp_pending := sp_pending p2 @ [Inr encoded]\<rparr>)"

definition output_events :: "(json \<Rightarrow> string) \<Rightarrow> sse_event list \<Rightarrow> 't stream_pipeline \<Rightarrow> 't stream_pipeline" where
  "output_events render es p = fold (output_event render) es p"

text \<open>A transformer over the events of a round, the chain over an event.\<close>

fun transform_each ::
  "(sse_event \<Rightarrow> 't \<Rightarrow> (convert_error + sse_event list) \<times> 't) \<Rightarrow> sse_event list \<Rightarrow> 't \<Rightarrow>
   (convert_error + sse_event list) \<times> 't" where
  "transform_each tf [] t = (Inr [], t)"
| "transform_each tf (e # es) t =
     (case tf e t of
        (Inl err, t1) \<Rightarrow> (Inl err, t1)
      | (Inr xs, t1) \<Rightarrow>
          (case transform_each tf es t1 of
             (Inl err, t2) \<Rightarrow> (Inl err, t2)
           | (Inr ys, t2) \<Rightarrow> (Inr (xs @ ys), t2)))"

fun apply_transformers ::
  "(sse_event \<Rightarrow> 't \<Rightarrow> (convert_error + sse_event list) \<times> 't) \<Rightarrow> sse_event list \<Rightarrow> 't list \<Rightarrow>
   (convert_error + sse_event list) \<times> 't list" where
  "apply_transformers tf es [] = (Inr es, [])"
| "apply_transformers tf es (t # ts) =
     (case transform_each tf es t of
        (Inl err, t1) \<Rightarrow> (Inl err, t1 # ts)
      | (Inr es1, t1) \<Rightarrow> (case apply_transformers tf es1 ts of (r, ts1) \<Rightarrow> (r, t1 # ts1)))"

lemma apply_transformers_length: "apply_transformers tf es ts = (r, ts') \<Longrightarrow> length ts' = length ts"
  by (induction tf es ts arbitrary: r ts' rule: apply_transformers.induct) (auto split: prod.splits sum.splits)

text \<open>
  The end of the source: each transformer finishes in turn, and what it gives passes those
  after it. The result is what is output before the first error, and the error.
\<close>

function finish_transformers ::
  "(sse_event \<Rightarrow> 't \<Rightarrow> (convert_error + sse_event list) \<times> 't) \<Rightarrow> ('t \<Rightarrow> (convert_error + sse_event list) \<times> 't) \<Rightarrow>
   't list \<Rightarrow> sse_event list \<times> convert_error option \<times> 't list" where
  "finish_transformers tf fin [] = ([], None, [])"
| "finish_transformers tf fin (t # ts) =
     (case fin t of
        (Inl err, t1) \<Rightarrow> ([], Some err, t1 # ts)
      | (Inr es, t1) \<Rightarrow>
          (case apply_transformers tf es ts of
             (Inl err, ts1) \<Rightarrow> ([], Some err, t1 # ts1)
           | (Inr out, ts1) \<Rightarrow>
               (case finish_transformers tf fin ts1 of (out', err, ts2) \<Rightarrow> (out @ out', err, t1 # ts2))))"
  by pat_completeness auto

termination
  by (relation "measure (\<lambda>(tf, fin, ts). length ts)") (auto dest: apply_transformers_length [OF sym])

text \<open>An error is told to the observer, queued for the client, and ends the stream.\<close>

definition fail_stream :: "string \<Rightarrow> 't stream_pipeline \<Rightarrow> 't stream_pipeline" where
  "fail_stream message p =
     (let p1 = send_tap (Obs_Error message) p
      in p1\<lparr>sp_pending := sp_pending p1 @ [Inl message], sp_source_done := True\<rparr>)"

definition process_event ::
  "(json \<Rightarrow> string) \<Rightarrow> (sse_event \<Rightarrow> 't \<Rightarrow> (convert_error + sse_event list) \<times> 't) \<Rightarrow> sse_event \<Rightarrow>
   't stream_pipeline \<Rightarrow> 't stream_pipeline" where
  "process_event render tf e p =
     (let p1 = send_tap_if (tk_parsed (sp_kinds p)) (Obs_Parsed (se_json e)) p
      in case apply_transformers tf [e] (sp_transformers p1) of
           (Inl err, ts) \<Rightarrow> fail_stream (convert_error_text err) (p1\<lparr>sp_transformers := ts\<rparr>)
         | (Inr es, ts) \<Rightarrow> output_events render es (p1\<lparr>sp_transformers := ts\<rparr>))"

definition end_source ::
  "(json \<Rightarrow> string) \<Rightarrow> (sse_event \<Rightarrow> 't \<Rightarrow> (convert_error + sse_event list) \<times> 't) \<Rightarrow>
   ('t \<Rightarrow> (convert_error + sse_event list) \<times> 't) \<Rightarrow> 't stream_pipeline \<Rightarrow> 't stream_pipeline" where
  "end_source render tf fin p =
     (case finish_transformers tf fin (sp_transformers p) of
        (es, err, ts) \<Rightarrow>
          let p1 = output_events render es (p\<lparr>sp_transformers := ts\<rparr>)
          in case err of
               None \<Rightarrow> p1\<lparr>sp_source_done := True\<rparr>
             | Some e \<Rightarrow> fail_stream (convert_error_text e) p1)"

text \<open>One step of the source, where nothing is queued.\<close>

definition source_step ::
  "(json \<Rightarrow> string) \<Rightarrow> (sse_event \<Rightarrow> 't \<Rightarrow> (convert_error + sse_event list) \<times> 't) \<Rightarrow>
   ('t \<Rightarrow> (convert_error + sse_event list) \<times> 't) \<Rightarrow> 't stream_pipeline \<Rightarrow> 't stream_pipeline" where
  "source_step render tf fin p =
     (case sp_source p of
        [] \<Rightarrow> end_source render tf fin p
      | step # rest \<Rightarrow>
          (let p1 = p\<lparr>sp_source := rest\<rparr>
           in case step of
                Wait \<Rightarrow> p1
              | Chunk bytes \<Rightarrow> send_tap_if (tk_from (sp_kinds p)) (Obs_From bytes) p1
              | Fault message \<Rightarrow> fail_stream message p1
              | Decoded e \<Rightarrow> process_event render tf e p1))"

datatype poll_result = Not_Ready | Item "string + string" | Ended

text \<open>What is left to do: the steps of the source and its end.\<close>

definition source_work :: "'t stream_pipeline \<Rightarrow> nat" where
  "source_work p = (if sp_source_done p then 0 else Suc (length (sp_source p)))"

lemma tap_frame [simp]:
  "sp_source (send_tap m p) = sp_source p" "sp_source_done (send_tap m p) = sp_source_done p"
  "sp_pending (send_tap m p) = sp_pending p" "sp_kinds (send_tap m p) = sp_kinds p"
  "sp_transformers (send_tap m p) = sp_transformers p" "sp_fin (send_tap m p) = sp_fin p"
  "sp_tap (send_tap m p) = map_option (\<lambda>log. log @ [m]) (sp_tap p)"
  by (simp_all add: send_tap_def)

lemma tap_if_frame [simp]:
  "sp_source (send_tap_if b m p) = sp_source p" "sp_source_done (send_tap_if b m p) = sp_source_done p"
  "sp_pending (send_tap_if b m p) = sp_pending p" "sp_kinds (send_tap_if b m p) = sp_kinds p"
  "sp_transformers (send_tap_if b m p) = sp_transformers p" "sp_fin (send_tap_if b m p) = sp_fin p"
  "sp_tap (send_tap_if b m p) = map_option (\<lambda>log. log @ (if b then [m] else [])) (sp_tap p)"
  by (cases "sp_tap p"; simp add: send_tap_if_def)+

lemma output_frame [simp]:
  "sp_source (output_event render e p) = sp_source p" "sp_source_done (output_event render e p) = sp_source_done p"
  "sp_kinds (output_event render e p) = sp_kinds p" "sp_transformers (output_event render e p) = sp_transformers p"
  "sp_fin (output_event render e p) = sp_fin p"
  by (simp_all add: output_event_def Let_def)

lemma outputs_frame [simp]:
  "sp_source (output_events render es p) = sp_source p" "sp_source_done (output_events render es p) = sp_source_done p"
  "sp_kinds (output_events render es p) = sp_kinds p" "sp_transformers (output_events render es p) = sp_transformers p"
  "sp_fin (output_events render es p) = sp_fin p"
  unfolding output_events_def by (induction es arbitrary: p) simp_all

lemma fail_frame [simp]:
  "sp_source (fail_stream m p) = sp_source p" "sp_source_done (fail_stream m p)" "sp_kinds (fail_stream m p) = sp_kinds p"
  "sp_fin (fail_stream m p) = sp_fin p" "sp_pending (fail_stream m p) = sp_pending p @ [Inl m]"
  "sp_tap (fail_stream m p) = map_option (\<lambda>log. log @ [Obs_Error m]) (sp_tap p)"
  by (simp_all add: fail_stream_def Let_def)

lemma source_step_works:
  "\<not> sp_source_done p \<Longrightarrow> source_work (source_step render tf fin p) < source_work p"
  by (auto simp: source_work_def source_step_def end_source_def process_event_def Let_def
      split: list.splits script_step.splits prod.splits option.splits sum.splits)

text \<open>
  A poll: what is queued comes first; then the source is stepped until something is queued,
  it has to be waited for, or it is done.
\<close>

function poll_stream ::
  "(json \<Rightarrow> string) \<Rightarrow> (sse_event \<Rightarrow> 't \<Rightarrow> (convert_error + sse_event list) \<times> 't) \<Rightarrow>
   ('t \<Rightarrow> (convert_error + sse_event list) \<times> 't) \<Rightarrow> 't stream_pipeline \<Rightarrow> poll_result \<times> 't stream_pipeline" where
  "poll_stream render tf fin p =
     (case sp_pending p of
        item # rest \<Rightarrow> (Item item, p\<lparr>sp_pending := rest\<rparr>)
      | [] \<Rightarrow>
          if sp_source_done p then (Ended, p)
          else if sp_source p \<noteq> [] \<and> hd (sp_source p) = Wait then (Not_Ready, source_step render tf fin p)
          else poll_stream render tf fin (source_step render tf fin p))"
  by pat_completeness auto

termination
  by (relation "measure (\<lambda>(render, tf, fin, p). source_work p)") (auto intro: source_step_works)

declare poll_stream.simps [simp del]

text \<open>The stream the client holds: the finalizer runs at its end, or when it is dropped.\<close>

definition run_finalizer :: "'t stream_pipeline \<Rightarrow> 't stream_pipeline" where
  "run_finalizer p = (if sp_fin p then send_tap Obs_Done (p\<lparr>sp_fin := False\<rparr>) else p)"

definition client_poll ::
  "(json \<Rightarrow> string) \<Rightarrow> (sse_event \<Rightarrow> 't \<Rightarrow> (convert_error + sse_event list) \<times> 't) \<Rightarrow>
   ('t \<Rightarrow> (convert_error + sse_event list) \<times> 't) \<Rightarrow> 't stream_pipeline \<Rightarrow> poll_result \<times> 't stream_pipeline" where
  "client_poll render tf fin p =
     (case poll_stream render tf fin p of
        (Ended, p') \<Rightarrow> (Ended, run_finalizer p')
      | (r, p') \<Rightarrow> (r, p'))"

fun client_polls ::
  "(json \<Rightarrow> string) \<Rightarrow> (sse_event \<Rightarrow> 't \<Rightarrow> (convert_error + sse_event list) \<times> 't) \<Rightarrow>
   ('t \<Rightarrow> (convert_error + sse_event list) \<times> 't) \<Rightarrow> nat \<Rightarrow> 't stream_pipeline \<Rightarrow>
   poll_result list \<times> 't stream_pipeline" where
  "client_polls render tf fin 0 p = ([], p)"
| "client_polls render tf fin (Suc n) p =
     (let (r, p1) = client_poll render tf fin p; (rs, p2) = client_polls render tf fin n p1 in (r # rs, p2))"

definition drop_stream :: "'t stream_pipeline \<Rightarrow> 't stream_pipeline" where
  "drop_stream p = run_finalizer p"

definition items_of :: "poll_result list \<Rightarrow> (string + string) list" where
  "items_of rs = filter_map (\<lambda>r. case r of Item i \<Rightarrow> Some i | _ \<Rightarrow> None) rs"

section \<open>What the observer is told\<close>

text \<open>The messages the kinds enable, apart from the two that end the record.\<close>

fun enabled_payload :: "tap_kinds \<Rightarrow> observer_msg \<Rightarrow> bool" where
  "enabled_payload k (Obs_From _) = tk_from k"
| "enabled_payload k (Obs_Parsed _) = tk_parsed k"
| "enabled_payload k (Obs_Transformed _) = tk_transformed k"
| "enabled_payload k (Obs_To _) = tk_to k"
| "enabled_payload k _ = False"

definition sent_to_client :: "observer_msg list \<Rightarrow> string list" where
  "sent_to_client log = filter_map (\<lambda>m. case m of Obs_To bytes \<Rightarrow> Some bytes | _ \<Rightarrow> None) log"

text \<open>
  The record agrees with the stream: \<open>items\<close> is everything the client received and everything
  queued for it, the chunks before an error and at most one error.
\<close>

definition record_ok :: "tap_kinds \<Rightarrow> observer_msg list \<Rightarrow> (string + string) list \<Rightarrow> bool \<Rightarrow> bool" where
  "record_ok k log items failed \<longleftrightarrow>
     (\<exists>payload chunks errs.
        log = payload @ map Obs_Error errs \<and> items = map Inr chunks @ map Inl errs \<and>
        length errs = (if failed then 1 else 0) \<and> list_all (enabled_payload k) payload \<and>
        sent_to_client payload = (if tk_to k then chunks else []))"

lemma sent_to_client_simps [simp]:
  "sent_to_client [] = []" "sent_to_client (xs @ ys) = sent_to_client xs @ sent_to_client ys"
  "sent_to_client [Obs_From b] = []" "sent_to_client [Obs_Parsed v] = []" "sent_to_client [Obs_Transformed v] = []"
  "sent_to_client [Obs_To b] = [b]"
  by (simp_all add: sent_to_client_def)

text \<open>The stream is consistent with what the client has received.\<close>

definition consistent :: "tap_kinds \<Rightarrow> (string + string) list \<Rightarrow> 't stream_pipeline \<Rightarrow> bool" where
  "consistent k received p \<longleftrightarrow>
     sp_kinds p = k \<and>
     (\<exists>log failed.
        sp_tap p = Some (log @ (if sp_fin p then [] else [Obs_Done])) \<and>
        record_ok k log (received @ sp_pending p) failed \<and> (if failed then sp_source_done p else True) \<and>
        (if sp_fin p then True else sp_source_done p \<and> sp_pending p = []))"

lemma consistentI:
  assumes "sp_kinds p = k" "sp_tap p = Some (log @ (if sp_fin p then [] else [Obs_Done]))"
    "record_ok k log (received @ sp_pending p) failed" "failed \<Longrightarrow> sp_source_done p"
    "\<not> sp_fin p \<Longrightarrow> sp_source_done p \<and> sp_pending p = []"
  shows "consistent k received p"
  unfolding consistent_def using assms by (intro conjI exI [of _ log] exI [of _ failed]) simp_all

lemma consistentE:
  assumes "consistent k received p"
  obtains log failed where "sp_kinds p = k" "sp_tap p = Some (log @ (if sp_fin p then [] else [Obs_Done]))"
    "record_ok k log (received @ sp_pending p) failed" "failed \<Longrightarrow> sp_source_done p"
    "\<not> sp_fin p \<Longrightarrow> sp_source_done p \<and> sp_pending p = []"
  using assms unfolding consistent_def by (elim conjE exE) (auto split: if_splits)

lemma record_payload:
  "record_ok k log items False \<Longrightarrow> enabled_payload k m \<Longrightarrow> sent_to_client [m] = [] \<Longrightarrow> record_ok k (log @ [m]) items False"
  unfolding record_ok_def by fastforce

lemma record_output:
  "record_ok k log items False \<Longrightarrow> record_ok k (log @ (if tk_to k then [Obs_To b] else [])) (items @ [Inr b]) False"
  unfolding record_ok_def
  by (elim exE conjE) (rename_tac payload chunks errs, rule_tac x = "payload @ (if tk_to k then [Obs_To b] else [])" in exI,
    rule_tac x = "chunks @ [b]" in exI, simp)

lemma record_error: "record_ok k log items False \<Longrightarrow> record_ok k (log @ [Obs_Error e]) (items @ [Inl e]) True"
  unfolding record_ok_def
  by (elim exE conjE) (rename_tac payload chunks errs, rule_tac x = payload in exI, rule_tac x = chunks in exI,
    rule_tac x = "[e]" in exI, simp)

text \<open>A stream that is being stepped: the finalizer is to come and no error has happened.\<close>

definition stepping :: "tap_kinds \<Rightarrow> (string + string) list \<Rightarrow> 't stream_pipeline \<Rightarrow> bool" where
  "stepping k received p \<longleftrightarrow>
     sp_kinds p = k \<and> sp_fin p \<and> \<not> sp_source_done p \<and>
     (\<exists>log. sp_tap p = Some log \<and> record_ok k log (received @ sp_pending p) False)"

lemma stepping_consistent: "stepping k received p \<Longrightarrow> consistent k received p"
  by (auto simp: stepping_def consistent_def)

lemma consistent_stepping: "consistent k received p \<Longrightarrow> \<not> sp_source_done p \<Longrightarrow> stepping k received p"
  by (auto simp: stepping_def consistent_def split: if_splits)

lemma stepping_cong:
  "stepping k received p \<Longrightarrow> sp_kinds q = sp_kinds p \<Longrightarrow> sp_fin q = sp_fin p \<Longrightarrow> sp_source_done q = sp_source_done p \<Longrightarrow>
   sp_tap q = sp_tap p \<Longrightarrow> sp_pending q = sp_pending p \<Longrightarrow> stepping k received q"
  by (simp add: stepping_def)

lemma stepping_tap:
  assumes "stepping k received p" "sent_to_client [m] = []" "b \<Longrightarrow> enabled_payload k m"
  shows "stepping k received (send_tap_if b m p)"
  using assms by (cases b) (auto simp: stepping_def intro: record_payload)

lemma stepping_output:
  assumes "stepping k received p"
  shows "stepping k received (output_event render e p)"
proof -
  let ?p1 = "send_tap_if (tk_transformed (sp_kinds p)) (Obs_Transformed (se_json e)) p"
  have k: "sp_kinds p = k" using assms by (simp add: stepping_def)
  have s: "stepping k received ?p1" by (rule stepping_tap [OF assms]) (simp_all add: k)
  then obtain log where "sp_tap ?p1 = Some log" "record_ok k log (received @ sp_pending p) False"
    by (auto simp: stepping_def)
  with s k record_output [of k log "received @ sp_pending p" "encode_event render e"] show ?thesis
    by (auto simp: stepping_def output_event_def Let_def)
qed

lemma stepping_outputs: "stepping k received p \<Longrightarrow> stepping k received (output_events render es p)"
  unfolding output_events_def by (induction es arbitrary: p) (simp_all add: stepping_output)

lemma stepping_fail: "stepping k received p \<Longrightarrow> consistent k received (fail_stream m p)"
  using record_error by (fastforce simp: stepping_def consistent_def)

lemma stepping_process:
  assumes "stepping k received p"
  shows "consistent k received (process_event render tf e p)"
proof -
  let ?p1 = "send_tap_if (tk_parsed (sp_kinds p)) (Obs_Parsed (se_json e)) p"
  have "stepping k received ?p1"
    by (rule stepping_tap [OF assms]) (use assms in \<open>simp_all add: stepping_def\<close>)
  then have "stepping k received (?p1\<lparr>sp_transformers := ts\<rparr>)" for ts by (rule stepping_cong) simp_all
  then show ?thesis
    by (auto simp: process_event_def Let_def split: prod.split sum.split
        intro: stepping_fail stepping_consistent stepping_outputs)
qed

lemma stepping_end:
  assumes "stepping k received p"
  shows "consistent k received (end_source render tf fin p)"
proof -
  obtain es err ts where f: "finish_transformers tf fin (sp_transformers p) = (es, err, ts)" by (metis prod_cases3)
  let ?p1 = "output_events render es (p\<lparr>sp_transformers := ts\<rparr>)"
  have s: "stepping k received ?p1" by (rule stepping_outputs, rule stepping_cong [OF assms]) simp_all
  show ?thesis
  proof (cases err)
    case None
    with s show ?thesis by (auto simp: end_source_def f stepping_def consistent_def)
  next
    case (Some e)
    with stepping_fail [OF s] show ?thesis by (simp add: end_source_def f)
  qed
qed

lemma stepping_source:
  assumes "stepping k received p"
  shows "consistent k received (source_step render tf fin p)"
proof -
  have "stepping k received (p\<lparr>sp_source := rest\<rparr>)" for rest by (rule stepping_cong [OF assms]) simp_all
  moreover have k: "sp_kinds p = k" using assms by (simp add: stepping_def)
  moreover have "stepping k received (send_tap_if (tk_from k) (Obs_From bytes) (p\<lparr>sp_source := rest\<rparr>))" for bytes rest
    by (rule stepping_tap, rule stepping_cong [OF assms]) simp_all
  ultimately show ?thesis using stepping_end [OF assms]
    by (auto simp: source_step_def Let_def split: list.split script_step.split
        intro: stepping_process stepping_fail stepping_consistent stepping_tap)
qed

lemma poll_consistent:
  assumes "consistent k received p" "poll_stream render tf fin p = (r, p')"
  shows "consistent k (received @ items_of [r]) p' \<and> (r = Ended \<longrightarrow> sp_source_done p' \<and> sp_pending p' = [])"
  using assms
proof (induction render tf fin p rule: poll_stream.induct)
  case (1 render tf fin p)
  show ?case
  proof (cases "sp_pending p")
    case (Cons item rest)
    with 1(3) have "r = Item item" "p' = p\<lparr>sp_pending := rest\<rparr>" by (simp_all add: poll_stream.simps [of render tf fin p])
    with 1(2) Cons show ?thesis
      by (elim consistentE) (auto simp: items_of_def intro: consistentI)
  next
    case Nil
    show ?thesis
    proof (cases "sp_source_done p")
      case True
      with 1(3) Nil have "r = Ended" "p' = p" by (simp_all add: poll_stream.simps [of render tf fin p])
      with 1(2) Nil True show ?thesis by (simp add: items_of_def)
    next
      case False
      note step = stepping_source [OF consistent_stepping [OF 1(2) False], of render tf fin]
      show ?thesis
      proof (cases "sp_source p \<noteq> [] \<and> hd (sp_source p) = Wait")
        case True
        with 1(3) Nil False have "r = Not_Ready" "p' = source_step render tf fin p"
          by (simp_all add: poll_stream.simps [of render tf fin p])
        with step show ?thesis by (simp add: items_of_def)
      next
        case wait: False
        with 1(3) Nil False have "poll_stream render tf fin (source_step render tf fin p) = (r, p')"
          by (simp add: poll_stream.simps [of render tf fin p])
        with 1(1) [OF Nil False wait step] show ?thesis by simp
      qed
    qed
  qed
qed

lemma finalizer_consistent:
  assumes "consistent k received p" "sp_source_done p" "sp_pending p = []"
  shows "consistent k received (run_finalizer p)"
proof (cases "sp_fin p")
  case True
  with assms show ?thesis
    by (elim consistentE) (rule consistentI, simp_all add: run_finalizer_def)
qed (use assms in \<open>simp add: run_finalizer_def\<close>)

lemma client_poll_consistent:
  assumes "consistent k received p" "client_poll render tf fin p = (r, p')"
  shows "consistent k (received @ items_of [r]) p'"
proof -
  obtain q where q: "poll_stream render tf fin p = (r, q)" "p' = (if r = Ended then run_finalizer q else q)"
    using assms(2) by (cases "poll_stream render tf fin p") (auto simp: client_poll_def split: poll_result.splits)
  from poll_consistent [OF assms(1) q(1)] q(2) finalizer_consistent show ?thesis by auto
qed

lemma items_of_Cons: "items_of (r # rs) = items_of [r] @ items_of rs"
  by (simp add: items_of_def split: poll_result.split)

lemma client_polls_consistent:
  assumes "consistent k received p" "client_polls render tf fin n p = (rs, p')"
  shows "consistent k (received @ items_of rs) p'"
  using assms
proof (induction n arbitrary: received p rs)
  case 0
  then show ?case by (simp add: items_of_def)
next
  case (Suc n)
  obtain r p1 where r: "client_poll render tf fin p = (r, p1)" by fastforce
  obtain rs' where rs: "client_polls render tf fin n p1 = (rs', p')" and "rs = r # rs'"
    using Suc.prems(2) r by (auto split: prod.splits)
  with Suc.IH [OF client_poll_consistent [OF Suc.prems(1) r] rs] show ?case by (simp add: items_of_Cons [of r rs'])
qed

lemma new_consistent: "consistent k [] (new_pipeline source ts (Some k))"
  by (auto simp: consistent_def new_pipeline_def record_ok_def)

section \<open>All that is delivered\<close>

text \<open>Stepping does not depend on what is queued, and only adds to it.\<close>

definition queued :: "(string + string) list \<Rightarrow> 't stream_pipeline \<Rightarrow> 't stream_pipeline" where
  "queued xs p = p\<lparr>sp_pending := xs @ sp_pending p\<rparr>"

lemma queued_frame [simp]:
  "sp_source (queued xs p) = sp_source p" "sp_source_done (queued xs p) = sp_source_done p"
  "sp_kinds (queued xs p) = sp_kinds p" "sp_transformers (queued xs p) = sp_transformers p"
  "sp_pending (queued xs p) = xs @ sp_pending p" "sp_fin (queued xs p) = sp_fin p" "sp_tap (queued xs p) = sp_tap p"
  "source_work (queued xs p) = source_work p"
  by (simp_all add: queued_def source_work_def)

lemma queued_tap: "send_tap m (queued xs p) = queued xs (send_tap m p)"
  "send_tap_if b m (queued xs p) = queued xs (send_tap_if b m p)"
  by (simp_all add: queued_def send_tap_def send_tap_if_def)

lemma queued_update:
  "(queued xs p)\<lparr>sp_transformers := ts\<rparr> = queued xs (p\<lparr>sp_transformers := ts\<rparr>)"
  "(queued xs p)\<lparr>sp_source := src\<rparr> = queued xs (p\<lparr>sp_source := src\<rparr>)"
  "(queued xs p)\<lparr>sp_source_done := b\<rparr> = queued xs (p\<lparr>sp_source_done := b\<rparr>)"
  by (simp_all add: queued_def)

lemma queued_output: "output_event render e (queued xs p) = queued xs (output_event render e p)"
  by (simp add: output_event_def Let_def queued_tap queued_def)

lemma queued_outputs: "output_events render es (queued xs p) = queued xs (output_events render es p)"
  unfolding output_events_def by (induction es arbitrary: p) (simp_all add: queued_output)

lemma queued_fail: "fail_stream m (queued xs p) = queued xs (fail_stream m p)"
  by (simp add: fail_stream_def Let_def queued_tap queued_def)

lemma queued_step: "source_step render tf fin (queued xs p) = queued xs (source_step render tf fin p)"
  by (simp add: source_step_def end_source_def process_event_def Let_def queued_tap queued_update queued_outputs queued_fail
      split: list.split script_step.split prod.split sum.split option.split)

text \<open>Everything a stream has yet to deliver.\<close>

function all_items ::
  "(json \<Rightarrow> string) \<Rightarrow> (sse_event \<Rightarrow> 't \<Rightarrow> (convert_error + sse_event list) \<times> 't) \<Rightarrow>
   ('t \<Rightarrow> (convert_error + sse_event list) \<times> 't) \<Rightarrow> 't stream_pipeline \<Rightarrow> (string + string) list" where
  "all_items render tf fin p =
     (if sp_source_done p then sp_pending p else all_items render tf fin (source_step render tf fin p))"
  by pat_completeness auto

termination
  by (relation "measure (\<lambda>(render, tf, fin, p). source_work p)") (auto intro: source_step_works)

declare all_items.simps [simp del]

lemma all_items_done: "sp_source_done p \<Longrightarrow> all_items render tf fin p = sp_pending p"
  by (simp add: all_items.simps [of render tf fin p])

lemma all_items_queued: "all_items render tf fin (queued xs p) = xs @ all_items render tf fin p"
proof (induction render tf fin p rule: all_items.induct)
  case (1 render tf fin p)
  then show ?case
    by (simp add: all_items.simps [of render tf fin p] all_items.simps [of render tf fin "queued xs p"] queued_step)
qed

lemma poll_delivers:
  assumes "poll_stream render tf fin p = (r, p')"
  shows "all_items render tf fin p = items_of [r] @ all_items render tf fin p' \<and>
    (if r = Ended then all_items render tf fin p' = []
     else source_work p' < source_work p \<or> (source_work p' = source_work p \<and> length (sp_pending p') < length (sp_pending p)))"
  using assms
proof (induction render tf fin p rule: poll_stream.induct)
  case (1 render tf fin p)
  note simps = poll_stream.simps [of render tf fin p]
  show ?case
  proof (cases "sp_pending p")
    case (Cons item rest)
    with 1(2) have r: "r = Item item" "p' = p\<lparr>sp_pending := rest\<rparr>" by (simp_all add: simps)
    with Cons have "p = queued [item] p'" by (simp add: queued_def)
    with r Cons all_items_queued [of render tf fin "[item]" p'] show ?thesis by (simp add: items_of_def source_work_def)
  next
    case Nil
    show ?thesis
    proof (cases "sp_source_done p")
      case True
      with 1(2) Nil show ?thesis by (auto simp: simps items_of_def all_items_done)
    next
      case False
      note less = source_step_works [OF False, of render tf fin]
      have step: "all_items render tf fin p = all_items render tf fin (source_step render tf fin p)"
        using False by (simp add: all_items.simps [of render tf fin p])
      show ?thesis
      proof (cases "sp_source p \<noteq> [] \<and> hd (sp_source p) = Wait")
        case True
        with 1(2) Nil False have "r = Not_Ready" "p' = source_step render tf fin p" by (simp_all add: simps)
        with less step show ?thesis by (simp add: items_of_def)
      next
        case wait: False
        with 1(2) Nil False have "poll_stream render tf fin (source_step render tf fin p) = (r, p')" by (simp add: simps)
        with 1(1) [OF Nil False wait this] less step Nil show ?thesis by (auto split: if_splits)
      qed
    qed
  qed
qed

lemma client_poll_delivers:
  assumes "client_poll render tf fin p = (r, p')"
  shows "all_items render tf fin p = items_of [r] @ all_items render tf fin p' \<and>
    (if r = Ended then all_items render tf fin p' = []
     else source_work p' < source_work p \<or> (source_work p' = source_work p \<and> length (sp_pending p') < length (sp_pending p)))"
proof -
  obtain q where q: "poll_stream render tf fin p = (r, q)" "p' = (if r = Ended then run_finalizer q else q)"
    using assms by (cases "poll_stream render tf fin p") (auto simp: client_poll_def split: poll_result.splits)
  have "all_items render tf fin (run_finalizer q) = []" if "r = Ended"
  proof -
    have "sp_source_done q \<and> sp_pending q = []" using q(1) that
      by (induction render tf fin p rule: poll_stream.induct)
        (subst (asm) (2) poll_stream.simps, auto split: list.splits if_splits)
    then have "sp_source_done (run_finalizer q)" "sp_pending (run_finalizer q) = []" by (simp_all add: run_finalizer_def)
    then show ?thesis by (simp add: all_items_done)
  qed
  with poll_delivers [OF q(1)] q(2) show ?thesis by auto
qed

text \<open>Enough polls reach the end, and by then everything has been delivered.\<close>

lemma stream_ends:
  "\<exists>n rs p'. client_polls render tf fin n p = (rs, p') \<and> Ended \<in> set rs \<and> items_of rs = all_items render tf fin p"
proof (induction "(source_work p, length (sp_pending p))" arbitrary: p rule: wf_induct_rule [OF wf_lex_prod [OF wf_less wf_less]])
  case 1
  obtain r p1 where r: "client_poll render tf fin p = (r, p1)" by fastforce
  note d = client_poll_delivers [OF r]
  show ?case
  proof (cases "r = Ended")
    case True
    have "client_polls render tf fin (Suc 0) p = ([r], p1)" by (simp add: r)
    moreover have "items_of [r] = all_items render tf fin p" using d True by simp
    ultimately show ?thesis using True by (metis list.set_intros(1))
  next
    case False
    with d have "((source_work p1, length (sp_pending p1)), source_work p, length (sp_pending p)) \<in> {(x, y). x < y} <*lex*> {(x, y). x < y}"
      by auto
    from 1 [OF this] obtain n rs p' where "client_polls render tf fin n p1 = (rs, p')" "Ended \<in> set rs"
      "items_of rs = all_items render tf fin p1" by blast
    then have "client_polls render tf fin (Suc n) p = (r # rs, p')" "Ended \<in> set (r # rs)"
      "items_of (r # rs) = all_items render tf fin p"
      using r d by (simp_all add: items_of_Cons [of r rs])
    then show ?thesis by blast
  qed
qed

section \<open>The pipeline of the gateway\<close>

fun decoded :: "script_step list \<Rightarrow> sse_event list" where
  "decoded [] = []"
| "decoded (Decoded e # script) = e # decoded script"
| "decoded (_ # script) = decoded script"

fun is_fault :: "script_step \<Rightarrow> bool" where
  "is_fault (Fault _) = True"
| "is_fault _ = False"

text \<open>The events a translator gives before its first error, and the error.\<close>

fun translated :: "(json \<Rightarrow> string) \<Rightarrow> sse_event list \<Rightarrow> translator \<Rightarrow> sse_event list \<times> convert_error option" where
  "translated render [] t = (case finish_once t of (Inl e, _) \<Rightarrow> ([], Some e) | (Inr es, _) \<Rightarrow> (es, None))"
| "translated render (ev # evs) t =
     (case transform render ev t of
        (Inl e, _) \<Rightarrow> ([], Some e)
      | (Inr es, t') \<Rightarrow> (let (out, err) = translated render evs t' in (es @ out, err)))"

lemma translated_events:
  "fst (translate_events render evs t) =
     (case translated render evs t of (out, None) \<Rightarrow> Inr out | (out, Some e) \<Rightarrow> Inl e)"
proof (induction evs arbitrary: t)
  case Nil
  then show ?case by (auto split: prod.split sum.split)
next
  case (Cons ev evs)
  obtain r t' where r: "transform render ev t = (r, t')" by fastforce
  show ?case
  proof (cases r)
    case (Inr es)
    obtain out err where "translated render evs t' = (out, err)" by fastforce
    with Cons.IH [of t'] r Inr show ?thesis by (cases err) (auto split: prod.split)
  qed (simp add: r)
qed

lemma encode_event_nonempty: "encode_event render e \<noteq> []"
  by (simp add: encode_event_def encode_done_def encode_sse_def newline_def split: option.split)

lemma outputs_pending: "sp_pending (output_events render es p) = sp_pending p @ map (\<lambda>e. Inr (encode_event render e)) es"
proof -
  have "sp_pending (output_event render e q) = sp_pending q @ [Inr (encode_event render e)]" for e and q :: "'a stream_pipeline"
    by (simp add: output_event_def Let_def encode_event_nonempty)
  then show ?thesis unfolding output_events_def by (induction es arbitrary: p) simp_all
qed

lemma all_items_step:
  "\<not> sp_source_done p \<Longrightarrow> all_items render tf fin p = all_items render tf fin (source_step render tf fin p)"
  by (simp add: all_items.simps [of render tf fin p])

lemma translator_items:
  assumes "sp_transformers p = [t]" "\<not> sp_source_done p" "list_all (\<lambda>s. \<not> is_fault s) (sp_source p)"
    "translated render (decoded (sp_source p)) t = (out, err)"
  shows "all_items render (transform render) finish_once p =
    sp_pending p @ map (\<lambda>e. Inr (encode_event render e)) out @
    (case err of Some e \<Rightarrow> [Inl (convert_error_text e)] | None \<Rightarrow> [])"
  using assms
proof (induction "sp_source p" arbitrary: p t out err)
  case Nil
  obtain r t' where r: "finish_once t = (r, t')" by fastforce
  have src: "sp_source p = []" using Nil.hyps by simp
  have "sp_source_done (source_step render (transform render) finish_once p)"
    using Nil.prems src r by (auto simp: source_step_def end_source_def Let_def split: prod.splits option.splits)
  with Nil.prems src r show ?case
    by (cases r) (auto simp: all_items_step all_items_done source_step_def end_source_def Let_def outputs_pending)
next
  case (Cons s rest)
  let ?p1 = "p\<lparr>sp_source := rest\<rparr>"
  have src: "sp_source p = s # rest" using Cons.hyps(2) by simp
  note step = all_items_step [OF Cons.prems(2), of render "transform render" finish_once]
  show ?case
  proof (cases s)
    case (Chunk b)
    let ?q = "send_tap_if (tk_from (sp_kinds p)) (Obs_From b) ?p1"
    have "source_step render (transform render) finish_once p = ?q" using src Chunk by (simp add: source_step_def)
    with step Cons.hyps(1) [of ?q t out err] Cons.prems src Chunk show ?thesis by simp
  next
    case Wait
    have "source_step render (transform render) finish_once p = ?p1" using src Wait by (simp add: source_step_def)
    with step Cons.hyps(1) [of ?p1 t out err] Cons.prems src Wait show ?thesis by simp
  next
    case (Fault m)
    with Cons.prems src show ?thesis by simp
  next
    case (Decoded e)
    let ?p2 = "send_tap_if (tk_parsed (sp_kinds p)) (Obs_Parsed (se_json e)) ?p1"
    obtain r t' where r: "transform render e t = (r, t')" by fastforce
    have q: "source_step render (transform render) finish_once p = process_event render (transform render) e ?p1"
      using src Decoded by (simp add: source_step_def)
    show ?thesis
    proof (cases r)
      case (Inl err')
      with q r Cons.prems src Decoded
      have "source_step render (transform render) finish_once p =
          fail_stream (convert_error_text err') (?p2\<lparr>sp_transformers := [t']\<rparr>)"
        by (simp add: process_event_def Let_def)
      with step Inl r Cons.prems src Decoded show ?thesis by (auto simp: all_items_done)
    next
      case (Inr es)
      let ?q = "output_events render es (?p2\<lparr>sp_transformers := [t']\<rparr>)"
      have s: "source_step render (transform render) finish_once p = ?q"
        using q r Inr Cons.prems src by (simp add: process_event_def Let_def)
      obtain out' where out: "translated render (decoded rest) t' = (out', err)" "out = es @ out'"
        using Cons.prems(4) r Inr src Decoded by (auto split: prod.splits)
      with step s Cons.hyps(1) [of ?q t' out' err] Cons.prems src show ?thesis by (simp add: outputs_pending)
    qed
  qed
qed

text \<open>
  C36. The observer is told the truth, whatever the upstream sends, whatever the transformers
  do and whenever the client drops the stream: the record is payload of the enabled kinds,
  the error if there was one, and then exactly one end; if chunks sent are observed they are,
  in order, those received by the client and those queued for it.
\<close>

theorem observer_record_faithful:
  "\<exists>rs p payload chunks errs.
     client_polls render tf fin n (new_pipeline source ts (Some k)) = (rs, p) \<and>
     sp_tap (drop_stream p) = Some (payload @ map Obs_Error errs @ [Obs_Done]) \<and>
     items_of rs @ sp_pending p = map Inr chunks @ map Inl errs \<and> length errs \<le> 1 \<and>
     list_all (enabled_payload k) payload \<and> sent_to_client payload = (if tk_to k then chunks else [])"
proof -
  obtain rs p where run: "client_polls render tf fin n (new_pipeline source ts (Some k)) = (rs, p)" by fastforce
  have "consistent k (items_of rs) p" using client_polls_consistent [OF new_consistent run] by simp
  then obtain log failed where tap: "sp_tap p = Some (log @ (if sp_fin p then [] else [Obs_Done]))"
    and rec: "record_ok k log (items_of rs @ sp_pending p) failed"
    by (rule consistentE)
  have "sp_tap (drop_stream p) = Some (log @ [Obs_Done])" using tap by (simp add: drop_stream_def run_finalizer_def)
  with run rec show ?thesis unfolding record_ok_def by (fastforce split: if_splits)
qed

text \<open>
  C37. The gateway's pipeline delivers the translation: enough polls reach the end of the
  stream, and the client then has received, event by event, the encoding of the stream that
  the translator makes of the upstream's events; where the translation fails, what it gave
  before and then its error.
\<close>

theorem pipeline_delivers_translation:
  assumes "list_all (\<lambda>s. \<not> is_fault s) source"
  shows "\<exists>n rs p. client_polls render (transform render) finish_once n
      (new_pipeline source [new_translator created_at from_e to_e] tap) = (rs, p) \<and> Ended \<in> set rs \<and>
    (case translate_stream render created_at from_e to_e (decoded source) of
       Inr outs \<Rightarrow> items_of rs = map (\<lambda>e. Inr (encode_event render e)) outs
     | Inl e \<Rightarrow> \<exists>outs. items_of rs = map (\<lambda>e. Inr (encode_event render e)) outs @ [Inl (convert_error_text e)])"
proof -
  let ?t = "new_translator created_at from_e to_e"
  let ?p = "new_pipeline source [?t] tap"
  obtain out err where out: "translated render (decoded source) ?t = (out, err)" by fastforce
  have "all_items render (transform render) finish_once ?p =
      map (\<lambda>e. Inr (encode_event render e)) out @ (case err of Some e \<Rightarrow> [Inl (convert_error_text e)] | None \<Rightarrow> [])"
    using translator_items [of ?p ?t render out err] assms out by (simp add: new_pipeline_def)
  moreover obtain n rs p' where "client_polls render (transform render) finish_once n ?p = (rs, p')" "Ended \<in> set rs"
    "items_of rs = all_items render (transform render) finish_once ?p"
    using stream_ends by blast
  ultimately show ?thesis
    using translated_events [of render "decoded source" ?t] out
    by (intro exI [of _ n] exI [of _ rs] exI [of _ p']) (auto simp: translate_stream_def split: option.splits)
qed

definition sample_script :: "script_step list" where
  "sample_script =
     [Chunk ''data'', Wait, Decoded (sse_json None (chunk_of_delta ''c1'' ''gpt'' (D_Text ''hi''))),
      Decoded (sse_json None (chunk_of_delta ''c1'' ''gpt'' (D_Finish (Some ''stop'')))), Decoded sse_done]"

theorem pipeline_delivers_translation_witness:
  "list_all (\<lambda>s. \<not> is_fault s) sample_script \<and>
   (\<exists>n rs p. client_polls (\<lambda>_. ''v'') (transform (\<lambda>_. ''v'')) finish_once n
      (new_pipeline sample_script [new_translator 7 Chat_Completions Messages] (Some all_taps)) = (rs, p) \<and> Ended \<in> set rs \<and>
    (case translate_stream (\<lambda>_. ''v'') 7 Chat_Completions Messages (decoded sample_script) of
       Inr outs \<Rightarrow> items_of rs = map (\<lambda>e. Inr (encode_event (\<lambda>_. ''v'') e)) outs
     | Inl e \<Rightarrow> \<exists>outs. items_of rs = map (\<lambda>e. Inr (encode_event (\<lambda>_. ''v'') e)) outs @ [Inl (convert_error_text e)]))"
proof -
  have "list_all (\<lambda>s. \<not> is_fault s) sample_script" by (simp add: sample_script_def)
  then show ?thesis using pipeline_delivers_translation [of sample_script] by simp
qed

end
