(* ===== verification/Accounts.thy ===== *)
theory Accounts
  imports Topology Provider_Core
begin

text \<open>
  Accounts: the stored configuration (crates/core/src/account.rs), the handle with the health
  state of the legacy pool (crates/accounts/src/handle.rs) and the legacy inventory
  (inventory.rs). Secrets are strings; the free-form \<open>settings\<close> table, which only the drivers
  read, is JSON. Driver objects are a type parameter. An \<open>Arc\<close> handle that the
  inventory stores twice is one list entry and its position.
\<close>

section \<open>Configuration\<close>

datatype account_tier = Active | Fallback

datatype account_state = State_Active | State_Fallback | State_Disabled

datatype auth_type = Bearer | X_Api_Key | Auth_Header string

record account_config =
  acc_id :: string
  acc_provider :: string
  acc_enabled :: bool
  acc_tier :: account_tier
  acc_tags :: "string list"
  acc_label :: "string option"
  acc_base_url :: "string option"
  acc_headers :: "(string, string) bmap"
  acc_auth_type :: "auth_type option"
  acc_username :: "string option"
  acc_api_key :: "string option"
  acc_api_key_expires_at :: "int option"
  acc_access_token :: "string option"
  acc_access_token_expires_at :: "int option"
  acc_id_token :: "string option"
  acc_refresh_token :: "string option"
  acc_provider_account_id :: "string option"
  acc_extra :: "(string, string) bmap"
  acc_refresh_url :: "string option"
  acc_last_refresh :: "int option"
  acc_settings :: "(string, json) bmap"

definition account_state_of :: "account_config \<Rightarrow> account_state" where
  "account_state_of a =
     (if \<not> acc_enabled a then State_Disabled
      else (case acc_tier a of Active \<Rightarrow> State_Active | Fallback \<Rightarrow> State_Fallback))"

text \<open>The account a configuration file with only an id and a provider stands for (serde defaults).\<close>

definition default_account :: "string \<Rightarrow> string \<Rightarrow> account_config" where
  "default_account i p =
     \<lparr>acc_id = i, acc_provider = p, acc_enabled = True, acc_tier = Active, acc_tags = [],
      acc_label = None, acc_base_url = None, acc_headers = [], acc_auth_type = None,
      acc_username = None, acc_api_key = None, acc_api_key_expires_at = None,
      acc_access_token = None, acc_access_token_expires_at = None, acc_id_token = None,
      acc_refresh_token = None, acc_provider_account_id = None, acc_extra = [],
      acc_refresh_url = None, acc_last_refresh = None, acc_settings = []\<rparr>"

section \<open>Handles\<close>

definition u32_max :: nat where
  "u32_max = 2 ^ 32 - 1"

definition u32_saturating_add :: "nat \<Rightarrow> nat \<Rightarrow> nat" where
  "u32_saturating_add a b = min (a + b) u32_max"

record 'p account_handle =
  ah_config :: account_config
  ah_provider :: 'p
  ah_cooldown_until :: "instant option"
  ah_consecutive_failures :: nat

definition new_handle :: "account_config \<Rightarrow> 'p \<Rightarrow> 'p account_handle" where
  "new_handle config p =
     \<lparr>ah_config = config, ah_provider = p, ah_cooldown_until = None, ah_consecutive_failures = 0\<rparr>"

definition is_healthy :: "instant \<Rightarrow> 'p account_handle \<Rightarrow> bool" where
  "is_healthy now h = (case ah_cooldown_until h of None \<Rightarrow> True | Some t \<Rightarrow> t \<le> now)"

text \<open>
  The addition of the cooldown to the clock panics past the platform's last instant:
  \<open>None\<close> is the panic.
\<close>

definition mark_failure ::
  "instant \<Rightarrow> instant \<Rightarrow> duration \<Rightarrow> 'p account_handle \<Rightarrow> 'p account_handle option" where
  "mark_failure horizon now cooldown_base h =
     (let failures = u32_saturating_add (ah_consecutive_failures h) 1;
          mult = 2 ^ (min failures 5 - 1);
          cd = duration_saturating_mul cooldown_base mult
      in map_option
           (\<lambda>t. h\<lparr>ah_consecutive_failures := failures, ah_cooldown_until := Some t\<rparr>)
           (instant_checked_add horizon now cd))"

definition mark_success :: "'p account_handle \<Rightarrow> 'p account_handle" where
  "mark_success h = h\<lparr>ah_consecutive_failures := 0, ah_cooldown_until := None\<rparr>"

text \<open>Repeated failures at given instants.\<close>

fun fail_times :: "instant \<Rightarrow> duration \<Rightarrow> instant list \<Rightarrow> 'p account_handle \<Rightarrow> 'p account_handle option" where
  "fail_times horizon base [] h = Some h"
| "fail_times horizon base (now # ts) h = Option.bind (mark_failure horizon now base h) (fail_times horizon base ts)"

lemma mark_failure_fields:
  "mark_failure horizon now base h = Some h' \<Longrightarrow>
     ah_consecutive_failures h' = u32_saturating_add (ah_consecutive_failures h) 1 \<and>
     ah_cooldown_until h' =
       Some (now + duration_saturating_mul base (2 ^ (min (ah_consecutive_failures h') 5 - 1)))"
  by (auto simp: mark_failure_def Let_def instant_checked_add_def split: if_splits)

lemma new_handle_healthy: "is_healthy now (new_handle c p)"
  by (simp add: is_healthy_def new_handle_def)

lemma mark_success_healthy: "is_healthy now (mark_success h)"
  by (simp add: is_healthy_def mark_success_def)

section \<open>The legacy inventory\<close>

record account_pool_ruleset =
  rs_providers :: "string bset option"
  rs_accounts :: "string bset option"

definition ruleset_all :: account_pool_ruleset where
  "ruleset_all = \<lparr>rs_providers = None, rs_accounts = None\<rparr>"

definition from_filters :: "string list option \<Rightarrow> string list option \<Rightarrow> account_pool_ruleset" where
  "from_filters providers accounts =
     \<lparr>rs_providers = map_option bs_of_list providers, rs_accounts = map_option bs_of_list accounts\<rparr>"

definition ruleset_allows :: "account_pool_ruleset \<Rightarrow> provider account_handle \<Rightarrow> bool" where
  "ruleset_allows r h \<longleftrightarrow>
     (case rs_providers r of None \<Rightarrow> True | Some ps \<Rightarrow> bs_contains ps (pi_id (pv_info (ah_provider h)))) \<and>
     (case rs_accounts r of None \<Rightarrow> True | Some ids \<Rightarrow> bs_contains ids (acc_id (ah_config h)))"

datatype 'e pool_error = No_Accounts | Build_Account string 'e

record 'p account_inventory =
  iv_accounts :: "'p account_handle list"
  iv_by_id :: "(string, nat) bmap"

definition empty_inventory :: "'p account_inventory" where
  "empty_inventory = \<lparr>iv_accounts = [], iv_by_id = []\<rparr>"

fun add_accounts ::
  "(account_config \<Rightarrow> 'e + 'p) \<Rightarrow> account_config list \<Rightarrow> 'p account_inventory \<Rightarrow>
   'e pool_error + 'p account_inventory" where
  "add_accounts build [] iv = Inr iv"
| "add_accounts build (a # as) iv =
     (if \<not> acc_enabled a then add_accounts build as iv
      else (case build a of
              Inl e \<Rightarrow> Inl (Build_Account (acc_id a) e)
            | Inr p \<Rightarrow>
                add_accounts build as
                  (iv\<lparr>iv_by_id := bm_insert (acc_id a) (length (iv_accounts iv)) (iv_by_id iv),
                      iv_accounts := iv_accounts iv @ [new_handle a p]\<rparr>)))"

definition from_accounts_with ::
  "account_config list \<Rightarrow> (account_config \<Rightarrow> 'e + 'p) \<Rightarrow> 'e pool_error + 'p account_inventory" where
  "from_accounts_with accounts build =
     (if accounts = [] then Inl No_Accounts
      else res_bind (add_accounts build accounts empty_inventory)
             (\<lambda>iv. if iv_accounts iv = [] then Inl No_Accounts else Inr iv))"

definition account_by_id :: "'p account_inventory \<Rightarrow> string \<Rightarrow> 'p account_handle option" where
  "account_by_id iv i = map_option (\<lambda>n. iv_accounts iv ! n) (bm_get (iv_by_id iv) i)"

definition inventory_filtered :: "provider account_inventory \<Rightarrow> account_pool_ruleset \<Rightarrow> nat list" where
  "inventory_filtered iv r =
     filter (\<lambda>n. ruleset_allows r (iv_accounts iv ! n)) [0 ..< length (iv_accounts iv)]"

text \<open>Every index of the inventory points at a handle of that account, the last one with the id.\<close>

definition inventory_ok :: "'p account_inventory \<Rightarrow> bool" where
  "inventory_ok iv \<longleftrightarrow> bm_ok (iv_by_id iv) \<and>
     (\<forall>i n. bm_get (iv_by_id iv) i = Some n \<longleftrightarrow>
        n < length (iv_accounts iv) \<and> acc_id (ah_config (iv_accounts iv ! n)) = i \<and>
        (\<forall>m < length (iv_accounts iv). acc_id (ah_config (iv_accounts iv ! m)) = i \<longrightarrow> m \<le> n))"

lemma inventory_ok_empty: "inventory_ok empty_inventory"
  by (simp add: inventory_ok_def empty_inventory_def)

lemma inventory_ok_add:
  assumes "inventory_ok iv"
  shows "inventory_ok (iv\<lparr>iv_by_id := bm_insert (acc_id a) (length (iv_accounts iv)) (iv_by_id iv),
                      iv_accounts := iv_accounts iv @ [new_handle a p]\<rparr>)"
  using assms unfolding inventory_ok_def
  by (auto simp: bm_ok_insert bm_get_insert nth_append new_handle_def less_Suc_eq)

lemma add_accounts_ok:
  "add_accounts build as iv = Inr iv' \<Longrightarrow> inventory_ok iv \<Longrightarrow>
     inventory_ok iv' \<and>
     (\<exists>hs. iv_accounts iv' = iv_accounts iv @ hs \<and>
        map ah_config hs = filter acc_enabled as \<and>
        (\<forall>h \<in> set hs. build (ah_config h) = Inr (ah_provider h) \<and> h = new_handle (ah_config h) (ah_provider h)))"
proof (induction build as iv rule: add_accounts.induct)
  case (2 build a as iv)
  show ?case
  proof (cases "acc_enabled a")
    case True
    with 2(3) obtain p where p: "build a = Inr p" by (auto split: sum.splits)
    let ?iv = "iv\<lparr>iv_by_id := bm_insert (acc_id a) (length (iv_accounts iv)) (iv_by_id iv),
                  iv_accounts := iv_accounts iv @ [new_handle a p]\<rparr>"
    have "add_accounts build as ?iv = Inr iv'" using 2(3) True p by simp
    from 2(2) [OF _ p this inventory_ok_add [OF 2(4)]] True
    obtain hs where "inventory_ok iv'" "iv_accounts iv' = (iv_accounts iv @ [new_handle a p]) @ hs"
      "map ah_config hs = filter acc_enabled as"
      "\<forall>h \<in> set hs. build (ah_config h) = Inr (ah_provider h) \<and> h = new_handle (ah_config h) (ah_provider h)"
      by auto
    with True p show ?thesis
      by (intro conjI exI [of _ "new_handle a p # hs"]) (auto simp: new_handle_def)
  next
    case False
    with 2 show ?thesis by simp
  qed
qed simp

end
