(* ===== verification/Provider_Graph.thy ===== *)
theory Provider_Graph
  imports Accounts Identifiers
begin

text \<open>
  The linker of provider destinations and account bindings
  (crates/accounts/src/link/provider_graph.rs), with the registry lookups it uses
  (crates/accounts/src/registry.rs) and the destination object of
  crates/core/src/provider.rs.

  Parsing an upstream URL rests on the URL library and is a parameter. A descriptor is a
  record with the function pointers the code stores in it. The model cache a destination
  shares with its bindings is an address, allocated when the destination is created.
\<close>

section \<open>Descriptors and the registry\<close>

datatype cleartext_policy = Loopback_Only | Allow_Cleartext

record provider_target =
  pt_base_url :: string
  pt_model_cache :: nat

datatype 'e provider_error = Unknown_Provider string string | Driver_Error 'e

record ('p, 'e) provider_descriptor =
  pd_id :: string
  pd_display_name :: string
  pd_base_url :: string
  pd_endpoints :: "endpoint list"
  pd_validate :: "account_config \<Rightarrow> 'e option"
  pd_build :: "account_config \<Rightarrow> provider_target \<Rightarrow> 'e + 'p"

type_synonym ('p, 'e) registry = "(string, ('p, 'e) provider_descriptor) bmap"

definition register_descriptor ::
  "('p, 'e) provider_descriptor \<Rightarrow> ('p, 'e) registry \<Rightarrow> ('p, 'e) registry" where
  "register_descriptor d r = bm_insert (pd_id d) d r"

definition resolve :: "('p, 'e) registry \<Rightarrow> string \<Rightarrow> ('p, 'e) provider_descriptor option" where
  "resolve r i = bm_get r i"

definition resolve_provider_descriptor ::
  "('p, 'e) registry \<Rightarrow> string \<Rightarrow> string \<Rightarrow> ('p, 'e) provider_descriptor option" where
  "resolve_provider_descriptor r provider_id driver_id =
     (case Option.bind (official_preset provider_id)
             (\<lambda>preset. if op_driver preset = driver_id then resolve r provider_id else None) of
        Some d \<Rightarrow> Some d
      | None \<Rightarrow> resolve r driver_id)"

definition build_driver_at ::
  "('p, 'e) registry \<Rightarrow> string \<Rightarrow> account_config \<Rightarrow> provider_target \<Rightarrow> 'e provider_error + 'p" where
  "build_driver_at r driver_id account target =
     (case resolve r driver_id of
        None \<Rightarrow> Inl (Unknown_Provider driver_id (acc_id account))
      | Some d \<Rightarrow>
          (case pd_validate d account of
             Some e \<Rightarrow> Inl (Driver_Error e)
           | None \<Rightarrow> map_err Driver_Error (pd_build d account target)))"

section \<open>The graph\<close>

datatype provider_url_source = Configured | Provider_Default | Driver_Default

record ('p, 'e) provider_destination =
  ds_provider_id :: string
  ds_driver_id :: string
  ds_target :: provider_target
  ds_descriptor :: "('p, 'e) provider_descriptor"

datatype binding_key = Binding_Key (bk_provider: string) (bk_account: string)

text \<open>The derived order of \<open>ProviderBindingKey\<close>: provider first, then account.\<close>

instantiation binding_key :: linorder
begin

definition less_eq_binding_key :: "binding_key \<Rightarrow> binding_key \<Rightarrow> bool" where
  "less_eq_binding_key a b \<longleftrightarrow>
     bk_provider a < bk_provider b \<or> bk_provider a = bk_provider b \<and> bk_account a \<le> bk_account b"

definition less_binding_key :: "binding_key \<Rightarrow> binding_key \<Rightarrow> bool" where
  "less_binding_key a b \<longleftrightarrow>
     bk_provider a < bk_provider b \<or> bk_provider a = bk_provider b \<and> bk_account a < bk_account b"

instance
  by standard
    (auto simp: less_eq_binding_key_def less_binding_key_def binding_key.expand)

end

record 'p provider_binding =
  pb_key :: binding_key
  pb_driver_id :: string
  pb_account :: account_config
  pb_handle :: "'p account_handle"
  pb_account_order :: nat

record 'p linked_account =
  lk_config :: account_config
  lk_input_order :: nat
  lk_binding :: "'p provider_binding option"

record ('p, 'e) provider_graph =
  pg_destinations :: "(string, ('p, 'e) provider_destination) bmap"
  pg_bindings :: "(binding_key, 'p provider_binding) bmap"
  pg_accounts :: "'p linked_account list"
  pg_account_indices :: "(string, nat) bmap"

definition graph_destination ::
  "('p, 'e) provider_graph \<Rightarrow> string \<Rightarrow> ('p, 'e) provider_destination option" where
  "graph_destination g p = bm_get (pg_destinations g) p"

definition graph_target :: "('p, 'e) provider_graph \<Rightarrow> string \<Rightarrow> provider_target option" where
  "graph_target g p = map_option ds_target (graph_destination g p)"

definition graph_binding :: "('p, 'e) provider_graph \<Rightarrow> string \<Rightarrow> string \<Rightarrow> 'p provider_binding option" where
  "graph_binding g p a = bm_get (pg_bindings g) (Binding_Key p a)"

definition graph_account :: "('p, 'e) provider_graph \<Rightarrow> string \<Rightarrow> 'p linked_account option" where
  "graph_account g a = map_option (\<lambda>i. pg_accounts g ! i) (bm_get (pg_account_indices g) a)"

section \<open>Linking\<close>

datatype ('e, 'u) link_error =
    Duplicate_Account_Id string nat nat
  | Unknown_Driver string string
  | Unknown_Account_Provider string string
  | Invalid_Provider_Url string string provider_url_source string 'u
  | Build_Provider string string string "'e provider_error"

fun prepare_from ::
  "nat \<Rightarrow> account_config list \<Rightarrow> (string, nat) bmap \<Rightarrow> 'p linked_account list \<Rightarrow>
   ('e, 'u) link_error + 'p linked_account list \<times> (string, nat) bmap" where
  "prepare_from n [] indices entries = Inr (entries, indices)"
| "prepare_from n (a # as) indices entries =
     (case bm_get indices (acc_id a) of
        Some first_index \<Rightarrow> Inl (Duplicate_Account_Id (acc_id a) first_index n)
      | None \<Rightarrow>
          prepare_from (Suc n) as (bm_insert (acc_id a) n indices)
            (entries @ [\<lparr>lk_config = a, lk_input_order = n, lk_binding = None\<rparr>]))"

definition prepare_accounts ::
  "account_config list \<Rightarrow> ('e, 'u) link_error + 'p linked_account list \<times> (string, nat) bmap" where
  "prepare_accounts accounts = prepare_from 0 accounts [] []"

definition preset_destination :: "string \<Rightarrow> string \<Rightarrow> bool" where
  "preset_destination provider_id driver_id \<longleftrightarrow>
     (case official_preset provider_id of None \<Rightarrow> False | Some preset \<Rightarrow> op_driver preset = driver_id)"

definition link_destination ::
  "(string \<Rightarrow> cleartext_policy \<Rightarrow> 'u + string) \<Rightarrow> ('p, 'e) registry \<Rightarrow> nat \<Rightarrow> string \<Rightarrow> provider_plan \<Rightarrow>
   ('e, 'u) link_error + ('p, 'e) provider_destination" where
  "link_destination parse_url r address provider_id plan =
     (let driver_id = vp_driver plan in
      res_bind (ok_or (Unknown_Driver provider_id driver_id)
                 (resolve_provider_descriptor r provider_id driver_id)) (\<lambda>descriptor.
      let (base_url, url_source) =
            (case vp_base_url plan of
               Some url \<Rightarrow> (url, Configured)
             | None \<Rightarrow> (pd_base_url descriptor,
                        if preset_destination provider_id driver_id then Provider_Default
                        else Driver_Default));
          cleartext = (if vp_allow_insecure_http plan then Allow_Cleartext else Loopback_Only)
      in res_map (\<lambda>url.
           \<lparr>ds_provider_id = provider_id, ds_driver_id = driver_id,
            ds_target = \<lparr>pt_base_url = url, pt_model_cache = address\<rparr>, ds_descriptor = descriptor\<rparr>)
           (map_err (Invalid_Provider_Url provider_id driver_id url_source base_url)
             (parse_url base_url cleartext))))"

fun link_destinations ::
  "(string \<Rightarrow> cleartext_policy \<Rightarrow> 'u + string) \<Rightarrow> ('p, 'e) registry \<Rightarrow> nat \<Rightarrow> (string \<times> provider_plan) list \<Rightarrow>
   (string, ('p, 'e) provider_destination) bmap \<Rightarrow>
   ('e, 'u) link_error + (string, ('p, 'e) provider_destination) bmap" where
  "link_destinations parse_url r address [] destinations = Inr destinations"
| "link_destinations parse_url r address ((provider_id, plan) # plans) destinations =
     res_bind (link_destination parse_url r address provider_id plan) (\<lambda>d.
       link_destinations parse_url r (Suc address) plans (bm_insert provider_id d destinations))"

text \<open>
  The configuration a driver sees: the account with the driver's id as its provider, unless
  the configured provider is the official destination of that driver.
\<close>

definition driver_config_for :: "string \<Rightarrow> string \<Rightarrow> account_config \<Rightarrow> account_config" where
  "driver_config_for provider_id driver_id a =
     (if preset_destination provider_id driver_id then a else a\<lparr>acc_provider := driver_id\<rparr>)"

text \<open>
  One account: \<open>None\<close> leaves it unbound. The destination exists because every planned
  provider was linked first; the code's \<open>expect\<close> is the \<open>the\<close>.
\<close>

definition link_account ::
  "gateway_plan \<Rightarrow> ('p, 'e) registry \<Rightarrow> (string, ('p, 'e) provider_destination) bmap \<Rightarrow> 'p linked_account \<Rightarrow>
   ('e, 'u) link_error + 'p provider_binding option" where
  "link_account plan r destinations account =
     (let a = lk_config account;
          unknown = Inl (Unknown_Account_Provider (acc_id a) (acc_provider a))
      in (case new_identifier Provider_Id (acc_provider a) of
            Inl _ \<Rightarrow> unknown
          | Inr provider_id \<Rightarrow>
              (case bm_get (gp_providers plan) provider_id of
                 None \<Rightarrow> if official_preset provider_id \<noteq> None then Inr None else unknown
               | Some p \<Rightarrow>
                   if \<not> acc_enabled a then Inr None
                   else
                     let driver_id = vp_driver p;
                         target = ds_target (the (bm_get destinations provider_id));
                         config = driver_config_for provider_id driver_id a
                     in res_map (\<lambda>driver. Some
                          \<lparr>pb_key = Binding_Key provider_id (acc_id a), pb_driver_id = driver_id,
                           pb_account = a, pb_handle = new_handle config driver,
                           pb_account_order = lk_input_order account\<rparr>)
                        (map_err (Build_Provider provider_id (acc_id a) driver_id)
                          (build_driver_at r driver_id config target)))))"

fun link_accounts ::
  "gateway_plan \<Rightarrow> ('p, 'e) registry \<Rightarrow> (string, ('p, 'e) provider_destination) bmap \<Rightarrow> 'p linked_account list \<Rightarrow>
   'p linked_account list \<Rightarrow> (binding_key, 'p provider_binding) bmap \<Rightarrow>
   ('e, 'u) link_error + 'p linked_account list \<times> (binding_key, 'p provider_binding) bmap" where
  "link_accounts plan r destinations [] done_accounts bindings = Inr (done_accounts, bindings)"
| "link_accounts plan r destinations (account # accounts) done_accounts bindings =
     res_bind (link_account plan r destinations account) (\<lambda>bound.
       link_accounts plan r destinations accounts
         (done_accounts @ [account\<lparr>lk_binding := bound\<rparr>])
         (case bound of None \<Rightarrow> bindings | Some b \<Rightarrow> bm_insert (pb_key b) b bindings))"

definition link_provider_graph ::
  "(string \<Rightarrow> cleartext_policy \<Rightarrow> 'u + string) \<Rightarrow> gateway_plan \<Rightarrow> account_config list \<Rightarrow> ('p, 'e) registry \<Rightarrow>
   ('e, 'u) link_error + ('p, 'e) provider_graph" where
  "link_provider_graph parse_url plan accounts r =
     res_bind (prepare_accounts accounts) (\<lambda>(entries, indices).
     res_bind (link_destinations parse_url r 0 (gp_providers plan) []) (\<lambda>destinations.
     res_map (\<lambda>(linked, bindings).
         \<lparr>pg_destinations = destinations, pg_bindings = bindings, pg_accounts = linked,
          pg_account_indices = indices\<rparr>)
       (link_accounts plan r destinations entries [] [])))"

section \<open>What a linked graph holds\<close>

lemma prepare_from_ok:
  "prepare_from n as indices entries = (Inr (es, indices') :: ('e, 'u) link_error + _) \<Longrightarrow> bm_ok indices \<Longrightarrow>
     es = entries @ map2 (\<lambda>i a. \<lparr>lk_config = a, lk_input_order = i, lk_binding = None\<rparr>) [n ..< n + length as] as \<and>
     bm_ok indices' \<and> distinct (map acc_id as) \<and> (\<forall>a \<in> set as. bm_get indices (acc_id a) = None) \<and>
     (\<forall>i. bm_get indices' i =
        (case position_of (\<lambda>a. acc_id a = i) as of None \<Rightarrow> bm_get indices i | Some k \<Rightarrow> Some (n + k)))"
proof (induction n as indices entries rule: prepare_from.induct)
  case (2 n a as indices entries)
  have none: "bm_get indices (acc_id a) = None" using 2(2) by (auto split: option.splits)
  let ?ind = "bm_insert (acc_id a) n indices"
  have "prepare_from (Suc n) as ?ind (entries @ [\<lparr>lk_config = a, lk_input_order = n, lk_binding = None\<rparr>])
      = (Inr (es, indices') :: ('e, 'u) link_error + _)"
    using 2(2) none by simp
  note IH = 2(1) [OF none this bm_ok_insert [OF 2(3)]]
  have fresh: "\<forall>b \<in> set as. bm_get indices (acc_id b) = None \<and> acc_id b \<noteq> acc_id a"
    using IH 2(3) by (auto simp: bm_get_insert split: if_splits)
  have "[n ..< n + length (a # as)] = n # [Suc n ..< Suc n + length as]"
    by (subst upt_conv_Cons) simp_all
  moreover have "position_of (\<lambda>b. acc_id b = acc_id a) as = None"
    using fresh by (auto simp: position_of_None)
  ultimately show ?case
    using IH fresh none 2(3) by (auto simp: bm_get_insert simp del: upt_Suc split: option.splits)
qed simp

lemma link_destinations_ok:
  "link_destinations parse_url r address plans ds = Inr ds' \<Longrightarrow> bm_ok ds \<Longrightarrow> distinct (map fst plans) \<Longrightarrow>
     bm_ok ds' \<and>
     (\<forall>p. bm_get ds' p =
        (case position_of (\<lambda>(q, _). q = p) plans of
           None \<Rightarrow> bm_get ds p
         | Some k \<Rightarrow> (case link_destination parse_url r (address + k) p (snd (plans ! k)) of
                       Inl _ \<Rightarrow> None | Inr d \<Rightarrow> Some d))) \<and>
     (\<forall>k < length plans.
        \<exists>d. link_destination parse_url r (address + k) (fst (plans ! k)) (snd (plans ! k)) = Inr d)"
proof (induction parse_url r address plans ds rule: link_destinations.induct)
  case (2 parse_url r address provider_id plan plans ds)
  from 2(2) obtain d where d: "link_destination parse_url r address provider_id plan = Inr d"
    and rest: "link_destinations parse_url r (Suc address) plans (bm_insert provider_id d ds) = Inr ds'"
    by auto
  note IH = 2(1) [OF rest bm_ok_insert [OF 2(3)]]
  have dist: "distinct (map fst plans)" and new: "provider_id \<notin> fst ` set plans" using 2(4) by auto
  have "position_of (\<lambda>(q, _). q = provider_id) plans = None"
    using new by (force simp: position_of_None)
  then show ?case
    using IH [OF dist] d 2(3)
    by (auto simp: bm_get_insert nth_Cons' less_Suc_eq_0_disj split: option.splits)
qed simp

lemma link_accounts_ok:
  "link_accounts plan r ds es done_accounts bs = (Inr (ls, bs') :: ('e, 'u) link_error + _) \<Longrightarrow>
     \<exists>new. ls = done_accounts @ new \<and>
       list_all2 (\<lambda>e l. \<exists>b. link_account plan r ds e = (Inr b :: ('e, 'u) link_error + _) \<and> l = e\<lparr>lk_binding := b\<rparr>) es new \<and>
       bs' = fold (\<lambda>(k, b). bm_insert k b) (map (\<lambda>b. (pb_key b, b)) (filter_map lk_binding new)) bs"
proof (induction plan r ds es done_accounts bs rule: link_accounts.induct)
  case (2 plan r ds e es done_accounts bs)
  from 2(2) obtain bound where b: "link_account plan r ds e = (Inr bound :: ('e, 'u) link_error + _)"
    and rest: "link_accounts plan r ds es (done_accounts @ [e\<lparr>lk_binding := bound\<rparr>])
      (case bound of None \<Rightarrow> bs | Some b \<Rightarrow> bm_insert (pb_key b) b bs) = (Inr (ls, bs') :: ('e, 'u) link_error + _)"
    by auto
  from 2(1) [OF rest] obtain new where new: "ls = (done_accounts @ [e\<lparr>lk_binding := bound\<rparr>]) @ new"
    "list_all2 (\<lambda>e l. \<exists>b. link_account plan r ds e = (Inr b :: ('e, 'u) link_error + _) \<and> l = e\<lparr>lk_binding := b\<rparr>) es new"
    "bs' = fold (\<lambda>(k, b). bm_insert k b) (map (\<lambda>b. (pb_key b, b)) (filter_map lk_binding new))
       (case bound of None \<Rightarrow> bs | Some b \<Rightarrow> bm_insert (pb_key b) b bs)"
    by auto
  show ?case
    using new b by (intro exI [of _ "e\<lparr>lk_binding := bound\<rparr> # new"]) (auto split: option.splits)
qed simp

text \<open>What a linked account's binding is.\<close>

definition binding_matches ::
  "gateway_plan \<Rightarrow> ('p, 'e) registry \<Rightarrow> (string, ('p, 'e) provider_destination) bmap \<Rightarrow> 'p linked_account \<Rightarrow>
   'p provider_binding \<Rightarrow> bool" where
  "binding_matches plan r ds l b \<longleftrightarrow>
     acc_enabled (lk_config l) \<and>
     pb_key b = Binding_Key (acc_provider (lk_config l)) (acc_id (lk_config l)) \<and>
     pb_account b = lk_config l \<and> pb_account_order b = lk_input_order l \<and>
     (\<exists>p driver. bm_get (gp_providers plan) (acc_provider (lk_config l)) = Some p \<and>
        pb_driver_id b = vp_driver p \<and>
        build_driver_at r (vp_driver p) (driver_config_for (acc_provider (lk_config l)) (vp_driver p) (lk_config l))
          (ds_target (the (bm_get ds (acc_provider (lk_config l))))) = Inr driver \<and>
        pb_handle b =
          new_handle (driver_config_for (acc_provider (lk_config l)) (vp_driver p) (lk_config l)) driver)"

lemma new_identifier_Inr: "new_identifier k s = Inr i \<Longrightarrow> i = s"
  by (auto simp: new_identifier_def parse_identifier_def Let_def split: prod.splits if_splits)

lemma link_account_Inr:
  assumes "link_account plan r ds e = Inr bound"
  shows "bound = Some b \<Longrightarrow> binding_matches plan r ds e b"
    and "bound = None \<longleftrightarrow>
      \<not> acc_enabled (lk_config e) \<or> bm_get (gp_providers plan) (acc_provider (lk_config e)) = None"
    and "bm_get (gp_providers plan) (acc_provider (lk_config e)) \<noteq> None \<or>
      official_preset (acc_provider (lk_config e)) \<noteq> None"
  using assms
  by (auto simp: link_account_def binding_matches_def Let_def
      dest!: new_identifier_Inr split: sum.splits option.splits if_splits)

definition graph_ok ::
  "gateway_plan \<Rightarrow> account_config list \<Rightarrow> ('p, 'e) registry \<Rightarrow> ('p, 'e) provider_graph \<Rightarrow> bool" where
  "graph_ok plan accounts r g \<longleftrightarrow>
     map lk_config (pg_accounts g) = accounts \<and>
     map lk_input_order (pg_accounts g) = [0 ..< length accounts] \<and>
     distinct (map acc_id accounts) \<and>
     (\<forall>l \<in> set (pg_accounts g).
        (lk_binding l = None \<longleftrightarrow>
           \<not> acc_enabled (lk_config l) \<or> bm_get (gp_providers plan) (acc_provider (lk_config l)) = None) \<and>
        (\<forall>b. lk_binding l = Some b \<longrightarrow> binding_matches plan r (pg_destinations g) l b)) \<and>
     (\<forall>p a b. graph_binding g p a = Some b \<longleftrightarrow>
        (\<exists>l \<in> set (pg_accounts g). lk_binding l = Some b \<and> pb_key b = Binding_Key p a)) \<and>
     (\<forall>i l. graph_account g i = Some l \<longleftrightarrow> l \<in> set (pg_accounts g) \<and> acc_id (lk_config l) = i)"

lemma link_provider_graph_parts:
  assumes "link_provider_graph parse_url plan accounts r = (Inr g :: ('e, 'u) link_error + _)"
  obtains es ind ds new where
    "prepare_accounts accounts = (Inr (es, ind) :: ('e, 'u) link_error + _)"
    "link_destinations parse_url r 0 (gp_providers plan) [] = Inr ds"
    "list_all2 (\<lambda>e l. \<exists>b. link_account plan r ds e = (Inr b :: ('e, 'u) link_error + _) \<and> l = e\<lparr>lk_binding := b\<rparr>) es new"
    "g = \<lparr>pg_destinations = ds,
          pg_bindings = bm_of_list (map (\<lambda>b. (pb_key b, b)) (filter_map lk_binding new)),
          pg_accounts = new, pg_account_indices = ind\<rparr>"
proof -
  from assms obtain es ind ds ls bs where a: "prepare_accounts accounts = (Inr (es, ind) :: ('e, 'u) link_error + _)"
    and d: "link_destinations parse_url r 0 (gp_providers plan) [] = Inr ds"
    and l: "link_accounts plan r ds es [] [] = (Inr (ls, bs) :: ('e, 'u) link_error + _)"
    and g: "g = \<lparr>pg_destinations = ds, pg_bindings = bs, pg_accounts = ls, pg_account_indices = ind\<rparr>"
    unfolding link_provider_graph_def by (force split: prod.splits)
  from link_accounts_ok [OF l] that [OF a d] g show thesis
    unfolding bm_of_list_def by auto
qed

lemma prepared_accounts:
  assumes "prepare_accounts accounts = (Inr (es, ind) :: ('e, 'u) link_error + _)"
  shows "map lk_config es = accounts" and "map lk_input_order es = [0 ..< length accounts]"
    and "distinct (map acc_id accounts)"
    and "bm_get ind i = position_of (\<lambda>a. acc_id a = i) accounts"
proof -
  from prepare_from_ok [OF assms [unfolded prepare_accounts_def]]
  have es: "es = map2 (\<lambda>i a. \<lparr>lk_config = a, lk_input_order = i, lk_binding = None\<rparr>) [0 ..< length accounts] accounts"
    and d: "distinct (map acc_id accounts)"
    and i: "\<And>i. bm_get ind i = (case position_of (\<lambda>a. acc_id a = i) accounts of None \<Rightarrow> None | Some k \<Rightarrow> Some k)"
    by (simp_all cong: option.case_cong)
  show "map lk_config es = accounts" unfolding es by (rule nth_equalityI) auto
  show "map lk_input_order es = [0 ..< length accounts]" unfolding es by (rule nth_equalityI) auto
  show "distinct (map acc_id accounts)" by (rule d)
  show "bm_get ind i = position_of (\<lambda>a. acc_id a = i) accounts" using i [of i] by (auto split: option.splits)
qed


lemma distinct_keys_of_bindings:
  assumes "distinct (map (acc_id \<circ> lk_config) ls)"
    and "\<And>l b. l \<in> set ls \<Longrightarrow> lk_binding l = Some b \<Longrightarrow> bk_account (pb_key b) = acc_id (lk_config l)"
  shows "distinct (map pb_key (filter_map lk_binding ls))"
  using assms
proof (induction ls)
  case (Cons x xs)
  have IH: "distinct (map pb_key (filter_map lk_binding xs))"
    by (rule Cons.IH) (use Cons.prems in auto)
  show ?case
  proof (cases "lk_binding x")
    case (Some b)
    have "pb_key b \<notin> pb_key ` set (filter_map lk_binding xs)"
    proof
      assume "pb_key b \<in> pb_key ` set (filter_map lk_binding xs)"
      then obtain y c where y: "y \<in> set xs" "lk_binding y = Some c" "pb_key b = pb_key c"
        by (auto simp: set_filter_map)
      then have "acc_id (lk_config x) = acc_id (lk_config y)"
        using Cons.prems(2) [of x b] Cons.prems(2) [of y c] Some by simp
      with Cons.prems(1) y(1) show False by (auto simp: image_iff)
    qed
    with Some IH show ?thesis by simp
  qed (use IH in simp)
qed simp

lemma indexed_account:
  assumes "distinct (map (acc_id \<circ> lk_config) ls)"
  shows "(\<exists>k. position_of (\<lambda>a. acc_id a = i) (map lk_config ls) = Some k \<and> ls ! k = x) \<longleftrightarrow>
    x \<in> set ls \<and> acc_id (lk_config x) = i"
proof
  assume "\<exists>k. position_of (\<lambda>a. acc_id a = i) (map lk_config ls) = Some k \<and> ls ! k = x"
  then show "x \<in> set ls \<and> acc_id (lk_config x) = i" by (auto simp: position_of_Some)
next
  assume "x \<in> set ls \<and> acc_id (lk_config x) = i"
  then obtain k where k: "k < length ls" "ls ! k = x" "acc_id (lk_config x) = i" by (auto simp: in_set_conv_nth)
  have "acc_id (lk_config (ls ! j)) \<noteq> i" if "j < k" for j
    using assms k that by (auto simp: distinct_conv_nth dest: spec [of _ j])
  with k show "\<exists>k. position_of (\<lambda>a. acc_id a = i) (map lk_config ls) = Some k \<and> ls ! k = x"
    by (intro exI [of _ k]) (simp add: position_of_Some)
qed

lemma linked_graph_ok:
  assumes "link_provider_graph parse_url plan accounts r = (Inr g :: ('e, 'u) link_error + _)"
  shows "graph_ok plan accounts r g"
proof -
  obtain es ind ds new where
    a: "prepare_accounts accounts = (Inr (es, ind) :: ('e, 'u) link_error + _)" and
    l: "list_all2 (\<lambda>e l. \<exists>b. link_account plan r ds e = (Inr b :: ('e, 'u) link_error + _) \<and> l = e\<lparr>lk_binding := b\<rparr>) es new" and
    g: "g = \<lparr>pg_destinations = ds,
          pg_bindings = bm_of_list (map (\<lambda>b. (pb_key b, b)) (filter_map lk_binding new)),
          pg_accounts = new, pg_account_indices = ind\<rparr>"
    by (rule link_provider_graph_parts [OF assms])
  note pre = prepared_accounts [OF a]
  have len: "length new = length es" using l by (simp add: list_all2_lengthD)
  have nth: "k < length new \<Longrightarrow> lk_config (new ! k) = lk_config (es ! k) \<and> lk_input_order (new ! k) = lk_input_order (es ! k)" for k
    using list_all2_nthD2 [OF l, of k] by auto
  have "map lk_config new = map lk_config es" using nth len by (auto intro!: nth_equalityI)
  with pre(1) have cfg: "map lk_config new = accounts" by simp
  have "map lk_input_order new = map lk_input_order es" using nth len by (auto intro!: nth_equalityI)
  with pre(2) have ord: "map lk_input_order new = [0 ..< length accounts]" by simp
  have each: "(lk_binding x = None \<longleftrightarrow>
           \<not> acc_enabled (lk_config x) \<or> bm_get (gp_providers plan) (acc_provider (lk_config x)) = None) \<and>
        (\<forall>b. lk_binding x = Some b \<longrightarrow> binding_matches plan r ds x b)" if x: "x \<in> set new" for x
  proof -
    obtain k where k: "k < length new" "x = new ! k" using x by (auto simp: in_set_conv_nth)
    from list_all2_nthD2 [OF l k(1)] k(2)
    obtain b where e: "link_account plan r ds (es ! k) = (Inr b :: ('e, 'u) link_error + _)" "x = (es ! k)\<lparr>lk_binding := b\<rparr>"
      by blast
    show ?thesis using link_account_Inr(1,2) [OF e(1)] e(2) by (auto simp: binding_matches_def)
  qed
  have keys: "bk_account (pb_key b) = acc_id (lk_config x)" if "x \<in> set new" "lk_binding x = Some b" for x b
    using each [OF that(1)] that(2) by (auto simp: binding_matches_def)
  have ids: "distinct (map (acc_id \<circ> lk_config) new)"
    using pre(3) cfg by (metis map_map)
  have dist: "distinct (map pb_key (filter_map lk_binding new))"
    by (rule distinct_keys_of_bindings [OF ids keys])
  have bound: "graph_binding g p i = Some b \<longleftrightarrow>
      (\<exists>x \<in> set new. lk_binding x = Some b \<and> pb_key b = Binding_Key p i)" for p i b
  proof -
    let ?m = "map (\<lambda>b. (pb_key b, b)) (filter_map lk_binding new)"
    have "distinct (map fst (rev ?m))" using dist by (simp add: comp_def rev_map [symmetric])
    then have "graph_binding g p i = Some b \<longleftrightarrow> (Binding_Key p i, b) \<in> set ?m"
      unfolding g graph_binding_def by (simp add: bm_get_of_list map_of_eq_Some_iff del: map_map)
    then show ?thesis by (auto simp: set_filter_map image_iff)
  qed
  have acc: "graph_account g i = Some x \<longleftrightarrow> x \<in> set new \<and> acc_id (lk_config x) = i" for i x
    using indexed_account [OF ids, of i x] by (simp add: graph_account_def g pre(4) cfg)
  show ?thesis
    unfolding graph_ok_def using cfg ord pre(3) each bound acc by (simp add: g)
qed

lemma linked_destination:
  assumes "link_provider_graph parse_url plan accounts r = (Inr g :: ('e, 'u) link_error + _)"
    and "bm_ok (gp_providers plan)"
  shows "graph_destination g p =
    (case position_of (\<lambda>(q, _). q = p) (gp_providers plan) of
       None \<Rightarrow> None
     | Some k \<Rightarrow> (case link_destination parse_url r k p (snd (gp_providers plan ! k)) :: ('e, 'u) link_error + _ of
                   Inl _ \<Rightarrow> None | Inr d \<Rightarrow> Some d))"
    and "k < length (gp_providers plan) \<Longrightarrow>
      \<exists>d. link_destination parse_url r k (fst (gp_providers plan ! k)) (snd (gp_providers plan ! k)) = (Inr d :: ('e, 'u) link_error + _)"
proof -
  obtain es ind ds new where
    d: "link_destinations parse_url r 0 (gp_providers plan) [] = (Inr ds :: ('e, 'u) link_error + _)" and
    g: "g = \<lparr>pg_destinations = ds,
          pg_bindings = bm_of_list (map (\<lambda>b. (pb_key b, b)) (filter_map lk_binding new)),
          pg_accounts = new, pg_account_indices = ind\<rparr>"
    by (rule link_provider_graph_parts [OF assms(1)])
  note facts = link_destinations_ok [OF d bm_ok_Nil bm_ok_distinct [OF assms(2)]]
  show "graph_destination g p = (case position_of (\<lambda>(q, _). q = p) (gp_providers plan) of
       None \<Rightarrow> None
     | Some k \<Rightarrow> (case link_destination parse_url r k p (snd (gp_providers plan ! k)) :: ('e, 'u) link_error + _ of
                   Inl _ \<Rightarrow> None | Inr d \<Rightarrow> Some d))"
    using facts by (simp add: graph_destination_def g cong: option.case_cong)
  show "k < length (gp_providers plan) \<Longrightarrow>
      \<exists>d. link_destination parse_url r k (fst (gp_providers plan ! k)) (snd (gp_providers plan ! k)) = (Inr d :: ('e, 'u) link_error + _)"
    using facts by simp
qed

lemma link_destination_address:
  "link_destination parse_url r address p plan = Inr d \<Longrightarrow> pt_model_cache (ds_target d) = address"
  by (auto simp: link_destination_def Let_def split: prod.splits option.splits)

section \<open>Properties\<close>

text \<open>
  C27. In a linked graph the accounts are the input in order and distinct by id; an account
  is bound exactly when it is enabled and its provider is configured; its binding is the one
  under its provider and id, with a handle whose driver was built from that provider's
  destination; the binding table holds exactly the accounts' bindings and the account index
  finds exactly the accounts.
\<close>

theorem linked_graph_binds_each_account:
  assumes "link_provider_graph parse_url plan accounts r = (Inr g :: ('e, 'u) link_error + _)"
  shows "map lk_config (pg_accounts g) = accounts \<and>
     map lk_input_order (pg_accounts g) = [0 ..< length accounts] \<and>
     distinct (map acc_id accounts) \<and>
     (\<forall>l \<in> set (pg_accounts g).
        (lk_binding l = None \<longleftrightarrow>
           \<not> acc_enabled (lk_config l) \<or> bm_get (gp_providers plan) (acc_provider (lk_config l)) = None) \<and>
        (\<forall>b. lk_binding l = Some b \<longrightarrow> binding_matches plan r (pg_destinations g) l b)) \<and>
     (\<forall>p a b. graph_binding g p a = Some b \<longleftrightarrow>
        (\<exists>l \<in> set (pg_accounts g). lk_binding l = Some b \<and> pb_key b = Binding_Key p a)) \<and>
     (\<forall>i l. graph_account g i = Some l \<longleftrightarrow> l \<in> set (pg_accounts g) \<and> acc_id (lk_config l) = i)"
  using linked_graph_ok [OF assms] unfolding graph_ok_def .

text \<open>A small gateway: two providers of one driver, and accounts of both.\<close>

definition sample_registry :: "(string, string) registry" where
  "sample_registry =
     register_descriptor
       \<lparr>pd_id = ''openai'', pd_display_name = ''OpenAI'', pd_base_url = ''https://api.openai.com/v1'',
        pd_endpoints = [Chat_Completions, Responses],
        pd_validate = (\<lambda>a. if acc_api_key a = Some [] then Some ''empty key'' else None),
        pd_build = (\<lambda>a t. Inr (acc_provider a @ ''@'' @ pt_base_url t))\<rparr> []"

definition sample_provider :: "string option \<Rightarrow> provider_plan" where
  "sample_provider url =
     \<lparr>vp_driver = ''openai'', vp_base_url = url, vp_origins = [], vp_allow_insecure_http = False\<rparr>"

definition sample_plan :: gateway_plan where
  "sample_plan =
     \<lparr>gp_listeners = [], gp_profiles = [], gp_routes = [], gp_retry_policies = [],
      gp_account_pools =
        [(''main'', \<lparr>ap_selector = \<lparr>as_providers = None, as_accounts = None\<rparr>, ap_strategy = Round_Robin,
                    ap_failure_cooldown = duration_from_secs 30, ap_session_affinity = None\<rparr>)],
      gp_providers = [(''mirror'', sample_provider (Some ''https://mirror.test/v1'')),
                      (''openai'', sample_provider None)]\<rparr>"

definition sample_accounts :: "account_config list" where
  "sample_accounts =
     [default_account ''a'' ''openai'', (default_account ''b'' ''mirror'')\<lparr>acc_tier := Fallback\<rparr>,
      (default_account ''c'' ''openai'')\<lparr>acc_enabled := False\<rparr>, default_account ''d'' ''zai'']"

definition sample_graph :: "(string, string) provider_graph" where
  "sample_graph =
     (case link_provider_graph (\<lambda>u _. Inr u :: unit + string) sample_plan sample_accounts sample_registry of
        Inr g \<Rightarrow> g
      | Inl _ \<Rightarrow> \<lparr>pg_destinations = [], pg_bindings = [], pg_accounts = [], pg_account_indices = []\<rparr>)"

lemma sample_graph_linked:
  "link_provider_graph (\<lambda>u _. Inr u) sample_plan sample_accounts sample_registry =
     (Inr sample_graph :: (string, unit) link_error + _)"
proof -
  have "map_option (\<lambda>_. ()) (case link_provider_graph (\<lambda>u _. Inr u) sample_plan sample_accounts sample_registry
      :: (string, unit) link_error + _ of Inl _ \<Rightarrow> None | Inr g \<Rightarrow> Some g) = Some ()"
    by code_simp
  then show ?thesis by (auto simp: sample_graph_def split: sum.splits)
qed

theorem linked_graph_binds_each_account_witness:
  "\<exists>b. graph_binding sample_graph ''mirror'' ''b'' = Some b \<and> ah_provider (pb_handle b) = ''openai@https://mirror.test/v1'' \<and>
     distinct (map acc_id sample_accounts)"
proof -
  have "map_option (\<lambda>b. ah_provider (pb_handle b)) (graph_binding sample_graph ''mirror'' ''b'') =
      Some ''openai@https://mirror.test/v1''"
    by code_simp
  with linked_graph_binds_each_account [OF sample_graph_linked] show ?thesis by auto
qed

text \<open>
  Every configured provider, and no other, has a destination, and two providers never share
  a model cache, even with the same driver and URL.
\<close>

lemma destinations_own_their_caches:
  assumes "link_provider_graph parse_url plan accounts r = (Inr g :: ('e, 'u) link_error + _)"
    and "bm_ok (gp_providers plan)"
  shows "(graph_destination g p \<noteq> None \<longleftrightarrow> bm_get (gp_providers plan) p \<noteq> None) \<and>
    (\<forall>q t u. graph_target g p = Some t \<and> graph_target g q = Some u \<and> pt_model_cache t = pt_model_cache u \<longrightarrow> p = q)"
proof -
  note dest = linked_destination [OF assms]
  have none: "bm_get (gp_providers plan) p = None \<longleftrightarrow> position_of (\<lambda>(q, _). q = p) (gp_providers plan) = None" for p
    by (force simp: bm_get_None_iff position_of_None)
  have 1: "graph_destination g p \<noteq> None \<longleftrightarrow> bm_get (gp_providers plan) p \<noteq> None"
  proof (cases "position_of (\<lambda>(q, _). q = p) (gp_providers plan)")
    case None
    then show ?thesis using none [of p] dest(1) [of p] by simp
  next
    case (Some k)
    then have k: "k < length (gp_providers plan)" "fst (gp_providers plan ! k) = p"
      by (auto simp: position_of_Some split: prod.splits)
    from dest(2) [OF k(1)] k(2) Some dest(1) [of p] none [of p] show ?thesis by auto
  qed
  have at: "\<exists>k < length (gp_providers plan). fst (gp_providers plan ! k) = p \<and> pt_model_cache t = k"
    if t: "graph_target g p = Some t" for p t
  proof -
    from t obtain d where d: "graph_destination g p = Some d" "ds_target d = t"
      by (auto simp: graph_target_def)
    then obtain k where k: "position_of (\<lambda>(q, _). q = p) (gp_providers plan) = Some k"
      and l: "link_destination parse_url r k p (snd (gp_providers plan ! k)) = (Inr d :: ('e, 'u) link_error + _)"
      using dest(1) [of p] by (auto split: option.splits sum.splits)
    from link_destination_address [OF l] d(2) k show ?thesis
      by (auto simp: position_of_Some split: prod.splits)
  qed
  from 1 show ?thesis by (auto dest!: at)
qed

end
