(* ===== verification/Account_Pools.thy ===== *)
theory Account_Pools
  imports Provider_Graph
begin

text \<open>
  Account pools over a linked provider graph (crates/accounts/src/link/pools.rs): each pool
  filters the bound accounts by its selector and splits them into an active and a fallback
  tier. \<open>pool_ok\<close> is what the runtime of a pool relies on.
\<close>

record 'p linked_pool_account =
  la_account_id :: string
  la_account_order :: nat
  la_binding :: "'p provider_binding"

record 'p linked_account_pool =
  lp_id :: string
  lp_strategy :: account_selection_strategy
  lp_failure_cooldown :: duration
  lp_session_affinity :: "session_affinity_plan option"
  lp_active :: "'p linked_pool_account list"
  lp_fallback :: "'p linked_pool_account list"

type_synonym 'p linked_account_pools = "(string, 'p linked_account_pool) bmap"

datatype pool_link_error = Unknown_Account string string

definition pool_is_empty :: "'p linked_account_pool \<Rightarrow> bool" where
  "pool_is_empty p \<longleftrightarrow> lp_active p = [] \<and> lp_fallback p = []"

fun validate_accounts ::
  "string \<Rightarrow> string list \<Rightarrow> ('p, 'e) provider_graph \<Rightarrow> pool_link_error + unit" where
  "validate_accounts pool_id [] g = Inr ()"
| "validate_accounts pool_id (a # as) g =
     (if graph_account g a = None then Inl (Unknown_Account pool_id a) else validate_accounts pool_id as g)"

definition validate_selector ::
  "string \<Rightarrow> account_selector \<Rightarrow> ('p, 'e) provider_graph \<Rightarrow> pool_link_error + unit" where
  "validate_selector pool_id selector g =
     (case as_accounts selector of None \<Rightarrow> Inr () | Some ids \<Rightarrow> validate_accounts pool_id ids g)"

text \<open>The loop body for one account: \<open>None\<close> is \<open>continue\<close>.\<close>

definition selected_account ::
  "account_selector \<Rightarrow> 'p linked_account \<Rightarrow> (account_tier \<times> 'p linked_pool_account) option" where
  "selected_account selector account =
     (let config = lk_config account in
      case lk_binding account of
        None \<Rightarrow> None
      | Some b \<Rightarrow>
          if \<not> acc_enabled config
             \<or> \<not> (case as_providers selector of None \<Rightarrow> True | Some ps \<Rightarrow> bs_contains ps (bk_provider (pb_key b)))
             \<or> \<not> (case as_accounts selector of None \<Rightarrow> True | Some ids \<Rightarrow> bs_contains ids (acc_id config))
          then None
          else Some (acc_tier config,
                 \<lparr>la_account_id = acc_id config, la_account_order = lk_input_order account, la_binding = b\<rparr>))"

fun tier_accounts ::
  "account_selector \<Rightarrow> 'p linked_account list \<Rightarrow> 'p linked_pool_account list \<Rightarrow> 'p linked_pool_account list \<Rightarrow>
   'p linked_pool_account list \<times> 'p linked_pool_account list" where
  "tier_accounts selector [] active fallback = (active, fallback)"
| "tier_accounts selector (a # as) active fallback =
     (case selected_account selector a of
        None \<Rightarrow> tier_accounts selector as active fallback
      | Some (Active, l) \<Rightarrow> tier_accounts selector as (active @ [l]) fallback
      | Some (Fallback, l) \<Rightarrow> tier_accounts selector as active (fallback @ [l]))"

definition link_pool ::
  "('p, 'e) provider_graph \<Rightarrow> string \<Rightarrow> account_pool_plan \<Rightarrow> pool_link_error + 'p linked_account_pool" where
  "link_pool g pool_id plan =
     res_bind (validate_selector pool_id (ap_selector plan) g) (\<lambda>_.
       let (active, fallback) = tier_accounts (ap_selector plan) (pg_accounts g) [] []
       in Inr \<lparr>lp_id = pool_id, lp_strategy = ap_strategy plan, lp_failure_cooldown = ap_failure_cooldown plan,
               lp_session_affinity = ap_session_affinity plan, lp_active = active, lp_fallback = fallback\<rparr>)"

fun link_pools ::
  "('p, 'e) provider_graph \<Rightarrow> (string \<times> account_pool_plan) list \<Rightarrow> 'p linked_account_pools \<Rightarrow>
   pool_link_error + 'p linked_account_pools" where
  "link_pools g [] pools = Inr pools"
| "link_pools g ((pool_id, plan) # plans) pools =
     res_bind (link_pool g pool_id plan) (\<lambda>p. link_pools g plans (bm_insert pool_id p pools))"

definition link_account_pools ::
  "gateway_plan \<Rightarrow> ('p, 'e) provider_graph \<Rightarrow> pool_link_error + 'p linked_account_pools" where
  "link_account_pools plan g = link_pools g (gp_account_pools plan) []"

section \<open>What a pool holds\<close>

definition tier_of :: "account_tier \<Rightarrow> 'p linked_account_pool \<Rightarrow> 'p linked_pool_account list" where
  "tier_of t p = (case t of Active \<Rightarrow> lp_active p | Fallback \<Rightarrow> lp_fallback p)"

definition pool_key :: "'p linked_pool_account \<Rightarrow> binding_key" where
  "pool_key l = pb_key (la_binding l)"

definition pool_accounts :: "'p linked_account_pool \<Rightarrow> 'p linked_pool_account list" where
  "pool_accounts p = lp_active p @ lp_fallback p"

text \<open>No binding is in a pool twice.\<close>

definition pool_ok :: "'p linked_account_pool \<Rightarrow> bool" where
  "pool_ok p \<longleftrightarrow> distinct (map pool_key (pool_accounts p))"

text \<open>The entry of an account in a given tier.\<close>

definition tier_entry :: "account_selector \<Rightarrow> account_tier \<Rightarrow> 'p linked_account \<Rightarrow> 'p linked_pool_account option" where
  "tier_entry selector t a =
     Option.bind (selected_account selector a) (\<lambda>(t', l). if t' = t then Some l else None)"

lemma tier_entry_iff: "tier_entry selector t a = Some l \<longleftrightarrow> selected_account selector a = Some (t, l)"
  by (auto simp: tier_entry_def bind_eq_Some_conv)

lemma tier_accounts_filter:
  "tier_accounts selector as active fallback =
     (active @ filter_map (tier_entry selector Active) as, fallback @ filter_map (tier_entry selector Fallback) as)"
  by (induction selector as active fallback rule: tier_accounts.induct)
    (auto simp: tier_entry_def split: option.splits account_tier.splits)

lemma validate_accounts_Inr:
  "validate_accounts pool_id ids g = Inr () \<longleftrightarrow> (\<forall>a \<in> set ids. graph_account g a \<noteq> None)"
  by (induction pool_id ids g rule: validate_accounts.induct) auto

lemma link_pool_tier:
  assumes "link_pool g pool_id plan = Inr p"
  shows "tier_of t p = filter_map (tier_entry (ap_selector plan) t) (pg_accounts g)"
  using assms by (cases t) (auto simp: link_pool_def tier_of_def tier_accounts_filter)

text \<open>When an account is selected.\<close>

definition in_selection :: "account_selector \<Rightarrow> 'p linked_account \<Rightarrow> 'p provider_binding \<Rightarrow> bool" where
  "in_selection selector a b \<longleftrightarrow>
     lk_binding a = Some b \<and> acc_enabled (lk_config a) \<and>
     (\<forall>ps. as_providers selector = Some ps \<longrightarrow> bk_provider (pb_key b) \<in> set ps) \<and>
     (\<forall>ids. as_accounts selector = Some ids \<longrightarrow> acc_id (lk_config a) \<in> set ids)"

lemma selected_account_Some:
  "selected_account selector a = Some (t, l) \<longleftrightarrow>
     t = acc_tier (lk_config a) \<and> in_selection selector a (la_binding l) \<and>
     l = \<lparr>la_account_id = acc_id (lk_config a), la_account_order = lk_input_order a, la_binding = la_binding l\<rparr>"
  by (auto simp: selected_account_def in_selection_def Let_def bs_contains_def split: option.splits if_splits)

lemma selected_account_fields:
  assumes "selected_account selector a = Some (t, l)"
  shows "la_account_id l = acc_id (lk_config a)" and "lk_binding a = Some (la_binding l)"
    and "acc_tier (lk_config a) = t"
  using assms by (auto simp: selected_account_def Let_def split: option.splits if_splits)

lemma tier_member:
  assumes "link_pool g pool_id plan = Inr p"
  shows "l \<in> set (tier_of t p) \<longleftrightarrow>
    (\<exists>a \<in> set (pg_accounts g). selected_account (ap_selector plan) a = Some (t, l))"
  by (simp add: link_pool_tier [OF assms] set_filter_map tier_entry_iff)

lemma distinct_filter_map:
  "distinct (map f xs) \<Longrightarrow> (\<And>x y. x \<in> set xs \<Longrightarrow> h x = Some y \<Longrightarrow> k y = f x) \<Longrightarrow> distinct (map k (filter_map h xs))"
proof (induction xs)
  case (Cons x xs)
  have IH: "distinct (map k (filter_map h xs))" by (rule Cons.IH) (use Cons.prems in auto)
  show ?case
  proof (cases "h x")
    case (Some y)
    have "k y \<notin> k ` set (filter_map h xs)"
    proof
      assume "k y \<in> k ` set (filter_map h xs)"
      then obtain z w where "z \<in> set xs" "h z = Some w" "k y = k w" by (auto simp: set_filter_map)
      then show False using Cons.prems Some by (metis distinct.simps(2) imageI list.set_intros(1,2) list.set_map list.simps(9))
    qed
    with Some IH show ?thesis by simp
  qed (use IH in simp)
qed simp

lemma tier_account_ids:
  assumes "link_pool g pool_id plan = Inr p" and "graph_ok plan' accounts r g"
  shows "distinct (map la_account_id (tier_of t p))"
  unfolding link_pool_tier [OF assms(1)]
proof (rule distinct_filter_map [where f = "\<lambda>a. acc_id (lk_config a)"])
  have "distinct (map acc_id (map lk_config (pg_accounts g)))" using assms(2) by (simp add: graph_ok_def)
  then show "distinct (map (\<lambda>a. acc_id (lk_config a)) (pg_accounts g))" by (simp add: comp_def)
qed (simp add: tier_entry_iff selected_account_fields(1))

lemma pool_account_key:
  assumes "link_pool g pool_id plan = Inr p" and "graph_ok plan' accounts r g" and "l \<in> set (tier_of t p)"
  shows "bk_account (pool_key l) = la_account_id l"
proof -
  from assms(3) obtain a where a: "a \<in> set (pg_accounts g)" "selected_account (ap_selector plan) a = Some (t, l)"
    unfolding tier_member [OF assms(1)] by blast
  then have "lk_binding a = Some (la_binding l)" "la_account_id l = acc_id (lk_config a)"
    by (auto dest: selected_account_fields)
  with assms(2) a(1) show ?thesis by (auto simp: graph_ok_def binding_matches_def pool_key_def)
qed

lemma linked_pool_ok:
  assumes "link_pool g pool_id plan = Inr p" and "graph_ok plan' accounts r g"
  shows "pool_ok p"
proof -
  note key = pool_account_key [OF assms]
  have tiers: "distinct (map pool_key (tier_of t p))" for t
  proof -
    have "distinct (map (\<lambda>l. bk_account (pool_key l)) (tier_of t p))"
      using tier_account_ids [OF assms, of t] key by (metis (no_types, lifting) map_cong)
    then show ?thesis by (auto simp: distinct_map inj_on_def)
  qed
  have "pool_key l \<noteq> pool_key m" if "l \<in> set (tier_of Active p)" "m \<in> set (tier_of Fallback p)" for l m
  proof
    assume "pool_key l = pool_key m"
    then have ids: "la_account_id l = la_account_id m" using key [OF that(1)] key [OF that(2)] by simp
    from that obtain a b where ab: "a \<in> set (pg_accounts g)" "selected_account (ap_selector plan) a = Some (Active, l)"
      "b \<in> set (pg_accounts g)" "selected_account (ap_selector plan) b = Some (Fallback, m)"
      unfolding tier_member [OF assms(1)] by blast
    then have "acc_id (lk_config a) = acc_id (lk_config b)" and tier: "acc_tier (lk_config a) \<noteq> acc_tier (lk_config b)"
      using ids selected_account_fields [OF ab(2)] selected_account_fields [OF ab(4)] by auto
    moreover have "distinct (map (acc_id \<circ> lk_config) (pg_accounts g))"
      using assms(2) by (auto simp: graph_ok_def)
    ultimately have "a = b" using ab(1,3) by (auto simp: distinct_map inj_on_def)
    with tier show False by simp
  qed
  with tiers [of Active] tiers [of Fallback] show ?thesis
    by (auto simp: pool_ok_def pool_accounts_def tier_of_def)
qed

lemma link_pools_get:
  "link_pools g plans pools = Inr ps \<Longrightarrow> bm_ok pools \<Longrightarrow> distinct (map fst plans) \<Longrightarrow>
     bm_ok ps \<and>
     (\<forall>i p. bm_get ps i = Some p \<longleftrightarrow>
        (\<exists>plan. (i, plan) \<in> set plans \<and> link_pool g i plan = Inr p) \<or> i \<notin> fst ` set plans \<and> bm_get pools i = Some p)"
proof (induction g plans pools rule: link_pools.induct)
  case (2 g i plan plans pools)
  from 2(2) obtain p where p: "link_pool g i plan = Inr p"
    and rest: "link_pools g plans (bm_insert i p pools) = Inr ps" by auto
  have new: "i \<notin> fst ` set plans" and dist: "distinct (map fst plans)" using 2(4) by auto
  note IH = 2(1) [OF rest bm_ok_insert [OF 2(3)] dist]
  have get: "bm_get ps j = Some q \<longleftrightarrow>
      (\<exists>plan. (j, plan) \<in> set plans \<and> link_pool g j plan = Inr q) \<or>
      j \<notin> fst ` set plans \<and> bm_get (bm_insert i p pools) j = Some q" for j q
    using IH by blast
  have fresh: "(i, plan') \<notin> set plans" for plan' using new by (metis fst_conv imageI)
  have "bm_get ps j = Some q \<longleftrightarrow>
        (\<exists>plan'. (j, plan') \<in> set ((i, plan) # plans) \<and> link_pool g j plan' = Inr q) \<or>
        j \<notin> fst ` set ((i, plan) # plans) \<and> bm_get pools j = Some q" for j q
  proof (cases "j = i")
    case True
    then show ?thesis unfolding get using new fresh p 2(3) by (auto simp: bm_get_insert)
  next
    case False
    then show ?thesis unfolding get using 2(3) by (simp add: bm_get_insert)
  qed
  with IH show ?case by simp
qed simp

lemma linked_pools_get:
  assumes "link_account_pools plan g = Inr ps" and "bm_ok (gp_account_pools plan)"
  shows "bm_ok ps"
    and "bm_get ps i = Some p \<longleftrightarrow>
      (\<exists>pp. bm_get (gp_account_pools plan) i = Some pp \<and> link_pool g i pp = Inr p)"
proof -
  from link_pools_get [OF assms(1) [unfolded link_account_pools_def] bm_ok_Nil bm_ok_distinct [OF assms(2)]]
  show "bm_ok ps" and "bm_get ps i = Some p \<longleftrightarrow>
      (\<exists>pp. bm_get (gp_account_pools plan) i = Some pp \<and> link_pool g i pp = Inr p)"
    by (auto simp: bm_get_iff [OF assms(2)])
qed

lemma sorted_filter_map:
  "sorted_wrt (<) (map f xs) \<Longrightarrow> (\<And>x y. x \<in> set xs \<Longrightarrow> h x = Some y \<Longrightarrow> k y = (f x :: nat)) \<Longrightarrow>
   sorted_wrt (<) (map k (filter_map h xs))"
proof (induction xs)
  case (Cons x xs)
  have IH: "sorted_wrt (<) (map k (filter_map h xs))" by (rule Cons.IH) (use Cons.prems in auto)
  have "\<forall>y \<in> set (filter_map h xs). f x < k y"
    using Cons.prems by (fastforce simp: set_filter_map)
  with IH Cons.prems(2) [of x] show ?case by (auto split: option.splits)
qed simp

lemma tier_in_input_order:
  assumes "link_pool g pool_id plan = Inr p" and "graph_ok plan' accounts r g"
  shows "sorted_wrt (<) (map la_account_order (tier_of t p))"
  unfolding link_pool_tier [OF assms(1)]
proof (rule sorted_filter_map [where f = lk_input_order])
  show "sorted_wrt (<) (map lk_input_order (pg_accounts g))" using assms(2) by (simp add: graph_ok_def)
qed (auto simp: tier_entry_iff selected_account_def Let_def split: option.splits if_splits)

lemma linked_pool_exists:
  "(\<exists>ps. link_pools g plans pools = Inr ps) \<longleftrightarrow> (\<forall>(i, plan) \<in> set plans. \<exists>p. link_pool g i plan = Inr p)"
proof (induction g plans pools rule: link_pools.induct)
  case (2 g i plan plans pools)
  then show ?case by (cases "link_pool g i plan") auto
qed simp

lemma link_pool_exists:
  "(\<exists>p. link_pool g i plan = Inr p) \<longleftrightarrow>
     (\<forall>ids. as_accounts (ap_selector plan) = Some ids \<longrightarrow> (\<forall>a \<in> set ids. graph_account g a \<noteq> None))"
  by (auto simp: link_pool_def validate_selector_def validate_accounts_Inr split: option.splits prod.splits)

section \<open>Properties\<close>

text \<open>
  C28. Linking the pools fails exactly when a selector names an account that was not loaded.
  Otherwise every planned pool holds, in each tier and in input order, exactly the enabled
  and bound accounts of that tier which its selector admits in both dimensions, and no binding
  occurs in it twice.
\<close>

theorem pools_hold_selected_accounts:
  assumes "link_provider_graph parse_url plan accounts r = (Inr g :: ('e, 'u) link_error + _)"
    and "bm_ok (gp_account_pools plan)"
  shows "((\<exists>ps. link_account_pools plan g = Inr ps) \<longleftrightarrow>
      (\<forall>(i, pp) \<in> set (gp_account_pools plan). \<forall>ids. as_accounts (ap_selector pp) = Some ids \<longrightarrow>
         set ids \<subseteq> set (map acc_id accounts))) \<and>
    (\<forall>ps i p. link_account_pools plan g = Inr ps \<and> bm_get ps i = Some p \<longrightarrow>
      (\<exists>pp. bm_get (gp_account_pools plan) i = Some pp \<and>
        (\<forall>t. sorted_wrt (<) (map la_account_order (tier_of t p)) \<and>
          set (tier_of t p) = {l. \<exists>a \<in> set (pg_accounts g).
            acc_tier (lk_config a) = t \<and> in_selection (ap_selector pp) a (la_binding l) \<and>
            l = \<lparr>la_account_id = acc_id (lk_config a), la_account_order = lk_input_order a, la_binding = la_binding l\<rparr>})) \<and>
      pool_ok p)"
proof -
  note ok = linked_graph_ok [OF assms(1)]
  have known: "graph_account g a \<noteq> None \<longleftrightarrow> a \<in> set (map acc_id accounts)" for a
    using ok unfolding graph_ok_def by (force simp: image_iff)
  have 1: "(\<exists>ps. link_account_pools plan g = Inr ps) \<longleftrightarrow>
      (\<forall>(i, pp) \<in> set (gp_account_pools plan). \<forall>ids. as_accounts (ap_selector pp) = Some ids \<longrightarrow>
         set ids \<subseteq> set (map acc_id accounts))"
    unfolding link_account_pools_def linked_pool_exists link_pool_exists known by (auto simp: subset_iff)
  have 2: "\<exists>pp. bm_get (gp_account_pools plan) i = Some pp \<and>
        (\<forall>t. sorted_wrt (<) (map la_account_order (tier_of t p)) \<and>
          set (tier_of t p) = {l. \<exists>a \<in> set (pg_accounts g).
            acc_tier (lk_config a) = t \<and> in_selection (ap_selector pp) a (la_binding l) \<and>
            l = \<lparr>la_account_id = acc_id (lk_config a), la_account_order = lk_input_order a, la_binding = la_binding l\<rparr>})"
    and 3: "pool_ok p"
    if ps: "link_account_pools plan g = Inr ps" "bm_get ps i = Some p" for ps i p
  proof -
    from ps linked_pools_get(2) [OF ps(1) assms(2)] obtain pp
      where pp: "bm_get (gp_account_pools plan) i = Some pp" and l: "link_pool g i pp = Inr p" by blast
    show "pool_ok p" by (rule linked_pool_ok [OF l ok])
    show "\<exists>pp. bm_get (gp_account_pools plan) i = Some pp \<and>
        (\<forall>t. sorted_wrt (<) (map la_account_order (tier_of t p)) \<and>
          set (tier_of t p) = {l. \<exists>a \<in> set (pg_accounts g).
            acc_tier (lk_config a) = t \<and> in_selection (ap_selector pp) a (la_binding l) \<and>
            l = \<lparr>la_account_id = acc_id (lk_config a), la_account_order = lk_input_order a, la_binding = la_binding l\<rparr>})"
      using pp tier_in_input_order [OF l ok] tier_member [OF l]
      by (intro exI [of _ pp]) (simp add: selected_account_Some set_eq_iff eq_commute [of _ "acc_tier _"])
  qed
  from 1 2 3 show ?thesis by blast
qed

lemma sample_pools_linked:
  "\<exists>ps. link_account_pools sample_plan sample_graph = Inr ps"
proof -
  have "(case link_account_pools sample_plan sample_graph of Inl _ \<Rightarrow> False | Inr ps \<Rightarrow> True)"
    by code_simp
  then show ?thesis by (auto split: sum.splits)
qed

theorem pools_hold_selected_accounts_witness:
  "\<exists>ps p. link_account_pools sample_plan sample_graph = Inr ps \<and> bm_get ps ''main'' = Some p \<and>
     map la_account_id (lp_active p) = [''a''] \<and> map la_account_id (lp_fallback p) = [''b''] \<and> pool_ok p"
proof -
  have ok: "bm_ok (gp_account_pools sample_plan)" by code_simp
  have "case link_account_pools sample_plan sample_graph of Inl _ \<Rightarrow> False
    | Inr ps \<Rightarrow> (case bm_get ps ''main'' of None \<Rightarrow> False
        | Some p \<Rightarrow> map la_account_id (lp_active p) = [''a''] \<and> map la_account_id (lp_fallback p) = [''b''])"
    by code_simp
  then obtain ps p where ps: "link_account_pools sample_plan sample_graph = Inr ps" "bm_get ps ''main'' = Some p"
    "map la_account_id (lp_active p) = [''a'']" "map la_account_id (lp_fallback p) = [''b'']"
    by (auto split: sum.splits option.splits)
  have "pool_ok p"
    using pools_hold_selected_accounts [OF sample_graph_linked ok, THEN conjunct2] ps(1,2) by blast
  with ps show ?thesis by (intro exI [of _ ps] exI [of _ p]) simp
qed

end
