(* ===== verification/Affinity.thy ===== *)
theory Affinity
  imports Topology "HOL-Library.Word"
begin

text \<open>
  The session affinity map (crates/accounts/src/affinity.rs). The hash map is a map from
  session ids to a value and the instant of its last touch; the operation counter that
  triggers the sweep is a 64-bit atomic. A lookup first sweeps, then reads under the read
  lock, and only for a stale entry reads again under the write lock: the three clock
  readings are parameters of the model.

  The locale \<open>session_store\<close> is the contract the account pools rely on: a lookup answers by
  the last recorded value and its age and changes no future answer.
\<close>

datatype 'v lookup = Hit 'v | Expired | Unknown

record 'v affinity =
  af_map :: "string \<Rightarrow> ('v \<times> instant) option"
  af_ttl :: duration
  af_retained_ttl :: duration
  af_gc_every :: "64 word"
  af_ops :: "64 word"

definition with_absolute_retention :: "duration \<Rightarrow> duration \<Rightarrow> 'v affinity" where
  "with_absolute_retention ttl retained_ttl =
     \<lparr>af_map = (\<lambda>_. None), af_ttl = ttl, af_retained_ttl = max ttl retained_ttl,
      af_gc_every = 1024, af_ops = 0\<rparr>"

definition from_session_plan :: "session_affinity_plan \<Rightarrow> 'v affinity" where
  "from_session_plan plan =
     with_absolute_retention (sp_ttl plan)
       (duration_saturating_add (sp_ttl plan) (sp_expired_retention plan))"

definition maybe_sweep_expired :: "instant \<Rightarrow> 'v affinity \<Rightarrow> 'v affinity" where
  "maybe_sweep_expired now a =
     (if af_ops a + 1 < af_gc_every a then a\<lparr>af_ops := af_ops a + 1\<rparr>
      else a\<lparr>af_ops := 0,
             af_map := (\<lambda>k. case af_map a k of
                None \<Rightarrow> None
              | Some (v, stamped_at) \<Rightarrow>
                  if saturating_duration_since now stamped_at < af_retained_ttl a
                  then Some (v, stamped_at) else None)\<rparr>)"

text \<open>The read path: \<open>None\<close> when the entry is past its retention.\<close>

definition lookup_read :: "instant \<Rightarrow> string \<Rightarrow> 'v affinity \<Rightarrow> 'v lookup option" where
  "lookup_read now key a =
     (case af_map a key of
        Some (v, stamped_at) \<Rightarrow>
          (let age = saturating_duration_since now stamped_at
           in if age < af_ttl a then Some (Hit v)
              else if age < af_retained_ttl a then Some Expired
              else None)
      | None \<Rightarrow> Some Unknown)"

definition lookup_write :: "instant \<Rightarrow> string \<Rightarrow> 'v affinity \<Rightarrow> 'v lookup \<times> 'v affinity" where
  "lookup_write now key a =
     (case af_map a key of
        Some (v, stamped_at) \<Rightarrow>
          (let age = saturating_duration_since now stamped_at
           in if age < af_ttl a then (Hit v, a)
              else if age < af_retained_ttl a then (Expired, a)
              else (Unknown, a\<lparr>af_map := (af_map a)(key := None)\<rparr>))
      | None \<Rightarrow> (Unknown, a))"

definition lookup_at ::
  "instant \<Rightarrow> instant \<Rightarrow> instant \<Rightarrow> string \<Rightarrow> 'v affinity \<Rightarrow> 'v lookup \<times> 'v affinity" where
  "lookup_at t_sweep t_read t_write key a =
     (let a' = maybe_sweep_expired t_sweep a
      in (case lookup_read t_read key a' of
            Some r \<Rightarrow> (r, a')
          | None \<Rightarrow> lookup_write t_write key a'))"

definition affinity_lookup :: "instant \<Rightarrow> string \<Rightarrow> 'v affinity \<Rightarrow> 'v lookup \<times> 'v affinity" where
  "affinity_lookup now = lookup_at now now now"

definition affinity_record :: "instant \<Rightarrow> string \<Rightarrow> 'v \<Rightarrow> 'v affinity \<Rightarrow> 'v affinity" where
  "affinity_record now key v a =
     (let a' = maybe_sweep_expired now a in a'\<lparr>af_map := (af_map a')(key \<mapsto> (v, now))\<rparr>)"

section \<open>The abstract view\<close>

text \<open>What an entry of a given age is worth.\<close>

definition by_age :: "'v affinity \<Rightarrow> duration \<Rightarrow> 'v \<Rightarrow> 'v lookup" where
  "by_age a age v =
     (if age < af_ttl a then Hit v else if age < af_retained_ttl a then Expired else Unknown)"

definition view :: "'v affinity \<Rightarrow> instant \<Rightarrow> string \<Rightarrow> 'v lookup" where
  "view a now key =
     (case af_map a key of None \<Rightarrow> Unknown | Some (v, s) \<Rightarrow> by_age a (saturating_duration_since now s) v)"

definition stamped_by :: "instant \<Rightarrow> 'v affinity \<Rightarrow> bool" where
  "stamped_by now a \<longleftrightarrow>
     af_ttl a \<le> af_retained_ttl a \<and> (\<forall>k v s. af_map a k = Some (v, s) \<longrightarrow> s \<le> now)"

lemma by_age_frame:
  "af_ttl b = af_ttl a \<Longrightarrow> af_retained_ttl b = af_retained_ttl a \<Longrightarrow> by_age b = by_age a"
  by (intro ext) (simp add: by_age_def)

lemma sweep_fields [simp]:
  "af_ttl (maybe_sweep_expired now a) = af_ttl a"
  "af_retained_ttl (maybe_sweep_expired now a) = af_retained_ttl a"
  "af_gc_every (maybe_sweep_expired now a) = af_gc_every a"
  by (simp_all add: maybe_sweep_expired_def)

lemma sweep_view:
  assumes "stamped_by now a" and "now \<le> t"
  shows "view (maybe_sweep_expired now a) t k = view a t k"
  using assms
  by (auto simp: view_def maybe_sweep_expired_def by_age_def saturating_duration_since_def stamped_by_def
      split: option.splits)

lemma sweep_stamped: "stamped_by now a \<Longrightarrow> now \<le> t \<Longrightarrow> stamped_by t (maybe_sweep_expired t' a)"
  by (fastforce simp: stamped_by_def maybe_sweep_expired_def split: option.splits if_splits)

lemma stamped_mono: "stamped_by now a \<Longrightarrow> now \<le> t \<Longrightarrow> stamped_by t a"
  by (fastforce simp: stamped_by_def)

lemma lookup_read_view:
  "af_ttl a \<le> af_retained_ttl a \<Longrightarrow> lookup_read now k a = Some r \<Longrightarrow> view a now k = r"
  by (auto simp: lookup_read_def view_def by_age_def Let_def split: option.splits if_splits)

lemma lookup_read_None:
  "lookup_read now k a = None \<Longrightarrow>
   \<exists>v s. af_map a k = Some (v, s) \<and> af_ttl a \<le> now - s \<and> af_retained_ttl a \<le> now - s"
  by (auto simp: lookup_read_def Let_def saturating_duration_since_def split: option.splits if_splits)

lemma lookup_write_gone:
  assumes "af_map a k = Some (v, s)" and "af_ttl a \<le> now - s" and "af_retained_ttl a \<le> now - s"
  shows "lookup_write now k a = (Unknown, a\<lparr>af_map := (af_map a)(k := None)\<rparr>)"
  using assms by (simp add: lookup_write_def saturating_duration_since_def)

text \<open>One lookup with its three clock readings answers as of the reading under the read lock.\<close>

lemma lookup_at_view:
  assumes ok: "stamped_by t0 a" and t: "t0 \<le> t1" "t1 \<le> t2" and u: "t2 \<le> u"
  shows "fst (lookup_at t0 t1 t2 k a) = view a t1 k"
    and "view (snd (lookup_at t0 t1 t2 k a)) u k' = view a u k'"
    and "stamped_by u (snd (lookup_at t0 t1 t2 k a))"
    and "by_age (snd (lookup_at t0 t1 t2 k a)) = by_age a"
proof -
  let ?a = "maybe_sweep_expired t0 a"
  have ok': "stamped_by t0 ?a" using sweep_stamped [OF ok] by simp
  have v1: "view ?a x y = view a x y" if "t0 \<le> x" for x y using sweep_view [OF ok that] .
  have ba: "by_age ?a = by_age a" by (rule by_age_frame) simp_all
  have "fst (lookup_at t0 t1 t2 k a) = view a t1 k \<and>
        view (snd (lookup_at t0 t1 t2 k a)) u k' = view a u k' \<and>
        stamped_by u (snd (lookup_at t0 t1 t2 k a)) \<and> by_age (snd (lookup_at t0 t1 t2 k a)) = by_age a"
  proof (cases "lookup_read t1 k ?a")
    case (Some r)
    then have l: "lookup_at t0 t1 t2 k a = (r, ?a)" by (simp add: lookup_at_def)
    have "view ?a t1 k = r" using lookup_read_view [OF _ Some] ok' by (simp add: stamped_by_def)
    then show ?thesis
      using v1 t u ba stamped_mono [OF ok', of u] by (simp add: l)
  next
    case None
    obtain v s where e: "af_map ?a k = Some (v, s)" "af_ttl ?a \<le> t1 - s" "af_retained_ttl ?a \<le> t1 - s"
      using lookup_read_None [OF None] by blast
    let ?b = "?a\<lparr>af_map := (af_map ?a)(k := None)\<rparr>"
    have "lookup_write t2 k ?a = (Unknown, ?b)"
      using e t by (intro lookup_write_gone) auto
    with None have l: "lookup_at t0 t1 t2 k a = (Unknown, ?b)" by (simp add: lookup_at_def Let_def)
    have gone: "view ?a x k = Unknown" if "t1 \<le> x" for x
      using e diff_le_mono [OF that, of s] by (simp add: view_def by_age_def saturating_duration_since_def)
    have "view ?b u k' = view ?a u k'"
    proof -
      have "by_age ?b = by_age ?a" by (rule by_age_frame) simp_all
      then have "view ?b u k' = (if k' = k then Unknown else view ?a u k')"
        by (simp add: view_def cong: option.case_cong prod.case_cong)
      then show ?thesis using gone [of u] t u by simp
    qed
    moreover have "stamped_by u ?b" using stamped_mono [OF ok', of u] t u by (auto simp: stamped_by_def)
    moreover have "by_age ?b = by_age a" by (rule by_age_frame) simp_all
    ultimately show ?thesis
      using gone [of t1] v1 t u by (simp add: l)
  qed
  then show "fst (lookup_at t0 t1 t2 k a) = view a t1 k"
    and "view (snd (lookup_at t0 t1 t2 k a)) u k' = view a u k'"
    and "stamped_by u (snd (lookup_at t0 t1 t2 k a))"
    and "by_age (snd (lookup_at t0 t1 t2 k a)) = by_age a"
    by blast+
qed

lemma record_view:
  assumes "stamped_by now a" and "now \<le> t"
  shows "view (affinity_record now k v a) t k' =
      (if k' = k then by_age a (t - now) v else view a t k')"
    and "stamped_by t (affinity_record now k v a)"
    and "by_age (affinity_record now k v a) = by_age a"
proof -
  have ba: "by_age (affinity_record now k v a) = by_age a"
    by (rule by_age_frame) (simp_all add: affinity_record_def Let_def)
  then show "by_age (affinity_record now k v a) = by_age a" .
  show "view (affinity_record now k v a) t k' = (if k' = k then by_age a (t - now) v else view a t k')"
  proof (cases "k' = k")
    case True
    then show ?thesis using ba by (simp add: view_def affinity_record_def Let_def saturating_duration_since_def)
  next
    case False
    then have "af_map (affinity_record now k v a) k' = af_map (maybe_sweep_expired now a) k'"
      by (simp add: affinity_record_def Let_def)
    moreover have "by_age (maybe_sweep_expired now a) = by_age a" by (rule by_age_frame) simp_all
    ultimately show ?thesis using sweep_view [OF assms, of k'] ba False
      by (simp add: view_def cong: option.case_cong prod.case_cong)
  qed
  show "stamped_by t (affinity_record now k v a)"
    using sweep_stamped [OF assms(1,2), of now] assms(2)
    by (auto simp: affinity_record_def Let_def stamped_by_def)
qed

section \<open>The contract\<close>

locale session_store =
  fixes answer :: "'s \<Rightarrow> instant \<Rightarrow> string \<Rightarrow> 'v lookup"
    and worth :: "'s \<Rightarrow> duration \<Rightarrow> 'v \<Rightarrow> 'v lookup"
    and look :: "instant \<Rightarrow> string \<Rightarrow> 's \<Rightarrow> 'v lookup \<times> 's"
    and bind :: "instant \<Rightarrow> string \<Rightarrow> 'v \<Rightarrow> 's \<Rightarrow> 's"
    and upto :: "instant \<Rightarrow> 's \<Rightarrow> bool"
  assumes look_answer: "upto now s \<Longrightarrow> fst (look now k s) = answer s now k"
    and look_frame: "upto now s \<Longrightarrow> now \<le> t \<Longrightarrow> answer (snd (look now k s)) t k' = answer s t k'"
    and look_upto: "upto now s \<Longrightarrow> now \<le> t \<Longrightarrow> upto t (snd (look now k s))"
    and look_worth: "upto now s \<Longrightarrow> worth (snd (look now k s)) = worth s"
    and bind_same: "upto now s \<Longrightarrow> now \<le> t \<Longrightarrow> answer (bind now k v s) t k = worth s (t - now) v"
    and bind_other: "upto now s \<Longrightarrow> now \<le> t \<Longrightarrow> k' \<noteq> k \<Longrightarrow> answer (bind now k v s) t k' = answer s t k'"
    and bind_upto: "upto now s \<Longrightarrow> now \<le> t \<Longrightarrow> upto t (bind now k v s)"
    and bind_worth: "upto now s \<Longrightarrow> worth (bind now k v s) = worth s"
    and upto_mono: "upto now s \<Longrightarrow> now \<le> t \<Longrightarrow> upto t s"
begin

text \<open>A history of operations: lookups and recordings with their instants, oldest first.\<close>

fun run :: "(instant \<times> string \<times> 'v option) list \<Rightarrow> 's \<Rightarrow> 's" where
  "run [] s = s"
| "run ((now, k, None) # ops) s = run ops (snd (look now k s))"
| "run ((now, k, Some v) # ops) s = run ops (bind now k v s)"

text \<open>The last recording of a session in a history.\<close>

definition last_bind :: "(instant \<times> string \<times> 'v option) list \<Rightarrow> string \<Rightarrow> (instant \<times> 'v) option" where
  "last_bind ops k =
     find_map (\<lambda>(now, k', v). if k' = k then map_option (\<lambda>x. (now, x)) v else None) (rev ops)"

lemma run_append: "run (ops @ ops2) s = run ops2 (run ops s)"
  by (induction ops s rule: run.induct) auto

lemma run_upto:
  "sorted (map fst ops) \<Longrightarrow> \<forall>x \<in> set ops. fst x \<le> now \<Longrightarrow> \<forall>x \<in> set ops. t0 \<le> fst x \<Longrightarrow> t0 \<le> now \<Longrightarrow>
   upto t0 s \<Longrightarrow> upto now (run ops s) \<and> worth (run ops s) = worth s"
proof (induction ops arbitrary: now rule: rev_induct)
  case Nil
  then show ?case by (simp add: upto_mono)
next
  case (snoc x ops)
  obtain t k v where x: "x = (t, k, v)" by (cases x) auto
  have "\<forall>y \<in> set ops. fst y \<le> t" using snoc.prems(1) x by (auto simp: sorted_append)
  then have "upto t (run ops s)" "worth (run ops s) = worth s"
    using snoc.IH [of t] snoc.prems x by (auto simp: sorted_append)
  moreover have "t \<le> now" using snoc.prems x by simp
  ultimately show ?case
    using x look_upto bind_upto look_worth bind_worth by (cases v) (auto simp: run_append)
qed

lemma answer_last_bind:
  assumes "sorted (map fst ops)" and "\<forall>x \<in> set ops. fst x \<le> now" and "\<forall>x \<in> set ops. t0 \<le> fst x"
    and "t0 \<le> now" and "upto t0 s" and "\<And>t k. answer s t k = Unknown"
  shows "answer (run ops s) now k =
    (case last_bind ops k of None \<Rightarrow> Unknown | Some (t, v) \<Rightarrow> worth s (now - t) v)"
  using assms(1-4)
proof (induction ops rule: rev_induct)
  case Nil
  then show ?case using assms(6) by (simp add: last_bind_def)
next
  case (snoc x ops)
  obtain t k' v where x: "x = (t, k', v)" by (cases x) auto
  have before: "sorted (map fst ops)" "\<forall>y \<in> set ops. fst y \<le> t" "\<forall>y \<in> set ops. fst y \<le> now"
    "\<forall>y \<in> set ops. t0 \<le> fst y" "t0 \<le> t" "t \<le> now"
    using snoc.prems x by (auto simp: sorted_append)
  have u: "upto t (run ops s)" "worth (run ops s) = worth s"
    using run_upto [OF before(1,2,4,5) assms(5)] by blast+
  note IH = snoc.IH [OF before(1,3,4) snoc.prems(4)]
  show ?case
  proof (cases v)
    case None
    then have "last_bind (ops @ [x]) k = last_bind ops k" by (simp add: last_bind_def x)
    with None IH u before(6) show ?thesis by (simp add: x run_append look_frame)
  next
    case (Some w)
    then show ?thesis
      using IH u before(6) by (cases "k' = k") (auto simp: x run_append last_bind_def bind_same bind_other)
  qed
qed

end

interpretation sessions: session_store view by_age affinity_lookup affinity_record stamped_by
proof unfold_locales
  fix now t :: instant and a :: "'a affinity" and k k' :: string and v :: 'a
  assume ok: "stamped_by now a"
  show "fst (affinity_lookup now k a) = view a now k"
    using lookup_at_view(1) [OF ok order_refl order_refl order_refl] by (simp add: affinity_lookup_def)
  show "by_age (snd (affinity_lookup now k a)) = by_age a"
    using lookup_at_view(4) [OF ok order_refl order_refl order_refl] by (simp add: affinity_lookup_def)
  show "by_age (affinity_record now k v a) = by_age a" using record_view(3) [OF ok order_refl] .
  assume t: "now \<le> t"
  show "view (snd (affinity_lookup now k a)) t k' = view a t k'"
    using lookup_at_view(2) [OF ok order_refl order_refl t] by (simp add: affinity_lookup_def)
  show "stamped_by t (snd (affinity_lookup now k a))"
    using lookup_at_view(3) [OF ok order_refl order_refl t] by (simp add: affinity_lookup_def)
  show "view (affinity_record now k v a) t k = by_age a (t - now) v" using record_view(1) [OF ok t] by simp
  show "k' \<noteq> k \<Longrightarrow> view (affinity_record now k v a) t k' = view a t k'" using record_view(1) [OF ok t] by simp
  show "stamped_by t (affinity_record now k v a)" using record_view(2) [OF ok t] .
  show "stamped_by t a" using stamped_mono [OF ok t] .
qed

lemma new_affinity_empty:
  "stamped_by t (with_absolute_retention ttl r)" "view (with_absolute_retention ttl r) t k = Unknown"
  by (simp_all add: with_absolute_retention_def stamped_by_def view_def)

section \<open>Properties\<close>

text \<open>
  After any sequence of lookups and recordings at non-decreasing instants, a lookup
  answers by the last recording of the session alone: the recorded value while it is younger
  than the live period, expired during the retention, unknown afterwards. Sweeps and removals are
  invisible.
\<close>

lemma affinity_follows_last_record:
  assumes "sorted (map fst ops)" and "\<forall>x \<in> set ops. fst x \<le> now"
  shows "fst (affinity_lookup now k (sessions.run ops (from_session_plan plan))) =
    (case sessions.last_bind ops k of
       None \<Rightarrow> Unknown
     | Some (t, v) \<Rightarrow>
         if now - t < sp_ttl plan then Hit v
         else if now - t < duration_saturating_add (sp_ttl plan) (sp_expired_retention plan) then Expired
         else Unknown)"
proof -
  let ?s = "from_session_plan plan"
  have new: "stamped_by 0 ?s" "\<And>t k. view ?s t k = Unknown"
    unfolding from_session_plan_def by (rule new_affinity_empty)+
  have "stamped_by now (sessions.run ops ?s)"
    using sessions.run_upto [OF assms _ _ new(1)] by simp
  moreover have "view (sessions.run ops ?s) now k =
      (case sessions.last_bind ops k of None \<Rightarrow> Unknown | Some (t, v) \<Rightarrow> by_age ?s (now - t) v)"
    using sessions.answer_last_bind [OF assms _ _ new] by simp
  ultimately show ?thesis
    by (auto simp: sessions.look_answer by_age_def from_session_plan_def with_absolute_retention_def
        split: option.splits)
qed

end
