(* ===== verification/Pool_Runtime.thy ===== *)
theory Pool_Runtime
  imports Account_Pools Affinity
begin

text \<open>
  Selection from a linked pool (crates/accounts/src/link/selection.rs): eligibility and rank
  supplied by the caller, cooldowns per binding, one round-robin cursor per tier (64-bit
  atomics that wrap), and session affinity. Every operation takes the clock readings it makes;
  \<open>horizon\<close> is the last instant the platform can represent. \<open>pool_step\<close> is the transition
  relation of a shared runtime: each operation's critical section is atomic.
\<close>

section \<open>Deadlines\<close>

definition duration_from_nanos :: "nat \<Rightarrow> duration" where
  "duration_from_nanos n = ((n div nanos_per_sec) mod 2 ^ 64) * nanos_per_sec + n mod nanos_per_sec"

function search_deadline :: "instant \<Rightarrow> instant \<Rightarrow> nat \<Rightarrow> nat \<Rightarrow> nat" where
  "search_deadline horizon now lower upper =
     (if lower < upper then
        let midpoint = lower + (upper - lower + 1) div 2 in
        if instant_checked_add horizon now (duration_from_nanos midpoint) \<noteq> None
        then search_deadline horizon now midpoint upper
        else search_deadline horizon now lower (midpoint - 1)
      else lower)"
  by pat_completeness auto
termination by (relation "measure (\<lambda>(_, _, lower, upper). upper - lower)") auto

declare search_deadline.simps [simp del]

definition saturating_instant_add :: "instant \<Rightarrow> instant \<Rightarrow> duration \<Rightarrow> instant" where
  "saturating_instant_add horizon now d =
     (case instant_checked_add horizon now d of
        Some deadline \<Rightarrow> deadline
      | None \<Rightarrow>
          (case instant_checked_add horizon now
                  (duration_from_nanos (search_deadline horizon now 0 d)) of
             Some deadline \<Rightarrow> deadline
           | None \<Rightarrow> now))"

definition max_cooldown_exponent :: nat where
  "max_cooldown_exponent = 5"

definition cooldown_duration :: "duration \<Rightarrow> nat \<Rightarrow> duration" where
  "cooldown_duration base consecutive_failures =
     duration_saturating_mul base (2 ^ min (consecutive_failures - 1) max_cooldown_exponent)"

definition retain_earliest :: "instant option \<Rightarrow> instant \<Rightarrow> instant option" where
  "retain_earliest earliest candidate =
     (case earliest of
        None \<Rightarrow> Some candidate
      | Some current \<Rightarrow> if candidate < current then Some candidate else Some current)"

section \<open>The runtime\<close>

record binding_cooldown =
  cd_consecutive_failures :: nat
  cd_retry_at :: "instant option"

definition default_cooldown :: binding_cooldown where
  "default_cooldown = \<lparr>cd_consecutive_failures = 0, cd_retry_at = None\<rparr>"

record 'p pool_runtime =
  rt_pool :: "'p linked_account_pool"
  rt_bindings :: "(binding_key, 'p provider_binding) bmap"
  rt_active_cursor :: "64 word"
  rt_fallback_cursor :: "64 word"
  rt_cooldowns :: "(binding_key, binding_cooldown) bmap"
  rt_affinity :: "binding_key affinity option"

datatype 'p pool_acquire = Selected "'p provider_binding" | Cooling_Down instant | No_Eligible

datatype pool_runtime_error = Unknown_Binding string string string

definition new_runtime :: "'p linked_account_pool \<Rightarrow> 'p pool_runtime" where
  "new_runtime p =
     (let bindings = fold (\<lambda>l. bm_insert (pool_key l) (la_binding l)) (lp_active p @ lp_fallback p) []
      in \<lparr>rt_pool = p, rt_bindings = bindings, rt_active_cursor = 0, rt_fallback_cursor = 0,
          rt_cooldowns = bm_of_list (map (\<lambda>k. (k, default_cooldown)) (bm_keys bindings)),
          rt_affinity = map_option from_session_plan (lp_session_affinity p)\<rparr>)"

definition build_account_pool_runtimes :: "'p linked_account_pools \<Rightarrow> (string, 'p pool_runtime) bmap" where
  "build_account_pool_runtimes pools = bm_of_list (map (\<lambda>(i, p). (i, new_runtime p)) pools)"

definition cooling_bindings :: "instant \<Rightarrow> 'p pool_runtime \<Rightarrow> (binding_key, instant) bmap" where
  "cooling_bindings now rt =
     bm_of_list (filter_map (\<lambda>(k, c).
        Option.bind (cd_retry_at c) (\<lambda>retry_at. if now < retry_at then Some (k, retry_at) else None))
       (rt_cooldowns rt))"

text \<open>The loop over one tier: the candidates, the best rank so far, and the earliest retry.\<close>

fun scan_tier ::
  "('p provider_binding \<Rightarrow> bool) \<Rightarrow> ('p provider_binding \<Rightarrow> int) \<Rightarrow> (binding_key, instant) bmap \<Rightarrow>
   'p linked_pool_account list \<Rightarrow> 'p provider_binding list \<times> int option \<times> instant option \<Rightarrow>
   'p provider_binding list \<times> int option \<times> instant option" where
  "scan_tier eligible rank cooling [] st = st"
| "scan_tier eligible rank cooling (account # accounts) (candidates, best, earliest) =
     (let b = la_binding account in
      scan_tier eligible rank cooling accounts
        (if \<not> eligible b then (candidates, best, earliest)
         else (case bm_get cooling (pb_key b) of
                 Some retry_at \<Rightarrow> (candidates, best, retain_earliest earliest retry_at)
               | None \<Rightarrow>
                   (case best of
                      Some current \<Rightarrow>
                        if rank b < current then (candidates, best, earliest)
                        else if rank b = current then (candidates @ [b], best, earliest)
                        else ([b], Some (rank b), earliest)
                    | None \<Rightarrow> ([b], Some (rank b), earliest)))))"

text \<open>The selection of one tier with its cursor; the vector the code removes from is local.\<close>

definition select_tier ::
  "'p linked_pool_account list \<Rightarrow> 64 word \<Rightarrow> ('p provider_binding \<Rightarrow> bool) \<Rightarrow> ('p provider_binding \<Rightarrow> int) \<Rightarrow>
   (binding_key, instant) bmap \<Rightarrow> instant option \<Rightarrow>
   'p provider_binding option \<times> 64 word \<times> instant option" where
  "select_tier accounts cursor eligible rank cooling earliest =
     (if accounts = [] then (None, cursor, earliest)
      else
        let (candidates, _, earliest') = scan_tier eligible rank cooling accounts ([], None, earliest)
        in if candidates = [] then (None, cursor, earliest')
           else (Some (candidates ! (unat cursor mod length candidates)), cursor + 1, earliest'))"

text \<open>The established session, when its binding is still eligible and not cooling.\<close>

definition sticky_binding ::
  "instant \<Rightarrow> string option \<Rightarrow> ('p provider_binding \<Rightarrow> bool) \<Rightarrow> (binding_key, instant) bmap \<Rightarrow> 'p pool_runtime \<Rightarrow>
   'p provider_binding option \<times> 'p pool_runtime" where
  "sticky_binding t_lookup session_id eligible cooling rt =
     (case (session_id, rt_affinity rt) of
        (Some s, Some a) \<Rightarrow>
          (let (found, a') = affinity_lookup t_lookup s a;
               rt' = rt\<lparr>rt_affinity := Some a'\<rparr>
           in case found of
                Hit key \<Rightarrow>
                  (case bm_get (rt_bindings rt) key of
                     Some b \<Rightarrow> if eligible b \<and> bm_get cooling key = None then (Some b, rt') else (None, rt')
                   | None \<Rightarrow> (None, rt'))
              | _ \<Rightarrow> (None, rt'))
      | _ \<Rightarrow> (None, rt))"

definition acquire_ranked ::
  "instant \<Rightarrow> instant \<Rightarrow> string option \<Rightarrow> ('p provider_binding \<Rightarrow> bool) \<Rightarrow> ('p provider_binding \<Rightarrow> int) \<Rightarrow>
   'p pool_runtime \<Rightarrow> 'p pool_acquire \<times> 'p pool_runtime" where
  "acquire_ranked now t_lookup session_id eligible rank rt0 =
     (let cooling = cooling_bindings now rt0;
          (sticky, rt) = sticky_binding t_lookup session_id eligible cooling rt0
      in case sticky of
           Some b \<Rightarrow> (Selected b, rt)
         | None \<Rightarrow>
             (case select_tier (lp_active (rt_pool rt)) (rt_active_cursor rt) eligible rank cooling None of
                (Some b, cursor, _) \<Rightarrow> (Selected b, rt\<lparr>rt_active_cursor := cursor\<rparr>)
              | (None, cursor, earliest) \<Rightarrow>
                  (case select_tier (lp_fallback (rt_pool rt)) (rt_fallback_cursor rt) eligible rank cooling earliest of
                     (Some b, cursor2, _) \<Rightarrow>
                       (Selected b, rt\<lparr>rt_active_cursor := cursor, rt_fallback_cursor := cursor2\<rparr>)
                   | (None, cursor2, earliest2) \<Rightarrow>
                       ((case earliest2 of Some t \<Rightarrow> Cooling_Down t | None \<Rightarrow> No_Eligible),
                        rt\<lparr>rt_active_cursor := cursor, rt_fallback_cursor := cursor2\<rparr>))))"

definition acquire ::
  "instant \<Rightarrow> instant \<Rightarrow> string option \<Rightarrow> ('p provider_binding \<Rightarrow> bool) \<Rightarrow> 'p pool_runtime \<Rightarrow>
   'p pool_acquire \<times> 'p pool_runtime" where
  "acquire now t_lookup session_id eligible = acquire_ranked now t_lookup session_id eligible (\<lambda>_. 0)"

definition unknown_binding :: "binding_key \<Rightarrow> 'p pool_runtime \<Rightarrow> pool_runtime_error" where
  "unknown_binding key rt = Unknown_Binding (lp_id (rt_pool rt)) (bk_provider key) (bk_account key)"

definition record_success ::
  "instant \<Rightarrow> string option \<Rightarrow> binding_key \<Rightarrow> 'p pool_runtime \<Rightarrow> pool_runtime_error + 'p pool_runtime" where
  "record_success now session_id key rt =
     (case bm_get (rt_cooldowns rt) key of
        None \<Rightarrow> Inl (unknown_binding key rt)
      | Some _ \<Rightarrow>
          (let rt' = rt\<lparr>rt_cooldowns := bm_insert key default_cooldown (rt_cooldowns rt)\<rparr>
           in Inr (case (session_id, rt_affinity rt') of
                     (Some s, Some a) \<Rightarrow> rt'\<lparr>rt_affinity := Some (affinity_record now s key a)\<rparr>
                   | _ \<Rightarrow> rt')))"

definition record_failure ::
  "instant \<Rightarrow> instant \<Rightarrow> binding_key \<Rightarrow> 'p pool_runtime \<Rightarrow> pool_runtime_error + instant \<times> 'p pool_runtime" where
  "record_failure horizon now key rt =
     (case bm_get (rt_cooldowns rt) key of
        None \<Rightarrow> Inl (unknown_binding key rt)
      | Some c \<Rightarrow>
          (let failures = u32_saturating_add (cd_consecutive_failures c) 1;
               d = cooldown_duration (lp_failure_cooldown (rt_pool rt)) failures;
               retry_at = saturating_instant_add horizon now d
           in Inr (retry_at,
                rt\<lparr>rt_cooldowns :=
                   bm_insert key \<lparr>cd_consecutive_failures = failures, cd_retry_at = Some retry_at\<rparr> (rt_cooldowns rt)\<rparr>)))"

section \<open>Deadline arithmetic\<close>

lemma duration_from_nanos_id: "n \<le> duration_max \<Longrightarrow> duration_from_nanos n = n"
proof -
  assume "n \<le> duration_max"
  then have "n < 2 ^ 64 * nanos_per_sec" by (simp add: duration_max_def nanos_per_sec_def)
  then have "n div nanos_per_sec < 2 ^ 64" by (simp add: div_less_iff_less_mult nanos_per_sec_def)
  then show ?thesis by (simp add: duration_from_nanos_def)
qed

lemma search_deadline_exact:
  assumes "upper \<le> duration_max" and "now + lower \<le> horizon" and "lower \<le> upper"
  shows "search_deadline horizon now lower upper = min upper (horizon - now)"
  using assms
proof (induction horizon now lower upper rule: search_deadline.induct)
  case (1 horizon now lower upper)
  show ?case
  proof (cases "lower < upper")
    case True
    define m where "m = lower + (upper - lower + 1) div 2"
    have m: "lower < m" "m \<le> upper" using True by (auto simp: m_def)
    then have fm: "duration_from_nanos m = m" using 1(3) by (simp add: duration_from_nanos_id)
    show ?thesis
    proof (cases "now + m \<le> horizon")
      case fits: True
      then have s: "instant_checked_add horizon now (duration_from_nanos m) \<noteq> None"
        by (simp add: instant_checked_add_def fm)
      have "search_deadline horizon now lower upper = search_deadline horizon now m upper"
        using True s by (subst search_deadline.simps) (simp add: m_def Let_def)
      also have "\<dots> = min upper (horizon - now)"
        using 1(1) [OF True m_def s] 1(3) fits m by simp
      finally show ?thesis .
    next
      case over: False
      then have s: "instant_checked_add horizon now (duration_from_nanos m) = None"
        by (simp add: instant_checked_add_def fm)
      have "search_deadline horizon now lower upper = search_deadline horizon now lower (m - 1)"
        using True s by (subst search_deadline.simps) (simp add: m_def Let_def)
      also have "\<dots> = min (m - 1) (horizon - now)"
        using 1(2) [OF True m_def] s 1(3,4) m by simp
      finally show ?thesis using over m by simp
    qed
  next
    case False
    with 1(4,5) show ?thesis by (subst search_deadline.simps) simp
  qed
qed

lemma saturating_instant_add_eq:
  assumes "d \<le> duration_max" and "now \<le> horizon"
  shows "saturating_instant_add horizon now d = min (now + d) horizon"
proof (cases "now + d \<le> horizon")
  case True
  then show ?thesis by (simp add: saturating_instant_add_def instant_checked_add_def)
next
  case False
  have "search_deadline horizon now 0 d = min d (horizon - now)"
    using assms by (intro search_deadline_exact) simp_all
  with False assms have "search_deadline horizon now 0 d = horizon - now" by simp
  moreover have "horizon - now \<le> duration_max" using False assms by linarith
  ultimately show ?thesis
    using False assms by (simp add: saturating_instant_add_def instant_checked_add_def duration_from_nanos_id)
qed

lemma cooldown_duration_le: "cooldown_duration base n \<le> duration_max"
  by (simp add: cooldown_duration_def duration_saturating_mul_le)

lemma cooldown_duration_mono: "n \<le> m \<Longrightarrow> cooldown_duration base n \<le> cooldown_duration base m"
  unfolding cooldown_duration_def
  by (intro duration_saturating_mul_mono power_increasing order_refl) auto

lemma retain_earliest_min: "retain_earliest e t = Some (case e of None \<Rightarrow> t | Some u \<Rightarrow> min t u)"
  by (auto simp: retain_earliest_def split: option.splits)

section \<open>One tier\<close>

definition available :: "('p provider_binding \<Rightarrow> bool) \<Rightarrow> (binding_key, instant) bmap \<Rightarrow> 'p provider_binding \<Rightarrow> bool" where
  "available eligible cooling b \<longleftrightarrow> eligible b \<and> bm_get cooling (pb_key b) = None"

definition candidates_of ::
  "('p provider_binding \<Rightarrow> bool) \<Rightarrow> (binding_key, instant) bmap \<Rightarrow> 'p linked_pool_account list \<Rightarrow>
   'p provider_binding list" where
  "candidates_of eligible cooling accounts = filter (available eligible cooling) (map la_binding accounts)"

definition top_ranked :: "('b \<Rightarrow> int) \<Rightarrow> 'b list \<Rightarrow> 'b list" where
  "top_ranked rank bs = filter (\<lambda>b. \<forall>c \<in> set bs. rank c \<le> rank b) bs"

definition retries_of ::
  "('p provider_binding \<Rightarrow> bool) \<Rightarrow> (binding_key, instant) bmap \<Rightarrow> 'p linked_pool_account list \<Rightarrow> instant list" where
  "retries_of eligible cooling accounts =
     filter_map (\<lambda>b. if eligible b then bm_get cooling (pb_key b) else None) (map la_binding accounts)"

definition is_best :: "('b \<Rightarrow> int) \<Rightarrow> 'b list \<Rightarrow> int option \<Rightarrow> bool" where
  "is_best rank bs best \<longleftrightarrow>
     (case best of None \<Rightarrow> bs = [] | Some m \<Rightarrow> (\<forall>c \<in> set bs. rank c \<le> m) \<and> (\<exists>c \<in> set bs. rank c = m))"

lemma top_ranked_step:
  assumes "is_best rank bs best"
  shows "top_ranked rank (bs @ [b]) =
      (case best of
         None \<Rightarrow> [b]
       | Some m \<Rightarrow> if rank b < m then top_ranked rank bs else if rank b = m then top_ranked rank bs @ [b] else [b])"
    and "is_best rank (bs @ [b])
      (case best of None \<Rightarrow> Some (rank b) | Some m \<Rightarrow> if rank b \<le> m then Some m else Some (rank b))"
proof -
  show "is_best rank (bs @ [b])
      (case best of None \<Rightarrow> Some (rank b) | Some m \<Rightarrow> if rank b \<le> m then Some m else Some (rank b))"
    using assms by (cases best) (auto simp: is_best_def)
  show "top_ranked rank (bs @ [b]) =
      (case best of
         None \<Rightarrow> [b]
       | Some m \<Rightarrow> if rank b < m then top_ranked rank bs else if rank b = m then top_ranked rank bs @ [b] else [b])"
  proof (cases best)
    case None
    with assms show ?thesis by (simp add: is_best_def top_ranked_def)
  next
    case (Some m)
    with assms have le: "\<forall>c \<in> set bs. rank c \<le> m" and "\<exists>c \<in> set bs. rank c = m"
      by (auto simp: is_best_def)
    then obtain w where w: "w \<in> set bs" "rank w = m" by blast
    have iff: "(\<forall>c \<in> set bs. rank c \<le> rank x) \<longleftrightarrow> m \<le> rank x" for x
      using le w by fastforce
    consider "rank b < m" | "rank b = m" | "m < rank b" by linarith
    then show ?thesis
    proof cases
      case 3
      have "\<forall>x \<in> set bs. \<not> rank b \<le> rank x" using le 3 by force
      with 3 Some show ?thesis by (auto simp: top_ranked_def iff filter_empty_conv)
    qed (use Some in \<open>auto simp: top_ranked_def iff intro!: filter_cong\<close>)
  qed
qed

lemma scan_tier_spec:
  "is_best rank bs best \<Longrightarrow>
   \<exists>best'. is_best rank (bs @ candidates_of eligible cooling accounts) best' \<and>
     scan_tier eligible rank cooling accounts (top_ranked rank bs, best, earliest) =
       (top_ranked rank (bs @ candidates_of eligible cooling accounts), best',
        fold (\<lambda>t e. retain_earliest e t) (retries_of eligible cooling accounts) earliest)"
proof (induction accounts arbitrary: bs best earliest)
  case Nil
  then show ?case by (auto simp: candidates_of_def retries_of_def)
next
  case (Cons l accounts)
  let ?b = "la_binding l"
  show ?case
  proof (cases "available eligible cooling ?b")
    case False
    let ?e = "if eligible ?b then (case bm_get cooling (pb_key ?b) of None \<Rightarrow> earliest | Some t \<Rightarrow> retain_earliest earliest t) else earliest"
    from Cons.IH [OF Cons.prems, of ?e] False show ?thesis
      by (auto simp: available_def candidates_of_def retries_of_def Let_def)
  next
    case True
    let ?best = "case best of None \<Rightarrow> Some (rank ?b) | Some m \<Rightarrow> if rank ?b \<le> m then Some m else Some (rank ?b)"
    note step = top_ranked_step [OF Cons.prems, of ?b]
    have "scan_tier eligible rank cooling (l # accounts) (top_ranked rank bs, best, earliest) =
        scan_tier eligible rank cooling accounts (top_ranked rank (bs @ [?b]), ?best, earliest)"
      using True by (auto simp: step(1) available_def Let_def split: option.split)
    moreover have "candidates_of eligible cooling (l # accounts) = ?b # candidates_of eligible cooling accounts"
      and "retries_of eligible cooling (l # accounts) = retries_of eligible cooling accounts"
      using True by (simp_all add: candidates_of_def retries_of_def available_def)
    ultimately show ?thesis using Cons.IH [OF step(2), of earliest] by simp
  qed
qed

lemma top_ranked_nonempty: "bs \<noteq> [] \<Longrightarrow> top_ranked rank bs \<noteq> []"
proof -
  assume "bs \<noteq> []"
  then have ne: "rank ` set bs \<noteq> {}" by simp
  then obtain b where "b \<in> set bs" "rank b = Max (rank ` set bs)"
    using Max_in [of "rank ` set bs"] by fastforce
  then have "b \<in> set (top_ranked rank bs)" by (auto simp: top_ranked_def)
  then show ?thesis by auto
qed

lemma select_tier_spec:
  "select_tier accounts cursor eligible rank cooling earliest =
     (let bs = top_ranked rank (candidates_of eligible cooling accounts);
          earliest' = fold (\<lambda>t e. retain_earliest e t) (retries_of eligible cooling accounts) earliest
      in if bs = [] then (None, cursor, earliest')
         else (Some (bs ! (unat cursor mod length bs)), cursor + 1, earliest'))"
proof -
  have "is_best rank [] None" by (simp add: is_best_def)
  from scan_tier_spec [OF this, of eligible cooling accounts earliest]
  obtain best where "scan_tier eligible rank cooling accounts ([], None, earliest) =
       (top_ranked rank (candidates_of eligible cooling accounts), best,
        fold (\<lambda>t e. retain_earliest e t) (retries_of eligible cooling accounts) earliest)"
    by (auto simp: top_ranked_def)
  then show ?thesis
    by (cases "accounts = []")
      (simp_all add: select_tier_def candidates_of_def retries_of_def top_ranked_def Let_def)
qed

text \<open>What the selection of a tier returns.\<close>

lemma select_tier_Some:
  assumes "select_tier accounts cursor eligible rank cooling earliest = (Some b, cursor', e)"
  shows "b \<in> set (candidates_of eligible cooling accounts)"
    and "\<forall>c \<in> set (candidates_of eligible cooling accounts). rank c \<le> rank b"
    and "cursor' = cursor + 1"
proof -
  let ?bs = "top_ranked rank (candidates_of eligible cooling accounts)"
  from assms have ne: "?bs \<noteq> []" and b: "b = ?bs ! (unat cursor mod length ?bs)" and c: "cursor' = cursor + 1"
    by (auto simp: select_tier_spec Let_def split: if_splits)
  from ne b have "b \<in> set ?bs" by simp
  then show "b \<in> set (candidates_of eligible cooling accounts)"
    and "\<forall>c \<in> set (candidates_of eligible cooling accounts). rank c \<le> rank b"
    by (auto simp: top_ranked_def)
  show "cursor' = cursor + 1" by (rule c)
qed

lemma select_tier_None:
  assumes "select_tier accounts cursor eligible rank cooling earliest = (None, cursor', e)"
  shows "candidates_of eligible cooling accounts = []"
    and "cursor' = cursor"
    and "e = fold (\<lambda>t e. retain_earliest e t) (retries_of eligible cooling accounts) earliest"
  using assms top_ranked_nonempty [of "candidates_of eligible cooling accounts" rank]
  by (auto simp: select_tier_spec Let_def split: if_splits)

lemma fold_retain_earliest:
  "fold (\<lambda>t e. retain_earliest e t) ts e =
     (if ts = [] \<and> e = None then None else Some (Min (set ts \<union> set_option e)))"
proof (induction ts arbitrary: e)
  case Nil
  then show ?case by (cases e) auto
next
  case (Cons t ts)
  have "set ts \<union> set_option (retain_earliest e t) = insert (case e of None \<Rightarrow> t | Some u \<Rightarrow> min t u) (set ts)"
    by (simp add: retain_earliest_min)
  moreover have "Min (insert (case e of None \<Rightarrow> t | Some u \<Rightarrow> min t u) (set ts)) = Min (set (t # ts) \<union> set_option e)"
    by (cases e; cases "ts = []") (auto simp: min.assoc min.left_commute min.commute)
  ultimately show ?case using Cons.IH [of "retain_earliest e t"] by (simp add: retain_earliest_min)
qed

section \<open>Cooldowns\<close>

text \<open>The deadline of a binding that is cooling at an instant.\<close>

definition cooling_until :: "instant \<Rightarrow> 'p pool_runtime \<Rightarrow> binding_key \<Rightarrow> instant option" where
  "cooling_until now rt key =
     Option.bind (bm_get (rt_cooldowns rt) key) (\<lambda>c.
       Option.bind (cd_retry_at c) (\<lambda>t. if now < t then Some t else None))"

lemma bm_get_filter_map:
  assumes "bm_ok m"
  shows "bm_get (bm_of_list (filter_map (\<lambda>(k, v). map_option (Pair k) (f v)) m)) k = Option.bind (bm_get m k) f"
proof -
  have fst_eq: "fst y = fst x" if "(case x of (k, v) \<Rightarrow> map_option (Pair k) (f v)) = Some y" for x y
    using that by (auto split: prod.splits)
  have "distinct (map fst (filter_map (\<lambda>(k, v). map_option (Pair k) (f v)) m))"
    by (rule distinct_filter_map [where f = fst]) (use bm_ok_distinct [OF assms] fst_eq in auto)
  then have 1: "map_of (rev (filter_map (\<lambda>(k, v). map_option (Pair k) (f v)) m)) k = Some w \<longleftrightarrow>
      (k, w) \<in> set (filter_map (\<lambda>(k, v). map_option (Pair k) (f v)) m)" for w
    by (simp add: map_of_eq_Some_iff rev_map [symmetric])
  have "bm_get (bm_of_list (filter_map (\<lambda>(k, v). map_option (Pair k) (f v)) m)) k = Some w \<longleftrightarrow>
      Option.bind (bm_get m k) f = Some w" for w
  proof -
    have "(\<exists>x \<in> set m. (case x of (k, v) \<Rightarrow> map_option (Pair k) (f v)) = Some (k, w)) \<longleftrightarrow>
        (\<exists>v. (k, v) \<in> set m \<and> f v = Some w)"
      by force
    then show ?thesis using 1 assms by (simp add: bm_get_of_list set_filter_map bm_get_iff bind_eq_Some_conv)
  qed
  then show ?thesis by (metis option.exhaust)
qed

lemma cooling_bindings_get:
  assumes "bm_ok (rt_cooldowns rt)"
  shows "bm_get (cooling_bindings now rt) key = cooling_until now rt key"
proof -
  have "cooling_bindings now rt = bm_of_list (filter_map (\<lambda>(k, c). map_option (Pair k)
      (Option.bind (cd_retry_at c) (\<lambda>t. if now < t then Some t else None))) (rt_cooldowns rt))"
    unfolding cooling_bindings_def
    by (intro arg_cong [where f = bm_of_list] arg_cong [where f = "\<lambda>g. filter_map g (rt_cooldowns rt)"] ext)
      (auto split: Option.bind_split)
  with bm_get_filter_map [OF assms] show ?thesis by (simp add: cooling_until_def)
qed

section \<open>The invariant\<close>

definition pool_keys :: "'p pool_runtime \<Rightarrow> binding_key set" where
  "pool_keys rt = pool_key ` set (pool_accounts (rt_pool rt))"

definition cooldown_ok :: "binding_cooldown \<Rightarrow> bool" where
  "cooldown_ok c \<longleftrightarrow> (cd_consecutive_failures c = 0 \<longleftrightarrow> cd_retry_at c = None) \<and> cd_consecutive_failures c \<le> u32_max"

definition affinity_ok :: "instant \<Rightarrow> binding_key set \<Rightarrow> binding_key affinity option \<Rightarrow> bool" where
  "affinity_ok now keys af \<longleftrightarrow>
     (case af of None \<Rightarrow> True | Some a \<Rightarrow> stamped_by now a \<and> fst ` ran (af_map a) \<subseteq> keys)"

definition runtime_ok :: "instant \<Rightarrow> 'p pool_runtime \<Rightarrow> bool" where
  "runtime_ok now rt \<longleftrightarrow>
     bm_ok (rt_bindings rt) \<and> bm_ok (rt_cooldowns rt) \<and>
     (\<forall>k b. bm_get (rt_bindings rt) k = Some b \<longleftrightarrow>
        (\<exists>l \<in> set (pool_accounts (rt_pool rt)). pool_key l = k \<and> la_binding l = b)) \<and>
     (\<forall>k. bm_get (rt_cooldowns rt) k \<noteq> None \<longleftrightarrow> k \<in> pool_keys rt) \<and>
     (\<forall>k c. bm_get (rt_cooldowns rt) k = Some c \<longrightarrow> cooldown_ok c) \<and>
     (rt_affinity rt = None \<longleftrightarrow> lp_session_affinity (rt_pool rt) = None) \<and>
     affinity_ok now (pool_keys rt) (rt_affinity rt)"

lemma runtime_ok_cooldowns: "runtime_ok now rt \<Longrightarrow> bm_ok (rt_cooldowns rt)"
  by (simp add: runtime_ok_def)

lemma runtime_ok_cooldown: "runtime_ok now rt \<Longrightarrow> bm_get (rt_cooldowns rt) k = Some c \<Longrightarrow> cooldown_ok c"
  unfolding runtime_ok_def by blast

lemma runtime_ok_known: "runtime_ok now rt \<Longrightarrow> bm_get (rt_cooldowns rt) k \<noteq> None \<longleftrightarrow> k \<in> pool_keys rt"
  unfolding runtime_ok_def by blast

lemma runtime_ok_binding:
  "runtime_ok now rt \<Longrightarrow> bm_get (rt_bindings rt) k = Some b \<longleftrightarrow>
     (\<exists>l \<in> set (pool_accounts (rt_pool rt)). pool_key l = k \<and> la_binding l = b)"
  unfolding runtime_ok_def by blast

lemma fold_insert_bindings:
  "bm_ok m \<Longrightarrow> distinct (map pool_key ls) \<Longrightarrow>
     bm_ok (fold (\<lambda>l. bm_insert (pool_key l) (la_binding l)) ls m) \<and>
     (\<forall>k. bm_get (fold (\<lambda>l. bm_insert (pool_key l) (la_binding l)) ls m) k =
        (case List.find (\<lambda>l. pool_key l = k) ls of Some l \<Rightarrow> Some (la_binding l) | None \<Rightarrow> bm_get m k))"
proof (induction ls arbitrary: m)
  case (Cons l ls)
  have none: "List.find (\<lambda>x. pool_key x = pool_key l) ls = None"
    using Cons.prems(2) by (auto simp: find_None_iff image_iff)
  have "distinct (map pool_key ls)" using Cons.prems(2) by simp
  from Cons.IH [OF bm_ok_insert [OF Cons.prems(1)] this] Cons.prems(1) none
  show ?case by (auto simp: bm_get_insert split: option.split)
qed simp

lemma map_of_constant: "map_of (rev (map (\<lambda>k. (k, c)) ks)) k = (if k \<in> set ks then Some c else None)"
  by (induction ks rule: rev_induct) auto

lemma new_runtime_ok:
  assumes "pool_ok p"
  shows "runtime_ok now (new_runtime p)" and "rt_pool (new_runtime p) = p"
    and "\<And>k. k \<in> pool_keys (new_runtime p) \<Longrightarrow> bm_get (rt_cooldowns (new_runtime p)) k = Some default_cooldown"
proof -
  let ?ls = "lp_active p @ lp_fallback p"
  let ?b = "fold (\<lambda>l. bm_insert (pool_key l) (la_binding l)) ?ls []"
  have dist: "distinct (map pool_key ?ls)" using assms by (simp add: pool_ok_def pool_accounts_def)
  note b = fold_insert_bindings [OF bm_ok_Nil dist]
  have get: "bm_get ?b k = Some x \<longleftrightarrow> (\<exists>l \<in> set ?ls. pool_key l = k \<and> la_binding l = x)" for k x
  proof -
    have uniq: "l = m" if "l \<in> set ?ls" "m \<in> set ?ls" "pool_key l = pool_key m" for l m
      using dist that by (auto simp only: distinct_map inj_on_def)
    have calc: "bm_get ?b k = map_option la_binding (List.find (\<lambda>l. pool_key l = k) ?ls)"
      using b by (simp split: option.split)
    have found: "List.find (\<lambda>l. pool_key l = k) ?ls = Some l \<longleftrightarrow> l \<in> set ?ls \<and> pool_key l = k" for l
    proof
      assume "List.find (\<lambda>l. pool_key l = k) ?ls = Some l"
      then show "l \<in> set ?ls \<and> pool_key l = k" unfolding find_Some_iff by (metis nth_mem)
    next
      assume l: "l \<in> set ?ls \<and> pool_key l = k"
      then have "List.find (\<lambda>l. pool_key l = k) ?ls \<noteq> None" unfolding find_None_iff by blast
      then obtain m where m: "List.find (\<lambda>l. pool_key l = k) ?ls = Some m" by blast
      then have "m \<in> set ?ls \<and> pool_key m = k" unfolding find_Some_iff by (metis nth_mem)
      with l m uniq show "List.find (\<lambda>l. pool_key l = k) ?ls = Some l" by blast
    qed
    show ?thesis unfolding calc map_option_eq_Some found by blast
  qed
  have dom: "fst ` set ?b = pool_key ` set ?ls"
  proof -
    have "k \<in> fst ` set ?b \<longleftrightarrow> (\<exists>x. bm_get ?b k = Some x)" for k
      using bm_get_None_iff [of ?b k] by auto
    moreover have "(\<exists>x. \<exists>l \<in> set ?ls. pool_key l = k \<and> la_binding l = x) \<longleftrightarrow> k \<in> pool_key ` set ?ls" for k
      by auto
    ultimately show ?thesis unfolding get by (auto simp only: set_eq_iff)
  qed
  have cool: "bm_get (bm_of_list (map (\<lambda>k. (k, default_cooldown)) (bm_keys ?b))) k =
      (if k \<in> pool_key ` set ?ls then Some default_cooldown else None)" for k
    unfolding bm_get_of_list map_of_constant bm_keys_def set_map dom ..
  show "rt_pool (new_runtime p) = p" by (simp add: new_runtime_def Let_def)
  show "k \<in> pool_keys (new_runtime p) \<Longrightarrow> bm_get (rt_cooldowns (new_runtime p)) k = Some default_cooldown" for k
    using cool by (simp add: new_runtime_def Let_def pool_keys_def pool_accounts_def)
  show "runtime_ok now (new_runtime p)"
    unfolding runtime_ok_def
    using b get cool
    by (auto simp: new_runtime_def Let_def pool_keys_def pool_accounts_def cooldown_ok_def default_cooldown_def
        from_session_plan_def affinity_ok_def with_absolute_retention_def stamped_by_def split: if_splits option.splits)
qed

section \<open>Steps\<close>

definition touch_affinity :: "instant \<Rightarrow> string option \<Rightarrow> binding_key affinity option \<Rightarrow> binding_key affinity option" where
  "touch_affinity t session_id af =
     (case (session_id, af) of (Some s, Some a) \<Rightarrow> Some (snd (affinity_lookup t s a)) | _ \<Rightarrow> af)"

lemma sticky_state:
  "snd (sticky_binding t session_id eligible cooling rt) = rt\<lparr>rt_affinity := touch_affinity t session_id (rt_affinity rt)\<rparr>"
  by (auto simp: sticky_binding_def touch_affinity_def Let_def split: option.splits lookup.splits prod.splits)

lemma acquire_frame:
  "rt_pool (snd (acquire_ranked now t sid eligible rank rt)) = rt_pool rt"
  "rt_bindings (snd (acquire_ranked now t sid eligible rank rt)) = rt_bindings rt"
  "rt_cooldowns (snd (acquire_ranked now t sid eligible rank rt)) = rt_cooldowns rt"
  "rt_affinity (snd (acquire_ranked now t sid eligible rank rt)) = touch_affinity t sid (rt_affinity rt)"
proof -
  obtain b rt' where st: "sticky_binding t sid eligible (cooling_bindings now rt) rt = (b, rt')" by fastforce
  with sticky_state [of t sid eligible "cooling_bindings now rt" rt]
  have rt': "rt' = rt\<lparr>rt_affinity := touch_affinity t sid (rt_affinity rt)\<rparr>" by simp
  have "rt_pool (snd (acquire_ranked now t sid eligible rank rt)) = rt_pool rt' \<and>
    rt_bindings (snd (acquire_ranked now t sid eligible rank rt)) = rt_bindings rt' \<and>
    rt_cooldowns (snd (acquire_ranked now t sid eligible rank rt)) = rt_cooldowns rt' \<and>
    rt_affinity (snd (acquire_ranked now t sid eligible rank rt)) = rt_affinity rt'"
    unfolding acquire_ranked_def Let_def st by (simp split: option.split prod.split)
  with rt' show
    "rt_pool (snd (acquire_ranked now t sid eligible rank rt)) = rt_pool rt"
    "rt_bindings (snd (acquire_ranked now t sid eligible rank rt)) = rt_bindings rt"
    "rt_cooldowns (snd (acquire_ranked now t sid eligible rank rt)) = rt_cooldowns rt"
    "rt_affinity (snd (acquire_ranked now t sid eligible rank rt)) = touch_affinity t sid (rt_affinity rt)"
    by auto
qed

lemma success_frame:
  assumes "record_success now sid key rt = Inr rt'"
  shows "rt_pool rt' = rt_pool rt" and "rt_bindings rt' = rt_bindings rt"
    and "rt_cooldowns rt' = bm_insert key default_cooldown (rt_cooldowns rt)"
    and "rt_affinity rt' = (case (sid, rt_affinity rt) of
           (Some s, Some a) \<Rightarrow> Some (affinity_record now s key a) | _ \<Rightarrow> rt_affinity rt)"
    and "bm_get (rt_cooldowns rt) key \<noteq> None"
  using assms by (auto simp: record_success_def Let_def split: option.splits)

lemma failure_frame:
  assumes "record_failure horizon now key rt = Inr (t, rt')"
  shows "rt_pool rt' = rt_pool rt" and "rt_bindings rt' = rt_bindings rt" and "rt_affinity rt' = rt_affinity rt"
    and "\<exists>c. bm_get (rt_cooldowns rt) key = Some c \<and>
      rt_cooldowns rt' = bm_insert key
        \<lparr>cd_consecutive_failures = u32_saturating_add (cd_consecutive_failures c) 1, cd_retry_at = Some t\<rparr>
        (rt_cooldowns rt) \<and>
      t = saturating_instant_add horizon now
        (cooldown_duration (lp_failure_cooldown (rt_pool rt)) (u32_saturating_add (cd_consecutive_failures c) 1))"
  using assms by (auto simp: record_failure_def Let_def split: option.splits)

datatype pool_event =
    Ev_Acquire instant "string option"
  | Ev_Success instant "string option" binding_key
  | Ev_Failure instant binding_key

fun event_time :: "pool_event \<Rightarrow> instant" where
  "event_time (Ev_Acquire t _) = t"
| "event_time (Ev_Success t _ _) = t"
| "event_time (Ev_Failure t _) = t"

text \<open>
  One operation of a shared runtime. Eligibility and rank are the caller's and arbitrary;
  recordings of unknown bindings fail and change nothing.
\<close>

inductive pool_step :: "instant \<Rightarrow> 'p pool_runtime \<Rightarrow> pool_event \<Rightarrow> 'p pool_runtime \<Rightarrow> bool" for horizon where
  acquires: "acquire_ranked t t sid eligible rank rt = (result, rt') \<Longrightarrow>
     pool_step horizon rt (Ev_Acquire t sid) rt'"
| succeeds: "record_success t sid key rt = Inr rt' \<Longrightarrow> pool_step horizon rt (Ev_Success t sid key) rt'"
| fails: "record_failure horizon t key rt = Inr (retry_at, rt') \<Longrightarrow> pool_step horizon rt (Ev_Failure t key) rt'"

inductive_cases pool_stepE: "pool_step horizon rt ev rt'"

inductive pool_run :: "instant \<Rightarrow> 'p pool_runtime \<Rightarrow> pool_event list \<Rightarrow> 'p pool_runtime \<Rightarrow> bool" for horizon where
  start: "pool_run horizon rt [] rt"
| step: "pool_run horizon rt evs rt' \<Longrightarrow> pool_step horizon rt' ev rt'' \<Longrightarrow> pool_run horizon rt (evs @ [ev]) rt''"

lemma affinity_ok_mono: "affinity_ok now keys af \<Longrightarrow> now \<le> t \<Longrightarrow> affinity_ok t keys af"
  by (auto simp: affinity_ok_def intro: stamped_mono split: option.splits)

lemma runtime_ok_mono: "runtime_ok now rt \<Longrightarrow> now \<le> t \<Longrightarrow> runtime_ok t rt"
  unfolding runtime_ok_def by (elim conjE, intro conjI) (assumption | erule (1) affinity_ok_mono)+

lemma ran_lookup: "ran (af_map (snd (affinity_lookup t s a))) \<subseteq> ran (af_map a)"
proof -
  have "af_map (snd (affinity_lookup t s a)) k = Some v \<Longrightarrow> af_map a k = Some v" for k v
    by (auto simp: affinity_lookup_def lookup_at_def lookup_write_def maybe_sweep_expired_def Let_def
        split: option.splits if_splits prod.splits)
  then show ?thesis by (auto simp: ran_def)
qed

lemma ran_record: "ran (af_map (affinity_record t s v a)) \<subseteq> insert (v, t) (ran (af_map a))"
proof -
  have "af_map (maybe_sweep_expired t a) k = Some w \<Longrightarrow> af_map a k = Some w" for k w
    by (auto simp: maybe_sweep_expired_def split: option.splits if_splits)
  then show ?thesis by (auto simp: ran_def affinity_record_def Let_def)
qed

lemma affinity_ok_touch: "affinity_ok t keys af \<Longrightarrow> affinity_ok t keys (touch_affinity t sid af)"
  using ran_lookup by (fastforce simp: affinity_ok_def touch_affinity_def sessions.look_upto split: option.splits)

lemma affinity_ok_record:
  "affinity_ok t keys af \<Longrightarrow> key \<in> keys \<Longrightarrow>
   affinity_ok t keys (case (sid, af) of (Some s, Some a) \<Rightarrow> Some (affinity_record t s key a) | _ \<Rightarrow> af)"
  using ran_record by (fastforce simp: affinity_ok_def sessions.bind_upto split: option.splits)

lemma runtime_ok_affinity: "runtime_ok now rt \<Longrightarrow> affinity_ok now (pool_keys rt) (rt_affinity rt)"
  by (simp add: runtime_ok_def)

lemma runtime_ok_acquire:
  assumes "runtime_ok t rt" and "acquire_ranked t t sid eligible rank rt = (result, rt')"
  shows "runtime_ok t rt'"
proof -
  note f = acquire_frame [of t t sid eligible rank rt, unfolded assms(2) snd_conv]
  have "rt_affinity rt' = None \<longleftrightarrow> rt_affinity rt = None"
    unfolding f(4) by (simp add: touch_affinity_def split: option.splits)
  with assms(1) affinity_ok_touch [OF runtime_ok_affinity [OF assms(1)]] show ?thesis
    by (simp add: runtime_ok_def pool_keys_def f)
qed

lemma runtime_ok_cooldown_update:
  assumes "runtime_ok t rt" and "rt_pool rt' = rt_pool rt" and "rt_bindings rt' = rt_bindings rt"
    and "rt_cooldowns rt' = bm_insert key c (rt_cooldowns rt)" and "bm_get (rt_cooldowns rt) key \<noteq> None"
    and "cooldown_ok c" and "rt_affinity rt' = None \<longleftrightarrow> rt_affinity rt = None"
    and "affinity_ok t (pool_keys rt) (rt_affinity rt')"
  shows "runtime_ok t rt'"
proof -
  have ok: "bm_ok (rt_cooldowns rt)" using assms(1) by (rule runtime_ok_cooldowns)
  have get: "bm_get (rt_cooldowns rt') k = (if k = key then Some c else bm_get (rt_cooldowns rt) k)" for k
    unfolding assms(4) by (rule bm_get_insert [OF ok])
  have known: "bm_get (rt_cooldowns rt') k \<noteq> None \<longleftrightarrow> k \<in> pool_keys rt" for k
    using get [of k] runtime_ok_known [OF assms(1), of k] assms(5) by auto
  have cok: "bm_get (rt_cooldowns rt') k = Some d \<longrightarrow> cooldown_ok d" for k d
    using get [of k] runtime_ok_cooldown [OF assms(1), of k d] assms(6) by (auto split: if_splits)
  have "bm_ok (rt_cooldowns rt')" unfolding assms(4) by (rule bm_ok_insert [OF ok])
  moreover have "pool_keys rt' = pool_keys rt" by (simp add: pool_keys_def assms(2))
  moreover have "bm_ok (rt_bindings rt)" "rt_affinity rt = None \<longleftrightarrow> lp_session_affinity (rt_pool rt) = None"
    using assms(1) by (simp_all add: runtime_ok_def)
  ultimately show ?thesis
    unfolding runtime_ok_def assms(2,3)
    using assms(7,8) known cok runtime_ok_binding [OF assms(1)] by simp
qed

lemma default_cooldown_ok: "cooldown_ok default_cooldown"
  by (simp add: cooldown_ok_def default_cooldown_def)

lemma runtime_ok_success:
  assumes "runtime_ok t rt" and "record_success t sid key rt = Inr rt'"
  shows "runtime_ok t rt'"
proof -
  note f = success_frame [OF assms(2)]
  have key: "key \<in> pool_keys rt" using f(5) runtime_ok_known [OF assms(1), of key] by simp
  have "rt_affinity rt' = None \<longleftrightarrow> rt_affinity rt = None"
    unfolding f(4) by (simp split: option.splits)
  moreover have "affinity_ok t (pool_keys rt) (rt_affinity rt')"
    unfolding f(4) by (rule affinity_ok_record [OF runtime_ok_affinity [OF assms(1)] key])
  ultimately show ?thesis
    by (rule runtime_ok_cooldown_update [OF assms(1) f(1,2,3,5) default_cooldown_ok])
qed

lemma runtime_ok_failure:
  assumes "runtime_ok t rt" and "record_failure horizon t key rt = Inr (r, rt')"
  shows "runtime_ok t rt'"
proof -
  note f = failure_frame [OF assms(2)]
  from f(4) obtain c where c: "bm_get (rt_cooldowns rt) key = Some c"
    and i: "rt_cooldowns rt' = bm_insert key
        \<lparr>cd_consecutive_failures = u32_saturating_add (cd_consecutive_failures c) 1, cd_retry_at = Some r\<rparr>
        (rt_cooldowns rt)"
    by blast
  show ?thesis
  proof (rule runtime_ok_cooldown_update [OF assms(1) f(1,2) i])
    show "bm_get (rt_cooldowns rt) key \<noteq> None" using c by simp
    show "cooldown_ok \<lparr>cd_consecutive_failures = u32_saturating_add (cd_consecutive_failures c) 1, cd_retry_at = Some r\<rparr>"
      by (simp add: cooldown_ok_def u32_saturating_add_def u32_max_def)
  qed (simp_all add: f(3) runtime_ok_affinity [OF assms(1)])
qed

lemma runtime_ok_step: "pool_step horizon rt ev rt' \<Longrightarrow> runtime_ok (event_time ev) rt \<Longrightarrow> runtime_ok (event_time ev) rt'"
proof (induction rule: pool_step.induct)
  case (acquires t sid eligible rank rt result rt')
  then show ?case using runtime_ok_acquire [of t rt] by simp
next
  case (succeeds t sid key rt rt')
  then show ?case using runtime_ok_success [of t rt] by simp
next
  case (fails t key rt retry_at rt')
  then show ?case using runtime_ok_failure [of t rt] by simp
qed

lemma pool_step_pool: "pool_step horizon rt ev rt' \<Longrightarrow> rt_pool rt' = rt_pool rt"
proof (induction rule: pool_step.induct)
  case (acquires t sid eligible rank rt result rt')
  then show ?case using acquire_frame(1) [of t t sid eligible rank rt] by simp
qed (simp_all add: success_frame(1) failure_frame(1))

lemma runtime_ok_run:
  "pool_run horizon rt evs rt' \<Longrightarrow> runtime_ok 0 rt \<Longrightarrow> sorted (map event_time evs) \<Longrightarrow>
   \<forall>e \<in> set evs. event_time e \<le> now \<Longrightarrow> runtime_ok now rt' \<and> rt_pool rt' = rt_pool rt"
proof (induction arbitrary: now rule: pool_run.induct)
  case (start rt)
  then show ?case using runtime_ok_mono [of 0 rt now] by simp
next
  case (step rt evs rt' ev rt'')
  have sorted: "sorted (map event_time evs)" and le: "\<forall>e \<in> set evs. event_time e \<le> event_time ev"
    and now: "event_time ev \<le> now"
    using step.prems(2,3) by (simp_all add: sorted_append)
  from step.IH [OF step.prems(1) sorted le] have ok: "runtime_ok (event_time ev) rt'" "rt_pool rt' = rt_pool rt"
    by simp_all
  show ?case
    using runtime_ok_mono [OF runtime_ok_step [OF step.hyps(2) ok(1)] now]
      pool_step_pool [OF step.hyps(2)] ok(2) by simp
qed

section \<open>What an acquisition decides\<close>

definition session_choice ::
  "instant \<Rightarrow> string option \<Rightarrow> ('p provider_binding \<Rightarrow> bool) \<Rightarrow> 'p pool_runtime \<Rightarrow> 'p provider_binding option" where
  "session_choice now sid eligible rt =
     (case (sid, rt_affinity rt) of
        (Some s, Some a) \<Rightarrow>
          (case view a now s of
             Hit key \<Rightarrow> Option.bind (bm_get (rt_bindings rt) key)
                (\<lambda>b. if eligible b \<and> cooling_until now rt key = None then Some b else None)
           | _ \<Rightarrow> None)
      | _ \<Rightarrow> None)"

definition available_in ::
  "instant \<Rightarrow> ('p provider_binding \<Rightarrow> bool) \<Rightarrow> 'p pool_runtime \<Rightarrow> account_tier \<Rightarrow> 'p provider_binding set" where
  "available_in now eligible rt t =
     {b. b \<in> la_binding ` set (tier_of t (rt_pool rt)) \<and> eligible b \<and> cooling_until now rt (pb_key b) = None}"

definition eligible_in :: "('p provider_binding \<Rightarrow> bool) \<Rightarrow> 'p pool_runtime \<Rightarrow> 'p provider_binding set" where
  "eligible_in eligible rt = {b. b \<in> la_binding ` set (pool_accounts (rt_pool rt)) \<and> eligible b}"

definition retry_times :: "instant \<Rightarrow> ('p provider_binding \<Rightarrow> bool) \<Rightarrow> 'p pool_runtime \<Rightarrow> instant set" where
  "retry_times now eligible rt = {t. \<exists>b \<in> eligible_in eligible rt. cooling_until now rt (pb_key b) = Some t}"

text \<open>The contract of an acquisition.\<close>

definition acquire_spec ::
  "instant \<Rightarrow> string option \<Rightarrow> ('p provider_binding \<Rightarrow> bool) \<Rightarrow> ('p provider_binding \<Rightarrow> int) \<Rightarrow> 'p pool_runtime \<Rightarrow>
   'p pool_acquire \<Rightarrow> bool" where
  "acquire_spec now sid eligible rank rt result \<longleftrightarrow>
     (case session_choice now sid eligible rt of
        Some b \<Rightarrow> result = Selected b
      | None \<Rightarrow>
          (case result of
             Selected b \<Rightarrow>
               (\<exists>t. b \<in> available_in now eligible rt t \<and>
                  (\<forall>c \<in> available_in now eligible rt t. rank c \<le> rank b) \<and>
                  (t = Fallback \<longrightarrow> available_in now eligible rt Active = {}))
           | Cooling_Down t \<Rightarrow>
               (\<forall>tier. available_in now eligible rt tier = {}) \<and>
               t \<in> retry_times now eligible rt \<and> (\<forall>u \<in> retry_times now eligible rt. t \<le> u)
           | No_Eligible \<Rightarrow> eligible_in eligible rt = {}))"

lemma candidates_available:
  assumes "bm_ok (rt_cooldowns rt)"
  shows "set (candidates_of eligible (cooling_bindings now rt) (tier_of t (rt_pool rt))) = available_in now eligible rt t"
  by (auto simp: candidates_of_def available_def available_in_def cooling_bindings_get [OF assms])

lemma retries_times:
  assumes "bm_ok (rt_cooldowns rt)"
  shows "set (retries_of eligible (cooling_bindings now rt) (lp_active (rt_pool rt))) \<union>
    set (retries_of eligible (cooling_bindings now rt) (lp_fallback (rt_pool rt))) = retry_times now eligible rt"
  by (auto simp: retries_of_def set_filter_map retry_times_def eligible_in_def pool_accounts_def
      cooling_bindings_get [OF assms] split: if_splits)

lemma sticky_choice:
  assumes "runtime_ok now rt"
  shows "fst (sticky_binding now sid eligible (cooling_bindings now rt) rt) = session_choice now sid eligible rt"
proof (cases "sid")
  case (Some s)
  note cool = cooling_bindings_get [OF runtime_ok_cooldowns [OF assms]]
  show ?thesis
  proof (cases "rt_affinity rt")
    case (Some a)
    with runtime_ok_affinity [OF assms] have "stamped_by now a" by (simp add: affinity_ok_def)
    then have "fst (affinity_lookup now s a) = view a now s" by (rule sessions.look_answer)
    then obtain a' where "affinity_lookup now s a = (view a now s, a')" by (metis prod.collapse)
    with Some \<open>sid = Some s\<close> show ?thesis
      by (auto simp: sticky_binding_def session_choice_def cool Let_def split: lookup.split option.split)
  qed (simp add: sticky_binding_def session_choice_def Some)
qed (simp add: sticky_binding_def session_choice_def)

lemma no_available_eligible:
  assumes "\<And>t. available_in now eligible rt t = {}" and "b \<in> eligible_in eligible rt"
  shows "\<exists>u. u \<in> retry_times now eligible rt"
proof -
  from assms(2) obtain t where "b \<in> la_binding ` set (tier_of t (rt_pool rt))" "eligible b"
    by (auto simp: eligible_in_def pool_accounts_def tier_of_def split: account_tier.splits)
      (metis account_tier.simps(3) image_eqI, metis account_tier.simps(4) image_eqI)
  with assms(1) [of t] have "cooling_until now rt (pb_key b) \<noteq> None" by (auto simp: available_in_def)
  with assms(2) show ?thesis by (auto simp: retry_times_def)
qed

lemma acquire_decides:
  assumes "runtime_ok now rt"
  shows "acquire_spec now sid eligible rank rt (fst (acquire_ranked now now sid eligible rank rt))"
proof -
  let ?cool = "cooling_bindings now rt"
  note ok = runtime_ok_cooldowns [OF assms]
  obtain rt' where st: "sticky_binding now sid eligible ?cool rt = (session_choice now sid eligible rt, rt')"
    using sticky_choice [OF assms] by (metis prod.collapse)
  with sticky_state [of now sid eligible ?cool rt]
  have rt': "rt_pool rt' = rt_pool rt" "rt_active_cursor rt' = rt_active_cursor rt"
    "rt_fallback_cursor rt' = rt_fallback_cursor rt" by simp_all
  show ?thesis
  proof (cases "session_choice now sid eligible rt")
    case (Some b)
    then show ?thesis by (simp add: acquire_spec_def acquire_ranked_def Let_def st)
  next
    case None
    obtain r1 c1 e1 where t1: "select_tier (lp_active (rt_pool rt)) (rt_active_cursor rt) eligible rank ?cool None = (r1, c1, e1)"
      by (metis prod_cases3)
    obtain r2 c2 e2 where t2: "select_tier (lp_fallback (rt_pool rt)) (rt_fallback_cursor rt) eligible rank ?cool e1 = (r2, c2, e2)"
      by (metis prod_cases3)
    have res: "fst (acquire_ranked now now sid eligible rank rt) =
        (case r1 of Some b \<Rightarrow> Selected b | None \<Rightarrow> (case r2 of Some b \<Rightarrow> Selected b | None \<Rightarrow>
          (case e2 of Some t \<Rightarrow> Cooling_Down t | None \<Rightarrow> No_Eligible)))"
      using None by (simp add: acquire_ranked_def Let_def st rt' t1 t2 split: option.split)
    note cand = candidates_available [OF ok, of eligible now]
    have candA: "set (candidates_of eligible ?cool (lp_active (rt_pool rt))) = available_in now eligible rt Active"
      and candF: "set (candidates_of eligible ?cool (lp_fallback (rt_pool rt))) = available_in now eligible rt Fallback"
      using cand [of Active] cand [of Fallback] by (simp_all add: tier_of_def)
    show ?thesis
    proof (cases r1)
      case (Some b)
      note t = select_tier_Some(1,2) [OF t1 [unfolded Some], unfolded candA]
      have "b \<in> available_in now eligible rt Active \<and>
          (\<forall>c \<in> available_in now eligible rt Active. rank c \<le> rank b) \<and>
          (Active = Fallback \<longrightarrow> available_in now eligible rt Active = {})"
        using t by simp
      with Some None show ?thesis unfolding acquire_spec_def res by auto
    next
      case r1: None
      note n1 = select_tier_None [OF t1 [unfolded r1]]
      have A: "available_in now eligible rt Active = {}" using n1(1) candA by simp
      show ?thesis
      proof (cases r2)
        case (Some b)
        note t = select_tier_Some(1,2) [OF t2 [unfolded Some], unfolded candF]
        have "b \<in> available_in now eligible rt Fallback \<and>
            (\<forall>c \<in> available_in now eligible rt Fallback. rank c \<le> rank b) \<and>
            (Fallback = Fallback \<longrightarrow> available_in now eligible rt Active = {})"
          using t A by simp
        with Some None r1 show ?thesis unfolding acquire_spec_def res by auto
      next
        case r2: None
        note n2 = select_tier_None [OF t2 [unfolded r2]]
        have F: "available_in now eligible rt Fallback = {}" using n2(1) candF by simp
        have none: "available_in now eligible rt t = {}" for t using A F by (cases t) simp_all
        have e2: "e2 = (if retry_times now eligible rt = {} then None else Some (Min (retry_times now eligible rt)))"
        proof -
          let ?R = "retries_of eligible ?cool (lp_active (rt_pool rt)) @ retries_of eligible ?cool (lp_fallback (rt_pool rt))"
          have "set ?R = retry_times now eligible rt" using retries_times [OF ok, of eligible now] by simp
          moreover have "e2 = fold (\<lambda>t e. retain_earliest e t) ?R None" using n1(3) n2(3) by simp
          ultimately show ?thesis unfolding fold_retain_earliest by (metis Un_empty_right option.set(1) set_empty)
        qed
        have fin: "finite (retry_times now eligible rt)"
          unfolding retries_times [OF ok, symmetric] by simp
        show ?thesis
        proof (cases "retry_times now eligible rt = {}")
          case True
          then have "eligible_in eligible rt = {}" using no_available_eligible [OF none] by blast
          with True e2 None r1 r2 show ?thesis unfolding acquire_spec_def res by simp
        next
          case False
          with e2 None r1 r2 none fin show ?thesis unfolding acquire_spec_def res by simp
        qed
      qed
    qed
  qed
qed

lemma acquire_selected_available:
  assumes "runtime_ok now rt" and "fst (acquire_ranked now now sid eligible rank rt) = Selected b"
  shows "eligible b \<and> cooling_until now rt (pb_key b) = None \<and> b \<in> la_binding ` set (pool_accounts (rt_pool rt))"
proof (cases "session_choice now sid eligible rt")
  case None
  with acquire_decides [OF assms(1), of sid eligible rank] assms(2)
  obtain t where "b \<in> available_in now eligible rt t" by (auto simp: acquire_spec_def)
  then show ?thesis by (auto simp: available_in_def pool_accounts_def tier_of_def split: account_tier.splits)
next
  case (Some c)
  with acquire_decides [OF assms(1), of sid eligible rank] assms(2) have c: "c = b" by (simp add: acquire_spec_def)
  from Some obtain key where "bm_get (rt_bindings rt) key = Some b" "eligible b" "cooling_until now rt key = None"
    unfolding c by (auto simp: session_choice_def bind_eq_Some_conv split: option.splits lookup.splits if_splits)
  with runtime_ok_binding [OF assms(1), of key b] show ?thesis by (auto simp: pool_key_def)
qed

section \<open>Sessions and cooldowns over an execution\<close>

fun affinity_op :: "pool_event \<Rightarrow> (instant \<times> string \<times> binding_key option) option" where
  "affinity_op (Ev_Acquire t (Some s)) = Some (t, s, None)"
| "affinity_op (Ev_Success t (Some s) key) = Some (t, s, Some key)"
| "affinity_op _ = None"

text \<open>The affinity map of a runtime is the one the session operations of the execution produce.\<close>

lemma pool_step_affinity:
  assumes "pool_step horizon rt ev rt'"
  shows "rt_affinity rt' = map_option
    (\<lambda>a. sessions.run (case affinity_op ev of None \<Rightarrow> [] | Some op \<Rightarrow> [op]) a) (rt_affinity rt)"
  using assms
proof (induction rule: pool_step.induct)
  case (acquires t sid eligible rank rt result rt')
  have "rt_affinity rt' = touch_affinity t sid (rt_affinity rt)"
    using acquire_frame(4) [of t t sid eligible rank rt] acquires by simp
  then show ?case by (cases sid; cases "rt_affinity rt") (simp_all add: touch_affinity_def)
next
  case (succeeds t sid key rt rt')
  then show ?case using success_frame(4) [OF succeeds] by (cases sid; cases "rt_affinity rt") simp_all
next
  case (fails t key rt retry_at rt')
  then show ?case using failure_frame(3) [OF fails] by (cases "rt_affinity rt") simp_all
qed

lemma pool_run_affinity:
  "pool_run horizon rt evs rt' \<Longrightarrow>
   rt_affinity rt' = map_option (sessions.run (filter_map affinity_op evs)) (rt_affinity rt)"
proof (induction rule: pool_run.induct)
  case (start rt)
  then show ?case by (simp add: option.map_ident_strong)
next
  case (step rt evs rt' ev rt'')
  have "filter_map affinity_op (evs @ [ev]) =
      filter_map affinity_op evs @ (case affinity_op ev of None \<Rightarrow> [] | Some op \<Rightarrow> [op])"
    by (induction evs) (auto split: option.split)
  with step.IH pool_step_affinity [OF step.hyps(2)] show ?case
    by (cases "rt_affinity rt") (simp_all add: sessions.run_append)
qed

lemma affinity_op_time: "affinity_op ev = Some op \<Longrightarrow> fst op = event_time ev"
  by (cases ev rule: affinity_op.cases) auto

lemma affinity_ops_sorted: "sorted (map event_time evs) \<Longrightarrow> sorted (map fst (filter_map affinity_op evs))"
proof (induction evs)
  case (Cons ev evs)
  then have "\<forall>op \<in> set (filter_map affinity_op evs). event_time ev \<le> fst op"
    by (auto simp: set_filter_map dest: affinity_op_time)
  with Cons show ?case using affinity_op_time [of ev] by (cases "affinity_op ev") simp_all
qed simp

text \<open>The last confirmed use of a session.\<close>

definition last_success :: "pool_event list \<Rightarrow> string \<Rightarrow> (instant \<times> binding_key) option" where
  "last_success evs s =
     find_map (\<lambda>ev. case ev of Ev_Success t sid key \<Rightarrow> if sid = Some s then Some (t, key) else None | _ \<Rightarrow> None) (rev evs)"

lemma find_map_filter_map: "find_map g (filter_map f xs) = find_map (\<lambda>x. Option.bind (f x) g) xs"
  by (induction xs) (auto split: option.split)

lemma rev_filter_map: "rev (filter_map f xs) = filter_map f (rev xs)"
proof -
  have "filter_map f (xs @ ys) = filter_map f xs @ filter_map f ys" for xs ys
    by (induction xs) (auto split: option.split)
  then show ?thesis by (induction xs) (auto split: option.split)
qed

lemma last_success_bind: "sessions.last_bind (filter_map affinity_op evs) s = last_success evs s"
proof -
  have "Option.bind (affinity_op ev)
      (\<lambda>(now, k', v). if k' = s then map_option (\<lambda>x. (now, x)) v else None) =
      (case ev of Ev_Success t sid key \<Rightarrow> if sid = Some s then Some (t, key) else None | _ \<Rightarrow> None)" for ev
    by (cases ev rule: affinity_op.cases) auto
  then show ?thesis
    unfolding sessions.last_bind_def last_success_def rev_filter_map find_map_filter_map by simp
qed

text \<open>A floor under a binding's deadline survives every step that is not a success of that binding.\<close>

definition backed_off :: "instant \<Rightarrow> nat \<Rightarrow> binding_key \<Rightarrow> 'p pool_runtime \<Rightarrow> bool" where
  "backed_off r n key rt \<longleftrightarrow>
     (\<exists>c u. bm_get (rt_cooldowns rt) key = Some c \<and> n \<le> cd_consecutive_failures c \<and> cd_retry_at c = Some u \<and> r \<le> u)"

lemma backed_off_step:
  assumes "pool_step horizon rt ev rt'" and "runtime_ok (event_time ev) rt"
    and "backed_off (min (t + cooldown_duration (lp_failure_cooldown (rt_pool rt)) n) horizon) n key rt"
    and "\<And>t' sid. ev \<noteq> Ev_Success t' sid key" and "t \<le> event_time ev" and "event_time ev \<le> horizon" and "n \<le> u32_max"
  shows "backed_off (min (t + cooldown_duration (lp_failure_cooldown (rt_pool rt)) n) horizon) n key rt'"
  using assms(1)
proof cases
  case (acquires t' sid eligible rank result)
  then show ?thesis using assms(3) acquire_frame(3) [of t' t' sid eligible rank rt] by (simp add: backed_off_def)
next
  case (succeeds t' sid key')
  then have "key' \<noteq> key" using assms(4) by blast
  then show ?thesis
    using assms(3) success_frame(3) [OF succeeds(2)] runtime_ok_cooldowns [OF assms(2)]
    by (simp add: backed_off_def bm_get_insert)
next
  case (fails t' key' retry_at)
  note ok = runtime_ok_cooldowns [OF assms(2)]
  from failure_frame(4) [OF fails(2)] obtain c where c: "bm_get (rt_cooldowns rt) key' = Some c"
    and i: "rt_cooldowns rt' = bm_insert key'
        \<lparr>cd_consecutive_failures = u32_saturating_add (cd_consecutive_failures c) 1, cd_retry_at = Some retry_at\<rparr>
        (rt_cooldowns rt)"
    and r: "retry_at = saturating_instant_add horizon t'
        (cooldown_duration (lp_failure_cooldown (rt_pool rt)) (u32_saturating_add (cd_consecutive_failures c) 1))"
    by blast
  show ?thesis
  proof (cases "key' = key")
    case False
    then show ?thesis using assms(3) by (simp add: backed_off_def i bm_get_insert [OF ok])
  next
    case True
    with c assms(3) have n: "n \<le> cd_consecutive_failures c" by (auto simp: backed_off_def)
    then have n': "n \<le> u32_saturating_add (cd_consecutive_failures c) 1"
      using assms(7) by (simp add: u32_saturating_add_def)
    have "t \<le> t'" "t' \<le> horizon" using assms(5,6) fails(1) by simp_all
    with cooldown_duration_mono [OF n', of "lp_failure_cooldown (rt_pool rt)"]
    have "min (t + cooldown_duration (lp_failure_cooldown (rt_pool rt)) n) horizon \<le> retry_at"
      unfolding r by (simp add: saturating_instant_add_eq [OF cooldown_duration_le] min_le_iff_disj)
    with n' True show ?thesis by (simp add: backed_off_def i bm_get_insert [OF ok])
  qed
qed

lemma backed_off_run:
  "pool_run horizon rt evs rt' \<Longrightarrow> runtime_ok t rt \<Longrightarrow>
   backed_off (min (t + cooldown_duration (lp_failure_cooldown (rt_pool rt)) n) horizon) n key rt \<Longrightarrow>
   \<forall>t' sid. Ev_Success t' sid key \<notin> set evs \<Longrightarrow> sorted (map event_time evs) \<Longrightarrow>
   \<forall>e \<in> set evs. t \<le> event_time e \<and> event_time e \<le> horizon \<Longrightarrow> n \<le> u32_max \<Longrightarrow> t \<le> now \<Longrightarrow>
   \<forall>e \<in> set evs. event_time e \<le> now \<Longrightarrow>
   backed_off (min (t + cooldown_duration (lp_failure_cooldown (rt_pool rt)) n) horizon) n key rt' \<and>
   runtime_ok now rt' \<and> rt_pool rt' = rt_pool rt"
proof (induction arbitrary: now rule: pool_run.induct)
  case (start rt)
  then show ?case using runtime_ok_mono [of t rt now] by simp
next
  case (step rt evs rt' ev rt'')
  have "backed_off (min (t + cooldown_duration (lp_failure_cooldown (rt_pool rt)) n) horizon) n key rt' \<and>
      runtime_ok (event_time ev) rt' \<and> rt_pool rt' = rt_pool rt"
    by (rule step.IH) (use step.prems in \<open>auto simp: sorted_append\<close>)
  then have b: "backed_off (min (t + cooldown_duration (lp_failure_cooldown (rt_pool rt')) n) horizon) n key rt'"
    and ok: "runtime_ok (event_time ev) rt'" and p: "rt_pool rt' = rt_pool rt" by simp_all
  have no: "ev \<noteq> Ev_Success t' sid key" for t' sid using step.prems(3) by auto
  have times: "t \<le> event_time ev" "event_time ev \<le> horizon" "event_time ev \<le> now" using step.prems(5,8) by auto
  from backed_off_step [OF step.hyps(2) ok b no times(1,2) step.prems(6)] p
    runtime_ok_mono [OF runtime_ok_step [OF step.hyps(2) ok] times(3)] pool_step_pool [OF step.hyps(2)]
  show ?case by simp
qed

text \<open>A cooldown changes only by a success or a failure of its own binding.\<close>

lemma cooldown_untouched_step:
  assumes "pool_step horizon rt ev rt'" and "bm_ok (rt_cooldowns rt)"
    and "\<forall>t sid. ev \<noteq> Ev_Success t sid k" and "\<forall>t. ev \<noteq> Ev_Failure t k"
  shows "bm_get (rt_cooldowns rt') k = bm_get (rt_cooldowns rt) k"
  using assms(1)
proof cases
  case (acquires t sid eligible rank result)
  then show ?thesis using acquire_frame(3) [of t t sid eligible rank rt] by simp
next
  case (succeeds t sid key)
  then show ?thesis using assms success_frame(3) [OF succeeds(2)] by (auto simp: bm_get_insert)
next
  case (fails t key retry_at)
  with assms failure_frame(4) [OF fails(2)] show ?thesis by (auto simp: bm_get_insert)
qed

lemma cooldown_untouched_run:
  assumes "pool_run horizon rt evs rt'" and "runtime_ok t rt" and "sorted (map event_time evs)"
    and "\<forall>e \<in> set evs. t \<le> event_time e"
    and "\<forall>t' sid. Ev_Success t' sid k \<notin> set evs" and "\<forall>t'. Ev_Failure t' k \<notin> set evs"
  shows "bm_get (rt_cooldowns rt') k = bm_get (rt_cooldowns rt) k \<and> (\<forall>now. t \<le> now \<and> (\<forall>e \<in> set evs. event_time e \<le> now) \<longrightarrow> runtime_ok now rt')"
  using assms
proof (induction rule: pool_run.induct)
  case (start rt)
  then show ?case by (auto intro: runtime_ok_mono)
next
  case (step rt evs rt' ev rt'')
  then have IH: "bm_get (rt_cooldowns rt') k = bm_get (rt_cooldowns rt) k" "runtime_ok (event_time ev) rt'"
    by (auto simp: sorted_append)
  have "runtime_ok now rt''" if "t \<le> now" "\<forall>e \<in> set (evs @ [ev]). event_time e \<le> now" for now
    using runtime_ok_mono [OF runtime_ok_step [OF step.hyps(2) IH(2)]] that by simp
  then show ?case
    using IH(1) cooldown_untouched_step [OF step.hyps(2) runtime_ok_cooldowns [OF IH(2)], of k] step.prems by auto
qed

section \<open>Rotation\<close>

text \<open>Repeated acquisitions of one request without a session.\<close>

fun acquire_times ::
  "nat \<Rightarrow> instant \<Rightarrow> ('p provider_binding \<Rightarrow> bool) \<Rightarrow> ('p provider_binding \<Rightarrow> int) \<Rightarrow> 'p pool_runtime \<Rightarrow>
   'p pool_acquire list" where
  "acquire_times 0 now eligible rank rt = []"
| "acquire_times (Suc n) now eligible rank rt =
     (let (result, rt') = acquire_ranked now now None eligible rank rt
      in result # acquire_times n now eligible rank rt')"

definition top_active ::
  "instant \<Rightarrow> ('p provider_binding \<Rightarrow> bool) \<Rightarrow> ('p provider_binding \<Rightarrow> int) \<Rightarrow> 'p pool_runtime \<Rightarrow> 'p provider_binding list" where
  "top_active now eligible rank rt =
     top_ranked rank (filter (\<lambda>b. eligible b \<and> cooling_until now rt (pb_key b) = None)
       (map la_binding (lp_active (rt_pool rt))))"

lemma acquire_top_active:
  assumes "bm_ok (rt_cooldowns rt)" and "top_active now eligible rank rt \<noteq> []"
  shows "acquire_ranked now now None eligible rank rt =
    (Selected (top_active now eligible rank rt ! (unat (rt_active_cursor rt) mod length (top_active now eligible rank rt))),
     rt\<lparr>rt_active_cursor := rt_active_cursor rt + 1\<rparr>)"
proof -
  have "candidates_of eligible (cooling_bindings now rt) (lp_active (rt_pool rt)) =
      filter (\<lambda>b. eligible b \<and> cooling_until now rt (pb_key b) = None) (map la_binding (lp_active (rt_pool rt)))"
    by (auto simp: candidates_of_def available_def cooling_bindings_get [OF assms(1)] intro!: filter_cong)
  then have "top_ranked rank (candidates_of eligible (cooling_bindings now rt) (lp_active (rt_pool rt))) =
      top_active now eligible rank rt" by (simp add: top_active_def)
  with assms(2) show ?thesis
    by (simp add: acquire_ranked_def sticky_binding_def select_tier_spec Let_def)
qed

lemma acquire_times_rotate:
  assumes "bm_ok (rt_cooldowns rt)" and "top_active now eligible rank rt = bs" and "bs \<noteq> []"
    and "unat (rt_active_cursor rt) + n \<le> 2 ^ 64"
  shows "acquire_times n now eligible rank rt =
    map (\<lambda>i. Selected (bs ! ((unat (rt_active_cursor rt) + i) mod length bs))) [0 ..< n]"
  using assms
proof (induction n arbitrary: rt)
  case (Suc n)
  let ?rt = "rt\<lparr>rt_active_cursor := rt_active_cursor rt + 1\<rparr>"
  have a: "acquire_ranked now now None eligible rank rt =
      (Selected (bs ! (unat (rt_active_cursor rt) mod length bs)), ?rt)"
    using acquire_top_active [OF Suc.prems(1), of now eligible rank] Suc.prems(2,3) by simp
  have top: "top_active now eligible rank ?rt = bs"
    using Suc.prems(2) by (simp add: top_active_def cooling_until_def)
  show ?case
  proof (cases n)
    case 0
    with a show ?thesis by simp
  next
    case (Suc m)
    with Suc.prems(4) have "unat (rt_active_cursor rt) + 1 < 2 ^ 64" by simp
    then have cur: "unat (rt_active_cursor rt + 1) = unat (rt_active_cursor rt) + 1"
      using unat_add_lem [of "rt_active_cursor rt" 1] by (simp add: unat_word_ariths)
    have "acquire_times n now eligible rank ?rt =
        map (\<lambda>i. Selected (bs ! ((unat (rt_active_cursor ?rt) + i) mod length bs))) [0 ..< n]"
      by (rule Suc.IH) (use Suc.prems top cur in simp_all)
    then show ?thesis
      using a cur by (simp add: upt_conv_Cons comp_def del: upt_Suc flip: map_Suc_upt)
  qed
qed simp

section \<open>Properties\<close>

text \<open>A pool with two active accounts, the runtime of it and a request for any binding.\<close>

definition sample_binding :: "string \<Rightarrow> string provider_binding" where
  "sample_binding i =
     \<lparr>pb_key = Binding_Key ''openai'' i, pb_driver_id = ''openai'', pb_account = default_account i ''openai'',
      pb_handle = new_handle (default_account i ''openai'') i, pb_account_order = 0\<rparr>"

definition sample_slot :: "string \<Rightarrow> string linked_pool_account" where
  "sample_slot i = \<lparr>la_account_id = i, la_account_order = 0, la_binding = sample_binding i\<rparr>"

definition sample_pool :: "string linked_account_pool" where
  "sample_pool =
     \<lparr>lp_id = ''main'', lp_strategy = Round_Robin, lp_failure_cooldown = 10,
      lp_session_affinity = Some \<lparr>sp_ttl = 100, sp_expired_retention = 100\<rparr>,
      lp_active = [sample_slot ''a'', sample_slot ''b''], lp_fallback = [sample_slot ''c'']\<rparr>"

lemma sample_pool_ok: "pool_ok sample_pool"
  by (simp add: pool_ok_def pool_accounts_def sample_pool_def sample_slot_def sample_binding_def pool_key_def)

lemma sample_runtime_ok: "runtime_ok now (new_runtime sample_pool)"
  by (rule new_runtime_ok(1) [OF sample_pool_ok])

text \<open>
  C22. An acquisition keeps an established session on its binding while that is eligible
  and not cooling. Otherwise it selects, from the active tier or only if nothing there is
  available from the fallback tier, an eligible binding that is not cooling and has the
  highest rank there; it reports the earliest retry exactly when eligible bindings exist and
  all of them are cooling, and no eligible binding exactly when there is none.
\<close>

theorem acquire_meets_contract:
  assumes "runtime_ok now rt"
  shows "acquire_spec now sid eligible rank rt (fst (acquire_ranked now now sid eligible rank rt))"
  by (rule acquire_decides [OF assms])

theorem acquire_meets_contract_witness:
  "acquire_spec 5 (Some ''s'') (\<lambda>_. True) (\<lambda>_. 0) (new_runtime sample_pool)
     (fst (acquire_ranked 5 5 (Some ''s'') (\<lambda>_. True) (\<lambda>_. 0) (new_runtime sample_pool)))"
  by (rule acquire_meets_contract [OF sample_runtime_ok])

text \<open>
  C23. Every runtime that a linked pool's runtime can become by acquisitions, successes and
  failures is well formed: the cooldown table has exactly the pool's bindings, a deadline
  exists exactly after a failure, the affinity map only names bindings of the pool and no stamp
  is in the future.
\<close>

theorem reachable_runtime_ok:
  assumes "pool_ok p" and "pool_run horizon (new_runtime p) evs rt" and "sorted (map event_time evs)"
    and "\<forall>e \<in> set evs. event_time e \<le> now"
  shows "runtime_ok now rt \<and> rt_pool rt = p"
  using runtime_ok_run [OF assms(2) new_runtime_ok(1) [OF assms(1)] assms(3,4)] new_runtime_ok(2) [OF assms(1)]
  by simp

definition sample_failed :: "string pool_runtime" where
  "sample_failed = (case record_failure 1000 3 (Binding_Key ''openai'' ''a'') (new_runtime sample_pool) of
     Inr (_, rt) \<Rightarrow> rt | Inl _ \<Rightarrow> new_runtime sample_pool)"

lemma sample_failure:
  "record_failure 1000 3 (Binding_Key ''openai'' ''a'') (new_runtime sample_pool) = Inr (13, sample_failed)"
proof -
  have "map_option fst (case record_failure 1000 3 (Binding_Key ''openai'' ''a'') (new_runtime sample_pool)
      of Inr r \<Rightarrow> Some r | Inl _ \<Rightarrow> None) = Some 13" by code_simp
  then show ?thesis unfolding sample_failed_def by (auto split: sum.splits prod.splits)
qed

lemma sample_run: "pool_run 1000 (new_runtime sample_pool) [Ev_Failure 3 (Binding_Key ''openai'' ''a'')] sample_failed"
  using pool_run.step [OF pool_run.start pool_step.fails [OF sample_failure]] by simp

theorem reachable_runtime_ok_witness: "runtime_ok 4 sample_failed"
  using reachable_runtime_ok [OF sample_pool_ok sample_run, of 4] by simp

text \<open>
  C24. Sessions stick: after any execution, a session whose last confirmed use is younger than
  the live period is given that use's binding, whatever the ranks and the cursors say, as
  long as the binding is eligible and not cooling.
\<close>

theorem sessions_stick:
  assumes "pool_ok p" and "lp_session_affinity p = Some plan"
    and "pool_run horizon (new_runtime p) evs rt" and "sorted (map event_time evs)"
    and "\<forall>e \<in> set evs. event_time e \<le> now"
    and "last_success evs s = Some (t, pool_key l)" and "now - t < sp_ttl plan"
    and "l \<in> set (pool_accounts p)" and "eligible (la_binding l)" and "cooling_until now rt (pool_key l) = None"
  shows "fst (acquire_ranked now now (Some s) eligible rank rt) = Selected (la_binding l)"
proof -
  have run: "runtime_ok now rt" "rt_pool rt = p"
    using runtime_ok_run [OF assms(3) new_runtime_ok(1) [OF assms(1)] assms(4,5)] new_runtime_ok(2) [OF assms(1)]
    by simp_all
  let ?ops = "filter_map affinity_op evs"
  have af: "rt_affinity rt = Some (sessions.run ?ops (from_session_plan plan))"
    using pool_run_affinity [OF assms(3)] assms(2) by (simp add: new_runtime_def Let_def)
  have "\<forall>x \<in> set ?ops. fst x \<le> now" using assms(5) by (auto simp: set_filter_map dest: affinity_op_time)
  moreover have "stamped_by 0 (from_session_plan plan)" and new: "\<And>t k. view (from_session_plan plan) t k = Unknown"
    unfolding from_session_plan_def by (rule new_affinity_empty)+
  ultimately have "view (sessions.run ?ops (from_session_plan plan)) now s = by_age (from_session_plan plan) (now - t) (pool_key l)"
    using sessions.answer_last_bind [OF affinity_ops_sorted [OF assms(4)] _ _ _ _ new, of now 0 s] assms(6)
    by (simp add: last_success_bind)
  also have "\<dots> = Hit (pool_key l)"
    using assms(7) by (simp add: by_age_def from_session_plan_def with_absolute_retention_def)
  finally have hit: "view (sessions.run ?ops (from_session_plan plan)) now s = Hit (pool_key l)" .
  have "bm_get (rt_bindings rt) (pool_key l) = Some (la_binding l)"
    unfolding runtime_ok_binding [OF run(1)] run(2) using assms(8) by blast
  with af hit assms(9,10) have "session_choice now (Some s) eligible rt = Some (la_binding l)"
    by (simp add: session_choice_def)
  with acquire_decides [OF run(1), of "Some s" eligible rank] show ?thesis by (simp add: acquire_spec_def)
qed

definition sample_bound :: "string pool_runtime" where
  "sample_bound = (case record_success 7 (Some ''s'') (Binding_Key ''openai'' ''b'') sample_failed of
     Inr rt \<Rightarrow> rt | Inl _ \<Rightarrow> sample_failed)"

lemma sample_success: "record_success 7 (Some ''s'') (Binding_Key ''openai'' ''b'') sample_failed = Inr sample_bound"
proof -
  have "(case record_success 7 (Some ''s'') (Binding_Key ''openai'' ''b'') sample_failed
      of Inr _ \<Rightarrow> True | Inl _ \<Rightarrow> False)" by code_simp
  then show ?thesis unfolding sample_bound_def by (auto split: sum.splits)
qed

theorem sessions_stick_witness:
  "fst (acquire_ranked 50 50 (Some ''s'') (\<lambda>_. True) (\<lambda>b. if bk_account (pb_key b) = ''a'' then 9 else 0) sample_bound) =
     Selected (sample_binding ''b'')"
proof -
  have run: "pool_run 1000 (new_runtime sample_pool)
      [Ev_Failure 3 (Binding_Key ''openai'' ''a''), Ev_Success 7 (Some ''s'') (Binding_Key ''openai'' ''b'')] sample_bound"
    using pool_run.step [OF sample_run pool_step.succeeds [OF sample_success]] by simp
  have cool: "cooling_until 50 sample_bound (pool_key (sample_slot ''b'')) = None" by code_simp
  have plan: "lp_session_affinity sample_pool = Some \<lparr>sp_ttl = 100, sp_expired_retention = 100\<rparr>"
    and slot: "sample_slot ''b'' \<in> set (pool_accounts sample_pool)"
    by (simp_all add: sample_pool_def pool_accounts_def)
  have l: "last_success [Ev_Failure 3 (Binding_Key ''openai'' ''a''),
      Ev_Success 7 (Some ''s'') (Binding_Key ''openai'' ''b'')] ''s'' = Some (7, pool_key (sample_slot ''b''))"
    by (simp add: last_success_def pool_key_def sample_slot_def sample_binding_def)
  from sessions_stick [OF sample_pool_ok plan run _ _ l _ slot, of 50] cool
  show ?thesis by (simp add: sample_slot_def)
qed

text \<open>
  C25. Failures back off: a failure at \<open>t\<close> that follows \<open>c\<close> consecutive failures sets the
  deadline of its binding to \<open>t + base * 2 ^ min c 5\<close>, cut at the longest duration and the platform's last
  instant, and counts it (the count saturates); it leaves the pool, its bindings, the affinity and the
  cooldown of every other binding as they were: at any time, whether another binding cools is
  what it was. No execution without a success of that binding makes any request select it
  before the deadline, and through that execution a binding that neither succeeds nor fails
  keeps its cooldown.
\<close>

theorem failures_back_off:
  assumes "runtime_ok t rt" and "record_failure horizon t key rt = Inr (retry_at, rt1)" and "t \<le> horizon"
    and "pool_run horizon rt1 evs rt2" and "\<forall>t' sid. Ev_Success t' sid key \<notin> set evs"
    and "sorted (map event_time evs)" and "\<forall>e \<in> set evs. t \<le> event_time e \<and> event_time e \<le> horizon \<and> event_time e \<le> now"
    and "t \<le> now" and "now < retry_at"
  shows "(\<exists>c. bm_get (rt_cooldowns rt) key = Some c \<and>
      bm_get (rt_cooldowns rt1) key =
        Some \<lparr>cd_consecutive_failures = min (cd_consecutive_failures c + 1) u32_max, cd_retry_at = Some retry_at\<rparr> \<and>
      (cd_consecutive_failures c < u32_max \<longrightarrow>
        retry_at = min (t + min (lp_failure_cooldown (rt_pool rt) * 2 ^ min (cd_consecutive_failures c) 5) duration_max) horizon)) \<and>
    rt_pool rt1 = rt_pool rt \<and> rt_bindings rt1 = rt_bindings rt \<and> rt_affinity rt1 = rt_affinity rt \<and>
    (\<forall>u k. cooling_until u rt1 k =
       (if k = key then (if u < retry_at then Some retry_at else None) else cooling_until u rt k)) \<and>
    (\<forall>b. fst (acquire_ranked now now sid eligible rank rt2) = Selected b \<longrightarrow> pb_key b \<noteq> key) \<and>
    (\<forall>k. k \<noteq> key \<and> (\<forall>t' sid. Ev_Success t' sid k \<notin> set evs) \<and> (\<forall>t'. Ev_Failure t' k \<notin> set evs) \<longrightarrow>
       bm_get (rt_cooldowns rt2) k = bm_get (rt_cooldowns rt) k)"
proof -
  note f = failure_frame [OF assms(2)]
  from f(4) obtain c where c: "bm_get (rt_cooldowns rt) key = Some c"
    and i: "rt_cooldowns rt1 = bm_insert key
        \<lparr>cd_consecutive_failures = u32_saturating_add (cd_consecutive_failures c) 1, cd_retry_at = Some retry_at\<rparr>
        (rt_cooldowns rt)"
    and r: "retry_at = saturating_instant_add horizon t
        (cooldown_duration (lp_failure_cooldown (rt_pool rt)) (u32_saturating_add (cd_consecutive_failures c) 1))"
    by blast
  let ?n = "u32_saturating_add (cd_consecutive_failures c) 1"
  note cooldowns = bm_get_insert [OF runtime_ok_cooldowns [OF assms(1)]]
  have r': "retry_at = min (t + cooldown_duration (lp_failure_cooldown (rt_pool rt)) ?n) horizon"
    unfolding r by (rule saturating_instant_add_eq [OF cooldown_duration_le assms(3)])
  have n: "?n \<le> u32_max" by (simp add: u32_saturating_add_def)
  have ok1: "runtime_ok t rt1" by (rule runtime_ok_failure [OF assms(1,2)])
  have "backed_off (min (t + cooldown_duration (lp_failure_cooldown (rt_pool rt1)) ?n) horizon) ?n key rt1"
    unfolding backed_off_def i f(1) by (simp add: cooldowns r')
  from backed_off_run [OF assms(4) ok1 this assms(5,6) _ n assms(8)] assms(7) f(1) r'
  have b: "backed_off retry_at ?n key rt2" and ok2: "runtime_ok now rt2" by simp_all
  from b assms(9) have cool: "cooling_until now rt2 key \<noteq> None" by (auto simp: backed_off_def cooling_until_def)
  have never: "\<forall>b. fst (acquire_ranked now now sid eligible rank rt2) = Selected b \<longrightarrow> pb_key b \<noteq> key"
    using acquire_selected_available [OF ok2] cool by auto
  have deadline: "cd_consecutive_failures c < u32_max \<longrightarrow>
      retry_at = min (t + min (lp_failure_cooldown (rt_pool rt) * 2 ^ min (cd_consecutive_failures c) 5) duration_max) horizon"
    unfolding r' by (simp add: cooldown_duration_def duration_saturating_mul_def u32_saturating_add_def max_cooldown_exponent_def)
  have own: "bm_get (rt_cooldowns rt1) key =
      Some \<lparr>cd_consecutive_failures = min (cd_consecutive_failures c + 1) u32_max, cd_retry_at = Some retry_at\<rparr>"
    by (simp add: i cooldowns u32_saturating_add_def)
  have cools: "cooling_until u rt1 k = (if k = key then (if u < retry_at then Some retry_at else None) else cooling_until u rt k)" for u k
    by (simp add: cooling_until_def i cooldowns)
  have others: "bm_get (rt_cooldowns rt2) k = bm_get (rt_cooldowns rt) k"
    if "k \<noteq> key" "\<forall>t' sid. Ev_Success t' sid k \<notin> set evs" "\<forall>t'. Ev_Failure t' k \<notin> set evs" for k
    using cooldown_untouched_run [OF assms(4) ok1 assms(6) _ that(2,3)] assms(7) that(1) by (simp add: i cooldowns)
  show ?thesis using c own deadline f(1-3) cools never others by blast
qed

theorem failures_back_off_witness:
  "fst (acquire_ranked 12 12 None (\<lambda>_. True) (\<lambda>_. 0) sample_failed) \<noteq> Selected (sample_binding ''a'')"
proof -
  have "runtime_ok 3 (new_runtime sample_pool)" by (rule sample_runtime_ok)
  from failures_back_off [OF this sample_failure _ pool_run.start, of 12 None "\<lambda>_. True" "\<lambda>_. 0"]
  show ?thesis by (auto simp: sample_binding_def)
qed

text \<open>
  C26. Rotation is fair: as long as the cursor does not wrap, as many consecutive
  acquisitions as there are top-ranked active bindings select each of them once, in a
  rotation of the configured order.
\<close>

theorem rotation_is_fair:
  assumes "runtime_ok now rt" and "top_active now eligible rank rt \<noteq> []"
    and "unat (rt_active_cursor rt) + length (top_active now eligible rank rt) \<le> 2 ^ 64"
  shows "acquire_times (length (top_active now eligible rank rt)) now eligible rank rt =
    map Selected (rotate (unat (rt_active_cursor rt)) (top_active now eligible rank rt))"
  unfolding acquire_times_rotate [OF runtime_ok_cooldowns [OF assms(1)] refl assms(2,3)]
  by (rule nth_equalityI) (simp_all add: nth_rotate add.commute)

theorem rotation_is_fair_witness:
  "acquire_times (Suc (Suc 0)) 5 (\<lambda>_. True) (\<lambda>_. 0) (new_runtime sample_pool) =
     [Selected (sample_binding ''a''), Selected (sample_binding ''b'')]"
proof -
  have t: "top_active 5 (\<lambda>_. True) (\<lambda>_. 0) (new_runtime sample_pool) = [sample_binding ''a'', sample_binding ''b'']"
  proof -
    have "map (\<lambda>b. bk_account (pb_key b)) (top_active 5 (\<lambda>_. True) (\<lambda>_. 0) (new_runtime sample_pool)) = [''a'', ''b'']"
      by code_simp
    moreover have "set (top_active 5 (\<lambda>_. True) (\<lambda>_. 0) (new_runtime sample_pool)) \<subseteq> {sample_binding ''a'', sample_binding ''b''}"
      by (auto simp: top_active_def top_ranked_def new_runtime_def Let_def sample_pool_def sample_slot_def)
    ultimately show ?thesis by (auto simp: map_eq_Cons_conv sample_binding_def)
  qed
  have "rt_active_cursor (new_runtime sample_pool) = 0" by (simp add: new_runtime_def Let_def)
  with rotation_is_fair [OF sample_runtime_ok, of 5 "\<lambda>_. True" "\<lambda>_. 0"] show ?thesis
    by (simp add: t del: acquire_times.simps)
qed

text \<open>
  C34. The deadline search returns for every input, and \<open>saturating_instant_add\<close> is the
  addition of the duration cut at the platform's last instant: the binary search loses nothing.
\<close>

theorem saturating_instant_add_exact:
  assumes "d \<le> duration_max" and "now \<le> horizon"
  shows "saturating_instant_add horizon now d = min (now + d) horizon"
  by (rule saturating_instant_add_eq [OF assms])

theorem saturating_instant_add_exact_witness: "saturating_instant_add 100 90 50 = 100"
  using saturating_instant_add_exact [of 50 90 100] by (simp add: duration_max_def nanos_per_sec_def)

end
