(* ===== verification/Pipeline.thy ===== *)
theory Pipeline
  imports Provider_Core Route_Plan
begin

text \<open>
  The six-stage request pipeline and its retry loop (crates/requests/src/pipeline/mod.rs,
  error.rs, config.rs, stages.rs; the event types of crates/core/src/request_event/stage.rs).

  A stage is a trait object of the profile: here a function of a profile record from the
  context, its inputs and a world to an outcome and a world. The world is a type parameter; the
  pools, the clock and the network are in it. A stage may also be cancelled, when the caller
  drops the future: the drop guard of the attempt then emits its events. Events are the list
  of what the attempt puts on the bus; the summaries they carry are left out, errors are carried
  whole instead of their rendering.
\<close>

section \<open>Endpoints and errors\<close>

datatype request_endpoint = Known endpoint | Custom_Path string

fun request_endpoint_str :: "request_endpoint \<Rightarrow> string" where
  "request_endpoint_str (Known e) = endpoint_str e"
| "request_endpoint_str (Custom_Path label) = label"

definition infer_from_path :: "string \<Rightarrow> request_endpoint" where
  "infer_from_path p = (case infer_from p of Some e \<Rightarrow> Known e | None \<Rightarrow> Custom_Path p)"

fun resolved_of :: "request_endpoint \<Rightarrow> endpoint option" where
  "resolved_of (Known e) = Some e"
| "resolved_of (Custom_Path _) = None"

datatype stage =
    Extract_Stage | Resolve_Stage | Build_Headers_Stage | Convert_Request_Stage | Send_Stage
  | Convert_Response_Stage

text \<open>Errors of foreign code are kept as their text.\<close>

datatype requests_error =
    Route_Resolution_Error string
  | Session_Expired string
  | No_Account endpoint string
  | No_Provider_Account string
  | Provider_Access_Denied
  | Invalid_Access_Policy
  | Invalid_Route_Request string
  | Invalid_Configured_Endpoint string string
  | Missing_Resolved_Endpoint string
  | Missing_Upstream_Endpoint string
  | Request_Conversion string
  | Invalid_Generation_Options string
  | Unsupported_Generation_Control string string endpoint string
  | Provider_Input_Transformer string
  | Serialize_Upstream_Body string
  | Reencode_Outbound_Body string
  | Upstream_Body_Not_Json string
  | Response_Conversion string
  | Serialize_Translated_Response string
  | Upstream_Read_Failed nat string
  | Upstream_Status nat string
  | Reading_Upstream_Body string
  | Provider_Failure string
  | Stop_Requested
  | Other_Error string

record pipeline_error =
  pe_stage :: stage
  pe_inner :: requests_error
  pe_recoverable :: bool
  pe_stop :: bool

definition permanent :: "stage \<Rightarrow> requests_error \<Rightarrow> pipeline_error" where
  "permanent st e = \<lparr>pe_stage = st, pe_inner = e, pe_recoverable = False, pe_stop = False\<rparr>"

definition recoverable :: "stage \<Rightarrow> requests_error \<Rightarrow> pipeline_error" where
  "recoverable st e = \<lparr>pe_stage = st, pe_inner = e, pe_recoverable = True, pe_stop = False\<rparr>"

definition stop_error :: "stage \<Rightarrow> pipeline_error" where
  "stop_error st = \<lparr>pe_stage = st, pe_inner = Stop_Requested, pe_recoverable = False, pe_stop = True\<rparr>"

section \<open>Run configuration and context\<close>

record 'g run_config =
  rc_inner :: "(string, json) bmap"
  rc_agent_id :: "string option"
  rc_generation_options :: "'g option"
  rc_request_method :: "string option"

definition config_get :: "'g run_config \<Rightarrow> string \<Rightarrow> json option" where
  "config_get c key = bm_get (rc_inner c) key"

definition config_get_str :: "'g run_config \<Rightarrow> string \<Rightarrow> string option" where
  "config_get_str c key = Option.bind (bm_get (rc_inner c) key) json_str"

definition with_str :: "string \<Rightarrow> string \<Rightarrow> 'g run_config \<Rightarrow> 'g run_config" where
  "with_str key value c = c\<lparr>rc_inner := bm_insert key (J_String value) (rc_inner c)\<rparr>"

record 'g pipeline_ctx =
  cx_request_id :: string
  cx_attempt :: nat
  cx_request_endpoint :: request_endpoint
  cx_config :: "'g run_config"

datatype resolved_route =
    Route_Operation endpoint endpoint
  | Provider_Traffic provider_request_kind

fun route_resolved_endpoint :: "resolved_route \<Rightarrow> endpoint option" where
  "route_resolved_endpoint (Route_Operation resolved upstream) = Some resolved"
| "route_resolved_endpoint (Provider_Traffic _) = None"

fun route_upstream_endpoint :: "resolved_route \<Rightarrow> endpoint option" where
  "route_upstream_endpoint (Route_Operation resolved upstream) = Some upstream"
| "route_upstream_endpoint (Provider_Traffic _) = None"

fun provider_request_kind_of :: "resolved_route \<Rightarrow> provider_request_kind" where
  "provider_request_kind_of (Route_Operation resolved upstream) = Operation upstream"
| "provider_request_kind_of (Provider_Traffic kind) = kind"

section \<open>Retry policy\<close>

datatype replay_safety = Replay_Buffered | Replay_Safe_Methods

record retry_policy =
  ry_max_retries :: nat
  ry_initial_backoff :: duration
  ry_replay_safety :: replay_safety

definition default_retry_policy :: retry_policy where
  "default_retry_policy = \<lparr>ry_max_retries = 0, ry_initial_backoff = 0, ry_replay_safety = Replay_Buffered\<rparr>"

definition new_retry_policy :: "nat \<Rightarrow> duration \<Rightarrow> retry_policy" where
  "new_retry_policy max_retries initial_backoff =
     \<lparr>ry_max_retries = max_retries, ry_initial_backoff = initial_backoff, ry_replay_safety = Replay_Buffered\<rparr>"

definition safe_methods :: "nat \<Rightarrow> duration \<Rightarrow> retry_policy" where
  "safe_methods max_retries initial_backoff =
     \<lparr>ry_max_retries = max_retries, ry_initial_backoff = initial_backoff, ry_replay_safety = Replay_Safe_Methods\<rparr>"

definition request_is_replayable :: "retry_policy \<Rightarrow> 'g run_config \<Rightarrow> bool" where
  "request_is_replayable p c =
     (case ry_replay_safety p of
        Replay_Buffered \<Rightarrow> True
      | Replay_Safe_Methods \<Rightarrow>
          (case rc_request_method c of
             None \<Rightarrow> False
           | Some m \<Rightarrow> m = ''GET'' \<or> m = ''HEAD'' \<or> m = ''OPTIONS'' \<or> m = ''TRACE''))"

definition should_retry :: "retry_policy \<Rightarrow> nat \<Rightarrow> pipeline_error \<Rightarrow> 'g run_config \<Rightarrow> bool" where
  "should_retry p attempt err c \<longleftrightarrow>
     attempt < ry_max_retries p \<and> pe_stage err = Send_Stage \<and> pe_recoverable err \<and> \<not> pe_stop err
     \<and> request_is_replayable p c"

text \<open>\<open>1u32.checked_shl (attempt.min 31)\<close> never overflows, so its default is dead.\<close>

definition backoff_for :: "retry_policy \<Rightarrow> nat \<Rightarrow> duration" where
  "backoff_for p attempt =
     (if ry_initial_backoff p = 0 then 0
      else duration_saturating_mul (ry_initial_backoff p) (2 ^ min attempt 31))"

section \<open>One attempt\<close>

datatype 'a outcome = Done 'a | Failed pipeline_error | Cancelled

datatype stage_event =
    Ev_Started request_endpoint
  | Ev_Stage stage
  | Ev_Error stage "requests_error option" bool bool
  | Ev_Completed bool nat
  | Ev_Converted_Body

datatype body_kind = Buffered_Body | Stream_Body

record 'o converted_response =
  cv_kind :: body_kind
  cv_rest :: 'o

record ('w, 'g, 'raw, 'x, 'r, 'h, 'c, 's, 'o) profile =
  pf_extract :: "'g pipeline_ctx \<Rightarrow> 'raw \<Rightarrow> 'w \<Rightarrow> 'x outcome \<times> 'w"
  pf_resolve :: "'g pipeline_ctx \<Rightarrow> 'x \<Rightarrow> 'w \<Rightarrow> 'r outcome \<times> 'w"
  pf_build_headers :: "'g pipeline_ctx \<Rightarrow> 'x \<Rightarrow> 'r \<Rightarrow> 'w \<Rightarrow> 'h outcome \<times> 'w"
  pf_convert_request :: "'g pipeline_ctx \<Rightarrow> 'x \<Rightarrow> 'r \<Rightarrow> 'w \<Rightarrow> 'c outcome \<times> 'w"
  pf_send :: "'g pipeline_ctx \<Rightarrow> 'x \<Rightarrow> 'r \<Rightarrow> 'h \<Rightarrow> 'c \<Rightarrow> 'w \<Rightarrow> 's outcome \<times> 'w"
  pf_convert_response :: "'g pipeline_ctx \<Rightarrow> 's \<Rightarrow> 'w \<Rightarrow> 'o converted_response outcome \<times> 'w"

definition fail_events :: "'g pipeline_ctx \<Rightarrow> pipeline_error \<Rightarrow> stage_event list" where
  "fail_events ctx err =
     [Ev_Error (pe_stage err) (Some (pe_inner err)) (pe_recoverable err) (pe_stop err),
      Ev_Completed False (cx_attempt ctx + 1)]"

text \<open>What the drop guard emits; its error has no cause but the cancellation.\<close>

definition guard_events :: "'g pipeline_ctx \<Rightarrow> stage \<Rightarrow> stage_event list" where
  "guard_events ctx st = [Ev_Error st None False False, Ev_Completed False (cx_attempt ctx + 1)]"

text \<open>One stage of an attempt, with the rest of the attempt as its continuation.\<close>

definition run_stage ::
  "'g pipeline_ctx \<Rightarrow> stage \<Rightarrow> ('w \<Rightarrow> 'a outcome \<times> 'w) \<Rightarrow>
   ('a \<Rightarrow> 'w \<Rightarrow> 'b outcome \<times> stage_event list \<times> 'w) \<Rightarrow> 'w \<Rightarrow> 'b outcome \<times> stage_event list \<times> 'w" where
  "run_stage ctx st f k w =
     (case f w of
        (Done a, w') \<Rightarrow> (let (r, evs, w'') = k a w' in (r, Ev_Stage st # evs, w''))
      | (Failed err, w') \<Rightarrow> (Failed err, fail_events ctx err, w')
      | (Cancelled, w') \<Rightarrow> (Cancelled, guard_events ctx st, w'))"

definition finish_attempt ::
  "'g pipeline_ctx \<Rightarrow> 'o converted_response \<Rightarrow> 'w \<Rightarrow> 'o converted_response outcome \<times> stage_event list \<times> 'w" where
  "finish_attempt ctx response w =
     (case cv_kind response of
        Buffered_Body \<Rightarrow> (Done response, [Ev_Converted_Body, Ev_Completed True (cx_attempt ctx + 1)], w)
      | Stream_Body \<Rightarrow> (Done response, [], w))"

definition run_attempt ::
  "('w, 'g, 'raw, 'x, 'r, 'h, 'c, 's, 'o) profile \<Rightarrow> string \<Rightarrow> request_endpoint \<Rightarrow> 'raw \<Rightarrow> 'g run_config \<Rightarrow> nat \<Rightarrow>
   'w \<Rightarrow> 'o converted_response outcome \<times> stage_event list \<times> 'w" where
  "run_attempt profile request_id request_endpoint raw config attempt w =
     (let ctx = \<lparr>cx_request_id = request_id, cx_attempt = attempt, cx_request_endpoint = request_endpoint,
                 cx_config = config\<rparr>;
          (r, evs, w') =
            run_stage ctx Extract_Stage (pf_extract profile ctx raw) (\<lambda>extracted.
            run_stage ctx Resolve_Stage (pf_resolve profile ctx extracted) (\<lambda>resolved.
            run_stage ctx Build_Headers_Stage (pf_build_headers profile ctx extracted resolved) (\<lambda>headers.
            run_stage ctx Convert_Request_Stage (pf_convert_request profile ctx extracted resolved) (\<lambda>converted.
            run_stage ctx Send_Stage (pf_send profile ctx extracted resolved headers converted) (\<lambda>sent.
            run_stage ctx Convert_Response_Stage (pf_convert_response profile ctx sent) (finish_attempt ctx)))))) w
      in (r, Ev_Started request_endpoint # evs, w'))"

section \<open>The retry loop\<close>

text \<open>
  \<open>sleep\<close> waits in the world and tells whether the caller cancelled the wait. The loop ends because
  it only goes round while the attempt is below the policy's limit.
\<close>

function run_from ::
  "(duration \<Rightarrow> 'w \<Rightarrow> bool \<times> 'w) \<Rightarrow> ('w, 'g, 'raw, 'x, 'r, 'h, 'c, 's, 'o) profile \<Rightarrow> retry_policy \<Rightarrow>
   string \<Rightarrow> request_endpoint \<Rightarrow> 'raw \<Rightarrow> 'g run_config \<Rightarrow> nat \<Rightarrow> 'w \<Rightarrow>
   'o converted_response outcome \<times> stage_event list \<times> 'w" where
  "run_from sleep profile policy request_id request_endpoint raw config attempt w =
     (case run_attempt profile request_id request_endpoint raw config attempt w of
        (Failed err, evs, w') \<Rightarrow>
          (if should_retry policy attempt err config then
             (let backoff = backoff_for policy attempt;
                  (cancelled, w'') = (if backoff \<noteq> 0 then sleep backoff w' else (False, w'))
              in if cancelled then (Cancelled, evs, w'')
                 else
                   let (r, evs2, w3) =
                     run_from sleep profile policy request_id request_endpoint raw config (attempt + 1) w''
                   in (r, evs @ evs2, w3))
           else (Failed err, evs, w'))
      | other \<Rightarrow> other)"
  by pat_completeness auto
termination
  by (relation "measure (\<lambda>(sleep, profile, policy, rid, ep, raw, config, attempt, w). ry_max_retries policy - attempt)")
    (auto simp: should_retry_def)

declare run_from.simps [simp del]

definition run_with ::
  "(duration \<Rightarrow> 'w \<Rightarrow> bool \<times> 'w) \<Rightarrow> ('w, 'g, 'raw, 'x, 'r, 'h, 'c, 's, 'o) profile \<Rightarrow> retry_policy \<Rightarrow>
   string \<Rightarrow> request_endpoint \<Rightarrow> 'raw \<Rightarrow> 'g run_config \<Rightarrow> 'w \<Rightarrow>
   'o converted_response outcome \<times> stage_event list \<times> 'w" where
  "run_with sleep profile policy request_id request_endpoint raw config w =
     run_from sleep profile policy request_id request_endpoint raw config 0 w"

section \<open>Traces\<close>

definition all_stages :: "stage list" where
  "all_stages =
     [Extract_Stage, Resolve_Stage, Build_Headers_Stage, Convert_Request_Stage, Send_Stage, Convert_Response_Stage]"

text \<open>How an attempt may end after its first \<open>k\<close> stages.\<close>

inductive attempt_end ::
  "nat \<Rightarrow> nat \<Rightarrow> 'o converted_response outcome \<Rightarrow> stage_event list \<Rightarrow> bool" for n :: nat where
  buffered: "cv_kind response = Buffered_Body \<Longrightarrow>
     attempt_end n 6 (Done response) [Ev_Converted_Body, Ev_Completed True (n + 1)]"
| streamed: "cv_kind response = Stream_Body \<Longrightarrow> attempt_end n 6 (Done response) []"
| failed: "k < 6 \<Longrightarrow>
     attempt_end n k (Failed err)
       [Ev_Error (pe_stage err) (Some (pe_inner err)) (pe_recoverable err) (pe_stop err), Ev_Completed False (n + 1)]"
| cancelled: "k < 6 \<Longrightarrow>
     attempt_end n k Cancelled [Ev_Error (all_stages ! k) None False False, Ev_Completed False (n + 1)]"

definition attempt_trace ::
  "request_endpoint \<Rightarrow> nat \<Rightarrow> 'o converted_response outcome \<Rightarrow> stage_event list \<Rightarrow> bool" where
  "attempt_trace ep n r evs \<longleftrightarrow>
     (\<exists>k tail. evs = Ev_Started ep # map Ev_Stage (take k all_stages) @ tail \<and> attempt_end n k r tail)"

inductive run_trace ::
  "retry_policy \<Rightarrow> 'g run_config \<Rightarrow> request_endpoint \<Rightarrow> nat \<Rightarrow> 'o converted_response outcome \<Rightarrow> stage_event list \<Rightarrow> bool"
  for policy config ep where
  final: "attempt_trace ep n r evs \<Longrightarrow> (\<And>err. r = Failed err \<Longrightarrow> \<not> should_retry policy n err config) \<Longrightarrow>
     run_trace policy config ep n r evs"
| retried: "attempt_trace ep n (Failed err :: 'o converted_response outcome) evs \<Longrightarrow> should_retry policy n err config \<Longrightarrow>
     run_trace policy config ep (n + 1) r evs2 \<Longrightarrow> run_trace policy config ep n r (evs @ evs2)"
| interrupted: "attempt_trace ep n (Failed err :: 'o converted_response outcome) evs \<Longrightarrow> should_retry policy n err config \<Longrightarrow>
     backoff_for policy n \<noteq> 0 \<Longrightarrow> run_trace policy config ep n (Cancelled :: 'o converted_response outcome) evs"

lemma run_stage_ends:
  assumes "run_stage ctx st f k w = (r, evs, w')" and "n = cx_attempt ctx" and "i < 6" and "all_stages ! i = st"
    and "\<And>a w1 r evs w2. k a w1 = (r, evs, w2) \<Longrightarrow>
      \<exists>m tail. Suc i \<le> m \<and> evs = map Ev_Stage (drop (Suc i) (take m all_stages)) @ tail \<and> attempt_end n m r tail"
  shows "\<exists>m tail. i \<le> m \<and> evs = map Ev_Stage (drop i (take m all_stages)) @ tail \<and> attempt_end n m r tail"
proof (cases "f w")
  case (Pair out w1)
  show ?thesis
  proof (cases out)
    case (Done a)
    obtain r2 evs2 w2 where k: "k a w1 = (r2, evs2, w2)" by (metis prod_cases3)
    with assms(1) Pair Done have e: "evs = Ev_Stage st # evs2" "r = r2" by (auto simp: run_stage_def)
    from assms(5) [OF k] obtain m tail where m: "Suc i \<le> m"
      "evs2 = map Ev_Stage (drop (Suc i) (take m all_stages)) @ tail" "attempt_end n m r2 tail"
      by blast
    have "i < length (take m all_stages)" using m(1) assms(3) by (simp add: all_stages_def)
    then have "drop i (take m all_stages) = st # drop (Suc i) (take m all_stages)"
      using m(1) assms(4) by (metis Cons_nth_drop_Suc Suc_le_eq nth_take)
    with e m show ?thesis by (intro exI [of _ m] exI [of _ tail]) simp
  next
    case (Failed err)
    with assms(1,2) Pair show ?thesis
      using attempt_end.failed [OF assms(3), of "cx_attempt ctx" err]
      by (intro exI [of _ i]) (auto simp: run_stage_def fail_events_def)
  next
    case Cancelled
    with assms(1,2) Pair show ?thesis
      using attempt_end.cancelled [OF assms(3), of "cx_attempt ctx"] assms(4)
      by (intro exI [of _ i]) (auto simp: run_stage_def guard_events_def)
  qed
qed

lemma finish_attempt_ends:
  "finish_attempt ctx a w = (r, evs, w') \<Longrightarrow> n = cx_attempt ctx \<Longrightarrow>
   \<exists>m tail. 6 \<le> m \<and> evs = map Ev_Stage (drop 6 (take m all_stages)) @ tail \<and> attempt_end n m r tail"
  by (intro exI [of _ 6] exI [of _ evs])
    (auto simp: finish_attempt_def all_stages_def intro: attempt_end.streamed attempt_end.buffered [simplified]
      split: body_kind.splits)

lemma run_attempt_trace:
  assumes "run_attempt profile rid ep raw config n w = (r, evs, w')"
  shows "attempt_trace ep n r evs"
proof -
  define ctx where "ctx = \<lparr>cx_request_id = rid, cx_attempt = n, cx_request_endpoint = ep, cx_config = config\<rparr>"
  have n: "n = cx_attempt ctx" by (simp add: ctx_def)
  note stage = run_stage_ends [OF _ n]
  have st: "all_stages ! 0 = Extract_Stage" "all_stages ! Suc 0 = Resolve_Stage" "all_stages ! Suc (Suc 0) = Build_Headers_Stage"
    "all_stages ! Suc (Suc (Suc 0)) = Convert_Request_Stage" "all_stages ! Suc (Suc (Suc (Suc 0))) = Send_Stage"
    "all_stages ! Suc (Suc (Suc (Suc (Suc 0)))) = Convert_Response_Stage"
    by (simp_all add: all_stages_def)
  have last: "\<exists>m tail. Suc (Suc (Suc (Suc (Suc (Suc 0))))) \<le> m \<and>
      evs = map Ev_Stage (drop (Suc (Suc (Suc (Suc (Suc (Suc 0)))))) (take m all_stages)) @ tail \<and> attempt_end n m r tail"
    if "finish_attempt ctx a w = (r, evs, w')" for a w r evs w'
    using finish_attempt_ends [OF that n] by (simp add: eval_nat_numeral)
  obtain evs' where run: "run_stage ctx Extract_Stage (pf_extract profile ctx raw) (\<lambda>extracted.
            run_stage ctx Resolve_Stage (pf_resolve profile ctx extracted) (\<lambda>resolved.
            run_stage ctx Build_Headers_Stage (pf_build_headers profile ctx extracted resolved) (\<lambda>headers.
            run_stage ctx Convert_Request_Stage (pf_convert_request profile ctx extracted resolved) (\<lambda>converted.
            run_stage ctx Send_Stage (pf_send profile ctx extracted resolved headers converted) (\<lambda>sent.
            run_stage ctx Convert_Response_Stage (pf_convert_response profile ctx sent) (finish_attempt ctx)))))) w = (r, evs', w')"
    and evs: "evs = Ev_Started ep # evs'"
    using assms by (auto simp: run_attempt_def ctx_def Let_def split: prod.splits)
  have "\<exists>m tail. 0 \<le> m \<and> evs' = map Ev_Stage (drop 0 (take m all_stages)) @ tail \<and> attempt_end n m r tail"
    by (rule stage [OF run _ st(1)], simp, erule stage [OF _ _ st(2)], simp, erule stage [OF _ _ st(3)], simp,
        erule stage [OF _ _ st(4)], simp, erule stage [OF _ _ st(5)], simp, erule stage [OF _ _ st(6)], simp, erule last)
  with evs show ?thesis by (auto simp: attempt_trace_def)
qed

lemma run_from_trace:
  "run_from sleep profile policy rid ep raw config n w = (r, evs, w') \<Longrightarrow> run_trace policy config ep n r evs"
proof (induction sleep profile policy rid ep raw config n w arbitrary: r evs w' rule: run_from.induct)
  case (1 sleep profile policy rid ep raw config n w)
  obtain r1 evs1 w1 where a: "run_attempt profile rid ep raw config n w = (r1, evs1, w1)" by (metis prod_cases3)
  note tr = run_attempt_trace [OF a]
  show ?case
  proof (cases "\<exists>err. r1 = Failed err \<and> should_retry policy n err config")
    case False
    then have "run_from sleep profile policy rid ep raw config n w = (r1, evs1, w1)"
      using a by (subst run_from.simps) (auto split: outcome.split)
    with 1(2) have e: "r = r1" "evs = evs1" by simp_all
    show ?thesis unfolding e by (rule run_trace.final [OF tr]) (use False in auto)
  next
    case True
    then obtain err where err: "r1 = Failed err" "should_retry policy n err config" by blast
    obtain c w2 where c: "(if backoff_for policy n \<noteq> 0 then sleep (backoff_for policy n) w1 else (False, w1)) = (c, w2)"
      by fastforce
    show ?thesis
    proof (cases c)
      case True
      then have "backoff_for policy n \<noteq> 0" using c by (auto split: if_splits)
      moreover have "run_from sleep profile policy rid ep raw config n w = (Cancelled, evs1, w2)"
        using a err c True by (subst run_from.simps) (simp add: Let_def)
      ultimately show ?thesis using 1(2) run_trace.interrupted [OF tr [unfolded err] err(2)] by simp
    next
      case False
      obtain r2 evs2 w3 where r2: "run_from sleep profile policy rid ep raw config (n + 1) w2 = (r2, evs2, w3)"
        by (metis prod_cases3)
      have eq: "run_from sleep profile policy rid ep raw config n w = (r2, evs1 @ evs2, w3)"
        using a err c False r2 by (subst run_from.simps) (simp add: Let_def)
      have "run_trace policy config ep (n + 1) r2 evs2"
        by (rule 1(1) [OF a [symmetric, unfolded err(1)] refl refl err(2) refl c [symmetric] refl _ r2]) (use False in auto)
      with eq 1(2) run_trace.retried [OF tr [unfolded err] err(2)] show ?thesis by simp
    qed
  qed
qed

section \<open>Counting\<close>

definition started :: "stage_event list \<Rightarrow> nat" where
  "started evs = length (filter (\<lambda>e. case e of Ev_Started _ \<Rightarrow> True | _ \<Rightarrow> False) evs)"

definition completed :: "stage_event list \<Rightarrow> nat list" where
  "completed evs = filter_map (\<lambda>e. case e of Ev_Completed _ n \<Rightarrow> Some n | _ \<Rightarrow> None) evs"

definition sent_times :: "stage_event list \<Rightarrow> nat" where
  "sent_times evs = length (filter (\<lambda>e. e = Ev_Stage Send_Stage) evs)"

definition streamed_result :: "'o converted_response outcome \<Rightarrow> bool" where
  "streamed_result r \<longleftrightarrow> (case r of Done response \<Rightarrow> cv_kind response = Stream_Body | _ \<Rightarrow> False)"

lemma counts_append:
  "started (xs @ ys) = started xs + started ys" "completed (xs @ ys) = completed xs @ completed ys"
  by (simp_all add: started_def completed_def)

lemma counts_stages: "started (map Ev_Stage sts) = 0" "completed (map Ev_Stage sts) = []"
  by (induction sts) (auto simp: started_def completed_def)

lemma attempt_counts:
  assumes "attempt_trace ep n r evs"
  shows "started evs = 1" and "completed evs = (if streamed_result r then [] else [n + 1])"
proof -
  from assms obtain k tail where e: "evs = Ev_Started ep # map Ev_Stage (take k all_stages) @ tail"
    and t: "attempt_end n k r tail" by (auto simp: attempt_trace_def)
  from t have "started tail = 0 \<and> completed tail = (if streamed_result r then [] else [n + 1])"
    by (cases rule: attempt_end.cases) (simp_all add: started_def completed_def streamed_result_def)
  then show "started evs = 1" and "completed evs = (if streamed_result r then [] else [n + 1])"
    using counts_append [of "map Ev_Stage (take k all_stages)" tail] counts_stages [of "take k all_stages"]
    by (simp_all add: e started_def completed_def)
qed

lemma run_trace_counts:
  "run_trace policy config ep n r evs \<Longrightarrow>
     1 \<le> started evs \<and> started evs \<le> Suc (ry_max_retries policy - n) \<and>
     (started evs = 1 \<or> request_is_replayable policy config) \<and>
     completed evs = map Suc [n ..< n + started evs - (if streamed_result r then 1 else 0)]"
proof (induction rule: run_trace.induct)
  case (final n r evs)
  then show ?case using attempt_counts [OF final(1)] by simp
next
  case (retried n err evs r evs2)
  from retried.hyps(2) have lt: "n < ry_max_retries policy" and rep: "request_is_replayable policy config"
    by (simp_all add: should_retry_def)
  have "completed evs = [n + 1]" "started evs = 1"
    using attempt_counts [OF retried.hyps(1)] by (simp_all add: streamed_result_def)
  then show ?case using retried.IH lt rep
    by (auto simp: counts_append upt_conv_Cons Suc_diff_Suc)
next
  case (interrupted n err evs)
  then show ?case using attempt_counts [OF interrupted.hyps(1)] by (simp add: streamed_result_def)
qed

section \<open>Properties\<close>

text \<open>
  C20. Whatever the stages and the caller's cancellations do, a run returns, and its events are a
  sequence of attempts: each starts once, reports the stages it completed in order and ends with a
  converted body and a success, with nothing (a stream handed off), or with one error and one
  failure; every attempt but the last failed with a recoverable error of the send stage
  within the retry limit, and a last failure was not retryable.
\<close>

theorem run_events_are_attempts:
  "case run_with sleep profile policy rid ep raw config w of
     (r, evs, _) \<Rightarrow> run_trace policy config ep 0 r evs"
  using run_from_trace unfolding run_with_def by (cases "run_from sleep profile policy rid ep raw config 0 w") auto

text \<open>
  C21. A run makes at most \<open>max_retries + 1\<close> attempts, exactly one when the request must not be
  replayed, and completes each attempt exactly once, numbered in order; only the
  completion of an attempt that handed off a stream is left to the stream.
\<close>

theorem run_attempts_bounded:
  "case run_with sleep profile policy rid ep raw config w of
     (r, evs, _) \<Rightarrow>
       started evs \<le> ry_max_retries policy + 1 \<and>
       (started evs = 1 \<or> request_is_replayable policy config) \<and>
       completed evs = map Suc [0 ..< started evs - (if streamed_result r then 1 else 0)]"
proof (cases "run_with sleep profile policy rid ep raw config w")
  case (fields r evs w')
  then have "run_trace policy config ep 0 r evs" unfolding run_with_def by (rule run_from_trace)
  from run_trace_counts [OF this] show ?thesis by (simp add: fields)
qed

end
