(* ===== verification/Selector.thy ===== *)
theory Selector
  imports Pool_Runtime Pipeline Std_Str Identifiers
begin

text \<open>
  Account selection of the v2 router (crates/router/src/v2/selector.rs) and the resolve stage
  that turns its outcome into a resolved request (crates/requests/src/stages/resolve/stage.rs).

  A selector works on one pool runtime; its state is that runtime. One selection may ask the
  runtime several times: \<open>clock k\<close> is the instant of its \<open>k\<close>-th acquisition. The account handle
  a request carries to the send stage is an \<open>Arc\<close> compared by address: either the one the
  linker created for a binding, named by the binding's key, or a fresh stub. Drivers are the
  provider objects of \<open>Provider_Core\<close>, whose contract \<open>capability\<close> the selection relies on.
\<close>

section \<open>Outcomes\<close>

record extracted =
  ex_agent_id :: "string option"
  ex_model :: string
  ex_session_id :: "string option"
  ex_route_mode_hint :: "string option"

datatype account_ref = Linked_Handle binding_key | Stub_Handle string string

record resolved =
  rs_agent_id :: "string option"
  rs_model :: string
  rs_upstream_model :: string
  rs_route :: resolved_route
  rs_account_id :: string
  rs_provider_id :: string
  rs_account_handle :: account_ref

datatype selector_outcome =
    Outcome_Selected (so_account_id: string) (so_provider_id: string) (so_upstream_endpoint: "endpoint option")
      (so_upstream_model: string) (so_handle: account_ref)
  | Outcome_Session_Expired string
  | Outcome_No_Account
  | Outcome_Access_Denied

definition missing_resolved_endpoint :: "request_endpoint \<Rightarrow> pipeline_error" where
  "missing_resolved_endpoint ep =
     permanent Resolve_Stage (Missing_Resolved_Endpoint (request_endpoint_str ep))"

definition resolved_endpoint :: "'g pipeline_ctx \<Rightarrow> pipeline_error + endpoint" where
  "resolved_endpoint ctx =
     ok_or (missing_resolved_endpoint (cx_request_endpoint ctx)) (resolved_of (cx_request_endpoint ctx))"

definition pool_resolve ::
  "'g pipeline_ctx \<Rightarrow> extracted \<Rightarrow> selector_outcome \<Rightarrow> pipeline_error + resolved" where
  "pool_resolve ctx extracted outcome =
     (case outcome of
        Outcome_Selected account_id provider_id upstream_endpoint upstream_model handle \<Rightarrow>
          res_map (\<lambda>e.
            \<lparr>rs_agent_id = ex_agent_id extracted, rs_model = ex_model extracted, rs_upstream_model = upstream_model,
             rs_route = Route_Operation e (case upstream_endpoint of None \<Rightarrow> e | Some u \<Rightarrow> u),
             rs_account_id = account_id, rs_provider_id = provider_id, rs_account_handle = handle\<rparr>)
            (resolved_endpoint ctx)
      | Outcome_Session_Expired s \<Rightarrow> Inl (permanent Resolve_Stage (Session_Expired s))
      | Outcome_No_Account \<Rightarrow>
          res_bind (resolved_endpoint ctx) (\<lambda>e. Inl (permanent Resolve_Stage (No_Account e (ex_model extracted))))
      | Outcome_Access_Denied \<Rightarrow> Inl (permanent Resolve_Stage Provider_Access_Denied))"

section \<open>Access\<close>

definition access_allowed_providers_key :: string where
  "access_allowed_providers_key = ''access.allowed_providers''"

definition v2_proxy_origin_key :: string where
  "v2_proxy_origin_key = ''v2.proxy.origin''"

definition proxy_path_key :: string where
  "proxy_path_key = ''proxy.path''"

definition provider_allowed :: "string \<Rightarrow> string bset option \<Rightarrow> bool" where
  "provider_allowed provider_id allowed =
     (case allowed of None \<Rightarrow> True | Some providers \<Rightarrow> bs_contains providers provider_id)"

definition allowed_provider_ids :: "'g pipeline_ctx \<Rightarrow> pipeline_error + string bset option" where
  "allowed_provider_ids ctx =
     (let invalid = permanent Resolve_Stage Invalid_Access_Policy in
      case config_get (cx_config ctx) access_allowed_providers_key of
        None \<Rightarrow> Inr None
      | Some value \<Rightarrow>
          (case json_array value of
             None \<Rightarrow> Inl invalid
           | Some values \<Rightarrow>
               ok_or invalid (map_option (\<lambda>ids. Some (bs_of_list ids)) (all_some (map json_str values)))))"

definition invalid_route_request :: "string \<Rightarrow> pipeline_error" where
  "invalid_route_request message = permanent Resolve_Stage (Invalid_Route_Request message)"

section \<open>Candidates\<close>

datatype discovery_evidence = Evidence_Required | Evidence_Preferred | Evidence_Ignored

fun evidence_order :: "discovery_evidence \<Rightarrow> discovery_evidence list" where
  "evidence_order Evidence_Required = [Evidence_Required]"
| "evidence_order Evidence_Preferred = [Evidence_Required, Evidence_Ignored]"
| "evidence_order Evidence_Ignored = [Evidence_Ignored]"

datatype provider_constraint = Any_Binding | Of_Driver string | Of_Provider string

fun constraint_matches :: "provider_constraint \<Rightarrow> 'p provider_binding \<Rightarrow> bool" where
  "constraint_matches Any_Binding b = True"
| "constraint_matches (Of_Driver driver) b = (pb_driver_id b = driver)"
| "constraint_matches (Of_Provider p) b = (bk_provider (pb_key b) = p)"

record model_candidate =
  mc_model :: string
  mc_constraint :: provider_constraint
  mc_evidence :: discovery_evidence

fun qualification_name :: "qualification_namespace \<Rightarrow> string" where
  "qualification_name Driver_Namespace = ''driver''"
| "qualification_name Provider_Namespace = ''provider''"

definition builtin_operation_order :: "endpoint list" where
  "builtin_operation_order = [Chat_Completions, Responses, Messages]"

definition operation_candidates :: "operation_policy \<Rightarrow> endpoint \<Rightarrow> endpoint list" where
  "operation_candidates policy requested =
     (if policy = Preserve then [requested]
      else requested # filter (\<lambda>e. e \<noteq> requested) builtin_operation_order)"

text \<open>The quoted texts of \<open>Display for InvalidIdentifier\<close> and of the errors below.\<close>

definition quoted :: "string \<Rightarrow> string" where
  "quoted t = [CHR 0x27] @ t @ [CHR 0x27]"

definition invalid_identifier_text :: "invalid_identifier \<Rightarrow> string" where
  "invalid_identifier_text e =
     ''invalid '' @ ii_kind e @ '' identifier '' @ quoted (ii_value e) @
     '': expected lowercase ASCII letters or digits, optionally separated by '' @
     quoted ''.'' @ '', '' @ quoted ''-'' @ '' or '' @ quoted ''_''"

definition concrete_candidate :: "bool \<Rightarrow> string \<Rightarrow> model_candidate" where
  "concrete_candidate fixed_provider model =
     \<lparr>mc_model = model, mc_constraint = Any_Binding,
      mc_evidence = (if fixed_provider then Evidence_Ignored else Evidence_Preferred)\<rparr>"

definition model_candidates ::
  "managed_route \<Rightarrow> string \<Rightarrow> pipeline_error + model_candidate list" where
  "model_candidates route requested_model =
     (let fixed_provider = (case mt_provider (mr_target route) of Fixed_Provider _ \<Rightarrow> True | Any_Provider \<Rightarrow> False) in
      case mt_model (mr_target route) of
        Capability \<Rightarrow> Inr [concrete_candidate fixed_provider requested_model]
      | Qualified namespace \<Rightarrow>
          (case split_once CHR ''/'' requested_model of
             None \<Rightarrow> Inl (invalid_route_request (qualification_name namespace @
                 ''-qualified model must use '' @ quoted ''<qualifier>/<model>''))
           | Some (qualifier, model) \<Rightarrow>
               if model = [] \<or> str_trim model \<noteq> model
               then Inl (invalid_route_request ''qualified model name is empty or non-canonical'')
               else
                 res_map (\<lambda>c. [\<lparr>mc_model = model, mc_constraint = c, mc_evidence = Evidence_Ignored\<rparr>])
                   (map_err (\<lambda>e. invalid_route_request (invalid_identifier_text e))
                     (case namespace of
                        Driver_Namespace \<Rightarrow> res_map Of_Driver (new_identifier Driver_Id qualifier)
                      | Provider_Namespace \<Rightarrow> res_map Of_Provider (new_identifier Provider_Id qualifier))))
      | Family families \<Rightarrow>
          (case List.find (\<lambda>family. mf_name family = requested_model) families of
             None \<Rightarrow> Inr [concrete_candidate fixed_provider requested_model]
           | Some family \<Rightarrow>
               Inr (map (\<lambda>model. \<lparr>mc_model = model, mc_constraint = Any_Binding, mc_evidence = Evidence_Required\<rparr>)
                 (mf_members family))))"

text \<open>
  The evidence of a pass is never \<open>Evidence_Preferred\<close>, which the code treats as unreachable:
  \<open>evidence_order\<close> does not produce it.
\<close>

definition managed_binding_matches ::
  "managed_route \<Rightarrow> model_candidate \<Rightarrow> discovery_evidence \<Rightarrow> endpoint \<Rightarrow> provider provider_binding \<Rightarrow> bool" where
  "managed_binding_matches route candidate evidence operation b \<longleftrightarrow>
     (case mt_provider (mr_target route) of Any_Provider \<Rightarrow> True | Fixed_Provider p \<Rightarrow> bk_provider (pb_key b) = p) \<and>
     constraint_matches (mc_constraint candidate) b \<and>
     (let driver = ah_provider (pb_handle b) in
      case evidence of
        Evidence_Required \<Rightarrow> supports driver (mc_model candidate) operation
      | Evidence_Preferred \<Rightarrow> False
      | Evidence_Ignored \<Rightarrow> has_endpoint driver (mc_model candidate) operation)"

definition model_provider_score :: "managed_route \<Rightarrow> model_candidate \<Rightarrow> 'p provider_binding \<Rightarrow> int" where
  "model_provider_score route candidate b =
     (case mt_model (mr_target route) of
        Qualified _ \<Rightarrow> 0
      | _ \<Rightarrow> provider_score route (mc_model candidate) (bk_provider (pb_key b)))"

definition managed_unavailable_outcome :: "bool \<Rightarrow> bool \<Rightarrow> selector_outcome" where
  "managed_unavailable_outcome matching allowed_matching =
     (if matching \<and> \<not> allowed_matching then Outcome_Access_Denied else Outcome_No_Account)"

definition selected_outcome :: "provider provider_binding \<Rightarrow> endpoint \<Rightarrow> string \<Rightarrow> selector_outcome" where
  "selected_outcome b operation model =
     Outcome_Selected (bk_account (pb_key b)) (pi_id (pv_info (ah_provider (pb_handle b)))) (Some operation) model (Linked_Handle (pb_key b))"

section \<open>Selection\<close>

definition selection_bindings :: "'p pool_runtime \<Rightarrow> 'p provider_binding list" where
  "selection_bindings rt = map la_binding (lp_active (rt_pool rt) @ lp_fallback (rt_pool rt))"

text \<open>The passes of the three nested loops, in order.\<close>

definition selection_passes ::
  "model_candidate list \<Rightarrow> endpoint list \<Rightarrow> (model_candidate \<times> discovery_evidence \<times> endpoint) list" where
  "selection_passes candidates operations =
     concat (map (\<lambda>c. concat (map (\<lambda>ev. map (\<lambda>e. (c, ev, e)) operations) (evidence_order (mc_evidence c)))) candidates)"

definition pass_matches ::
  "route_plan \<Rightarrow> managed_route \<Rightarrow> model_candidate \<times> discovery_evidence \<times> endpoint \<Rightarrow> provider provider_binding \<Rightarrow> bool" where
  "pass_matches plan_route route pass b =
     (case pass of (candidate, evidence, operation) \<Rightarrow>
        allows_provider plan_route (bk_provider (pb_key b)) \<and>
        managed_binding_matches route candidate evidence operation b)"

fun try_passes ::
  "(nat \<Rightarrow> instant) \<Rightarrow> route_plan \<Rightarrow> managed_route \<Rightarrow> string bset option \<Rightarrow> string option \<Rightarrow> nat \<Rightarrow>
   (model_candidate \<times> discovery_evidence \<times> endpoint) list \<Rightarrow> bool \<Rightarrow> bool \<Rightarrow> provider pool_runtime \<Rightarrow>
   selector_outcome \<times> provider pool_runtime" where
  "try_passes clock plan_route route allowed session k [] matching allowed_matching rt =
     (managed_unavailable_outcome matching allowed_matching, rt)"
| "try_passes clock plan_route route allowed session k (pass # passes) matching allowed_matching rt =
     (let hits = filter (pass_matches plan_route route pass) (selection_bindings rt);
          matching' = (matching \<or> hits \<noteq> []);
          allowed_matching' = (allowed_matching \<or> list_ex (\<lambda>b. provider_allowed (bk_provider (pb_key b)) allowed) hits);
          (candidate, evidence, operation) = pass
      in case acquire_ranked (clock k) (clock k) session
           (\<lambda>b. pass_matches plan_route route pass b \<and> provider_allowed (bk_provider (pb_key b)) allowed)
           (model_provider_score route candidate) rt of
           (Selected b, rt') \<Rightarrow> (selected_outcome b operation (mc_model candidate), rt')
         | (_, rt') \<Rightarrow>
             try_passes clock plan_route route allowed session (Suc k) passes matching' allowed_matching' rt')"

definition select_managed ::
  "(nat \<Rightarrow> instant) \<Rightarrow> route_plan \<Rightarrow> 'g pipeline_ctx \<Rightarrow> extracted \<Rightarrow> managed_route \<Rightarrow>
   provider pool_runtime \<Rightarrow> (pipeline_error + selector_outcome) \<times> provider pool_runtime" where
  "select_managed clock plan_route ctx extracted route rt =
     (case res_bind (resolved_endpoint ctx) (\<lambda>endpoint.
           res_bind (allowed_provider_ids ctx) (\<lambda>allowed.
           res_map (\<lambda>candidates. (endpoint, allowed, candidates))
             (model_candidates route (ex_model extracted)))) of
        Inl e \<Rightarrow> (Inl e, rt)
      | Inr (endpoint, allowed, candidates) \<Rightarrow>
          (let (outcome, rt') = try_passes clock plan_route route allowed (ex_session_id extracted) 0
                 (selection_passes candidates (operation_candidates (mr_operation route) endpoint)) False False rt
           in (Inr outcome, rt')))"

definition select_relay ::
  "instant \<Rightarrow> 'g pipeline_ctx \<Rightarrow> extracted \<Rightarrow> relay_route \<Rightarrow> provider pool_runtime \<Rightarrow>
   (pipeline_error + selector_outcome) \<times> provider pool_runtime" where
  "select_relay now ctx extracted route rt =
     (case resolved_endpoint ctx of
        Inl e \<Rightarrow> (Inl e, rt)
      | Inr endpoint \<Rightarrow>
          (case rr_destination route of
             Original \<Rightarrow> (Inl (invalid_route_request ''origin-based relay cannot run on an LLM API listener''), rt)
           | To_Provider p \<Rightarrow>
               (case allowed_provider_ids ctx of
                  Inl e \<Rightarrow> (Inl e, rt)
                | Inr allowed \<Rightarrow>
                    if \<not> provider_allowed p allowed then (Inr Outcome_Access_Denied, rt)
                    else
                      (case acquire now now (ex_session_id extracted) (\<lambda>b. bk_provider (pb_key b) = p) rt of
                         (Selected b, rt') \<Rightarrow> (Inr (selected_outcome b endpoint (ex_model extracted)), rt')
                       | (_, rt') \<Rightarrow> (Inr Outcome_No_Account, rt')))))"

definition select_account ::
  "(nat \<Rightarrow> instant) \<Rightarrow> route_plan \<Rightarrow> 'g pipeline_ctx \<Rightarrow> extracted \<Rightarrow> provider pool_runtime \<Rightarrow>
   (pipeline_error + selector_outcome) \<times> provider pool_runtime" where
  "select_account clock plan_route ctx extracted rt =
     (case plan_route of
        Managed route \<Rightarrow> select_managed clock plan_route ctx extracted route rt
      | Relay route \<Rightarrow> select_relay (clock 0) ctx extracted route rt)"

section \<open>Sending\<close>

definition status_marks_binding_unavailable :: "nat \<Rightarrow> bool" where
  "status_marks_binding_unavailable status \<longleftrightarrow>
     status \<in> {401, 403, 408, 425, 429} \<or> 500 \<le> status \<and> status \<le> 599"

definition binding_for_handle :: "'p pool_runtime \<Rightarrow> account_ref \<Rightarrow> 'p provider_binding option" where
  "binding_for_handle rt handle = List.find (\<lambda>b. Linked_Handle (pb_key b) = handle) (selection_bindings rt)"

text \<open>A recording whose error is only logged.\<close>

definition note_success :: "instant \<Rightarrow> string option \<Rightarrow> binding_key \<Rightarrow> 'p pool_runtime \<Rightarrow> 'p pool_runtime" where
  "note_success now session key rt = (case record_success now session key rt of Inl _ \<Rightarrow> rt | Inr rt' \<Rightarrow> rt')"

definition note_failure :: "instant \<Rightarrow> instant \<Rightarrow> binding_key \<Rightarrow> 'p pool_runtime \<Rightarrow> 'p pool_runtime" where
  "note_failure horizon now key rt = (case record_failure horizon now key rt of Inl _ \<Rightarrow> rt | Inr (_, rt') \<Rightarrow> rt')"

text \<open>
  The send stages around the inner sender: what they record when it answers. \<open>status\<close> reads
  the status of the inner sender's answer, \<open>t\<close> is the instant after it.
\<close>

definition pool_aware_send ::
  "instant \<Rightarrow> instant \<Rightarrow> extracted \<Rightarrow> resolved \<Rightarrow> pipeline_error + 's \<Rightarrow> 'p pool_runtime \<Rightarrow>
   (pipeline_error + 's) \<times> 'p pool_runtime" where
  "pool_aware_send horizon t extracted resolved answer rt =
     (case binding_for_handle rt (rs_account_handle resolved) of
        None \<Rightarrow> (Inl (invalid_route_request ''selected account is not a member of the route's v2 account pool''), rt)
      | Some b \<Rightarrow>
          (answer,
           case answer of
             Inr _ \<Rightarrow> note_success t (ex_session_id extracted) (pb_key b) rt
           | Inl err \<Rightarrow> if pe_recoverable err then note_failure horizon t (pb_key b) rt else rt))"

definition proxy_pool_aware_send ::
  "instant \<Rightarrow> instant \<Rightarrow> ('s \<Rightarrow> nat) \<Rightarrow> extracted \<Rightarrow> resolved \<Rightarrow> pipeline_error + 's \<Rightarrow> 'p pool_runtime \<Rightarrow>
   (pipeline_error + 's) \<times> 'p pool_runtime" where
  "proxy_pool_aware_send horizon t status extracted resolved answer rt =
     (case binding_for_handle rt (rs_account_handle resolved) of
        None \<Rightarrow> (Inl (invalid_route_request ''selected account is not a member of the relay route's v2 account pool''), rt)
      | Some b \<Rightarrow>
          (answer,
           case answer of
             Inr response \<Rightarrow>
               if status_marks_binding_unavailable (status response) then note_failure horizon t (pb_key b) rt
               else note_success t (ex_session_id extracted) (pb_key b) rt
           | Inl err \<Rightarrow> if pe_recoverable err then note_failure horizon t (pb_key b) rt else rt))"

section \<open>Proxy relays\<close>

datatype proxy_relay_target = Relay_Fixed string | Relay_From_Origin "(string, string) bmap"

definition relay_provider :: "proxy_relay_target \<Rightarrow> 'g pipeline_ctx \<Rightarrow> pipeline_error + string" where
  "relay_provider target ctx =
     (case target of
        Relay_Fixed p \<Rightarrow> Inr p
      | Relay_From_Origin origins \<Rightarrow>
          res_bind (ok_or (invalid_route_request ''origin relay requires an admitted proxy origin'')
                      (config_get_str (cx_config ctx) v2_proxy_origin_key)) (\<lambda>origin.
            ok_or (invalid_route_request (''no configured provider owns proxy origin '' @ quoted origin))
              (bm_get origins origin)))"

definition proxy_request_kind :: "'g pipeline_ctx \<Rightarrow> provider_request_kind" where
  "proxy_request_kind ctx =
     (case resolved_of (cx_request_endpoint ctx) of
        Some e \<Rightarrow> Operation e
      | None \<Rightarrow>
          (case config_get_str (cx_config ctx) proxy_path_key of
             Some p \<Rightarrow> from_provider_path p
           | None \<Rightarrow> Opaque_Request))"

definition proxy_route :: "'g pipeline_ctx \<Rightarrow> resolved_route" where
  "proxy_route ctx =
     (case resolved_of (cx_request_endpoint ctx) of
        Some e \<Rightarrow> Route_Operation e e
      | None \<Rightarrow> Provider_Traffic (proxy_request_kind ctx))"

definition v2_proxy_resolve ::
  "instant \<Rightarrow> proxy_relay_target \<Rightarrow> 'g pipeline_ctx \<Rightarrow> extracted \<Rightarrow> provider pool_runtime \<Rightarrow>
   (pipeline_error + resolved) \<times> provider pool_runtime" where
  "v2_proxy_resolve now target ctx extracted rt =
     (case res_bind (relay_provider target ctx) (\<lambda>p. res_map (\<lambda>allowed. (p, allowed)) (allowed_provider_ids ctx)) of
        Inl e \<Rightarrow> (Inl e, rt)
      | Inr (p, allowed) \<Rightarrow>
          if \<not> provider_allowed p allowed then (Inl (permanent Resolve_Stage Provider_Access_Denied), rt)
          else
            (case acquire now now (ex_session_id extracted) (\<lambda>b. bk_provider (pb_key b) = p) rt of
               (Selected b, rt') \<Rightarrow>
                 (Inr \<lparr>rs_agent_id = ex_agent_id extracted, rs_model = ex_model extracted,
                       rs_upstream_model = ex_model extracted, rs_route = proxy_route ctx,
                       rs_account_id = bk_account (pb_key b),
                       rs_provider_id = pi_id (pv_info (ah_provider (pb_handle b))),
                       rs_account_handle = Linked_Handle (pb_key b)\<rparr>, rt')
             | (_, rt') \<Rightarrow> (Inl (permanent Resolve_Stage (No_Provider_Account p)), rt')))"

section \<open>Relays with the client's credentials\<close>

definition proxy_host_key :: string where
  "proxy_host_key = ''proxy.host''"

definition proxy_provider_id_key :: string where
  "proxy_provider_id_key = ''proxy.provider_id''"

definition proxy_account_id_key :: string where
  "proxy_account_id_key = ''proxy.account_id''"

definition proxy_resolve :: "'g pipeline_ctx \<Rightarrow> extracted \<Rightarrow> pipeline_error + resolved" where
  "proxy_resolve ctx extracted =
     res_map (\<lambda>host.
       let provider_id = (case config_get_str (cx_config ctx) proxy_provider_id_key of None \<Rightarrow> host | Some p \<Rightarrow> p);
           account_id = (case config_get_str (cx_config ctx) proxy_account_id_key of None \<Rightarrow> ''proxy'' | Some a \<Rightarrow> a)
       in \<lparr>rs_agent_id = ex_agent_id extracted, rs_model = ex_model extracted,
           rs_upstream_model = ex_model extracted, rs_route = proxy_route ctx,
           rs_account_id = account_id, rs_provider_id = provider_id,
           rs_account_handle = Stub_Handle account_id provider_id\<rparr>)
       (ok_or (permanent Resolve_Stage (Other_Error
           (''proxy passthrough pipeline requires `'' @ proxy_host_key @ ''` in RunConfig'')))
         (config_get_str (cx_config ctx) proxy_host_key))"

record client_resolver =
  cr_fixed_provider :: "string option"
  cr_allowed_origins :: "(string, string) bmap option"

definition client_origin_admitted :: "(string, string) bmap \<Rightarrow> 'g pipeline_ctx \<Rightarrow> string bset option \<Rightarrow> bool" where
  "client_origin_admitted origins ctx allowed =
     (case Option.bind (config_get_str (cx_config ctx) v2_proxy_origin_key) (bm_get origins) of
        None \<Rightarrow> False
      | Some p \<Rightarrow> provider_allowed p allowed)"

text \<open>Each guard parses the allowlist of the API key itself and may fail on it.\<close>

definition deny_unless :: "'g pipeline_ctx \<Rightarrow> (string bset option \<Rightarrow> bool) \<Rightarrow> pipeline_error + unit" where
  "deny_unless ctx admitted =
     res_bind (allowed_provider_ids ctx) (\<lambda>allowed.
       if admitted allowed then Inr () else Inl (permanent Resolve_Stage Provider_Access_Denied))"

definition client_resolve :: "client_resolver \<Rightarrow> 'g pipeline_ctx \<Rightarrow> extracted \<Rightarrow> pipeline_error + resolved" where
  "client_resolve c ctx extracted =
     res_bind (case cr_allowed_origins c of
                 None \<Rightarrow> Inr ()
               | Some origins \<Rightarrow> deny_unless ctx (client_origin_admitted origins ctx)) (\<lambda>_.
     res_bind (case cr_fixed_provider c of
                 None \<Rightarrow> Inr ()
               | Some p \<Rightarrow> deny_unless ctx (provider_allowed p)) (\<lambda>_.
     res_bind (proxy_resolve ctx extracted) (\<lambda>r.
       case cr_fixed_provider c of
         Some p \<Rightarrow>
           if rs_provider_id r \<noteq> p
           then Inl (invalid_route_request (''fixed relay expected provider '' @ quoted p @ '', got '' @ quoted (rs_provider_id r)))
           else Inr r
       | None \<Rightarrow> Inr r)))"

section \<open>What a selection decides\<close>

definition open_bindings ::
  "instant \<Rightarrow> 'p pool_runtime \<Rightarrow> ('p provider_binding \<Rightarrow> bool) \<Rightarrow> 'p provider_binding set" where
  "open_bindings now rt f = {b. b \<in> set (selection_bindings rt) \<and> f b \<and> cooling_until now rt (pb_key b) = None}"

definition admissible ::
  "route_plan \<Rightarrow> managed_route \<Rightarrow> string bset option \<Rightarrow> model_candidate \<times> discovery_evidence \<times> endpoint \<Rightarrow>
   provider provider_binding \<Rightarrow> bool" where
  "admissible plan_route route allowed pass b \<longleftrightarrow>
     pass_matches plan_route route pass b \<and> provider_allowed (bk_provider (pb_key b)) allowed"

lemma set_selection_bindings: "set (selection_bindings rt) = la_binding ` set (pool_accounts (rt_pool rt))"
  by (simp add: selection_bindings_def pool_accounts_def image_Un)

lemma acquire_open:
  assumes "runtime_ok now rt" and "fst (acquire_ranked now now sid f rank rt) = Selected b"
  shows "b \<in> open_bindings now rt f"
  using acquire_selected_available [OF assms] by (simp add: open_bindings_def set_selection_bindings)

lemma acquire_closed:
  assumes "runtime_ok now rt" and "\<And>b. fst (acquire_ranked now now sid f rank rt) \<noteq> Selected b"
  shows "open_bindings now rt f = {}"
proof -
  have spec: "acquire_spec now sid f rank rt (fst (acquire_ranked now now sid f rank rt))"
    by (rule acquire_decides [OF assms(1)])
  have "session_choice now sid f rt = None" using spec assms(2) by (auto simp: acquire_spec_def split: option.splits)
  with spec assms(2) have "(\<forall>tier. available_in now f rt tier = {}) \<or> eligible_in f rt = {}"
    by (auto simp: acquire_spec_def split: pool_acquire.splits)
  moreover have "b \<in> available_in now f rt Active \<union> available_in now f rt Fallback \<and> b \<in> eligible_in f rt"
    if "b \<in> open_bindings now rt f" for b
    using that by (auto simp: open_bindings_def set_selection_bindings available_in_def eligible_in_def
        pool_accounts_def tier_of_def)
  ultimately show ?thesis by blast
qed

lemma acquire_keeps_open:
  "selection_bindings (snd (acquire_ranked t t' sid f rank rt)) = selection_bindings rt"
  "open_bindings now (snd (acquire_ranked t t' sid f rank rt)) g = open_bindings now rt g"
  by (simp_all add: open_bindings_def selection_bindings_def cooling_until_def acquire_frame)

lemma acquire_next_ok:
  assumes "runtime_ok (clock k) rt" and "mono clock"
  shows "runtime_ok (clock (Suc k)) (snd (acquire_ranked (clock k) (clock k) sid f rank rt))"
proof -
  have "runtime_ok (clock k) (snd (acquire_ranked (clock k) (clock k) sid f rank rt))"
    by (rule runtime_ok_acquire [OF assms(1) prod.collapse [symmetric]])
  then show ?thesis by (rule runtime_ok_mono) (use assms(2) in \<open>simp add: mono_def\<close>)
qed

text \<open>
  The contract of a managed selection over its passes: the first pass with an open binding
  selects one of them; without any, the outcome tells access from availability.
\<close>

definition passes_spec ::
  "(nat \<Rightarrow> instant) \<Rightarrow> route_plan \<Rightarrow> managed_route \<Rightarrow> string bset option \<Rightarrow> nat \<Rightarrow>
   (model_candidate \<times> discovery_evidence \<times> endpoint) list \<Rightarrow> bool \<Rightarrow> bool \<Rightarrow> provider pool_runtime \<Rightarrow>
   selector_outcome \<Rightarrow> bool" where
  "passes_spec clock plan_route route allowed k passes matching allowed_matching rt outcome \<longleftrightarrow>
     (\<exists>j < length passes.
        (\<forall>i < j. open_bindings (clock (k + i)) rt (admissible plan_route route allowed (passes ! i)) = {}) \<and>
        (\<exists>b \<in> open_bindings (clock (k + j)) rt (admissible plan_route route allowed (passes ! j)).
           outcome = selected_outcome b (snd (snd (passes ! j))) (mc_model (fst (passes ! j))))) \<or>
     (\<forall>i < length passes. open_bindings (clock (k + i)) rt (admissible plan_route route allowed (passes ! i)) = {}) \<and>
     outcome = managed_unavailable_outcome
       (matching \<or> (\<exists>pass \<in> set passes. \<exists>b \<in> set (selection_bindings rt). pass_matches plan_route route pass b))
       (allowed_matching \<or> (\<exists>pass \<in> set passes. \<exists>b \<in> set (selection_bindings rt). admissible plan_route route allowed pass b))"

lemma passes_spec_first:
  assumes "b \<in> open_bindings (clock k) rt (admissible plan_route route allowed (c, ev, e))"
  shows "passes_spec clock plan_route route allowed k ((c, ev, e) # passes) matching allowed_matching rt
    (selected_outcome b e (mc_model c))"
  unfolding passes_spec_def by (intro disjI1 exI [of _ 0]) (use assms in auto)

lemma passes_spec_next:
  assumes "open_bindings (clock k) rt (admissible plan_route route allowed pass) = {}"
    and "passes_spec clock plan_route route allowed (Suc k) passes
      (matching \<or> (\<exists>b \<in> set (selection_bindings rt). pass_matches plan_route route pass b))
      (allowed_matching \<or> (\<exists>b \<in> set (selection_bindings rt). admissible plan_route route allowed pass b)) rt outcome"
  shows "passes_spec clock plan_route route allowed k (pass # passes) matching allowed_matching rt outcome"
  using assms(2) [unfolded passes_spec_def]
proof (elim disjE exE conjE)
  fix j
  assume j: "j < length passes"
    "\<forall>i < j. open_bindings (clock (Suc k + i)) rt (admissible plan_route route allowed (passes ! i)) = {}"
    "\<exists>b \<in> open_bindings (clock (Suc k + j)) rt (admissible plan_route route allowed (passes ! j)).
       outcome = selected_outcome b (snd (snd (passes ! j))) (mc_model (fst (passes ! j)))"
  have "open_bindings (clock (k + i)) rt (admissible plan_route route allowed ((pass # passes) ! i)) = {}"
    if "i < Suc j" for i
    using that assms(1) j(2) by (cases i) auto
  with j(1,3) show ?thesis unfolding passes_spec_def by - (rule disjI1, rule exI [of _ "Suc j"], simp)
next
  assume n: "\<forall>i < length passes. open_bindings (clock (Suc k + i)) rt (admissible plan_route route allowed (passes ! i)) = {}"
  have "open_bindings (clock (k + i)) rt (admissible plan_route route allowed ((pass # passes) ! i)) = {}"
    if "i < length (pass # passes)" for i
    using that assms(1) n by (cases i) auto
  moreover assume "outcome = managed_unavailable_outcome
      ((matching \<or> (\<exists>b \<in> set (selection_bindings rt). pass_matches plan_route route pass b)) \<or>
        (\<exists>pass \<in> set passes. \<exists>b \<in> set (selection_bindings rt). pass_matches plan_route route pass b))
      ((allowed_matching \<or> (\<exists>b \<in> set (selection_bindings rt). admissible plan_route route allowed pass b)) \<or>
        (\<exists>pass \<in> set passes. \<exists>b \<in> set (selection_bindings rt). admissible plan_route route allowed pass b))"
  ultimately show ?thesis unfolding passes_spec_def by - (rule disjI2, simp add: disj_assoc)
qed

lemma passes_spec_same:
  "selection_bindings rt' = selection_bindings rt \<Longrightarrow> (\<And>t f. open_bindings t rt' f = open_bindings t rt f) \<Longrightarrow>
   passes_spec clock plan_route route allowed k passes m a rt' o' = passes_spec clock plan_route route allowed k passes m a rt o'"
  by (simp add: passes_spec_def)

lemma try_passes_spec:
  "runtime_ok (clock k) rt \<Longrightarrow> mono clock \<Longrightarrow>
   passes_spec clock plan_route route allowed k passes matching allowed_matching rt
     (fst (try_passes clock plan_route route allowed session k passes matching allowed_matching rt))"
proof (induction passes arbitrary: k matching allowed_matching rt)
  case Nil
  then show ?case by (simp add: passes_spec_def)
next
  case (Cons pass passes)
  obtain c ev e where pass: "pass = (c, ev, e)" by (cases pass)
  let ?f = "\<lambda>b. pass_matches plan_route route pass b \<and> provider_allowed (bk_provider (pb_key b)) allowed"
  have f: "?f = admissible plan_route route allowed pass" by (auto simp: admissible_def)
  obtain res rt' where acq: "acquire_ranked (clock k) (clock k) session ?f (model_provider_score route c) rt = (res, rt')"
    by fastforce
  note frame = acquire_keeps_open [where t = "clock k" and t' = "clock k" and sid = session and f = ?f and
      rank = "model_provider_score route c" and rt = rt, unfolded acq snd_conv]
  note next_ok = acquire_next_ok [OF Cons.prems, of session ?f "model_provider_score route c", unfolded acq snd_conv]
  let ?m = "matching \<or> (\<exists>b \<in> set (selection_bindings rt). pass_matches plan_route route pass b)"
  let ?a = "allowed_matching \<or> (\<exists>b \<in> set (selection_bindings rt). admissible plan_route route allowed pass b)"
  show ?case
  proof (cases "\<exists>b. res = Selected b")
    case True
    then obtain b where b: "res = Selected b" by blast
    with acquire_open [OF Cons.prems(1), of session ?f "model_provider_score route c" b] acq
    have "b \<in> open_bindings (clock k) rt (admissible plan_route route allowed pass)" unfolding f by simp
    then have "passes_spec clock plan_route route allowed k (pass # passes) matching allowed_matching rt
        (selected_outcome b e (mc_model c))"
      unfolding pass by (rule passes_spec_first)
    with acq b show ?thesis by (simp add: pass Let_def)
  next
    case False
    have "open_bindings (clock k) rt ?f = {}"
      by (rule acquire_closed [OF Cons.prems(1), of session _ "model_provider_score route c"]) (use False acq in simp)
    then have closed: "open_bindings (clock k) rt (admissible plan_route route allowed pass) = {}" unfolding f .
    have step: "fst (try_passes clock plan_route route allowed session k (pass # passes) matching allowed_matching rt) =
        fst (try_passes clock plan_route route allowed session (Suc k) passes ?m ?a rt')"
    proof -
      have "(filter (pass_matches plan_route route pass) (selection_bindings rt) \<noteq> []) =
          (\<exists>b \<in> set (selection_bindings rt). pass_matches plan_route route pass b)"
        by (simp add: filter_empty_conv)
      moreover have "list_ex (\<lambda>b. provider_allowed (bk_provider (pb_key b)) allowed)
            (filter (pass_matches plan_route route pass) (selection_bindings rt)) =
          (\<exists>b \<in> set (selection_bindings rt). admissible plan_route route allowed pass b)"
        by (auto simp: list_ex_iff admissible_def)
      ultimately show ?thesis
        using acq False by (cases res) (simp_all add: pass Let_def)
    qed
    have "passes_spec clock plan_route route allowed (Suc k) passes ?m ?a rt'
        (fst (try_passes clock plan_route route allowed session (Suc k) passes ?m ?a rt'))"
      by (rule Cons.IH [OF next_ok Cons.prems(2)])
    then have "passes_spec clock plan_route route allowed (Suc k) passes ?m ?a rt
        (fst (try_passes clock plan_route route allowed session (Suc k) passes ?m ?a rt'))"
      using passes_spec_same [OF frame] by simp
    from passes_spec_next [OF closed this] show ?thesis unfolding step .
  qed
qed

text \<open>What a selected binding may be for a route and a request.\<close>

definition may_serve ::
  "route_plan \<Rightarrow> 'g pipeline_ctx \<Rightarrow> extracted \<Rightarrow> provider provider_binding \<Rightarrow> endpoint \<Rightarrow> string \<Rightarrow> bool" where
  "may_serve plan_route ctx extracted b operation model \<longleftrightarrow>
     (case plan_route of
        Managed route \<Rightarrow>
          allows_provider plan_route (bk_provider (pb_key b)) \<and>
          (\<forall>p. mt_provider (mr_target route) = Fixed_Provider p \<longrightarrow> bk_provider (pb_key b) = p) \<and>
          has_endpoint (ah_provider (pb_handle b)) model operation \<and>
          (mr_operation route = Preserve \<longrightarrow> resolved_of (cx_request_endpoint ctx) = Some operation)
      | Relay route \<Rightarrow>
          rr_destination route = To_Provider (bk_provider (pb_key b)) \<and> model = ex_model extracted \<and>
          resolved_of (cx_request_endpoint ctx) = Some operation)"

lemma resolved_endpoint_Inr: "resolved_endpoint ctx = Inr e \<longleftrightarrow> resolved_of (cx_request_endpoint ctx) = Some e"
  by (simp add: resolved_endpoint_def ok_or_def split: option.split)

lemma selection_passes_set:
  "(c, ev, e) \<in> set (selection_passes cs ops) \<longleftrightarrow> c \<in> set cs \<and> ev \<in> set (evidence_order (mc_evidence c)) \<and> e \<in> set ops"
  by (auto simp: selection_passes_def)

lemma pass_endpoint:
  assumes "pass_matches plan_route route (c, ev, e) b"
  shows "has_endpoint (ah_provider (pb_handle b)) (mc_model c) e"
  using assms cap.offers_serves
  by (cases ev) (auto simp: pass_matches_def managed_binding_matches_def Let_def)

lemma select_managed_spec:
  assumes "runtime_ok (clock 0) rt" and "mono clock"
    and "select_managed clock plan_route ctx extracted route rt = (Inr outcome, rt')"
  shows "\<exists>e allowed cs. resolved_of (cx_request_endpoint ctx) = Some e \<and> allowed_provider_ids ctx = Inr allowed \<and>
    model_candidates route (ex_model extracted) = Inr cs \<and>
    passes_spec clock plan_route route allowed 0 (selection_passes cs (operation_candidates (mr_operation route) e))
      False False rt outcome"
proof -
  from assms(3) obtain e allowed cs where r: "resolved_of (cx_request_endpoint ctx) = Some e"
      "allowed_provider_ids ctx = Inr allowed" "model_candidates route (ex_model extracted) = Inr cs"
    and o: "outcome = fst (try_passes clock plan_route route allowed (ex_session_id extracted) 0
        (selection_passes cs (operation_candidates (mr_operation route) e)) False False rt)"
    by (auto simp: select_managed_def res_bind_def res_map_def resolved_endpoint_Inr Let_def
        split: sum.splits prod.splits)
  from try_passes_spec [OF assms(1,2)] r show ?thesis unfolding o by blast
qed

lemma select_account_open:
  assumes "runtime_ok (clock 0) rt" and "mono clock"
    and "select_account clock plan_route ctx extracted rt = (Inr outcome, rt')"
    and "outcome = Outcome_Selected account_id provider_id operation model handle"
  shows "\<exists>k b allowed e. b \<in> open_bindings (clock k) rt (\<lambda>_. True) \<and> outcome = selected_outcome b e model \<and>
    may_serve plan_route ctx extracted b e model \<and>
    allowed_provider_ids ctx = Inr allowed \<and> provider_allowed (bk_provider (pb_key b)) allowed"
proof (cases plan_route)
  case (Managed route)
  with assms(3) have "select_managed clock plan_route ctx extracted route rt = (Inr outcome, rt')"
    by (simp add: select_account_def)
  from select_managed_spec [OF assms(1,2) this] obtain r allowed cs where
    r: "resolved_of (cx_request_endpoint ctx) = Some r" "allowed_provider_ids ctx = Inr allowed"
    and spec: "passes_spec clock plan_route route allowed 0
      (selection_passes cs (operation_candidates (mr_operation route) r)) False False rt outcome" by blast
  let ?ps = "selection_passes cs (operation_candidates (mr_operation route) r)"
  have "outcome \<noteq> managed_unavailable_outcome x y" for x y
    unfolding assms(4) by (simp add: managed_unavailable_outcome_def)
  with spec obtain j b where j: "j < length ?ps"
    and b: "b \<in> open_bindings (clock j) rt (admissible plan_route route allowed (?ps ! j))"
    and o: "outcome = selected_outcome b (snd (snd (?ps ! j))) (mc_model (fst (?ps ! j)))"
    unfolding passes_spec_def add_0 by blast
  obtain c ev e where pass: "?ps ! j = (c, ev, e)" by (cases "?ps ! j")
  have "(c, ev, e) \<in> set ?ps" using j pass nth_mem by metis
  then have e: "mr_operation route = Preserve \<longrightarrow> e = r" by (auto simp: selection_passes_set operation_candidates_def)
  have m: "pass_matches plan_route route (c, ev, e) b" "provider_allowed (bk_provider (pb_key b)) allowed"
    using b pass by (simp_all add: open_bindings_def admissible_def)
  have "mc_model c = model" using o assms(4) pass by (simp add: selected_outcome_def)
  with m(1) pass_endpoint [OF m(1)] e r(1) Managed have "may_serve plan_route ctx extracted b e model"
    by (auto simp: may_serve_def pass_matches_def managed_binding_matches_def split: provider_selector.splits)
  moreover have "b \<in> open_bindings (clock j) rt (\<lambda>_. True)" using b by (simp add: open_bindings_def)
  moreover have "outcome = selected_outcome b e model" using o pass \<open>mc_model c = model\<close> by simp
  ultimately show ?thesis using r(2) m(2) by blast
next
  case (Relay route)
  with assms(3,4) obtain e p allowed b rt2 where r: "resolved_of (cx_request_endpoint ctx) = Some e"
      "rr_destination route = To_Provider p" "allowed_provider_ids ctx = Inr allowed" "provider_allowed p allowed"
    and acq: "acquire (clock 0) (clock 0) (ex_session_id extracted) (\<lambda>b. bk_provider (pb_key b) = p) rt = (Selected b, rt2)"
    and o: "outcome = selected_outcome b e (ex_model extracted)"
    by (auto simp: select_account_def select_relay_def resolved_endpoint_Inr
        split: sum.splits relay_destination.splits if_splits prod.splits pool_acquire.splits)
  have b: "b \<in> open_bindings (clock 0) rt (\<lambda>b. bk_provider (pb_key b) = p)"
    by (rule acquire_open [OF assms(1), of "ex_session_id extracted" _ "\<lambda>_. 0"]) (use acq in \<open>simp add: acquire_def\<close>)
  have "model = ex_model extracted" using o assms(4) by (simp add: selected_outcome_def)
  moreover from this have "may_serve plan_route ctx extracted b e model"
    using b r Relay by (simp add: may_serve_def open_bindings_def)
  ultimately show ?thesis using b o r by (auto simp: open_bindings_def)
qed

lemma find_handle:
  assumes "runtime_ok now rt" and "b \<in> set (selection_bindings rt)"
  shows "binding_for_handle rt (Linked_Handle (pb_key b)) = Some b"
proof -
  have same: "c = b" if "c \<in> set (selection_bindings rt)" "pb_key c = pb_key b" for c
  proof -
    have "bm_get (rt_bindings rt) (pb_key b) = Some x" if "x \<in> set (selection_bindings rt)" "pb_key x = pb_key b" for x
      unfolding runtime_ok_binding [OF assms(1)] using that by (force simp: set_selection_bindings pool_key_def)
    from this [OF that] this [OF assms(2) refl] show ?thesis by simp
  qed
  show ?thesis
  proof (cases "binding_for_handle rt (Linked_Handle (pb_key b))")
    case None
    with assms(2) show ?thesis by (auto simp: binding_for_handle_def find_None_iff)
  next
    case (Some c)
    then have "c \<in> set (selection_bindings rt)" "pb_key c = pb_key b"
      by (auto simp: binding_for_handle_def find_Some_iff)
    with Some same show ?thesis by simp
  qed
qed

lemma record_failure_back_off:
  assumes "runtime_ok t rt" and "record_failure horizon t key rt = Inr (r, rt')" and "t \<le> horizon"
  shows "\<exists>n \<le> u32_max. 1 \<le> n \<and> r = min (t + cooldown_duration (lp_failure_cooldown (rt_pool rt)) n) horizon \<and>
    backed_off r n key rt'"
proof -
  from failure_frame(4) [OF assms(2)] obtain c where "bm_get (rt_cooldowns rt) key = Some c"
    and i: "rt_cooldowns rt' = bm_insert key
        \<lparr>cd_consecutive_failures = u32_saturating_add (cd_consecutive_failures c) 1, cd_retry_at = Some r\<rparr>
        (rt_cooldowns rt)"
    and r: "r = saturating_instant_add horizon t
        (cooldown_duration (lp_failure_cooldown (rt_pool rt)) (u32_saturating_add (cd_consecutive_failures c) 1))"
    by blast
  let ?n = "u32_saturating_add (cd_consecutive_failures c) 1"
  have "1 \<le> ?n" "?n \<le> u32_max" by (simp_all add: u32_saturating_add_def u32_max_def)
  moreover have "r = min (t + cooldown_duration (lp_failure_cooldown (rt_pool rt)) ?n) horizon"
    unfolding r by (rule saturating_instant_add_eq [OF cooldown_duration_le assms(3)])
  moreover have "backed_off r ?n key rt'"
    unfolding backed_off_def i by (simp add: bm_get_insert [OF runtime_ok_cooldowns [OF assms(1)]])
  ultimately show ?thesis by blast
qed

lemma cooldown_at_least_base: "1 \<le> n \<Longrightarrow> min base duration_max \<le> cooldown_duration base n"
  by (simp add: cooldown_duration_def duration_saturating_mul_def min_le_iff_disj)

section \<open>Samples\<close>

definition sample_cache :: model_cache where
  "sample_cache = \<lparr>mc_inner = None, mc_catalogue = Some [\<lparr>mi_id = ''gpt'', mi_reasoning_efforts = None\<rparr>]\<rparr>"

definition sample_provider :: "endpoint list \<Rightarrow> provider" where
  "sample_provider es =
     \<lparr>pv_id = ''openai'',
      pv_info = \<lparr>pi_id = ''openai'', pi_auth_kind = Auth_Static_Key, pi_default_models = [], pi_default_endpoints = es, pi_model_cache = sample_cache\<rparr>,
      pv_driver = Default_Driver None\<rparr>"

definition routed_binding :: "string \<Rightarrow> endpoint list \<Rightarrow> provider provider_binding" where
  "routed_binding i es =
     \<lparr>pb_key = Binding_Key ''openai'' i, pb_driver_id = ''openai'', pb_account = default_account i ''openai'',
      pb_handle = new_handle (default_account i ''openai'') (sample_provider es), pb_account_order = 0\<rparr>"

text \<open>Account \<open>a\<close> serves chat completions, account \<open>b\<close> the responses API.\<close>

definition routed_pool :: "provider linked_account_pool" where
  "routed_pool =
     \<lparr>lp_id = ''main'', lp_strategy = Round_Robin, lp_failure_cooldown = 10, lp_session_affinity = None,
      lp_active = [\<lparr>la_account_id = ''a'', la_account_order = 0, la_binding = routed_binding ''a'' [Chat_Completions]\<rparr>,
                   \<lparr>la_account_id = ''b'', la_account_order = 1, la_binding = routed_binding ''b'' [Responses]\<rparr>],
      lp_fallback = []\<rparr>"

definition routed_runtime :: "provider pool_runtime" where
  "routed_runtime = new_runtime routed_pool"

lemma routed_runtime_ok: "runtime_ok now routed_runtime"
  unfolding routed_runtime_def
  by (rule new_runtime_ok(1)) (simp add: pool_ok_def pool_accounts_def routed_pool_def routed_binding_def pool_key_def)

definition routed_route :: managed_route where
  "routed_route = new_managed_route \<lparr>mt_provider = Any_Provider, mt_model = Capability\<rparr> Translate_Compatible None Managed_Never"

definition routed_ctx :: "unit pipeline_ctx" where
  "routed_ctx =
     \<lparr>cx_request_id = ''r'', cx_attempt = 0, cx_request_endpoint = Known Responses,
      cx_config = \<lparr>rc_inner = [], rc_agent_id = None, rc_generation_options = None, rc_request_method = None\<rparr>\<rparr>"

definition routed_request :: extracted where
  "routed_request = \<lparr>ex_agent_id = None, ex_model = ''gpt'', ex_session_id = None, ex_route_mode_hint = None\<rparr>"

section \<open>Properties\<close>

text \<open>
  C11. A managed selection is exact: the first pass, in the order of candidates, evidence and
  operations, for which some binding matches, is allowed to the API key and is not cooling,
  selects such a binding; when no pass has one the outcome is a denied access exactly when
  bindings match but the API key allows none of them, and no account otherwise.
\<close>

theorem managed_selection_exact:
  assumes "runtime_ok (clock 0) rt" and "mono clock" and "resolved_of (cx_request_endpoint ctx) = Some e"
    and "allowed_provider_ids ctx = Inr allowed" and "model_candidates route (ex_model extracted) = Inr candidates"
  shows "\<exists>outcome rt'. select_managed clock plan_route ctx extracted route rt = (Inr outcome, rt') \<and>
    passes_spec clock plan_route route allowed 0
      (selection_passes candidates (operation_candidates (mr_operation route) e)) False False rt outcome"
proof -
  have "fst (select_managed clock plan_route ctx extracted route rt) = Inr (fst (try_passes clock plan_route route allowed
      (ex_session_id extracted) 0 (selection_passes candidates (operation_candidates (mr_operation route) e)) False False rt))"
    using assms(3-5) by (simp add: select_managed_def res_bind_def res_map_def resolved_endpoint_def ok_or_def Let_def split_beta)
  with try_passes_spec [OF assms(1,2)] show ?thesis by (metis prod.collapse)
qed

theorem managed_selection_exact_witness:
  "\<exists>outcome rt'. select_managed (\<lambda>k. k) (Managed routed_route) routed_ctx routed_request routed_route routed_runtime =
     (Inr outcome, rt') \<and>
     passes_spec (\<lambda>k. k) (Managed routed_route) routed_route None 0
       (selection_passes [concrete_candidate False ''gpt''] [Responses, Chat_Completions, Messages])
       False False routed_runtime outcome"
proof -
  have "operation_candidates (mr_operation routed_route) Responses = [Responses, Chat_Completions, Messages]"
    by (simp add: operation_candidates_def routed_route_def new_managed_route_def builtin_operation_order_def)
  moreover have "model_candidates routed_route (ex_model routed_request) = Inr [concrete_candidate False ''gpt'']"
    by (simp add: model_candidates_def routed_route_def new_managed_route_def routed_request_def)
  moreover have "allowed_provider_ids routed_ctx = Inr None"
    by (simp add: allowed_provider_ids_def config_get_def routed_ctx_def bm_get_def)
  moreover have "resolved_of (cx_request_endpoint routed_ctx) = Some Responses" by (simp add: routed_ctx_def)
  ultimately show ?thesis
    using managed_selection_exact [of "\<lambda>k. k" routed_runtime routed_ctx Responses None routed_route routed_request
      "[concrete_candidate False ''gpt'']" "Managed routed_route"] routed_runtime_ok by (simp add: mono_def)
qed

text \<open>
  C12. A selection is admissible: a selected account belongs to a binding of the pool that
  the API key allows and that was not cooling, and the send stage will find the binding. A
  managed route only selects a provider the route allows, with a driver that has the endpoint for the
  model, and the requested operation when it preserves it; a relay only its fixed provider, with the
  requested model and operation, and without asking whether the driver has that endpoint (the code
  does not).
\<close>

theorem selection_is_admissible:
  assumes "runtime_ok (clock 0) rt" and "mono clock"
    and "select_account clock plan_route ctx extracted rt =
      (Inr (Outcome_Selected account_id provider_id operation model handle), rt')"
  shows "\<exists>b e allowed k. b \<in> set (selection_bindings rt) \<and> handle = Linked_Handle (pb_key b) \<and>
    account_id = bk_account (pb_key b) \<and> operation = Some e \<and> may_serve plan_route ctx extracted b e model \<and>
    allowed_provider_ids ctx = Inr allowed \<and> provider_allowed (bk_provider (pb_key b)) allowed \<and>
    cooling_until (clock k) rt (pb_key b) = None \<and> binding_for_handle rt handle = Some b"
proof -
  from select_account_open [OF assms refl] obtain k b allowed e where
    b: "b \<in> open_bindings (clock k) rt (\<lambda>_. True)"
    and o: "Outcome_Selected account_id provider_id operation model handle = selected_outcome b e model"
    and m: "may_serve plan_route ctx extracted b e model" "allowed_provider_ids ctx = Inr allowed"
      "provider_allowed (bk_provider (pb_key b)) allowed" by blast
  have s: "b \<in> set (selection_bindings rt)" "cooling_until (clock k) rt (pb_key b) = None"
    using b by (simp_all add: open_bindings_def)
  from o have "account_id = bk_account (pb_key b)" "operation = Some e" "handle = Linked_Handle (pb_key b)"
    by (simp_all add: selected_outcome_def)
  with m s find_handle [OF assms(1) s(1)] show ?thesis by blast
qed

definition routed_selection :: "(pipeline_error + selector_outcome) \<times> provider pool_runtime" where
  "routed_selection = select_account (\<lambda>k. k) (Managed routed_route) routed_ctx routed_request routed_runtime"

lemma routed_selects_b:
  "fst routed_selection =
     Inr (Outcome_Selected ''b'' ''openai'' (Some Responses) ''gpt'' (Linked_Handle (Binding_Key ''openai'' ''b'')))"
  by code_simp

theorem selection_is_admissible_witness:
  "binding_for_handle routed_runtime (Linked_Handle (Binding_Key ''openai'' ''b'')) \<noteq> None"
proof -
  obtain rt' where "select_account (\<lambda>k. k) (Managed routed_route) routed_ctx routed_request routed_runtime =
      (Inr (Outcome_Selected ''b'' ''openai'' (Some Responses) ''gpt'' (Linked_Handle (Binding_Key ''openai'' ''b''))), rt')"
    using routed_selects_b unfolding routed_selection_def by (metis prod.collapse)
  from selection_is_admissible [OF _ _ this] routed_runtime_ok show ?thesis by (auto simp: mono_def)
qed

text \<open>
  C13. A retry moves on: after a recoverable failure of a send through a pool account at \<open>t\<close>,
  whatever other requests do to the pool short of a success of that account, a selection
  that ends before the base cooldown has passed (or before the platform's last instant)
  does not select that account.
\<close>

theorem retry_avoids_failed_account:
  assumes "runtime_ok t rt" and "pe_recoverable err" and "t \<le> horizon" and "key \<in> pool_keys rt"
    and "rs_account_handle resolved = Linked_Handle key"
    and "pool_aware_send horizon t ex resolved (Inl err :: pipeline_error + 's) rt = (answer, rt1)"
    and "pool_run horizon rt1 evs rt2" and "\<forall>t' sid. Ev_Success t' sid key \<notin> set evs"
    and "sorted (map event_time evs)"
    and "\<forall>e \<in> set evs. t \<le> event_time e \<and> event_time e \<le> horizon \<and> event_time e \<le> clock 0"
    and "mono clock" and "t \<le> clock 0"
    and "\<forall>k. clock k < min (t + min (lp_failure_cooldown (rt_pool rt)) duration_max) horizon"
    and "select_account clock plan_route ctx extracted rt2 =
      (Inr (Outcome_Selected account_id provider_id operation model handle), rt3)"
  shows "answer = Inl err \<and> handle \<noteq> Linked_Handle key"
proof -
  from assms(4) obtain l where l: "l \<in> set (pool_accounts (rt_pool rt))" "pool_key l = key" by (auto simp: pool_keys_def)
  then have b: "la_binding l \<in> set (selection_bindings rt)" "pb_key (la_binding l) = key"
    by (auto simp: set_selection_bindings pool_key_def)
  with find_handle [OF assms(1) b(1)] assms(2,5,6)
  have s: "answer = Inl err" "rt1 = note_failure horizon t key rt" by (simp_all add: pool_aware_send_def)
  from assms(4) runtime_ok_known [OF assms(1), of key] obtain r where
    f: "record_failure horizon t key rt = Inr (r, rt1)"
    unfolding s(2) by (auto simp: note_failure_def record_failure_def Let_def split: sum.splits prod.splits)
  from record_failure_back_off [OF assms(1) f assms(3)] obtain n where n: "n \<le> u32_max" "1 \<le> n"
    and r: "r = min (t + cooldown_duration (lp_failure_cooldown (rt_pool rt)) n) horizon"
    and bo: "backed_off r n key rt1" by blast
  have ok1: "runtime_ok t rt1" by (rule runtime_ok_failure [OF assms(1) f])
  have "backed_off (min (t + cooldown_duration (lp_failure_cooldown (rt_pool rt1)) n) horizon) n key rt1"
    using bo unfolding r failure_frame(1) [OF f] .
  from backed_off_run [OF assms(7) ok1 this assms(8,9) _ n(1) assms(12)] assms(10) r failure_frame(1) [OF f]
  have bo2: "backed_off r n key rt2" and ok2: "runtime_ok (clock 0) rt2" by simp_all
  from select_account_open [OF ok2 assms(11) assms(14) refl] obtain k c e where
    c: "c \<in> open_bindings (clock k) rt2 (\<lambda>_. True)"
    and h: "handle = Linked_Handle (pb_key c)" by (auto simp: selected_outcome_def)
  have "min (t + min (lp_failure_cooldown (rt_pool rt)) duration_max) horizon \<le> r"
    using cooldown_at_least_base [OF n(2), of "lp_failure_cooldown (rt_pool rt)"] unfolding r by (simp add: min.coboundedI1 min_le_iff_disj)
  with assms(13) have "clock k < r" by (meson less_le_trans)
  with bo2 have "cooling_until (clock k) rt2 key \<noteq> None" by (auto simp: backed_off_def cooling_until_def)
  with c h s(1) show ?thesis by (auto simp: open_bindings_def)
qed

definition routed_resolved :: resolved where
  "routed_resolved =
     \<lparr>rs_agent_id = None, rs_model = ''gpt'', rs_upstream_model = ''gpt'', rs_route = Route_Operation Responses Responses,
      rs_account_id = ''b'', rs_provider_id = ''openai'', rs_account_handle = Linked_Handle (Binding_Key ''openai'' ''b'')\<rparr>"

definition routed_error :: pipeline_error where
  "routed_error = recoverable Send_Stage (Upstream_Status 429 [])"

definition routed_failed :: "provider pool_runtime" where
  "routed_failed = snd (pool_aware_send 1000 3 routed_request routed_resolved (Inl routed_error :: pipeline_error + unit) routed_runtime)"

definition routed_retry :: "(pipeline_error + selector_outcome) \<times> provider pool_runtime" where
  "routed_retry = select_account (\<lambda>_. 12) (Managed routed_route) routed_ctx routed_request routed_failed"

lemma routed_retry_selects_a:
  "fst routed_retry =
     Inr (Outcome_Selected ''a'' ''openai'' (Some Chat_Completions) ''gpt'' (Linked_Handle (Binding_Key ''openai'' ''a'')))"
  by code_simp

theorem retry_avoids_failed_account_witness:
  "\<exists>handle. so_handle (projr (fst routed_retry)) = handle \<and> handle \<noteq> Linked_Handle (Binding_Key ''openai'' ''b'')"
proof -
  obtain rt' where sel: "select_account (\<lambda>_. 12) (Managed routed_route) routed_ctx routed_request routed_failed =
      (Inr (Outcome_Selected ''a'' ''openai'' (Some Chat_Completions) ''gpt'' (Linked_Handle (Binding_Key ''openai'' ''a''))), rt')"
    using routed_retry_selects_a unfolding routed_retry_def by (metis prod.collapse)
  have key: "Binding_Key ''openai'' ''b'' \<in> pool_keys routed_runtime"
    by (simp add: pool_keys_def routed_runtime_def new_runtime_def Let_def routed_pool_def pool_accounts_def pool_key_def routed_binding_def)
  have cool: "lp_failure_cooldown (rt_pool routed_runtime) = 10"
    by (simp add: routed_runtime_def new_runtime_def Let_def routed_pool_def)
  obtain answer where send: "pool_aware_send 1000 3 routed_request routed_resolved (Inl routed_error :: pipeline_error + unit)
      routed_runtime = (answer, routed_failed)"
    unfolding routed_failed_def by (metis prod.collapse)
  have "12 < min (3 + min (10::nat) duration_max) 1000" by (simp add: duration_max_def nanos_per_sec_def)
  then have "Linked_Handle (Binding_Key ''openai'' ''a'') \<noteq> Linked_Handle (Binding_Key ''openai'' ''b'')"
    using retry_avoids_failed_account [OF routed_runtime_ok _ _ key _ send pool_run.start _ _ _ _ _ _ sel] cool
    by (simp add: routed_error_def recoverable_def routed_resolved_def mono_def)
  with routed_retry_selects_a show ?thesis by simp
qed

text \<open>
  The evidence that the matcher treats as unreachable never reaches it: it is in no
  pass of a selection.
\<close>

lemma preferred_evidence_never_matched:
  "Evidence_Preferred \<notin> (\<lambda>(c, ev, e). ev) ` set (selection_passes candidates operations)"
proof -
  have "ev \<noteq> Evidence_Preferred" if "(c, ev, e) \<in> set (selection_passes candidates operations)" for c ev e
    using that unfolding selection_passes_set by (cases "mc_evidence c") auto
  then show ?thesis by auto
qed

text \<open>
  C35. A relay with the client's own credentials never leaves its provider: an accepted
  request goes to the fixed provider when there is one, allowed to the API key, carries a
  stub account that no pool knows, and with an origin table its origin belongs to an allowed
  provider.
\<close>

theorem client_relay_confined:
  assumes "client_resolve c ctx extracted = Inr r"
  shows "(\<forall>p. cr_fixed_provider c = Some p \<longrightarrow> rs_provider_id r = p \<and>
      (\<exists>allowed. allowed_provider_ids ctx = Inr allowed \<and> provider_allowed p allowed)) \<and>
    (\<forall>origins. cr_allowed_origins c = Some origins \<longrightarrow>
      (\<exists>origin p allowed. config_get_str (cx_config ctx) v2_proxy_origin_key = Some origin \<and> bm_get origins origin = Some p \<and>
         allowed_provider_ids ctx = Inr allowed \<and> provider_allowed p allowed)) \<and>
    config_get_str (cx_config ctx) proxy_host_key \<noteq> None \<and> binding_for_handle rt (rs_account_handle r) = None"
  using assms
  by (auto simp: client_resolve_def deny_unless_def client_origin_admitted_def proxy_resolve_def res_bind_def
      res_map_def ok_or_def Let_def binding_for_handle_def find_None_iff bind_eq_Some_conv
      split: option.splits sum.splits if_splits)

definition relayed_ctx :: "unit pipeline_ctx" where
  "relayed_ctx =
     \<lparr>cx_request_id = ''r'', cx_attempt = 0, cx_request_endpoint = Known Responses,
      cx_config = \<lparr>rc_inner = [(''proxy.host'', J_String ''api.openai.com''), (''proxy.provider_id'', J_String ''openai'')],
        rc_agent_id = None, rc_generation_options = None, rc_request_method = None\<rparr>\<rparr>"

definition relayed_resolver :: client_resolver where
  "relayed_resolver = \<lparr>cr_fixed_provider = Some ''openai'', cr_allowed_origins = None\<rparr>"

theorem client_relay_confined_witness:
  "\<exists>r. client_resolve relayed_resolver relayed_ctx routed_request = Inr r \<and> rs_provider_id r = ''openai''"
proof -
  have "(case client_resolve relayed_resolver relayed_ctx routed_request of Inr _ \<Rightarrow> True | Inl _ \<Rightarrow> False)"
    by code_simp
  then obtain r where "client_resolve relayed_resolver relayed_ctx routed_request = Inr r"
    by (auto split: sum.splits)
  with client_relay_confined [OF this] show ?thesis by (auto simp: relayed_resolver_def)
qed

end
