(* ===== verification/Access.thy ===== *)
theory Access
  imports Std_Str Json
begin

text \<open>
  API keys of the gateway's clients (crates/access/src/lib.rs) over the table of
  crates/persistence/src/access.rs.

  The table \<open>api_keys\<close> has the id as primary key; it is a map from ids to rows, and the
  statements on it are the SQL of the source. \<open>sha256\<close> is the digest of a secret, \<open>render\<close>
  and \<open>parse\<close> the JSON text of a value and back. The random identifiers of the uuid library
  are an argument: a stream of their 32 hexadecimal digits.
\<close>

section \<open>Providers a key may use\<close>

datatype provider_access = All_Providers | Only_Providers "string bset"

datatype access_error =
    Wildcard_Combined
  | Empty_Provider_Id
  | Undecodable_Providers
  | Empty_Key_Name
  | No_Unique_Id

definition wildcard :: string where
  "wildcard = ''*''"

definition from_provider_ids :: "string list \<Rightarrow> access_error + provider_access" where
  "from_provider_ids ids =
     (if ids = [] then Inr All_Providers
      else if list_ex (\<lambda>p. str_trim p = wildcard) ids then
        (if length ids \<noteq> 1 then Inl Wildcard_Combined else Inr All_Providers)
      else
        (let providers = bs_of_list (map str_trim ids)
         in if list_ex (\<lambda>p. p = []) providers then Inl Empty_Provider_Id else Inr (Only_Providers providers)))"

fun access_allows :: "provider_access \<Rightarrow> string \<Rightarrow> bool" where
  "access_allows All_Providers p = True"
| "access_allows (Only_Providers ps) p = bs_contains ps p"

fun access_provider_ids :: "provider_access \<Rightarrow> string bset option" where
  "access_provider_ids All_Providers = None"
| "access_provider_ids (Only_Providers ps) = Some ps"

fun access_display :: "provider_access \<Rightarrow> string" where
  "access_display All_Providers = wildcard"
| "access_display (Only_Providers ps) = join_with '','' ps"

fun access_strings :: "provider_access \<Rightarrow> string list" where
  "access_strings All_Providers = [wildcard]"
| "access_strings (Only_Providers ps) = ps"

definition access_to_json :: "(json \<Rightarrow> string) \<Rightarrow> provider_access \<Rightarrow> string" where
  "access_to_json render a = render (J_Array (map J_String (access_strings a)))"

text \<open>Decoding a \<open>Vec<String>\<close>.\<close>

fun string_list :: "json list \<Rightarrow> string list option" where
  "string_list [] = Some []"
| "string_list (J_String s # vs) = map_option ((#) s) (string_list vs)"
| "string_list (_ # vs) = None"

definition access_from_json :: "(string \<Rightarrow> json option) \<Rightarrow> string \<Rightarrow> access_error + provider_access" where
  "access_from_json parse text =
     res_bind (ok_or Undecodable_Providers (Option.bind (Option.bind (parse text) json_array) string_list)) from_provider_ids"

record access_context =
  ac_key_id :: "string option"
  ac_key_name :: "string option"
  ac_providers :: provider_access

definition unrestricted :: access_context where
  "unrestricted = \<lparr>ac_key_id = None, ac_key_name = None, ac_providers = All_Providers\<rparr>"

section \<open>The table\<close>

record key_row =
  kr_name :: string
  kr_secret_hash :: string
  kr_allowed_providers :: string
  kr_created_at :: int
  kr_revoked_at :: "int option"

type_synonym access_db = "(string, key_row) bmap"

text \<open>\<open>INSERT OR IGNORE\<close>: whether a row was added.\<close>

definition insert_key :: "string \<Rightarrow> key_row \<Rightarrow> access_db \<Rightarrow> bool \<times> access_db" where
  "insert_key key_id row db =
     (case bm_get db key_id of Some _ \<Rightarrow> (False, db) | None \<Rightarrow> (True, bm_insert key_id row db))"

text \<open>\<open>UPDATE .. SET revoked_at = COALESCE(revoked_at, ?1) WHERE id = ?2\<close>: whether a row matched.\<close>

definition db_revoke_key :: "string \<Rightarrow> int \<Rightarrow> access_db \<Rightarrow> bool \<times> access_db" where
  "db_revoke_key key_id revoked_at db =
     (case bm_get db key_id of
        None \<Rightarrow> (False, db)
      | Some row \<Rightarrow>
          (True, bm_insert key_id
             (row\<lparr>kr_revoked_at := Some (case kr_revoked_at row of Some t \<Rightarrow> t | None \<Rightarrow> revoked_at)\<rparr>) db))"

definition find_key :: "access_db \<Rightarrow> string \<Rightarrow> key_row option" where
  "find_key db key_id = bm_get db key_id"

text \<open>\<open>ORDER BY created_at, id\<close>: the rows are in the order of their ids, and the sort is stable.\<close>

definition db_list_keys :: "access_db \<Rightarrow> (string \<times> key_row) list" where
  "db_list_keys db = sort_key (\<lambda>(_, row). kr_created_at row) db"

section \<open>The store\<close>

record created_key =
  ck_id :: string
  ck_name :: string
  ck_token :: string
  ck_providers :: provider_access
  ck_created_at :: int

record key_summary =
  ks_id :: string
  ks_name :: string
  ks_providers :: provider_access
  ks_created_at :: int
  ks_revoked_at :: "int option"

datatype authentication_error = Auth_Missing | Auth_Invalid | Auth_Revoked

definition key_token :: "string \<Rightarrow> string \<Rightarrow> string" where
  "key_token key_id secret = ''tokn_'' @ key_id @ ''_'' @ secret"

text \<open>Attempts to insert a key with fresh identifiers, at most \<open>n\<close> of them.\<close>

fun try_create ::
  "(json \<Rightarrow> string) \<Rightarrow> (string \<Rightarrow> string) \<Rightarrow> (nat \<Rightarrow> string) \<Rightarrow> string \<Rightarrow> provider_access \<Rightarrow> int \<Rightarrow> nat \<Rightarrow> nat \<Rightarrow>
   access_db \<Rightarrow> (access_error + created_key) \<times> access_db" where
  "try_create render sha256 uuids name providers now i 0 db = (Inl No_Unique_Id, db)"
| "try_create render sha256 uuids name providers now i (Suc n) db =
     (let key_id = take 16 (uuids i); secret = uuids (i + 1) @ uuids (i + 2);
          (inserted, db') = insert_key key_id
            \<lparr>kr_name = name, kr_secret_hash = sha256 secret, kr_allowed_providers = access_to_json render providers,
             kr_created_at = now, kr_revoked_at = None\<rparr> db
      in if inserted then
           (Inr \<lparr>ck_id = key_id, ck_name = name, ck_token = key_token key_id secret, ck_providers = providers,
                 ck_created_at = now\<rparr>, db')
         else try_create render sha256 uuids name providers now (i + 3) n db')"

definition create_key ::
  "(json \<Rightarrow> string) \<Rightarrow> (string \<Rightarrow> string) \<Rightarrow> (nat \<Rightarrow> string) \<Rightarrow> int \<Rightarrow> string \<Rightarrow> string list \<Rightarrow> access_db \<Rightarrow>
   (access_error + created_key) \<times> access_db" where
  "create_key render sha256 uuids now name provider_ids db =
     (if str_trim name = [] then (Inl Empty_Key_Name, db)
      else
        (case from_provider_ids provider_ids of
           Inl e \<Rightarrow> (Inl e, db)
         | Inr providers \<Rightarrow> try_create render sha256 uuids name providers now 0 4 db))"

definition list_keys :: "(string \<Rightarrow> json option) \<Rightarrow> access_db \<Rightarrow> access_error + key_summary list" where
  "list_keys parse db =
     res_collect (\<lambda>(key_id, row).
       res_map (\<lambda>providers.
           \<lparr>ks_id = key_id, ks_name = kr_name row, ks_providers = providers, ks_created_at = kr_created_at row,
            ks_revoked_at = kr_revoked_at row\<rparr>)
         (access_from_json parse (kr_allowed_providers row))) (db_list_keys db)"

definition revoke_key :: "int \<Rightarrow> string \<Rightarrow> access_db \<Rightarrow> bool \<times> access_db" where
  "revoke_key now key_id db = db_revoke_key key_id now db"

definition parse_token :: "string \<Rightarrow> (string \<times> string) option" where
  "parse_token token =
     (case split_on (CHR ''_'') (str_trim token) of
        [prefix, key_id, secret] \<Rightarrow>
          if prefix = ''tokn'' \<and> length key_id = 16 \<and> length secret = 64 then Some (key_id, secret) else None
      | _ \<Rightarrow> None)"

text \<open>\<open>available\<close> is whether the lookup in the database succeeds.\<close>

definition authenticate ::
  "(string \<Rightarrow> json option) \<Rightarrow> (string \<Rightarrow> string) \<Rightarrow> bool \<Rightarrow> access_db \<Rightarrow> string option \<Rightarrow>
   authentication_error + access_context" where
  "authenticate parse sha256 available db token =
     res_bind (ok_or Auth_Missing token) (\<lambda>token.
     res_bind (ok_or Auth_Invalid (parse_token token)) (\<lambda>(key_id, secret).
     res_bind (ok_or Auth_Invalid (if available then find_key db key_id else None)) (\<lambda>row.
       if kr_revoked_at row \<noteq> None then Inl Auth_Revoked
       else if kr_secret_hash row \<noteq> sha256 secret then Inl Auth_Invalid
       else
         res_bind (map_err (\<lambda>_. Auth_Invalid) (access_from_json parse (kr_allowed_providers row))) (\<lambda>providers.
           Inr \<lparr>ac_key_id = Some key_id, ac_key_name = Some (kr_name row), ac_providers = providers\<rparr>))))"

section \<open>Round trips\<close>

definition hex_digits :: string where
  "hex_digits = ''0123456789abcdef''"

definition is_hex :: "string \<Rightarrow> bool" where
  "is_hex s \<longleftrightarrow> list_all (\<lambda>c. c \<in> set hex_digits) s"

lemma no_hex_white_space:
  "list_all (\<lambda>w. w \<noteq> [] \<and> hd w \<noteq> CHR ''t'' \<and> last w \<notin> set hex_digits) white_space"
  by code_simp

lemma last_hex: "is_hex s \<Longrightarrow> s \<noteq> [] \<Longrightarrow> last s \<in> set hex_digits"
  by (simp add: is_hex_def list_all_iff)

lemma trim_token:
  assumes "is_hex secret" "secret \<noteq> []"
  shows "str_trim (key_token key_id secret) = key_token key_id secret"
proof (rule str_trim_fixed, intro ballI conjI)
  fix w
  assume "w \<in> set white_space"
  then have w: "w \<noteq> []" "hd w \<noteq> CHR ''t''" "last w \<notin> set hex_digits"
    using no_hex_white_space unfolding list_all_iff by blast+
  show "\<not> starts_with w (key_token key_id secret)"
  proof
    assume "starts_with w (key_token key_id secret)"
    then obtain r where r: "key_token key_id secret = w @ r" unfolding starts_with_iff by blast
    have "hd (key_token key_id secret) = CHR ''t''" by (simp add: key_token_def)
    then have "hd w = CHR ''t''" using w(1) r by simp
    with w show False by blast
  qed
  have last: "last (key_token key_id secret) = last secret" using assms(2) by (simp add: key_token_def)
  show "\<not> ends_with w (key_token key_id secret)"
  proof
    assume "ends_with w (key_token key_id secret)"
    then obtain r where "key_token key_id secret = r @ w" unfolding ends_with_iff by blast
    then have "last w = last secret" using last w(1) by (metis last_appendR)
    with last_hex [OF assms] w(3) show False by simp
  qed
qed

lemma hex_no_underscore: "is_hex s \<Longrightarrow> CHR ''_'' \<notin> set s"
  unfolding is_hex_def list_all_iff hex_digits_def by auto

lemma parse_key_token:
  assumes "is_hex key_id" "length key_id = 16" "is_hex secret" "length secret = 64"
  shows "parse_token (key_token key_id secret) = Some (key_id, secret)"
proof -
  have "secret \<noteq> []" using assms(4) by auto
  have "split_on (CHR ''_'') (key_id @ CHR ''_'' # secret) = [key_id, secret]"
    using hex_no_underscore [OF assms(1)] hex_no_underscore [OF assms(3)]
    by (simp add: split_on_append_sep split_on_absent)
  moreover have "split_on (CHR ''_'') (''tokn'' @ CHR ''_'' # key_id @ CHR ''_'' # secret) =
      ''tokn'' # split_on (CHR ''_'') (key_id @ CHR ''_'' # secret)"
    by (rule split_on_append_sep) simp
  ultimately have "split_on (CHR ''_'') (''tokn'' @ CHR ''_'' # key_id @ CHR ''_'' # secret) = [''tokn'', key_id, secret]"
    by simp
  moreover have "str_trim (key_token key_id secret) = ''tokn'' @ CHR ''_'' # key_id @ CHR ''_'' # secret"
    unfolding trim_token [OF assms(3) \<open>secret \<noteq> []\<close>] by (simp add: key_token_def)
  ultimately have "split_on (CHR ''_'') (str_trim (key_token key_id secret)) = [''tokn'', key_id, secret]"
    by (simp only:)
  with assms show ?thesis unfolding parse_token_def by (simp only:) simp
qed

lemma parse_token_inverse:
  assumes "parse_token token = Some (key_id, secret)"
  shows "str_trim token = key_token key_id secret"
proof -
  from assms have "split_on (CHR ''_'') (str_trim token) = [''tokn'', key_id, secret]"
    by (auto simp: parse_token_def split: list.splits if_splits)
  with join_split_on [of "CHR ''_''" "str_trim token"] show ?thesis by (simp add: key_token_def)
qed

lemma string_list_map: "string_list (map J_String xs) = Some xs"
  by (induction xs) simp_all

lemma wildcard_trimmed: "str_trim wildcard = wildcard"
  by code_simp

text \<open>What a key is created with is what is read back.\<close>

lemma provider_ids_normal:
  assumes "from_provider_ids ids = Inr a"
  shows "from_provider_ids (access_strings a) = Inr a"
proof (cases "ids = [] \<or> list_ex (\<lambda>p. str_trim p = wildcard) ids")
  case True
  with assms have a: "a = All_Providers" by (auto simp: from_provider_ids_def split: if_splits)
  show ?thesis by (simp add: a from_provider_ids_def wildcard_trimmed)
next
  case False
  let ?ps = "bs_of_list (map str_trim ids)"
  from False assms have a: "a = Only_Providers ?ps" and ne: "[] \<notin> set ?ps"
    by (auto simp: from_provider_ids_def Let_def list_ex_iff split: if_splits)
  have set: "set ?ps = str_trim ` set ids" by (simp add: bs_of_list_def)
  have trim: "map str_trim ?ps = ?ps"
  proof (rule map_idI)
    fix p assume "p \<in> set ?ps"
    with set obtain q where "p = str_trim q" by blast
    then show "str_trim p = p" by simp
  qed
  have "bs_of_list ?ps = ?ps"
    by (simp add: bs_of_list_def sorted_sort_id distinct_remdups_id)
  moreover have "?ps \<noteq> []"
  proof
    assume "?ps = []"
    with set have "str_trim ` set ids = {}" by simp
    with False show False by simp
  qed
  moreover have "\<not> list_ex (\<lambda>p. str_trim p = wildcard) ?ps"
    using False unfolding list_ex_iff set by auto
  moreover have "\<not> list_ex (\<lambda>p. p = []) ?ps" using ne unfolding list_ex_iff by blast
  ultimately show ?thesis unfolding a access_strings.simps from_provider_ids_def Let_def trim by simp
qed

lemma access_json_round_trip:
  assumes "from_provider_ids ids = Inr a"
    and "parse (access_to_json render a) = Some (J_Array (map J_String (access_strings a)))"
  shows "access_from_json parse (access_to_json render a) = Inr a"
  using provider_ids_normal [OF assms(1)] assms(2) by (simp add: access_from_json_def string_list_map)

section \<open>The keys that were issued\<close>

text \<open>
  What the store promises, without a table: a list of the keys it has issued, each revoked or
  not. A token is accepted exactly if it is that of an issued key that is not revoked.
\<close>

datatype key_op = Create_Op "nat \<Rightarrow> string" int string "string list" | Revoke_Op int string

type_synonym issued = "(created_key \<times> bool) list"

fun key_step ::
  "(json \<Rightarrow> string) \<Rightarrow> (string \<Rightarrow> string) \<Rightarrow> key_op \<Rightarrow> access_db \<times> issued \<Rightarrow> access_db \<times> issued" where
  "key_step render sha256 (Create_Op uuids now name ids) (db, keys) =
     (case create_key render sha256 uuids now name ids db of
        (Inr key, db') \<Rightarrow> (db', keys @ [(key, False)])
      | (Inl _, db') \<Rightarrow> (db', keys))"
| "key_step render sha256 (Revoke_Op now key_id) (db, keys) =
     (snd (revoke_key now key_id db), map (\<lambda>(key, revoked). (key, revoked \<or> ck_id key = key_id)) keys)"

definition run_keys :: "(json \<Rightarrow> string) \<Rightarrow> (string \<Rightarrow> string) \<Rightarrow> key_op list \<Rightarrow> access_db \<times> issued" where
  "run_keys render sha256 ops = fold (key_step render sha256) ops ([], [])"

definition key_context :: "created_key \<Rightarrow> access_context" where
  "key_context key = \<lparr>ac_key_id = Some (ck_id key), ac_key_name = Some (ck_name key), ac_providers = ck_providers key\<rparr>"

text \<open>
  What the environment does: identifiers are 32 hexadecimal digits, and the JSON library reads
  back the list of providers it wrote.
\<close>

definition uuids_ok :: "(nat \<Rightarrow> string) \<Rightarrow> bool" where
  "uuids_ok uuids \<longleftrightarrow> (\<forall>i. length (uuids i) = 32 \<and> is_hex (uuids i))"

fun op_ok :: "(string \<Rightarrow> json option) \<Rightarrow> (json \<Rightarrow> string) \<Rightarrow> key_op \<Rightarrow> bool" where
  "op_ok parse render (Create_Op uuids now name ids) \<longleftrightarrow>
     uuids_ok uuids \<and>
     (case from_provider_ids ids of
        Inl _ \<Rightarrow> True
      | Inr a \<Rightarrow> parse (access_to_json render a) = Some (J_Array (map J_String (access_strings a))))"
| "op_ok parse render (Revoke_Op now key_id) \<longleftrightarrow> True"

text \<open>A row of the table and the key it stands for.\<close>

definition row_of_key ::
  "(string \<Rightarrow> json option) \<Rightarrow> (json \<Rightarrow> string) \<Rightarrow> (string \<Rightarrow> string) \<Rightarrow> key_row \<Rightarrow> created_key \<Rightarrow> bool \<Rightarrow> bool" where
  "row_of_key parse render sha256 row key revoked \<longleftrightarrow>
     kr_name row = ck_name key \<and> access_from_json parse (kr_allowed_providers row) = Inr (ck_providers key) \<and>
     (kr_revoked_at row \<noteq> None) = revoked \<and>
     (\<exists>secret. ck_token key = key_token (ck_id key) secret \<and> kr_secret_hash row = sha256 secret \<and>
        is_hex secret \<and> length secret = 64 \<and> is_hex (ck_id key) \<and> length (ck_id key) = 16)"

definition keys_inv ::
  "(string \<Rightarrow> json option) \<Rightarrow> (json \<Rightarrow> string) \<Rightarrow> (string \<Rightarrow> string) \<Rightarrow> access_db \<times> issued \<Rightarrow> bool" where
  "keys_inv parse render sha256 st \<longleftrightarrow>
     bm_ok (fst st) \<and>
     (\<forall>key_id row. bm_get (fst st) key_id = Some row \<longrightarrow>
        (\<exists>key revoked. (key, revoked) \<in> set (snd st) \<and> ck_id key = key_id)) \<and>
     (\<forall>key revoked. (key, revoked) \<in> set (snd st) \<longrightarrow>
        (\<exists>row. bm_get (fst st) (ck_id key) = Some row \<and> row_of_key parse render sha256 row key revoked))"

lemma try_create_cases:
  "try_create render sha256 uuids name providers now i n db = (r, db') \<Longrightarrow>
   (\<exists>e. r = Inl e \<and> db' = db) \<or>
   (\<exists>j. bm_get db (take 16 (uuids j)) = None \<and>
     r = Inr \<lparr>ck_id = take 16 (uuids j), ck_name = name, ck_token = key_token (take 16 (uuids j)) (uuids (j + 1) @ uuids (j + 2)),
              ck_providers = providers, ck_created_at = now\<rparr> \<and>
     db' = bm_insert (take 16 (uuids j))
       \<lparr>kr_name = name, kr_secret_hash = sha256 (uuids (j + 1) @ uuids (j + 2)),
        kr_allowed_providers = access_to_json render providers, kr_created_at = now, kr_revoked_at = None\<rparr> db)"
proof (induction n arbitrary: i)
  case (Suc n)
  show ?case
  proof (cases "bm_get db (take 16 (uuids i))")
    case None
    with Suc.prems show ?thesis by (intro disjI2 exI [of _ i]) (auto simp: Let_def insert_key_def)
  next
    case (Some row)
    with Suc.prems have "try_create render sha256 uuids name providers now (i + 3) n db = (r, db')"
      by (simp add: Let_def insert_key_def)
    from Suc.IH [OF this] show ?thesis .
  qed
qed auto

lemma hex_take: "is_hex s \<Longrightarrow> is_hex (take n s)"
  unfolding is_hex_def list_all_iff by (meson in_set_takeD)

lemma hex_append: "is_hex (s @ t) \<longleftrightarrow> is_hex s \<and> is_hex t"
  by (simp add: is_hex_def)

lemma keys_inv_create:
  assumes inv: "keys_inv parse render sha256 (db, keys)" and ok: "op_ok parse render (Create_Op uuids now name ids)"
  shows "keys_inv parse render sha256 (key_step render sha256 (Create_Op uuids now name ids) (db, keys))"
proof -
  obtain r db' where r: "create_key render sha256 uuids now name ids db = (r, db')" by fastforce
  show ?thesis
  proof (cases "\<exists>e. r = Inl e \<and> db' = db")
    case True
    with r inv show ?thesis by auto
  next
    case False
    with r obtain providers where p: "from_provider_ids ids = Inr providers"
      and t: "try_create render sha256 uuids name providers now 0 4 db = (r, db')"
      by (auto simp: create_key_def split: if_splits sum.splits)
    from try_create_cases [OF t] False obtain j where fresh: "bm_get db (take 16 (uuids j)) = None"
      and key: "r = Inr \<lparr>ck_id = take 16 (uuids j), ck_name = name,
          ck_token = key_token (take 16 (uuids j)) (uuids (j + 1) @ uuids (j + 2)), ck_providers = providers, ck_created_at = now\<rparr>"
      and db': "db' = bm_insert (take 16 (uuids j))
       \<lparr>kr_name = name, kr_secret_hash = sha256 (uuids (j + 1) @ uuids (j + 2)),
        kr_allowed_providers = access_to_json render providers, kr_created_at = now, kr_revoked_at = None\<rparr> db"
      by blast
    obtain k where k: "k = \<lparr>ck_id = take 16 (uuids j), ck_name = name,
          ck_token = key_token (take 16 (uuids j)) (uuids (j + 1) @ uuids (j + 2)), ck_providers = providers, ck_created_at = now\<rparr>"
      by blast
    from inv have bm: "bm_ok db" by (simp add: keys_inv_def)
    from ok have uuids: "length (uuids i) = 32" "is_hex (uuids i)" for i by (auto simp: uuids_ok_def)
    have json: "access_from_json parse (access_to_json render providers) = Inr providers"
      using access_json_round_trip [OF p] ok p by simp
    have row: "\<exists>row. bm_get db' (ck_id k) = Some row \<and> row_of_key parse render sha256 row k False"
      using bm json uuids hex_take by (auto simp: db' k bm_get_insert row_of_key_def hex_append)
    have old: "bm_get db' (ck_id key) = bm_get db (ck_id key)" if "(key, revoked) \<in> set keys" for key revoked
      using inv fresh that bm unfolding keys_inv_def by (force simp: db' bm_get_insert)
    have step: "key_step render sha256 (Create_Op uuids now name ids) (db, keys) = (db', keys @ [(k, False)])"
      using r key k by simp
    have "\<exists>key revoked. (key, revoked) \<in> set (keys @ [(k, False)]) \<and> ck_id key = key_id"
      if "bm_get db' key_id = Some row" for key_id row
      using that inv bm unfolding keys_inv_def by (auto simp: db' bm_get_insert k split: if_splits)
    moreover have "bm_ok db'" using bm by (simp add: db' bm_ok_insert)
    moreover have "\<exists>row. bm_get db' (ck_id key) = Some row \<and> row_of_key parse render sha256 row key revoked"
      if "(key, revoked) \<in> set (keys @ [(k, False)])" for key revoked
    proof (cases "(key, revoked) \<in> set keys")
      case True
      with inv old [OF True] show ?thesis unfolding keys_inv_def by simp
    next
      case False
      with that row show ?thesis by simp
    qed
    ultimately show ?thesis unfolding step keys_inv_def fst_conv snd_conv by blast
  qed
qed

lemma keys_inv_revoke:
  assumes inv: "keys_inv parse render sha256 (db, keys)"
  shows "keys_inv parse render sha256 (key_step render sha256 (Revoke_Op now key_id) (db, keys))"
proof -
  let ?db = "snd (revoke_key now key_id db)"
  from inv have bm: "bm_ok db" by (simp add: keys_inv_def)
  have get: "bm_get ?db i = (case bm_get db i of None \<Rightarrow> None | Some row \<Rightarrow>
      Some (if i = key_id then row\<lparr>kr_revoked_at := Some (case kr_revoked_at row of Some t \<Rightarrow> t | None \<Rightarrow> now)\<rparr> else row))" for i
    using bm by (auto simp: revoke_key_def db_revoke_key_def bm_get_insert split: option.split)
  have ok: "bm_ok ?db" using bm by (auto simp: revoke_key_def db_revoke_key_def bm_ok_insert split: option.split)
  have known: "\<exists>key revoked. (key, revoked) \<in> set keys \<and> ck_id key = i" if "bm_get ?db i = Some row" for i row
    using that inv unfolding keys_inv_def get by (auto split: option.splits)
  have stored: "\<exists>row. bm_get ?db (ck_id key) = Some row \<and> row_of_key parse render sha256 row key (revoked \<or> ck_id key = key_id)"
    if "(key, revoked) \<in> set keys" for key revoked
  proof -
    from inv that obtain row where "bm_get db (ck_id key) = Some row" "row_of_key parse render sha256 row key revoked"
      unfolding keys_inv_def by fastforce
    then show ?thesis unfolding get by (auto simp: row_of_key_def)
  qed
  let ?keys = "map (\<lambda>(key, revoked). (key, revoked \<or> ck_id key = key_id)) keys"
  have "\<exists>key revoked. (key, revoked) \<in> set ?keys \<and> ck_id key = i" if "bm_get ?db i = Some row" for i row
  proof -
    from known [OF that] obtain key revoked where "(key, revoked) \<in> set keys" "ck_id key = i" by blast
    then show ?thesis by force
  qed
  moreover have "\<exists>row. bm_get ?db (ck_id key) = Some row \<and> row_of_key parse render sha256 row key revoked"
    if "(key, revoked) \<in> set ?keys" for key revoked
    using that stored by auto
  ultimately show ?thesis unfolding keys_inv_def key_step.simps fst_conv snd_conv using ok by blast
qed

text \<open>Every state the operations reach is consistent.\<close>

lemma run_keys_inv:
  assumes "list_all (op_ok parse render) ops"
  shows "keys_inv parse render sha256 (run_keys render sha256 ops)"
proof -
  have "keys_inv parse render sha256 st \<Longrightarrow> keys_inv parse render sha256 (fold (key_step render sha256) ops st)" for st
    using assms
  proof (induction ops arbitrary: st)
    case (Cons op ops)
    obtain db keys where st: "st = (db, keys)" by fastforce
    have "keys_inv parse render sha256 (key_step render sha256 op st)"
    proof (cases op)
      case (Create_Op uuids now name ids)
      with Cons.prems st keys_inv_create [of parse render sha256 db keys uuids now name ids] show ?thesis by simp
    next
      case (Revoke_Op now key_id)
      with Cons.prems st keys_inv_revoke [of parse render sha256 db keys now key_id] show ?thesis by simp
    qed
    with Cons show ?case by simp
  qed simp
  moreover have "keys_inv parse render sha256 ([], [])" by (simp add: keys_inv_def)
  ultimately show ?thesis by (simp add: run_keys_def)
qed

text \<open>A token that the store takes for that of a key: the same id, and a secret with the same digest.\<close>

definition same_token :: "(string \<Rightarrow> string) \<Rightarrow> string \<Rightarrow> created_key \<Rightarrow> bool" where
  "same_token sha256 token key =
     (case (parse_token token, parse_token (ck_token key)) of
        (Some (key_id, secret), Some (key_id', secret')) \<Rightarrow> key_id = key_id' \<and> sha256 secret = sha256 secret'
      | _ \<Rightarrow> False)"

lemma same_token_trimmed:
  assumes "\<And>s s'. sha256 s = sha256 s' \<Longrightarrow> s = s'" "parse_token (ck_token key) = Some (ck_id key, secret)"
    "ck_token key = key_token (ck_id key) secret" "same_token sha256 token key"
  shows "str_trim token = ck_token key"
  using assms parse_token_inverse [of token] by (auto simp: same_token_def split: option.splits)

lemma row_token:
  assumes "row_of_key parse render sha256 row key revoked"
  obtains secret where "parse_token (ck_token key) = Some (ck_id key, secret)" "kr_secret_hash row = sha256 secret"
    "ck_token key = key_token (ck_id key) secret"
  using assms parse_key_token unfolding row_of_key_def by metis

lemma stored_key_authenticates:
  assumes "keys_inv parse render sha256 (db, keys)" "(key, revoked) \<in> set keys" "same_token sha256 token key"
  shows "authenticate parse sha256 True db (Some token) = (if revoked then Inl Auth_Revoked else Inr (key_context key))"
proof -
  from assms(1,2) obtain row where row: "bm_get db (ck_id key) = Some row" "row_of_key parse render sha256 row key revoked"
    unfolding keys_inv_def by fastforce
  from row_token [OF row(2)] obtain secret where s: "parse_token (ck_token key) = Some (ck_id key, secret)"
    "kr_secret_hash row = sha256 secret" by metis
  with assms(3) obtain secret' where t: "parse_token token = Some (ck_id key, secret')" "sha256 secret' = sha256 secret"
    by (auto simp: same_token_def split: option.splits)
  moreover have "kr_name row = ck_name key" "access_from_json parse (kr_allowed_providers row) = Inr (ck_providers key)"
    "(kr_revoked_at row \<noteq> None) = revoked"
    using row(2) by (simp_all add: row_of_key_def)
  ultimately show ?thesis
    using row(1) s(2) by (cases revoked) (simp_all add: authenticate_def find_key_def key_context_def)
qed

lemma authenticated_key_stored:
  assumes "keys_inv parse render sha256 (db, keys)" "authenticate parse sha256 True db (Some token) = Inr ctx"
  obtains key where "(key, False) \<in> set keys" "same_token sha256 token key"
proof -
  from assms(2) obtain key_id secret row where t: "parse_token token = Some (key_id, secret)"
    and row: "bm_get db key_id = Some row" "kr_revoked_at row = None" "kr_secret_hash row = sha256 secret"
    by (auto simp: authenticate_def find_key_def split: if_splits)
  from assms(1) row(1) obtain key revoked where k: "(key, revoked) \<in> set keys" "ck_id key = key_id"
    unfolding keys_inv_def by fastforce
  with assms(1) row have r: "row_of_key parse render sha256 row key revoked" unfolding keys_inv_def by fastforce
  with row(2) have "\<not> revoked" by (simp add: row_of_key_def)
  moreover obtain secret' where "parse_token (ck_token key) = Some (ck_id key, secret')" "kr_secret_hash row = sha256 secret'"
    using row_token [OF r] by metis
  then have "same_token sha256 token key"
    using t k(2) row(3) by (simp add: same_token_def)
  ultimately show ?thesis using that k(1) by simp
qed

text \<open>
  C38. The store of API keys refines the list of the keys it has issued: whatever keys are
  created and revoked, a token is accepted exactly if it is the token of an issued key that is
  not revoked, up to white space around it and a secret of the same digest, and then with that
  key's id, name and providers; and every issued key's token is answered, as revoked once it
  is. (Identifiers are 32 hexadecimal digits; JSON written is read back.)
\<close>

theorem key_store_refines_issued_keys:
  assumes "list_all (op_ok parse render) ops"
  shows "case run_keys render sha256 ops of (db, keys) \<Rightarrow>
    (authenticate parse sha256 True db (Some token) = Inr ctx) =
      list_ex (\<lambda>(key, revoked). \<not> revoked \<and> same_token sha256 token key \<and> ctx = key_context key) keys \<and>
    list_all (\<lambda>(key, revoked). authenticate parse sha256 True db (Some (ck_token key)) =
      (if revoked then Inl Auth_Revoked else Inr (key_context key))) keys"
proof -
  obtain db keys where st: "run_keys render sha256 ops = (db, keys)" by fastforce
  with run_keys_inv [OF assms] have inv: "keys_inv parse render sha256 (db, keys)" by metis
  have "\<exists>key. (key, False) \<in> set keys \<and> same_token sha256 token key \<and> ctx = key_context key"
    if auth: "authenticate parse sha256 True db (Some token) = Inr ctx"
    using authenticated_key_stored [OF inv auth] stored_key_authenticates [OF inv] auth by (metis sum.inject(2))
  moreover have "authenticate parse sha256 True db (Some token) = Inr ctx"
    if "(key, False) \<in> set keys" "same_token sha256 token key" "ctx = key_context key" for key
    using stored_key_authenticates [OF inv that(1,2)] that(3) by simp
  moreover have "authenticate parse sha256 True db (Some (ck_token key)) = (if revoked then Inl Auth_Revoked else Inr (key_context key))"
    if "(key, revoked) \<in> set keys" for key revoked
  proof (rule stored_key_authenticates [OF inv that])
    from inv that obtain row where "row_of_key parse render sha256 row key revoked" unfolding keys_inv_def by fastforce
    then obtain secret where "parse_token (ck_token key) = Some (ck_id key, secret)" using row_token by metis
    then show "same_token sha256 (ck_token key) key" by (simp add: same_token_def)
  qed
  ultimately show ?thesis unfolding st by (auto simp: list_all_iff list_ex_iff)
qed

definition sample_uuids :: "nat \<Rightarrow> string" where
  "sample_uuids i = ''0123456789abcdef0123456789abcdef''"

definition sample_ops :: "key_op list" where
  "sample_ops = [Create_Op sample_uuids 5 ''laptop'' ['' openai''], Revoke_Op 6 ''other'']"

definition sample_key :: created_key where
  "sample_key =
     \<lparr>ck_id = ''0123456789abcdef'', ck_name = ''laptop'',
      ck_token = ''tokn_0123456789abcdef_0123456789abcdef0123456789abcdef0123456789abcdef0123456789abcdef'',
      ck_providers = Only_Providers [''openai''], ck_created_at = 5\<rparr>"

lemma sample_ids: "from_provider_ids ['' openai''] = Inr (Only_Providers [''openai''])"
  by code_simp

lemma sample_ops_ok: "list_all (op_ok (\<lambda>_. Some (J_Array [J_String ''openai''])) (\<lambda>_. ''j'')) sample_ops"
proof -
  have "is_hex ''0123456789abcdef0123456789abcdef''" by code_simp
  then show ?thesis by (simp add: sample_ops_def sample_ids uuids_ok_def sample_uuids_def)
qed

lemma sample_keys_run: "snd (run_keys (\<lambda>_. ''j'') id sample_ops) = [(sample_key, False)]"
  by code_simp

lemma sample_token: "same_token id ('' '' @ ck_token sample_key) sample_key"
  by code_simp

theorem key_store_refines_issued_keys_witness:
  "authenticate (\<lambda>_. Some (J_Array [J_String ''openai''])) id True (fst (run_keys (\<lambda>_. ''j'') id sample_ops))
     (Some ('' '' @ ck_token sample_key)) = Inr (key_context sample_key)"
proof -
  obtain db keys where st: "run_keys (\<lambda>_. ''j'') id sample_ops = (db, keys)" by fastforce
  with sample_keys_run have keys: "keys = [(sample_key, False)]" by simp
  from key_store_refines_issued_keys [OF sample_ops_ok, of id "'' '' @ ck_token sample_key" "key_context sample_key"]
  show ?thesis unfolding st using sample_token keys by simp
qed

end
