(* ===== verification/Discovery.thy ===== *)
theory Discovery
  imports Selector Access Proxy_Matching
begin

text \<open>
  What a profile's clients are told of providers and models (crates/router/src/v2/discovery.rs).

  Every reachable profile lists the providers its route and its account pool offer; the
  models of an account are what it last answered, kept in \<open>dr_upstream\<close>, and the catalogue of
  its provider. The model caches are a store of cells: \<open>dr_caches\<close> gives the cell of an
  address, and linked destinations own theirs.

  The embedded catalogues of models are parameters (\<open>zai\<close> and \<open>defaults\<close>), and so is
  \<open>details\<close>, the serialised fields of a model that \<open>model_info\<close> leaves out (a record of them). The answers of the
  accounts to a refresh are an argument, in the order they arrive.
\<close>

section \<open>Data\<close>

text \<open>A reference of the plan that does not resolve while the runtime is built.\<close>

datatype reference_error =
    No_Profile string
  | No_Route string
  | No_Pool string
  | Profile_Without_Pool string
  | No_Provider string
  | No_Target string
  | No_Retry_Policy string
  | No_Driver string string

record provider_metadata =
  md_driver_id :: string
  md_display_name :: string
  md_upstream_url :: string
  md_auth_kind :: json
  md_endpoints :: "string list"
  md_models :: "model_info list"
  md_model_cache :: nat

record profile_provider =
  xp_bindings :: "(binding_key, provider provider_binding) bmap"
  xp_plain_model_ids :: bool
  xp_qualified_model_ids :: "qualification_namespace option"

record profile_discovery =
  xd_mode :: string
  xd_providers :: "(string, profile_provider) bmap"

record discovery_runtime =
  dr_metadata :: "(string, provider_metadata) bmap"
  dr_profiles :: "(string, profile_discovery) bmap"
  dr_upstream :: "(binding_key, json list) bmap"
  dr_caches :: "nat \<Rightarrow> model_cache"

section \<open>Construction\<close>

definition zai_providers :: "string list" where
  "zai_providers = [''zai-coding-plan'', ''zai'', ''zhipuai-coding-plan'', ''zhipuai'']"

definition catalogue_for ::
  "(string \<Rightarrow> model_info list) \<Rightarrow> (string \<Rightarrow> model_info list) \<Rightarrow> string \<Rightarrow> model_info list" where
  "catalogue_for zai defaults provider_id =
     (if provider_id \<in> set zai_providers then zai provider_id else defaults provider_id)"

definition catalogue_models ::
  "(string \<Rightarrow> model_info list) \<Rightarrow> (string \<Rightarrow> model_info list) \<Rightarrow> string \<Rightarrow> string \<Rightarrow> model_info list" where
  "catalogue_models zai defaults provider_id driver_id =
     (let models = catalogue_for zai defaults provider_id
      in if models \<noteq> [] then models
         else catalogue_for zai defaults (if driver_id = ''codex'' then ''openai'' else driver_id))"

fun auth_kind_str :: "auth_kind \<Rightarrow> string" where
  "auth_kind_str Auth_None = ''none''"
| "auth_kind_str Auth_Device_Flow = ''o_auth_device_flow''"
| "auth_kind_str Auth_Static_Key = ''static_api_key''"

definition driver_info :: "provider provider_binding \<Rightarrow> provider_info" where
  "driver_info b = pv_info (ah_provider (pb_handle b))"

definition provider_metadata_of ::
  "(string \<Rightarrow> model_info list) \<Rightarrow> (string \<Rightarrow> model_info list) \<Rightarrow> gateway_plan \<Rightarrow> (provider, 'e) registry \<Rightarrow>
   (provider, 'e) provider_graph \<Rightarrow> string \<Rightarrow> (provider, 'e) provider_destination \<Rightarrow>
   reference_error + provider_metadata" where
  "provider_metadata_of zai defaults plan r g provider_id destination =
     res_bind (ok_or (No_Provider provider_id) (bm_get (gp_providers plan) provider_id)) (\<lambda>provider_plan.
     res_map (\<lambda>descriptor.
         let first = List.find (\<lambda>b. bk_provider (pb_key b) = provider_id) (bm_values (pg_bindings g))
         in \<lparr>md_driver_id = vp_driver provider_plan, md_display_name = pd_display_name descriptor,
             md_upstream_url = pt_base_url (ds_target destination),
             md_auth_kind =
               (case first of None \<Rightarrow> J_Null | Some b \<Rightarrow> J_String (auth_kind_str (pi_auth_kind (driver_info b)))),
             md_endpoints = map endpoint_str (pd_endpoints descriptor),
             md_models =
               (case first of
                  None \<Rightarrow> catalogue_models zai defaults provider_id (vp_driver provider_plan)
                | Some b \<Rightarrow> pi_default_models (driver_info b)),
             md_model_cache = pt_model_cache (ds_target destination)\<rparr>)
       (ok_or (No_Driver provider_id (vp_driver provider_plan))
         (resolve_provider_descriptor r provider_id (vp_driver provider_plan))))"

definition no_bindings :: profile_provider where
  "no_bindings = \<lparr>xp_bindings = [], xp_plain_model_ids = False, xp_qualified_model_ids = None\<rparr>"

definition add_binding ::
  "provider provider_binding \<Rightarrow> bool \<Rightarrow> qualification_namespace option \<Rightarrow> (string, profile_provider) bmap \<Rightarrow>
   (string, profile_provider) bmap" where
  "add_binding b plain qualified providers =
     (let p = unwrap_or no_bindings (bm_get providers (bk_provider (pb_key b)))
      in bm_insert (bk_provider (pb_key b))
           \<lparr>xp_bindings = bm_insert (pb_key b) b (xp_bindings p),
            xp_plain_model_ids = (xp_plain_model_ids p \<or> plain), xp_qualified_model_ids = qualified\<rparr> providers)"

definition profile_pool ::
  "provider linked_account_pools \<Rightarrow> string \<Rightarrow> profile_plan \<Rightarrow> reference_error + provider linked_account_pool" where
  "profile_pool pools profile_id profile =
     res_bind (ok_or (Profile_Without_Pool profile_id) (pp_account_pool profile)) (\<lambda>pool_id.
       ok_or (No_Pool pool_id) (bm_get pools pool_id))"

definition qualified_ids :: "managed_route \<Rightarrow> qualification_namespace option" where
  "qualified_ids managed =
     (case mt_model (mr_target managed) of Qualified namespace \<Rightarrow> Some namespace | _ \<Rightarrow> None)"

text \<open>The bodies of the two loops over the accounts of a pool; \<open>continue\<close> keeps the map.\<close>

definition add_managed_account ::
  "route_plan \<Rightarrow> managed_route \<Rightarrow> provider linked_pool_account \<Rightarrow> (string, profile_provider) bmap \<Rightarrow>
   (string, profile_provider) bmap" where
  "add_managed_account route managed account providers =
     (let b = la_binding account; p = bk_provider (pb_key b)
      in if \<not> allows_provider route p then providers
         else if (case mt_provider (mr_target managed) of Fixed_Provider q \<Rightarrow> q \<noteq> p | Any_Provider \<Rightarrow> False)
         then providers
         else add_binding b (qualified_ids managed = None) (qualified_ids managed) providers)"

definition add_relay_account ::
  "string \<Rightarrow> provider linked_pool_account \<Rightarrow> (string, profile_provider) bmap \<Rightarrow> (string, profile_provider) bmap" where
  "add_relay_account provider_id account providers =
     (let b = la_binding account
      in if bk_provider (pb_key b) = provider_id then add_binding b True None providers else providers)"

definition discovered_providers ::
  "provider linked_account_pools \<Rightarrow> string \<Rightarrow> profile_plan \<Rightarrow> route_plan \<Rightarrow>
   reference_error + (string, profile_provider) bmap" where
  "discovered_providers pools profile_id profile route =
     (case route of
        Managed managed \<Rightarrow>
          res_map (\<lambda>pool. fold (add_managed_account route managed) (pool_accounts pool) [])
            (profile_pool pools profile_id profile)
      | Relay relay \<Rightarrow>
          (case rr_destination relay of
             Original \<Rightarrow> Inr []
           | To_Provider p \<Rightarrow>
               (case rr_credentials relay of
                  Client \<Rightarrow> Inr [(p, no_bindings\<lparr>xp_plain_model_ids := True\<rparr>)]
                | From_Pool \<Rightarrow>
                    res_map (\<lambda>pool. fold (add_relay_account p) (pool_accounts pool) [])
                      (profile_pool pools profile_id profile))))"

definition profile_discovery_of ::
  "gateway_plan \<Rightarrow> provider linked_account_pools \<Rightarrow> string \<Rightarrow> reference_error + profile_discovery" where
  "profile_discovery_of plan pools profile_id =
     res_bind (ok_or (No_Profile profile_id) (bm_get (gp_profiles plan) profile_id)) (\<lambda>profile.
     res_bind (ok_or (No_Route (pp_route profile)) (bm_get (gp_routes plan) (pp_route profile))) (\<lambda>route.
     res_map (\<lambda>providers. \<lparr>xd_mode = request_record_mode route, xd_providers = providers\<rparr>)
       (discovered_providers pools profile_id profile route)))"

definition apply_catalogue ::
  "(string \<Rightarrow> model_info list) \<Rightarrow> (string \<Rightarrow> model_info list) \<Rightarrow> (string, provider_metadata) bmap \<Rightarrow>
   (nat \<Rightarrow> model_cache) \<Rightarrow> nat \<Rightarrow> model_cache" where
  "apply_catalogue zai defaults metadata caches =
     fold (\<lambda>(p, m) cs. cs(md_model_cache m :=
         set_catalogue (catalogue_models zai defaults p (md_driver_id m)) (cs (md_model_cache m)))) metadata caches"

definition new_discovery ::
  "(string \<Rightarrow> model_info list) \<Rightarrow> (string \<Rightarrow> model_info list) \<Rightarrow> gateway_plan \<Rightarrow> (provider, 'e) provider_graph \<Rightarrow>
   provider linked_account_pools \<Rightarrow> (provider, 'e) registry \<Rightarrow> (nat \<Rightarrow> model_cache) \<Rightarrow> string bset \<Rightarrow>
   reference_error + discovery_runtime" where
  "new_discovery zai defaults plan g pools r caches reachable =
     res_bind (res_map bm_of_list (res_collect (\<lambda>(p, d).
         res_map (Pair p) (provider_metadata_of zai defaults plan r g p d)) (pg_destinations g))) (\<lambda>metadata.
     res_map (\<lambda>profiles.
         \<lparr>dr_metadata = metadata, dr_profiles = bm_of_list profiles, dr_upstream = [],
          dr_caches = apply_catalogue zai defaults metadata caches\<rparr>)
       (res_collect (\<lambda>i. res_map (Pair i) (profile_discovery_of plan pools i)) reachable))"

section \<open>Listing providers\<close>

definition discovery_profile :: "discovery_runtime \<Rightarrow> string \<Rightarrow> api_error + profile_discovery" where
  "discovery_profile rt profile_id =
     ok_or (Api_Internal ''API mount references a missing discovery profile'') (bm_get (dr_profiles rt) profile_id)"

definition allowed_providers :: "profile_discovery \<Rightarrow> access_context \<Rightarrow> (string \<times> profile_provider) list" where
  "allowed_providers profile access =
     filter (\<lambda>(p, _). access_allows (ac_providers access) p) (xd_providers profile)"

definition list_response :: "string \<Rightarrow> json list \<Rightarrow> json" where
  "list_response mode entries =
     json_obj [(''object'', J_String ''list''), (''route_mode'', J_String mode),
               (''route_modes'', J_Array [J_String mode]), (''data'', J_Array entries)]"

definition provider_entry :: "string \<Rightarrow> string \<Rightarrow> provider_metadata \<Rightarrow> profile_provider \<Rightarrow> json" where
  "provider_entry mode p md x =
     json_obj [(''id'', J_String p), (''object'', J_String ''provider''),
               (''display_name'', J_String (md_display_name md)), (''driver'', J_String (md_driver_id md)),
               (''auth_kind'', md_auth_kind md), (''upstream_url'', J_String (md_upstream_url md)),
               (''accounts'', json_nat (length (xp_bindings x))),
               (''endpoints'', J_Array (map J_String (md_endpoints md))),
               (''route_modes'', J_Array [J_String mode])]"

definition list_providers :: "discovery_runtime \<Rightarrow> string \<Rightarrow> access_context \<Rightarrow> api_error + json" where
  "list_providers rt profile_id access =
     res_map (\<lambda>profile. list_response (xd_mode profile)
         (filter_map (\<lambda>(p, x). map_option (\<lambda>md. provider_entry (xd_mode profile) p md x) (bm_get (dr_metadata rt) p))
           (allowed_providers profile access)))
       (discovery_profile rt profile_id)"

section \<open>Listing models\<close>

text \<open>What an account lists: the models with an id.\<close>

definition remote_models :: "json \<Rightarrow> json list" where
  "remote_models response =
     filter (\<lambda>m. case get_str m ''id'' of None \<Rightarrow> False | Some i \<Rightarrow> i \<noteq> []) (unwrap_or [] (get_array response ''data''))"

definition refresh_result :: "string + json \<Rightarrow> string + json list" where
  "refresh_result answer =
     res_bind answer (\<lambda>response.
       let models = remote_models response
       in if models = [] then Inl ''upstream returned no model IDs'' else Inr models)"

text \<open>Every successful answer publishes the union of the models of the provider's accounts.\<close>

definition publish_upstream :: "discovery_runtime \<Rightarrow> discovery_runtime" where
  "publish_upstream rt = rt\<lparr>dr_caches :=
     fold (\<lambda>(p, md) cs.
         let models = concat (map snd (filter (\<lambda>(k, _). bk_provider k = p) (dr_upstream rt)))
         in if models = [] then cs else cs(md_model_cache md := set_models models (cs (md_model_cache md))))
       (dr_metadata rt) (dr_caches rt)\<rparr>"

fun refresh_bindings ::
  "(binding_key \<times> (string + json)) list \<Rightarrow> string option \<Rightarrow> discovery_runtime \<Rightarrow> string option \<times> discovery_runtime" where
  "refresh_bindings [] last_error rt = (last_error, rt)"
| "refresh_bindings ((key, answer) # answers) last_error rt =
     (case refresh_result answer of
        Inr models \<Rightarrow>
          refresh_bindings answers last_error
            (publish_upstream (rt\<lparr>dr_upstream := bm_insert key models (dr_upstream rt)\<rparr>))
      | Inl e \<Rightarrow> refresh_bindings answers (Some e) rt)"

text \<open>
  A refresh that another one holds off, one that ran to its end, and one that the timeout
  cut after some answers.
\<close>

datatype refresh_outcome =
    Refresh_Busy
  | Refreshed "(binding_key \<times> (string + json)) list"
  | Refresh_Timed_Out "(binding_key \<times> (string + json)) list" string

fun run_refresh :: "refresh_outcome \<Rightarrow> discovery_runtime \<Rightarrow> string option \<times> discovery_runtime" where
  "run_refresh Refresh_Busy rt = (None, rt)"
| "run_refresh (Refreshed answers) rt = refresh_bindings answers None rt"
| "run_refresh (Refresh_Timed_Out answers e) rt = (Some e, snd (refresh_bindings answers None rt))"

definition advertised_models :: "(nat \<Rightarrow> model_cache) \<Rightarrow> provider_metadata \<Rightarrow> model_info list" where
  "advertised_models caches md = unwrap_or (md_models md) (mc_catalogue (caches (md_model_cache md)))"

definition local_models :: "model_info list \<Rightarrow> json list" where
  "local_models models = map (\<lambda>m. json_obj [(''id'', J_String (mi_id m)), (''object'', J_String ''model'')]) models"

text \<open>
  The fields of a model that \<open>model_info\<close> leaves out, serialised.
\<close>

record model_details =
  dt_name :: string
  dt_capabilities :: json
  dt_cost :: "json option"
  dt_limit :: json
  dt_release_date :: "string option"

definition detail_entries :: "model_details \<Rightarrow> (string \<times> json) list" where
  "detail_entries d =
     [(''name'', J_String (dt_name d)), (''capabilities'', dt_capabilities d)] @
     (case dt_cost d of None \<Rightarrow> [] | Some cost \<Rightarrow> [(''cost'', cost)]) @
     [(''limit'', dt_limit d)] @
     (case dt_release_date d of None \<Rightarrow> [] | Some date \<Rightarrow> [(''release_date'', J_String date)])"

text \<open>
  \<open>value[key] = x\<close>: null becomes an object. Any other value than an object would panic;
  capabilities are serialised from a struct.
\<close>

fun json_set :: "string \<Rightarrow> json \<Rightarrow> json \<Rightarrow> json" where
  "json_set key x (J_Object m) = J_Object (bm_insert key x m)"
| "json_set key x _ = J_Object [(key, x)]"

fun object_insert :: "string \<Rightarrow> json \<Rightarrow> json \<Rightarrow> json" where
  "object_insert key x (J_Object m) = J_Object (bm_insert key x m)"
| "object_insert key x v = v"

definition known_model :: "(nat \<Rightarrow> model_cache) \<Rightarrow> provider_metadata \<Rightarrow> string \<Rightarrow> model_info option" where
  "known_model caches md upstream_id =
     (case catalogue_model (caches (md_model_cache md)) upstream_id of
        Some model \<Rightarrow> model
      | None \<Rightarrow> List.find (\<lambda>m. mi_id m = upstream_id) (md_models md))"

definition efforts_json :: "reasoning_effort list option \<Rightarrow> json" where
  "efforts_json efforts =
     (case efforts of None \<Rightarrow> J_Null | Some es \<Rightarrow> J_Array (map (\<lambda>e. J_String (effort_str e)) es))"

definition model_extension ::
  "(model_info \<Rightarrow> model_details) \<Rightarrow> (nat \<Rightarrow> model_cache) \<Rightarrow> json \<Rightarrow> string \<Rightarrow> string \<Rightarrow> string \<Rightarrow>
   provider_metadata \<Rightarrow> (string, json) bmap" where
  "model_extension details caches entry upstream_id rendered_id p md =
     (let model = known_model caches md upstream_id;
          ext = bm_of_list
            ([(''provider'', J_String p), (''provider_display_name'', J_String (md_display_name md)),
              (''driver'', J_String (md_driver_id md)), (''upstream_id'', J_String upstream_id),
              (''model_id'', J_String rendered_id), (''auth_kind'', md_auth_kind md)] @
             (case model of None \<Rightarrow> [] | Some m \<Rightarrow> detail_entries (details m)));
          efforts = or_else (upstream_reasoning_efforts entry)
            (or_else (cache_reasoning_efforts (caches (md_model_cache md)) upstream_id)
              (Option.bind model mi_reasoning_efforts));
          capabilities = unwrap_or (J_Object []) (bm_get ext ''capabilities'')
      in bm_insert ''capabilities'' (json_set ''reasoning_efforts'' (efforts_json efforts) capabilities) ext)"

definition enrich ::
  "(model_info \<Rightarrow> model_details) \<Rightarrow> (nat \<Rightarrow> model_cache) \<Rightarrow> json \<Rightarrow> string \<Rightarrow> string \<Rightarrow> string \<Rightarrow>
   provider_metadata \<Rightarrow> json" where
  "enrich details caches entry upstream_id rendered_id p md =
     object_insert ''x_tokn_router'' (J_Object (model_extension details caches entry upstream_id rendered_id p md)) entry"

definition rendered_ids :: "bool \<Rightarrow> qualification_namespace option \<Rightarrow> string \<Rightarrow> provider_metadata \<Rightarrow> string \<Rightarrow> string list" where
  "rendered_ids plain qualified p md upstream_id =
     (if plain then [upstream_id] else []) @
     (case qualified of
        None \<Rightarrow> []
      | Some namespace \<Rightarrow>
          [(case namespace of Provider_Namespace \<Rightarrow> p | Driver_Namespace \<Rightarrow> md_driver_id md) @ ''/'' @ upstream_id])"

definition render_model ::
  "(model_info \<Rightarrow> model_details) \<Rightarrow> (nat \<Rightarrow> model_cache) \<Rightarrow> string \<Rightarrow> provider_metadata \<Rightarrow> json \<Rightarrow> string \<Rightarrow>
   string \<Rightarrow> json list \<times> string set \<Rightarrow> json list \<times> string set" where
  "render_model details caches p md model upstream_id rendered_id st =
     (case st of (output, seen) \<Rightarrow>
        if rendered_id \<in> seen then (output, seen)
        else (output @ [enrich details caches (object_insert ''id'' (J_String rendered_id) model) upstream_id rendered_id p md],
              insert rendered_id seen))"

definition merge_model ::
  "(model_info \<Rightarrow> model_details) \<Rightarrow> (nat \<Rightarrow> model_cache) \<Rightarrow> string \<Rightarrow> provider_metadata \<Rightarrow> profile_provider \<Rightarrow> json \<Rightarrow>
   json list \<times> string set \<Rightarrow> json list \<times> string set" where
  "merge_model details caches p md x model st =
     (let upstream_id = unwrap_or [] (get_str model ''id'')
      in if upstream_id = [] then st
         else fold (render_model details caches p md model upstream_id)
           (rendered_ids (xp_plain_model_ids x) (xp_qualified_model_ids x) p md upstream_id) st)"

definition merge_provider ::
  "(model_info \<Rightarrow> model_details) \<Rightarrow> discovery_runtime \<Rightarrow> string \<times> profile_provider \<Rightarrow>
   json list \<times> string set \<Rightarrow> json list \<times> string set" where
  "merge_provider details rt entry st =
     (case entry of (p, x) \<Rightarrow>
        case bm_get (dr_metadata rt) p of
          None \<Rightarrow> st
        | Some md \<Rightarrow>
            fold (merge_model details (dr_caches rt) p md x)
              (concat (filter_map (bm_get (dr_upstream rt)) (bm_keys (xp_bindings x))) @
               local_models (advertised_models (dr_caches rt) md)) st)"

definition list_models ::
  "(model_info \<Rightarrow> model_details) \<Rightarrow> string \<Rightarrow> access_context \<Rightarrow> refresh_outcome \<Rightarrow> discovery_runtime \<Rightarrow>
   (api_error + json) \<times> discovery_runtime" where
  "list_models details profile_id access refresh rt =
     (case discovery_profile rt profile_id of
        Inl e \<Rightarrow> (Inl e, rt)
      | Inr profile \<Rightarrow>
          (let queried = list_ex (\<lambda>(_, x). xp_bindings x \<noteq> []) (allowed_providers profile access);
               (last_error, rt') = run_refresh refresh rt;
               output = fst (fold (merge_provider details rt') (allowed_providers profile access) ([], {}))
           in (if output = [] \<and> queried
               then Inl (Api_Upstream 502 (unwrap_or ''no models available'' last_error))
               else Inr (list_response (xd_mode profile) output), rt')))"

section \<open>What a listing tells\<close>

lemma bm_get_insert_any: "bm_get (bm_insert k v m) k' = (if k' = k then Some v else bm_get m k')"
  by (induction k v m rule: bm_insert.induct) auto

lemma get_str_object: "get_str v k = Some t \<Longrightarrow> \<exists>m. v = J_Object m \<and> bm_get m k = Some (J_String t)"
proof -
  assume "get_str v k = Some t"
  then obtain w where "json_get v k = Some w" "json_str w = Some t" by (auto simp: get_str_def bind_eq_Some_conv)
  then show ?thesis by (cases v; cases w) auto
qed

text \<open>The id of an entry, and the provider and the upstream id its extension names.\<close>

definition entry_id :: "json \<Rightarrow> string" where
  "entry_id entry = unwrap_or [] (get_str entry ''id'')"

definition entry_field :: "string \<Rightarrow> json \<Rightarrow> string option" where
  "entry_field key entry = Option.bind (json_get entry ''x_tokn_router'') (\<lambda>e. get_str e key)"

text \<open>
  What a profile offers, of its plan: the providers its route admits, the accounts of its pool
  that it uses, the id by which its clients ask for a model of a provider, and the models that an account
  last answered with.
\<close>

definition route_admits :: "route_plan \<Rightarrow> string \<Rightarrow> bool" where
  "route_admits route p \<longleftrightarrow>
     (case route of
        Managed m \<Rightarrow>
          allows_provider route p \<and> (case mt_provider (mr_target m) of Fixed_Provider q \<Rightarrow> q = p | Any_Provider \<Rightarrow> True)
      | Relay r \<Rightarrow> rr_destination r = To_Provider p)"

definition forwards_client :: "route_plan \<Rightarrow> bool" where
  "forwards_client route \<longleftrightarrow> (case route of Managed _ \<Rightarrow> False | Relay r \<Rightarrow> rr_credentials r = Client)"

definition offering_accounts :: "provider linked_account_pools \<Rightarrow> profile_plan \<Rightarrow> route_plan \<Rightarrow> binding_key set" where
  "offering_accounts pools profile route =
     {k. \<not> forwards_client route \<and> route_admits route (bk_provider k) \<and>
         (\<exists>i pool a. pp_account_pool profile = Some i \<and> bm_get pools i = Some pool \<and> a \<in> set (pool_accounts pool) \<and>
            k = pb_key (la_binding a))}"

definition offering_providers :: "provider linked_account_pools \<Rightarrow> profile_plan \<Rightarrow> route_plan \<Rightarrow> string set" where
  "offering_providers pools profile route =
     (if forwards_client route then {p. route_admits route p} else bk_provider ` offering_accounts pools profile route)"

definition client_id :: "route_plan \<Rightarrow> string \<Rightarrow> string \<Rightarrow> string \<Rightarrow> string" where
  "client_id route p driver u =
     (case route of
        Managed m \<Rightarrow>
          (case mt_model (mr_target m) of
             Qualified Provider_Namespace \<Rightarrow> p @ ''/'' @ u
           | Qualified Driver_Namespace \<Rightarrow> driver @ ''/'' @ u
           | _ \<Rightarrow> u)
      | Relay _ \<Rightarrow> u)"

fun answers_of :: "refresh_outcome \<Rightarrow> (binding_key \<times> (string + json)) list" where
  "answers_of Refresh_Busy = []"
| "answers_of (Refreshed answers) = answers"
| "answers_of (Refresh_Timed_Out answers e) = answers"

fun answer_models :: "string + json \<Rightarrow> json list" where
  "answer_models (Inl e) = []"
| "answer_models (Inr response) = remote_models response"

definition last_models :: "binding_key \<Rightarrow> (binding_key \<times> (string + json)) list \<Rightarrow> json list" where
  "last_models k answers =
     (case rev (filter (\<lambda>(k', a). k' = k \<and> answer_models a \<noteq> []) answers) of [] \<Rightarrow> [] | (_, a) # _ \<Rightarrow> answer_models a)"

definition offered_models ::
  "provider linked_account_pools \<Rightarrow> profile_plan \<Rightarrow> route_plan \<Rightarrow> (binding_key \<times> (string + json)) list \<Rightarrow>
   (nat \<Rightarrow> model_cache) \<Rightarrow> string \<Rightarrow> provider_metadata \<Rightarrow> json set" where
  "offered_models pools profile route answers caches p md =
     {m. \<exists>k \<in> offering_accounts pools profile route. bk_provider k = p \<and> m \<in> set (last_models k answers)} \<union>
     (\<lambda>m. json_obj [(''id'', J_String (mi_id m)), (''object'', J_String ''model'')]) ` set (advertised_models caches md)"

text \<open>A model with an upstream id that a client with this API key may be told of.\<close>

definition listable ::
  "provider linked_account_pools \<Rightarrow> profile_plan \<Rightarrow> route_plan \<Rightarrow> access_context \<Rightarrow> discovery_runtime \<Rightarrow>
   (binding_key \<times> (string + json)) list \<Rightarrow> string \<Rightarrow> provider_metadata \<Rightarrow> json \<Rightarrow> string \<Rightarrow> bool" where
  "listable pools profile route access rt answers p md m u \<longleftrightarrow>
     p \<in> offering_providers pools profile route \<and> access_allows (ac_providers access) p \<and>
     bm_get (dr_metadata rt) p = Some md \<and> m \<in> offered_models pools profile route answers (dr_caches rt) p md \<and>
     get_str m ''id'' = Some u \<and> u \<noteq> []"

definition shows_model :: "json \<Rightarrow> string \<Rightarrow> string \<Rightarrow> json \<Rightarrow> string \<Rightarrow> bool" where
  "shows_model entry i p m u \<longleftrightarrow>
     entry_id entry = i \<and> entry_field ''provider'' entry = Some p \<and> entry_field ''upstream_id'' entry = Some u \<and>
     (\<forall>key. key \<noteq> ''id'' \<longrightarrow> key \<noteq> ''x_tokn_router'' \<longrightarrow> json_get entry key = json_get m key)"

section \<open>The providers of a profile\<close>

definition offers_of :: "bool \<Rightarrow> qualification_namespace option \<Rightarrow> binding_key set \<Rightarrow> (string, profile_provider) bmap \<Rightarrow> bool" where
  "offers_of plain qualified ks ps \<longleftrightarrow> bm_ok ps \<and>
     (\<forall>p. case bm_get ps p of
        None \<Rightarrow> \<forall>k \<in> ks. bk_provider k \<noteq> p
      | Some x \<Rightarrow> (\<exists>k \<in> ks. bk_provider k = p) \<and> fst ` set (xp_bindings x) = {k \<in> ks. bk_provider k = p} \<and>
          xp_plain_model_ids x = plain \<and> xp_qualified_model_ids x = qualified)"

lemma add_binding_offers:
  assumes "offers_of plain qualified ks ps"
  shows "offers_of plain qualified (insert (pb_key b) ks) (add_binding b plain qualified ps)"
  unfolding offers_of_def
proof (intro conjI allI)
  let ?q = "bk_provider (pb_key b)"
  show "bm_ok (add_binding b plain qualified ps)"
    using assms by (simp add: offers_of_def add_binding_def Let_def bm_ok_insert)
  fix p
  have old: "case bm_get ps p of
        None \<Rightarrow> \<forall>k \<in> ks. bk_provider k \<noteq> p
      | Some x \<Rightarrow> (\<exists>k \<in> ks. bk_provider k = p) \<and> fst ` set (xp_bindings x) = {k \<in> ks. bk_provider k = p} \<and>
          xp_plain_model_ids x = plain \<and> xp_qualified_model_ids x = qualified"
    using assms by (simp add: offers_of_def)
  then show "case bm_get (add_binding b plain qualified ps) p of
        None \<Rightarrow> \<forall>k \<in> insert (pb_key b) ks. bk_provider k \<noteq> p
      | Some x \<Rightarrow> (\<exists>k \<in> insert (pb_key b) ks. bk_provider k = p) \<and>
          fst ` set (xp_bindings x) = {k \<in> insert (pb_key b) ks. bk_provider k = p} \<and>
          xp_plain_model_ids x = plain \<and> xp_qualified_model_ids x = qualified"
  proof (cases "bm_get ps p")
    case None
    with old show ?thesis
      by (auto simp: add_binding_def Let_def bm_get_insert_any no_bindings_def keys_bm_insert split: if_splits)
  next
    case (Some x)
    with old have e: "fst ` set (xp_bindings x) = {k \<in> ks. bk_provider k = p}" "\<exists>k \<in> ks. bk_provider k = p"
      "xp_plain_model_ids x = plain" "xp_qualified_model_ids x = qualified" by simp_all
    have "insert (pb_key b) {k \<in> ks. bk_provider k = ?q} = {k \<in> insert (pb_key b) ks. bk_provider k = ?q}" by auto
    with Some e show ?thesis
      by (cases "p = ?q") (simp_all add: add_binding_def Let_def bm_get_insert_any keys_bm_insert, auto)
  qed
qed

lemma fold_offers:
  assumes "\<And>a ps. a \<in> set as \<Longrightarrow> f a ps =
      (if route_admits route (bk_provider (pb_key (la_binding a))) then add_binding (la_binding a) plain qualified ps else ps)"
    and "offers_of plain qualified ks ps"
  shows "offers_of plain qualified
    (ks \<union> {k. route_admits route (bk_provider k) \<and> (\<exists>a \<in> set as. k = pb_key (la_binding a))}) (fold f as ps)"
  using assms
proof (induction as arbitrary: ks ps)
  case (Cons a as)
  let ?k = "pb_key (la_binding a)"
  have "offers_of plain qualified ((if route_admits route (bk_provider ?k) then insert ?k ks else ks)) (f a ps)"
    using Cons.prems add_binding_offers by simp
  from Cons.IH [OF _ this] Cons.prems(1)
  have "offers_of plain qualified ((if route_admits route (bk_provider ?k) then insert ?k ks else ks) \<union>
      {k. route_admits route (bk_provider k) \<and> (\<exists>a \<in> set as. k = pb_key (la_binding a))}) (fold f as (f a ps))" by simp
  moreover have "(if route_admits route (bk_provider ?k) then insert ?k ks else ks) \<union>
      {k. route_admits route (bk_provider k) \<and> (\<exists>a \<in> set as. k = pb_key (la_binding a))} =
      ks \<union> {k. route_admits route (bk_provider k) \<and> (\<exists>a \<in> set (a # as). k = pb_key (la_binding a))}" by auto
  ultimately show ?case by simp
qed simp

definition provider_offered ::
  "provider linked_account_pools \<Rightarrow> profile_plan \<Rightarrow> route_plan \<Rightarrow> string \<Rightarrow> profile_provider \<Rightarrow> bool" where
  "provider_offered pools profile route p x \<longleftrightarrow>
     p \<in> offering_providers pools profile route \<and>
     set (bm_keys (xp_bindings x)) = {k \<in> offering_accounts pools profile route. bk_provider k = p} \<and>
     (\<forall>md u. rendered_ids (xp_plain_model_ids x) (xp_qualified_model_ids x) p md u = [client_id route p (md_driver_id md) u])"

lemma offers_of_pool:
  assumes "offers_of plain qualified (offering_accounts pools profile route) ps" "\<not> forwards_client route"
    and "\<And>p md u. rendered_ids plain qualified p md u = [client_id route p (md_driver_id md) u]"
  shows "(\<forall>(p, x) \<in> set ps. provider_offered pools profile route p x) \<and>
    offering_providers pools profile route = fst ` set ps"
proof -
  have ok: "bm_ok ps" using assms(1) by (simp add: offers_of_def)
  have entry: "provider_offered pools profile route p x" if "(p, x) \<in> set ps" for p x
  proof -
    have "bm_get ps p = Some x" using that ok by (simp add: bm_get_iff)
    with assms(1) have x: "\<exists>k \<in> offering_accounts pools profile route. bk_provider k = p"
      "fst ` set (xp_bindings x) = {k \<in> offering_accounts pools profile route. bk_provider k = p}"
      "xp_plain_model_ids x = plain" "xp_qualified_model_ids x = qualified"
      by (simp_all add: offers_of_def split: option.splits)
    from x(1) have "p \<in> offering_providers pools profile route" using assms(2) by (auto simp: offering_providers_def)
    with x assms(3) show ?thesis by (simp add: provider_offered_def bm_keys_def)
  qed
  moreover have "p \<in> fst ` set ps" if "p \<in> offering_providers pools profile route" for p
  proof (rule ccontr)
    assume "p \<notin> fst ` set ps"
    then have "bm_get ps p = None" by (simp add: bm_get_None_iff)
    have "case bm_get ps p of
        None \<Rightarrow> \<forall>k \<in> offering_accounts pools profile route. bk_provider k \<noteq> p
      | Some x \<Rightarrow> (\<exists>k \<in> offering_accounts pools profile route. bk_provider k = p) \<and>
          fst ` set (xp_bindings x) = {k \<in> offering_accounts pools profile route. bk_provider k = p} \<and>
          xp_plain_model_ids x = plain \<and> xp_qualified_model_ids x = qualified"
      using assms(1) unfolding offers_of_def by blast
    with \<open>bm_get ps p = None\<close> have "\<forall>k \<in> offering_accounts pools profile route. bk_provider k \<noteq> p" by simp
    with that assms(2) show False by (auto simp: offering_providers_def)
  qed
  ultimately show ?thesis by (auto simp: provider_offered_def)
qed

lemma profile_pool_accounts:
  assumes "profile_pool pools i profile = Inr pool" "\<not> forwards_client route"
  shows "offering_accounts pools profile route =
    {k. route_admits route (bk_provider k) \<and> (\<exists>a \<in> set (pool_accounts pool). k = pb_key (la_binding a))}"
  using assms by (auto simp: profile_pool_def offering_accounts_def)

lemma discovered_providers_offered:
  assumes "discovered_providers pools i profile route = Inr ps"
  shows "(\<forall>(p, x) \<in> set ps. provider_offered pools profile route p x) \<and>
    offering_providers pools profile route = fst ` set ps"
proof (cases route)
  case (Managed m)
  then obtain pool where pool: "profile_pool pools i profile = Inr pool"
    and ps: "ps = fold (add_managed_account route m) (pool_accounts pool) []"
    using assms by (auto simp: discovered_providers_def)
  let ?plain = "qualified_ids m = None"
  have client: "\<not> forwards_client route" by (simp add: forwards_client_def Managed)
  have step: "add_managed_account route m a qs =
      (if route_admits route (bk_provider (pb_key (la_binding a))) then add_binding (la_binding a) ?plain (qualified_ids m) qs else qs)"
    for a qs
    by (auto simp: add_managed_account_def route_admits_def Managed Let_def split: provider_selector.split)
  have "offers_of ?plain (qualified_ids m) (offering_accounts pools profile route) ps"
    using fold_offers [OF step, of "{}" "[]"] unfolding ps profile_pool_accounts [OF pool client] by (simp add: offers_of_def)
  then show ?thesis
    by (rule offers_of_pool [OF _ client])
       (auto simp: rendered_ids_def qualified_ids_def client_id_def Managed split: model_selector.split qualification_namespace.split)
next
  case (Relay r)
  show ?thesis
  proof (cases "rr_credentials r = Client")
    case True
    then show ?thesis
      using assms Relay
      by (auto simp: discovered_providers_def offering_providers_def offering_accounts_def forwards_client_def route_admits_def
          provider_offered_def no_bindings_def rendered_ids_def client_id_def bm_keys_def split: relay_destination.splits)
  next
    case False
    then have client: "\<not> forwards_client route" "rr_credentials r = From_Pool"
      by (simp_all add: forwards_client_def Relay) (cases "rr_credentials r"; simp)
    show ?thesis
    proof (cases "rr_destination r")
      case Original
      with assms Relay show ?thesis
        by (auto simp: discovered_providers_def offering_providers_def offering_accounts_def route_admits_def client(1))
    next
      case (To_Provider q)
      then obtain pool where pool: "profile_pool pools i profile = Inr pool"
        and ps: "ps = fold (add_relay_account q) (pool_accounts pool) []"
        using assms client Relay by (auto simp: discovered_providers_def)
      have step: "add_relay_account q a qs =
          (if route_admits route (bk_provider (pb_key (la_binding a))) then add_binding (la_binding a) True None qs else qs)"
        for a qs
        by (auto simp: add_relay_account_def route_admits_def Relay To_Provider Let_def)
      have "offers_of True None (offering_accounts pools profile route) ps"
        using fold_offers [OF step, of "{}" "[]"] unfolding ps profile_pool_accounts [OF pool client(1)]
        by (simp add: offers_of_def)
      then show ?thesis
        by (rule offers_of_pool [OF _ client(1)]) (simp add: rendered_ids_def client_id_def Relay)
    qed
  qed
qed

section \<open>What the accounts last answered\<close>

lemma last_models_Nil [simp]: "last_models k [] = []"
  by (simp add: last_models_def)

lemma last_models_append:
  "last_models k (xs @ ys) = (if last_models k ys = [] then last_models k xs else last_models k ys)"
proof (cases "rev (filter (\<lambda>(k', a). k' = k \<and> answer_models a \<noteq> []) ys)")
  case Nil
  then show ?thesis by (simp add: last_models_def)
next
  case (Cons c cs)
  obtain k' a where c: "c = (k', a)" by fastforce
  have "c \<in> set (rev (filter (\<lambda>(k', a). k' = k \<and> answer_models a \<noteq> []) ys))" unfolding Cons by simp
  with c have "answer_models a \<noteq> []" by simp
  with Cons c show ?thesis unfolding last_models_def filter_append rev_append by simp
qed

lemma last_models_single: "last_models k [(k', a)] = (if k' = k then answer_models a else [])"
  by (simp add: last_models_def)

lemma publish_upstream_frame [simp]:
  "dr_profiles (publish_upstream rt) = dr_profiles rt" "dr_metadata (publish_upstream rt) = dr_metadata rt"
  "dr_upstream (publish_upstream rt) = dr_upstream rt"
  by (simp_all add: publish_upstream_def)

lemma publish_upstream_catalogue [simp]: "mc_catalogue (dr_caches (publish_upstream rt) a) = mc_catalogue (dr_caches rt a)"
proof -
  have "mc_catalogue (fold (\<lambda>(p, md) cs.
         let models = f p in if models = [] then cs else cs(md_model_cache md := set_models models (cs (md_model_cache md))))
       mds cs a) = mc_catalogue (cs a)" for f :: "string \<Rightarrow> json list" and mds cs
    by (induction mds arbitrary: cs) (auto simp: Let_def set_models_keeps_catalogue)
  then show ?thesis unfolding publish_upstream_def by (cases rt) (simp only: discovery_runtime.simps)
qed

definition remembered :: "discovery_runtime \<Rightarrow> binding_key \<Rightarrow> json list" where
  "remembered rt k = unwrap_or [] (bm_get (dr_upstream rt) k)"

lemma refresh_bindings_remembered:
  "remembered (snd (refresh_bindings answers e rt)) k =
     (if last_models k answers = [] then remembered rt k else last_models k answers)"
proof (induction answers e rt rule: refresh_bindings.induct)
  case (2 key answer answers last_error rt)
  have split: "last_models k ((key, answer) # answers) =
      (if last_models k answers = [] then if key = k then answer_models answer else [] else last_models k answers)"
    using last_models_append [of k "[(key, answer)]" answers] by (simp add: last_models_single)
  show ?case
  proof (cases "refresh_result answer")
    case (Inl err)
    then have "answer_models answer = []" by (cases answer) (auto simp: refresh_result_def Let_def split: if_splits)
    with Inl 2 split show ?thesis by simp
  next
    case (Inr models)
    then have "answer_models answer = models" "models \<noteq> []"
      by (cases answer; auto simp: refresh_result_def Let_def split: if_splits)+
    with Inr 2 split show ?thesis by (simp add: remembered_def bm_get_insert_any)
  qed
qed simp

lemma refresh_frame:
  "dr_metadata (snd (refresh_bindings answers e rt)) = dr_metadata rt"
  "dr_profiles (snd (refresh_bindings answers e rt)) = dr_profiles rt"
  "mc_catalogue (dr_caches (snd (refresh_bindings answers e rt)) a) = mc_catalogue (dr_caches rt a)"
  by (induction answers e rt rule: refresh_bindings.induct) (auto split: sum.splits)

lemma run_refresh_frame:
  "dr_metadata (snd (run_refresh refresh rt)) = dr_metadata rt"
  "dr_profiles (snd (run_refresh refresh rt)) = dr_profiles rt"
  "mc_catalogue (dr_caches (snd (run_refresh refresh rt)) a) = mc_catalogue (dr_caches rt a)"
  "remembered (snd (run_refresh refresh rt)) k =
     (if last_models k (answers_of refresh) = [] then remembered rt k else last_models k (answers_of refresh))"
  by (cases refresh; simp add: refresh_frame refresh_bindings_remembered)+

definition after_refreshes :: "refresh_outcome list \<Rightarrow> discovery_runtime \<Rightarrow> discovery_runtime" where
  "after_refreshes refreshes rt = fold (\<lambda>refresh rt. snd (run_refresh refresh rt)) refreshes rt"

lemma after_refreshes_frame:
  "dr_metadata (after_refreshes refreshes rt) = dr_metadata rt"
  "dr_profiles (after_refreshes refreshes rt) = dr_profiles rt"
  "mc_catalogue (dr_caches (after_refreshes refreshes rt) a) = mc_catalogue (dr_caches rt a)"
  "remembered (after_refreshes refreshes rt) k =
     (if last_models k (concat (map answers_of refreshes)) = [] then remembered rt k
      else last_models k (concat (map answers_of refreshes)))"
  unfolding after_refreshes_def
  by (induction refreshes arbitrary: rt) (simp_all add: run_refresh_frame last_models_append)

section \<open>What a listing holds\<close>

lemma extension_get:
  "bm_get (model_extension details caches entry u i p md) ''provider'' = Some (J_String p)"
  "bm_get (model_extension details caches entry u i p md) ''upstream_id'' = Some (J_String u)"
  by (auto simp: model_extension_def Let_def bm_get_insert_any bm_get_of_list detail_entries_def map_add_def
      split: option.splits)

lemma enriched_shows:
  "shows_model (enrich details caches (object_insert ''id'' (J_String i) (J_Object m)) u i p md) i p (J_Object m) u"
  by (simp add: shows_model_def enrich_def entry_id_def entry_field_def get_str_def bm_get_insert_any extension_get)

text \<open>The state of a listing: its entries are of the models \<open>S\<close> met so far, and none of them is missing.\<close>

definition listing_ok ::
  "(string \<times> string \<times> json \<times> string) set \<Rightarrow> json list \<times> string set \<Rightarrow> bool" where
  "listing_ok S st \<longleftrightarrow>
     distinct (map entry_id (fst st)) \<and> snd st = set (map entry_id (fst st)) \<and>
     (\<forall>entry \<in> set (fst st). \<exists>(i, p, m, u) \<in> S. shows_model entry i p m u) \<and>
     (\<forall>(i, p, m, u) \<in> S. i \<in> snd st)"

lemma render_model_ok:
  assumes "listing_ok S st" and "model = J_Object m"
  shows "listing_ok (insert (i, p, model, u) S) (render_model details caches p md model u i st)"
proof -
  obtain es seen where st: "st = (es, seen)" by (cases st)
  note e = enriched_shows [of details caches i m u p md, folded assms(2)]
  then have "entry_id (enrich details caches (object_insert ''id'' (J_String i) model) u i p md) = i"
    by (simp add: shows_model_def)
  with assms(1) e show ?thesis
    by (fastforce simp: render_model_def st listing_ok_def)
qed

definition models_met ::
  "(string \<Rightarrow> string list) \<Rightarrow> string \<Rightarrow> json list \<Rightarrow> (string \<times> string \<times> json \<times> string) set" where
  "models_met ids p models =
     {(i, q, m, u). q = p \<and> m \<in> set models \<and> get_str m ''id'' = Some u \<and> u \<noteq> [] \<and> i \<in> set (ids u)}"

lemma models_met_Nil [simp]: "models_met ids p [] = {}"
  by (auto simp: models_met_def)

lemma merge_model_ok:
  assumes "listing_ok S st" and ids: "\<And>u. rendered_ids (xp_plain_model_ids x) (xp_qualified_model_ids x) p md u = [f u]"
  shows "listing_ok (S \<union> models_met (\<lambda>u. [f u]) p [model]) (merge_model details caches p md x model st)"
proof (cases "get_str model ''id''")
  case None
  then have "models_met (\<lambda>u. [f u]) p [model] = {}" by (auto simp: models_met_def)
  with None assms(1) show ?thesis by (simp add: merge_model_def)
next
  case (Some u)
  then obtain m where m: "model = J_Object m" by (auto dest: get_str_object)
  have "S \<union> models_met (\<lambda>u. [f u]) p [model] = (if u = [] then S else insert (f u, p, model, u) S)"
    using Some by (auto simp: models_met_def)
  with Some assms(1) render_model_ok [OF assms(1) m, of "f u" p u details caches md] show ?thesis
    by (simp add: merge_model_def Let_def ids)
qed

lemma fold_merge_ok:
  assumes "listing_ok S st" and "\<And>u. rendered_ids (xp_plain_model_ids x) (xp_qualified_model_ids x) p md u = [f u]"
  shows "listing_ok (S \<union> models_met (\<lambda>u. [f u]) p models) (fold (merge_model details caches p md x) models st)"
  using assms(1)
proof (induction models arbitrary: S st)
  case (Cons model models)
  have "S \<union> models_met (\<lambda>u. [f u]) p (model # models) =
      S \<union> models_met (\<lambda>u. [f u]) p [model] \<union> models_met (\<lambda>u. [f u]) p models" by (auto simp: models_met_def)
  with Cons.IH [OF merge_model_ok [OF Cons.prems assms(2), of model details caches]] show ?case by simp
qed simp

definition provider_models ::
  "provider linked_account_pools \<Rightarrow> profile_plan \<Rightarrow> route_plan \<Rightarrow> discovery_runtime \<Rightarrow> string \<Rightarrow>
   (string \<times> string \<times> json \<times> string) set" where
  "provider_models pools profile route rt p =
     {(i, q, m, u). q = p \<and> (\<exists>md. bm_get (dr_metadata rt) p = Some md \<and> get_str m ''id'' = Some u \<and> u \<noteq> [] \<and>
        i = client_id route p (md_driver_id md) u \<and>
        m \<in> {m. \<exists>k \<in> offering_accounts pools profile route. bk_provider k = p \<and> m \<in> set (remembered rt k)} \<union>
          (\<lambda>m. json_obj [(''id'', J_String (mi_id m)), (''object'', J_String ''model'')]) ` set (advertised_models (dr_caches rt) md))}"

lemma merge_provider_ok:
  assumes "listing_ok S st" and offered: "provider_offered pools profile route p x"
  shows "listing_ok (S \<union> provider_models pools profile route rt p) (merge_provider details rt (p, x) st)"
proof (cases "bm_get (dr_metadata rt) p")
  case None
  then have "provider_models pools profile route rt p = {}" by (auto simp: provider_models_def)
  with None assms(1) show ?thesis by (simp add: merge_provider_def)
next
  case (Some md)
  let ?ms = "concat (filter_map (bm_get (dr_upstream rt)) (bm_keys (xp_bindings x))) @
               local_models (advertised_models (dr_caches rt) md)"
  have ids: "rendered_ids (xp_plain_model_ids x) (xp_qualified_model_ids x) p md u = [client_id route p (md_driver_id md) u]" for u
    using offered by (simp add: provider_offered_def)
  have keys: "set (bm_keys (xp_bindings x)) = {k \<in> offering_accounts pools profile route. bk_provider k = p}"
    using offered by (simp add: provider_offered_def)
  have account: "m \<in> set (concat (filter_map (bm_get (dr_upstream rt)) ks)) \<longleftrightarrow> (\<exists>k \<in> set ks. m \<in> set (remembered rt k))" for m ks
    by (induction ks) (auto simp: remembered_def split: option.splits)
  have ms: "set ?ms = {m. \<exists>k \<in> offering_accounts pools profile route. bk_provider k = p \<and> m \<in> set (remembered rt k)} \<union>
      (\<lambda>m. json_obj [(''id'', J_String (mi_id m)), (''object'', J_String ''model'')]) ` set (advertised_models (dr_caches rt) md)"
    unfolding set_append set_eq_iff Un_iff account keys by (simp add: local_models_def) blast
  have met: "models_met (\<lambda>u. [client_id route p (md_driver_id md) u]) p ?ms = provider_models pools profile route rt p"
    unfolding models_met_def ms provider_models_def Some by auto
  have "merge_provider details rt (p, x) st = fold (merge_model details (dr_caches rt) p md x) ?ms st"
    by (simp add: merge_provider_def Some)
  with fold_merge_ok [OF assms(1) ids, of ?ms details "dr_caches rt"] show ?thesis unfolding met by simp
qed

lemma fold_providers_ok:
  assumes "listing_ok S st" and "\<forall>(p, x) \<in> set xs. provider_offered pools profile route p x"
  shows "listing_ok (S \<union> (\<Union>p \<in> fst ` set xs. provider_models pools profile route rt p)) (fold (merge_provider details rt) xs st)"
  using assms
proof (induction xs arbitrary: S st)
  case (Cons y xs)
  obtain p x where y: "y = (p, x)" by fastforce
  with Cons.prems have "provider_offered pools profile route p x" by simp
  from Cons.IH [OF merge_provider_ok [OF Cons.prems(1) this, of rt details]] Cons.prems(2) y
  show ?case by (simp add: Un_assoc)
qed simp

lemma new_discovery_profile:
  assumes "new_discovery zai defaults plan g pools r caches reachable = Inr rt" and "bm_get (dr_profiles rt) i = Some d"
  shows "\<exists>profile route. bm_get (gp_profiles plan) i = Some profile \<and> bm_get (gp_routes plan) (pp_route profile) = Some route \<and>
    discovered_providers pools i profile route = Inr (xd_providers d) \<and> xd_mode d = request_record_mode route"
    and "dr_upstream rt = []"
proof -
  from assms obtain profiles where ps: "res_collect (\<lambda>i. res_map (Pair i) (profile_discovery_of plan pools i)) reachable = Inr profiles"
    and rt: "dr_profiles rt = bm_of_list profiles" and up: "dr_upstream rt = []"
    by (auto simp: new_discovery_def)
  have "(i, d) \<in> set profiles" using assms(2) rt bm_of_list_get_in by metis
  from res_collect_set [OF ps this] have "profile_discovery_of plan pools i = Inr d" by auto
  then show "\<exists>profile route. bm_get (gp_profiles plan) i = Some profile \<and> bm_get (gp_routes plan) (pp_route profile) = Some route \<and>
    discovered_providers pools i profile route = Inr (xd_providers d) \<and> xd_mode d = request_record_mode route"
    by (auto simp: profile_discovery_of_def)
  show "dr_upstream rt = []" by (rule up)
qed

lemma advertised_same:
  "(\<And>a. mc_catalogue (cs a) = mc_catalogue (cs' a)) \<Longrightarrow> advertised_models cs md = advertised_models cs' md"
  by (simp add: advertised_models_def)

lemma listable_models:
  assumes "dr_metadata rt = dr_metadata rt0" "\<And>a. mc_catalogue (dr_caches rt a) = mc_catalogue (dr_caches rt0 a)"
    and "\<And>k. remembered rt k = last_models k answers"
    and "offering_providers pools profile route = fst ` set ps"
  shows "(i, p, m, u) \<in> (\<Union>p \<in> fst ` set (filter (\<lambda>(p, _). access_allows (ac_providers access) p) ps). provider_models pools profile route rt p) \<longleftrightarrow>
    (\<exists>md. listable pools profile route access rt0 answers p md m u \<and> i = client_id route p (md_driver_id md) u)"
proof -
  have "p \<in> fst ` set (filter (\<lambda>(p, _). access_allows (ac_providers access) p) ps) \<longleftrightarrow>
      p \<in> offering_providers pools profile route \<and> access_allows (ac_providers access) p"
    unfolding assms(4) by force
  then show ?thesis
    unfolding UN_iff provider_models_def listable_def offered_models_def assms(1,3) advertised_same [OF assms(2)] by auto
qed


section \<open>A small discovery\<close>

definition listing_plan :: gateway_plan where
  "listing_plan =
     \<lparr>gp_listeners = [],
      gp_profiles = [(''team'', \<lparr>pp_route = ''any'', pp_wire_identity = No_Identity, pp_account_pool = Some ''main'', pp_api_binding = None\<rparr>)],
      gp_routes = [(''any'', Managed routed_route)], gp_retry_policies = [], gp_account_pools = [],
      gp_providers = [(''openai'', \<lparr>vp_driver = ''openai'', vp_base_url = None, vp_origins = [], vp_allow_insecure_http = False\<rparr>)]\<rparr>"

definition listing_descriptor :: "(provider, unit) provider_descriptor" where
  "listing_descriptor =
     \<lparr>pd_id = ''openai'', pd_display_name = ''OpenAI'', pd_base_url = ''u'', pd_endpoints = [], pd_validate = (\<lambda>_. None),
      pd_build = (\<lambda>_ _. Inl ())\<rparr>"

definition listing_graph :: "(provider, unit) provider_graph" where
  "listing_graph =
     \<lparr>pg_destinations = [(''openai'', \<lparr>ds_provider_id = ''openai'', ds_driver_id = ''openai'',
        ds_target = \<lparr>pt_base_url = ''u'', pt_model_cache = 0\<rparr>, ds_descriptor = listing_descriptor\<rparr>)],
      pg_bindings = [], pg_accounts = [], pg_account_indices = []\<rparr>"

definition listing_built :: "reference_error + discovery_runtime" where
  "listing_built =
     new_discovery (\<lambda>_. []) (\<lambda>_. [\<lparr>mi_id = ''known'', mi_reasoning_efforts = None\<rparr>]) listing_plan listing_graph [(''main'', routed_pool)]
       [(''openai'', listing_descriptor)] (\<lambda>_. empty_model_cache) [''team'']"

definition listing_refresh :: refresh_outcome where
  "listing_refresh =
     Refreshed [(Binding_Key ''openai'' ''b'', Inr (json_obj [(''data'', J_Array [json_obj [(''id'', J_String ''new'')]])]))]"

definition listing_details :: "model_info \<Rightarrow> model_details" where
  "listing_details m = \<lparr>dt_name = mi_id m, dt_capabilities = json_obj [], dt_cost = None, dt_limit = J_Null, dt_release_date = None\<rparr>"

lemma listing_answers:
  "case listing_built of Inl _ \<Rightarrow> False | Inr rt \<Rightarrow>
     (case fst (list_models listing_details ''team'' unrestricted listing_refresh (after_refreshes [] rt)) of
        Inl _ \<Rightarrow> False
      | Inr body \<Rightarrow> map entry_id (unwrap_or [] (get_array body ''data'')) = [''new'', ''known''])"
  by code_simp


end
