(* ===== verification/Upstream_Url.thy ===== *)
theory Upstream_Url
  imports Provider_Graph Listener_Compile
begin

text \<open>
  Canonical upstream URLs (crates/core/src/upstream_url.rs): the base URLs and origins that
  credentials are sent to, and the request URLs built from them. Reading the text of a URL
  is the URL library's: \<open>parse_url\<close> is a parameter of every definition that uses it, and so is
  \<open>push_path\<close>, which appends segments to the path of a URL. A \<open>url\<close> is what the library
  says of the URL it has read.
\<close>

section \<open>Data\<close>

record url =
  url_text :: string
  url_scheme :: string
  url_host :: "string option"
  url_port :: "nat option"
  url_path :: string
  url_query :: "string option"
  url_fragment :: "string option"
  url_username :: string
  url_password :: "string option"
  url_origin :: string

record path_and_query =
  pq_path :: string
  pq_query :: "string option"

datatype invalid_upstream_url =
    Url_Non_Ascii
  | Obscured_Syntax
  | Non_Canonical_Scheme
  | Url_Authority invalid_authority
  | Dot_Segment
  | Url_Parse string
  | Unsupported_Scheme
  | Missing_Host_Or_Credentials
  | Parser_Changed_Authority
  | Query_Or_Fragment
  | Insecure_Http
  | Expected_Origin

datatype invalid_operation_path =
    Operation_Empty
  | Operation_Empty_Segment nat
  | Operation_Dot_Segment nat
  | Operation_Invalid_Base

datatype invalid_request_url =
    Invalid_Path string
  | Invalid_Url invalid_upstream_url
  | Changed_Origin string string
  | Discarded_Prefix string string
  | Changed_Path string string
  | Changed_Query "string option" "string option"

fun invalid_authority_text :: "invalid_authority \<Rightarrow> string" where
  "invalid_authority_text Authority_Empty = ''authority must not be empty''"
| "invalid_authority_text Invalid_Characters = ''authority contains invalid characters''"
| "invalid_authority_text User_Info_Not_Allowed = ''authority must not contain user information''"
| "invalid_authority_text Malformed_Ipv6_Brackets = ''authority has malformed IPv6 brackets''"
| "invalid_authority_text Brackets_Require_Ipv6 = ''authority brackets may only contain an IPv6 address''"
| "invalid_authority_text Ipv6_Must_Be_Bracketed = ''an IPv6 authority must enclose its host in brackets''"
| "invalid_authority_text Invalid_Port = ''authority port must be an integer from 1 through 65535''"
| "invalid_authority_text Missing_Port = ''authority must include an explicit port''"
| "invalid_authority_text (Authority_Host e) = ''invalid authority host: '' @ invalid_host_text e"

fun invalid_upstream_text :: "invalid_upstream_url \<Rightarrow> string" where
  "invalid_upstream_text Url_Non_Ascii = ''URL must be ASCII; use an ASCII domain and percent-encoded path''"
| "invalid_upstream_text Obscured_Syntax = ''URL must not contain whitespace, control characters, or backslashes''"
| "invalid_upstream_text Non_Canonical_Scheme = ''scheme must use canonical https:// or http:// syntax''"
| "invalid_upstream_text (Url_Authority e) = ''invalid URL authority: '' @ invalid_authority_text e"
| "invalid_upstream_text Dot_Segment = ''URL path must not contain literal or percent-encoded dot segments''"
| "invalid_upstream_text (Url_Parse message) = ''invalid URL: '' @ message"
| "invalid_upstream_text Unsupported_Scheme = ''scheme must be http or https''"
| "invalid_upstream_text Missing_Host_Or_Credentials = ''URL must contain a host and must not contain credentials''"
| "invalid_upstream_text Parser_Changed_Authority = ''URL parser changed the authority; use a canonical host and port''"
| "invalid_upstream_text Query_Or_Fragment = ''upstream URL must not contain a query or fragment''"
| "invalid_upstream_text Insecure_Http =
     ''non-loopback HTTP can expose account credentials; use HTTPS or explicitly allow insecure HTTP''"
| "invalid_upstream_text Expected_Origin = ''expected only scheme, host, and optional port''"

section \<open>Dot segments\<close>

text \<open>
  The two scans of a path segment: \<open>canonical_dot_segment\<close> gives the dots of a segment made
  of dots only, literal or escaped; \<open>is_raw_dot_segment\<close> counts them.
\<close>

fun canonical_dot_segment :: "string \<Rightarrow> string option" where
  "canonical_dot_segment [] = Some []"
| "canonical_dot_segment (c # cs) =
     (if c = CHR ''.'' then map_option ((#) CHR ''.'') (canonical_dot_segment cs)
      else case cs of
             b # d # rest \<Rightarrow>
               if c = CHR ''%'' \<and> b = CHR ''2'' \<and> to_ascii_lowercase d = CHR ''e''
               then map_option ((#) CHR ''.'') (canonical_dot_segment rest) else None
           | _ \<Rightarrow> None)"

fun raw_dots :: "nat \<Rightarrow> string \<Rightarrow> nat option" where
  "raw_dots dots [] = Some dots"
| "raw_dots dots (c # cs) =
     (if c = CHR ''.'' then raw_dots (dots + 1) cs
      else case cs of
             b # d # rest \<Rightarrow>
               if c = CHR ''%'' \<and> b = CHR ''2'' \<and> to_ascii_lowercase d = CHR ''e''
               then raw_dots (dots + 1) rest else None
           | _ \<Rightarrow> None)"

definition is_raw_dot_segment :: "string \<Rightarrow> bool" where
  "is_raw_dot_segment segment \<longleftrightarrow> raw_dots 0 segment \<in> {Some 1, Some 2}"

definition validated_request_path :: "path_and_query \<Rightarrow> invalid_request_url + string" where
  "validated_request_path target =
     (let raw = pq_path target
      in if raw = [] \<or> \<not> starts_with ''/'' raw \<or> \<not> list_all is_ascii_char raw
         then Inl (Invalid_Path (''path must be non-empty ASCII and start with '' @ [CHR 0x27, CHR ''/'', CHR 0x27]))
         else if list_ex (\<lambda>segment. canonical_dot_segment segment \<in> {Some ''.'', Some ''..''}) (split_on CHR ''/'' raw)
         then Inl (Invalid_Path ''dot segments are not allowed'')
         else Inr raw)"

section \<open>Reading a URL\<close>

definition http_remainder :: "string \<Rightarrow> string option" where
  "http_remainder raw =
     (case strip_prefix ''https://'' raw of Some r \<Rightarrow> Some r | None \<Rightarrow> strip_prefix ''http://'' raw)"

definition raw_authority :: "string \<Rightarrow> string" where
  "raw_authority remainder = takeWhile (\<lambda>c. c \<notin> set ''/?#'') remainder"

definition raw_path :: "string \<Rightarrow> string" where
  "raw_path remainder = takeWhile (\<lambda>c. c \<notin> set ''?#'') (dropWhile (\<lambda>c. c \<notin> set ''/?#'') remainder)"

definition parse_http_url ::
  "(string \<Rightarrow> string + url) \<Rightarrow> string \<Rightarrow> invalid_upstream_url + url \<times> canonical_authority" where
  "parse_http_url parse_url raw =
     (if \<not> list_all is_ascii_char raw then Inl Url_Non_Ascii
      else if list_ex (\<lambda>c. is_ascii_whitespace c \<or> is_ascii_control c) raw \<or> CHR 0x5C \<in> set raw then Inl Obscured_Syntax
      else
        res_bind (ok_or Non_Canonical_Scheme (http_remainder raw)) (\<lambda>remainder.
        res_bind (map_err Url_Authority (parse_authority (raw_authority remainder))) (\<lambda>authority.
        if list_ex is_raw_dot_segment (split_on CHR ''/'' (raw_path remainder)) then Inl Dot_Segment
        else
        res_bind (map_err Url_Parse (parse_url raw)) (\<lambda>url.
        if url_scheme url \<notin> {''http'', ''https''} then Inl Unsupported_Scheme
        else
          (case url_host url of
             None \<Rightarrow> Inl Missing_Host_Or_Credentials
           | Some host_str \<Rightarrow>
               if url_username url \<noteq> [] \<or> url_password url \<noteq> None then Inl Missing_Host_Or_Credentials
               else
                 res_bind (map_err (\<lambda>_. Parser_Changed_Authority) (parse_host host_str)) (\<lambda>parsed_host.
                 let default_port = (if url_scheme url = ''http'' then 80 else 443 :: nat)
                 in if ca_host authority \<noteq> parsed_host \<or>
                      case_option default_port id (ca_port authority) \<noteq> case_option default_port id (url_port url)
                    then Inl Parser_Changed_Authority
                    else Inr (url, authority)))))))"

definition reject_query_or_fragment :: "url \<Rightarrow> invalid_upstream_url + unit" where
  "reject_query_or_fragment url =
     (if url_query url \<noteq> None \<or> url_fragment url \<noteq> None then Inl Query_Or_Fragment else Inr ())"

definition enforce_cleartext_policy ::
  "url \<Rightarrow> canonical_authority \<Rightarrow> cleartext_policy \<Rightarrow> invalid_upstream_url + unit" where
  "enforce_cleartext_policy url authority cleartext =
     (if url_scheme url = ''http'' \<and> cleartext = Loopback_Only \<and> \<not> is_loopback (ca_host authority)
      then Inl Insecure_Http else Inr ())"

text \<open>A base URL: its text ends in a slash.\<close>

definition parse_upstream_url ::
  "(string \<Rightarrow> string + url) \<Rightarrow> string \<Rightarrow> cleartext_policy \<Rightarrow> invalid_upstream_url + url" where
  "parse_upstream_url parse_url raw cleartext =
     res_bind (parse_http_url parse_url raw) (\<lambda>(url, authority).
     res_bind (reject_query_or_fragment url) (\<lambda>_.
     res_bind (enforce_cleartext_policy url authority cleartext) (\<lambda>_.
       if ends_with ''/'' (url_text url) then Inr url
       else map_err Url_Parse (parse_url (url_text url @ ''/'')))))"

definition parse_http_origin ::
  "(string \<Rightarrow> string + url) \<Rightarrow> string \<Rightarrow> cleartext_policy \<Rightarrow> invalid_upstream_url + string" where
  "parse_http_origin parse_url raw cleartext =
     res_bind (parse_http_url parse_url raw) (\<lambda>(url, authority).
     res_bind (reject_query_or_fragment url) (\<lambda>_.
     res_bind (enforce_cleartext_policy url authority cleartext) (\<lambda>_.
       if url_path url \<noteq> ''/'' then Inl Expected_Origin else Inr (url_origin url))))"

section \<open>Request URLs\<close>

text \<open>The segments of an operation, from index \<open>i\<close> on: the first empty one or one of dots.\<close>

fun check_segments :: "nat \<Rightarrow> string list \<Rightarrow> invalid_operation_path + unit" where
  "check_segments i [] = Inr ()"
| "check_segments i (s # ss) =
     (if s = [] then Inl (Operation_Empty_Segment i)
      else if s \<in> {''.'', ''..''} then Inl (Operation_Dot_Segment i)
      else check_segments (i + 1) ss)"

definition operation_url ::
  "(url \<Rightarrow> string list \<Rightarrow> url option) \<Rightarrow> url \<Rightarrow> string list \<Rightarrow> invalid_operation_path + url" where
  "operation_url push_path base segments =
     (if segments = [] then Inl Operation_Empty
      else
        res_bind (ok_or Operation_Invalid_Base (push_path base [])) (\<lambda>_.
        res_bind (check_segments 0 segments) (\<lambda>_.
          ok_or Operation_Invalid_Base (push_path base segments))))"

definition compose_request_url :: "string \<Rightarrow> string \<Rightarrow> string option \<Rightarrow> string" where
  "compose_request_url base path query =
     base @ path @ (case query of Some q \<Rightarrow> CHR ''?'' # q | None \<Rightarrow> [])"

definition parse_composed_request_url :: "(string \<Rightarrow> string + url) \<Rightarrow> string \<Rightarrow> invalid_request_url + url" where
  "parse_composed_request_url parse_url raw = map_err Invalid_Url (res_map fst (parse_http_url parse_url raw))"

definition ensure_origin :: "url \<Rightarrow> string \<Rightarrow> invalid_request_url + unit" where
  "ensure_origin url expected =
     (if url_origin url = expected then Inr () else Inl (Changed_Origin expected (url_origin url)))"

definition ensure_path_and_query :: "url \<Rightarrow> string \<Rightarrow> string option \<Rightarrow> invalid_request_url + unit" where
  "ensure_path_and_query url expected_path expected_query =
     (if url_path url \<noteq> expected_path then Inl (Changed_Path expected_path (url_path url))
      else if url_query url \<noteq> expected_query then Inl (Changed_Query expected_query (url_query url))
      else Inr ())"

definition relay_url ::
  "(string \<Rightarrow> string + url) \<Rightarrow> url \<Rightarrow> path_and_query \<Rightarrow> invalid_request_url + url" where
  "relay_url parse_url base target =
     res_bind (validated_request_path target) (\<lambda>path.
     let relative_path = tl path in
     res_bind (parse_composed_request_url parse_url
                 (compose_request_url (url_text base) relative_path (pq_query target))) (\<lambda>url.
     res_bind (ensure_origin url (url_origin base)) (\<lambda>_.
     if \<not> starts_with (url_path base) (url_path url) then Inl (Discarded_Prefix (url_path base) (url_path url))
     else
       res_map (\<lambda>_. url) (ensure_path_and_query url (url_path base @ relative_path) (pq_query target)))))"

definition request_url ::
  "(string \<Rightarrow> string + url) \<Rightarrow> string \<Rightarrow> path_and_query \<Rightarrow> invalid_request_url + url" where
  "request_url parse_url origin target =
     res_bind (validated_request_path target) (\<lambda>path.
     res_bind (parse_composed_request_url parse_url (compose_request_url origin path (pq_query target))) (\<lambda>url.
     res_bind (ensure_origin url origin) (\<lambda>_.
       res_map (\<lambda>_. url) (ensure_path_and_query url path (pq_query target)))))"

end
