(* ===== verification/Resource_Compile.thy ===== *)
theory Resource_Compile
  imports Upstream_Url Std_Str
begin

text \<open>
  The resource part of the configuration compiler (crates/config/src/v2/compile/resources.rs
  and resources/profiles.rs), the expansion of the \<open>[defaults]\<close> shorthand (v2/defaults.rs)
  and the compilation of the whole gateway (v2/compile/mod.rs), from the raw document of
  v2/raw.rs to the gateway plan. The document is as the TOML library has decoded it; reading
  URLs is the parameter \<open>parse_url\<close> of \<open>Upstream_Url\<close>. Numbers are the \<open>u64\<close> and \<open>u32\<close> of the
  document, only compared here.
\<close>

section \<open>The raw document\<close>

datatype raw_pool_strategy = Raw_Round_Robin

record raw_account_pool =
  ra_accounts :: "string list option"
  ra_strategy :: raw_pool_strategy
  ra_failure_cooldown_secs :: nat
  ra_session_ttl_secs :: nat
  ra_session_expired_retention_secs :: nat

definition default_account_pool :: raw_account_pool where
  "default_account_pool =
     \<lparr>ra_accounts = None, ra_strategy = Raw_Round_Robin, ra_failure_cooldown_secs = 60,
      ra_session_ttl_secs = 18000, ra_session_expired_retention_secs = 0\<rparr>"

record raw_profile_binding =
  rpb_path :: "string option"
  rpb_endpoints :: "string list option"

datatype raw_wire_identity = Raw_Auto | Raw_No_Identity | Raw_Provider_Default | Raw_Named string

record raw_profile =
  rp_route :: string
  rp_account_pool :: "raw_account_pool option"
  rp_binding :: "raw_profile_binding option"
  rp_wire_identity :: raw_wire_identity

datatype raw_provider_selector = Raw_Any | Raw_Fixed string
datatype raw_qualification_namespace = Raw_Driver_Namespace | Raw_Provider_Namespace
datatype raw_model_selector =
    Raw_Capability
  | Raw_Qualified raw_qualification_namespace
  | Raw_Family "(string, string list) bmap"
datatype raw_operation_policy = Raw_Preserve | Raw_Translate_Compatible
datatype raw_relay_destination = Raw_Original | Raw_Fixed_Provider string
datatype raw_relay_credentials = Raw_Client_Credentials | Raw_Account_Pool_Credentials
datatype raw_route_retry = Raw_Never | Raw_Recoverable string | Raw_Safe_Methods string | Raw_Buffered string

datatype raw_route =
    Raw_Managed (raw_route_providers: "string list option") raw_provider_selector raw_model_selector
      raw_operation_policy raw_route_retry
  | Raw_Relay (raw_route_providers: "string list option") raw_relay_destination raw_relay_credentials
      raw_route_retry

record raw_retry_policy =
  rr_max_retries :: nat
  rr_initial_backoff_ms :: nat

record raw_provider =
  rv_enable :: bool
  rv_driver :: "string option"
  rv_base_url :: "string option"
  rv_origins :: "string list"
  rv_allow_insecure_http :: bool

record raw_default_policy =
  rd_providers :: "string list option"
  rd_provider :: raw_provider_selector
  rd_model :: raw_model_selector
  rd_operation :: raw_operation_policy
  rd_wire_identity :: raw_wire_identity
  rd_retry :: raw_route_retry
  rd_account_pool :: raw_account_pool
  rd_binding :: "raw_profile_binding option"

definition default_policy :: raw_default_policy where
  "default_policy =
     \<lparr>rd_providers = None, rd_provider = Raw_Any, rd_model = Raw_Capability, rd_operation = Raw_Translate_Compatible,
      rd_wire_identity = Raw_Auto, rd_retry = Raw_Never, rd_account_pool = default_account_pool, rd_binding = None\<rparr>"

record raw_config =
  rg_defaults :: "raw_default_policy option"
  rg_listeners :: raw_listeners
  rg_profiles :: "(string, raw_profile) bmap"
  rg_routes :: "(string, raw_route) bmap"
  rg_retry_policies :: "(string, raw_retry_policy) bmap"
  rg_model_scores :: "(string, (string, int) bmap) bmap"
  rg_providers :: "(string, raw_provider) bmap"

section \<open>Retry policies and account pools\<close>

definition max_failure_cooldown_secs :: nat where
  "max_failure_cooldown_secs = 86400"

definition max_session_duration_secs :: nat where
  "max_session_duration_secs = 31536000"

definition max_retries :: nat where
  "max_retries = 10"

definition max_initial_backoff_ms :: nat where
  "max_initial_backoff_ms = 60000"

definition duration_from_millis :: "nat \<Rightarrow> duration" where
  "duration_from_millis ms = ms * 1000000"

definition quote_id :: "string \<Rightarrow> string" where
  "quote_id s = ''`'' @ s @ ''`''"

definition duplicate_resource_value :: "string \<Rightarrow> string \<Rightarrow> compile_error" where
  "duplicate_resource_value location value =
     Invalid_Value location (''contains duplicate value '' @ quote_id value)"

text \<open>Collecting into a map, as every registry is compiled.\<close>

definition collect_map ::
  "(string \<Rightarrow> 'a \<Rightarrow> compile_error + string \<times> 'b) \<Rightarrow> (string, 'a) bmap \<Rightarrow> compile_error + (string, 'b) bmap" where
  "collect_map f m = res_map bm_of_list (res_collect (\<lambda>(k, v). f k v) m)"

definition compile_retry_policy :: "string \<Rightarrow> raw_retry_policy \<Rightarrow> compile_error + string \<times> retry_policy_plan" where
  "compile_retry_policy raw_id raw =
     res_bind (compile_id Retry_Policy_Id ''retry policy id'' raw_id) (\<lambda>id.
     if rr_max_retries raw = 0 \<or> rr_max_retries raw > max_retries
     then Inl (Invalid_Value (''retry_policies.'' @ raw_id @ ''.max_retries'') ''must be between 1 and 10'')
     else if rr_initial_backoff_ms raw > max_initial_backoff_ms
     then Inl (Invalid_Value (''retry_policies.'' @ raw_id @ ''.initial_backoff_ms'') ''must not exceed 60000'')
     else Inr (id, \<lparr>rp_max_retries = rr_max_retries raw,
                    rp_initial_backoff = duration_from_millis (rr_initial_backoff_ms raw)\<rparr>))"

definition compile_retry_policies ::
  "(string, raw_retry_policy) bmap \<Rightarrow> compile_error + (string, retry_policy_plan) bmap" where
  "compile_retry_policies raw = collect_map compile_retry_policy raw"

definition validate_selector_shape :: "string list \<Rightarrow> string \<Rightarrow> compile_error + unit" where
  "validate_selector_shape raw_values location =
     (if raw_values = []
      then Inl (Invalid_Value location
        ''must not be empty; omit the field or use [\"*\"] for an unrestricted selector'')
      else if list_ex (\<lambda>v. v = ''*'') raw_values \<and> raw_values \<noteq> [''*'']
      then Inl (Invalid_Value location ''wildcard `*` must be the only selector value'')
      else Inr ())"

fun account_filter_values :: "string \<Rightarrow> string bset \<Rightarrow> string list \<Rightarrow> compile_error + string bset" where
  "account_filter_values location seen [] = Inr seen"
| "account_filter_values location seen (value # rest) =
     (if str_trim value = [] \<or> str_trim value \<noteq> value
      then Inl (Invalid_Value location ''account ids must be non-empty and have no surrounding whitespace'')
      else if bs_contains seen value then Inl (duplicate_resource_value location value)
      else account_filter_values location (bs_of_list (value # seen)) rest)"

definition compile_account_filter :: "string list option \<Rightarrow> string \<Rightarrow> compile_error + string bset option" where
  "compile_account_filter raw_values location =
     (case raw_values of
        None \<Rightarrow> Inr None
      | Some values \<Rightarrow>
          res_bind (validate_selector_shape values location) (\<lambda>_.
            if values = [''*''] then Inr None
            else res_map Some (account_filter_values location [] values)))"

definition check_maximum :: "string \<Rightarrow> nat \<Rightarrow> nat \<Rightarrow> compile_error + unit" where
  "check_maximum location seconds maximum =
     (if seconds > maximum
      then Inl (Invalid_Value location (''must not exceed '' @ show_radix 10 maximum @ '' seconds''))
      else Inr ())"

definition compile_session_affinity :: "string \<Rightarrow> raw_account_pool \<Rightarrow> compile_error + session_affinity_plan option" where
  "compile_session_affinity location raw =
     (if ra_session_ttl_secs raw = 0 then
        (if ra_session_expired_retention_secs raw \<noteq> 0
         then Inl (Invalid_Value location ''must be zero when session_ttl_secs is zero'')
         else Inr None)
      else Inr (Some \<lparr>sp_ttl = duration_from_secs (ra_session_ttl_secs raw),
                      sp_expired_retention = duration_from_secs (ra_session_expired_retention_secs raw)\<rparr>))"

definition compile_account_pool :: "string \<Rightarrow> raw_account_pool \<Rightarrow> compile_error + account_pool_plan" where
  "compile_account_pool profile raw =
     (let location = ''profiles.'' @ profile @ ''.account_pool'' in
      res_bind (check_maximum (location @ ''.failure_cooldown_secs'') (ra_failure_cooldown_secs raw)
                  max_failure_cooldown_secs) (\<lambda>_.
      res_bind (check_maximum (location @ ''.session_ttl_secs'') (ra_session_ttl_secs raw)
                  max_session_duration_secs) (\<lambda>_.
      res_bind (check_maximum (location @ ''.session_expired_retention_secs'')
                  (ra_session_expired_retention_secs raw) max_session_duration_secs) (\<lambda>_.
      res_bind (compile_account_filter (ra_accounts raw) (location @ ''.accounts'')) (\<lambda>accounts.
      res_bind (compile_session_affinity (location @ ''.session_expired_retention_secs'') raw) (\<lambda>affinity.
          Inr \<lparr>ap_selector = \<lparr>as_providers = None, as_accounts = accounts\<rparr>,
               ap_strategy = (case ra_strategy raw of Raw_Round_Robin \<Rightarrow> Round_Robin),
               ap_failure_cooldown = duration_from_secs (ra_failure_cooldown_secs raw),
               ap_session_affinity = affinity\<rparr>))))))"

section \<open>Providers\<close>

definition claim_origin ::
  "string \<Rightarrow> string \<Rightarrow> string list \<Rightarrow> compile_error + string list" where
  "claim_origin provider origin compiled =
     (if origin \<in> set compiled
      then Inl (Invalid_Value (''providers.'' @ provider @ ''.origins'')
        (''contains duplicate canonical origin '' @ quote_id origin))
      else Inr (compiled @ [origin]))"

definition policy_of_cleartext :: "bool \<Rightarrow> cleartext_policy" where
  "policy_of_cleartext allow_insecure_http = (if allow_insecure_http then Allow_Cleartext else Loopback_Only)"

definition canonical_base_url ::
  "(string \<Rightarrow> string + url) \<Rightarrow> string \<Rightarrow> string \<Rightarrow> bool \<Rightarrow> compile_error + string \<times> string" where
  "canonical_base_url parse_url value location allow_insecure_http =
     res_map (\<lambda>url. (url_text url, url_origin url))
       (map_err (\<lambda>e. Invalid_Value location (invalid_upstream_text e))
         (parse_upstream_url parse_url value (policy_of_cleartext allow_insecure_http)))"

definition canonical_origin_value ::
  "(string \<Rightarrow> string + url) \<Rightarrow> string \<Rightarrow> string \<Rightarrow> bool \<Rightarrow> compile_error + string" where
  "canonical_origin_value parse_url value location allow_insecure_http =
     map_err (\<lambda>e. Invalid_Value location (invalid_upstream_text e))
       (parse_http_origin parse_url value (policy_of_cleartext allow_insecure_http))"

definition preset_provider :: "official_provider_preset \<Rightarrow> compile_error + string \<times> provider_plan" where
  "preset_provider preset =
     res_bind (compile_id Provider_Id ''provider id'' (op_id preset)) (\<lambda>id.
     res_map (\<lambda>driver.
         (id, \<lparr>vp_driver = driver, vp_base_url = None, vp_origins = [], vp_allow_insecure_http = False\<rparr>))
       (compile_id Driver_Id ''provider driver'' (op_driver preset)))"

definition preset_providers :: "compile_error + (string, provider_plan) bmap" where
  "preset_providers = res_map bm_of_list (res_collect preset_provider official_provider_presets)"

text \<open>An enabled provider.\<close>

definition compile_provider ::
  "(string \<Rightarrow> string + url) \<Rightarrow> string \<Rightarrow> official_provider_preset option \<Rightarrow> raw_provider \<Rightarrow> compile_error + provider_plan" where
  "compile_provider parse_url raw_id preset raw =
     res_bind (ok_or (Invalid_Value (''providers.'' @ raw_id @ ''.driver'') ''custom providers must configure a driver'')
                 (case rv_driver raw of Some d \<Rightarrow> Some d | None \<Rightarrow> map_option op_driver preset)) (\<lambda>raw_driver.
     res_bind (compile_id Driver_Id ''provider driver'' raw_driver) (\<lambda>driver.
     res_bind (case rv_base_url raw of
                 None \<Rightarrow> Inr None
               | Some value \<Rightarrow>
                   res_map Some (canonical_base_url parse_url value (''providers.'' @ raw_id @ ''.base_url'')
                     (rv_allow_insecure_http raw))) (\<lambda>base.
     res_bind (case base of None \<Rightarrow> Inr [] | Some (_, origin) \<Rightarrow> claim_origin raw_id origin []) (\<lambda>own.
     res_bind (res_fold (\<lambda>raw_origin claimed.
                 res_bind (canonical_origin_value parse_url raw_origin (''providers.'' @ raw_id @ ''.origins'')
                             (rv_allow_insecure_http raw)) (\<lambda>origin. claim_origin raw_id origin claimed))
                 (rv_origins raw) own) (\<lambda>origins.
       Inr \<lparr>vp_driver = driver, vp_base_url = map_option fst base, vp_origins = origins,
            vp_allow_insecure_http = rv_allow_insecure_http raw\<rparr>)))))"

definition compile_provider_entry ::
  "(string \<Rightarrow> string + url) \<Rightarrow> string \<times> raw_provider \<Rightarrow> (string, provider_plan) bmap \<Rightarrow>
   compile_error + (string, provider_plan) bmap" where
  "compile_provider_entry parse_url entry plans =
     (case entry of (raw_id, raw) \<Rightarrow>
        res_bind (compile_id Provider_Id ''provider id'' raw_id) (\<lambda>id.
        let preset = official_preset raw_id in
        if \<not> rv_enable raw then
          (if preset = None
           then Inl (Invalid_Value (''providers.'' @ raw_id @ ''.enable'')
             ''only an official provider preset may be disabled'')
           else Inr (bm_remove id plans))
        else res_map (\<lambda>plan. bm_insert id plan plans) (compile_provider parse_url raw_id preset raw)))"

definition compile_providers ::
  "(string \<Rightarrow> string + url) \<Rightarrow> (string, raw_provider) bmap \<Rightarrow> compile_error + (string, provider_plan) bmap" where
  "compile_providers parse_url raw =
     res_bind preset_providers (res_fold (compile_provider_entry parse_url) raw)"

section \<open>Routes\<close>

definition require_reference ::
  "(string, 'v) bmap \<Rightarrow> string \<Rightarrow> string \<Rightarrow> string \<Rightarrow> string \<Rightarrow> string \<Rightarrow> string \<Rightarrow> compile_error + unit" where
  "require_reference registry key owner_kind owner field target_kind raw_target =
     (case bm_get registry key of
        Some _ \<Rightarrow> Inr ()
      | None \<Rightarrow> Inl (Unresolved_Reference owner_kind owner field target_kind raw_target))"

definition resolve_retry_policy ::
  "string \<Rightarrow> string \<Rightarrow> (string, retry_policy_plan) bmap \<Rightarrow> compile_error + string" where
  "resolve_retry_policy route_id raw_policy policies =
     res_bind (compile_id Retry_Policy_Id ''retry policy reference'' raw_policy) (\<lambda>policy.
     res_map (\<lambda>_. policy)
       (require_reference policies policy ''route'' route_id ''retry.policy'' ''retry policy'' raw_policy))"

definition resolve_provider ::
  "string \<Rightarrow> string \<Rightarrow> string \<Rightarrow> string \<Rightarrow> (string, provider_plan) bmap \<Rightarrow> compile_error + string" where
  "resolve_provider owner_kind owner field raw_provider providers =
     res_bind (compile_id Provider_Id ''provider reference'' raw_provider) (\<lambda>provider.
     res_map (\<lambda>_. provider)
       (require_reference providers provider owner_kind owner field ''provider'' raw_provider))"

fun compile_managed_retry ::
  "string \<Rightarrow> raw_route_retry \<Rightarrow> (string, retry_policy_plan) bmap \<Rightarrow> compile_error + managed_retry" where
  "compile_managed_retry route_id Raw_Never policies = Inr Managed_Never"
| "compile_managed_retry route_id (Raw_Recoverable policy) policies =
     res_map Recoverable (resolve_retry_policy route_id policy policies)"
| "compile_managed_retry route_id _ policies =
     Inl (Invalid_Value (''routes.'' @ route_id @ ''.retry.kind'')
       ''managed routes use `recoverable`; replay safety is guaranteed by structured request buffering'')"

fun compile_relay_retry ::
  "string \<Rightarrow> raw_route_retry \<Rightarrow> (string, retry_policy_plan) bmap \<Rightarrow> compile_error + relay_retry" where
  "compile_relay_retry route_id Raw_Never policies = Inr Relay_Never"
| "compile_relay_retry route_id (Raw_Safe_Methods policy) policies =
     res_map Safe_Methods (resolve_retry_policy route_id policy policies)"
| "compile_relay_retry route_id (Raw_Buffered policy) policies =
     res_map Buffered (resolve_retry_policy route_id policy policies)"
| "compile_relay_retry route_id (Raw_Recoverable _) policies =
     Inl (Invalid_Value (''routes.'' @ route_id @ ''.retry.kind'')
       ''relay routes must choose `safe_methods` or explicitly acknowledge buffered replay with `buffered`'')"

definition validate_model_name :: "string \<Rightarrow> string \<Rightarrow> compile_error + unit" where
  "validate_model_name location model =
     (if str_trim model = [] \<or> str_trim model \<noteq> model
      then Inl (Invalid_Value location ''model names must be non-empty and have no surrounding whitespace'')
      else Inr ())"

text \<open>The members of a family, from index \<open>i\<close> on.\<close>

fun check_family_members ::
  "string \<Rightarrow> string list \<Rightarrow> string list \<Rightarrow> nat \<Rightarrow> string list \<Rightarrow> compile_error + unit" where
  "check_family_members family aliases seen i [] = Inr ()"
| "check_family_members family aliases seen i (member # members) =
     (let location = family @ ''['' @ show_radix 10 i @ '']'' in
      res_bind (validate_model_name location member) (\<lambda>_.
      if member \<in> set aliases
      then Inl (Invalid_Value location
        (''model '' @ quote_id member @ '' is also a family name; family names and concrete models must be distinct''))
      else if member \<in> set seen then Inl (Invalid_Value location ''duplicates an earlier family member'')
      else check_family_members family aliases (member # seen) (i + 1) members))"

definition compile_family ::
  "string \<Rightarrow> string list \<Rightarrow> string \<times> string list \<Rightarrow> compile_error + model_family" where
  "compile_family route_id aliases entry =
     (case entry of (name, members) \<Rightarrow>
        let location = ''routes.'' @ route_id @ ''.model.families.'' @ name in
        res_bind (validate_model_name location name) (\<lambda>_.
        if members = [] then Inl (Invalid_Value location ''model family must contain at least one member'')
        else res_map (\<lambda>_. \<lparr>mf_name = name, mf_members = members\<rparr>)
               (check_family_members location aliases [] 0 members)))"

definition compile_model_selector :: "string \<Rightarrow> raw_model_selector \<Rightarrow> compile_error + model_selector" where
  "compile_model_selector route_id raw =
     (case raw of
        Raw_Capability \<Rightarrow> Inr Capability
      | Raw_Qualified ns \<Rightarrow>
          Inr (Qualified (case ns of Raw_Driver_Namespace \<Rightarrow> Driver_Namespace | Raw_Provider_Namespace \<Rightarrow> Provider_Namespace))
      | Raw_Family families \<Rightarrow>
          res_map Family (res_collect (compile_family route_id (bm_keys families)) families))"

definition model_score_pattern_error :: "string \<Rightarrow> string option" where
  "model_score_pattern_error pattern =
     (if str_trim pattern = [] \<or> str_trim pattern \<noteq> pattern
      then Some ''model score patterns must be non-empty and have no surrounding whitespace''
      else
        let wildcard_count = length (filter (\<lambda>c. c = CHR ''*'') pattern)
        in if wildcard_count > 1 \<or> (wildcard_count = 1 \<and> \<not> ends_with ''*'' pattern)
           then Some ''model score patterns may contain only one wildcard, at the end'' else None)"

definition compile_model_score ::
  "(string, provider_plan) bmap \<Rightarrow> string \<Rightarrow> (string, int) bmap \<Rightarrow> compile_error + string \<times> (string, int) bmap" where
  "compile_model_score providers model raw_providers =
     (case model_score_pattern_error model of
        Some message \<Rightarrow> Inl (Invalid_Value (''model_scores.'' @ model) message)
      | None \<Rightarrow>
          if raw_providers = []
          then Inl (Invalid_Value (''model_scores.'' @ model) ''provider score maps must not be empty'')
          else res_map (Pair model)
                 (collect_map (\<lambda>provider score.
                    res_map (\<lambda>id. (id, score)) (resolve_provider ''model score'' model ''provider'' provider providers))
                   raw_providers))"

definition compile_model_scores ::
  "(string, (string, int) bmap) bmap \<Rightarrow> (string, provider_plan) bmap \<Rightarrow> compile_error + score_table" where
  "compile_model_scores raw providers = collect_map (compile_model_score providers) raw"

fun route_provider_values ::
  "string \<Rightarrow> (string, provider_plan) bmap \<Rightarrow> string bset \<Rightarrow> string list \<Rightarrow> compile_error + string bset" where
  "route_provider_values route_id providers ids [] = Inr ids"
| "route_provider_values route_id providers ids (value # rest) =
     res_bind (resolve_provider ''route'' route_id ''providers'' value providers) (\<lambda>id.
       if bs_contains ids id then Inl (duplicate_resource_value (''routes.'' @ route_id @ ''.providers'') value)
       else route_provider_values route_id providers (bs_of_list (id # ids)) rest)"

definition compile_route_providers ::
  "string \<Rightarrow> string list option \<Rightarrow> (string, provider_plan) bmap \<Rightarrow> compile_error + string bset option" where
  "compile_route_providers route_id raw_values providers =
     (case raw_values of
        None \<Rightarrow> Inr None
      | Some values \<Rightarrow>
          res_bind (validate_selector_shape values (''routes.'' @ route_id @ ''.providers'')) (\<lambda>_.
            if values = [''*''] then Inr None
            else res_map Some (route_provider_values route_id providers [] values)))"

definition compile_route_plan ::
  "(string, provider_plan) bmap \<Rightarrow> (string, retry_policy_plan) bmap \<Rightarrow> score_table \<Rightarrow> string \<Rightarrow> raw_route \<Rightarrow>
   compile_error + route_plan" where
  "compile_route_plan providers retry_policies model_scores raw_id raw =
     (case raw of
        Raw_Managed _ provider model operation retry \<Rightarrow>
          res_bind (case provider of
                      Raw_Any \<Rightarrow> Inr Any_Provider
                    | Raw_Fixed p \<Rightarrow> res_map Fixed_Provider (resolve_provider ''route'' raw_id ''provider'' p providers))
            (\<lambda>selector.
          res_bind (compile_model_selector raw_id model) (\<lambda>model.
          res_map (\<lambda>retry.
              Managed (with_model_scores
                (new_managed_route \<lparr>mt_provider = selector, mt_model = model\<rparr>
                  (case operation of Raw_Preserve \<Rightarrow> Preserve | Raw_Translate_Compatible \<Rightarrow> Translate_Compatible)
                  None retry)
                model_scores))
            (compile_managed_retry raw_id retry retry_policies)))
      | Raw_Relay _ destination credentials retry \<Rightarrow>
          res_bind (case destination of
                      Raw_Original \<Rightarrow> Inr Original
                    | Raw_Fixed_Provider p \<Rightarrow>
                        res_map To_Provider (resolve_provider ''route'' raw_id ''destination.provider'' p providers))
            (\<lambda>destination.
          res_map (\<lambda>retry.
              Relay (new_relay_route destination
                (case credentials of Raw_Client_Credentials \<Rightarrow> Client | Raw_Account_Pool_Credentials \<Rightarrow> From_Pool)
                None retry))
            (compile_relay_retry raw_id retry retry_policies)))"

definition fixed_destination :: "route_plan \<Rightarrow> string option" where
  "fixed_destination plan =
     (case plan of
        Managed route \<Rightarrow> (case mt_provider (mr_target route) of Fixed_Provider p \<Rightarrow> Some p | Any_Provider \<Rightarrow> None)
      | Relay route \<Rightarrow> (case rr_destination route of To_Provider p \<Rightarrow> Some p | Original \<Rightarrow> None))"

definition compile_route ::
  "(string, provider_plan) bmap \<Rightarrow> (string, retry_policy_plan) bmap \<Rightarrow> score_table \<Rightarrow> string \<Rightarrow> raw_route \<Rightarrow>
   compile_error + string \<times> route_plan" where
  "compile_route providers retry_policies model_scores raw_id raw =
     res_bind (compile_id Route_Id ''route id'' raw_id) (\<lambda>id.
     res_bind (compile_route_plan providers retry_policies model_scores raw_id raw) (\<lambda>plan.
     res_bind (compile_route_providers raw_id (raw_route_providers raw) providers) (\<lambda>allowed.
     let plan = with_providers plan allowed in
     case fixed_destination plan of
       Some provider \<Rightarrow>
         if \<not> allows_provider plan provider
         then Inl (Invalid_Value (''routes.'' @ raw_id @ ''.providers'')
           ''the fixed destination is excluded by this route's provider restrictions'')
         else Inr (id, plan)
     | None \<Rightarrow> Inr (id, plan))))"

definition compile_routes ::
  "(string, raw_route) bmap \<Rightarrow> (string, provider_plan) bmap \<Rightarrow> (string, retry_policy_plan) bmap \<Rightarrow> score_table \<Rightarrow>
   compile_error + (string, route_plan) bmap" where
  "compile_routes raw providers retry_policies model_scores =
     collect_map (compile_route providers retry_policies model_scores) raw"

section \<open>Profiles\<close>

fun compile_wire_identity ::
  "string \<Rightarrow> raw_wire_identity \<Rightarrow> route_plan \<Rightarrow> compile_error + wire_identity" where
  "compile_wire_identity profile_id Raw_Auto route =
     Inr (if credential_policy_of route = Client_Credentials then No_Identity else wire_identity.Provider_Default)"
| "compile_wire_identity profile_id Raw_No_Identity route = Inr No_Identity"
| "compile_wire_identity profile_id raw route =
     (if credential_policy_of route = Client_Credentials
      then Inl (Invalid_Value (''profiles.'' @ profile_id @ ''.wire_identity'')
        ''routes with client credentials preserve client identity; use `auto` or `none`'')
      else
        (case raw of
           Raw_Named raw_id \<Rightarrow> res_map Named_Identity (compile_id Wire_Identity_Id ''wire identity name'' raw_id)
         | _ \<Rightarrow> Inr wire_identity.Provider_Default))"

fun origin_owners ::
  "(string, string) bmap \<Rightarrow> string \<Rightarrow> string list \<Rightarrow> compile_error + (string, string) bmap" where
  "origin_owners owners provider_id [] = Inr owners"
| "origin_owners owners provider_id (origin # rest) =
     (case bm_get owners origin of
        Some first \<Rightarrow> Inl (Duplicate_Origin origin first provider_id)
      | None \<Rightarrow> origin_owners (bm_insert origin provider_id owners) provider_id rest)"

definition ensure_origin_relay_viable ::
  "string \<Rightarrow> (string, provider_plan) bmap \<Rightarrow> compile_error + unit" where
  "ensure_origin_relay_viable profile providers =
     res_bind (res_fold (\<lambda>(id, plan) owners. origin_owners owners id (vp_origins plan)) providers []) (\<lambda>_.
       if list_ex (\<lambda>(_, plan). vp_base_url plan = None \<or> vp_origins plan \<noteq> []) providers then Inr ()
       else Inl (Invalid_Value (''profiles.'' @ profile @ ''.route'')
         ''origin-based relay requires an allowed provider with a configured or driver-default origin''))"

definition validate_profile_providers ::
  "string \<Rightarrow> route_plan \<Rightarrow> (string, provider_plan) bmap \<Rightarrow> compile_error + unit" where
  "validate_profile_providers name route providers =
     (let viable = (case fixed_destination route of
                      Some p \<Rightarrow> allows_provider route p
                    | None \<Rightarrow> list_ex (allows_provider route) (bm_keys providers))
      in if \<not> viable
         then Inl (Invalid_Value (''profiles.'' @ name @ ''.route'')
           ''route provider restrictions allow no configured provider'')
         else if destination_policy_of route = Original_Destination
         then ensure_origin_relay_viable name (bm_retain (\<lambda>id _. allows_provider route id) providers)
         else Inr ())"

definition generation_endpoints :: "string list" where
  "generation_endpoints = [''chat_completions'', ''responses'', ''messages'']"

fun compile_endpoints :: "string \<Rightarrow> string bset \<Rightarrow> string list \<Rightarrow> compile_error + string bset" where
  "compile_endpoints location endpoints [] = Inr endpoints"
| "compile_endpoints location endpoints (endpoint # rest) =
     (if endpoint \<notin> set generation_endpoints
      then Inl (Invalid_Value location
        (''unknown generation endpoint '' @ quote_id endpoint
           @ ''; expected chat_completions, responses, or messages''))
      else
        res_bind (compile_id Operation_Id ''generation endpoint'' endpoint) (\<lambda>id.
          if bs_contains endpoints id then Inl (duplicate_resource_value location endpoint)
          else compile_endpoints location (bs_of_list (id # endpoints)) rest))"

definition trim_slashes :: "string \<Rightarrow> string" where
  "trim_slashes path = rev (dropWhile (\<lambda>c. c = CHR ''/'') (rev path))"

definition has_double_slash :: "string \<Rightarrow> bool" where
  "has_double_slash path \<longleftrightarrow> list_ex (\<lambda>i. starts_with ''//'' (drop i path)) [0..<length path]"

definition reserved_path :: "string \<Rightarrow> bool" where
  "reserved_path path \<longleftrightarrow>
     path = ''/healthz'' \<or> starts_with ''/healthz/'' path \<or> path = ''/admin'' \<or> starts_with ''/admin/'' path"

definition compile_binding_path :: "string \<Rightarrow> string \<Rightarrow> compile_error + string" where
  "compile_binding_path name raw =
     (let location = ''profiles.'' @ name @ ''.binding.path'' in
      res_bind (canonical_path_prefix location raw) (\<lambda>canonical.
      let path = trim_slashes canonical in
      if path = [] \<or> has_double_slash path \<or>
         list_ex (\<lambda>segment. list_ex (\<lambda>c. c \<in> set ''{}*'') segment) (split_on CHR ''/'' path)
      then Inl (Invalid_Value location ''API bindings require a literal, non-root path without empty segments'')
      else if reserved_path path
      then Inl (Invalid_Value location ''API binding overlaps a reserved health or admin path'')
      else Inr path))"

definition compile_api_binding :: "string \<Rightarrow> raw_profile_binding option \<Rightarrow> compile_error + api_binding_plan" where
  "compile_api_binding name raw =
     (let default_path = (if name = ''default'' then ''/v1'' else ''/'' @ name @ ''/v1'') in
      res_bind (compile_binding_path name
                  (case Option.bind raw rpb_path of Some path \<Rightarrow> path | None \<Rightarrow> default_path)) (\<lambda>path.
      res_map (\<lambda>endpoints. \<lparr>ab_path = path, ab_endpoints = endpoints\<rparr>)
        (compile_endpoints (''profiles.'' @ name @ ''.binding.endpoints'') []
          (case Option.bind raw rpb_endpoints of Some values \<Rightarrow> values | None \<Rightarrow> generation_endpoints))))"

record profile_state =
  ps_profiles :: "(string, profile_plan) bmap"
  ps_pools :: "(string, account_pool_plan) bmap"
  ps_mounts :: "(string, string) bmap"

definition compile_profile_pool ::
  "string \<Rightarrow> raw_profile \<Rightarrow> route_plan \<Rightarrow> (string, provider_plan) bmap \<Rightarrow> profile_plan \<Rightarrow> profile_state \<Rightarrow>
   compile_error + profile_plan \<times> profile_state" where
  "compile_profile_pool name raw route providers plan st =
     (if credential_policy_of route = Account_Credentials then
        res_bind (compile_id Account_Pool_Id ''profile account pool'' (''profile.'' @ name)) (\<lambda>pool_id.
        res_bind (compile_account_pool name
                    (case rp_account_pool raw of Some pool \<Rightarrow> pool | None \<Rightarrow> default_account_pool)) (\<lambda>pool.
        res_map (\<lambda>_. (plan\<lparr>pp_account_pool := Some pool_id\<rparr>, st\<lparr>ps_pools := bm_insert pool_id pool (ps_pools st)\<rparr>))
          (validate_profile_providers name route providers)))
      else if rp_account_pool raw \<noteq> None
      then Inl (Invalid_Value (''profiles.'' @ name @ ''.account_pool'')
        ''client-credential relay profiles do not use an account pool'')
      else Inr (plan, st))"

definition compile_profile_binding ::
  "string \<Rightarrow> raw_profile \<Rightarrow> route_plan \<Rightarrow> profile_plan \<Rightarrow> profile_state \<Rightarrow>
   compile_error + profile_plan \<times> profile_state" where
  "compile_profile_binding name raw route plan st =
     (if destination_policy_of route = Original_Destination then
        (if rp_binding raw \<noteq> None
         then Inl (Invalid_Value (''profiles.'' @ name @ ''.binding'')
           ''an original-destination relay is proxy-only and cannot have an API binding'')
         else Inr (plan, st))
      else
        res_bind (compile_api_binding name (rp_binding raw)) (\<lambda>binding.
          (case bm_get (ps_mounts st) (ab_path binding) of
             Some first \<Rightarrow>
               Inl (Invalid_Value (''profiles.'' @ name @ ''.binding.path'')
                 (''API path '' @ quote_id (ab_path binding) @ '' is already owned by profile '' @ quote_id first))
           | None \<Rightarrow>
               Inr (plan\<lparr>pp_api_binding := Some binding\<rparr>,
                    st\<lparr>ps_mounts := bm_insert (ab_path binding) name (ps_mounts st)\<rparr>))))"

definition compile_profile ::
  "(string, route_plan) bmap \<Rightarrow> (string, provider_plan) bmap \<Rightarrow> string \<times> raw_profile \<Rightarrow> profile_state \<Rightarrow>
   compile_error + profile_state" where
  "compile_profile routes providers entry st =
     (case entry of (name, raw) \<Rightarrow>
        res_bind (compile_id Profile_Id ''profile id'' name) (\<lambda>id.
        res_bind (compile_id Route_Id ''profile route reference'' (rp_route raw)) (\<lambda>route_id.
        res_bind (ok_or (Unresolved_Reference ''profile'' name ''route'' ''route'' (rp_route raw))
                    (bm_get routes route_id)) (\<lambda>route.
        res_bind (compile_wire_identity name (rp_wire_identity raw) route) (\<lambda>identity.
        res_bind (compile_profile_pool name raw route providers (new_profile_plan route_id identity) st) (\<lambda>(plan, st).
        res_map (\<lambda>(plan, st). st\<lparr>ps_profiles := bm_insert id plan (ps_profiles st)\<rparr>)
          (compile_profile_binding name raw route plan st)))))))"

definition compile_profiles ::
  "(string, raw_profile) bmap \<Rightarrow> (string, route_plan) bmap \<Rightarrow> (string, provider_plan) bmap \<Rightarrow>
   compile_error + profile_state" where
  "compile_profiles raw routes providers =
     res_fold (compile_profile routes providers) raw \<lparr>ps_profiles = [], ps_pools = [], ps_mounts = []\<rparr>"

section \<open>The gateway\<close>

record compiled_resources =
  cs_profiles :: "(string, profile_plan) bmap"
  cs_routes :: "(string, route_plan) bmap"
  cs_retry_policies :: "(string, retry_policy_plan) bmap"
  cs_account_pools :: "(string, account_pool_plan) bmap"
  cs_providers :: "(string, provider_plan) bmap"

definition compile_resources :: "(string \<Rightarrow> string + url) \<Rightarrow> raw_config \<Rightarrow> compile_error + compiled_resources" where
  "compile_resources parse_url raw =
     res_bind (compile_providers parse_url (rg_providers raw)) (\<lambda>providers.
     res_bind (compile_retry_policies (rg_retry_policies raw)) (\<lambda>retry_policies.
     res_bind (compile_model_scores (rg_model_scores raw) providers) (\<lambda>scores.
     res_bind (compile_routes (rg_routes raw) providers retry_policies scores) (\<lambda>routes.
     res_map (\<lambda>st. \<lparr>cs_profiles = ps_profiles st, cs_routes = routes, cs_retry_policies = retry_policies,
                    cs_account_pools = ps_pools st, cs_providers = providers\<rparr>)
       (compile_profiles (rg_profiles raw) routes providers)))))"

definition compile_gateway ::
  "(string \<Rightarrow> string + url) \<Rightarrow> (string \<Rightarrow> string + string) \<Rightarrow> (string \<Rightarrow> string) \<Rightarrow> raw_config \<Rightarrow>
   compile_error + gateway_plan" where
  "compile_gateway parse_url cors_origin relative_to raw =
     (if rw_listeners (rg_listeners raw) = [] then Inl (Empty_Registry ''listener'')
      else
        res_bind (compile_resources parse_url raw) (\<lambda>resources.
        res_map (\<lambda>listeners.
            \<lparr>gp_listeners = listeners, gp_profiles = cs_profiles resources, gp_routes = cs_routes resources,
             gp_retry_policies = cs_retry_policies resources, gp_account_pools = cs_account_pools resources,
             gp_providers = cs_providers resources\<rparr>)
          (compile_listeners cors_origin relative_to (rg_listeners raw) (cs_profiles resources))))"

definition expand_defaults :: "raw_config \<Rightarrow> compile_error + raw_config" where
  "expand_defaults raw =
     (case rg_defaults raw of
        None \<Rightarrow> Inr raw
      | Some d \<Rightarrow>
          let clash = (\<lambda>resource. Inl (Invalid_Value ''defaults''
                (''cannot combine [defaults] with ['' @ resource
                   @ ''.default]; configure the default policy in one form only''))) in
          if bm_get (rg_profiles raw) ''default'' \<noteq> None then clash ''profiles''
          else if bm_get (rg_routes raw) ''default'' \<noteq> None then clash ''routes''
          else
            Inr (raw\<lparr>rg_defaults := None,
              rg_profiles := bm_insert ''default''
                \<lparr>rp_route = ''default'', rp_account_pool = Some (rd_account_pool d), rp_binding = rd_binding d,
                 rp_wire_identity = rd_wire_identity d\<rparr> (rg_profiles raw),
              rg_routes := bm_insert ''default''
                (Raw_Managed (rd_providers d) (rd_provider d) (rd_model d) (rd_operation d) (rd_retry d))
                (rg_routes raw)\<rparr>))"

text \<open>Diagnostics on a generated resource name the shorthand instead.\<close>

definition source_error :: "raw_config \<Rightarrow> compile_error \<Rightarrow> compile_error" where
  "source_error raw e =
     (case e of
        Invalid_Value location message \<Rightarrow>
          let explicit_paths = map (\<lambda>id. ''profiles.'' @ id @ ''.'') (bm_keys (rg_profiles raw))
                @ map (\<lambda>id. ''routes.'' @ id @ ''.'') (bm_keys (rg_routes raw))
          in if list_ex (\<lambda>prefix. starts_with prefix location) explicit_paths then e
             else (case strip_prefix ''profiles.default.'' location of
                     Some field \<Rightarrow> Invalid_Value (''defaults.'' @ field) message
                   | None \<Rightarrow>
                       (case strip_prefix ''routes.default.'' location of
                          Some field \<Rightarrow> Invalid_Value (''defaults.'' @ field) message
                        | None \<Rightarrow> e))
      | _ \<Rightarrow> e)"

text \<open>The gateway part of \<open>compile_config\<close>.\<close>

definition compile_config ::
  "(string \<Rightarrow> string + url) \<Rightarrow> (string \<Rightarrow> string + string) \<Rightarrow> (string \<Rightarrow> string) \<Rightarrow> raw_config \<Rightarrow>
   compile_error + gateway_plan" where
  "compile_config parse_url cors_origin relative_to raw =
     res_bind (expand_defaults raw) (\<lambda>expanded.
       map_err (\<lambda>e. if rg_defaults raw \<noteq> None then source_error raw e else e)
         (compile_gateway parse_url cors_origin relative_to expanded))"

end
