(* ===== verification/Compiled_Plan.thy ===== *)
theory Compiled_Plan
  imports Resource_Compile Rule_Shadowing
begin

text \<open>
  What the runtime may rely on in a compiled gateway plan: every reference resolves, the
  parts of a profile agree with its route, the API paths are distinct, the numbers are in
  their ranges.
\<close>

section \<open>Closed plans\<close>

definition retry_reference :: "route_plan \<Rightarrow> string option" where
  "retry_reference route =
     (case route of
        Managed r \<Rightarrow> (case mr_retry r of Recoverable p \<Rightarrow> Some p | Managed_Never \<Rightarrow> None)
      | Relay r \<Rightarrow> (case rr_retry r of Safe_Methods p \<Rightarrow> Some p | Buffered p \<Rightarrow> Some p | Relay_Never \<Rightarrow> None))"

definition provider_references :: "route_plan \<Rightarrow> string list" where
  "provider_references route =
     (case fixed_destination route of Some p \<Rightarrow> [p] | None \<Rightarrow> []) @
     (case route_providers route of Some ps \<Rightarrow> ps | None \<Rightarrow> []) @
     (case route of Managed r \<Rightarrow> concat (map (\<lambda>(_, scores). bm_keys scores) (mr_model_scores r)) | Relay _ \<Rightarrow> [])"

definition known :: "('k, 'v) bmap \<Rightarrow> 'k \<Rightarrow> bool" where
  "known m k \<longleftrightarrow> bm_get m k \<noteq> None"

definition route_closed ::
  "(string, provider_plan) bmap \<Rightarrow> (string, retry_policy_plan) bmap \<Rightarrow> route_plan \<Rightarrow> bool" where
  "route_closed providers policies route \<longleftrightarrow>
     list_all (known providers) (provider_references route) \<and>
     (case fixed_destination route of Some p \<Rightarrow> allows_provider route p | None \<Rightarrow> True) \<and>
     (case retry_reference route of Some p \<Rightarrow> known policies p | None \<Rightarrow> True) \<and>
     header_patches_of route = None"

definition retry_in_range :: "retry_policy_plan \<Rightarrow> bool" where
  "retry_in_range p \<longleftrightarrow>
     0 < rp_max_retries p \<and> rp_max_retries p \<le> max_retries \<and>
     rp_initial_backoff p \<le> duration_from_millis max_initial_backoff_ms"

definition pool_in_range :: "account_pool_plan \<Rightarrow> bool" where
  "pool_in_range p \<longleftrightarrow>
     ap_failure_cooldown p \<le> duration_from_secs max_failure_cooldown_secs \<and>
     (case ap_session_affinity p of
        None \<Rightarrow> True
      | Some a \<Rightarrow> 0 < sp_ttl a \<and> sp_ttl a \<le> duration_from_secs max_session_duration_secs \<and>
          sp_expired_retention a \<le> duration_from_secs max_session_duration_secs)"

definition binding_closed :: "api_binding_plan \<Rightarrow> bool" where
  "binding_closed b \<longleftrightarrow>
     starts_with ''/'' (ab_path b) \<and> last (ab_path b) \<noteq> CHR ''/'' \<and> \<not> reserved_path (ab_path b) \<and>
     list_all (\<lambda>e. e \<in> set generation_endpoints) (ab_endpoints b)"

text \<open>A profile agrees with its route; \<open>owner\<close> gives the profile that owns an API path.\<close>

definition profile_closed ::
  "(string, route_plan) bmap \<Rightarrow> (string, account_pool_plan) bmap \<Rightarrow> profile_plan \<Rightarrow> bool" where
  "profile_closed routes pools p \<longleftrightarrow>
     (case bm_get routes (pp_route p) of
        None \<Rightarrow> False
      | Some route \<Rightarrow>
          (case pp_account_pool p of
             None \<Rightarrow> credential_policy_of route = Client_Credentials
           | Some pool \<Rightarrow> credential_policy_of route = Account_Credentials \<and> known pools pool) \<and>
          (case pp_api_binding p of
             None \<Rightarrow> destination_policy_of route = Original_Destination
           | Some b \<Rightarrow> destination_policy_of route = Selected_Provider \<and> binding_closed b) \<and>
          (credential_policy_of route = Account_Credentials \<or> pp_wire_identity p = No_Identity))"

fun action_closed :: "(string, profile_plan) bmap \<Rightarrow> http_action \<Rightarrow> bool" where
  "action_closed profiles (Route_To p) \<longleftrightarrow> known profiles p"
| "action_closed profiles Http_Reject \<longleftrightarrow> True"

fun listener_closed :: "(string, profile_plan) bmap \<Rightarrow> listener_plan \<Rightarrow> bool" where
  "listener_closed profiles (Llm_Api l) \<longleftrightarrow> True"
| "listener_closed profiles (Forward_Proxy l) \<longleftrightarrow>
     action_closed profiles (fp_default_http_action l) \<and>
     list_all (\<lambda>b. action_closed profiles (hb_action b)) (fp_http_bindings l)"

definition api_paths :: "gateway_plan \<Rightarrow> string list" where
  "api_paths plan = filter_map (\<lambda>(_, p). map_option ab_path (pp_api_binding p)) (gp_profiles plan)"

definition plan_closed :: "gateway_plan \<Rightarrow> bool" where
  "plan_closed plan \<longleftrightarrow>
     gp_listeners plan \<noteq> [] \<and>
     list_all (\<lambda>(_, l). listener_closed (gp_profiles plan) l) (gp_listeners plan) \<and>
     list_all (\<lambda>(_, p). profile_closed (gp_routes plan) (gp_account_pools plan) p) (gp_profiles plan) \<and>
     list_all (\<lambda>(_, r). route_closed (gp_providers plan) (gp_retry_policies plan) r) (gp_routes plan) \<and>
     list_all (\<lambda>(_, p). retry_in_range p) (gp_retry_policies plan) \<and>
     list_all (\<lambda>(_, p). pool_in_range p) (gp_account_pools plan) \<and>
     distinct (api_paths plan) \<and>
     bm_ok (gp_listeners plan) \<and> bm_ok (gp_profiles plan) \<and> bm_ok (gp_routes plan) \<and>
     bm_ok (gp_retry_policies plan) \<and> bm_ok (gp_account_pools plan) \<and> bm_ok (gp_providers plan)"

section \<open>Folds and collections\<close>

lemma if_Inl_eq_Inr: "((if c then Inl e else r) = Inr v) \<longleftrightarrow> (\<not> c \<and> r = Inr v)"
  by simp

lemma compile_id_value: "compile_id kind resource value = Inr result \<Longrightarrow> result = value"
  by (auto simp: compile_id_def new_identifier_def parse_identifier_def Let_def split: prod.splits if_splits)

lemma collect_map_entry:
  assumes "collect_map f m = Inr m'" "bm_get m' k = Some v"
  shows "\<exists>k0 v0. (k0, v0) \<in> set m \<and> f k0 v0 = Inr (k, v)"
proof -
  from assms(1) obtain entries where e: "res_collect (\<lambda>(k, v). f k v) m = Inr entries" "m' = bm_of_list entries"
    by (auto simp: collect_map_def)
  with assms(2) have "(k, v) \<in> set entries" by (auto dest: bm_of_list_get_in)
  with e(1) show ?thesis by (auto dest!: res_collect_set)
qed

lemma collect_map_ok: "collect_map f m = Inr m' \<Longrightarrow> bm_ok m'"
  by (auto simp: collect_map_def)

lemma bm_ok_get: "bm_ok m \<Longrightarrow> (k, v) \<in> set m \<Longrightarrow> bm_get m k = Some v"
  by (simp add: bm_get_iff)

lemma bm_list_allI:
  assumes "bm_ok m" "\<And>k v. bm_get m k = Some v \<Longrightarrow> P v"
  shows "list_all (\<lambda>(_, v). P v) m"
  using assms by (auto simp: list_all_iff dest: bm_ok_get)

section \<open>Compiled resources\<close>

lemma resolve_provider_known: "resolve_provider kind owner field raw providers = Inr p \<Longrightarrow> known providers p"
  by (auto simp: resolve_provider_def require_reference_def known_def split: option.splits)

lemma resolve_retry_known: "resolve_retry_policy route_id raw policies = Inr p \<Longrightarrow> known policies p"
  by (auto simp: resolve_retry_policy_def require_reference_def known_def split: option.splits)

lemma compiled_retry_in_range:
  assumes "compile_retry_policies raw = Inr policies" "bm_get policies k = Some p"
  shows "retry_in_range p"
proof -
  from collect_map_entry [OF assms [unfolded compile_retry_policies_def]]
  obtain k0 v0 where "compile_retry_policy k0 v0 = Inr (k, p)" by blast
  then show ?thesis
    by (auto simp: compile_retry_policy_def retry_in_range_def duration_from_millis_def split: if_splits)
qed

lemma check_maximum_le: "check_maximum location n m = Inr u \<Longrightarrow> n \<le> m"
  by (auto simp: check_maximum_def split: if_splits)

lemma duration_from_secs_mono: "n \<le> m \<Longrightarrow> duration_from_secs n \<le> duration_from_secs m"
  by (simp add: duration_from_secs_def)

lemma compiled_pool_in_range:
  assumes "compile_account_pool profile raw = Inr pool"
  shows "pool_in_range pool"
proof -
  obtain l1 l2 l3 l4 u1 u2 u3 affinity where max:
    "check_maximum l1 (ra_failure_cooldown_secs raw) max_failure_cooldown_secs = Inr u1"
    "check_maximum l2 (ra_session_ttl_secs raw) max_session_duration_secs = Inr u2"
    "check_maximum l3 (ra_session_expired_retention_secs raw) max_session_duration_secs = Inr u3"
    and affinity: "compile_session_affinity l4 raw = Inr affinity"
    and pool: "ap_failure_cooldown pool = duration_from_secs (ra_failure_cooldown_secs raw)"
      "ap_session_affinity pool = affinity"
    using assms unfolding compile_account_pool_def Let_def res_bind_eq_Inr
    by (elim exE conjE) (rule that, assumption, assumption, assumption, assumption, auto)
  have "0 < duration_from_secs n" if "n \<noteq> 0" for n
    using that by (simp add: duration_from_secs_def nanos_per_sec_def)
  with affinity pool max [THEN check_maximum_le] show ?thesis
    by (cases "ap_session_affinity pool")
       (auto simp: pool_in_range_def compile_session_affinity_def duration_from_secs_mono split: if_splits)
qed

lemma compiled_scores_known:
  assumes "compile_model_scores raw providers = Inr scores" "bm_get scores model = Some table" "bm_get table p = Some n"
  shows "known providers p"
proof -
  from collect_map_entry [OF assms(1,2) [unfolded compile_model_scores_def]]
  obtain m0 t0 where "compile_model_score providers m0 t0 = Inr (model, table)" by blast
  then obtain m1 where "collect_map (\<lambda>provider score.
      res_map (\<lambda>id. (id, score)) (resolve_provider ''model score'' m1 ''provider'' provider providers)) t0 = Inr table"
    by (auto simp: compile_model_score_def split: option.splits if_splits)
  from collect_map_entry [OF this assms(3)] show ?thesis by (auto dest: resolve_provider_known)
qed

lemma compiled_scores_keys:
  assumes "compile_model_scores raw providers = Inr scores" "(model, table) \<in> set scores" "p \<in> set (bm_keys table)"
  shows "known providers p"
proof -
  have "bm_ok scores" using assms(1) unfolding compile_model_scores_def by (rule collect_map_ok)
  then have t: "bm_get scores model = Some table" using assms(2) by (rule bm_ok_get)
  from collect_map_entry [OF assms(1) [unfolded compile_model_scores_def] t]
  obtain m0 t0 where "compile_model_score providers m0 t0 = Inr (model, table)" by blast
  then have "bm_ok table"
    by (auto simp: compile_model_score_def split: option.splits if_splits dest: collect_map_ok)
  with assms(3) obtain n where "bm_get table p = Some n" by (auto simp: bm_keys_def dest: bm_ok_get)
  with compiled_scores_known [OF assms(1) t] show ?thesis by blast
qed

lemma route_provider_values_known:
  assumes "route_provider_values route_id providers ids values = Inr ids'" "list_all (known providers) ids"
  shows "list_all (known providers) ids'"
  using assms
proof (induction "values" arbitrary: ids)
  case (Cons v vs)
  then obtain p where p: "resolve_provider ''route'' route_id ''providers'' v providers = Inr p"
    and "route_provider_values route_id providers (bs_of_list (p # ids)) vs = Inr ids'"
    by (auto simp del: bs_of_list_def split: if_splits)
  moreover have "list_all (known providers) (bs_of_list (p # ids))"
    using Cons.prems(2) resolve_provider_known [OF p] by (simp add: list_all_iff bs_of_list_def)
  ultimately show ?case by (intro Cons.IH)
qed simp

lemma compiled_route_providers_known:
  assumes "compile_route_providers route_id raw providers = Inr (Some ids)"
  shows "list_all (known providers) ids"
proof -
  from assms obtain "values" where "route_provider_values route_id providers [] values = Inr ids"
    by (auto simp: compile_route_providers_def split: option.splits if_splits)
  then show ?thesis using route_provider_values_known by fastforce
qed

lemma compile_route_plan_closed:
  assumes "compile_route_plan providers policies scores raw_id raw = Inr plan"
  shows "case fixed_destination plan of Some p \<Rightarrow> known providers p | None \<Rightarrow> True" (is ?fixed)
    and "case retry_reference plan of Some p \<Rightarrow> known policies p | None \<Rightarrow> True" (is ?retry)
    and "header_patches_of plan = None" (is ?patches)
    and "case plan of Managed r \<Rightarrow> mr_model_scores r = scores | Relay _ \<Rightarrow> True" (is ?scores)
proof -
  show ?fixed
    using assms by (cases raw)
      (auto simp: compile_route_plan_def fixed_destination_def with_model_scores_def new_managed_route_def
        new_relay_route_def dest: resolve_provider_known
        split: raw_provider_selector.splits raw_relay_destination.splits)
  show ?patches ?scores
    using assms by (cases raw; auto simp: compile_route_plan_def with_model_scores_def new_managed_route_def new_relay_route_def)+
  show ?retry
  proof (cases raw)
    case (Raw_Managed ps provider model operation retry)
    with assms obtain r where "compile_managed_retry raw_id retry policies = Inr r" "retry_reference plan =
        (case r of Recoverable p \<Rightarrow> Some p | Managed_Never \<Rightarrow> None)"
      by (auto simp: compile_route_plan_def retry_reference_def with_model_scores_def new_managed_route_def)
    then show ?thesis by (cases retry) (auto dest: resolve_retry_known)
  next
    case (Raw_Relay ps destination credentials retry)
    with assms obtain r where "compile_relay_retry raw_id retry policies = Inr r" "retry_reference plan =
        (case r of Safe_Methods p \<Rightarrow> Some p | Buffered p \<Rightarrow> Some p | Relay_Never \<Rightarrow> None)"
      by (auto simp: compile_route_plan_def retry_reference_def new_relay_route_def)
    then show ?thesis by (cases retry) (auto dest: resolve_retry_known)
  qed
qed

lemma with_providers_frame [simp]:
  "fixed_destination (with_providers plan allowed) = fixed_destination plan"
  "retry_reference (with_providers plan allowed) = retry_reference plan"
  "route_providers (with_providers plan allowed) = allowed"
  "header_patches_of (with_providers plan allowed) = header_patches_of plan"
  by (cases plan; simp add: fixed_destination_def retry_reference_def)+

lemma compiled_route_closed:
  assumes "compile_routes raw providers policies scores = Inr routes" "bm_get routes k = Some route"
    and "compile_model_scores raw_scores providers = Inr scores"
  shows "route_closed providers policies route"
proof -
  from collect_map_entry [OF assms(1) [unfolded compile_routes_def] assms(2)]
  obtain raw_id raw_route where r: "compile_route providers policies scores raw_id raw_route = Inr (k, route)" by blast
  then obtain plan allowed where plan: "compile_route_plan providers policies scores raw_id raw_route = Inr plan"
    and allowed: "compile_route_providers raw_id (raw_route_providers raw_route) providers = Inr allowed"
    and route: "route = with_providers plan allowed"
    and fixed: "case fixed_destination route of Some p \<Rightarrow> allows_provider route p | None \<Rightarrow> True"
    unfolding compile_route_def Let_def res_bind_eq_Inr
    by (auto split: option.splits if_splits intro!: that)
  have "known providers p" if "p \<in> set (provider_references route)" for p
  proof -
    from that consider "fixed_destination route = Some p" | ps where "route_providers route = Some ps" "p \<in> set ps"
      | m model table where "route = Managed m" "(model, table) \<in> set (mr_model_scores m)" "p \<in> set (bm_keys table)"
      by (auto simp: provider_references_def split: option.splits route_plan.splits dest: sym)
    then show ?thesis
    proof cases
      case 1
      with compile_route_plan_closed(1) [OF plan] route show ?thesis by simp
    next
      case 2
      with compiled_route_providers_known allowed route show ?thesis by (fastforce simp: list_all_iff)
    next
      case 3
      with route have "mr_model_scores m = scores" using compile_route_plan_closed(4) [OF plan] by (cases plan) auto
      with 3 compiled_scores_keys [OF assms(3)] show ?thesis by metis
    qed
  qed
  moreover have "case fixed_destination route of Some p \<Rightarrow> allows_provider route p | None \<Rightarrow> True" using fixed .
  moreover have "retry_reference route = retry_reference plan" "header_patches_of route = header_patches_of plan"
    using route by simp_all
  ultimately show ?thesis
    using compile_route_plan_closed(2,3) [OF plan] unfolding route_closed_def list_all_iff by metis
qed

section \<open>Compiled profiles\<close>

lemma trim_slashes_last: "trim_slashes s \<noteq> [] \<Longrightarrow> last (trim_slashes s) \<noteq> CHR ''/''"
  unfolding trim_slashes_def using hd_dropWhile [of "\<lambda>c. c = CHR ''/''" "rev s"] by (simp add: last_rev)

lemma trim_slashes_hd:
  assumes "s = CHR ''/'' # t" "trim_slashes s \<noteq> []"
  shows "\<exists>r. trim_slashes s = CHR ''/'' # r"
proof -
  have "s = trim_slashes s @ rev (takeWhile (\<lambda>c. c = CHR ''/'') (rev s))"
    unfolding trim_slashes_def by (metis rev_append rev_rev_ident takeWhile_dropWhile_id)
  with assms show ?thesis by (cases "trim_slashes s") (auto dest: sym)
qed

lemma canonical_path_bytes_slash:
  "canonical_path_bytes location (CHR ''/'' # t) = Inr canonical \<Longrightarrow> \<exists>r. canonical = CHR ''/'' # r"
  by (auto split: if_splits)

lemma compiled_path_closed:
  assumes "compile_binding_path name raw = Inr path"
  shows "\<exists>r. path = CHR ''/'' # r" and "last path \<noteq> CHR ''/''" and "\<not> reserved_path path"
proof -
  obtain canonical where c: "canonical_path_prefix (''profiles.'' @ name @ ''.binding.path'') raw = Inr canonical"
    and path: "trim_slashes canonical = path" "path \<noteq> []" and free: "\<not> reserved_path path"
    using assms unfolding compile_binding_path_def Let_def res_bind_eq_Inr if_Inl_eq_Inr sum.inject
    by (elim exE conjE) (rule that, assumption, assumption, (simp only: de_Morgan_disj simp_thms)+)
  note c = c [unfolded canonical_path_prefix_def res_bind_eq_Inr if_Inl_eq_Inr sum.inject]
  have "\<not> (raw = [] \<or> hd raw \<noteq> CHR ''/'')" using c by (elim exE conjE)
  then obtain t where "raw = CHR ''/'' # t" by (cases raw) auto
  moreover have "canonical_path_bytes (''profiles.'' @ name @ ''.binding.path'') raw = Inr canonical"
    using c by (elim exE conjE) (hypsubst, assumption)
  ultimately have "canonical_path_bytes (''profiles.'' @ name @ ''.binding.path'') (CHR ''/'' # t) = Inr canonical"
    by (simp only:)
  from canonical_path_bytes_slash [OF this] obtain r where r: "canonical = CHR ''/'' # r" by (elim exE)
  have ne: "trim_slashes canonical \<noteq> []" unfolding path(1) by (rule path(2))
  show "\<exists>r. path = CHR ''/'' # r" using trim_slashes_hd [OF r ne] unfolding path(1) .
  show "last path \<noteq> CHR ''/''" using trim_slashes_last [OF ne] unfolding path(1) .
  show "\<not> reserved_path path" by (rule free)
qed

lemma compile_endpoints_known:
  assumes "compile_endpoints location endpoints values = Inr result" "list_all (\<lambda>e. e \<in> set generation_endpoints) endpoints"
  shows "list_all (\<lambda>e. e \<in> set generation_endpoints) result"
  using assms
proof (induction "values" arbitrary: endpoints)
  case (Cons v vs)
  then obtain e where e: "compile_id Operation_Id ''generation endpoint'' v = Inr e" "v \<in> set generation_endpoints"
    and "compile_endpoints location (bs_of_list (e # endpoints)) vs = Inr result"
    by (auto split: if_splits)
  moreover have "list_all (\<lambda>e. e \<in> set generation_endpoints) (bs_of_list (e # endpoints))"
    using Cons.prems(2) e compile_id_value [OF e(1)] by (simp add: list_all_iff bs_of_list_def)
  ultimately show ?case by (intro Cons.IH)
qed simp

lemma compiled_binding_closed:
  assumes "compile_api_binding name raw = Inr b"
  shows "binding_closed b"
proof -
  from assms obtain p "values" location where path: "compile_binding_path name p = Inr (ab_path b)"
    and "compile_endpoints location [] values = Inr (ab_endpoints b)"
    unfolding compile_api_binding_def Let_def res_bind_eq_Inr res_map_eq_Inr by fastforce
  then have "list_all (\<lambda>e. e \<in> set generation_endpoints) (ab_endpoints b)" using compile_endpoints_known by fastforce
  with compiled_path_closed [OF path] show ?thesis by (auto simp: binding_closed_def starts_with_def)
qed

lemma compiled_identity:
  assumes "compile_wire_identity name raw route = Inr identity"
  shows "credential_policy_of route = Account_Credentials \<or> identity = No_Identity"
  using assms by (cases raw) (auto split: if_splits intro: credential_policy.exhaust [of "credential_policy_of route"])

definition profiles_closed :: "(string, route_plan) bmap \<Rightarrow> profile_state \<Rightarrow> bool" where
  "profiles_closed routes st \<longleftrightarrow>
     bm_ok (ps_profiles st) \<and> bm_ok (ps_pools st) \<and> bm_ok (ps_mounts st) \<and>
     (\<forall>k p. bm_get (ps_profiles st) k = Some p \<longrightarrow>
        profile_closed routes (ps_pools st) p \<and>
        (\<forall>b. pp_api_binding p = Some b \<longrightarrow> bm_get (ps_mounts st) (ab_path b) = Some k)) \<and>
     (\<forall>k pool. bm_get (ps_pools st) k = Some pool \<longrightarrow> pool_in_range pool)"

lemma profile_closed_more_pools:
  assumes "profile_closed routes pools p" "bm_ok pools"
  shows "profile_closed routes (bm_insert k pool pools) p"
  using assms by (auto simp: profile_closed_def known_def bm_get_insert split: option.splits)

lemma compiled_profile_pool:
  assumes "compile_profile_pool name raw route providers plan st = Inr (plan', st')" "profiles_closed routes st"
  shows "profiles_closed routes st'" and "ps_profiles st' = ps_profiles st" and "ps_mounts st' = ps_mounts st"
    and "pp_route plan' = pp_route plan" and "pp_wire_identity plan' = pp_wire_identity plan"
    and "pp_api_binding plan' = pp_api_binding plan"
    and "pp_account_pool plan = None \<Longrightarrow> (case pp_account_pool plan' of
           None \<Rightarrow> credential_policy_of route = Client_Credentials
         | Some pool \<Rightarrow> credential_policy_of route = Account_Credentials \<and> known (ps_pools st') pool)"
proof -
  consider (account) pool_id pool where "credential_policy_of route = Account_Credentials"
      "compile_account_pool name (case rp_account_pool raw of Some pool \<Rightarrow> pool | None \<Rightarrow> default_account_pool) = Inr pool"
      "plan' = plan\<lparr>pp_account_pool := Some pool_id\<rparr>" "st' = st\<lparr>ps_pools := bm_insert pool_id pool (ps_pools st)\<rparr>"
    | (client) "credential_policy_of route = Client_Credentials" "plan' = plan" "st' = st"
    using assms(1) by (cases "credential_policy_of route") (auto simp: compile_profile_pool_def split: if_splits)
  note cases = this
  from assms(2) have ok: "bm_ok (ps_pools st)" by (simp add: profiles_closed_def)
  show "profiles_closed routes st'"
  proof (cases rule: cases)
    case account
    with assms(2) ok compiled_pool_in_range [OF account(2)] show ?thesis
      by (auto simp: profiles_closed_def bm_ok_insert bm_get_insert profile_closed_more_pools)
  qed (use assms(2) in simp)
  show "ps_profiles st' = ps_profiles st" "ps_mounts st' = ps_mounts st" "pp_route plan' = pp_route plan"
    "pp_wire_identity plan' = pp_wire_identity plan" "pp_api_binding plan' = pp_api_binding plan"
    by (cases rule: cases; simp)+
  show "case pp_account_pool plan' of None \<Rightarrow> credential_policy_of route = Client_Credentials
      | Some pool \<Rightarrow> credential_policy_of route = Account_Credentials \<and> known (ps_pools st') pool"
    if "pp_account_pool plan = None"
    using that ok by (cases rule: cases) (simp_all add: known_def bm_get_insert)
qed

lemma compiled_profile_binding:
  assumes "compile_profile_binding name raw route plan st = Inr (plan', st')"
  shows "ps_profiles st' = ps_profiles st" and "ps_pools st' = ps_pools st"
    and "pp_route plan' = pp_route plan" and "pp_wire_identity plan' = pp_wire_identity plan"
    and "pp_account_pool plan' = pp_account_pool plan"
    and "pp_api_binding plan = None \<Longrightarrow>
      (pp_api_binding plan' = None \<and> destination_policy_of route = Original_Destination \<and> ps_mounts st' = ps_mounts st) \<or>
      (\<exists>b. pp_api_binding plan' = Some b \<and> destination_policy_of route = Selected_Provider \<and> binding_closed b \<and>
         bm_get (ps_mounts st) (ab_path b) = None \<and> ps_mounts st' = bm_insert (ab_path b) name (ps_mounts st))"
proof -
  consider (original) "destination_policy_of route = Original_Destination" "plan' = plan" "st' = st"
    | (selected) b where "destination_policy_of route = Selected_Provider" "binding_closed b"
      "bm_get (ps_mounts st) (ab_path b) = None" "plan' = plan\<lparr>pp_api_binding := Some b\<rparr>"
      "st' = st\<lparr>ps_mounts := bm_insert (ab_path b) name (ps_mounts st)\<rparr>"
    using assms by (cases "destination_policy_of route")
      (auto simp: compile_profile_binding_def split: if_splits option.splits dest: compiled_binding_closed)
  note cases = this
  show "ps_profiles st' = ps_profiles st" "ps_pools st' = ps_pools st" "pp_route plan' = pp_route plan"
    "pp_wire_identity plan' = pp_wire_identity plan" "pp_account_pool plan' = pp_account_pool plan"
    by (cases rule: cases; simp)+
  show "(pp_api_binding plan' = None \<and> destination_policy_of route = Original_Destination \<and> ps_mounts st' = ps_mounts st) \<or>
      (\<exists>b. pp_api_binding plan' = Some b \<and> destination_policy_of route = Selected_Provider \<and> binding_closed b \<and>
         bm_get (ps_mounts st) (ab_path b) = None \<and> ps_mounts st' = bm_insert (ab_path b) name (ps_mounts st))"
    if "pp_api_binding plan = None"
    using that
    by (cases rule: cases) auto
qed

lemma compile_profile_InrE:
  assumes "compile_profile routes providers (name, raw) st = Inr st'"
  obtains route identity plan1 st1 plan2 st2 where
    "bm_get routes (rp_route raw) = Some route"
    "compile_wire_identity name (rp_wire_identity raw) route = Inr identity"
    "compile_profile_pool name raw route providers (new_profile_plan (rp_route raw) identity) st = Inr (plan1, st1)"
    "compile_profile_binding name raw route plan1 st1 = Inr (plan2, st2)"
    "st' = st2\<lparr>ps_profiles := bm_insert name plan2 (ps_profiles st2)\<rparr>"
proof -
  from assms obtain id route_id route identity r1 r2 where
    ids: "compile_id Profile_Id ''profile id'' name = Inr id"
      "compile_id Route_Id ''profile route reference'' (rp_route raw) = Inr route_id"
    and route: "bm_get routes route_id = Some route"
    and rest: "compile_wire_identity name (rp_wire_identity raw) route = Inr identity"
      "compile_profile_pool name raw route providers (new_profile_plan route_id identity) st = Inr r1"
      "compile_profile_binding name raw route (fst r1) (snd r1) = Inr r2"
      "st' = (snd r2)\<lparr>ps_profiles := bm_insert id (fst r2) (ps_profiles (snd r2))\<rparr>"
    unfolding compile_profile_def prod.case res_bind_eq_Inr
    by (elim exE conjE) (auto simp: case_prod_beta)
  from ids have "id = name" "route_id = rp_route raw" by (simp_all only: compile_id_value)
  with route rest show ?thesis by (intro that [of route identity "fst r1" "snd r1" "fst r2" "snd r2"]) simp_all
qed

lemma compile_profile_closed:
  assumes "compile_profile routes providers entry st = Inr st'" "profiles_closed routes st"
  shows "profiles_closed routes st'"
proof -
  obtain name raw where entry: "entry = (name, raw)" by fastforce
  from assms(1) [unfolded entry] obtain route identity plan1 st1 plan2 st2 where
    route: "bm_get routes (rp_route raw) = Some route"
    and identity: "compile_wire_identity name (rp_wire_identity raw) route = Inr identity"
    and pool: "compile_profile_pool name raw route providers (new_profile_plan (rp_route raw) identity) st = Inr (plan1, st1)"
    and binding: "compile_profile_binding name raw route plan1 st1 = Inr (plan2, st2)"
    and st': "st' = st2\<lparr>ps_profiles := bm_insert name plan2 (ps_profiles st2)\<rparr>"
    by (rule compile_profile_InrE)
  note p = compiled_profile_pool [OF pool assms(2)] and b = compiled_profile_binding [OF binding]
  have plain: "pp_account_pool (new_profile_plan (rp_route raw) identity) = None"
    "pp_api_binding (new_profile_plan (rp_route raw) identity) = None"
    "pp_route (new_profile_plan (rp_route raw) identity) = rp_route raw"
    "pp_wire_identity (new_profile_plan (rp_route raw) identity) = identity"
    by (simp_all add: new_profile_plan_def)
  have bind: "(pp_api_binding plan2 = None \<and> destination_policy_of route = Original_Destination \<and> ps_mounts st2 = ps_mounts st) \<or>
      (\<exists>b. pp_api_binding plan2 = Some b \<and> destination_policy_of route = Selected_Provider \<and> binding_closed b \<and>
         bm_get (ps_mounts st) (ab_path b) = None \<and> ps_mounts st2 = bm_insert (ab_path b) name (ps_mounts st))"
    using b(6) p(3,6) plain(2) by simp
  have closed: "profile_closed routes (ps_pools st2) plan2"
    using bind p(4,5,7) b(2-5) plain route compiled_identity [OF identity]
    by (auto simp: profile_closed_def split: option.splits)
  have ok: "bm_ok (ps_profiles st)" "bm_ok (ps_mounts st)" using assms(2) by (simp_all add: profiles_closed_def)
  have kept: "bm_get (ps_mounts st2) path = Some k" if "bm_get (ps_mounts st) path = Some k" for path k
    using bind that ok(2) by (auto simp: bm_get_insert)
  have own: "bm_get (ps_mounts st2) (ab_path b) = Some name" if "pp_api_binding plan2 = Some b" for b
    using bind that ok(2) by (auto simp: bm_get_insert)
  have "bm_ok (ps_mounts st2)" using bind ok(2) by (auto simp: bm_ok_insert)
  moreover have "profiles_closed routes st1" by (rule p(1))
  ultimately show ?thesis
    using closed kept own ok st' b(1,2) p(2,3)
    unfolding profiles_closed_def by (auto simp: bm_ok_insert bm_get_insert split: if_splits)
qed

lemma compiled_profiles_closed:
  assumes "compile_profiles raw routes providers = Inr st"
  shows "profiles_closed routes st"
  using assms unfolding compile_profiles_def
proof (rule res_fold_invariant)
  show "profiles_closed routes \<lparr>ps_profiles = [], ps_pools = [], ps_mounts = []\<rparr>" by (simp add: profiles_closed_def)
qed (rule compile_profile_closed)

section \<open>Compiled listeners\<close>

lemma compile_action_closed: "compile_http_action raw ctx profiles = Inr action \<Longrightarrow> action_closed profiles action"
  by (cases raw) (auto simp: compile_http_action_def known_def split: option.splits)

definition draft_closed :: "(string, profile_plan) bmap \<Rightarrow> listener_draft \<Rightarrow> bool" where
  "draft_closed profiles d \<longleftrightarrow>
     (ld_flavor d = Forward_Proxy_Flavor \<longrightarrow>
        (case ld_default_http_action d of Some a \<Rightarrow> action_closed profiles a | None \<Rightarrow> False))"

lemma compile_draft_closed:
  assumes "compile_draft cors_origin relative_to profiles binds raw_id raw = Inr (lid, draft)"
  shows "draft_closed profiles draft"
proof (cases raw)
  case (Raw_Llm_Api l)
  with assms have "ld_flavor draft = Llm_Api_Flavor" by (auto simp: compile_draft_def)
  then show ?thesis by (simp add: draft_closed_def)
next
  case (Raw_Forward_Proxy f)
  with assms obtain ctx action where "compile_http_action (rf_default_http_action f) ctx profiles = Inr action"
    "ld_default_http_action draft = Some action"
    unfolding compile_draft_def Raw_Forward_Proxy raw_listener.case res_bind_eq_Inr if_Inl_eq_Inr
    by (elim exE conjE) (rule that, assumption, auto)
  then show ?thesis using compile_action_closed by (simp add: draft_closed_def)
qed

lemma compile_drafts_closed:
  assumes "compile_drafts cors_origin relative_to profiles binds drafts raws = Inr drafts'"
    and "list_all (\<lambda>(_, d). draft_closed profiles d) drafts"
  shows "list_all (\<lambda>(_, d). draft_closed profiles d) drafts'"
proof -
  have insert: "list_all (\<lambda>(_, d). draft_closed profiles d) (bm_insert k d m)"
    if "draft_closed profiles d" "list_all (\<lambda>(_, d). draft_closed profiles d) m" for k d m
    using that by (induction k d m rule: bm_insert.induct) auto
  show ?thesis
    using assms
  proof (induction raws arbitrary: binds drafts)
    case (Cons entry raws)
    obtain raw_id raw where entry: "entry = (raw_id, raw)" by fastforce
    with Cons.prems(1) obtain lid draft where d: "compile_draft cors_origin relative_to profiles binds raw_id raw = Inr (lid, draft)"
      "compile_drafts cors_origin relative_to profiles (binds @ [(ld_bind draft, lid)]) (bm_insert lid draft drafts) raws = Inr drafts'"
      by auto
    with insert Cons.prems(2) compile_draft_closed [OF d(1)] show ?case by (intro Cons.IH [OF d(2)]) blast
  qed simp
qed

definition rules_closed :: "(string, profile_plan) bmap \<Rightarrow> (http_match_key, http_binding_plan) rule_state \<Rightarrow> bool" where
  "rules_closed profiles st \<longleftrightarrow>
     bm_ok (rs_plans st) \<and> (\<forall>lid. list_all (\<lambda>b. action_closed profiles (hb_action b)) (bm_entry (rs_plans st) lid))"

lemma compile_binding_closed:
  assumes "compile_binding profiles drafts raw st = Inr st'" "rules_closed profiles st"
  shows "rules_closed profiles st'"
proof -
  from assms(1) obtain id lid matcher key action ctx where
    action: "compile_http_action (rb_action raw) ctx profiles = Inr action"
    and st': "st' = \<lparr>rs_ids = rs_ids st @ [id],
        rs_plans = bm_push lid \<lparr>hb_id = id, hb_matcher = matcher, hb_action = action\<rparr> (rs_plans st),
        rs_matchers = bm_push lid (key, id) (rs_matchers st)\<rparr>"
    by (auto simp: compile_binding_def Let_def split: if_splits option.splits)
  with assms(2) compile_action_closed [OF action] show ?thesis by (simp add: rules_closed_def bm_entry_push bm_ok_push st')
qed

lemma finish_listener_closed:
  assumes "finish_listener http connect (lid, draft) = Inr (k, l)" "draft_closed profiles draft"
    and "list_all (\<lambda>b. action_closed profiles (hb_action b)) (bm_entry http lid)"
  shows "listener_closed profiles l"
proof (cases l)
  case (Forward_Proxy p)
  with assms(1) have "ld_flavor draft = Forward_Proxy_Flavor" "fp_http_bindings p = bm_entry http lid"
    "fp_default_http_action p = the (ld_default_http_action draft)"
    by (auto simp: finish_listener_def new_forward_proxy_listener_def Let_def
        split: listener_flavor.splits if_splits)
  with assms(2,3) Forward_Proxy show ?thesis by (auto simp: draft_closed_def split: option.splits)
qed simp

lemma compile_drafts_nonempty:
  assumes "compile_drafts cors_origin relative_to profiles binds drafts raws = Inr drafts'" "drafts \<noteq> [] \<or> raws \<noteq> []"
  shows "drafts' \<noteq> []"
  using assms
proof (induction raws arbitrary: binds drafts)
  case (Cons entry raws)
  obtain raw_id raw where "entry = (raw_id, raw)" by fastforce
  with Cons.prems(1) obtain lid draft where "compile_drafts cors_origin relative_to profiles
      (binds @ [(ld_bind draft, lid)]) (bm_insert lid draft drafts) raws = Inr drafts'"
    by auto
  moreover have "bm_insert lid draft drafts \<noteq> []"
    by (cases "(lid, draft, drafts)" rule: bm_insert.cases) auto
  ultimately show ?case using Cons.IH by blast
qed simp

lemma compiled_listeners_closed:
  assumes "compile_listeners cors_origin relative_to raw profiles = Inr listeners"
  shows "listeners \<noteq> []" and "bm_ok listeners" and "list_all (\<lambda>(_, l). listener_closed profiles l) listeners"
proof -
  from assms obtain drafts http connect entries where d:
    "rw_listeners raw \<noteq> []"
    "compile_drafts cors_origin relative_to profiles [] [] (rw_listeners raw) = Inr drafts"
    "res_fold (compile_binding profiles drafts) (rw_bindings raw)
       \<lparr>rs_ids = [], rs_plans = [], rs_matchers = []\<rparr> = Inr http"
    "res_fold (compile_connect_rule drafts) (rw_connect_rules raw)
       \<lparr>rs_ids = rs_ids http, rs_plans = [], rs_matchers = []\<rparr> = Inr connect"
    "res_collect (finish_listener (rs_plans http) (rs_plans connect)) drafts = Inr entries"
    and listeners: "listeners = bm_of_list entries"
    by (rule compile_listeners_InrE)
  have drafts: "list_all (\<lambda>(_, d). draft_closed profiles d) drafts" using compile_drafts_closed [OF d(2)] by simp
  have "rules_closed profiles \<lparr>rs_ids = [], rs_plans = [], rs_matchers = []\<rparr>"
    by (simp add: rules_closed_def bm_entry_def)
  with d(3) have http: "rules_closed profiles http" by (rule res_fold_invariant) (rule compile_binding_closed)
  have "listener_closed profiles l" if "(k, l) \<in> set entries" for k l
  proof -
    from res_collect_set [OF d(5) that] obtain lid draft where
      e: "(lid, draft) \<in> set drafts" "finish_listener (rs_plans http) (rs_plans connect) (lid, draft) = Inr (k, l)" by auto
    then show ?thesis
      using finish_listener_closed [OF e(2)] drafts http by (auto simp: list_all_iff rules_closed_def)
  qed
  moreover show ok: "bm_ok listeners" by (simp add: listeners)
  ultimately show "list_all (\<lambda>(_, l). listener_closed profiles l) listeners"
    by (intro bm_list_allI) (auto simp: listeners dest: bm_of_list_get_in)
  have "bm_of_list entries \<noteq> []" if "entries \<noteq> []"
    using that keys_bm_of_list [of entries] by (cases entries) auto
  moreover have "drafts \<noteq> []" using compile_drafts_nonempty [OF d(2)] d(1) by blast
  moreover have "length entries = length drafts" using res_collect_Inr [OF d(5)] by (simp add: list_all2_lengthD)
  ultimately show "listeners \<noteq> []" using listeners by fastforce
qed

section \<open>Compiled gateways\<close>

text \<open>Distinct owners: the API paths of profiles whose paths are claimed by their own ids.\<close>

lemma distinct_claimed_paths:
  assumes "bm_ok profiles"
    and "\<And>k p b. (k, p) \<in> set profiles \<Longrightarrow> pp_api_binding p = Some b \<Longrightarrow> owner (ab_path b) = Some k"
  shows "distinct (filter_map (\<lambda>(_, p). map_option ab_path (pp_api_binding p)) profiles)"
  using assms
proof (induction profiles)
  case (Cons entry profiles)
  obtain k p where entry: "entry = (k, p)" by fastforce
  have "path \<notin> set (filter_map (\<lambda>(_, p). map_option ab_path (pp_api_binding p)) profiles)"
    if path: "map_option ab_path (pp_api_binding p) = Some path" for path
  proof
    assume "path \<in> set (filter_map (\<lambda>(_, p). map_option ab_path (pp_api_binding p)) profiles)"
    then obtain k' p' b' where "(k', p') \<in> set profiles" "pp_api_binding p' = Some b'" "path = ab_path b'"
      by (auto simp: set_filter_map)
    moreover from path obtain b where "pp_api_binding p = Some b" "path = ab_path b" by auto
    ultimately have "owner path = Some k'" "owner path = Some k"
      using Cons.prems(2) [of k' p' b'] Cons.prems(2) [of k p b] by (simp_all add: entry)
    with Cons.prems(1) \<open>(k', p') \<in> set profiles\<close> show False by (force simp: entry bm_ok_Cons)
  qed
  moreover have "distinct (filter_map (\<lambda>(_, p). map_option ab_path (pp_api_binding p)) profiles)"
    using Cons.prems by (intro Cons.IH) (auto simp: entry bm_ok_Cons)
  ultimately show ?case by (simp add: entry filter_map_simps split: option.splits)
qed (simp add: filter_map_def)

lemma compile_resources_closed:
  assumes "compile_resources parse_url raw = Inr r"
  shows "list_all (\<lambda>(_, p). profile_closed (cs_routes r) (cs_account_pools r) p) (cs_profiles r)"
    and "list_all (\<lambda>(_, p). route_closed (cs_providers r) (cs_retry_policies r) p) (cs_routes r)"
    and "list_all (\<lambda>(_, p). retry_in_range p) (cs_retry_policies r)"
    and "list_all (\<lambda>(_, p). pool_in_range p) (cs_account_pools r)"
    and "distinct (filter_map (\<lambda>(_, p). map_option ab_path (pp_api_binding p)) (cs_profiles r))"
    and "bm_ok (cs_profiles r)" "bm_ok (cs_routes r)" "bm_ok (cs_retry_policies r)" "bm_ok (cs_account_pools r)"
      "bm_ok (cs_providers r)"
proof -
  from assms obtain scores st where
    providers: "compile_providers parse_url (rg_providers raw) = Inr (cs_providers r)"
    and retry: "compile_retry_policies (rg_retry_policies raw) = Inr (cs_retry_policies r)"
    and scores: "compile_model_scores (rg_model_scores raw) (cs_providers r) = Inr scores"
    and routes: "compile_routes (rg_routes raw) (cs_providers r) (cs_retry_policies r) scores = Inr (cs_routes r)"
    and profiles: "compile_profiles (rg_profiles raw) (cs_routes r) (cs_providers r) = Inr st"
    and st: "cs_profiles r = ps_profiles st" "cs_account_pools r = ps_pools st"
    by (auto simp: compile_resources_def)
  have closed: "profiles_closed (cs_routes r) st" by (rule compiled_profiles_closed [OF profiles])
  then show ok: "bm_ok (cs_profiles r)" "bm_ok (cs_account_pools r)" by (simp_all add: profiles_closed_def st)
  show routes_ok: "bm_ok (cs_routes r)" using routes by (simp add: compile_routes_def collect_map_ok)
  show retry_ok: "bm_ok (cs_retry_policies r)" using retry by (simp add: compile_retry_policies_def collect_map_ok)
  show "bm_ok (cs_providers r)"
  proof -
    from providers obtain presets where "preset_providers = Inr presets"
      and fold: "res_fold (compile_provider_entry parse_url) (rg_providers raw) presets = Inr (cs_providers r)"
      unfolding compile_providers_def res_bind_eq_Inr by blast
    then have "bm_ok presets" by (auto simp: preset_providers_def)
    with fold show ?thesis
      by (rule res_fold_invariant)
         (auto simp: compile_provider_entry_def Let_def bm_ok_insert bm_ok_remove split: prod.splits if_splits)
  qed
  show "list_all (\<lambda>(_, p). profile_closed (cs_routes r) (cs_account_pools r) p) (cs_profiles r)"
    using closed by (intro bm_list_allI ok) (auto simp: profiles_closed_def st)
  show "list_all (\<lambda>(_, p). route_closed (cs_providers r) (cs_retry_policies r) p) (cs_routes r)"
    by (intro bm_list_allI routes_ok) (rule compiled_route_closed [OF routes _ scores])
  show "list_all (\<lambda>(_, p). retry_in_range p) (cs_retry_policies r)"
    by (intro bm_list_allI retry_ok) (rule compiled_retry_in_range [OF retry])
  show "list_all (\<lambda>(_, p). pool_in_range p) (cs_account_pools r)"
    using closed by (intro bm_list_allI ok) (auto simp: profiles_closed_def st)
  show "distinct (filter_map (\<lambda>(_, p). map_option ab_path (pp_api_binding p)) (cs_profiles r))"
    using closed
    by (intro distinct_claimed_paths [where owner = "bm_get (ps_mounts st)"] ok)
       (auto simp: profiles_closed_def st dest: bm_ok_get)
qed

lemma compiled_closed:
  assumes "compile_config parse_url cors_origin relative_to raw = Inr plan"
  shows "plan_closed plan"
proof -
  from assms obtain expanded resources listeners where
    r: "compile_resources parse_url expanded = Inr resources"
    and l: "compile_listeners cors_origin relative_to (rg_listeners expanded) (cs_profiles resources) = Inr listeners"
    and plan: "plan = \<lparr>gp_listeners = listeners, gp_profiles = cs_profiles resources, gp_routes = cs_routes resources,
             gp_retry_policies = cs_retry_policies resources, gp_account_pools = cs_account_pools resources,
             gp_providers = cs_providers resources\<rparr>"
    unfolding compile_config_def compile_gateway_def
    by (auto split: if_splits)
  show ?thesis
    using compile_resources_closed [OF r] compiled_listeners_closed [OF l]
    by (simp add: plan plan_closed_def api_paths_def)
qed

text \<open>
  C39. Compilation gives closed plans: whatever configuration the compiler accepts, every
  reference in the plan resolves, each profile has what its route calls for (an account pool
  exactly for account credentials, an API path exactly where the destination is selected, no
  identity over client credentials), fixed destinations are allowed, API paths are distinct
  and reserved paths are not taken, retries and durations are in range.
\<close>

theorem compiled_plan_closed:
  "case compile_config parse_url cors_origin relative_to raw of Inl e \<Rightarrow> True | Inr plan \<Rightarrow> plan_closed plan"
  by (simp add: compiled_closed split: sum.split)

end
