(* ===== verification/Gateway_Runtime.thy ===== *)
theory Gateway_Runtime
  imports Discovery Compiled_Plan
begin

text \<open>
  The runtime of a compiled gateway (crates/router/src/v2/mod.rs, mounts.rs): the profiles
  that listeners can reach, the request services of each profile, the API mounts, and how an
  API or a proxied request finds its service.

  A service is described by its stages, which are modelled in their own theories; an account
  pool is named by its id, the runtimes of the pools being shared by all services. The text of
  an upstream URL has an origin, which \<open>origin_of\<close> gives; \<open>http_error\<close> is why the HTTP
  library does not build a client, if it does not.
\<close>

section \<open>Services\<close>

datatype stage_impl = Default_Impl | Passthrough_Impl

datatype header_stage =
    Provider_Default_Headers
  | Passthrough_Headers (preserve_host: bool) (preserve_client_auth: bool)

definition passthrough_headers :: header_stage where
  "passthrough_headers = Passthrough_Headers False True"

definition preserve_host_headers :: header_stage where
  "preserve_host_headers = Passthrough_Headers True True"

definition preserve_host_with_router_auth :: header_stage where
  "preserve_host_with_router_auth = Passthrough_Headers True False"

definition router_auth_headers :: header_stage where
  "router_auth_headers = Passthrough_Headers False False"

datatype http_client = Managed_Http | Opaque_Http

datatype resolve_stage =
    Select_Account (ss_route: string) (ss_pool: string)
  | Relay_To_Client client_resolver
  | Relay_To_Pool proxy_relay_target string

datatype send_stage =
    Pool_Aware_Send http_client string
  | Proxy_Pool_Aware_Send http_client string
  | Proxy_Send http_client

datatype pipeline_mode = Full_Pipeline | Dry_Run

record request_service =
  sv_name :: string
  sv_extract :: stage_impl
  sv_resolve :: resolve_stage
  sv_headers :: header_stage
  sv_convert_request :: stage_impl
  sv_send :: "send_stage option"
  sv_convert_response :: "stage_impl option"
  sv_retry :: retry_policy

text \<open>A dry run stops before its send stage.\<close>

definition service_of ::
  "pipeline_mode \<Rightarrow> string \<Rightarrow> stage_impl \<Rightarrow> resolve_stage \<Rightarrow> header_stage \<Rightarrow> send_stage \<Rightarrow> retry_policy \<Rightarrow>
   request_service" where
  "service_of mode name impl chooser headers send retry =
     \<lparr>sv_name = name, sv_extract = impl, sv_resolve = chooser, sv_headers = headers, sv_convert_request = impl,
      sv_send = (case mode of Full_Pipeline \<Rightarrow> Some send | Dry_Run \<Rightarrow> None),
      sv_convert_response = (case mode of Full_Pipeline \<Rightarrow> Some impl | Dry_Run \<Rightarrow> None), sv_retry = retry\<rparr>"

datatype proxy_destination =
    Managed_Upstream
  | Fixed_Upstream (fu_provider: string) (fu_base: string)
  | Original_Upstream

record 'd profile_runtime =
  pr_api_service :: "request_service option"
  pr_proxy_service :: "request_service option"
  pr_route_kind :: route_kind
  pr_record_mode :: string
  pr_credential_policy :: credential_policy
  pr_agent_id :: "string option"
  pr_api_destination :: "'d option"
  pr_proxy_destination :: proxy_destination

datatype ('e, 'u) build_error =
    Graph_Error "('e, 'u) link_error"
  | Pools_Error pool_link_error
  | Http_Error string
  | Dangling reference_error
  | Header_Patches string
  | Origin_Claimed_Twice string string string
  | Path_Owned_Twice string string string

section \<open>Retry policies\<close>

definition retry_policy_of ::
  "gateway_plan \<Rightarrow> string \<Rightarrow> bool \<Rightarrow> ('e, 'u) build_error + retry_policy" where
  "retry_policy_of plan policy_id safe =
     res_map (\<lambda>p. if safe then safe_methods (rp_max_retries p) (rp_initial_backoff p)
                  else new_retry_policy (rp_max_retries p) (rp_initial_backoff p))
       (ok_or (Dangling (No_Retry_Policy policy_id)) (bm_get (gp_retry_policies plan) policy_id))"

fun managed_retry_policy :: "gateway_plan \<Rightarrow> managed_retry \<Rightarrow> ('e, 'u) build_error + retry_policy" where
  "managed_retry_policy plan Managed_Never = Inr default_retry_policy"
| "managed_retry_policy plan (Recoverable policy_id) = retry_policy_of plan policy_id False"

fun relay_retry_policy :: "gateway_plan \<Rightarrow> relay_retry \<Rightarrow> ('e, 'u) build_error + retry_policy" where
  "relay_retry_policy plan Relay_Never = Inr default_retry_policy"
| "relay_retry_policy plan (Safe_Methods policy_id) = retry_policy_of plan policy_id True"
| "relay_retry_policy plan (Buffered policy_id) = retry_policy_of plan policy_id False"

section \<open>Selectors of a profile\<close>

text \<open>\<open>V2AccountSelector::new\<close>: the route and the pool the selector works on.\<close>

definition account_selector_of ::
  "gateway_plan \<Rightarrow> string \<Rightarrow> (string, provider pool_runtime) bmap \<Rightarrow> ('e, 'u) build_error + string \<times> string" where
  "account_selector_of plan profile_id pools =
     res_bind (ok_or (Dangling (No_Profile profile_id)) (bm_get (gp_profiles plan) profile_id)) (\<lambda>profile.
     res_bind (ok_or (Dangling (Profile_Without_Pool profile_id)) (pp_account_pool profile)) (\<lambda>pool_id.
     res_map (\<lambda>_. (pp_route profile, pool_id)) (ok_or (Dangling (No_Pool pool_id)) (bm_get pools pool_id))))"

definition proxy_selector_of ::
  "relay_route \<Rightarrow> string \<Rightarrow> (string, provider pool_runtime) bmap \<Rightarrow> (string, string) bmap \<Rightarrow>
   ('e, 'u) build_error + proxy_relay_target" where
  "proxy_selector_of route pool_id pools origins =
     res_map (\<lambda>_. case rr_destination route of To_Provider p \<Rightarrow> Relay_Fixed p | Original \<Rightarrow> Relay_From_Origin origins)
       (ok_or (Dangling (No_Pool pool_id)) (bm_get pools pool_id))"

section \<open>Origins of a relay to the original destination\<close>

text \<open>One claimed origin, then the origins of one provider in their order.\<close>

definition claim_proxy_origin ::
  "string \<Rightarrow> string \<Rightarrow> (string, string) bmap \<Rightarrow> ('e, 'u) build_error + (string, string) bmap" where
  "claim_proxy_origin provider_id origin origins =
     (case bm_get origins origin of
        Some first \<Rightarrow> Inl (Origin_Claimed_Twice origin first provider_id)
      | None \<Rightarrow> Inr (bm_insert origin provider_id origins))"

definition claimed_origins :: "(string \<Rightarrow> string) \<Rightarrow> provider_plan \<Rightarrow> provider_target \<Rightarrow> string bset" where
  "claimed_origins origin_of provider target = bs_of_list (origin_of (pt_base_url target) # vp_origins provider)"

definition restricted_provider_origins ::
  "(string \<Rightarrow> string) \<Rightarrow> gateway_plan \<Rightarrow> (provider, 'e) provider_graph \<Rightarrow> string bset \<Rightarrow>
   ('e, 'u) build_error + (string, string) bmap" where
  "restricted_provider_origins origin_of plan g eligible =
     res_fold (\<lambda>provider_id origins.
         res_bind (ok_or (Dangling (No_Provider provider_id)) (bm_get (gp_providers plan) provider_id)) (\<lambda>provider.
         res_bind (ok_or (Dangling (No_Target provider_id)) (graph_target g provider_id)) (\<lambda>target.
           res_fold (claim_proxy_origin provider_id) (claimed_origins origin_of provider target) origins)))
       eligible []"

definition eligible_providers ::
  "gateway_plan \<Rightarrow> provider pool_runtime \<Rightarrow> account_pool_plan \<Rightarrow> route_plan \<Rightarrow> string bset" where
  "eligible_providers plan rt pool route =
     (let bound = map (\<lambda>b. bk_provider (pb_key b)) (selection_bindings rt)
      in filter (\<lambda>p. allows_provider route p \<and> p \<in> set bound \<and>
           (case as_providers (ap_selector pool) of None \<Rightarrow> True | Some ps \<Rightarrow> bs_contains ps p))
           (bm_keys (gp_providers plan)))"

definition provider_origins ::
  "(string \<Rightarrow> string) \<Rightarrow> gateway_plan \<Rightarrow> (provider, 'e) provider_graph \<Rightarrow> (string, provider pool_runtime) bmap \<Rightarrow>
   string \<Rightarrow> route_plan \<Rightarrow> ('e, 'u) build_error + (string, string) bmap" where
  "provider_origins origin_of plan g pools pool_id route =
     res_bind (ok_or (Dangling (No_Pool pool_id)) (bm_get (gp_account_pools plan) pool_id)) (\<lambda>pool.
     res_bind (ok_or (Dangling (No_Pool pool_id)) (bm_get pools pool_id)) (\<lambda>rt.
       restricted_provider_origins origin_of plan g (eligible_providers plan rt pool route)))"

section \<open>The proxy service of a relay\<close>

definition relay_with_accounts ::
  "(string \<Rightarrow> string) \<Rightarrow> string \<Rightarrow> relay_route \<Rightarrow> gateway_plan \<Rightarrow> (provider, 'e) provider_graph \<Rightarrow>
   (string, provider pool_runtime) bmap \<Rightarrow> retry_policy \<Rightarrow> ('e, 'u) build_error + request_service" where
  "relay_with_accounts origin_of profile_id route plan g pools retry =
     res_bind (ok_or (Dangling (No_Profile profile_id)) (bm_get (gp_profiles plan) profile_id)) (\<lambda>profile.
     res_bind (ok_or (Dangling (Profile_Without_Pool profile_id)) (pp_account_pool profile)) (\<lambda>pool_id.
     res_bind (ok_or (Dangling (No_Route (pp_route profile))) (bm_get (gp_routes plan) (pp_route profile))) (\<lambda>policy.
     res_bind (case rr_destination route of
                 To_Provider _ \<Rightarrow> Inr []
               | Original \<Rightarrow> provider_origins origin_of plan g pools pool_id policy) (\<lambda>origins.
     res_map (\<lambda>target.
         service_of Full_Pipeline (''v2-'' @ profile_id @ ''-proxy'') Passthrough_Impl (Relay_To_Pool target pool_id)
           (case rr_destination route of
              To_Provider _ \<Rightarrow> router_auth_headers
            | Original \<Rightarrow> preserve_host_with_router_auth)
           (Proxy_Pool_Aware_Send Opaque_Http pool_id) retry)
       (proxy_selector_of route pool_id pools origins)))))"

definition relay_with_client ::
  "(string \<Rightarrow> string) \<Rightarrow> string \<Rightarrow> relay_route \<Rightarrow> gateway_plan \<Rightarrow> (provider, 'e) provider_graph \<Rightarrow>
   retry_policy \<Rightarrow> ('e, 'u) build_error + request_service" where
  "relay_with_client origin_of profile_id route plan g retry =
     res_bind (ok_or (Dangling (No_Profile profile_id)) (bm_get (gp_profiles plan) profile_id)) (\<lambda>profile.
     res_bind (ok_or (Dangling (No_Route (pp_route profile))) (bm_get (gp_routes plan) (pp_route profile))) (\<lambda>policy.
     res_map (\<lambda>origins.
         service_of Full_Pipeline (''v2-'' @ profile_id @ ''-proxy'') Passthrough_Impl
           (Relay_To_Client
             \<lparr>cr_fixed_provider = (case rr_destination route of To_Provider p \<Rightarrow> Some p | Original \<Rightarrow> None),
              cr_allowed_origins = origins\<rparr>)
           (case rr_destination route of To_Provider _ \<Rightarrow> passthrough_headers | Original \<Rightarrow> preserve_host_headers)
           (Proxy_Send Opaque_Http) retry)
       (case rr_destination route of
          To_Provider _ \<Rightarrow> Inr None
        | Original \<Rightarrow>
            (case route_providers policy of
               None \<Rightarrow> Inr None
             | Some ids \<Rightarrow> res_map Some (restricted_provider_origins origin_of plan g ids)))))"

definition build_proxy_relay_service ::
  "(string \<Rightarrow> string) \<Rightarrow> string \<Rightarrow> relay_route \<Rightarrow> gateway_plan \<Rightarrow> (provider, 'e) provider_graph \<Rightarrow>
   (string, provider pool_runtime) bmap \<Rightarrow> ('e, 'u) build_error + request_service" where
  "build_proxy_relay_service origin_of profile_id route plan g pools =
     res_bind (relay_retry_policy plan (rr_retry route)) (\<lambda>retry.
       case rr_credentials route of
         From_Pool \<Rightarrow> relay_with_accounts origin_of profile_id route plan g pools retry
       | Client \<Rightarrow> relay_with_client origin_of profile_id route plan g retry)"

section \<open>The services of a profile\<close>

text \<open>The services and destinations of a profile: API service, proxy service, API and proxy destination.\<close>

type_synonym ('d) linked_services =
  "request_service option \<times> request_service option \<times> 'd option \<times> proxy_destination"

definition managed_services ::
  "pipeline_mode \<Rightarrow> string \<Rightarrow> managed_route \<Rightarrow> gateway_plan \<Rightarrow> (string, provider pool_runtime) bmap \<Rightarrow>
   ('e, 'u) build_error + 'd linked_services" where
  "managed_services mode profile_id route plan pools =
     (if mr_header_patches route \<noteq> None then Inl (Header_Patches profile_id)
      else
        res_bind (managed_retry_policy plan (mr_retry route)) (\<lambda>retry.
        res_map (\<lambda>(route_id, pool_id).
            let service = service_of mode (''v2-'' @ profile_id) Default_Impl (Select_Account route_id pool_id)
                  Provider_Default_Headers (Pool_Aware_Send Managed_Http pool_id) retry
            in (Some service, Some service, None, Managed_Upstream))
          (account_selector_of plan profile_id pools)))"

definition linked_destination ::
  "relay_route \<Rightarrow> (provider, 'e) provider_graph \<Rightarrow> ('e, 'u) build_error + (provider, 'e) provider_destination option" where
  "linked_destination route g =
     (case rr_destination route of
        Original \<Rightarrow> Inr None
      | To_Provider p \<Rightarrow> res_map Some (ok_or (Dangling (No_Provider p)) (graph_destination g p)))"

definition relay_api_service ::
  "pipeline_mode \<Rightarrow> string \<Rightarrow> relay_route \<Rightarrow> gateway_plan \<Rightarrow> (string, provider pool_runtime) bmap \<Rightarrow>
   retry_policy \<Rightarrow> 'd option \<Rightarrow> ('e, 'u) build_error + request_service option \<times> 'd option" where
  "relay_api_service mode profile_id route plan pools retry destination =
     (let name = ''v2-'' @ profile_id @ ''-api'' in
      case rr_destination route of
        Original \<Rightarrow> Inr (None, None)
      | To_Provider p \<Rightarrow>
          (case rr_credentials route of
             From_Pool \<Rightarrow>
               res_map (\<lambda>(route_id, pool_id).
                   (Some (service_of mode name Passthrough_Impl (Select_Account route_id pool_id) router_auth_headers
                      (Pool_Aware_Send Opaque_Http pool_id) retry), None))
                 (account_selector_of plan profile_id pools)
           | Client \<Rightarrow>
               Inr (Some (service_of mode name Passthrough_Impl
                      (Relay_To_Client \<lparr>cr_fixed_provider = Some p, cr_allowed_origins = None\<rparr>) passthrough_headers
                      (Proxy_Send Opaque_Http) retry), destination)))"

definition relay_services ::
  "(string \<Rightarrow> string) \<Rightarrow> pipeline_mode \<Rightarrow> string \<Rightarrow> relay_route \<Rightarrow> gateway_plan \<Rightarrow> (provider, 'e) provider_graph \<Rightarrow>
   (string, provider pool_runtime) bmap \<Rightarrow>
   ('e, 'u) build_error + (provider, 'e) provider_destination linked_services" where
  "relay_services origin_of mode profile_id route plan g pools =
     (if rr_header_patches route \<noteq> None then Inl (Header_Patches profile_id)
      else
        res_bind (relay_retry_policy plan (rr_retry route)) (\<lambda>retry.
        res_bind (build_proxy_relay_service origin_of profile_id route plan g pools) (\<lambda>proxy_service.
        res_bind (linked_destination route g) (\<lambda>destination.
        res_map (\<lambda>(api_service, api_destination).
            (api_service, Some proxy_service, api_destination,
             case destination of
               Some d \<Rightarrow> Fixed_Upstream (ds_provider_id d) (pt_base_url (ds_target d))
             | None \<Rightarrow> Original_Upstream))
          (relay_api_service mode profile_id route plan pools retry destination)))))"

definition build_profile_runtime ::
  "(string \<Rightarrow> string) \<Rightarrow> pipeline_mode \<Rightarrow> gateway_plan \<Rightarrow> (provider, 'e) provider_graph \<Rightarrow>
   (string, provider pool_runtime) bmap \<Rightarrow> string \<Rightarrow>
   ('e, 'u) build_error + (provider, 'e) provider_destination profile_runtime" where
  "build_profile_runtime origin_of mode plan g pools profile_id =
     res_bind (ok_or (Dangling (No_Profile profile_id)) (bm_get (gp_profiles plan) profile_id)) (\<lambda>profile.
     res_bind (ok_or (Dangling (No_Route (pp_route profile))) (bm_get (gp_routes plan) (pp_route profile))) (\<lambda>route.
     res_map (\<lambda>(api_service, proxy_service, api_destination, proxy_destination).
         \<lparr>pr_api_service = api_service, pr_proxy_service = proxy_service, pr_route_kind = kind_of_route route,
          pr_record_mode = request_record_mode route, pr_credential_policy = credential_policy_of route,
          pr_agent_id = wire_agent (pp_wire_identity profile), pr_api_destination = api_destination,
          pr_proxy_destination = proxy_destination\<rparr>)
       (case route of
          Managed r \<Rightarrow> managed_services mode profile_id r plan pools
        | Relay r \<Rightarrow> relay_services origin_of mode profile_id r plan g pools)))"

section \<open>Reachable profiles\<close>

definition collect_profile :: "http_action \<Rightarrow> string bset \<Rightarrow> string bset" where
  "collect_profile action profiles =
     (case action of Route_To profile_id \<Rightarrow> bs_of_list (profile_id # profiles) | Http_Reject \<Rightarrow> profiles)"

definition collect_listener :: "listener_plan \<Rightarrow> string bset \<Rightarrow> string bset" where
  "collect_listener listener profiles =
     (case listener of
        Llm_Api _ \<Rightarrow> profiles
      | Forward_Proxy l \<Rightarrow>
          fold collect_profile (map hb_action (fp_http_bindings l)) (collect_profile (fp_default_http_action l) profiles))"

definition reachable_profiles :: "gateway_plan \<Rightarrow> string bset" where
  "reachable_profiles plan =
     bs_of_list
       (fold collect_listener (bm_values (gp_listeners plan)) [] @
        map fst (filter (\<lambda>(_, profile). pp_api_binding profile \<noteq> None) (gp_profiles plan)))"

section \<open>API mounts\<close>

datatype api_operation = Generate endpoint | List_Models | List_Providers

record mounted_endpoint =
  me_profile :: string
  me_operation :: api_operation
  me_enabled :: bool

definition mount_suffixes :: "(string \<times> api_operation) list" where
  "mount_suffixes =
     [(''chat/completions'', Generate Chat_Completions), (''responses'', Generate Responses),
      (''messages'', Generate Messages), (''models'', List_Models), (''providers'', List_Providers)]"

fun operation_enabled :: "api_binding_plan \<Rightarrow> api_operation \<Rightarrow> bool" where
  "operation_enabled binding (Generate e) = list_ex (\<lambda>i. i = operation_name e) (ab_endpoints binding)"
| "operation_enabled binding _ = True"

definition mount_path :: "string \<Rightarrow> string \<Rightarrow> string" where
  "mount_path path suffix = path @ ''/'' @ suffix"

definition mount_operation ::
  "string \<Rightarrow> api_binding_plan \<Rightarrow> string \<times> api_operation \<Rightarrow> (string, mounted_endpoint) bmap \<Rightarrow>
   ('e, 'u) build_error + (string, mounted_endpoint) bmap" where
  "mount_operation profile_id binding suffix mounts =
     (let path = mount_path (ab_path binding) (fst suffix);
          entry = \<lparr>me_profile = profile_id, me_operation = snd suffix,
                   me_enabled = operation_enabled binding (snd suffix)\<rparr>
      in (case bm_get mounts path of
            Some previous \<Rightarrow> Inl (Path_Owned_Twice path (me_profile previous) profile_id)
          | None \<Rightarrow> Inr (bm_insert path entry mounts)))"

definition mount_profile ::
  "string \<times> profile_plan \<Rightarrow> (string, mounted_endpoint) bmap \<Rightarrow>
   ('e, 'u) build_error + (string, mounted_endpoint) bmap" where
  "mount_profile entry mounts =
     (case pp_api_binding (snd entry) of
        None \<Rightarrow> Inr mounts
      | Some binding \<Rightarrow> res_fold (mount_operation (fst entry) binding) mount_suffixes mounts)"

definition new_mounts :: "gateway_plan \<Rightarrow> ('e, 'u) build_error + (string, mounted_endpoint) bmap" where
  "new_mounts plan = res_fold mount_profile (gp_profiles plan) []"

text \<open>Hexadecimal digits of escapes in upper case; nothing is decoded.\<close>

fun upper_escapes :: "string \<Rightarrow> string" where
  "upper_escapes (c # a # b # cs) =
     (if c = CHR ''%'' \<and> is_ascii_hexdigit a \<and> is_ascii_hexdigit b
      then c # to_ascii_uppercase a # to_ascii_uppercase b # upper_escapes cs
      else c # upper_escapes (a # b # cs))"
| "upper_escapes cs = cs"

definition canonical_path :: "string \<Rightarrow> string" where
  "canonical_path path = (if CHR ''%'' \<notin> set path then path else upper_escapes path)"

definition mounted_at :: "(string, mounted_endpoint) bmap \<Rightarrow> string \<Rightarrow> mounted_endpoint option" where
  "mounted_at mounts path = bm_get mounts (canonical_path path)"

section \<open>The runtime of the gateway\<close>

record 'e linked_runtimes =
  lr_profiles :: "(string, (provider, 'e) provider_destination profile_runtime) bmap"
  lr_discovery :: discovery_runtime
  lr_mounts :: "(string, mounted_endpoint) bmap"
  lr_pools :: "(string, provider pool_runtime) bmap"

definition build_http_client :: "(http_client \<Rightarrow> string option) \<Rightarrow> http_client \<Rightarrow> ('e, 'u) build_error + unit" where
  "build_http_client http_error client =
     (case http_error client of None \<Rightarrow> Inr () | Some e \<Rightarrow> Inl (Http_Error e))"

definition build_profile_runtimes ::
  "(string \<Rightarrow> cleartext_policy \<Rightarrow> 'u + string) \<Rightarrow> (string \<Rightarrow> string) \<Rightarrow> (http_client \<Rightarrow> string option) \<Rightarrow>
   (string \<Rightarrow> model_info list) \<Rightarrow> (string \<Rightarrow> model_info list) \<Rightarrow> (provider, 'e) registry \<Rightarrow> gateway_plan \<Rightarrow>
   account_config list \<Rightarrow> pipeline_mode \<Rightarrow> ('e, 'u) build_error + 'e linked_runtimes" where
  "build_profile_runtimes parse_url origin_of http_error zai defaults r plan accounts mode =
     res_bind (map_err Graph_Error (link_provider_graph parse_url plan accounts r)) (\<lambda>g.
     res_bind (map_err Pools_Error (link_account_pools plan g)) (\<lambda>linked_pools.
     res_bind (build_http_client http_error Managed_Http) (\<lambda>_.
     res_bind (build_http_client http_error Opaque_Http) (\<lambda>_.
     res_bind (map_err Dangling (new_discovery zai defaults plan g linked_pools r (\<lambda>_. empty_model_cache)
                 (reachable_profiles plan))) (\<lambda>discovery.
     res_bind (res_collect (\<lambda>i. res_map (Pair i)
                 (build_profile_runtime origin_of mode plan g (build_account_pool_runtimes linked_pools) i))
                 (reachable_profiles plan)) (\<lambda>profiles.
     res_map (\<lambda>mounts.
         \<lparr>lr_profiles = bm_of_list profiles, lr_discovery = discovery, lr_mounts = mounts,
          lr_pools = build_account_pool_runtimes linked_pools\<rparr>)
       (new_mounts plan)))))))"

section \<open>Selecting a profile\<close>

definition select_api_profile ::
  "(string, mounted_endpoint) bmap \<Rightarrow> (string, 'r) bmap \<Rightarrow> string \<Rightarrow> endpoint \<Rightarrow> api_error + 'r" where
  "select_api_profile mounts profiles path e =
     res_bind (ok_or (Api_Not_Found ''API path is not exposed'') (mounted_at mounts path)) (\<lambda>entry.
       if \<not> me_enabled entry \<or> me_operation entry \<noteq> Generate e
       then Inl (Api_Not_Found ''generation endpoint is disabled for this profile'')
       else ok_or (Api_Internal ''API mount references a missing profile'') (bm_get profiles (me_profile entry)))"

definition api_service_of :: "'d profile_runtime \<Rightarrow> api_error + request_service" where
  "api_service_of runtime =
     ok_or (Api_Internal ''selected profile cannot run on an LLM API listener'') (pr_api_service runtime)"

definition proxy_service_of :: "'d profile_runtime \<Rightarrow> api_error + request_service" where
  "proxy_service_of runtime =
     ok_or (Api_Internal ''selected profile cannot run on a forward-proxy listener'') (pr_proxy_service runtime)"

end
