(* ===== verification/Gateway_Serving.thy ===== *)
theory Gateway_Serving
  imports Gateway_Runtime
begin

text \<open>
  What building the runtime of a compiled plan gives: no reference is left unresolved, and
  every request that a listener accepts has a service which fits the profile it was sent to.
\<close>

section \<open>What a profile's runtime is for\<close>

fun service_pool :: "resolve_stage \<Rightarrow> string option" where
  "service_pool (Select_Account _ pool) = Some pool"
| "service_pool (Relay_To_Pool _ pool) = Some pool"
| "service_pool (Relay_To_Client _) = None"

fun send_pool :: "send_stage \<Rightarrow> string option" where
  "send_pool (Pool_Aware_Send _ pool) = Some pool"
| "send_pool (Proxy_Pool_Aware_Send _ pool) = Some pool"
| "send_pool (Proxy_Send _) = None"

fun forwards_client_auth :: "header_stage \<Rightarrow> bool" where
  "forwards_client_auth Provider_Default_Headers \<longleftrightarrow> False"
| "forwards_client_auth (Passthrough_Headers _ client_auth) \<longleftrightarrow> client_auth"

fun transform_impl :: "payload_transform \<Rightarrow> stage_impl" where
  "transform_impl Structured = Default_Impl"
| "transform_impl Opaque = Passthrough_Impl"

text \<open>
  A service fits a profile with its route: it takes accounts from the pool of the profile, and
  only there; the client's credentials are forwarded exactly when the route relies on them;
  bodies are converted exactly when the route is structured; retries are bounded.
\<close>

definition service_fits :: "(string, 'p) bmap \<Rightarrow> profile_plan \<Rightarrow> route_plan \<Rightarrow> request_service \<Rightarrow> bool" where
  "service_fits pools profile route sv \<longleftrightarrow>
     service_pool (sv_resolve sv) = pp_account_pool profile \<and>
     (case sv_send sv of None \<Rightarrow> True | Some send \<Rightarrow> send_pool send = pp_account_pool profile) \<and>
     (case service_pool (sv_resolve sv) of None \<Rightarrow> True | Some pool \<Rightarrow> known pools pool) \<and>
     (forwards_client_auth (sv_headers sv) \<longleftrightarrow> credential_policy_of route = Client_Credentials) \<and>
     sv_extract sv = transform_impl (request_transform route) \<and>
     sv_convert_request sv = transform_impl (request_transform route) \<and>
     (case sv_convert_response sv of None \<Rightarrow> True | Some impl \<Rightarrow> impl = transform_impl (response_transform route)) \<and>
     ry_max_retries (sv_retry sv) \<le> max_retries"

definition runtime_fits ::
  "gateway_plan \<Rightarrow> (string, 'p) bmap \<Rightarrow> string \<Rightarrow> 'd profile_runtime \<Rightarrow> bool" where
  "runtime_fits plan pools profile_id rt \<longleftrightarrow>
     (case bm_get (gp_profiles plan) profile_id of
        None \<Rightarrow> False
      | Some profile \<Rightarrow>
          (case bm_get (gp_routes plan) (pp_route profile) of
             None \<Rightarrow> False
           | Some route \<Rightarrow>
               pr_route_kind rt = kind_of_route route \<and> pr_credential_policy rt = credential_policy_of route \<and>
               (case pr_proxy_service rt of None \<Rightarrow> False | Some sv \<Rightarrow> service_fits pools profile route sv) \<and>
               (case pr_api_service rt of
                  None \<Rightarrow> pp_api_binding profile = None
                | Some sv \<Rightarrow> pp_api_binding profile \<noteq> None \<and> service_fits pools profile route sv)))"

text \<open>A failure that no configuration check can rule out.\<close>

fun external_failure :: "('e, 'u) build_error \<Rightarrow> bool" where
  "external_failure (Graph_Error _) \<longleftrightarrow> True"
| "external_failure (Pools_Error _) \<longleftrightarrow> True"
| "external_failure (Http_Error _) \<longleftrightarrow> True"
| "external_failure (Origin_Claimed_Twice _ _ _) \<longleftrightarrow> True"
| "external_failure (Dangling _) \<longleftrightarrow> False"
| "external_failure (Header_Patches _) \<longleftrightarrow> False"
| "external_failure (Path_Owned_Twice _ _ _) \<longleftrightarrow> False"

section \<open>Folds and collections\<close>

lemma res_fold_append: "res_fold f (xs @ ys) s = res_bind (res_fold f xs s) (res_fold f ys)"
  by (induction xs arbitrary: s) (auto simp: res_bind_def split: sum.splits)

lemma res_bind_error: "res_bind r f = Inl e \<longleftrightarrow> r = Inl e \<or> (\<exists>x. r = Inr x \<and> f x = Inl e)"
  by (cases r) auto

lemma res_map_error: "res_map f r = Inl e \<longleftrightarrow> r = Inl e"
  by (cases r) auto

lemma ok_or_error: "ok_or e x = Inl e' \<longleftrightarrow> x = None \<and> e' = e"
  by (cases x) auto

lemma map_err_error: "map_err f r = Inl e \<longleftrightarrow> (\<exists>e'. r = Inl e' \<and> e = f e')"
  by (cases r) auto

lemmas error_simps = res_bind_error res_map_error ok_or_error map_err_error

lemma res_fold_error:
  assumes "res_fold f xs s = Inl e"
  shows "\<exists>x \<in> set xs. \<exists>s. f x s = Inl e"
  using assms by (induction xs arbitrary: s) (auto simp: res_bind_error)

lemma res_collect_error: "res_collect f xs = Inl e \<Longrightarrow> \<exists>x \<in> set xs. f x = Inl e"
  by (induction f xs rule: res_collect.induct) (auto simp: error_simps)

lemma collected_lookup:
  assumes "res_collect (\<lambda>i. res_map (Pair i) (f i)) is = Inr ps"
  shows "map_of (rev ps) i = (if i \<in> set is then (case f i of Inr v \<Rightarrow> Some v | Inl _ \<Rightarrow> None) else None)"
  using assms
proof (induction "is" arbitrary: ps)
  case (Cons j js)
  then obtain w qs where w: "f j = Inr w" and qs: "res_collect (\<lambda>i. res_map (Pair i) (f i)) js = Inr qs"
    and ps: "ps = (j, w) # qs" by auto
  show ?case using Cons.IH [OF qs] w by (auto simp: ps map_add_def split: option.splits)
qed simp

lemma collected_get:
  assumes "res_collect (\<lambda>i. res_map (Pair i) (f i)) is = Inr ps"
  shows "bm_get (bm_of_list ps) i = Some v \<longleftrightarrow> i \<in> set is \<and> f i = Inr v"
  unfolding bm_get_of_list collected_lookup [OF assms] by (auto split: sum.splits)

section \<open>What linking gives\<close>

definition linked_plan ::
  "gateway_plan \<Rightarrow> ('p, 'e) registry \<Rightarrow> ('p, 'e) provider_graph \<Rightarrow> (string, 'q) bmap \<Rightarrow> bool" where
  "linked_plan plan r g pools \<longleftrightarrow>
     plan_closed plan \<and>
     (\<forall>p. known (gp_providers plan) p \<longleftrightarrow> graph_destination g p \<noteq> None) \<and>
     (\<forall>p provider. bm_get (gp_providers plan) p = Some provider \<longrightarrow>
        resolve_provider_descriptor r p (vp_driver provider) \<noteq> None) \<and>
     (\<forall>i. known (gp_account_pools plan) i \<longrightarrow> known pools i)"

lemma list_all_get: "list_all (\<lambda>(_, v). P v) m \<Longrightarrow> bm_get m k = Some v \<Longrightarrow> P v"
  using bm_get_in [of m k v] unfolding list_all_iff by blast

lemma plan_closed_parts:
  assumes "plan_closed plan"
  shows "bm_ok (gp_providers plan)" "bm_ok (gp_account_pools plan)" "bm_ok (gp_profiles plan)"
    "distinct (api_paths plan)"
    and "bm_get (gp_profiles plan) i = Some profile \<Longrightarrow> profile_closed (gp_routes plan) (gp_account_pools plan) profile"
    and "bm_get (gp_routes plan) j = Some route \<Longrightarrow> route_closed (gp_providers plan) (gp_retry_policies plan) route"
    and "bm_get (gp_retry_policies plan) k = Some policy \<Longrightarrow> retry_in_range policy"
    and "bm_get (gp_listeners plan) l = Some listener \<Longrightarrow> listener_closed (gp_profiles plan) listener"
proof -
  note c = assms [unfolded plan_closed_def]
  show "bm_ok (gp_providers plan)" "bm_ok (gp_account_pools plan)" "bm_ok (gp_profiles plan)"
    "distinct (api_paths plan)" using c by blast+
  from c have profiles: "list_all (\<lambda>(_, p). profile_closed (gp_routes plan) (gp_account_pools plan) p) (gp_profiles plan)"
    and routes: "list_all (\<lambda>(_, r). route_closed (gp_providers plan) (gp_retry_policies plan) r) (gp_routes plan)"
    and policies: "list_all (\<lambda>(_, p). retry_in_range p) (gp_retry_policies plan)"
    and listeners: "list_all (\<lambda>(_, l). listener_closed (gp_profiles plan) l) (gp_listeners plan)" by blast+
  show "profile_closed (gp_routes plan) (gp_account_pools plan) profile"
    if "bm_get (gp_profiles plan) i = Some profile" by (rule list_all_get [OF profiles that])
  show "route_closed (gp_providers plan) (gp_retry_policies plan) route"
    if "bm_get (gp_routes plan) j = Some route" by (rule list_all_get [OF routes that])
  show "retry_in_range policy"
    if "bm_get (gp_retry_policies plan) k = Some policy" by (rule list_all_get [OF policies that])
  show "listener_closed (gp_profiles plan) listener"
    if "bm_get (gp_listeners plan) l = Some listener" by (rule list_all_get [OF listeners that])
qed

lemma known_iff: "known m k \<longleftrightarrow> k \<in> fst ` set m"
  by (simp add: known_def bm_get_None_iff)

lemma link_destination_driver:
  "link_destination parse_url r address p provider = Inr d \<Longrightarrow>
     resolve_provider_descriptor r p (vp_driver provider) \<noteq> None"
  by (rule ccontr) (simp add: link_destination_def Let_def)

lemma linked_destinations:
  assumes g: "link_provider_graph parse_url plan accounts r = (Inr g :: ('e, 'u) link_error + _)"
    and ok: "bm_ok (gp_providers plan)"
  shows "known (gp_providers plan) p \<longleftrightarrow> graph_destination g p \<noteq> None"
    and "bm_get (gp_providers plan) p = Some provider \<Longrightarrow> resolve_provider_descriptor r p (vp_driver provider) \<noteq> None"
proof -
  show "known (gp_providers plan) p \<longleftrightarrow> graph_destination g p \<noteq> None"
  proof (cases "position_of (\<lambda>(q, _). q = p) (gp_providers plan)")
    case None
    then have "p \<notin> fst ` set (gp_providers plan)" unfolding position_of_None by auto
    moreover have "graph_destination g p = None" using linked_destination(1) [OF g ok, of p] None by simp
    ultimately show ?thesis by (simp add: known_iff)
  next
    case (Some k)
    then have k: "k < length (gp_providers plan)" "fst (gp_providers plan ! k) = p"
      by (auto simp: position_of_Some split: prod.splits)
    with linked_destination(2) [OF g ok, of k]
    obtain d where "link_destination parse_url r k p (snd (gp_providers plan ! k)) = (Inr d :: ('e, 'u) link_error + _)"
      by auto
    then have "graph_destination g p = Some d" using linked_destination(1) [OF g ok, of p] Some by simp
    moreover have "p \<in> fst ` set (gp_providers plan)" using k by (metis image_eqI nth_mem)
    ultimately show ?thesis by (simp add: known_iff)
  qed
  assume "bm_get (gp_providers plan) p = Some provider"
  then have "(p, provider) \<in> set (gp_providers plan)" by (rule bm_get_in)
  then obtain k where "k < length (gp_providers plan)" "gp_providers plan ! k = (p, provider)"
    by (auto simp: in_set_conv_nth)
  with linked_destination(2) [OF g ok, of k]
  show "resolve_provider_descriptor r p (vp_driver provider) \<noteq> None"
    by (auto dest: link_destination_driver)
qed

lemma linked_plan_holds:
  assumes "plan_closed plan" "link_provider_graph parse_url plan accounts r = (Inr g :: ('e, 'u) link_error + _)"
    and "link_account_pools plan g = Inr pools"
  shows "linked_plan plan r g pools" "linked_plan plan r g (build_account_pool_runtimes pools)"
proof -
  note ok = plan_closed_parts [OF assms(1)]
  have pool: "known pools i" if known: "known (gp_account_pools plan) i" for i
  proof -
    from known obtain pp where pp: "bm_get (gp_account_pools plan) i = Some pp" by (auto simp: known_def)
    then have "(i, pp) \<in> set (gp_account_pools plan)" by (rule bm_get_in)
    with assms(3) linked_pool_exists [of g "gp_account_pools plan" "[]"] obtain p where "link_pool g i pp = Inr p"
      unfolding link_account_pools_def by fastforce
    with pp linked_pools_get(2) [OF assms(3) ok(2), of i p] show ?thesis by (auto simp: known_def)
  qed
  then show "linked_plan plan r g pools"
    unfolding linked_plan_def using assms(1) linked_destinations [OF assms(2) ok(1)] by blast
  have "known (build_account_pool_runtimes pools) i" if "known pools i" for i
    using that unfolding known_iff build_account_pool_runtimes_def keys_bm_of_list by force
  with pool show "linked_plan plan r g (build_account_pool_runtimes pools)"
    unfolding linked_plan_def using assms(1) linked_destinations [OF assms(2) ok(1)] by blast
qed

section \<open>The services of a profile\<close>

lemma retry_policy_found:
  assumes "plan_closed plan" "known (gp_retry_policies plan) p"
  shows "\<exists>ry. (retry_policy_of plan p safe :: ('e, 'u) build_error + _) = Inr ry \<and> ry_max_retries ry \<le> max_retries"
proof -
  from assms(2) obtain policy where policy: "bm_get (gp_retry_policies plan) p = Some policy" by (auto simp: known_def)
  from plan_closed_parts(7) [OF assms(1) this] have "rp_max_retries policy \<le> max_retries"
    by (simp add: retry_in_range_def)
  then show ?thesis
    by (simp add: retry_policy_of_def policy safe_methods_def new_retry_policy_def)
qed

lemma managed_retry_found:
  assumes "plan_closed plan" "route_closed (gp_providers plan) (gp_retry_policies plan) (Managed r)"
  shows "\<exists>ry. (managed_retry_policy plan (mr_retry r) :: ('e, 'u) build_error + _) = Inr ry \<and> ry_max_retries ry \<le> max_retries"
proof (cases "mr_retry r")
  case (Recoverable p)
  with assms(2) have "known (gp_retry_policies plan) p" by (simp add: route_closed_def retry_reference_def)
  with retry_policy_found [OF assms(1)] Recoverable show ?thesis by simp
qed (simp add: default_retry_policy_def)

lemma relay_retry_found:
  assumes "plan_closed plan" "route_closed (gp_providers plan) (gp_retry_policies plan) (Relay r)"
  shows "\<exists>ry. (relay_retry_policy plan (rr_retry r) :: ('e, 'u) build_error + _) = Inr ry \<and> ry_max_retries ry \<le> max_retries"
proof (cases "rr_retry r")
  case (Safe_Methods p)
  with assms(2) have "known (gp_retry_policies plan) p" by (simp add: route_closed_def retry_reference_def)
  with retry_policy_found [OF assms(1)] Safe_Methods show ?thesis by simp
next
  case (Buffered p)
  with assms(2) have "known (gp_retry_policies plan) p" by (simp add: route_closed_def retry_reference_def)
  with retry_policy_found [OF assms(1)] Buffered show ?thesis by simp
qed (simp add: default_retry_policy_def)

lemma linked_plan_closed: "linked_plan plan r g pools \<Longrightarrow> plan_closed plan"
  by (simp add: linked_plan_def)

lemma linked_pool_known: "linked_plan plan r g pools \<Longrightarrow> known (gp_account_pools plan) i \<Longrightarrow> known pools i"
  by (simp add: linked_plan_def)

text \<open>What a closed profile has for its route.\<close>

lemma profile_pool_cases:
  assumes "profile_closed routes pools profile" "bm_get routes (pp_route profile) = Some route"
  shows "credential_policy_of route = Account_Credentials \<Longrightarrow> \<exists>pool. pp_account_pool profile = Some pool \<and> known pools pool"
    and "credential_policy_of route = Client_Credentials \<Longrightarrow> pp_account_pool profile = None"
    and "pp_api_binding profile = None \<longleftrightarrow> destination_policy_of route = Original_Destination"
  using assms by (auto simp: profile_closed_def split: option.splits)

lemma account_selector_found:
  assumes "bm_get (gp_profiles plan) i = Some profile" "pp_account_pool profile = Some pool" "known pools pool"
  shows "account_selector_of plan i pools = Inr (pp_route profile, pool)"
  using assms by (auto simp: account_selector_of_def known_def)

lemma service_of_fits:
  assumes "service_pool chooser = pp_account_pool profile" "send_pool send = pp_account_pool profile"
    and "\<And>pool. pp_account_pool profile = Some pool \<Longrightarrow> known pools pool"
    and "forwards_client_auth headers \<longleftrightarrow> credential_policy_of route = Client_Credentials"
    and "impl = transform_impl (request_transform route)" "ry_max_retries ry \<le> max_retries"
  shows "service_fits pools profile route (service_of mode name impl chooser headers send ry)"
  using assms
  by (cases mode; cases "pp_account_pool profile")
     (auto simp: service_fits_def service_of_def response_transform_def)

lemma managed_services_fit:
  assumes linked: "linked_plan plan r g pools"
    and profile: "bm_get (gp_profiles plan) i = Some profile"
    and route: "bm_get (gp_routes plan) (pp_route profile) = Some (Managed m)"
  shows "\<exists>sv. (managed_services mode i m plan pools :: ('e, 'u) build_error + 'd linked_services) =
      Inr (Some sv, Some sv, None, Managed_Upstream) \<and>
    service_fits pools profile (Managed m) sv \<and> pp_api_binding profile \<noteq> None"
proof -
  note closed = linked_plan_closed [OF linked]
  note p = plan_closed_parts(5) [OF closed profile]
  note rc = plan_closed_parts(6) [OF closed route]
  from managed_retry_found [OF closed rc]
  obtain ry where ry: "(managed_retry_policy plan (mr_retry m) :: ('e, 'u) build_error + _) = Inr ry" "ry_max_retries ry \<le> max_retries"
    by blast
  from profile_pool_cases(1) [OF p route] linked_pool_known [OF linked]
  obtain pool where pool: "pp_account_pool profile = Some pool" "known pools pool" by auto
  have "mr_header_patches m = None" using rc by (simp add: route_closed_def)
  moreover have "(account_selector_of plan i pools :: ('e, 'u) build_error + _) = Inr (pp_route profile, pool)"
    by (rule account_selector_found [OF profile pool])
  moreover have "pp_api_binding profile \<noteq> None" using profile_pool_cases(3) [OF p route] by simp
  ultimately show ?thesis
    using ry pool by (auto simp: managed_services_def Let_def intro!: service_of_fits)
qed

text \<open>Origins of known providers: only a clash is left to fail.\<close>

lemma restricted_origins_external:
  assumes "linked_plan plan r g pools" "\<forall>p \<in> set eligible. known (gp_providers plan) p"
    and "restricted_provider_origins origin_of plan g eligible = Inl e"
  shows "external_failure e"
proof -
  from res_fold_error [OF assms(3) [unfolded restricted_provider_origins_def]]
  obtain p origins where p: "p \<in> set eligible" and e:
    "res_bind (ok_or (Dangling (No_Provider p)) (bm_get (gp_providers plan) p)) (\<lambda>provider.
         res_bind (ok_or (Dangling (No_Target p)) (graph_target g p)) (\<lambda>target.
           res_fold (claim_proxy_origin p) (claimed_origins origin_of provider target) origins)) = Inl e"
    by blast
  from p assms(2) have known: "known (gp_providers plan) p" by blast
  with assms(1) have "graph_target g p \<noteq> None" by (simp add: linked_plan_def graph_target_def)
  with known e obtain provider target where
    "res_fold (claim_proxy_origin p) (claimed_origins origin_of provider target) origins = Inl e"
    by (auto simp: known_def)
  from res_fold_error [OF this] show ?thesis
    by (auto simp: claim_proxy_origin_def split: option.splits)
qed

lemma provider_origins_external:
  assumes "linked_plan plan r g pools" "known (gp_account_pools plan) pool"
    and "provider_origins origin_of plan g pools pool route = Inl e"
  shows "external_failure e"
proof -
  from assms(2) linked_pool_known [OF assms(1,2)] assms(3) obtain pp rt where
    "restricted_provider_origins origin_of plan g (eligible_providers plan rt pp route) = Inl e"
    by (auto simp: provider_origins_def known_def)
  then show ?thesis
    by (rule restricted_origins_external [OF assms(1), rotated])
       (auto simp: eligible_providers_def bm_keys_def known_iff)
qed

definition external_or :: "('a \<Rightarrow> bool) \<Rightarrow> ('e, 'u) build_error + 'a \<Rightarrow> bool" where
  "external_or good result \<longleftrightarrow> (case result of Inl e \<Rightarrow> external_failure e | Inr x \<Rightarrow> good x)"

lemma external_or_Inr [simp]: "external_or good (Inr x) = good x"
  by (simp add: external_or_def)

lemma external_or_map [simp]: "external_or good (res_map f result) = external_or (good \<circ> f) result"
  by (cases result) (simp_all add: external_or_def)

lemma external_or_bind:
  assumes "external_or good result" "\<And>x. good x \<Longrightarrow> external_or good' (f x)"
  shows "external_or good' (res_bind result f)"
  using assms by (cases result) (simp_all add: external_or_def)

lemma external_or_mono:
  "external_or good result \<Longrightarrow> (\<And>x. good x \<Longrightarrow> good' x) \<Longrightarrow> external_or good' result"
  by (cases result) (simp_all add: external_or_def)

lemma relay_with_accounts_fits:
  assumes linked: "linked_plan plan r g pools"
    and profile: "bm_get (gp_profiles plan) i = Some profile"
    and route: "bm_get (gp_routes plan) (pp_route profile) = Some (Relay m)"
    and pool: "rr_credentials m = From_Pool" and ry: "ry_max_retries ry \<le> max_retries"
  shows "external_or (service_fits pools profile (Relay m)) (relay_with_accounts origin_of i m plan g pools ry :: ('e, 'u) build_error + _)"
proof -
  note p = plan_closed_parts(5) [OF linked_plan_closed [OF linked] profile]
  from profile_pool_cases(1) [OF p route] pool linked_pool_known [OF linked]
  obtain q where q: "pp_account_pool profile = Some q" "known (gp_account_pools plan) q" "known pools q" by auto
  from q(3) obtain rt where rt: "bm_get pools q = Some rt" by (auto simp: known_def)
  have fit: "service_fits pools profile (Relay m)
      (service_of mode name Passthrough_Impl (Relay_To_Pool target q) headers (Proxy_Pool_Aware_Send Opaque_Http q) ry)"
    if "\<not> forwards_client_auth headers" for mode name target headers
    using q pool ry that by (intro service_of_fits) auto
  have "external_or (\<lambda>_. True) (case rr_destination m of
      To_Provider _ \<Rightarrow> Inr [] | Original \<Rightarrow> provider_origins origin_of plan g pools q (Relay m))"
    using provider_origins_external [OF linked q(2)]
    by (auto simp: external_or_def split: relay_destination.splits sum.splits)
  then show ?thesis
    unfolding relay_with_accounts_def profile q(1) route ok_or_simps res_bind_Inr
    by (rule external_or_bind)
       (auto simp: proxy_selector_of_def rt comp_def router_auth_headers_def preserve_host_with_router_auth_def
         split: relay_destination.splits intro!: fit)
qed

lemma relay_with_client_fits:
  assumes linked: "linked_plan plan r g pools"
    and profile: "bm_get (gp_profiles plan) i = Some profile"
    and route: "bm_get (gp_routes plan) (pp_route profile) = Some (Relay m)"
    and client: "rr_credentials m = Client" and ry: "ry_max_retries ry \<le> max_retries"
  shows "external_or (service_fits pools profile (Relay m)) (relay_with_client origin_of i m plan g ry :: ('e, 'u) build_error + _)"
proof -
  note closed = linked_plan_closed [OF linked]
  note p = plan_closed_parts(5) [OF closed profile]
  have none: "pp_account_pool profile = None" using profile_pool_cases(2) [OF p route] client by simp
  have fit: "service_fits pools profile (Relay m)
      (service_of mode name Passthrough_Impl (Relay_To_Client c) headers (Proxy_Send Opaque_Http) ry)"
    if "forwards_client_auth headers" for mode name c headers
    using none client ry that by (intro service_of_fits) auto
  have "\<forall>q \<in> set ids. known (gp_providers plan) q" if "rr_providers m = Some ids" for ids
    using plan_closed_parts(6) [OF closed route] that
    by (auto simp: route_closed_def provider_references_def list_all_iff)
  then have "external_or (\<lambda>_. True) (restricted_provider_origins origin_of plan g ids :: ('e, 'u) build_error + _)" if "rr_providers m = Some ids" for ids
    using restricted_origins_external [OF linked] that by (auto simp: external_or_def split: sum.splits)
  then show ?thesis
    unfolding relay_with_client_def profile route ok_or_simps res_bind_Inr external_or_map comp_def
    by (auto simp: comp_def passthrough_headers_def preserve_host_headers_def
        split: relay_destination.splits option.splits intro!: fit elim!: external_or_mono)
qed

lemma relay_services_fit:
  assumes linked: "linked_plan plan r g pools"
    and profile: "bm_get (gp_profiles plan) i = Some profile"
    and route: "bm_get (gp_routes plan) (pp_route profile) = Some (Relay m)"
  shows "external_or (\<lambda>(api, proxy, _, _).
      (case proxy of None \<Rightarrow> False | Some sv \<Rightarrow> service_fits pools profile (Relay m) sv) \<and>
      (case api of None \<Rightarrow> pp_api_binding profile = None
       | Some sv \<Rightarrow> pp_api_binding profile \<noteq> None \<and> service_fits pools profile (Relay m) sv))
    (relay_services origin_of mode i m plan g pools :: ('e, 'u) build_error + _)"
proof -
  note closed = linked_plan_closed [OF linked]
  note p = plan_closed_parts(5) [OF closed profile]
  note rc = plan_closed_parts(6) [OF closed route]
  from relay_retry_found [OF closed rc] obtain ry where
    ry: "(relay_retry_policy plan (rr_retry m) :: ('e, 'u) build_error + _) = Inr ry" "ry_max_retries ry \<le> max_retries"
    by blast
  have patches: "rr_header_patches m = None" using rc by (simp add: route_closed_def)
  have proxy: "external_or (service_fits pools profile (Relay m))
      (build_proxy_relay_service origin_of i m plan g pools :: ('e, 'u) build_error + _)"
  proof (cases "rr_credentials m")
    case From_Pool
    then show ?thesis
      unfolding build_proxy_relay_service_def ry(1) res_bind_Inr
      using relay_with_accounts_fits [OF linked profile route From_Pool ry(2)] by simp
  next
    case Client
    then show ?thesis
      unfolding build_proxy_relay_service_def ry(1) res_bind_Inr
      using relay_with_client_fits [OF linked profile route Client ry(2)] by simp
  qed
  have destination: "external_or (\<lambda>_. True) (linked_destination m g :: ('e, 'u) build_error + _)"
  proof (cases "rr_destination m")
    case (To_Provider q)
    then have "known (gp_providers plan) q"
      using rc by (simp add: route_closed_def provider_references_def fixed_destination_def)
    then have "graph_destination g q \<noteq> None" using linked by (simp add: linked_plan_def)
    with To_Provider show ?thesis by (auto simp: linked_destination_def)
  qed (simp add: linked_destination_def)
  have api: "external_or (\<lambda>(api, _). case api of None \<Rightarrow> pp_api_binding profile = None
       | Some sv \<Rightarrow> pp_api_binding profile \<noteq> None \<and> service_fits pools profile (Relay m) sv)
      (relay_api_service mode i m plan pools ry d :: ('e, 'u) build_error + _)" for d
  proof (cases "rr_destination m")
    case Original
    then show ?thesis using profile_pool_cases(3) [OF p route] by (simp add: relay_api_service_def)
  next
    case (To_Provider q)
    then have binding: "pp_api_binding profile \<noteq> None" using profile_pool_cases(3) [OF p route] by simp
    show ?thesis
    proof (cases "rr_credentials m")
      case Client
      with profile_pool_cases(2) [OF p route] have "pp_account_pool profile = None" by simp
      with Client To_Provider binding ry(2) show ?thesis
        by (auto simp: relay_api_service_def passthrough_headers_def intro!: service_of_fits)
    next
      case From_Pool
      with profile_pool_cases(1) [OF p route] linked_pool_known [OF linked]
      obtain pool where pool: "pp_account_pool profile = Some pool" "known pools pool" by auto
      have "(account_selector_of plan i pools :: ('e, 'u) build_error + _) = Inr (pp_route profile, pool)"
        by (rule account_selector_found [OF profile pool])
      with From_Pool To_Provider binding ry(2) pool show ?thesis
        by (auto simp: relay_api_service_def router_auth_headers_def intro!: service_of_fits)
    qed
  qed
  show ?thesis
    unfolding relay_services_def ry(1) res_bind_Inr
    using patches
    by (auto intro!: external_or_bind [OF proxy] external_or_bind [OF destination] external_or_mono [OF api])
qed

lemma profile_runtime_fits:
  assumes linked: "linked_plan plan r g pools" and known: "known (gp_profiles plan) i"
  shows "external_or (runtime_fits plan pools i)
    (build_profile_runtime origin_of mode plan g pools i :: ('e, 'u) build_error + _)"
proof -
  from known obtain profile where profile: "bm_get (gp_profiles plan) i = Some profile" by (auto simp: known_def)
  from plan_closed_parts(5) [OF linked_plan_closed [OF linked] profile]
  obtain route where route: "bm_get (gp_routes plan) (pp_route profile) = Some route"
    by (auto simp: profile_closed_def split: option.splits)
  show ?thesis
  proof (cases route)
    case (Managed m)
    from managed_services_fit [OF linked profile route [unfolded Managed]]
    obtain sv where sv:
      "(managed_services mode i m plan pools :: ('e, 'u) build_error + (provider, 'e) provider_destination linked_services) =
        Inr (Some sv, Some sv, None, Managed_Upstream)"
      "service_fits pools profile (Managed m) sv" "pp_api_binding profile \<noteq> None" by blast
    then show ?thesis
      by (simp add: build_profile_runtime_def profile route Managed sv(1) runtime_fits_def)
  next
    case (Relay m)
    show ?thesis
      unfolding build_profile_runtime_def profile route Relay ok_or_simps res_bind_Inr route_plan.case external_or_map
      by (rule external_or_mono [OF relay_services_fit [OF linked profile route [unfolded Relay]]])
         (auto simp: runtime_fits_def profile route Relay)
  qed
qed

section \<open>Discovery\<close>

lemma profile_pool_found:
  assumes "pp_account_pool profile = Some pool" "known pools pool"
  shows "\<exists>p. profile_pool pools i profile = Inr p"
  using assms by (auto simp: profile_pool_def known_def)

lemma profile_discovery_found:
  assumes linked: "linked_plan plan r g pools" and known: "known (gp_profiles plan) i"
  shows "\<exists>d. profile_discovery_of plan pools i = Inr d"
proof -
  from known obtain profile where profile: "bm_get (gp_profiles plan) i = Some profile" by (auto simp: known_def)
  note p = plan_closed_parts(5) [OF linked_plan_closed [OF linked] profile]
  then obtain route where route: "bm_get (gp_routes plan) (pp_route profile) = Some route"
    by (auto simp: profile_closed_def split: option.splits)
  have pool: "\<exists>q. profile_pool pools i profile = Inr q" if "credential_policy_of route = Account_Credentials"
    using profile_pool_cases(1) [OF p route that] linked_pool_known [OF linked] by (auto intro: profile_pool_found)
  have "\<exists>x. discovered_providers pools i profile route = Inr x"
  proof (cases route)
    case (Managed m)
    with pool show ?thesis by (auto simp: discovered_providers_def)
  next
    case (Relay m)
    with pool show ?thesis
      by (cases "rr_destination m"; cases "rr_credentials m") (auto simp: discovered_providers_def)
  qed
  then show ?thesis by (auto simp: profile_discovery_of_def profile route)
qed

lemma destination_entry: "(p, d) \<in> set (pg_destinations g) \<Longrightarrow> graph_destination g p \<noteq> None"
  unfolding graph_destination_def bm_get_None_iff by (metis fst_conv imageI)

lemma discovery_found:
  assumes linked: "linked_plan plan r g pools" and known: "\<forall>i \<in> set reachable. known (gp_profiles plan) i"
  shows "\<exists>d. new_discovery zai defaults plan g pools r caches reachable = Inr d"
proof (rule ccontr)
  assume "\<not> ?thesis"
  then obtain e where "new_discovery zai defaults plan g pools r caches reachable = Inl e"
    by (cases "new_discovery zai defaults plan g pools r caches reachable") auto
  then consider p d where "(p, d) \<in> set (pg_destinations g)" "provider_metadata_of zai defaults plan r g p d = Inl e"
    | i where "i \<in> set reachable" "profile_discovery_of plan pools i = Inl e"
    unfolding new_discovery_def error_simps
    by (auto dest!: res_collect_error simp: error_simps)
  then show False
  proof cases
    case 1
    have "known (gp_providers plan) p" using linked destination_entry [OF 1(1)] by (simp add: linked_plan_def)
    then obtain provider where "bm_get (gp_providers plan) p = Some provider" by (auto simp: known_def)
    moreover from this linked have "resolve_provider_descriptor r p (vp_driver provider) \<noteq> None"
      unfolding linked_plan_def by blast
    ultimately show False using 1(2) by (auto simp: provider_metadata_of_def error_simps)
  next
    case 2
    then show False using profile_discovery_found [OF linked, of i] known by auto
  qed
qed

section \<open>Reachable profiles\<close>

lemma collect_profile_set:
  "set (collect_profile action ps) = {i. action = Route_To i} \<union> set ps"
  by (auto simp: collect_profile_def bs_of_list_def split: http_action.splits)

lemma collect_profiles_set:
  "set (fold collect_profile actions ps) = {i. Route_To i \<in> set actions} \<union> set ps"
  by (induction actions arbitrary: ps) (auto simp: collect_profile_set)

definition routed_to :: "listener_plan \<Rightarrow> string \<Rightarrow> bool" where
  "routed_to listener i \<longleftrightarrow>
     (case listener of
        Llm_Api _ \<Rightarrow> False
      | Forward_Proxy l \<Rightarrow> fp_default_http_action l = Route_To i \<or> Route_To i \<in> hb_action ` set (fp_http_bindings l))"

lemma collect_listener_set: "set (collect_listener l ps) = {i. routed_to l i} \<union> set ps"
  by (auto simp: collect_listener_def routed_to_def collect_profiles_set collect_profile_set split: listener_plan.splits)

lemma collect_listeners_set:
  "set (fold collect_listener ls ps) = {i. \<exists>l \<in> set ls. routed_to l i} \<union> set ps"
  by (induction ls arbitrary: ps) (auto simp: collect_listener_set)

lemma reachable_profiles_set:
  "i \<in> set (reachable_profiles plan) \<longleftrightarrow>
     (\<exists>(_, l) \<in> set (gp_listeners plan). routed_to l i) \<or>
     (\<exists>p. (i, p) \<in> set (gp_profiles plan) \<and> pp_api_binding p \<noteq> None)"
  by (force simp: reachable_profiles_def bs_of_list_def collect_listeners_set bm_values_def)

lemma routed_known:
  assumes "listener_closed profiles l" "routed_to l i"
  shows "known profiles i"
proof (cases l)
  case (Forward_Proxy f)
  with assms(2) have "fp_default_http_action f = Route_To i \<or> (\<exists>b \<in> set (fp_http_bindings f). hb_action b = Route_To i)"
    by (auto simp: routed_to_def)
  with assms(1) Forward_Proxy show ?thesis
    by (auto simp: list_all_iff)
qed (use assms(2) in \<open>simp add: routed_to_def\<close>)

lemma reachable_known:
  assumes closed: "plan_closed plan" and "i \<in> set (reachable_profiles plan)"
  shows "known (gp_profiles plan) i"
  using assms(2) unfolding reachable_profiles_set
proof
  assume "\<exists>(_, l) \<in> set (gp_listeners plan). routed_to l i"
  then obtain k l where l: "(k, l) \<in> set (gp_listeners plan)" "routed_to l i" by blast
  have "listener_closed (gp_profiles plan) l" using closed l(1) by (auto simp: plan_closed_def list_all_iff)
  then show ?thesis using l(2) by (rule routed_known)
qed (force simp: known_iff)

section \<open>Mounts\<close>

text \<open>All mounts of a plan, as one list.\<close>

definition mount_of :: "string \<Rightarrow> api_binding_plan \<Rightarrow> string \<times> api_operation \<Rightarrow> string \<times> mounted_endpoint" where
  "mount_of i binding suffix =
     (mount_path (ab_path binding) (fst suffix),
      \<lparr>me_profile = i, me_operation = snd suffix, me_enabled = operation_enabled binding (snd suffix)\<rparr>)"

definition profile_mounts :: "string \<times> profile_plan \<Rightarrow> (string \<times> mounted_endpoint) list" where
  "profile_mounts entry =
     (case pp_api_binding (snd entry) of None \<Rightarrow> [] | Some binding \<Rightarrow> map (mount_of (fst entry) binding) mount_suffixes)"

definition all_mounts :: "gateway_plan \<Rightarrow> (string \<times> mounted_endpoint) list" where
  "all_mounts plan = concat (map profile_mounts (gp_profiles plan))"

text \<open>The last segment of a path.\<close>

definition last_segment :: "string \<Rightarrow> string" where
  "last_segment path = takeWhile (\<lambda>c. c \<noteq> CHR ''/'') (rev path)"

lemma last_segment_mount:
  "(s, oper) \<in> set mount_suffixes \<Longrightarrow> last_segment (mount_path p s) = last_segment s"
  by (auto simp: mount_suffixes_def last_segment_def mount_path_def)

lemma suffix_of_segment:
  assumes "(s, oper) \<in> set mount_suffixes" "(t, oper') \<in> set mount_suffixes" "last_segment s = last_segment t"
  shows "s = t"
  using assms by (auto simp: mount_suffixes_def last_segment_def)

lemma mount_path_inject:
  assumes "(s, oper) \<in> set mount_suffixes" "(t, oper') \<in> set mount_suffixes" "mount_path p s = mount_path q t"
  shows "p = q \<and> s = t"
proof -
  have "last_segment s = last_segment t"
    using last_segment_mount [OF assms(1), of p] last_segment_mount [OF assms(2), of q] assms(3) by simp
  then have "s = t" by (rule suffix_of_segment [OF assms(1,2)])
  with assms(3) show ?thesis by (simp add: mount_path_def)
qed

lemma distinct_suffixes: "distinct (map fst mount_suffixes)"
  by (simp add: mount_suffixes_def)

lemma suffix_operation:
  "(s, oper) \<in> set mount_suffixes \<Longrightarrow> (s, oper') \<in> set mount_suffixes \<Longrightarrow> oper = oper'"
  using distinct_suffixes by (metis eq_key_imp_eq_value)

lemma profile_mount_keys:
  "map fst (profile_mounts (i, p)) =
     (case pp_api_binding p of None \<Rightarrow> [] | Some b \<Rightarrow> map (mount_path (ab_path b)) (map fst mount_suffixes))"
  by (simp add: profile_mounts_def mount_of_def comp_def split: option.split)

lemma all_mounts_distinct:
  assumes "distinct (filter_map (\<lambda>(_, p). map_option ab_path (pp_api_binding p)) ps)"
  shows "distinct (map fst (concat (map profile_mounts ps)))"
  using assms
proof (induction ps)
  case (Cons entry ps)
  obtain i p where entry: "entry = (i, p)" by (cases entry)
  show ?case
  proof (cases "pp_api_binding p")
    case None
    with Cons show ?thesis by (simp add: entry profile_mounts_def)
  next
    case (Some b)
    have own: "distinct (map fst (profile_mounts entry))"
      using distinct_suffixes by (auto simp: entry profile_mount_keys Some distinct_map inj_on_def mount_path_def)
    have other: "(case pp_api_binding q of None \<Rightarrow> True | Some c \<Rightarrow> ab_path c \<noteq> ab_path b)"
      if "(j, q) \<in> set ps" for j q
      using Cons.prems that by (force simp: entry Some set_filter_map split: option.split)
    have disjoint: "fst ` set (profile_mounts entry) \<inter> fst ` set (concat (map profile_mounts ps)) = {}"
    proof (rule ccontr)
      assume "\<not> ?thesis"
      then obtain path j q where path: "path \<in> fst ` set (profile_mounts entry)" "(j, q) \<in> set ps"
        "path \<in> fst ` set (profile_mounts (j, q))" by auto
      from path(3) obtain c t oper' where c: "pp_api_binding q = Some c" "(t, oper') \<in> set mount_suffixes"
        "path = mount_path (ab_path c) t"
        by (cases "pp_api_binding q") (auto simp: profile_mounts_def mount_of_def)
      from path(1) obtain s oper where "(s, oper) \<in> set mount_suffixes" "path = mount_path (ab_path b) s"
        by (auto simp: entry profile_mounts_def Some mount_of_def)
      with c mount_path_inject have "ab_path b = ab_path c" by metis
      with other [OF path(2)] c(1) show False by simp
    qed
    have "distinct (map fst (concat (map profile_mounts ps)))"
      by (rule Cons.IH) (use Cons.prems in \<open>simp add: entry Some\<close>)
    with own disjoint show ?thesis by simp
  qed
qed simp

lemma fold_insert_None:
  "bm_get (fold (\<lambda>(path, e). bm_insert path e) entries mounts) path = None \<longleftrightarrow>
     bm_get mounts path = None \<and> path \<notin> fst ` set entries"
  by (induction entries arbitrary: mounts) (auto simp: bm_get_insert_any split: if_splits)

lemma inserting_fold:
  assumes "\<And>x m. x \<in> set xs \<Longrightarrow> bm_get m (fst (k x)) = None \<Longrightarrow> f x m = Inr (bm_insert (fst (k x)) (snd (k x)) m)"
    and "distinct (map fst (map k xs))" "\<And>x. x \<in> set xs \<Longrightarrow> bm_get m (fst (k x)) = None"
  shows "res_fold f xs m = Inr (fold (\<lambda>(path, e). bm_insert path e) (map k xs) m)"
  using assms
proof (induction xs arbitrary: m)
  case (Cons x xs)
  have "f x m = Inr (bm_insert (fst (k x)) (snd (k x)) m)" using Cons.prems(1,3) by simp
  moreover have "res_fold f xs (bm_insert (fst (k x)) (snd (k x)) m) =
      Inr (fold (\<lambda>(path, e). bm_insert path e) (map k xs) (bm_insert (fst (k x)) (snd (k x)) m))"
  proof (rule Cons.IH)
    show "bm_get (bm_insert (fst (k x)) (snd (k x)) m) (fst (k y)) = None" if y: "y \<in> set xs" for y
    proof -
      have "fst (k x) \<notin> (\<lambda>z. fst (k z)) ` set xs" using Cons.prems(2) by (simp add: image_image)
      with y have "fst (k y) \<noteq> fst (k x)" by (metis image_eqI)
      with Cons.prems(3) y show ?thesis by (simp add: bm_get_insert_any)
    qed
  qed (use Cons.prems in auto)
  ultimately show ?case by (simp add: case_prod_unfold)
qed simp

lemma mount_operation_fold:
  assumes "distinct (map fst (map (mount_of i b) suffixes))"
    and "\<And>path. path \<in> fst ` set (map (mount_of i b) suffixes) \<Longrightarrow> bm_get mounts path = None"
  shows "res_fold (mount_operation i b) suffixes mounts =
    Inr (fold (\<lambda>(path, e). bm_insert path e) (map (mount_of i b) suffixes) mounts)"
proof (rule inserting_fold [OF _ assms(1)])
  show "bm_get mounts (fst (mount_of i b x)) = None" if "x \<in> set suffixes" for x
    using that by (intro assms(2)) simp
qed (auto simp: mount_operation_def mount_of_def Let_def)

lemma mount_profile_fold:
  assumes "distinct (map fst (profile_mounts entry))"
    and "\<And>path. path \<in> fst ` set (profile_mounts entry) \<Longrightarrow> bm_get mounts path = None"
  shows "mount_profile entry mounts = Inr (fold (\<lambda>(path, e). bm_insert path e) (profile_mounts entry) mounts)"
  using assms
proof (cases "pp_api_binding (snd entry)")
  case (Some binding)
  with assms show ?thesis
    unfolding mount_profile_def profile_mounts_def option.case Some by (intro mount_operation_fold) auto
qed (simp add: mount_profile_def profile_mounts_def)

lemma mount_profiles_fold:
  assumes "distinct (map fst (concat (map profile_mounts ps)))"
    and "\<And>path. path \<in> fst ` set (concat (map profile_mounts ps)) \<Longrightarrow> bm_get mounts path = None"
  shows "(res_fold mount_profile ps mounts :: ('e, 'u) build_error + _) =
    Inr (fold (\<lambda>(path, e). bm_insert path e) (concat (map profile_mounts ps)) mounts)"
  using assms
proof (induction ps arbitrary: mounts)
  case (Cons entry ps)
  have "(mount_profile entry mounts :: ('e, 'u) build_error + _) = Inr (fold (\<lambda>(path, e). bm_insert path e) (profile_mounts entry) mounts)"
    by (rule mount_profile_fold) (use Cons.prems in auto)
  moreover have "(res_fold mount_profile ps (fold (\<lambda>(path, e). bm_insert path e) (profile_mounts entry) mounts) ::
        ('e, 'u) build_error + _) =
      Inr (fold (\<lambda>(path, e). bm_insert path e) (concat (map profile_mounts ps))
        (fold (\<lambda>(path, e). bm_insert path e) (profile_mounts entry) mounts))"
    by (rule Cons.IH) (use Cons.prems in \<open>auto simp: fold_insert_None\<close>)
  ultimately show ?case by simp
qed simp

lemma new_mounts_all:
  assumes "plan_closed plan"
  shows "new_mounts plan = Inr (bm_of_list (all_mounts plan))" "distinct (map fst (all_mounts plan))"
proof -
  have d: "distinct (map fst (concat (map profile_mounts (gp_profiles plan))))"
    using plan_closed_parts(4) [OF assms] by (intro all_mounts_distinct) (simp add: api_paths_def)
  then show "new_mounts plan = Inr (bm_of_list (all_mounts plan))"
    by (simp add: new_mounts_def mount_profiles_fold bm_of_list_def all_mounts_def)
  from d show "distinct (map fst (all_mounts plan))" by (simp add: all_mounts_def)
qed

lemma mounted_iff:
  assumes "plan_closed plan"
  shows "mounted_at (bm_of_list (all_mounts plan)) path = Some entry \<longleftrightarrow>
    (\<exists>i p b suffix. (i, p) \<in> set (gp_profiles plan) \<and> pp_api_binding p = Some b \<and> suffix \<in> set mount_suffixes \<and>
       (canonical_path path, entry) = mount_of i b suffix)"
proof -
  have "mounted_at (bm_of_list (all_mounts plan)) path = Some entry \<longleftrightarrow> (canonical_path path, entry) \<in> set (all_mounts plan)"
    using new_mounts_all(2) [OF assms] unfolding mounted_at_def bm_get_of_list
    by (simp add: rev_map [symmetric] map_of_eq_Some_iff)
  also have "\<dots> \<longleftrightarrow> (\<exists>i p b suffix. (i, p) \<in> set (gp_profiles plan) \<and> pp_api_binding p = Some b \<and>
      suffix \<in> set mount_suffixes \<and> (canonical_path path, entry) = mount_of i b suffix)"
    by (force simp: all_mounts_def profile_mounts_def split: option.splits)
  finally show ?thesis .
qed

section \<open>The whole runtime\<close>

definition runtime_built :: "gateway_plan \<Rightarrow> 'e linked_runtimes \<Rightarrow> bool" where
  "runtime_built plan rt \<longleftrightarrow>
     lr_mounts rt = bm_of_list (all_mounts plan) \<and>
     (\<forall>i p. bm_get (lr_profiles rt) i = Some p \<longrightarrow> runtime_fits plan (lr_pools rt) i p) \<and>
     (\<forall>i \<in> set (reachable_profiles plan). bm_get (lr_profiles rt) i \<noteq> None \<and>
        bm_get (dr_profiles (lr_discovery rt)) i \<noteq> None)"

lemma discovery_profiles_get:
  assumes "new_discovery zai defaults plan g pools r caches reachable = Inr d" "i \<in> set reachable"
  shows "bm_get (dr_profiles d) i \<noteq> None"
proof -
  from assms(1) obtain ps where ps: "res_collect (\<lambda>i. res_map (Pair i) (profile_discovery_of plan pools i)) reachable = Inr ps"
    and d: "dr_profiles d = bm_of_list ps"
    unfolding new_discovery_def by auto
  have "\<exists>x. profile_discovery_of plan pools i = Inr x"
    using assms(2) res_collect_Inr [OF ps] by (fastforce simp: list_all2_conv_all_nth in_set_conv_nth)
  with collected_get [OF ps] assms(2) show ?thesis by (auto simp: d)
qed

lemma collected_entry:
  assumes "res_collect (\<lambda>i. res_map (Pair i) (f i)) is = Inr ps" "i \<in> set is"
  shows "\<exists>v. f i = Inr v \<and> bm_get (bm_of_list ps) i = Some v"
proof -
  have "\<exists>v. f i = Inr v"
    using assms(2) res_collect_Inr [OF assms(1)] by (fastforce simp: list_all2_conv_all_nth in_set_conv_nth)
  with collected_get [OF assms(1)] assms(2) show ?thesis by blast
qed

lemma build_gives_runtime:
  assumes closed: "plan_closed plan"
  shows "external_or (runtime_built plan)
    (build_profile_runtimes parse_url origin_of http_error zai defaults r plan accounts mode :: ('e, 'u) build_error + _)"
proof (cases "link_provider_graph parse_url plan accounts r :: ('e, 'u) link_error + _")
  case (Inr g)
  show ?thesis
  proof (cases "link_account_pools plan g")
    case pools: (Inr pools)
    note linked = linked_plan_holds [OF closed Inr pools]
    have reach: "\<forall>i \<in> set (reachable_profiles plan). known (gp_profiles plan) i"
      using reachable_known [OF closed] by blast
    from discovery_found [OF linked(1) reach]
    obtain d where d: "new_discovery zai defaults plan g pools r (\<lambda>_. empty_model_cache) (reachable_profiles plan) = Inr d"
      by blast
    let ?runtimes = "build_account_pool_runtimes pools"
    let ?build = "\<lambda>i. build_profile_runtime origin_of mode plan g ?runtimes i :: ('e, 'u) build_error + _"
    have profile: "external_or (runtime_fits plan ?runtimes i) (?build i)" if "i \<in> set (reachable_profiles plan)" for i
      using profile_runtime_fits [OF linked(2)] reach that by blast
    have profiles: "external_or (\<lambda>ps. (\<forall>i p. bm_get (bm_of_list ps) i = Some p \<longrightarrow> runtime_fits plan ?runtimes i p) \<and>
        (\<forall>i \<in> set (reachable_profiles plan). bm_get (bm_of_list ps) i \<noteq> None))
      (res_collect (\<lambda>i. res_map (Pair i) (?build i)) (reachable_profiles plan))"
    proof (cases "res_collect (\<lambda>i. res_map (Pair i) (?build i)) (reachable_profiles plan)")
      case (Inl e)
      from res_collect_error [OF this] obtain i where i: "i \<in> set (reachable_profiles plan)" "?build i = Inl e"
        by (auto simp: error_simps)
      from profile [OF i(1)] i(2) show ?thesis by (simp add: Inl external_or_def)
    next
      case (Inr ps)
      from collected_get [OF Inr] profile collected_entry [OF Inr] show ?thesis
        by (force simp: Inr external_or_def)
    qed
    have http: "external_or (\<lambda>_. True) (build_http_client http_error client :: ('e, 'u) build_error + _)" for client
      by (simp add: build_http_client_def external_or_def split: option.split)
    show ?thesis
      unfolding build_profile_runtimes_def Inr pools d map_err_simps res_bind_Inr new_mounts_all(1) [OF closed]
      by (intro external_or_bind [OF http] external_or_bind [OF profiles])
         (auto simp: runtime_built_def dest: discovery_profiles_get [OF d])
  qed (simp add: build_profile_runtimes_def Inr external_or_def)
qed (simp add: build_profile_runtimes_def external_or_def)

section \<open>Serving\<close>

fun endpoint_suffix :: "endpoint \<Rightarrow> string" where
  "endpoint_suffix Chat_Completions = ''chat/completions''"
| "endpoint_suffix Responses = ''responses''"
| "endpoint_suffix Messages = ''messages''"

text \<open>The profile whose API binding exposes an endpoint at a path.\<close>

definition exposed_by :: "gateway_plan \<Rightarrow> string \<Rightarrow> string \<Rightarrow> endpoint \<Rightarrow> bool" where
  "exposed_by plan i path e \<longleftrightarrow>
     (case bm_get (gp_profiles plan) i of
        None \<Rightarrow> False
      | Some p \<Rightarrow>
          (case pp_api_binding p of
             None \<Rightarrow> False
           | Some b \<Rightarrow> canonical_path path = mount_path (ab_path b) (endpoint_suffix e) \<and>
               operation_name e \<in> set (ab_endpoints b)))"

lemma endpoint_mount: "(endpoint_suffix e, Generate e) \<in> set mount_suffixes"
  by (cases e) (simp_all add: mount_suffixes_def)

lemma generate_suffix: "(s, Generate e) \<in> set mount_suffixes \<longleftrightarrow> s = endpoint_suffix e"
  by (cases e) (auto simp: mount_suffixes_def)

lemma enabled_iff: "operation_enabled b (Generate e) \<longleftrightarrow> operation_name e \<in> set (ab_endpoints b)"
  by (auto simp: list_ex_iff)

lemma exposed_iff:
  assumes closed: "plan_closed plan"
  shows "exposed_by plan i path e \<longleftrightarrow>
    (\<exists>entry. mounted_at (bm_of_list (all_mounts plan)) path = Some entry \<and> me_enabled entry \<and>
       me_operation entry = Generate e \<and> me_profile entry = i)"
proof -
  note ok = plan_closed_parts(3) [OF closed]
  have "exposed_by plan i path e \<longleftrightarrow>
    (\<exists>p b. (i, p) \<in> set (gp_profiles plan) \<and> pp_api_binding p = Some b \<and>
       canonical_path path = mount_path (ab_path b) (endpoint_suffix e) \<and> operation_enabled b (Generate e))"
    by (auto simp: exposed_by_def enabled_iff bm_get_iff [OF ok, symmetric] simp del: operation_enabled.simps split: option.splits)
  also have "\<dots> \<longleftrightarrow> (\<exists>entry. mounted_at (bm_of_list (all_mounts plan)) path = Some entry \<and> me_enabled entry \<and>
       me_operation entry = Generate e \<and> me_profile entry = i)"
    (is "_ \<longleftrightarrow> ?mounted")
  proof
    assume "\<exists>p b. (i, p) \<in> set (gp_profiles plan) \<and> pp_api_binding p = Some b \<and>
       canonical_path path = mount_path (ab_path b) (endpoint_suffix e) \<and> operation_enabled b (Generate e)"
    then obtain p b where b: "(i, p) \<in> set (gp_profiles plan)" "pp_api_binding p = Some b"
      "(canonical_path path, \<lparr>me_profile = i, me_operation = Generate e, me_enabled = True\<rparr>) =
         mount_of i b (endpoint_suffix e, Generate e)"
      by (auto simp: mount_of_def)
    then have "mounted_at (bm_of_list (all_mounts plan)) path =
        Some \<lparr>me_profile = i, me_operation = Generate e, me_enabled = True\<rparr>"
      unfolding mounted_iff [OF closed] using endpoint_mount by blast
    then show ?mounted by simp
  next
    assume ?mounted
    then show "\<exists>p b. (i, p) \<in> set (gp_profiles plan) \<and> pp_api_binding p = Some b \<and>
       canonical_path path = mount_path (ab_path b) (endpoint_suffix e) \<and> operation_enabled b (Generate e)"
      unfolding mounted_iff [OF closed] mount_of_def
      by (auto simp: generate_suffix simp del: operation_enabled.simps)
  qed
  finally show ?thesis .
qed

lemma mounted_profile:
  assumes closed: "plan_closed plan" and "mounted_at (bm_of_list (all_mounts plan)) path = Some entry"
  shows "\<exists>p. bm_get (gp_profiles plan) (me_profile entry) = Some p \<and> pp_api_binding p \<noteq> None \<and>
    me_profile entry \<in> set (reachable_profiles plan)"
  using assms(2) unfolding mounted_iff [OF closed] mount_of_def reachable_profiles_set
  by (auto simp: bm_get_iff [OF plan_closed_parts(3) [OF closed]])

lemma api_request_served:
  assumes closed: "plan_closed plan" and built: "runtime_built plan rt"
  shows "case select_api_profile (lr_mounts rt) (lr_profiles rt) path e of
      Inl (Api_Not_Found _) \<Rightarrow> \<forall>i. \<not> exposed_by plan i path e
    | Inl _ \<Rightarrow> False
    | Inr p \<Rightarrow> \<exists>i sv. exposed_by plan i path e \<and> runtime_fits plan (lr_pools rt) i p \<and> api_service_of p = Inr sv"
proof (cases "mounted_at (bm_of_list (all_mounts plan)) path")
  case None
  then show ?thesis
    using built by (simp add: runtime_built_def select_api_profile_def exposed_iff [OF closed])
next
  case (Some entry)
  show ?thesis
  proof (cases "me_enabled entry \<and> me_operation entry = Generate e")
    case True
    from mounted_profile [OF closed Some] obtain p where p: "bm_get (gp_profiles plan) (me_profile entry) = Some p"
      "pp_api_binding p \<noteq> None" "me_profile entry \<in> set (reachable_profiles plan)" by blast
    with built obtain rp where rp: "bm_get (lr_profiles rt) (me_profile entry) = Some rp"
      "runtime_fits plan (lr_pools rt) (me_profile entry) rp"
      by (auto simp: runtime_built_def)
    have "\<exists>sv. api_service_of rp = Inr sv"
      using rp(2) p(1,2) by (auto simp: runtime_fits_def api_service_of_def split: option.splits)
    moreover have "exposed_by plan (me_profile entry) path e"
      using Some True by (auto simp: exposed_iff [OF closed])
    ultimately show ?thesis
      using Some True built rp by (auto simp: runtime_built_def select_api_profile_def)
  next
    case False
    with Some built show ?thesis by (auto simp: runtime_built_def select_api_profile_def exposed_iff [OF closed])
  qed
qed

lemma find_in_set: "List.find f xs = Some x \<Longrightarrow> x \<in> set xs"
  by (induction xs) (auto split: if_splits)

lemma http_action_routed:
  "http_action_of (fp_http_bindings l) (fp_default_http_action l) host meth path oper = Route_To i \<Longrightarrow>
     routed_to (Forward_Proxy l) i"
  by (force simp: http_action_of_def routed_to_def split: option.splits dest: find_in_set)

lemma proxied_request_served:
  assumes built: "runtime_built plan rt" and l: "bm_get (gp_listeners plan) k = Some (Forward_Proxy l)"
  shows "case select_proxy_profile l (lr_profiles rt) ingress meth path of
      Inl (Api_Forbidden _) \<Rightarrow> policy_decides l (ia_host ingress) meth path Http_Reject
    | Inl _ \<Rightarrow> False
    | Inr p \<Rightarrow> \<exists>i sv. policy_decides l (ia_host ingress) meth path (Route_To i) \<and> bm_get (lr_profiles rt) i = Some p \<and>
        runtime_fits plan (lr_pools rt) i p \<and> proxy_service_of p = Inr sv"
proof (cases "http_action_of (fp_http_bindings l) (fp_default_http_action l) (ia_host ingress) meth path
    (map_option operation_name (proxy_operation meth path))")
  case (Route_To i)
  note routed = http_action_routed [OF this]
  have decided: "policy_decides l (ia_host ingress) meth path (Route_To i)"
    using http_action_decided [of l "ia_host ingress" meth path] unfolding Route_To .
  have "i \<in> set (reachable_profiles plan)"
    using routed bm_get_in [OF l] unfolding reachable_profiles_set by blast
  with built obtain rp where rp: "bm_get (lr_profiles rt) i = Some rp" "runtime_fits plan (lr_pools rt) i rp"
    by (auto simp: runtime_built_def)
  then have "\<exists>sv. proxy_service_of rp = Inr sv"
    by (auto simp: runtime_fits_def proxy_service_of_def split: option.splits)
  with decided rp Route_To show ?thesis by (auto simp: select_proxy_profile_def)
next
  case Http_Reject
  have "policy_decides l (ia_host ingress) meth path Http_Reject"
    using http_action_decided [of l "ia_host ingress" meth path] unfolding Http_Reject .
  with Http_Reject show ?thesis by (simp add: select_proxy_profile_def)
qed

text \<open>
  C8. A configuration the compiler accepts is one the gateway serves. Building its runtime fails
  only for reasons outside the configuration's references (drivers, accounts, URLs, HTTP
  clients, a clash of provider origins). Then an API request for an endpoint is served by the profile that
  exposes the endpoint at that path, and not found exactly when there is none; a proxied
  request is rejected, or served by a profile, as the first binding that matches its host,
  its method, its path and the operation these two give says, and as the default says without one; model and
  provider listings exist for every mount; no request ends in an internal error for want of a
  profile or service. Each service fits its profile: accounts come from its pool and nowhere
  else, client credentials are forwarded exactly when the route relies on them, bodies are
  converted exactly when the route is structured, and retries are bounded.
\<close>

theorem compiled_gateway_serves:
  "case compile_config compile_url cors_origin relative_to raw of Inl _ \<Rightarrow> True | Inr plan \<Rightarrow>
    (case (build_profile_runtimes parse_url origin_of http_error zai defaults r plan accounts mode ::
        ('e, 'u) build_error + 'e linked_runtimes) of
       Inl failure \<Rightarrow> external_failure failure
     | Inr rt \<Rightarrow>
         (case select_api_profile (lr_mounts rt) (lr_profiles rt) path e of
            Inl (Api_Not_Found _) \<Rightarrow> \<forall>i. \<not> exposed_by plan i path e
          | Inl _ \<Rightarrow> False
          | Inr p \<Rightarrow> \<exists>i sv. exposed_by plan i path e \<and> runtime_fits plan (lr_pools rt) i p \<and> api_service_of p = Inr sv) \<and>
         (case mounted_at (lr_mounts rt) path of
            None \<Rightarrow> True
          | Some entry \<Rightarrow> \<exists>d. discovery_profile (lr_discovery rt) (me_profile entry) = Inr d) \<and>
         (case bm_get (gp_listeners plan) listener of
            Some (Forward_Proxy l) \<Rightarrow>
              (case select_proxy_profile l (lr_profiles rt) ingress meth path of
                 Inl (Api_Forbidden _) \<Rightarrow> policy_decides l (ia_host ingress) meth path Http_Reject
               | Inl _ \<Rightarrow> False
               | Inr p \<Rightarrow> \<exists>i sv. policy_decides l (ia_host ingress) meth path (Route_To i) \<and> bm_get (lr_profiles rt) i = Some p \<and>
                   runtime_fits plan (lr_pools rt) i p \<and> proxy_service_of p = Inr sv)
          | _ \<Rightarrow> True))"
proof (cases "compile_config compile_url cors_origin relative_to raw")
  case (Inr plan)
  note closed = compiled_closed [OF Inr]
  show ?thesis
  proof (cases "build_profile_runtimes parse_url origin_of http_error zai defaults r plan accounts mode ::
        ('e, 'u) build_error + 'e linked_runtimes")
    case (Inl failure)
    with build_gives_runtime [OF closed, of parse_url origin_of http_error zai defaults r accounts mode]
    show ?thesis by (simp add: Inr external_or_def)
  next
    case rt: (Inr rt)
    with build_gives_runtime [OF closed, of parse_url origin_of http_error zai defaults r accounts mode]
    have built: "runtime_built plan rt" by (simp add: external_or_def)
    have listing: "case mounted_at (lr_mounts rt) path of None \<Rightarrow> True
        | Some entry \<Rightarrow> \<exists>d. discovery_profile (lr_discovery rt) (me_profile entry) = Inr d"
      using built mounted_profile [OF closed]
      by (fastforce simp: runtime_built_def discovery_profile_def split: option.split)
    show ?thesis
      unfolding Inr rt sum.case
      using api_request_served [OF closed built] listing proxied_request_served [OF built]
      by (simp split: option.split listener_plan.split)
  qed
qed simp

end
