(* ===== verification/Headers.thy ===== *)
theory Headers
  imports Selector Gateway_Runtime
begin

text \<open>
  HTTP headers of the gateway (crates/headers/src/name.rs, map.rs, inbound.rs, vars.rs,
  agent_id.rs, schema.rs) and the relay's header stage
  (crates/requests/src/stages/build_headers/passthrough.rs).

  A header name keeps its original spelling and compares by its lower-case form. A header map
  is the list of its entries, in order. \<open>decode\<close> is the reading of the JSON text of a Codex turn
  metadata header by serde.
\<close>

section \<open>Names\<close>

record header_name =
  hn_original :: string
  hn_lower :: string

definition new_header_name :: "string \<Rightarrow> header_name" where
  "new_header_name name = \<lparr>hn_original = name, hn_lower = str_lower name\<rparr>"

definition same_name :: "header_name \<Rightarrow> header_name \<Rightarrow> bool" where
  "same_name a b \<longleftrightarrow> hn_lower a = hn_lower b"

section \<open>The map\<close>

type_synonym header_map = "(header_name \<times> string) list"

definition header_append :: "header_name \<Rightarrow> string \<Rightarrow> header_map \<Rightarrow> header_map" where
  "header_append n v m = m @ [(n, v)]"

text \<open>The first entry of the name takes the value and keeps its spelling; the later ones go.\<close>

fun header_insert :: "header_name \<Rightarrow> string \<Rightarrow> header_map \<Rightarrow> header_map" where
  "header_insert n v [] = [(n, v)]"
| "header_insert n v ((k, w) # m) =
     (if same_name k n then (k, v) # filter (\<lambda>(k', _). \<not> same_name k' n) m
      else (k, w) # header_insert n v m)"

definition header_remove :: "string \<Rightarrow> header_map \<Rightarrow> header_map" where
  "header_remove lower m = filter (\<lambda>(k, _). hn_lower k \<noteq> str_lower lower) m"

definition header_get_all :: "string \<Rightarrow> header_map \<Rightarrow> string list" where
  "header_get_all lower m = map snd (filter (\<lambda>(k, _). hn_lower k = str_lower lower) m)"

definition header_get :: "string \<Rightarrow> header_map \<Rightarrow> string option" where
  "header_get lower m = map_option snd (List.find (\<lambda>(k, _). hn_lower k = str_lower lower) m)"

definition header_contains :: "string \<Rightarrow> header_map \<Rightarrow> bool" where
  "header_contains lower m = list_ex (\<lambda>(k, _). hn_lower k = str_lower lower) m"

definition merge_replacing :: "header_map \<Rightarrow> header_map \<Rightarrow> header_map" where
  "merge_replacing m other = fold (\<lambda>(n, _) m'. filter (\<lambda>(k, _). \<not> same_name k n) m') other m @ other"

text \<open>From the headers of a request: values that are no visible ASCII text are left out.\<close>

definition headers_from_wire :: "(string \<times> string option) list \<Rightarrow> header_map" where
  "headers_from_wire wire =
     filter_map (\<lambda>(name, value). map_option (\<lambda>v. (new_header_name name, v)) value) wire"

text \<open>Looking a name up by the name itself.\<close>

definition name_get :: "header_name \<Rightarrow> header_map \<Rightarrow> string option" where
  "name_get n m = map_option snd (List.find (\<lambda>(k, _). same_name k n) m)"

section \<open>Reading and writing one header\<close>

datatype header_error = Missing_Header string | Invalid_Header string string string

definition required_header :: "header_map \<Rightarrow> header_name \<Rightarrow> header_error + string" where
  "required_header m n = ok_or (Missing_Header (hn_lower n)) (name_get n m)"

definition optional_header :: "header_map \<Rightarrow> header_name \<Rightarrow> string option" where
  "optional_header m n = name_get n m"

definition put_header :: "header_name \<Rightarrow> string \<Rightarrow> header_map \<Rightarrow> header_map" where
  "put_header n v m = header_insert n v m"

definition put_opt_header :: "header_name \<Rightarrow> string option \<Rightarrow> header_map \<Rightarrow> header_map" where
  "put_opt_header n v m = (case v of None \<Rightarrow> m | Some x \<Rightarrow> put_header n x m)"

definition from_inbound_or :: "header_map \<Rightarrow> header_name \<Rightarrow> string \<Rightarrow> string" where
  "from_inbound_or inbound n def = unwrap_or def (name_get n inbound)"

section \<open>Correlation\<close>

definition session_id_headers :: "string list" where
  "session_id_headers =
     [''x-session-id'', ''x-client-session-id'', ''session-id'', ''session_id'', ''x-session-affinity'',
      ''x-opencode-session'']"

definition thread_id_headers :: "string list" where
  "thread_id_headers = [''thread-id'', ''thread_id'']"

definition parent_thread_id_headers :: "string list" where
  "parent_thread_id_headers =
     [''x-codex-parent-thread-id'', ''x-parent-thread-id'', ''parent-thread-id'', ''parent_thread_id'']"

definition request_id_headers :: "string list" where
  "request_id_headers = [''x-request-id'', ''x-interaction-id'', ''x-opencode-request'']"

definition project_id_headers :: "string list" where
  "project_id_headers = [''x-opencode-project'', ''x-project-cwd'']"

definition interaction_id_headers :: "string list" where
  "interaction_id_headers = [''x-interaction-id'']"

definition account_id_headers :: "string list" where
  "account_id_headers = [''chatgpt-account-id'']"

record inbound_correlation =
  ic_session_id :: "string option"
  ic_thread_id :: "string option"
  ic_parent_thread_id :: "string option"
  ic_turn_id :: "string option"

definition non_empty :: "string option \<Rightarrow> string option" where
  "non_empty v = Option.bind v (\<lambda>x. let t = str_trim x in if t = [] then None else Some t)"

definition first_present :: "header_map \<Rightarrow> string list \<Rightarrow> string option" where
  "first_present headers names = find_map (\<lambda>name. non_empty (header_get name headers)) names"

definition scope_compatible :: "string option \<Rightarrow> string option \<Rightarrow> bool" where
  "scope_compatible direct metadata =
     (case metadata of None \<Rightarrow> False | Some m \<Rightarrow> (case direct of None \<Rightarrow> True | Some d \<Rightarrow> d = m))"

definition only_if :: "bool \<Rightarrow> 'a option \<Rightarrow> 'a option" where
  "only_if b x = (if b then x else None)"

definition reconcile_correlation :: "inbound_correlation \<Rightarrow> inbound_correlation \<Rightarrow> inbound_correlation" where
  "reconcile_correlation direct metadata =
     (let session_ok = scope_compatible (ic_session_id direct) (ic_session_id metadata);
          thread_ok = session_ok \<and> scope_compatible (ic_thread_id direct) (ic_thread_id metadata)
      in \<lparr>ic_session_id = or_else (ic_session_id direct) (ic_session_id metadata),
          ic_thread_id = or_else (ic_thread_id direct) (only_if session_ok (ic_thread_id metadata)),
          ic_parent_thread_id = or_else (ic_parent_thread_id direct) (only_if thread_ok (ic_parent_thread_id metadata)),
          ic_turn_id = only_if thread_ok (ic_turn_id metadata)\<rparr>)"

definition no_correlation :: inbound_correlation where
  "no_correlation = \<lparr>ic_session_id = None, ic_thread_id = None, ic_parent_thread_id = None, ic_turn_id = None\<rparr>"

definition turn_metadata :: "inbound_correlation \<Rightarrow> inbound_correlation" where
  "turn_metadata c =
     \<lparr>ic_session_id = non_empty (ic_session_id c), ic_thread_id = non_empty (ic_thread_id c),
      ic_parent_thread_id = non_empty (ic_parent_thread_id c), ic_turn_id = non_empty (ic_turn_id c)\<rparr>"

definition inbound_correlation_of :: "(string \<Rightarrow> inbound_correlation option) \<Rightarrow> header_map \<Rightarrow> inbound_correlation" where
  "inbound_correlation_of decode headers =
     reconcile_correlation
       \<lparr>ic_session_id = first_present headers session_id_headers, ic_thread_id = first_present headers thread_id_headers,
        ic_parent_thread_id = first_present headers parent_thread_id_headers, ic_turn_id = None\<rparr>
       (unwrap_or no_correlation
         (map_option turn_metadata (Option.bind (header_get ''x-codex-turn-metadata'' headers) decode)))"

record template_vars =
  tv_session_id :: "string option"
  tv_request_id :: "string option"
  tv_project_cwd :: "string option"
  tv_interaction_id :: "string option"
  tv_account_id :: "string option"

definition build_template_vars :: "(string \<Rightarrow> inbound_correlation option) \<Rightarrow> header_map \<Rightarrow> template_vars" where
  "build_template_vars decode headers =
     \<lparr>tv_session_id = ic_session_id (inbound_correlation_of decode headers),
      tv_request_id = first_present headers request_id_headers,
      tv_project_cwd = first_present headers project_id_headers,
      tv_interaction_id = first_present headers interaction_id_headers,
      tv_account_id = first_present headers account_id_headers\<rparr>"

section \<open>Agents\<close>

datatype agent_id = Opencode | Codex_Cli | Claude_Code | Cline | Copilot_Cli | Other_Agent string

fun agent_str :: "agent_id \<Rightarrow> string" where
  "agent_str Opencode = ''opencode''"
| "agent_str Codex_Cli = ''codex-cli''"
| "agent_str Claude_Code = ''claude-code''"
| "agent_str Cline = ''cline''"
| "agent_str Copilot_Cli = ''copilot-cli''"
| "agent_str (Other_Agent v) = v"

definition agent_from_slug :: "string \<Rightarrow> agent_id option" where
  "agent_from_slug slug =
     (if slug = ''opencode'' then Some Opencode
      else if slug \<in> set [''codex_exec'', ''codex-tui'', ''codex'', ''codex-cli''] then Some Codex_Cli
      else if slug \<in> set [''claude-cli'', ''claude-code''] then Some Claude_Code
      else if slug = ''cline'' then Some Cline
      else if slug \<in> set [''copilot'', ''copilot-cli''] then Some Copilot_Cli
      else None)"

definition provider_agent :: "string \<Rightarrow> agent_id option" where
  "provider_agent provider_id =
     (if provider_id \<in> set [''openai'', ''deepseek'', ''llama-cpp'', ''zai'', ''zai-coding-plan'', ''zhipuai'',
           ''zhipuai-coding-plan''] then Some Opencode
      else if provider_id = ''codex'' then Some Codex_Cli
      else if provider_id \<in> set [''copilot'', ''github-copilot''] then Some Copilot_Cli
      else None)"

definition agent_of :: "string \<Rightarrow> agent_id" where
  "agent_of s = unwrap_or (Other_Agent s) (agent_from_slug s)"

section \<open>The header stage of a relay\<close>

record built_headers =
  bh_headers :: header_map
  bh_vars :: template_vars
  bh_agent_id :: agent_id

definition hop_by_hop_headers :: "string list" where
  "hop_by_hop_headers =
     [''host'', ''proxy-authorization'', ''proxy-connection'', ''te'', ''trailer'', ''transfer-encoding'', ''upgrade'']"

definition is_router_owned :: "string \<Rightarrow> bool" where
  "is_router_owned name \<longleftrightarrow>
     starts_with ''x-tokn-router-'' name \<or> name = ''x-route-mode'' \<or> name = ''x-behave-as''"

definition client_auth_headers :: "string list" where
  "client_auth_headers = [''authorization'', ''x-api-key'']"

definition passes_through :: "bool \<Rightarrow> bool \<Rightarrow> string \<Rightarrow> bool" where
  "passes_through keep_host keep_auth lower \<longleftrightarrow>
     \<not> is_router_owned lower \<and> \<not> (\<not> keep_auth \<and> lower \<in> set client_auth_headers) \<and>
     \<not> (lower \<in> set hop_by_hop_headers \<and> \<not> (keep_host \<and> lower = ''host''))"

definition relayed_headers :: "bool \<Rightarrow> bool \<Rightarrow> header_map \<Rightarrow> header_map" where
  "relayed_headers keep_host keep_auth inbound =
     fold (\<lambda>(name, value) out.
         if passes_through keep_host keep_auth (str_lower (hn_lower name)) then header_insert name value out else out)
       inbound []"

definition passthrough_build_headers ::
  "(string \<Rightarrow> inbound_correlation option) \<Rightarrow> bool \<Rightarrow> bool \<Rightarrow> header_map \<Rightarrow> agent_id option \<Rightarrow> agent_id option \<Rightarrow>
   string \<Rightarrow> built_headers" where
  "passthrough_build_headers decode keep_host keep_auth inbound resolved_agent extracted_agent provider_id =
     \<lparr>bh_headers = relayed_headers keep_host keep_auth inbound, bh_vars = build_template_vars decode inbound,
      bh_agent_id = unwrap_or Opencode
        (or_else resolved_agent (or_else extracted_agent (provider_agent provider_id)))\<rparr>"

section \<open>Laws of the map\<close>

lemma str_lower_idem [simp]: "str_lower (str_lower s) = str_lower s"
  by simp

lemma get_all_insert:
  "map snd (filter (\<lambda>(k, _). hn_lower k = l) (header_insert n v m)) =
     (if l = hn_lower n then [v] else map snd (filter (\<lambda>(k, _). hn_lower k = l) m))"
proof (induction n v m rule: header_insert.induct)
  case (2 n v k w m)
  have "filter (\<lambda>(k, _). hn_lower k = l) (filter (\<lambda>(k', _). \<not> same_name k' n) m) =
      (if l = hn_lower n then [] else filter (\<lambda>(k, _). hn_lower k = l) m)"
    by (auto simp: same_name_def filter_empty_conv intro!: filter_cong)
  with 2 show ?case by (auto simp: same_name_def)
qed auto

lemma header_get_all_insert:
  "header_get_all l (header_insert n v m) = (if str_lower l = hn_lower n then [v] else header_get_all l m)"
  by (simp add: header_get_all_def get_all_insert)

lemma header_get_all_remove:
  "header_get_all l (header_remove r m) = (if str_lower l = str_lower r then [] else header_get_all l m)"
  by (auto simp: header_get_all_def header_remove_def filter_empty_conv intro!: arg_cong [of _ _ "map snd"] filter_cong)

lemma header_get_first: "header_get l m = (case header_get_all l m of [] \<Rightarrow> None | v # _ \<Rightarrow> Some v)"
  by (induction m) (auto simp: header_get_def header_get_all_def)

lemma merge_replacing_kept:
  "fold (\<lambda>(n, _) m'. filter (\<lambda>(k, _). \<not> same_name k n) m') other m =
     filter (\<lambda>(k, _). \<forall>(n, _) \<in> set other. \<not> same_name k n) m"
proof (induction other arbitrary: m)
  case (Cons x other)
  show ?case by (cases x) (auto simp: Cons intro!: filter_cong)
qed simp

lemma header_get_all_merge:
  "header_get_all l (merge_replacing m other) =
     (if header_get_all l other = [] then header_get_all l m else header_get_all l other)"
proof -
  let ?kept = "filter (\<lambda>(k, _). \<forall>(n, _) \<in> set other. \<not> same_name k n) m"
  have "header_get_all l ?kept = (if header_get_all l other = [] then header_get_all l m else [])"
    by (auto simp: header_get_all_def filter_empty_conv same_name_def intro!: arg_cong [of _ _ "map snd"] filter_cong)
  moreover have "header_get_all l (?kept @ other) = header_get_all l ?kept @ header_get_all l other"
    by (simp add: header_get_all_def)
  ultimately show ?thesis by (simp add: merge_replacing_def merge_replacing_kept)
qed

section \<open>What correlation takes from metadata\<close>

text \<open>
  Metadata fills in a thread only for the session it speaks of, and a turn only for that
  session and thread; a direct header always wins.
\<close>

lemma correlation_keeps_scopes:
  assumes "c = reconcile_correlation direct metadata"
  shows "ic_turn_id c \<noteq> None \<Longrightarrow>
      ic_session_id c = ic_session_id metadata \<and> ic_thread_id c = ic_thread_id metadata \<and> ic_thread_id c \<noteq> None"
    and "ic_thread_id direct = None \<Longrightarrow> ic_thread_id c \<noteq> None \<Longrightarrow> ic_session_id c = ic_session_id metadata"
    and "ic_session_id direct = Some s \<Longrightarrow> ic_session_id c = Some s"
    and "ic_thread_id direct = Some t \<Longrightarrow> ic_thread_id c = Some t"
  unfolding assms
  by (auto simp: reconcile_correlation_def Let_def only_if_def scope_compatible_def split: option.splits if_splits)

section \<open>What a relay forwards\<close>

lemma wire_name_lower: "(k, v) \<in> set (headers_from_wire wire) \<Longrightarrow> str_lower (hn_lower k) = hn_lower k"
  by (auto simp: headers_from_wire_def set_filter_map new_header_name_def)

lemma relay_fold:
  assumes "\<forall>(k, v) \<in> set inbound. str_lower (hn_lower k) = hn_lower k"
  shows "header_get_all l (fold (\<lambda>(name, value) out.
      if passes_through keep_host keep_auth (str_lower (hn_lower name)) then header_insert name value out else out)
      inbound out) =
    (if passes_through keep_host keep_auth (str_lower l) \<and> header_get_all l inbound \<noteq> []
     then [last (header_get_all l inbound)] else header_get_all l out)"
  using assms
proof (induction inbound arbitrary: out)
  case Nil
  then show ?case by (simp add: header_get_all_def)
next
  case (Cons x inbound)
  obtain k v where x: "x = (k, v)" by fastforce
  from Cons.prems have k: "str_lower (hn_lower k) = hn_lower k"
    and rest: "\<forall>(k, v) \<in> set inbound. str_lower (hn_lower k) = hn_lower k" by (auto simp: x)
  have cons: "header_get_all l (x # inbound) = (if hn_lower k = str_lower l then [v] else []) @ header_get_all l inbound"
    by (simp add: header_get_all_def x)
  show ?case
    using k by (auto simp: x cons [unfolded x] Cons.IH [OF rest] header_get_all_insert)
qed

lemma relayed_get_all:
  "header_get_all l (relayed_headers keep_host keep_auth (headers_from_wire wire)) =
     (if passes_through keep_host keep_auth (str_lower l) \<and> header_get_all l (headers_from_wire wire) \<noteq> []
      then [last (header_get_all l (headers_from_wire wire))] else [])"
  unfolding relayed_headers_def
  by (subst relay_fold) (use wire_name_lower in \<open>auto simp: header_get_all_def\<close>)

text \<open>
  C17. What a relay forwards: of every header name the last value the client sent, and it only when
  the name may pass; in a relay with the accounts' credentials the client's own never pass.
\<close>

theorem relay_forwards_exactly:
  fixes decode keep_host keep_auth wire resolved extracted provider
  defines "inbound \<equiv> headers_from_wire wire"
    and "sent \<equiv> \<lambda>keep_auth. bh_headers
      (passthrough_build_headers decode keep_host keep_auth (headers_from_wire wire) resolved extracted provider)"
  shows "header_get_all name (sent keep_auth) =
      (if passes_through keep_host keep_auth (str_lower name) \<and> header_get_all name inbound \<noteq> []
       then [last (header_get_all name inbound)] else []) \<and>
    header_get_all ''Authorization'' (sent False) = [] \<and> header_get_all ''X-Api-Key'' (sent False) = [] \<and>
    header_get_all ''Proxy-Authorization'' (sent keep_auth) = [] \<and>
    header_get_all ''Authorization'' (sent True) =
      (if header_get_all ''Authorization'' inbound = [] then [] else [last (header_get_all ''Authorization'' inbound)])"
proof -
  have low: "str_lower ''Authorization'' = ''authorization''" "str_lower ''X-Api-Key'' = ''x-api-key''"
    "str_lower ''Proxy-Authorization'' = ''proxy-authorization''" by code_simp+
  have owned: "\<not> is_router_owned ''authorization''" by code_simp
  have names: "\<not> passes_through keep_host False ''authorization''" "\<not> passes_through keep_host False ''x-api-key''"
    "\<not> passes_through keep_host keep_auth ''proxy-authorization''" "passes_through keep_host True ''authorization''"
    using owned by (simp_all add: passes_through_def client_auth_headers_def hop_by_hop_headers_def)
  show ?thesis
    by (simp only: sent_def inbound_def passthrough_build_headers_def built_headers.simps relayed_get_all low names
        if_False if_True simp_thms HOL.refl) auto
qed

end
