(* ===== verification/Header_Schemas.thy ===== *)
theory Header_Schemas
  imports Headers
begin

text \<open>
  The header schemas of the agents and of the provider transports
  (crates/headers/src/keys.rs, schema.rs, schemas/, agent.rs, registry.rs), and the header stage
  of managed requests (crates/requests/src/stages/build_headers/default.rs).

  A schema is a typed view of some headers: it reads them from a map, writes them to a map,
  and is built from the inbound headers and the correlation of a request. The registry picks
  the schema of the agent to impersonate and the overlay of the provider.
\<close>

section \<open>Header names\<close>

named_theorems header_keys "the header names"

definition header_key :: "string \<Rightarrow> string \<Rightarrow> header_name" where
  "header_key original lower = \<lparr>hn_original = original, hn_lower = lower\<rparr>"

lemma hn_lower_key [simp]: "hn_lower (header_key o' l) = l"
  by (simp add: header_key_def)

definition key_authorization :: header_name where
  [header_keys]: "key_authorization = header_key ''Authorization'' ''authorization''"

definition key_content_type :: header_name where
  [header_keys]: "key_content_type = header_key ''Content-Type'' ''content-type''"

definition key_content_length :: header_name where
  [header_keys]: "key_content_length = header_key ''Content-Length'' ''content-length''"

definition key_accept :: header_name where
  [header_keys]: "key_accept = header_key ''Accept'' ''accept''"

definition key_accept_encoding :: header_name where
  [header_keys]: "key_accept_encoding = header_key ''Accept-Encoding'' ''accept-encoding''"

definition key_accept_language :: header_name where
  [header_keys]: "key_accept_language = header_key ''Accept-Language'' ''accept-language''"

definition key_connection :: header_name where
  [header_keys]: "key_connection = header_key ''Connection'' ''connection''"

definition key_upgrade :: header_name where
  [header_keys]: "key_upgrade = header_key ''Upgrade'' ''upgrade''"

definition key_cookie :: header_name where
  [header_keys]: "key_cookie = header_key ''Cookie'' ''cookie''"

definition key_user_agent :: header_name where
  [header_keys]: "key_user_agent = header_key ''User-Agent'' ''user-agent''"

definition key_host :: header_name where
  [header_keys]: "key_host = header_key ''Host'' ''host''"

definition key_editor_version :: header_name where
  [header_keys]: "key_editor_version = header_key ''Editor-Version'' ''editor-version''"

definition key_editor_plugin_version :: header_name where
  [header_keys]: "key_editor_plugin_version = header_key ''Editor-Plugin-Version'' ''editor-plugin-version''"

definition key_copilot_integration_id :: header_name where
  [header_keys]: "key_copilot_integration_id = header_key ''Copilot-Integration-Id'' ''copilot-integration-id''"

definition key_copilot_vision_request :: header_name where
  [header_keys]: "key_copilot_vision_request = header_key ''Copilot-Vision-Request'' ''copilot-vision-request''"

definition key_openai_intent :: header_name where
  [header_keys]: "key_openai_intent = header_key ''OpenAI-Intent'' ''openai-intent''"

definition key_openai_beta :: header_name where
  [header_keys]: "key_openai_beta = header_key ''OpenAI-Beta'' ''openai-beta''"

definition key_chatgpt_account_id :: header_name where
  [header_keys]: "key_chatgpt_account_id = header_key ''chatgpt-account-id'' ''chatgpt-account-id''"

definition key_anthropic_beta :: header_name where
  [header_keys]: "key_anthropic_beta = header_key ''Anthropic-Beta'' ''anthropic-beta''"

definition key_anthropic_version :: header_name where
  [header_keys]: "key_anthropic_version = header_key ''Anthropic-Version'' ''anthropic-version''"

definition key_x_session_id :: header_name where
  [header_keys]: "key_x_session_id = header_key ''X-Session-Id'' ''x-session-id''"

definition key_x_session_affinity :: header_name where
  [header_keys]: "key_x_session_affinity = header_key ''X-Session-Affinity'' ''x-session-affinity''"

definition key_x_parent_session_id :: header_name where
  [header_keys]: "key_x_parent_session_id = header_key ''X-Parent-Session-Id'' ''x-parent-session-id''"

definition key_x_request_id :: header_name where
  [header_keys]: "key_x_request_id = header_key ''X-Request-Id'' ''x-request-id''"

definition key_x_initiator :: header_name where
  [header_keys]: "key_x_initiator = header_key ''X-Initiator'' ''x-initiator''"

definition key_x_interaction_id :: header_name where
  [header_keys]: "key_x_interaction_id = header_key ''X-Interaction-Id'' ''x-interaction-id''"

definition key_originator :: header_name where
  [header_keys]: "key_originator = header_key ''originator'' ''originator''"

definition key_version :: header_name where
  [header_keys]: "key_version = header_key ''version'' ''version''"

definition key_session_id_lower :: header_name where
  [header_keys]: "key_session_id_lower = header_key ''session_id'' ''session_id''"

definition key_thread_id :: header_name where
  [header_keys]: "key_thread_id = header_key ''thread_id'' ''thread_id''"

definition key_x_client_request_id :: header_name where
  [header_keys]: "key_x_client_request_id = header_key ''x-client-request-id'' ''x-client-request-id''"

definition key_x_codex_beta_features :: header_name where
  [header_keys]: "key_x_codex_beta_features = header_key ''x-codex-beta-features'' ''x-codex-beta-features''"

definition key_x_codex_turn_metadata :: header_name where
  [header_keys]: "key_x_codex_turn_metadata = header_key ''x-codex-turn-metadata'' ''x-codex-turn-metadata''"

definition key_x_codex_window_id :: header_name where
  [header_keys]: "key_x_codex_window_id = header_key ''x-codex-window-id'' ''x-codex-window-id''"

definition key_x_codex_responses_lite :: header_name where
  [header_keys]: "key_x_codex_responses_lite = header_key ''x-openai-internal-codex-responses-lite''
     ''x-openai-internal-codex-responses-lite''"

definition key_x_github_api_version :: header_name where
  [header_keys]: "key_x_github_api_version = header_key ''X-GitHub-Api-Version'' ''x-github-api-version''"

definition key_x_interaction_type :: header_name where
  [header_keys]: "key_x_interaction_type = header_key ''X-Interaction-Type'' ''x-interaction-type''"

definition key_x_client_session_id :: header_name where
  [header_keys]: "key_x_client_session_id = header_key ''X-Client-Session-Id'' ''x-client-session-id''"

definition key_x_agent_task_id :: header_name where
  [header_keys]: "key_x_agent_task_id = header_key ''X-Agent-Task-Id'' ''x-agent-task-id''"

definition key_sec_fetch_mode :: header_name where
  [header_keys]: "key_sec_fetch_mode = header_key ''Sec-Fetch-Mode'' ''sec-fetch-mode''"

definition key_sec_websocket_extensions :: header_name where
  [header_keys]: "key_sec_websocket_extensions = header_key ''Sec-WebSocket-Extensions'' ''sec-websocket-extensions''"

definition key_sec_websocket_key :: header_name where
  [header_keys]: "key_sec_websocket_key = header_key ''Sec-WebSocket-Key'' ''sec-websocket-key''"

definition key_sec_websocket_version :: header_name where
  [header_keys]: "key_sec_websocket_version = header_key ''Sec-WebSocket-Version'' ''sec-websocket-version''"

definition key_x_stainless_retry_count :: header_name where
  [header_keys]: "key_x_stainless_retry_count = header_key ''X-Stainless-Retry-Count'' ''x-stainless-retry-count''"

definition key_x_stainless_timeout :: header_name where
  [header_keys]: "key_x_stainless_timeout = header_key ''X-Stainless-Timeout'' ''x-stainless-timeout''"

definition key_x_stainless_lang :: header_name where
  [header_keys]: "key_x_stainless_lang = header_key ''X-Stainless-Lang'' ''x-stainless-lang''"

definition key_x_stainless_package_version :: header_name where
  [header_keys]: "key_x_stainless_package_version = header_key ''X-Stainless-Package-Version'' ''x-stainless-package-version''"

definition key_x_stainless_os :: header_name where
  [header_keys]: "key_x_stainless_os = header_key ''X-Stainless-OS'' ''x-stainless-os''"

definition key_x_stainless_arch :: header_name where
  [header_keys]: "key_x_stainless_arch = header_key ''X-Stainless-Arch'' ''x-stainless-arch''"

definition key_x_stainless_runtime :: header_name where
  [header_keys]: "key_x_stainless_runtime = header_key ''X-Stainless-Runtime'' ''x-stainless-runtime''"

definition key_x_stainless_runtime_version :: header_name where
  [header_keys]: "key_x_stainless_runtime_version = header_key ''X-Stainless-Runtime-Version'' ''x-stainless-runtime-version''"

definition key_x_stainless_helper_method :: header_name where
  [header_keys]: "key_x_stainless_helper_method = header_key ''x-stainless-helper-method'' ''x-stainless-helper-method''"

definition key_x_app :: header_name where
  [header_keys]: "key_x_app = header_key ''X-App'' ''x-app''"

definition key_anthropic_dangerous_direct_browser_access :: header_name where
  [header_keys]: "key_anthropic_dangerous_direct_browser_access = header_key ''Anthropic-Dangerous-Direct-Browser-Access''
     ''anthropic-dangerous-direct-browser-access''"

definition key_content_encoding :: header_name where
  [header_keys]: "key_content_encoding = header_key ''Content-Encoding'' ''content-encoding''"

definition key_x_api_key :: header_name where
  [header_keys]: "key_x_api_key = header_key ''X-Api-Key'' ''x-api-key''"

definition key_x_opencode_session :: header_name where
  [header_keys]: "key_x_opencode_session = header_key ''X-OpenCode-Session'' ''x-opencode-session''"

section \<open>OpencodeHeaders\<close>

record opencode_headers =
  oc_user_agent :: string
  oc_authorization :: string
  oc_host :: "string option"
  oc_accept :: string
  oc_accept_encoding :: string
  oc_connection :: string
  oc_content_type :: string
  oc_content_length :: "string option"
  oc_session_affinity :: "string option"
  oc_parent_session_id :: "string option"

definition opencode_names :: "header_name list" where
  "opencode_names =
     [key_user_agent, key_authorization, key_host, key_accept, key_accept_encoding, key_connection,
      key_content_type, key_content_length, key_x_session_affinity, key_x_parent_session_id]"

definition parse_opencode :: "header_map \<Rightarrow> header_error + opencode_headers" where
  "parse_opencode m =
     res_bind (required_header m key_user_agent) (\<lambda>user_agent_v.
     res_bind (required_header m key_authorization) (\<lambda>authorization_v.
     res_bind (required_header m key_accept) (\<lambda>accept_v.
     res_bind (required_header m key_accept_encoding) (\<lambda>accept_encoding_v.
     res_bind (required_header m key_connection) (\<lambda>connection_v.
     res_bind (required_header m key_content_type) (\<lambda>content_type_v.
     Inr \<lparr>oc_user_agent = user_agent_v, oc_authorization = authorization_v, oc_host = optional_header m key_host,
       oc_accept = accept_v, oc_accept_encoding = accept_encoding_v, oc_connection = connection_v,
       oc_content_type = content_type_v, oc_content_length = optional_header m key_content_length,
       oc_session_affinity = optional_header m key_x_session_affinity,
       oc_parent_session_id = optional_header m key_x_parent_session_id\<rparr>))))))"

definition dump_opencode :: "opencode_headers \<Rightarrow> header_map" where
  "dump_opencode h =
     (put_opt_header key_x_parent_session_id (oc_parent_session_id h) \<circ>
      put_opt_header key_x_session_affinity (oc_session_affinity h) \<circ>
      put_opt_header key_content_length (oc_content_length h) \<circ>
      put_header key_content_type (oc_content_type h) \<circ>
      put_header key_connection (oc_connection h) \<circ>
      put_header key_accept_encoding (oc_accept_encoding h) \<circ>
      put_header key_accept (oc_accept h) \<circ>
      put_opt_header key_host (oc_host h) \<circ>
      put_header key_authorization (oc_authorization h) \<circ>
      put_header key_user_agent (oc_user_agent h)) []"

definition build_opencode :: "template_vars \<Rightarrow> header_map \<Rightarrow> opencode_headers" where
  "build_opencode vars inbound =
     \<lparr>oc_user_agent = from_inbound_or inbound key_user_agent
         ''opencode/1.14.28 ai-sdk/provider-utils/4.0.23 runtime/bun/1.3.13'',
      oc_authorization = from_inbound_or inbound key_authorization ''<missing>'',
      oc_host = None,
      oc_accept = from_inbound_or inbound key_accept ''*/*'',
      oc_accept_encoding = from_inbound_or inbound key_accept_encoding ''gzip, deflate, br, zstd'',
      oc_connection = from_inbound_or inbound key_connection ''keep-alive'',
      oc_content_type = from_inbound_or inbound key_content_type ''application/json'',
      oc_content_length = name_get key_content_length inbound,
      oc_session_affinity = or_else (tv_session_id vars) (name_get key_x_session_affinity inbound),
      oc_parent_session_id = name_get key_x_parent_session_id inbound\<rparr>"

section \<open>CodexCliHeaders\<close>

record codex_cli_headers =
  cxc_user_agent :: string
  cxc_authorization :: string
  cxc_host :: "string option"
  cxc_accept :: "string option"
  cxc_connection :: "string option"
  cxc_upgrade :: "string option"
  cxc_originator :: "string option"
  cxc_chatgpt_account_id :: "string option"
  cxc_version :: "string option"
  cxc_content_type :: "string option"
  cxc_content_length :: "string option"
  cxc_session_id :: "string option"
  cxc_thread_id :: "string option"
  cxc_client_request_id :: "string option"
  cxc_codex_window_id :: "string option"
  cxc_codex_beta_features :: "string option"
  cxc_codex_turn_metadata :: "string option"
  cxc_codex_responses_lite :: "string option"
  cxc_openai_beta :: "string option"
  cxc_request_id :: "string option"
  cxc_sec_websocket_extensions :: "string option"
  cxc_sec_websocket_key :: "string option"
  cxc_sec_websocket_version :: "string option"
  cxc_cookie :: "string option"

definition codex_cli_names :: "header_name list" where
  "codex_cli_names =
     [key_user_agent, key_authorization, key_host, key_accept, key_connection, key_upgrade, key_originator,
      key_chatgpt_account_id, key_version, key_content_type, key_content_length, key_session_id_lower,
      key_thread_id, key_x_client_request_id, key_x_codex_window_id, key_x_codex_beta_features,
      key_x_codex_turn_metadata, key_x_codex_responses_lite, key_openai_beta, key_x_request_id,
      key_sec_websocket_extensions, key_sec_websocket_key, key_sec_websocket_version, key_cookie]"

definition parse_codex_cli :: "header_map \<Rightarrow> header_error + codex_cli_headers" where
  "parse_codex_cli m =
     res_bind (required_header m key_user_agent) (\<lambda>user_agent_v.
     res_bind (required_header m key_authorization) (\<lambda>authorization_v.
     Inr \<lparr>cxc_user_agent = user_agent_v, cxc_authorization = authorization_v, cxc_host = optional_header m key_host,
       cxc_accept = optional_header m key_accept, cxc_connection = optional_header m key_connection,
       cxc_upgrade = optional_header m key_upgrade, cxc_originator = optional_header m key_originator,
       cxc_chatgpt_account_id = optional_header m key_chatgpt_account_id,
       cxc_version = optional_header m key_version, cxc_content_type = optional_header m key_content_type,
       cxc_content_length = optional_header m key_content_length,
       cxc_session_id = optional_header m key_session_id_lower, cxc_thread_id = optional_header m key_thread_id,
       cxc_client_request_id = optional_header m key_x_client_request_id,
       cxc_codex_window_id = optional_header m key_x_codex_window_id,
       cxc_codex_beta_features = optional_header m key_x_codex_beta_features,
       cxc_codex_turn_metadata = optional_header m key_x_codex_turn_metadata,
       cxc_codex_responses_lite = optional_header m key_x_codex_responses_lite,
       cxc_openai_beta = optional_header m key_openai_beta, cxc_request_id = optional_header m key_x_request_id,
       cxc_sec_websocket_extensions = optional_header m key_sec_websocket_extensions,
       cxc_sec_websocket_key = optional_header m key_sec_websocket_key,
       cxc_sec_websocket_version = optional_header m key_sec_websocket_version,
       cxc_cookie = optional_header m key_cookie\<rparr>))"

definition dump_codex_cli :: "codex_cli_headers \<Rightarrow> header_map" where
  "dump_codex_cli h =
     (put_opt_header key_cookie (cxc_cookie h) \<circ>
      put_opt_header key_sec_websocket_version (cxc_sec_websocket_version h) \<circ>
      put_opt_header key_sec_websocket_key (cxc_sec_websocket_key h) \<circ>
      put_opt_header key_sec_websocket_extensions (cxc_sec_websocket_extensions h) \<circ>
      put_opt_header key_x_request_id (cxc_request_id h) \<circ>
      put_opt_header key_openai_beta (cxc_openai_beta h) \<circ>
      put_opt_header key_x_codex_responses_lite (cxc_codex_responses_lite h) \<circ>
      put_opt_header key_x_codex_turn_metadata (cxc_codex_turn_metadata h) \<circ>
      put_opt_header key_x_codex_beta_features (cxc_codex_beta_features h) \<circ>
      put_opt_header key_x_codex_window_id (cxc_codex_window_id h) \<circ>
      put_opt_header key_x_client_request_id (cxc_client_request_id h) \<circ>
      put_opt_header key_thread_id (cxc_thread_id h) \<circ>
      put_opt_header key_session_id_lower (cxc_session_id h) \<circ>
      put_opt_header key_content_length (cxc_content_length h) \<circ>
      put_opt_header key_content_type (cxc_content_type h) \<circ>
      put_opt_header key_version (cxc_version h) \<circ>
      put_opt_header key_chatgpt_account_id (cxc_chatgpt_account_id h) \<circ>
      put_opt_header key_originator (cxc_originator h) \<circ>
      put_opt_header key_upgrade (cxc_upgrade h) \<circ>
      put_opt_header key_connection (cxc_connection h) \<circ>
      put_opt_header key_accept (cxc_accept h) \<circ>
      put_opt_header key_host (cxc_host h) \<circ>
      put_header key_authorization (cxc_authorization h) \<circ>
      put_header key_user_agent (cxc_user_agent h)) []"

definition build_codex_cli :: "template_vars \<Rightarrow> header_map \<Rightarrow> codex_cli_headers" where
  "build_codex_cli vars inbound =
     \<lparr>cxc_user_agent = from_inbound_or inbound key_user_agent
         ''codex_exec/0.130.0 (Ubuntu 24.4.0; x86_64) unknown (codex_exec; 0.130.0)'',
      cxc_authorization = from_inbound_or inbound key_authorization ''<missing>'',
      cxc_host = None,
      cxc_accept = Some (from_inbound_or inbound key_accept ''text/event-stream''),
      cxc_connection = name_get key_connection inbound,
      cxc_upgrade = name_get key_upgrade inbound,
      cxc_originator = Some (from_inbound_or inbound key_originator ''codex_exec''),
      cxc_chatgpt_account_id = or_else (tv_account_id vars) (name_get key_chatgpt_account_id inbound),
      cxc_version = Some (from_inbound_or inbound key_version ''0.130.0''),
      cxc_content_type = name_get key_content_type inbound,
      cxc_content_length = name_get key_content_length inbound,
      cxc_session_id = or_else (tv_session_id vars) (name_get key_session_id_lower inbound),
      cxc_thread_id = name_get key_thread_id inbound,
      cxc_client_request_id = or_else (name_get key_x_client_request_id inbound) (tv_request_id vars),
      cxc_codex_window_id = name_get key_x_codex_window_id inbound,
      cxc_codex_beta_features = name_get key_x_codex_beta_features inbound,
      cxc_codex_turn_metadata = name_get key_x_codex_turn_metadata inbound,
      cxc_codex_responses_lite = name_get key_x_codex_responses_lite inbound,
      cxc_openai_beta = name_get key_openai_beta inbound,
      cxc_request_id = or_else (tv_request_id vars) (name_get key_x_request_id inbound),
      cxc_sec_websocket_extensions = name_get key_sec_websocket_extensions inbound,
      cxc_sec_websocket_key = name_get key_sec_websocket_key inbound,
      cxc_sec_websocket_version = name_get key_sec_websocket_version inbound,
      cxc_cookie = name_get key_cookie inbound\<rparr>"

section \<open>ClaudeCodeHeaders\<close>

record claude_code_headers =
  clc_user_agent :: string
  clc_accept :: "string option"
  clc_anthropic_version :: "string option"
  clc_anthropic_beta :: "string option"
  clc_stainless_lang :: "string option"
  clc_stainless_package_version :: "string option"
  clc_stainless_os :: "string option"
  clc_stainless_arch :: "string option"
  clc_stainless_runtime :: "string option"
  clc_stainless_runtime_version :: "string option"
  clc_stainless_retry_count :: "string option"
  clc_stainless_timeout :: "string option"
  clc_stainless_helper_method :: "string option"
  clc_app :: "string option"
  clc_direct_browser_access :: "string option"
  clc_client_request_id :: "string option"
  clc_session_id :: "string option"
  clc_interaction_id :: "string option"

definition claude_code_names :: "header_name list" where
  "claude_code_names =
     [key_user_agent, key_accept, key_anthropic_version, key_anthropic_beta, key_x_stainless_lang,
      key_x_stainless_package_version, key_x_stainless_os, key_x_stainless_arch, key_x_stainless_runtime,
      key_x_stainless_runtime_version, key_x_stainless_retry_count, key_x_stainless_timeout,
      key_x_stainless_helper_method, key_x_app, key_anthropic_dangerous_direct_browser_access,
      key_x_client_request_id, key_x_session_id, key_x_interaction_id]"

definition parse_claude_code :: "header_map \<Rightarrow> header_error + claude_code_headers" where
  "parse_claude_code m =
     res_bind (required_header m key_user_agent) (\<lambda>user_agent_v.
     Inr \<lparr>clc_user_agent = user_agent_v, clc_accept = optional_header m key_accept,
       clc_anthropic_version = optional_header m key_anthropic_version,
       clc_anthropic_beta = optional_header m key_anthropic_beta,
       clc_stainless_lang = optional_header m key_x_stainless_lang,
       clc_stainless_package_version = optional_header m key_x_stainless_package_version,
       clc_stainless_os = optional_header m key_x_stainless_os,
       clc_stainless_arch = optional_header m key_x_stainless_arch,
       clc_stainless_runtime = optional_header m key_x_stainless_runtime,
       clc_stainless_runtime_version = optional_header m key_x_stainless_runtime_version,
       clc_stainless_retry_count = optional_header m key_x_stainless_retry_count,
       clc_stainless_timeout = optional_header m key_x_stainless_timeout,
       clc_stainless_helper_method = optional_header m key_x_stainless_helper_method,
       clc_app = optional_header m key_x_app,
       clc_direct_browser_access = optional_header m key_anthropic_dangerous_direct_browser_access,
       clc_client_request_id = optional_header m key_x_client_request_id,
       clc_session_id = optional_header m key_x_session_id,
       clc_interaction_id = optional_header m key_x_interaction_id\<rparr>)"

definition dump_claude_code :: "claude_code_headers \<Rightarrow> header_map" where
  "dump_claude_code h =
     (put_opt_header key_x_interaction_id (clc_interaction_id h) \<circ>
      put_opt_header key_x_session_id (clc_session_id h) \<circ>
      put_opt_header key_x_client_request_id (clc_client_request_id h) \<circ>
      put_opt_header key_anthropic_dangerous_direct_browser_access (clc_direct_browser_access h) \<circ>
      put_opt_header key_x_app (clc_app h) \<circ>
      put_opt_header key_x_stainless_helper_method (clc_stainless_helper_method h) \<circ>
      put_opt_header key_x_stainless_timeout (clc_stainless_timeout h) \<circ>
      put_opt_header key_x_stainless_retry_count (clc_stainless_retry_count h) \<circ>
      put_opt_header key_x_stainless_runtime_version (clc_stainless_runtime_version h) \<circ>
      put_opt_header key_x_stainless_runtime (clc_stainless_runtime h) \<circ>
      put_opt_header key_x_stainless_arch (clc_stainless_arch h) \<circ>
      put_opt_header key_x_stainless_os (clc_stainless_os h) \<circ>
      put_opt_header key_x_stainless_package_version (clc_stainless_package_version h) \<circ>
      put_opt_header key_x_stainless_lang (clc_stainless_lang h) \<circ>
      put_opt_header key_anthropic_beta (clc_anthropic_beta h) \<circ>
      put_opt_header key_anthropic_version (clc_anthropic_version h) \<circ>
      put_opt_header key_accept (clc_accept h) \<circ>
      put_header key_user_agent (clc_user_agent h)) []"

definition build_claude_code :: "template_vars \<Rightarrow> header_map \<Rightarrow> claude_code_headers" where
  "build_claude_code vars inbound =
     \<lparr>clc_user_agent = from_inbound_or inbound key_user_agent ''claude-cli/2.1.92 (external, cli)'',
      clc_accept = Some (from_inbound_or inbound key_accept ''application/json''),
      clc_anthropic_version = Some (from_inbound_or inbound key_anthropic_version ''2023-06-01''),
      clc_anthropic_beta = Some (from_inbound_or inbound key_anthropic_beta
          ''claude-code-20250219,oauth-2025-04-20,interleaved-thinking-2025-05-14,fine-grained-tool-streaming-2025-05-14''),
      clc_stainless_lang = Some (from_inbound_or inbound key_x_stainless_lang ''js''),
      clc_stainless_package_version = Some (from_inbound_or inbound key_x_stainless_package_version ''0.70.0''),
      clc_stainless_os = Some (from_inbound_or inbound key_x_stainless_os ''Linux''),
      clc_stainless_arch = Some (from_inbound_or inbound key_x_stainless_arch ''arm64''),
      clc_stainless_runtime = Some (from_inbound_or inbound key_x_stainless_runtime ''node''),
      clc_stainless_runtime_version = Some (from_inbound_or inbound key_x_stainless_runtime_version ''v24.13.0''),
      clc_stainless_retry_count = Some (from_inbound_or inbound key_x_stainless_retry_count ''0''),
      clc_stainless_timeout = Some (from_inbound_or inbound key_x_stainless_timeout ''600''),
      clc_stainless_helper_method = name_get key_x_stainless_helper_method inbound,
      clc_app = Some (from_inbound_or inbound key_x_app ''cli''),
      clc_direct_browser_access = Some (from_inbound_or inbound key_anthropic_dangerous_direct_browser_access
          ''true''),
      clc_client_request_id = or_else (tv_request_id vars) (name_get key_x_client_request_id inbound),
      clc_session_id = or_else (tv_session_id vars) (name_get key_x_session_id inbound),
      clc_interaction_id = or_else (tv_interaction_id vars) (name_get key_x_interaction_id inbound)\<rparr>"

section \<open>ClineHeaders\<close>

record cline_headers =
  cln_user_agent :: string
  cln_session_id :: "string option"

definition cline_names :: "header_name list" where
  "cline_names =
     [key_user_agent, key_x_session_id]"

definition parse_cline :: "header_map \<Rightarrow> header_error + cline_headers" where
  "parse_cline m =
     res_bind (required_header m key_user_agent) (\<lambda>user_agent_v.
     Inr \<lparr>cln_user_agent = user_agent_v, cln_session_id = optional_header m key_x_session_id\<rparr>)"

definition dump_cline :: "cline_headers \<Rightarrow> header_map" where
  "dump_cline h =
     (put_opt_header key_x_session_id (cln_session_id h) \<circ>
      put_header key_user_agent (cln_user_agent h)) []"

definition build_cline :: "template_vars \<Rightarrow> header_map \<Rightarrow> cline_headers" where
  "build_cline vars inbound =
     \<lparr>cln_user_agent = from_inbound_or inbound key_user_agent ''cline/3.0.0'',
      cln_session_id = or_else (tv_session_id vars) (name_get key_x_session_id inbound)\<rparr>"

section \<open>CopilotCliHeaders\<close>

record copilot_cli_headers =
  cpc_user_agent :: string
  cpc_authorization :: string
  cpc_content_type :: string
  cpc_accept :: string
  cpc_accept_encoding :: string
  cpc_accept_language :: string
  cpc_sec_fetch_mode :: string
  cpc_copilot_integration_id :: string
  cpc_openai_intent :: string
  cpc_initiator :: string
  cpc_github_api_version :: string
  cpc_interaction_id :: string
  cpc_interaction_type :: string
  cpc_client_session_id :: string
  cpc_agent_task_id :: string
  cpc_stainless_retry_count :: "string option"
  cpc_stainless_lang :: "string option"
  cpc_stainless_package_version :: "string option"
  cpc_stainless_os :: "string option"
  cpc_stainless_arch :: "string option"
  cpc_stainless_runtime :: "string option"
  cpc_stainless_runtime_version :: "string option"
  cpc_content_length :: "string option"
  cpc_cookie :: "string option"
  cpc_request_id :: "string option"

definition copilot_cli_names :: "header_name list" where
  "copilot_cli_names =
     [key_user_agent, key_authorization, key_content_type, key_accept, key_accept_encoding, key_accept_language,
      key_sec_fetch_mode, key_copilot_integration_id, key_openai_intent, key_x_initiator,
      key_x_github_api_version, key_x_interaction_id, key_x_interaction_type, key_x_client_session_id,
      key_x_agent_task_id, key_x_stainless_retry_count, key_x_stainless_lang, key_x_stainless_package_version,
      key_x_stainless_os, key_x_stainless_arch, key_x_stainless_runtime, key_x_stainless_runtime_version,
      key_content_length, key_cookie, key_x_request_id]"

definition parse_copilot_cli :: "header_map \<Rightarrow> header_error + copilot_cli_headers" where
  "parse_copilot_cli m =
     res_bind (required_header m key_user_agent) (\<lambda>user_agent_v.
     res_bind (required_header m key_authorization) (\<lambda>authorization_v.
     res_bind (required_header m key_content_type) (\<lambda>content_type_v.
     res_bind (required_header m key_accept) (\<lambda>accept_v.
     res_bind (required_header m key_accept_encoding) (\<lambda>accept_encoding_v.
     res_bind (required_header m key_accept_language) (\<lambda>accept_language_v.
     res_bind (required_header m key_sec_fetch_mode) (\<lambda>sec_fetch_mode_v.
     res_bind (required_header m key_copilot_integration_id) (\<lambda>copilot_integration_id_v.
     res_bind (required_header m key_openai_intent) (\<lambda>openai_intent_v.
     res_bind (required_header m key_x_initiator) (\<lambda>initiator_v.
     res_bind (required_header m key_x_github_api_version) (\<lambda>github_api_version_v.
     res_bind (required_header m key_x_interaction_id) (\<lambda>interaction_id_v.
     res_bind (required_header m key_x_interaction_type) (\<lambda>interaction_type_v.
     res_bind (required_header m key_x_client_session_id) (\<lambda>client_session_id_v.
     res_bind (required_header m key_x_agent_task_id) (\<lambda>agent_task_id_v.
     Inr \<lparr>cpc_user_agent = user_agent_v, cpc_authorization = authorization_v, cpc_content_type = content_type_v,
       cpc_accept = accept_v, cpc_accept_encoding = accept_encoding_v, cpc_accept_language = accept_language_v,
       cpc_sec_fetch_mode = sec_fetch_mode_v, cpc_copilot_integration_id = copilot_integration_id_v,
       cpc_openai_intent = openai_intent_v, cpc_initiator = initiator_v,
       cpc_github_api_version = github_api_version_v, cpc_interaction_id = interaction_id_v,
       cpc_interaction_type = interaction_type_v, cpc_client_session_id = client_session_id_v,
       cpc_agent_task_id = agent_task_id_v,
       cpc_stainless_retry_count = optional_header m key_x_stainless_retry_count,
       cpc_stainless_lang = optional_header m key_x_stainless_lang,
       cpc_stainless_package_version = optional_header m key_x_stainless_package_version,
       cpc_stainless_os = optional_header m key_x_stainless_os,
       cpc_stainless_arch = optional_header m key_x_stainless_arch,
       cpc_stainless_runtime = optional_header m key_x_stainless_runtime,
       cpc_stainless_runtime_version = optional_header m key_x_stainless_runtime_version,
       cpc_content_length = optional_header m key_content_length, cpc_cookie = optional_header m key_cookie,
       cpc_request_id = optional_header m key_x_request_id\<rparr>)))))))))))))))"

definition dump_copilot_cli :: "copilot_cli_headers \<Rightarrow> header_map" where
  "dump_copilot_cli h =
     (put_opt_header key_x_request_id (cpc_request_id h) \<circ>
      put_opt_header key_cookie (cpc_cookie h) \<circ>
      put_opt_header key_content_length (cpc_content_length h) \<circ>
      put_opt_header key_x_stainless_runtime_version (cpc_stainless_runtime_version h) \<circ>
      put_opt_header key_x_stainless_runtime (cpc_stainless_runtime h) \<circ>
      put_opt_header key_x_stainless_arch (cpc_stainless_arch h) \<circ>
      put_opt_header key_x_stainless_os (cpc_stainless_os h) \<circ>
      put_opt_header key_x_stainless_package_version (cpc_stainless_package_version h) \<circ>
      put_opt_header key_x_stainless_lang (cpc_stainless_lang h) \<circ>
      put_opt_header key_x_stainless_retry_count (cpc_stainless_retry_count h) \<circ>
      put_header key_x_agent_task_id (cpc_agent_task_id h) \<circ>
      put_header key_x_client_session_id (cpc_client_session_id h) \<circ>
      put_header key_x_interaction_type (cpc_interaction_type h) \<circ>
      put_header key_x_interaction_id (cpc_interaction_id h) \<circ>
      put_header key_x_github_api_version (cpc_github_api_version h) \<circ>
      put_header key_x_initiator (cpc_initiator h) \<circ>
      put_header key_openai_intent (cpc_openai_intent h) \<circ>
      put_header key_copilot_integration_id (cpc_copilot_integration_id h) \<circ>
      put_header key_sec_fetch_mode (cpc_sec_fetch_mode h) \<circ>
      put_header key_accept_language (cpc_accept_language h) \<circ>
      put_header key_accept_encoding (cpc_accept_encoding h) \<circ>
      put_header key_accept (cpc_accept h) \<circ>
      put_header key_content_type (cpc_content_type h) \<circ>
      put_header key_authorization (cpc_authorization h) \<circ>
      put_header key_user_agent (cpc_user_agent h)) []"

definition build_copilot_cli :: "template_vars \<Rightarrow> header_map \<Rightarrow> copilot_cli_headers" where
  "build_copilot_cli vars inbound =
     \<lparr>cpc_user_agent = from_inbound_or inbound key_user_agent
         ''copilot/1.0.25 (client/sdk win32 v22.19.0) term/unknown'',
      cpc_authorization = from_inbound_or inbound key_authorization ''<missing>'',
      cpc_content_type = from_inbound_or inbound key_content_type ''application/json'',
      cpc_accept = from_inbound_or inbound key_accept ''application/json'',
      cpc_accept_encoding = from_inbound_or inbound key_accept_encoding ''br, gzip, deflate'',
      cpc_accept_language = from_inbound_or inbound key_accept_language ''*'',
      cpc_sec_fetch_mode = from_inbound_or inbound key_sec_fetch_mode ''cors'',
      cpc_copilot_integration_id = from_inbound_or inbound key_copilot_integration_id ''copilot-developer-cli'',
      cpc_openai_intent = from_inbound_or inbound key_openai_intent ''conversation-agent'',
      cpc_initiator = from_inbound_or inbound key_x_initiator ''user'',
      cpc_github_api_version = from_inbound_or inbound key_x_github_api_version ''2026-01-09'',
      cpc_interaction_id = unwrap_or (from_inbound_or inbound key_x_interaction_id
          ''00000000-0000-0000-0000-000000000000'') (tv_interaction_id vars),
      cpc_interaction_type = from_inbound_or inbound key_x_interaction_type ''conversation-user'',
      cpc_client_session_id = unwrap_or (from_inbound_or inbound key_x_client_session_id
          ''00000000-0000-0000-0000-000000000000'') (tv_session_id vars),
      cpc_agent_task_id = from_inbound_or inbound key_x_agent_task_id ''00000000-0000-0000-0000-000000000000'',
      cpc_stainless_retry_count = name_get key_x_stainless_retry_count inbound,
      cpc_stainless_lang = name_get key_x_stainless_lang inbound,
      cpc_stainless_package_version = name_get key_x_stainless_package_version inbound,
      cpc_stainless_os = name_get key_x_stainless_os inbound,
      cpc_stainless_arch = name_get key_x_stainless_arch inbound,
      cpc_stainless_runtime = name_get key_x_stainless_runtime inbound,
      cpc_stainless_runtime_version = name_get key_x_stainless_runtime_version inbound,
      cpc_content_length = name_get key_content_length inbound,
      cpc_cookie = name_get key_cookie inbound,
      cpc_request_id = or_else (tv_request_id vars) (name_get key_x_request_id inbound)\<rparr>"

section \<open>CopilotOverlay\<close>

record copilot_overlay =
  cpo_editor_version :: string
  cpo_editor_plugin_version :: string
  cpo_integration_id :: string
  cpo_vision_request :: "string option"
  cpo_initiator :: "string option"

definition copilot_overlay_names :: "header_name list" where
  "copilot_overlay_names =
     [key_editor_version, key_editor_plugin_version, key_copilot_integration_id, key_copilot_vision_request,
      key_x_initiator]"

definition parse_copilot_overlay :: "header_map \<Rightarrow> header_error + copilot_overlay" where
  "parse_copilot_overlay m =
     res_bind (required_header m key_editor_version) (\<lambda>editor_version_v.
     res_bind (required_header m key_editor_plugin_version) (\<lambda>editor_plugin_version_v.
     res_bind (required_header m key_copilot_integration_id) (\<lambda>integration_id_v.
     Inr \<lparr>cpo_editor_version = editor_version_v, cpo_editor_plugin_version = editor_plugin_version_v,
       cpo_integration_id = integration_id_v, cpo_vision_request = optional_header m key_copilot_vision_request,
       cpo_initiator = optional_header m key_x_initiator\<rparr>)))"

definition dump_copilot_overlay :: "copilot_overlay \<Rightarrow> header_map" where
  "dump_copilot_overlay h =
     (put_opt_header key_x_initiator (cpo_initiator h) \<circ>
      put_opt_header key_copilot_vision_request (cpo_vision_request h) \<circ>
      put_header key_copilot_integration_id (cpo_integration_id h) \<circ>
      put_header key_editor_plugin_version (cpo_editor_plugin_version h) \<circ>
      put_header key_editor_version (cpo_editor_version h)) []"

definition build_copilot_overlay :: "template_vars \<Rightarrow> header_map \<Rightarrow> copilot_overlay" where
  "build_copilot_overlay vars inbound =
     \<lparr>cpo_editor_version = from_inbound_or inbound key_editor_version ''vscode/1.95.0'',
      cpo_editor_plugin_version = from_inbound_or inbound key_editor_plugin_version ''copilot-chat/0.23.0'',
      cpo_integration_id = from_inbound_or inbound key_copilot_integration_id ''vscode-chat'',
      cpo_vision_request = name_get key_copilot_vision_request inbound,
      cpo_initiator = name_get key_x_initiator inbound\<rparr>"

section \<open>CodexOverlay\<close>

record codex_overlay =
  cxo_openai_beta :: string
  cxo_openai_intent :: "string option"
  cxo_chatgpt_account_id :: "string option"
  cxo_session_id :: "string option"

definition codex_overlay_names :: "header_name list" where
  "codex_overlay_names =
     [key_openai_beta, key_openai_intent, key_chatgpt_account_id, key_x_session_id]"

definition parse_codex_overlay :: "header_map \<Rightarrow> header_error + codex_overlay" where
  "parse_codex_overlay m =
     res_bind (required_header m key_openai_beta) (\<lambda>openai_beta_v.
     Inr \<lparr>cxo_openai_beta = openai_beta_v, cxo_openai_intent = optional_header m key_openai_intent,
       cxo_chatgpt_account_id = optional_header m key_chatgpt_account_id,
       cxo_session_id = optional_header m key_x_session_id\<rparr>)"

definition dump_codex_overlay :: "codex_overlay \<Rightarrow> header_map" where
  "dump_codex_overlay h =
     (put_opt_header key_x_session_id (cxo_session_id h) \<circ>
      put_opt_header key_chatgpt_account_id (cxo_chatgpt_account_id h) \<circ>
      put_opt_header key_openai_intent (cxo_openai_intent h) \<circ>
      put_header key_openai_beta (cxo_openai_beta h)) []"

definition build_codex_overlay :: "template_vars \<Rightarrow> header_map \<Rightarrow> codex_overlay" where
  "build_codex_overlay vars inbound =
     \<lparr>cxo_openai_beta = from_inbound_or inbound key_openai_beta ''responses=v1'',
      cxo_openai_intent = name_get key_openai_intent inbound,
      cxo_chatgpt_account_id = or_else (tv_account_id vars) (name_get key_chatgpt_account_id inbound),
      cxo_session_id = or_else (tv_session_id vars) (name_get key_x_session_id inbound)\<rparr>"

section \<open>Reading what was written\<close>

lemma name_get_Nil [simp]: "name_get n [] = None"
  by (simp add: name_get_def)

lemma find_filter_other:
  "hn_lower k \<noteq> hn_lower n \<Longrightarrow>
     List.find (\<lambda>(k', _). hn_lower k' = hn_lower k) (filter (\<lambda>(k', _). hn_lower k' \<noteq> hn_lower n) m) =
     List.find (\<lambda>(k', _). hn_lower k' = hn_lower k) m"
  by (induction m) auto

lemma name_get_insert:
  "name_get k (header_insert n v m) = (if hn_lower k = hn_lower n then Some v else name_get k m)"
  by (induction n v m rule: header_insert.induct) (auto simp: name_get_def same_name_def find_filter_other)

lemma name_get_put [simp]:
  "name_get k (put_header n v m) = (if hn_lower k = hn_lower n then Some v else name_get k m)"
  "name_get k (put_opt_header n x m) = (if hn_lower k = hn_lower n then or_else x (name_get k m) else name_get k m)"
  by (cases x; simp add: put_header_def put_opt_header_def name_get_insert)+

lemma or_else_none_right [simp]: "or_else x None = x"
  by (cases x) auto

text \<open>The names a map holds, each once.\<close>

definition lower_names :: "header_map \<Rightarrow> string list" where
  "lower_names m = map (\<lambda>(k, _). hn_lower k) m"

lemma lower_names_insert:
  "distinct (lower_names m) \<Longrightarrow>
     lower_names (header_insert n v m) =
       (if hn_lower n \<in> set (lower_names m) then lower_names m else lower_names m @ [hn_lower n])"
proof (induction n v m rule: header_insert.induct)
  case (2 n v k w m)
  have "same_name k n \<Longrightarrow> filter (\<lambda>(k', _). \<not> same_name k' n) m = m"
    using 2 by (force simp: lower_names_def same_name_def intro!: filter_True)
  with 2 show ?case by (auto simp: lower_names_def same_name_def)
qed (simp add: lower_names_def)

definition clean_map :: "header_map \<Rightarrow> string list \<Rightarrow> bool" where
  "clean_map m names \<longleftrightarrow> distinct (lower_names m) \<and> set (lower_names m) \<subseteq> set names"

lemma clean_Nil [simp]: "clean_map [] names"
  by (simp add: clean_map_def lower_names_def)

lemma clean_put:
  "clean_map m names \<Longrightarrow> hn_lower n \<in> set names \<Longrightarrow> clean_map (put_header n v m) names"
  "clean_map m names \<Longrightarrow> hn_lower n \<in> set names \<Longrightarrow> clean_map (put_opt_header n x m) names"
  by (cases x; auto simp: clean_map_def put_header_def put_opt_header_def lower_names_insert)+

lemma merge_replacing_eq:
  "merge_replacing m other = filter (\<lambda>(k, _). hn_lower k \<notin> set (lower_names other)) m @ other"
proof -
  have "(\<forall>(n, _) \<in> set other. \<not> same_name k n) \<longleftrightarrow> hn_lower k \<notin> set (lower_names other)" for k
    by (induction other) (auto simp: lower_names_def same_name_def)
  then show ?thesis by (simp add: merge_replacing_def merge_replacing_kept)
qed

lemma lower_names_filter:
  "lower_names (filter (\<lambda>(k, _). P (hn_lower k)) m) = filter P (lower_names m)"
  by (induction m) (auto simp: lower_names_def)

lemma name_get_None: "name_get n m = None \<longleftrightarrow> hn_lower n \<notin> set (lower_names m)"
  by (induction m) (auto simp: name_get_def lower_names_def same_name_def)

lemma name_get_append: "name_get n (m @ m') = (case name_get n m of None \<Rightarrow> name_get n m' | Some v \<Rightarrow> Some v)"
  by (induction m) (auto simp: name_get_def split: option.split)

lemma name_get_filter:
  "name_get n (filter (\<lambda>(k, _). P (hn_lower k)) m) = (if P (hn_lower n) then name_get n m else None)"
  by (induction m) (auto simp: name_get_def same_name_def)

lemma name_get_merge:
  "name_get n (merge_replacing m other) = (case name_get n other of None \<Rightarrow> name_get n m | Some v \<Rightarrow> Some v)"
  unfolding merge_replacing_eq name_get_append name_get_filter [of n "\<lambda>l. l \<notin> set (lower_names other)"]
  by (cases "name_get n other") (auto simp: name_get_None [symmetric] split: option.split)

lemma clean_merge: "clean_map m ns \<Longrightarrow> clean_map other os \<Longrightarrow> clean_map (merge_replacing m other) (ns @ os)"
proof -
  have app: "lower_names (xs @ ys) = lower_names xs @ lower_names ys" for xs ys by (simp add: lower_names_def)
  assume "clean_map m ns" "clean_map other os"
  then show ?thesis
    unfolding clean_map_def merge_replacing_eq app lower_names_filter [of "\<lambda>l. l \<notin> set (lower_names other)"]
    by auto
qed

lemma get_all_clean:
  assumes "clean_map m ns"
  shows "header_get_all l m = (case header_get l m of None \<Rightarrow> [] | Some v \<Rightarrow> [v])"
proof -
  have *: "str_lower l \<notin> set (lower_names m) \<Longrightarrow> header_get_all l m = []" for m
    by (force simp: header_get_all_def lower_names_def filter_empty_conv)
  have "distinct (lower_names m) \<Longrightarrow> ?thesis"
  proof (induction m)
    case (Cons x m)
    obtain k v where x: "x = (k, v)" by fastforce
    have "str_lower l = hn_lower k \<Longrightarrow> header_get_all l m = []" using Cons.prems * [of m] by (simp add: lower_names_def x)
    moreover have "header_get_all l (x # m) = (if hn_lower k = str_lower l then v # header_get_all l m else header_get_all l m)"
      by (simp add: header_get_all_def x)
    moreover have "header_get l (x # m) = (if hn_lower k = str_lower l then Some v else header_get l m)"
      by (simp add: header_get_def x)
    ultimately show ?case using Cons by (auto simp: lower_names_def x)
  qed (simp add: header_get_all_def header_get_def)
  then show ?thesis using assms by (simp add: clean_map_def)
qed

section \<open>The interface of a schema\<close>

text \<open>
  A schema reads back what it writes, writes each of its names at most once and no other
  name, and reads no other name.
\<close>

locale header_schema =
  fixes parse :: "header_map \<Rightarrow> header_error + 's" and dump :: "'s \<Rightarrow> header_map" and names :: "header_name list"
  assumes parse_dump: "parse (dump h) = Inr h"
    and dump_clean: "clean_map (dump h) (map hn_lower names)"
    and parse_local: "(\<And>n. n \<in> set names \<Longrightarrow> name_get n m = name_get n m') \<Longrightarrow> parse m = parse m'"
begin

lemma dump_injective: "dump h = dump h' \<Longrightarrow> h = h'"
  by (metis parse_dump sum.inject(2))

lemma reads_overlay:
  assumes "\<And>n. n \<in> set names \<Longrightarrow> name_get n m = None"
  shows "parse (merge_replacing m (dump h)) = Inr h"
proof -
  have "parse (merge_replacing m (dump h)) = parse (dump h)"
    by (rule parse_local) (simp add: name_get_merge assms split: option.split)
  then show ?thesis by (simp add: parse_dump)
qed

lemma reads_base:
  assumes "clean_map other os" and "\<And>n. n \<in> set names \<Longrightarrow> hn_lower n \<notin> set os"
  shows "parse (merge_replacing (dump h) other) = Inr h"
proof -
  have "name_get n other = None" if "n \<in> set names" for n
    using assms(1) assms(2) [OF that] by (auto simp: name_get_None clean_map_def)
  then have "parse (merge_replacing (dump h) other) = parse (dump h)"
    by (intro parse_local) (simp add: name_get_merge)
  then show ?thesis by (simp add: parse_dump)
qed

end

lemmas schema_simps = required_header_def optional_header_def header_keys

lemma dump_opencode_clean: "clean_map (dump_opencode h) (map hn_lower opencode_names)"
  by (auto simp: dump_opencode_def opencode_names_def intro!: clean_put)

interpretation opencode: header_schema parse_opencode dump_opencode opencode_names
proof
  show "parse_opencode (dump_opencode h) = Inr h" for h
    by (simp add: parse_opencode_def dump_opencode_def schema_simps)
  show "clean_map (dump_opencode h) (map hn_lower opencode_names)" for h
    by (rule dump_opencode_clean)
  show "(\<And>n. n \<in> set opencode_names \<Longrightarrow> name_get n m = name_get n m') \<Longrightarrow> parse_opencode m = parse_opencode m'" for m m'
    by (simp add: parse_opencode_def opencode_names_def required_header_def optional_header_def)
qed

lemma dump_codex_cli_clean: "clean_map (dump_codex_cli h) (map hn_lower codex_cli_names)"
  by (auto simp: dump_codex_cli_def codex_cli_names_def intro!: clean_put)

interpretation codex_cli: header_schema parse_codex_cli dump_codex_cli codex_cli_names
proof
  show "parse_codex_cli (dump_codex_cli h) = Inr h" for h
    by (simp add: parse_codex_cli_def dump_codex_cli_def schema_simps)
  show "clean_map (dump_codex_cli h) (map hn_lower codex_cli_names)" for h
    by (rule dump_codex_cli_clean)
  show "(\<And>n. n \<in> set codex_cli_names \<Longrightarrow> name_get n m = name_get n m') \<Longrightarrow> parse_codex_cli m = parse_codex_cli m'" for m m'
    by (simp add: parse_codex_cli_def codex_cli_names_def required_header_def optional_header_def)
qed

lemma dump_claude_code_clean: "clean_map (dump_claude_code h) (map hn_lower claude_code_names)"
  by (auto simp: dump_claude_code_def claude_code_names_def intro!: clean_put)

interpretation claude_code: header_schema parse_claude_code dump_claude_code claude_code_names
proof
  show "parse_claude_code (dump_claude_code h) = Inr h" for h
    by (simp add: parse_claude_code_def dump_claude_code_def schema_simps)
  show "clean_map (dump_claude_code h) (map hn_lower claude_code_names)" for h
    by (rule dump_claude_code_clean)
  show "(\<And>n. n \<in> set claude_code_names \<Longrightarrow> name_get n m = name_get n m') \<Longrightarrow> parse_claude_code m = parse_claude_code m'" for m m'
    by (simp add: parse_claude_code_def claude_code_names_def required_header_def optional_header_def)
qed

lemma dump_cline_clean: "clean_map (dump_cline h) (map hn_lower cline_names)"
  by (auto simp: dump_cline_def cline_names_def intro!: clean_put)

interpretation cline: header_schema parse_cline dump_cline cline_names
proof
  show "parse_cline (dump_cline h) = Inr h" for h
    by (simp add: parse_cline_def dump_cline_def schema_simps)
  show "clean_map (dump_cline h) (map hn_lower cline_names)" for h
    by (rule dump_cline_clean)
  show "(\<And>n. n \<in> set cline_names \<Longrightarrow> name_get n m = name_get n m') \<Longrightarrow> parse_cline m = parse_cline m'" for m m'
    by (simp add: parse_cline_def cline_names_def required_header_def optional_header_def)
qed

lemma dump_copilot_cli_clean: "clean_map (dump_copilot_cli h) (map hn_lower copilot_cli_names)"
  by (auto simp: dump_copilot_cli_def copilot_cli_names_def intro!: clean_put)

interpretation copilot_cli: header_schema parse_copilot_cli dump_copilot_cli copilot_cli_names
proof
  show "parse_copilot_cli (dump_copilot_cli h) = Inr h" for h
    by (simp add: parse_copilot_cli_def dump_copilot_cli_def schema_simps)
  show "clean_map (dump_copilot_cli h) (map hn_lower copilot_cli_names)" for h
    by (rule dump_copilot_cli_clean)
  show "(\<And>n. n \<in> set copilot_cli_names \<Longrightarrow> name_get n m = name_get n m') \<Longrightarrow> parse_copilot_cli m = parse_copilot_cli m'" for m m'
    by (simp add: parse_copilot_cli_def copilot_cli_names_def required_header_def optional_header_def)
qed

lemma dump_copilot_overlay_clean: "clean_map (dump_copilot_overlay h) (map hn_lower copilot_overlay_names)"
  by (auto simp: dump_copilot_overlay_def copilot_overlay_names_def intro!: clean_put)

interpretation copilot_overlay: header_schema parse_copilot_overlay dump_copilot_overlay copilot_overlay_names
proof
  show "parse_copilot_overlay (dump_copilot_overlay h) = Inr h" for h
    by (simp add: parse_copilot_overlay_def dump_copilot_overlay_def schema_simps)
  show "clean_map (dump_copilot_overlay h) (map hn_lower copilot_overlay_names)" for h
    by (rule dump_copilot_overlay_clean)
  show "(\<And>n. n \<in> set copilot_overlay_names \<Longrightarrow> name_get n m = name_get n m') \<Longrightarrow> parse_copilot_overlay m = parse_copilot_overlay m'" for m m'
    by (simp add: parse_copilot_overlay_def copilot_overlay_names_def required_header_def optional_header_def)
qed

lemma dump_codex_overlay_clean: "clean_map (dump_codex_overlay h) (map hn_lower codex_overlay_names)"
  by (auto simp: dump_codex_overlay_def codex_overlay_names_def intro!: clean_put)

interpretation codex_overlay: header_schema parse_codex_overlay dump_codex_overlay codex_overlay_names
proof
  show "parse_codex_overlay (dump_codex_overlay h) = Inr h" for h
    by (simp add: parse_codex_overlay_def dump_codex_overlay_def schema_simps)
  show "clean_map (dump_codex_overlay h) (map hn_lower codex_overlay_names)" for h
    by (rule dump_codex_overlay_clean)
  show "(\<And>n. n \<in> set codex_overlay_names \<Longrightarrow> name_get n m = name_get n m') \<Longrightarrow> parse_codex_overlay m = parse_codex_overlay m'" for m m'
    by (simp add: parse_codex_overlay_def codex_overlay_names_def required_header_def optional_header_def)
qed

section \<open>Wire identities\<close>

datatype agent_kind = Kind_Opencode | Kind_Codex_Cli | Kind_Claude_Code | Kind_Cline | Kind_Copilot_Cli

definition agent_kind_of :: "string \<Rightarrow> agent_kind option" where
  "agent_kind_of agent =
     (if agent = ''opencode'' then Some Kind_Opencode
      else if agent \<in> set [''codex_exec'', ''codex-tui'', ''codex'', ''codex-cli''] then Some Kind_Codex_Cli
      else if agent \<in> set [''claude-cli'', ''claude-code''] then Some Kind_Claude_Code
      else if agent = ''cline'' then Some Kind_Cline
      else if agent \<in> set [''copilot'', ''copilot-cli''] then Some Kind_Copilot_Cli
      else None)"

fun build_outbound :: "agent_kind \<Rightarrow> template_vars \<Rightarrow> header_map \<Rightarrow> header_map" where
  "build_outbound Kind_Opencode vars inbound = dump_opencode (build_opencode vars inbound)"
| "build_outbound Kind_Codex_Cli vars inbound = dump_codex_cli (build_codex_cli vars inbound)"
| "build_outbound Kind_Claude_Code vars inbound = dump_claude_code (build_claude_code vars inbound)"
| "build_outbound Kind_Cline vars inbound = dump_cline (build_cline vars inbound)"
| "build_outbound Kind_Copilot_Cli vars inbound = dump_copilot_cli (build_copilot_cli vars inbound)"

definition build_agent_headers :: "string \<Rightarrow> template_vars \<Rightarrow> header_map \<Rightarrow> header_map" where
  "build_agent_headers agent vars inbound =
     unwrap_or [] (map_option (\<lambda>kind. build_outbound kind vars inbound) (agent_kind_of agent))"

datatype overlay_kind = Overlay_Copilot | Overlay_Codex

record resolved_schema =
  rsc_agent :: agent_kind
  rsc_overlay :: "overlay_kind option"

fun overlay_headers :: "overlay_kind \<Rightarrow> template_vars \<Rightarrow> header_map \<Rightarrow> header_map" where
  "overlay_headers Overlay_Copilot vars inbound = dump_copilot_overlay (build_copilot_overlay vars inbound)"
| "overlay_headers Overlay_Codex vars inbound = dump_codex_overlay (build_codex_overlay vars inbound)"

definition lookup_schema :: "string \<Rightarrow> string \<Rightarrow> resolved_schema option" where
  "lookup_schema provider agent =
     (let base = unwrap_or Kind_Opencode (agent_kind_of agent) in
      if provider = ''openai''
      then Some \<lparr>rsc_agent = base, rsc_overlay = (if base = Kind_Codex_Cli then Some Overlay_Codex else None)\<rparr>
      else if provider \<in> set [''copilot'', ''github-copilot'']
      then Some \<lparr>rsc_agent = base, rsc_overlay = Some Overlay_Copilot\<rparr>
      else if provider \<in> set [''deepseek'', ''zai'', ''zai-coding-plan'', ''zhipuai'', ''zhipuai-coding-plan'', ''codex'']
      then Some \<lparr>rsc_agent = base, rsc_overlay = (if provider = ''codex'' then Some Overlay_Codex else None)\<rparr>
      else None)"

definition compose_headers :: "header_map \<Rightarrow> header_map option \<Rightarrow> header_map" where
  "compose_headers persona overlay = (case overlay of None \<Rightarrow> persona | Some o' \<Rightarrow> merge_replacing persona o')"

definition build_wire_identity_headers ::
  "string \<Rightarrow> string \<Rightarrow> template_vars \<Rightarrow> header_map \<Rightarrow> header_map" where
  "build_wire_identity_headers provider agent vars inbound =
     (case lookup_schema provider agent of
        None \<Rightarrow> build_agent_headers agent vars inbound
      | Some schema \<Rightarrow>
          compose_headers (build_outbound (rsc_agent schema) vars inbound)
            (map_option (\<lambda>kind. overlay_headers kind vars inbound) (rsc_overlay schema)))"

section \<open>The header stage of managed requests\<close>

definition agent_defaults :: "string \<Rightarrow> agent_id option" where
  "agent_defaults provider =
     (if provider \<in> set [''openai'', ''deepseek'', ''zai'', ''zai-coding-plan'', ''zhipuai'', ''zhipuai-coding-plan'']
      then Some Opencode
      else if provider = ''codex'' then Some Codex_Cli
      else if provider \<in> set [''copilot'', ''github-copilot''] then Some Copilot_Cli
      else None)"

definition effective_agent_id :: "agent_id option \<Rightarrow> agent_id option \<Rightarrow> string \<Rightarrow> agent_id" where
  "effective_agent_id resolved_agent extracted_agent provider =
     unwrap_or Opencode (or_else resolved_agent (or_else extracted_agent (agent_defaults provider)))"

definition default_build_headers ::
  "(string \<Rightarrow> inbound_correlation option) \<Rightarrow> string \<Rightarrow> header_map \<Rightarrow> agent_id option \<Rightarrow> agent_id option \<Rightarrow> string \<Rightarrow>
   built_headers" where
  "default_build_headers decode request_id inbound resolved_agent extracted_agent provider =
     (let vars = build_template_vars decode inbound;
          agent = effective_agent_id resolved_agent extracted_agent provider;
          headers = build_wire_identity_headers provider (agent_str agent) vars inbound
      in \<lparr>bh_headers = header_insert key_x_request_id request_id headers,
          bh_vars = vars\<lparr>tv_request_id := Some (unwrap_or request_id (tv_request_id vars))\<rparr>,
          bh_agent_id = agent\<rparr>)"

text \<open>The two tables of default agents agree.\<close>

lemma default_agents_agree: "effective_agent_id r e p = unwrap_or Opencode (or_else r (or_else e (provider_agent p)))"
  by (cases r; cases e) (auto simp: effective_agent_id_def agent_defaults_def provider_agent_def unwrap_or_def)

section \<open>What managed requests send\<close>

definition wire_names :: "header_name list" where
  "wire_names = key_x_request_id #
     concat [opencode_names, codex_cli_names, claude_code_names, cline_names, copilot_cli_names, copilot_overlay_names,
       codex_overlay_names]"

lemma clean_mono: "clean_map m ns \<Longrightarrow> set ns \<subseteq> set ns' \<Longrightarrow> clean_map m ns'"
  by (auto simp: clean_map_def)

lemma schemas_clean:
  "clean_map (build_outbound kind vars inbound) (map hn_lower wire_names)"
  "clean_map (overlay_headers overlay vars inbound) (map hn_lower wire_names)"
  by (cases kind; auto simp: wire_names_def intro: clean_mono [OF dump_opencode_clean] clean_mono [OF dump_codex_cli_clean]
      clean_mono [OF dump_claude_code_clean] clean_mono [OF dump_cline_clean] clean_mono [OF dump_copilot_cli_clean])
    (cases overlay; auto simp: wire_names_def intro: clean_mono [OF dump_copilot_overlay_clean]
      clean_mono [OF dump_codex_overlay_clean])

lemma wire_identity_clean: "clean_map (build_wire_identity_headers provider agent vars inbound) (map hn_lower wire_names)"
proof -
  have merge: "clean_map (merge_replacing a b) (map hn_lower wire_names)"
    if "clean_map a (map hn_lower wire_names)" "clean_map b (map hn_lower wire_names)" for a b
    by (rule clean_mono [OF clean_merge [OF that]]) simp
  show ?thesis
    by (auto simp: build_wire_identity_headers_def compose_headers_def build_agent_headers_def unwrap_or_def schemas_clean merge
        split: option.split)
qed

lemma no_host:
  "name_get key_host (build_outbound kind vars inbound) = None"
  "name_get key_host (overlay_headers overlay vars inbound) = None"
   apply (cases kind; simp add: dump_opencode_def build_opencode_def dump_codex_cli_def build_codex_cli_def
      dump_claude_code_def dump_cline_def dump_copilot_cli_def header_keys)
  apply (cases overlay; simp add: dump_copilot_overlay_def dump_codex_overlay_def header_keys)
  done

lemma wire_identity_no_host: "name_get key_host (build_wire_identity_headers provider agent vars inbound) = None"
  by (auto simp: build_wire_identity_headers_def compose_headers_def build_agent_headers_def unwrap_or_def no_host
      name_get_merge split: option.split)

lemma wire_names_ok:
  "list_all (\<lambda>n. \<not> is_router_owned (hn_lower n) \<and>
     hn_lower n \<notin> {''proxy-authorization'', ''proxy-connection'', ''te'', ''trailer'', ''transfer-encoding'', ''x-api-key''}) wire_names"
  by code_simp

lemma header_get_name: "str_lower l = hn_lower n \<Longrightarrow> header_get l m = name_get n m"
  by (simp add: header_get_def name_get_def same_name_def)

lemma entry_get:
  assumes "clean_map m ns" and "(n, v) \<in> set m"
  shows "name_get n m = Some v"
proof -
  have "distinct (lower_names m)" using assms(1) by (simp add: clean_map_def)
  then show ?thesis using assms(2)
    by (induction m) (auto simp: name_get_def lower_names_def same_name_def image_iff)
qed

lemma managed_map:
  fixes decode request_id inbound resolved extracted provider
  defines "h \<equiv> bh_headers (default_build_headers decode request_id inbound resolved extracted provider)"
  shows "clean_map h (map hn_lower wire_names)" "name_get key_x_request_id h = Some request_id" "name_get key_host h = None"
proof -
  have h: "h = put_header key_x_request_id request_id (build_wire_identity_headers provider
      (agent_str (effective_agent_id resolved extracted provider)) (build_template_vars decode inbound) inbound)"
    by (simp add: h_def default_build_headers_def Let_def put_header_def)
  show "clean_map h (map hn_lower wire_names)"
    unfolding h by (rule clean_put [OF wire_identity_clean]) (simp add: wire_names_def)
  show "name_get key_x_request_id h = Some request_id" by (simp add: h)
  show "name_get key_host h = None" by (simp add: h wire_identity_no_host) (simp add: header_keys)
qed

text \<open>
  C18. A managed request is sent under one wire identity: whatever the client sent, each header goes out once,
  none of them is the host, a proxy, hop or router header, the request id is the gateway's,
  and the overlay of the provider's transport wins over the agent's headers.
\<close>

theorem managed_headers_clean:
  fixes decode request_id inbound resolved extracted provider
  defines "built \<equiv> default_build_headers decode request_id inbound resolved extracted provider"
  shows "distinct (lower_names (bh_headers built)) \<and>
    list_all (\<lambda>l. \<not> is_router_owned l \<and>
      l \<notin> {''host'', ''proxy-authorization'', ''proxy-connection'', ''te'', ''trailer'', ''transfer-encoding'', ''x-api-key''})
      (lower_names (bh_headers built)) \<and>
    header_get_all ''x-request-id'' (bh_headers built) = [request_id] \<and>
    (case Option.bind (lookup_schema provider (agent_str (bh_agent_id built))) rsc_overlay of
       None \<Rightarrow> True
     | Some kind \<Rightarrow>
         list_all (\<lambda>(n, v). name_get n (bh_headers built) = Some v)
           (overlay_headers kind (build_template_vars decode inbound) inbound))"
proof -
  let ?vars = "build_template_vars decode inbound" and ?agent = "effective_agent_id resolved extracted provider"
  let ?wire = "build_wire_identity_headers provider (agent_str ?agent) ?vars inbound"
  have hs: "bh_headers built = put_header key_x_request_id request_id ?wire" and ag: "bh_agent_id built = ?agent"
    by (simp_all add: built_def default_build_headers_def Let_def put_header_def)
  have id: "hn_lower key_x_request_id = ''x-request-id''" by (simp add: header_keys)
  have low: "str_lower ''x-request-id'' = hn_lower key_x_request_id" by code_simp
  note managed = managed_map [of decode request_id inbound resolved extracted provider, folded built_def]
  note clean = managed(1)
  have host: "''host'' \<notin> set (lower_names (bh_headers built))"
    using managed(3) by (simp add: name_get_None) (simp add: header_keys)
  have names: "list_all (\<lambda>l. \<not> is_router_owned l \<and>
      l \<notin> {''host'', ''proxy-authorization'', ''proxy-connection'', ''te'', ''trailer'', ''transfer-encoding'', ''x-api-key''})
      (lower_names (bh_headers built))"
    using clean host wire_names_ok unfolding list_all_iff clean_map_def by fastforce
  have "header_get_all ''x-request-id'' (bh_headers built) = [request_id]"
    unfolding get_all_clean [OF clean] header_get_name [OF low] by (simp add: managed(2))
  moreover have "name_get n (bh_headers built) = Some v"
    if o: "Option.bind (lookup_schema provider (agent_str ?agent)) rsc_overlay = Some kind"
      and n: "(n, v) \<in> set (overlay_headers kind ?vars inbound)" for kind n v
  proof -
    have get: "name_get n (overlay_headers kind ?vars inbound) = Some v" by (rule entry_get [OF schemas_clean(2) n])
    have "hn_lower n \<noteq> ''x-request-id''"
    proof
      assume "hn_lower n = ''x-request-id''"
      then have "name_get key_x_request_id (overlay_headers kind ?vars inbound) = Some v"
        using get by (simp add: name_get_def same_name_def id)
      then show False by (cases kind) (simp_all add: dump_copilot_overlay_def dump_codex_overlay_def header_keys)
    qed
    then show ?thesis
      using o get by (auto simp: hs id build_wire_identity_headers_def compose_headers_def name_get_merge bind_eq_Some_conv)
  qed
  ultimately show ?thesis
    using clean names by (auto simp: clean_map_def list_all_iff ag split: option.split)
qed

end
