(* ===== verification/Provider_Headers.thy ===== *)
theory Provider_Headers
  imports Header_Schemas
begin

text \<open>
  The headers a provider adapter sends: \<open>Provider::patch_headers\<close> (crates/core/src/provider.rs) with the
  \<open>inject_credentials\<close> and \<open>normalize_headers\<close> of every adapter (crates/provider-*), and what
  \<open>util::http::send\<close> strips last (crates/core/src/util/http.rs).

  An adapter is its credentials; \<open>user_agent\<close> is the text of the application's own user agent.
\<close>

section \<open>Adapters\<close>

datatype request_kind = Operation_Request endpoint | Models_Request | Opaque_Request

fun kind_endpoint :: "request_kind \<Rightarrow> endpoint option" where
  "kind_endpoint (Operation_Request e) = Some e"
| "kind_endpoint _ = None"

record header_patch_ctx =
  hp_kind :: request_kind
  hp_bearer_token :: "string option"
  hp_content_encoding :: "string option"
  hp_stream :: bool
  hp_initiator :: string
  hp_vars :: template_vars
  hp_agent_id :: agent_id

datatype adapter =
    Copilot_Adapter
  | Deepseek_Adapter (deepseek_key: string)
  | Zai_Adapter (zai_key: string)
  | Llama_Cpp_Adapter (llama_key: "string option")
  | Openai_Adapter (openai_credential: string)
  | Codex_Adapter (codex_credential: string) (codex_account: "string option")
  | Opencode_Go_Adapter (opencode_key: string)

datatype header_patch_error = Missing_Bearer_Token

definition bearer :: "string \<Rightarrow> string" where
  "bearer token = ''Bearer '' @ token"

definition accept_value :: "bool \<Rightarrow> string" where
  "accept_value stream = (if stream then ''text/event-stream'' else ''application/json'')"

definition inject_openai_credentials :: "string \<Rightarrow> header_map \<Rightarrow> header_map" where
  "inject_openai_credentials token h = header_insert key_authorization (bearer token) h"

definition inject_codex_credentials :: "string \<Rightarrow> string option \<Rightarrow> header_map \<Rightarrow> header_map" where
  "inject_codex_credentials token account h =
     (case account of
        Some a \<Rightarrow>
          if str_trim a \<noteq> [] then header_insert key_chatgpt_account_id a (inject_openai_credentials token h)
          else inject_openai_credentials token h
      | None \<Rightarrow> inject_openai_credentials token h)"

fun inject_credentials :: "adapter \<Rightarrow> header_patch_ctx \<Rightarrow> header_map \<Rightarrow> header_patch_error + header_map" where
  "inject_credentials Copilot_Adapter ctx h =
     res_map (\<lambda>token. header_insert key_authorization (bearer token) h)
       (ok_or Missing_Bearer_Token (hp_bearer_token ctx))"
| "inject_credentials (Deepseek_Adapter key) ctx h = Inr (header_insert key_authorization (bearer key) h)"
| "inject_credentials (Zai_Adapter key) ctx h = Inr (header_insert key_authorization (bearer key) h)"
| "inject_credentials (Llama_Cpp_Adapter key) ctx h =
     Inr (case key of None \<Rightarrow> h | Some k \<Rightarrow> header_insert key_authorization (bearer k) h)"
| "inject_credentials (Openai_Adapter token) ctx h = Inr (inject_openai_credentials token h)"
| "inject_credentials (Codex_Adapter token account) ctx h = Inr (inject_codex_credentials token account h)"
| "inject_credentials (Opencode_Go_Adapter key) ctx h =
     Inr (if kind_endpoint (hp_kind ctx) = Some Messages then header_insert key_x_api_key key h
          else header_insert key_authorization (bearer key) h)"

section \<open>Normal forms\<close>

definition insert_some :: "header_name \<Rightarrow> string option \<Rightarrow> header_map \<Rightarrow> header_map" where
  "insert_some n v h = (case v of None \<Rightarrow> h | Some x \<Rightarrow> header_insert n x h)"

definition preserve_allowed :: "header_map \<Rightarrow> header_name list \<Rightarrow> header_map \<Rightarrow> header_map" where
  "preserve_allowed src allowed dst = fold (\<lambda>n h. insert_some n (name_get n src) h) allowed dst"

text \<open>The headers of a JSON request: set in place by most adapters.\<close>

definition json_request_headers :: "header_patch_ctx \<Rightarrow> header_map \<Rightarrow> header_map" where
  "json_request_headers ctx h =
     insert_some key_content_encoding (hp_content_encoding ctx)
       (header_insert key_content_type ''application/json'' (header_insert key_accept (accept_value (hp_stream ctx)) h))"

definition copilot_normal_headers :: "header_patch_ctx \<Rightarrow> header_map \<Rightarrow> header_map" where
  "copilot_normal_headers ctx h =
     insert_some key_content_encoding (hp_content_encoding ctx)
       (header_insert (new_header_name ''x-initiator'') (hp_initiator ctx)
         (header_insert key_content_type ''application/json'' (header_insert key_accept (accept_value (hp_stream ctx)) h)))"

definition openai_platform_headers :: "header_patch_ctx \<Rightarrow> header_map \<Rightarrow> header_map" where
  "openai_platform_headers ctx h =
     preserve_allowed h [key_user_agent]
       (json_request_headers ctx (insert_some key_authorization (name_get key_authorization h) []))"

fun str_contains :: "string \<Rightarrow> string \<Rightarrow> bool" where
  "str_contains p [] \<longleftrightarrow> p = []"
| "str_contains p (c # s) \<longleftrightarrow> starts_with p (c # s) \<or> str_contains p s"

definition is_codex_user_agent :: "string \<Rightarrow> bool" where
  "is_codex_user_agent v \<longleftrightarrow> str_contains ''codex_cli_rs'' v \<or> str_contains ''codex_exec'' v \<or> str_contains ''codex-tui'' v"

definition codex_cli_version :: string where
  "codex_cli_version = ''0.155.1''"

definition codex_responses_beta :: string where
  "codex_responses_beta = ''responses=experimental''"

definition opencode_user_agent :: string where
  "opencode_user_agent = ''opencode/1.14.28 ai-sdk/provider-utils/4.0.23 runtime/bun/1.3.13''"

definition first_of :: "header_name \<Rightarrow> header_map \<Rightarrow> string option" where
  "first_of n h = first_present h [hn_lower n]"

definition codex_session_id :: "header_patch_ctx \<Rightarrow> header_map \<Rightarrow> string option" where
  "codex_session_id ctx h = or_else (first_of key_session_id_lower h) (tv_session_id (hp_vars ctx))"

definition codex_session_affinity :: "header_patch_ctx \<Rightarrow> header_map \<Rightarrow> string option" where
  "codex_session_affinity ctx h =
     or_else (first_of key_x_session_affinity h) (or_else (tv_session_id (hp_vars ctx)) (codex_session_id ctx h))"

definition codex_cli_normal_headers :: "header_patch_ctx \<Rightarrow> header_map \<Rightarrow> header_map" where
  "codex_cli_normal_headers ctx h =
     (let user_agent =
            (case first_of key_user_agent h of
               Some v \<Rightarrow> if is_codex_user_agent v then v else ''codex_cli_rs/'' @ codex_cli_version
             | None \<Rightarrow> ''codex_cli_rs/'' @ codex_cli_version);
          out = insert_some key_authorization (first_of key_authorization h) [];
          out = header_insert key_accept (accept_value (hp_stream ctx)) out;
          out = header_insert key_content_type ''application/json'' out;
          out = header_insert key_openai_beta codex_responses_beta out;
          out = header_insert key_originator (unwrap_or ''codex_cli_rs'' (first_of key_originator h)) out;
          out = header_insert key_version codex_cli_version out;
          out = header_insert key_user_agent user_agent out;
          out = preserve_allowed h [key_x_codex_responses_lite] out;
          out = insert_some key_chatgpt_account_id (first_of key_chatgpt_account_id h) out;
          out = insert_some key_session_id_lower (codex_session_id ctx h) out;
          out = insert_some key_x_codex_turn_metadata (first_of key_x_codex_turn_metadata h) out
      in insert_some key_content_encoding (hp_content_encoding ctx) out)"

definition codex_opencode_normal_headers :: "header_patch_ctx \<Rightarrow> header_map \<Rightarrow> header_map" where
  "codex_opencode_normal_headers ctx h =
     (let out = insert_some key_authorization (first_of key_authorization h) [];
          out = header_insert key_accept (accept_value (hp_stream ctx)) out;
          out = header_insert key_content_type ''application/json'' out;
          out = header_insert key_openai_beta codex_responses_beta out;
          out = header_insert key_originator ''opencode'' out;
          out = header_insert key_user_agent opencode_user_agent out;
          out = insert_some key_chatgpt_account_id (first_of key_chatgpt_account_id h) out;
          out = insert_some key_session_id_lower (codex_session_id ctx h) out;
          out = insert_some key_x_session_affinity (codex_session_affinity ctx h) out
      in insert_some key_content_encoding (hp_content_encoding ctx) out)"

definition codex_normal_headers :: "header_patch_ctx \<Rightarrow> header_map \<Rightarrow> header_map" where
  "codex_normal_headers ctx h =
     (case hp_agent_id ctx of
        Codex_Cli \<Rightarrow> codex_cli_normal_headers ctx h
      | Opencode \<Rightarrow> codex_opencode_normal_headers ctx h
      | _ \<Rightarrow>
          if first_of key_x_codex_turn_metadata h \<noteq> None then codex_cli_normal_headers ctx h
          else codex_opencode_normal_headers ctx h)"

definition opencode_go_normal_headers :: "string \<Rightarrow> header_patch_ctx \<Rightarrow> header_map \<Rightarrow> header_map" where
  "opencode_go_normal_headers user_agent ctx h =
     (let messages = kind_endpoint (hp_kind ctx) = Some Messages;
          vars = hp_vars ctx;
          session = or_else (tv_session_id vars) (or_else (tv_interaction_id vars) (tv_request_id vars));
          out = (if messages then insert_some key_x_api_key (name_get key_x_api_key h) []
                 else insert_some key_authorization (name_get key_authorization h) []);
          out = header_insert key_accept (accept_value (hp_stream ctx)) out;
          out = header_insert key_content_type ''application/json'' out;
          out = header_insert key_user_agent user_agent out;
          out = (if messages
                 then header_insert key_anthropic_version (unwrap_or ''2023-06-01'' (name_get key_anthropic_version h)) out
                 else out);
          out = insert_some key_x_opencode_session session out
      in insert_some key_content_encoding (hp_content_encoding ctx) out)"

definition normalize_headers :: "string \<Rightarrow> adapter \<Rightarrow> header_patch_ctx \<Rightarrow> header_map \<Rightarrow> header_map" where
  "normalize_headers user_agent a ctx h =
     (case a of
        Copilot_Adapter \<Rightarrow> copilot_normal_headers ctx h
      | Deepseek_Adapter _ \<Rightarrow> json_request_headers ctx h
      | Zai_Adapter _ \<Rightarrow> json_request_headers ctx h
      | Llama_Cpp_Adapter _ \<Rightarrow> json_request_headers ctx h
      | Openai_Adapter _ \<Rightarrow> openai_platform_headers ctx h
      | Codex_Adapter _ _ \<Rightarrow> codex_normal_headers ctx h
      | Opencode_Go_Adapter _ \<Rightarrow> opencode_go_normal_headers user_agent ctx h)"

definition patch_headers ::
  "string \<Rightarrow> adapter \<Rightarrow> header_patch_ctx \<Rightarrow> header_map \<Rightarrow> header_patch_error + header_map" where
  "patch_headers user_agent a ctx h =
     res_map (\<lambda>injected. insert_some key_x_request_id (name_get key_x_request_id h) (normalize_headers user_agent a ctx injected))
       (inject_credentials a ctx h)"

section \<open>The wire\<close>

definition strip_transport_headers :: "header_map \<Rightarrow> header_map" where
  "strip_transport_headers h = header_remove ''content-length'' (header_remove ''host'' h)"

definition provider_request_headers ::
  "string \<Rightarrow> adapter \<Rightarrow> header_patch_ctx \<Rightarrow> header_map \<Rightarrow> header_patch_error + header_map" where
  "provider_request_headers user_agent a ctx client_headers =
     res_map strip_transport_headers (patch_headers user_agent a ctx client_headers)"

section \<open>The values of a header\<close>

definition values_of :: "string \<Rightarrow> header_map \<Rightarrow> string list" where
  "values_of l m = map snd (filter (\<lambda>(k, _). hn_lower k = l) m)"

lemma header_get_all_values: "header_get_all l m = values_of (str_lower l) m"
  by (simp add: header_get_all_def values_of_def)

lemma values_of_insert [simp]:
  "values_of l (header_insert n v m) = (if l = hn_lower n then [v] else values_of l m)"
  unfolding values_of_def by (rule get_all_insert)

lemma values_of_Nil [simp]: "values_of l [] = []"
  by (simp add: values_of_def)

definition opt_list :: "'a option \<Rightarrow> 'a list" where
  "opt_list x = (case x of None \<Rightarrow> [] | Some v \<Rightarrow> [v])"

lemma values_of_insert_some [simp]:
  "values_of l (insert_some n x m) = (if l = hn_lower n \<and> x \<noteq> None then opt_list x else values_of l m)"
  by (auto simp: insert_some_def opt_list_def split: option.split)

lemma values_of_remove [simp]: "values_of l (header_remove r m) = (if l = str_lower r then [] else values_of l m)"
  by (auto simp: values_of_def header_remove_def filter_empty_conv intro!: arg_cong [of _ _ "map snd"] filter_cong)

lemma name_get_values: "name_get n m = (case values_of (hn_lower n) m of [] \<Rightarrow> None | v # _ \<Rightarrow> Some v)"
  by (induction m) (auto simp: name_get_def values_of_def same_name_def)

lemma clean_values: "clean_map m ns \<Longrightarrow> values_of (hn_lower n) m = opt_list (name_get n m)"
proof -
  assume "clean_map m ns"
  then have "distinct (lower_names m)" by (simp add: clean_map_def)
  then have "length (values_of l m) \<le> 1" for l
  proof (induction m)
    case (Cons x m)
    have "l \<notin> set (lower_names m) \<Longrightarrow> values_of l m = []"
      by (induction m) (auto simp: lower_names_def values_of_def)
    then show ?case using Cons by (cases x) (auto simp: lower_names_def values_of_def)
  qed simp
  from this [of "hn_lower n"] show ?thesis
    by (auto simp: name_get_values opt_list_def split: list.splits)
qed

section \<open>Whose credentials go out\<close>

text \<open>
  The credentials an adapter sends in the headers \<open>authorization\<close> and \<open>x-api-key\<close>; \<open>None\<close> for
  an account without a key. The Codex normal form trims the header value.
\<close>

fun account_credentials :: "adapter \<Rightarrow> header_patch_ctx \<Rightarrow> (string list \<times> string list) option" where
  "account_credentials Copilot_Adapter ctx = Some (map bearer (opt_list (hp_bearer_token ctx)), [])"
| "account_credentials (Deepseek_Adapter key) ctx = Some ([bearer key], [])"
| "account_credentials (Zai_Adapter key) ctx = Some ([bearer key], [])"
| "account_credentials (Llama_Cpp_Adapter key) ctx = map_option (\<lambda>k. ([bearer k], [])) key"
| "account_credentials (Openai_Adapter token) ctx = Some ([bearer token], [])"
| "account_credentials (Codex_Adapter token account) ctx = Some ([str_trim (bearer token)], [])"
| "account_credentials (Opencode_Go_Adapter key) ctx =
     Some (if kind_endpoint (hp_kind ctx) = Some Messages then ([], [key]) else ([bearer key], []))"

lemma trimmed_bearer: "str_trim (bearer token) \<noteq> []"
proof
  assume trimmed: "str_trim (bearer token) = []"
  have "list_all (\<lambda>w. w \<noteq> [] \<and> hd w \<noteq> CHR ''B'') white_space" by code_simp
  moreover have "hd (bearer token) = CHR ''B''" "bearer token \<noteq> []" by (simp_all add: bearer_def)
  ultimately have "trim_start (bearer token) = bearer token"
    by (subst trim_start_fixed) (auto simp: list_all_iff starts_with_iff)
  then have e: "trim_end (bearer token) = []" using trimmed by (simp add: str_trim_def)
  have "trim_end (CHR ''B'' # s) \<noteq> []" for s
  proof (induction "CHR ''B'' # s" arbitrary: s rule: trim_end.induct)
    case (1 s)
    show ?case
    proof (cases "List.find (\<lambda>w. ends_with w (CHR ''B'' # s)) white_space")
      case None
      then show ?thesis by (subst trim_end.simps) simp
    next
      case (Some w)
      then have "ends_with w (CHR ''B'' # s)" "w \<in> set white_space" by (auto simp: find_Some_iff)
      moreover have "hd w \<noteq> CHR ''B''" "w \<noteq> []"
        using \<open>list_all _ white_space\<close> \<open>w \<in> set white_space\<close> by (auto simp: list_all_iff)
      ultimately obtain r where "CHR ''B'' # s = CHR ''B'' # r @ w"
        by (auto simp: ends_with_iff) (metis append_eq_Cons_conv list.sel(1))
      then have t: "take (length (CHR ''B'' # s) - length w) (CHR ''B'' # s) = CHR ''B'' # r" by simp
      show ?thesis using 1 [OF Some t] Some t by (subst trim_end.simps) simp
    qed
  qed
  with e show False by (simp add: bearer_def)
qed

lemma first_of_values:
  "str_lower (hn_lower n) = hn_lower n \<Longrightarrow>
     first_of n h = non_empty (case values_of (hn_lower n) h of [] \<Rightarrow> None | v # _ \<Rightarrow> Some v)"
  by (simp add: first_of_def first_present_def header_get_first header_get_all_values split: option.split)

lemma fold_insert_some_one: "preserve_allowed src [n] dst = insert_some n (name_get n src) dst"
  by (simp add: preserve_allowed_def)

lemma name_get_insert_some [simp]:
  "name_get k (insert_some n x m) = (if hn_lower k = hn_lower n \<and> x \<noteq> None then x else name_get k m)"
  by (auto simp: insert_some_def name_get_insert split: option.split)

lemma non_empty_bearer: "non_empty (Some (bearer token)) = Some (str_trim (bearer token))"
  using trimmed_bearer by (simp add: non_empty_def)

lemma first_of_authorization:
  "first_of key_authorization h = non_empty (case values_of ''authorization'' h of [] \<Rightarrow> None | v # _ \<Rightarrow> Some v)"
proof -
  have "str_lower (hn_lower key_authorization) = hn_lower key_authorization" by code_simp
  from first_of_values [OF this] show ?thesis by (simp add: header_keys)
qed

lemma inject_authorization:
  assumes "inject_credentials a ctx h = Inr out"
  shows "values_of ''authorization'' out =
      (case a of
         Copilot_Adapter \<Rightarrow> map bearer (opt_list (hp_bearer_token ctx))
       | Deepseek_Adapter key \<Rightarrow> [bearer key]
       | Zai_Adapter key \<Rightarrow> [bearer key]
       | Llama_Cpp_Adapter (Some key) \<Rightarrow> [bearer key]
       | Llama_Cpp_Adapter None \<Rightarrow> values_of ''authorization'' h
       | Openai_Adapter token \<Rightarrow> [bearer token]
       | Codex_Adapter token _ \<Rightarrow> [bearer token]
       | Opencode_Go_Adapter key \<Rightarrow>
           if kind_endpoint (hp_kind ctx) = Some Messages then values_of ''authorization'' h else [bearer key])"
    and "values_of ''x-api-key'' out =
      (case a of
         Opencode_Go_Adapter key \<Rightarrow>
           if kind_endpoint (hp_kind ctx) = Some Messages then [key] else values_of ''x-api-key'' h
       | _ \<Rightarrow> values_of ''x-api-key'' h)"
  using assms
  by (cases a; cases "hp_bearer_token ctx";
      auto simp: inject_openai_credentials_def inject_codex_credentials_def header_keys opt_list_def
        split: option.splits if_splits)+

lemma normal_authorization:
  "values_of ''authorization'' (normalize_headers ua a ctx h) =
     (case a of
        Openai_Adapter _ \<Rightarrow> opt_list (name_get key_authorization h)
      | Codex_Adapter _ _ \<Rightarrow> opt_list (first_of key_authorization h)
      | Opencode_Go_Adapter _ \<Rightarrow>
          if kind_endpoint (hp_kind ctx) = Some Messages then [] else opt_list (name_get key_authorization h)
      | _ \<Rightarrow> values_of ''authorization'' h)"
  "values_of ''x-api-key'' (normalize_headers ua a ctx h) =
     (case a of
        Openai_Adapter _ \<Rightarrow> []
      | Codex_Adapter _ _ \<Rightarrow> []
      | Opencode_Go_Adapter _ \<Rightarrow>
          if kind_endpoint (hp_kind ctx) = Some Messages then opt_list (name_get key_x_api_key h) else []
      | _ \<Rightarrow> values_of ''x-api-key'' h)"
  by (cases a; auto simp: normalize_headers_def copilot_normal_headers_def json_request_headers_def
      openai_platform_headers_def codex_normal_headers_def codex_cli_normal_headers_def codex_opencode_normal_headers_def
      opencode_go_normal_headers_def fold_insert_some_one header_keys new_header_name_def opt_list_def Let_def
      split: agent_id.split)+

lemma sent_credentials:
  assumes "clean_map h (map hn_lower wire_names)" and "name_get key_x_request_id h = Some request_id"
  shows "case provider_request_headers user_agent a ctx h of
      Inl e \<Rightarrow> a = Copilot_Adapter \<and> hp_bearer_token ctx = None
    | Inr sent \<Rightarrow>
        (header_get_all ''Authorization'' sent, header_get_all ''X-Api-Key'' sent) =
          (case account_credentials a ctx of Some c \<Rightarrow> c | None \<Rightarrow> (header_get_all ''Authorization'' h, [])) \<and>
        header_get_all ''X-Request-Id'' sent = [request_id] \<and>
        header_get_all ''Host'' sent = [] \<and> header_get_all ''Content-Length'' sent = []"
proof -
  have low: "str_lower ''Authorization'' = ''authorization''" "str_lower ''X-Api-Key'' = ''x-api-key''"
    "str_lower ''X-Request-Id'' = ''x-request-id''" "str_lower ''Host'' = ''host''"
    "str_lower ''Content-Length'' = ''content-length''" "str_lower ''host'' = ''host''"
    "str_lower ''content-length'' = ''content-length''"
    by code_simp+
  have key: "values_of ''x-api-key'' h = []"
  proof -
    have "''x-api-key'' \<notin> set (lower_names h)"
      using assms(1) wire_names_ok by (fastforce simp: clean_map_def list_all_iff)
    then show ?thesis by (force simp: values_of_def lower_names_def filter_empty_conv)
  qed
  show ?thesis
  proof (cases "inject_credentials a ctx h")
    case (Inl e)
    then show ?thesis
      by (cases a; cases "hp_bearer_token ctx"; simp add: provider_request_headers_def patch_headers_def res_map_def)
  next
    case (Inr injected)
    note auth = inject_authorization [OF Inr] and normal = normal_authorization [of user_agent a ctx injected]
    have sent: "provider_request_headers user_agent a ctx h = Inr (strip_transport_headers
        (insert_some key_x_request_id (Some request_id) (normalize_headers user_agent a ctx injected)))"
      by (simp add: provider_request_headers_def patch_headers_def res_map_def Inr assms(2))
    note first = first_of_authorization [of injected, unfolded header_keys]
    have creds: "(values_of ''authorization'' (normalize_headers user_agent a ctx injected),
        values_of ''x-api-key'' (normalize_headers user_agent a ctx injected)) =
          (case account_credentials a ctx of Some c \<Rightarrow> c | None \<Rightarrow> (values_of ''authorization'' h, []))"
      using Inr auth normal
      by (cases a) (auto simp: key name_get_values first non_empty_bearer opt_list_def header_keys
          split: option.splits if_splits)
    have id: "hn_lower key_x_request_id = ''x-request-id''" by (simp add: header_keys)
    show ?thesis
      unfolding sent sum.case header_get_all_values low strip_transport_headers_def values_of_remove values_of_insert_some id
      using creds by (simp add: opt_list_def)
  qed
qed

text \<open>
  C14. Whose credentials a managed request carries: the account's and no other, in the one header its
  provider reads, and never the client's; an account without a key of its own sends what the
  agent's wire identity holds. The request id is the gateway's, and the host and the length
  are left to the transport.
\<close>

theorem managed_credentials_are_accounts:
  fixes decode request_id inbound resolved extracted provider
  defines "h \<equiv> bh_headers (default_build_headers decode request_id inbound resolved extracted provider)"
  shows "case provider_request_headers user_agent a ctx h of
      Inl e \<Rightarrow> a = Copilot_Adapter \<and> hp_bearer_token ctx = None
    | Inr sent \<Rightarrow>
        (header_get_all ''Authorization'' sent, header_get_all ''X-Api-Key'' sent) =
          (case account_credentials a ctx of Some c \<Rightarrow> c | None \<Rightarrow> (header_get_all ''Authorization'' h, [])) \<and>
        header_get_all ''X-Request-Id'' sent = [request_id] \<and>
        header_get_all ''Host'' sent = [] \<and> header_get_all ''Content-Length'' sent = []"
  unfolding h_def by (rule sent_credentials [OF managed_map(1,2)])

end
