(* ===== verification/Live_Reload.thy ===== *)
theory Live_Reload
  imports Gateway_Runtime
begin

text \<open>
  Reloading a running gateway: the states of the listeners, the generations of the live
  runtime (crates/router/src/v2/mod.rs), the service settings of a configuration
  (crates/config/src/v2/compiled.rs), and the reload the gateway installs
  (crates/gateway-cli/src/cli/serve.rs).

  The lock of \<open>replace\<close> makes the replacements a sequence; a reader takes the current
  generation as a whole. Generation numbers are natural numbers here. \<open>load_ca\<close> loads the
  CA of a directory, \<open>show_error\<close> is the text of an error; logging and model refresh settings are opaque.
\<close>

section \<open>Service settings\<close>

record outbound_plan =
  op_proxy_url :: "string option"
  op_no_proxy :: "string list"
  op_use_system_proxy :: bool

record http_client_options =
  ho_url :: "string option"
  ho_no_proxy :: "string list"
  ho_system :: bool

definition to_http_client_options :: "outbound_plan \<Rightarrow> http_client_options" where
  "to_http_client_options p =
     \<lparr>ho_url = op_proxy_url p, ho_no_proxy = op_no_proxy p, ho_system = op_use_system_proxy p\<rparr>"

definition http_client_options_eq :: "http_client_options \<Rightarrow> http_client_options \<Rightarrow> bool" where
  "http_client_options_eq left right \<longleftrightarrow>
     ho_url left = ho_url right \<and> ho_no_proxy left = ho_no_proxy right \<and> ho_system left = ho_system right"

record request_limits_plan =
  rl_max_wire_bytes :: nat
  rl_max_decoded_bytes :: nat

record persistence_plan =
  pn_enabled :: bool
  pn_usage_db_path :: "string option"
  pn_sessions_db_path :: "string option"
  pn_requests_dir :: "string option"
  pn_record_sessions :: bool
  pn_record_request_bodies :: bool
  pn_body_max_bytes :: nat
  pn_write_queue_capacity :: nat
  pn_archive_extension :: "string option"
  pn_archive_after_days :: int
  pn_prune_after_days :: int

record ('l, 'm) service_plan =
  sp_logging :: 'l
  sp_outbound :: outbound_plan
  sp_request_limits :: request_limits_plan
  sp_persistence :: persistence_plan
  sp_models :: 'm

section \<open>Listener states\<close>

record 'r app_state =
  as_listener_id :: string
  as_listener :: llm_api_listener_plan
  as_runtime :: 'r
  as_request_limits :: request_limits_plan

record ('r, 'ca) forward_proxy_state =
  fs_listener_id :: string
  fs_listener :: forward_proxy_listener_plan
  fs_runtime :: 'r
  fs_ca :: "'ca option"
  fs_outbound :: http_client_options
  fs_request_limits :: request_limits_plan

record ('r, 'ca) runtime_states =
  rst_llm_api :: "'r app_state list"
  rst_forward_proxy :: "('r, 'ca) forward_proxy_state list"

datatype 'b states_error = Link_Failed 'b | Ca_Failed string string

definition app_states ::
  "gateway_plan \<Rightarrow> ('l, 'm) service_plan \<Rightarrow> 'r \<Rightarrow> 'r app_state list" where
  "app_states plan service linked =
     filter_map (\<lambda>(listener_id, listener).
         case listener of
           Llm_Api l \<Rightarrow>
             Some \<lparr>as_listener_id = listener_id, as_listener = l, as_runtime = linked,
                   as_request_limits = sp_request_limits service\<rparr>
         | Forward_Proxy _ \<Rightarrow> None)
       (gp_listeners plan)"

definition forward_proxy_state_of ::
  "(string \<Rightarrow> string + 'ca) \<Rightarrow> ('l, 'm) service_plan \<Rightarrow> 'r \<Rightarrow> string \<times> forward_proxy_listener_plan \<Rightarrow>
   'b states_error + ('r, 'ca) forward_proxy_state" where
  "forward_proxy_state_of load_ca service linked entry =
     (case entry of (listener_id, l) \<Rightarrow>
        res_map (\<lambda>ca.
            \<lparr>fs_listener_id = listener_id, fs_listener = l, fs_runtime = linked, fs_ca = ca,
             fs_outbound = to_http_client_options (sp_outbound service), fs_request_limits = sp_request_limits service\<rparr>)
          (case fp_tls l of
             None \<Rightarrow> Inr None
           | Some tls \<Rightarrow> map_err (Ca_Failed listener_id) (res_map Some (load_ca (tp_ca_dir tls)))))"

definition forward_listeners :: "gateway_plan \<Rightarrow> (string \<times> forward_proxy_listener_plan) list" where
  "forward_listeners plan =
     filter_map (\<lambda>(i, listener). case listener of Llm_Api _ \<Rightarrow> None | Forward_Proxy l \<Rightarrow> Some (i, l)) (gp_listeners plan)"

definition linked_states ::
  "(string \<Rightarrow> string + 'ca) \<Rightarrow> gateway_plan \<Rightarrow> ('l, 'm) service_plan \<Rightarrow> 'r \<Rightarrow>
   'b states_error + ('r, 'ca) runtime_states" where
  "linked_states load_ca plan service linked =
     res_map (\<lambda>proxies. \<lparr>rst_llm_api = app_states plan service linked, rst_forward_proxy = proxies\<rparr>)
       (res_collect (forward_proxy_state_of load_ca service linked) (forward_listeners plan))"

definition build_runtime_states ::
  "(string \<Rightarrow> cleartext_policy \<Rightarrow> 'u + string) \<Rightarrow> (string \<Rightarrow> string) \<Rightarrow> (http_client \<Rightarrow> string option) \<Rightarrow>
   (string \<Rightarrow> model_info list) \<Rightarrow> (string \<Rightarrow> model_info list) \<Rightarrow> (provider, 'e) registry \<Rightarrow> (string \<Rightarrow> string + 'ca) \<Rightarrow>
   gateway_plan \<Rightarrow> ('l, 'm) service_plan \<Rightarrow> account_config list \<Rightarrow>
   ('e, 'u) build_error states_error + ('e linked_runtimes, 'ca) runtime_states" where
  "build_runtime_states parse_url origin_of http_error zai defaults r load_ca plan service accounts =
     res_bind (map_err Link_Failed
         (build_profile_runtimes parse_url origin_of http_error zai defaults r plan accounts Full_Pipeline))
       (linked_states load_ca plan service)"

definition build_api_states ::
  "(string \<Rightarrow> cleartext_policy \<Rightarrow> 'u + string) \<Rightarrow> (string \<Rightarrow> string) \<Rightarrow> (http_client \<Rightarrow> string option) \<Rightarrow>
   (string \<Rightarrow> model_info list) \<Rightarrow> (string \<Rightarrow> model_info list) \<Rightarrow> (provider, 'e) registry \<Rightarrow> pipeline_mode \<Rightarrow>
   gateway_plan \<Rightarrow> ('l, 'm) service_plan \<Rightarrow> account_config list \<Rightarrow>
   ('e, 'u) build_error + 'e linked_runtimes app_state list" where
  "build_api_states parse_url origin_of http_error zai defaults r mode plan service accounts =
     res_map (app_states plan service)
       (build_profile_runtimes parse_url origin_of http_error zai defaults r plan accounts mode)"

section \<open>Generations\<close>

record ('r, 'ca) runtime_generation =
  rg_number :: nat
  rg_accounts :: nat
  rg_llm_api :: "(string, 'r app_state) bmap"
  rg_forward_proxy :: "(string, ('r, 'ca) forward_proxy_state) bmap"

definition new_generation :: "nat \<Rightarrow> nat \<Rightarrow> ('r, 'ca) runtime_states \<Rightarrow> ('r, 'ca) runtime_generation" where
  "new_generation number accounts states =
     \<lparr>rg_number = number, rg_accounts = accounts,
      rg_llm_api = bm_of_list (map (\<lambda>s. (as_listener_id s, s)) (rst_llm_api states)),
      rg_forward_proxy = bm_of_list (map (\<lambda>s. (fs_listener_id s, s)) (rst_forward_proxy states))\<rparr>"

record reload_report =
  rpt_status :: string
  rpt_generation :: nat
  rpt_accounts :: nat

text \<open>The last outcome stands for the panic of an index by a missing listener.\<close>

datatype reload_error =
    Reload_Not_Configured
  | Restart_Required string
  | Reload_Invalid string
  | Missing_Listener

fun reload_error_text :: "reload_error \<Rightarrow> string" where
  "reload_error_text Reload_Not_Configured = ''admin config reload is not configured''"
| "reload_error_text (Restart_Required message) = ''reload requires restart: '' @ message"
| "reload_error_text (Reload_Invalid message) = message"
| "reload_error_text Missing_Listener = []"

definition restart_required :: "string \<Rightarrow> string \<Rightarrow> reload_error" where
  "restart_required listener_id message =
     Restart_Required (''listener '' @ [CHR 0x27] @ listener_id @ [CHR 0x27] @ '' '' @ message)"

text \<open>The checks of one listener in their order: the first change is the error.\<close>

fun first_change :: "string \<Rightarrow> (bool \<times> string) list \<Rightarrow> reload_error + unit" where
  "first_change listener_id [] = Inr ()"
| "first_change listener_id ((changed, message) # checks) =
     (if changed then Inl (restart_required listener_id message) else first_change listener_id checks)"

definition each_listener :: "('a \<Rightarrow> reload_error + unit) \<Rightarrow> 'a list \<Rightarrow> reload_error + unit" where
  "each_listener check xs = res_map (\<lambda>_. ()) (res_collect check xs)"

definition ensure_api_listener ::
  "(string, 'r app_state) bmap \<Rightarrow> string \<times> 'r app_state \<Rightarrow> reload_error + unit" where
  "ensure_api_listener replacements entry =
     (case entry of (listener_id, current) \<Rightarrow>
        case bm_get replacements listener_id of
          None \<Rightarrow> Inl Missing_Listener
        | Some replacement \<Rightarrow>
            first_change listener_id
              [(la_bind (as_listener current) \<noteq> la_bind (as_listener replacement), ''bind address changed''),
               (la_client_auth (as_listener current) \<noteq> la_client_auth (as_listener replacement),
                ''client authentication changed''),
               (as_request_limits current \<noteq> as_request_limits replacement, ''request limits changed'')])"

definition ensure_proxy_listener ::
  "(string, ('r, 'ca) forward_proxy_state) bmap \<Rightarrow> string \<times> ('r, 'ca) forward_proxy_state \<Rightarrow> reload_error + unit" where
  "ensure_proxy_listener replacements entry =
     (case entry of (listener_id, current) \<Rightarrow>
        case bm_get replacements listener_id of
          None \<Rightarrow> Inl Missing_Listener
        | Some replacement \<Rightarrow>
            first_change listener_id
              [(fp_bind (fs_listener current) \<noteq> fp_bind (fs_listener replacement), ''bind address changed''),
               (fp_client_auth (fs_listener current) \<noteq> fp_client_auth (fs_listener replacement),
                ''client authentication changed''),
               (fp_tls (fs_listener current) \<noteq> fp_tls (fs_listener replacement), ''TLS CA configuration changed''),
               (\<not> http_client_options_eq (fs_outbound current) (fs_outbound replacement),
                ''outbound transport changed''),
               (fs_request_limits current \<noteq> fs_request_limits replacement, ''request limits changed'')])"

definition ensure_reload_compatible ::
  "('r, 'ca) runtime_generation \<Rightarrow> ('r, 'ca) runtime_generation \<Rightarrow> reload_error + unit" where
  "ensure_reload_compatible current replacement =
     (if bm_keys (rg_llm_api current) \<noteq> bm_keys (rg_llm_api replacement)
      then Inl (Restart_Required ''LLM API listener ids changed'')
      else if bm_keys (rg_forward_proxy current) \<noteq> bm_keys (rg_forward_proxy replacement)
      then Inl (Restart_Required ''forward-proxy listener ids changed'')
      else
        res_bind (each_listener (ensure_api_listener (rg_llm_api replacement)) (rg_llm_api current)) (\<lambda>_.
          each_listener (ensure_proxy_listener (rg_forward_proxy replacement)) (rg_forward_proxy current)))"

section \<open>The live runtime\<close>

text \<open>\<open>lv_refresh_changed\<close> is the generation the model refreshers are told.\<close>

record ('r, 'ca, 'f) live_runtime =
  lv_current :: "('r, 'ca) runtime_generation"
  lv_reloader :: "'f option"
  lv_refresh_changed :: nat

definition new_live :: "('r, 'ca) runtime_states \<Rightarrow> nat \<Rightarrow> ('r, 'ca, 'f) live_runtime" where
  "new_live states accounts =
     \<lparr>lv_current = new_generation 1 accounts states, lv_reloader = None, lv_refresh_changed = 1\<rparr>"

definition replace_states ::
  "('r, 'ca) runtime_states \<Rightarrow> nat \<Rightarrow> ('r, 'ca, 'f) live_runtime \<Rightarrow>
   (reload_error + reload_report) \<times> ('r, 'ca, 'f) live_runtime" where
  "replace_states states accounts live =
     (let replacement = new_generation (rg_number (lv_current live) + 1) accounts states in
      case ensure_reload_compatible (lv_current live) replacement of
        Inl e \<Rightarrow> (Inl e, live)
      | Inr _ \<Rightarrow>
          (Inr \<lparr>rpt_status = ''reloaded'', rpt_generation = rg_number replacement, rpt_accounts = rg_accounts replacement\<rparr>,
           live\<lparr>lv_current := replacement, lv_refresh_changed := rg_number replacement\<rparr>))"

definition validate_listener ::
  "('r, 'ca) runtime_generation \<Rightarrow> string \<times> listener_plan \<Rightarrow> reload_error + unit" where
  "validate_listener current entry =
     (case entry of (listener_id, listener) \<Rightarrow>
        case listener of
          Llm_Api replacement \<Rightarrow>
            (case bm_get (rg_llm_api current) listener_id of
               None \<Rightarrow> Inl Missing_Listener
             | Some existing \<Rightarrow>
                 first_change listener_id
                   [(la_bind (as_listener existing) \<noteq> la_bind replacement, ''bind address changed''),
                    (la_client_auth (as_listener existing) \<noteq> la_client_auth replacement,
                     ''client authentication changed'')])
        | Forward_Proxy replacement \<Rightarrow>
            (case bm_get (rg_forward_proxy current) listener_id of
               None \<Rightarrow> Inl Missing_Listener
             | Some existing \<Rightarrow>
                 first_change listener_id
                   [(fp_bind (fs_listener existing) \<noteq> fp_bind replacement, ''bind address changed''),
                    (fp_client_auth (fs_listener existing) \<noteq> fp_client_auth replacement,
                     ''client authentication changed''),
                    (fp_tls (fs_listener existing) \<noteq> fp_tls replacement, ''TLS CA configuration changed'')]))"

definition api_listener_ids :: "gateway_plan \<Rightarrow> string list" where
  "api_listener_ids plan =
     map fst (filter (\<lambda>(_, l). case l of Llm_Api _ \<Rightarrow> True | Forward_Proxy _ \<Rightarrow> False) (gp_listeners plan))"

definition proxy_listener_ids :: "gateway_plan \<Rightarrow> string list" where
  "proxy_listener_ids plan =
     map fst (filter (\<lambda>(_, l). case l of Llm_Api _ \<Rightarrow> False | Forward_Proxy _ \<Rightarrow> True) (gp_listeners plan))"

definition validate_reload ::
  "gateway_plan \<Rightarrow> ('r, 'ca, 'f) live_runtime \<Rightarrow> reload_error + unit" where
  "validate_reload plan live =
     (let current = lv_current live in
      if bs_of_list (bm_keys (rg_llm_api current)) \<noteq> bs_of_list (api_listener_ids plan)
      then Inl (Restart_Required ''LLM API listener ids or kinds changed'')
      else if bs_of_list (bm_keys (rg_forward_proxy current)) \<noteq> bs_of_list (proxy_listener_ids plan)
      then Inl (Restart_Required ''forward-proxy listener ids or kinds changed'')
      else each_listener (validate_listener current) (gp_listeners plan))"

definition set_admin_reloader ::
  "'f \<Rightarrow> ('r, 'ca, 'f) live_runtime \<Rightarrow> ('f + unit) \<times> ('r, 'ca, 'f) live_runtime" where
  "set_admin_reloader reloader live =
     (case lv_reloader live of
        Some _ \<Rightarrow> (Inl reloader, live)
      | None \<Rightarrow> (Inr (), live\<lparr>lv_reloader := Some reloader\<rparr>))"

text \<open>The listeners shown at the start, and the state a listener works with now; \<open>None\<close> is a panic.\<close>

definition llm_api_listeners :: "('r, 'ca, 'f) live_runtime \<Rightarrow> string list" where
  "llm_api_listeners live = bm_keys (rg_llm_api (lv_current live))"

definition forward_proxy_listeners :: "('r, 'ca, 'f) live_runtime \<Rightarrow> string list" where
  "forward_proxy_listeners live = bm_keys (rg_forward_proxy (lv_current live))"

definition current_api :: "('r, 'ca, 'f) live_runtime \<Rightarrow> string \<Rightarrow> 'r app_state option" where
  "current_api live listener_id = bm_get (rg_llm_api (lv_current live)) listener_id"

definition current_forward_proxy ::
  "('r, 'ca, 'f) live_runtime \<Rightarrow> string \<Rightarrow> ('r, 'ca) forward_proxy_state option" where
  "current_forward_proxy live listener_id = bm_get (rg_forward_proxy (lv_current live)) listener_id"

section \<open>The reload of the gateway\<close>

definition ensure_service_reload_compatible ::
  "('l, 'm) service_plan \<Rightarrow> ('l, 'm) service_plan \<Rightarrow> reload_error + unit" where
  "ensure_service_reload_compatible current replacement =
     (if sp_outbound current \<noteq> sp_outbound replacement then Inl (Restart_Required ''outbound transport settings changed'')
      else if sp_request_limits current \<noteq> sp_request_limits replacement
      then Inl (Restart_Required ''request limits changed'')
      else if sp_persistence current \<noteq> sp_persistence replacement
      then Inl (Restart_Required ''persistence settings changed'')
      else if sp_logging current \<noteq> sp_logging replacement then Inl (Restart_Required ''logging settings changed'')
      else if sp_models current \<noteq> sp_models replacement
      then Inl (Restart_Required ''model refresh settings changed'')
      else Inr ())"

text \<open>
  One run of the installed reloader: what loading gives, and the states built from it;
  \<open>build\<close> is \<open>build_runtime_states\<close> with its texts of errors.
\<close>

definition reload_gateway ::
  "(gateway_plan \<Rightarrow> ('l, 'm) service_plan \<Rightarrow> account_config list \<Rightarrow> string + ('r, 'ca) runtime_states) \<Rightarrow>
   ('l, 'm) service_plan \<Rightarrow> reload_error + gateway_plan \<times> ('l, 'm) service_plan \<times> account_config list \<Rightarrow>
   ('r, 'ca, 'f) live_runtime \<Rightarrow> (reload_error + reload_report) \<times> ('r, 'ca, 'f) live_runtime" where
  "reload_gateway build initial_service loaded live =
     (case loaded of
        Inl e \<Rightarrow> (Inl e, live)
      | Inr (plan, service, accounts) \<Rightarrow>
          (case ensure_service_reload_compatible initial_service service of
             Inl e \<Rightarrow> (Inl e, live)
           | Inr _ \<Rightarrow>
               (case validate_reload plan live of
                  Inl e \<Rightarrow> (Inl e, live)
                | Inr _ \<Rightarrow>
                    (case build plan service accounts of
                       Inl message \<Rightarrow> (Inl (Reload_Invalid message), live)
                     | Inr states \<Rightarrow> replace_states states (length accounts) live))))"

definition states_builder ::
  "(string \<Rightarrow> cleartext_policy \<Rightarrow> 'u + string) \<Rightarrow> (string \<Rightarrow> string) \<Rightarrow> (http_client \<Rightarrow> string option) \<Rightarrow>
   (string \<Rightarrow> model_info list) \<Rightarrow> (string \<Rightarrow> model_info list) \<Rightarrow> (provider, 'e) registry \<Rightarrow> (string \<Rightarrow> string + 'ca) \<Rightarrow>
   (('e, 'u) build_error states_error \<Rightarrow> string) \<Rightarrow>
   gateway_plan \<Rightarrow> ('l, 'm) service_plan \<Rightarrow> account_config list \<Rightarrow> string + ('e linked_runtimes, 'ca) runtime_states" where
  "states_builder parse_url origin_of http_error zai defaults r load_ca show_error plan service accounts =
     map_err show_error
       (build_runtime_states parse_url origin_of http_error zai defaults r load_ca plan service accounts)"

section \<open>What a reload leaves alone\<close>

text \<open>The parts of a listener that only a restart changes, and those of all listeners of a generation.\<close>

definition frozen_api :: "'r app_state \<Rightarrow> socket_addr \<times> client_auth_plan \<times> request_limits_plan" where
  "frozen_api s = (la_bind (as_listener s), la_client_auth (as_listener s), as_request_limits s)"

definition frozen_proxy ::
  "('r, 'ca) forward_proxy_state \<Rightarrow>
   socket_addr \<times> client_auth_plan \<times> tls_plan option \<times> http_client_options \<times> request_limits_plan" where
  "frozen_proxy s = (fp_bind (fs_listener s), fp_client_auth (fs_listener s), fp_tls (fs_listener s), fs_outbound s,
     fs_request_limits s)"

definition frozen_parts where
  "frozen_parts g = (bm_map frozen_api (rg_llm_api g), bm_map frozen_proxy (rg_forward_proxy g))"

lemma first_change_ok [simp]: "first_change i checks = Inr () \<longleftrightarrow> list_all (\<lambda>(changed, _). \<not> changed) checks"
  by (induction checks) (auto split: if_splits)

lemma first_change_error: "first_change i checks \<noteq> Inl Missing_Listener"
  by (induction checks) (auto simp: restart_required_def split: if_splits)

lemma each_listener_ok [simp]: "each_listener check xs = Inr () \<longleftrightarrow> list_all (\<lambda>x. check x = Inr ()) xs"
proof (induction xs)
  case (Cons x xs)
  then show ?case
    by (cases "check x"; cases "res_collect check xs") (auto simp: each_listener_def res_map_def res_bind_def)
qed (simp add: each_listener_def res_map_def)

lemma each_listener_error: "each_listener check xs = Inl e \<Longrightarrow> \<exists>x \<in> set xs. check x = Inl e"
proof (induction xs)
  case (Cons x xs)
  then show ?case
    by (cases "check x"; cases "res_collect check xs") (auto simp: each_listener_def res_map_def res_bind_def)
qed (simp add: each_listener_def res_map_def)

lemma http_options_eq [simp]: "http_client_options_eq a b \<longleftrightarrow> a = b"
  by (cases a; cases b) (simp add: http_client_options_eq_def)

lemma api_unchanged:
  "ensure_api_listener m (k, s) = Inr () \<longleftrightarrow> (\<exists>s'. bm_get m k = Some s' \<and> frozen_api s = frozen_api s')"
  by (auto simp: ensure_api_listener_def frozen_api_def split: option.split)

lemma proxy_unchanged:
  "ensure_proxy_listener m (k, s) = Inr () \<longleftrightarrow> (\<exists>s'. bm_get m k = Some s' \<and> frozen_proxy s = frozen_proxy s')"
  by (auto simp: ensure_proxy_listener_def frozen_proxy_def split: option.split)

lemma mapped_maps_eq:
  assumes d: "distinct (bm_keys m)"
  shows "bm_map f m = bm_map f m' \<longleftrightarrow>
    bm_keys m = bm_keys m' \<and> list_all (\<lambda>(k, v). \<exists>v'. bm_get m' k = Some v' \<and> f v = f v') m"
proof (cases "bm_keys m = bm_keys m'")
  case False
  then show ?thesis by (metis bm_keys_map)
next
  case True
  then have l: "length m = length m'" and d': "distinct (map fst m')"
    using d by (metis bm_keys_def length_map, simp add: bm_keys_def)
  have key: "fst (m ! i) = fst (m' ! i)" if "i < length m" for i
    using True that l by (metis bm_keys_def nth_map)
  have at: "bm_get m' (fst (m ! i)) = Some (snd (m' ! i))" if "i < length m" for i
    unfolding bm_get_def map_of_eq_Some_iff [OF d'] key [OF that] using that l by simp
  have "bm_map f m = bm_map f m' \<longleftrightarrow> (\<forall>i < length m. f (snd (m ! i)) = f (snd (m' ! i)))"
    using l key by (auto simp: bm_map_def list_eq_iff_nth_eq case_prod_beta)
  also have "\<dots> \<longleftrightarrow> list_all (\<lambda>(k, v). \<exists>v'. bm_get m' k = Some v' \<and> f v = f v') m"
    using at by (auto simp: list_all_length case_prod_beta)
  finally show ?thesis using True by simp
qed

definition live_ok :: "('r, 'ca) runtime_generation \<Rightarrow> bool" where
  "live_ok g \<longleftrightarrow> bm_ok (rg_llm_api g) \<and> bm_ok (rg_forward_proxy g)"

lemma live_ok_new [simp]: "live_ok (new_generation n a states)"
  by (simp add: live_ok_def new_generation_def)

lemma generation_numbers [simp]:
  "rg_number (new_generation n a states) = n" "rg_accounts (new_generation n a states) = a"
  by (simp_all add: new_generation_def)

lemma bm_ok_keys: "bm_ok m \<Longrightarrow> distinct (bm_keys m)"
  by (simp add: bm_keys_def bm_ok_distinct)

lemma res_bind_unit [simp]: "res_bind r (\<lambda>_. r') = Inr () \<longleftrightarrow> r = Inr () \<and> r' = Inr ()"
  by (cases r) auto

lemma compatible_iff: "live_ok g \<Longrightarrow> ensure_reload_compatible g g' = Inr () \<longleftrightarrow> frozen_parts g = frozen_parts g'"
  by (auto simp: live_ok_def ensure_reload_compatible_def frozen_parts_def mapped_maps_eq bm_ok_keys
      api_unchanged proxy_unchanged case_prod_beta list_all_iff)

lemma compatible_never_panics: "ensure_reload_compatible g g' \<noteq> Inl Missing_Listener"
proof
  assume "ensure_reload_compatible g g' = Inl Missing_Listener"
  then consider (api) k s where "(k, s) \<in> set (rg_llm_api g)" "ensure_api_listener (rg_llm_api g') (k, s) = Inl Missing_Listener"
      "bm_keys (rg_llm_api g) = bm_keys (rg_llm_api g')"
    | (proxy) k s where "(k, s) \<in> set (rg_forward_proxy g)"
      "ensure_proxy_listener (rg_forward_proxy g') (k, s) = Inl Missing_Listener"
      "bm_keys (rg_forward_proxy g) = bm_keys (rg_forward_proxy g')"
    by (auto simp: ensure_reload_compatible_def res_bind_def split: if_splits sum.splits dest!: each_listener_error)
  then show False
  proof cases
    case api
    then have "k \<in> set (bm_keys (rg_llm_api g'))" by (metis bm_keys_def fst_conv image_eqI list.set_map)
    then have "bm_get (rg_llm_api g') k \<noteq> None" by (simp add: bm_get_None_iff bm_keys_def)
    then show ?thesis using api(2) by (auto simp: ensure_api_listener_def first_change_error simp del: first_change.simps split: option.splits)
  next
    case proxy
    then have "k \<in> set (bm_keys (rg_forward_proxy g'))" by (metis bm_keys_def fst_conv image_eqI list.set_map)
    then have "bm_get (rg_forward_proxy g') k \<noteq> None" by (simp add: bm_get_None_iff bm_keys_def)
    then show ?thesis using proxy(2) by (auto simp: ensure_proxy_listener_def first_change_error simp del: first_change.simps split: option.splits)
  qed
qed

section \<open>A sequence of reloads\<close>

fun reload_all ::
  "(gateway_plan \<Rightarrow> ('l, 'm) service_plan \<Rightarrow> account_config list \<Rightarrow> string + ('r, 'ca) runtime_states) \<Rightarrow>
   ('l, 'm) service_plan \<Rightarrow> (reload_error + gateway_plan \<times> ('l, 'm) service_plan \<times> account_config list) list \<Rightarrow>
   ('r, 'ca, 'f) live_runtime \<Rightarrow> (reload_error + reload_report) list \<times> ('r, 'ca, 'f) live_runtime" where
  "reload_all build service [] live = ([], live)"
| "reload_all build service (loaded # loads) live =
     (let (outcome, live') = reload_gateway build service loaded live;
          (outcomes, live'') = reload_all build service loads live'
      in (outcome # outcomes, live''))"

lemma service_never_panics: "ensure_service_reload_compatible s s' \<noteq> Inl Missing_Listener"
  by (simp add: ensure_service_reload_compatible_def)

lemma same_ids: "bs_of_list xs = bs_of_list ys \<longleftrightarrow> set xs = set (ys :: string list)"
  by (metis bs_contains_def bs_contains_of_list sorted_list_of_set_sort_remdups bs_of_list_def subsetI subset_antisym)

lemma listed_api: "(k, Llm_Api l) \<in> set (gp_listeners plan) \<Longrightarrow> k \<in> set (api_listener_ids plan)"
  and listed_proxy: "(k, Forward_Proxy p) \<in> set (gp_listeners plan) \<Longrightarrow> k \<in> set (proxy_listener_ids plan)"
  by (force simp: api_listener_ids_def proxy_listener_ids_def)+

lemma validate_never_panics: "validate_reload plan live \<noteq> Inl Missing_Listener"
proof
  let ?g = "lv_current live"
  assume "validate_reload plan live = Inl Missing_Listener"
  then have ids: "set (bm_keys (rg_llm_api ?g)) = set (api_listener_ids plan)"
      "set (bm_keys (rg_forward_proxy ?g)) = set (proxy_listener_ids plan)"
    and "each_listener (validate_listener ?g) (gp_listeners plan) = Inl Missing_Listener"
    by (auto simp: validate_reload_def same_ids Let_def split: if_splits)
  then obtain k l where l: "(k, l) \<in> set (gp_listeners plan)" "validate_listener ?g (k, l) = Inl Missing_Listener"
    by (force dest: each_listener_error)
  show False
  proof (cases l)
    case (Llm_Api a)
    then have "bm_get (rg_llm_api ?g) k \<noteq> None"
      using listed_api [of k a plan] l(1) ids(1) by (simp add: bm_get_None_iff bm_keys_def)
    then show ?thesis
      using l(2) by (auto simp: Llm_Api validate_listener_def first_change_error simp del: first_change.simps)
  next
    case (Forward_Proxy p)
    then have "bm_get (rg_forward_proxy ?g) k \<noteq> None"
      using listed_proxy [of k p plan] l(1) ids(2) by (simp add: bm_get_None_iff bm_keys_def)
    then show ?thesis
      using l(2) by (auto simp: Forward_Proxy validate_listener_def first_change_error simp del: first_change.simps)
  qed
qed

text \<open>One reload: an error changes nothing, a success is the next generation with the same frozen parts.\<close>

lemma reload_step:
  assumes "live_ok (lv_current live)" and "reload_gateway build service loaded live = (outcome, live')"
  shows "live_ok (lv_current live') \<and> frozen_parts (lv_current live') = frozen_parts (lv_current live) \<and>
    lv_reloader live' = lv_reloader live \<and>
    (outcome = Inl Missing_Listener \<longleftrightarrow> loaded = Inl Missing_Listener) \<and>
    (case outcome of
       Inl _ \<Rightarrow> live' = live
     | Inr report \<Rightarrow>
         rg_number (lv_current live') = rg_number (lv_current live) + 1 \<and>
         lv_refresh_changed live' = rg_number (lv_current live') \<and>
         rpt_generation report = rg_number (lv_current live'))"
proof -
  have replaced: "live_ok (lv_current lv') \<and> frozen_parts (lv_current lv') = frozen_parts (lv_current live) \<and>
      lv_reloader lv' = lv_reloader live \<and> r \<noteq> Inl Missing_Listener \<and>
      (case r of
         Inl _ \<Rightarrow> lv' = live
       | Inr report \<Rightarrow>
           rg_number (lv_current lv') = rg_number (lv_current live) + 1 \<and>
           lv_refresh_changed lv' = rg_number (lv_current lv') \<and> rpt_generation report = rg_number (lv_current lv'))"
    if "replace_states states n live = (r, lv')" for states n r lv'
  proof (cases "ensure_reload_compatible (lv_current live) (new_generation (rg_number (lv_current live) + 1) n states)")
    case (Inl e)
    then show ?thesis using that assms(1) compatible_never_panics by (fastforce simp: replace_states_def)
  next
    case (Inr u)
    then have "frozen_parts (lv_current live) = frozen_parts (new_generation (rg_number (lv_current live) + 1) n states)"
      using compatible_iff [OF assms(1)] by (cases u) simp
    then show ?thesis using that Inr by (auto simp: replace_states_def Let_def)
  qed
  show ?thesis
    using assms service_never_panics validate_never_panics [of _ live]
    by (auto simp: reload_gateway_def replaced split: sum.splits prod.splits dest!: replaced)
qed

lemma reload_all_frozen:
  assumes "live_ok (lv_current live)" and "lv_refresh_changed live = rg_number (lv_current live)"
    and "reload_all build service loads live = (outcomes, live')"
  shows "live_ok (lv_current live') \<and> frozen_parts (lv_current live') = frozen_parts (lv_current live) \<and>
    rg_number (lv_current live') = rg_number (lv_current live) + length (filter (\<lambda>r. \<not> isl r) outcomes) \<and>
    lv_refresh_changed live' = rg_number (lv_current live') \<and>
    (list_ex (\<lambda>r. r = Inl Missing_Listener) outcomes \<longleftrightarrow> list_ex (\<lambda>l. l = Inl Missing_Listener) loads)"
  using assms
proof (induction build service loads live arbitrary: outcomes live' rule: reload_all.induct)
  case (2 build service loaded loads live)
  obtain r mid where r: "reload_gateway build service loaded live = (r, mid)" by fastforce
  obtain rs end' where rs: "reload_all build service loads mid = (rs, end')" by fastforce
  from "2.prems"(3) r rs have out: "outcomes = r # rs" "live' = end'" by simp_all
  have mid: "live_ok (lv_current mid)" "lv_refresh_changed mid = rg_number (lv_current mid)"
    using reload_step [OF "2.prems"(1) r] "2.prems"(2) by (auto split: sum.splits)
  note step = reload_step [OF "2.prems"(1) r] and rest = "2.IH" [OF r [symmetric] refl mid rs]
  show ?case
  proof (cases r)
    case (Inl e)
    then show ?thesis using step rest by (simp add: out)
  next
    case (Inr report)
    then have "loaded \<noteq> Inl Missing_Listener" using step by blast
    then show ?thesis using step rest by (simp add: out Inr)
  qed
qed simp

lemma frozen_keys:
  "frozen_parts g = frozen_parts g' \<Longrightarrow>
     bm_keys (rg_llm_api g) = bm_keys (rg_llm_api g') \<and> bm_keys (rg_forward_proxy g) = bm_keys (rg_forward_proxy g')"
  by (metis frozen_parts_def bm_keys_map prod.inject)

lemma frozen_get:
  assumes "frozen_parts g = frozen_parts g'"
  shows "map_option frozen_api (bm_get (rg_llm_api g) i) = map_option frozen_api (bm_get (rg_llm_api g') i)"
    and "map_option frozen_proxy (bm_get (rg_forward_proxy g) i) = map_option frozen_proxy (bm_get (rg_forward_proxy g') i)"
proof -
  from assms have "bm_map frozen_api (rg_llm_api g) = bm_map frozen_api (rg_llm_api g')"
    and "bm_map frozen_proxy (rg_forward_proxy g) = bm_map frozen_proxy (rg_forward_proxy g')"
    by (simp_all add: frozen_parts_def)
  from this [THEN arg_cong, of "\<lambda>m. bm_get m i"]
  show "map_option frozen_api (bm_get (rg_llm_api g) i) = map_option frozen_api (bm_get (rg_llm_api g') i)"
    and "map_option frozen_proxy (bm_get (rg_forward_proxy g) i) = map_option frozen_proxy (bm_get (rg_forward_proxy g') i)"
    by simp_all
qed

text \<open>
  C16. Whatever is reloaded, and however often: the gateway keeps its listeners, each with the address, client
  authentication, limits, CA and outbound transport it started with, so that no listener ever looks
  up a missing state; the generation counts the successful reloads, the refreshers are told the
  current one, and no comparison of a reload panics.
\<close>

theorem reloads_keep_listeners:
  "let start = new_live states accounts; (outcomes, live) = reload_all build service loads start in
     llm_api_listeners live = llm_api_listeners start \<and> forward_proxy_listeners live = forward_proxy_listeners start \<and>
     map_option frozen_api (current_api live i) = map_option frozen_api (current_api start i) \<and>
     map_option frozen_proxy (current_forward_proxy live i) = map_option frozen_proxy (current_forward_proxy start i) \<and>
     (current_api live i = None \<longleftrightarrow> i \<notin> set (llm_api_listeners start)) \<and>
     (current_forward_proxy live i = None \<longleftrightarrow> i \<notin> set (forward_proxy_listeners start)) \<and>
     rg_number (lv_current live) = 1 + length (filter (\<lambda>r. \<not> isl r) outcomes) \<and>
     lv_refresh_changed live = rg_number (lv_current live) \<and>
     (list_ex (\<lambda>r. r = Inl Missing_Listener) outcomes \<longleftrightarrow> list_ex (\<lambda>l. l = Inl Missing_Listener) loads)"
proof -
  define start where "start = (new_live states accounts :: ('a, 'b, 'c) live_runtime)"
  obtain outcomes live where run: "reload_all build service loads start = (outcomes, live)" by fastforce
  have ok: "live_ok (lv_current start)" "lv_refresh_changed start = rg_number (lv_current start)"
    and one: "rg_number (lv_current start) = 1"
    by (simp_all add: start_def new_live_def)
  note all = reload_all_frozen [OF ok run]
  then have frozen: "frozen_parts (lv_current live) = frozen_parts (lv_current start)" by simp
  have keys: "llm_api_listeners live = llm_api_listeners start" "forward_proxy_listeners live = forward_proxy_listeners start"
    using frozen_keys [OF frozen] by (simp_all add: llm_api_listeners_def forward_proxy_listeners_def)
  have get: "map_option frozen_api (current_api live i) = map_option frozen_api (current_api start i)"
    "map_option frozen_proxy (current_forward_proxy live i) = map_option frozen_proxy (current_forward_proxy start i)"
    using frozen_get [OF frozen, of i] by (simp_all add: current_api_def current_forward_proxy_def)
  have panic: "current_api live i = None \<longleftrightarrow> i \<notin> set (llm_api_listeners live)"
    "current_forward_proxy live i = None \<longleftrightarrow> i \<notin> set (forward_proxy_listeners live)"
    by (simp_all add: current_api_def current_forward_proxy_def llm_api_listeners_def forward_proxy_listeners_def
        bm_get_None_iff bm_keys_def)
  have n: "rg_number (lv_current live) = 1 + length (filter (\<lambda>r. \<not> isl r) outcomes)" using all one by simp
  show ?thesis
    unfolding start_def [symmetric] Let_def run case_prod_conv keys [symmetric]
    by (intro conjI HOL.refl get panic n) (use all in blast)+
qed

section \<open>A validated reload commits\<close>

text \<open>The reload without the comparison of \<open>replace\<close>: nothing fails once the states are built.\<close>

definition committed ::
  "nat \<Rightarrow> ('r, 'ca) runtime_states \<Rightarrow> ('r, 'ca, 'f) live_runtime \<Rightarrow>
   (reload_error + reload_report) \<times> ('r, 'ca, 'f) live_runtime" where
  "committed accounts states live =
     (let n = rg_number (lv_current live) + 1 in
      (Inr \<lparr>rpt_status = ''reloaded'', rpt_generation = n, rpt_accounts = accounts\<rparr>,
       live\<lparr>lv_current := new_generation n accounts states, lv_refresh_changed := n\<rparr>))"

definition reload_spec ::
  "(gateway_plan \<Rightarrow> ('l, 'm) service_plan \<Rightarrow> account_config list \<Rightarrow> string + ('r, 'ca) runtime_states) \<Rightarrow>
   ('l, 'm) service_plan \<Rightarrow> reload_error + gateway_plan \<times> ('l, 'm) service_plan \<times> account_config list \<Rightarrow>
   ('r, 'ca, 'f) live_runtime \<Rightarrow> (reload_error + reload_report) \<times> ('r, 'ca, 'f) live_runtime" where
  "reload_spec build initial_service loaded live =
     (case res_bind loaded (\<lambda>(plan, service, accounts).
         res_bind (ensure_service_reload_compatible initial_service service) (\<lambda>_.
           res_bind (validate_reload plan live) (\<lambda>_.
             res_map (\<lambda>states. (length accounts, states)) (map_err Reload_Invalid (build plan service accounts))))) of
        Inl e \<Rightarrow> (Inl e, live)
      | Inr (accounts, states) \<Rightarrow> committed accounts states live)"

text \<open>The states of a plan: each listener with its id, plan and service settings.\<close>

definition states_of :: "gateway_plan \<Rightarrow> ('l, 'm) service_plan \<Rightarrow> ('r, 'ca) runtime_states \<Rightarrow> bool" where
  "states_of plan service states \<longleftrightarrow>
     list_all (\<lambda>s. (as_listener_id s, Llm_Api (as_listener s)) \<in> set (gp_listeners plan) \<and>
         as_request_limits s = sp_request_limits service) (rst_llm_api states) \<and>
     list_all (\<lambda>s. (fs_listener_id s, Forward_Proxy (fs_listener s)) \<in> set (gp_listeners plan) \<and>
         fs_request_limits s = sp_request_limits service \<and>
         fs_outbound s = to_http_client_options (sp_outbound service)) (rst_forward_proxy states) \<and>
     as_listener_id ` set (rst_llm_api states) = set (api_listener_ids plan) \<and>
     fs_listener_id ` set (rst_forward_proxy states) = set (proxy_listener_ids plan)"

definition serves_service :: "('l, 'm) service_plan \<Rightarrow> ('r, 'ca) runtime_generation \<Rightarrow> bool" where
  "serves_service service g \<longleftrightarrow>
     list_all (\<lambda>(_, s). as_request_limits s = sp_request_limits service) (rg_llm_api g) \<and>
     list_all (\<lambda>(_, s). fs_request_limits s = sp_request_limits service \<and>
         fs_outbound s = to_http_client_options (sp_outbound service)) (rg_forward_proxy g)"

lemma app_states_of:
  "list_all (\<lambda>s. (as_listener_id s, Llm_Api (as_listener s)) \<in> set (gp_listeners plan) \<and>
     as_request_limits s = sp_request_limits service) (app_states plan service linked)"
  "as_listener_id ` set (app_states plan service linked) = set (api_listener_ids plan)"
proof -
  show "list_all (\<lambda>s. (as_listener_id s, Llm_Api (as_listener s)) \<in> set (gp_listeners plan) \<and>
     as_request_limits s = sp_request_limits service) (app_states plan service linked)"
    by (auto simp: app_states_def list_all_iff set_filter_map split: listener_plan.splits)
  have "map as_listener_id (filter_map (\<lambda>(i, l). case l of Llm_Api a \<Rightarrow> Some (f i a) | Forward_Proxy _ \<Rightarrow> None) xs) =
      map fst (filter (\<lambda>(_, l). case l of Llm_Api _ \<Rightarrow> True | Forward_Proxy _ \<Rightarrow> False) xs)"
    if "\<And>i a. as_listener_id (f i a) = i" for xs and f :: "string \<Rightarrow> llm_api_listener_plan \<Rightarrow> 'x app_state"
    using that by (induction xs) (auto split: listener_plan.splits)
  from this [of "\<lambda>i a. \<lparr>as_listener_id = i, as_listener = a, as_runtime = linked, as_request_limits = sp_request_limits service\<rparr>"]
  show "as_listener_id ` set (app_states plan service linked) = set (api_listener_ids plan)"
    unfolding app_states_def api_listener_ids_def by (metis (no_types, lifting) app_state.select_convs(1) list.set_map)
qed

lemma proxy_state_fields:
  "forward_proxy_state_of load_ca service linked (i, l) = Inr s \<Longrightarrow>
     fs_listener_id s = i \<and> fs_listener s = l \<and> fs_request_limits s = sp_request_limits service \<and>
     fs_outbound s = to_http_client_options (sp_outbound service)"
  by (auto simp: forward_proxy_state_of_def)

lemma proxy_states_fields:
  "res_collect (forward_proxy_state_of load_ca service linked) xs = Inr proxies \<Longrightarrow>
     map (\<lambda>s. (fs_listener_id s, fs_listener s)) proxies = xs \<and>
     list_all (\<lambda>s. fs_request_limits s = sp_request_limits service \<and>
       fs_outbound s = to_http_client_options (sp_outbound service)) proxies"
  by (induction xs arbitrary: proxies) (auto dest!: proxy_state_fields)

lemma proxy_states_of:
  assumes "res_collect (forward_proxy_state_of load_ca service linked) (forward_listeners plan) = Inr proxies"
  shows "list_all (\<lambda>s. (fs_listener_id s, Forward_Proxy (fs_listener s)) \<in> set (gp_listeners plan) \<and>
       fs_request_limits s = sp_request_limits service \<and>
       fs_outbound s = to_http_client_options (sp_outbound service)) proxies"
    and "fs_listener_id ` set proxies = set (proxy_listener_ids plan)"
proof -
  note fields = proxy_states_fields [OF assms]
  have "(i, l) \<in> set (filter_map (\<lambda>(i, listener). case listener of Llm_Api _ \<Rightarrow> None | Forward_Proxy l \<Rightarrow> Some (i, l)) xs) \<longleftrightarrow>
      (i, Forward_Proxy l) \<in> set xs" for i l xs
    by (induction xs) (auto split: listener_plan.splits)
  then have listed: "(i, l) \<in> set (forward_listeners plan) \<longleftrightarrow> (i, Forward_Proxy l) \<in> set (gp_listeners plan)" for i l
    by (simp add: forward_listeners_def)
  have "(fs_listener_id s, fs_listener s) \<in> set (forward_listeners plan)" if "s \<in> set proxies" for s
    using conjunct1 [OF fields, THEN arg_cong, of set] that by (auto simp: image_iff)
  then show "list_all (\<lambda>s. (fs_listener_id s, Forward_Proxy (fs_listener s)) \<in> set (gp_listeners plan) \<and>
       fs_request_limits s = sp_request_limits service \<and>
       fs_outbound s = to_http_client_options (sp_outbound service)) proxies"
    using fields by (simp add: list_all_iff listed)
  have "map fs_listener_id proxies = map fst (forward_listeners plan)"
    using conjunct1 [OF fields, THEN arg_cong, of "map fst"] by (simp add: comp_def)
  moreover have "map fst (filter_map (\<lambda>(i, listener). case listener of Llm_Api _ \<Rightarrow> None | Forward_Proxy l \<Rightarrow> Some (i, l)) xs) =
      map fst (filter (\<lambda>(_, l). case l of Llm_Api _ \<Rightarrow> False | Forward_Proxy _ \<Rightarrow> True) xs)" for xs
  proof (induction xs)
    case (Cons x xs)
    then show ?case by (cases x; cases "snd x") simp_all
  qed simp
  ultimately show "fs_listener_id ` set proxies = set (proxy_listener_ids plan)"
    unfolding proxy_listener_ids_def forward_listeners_def by (metis list.set_map)
qed

lemma built_states_of:
  assumes "states_builder parse_url origin_of http_error zai defaults r load_ca show_error plan service accounts = Inr states"
  shows "states_of plan service states"
  using assms
  apply (clarsimp simp: states_builder_def build_runtime_states_def linked_states_def)
  unfolding states_of_def runtime_states.simps
  apply (intro conjI; (rule app_states_of | erule proxy_states_of))
  done

lemma validated_parts:
  "bm_get (rg_llm_api g) k = Some s \<Longrightarrow> validate_listener g (k, Llm_Api l) = Inr () \<longleftrightarrow>
     la_bind (as_listener s) = la_bind l \<and> la_client_auth (as_listener s) = la_client_auth l"
  "bm_get (rg_forward_proxy g) k = Some t \<Longrightarrow> validate_listener g (k, Forward_Proxy p) = Inr () \<longleftrightarrow>
     fp_bind (fs_listener t) = fp_bind p \<and> fp_client_auth (fs_listener t) = fp_client_auth p \<and>
     fp_tls (fs_listener t) = fp_tls p"
  by (simp_all add: validate_listener_def)

lemma states_serve:
  assumes "states_of plan service' states" and "ensure_service_reload_compatible service service' = Inr ()"
  shows "serves_service service (new_generation n accounts states)"
proof -
  have same: "sp_outbound service = sp_outbound service'" "sp_request_limits service = sp_request_limits service'"
    using assms(2) by (auto simp: ensure_service_reload_compatible_def split: if_splits)
  have entry: "(k, s) \<in> set (bm_of_list xs) \<Longrightarrow> (k, s) \<in> set xs" for k s and xs :: "(string \<times> 'x) list"
    by (metis bm_get_iff bm_of_list_get_in bm_ok_of_list)
  show ?thesis
    using assms(1) by (auto simp: serves_service_def new_generation_def states_of_def list_all_iff same dest!: entry)
qed

text \<open>A validated plan with the service settings of the start has the frozen parts of the current generation.\<close>

lemma validated_keys:
  fixes live :: "('r, 'ca, 'f) live_runtime" and states :: "('r, 'ca) runtime_states"
  assumes ok: "live_ok (lv_current live)" and valid: "validate_reload plan live = Inr ()" and states: "states_of plan service states"
  shows "bm_keys (rg_llm_api (lv_current live)) = bm_keys (rg_llm_api (new_generation n accounts states))"
    and "bm_keys (rg_forward_proxy (lv_current live)) = bm_keys (rg_forward_proxy (new_generation n accounts states))"
    and "list_all (\<lambda>x. validate_listener (lv_current live) x = Inr ()) (gp_listeners plan)"
proof -
  let ?g = "lv_current live" and ?g' = "new_generation n accounts states"
  have ids: "set (bm_keys (rg_llm_api ?g)) = set (api_listener_ids plan)"
      "set (bm_keys (rg_forward_proxy ?g)) = set (proxy_listener_ids plan)"
    and each: "list_all (\<lambda>x. validate_listener ?g x = Inr ()) (gp_listeners plan)"
    using valid by (auto simp: validate_reload_def same_ids Let_def split: if_splits)
  show "list_all (\<lambda>x. validate_listener ?g x = Inr ()) (gp_listeners plan)" by (rule each)
  have ok': "live_ok ?g'" by simp
  have sets: "fst ` set (rg_llm_api ?g') = set (api_listener_ids plan)"
    "fst ` set (rg_forward_proxy ?g') = set (proxy_listener_ids plan)"
    using states by (auto simp: new_generation_def keys_bm_of_list image_image states_of_def)
  have eq: "xs = ys" if "sorted_wrt (<) xs" "sorted_wrt (<) ys" "set xs = set ys" for xs ys :: "string list"
    using that by (metis strict_sorted_equal)
  show "bm_keys (rg_llm_api ?g) = bm_keys (rg_llm_api ?g')" "bm_keys (rg_forward_proxy ?g) = bm_keys (rg_forward_proxy ?g')"
    using ok ok' ids sets by (auto simp: live_ok_def bm_ok_def bm_keys_def intro!: eq)
qed

lemma next_state:
  "k \<in> set (bm_keys (rg_llm_api (new_generation n accounts states))) \<Longrightarrow>
     \<exists>s. bm_get (rg_llm_api (new_generation n accounts states)) k = Some s \<and> s \<in> set (rst_llm_api states) \<and> as_listener_id s = k"
  "k \<in> set (bm_keys (rg_forward_proxy (new_generation n accounts states))) \<Longrightarrow>
     \<exists>t. bm_get (rg_forward_proxy (new_generation n accounts states)) k = Some t \<and> t \<in> set (rst_forward_proxy states) \<and>
       fs_listener_id t = k"
proof -
  have some: "k \<in> set (bm_keys m) \<Longrightarrow> \<exists>v. bm_get m k = Some v" for m :: "(string, 'x) bmap"
    by (metis bm_get_None_iff bm_keys_def list.set_map not_None_eq)
  have listed: "bm_get (bm_of_list (map (\<lambda>s. (f s, s)) xs)) k = Some s \<Longrightarrow> s \<in> set xs \<and> f s = k"
    for f :: "'x \<Rightarrow> string" and xs s
    by (drule bm_of_list_get_in) auto
  show "k \<in> set (bm_keys (rg_llm_api (new_generation n accounts states))) \<Longrightarrow>
     \<exists>s. bm_get (rg_llm_api (new_generation n accounts states)) k = Some s \<and> s \<in> set (rst_llm_api states) \<and> as_listener_id s = k"
    by (drule some) (auto simp: new_generation_def dest: listed)
  show "k \<in> set (bm_keys (rg_forward_proxy (new_generation n accounts states))) \<Longrightarrow>
     \<exists>t. bm_get (rg_forward_proxy (new_generation n accounts states)) k = Some t \<and> t \<in> set (rst_forward_proxy states) \<and>
       fs_listener_id t = k"
    by (drule some) (auto simp: new_generation_def dest: listed)
qed

lemma validated_frozen:
  fixes live :: "('r, 'ca, 'f) live_runtime" and states :: "('r, 'ca) runtime_states"
  assumes ok: "live_ok (lv_current live)" and serves: "serves_service service (lv_current live)"
    and compatible: "ensure_service_reload_compatible service service' = Inr ()"
    and valid: "validate_reload plan live = Inr ()" and states: "states_of plan service' states"
  shows "frozen_parts (lv_current live) = frozen_parts (new_generation n accounts states)"
proof -
  let ?g = "lv_current live" and ?g' = "new_generation n accounts states"
  have same: "sp_outbound service = sp_outbound service'" "sp_request_limits service = sp_request_limits service'"
    using compatible by (auto simp: ensure_service_reload_compatible_def split: if_splits)
  note keys = validated_keys(1,2) [OF ok valid states, of n accounts] and each = validated_keys(3) [OF ok valid states]
  have d: "distinct (bm_keys (rg_llm_api ?g))" "distinct (bm_keys (rg_forward_proxy ?g))"
    using ok by (auto simp: live_ok_def bm_ok_keys)
  have "\<exists>s'. bm_get (rg_llm_api ?g') k = Some s' \<and> frozen_api s = frozen_api s'" if s: "(k, s) \<in> set (rg_llm_api ?g)" for k s
  proof -
    have "k \<in> set (bm_keys (rg_llm_api ?g'))" unfolding keys(1) [symmetric] using s by (force simp: bm_keys_def)
    then obtain s' where s': "bm_get (rg_llm_api ?g') k = Some s'" "s' \<in> set (rst_llm_api states)" "as_listener_id s' = k"
      using next_state(1) by blast
    then have "(k, Llm_Api (as_listener s')) \<in> set (gp_listeners plan)" "as_request_limits s' = sp_request_limits service'"
      using states by (auto simp: states_of_def list_all_iff)
    moreover have "bm_get (rg_llm_api ?g) k = Some s" using ok s by (simp add: live_ok_def bm_get_iff)
    moreover have "as_request_limits s = sp_request_limits service" using serves s by (auto simp: serves_service_def list_all_iff)
    ultimately show ?thesis
      using validated_parts(1) [of ?g k s] each s'(1) same by (auto simp: list_all_iff frozen_api_def dest!: bspec)
  qed
  then have api: "bm_map frozen_api (rg_llm_api ?g) = bm_map frozen_api (rg_llm_api ?g')"
    unfolding mapped_maps_eq [OF d(1)] using keys by (auto simp: list_all_iff)
  have "\<exists>s'. bm_get (rg_forward_proxy ?g') k = Some s' \<and> frozen_proxy s = frozen_proxy s'"
    if s: "(k, s) \<in> set (rg_forward_proxy ?g)" for k s
  proof -
    have "k \<in> set (bm_keys (rg_forward_proxy ?g'))" unfolding keys(2) [symmetric] using s by (force simp: bm_keys_def)
    then obtain s' where s': "bm_get (rg_forward_proxy ?g') k = Some s'" "s' \<in> set (rst_forward_proxy states)"
        "fs_listener_id s' = k"
      using next_state(2) by blast
    then have "(k, Forward_Proxy (fs_listener s')) \<in> set (gp_listeners plan)"
      "fs_request_limits s' = sp_request_limits service'" "fs_outbound s' = to_http_client_options (sp_outbound service')"
      using states by (auto simp: states_of_def list_all_iff)
    moreover have "bm_get (rg_forward_proxy ?g) k = Some s" using ok s by (simp add: live_ok_def bm_get_iff)
    moreover have "fs_request_limits s = sp_request_limits service" "fs_outbound s = to_http_client_options (sp_outbound service)"
      using serves s by (auto simp: serves_service_def list_all_iff)
    ultimately show ?thesis
      using validated_parts(2) [of ?g k s] each s'(1) same by (auto simp: list_all_iff frozen_proxy_def dest!: bspec)
  qed
  then have "bm_map frozen_proxy (rg_forward_proxy ?g) = bm_map frozen_proxy (rg_forward_proxy ?g')"
    unfolding mapped_maps_eq [OF d(2)] using keys by (auto simp: list_all_iff)
  with api show ?thesis by (simp add: frozen_parts_def)
qed

lemma reload_commits:
  fixes parse_url origin_of http_error zai defaults r load_ca show_error
  assumes "live_ok (lv_current live)" and "serves_service service (lv_current live)"
  defines "build \<equiv> states_builder parse_url origin_of http_error zai defaults r load_ca show_error"
  shows "reload_gateway build service loaded live = reload_spec build service loaded live"
    and "serves_service service (lv_current (snd (reload_spec build service loaded live)))"
proof -
  have frozen: "ensure_reload_compatible (lv_current live) (new_generation n a states) = Inr ()"
    if "ensure_service_reload_compatible service service' = Inr ()" "validate_reload plan live = Inr ()"
      "build plan service' accounts = Inr states" for n a states plan service' accounts
    using validated_frozen [OF assms(1,2) that(1,2) built_states_of [OF that(3) [unfolded build_def]]]
    by (simp add: compatible_iff [OF assms(1)])
  show "reload_gateway build service loaded live = reload_spec build service loaded live"
    by (auto simp: reload_gateway_def reload_spec_def replace_states_def committed_def Let_def res_bind_def res_map_def
        map_err_def frozen split: sum.splits prod.splits)
  show "serves_service service (lv_current (snd (reload_spec build service loaded live)))"
    using assms(2) built_states_of
    by (auto simp: reload_spec_def committed_def Let_def build_def split: sum.splits prod.splits dest!: built_states_of
        intro!: states_serve)
qed

lemma reload_all_serves:
  fixes parse_url origin_of http_error zai defaults r load_ca show_error
  defines "build \<equiv> states_builder parse_url origin_of http_error zai defaults r load_ca show_error"
  assumes "live_ok (lv_current live)" and "serves_service service (lv_current live)"
  shows "live_ok (lv_current (snd (reload_all build service loads live))) \<and>
    serves_service service (lv_current (snd (reload_all build service loads live)))"
  using assms(2,3)
proof (induction loads arbitrary: live)
  case (Cons loaded loads)
  obtain r' mid where step: "reload_gateway build service loaded live = (r', mid)" by fastforce
  note commits = reload_commits [OF Cons.prems, of parse_url origin_of http_error zai defaults r load_ca show_error loaded,
      folded build_def]
  have "serves_service service (lv_current mid)" using commits step by (metis snd_conv)
  moreover have "live_ok (lv_current mid)" using reload_step [OF Cons.prems(1) step] by simp
  ultimately show ?case using Cons.IH [of mid] by (simp add: step case_prod_beta)
qed simp

text \<open>
  C15. A validated reload commits: in every state that reloads of the gateway reach, once loading, the service
  settings, the validation of the plan and the building of the states have succeeded, the
  replacement succeeds and installs exactly the next generation of those states; the settings
  compared with the start are those of every generation that was accepted.
\<close>

theorem validated_reload_commits:
  "let build = states_builder parse_url origin_of http_error zai defaults r load_ca show_error in
     case build plan service accounts of
       Inl _ \<Rightarrow> True
     | Inr states \<Rightarrow>
         (let live = snd (reload_all build service loads (new_live states (length accounts))) in
          reload_gateway build service loaded live = reload_spec build service loaded live \<and>
          serves_service service (lv_current live))"
proof -
  have served: "live_ok (lv_current (new_live states n)) \<and> serves_service service (lv_current (new_live states n))"
    if "states_builder parse_url origin_of http_error zai defaults r load_ca show_error plan service accounts = Inr states"
    for states n
    using states_serve [OF built_states_of [OF that], of service]
    by (simp add: new_live_def ensure_service_reload_compatible_def)
  show ?thesis
    unfolding Let_def
    by (auto split: sum.split dest!: served intro: reload_commits(1) dest: reload_all_serves)
qed

end
