(* ===== verification/Request_Gate.thy ===== *)
theory Request_Gate
  imports Provider_Headers Live_Reload Access Upstream_Url
begin

text \<open>
  From an HTTP request on an LLM API listener to the run of a service: authentication
  (crates/router/src/v2/mod.rs \<open>authenticate\<close>), dispatch over the mounts
  (crates/router/src/v2/mounts.rs \<open>dispatch\<close>) and the run configuration (\<open>handle\<close>).

  The headers of the HTTP library are their entries: names in lower case, a value as text when
  it is visible ASCII. Removing a name is the library's and a parameter \<open>strip\<close>; so are
  \<open>authority_of\<close>, which reads the authority of a URL, and \<open>operation_url_of\<close>, the URL a descriptor
  gives for an operation. \<open>auth\<close> is the lookup of a token in the key store. Reading and decoding
  the body are not modelled.
\<close>

section \<open>HTTP headers\<close>

type_synonym http_headers = "(string \<times> string option) list"

definition http_get :: "string \<Rightarrow> http_headers \<Rightarrow> string option" where
  "http_get name h = Option.bind (List.find (\<lambda>(k, _). k = name) h) snd"

text \<open>What is relied on: removing a name removes its entries and no others.\<close>

definition strips :: "(string \<Rightarrow> http_headers \<Rightarrow> http_headers) \<Rightarrow> bool" where
  "strips strip \<longleftrightarrow> (\<forall>name h. set (strip name h) = {(k, v) \<in> set h. k \<noteq> name})"

section \<open>The token of a request\<close>

fun split_once_space :: "string \<Rightarrow> (string \<times> string) option" where
  "split_once_space [] = None"
| "split_once_space (c # s) =
     (case List.find (\<lambda>w. starts_with w (c # s)) white_space of
        Some w \<Rightarrow> Some ([], drop (length w) (c # s))
      | None \<Rightarrow> map_option (\<lambda>(a, b). (c # a, b)) (split_once_space s))"

definition bearer_token :: "string \<Rightarrow> string option" where
  "bearer_token value =
     Option.bind (split_once_space value) (\<lambda>(scheme, token).
       if eq_ignore_ascii_case scheme ''bearer'' \<and> str_trim token \<noteq> [] then Some (str_trim token) else None)"

definition api_token :: "http_headers \<Rightarrow> string option" where
  "api_token h = or_else (Option.bind (http_get ''authorization'' h) bearer_token) (http_get ''x-api-key'' h)"

fun auth_failure :: "authentication_error \<Rightarrow> api_error" where
  "auth_failure Auth_Missing = Api_Unauthorized ''missing API key''"
| "auth_failure Auth_Invalid = Api_Unauthorized ''invalid API key''"
| "auth_failure Auth_Revoked = Api_Unauthorized ''invalid API key''"

section \<open>Admission\<close>

definition not_exposed :: api_error where
  "not_exposed = Api_Not_Found ''API path is not exposed''"

definition disabled_endpoint :: api_error where
  "disabled_endpoint = Api_Not_Found ''generation endpoint is disabled for this profile''"

text \<open>A path whose profile relays with the client's own credentials.\<close>

definition client_route :: "'e linked_runtimes \<Rightarrow> string \<Rightarrow> mounted_endpoint \<Rightarrow> bool" where
  "client_route rt path entry \<longleftrightarrow>
     (case me_operation entry of
        Generate e \<Rightarrow>
          (case select_api_profile (lr_mounts rt) (lr_profiles rt) path e of
             Inr runtime \<Rightarrow> pr_credential_policy runtime = Client_Credentials
           | Inl _ \<Rightarrow> False)
      | _ \<Rightarrow> False)"

definition authenticate_api ::
  "(string \<Rightarrow> http_headers \<Rightarrow> http_headers) \<Rightarrow> (string option \<Rightarrow> authentication_error + access_context) \<Rightarrow>
   'e linked_runtimes app_state \<Rightarrow> string \<Rightarrow> http_headers \<Rightarrow> api_error + access_context \<times> http_headers" where
  "authenticate_api strip auth state path h =
     (case mounted_at (lr_mounts (as_runtime state)) path of
        None \<Rightarrow> Inl not_exposed
      | Some entry \<Rightarrow>
          if \<not> me_enabled entry then Inl disabled_endpoint
          else if client_route (as_runtime state) path entry then Inr (unrestricted, h)
          else
            (case la_client_auth (as_listener state) of
               No_Auth \<Rightarrow> Inr (unrestricted, h)
             | Local_Keys \<Rightarrow>
                 map_err auth_failure
                   (res_map (\<lambda>access. (access, strip ''x-api-key'' (strip ''authorization'' h))) (auth (api_token h)))))"

section \<open>Dispatch\<close>

datatype api_task = Generation endpoint | Model_Listing string | Provider_Listing string

datatype gate_error = Gate_Error api_error | Method_Not_Allowed string

definition dispatch_api :: "'e linked_runtimes \<Rightarrow> string \<Rightarrow> string \<Rightarrow> gate_error + api_task" where
  "dispatch_api rt path meth =
     (case mounted_at (lr_mounts rt) path of
        None \<Rightarrow> Inl (Gate_Error not_exposed)
      | Some entry \<Rightarrow>
          if \<not> me_enabled entry then Inl (Gate_Error disabled_endpoint)
          else
            (let expected = (case me_operation entry of Generate _ \<Rightarrow> ''POST'' | _ \<Rightarrow> ''GET'') in
             if meth \<noteq> expected \<and> \<not> (expected = ''GET'' \<and> meth = ''HEAD'')
             then Inl (Method_Not_Allowed (if expected = ''POST'' then ''POST'' else ''GET, HEAD''))
             else Inr (case me_operation entry of
                         Generate e \<Rightarrow> Generation e
                       | List_Models \<Rightarrow> Model_Listing (me_profile entry)
                       | List_Providers \<Rightarrow> Provider_Listing (me_profile entry))))"

section \<open>The run configuration\<close>

definition new_config :: "string option \<Rightarrow> 'g run_config" where
  "new_config agent = \<lparr>rc_inner = [], rc_agent_id = agent, rc_generation_options = None, rc_request_method = None\<rparr>"

definition with_value :: "string \<Rightarrow> json \<Rightarrow> 'g run_config \<Rightarrow> 'g run_config" where
  "with_value key value c = c\<lparr>rc_inner := bm_insert key value (rc_inner c)\<rparr>"

definition with_str_opt :: "string \<Rightarrow> string option \<Rightarrow> 'g run_config \<Rightarrow> 'g run_config" where
  "with_str_opt key value c = (case value of None \<Rightarrow> c | Some v \<Rightarrow> with_str key v c)"

definition proxy_method_key :: string where
  "proxy_method_key = ''proxy.method''"

definition proxy_scheme_key :: string where
  "proxy_scheme_key = ''proxy.scheme''"

text \<open>The rights of the API key, for the stages that select an account.\<close>

definition with_access :: "access_context \<Rightarrow> 'g run_config \<Rightarrow> 'g run_config" where
  "with_access access c =
     (case access_provider_ids (ac_providers access) of
        None \<Rightarrow> c
      | Some providers \<Rightarrow> with_value access_allowed_providers_key (J_Array (map J_String providers)) c)"

definition url_destination :: "(url \<Rightarrow> string) \<Rightarrow> url \<Rightarrow> string \<times> string \<times> string" where
  "url_destination authority_of u =
     (url_scheme u, authority_of u, url_path u @ (case url_query u of None \<Rightarrow> [] | Some q \<Rightarrow> CHR ''?'' # q))"

definition api_run_config ::
  "((provider, 'e) provider_destination \<Rightarrow> endpoint \<Rightarrow> string + url) \<Rightarrow> (url \<Rightarrow> string) \<Rightarrow>
   (provider, 'e) provider_destination profile_runtime \<Rightarrow> access_context \<Rightarrow> string \<Rightarrow> endpoint \<Rightarrow>
   api_error + 'g run_config" where
  "api_run_config operation_url_of authority_of runtime access meth e =
     res_map (with_access access)
       (case pr_api_destination runtime of
          None \<Rightarrow> Inr (new_config (pr_agent_id runtime))
        | Some d \<Rightarrow>
            (case operation_url_of d e of
               Inl error \<Rightarrow>
                 Inl (Api_Internal (''resolve operation URL for provider '' @ [CHR 0x27] @ ds_provider_id d @ [CHR 0x27] @
                        '': '' @ error))
             | Inr u \<Rightarrow>
                 (case url_destination authority_of u of (scheme, authority, path) \<Rightarrow>
                    Inr (with_str proxy_scheme_key scheme
                          (with_str proxy_method_key meth
                            (with_str proxy_path_key path
                              (with_str proxy_path_key path
                                (with_str proxy_provider_id_key (ds_provider_id d)
                                  (with_str proxy_host_key authority (new_config (pr_agent_id runtime)))))))))))"

section \<open>A generation request\<close>

record 'g execution =
  xe_endpoint :: endpoint
  xe_service :: request_service
  xe_config :: "'g run_config"
  xe_headers :: header_map

definition handle_api ::
  "((provider, 'e) provider_destination \<Rightarrow> endpoint \<Rightarrow> string + url) \<Rightarrow> (url \<Rightarrow> string) \<Rightarrow> 'e linked_runtimes \<Rightarrow>
   access_context \<Rightarrow> string \<Rightarrow> string \<Rightarrow> http_headers \<Rightarrow> endpoint \<Rightarrow> api_error + 'g execution" where
  "handle_api operation_url_of authority_of rt access path meth h e =
     res_bind (select_api_profile (lr_mounts rt) (lr_profiles rt) path e) (\<lambda>runtime.
     res_bind (ok_or (Api_Internal ''request id missing after transport admission'') (http_get ''x-request-id'' h)) (\<lambda>_.
     res_bind (api_run_config operation_url_of authority_of runtime access meth e) (\<lambda>config.
     res_map (\<lambda>service. \<lparr>xe_endpoint = e, xe_service = service, xe_config = config, xe_headers = headers_from_wire h\<rparr>)
       (api_service_of runtime))))"

datatype 'g admitted =
    Run_Service access_context "'g execution"
  | Run_Listing access_context api_task

definition api_gate ::
  "(string \<Rightarrow> http_headers \<Rightarrow> http_headers) \<Rightarrow> (string option \<Rightarrow> authentication_error + access_context) \<Rightarrow>
   ((provider, 'e) provider_destination \<Rightarrow> endpoint \<Rightarrow> string + url) \<Rightarrow> (url \<Rightarrow> string) \<Rightarrow>
   'e linked_runtimes app_state \<Rightarrow> string \<Rightarrow> string \<Rightarrow> http_headers \<Rightarrow> gate_error + 'g admitted" where
  "api_gate strip auth operation_url_of authority_of state path meth h =
     res_bind (map_err Gate_Error (authenticate_api strip auth state path h)) (\<lambda>(access, h').
     res_bind (dispatch_api (as_runtime state) path meth) (\<lambda>task.
       case task of
         Generation e \<Rightarrow>
           map_err Gate_Error (res_map (Run_Service access)
             (handle_api operation_url_of authority_of (as_runtime state) access path meth h' e))
       | _ \<Rightarrow> Inr (Run_Listing access task)))"

section \<open>The key is taken off\<close>

lemma no_entry_no_value: "(\<And>v. (l, Some v) \<notin> set h) \<Longrightarrow> list_all (\<lambda>(k, _). str_lower k = k) h \<Longrightarrow> values_of l (headers_from_wire h) = []"
  by (force simp: values_of_def filter_empty_conv headers_from_wire_def set_filter_map list_all_iff new_header_name_def)

definition key_stripped :: "(string \<Rightarrow> http_headers \<Rightarrow> http_headers) \<Rightarrow> http_headers \<Rightarrow> http_headers" where
  "key_stripped strip h = strip ''x-api-key'' (strip ''authorization'' h)"

lemma key_stripped_values:
  assumes "strips strip" and "list_all (\<lambda>(k, _). str_lower k = k) h"
  shows "values_of ''authorization'' (headers_from_wire (key_stripped strip h)) = []"
    and "values_of ''x-api-key'' (headers_from_wire (key_stripped strip h)) = []"
proof -
  have set: "set (key_stripped strip h) = {(k, v) \<in> set h. k \<noteq> ''authorization'' \<and> k \<noteq> ''x-api-key''}"
    using assms(1) by (auto simp: key_stripped_def strips_def)
  have "list_all (\<lambda>(k, _). str_lower k = k) (key_stripped strip h)"
    using assms(2) by (auto simp: list_all_iff set)
  then show "values_of ''authorization'' (headers_from_wire (key_stripped strip h)) = []"
    "values_of ''x-api-key'' (headers_from_wire (key_stripped strip h)) = []"
    by (auto intro!: no_entry_no_value simp: set)
qed

lemma admitted_by:
  assumes "authenticate_api strip auth state path h = Inr (access, h')"
  shows "\<exists>entry. mounted_at (lr_mounts (as_runtime state)) path = Some entry \<and> me_enabled entry \<and>
    (client_route (as_runtime state) path entry \<and> access = unrestricted \<and> h' = h \<or>
     \<not> client_route (as_runtime state) path entry \<and>
     (case la_client_auth (as_listener state) of
        No_Auth \<Rightarrow> access = unrestricted \<and> h' = h
      | Local_Keys \<Rightarrow> auth (api_token h) = Inr access \<and> h' = key_stripped strip h))"
  using assms by (auto simp: authenticate_api_def key_stripped_def split: option.splits if_splits client_auth_plan.splits)

lemma handled_by:
  assumes "handle_api operation_url_of authority_of rt access path meth h e = Inr x"
  shows "xe_endpoint x = e \<and> xe_headers x = headers_from_wire h \<and>
    (\<exists>runtime. select_api_profile (lr_mounts rt) (lr_profiles rt) path e = Inr runtime \<and>
      api_run_config operation_url_of authority_of runtime access meth e = Inr (xe_config x) \<and>
      pr_api_service runtime = Some (xe_service x))"
  using assms by (auto simp: handle_api_def api_service_of_def)

lemma gate_runs:
  assumes "api_gate strip auth operation_url_of authority_of state path meth h = Inr (Run_Service access x)"
  shows "\<exists>h' entry. authenticate_api strip auth state path h = Inr (access, h') \<and>
    mounted_at (lr_mounts (as_runtime state)) path = Some entry \<and> me_operation entry = Generate (xe_endpoint x) \<and>
    meth = ''POST'' \<and>
    handle_api operation_url_of authority_of (as_runtime state) access path meth h' (xe_endpoint x) = Inr x"
proof -
  obtain access' h' task where a': "authenticate_api strip auth state path h = Inr (access', h')"
    and d: "dispatch_api (as_runtime state) path meth = Inr task"
    and t: "(case task of
         Generation e \<Rightarrow>
           map_err Gate_Error (res_map (Run_Service access')
             (handle_api operation_url_of authority_of (as_runtime state) access' path meth h' e))
       | _ \<Rightarrow> Inr (Run_Listing access' task)) = Inr (Run_Service access x)"
    using assms by (auto simp: api_gate_def)
  from t obtain e where e: "task = Generation e" by (cases task) auto
  with t have x: "handle_api operation_url_of authority_of (as_runtime state) access path meth h' e = Inr x"
    and a: "authenticate_api strip auth state path h = Inr (access, h')"
    using a' by auto
  have "xe_endpoint x = e" using handled_by [OF x] by simp
  moreover obtain entry where "mounted_at (lr_mounts (as_runtime state)) path = Some entry" "me_operation entry = Generate e"
      "meth = ''POST''"
    using d by (auto simp: dispatch_api_def e Let_def split: option.splits if_splits api_operation.splits)
  ultimately show ?thesis using a x by auto
qed

section \<open>The rights of the key reach the selection\<close>

lemma all_strings: "all_some (map json_str (map J_String ps)) = Some ps"
  by (induction ps) auto

lemma config_access:
  assumes "api_run_config operation_url_of authority_of runtime access meth e = Inr c" and "cx_config ctx = c"
  shows "\<exists>allowed. allowed_provider_ids ctx = Inr allowed \<and> provider_allowed p allowed = access_allows (ac_providers access) p"
proof -
  obtain c0 where c: "c = with_access access c0" and c0: "config_get c0 access_allowed_providers_key = None"
    using assms(1)
    by (auto simp: api_run_config_def url_destination_def new_config_def with_str_def config_get_def bm_get_insert_any
        access_allowed_providers_key_def proxy_scheme_key_def proxy_method_key_def proxy_path_key_def
        proxy_provider_id_key_def proxy_host_key_def split: option.splits sum.splits)
  show ?thesis
  proof (cases "ac_providers access")
    case All_Providers
    then show ?thesis
      using c c0 assms(2) by (auto simp: allowed_provider_ids_def with_access_def provider_allowed_def)
  next
    case (Only_Providers ps)
    then show ?thesis
      using c assms(2) all_strings [of ps]
      by (auto simp: allowed_provider_ids_def with_access_def with_value_def config_get_def bm_get_insert_any provider_allowed_def
          bs_contains_def bs_of_list_def)
  qed
qed

lemma issued_keys_only:
  assumes "list_all (op_ok parse render) ops" and "run_keys render sha256 ops = (db, keys)"
    and auth: "authenticate parse sha256 True db (Some token) = Inr access"
  shows "\<exists>key. (key, False) \<in> set keys \<and> same_token sha256 token key \<and> access = key_context key"
proof -
  have inv: "keys_inv parse render sha256 (db, keys)" using run_keys_inv [OF assms(1), of sha256] assms(2) by simp
  obtain key where "(key, False) \<in> set keys" "same_token sha256 token key" by (rule authenticated_key_stored [OF inv auth])
  with stored_key_authenticates [OF inv this] auth show ?thesis by auto
qed

section \<open>Properties\<close>

text \<open>
  C6. What a request on an LLM API listener may do: a request that runs a service is a POST to an enabled
  mount, and an account selected for it belongs to a provider that the rights of the request
  allow. Those rights are unrestricted on a path that relays the client's own credentials
  and on a listener without authentication; everywhere else they are those of an issued key that
  was presented and not revoked.
\<close>

theorem requests_stay_within_key:
  assumes strips: "strips strip" and keys: "list_all (op_ok parse render) ops" "run_keys render sha256 ops = (db, keys)"
    and gate: "api_gate strip (authenticate parse sha256 True db) operation_url_of authority_of state path meth h =
      Inr (Run_Service access x)"
    and rt: "runtime_ok (clock 0) rt" "mono clock"
    and ctx: "cx_config ctx = xe_config x"
    and selected: "select_account clock plan_route ctx extracted rt =
      (Inr (Outcome_Selected account provider operation model (Linked_Handle key)), rt')"
  shows "meth = ''POST'' \<and> access_allows (ac_providers access) (bk_provider key) \<and>
    (\<exists>entry. mounted_at (lr_mounts (as_runtime state)) path = Some entry \<and> me_enabled entry \<and>
       me_operation entry = Generate (xe_endpoint x) \<and>
       (if client_route (as_runtime state) path entry \<or> la_client_auth (as_listener state) = No_Auth
        then access = unrestricted
        else list_ex (\<lambda>(key, revoked). \<not> revoked \<and> access = key_context key \<and>
          (\<exists>token. api_token h = Some token \<and> same_token sha256 token key)) keys))"
proof -
  obtain h' entry where a: "authenticate_api strip (authenticate parse sha256 True db) state path h = Inr (access, h')"
    and e: "mounted_at (lr_mounts (as_runtime state)) path = Some entry" "me_operation entry = Generate (xe_endpoint x)" "meth = ''POST''"
    and x: "handle_api operation_url_of authority_of (as_runtime state) access path meth h' (xe_endpoint x) = Inr x"
    using gate_runs [OF gate] by blast
  obtain runtime where "api_run_config operation_url_of authority_of runtime access meth (xe_endpoint x) = Inr (xe_config x)"
    using handled_by [OF x] by blast
  from config_access [OF this ctx, of "bk_provider key"] obtain allowed where
    allowed: "allowed_provider_ids ctx = Inr allowed" "provider_allowed (bk_provider key) allowed = access_allows (ac_providers access) (bk_provider key)"
    by blast
  have "provider_allowed (bk_provider key) allowed"
    using select_account_open [OF rt selected refl] allowed(1) by (auto simp: selected_outcome_def)
  then have may: "access_allows (ac_providers access) (bk_provider key)" using allowed(2) by simp
  have issued: "list_ex (\<lambda>(key, revoked). \<not> revoked \<and> access = key_context key \<and>
      (\<exists>token. api_token h = Some token \<and> same_token sha256 token key)) keys"
    if ok: "authenticate parse sha256 True db (api_token h) = Inr access"
  proof -
    obtain token where t: "api_token h = Some token" using ok by (cases "api_token h") (auto simp: authenticate_def)
    then show ?thesis using issued_keys_only [OF keys, of token access] ok by (force simp: list_ex_iff)
  qed
  show ?thesis
    using admitted_by [OF a] e may issued by (auto split: client_auth_plan.splits)
qed

lemma persona_without_client:
  assumes "name_get key_authorization inbound = None"
  shows "set (header_get_all ''Authorization'' (bh_headers (default_build_headers decode request_id inbound resolved extracted provider)))
    \<subseteq> {''<missing>''}"
proof -
  have kind: "name_get key_authorization (build_outbound kind vars inbound) \<in> {None, Some ''<missing>''}" for kind vars
    using assms
    by (cases kind; simp add: dump_opencode_def build_opencode_def dump_codex_cli_def build_codex_cli_def
        dump_claude_code_def dump_cline_def dump_copilot_cli_def build_copilot_cli_def from_inbound_or_def header_keys)
  have overlay: "name_get key_authorization (overlay_headers k vars inbound) = None" for k vars
    by (cases k; simp add: dump_copilot_overlay_def dump_codex_overlay_def header_keys)
  let ?h = "bh_headers (default_build_headers decode request_id inbound resolved extracted provider)"
  have "name_get key_authorization ?h \<in> {None, Some ''<missing>''}"
    using kind
    by (auto simp: default_build_headers_def Let_def name_get_insert build_wire_identity_headers_def compose_headers_def
        build_agent_headers_def unwrap_or_def name_get_merge overlay [unfolded header_keys] header_keys split: option.split)
  moreover have "str_lower ''Authorization'' = hn_lower key_authorization" by code_simp
  ultimately show ?thesis
    unfolding get_all_clean [OF managed_map(1)] by (auto simp: header_get_name split: option.split)
qed

text \<open>
  C7. The gateway's API key stays inside: of a request authenticated by a key, neither the
  authorization nor the x-api-key header reaches an upstream. A relay sends none at all, whatever
  it preserves; a managed request sends those of its account, and with an account that has no
  key at most the placeholder of the wire identity.
\<close>

theorem gateway_key_stays_inside:
  assumes strips: "strips strip" and names: "list_all (\<lambda>(k, _). str_lower k = k) h"
    and gate: "api_gate strip auth operation_url_of authority_of state path meth h = Inr (Run_Service access x)"
    and local: "la_client_auth (as_listener state) = Local_Keys"
    and account: "list_all (\<lambda>e. \<not> client_route (as_runtime state) path e) (opt_list (mounted_at (lr_mounts (as_runtime state)) path))"
  shows "(\<exists>token. api_token h = token \<and> auth token = Inr access) \<and>
    (let relayed = bh_headers (passthrough_build_headers decode keep_host keep_auth (xe_headers x) resolved extracted relay) in
     header_get_all ''Authorization'' relayed = [] \<and> header_get_all ''X-Api-Key'' relayed = []) \<and>
    (case provider_request_headers user_agent a ctx
        (bh_headers (default_build_headers decode request_id (xe_headers x) resolved extracted provider)) of
       Inl e \<Rightarrow> a = Copilot_Adapter \<and> hp_bearer_token ctx = None
     | Inr sent \<Rightarrow>
         (case account_credentials a ctx of
            Some c \<Rightarrow> (header_get_all ''Authorization'' sent, header_get_all ''X-Api-Key'' sent) = c
          | None \<Rightarrow> set (header_get_all ''Authorization'' sent) \<subseteq> {''<missing>''} \<and> header_get_all ''X-Api-Key'' sent = []))"
proof -
  obtain h' where a: "authenticate_api strip auth state path h = Inr (access, h')"
    and x: "handle_api operation_url_of authority_of (as_runtime state) access path meth h' (xe_endpoint x) = Inr x"
    using gate_runs [OF gate] by blast
  have h': "auth (api_token h) = Inr access" "h' = key_stripped strip h"
    using admitted_by [OF a] local account by (auto simp: opt_list_def)
  have headers: "xe_headers x = headers_from_wire (key_stripped strip h)" using handled_by [OF x] h'(2) by simp
  note none = key_stripped_values [OF strips names, folded headers]
  have low: "str_lower ''Authorization'' = ''authorization''" "str_lower ''X-Api-Key'' = ''x-api-key''" by code_simp+
  have gone: "header_get_all ''Authorization'' (xe_headers x) = []" "header_get_all ''X-Api-Key'' (xe_headers x) = []"
    unfolding header_get_all_values low by (rule none)+
  have relayed: "header_get_all ''Authorization'' (bh_headers (passthrough_build_headers decode keep_host keep_auth (xe_headers x) resolved extracted relay)) = []"
    "header_get_all ''X-Api-Key'' (bh_headers (passthrough_build_headers decode keep_host keep_auth (xe_headers x) resolved extracted relay)) = []"
    by (simp_all only: passthrough_build_headers_def built_headers.simps headers relayed_get_all gone [unfolded headers]
        simp_thms if_False)
  have "name_get key_authorization (xe_headers x) = None"
    using none(1) by (simp add: name_get_values header_keys)
  note missing = persona_without_client [OF this, of decode request_id resolved extracted provider]
  show ?thesis
    using h'(1) relayed missing
      sent_credentials [OF managed_map(1,2) [of decode request_id "xe_headers x" resolved extracted provider], where user_agent = user_agent and a = a and ctx = ctx]
    by (auto simp: Let_def split: sum.splits option.splits)
qed

section \<open>Witnesses\<close>

definition gate_service :: request_service where
  "gate_service =
     service_of Full_Pipeline ''v2-main'' Default_Impl (Select_Account ''main'' ''main'') Provider_Default_Headers
       (Pool_Aware_Send Managed_Http ''main'') default_retry_policy"

definition gate_state :: "unit linked_runtimes app_state" where
  "gate_state =
     \<lparr>as_listener_id = ''api'',
      as_listener = \<lparr>la_bind = \<lparr>sa_ip = V4 (Ipv4 127 0 0 1), sa_port = 4000, sa_scope = 0\<rparr>, la_client_auth = Local_Keys,
        la_cors = default_cors\<rparr>,
      as_runtime =
        \<lparr>lr_profiles = [(''main'',
           \<lparr>pr_api_service = Some gate_service, pr_proxy_service = None, pr_route_kind = Managed_Kind, pr_record_mode = ''route'',
            pr_credential_policy = Account_Credentials, pr_agent_id = None, pr_api_destination = None,
            pr_proxy_destination = Managed_Upstream\<rparr>)],
         lr_discovery = \<lparr>dr_metadata = [], dr_profiles = [], dr_upstream = [], dr_caches = (\<lambda>_. empty_model_cache)\<rparr>,
         lr_mounts = [(''/v1/responses'', \<lparr>me_profile = ''main'', me_operation = Generate Responses, me_enabled = True\<rparr>)],
         lr_pools = []\<rparr>,
      as_request_limits = \<lparr>rl_max_wire_bytes = 1000, rl_max_decoded_bytes = 1000\<rparr>\<rparr>"

definition gate_headers :: http_headers where
  "gate_headers = [(''x-request-id'', Some ''r''), (''authorization'', Some (''bearer '' @ ck_token Access.sample_key)), (''x-api-key'', None)]"

definition gate_strip :: "string \<Rightarrow> http_headers \<Rightarrow> http_headers" where
  "gate_strip name h = filter (\<lambda>(k, _). k \<noteq> name) h"

definition gate_auth :: "string option \<Rightarrow> authentication_error + access_context" where
  "gate_auth = authenticate (\<lambda>_. Some (J_Array [J_String ''openai''])) id True (fst (run_keys (\<lambda>_. ''j'') id sample_ops))"

definition gate_execution :: "unit execution" where
  "gate_execution =
     \<lparr>xe_endpoint = Responses, xe_service = gate_service,
      xe_config = \<lparr>rc_inner = [(''access.allowed_providers'', J_Array [J_String ''openai''])], rc_agent_id = None,
        rc_generation_options = None, rc_request_method = None\<rparr>,
      xe_headers = [(new_header_name ''x-request-id'', ''r'')]\<rparr>"

lemma gate_strips: "strips gate_strip"
  by (auto simp: strips_def gate_strip_def)

lemma gate_admits:
  "api_gate gate_strip gate_auth (\<lambda>_ _. Inl []) url_text gate_state ''/v1/responses'' ''POST'' gate_headers =
     Inr (Run_Service (key_context Access.sample_key) gate_execution)"
  by code_simp

lemma gate_selects:
  "fst (select_account (\<lambda>k. k) (Managed routed_route) (routed_ctx\<lparr>cx_config := xe_config gate_execution\<rparr>) routed_request
      routed_runtime) =
     Inr (Outcome_Selected ''b'' ''openai'' (Some Responses) ''gpt'' (Linked_Handle (Binding_Key ''openai'' ''b'')))"
  by code_simp

theorem requests_stay_within_key_witness:
  "access_allows (ac_providers (key_context Access.sample_key)) ''openai''"
proof -
  obtain rt' where s: "select_account (\<lambda>k. k) (Managed routed_route) (routed_ctx\<lparr>cx_config := xe_config gate_execution\<rparr>)
      routed_request routed_runtime =
      (Inr (Outcome_Selected ''b'' ''openai'' (Some Responses) ''gpt'' (Linked_Handle (Binding_Key ''openai'' ''b''))), rt')"
    using gate_selects by (metis prod.collapse)
  obtain db keys where run: "run_keys (\<lambda>_. ''j'') id sample_ops = (db, keys)" by fastforce
  have gate: "api_gate gate_strip (authenticate (\<lambda>_. Some (J_Array [J_String ''openai''])) id True db) (\<lambda>_ _. Inl []) url_text
      gate_state ''/v1/responses'' ''POST'' gate_headers = Inr (Run_Service (key_context Access.sample_key) gate_execution)"
    using gate_admits by (simp add: gate_auth_def run)
  from requests_stay_within_key [OF gate_strips sample_ops_ok run gate _ _ _ s] routed_runtime_ok
  show ?thesis by (simp add: mono_def)
qed

theorem gateway_key_stays_inside_witness:
  "header_get_all ''Authorization'' (bh_headers (passthrough_build_headers (\<lambda>_. None) True True (xe_headers gate_execution)
     None None ''openai'')) = []"
proof -
  have names: "list_all (\<lambda>(k, _). str_lower k = k) gate_headers" by code_simp
  have client: "list_all (\<lambda>e. \<not> client_route (as_runtime gate_state) ''/v1/responses'' e)
      (opt_list (mounted_at (lr_mounts (as_runtime gate_state)) ''/v1/responses''))"
    by code_simp
  have keys: "la_client_auth (as_listener gate_state) = Local_Keys" by code_simp
  from gateway_key_stays_inside [OF gate_strips names gate_admits keys client] show ?thesis by (auto simp: Let_def)
qed

end
