(* ===== verification/Proxy_Gate.thy ===== *)
theory Proxy_Gate
  imports Request_Gate
begin

text \<open>
  From an HTTP request inside a forward proxy to the run of a service (crates/router/src/v2/mod.rs
  \<open>authenticate_proxy\<close>, \<open>dispatch_http_inner\<close>, \<open>proxy_destination\<close>), and the account a client's own
  credential belongs to (crates/router/src/api/identity.rs).

  \<open>parse_url\<close>, \<open>parse_pq\<close> and \<open>authority_of\<close> are the HTTP libraries' readings of texts, \<open>url_of\<close> the URL
  of a configured base, \<open>debug\<close> the debug text of an option, \<open>sha256\<close> the digest in hexadecimal and
  \<open>provider_for_url\<close> the lookup of the provider registry. Reading and decoding the body are not
  modelled.
\<close>

section \<open>Authentication\<close>

datatype proxy_auth_error = Proxy_Rejected | Proxy_Unavailable

function ascii_words :: "string \<Rightarrow> string list" where
  "ascii_words s =
     (case dropWhile is_ascii_whitespace s of
        [] \<Rightarrow> []
      | c # t \<Rightarrow> (c # takeWhile (\<lambda>c. \<not> is_ascii_whitespace c) t) # ascii_words (dropWhile (\<lambda>c. \<not> is_ascii_whitespace c) t))"
  by pat_completeness auto

termination
proof (relation "measure length")
  fix s c t
  assume "dropWhile is_ascii_whitespace s = c # t"
  then have "length (c # t) \<le> length s" by (metis length_dropWhile_le)
  then show "(dropWhile (\<lambda>c. \<not> is_ascii_whitespace c) t, s) \<in> measure length"
    using length_dropWhile_le [of "\<lambda>c. \<not> is_ascii_whitespace c" t] by simp
qed simp

declare ascii_words.simps [simp del]

definition proxy_authorizations :: "http_headers \<Rightarrow> string list option" where
  "proxy_authorizations h = all_some (map snd (filter (\<lambda>(k, _). k = ''proxy-authorization'') h))"

definition proxy_token :: "http_headers \<Rightarrow> string option" where
  "proxy_token h =
     (case proxy_authorizations h of
        Some [value] \<Rightarrow>
          (case ascii_words value of
             [scheme, token] \<Rightarrow> if eq_ignore_ascii_case scheme ''bearer'' then Some token else None
           | _ \<Rightarrow> None)
      | _ \<Rightarrow> None)"

definition authenticate_proxy ::
  "(string \<Rightarrow> http_headers \<Rightarrow> http_headers) \<Rightarrow> (string option \<Rightarrow> authentication_error + access_context) \<Rightarrow>
   client_auth_plan \<Rightarrow> http_headers \<Rightarrow> proxy_auth_error + access_context \<times> http_headers" where
  "authenticate_proxy strip auth client_auth h =
     (case client_auth of
        No_Auth \<Rightarrow> Inr (unrestricted, strip ''proxy-authorization'' h)
      | Local_Keys \<Rightarrow>
          (case proxy_token h of
             None \<Rightarrow> Inl Proxy_Rejected
           | Some token \<Rightarrow>
               map_err (\<lambda>_. Proxy_Rejected)
                 (res_map (\<lambda>access. (access, strip ''proxy-authorization'' h)) (auth (Some token)))))"

section \<open>Whose credential\<close>

record account_identity =
  ai_account_id :: "string option"
  ai_provider_id :: "string option"

definition fingerprint_of :: "(string \<Rightarrow> string) \<Rightarrow> string \<Rightarrow> string" where
  "fingerprint_of sha256 secret = (if secret = [] then ''fp:<empty>'' else ''fp:'' @ take 16 (sha256 secret))"

definition insert_fingerprint ::
  "string \<Rightarrow> account_config \<Rightarrow> (string, account_identity) bmap \<Rightarrow> (string, account_identity) bmap" where
  "insert_fingerprint fp account m =
     (if fp = ''fp:<empty>'' then m
      else bm_insert fp \<lparr>ai_account_id = Some (acc_id account), ai_provider_id = Some (acc_provider account)\<rparr> m)"

definition account_secrets :: "account_config \<Rightarrow> string list" where
  "account_secrets a =
     filter_map id [acc_api_key a, acc_access_token a, acc_id_token a] @
     (if acc_provider a = ''github-copilot'' then filter_map id [acc_refresh_token a] else [])"

definition identity_resolver ::
  "(string \<Rightarrow> string) \<Rightarrow> account_config list \<Rightarrow> (string, account_identity) bmap" where
  "identity_resolver sha256 accounts =
     fold (\<lambda>a m. fold (\<lambda>s. insert_fingerprint (fingerprint_of sha256 s) a) (account_secrets a) m) accounts []"

definition bearer_prefixed :: "string \<Rightarrow> string option" where
  "bearer_prefixed value = or_else (strip_prefix ''Bearer '' value) (strip_prefix ''bearer '' value)"

definition credential_candidates :: "http_headers \<Rightarrow> string list" where
  "credential_candidates h =
     (case http_get ''authorization'' h of
        None \<Rightarrow> []
      | Some value \<Rightarrow> (case bearer_prefixed (str_trim value) of None \<Rightarrow> [] | Some b \<Rightarrow> [b]) @ [str_trim value]) @
     (case http_get ''x-api-key'' h of None \<Rightarrow> [] | Some value \<Rightarrow> [str_trim value])"

definition match_secret ::
  "(string \<Rightarrow> string) \<Rightarrow> (string, account_identity) bmap \<Rightarrow> string \<Rightarrow> account_identity option" where
  "match_secret sha256 resolver secret =
     (if str_trim secret = [] then None else bm_get resolver (fingerprint_of sha256 (str_trim secret)))"

definition fallback_account_id :: "(string \<Rightarrow> string) \<Rightarrow> string \<Rightarrow> string option" where
  "fallback_account_id sha256 secret =
     (if length (str_trim secret) < 32 then None
      else
        map_option (\<lambda>digits. ''account_fp_'' @ rev (take 4 (rev digits)))
          (strip_prefix ''fp:'' (fingerprint_of sha256 (str_trim secret))))"

definition resolve_identity ::
  "(string \<Rightarrow> string) \<Rightarrow> (string \<Rightarrow> string option) \<Rightarrow> (string, account_identity) bmap \<Rightarrow> http_headers \<Rightarrow> string \<Rightarrow>
   account_identity" where
  "resolve_identity sha256 provider_for_url resolver h destination =
     (case find_map (match_secret sha256 resolver) (credential_candidates h) of
        Some i \<Rightarrow> i
      | None \<Rightarrow>
          \<lparr>ai_account_id = find_map (fallback_account_id sha256) (credential_candidates h),
           ai_provider_id = provider_for_url destination\<rparr>)"

section \<open>The destination\<close>

text \<open>The URI of a request as the HTTP library reads it: the authority form has no path.\<close>

record request_uri =
  ru_path :: string
  ru_path_and_query :: "string option"

definition uri_text :: "request_uri \<Rightarrow> string" where
  "uri_text uri = unwrap_or ''/'' (ru_path_and_query uri)"

fun invalid_request_text :: "(string option \<Rightarrow> string) \<Rightarrow> invalid_request_url \<Rightarrow> string" where
  "invalid_request_text debug (Invalid_Path message) = ''invalid HTTP request path: '' @ message"
| "invalid_request_text debug (Invalid_Url e) = ''invalid composed request URL: '' @ invalid_upstream_text e"
| "invalid_request_text debug (Changed_Origin expected found) =
     ''request target changed origin from '' @ quoted expected @ '' to '' @ quoted found"
| "invalid_request_text debug (Discarded_Prefix expected found) =
     ''request target discarded prefix '' @ quoted expected @ '', producing '' @ quoted found"
| "invalid_request_text debug (Changed_Path expected found) =
     ''URL parsing changed request path from '' @ quoted expected @ '' to '' @ quoted found"
| "invalid_request_text debug (Changed_Query expected found) =
     ''URL parsing changed request query from '' @ debug expected @ '' to '' @ debug found"

definition proxied_url ::
  "(string \<Rightarrow> string + url) \<Rightarrow> (string \<Rightarrow> string + path_and_query) \<Rightarrow> (string \<Rightarrow> url) \<Rightarrow> (string option \<Rightarrow> string) \<Rightarrow>
   proxy_destination \<Rightarrow> ingress_authority \<Rightarrow> string \<Rightarrow> string \<Rightarrow> api_error + url" where
  "proxied_url parse_url parse_pq url_of debug destination ingress scheme text =
     res_bind (map_err (\<lambda>e. Api_Bad_Request (''invalid proxy request path: '' @ e)) (parse_pq text)) (\<lambda>target.
       case destination of
         Fixed_Upstream _ base \<Rightarrow>
           map_err (\<lambda>e. Api_Bad_Request (invalid_request_text debug e)) (relay_url parse_url (url_of base) target)
       | _ \<Rightarrow>
           res_bind (map_err (\<lambda>e. Api_Bad_Request (invalid_upstream_text e))
               (parse_http_origin parse_url (canonical_origin scheme ingress) Allow_Cleartext)) (\<lambda>origin.
             map_err (\<lambda>e. Api_Bad_Request (invalid_request_text debug e)) (request_url parse_url origin target)))"

section \<open>The run configuration\<close>

definition inject_auth_key :: string where
  "inject_auth_key = ''proxy.inject_auth''"

definition with_original_identity ::
  "account_identity \<Rightarrow> string \<Rightarrow> 'g run_config \<Rightarrow> 'g run_config" where
  "with_original_identity identity fallback c =
     with_str_opt proxy_account_id_key (ai_account_id identity)
       (with_str proxy_provider_id_key (unwrap_or fallback (ai_provider_id identity)) c)"

definition proxy_run_config ::
  "(url \<Rightarrow> string) \<Rightarrow> (string \<Rightarrow> account_identity) \<Rightarrow> 'd profile_runtime \<Rightarrow> access_context \<Rightarrow> ingress_authority \<Rightarrow>
   string \<Rightarrow> string \<Rightarrow> url \<Rightarrow> 'g run_config" where
  "proxy_run_config authority_of identify runtime access ingress scheme meth u =
     (let origin = canonical_origin scheme ingress;
          (to_scheme, authority, path) = url_destination authority_of u;
          c = with_str proxy_host_key authority (new_config (pr_agent_id runtime));
          c = with_str proxy_path_key path c;
          c = with_str proxy_path_key path c;
          c = with_str proxy_method_key meth c;
          c = with_str proxy_scheme_key to_scheme c;
          c = with_str v2_proxy_origin_key origin c;
          c = (case pr_proxy_destination runtime of
                 Fixed_Upstream provider _ \<Rightarrow> with_str proxy_provider_id_key provider c
               | Original_Upstream \<Rightarrow>
                   if pr_credential_policy runtime = Client_Credentials
                   then with_original_identity (identify (url_text u)) (ch_value (ia_host ingress)) c
                   else with_str proxy_provider_id_key origin c
               | Managed_Upstream \<Rightarrow> with_str proxy_provider_id_key origin c);
          c = (if pr_credential_policy runtime = Account_Credentials then with_value inject_auth_key (J_Bool True) c else c)
      in with_access access c)"

section \<open>A proxied request\<close>

record 'g proxied_execution =
  px_endpoint :: request_endpoint
  px_service :: request_service
  px_method :: string
  px_uri :: request_uri
  px_config :: "'g run_config"
  px_headers :: header_map

definition dispatch_proxied ::
  "(string \<Rightarrow> string + url) \<Rightarrow> (string \<Rightarrow> string + path_and_query) \<Rightarrow> (string \<Rightarrow> url) \<Rightarrow> (string option \<Rightarrow> string) \<Rightarrow>
   (url \<Rightarrow> string) \<Rightarrow> (http_headers \<Rightarrow> string \<Rightarrow> account_identity) \<Rightarrow> forward_proxy_listener_plan \<Rightarrow>
   (string, 'd profile_runtime) bmap \<Rightarrow> ingress_authority \<Rightarrow> string \<Rightarrow> access_context \<Rightarrow> string \<Rightarrow> request_uri \<Rightarrow>
   http_headers \<Rightarrow> api_error + 'g proxied_execution" where
  "dispatch_proxied parse_url parse_pq url_of debug authority_of identify listener profiles ingress scheme access meth uri h =
     res_bind (select_proxy_profile listener profiles ingress meth (ru_path uri)) (\<lambda>runtime.
     res_bind (proxy_service_of runtime) (\<lambda>service.
     res_bind (ok_or (Api_Internal ''request id missing after transport admission'') (http_get ''x-request-id'' h)) (\<lambda>_.
     res_bind (if pr_route_kind runtime = Managed_Kind \<and> resolved_of (infer_from_path (ru_path uri)) = None
               then Inl (Api_Bad_Request ''managed proxy routes require a supported LLM operation path'') else Inr ()) (\<lambda>_.
     res_map (\<lambda>u. \<lparr>px_endpoint = infer_from_path (ru_path uri), px_service = service, px_method = meth, px_uri = uri,
         px_config = proxy_run_config authority_of (identify h) runtime access ingress scheme meth u,
         px_headers = headers_from_wire h\<rparr>)
       (proxied_url parse_url parse_pq url_of debug (pr_proxy_destination runtime) ingress scheme (uri_text uri))))))"

end
