(* ===== verification/Generation.thy ===== *)
theory Generation
  imports Provider_Headers
begin

text \<open>
  Provider-neutral generation controls (crates/core/src/generation.rs) and their lowering into
  the body of the selected endpoint and provider
  (crates/requests/src/stages/convert_request/generation.rs).

  A body is lowered or refused: what \<open>carries\<close> says of the lowered body is that every control
  asked for is where the upstream reads it.
\<close>

section \<open>The controls\<close>

datatype reasoning_mode = Mode_Enabled | Mode_Disabled | Mode_Adaptive

datatype reasoning_summary = Summary_Auto | Summary_Concise | Summary_Detailed | Summary_Custom string

fun summary_str :: "reasoning_summary \<Rightarrow> string" where
  "summary_str Summary_Auto = ''auto''"
| "summary_str Summary_Concise = ''concise''"
| "summary_str Summary_Detailed = ''detailed''"
| "summary_str (Summary_Custom v) = v"

definition summary_from :: "string \<Rightarrow> reasoning_summary" where
  "summary_from v =
     (if v = ''auto'' then Summary_Auto else if v = ''concise'' then Summary_Concise
      else if v = ''detailed'' then Summary_Detailed else Summary_Custom v)"

record reasoning_options =
  ro_mode :: "reasoning_mode option"
  ro_effort :: "reasoning_effort option"
  ro_budget_tokens :: "nat option"
  ro_summary :: "reasoning_summary option"

record generation_options =
  go_max_output_tokens :: "nat option"
  go_top_k :: "nat option"
  go_reasoning :: "reasoning_options option"

definition options_empty :: "generation_options \<Rightarrow> bool" where
  "options_empty opts \<longleftrightarrow> go_max_output_tokens opts = None \<and> go_top_k opts = None \<and> go_reasoning opts = None"

definition reasoning_empty :: "reasoning_options \<Rightarrow> bool" where
  "reasoning_empty r \<longleftrightarrow> ro_mode r = None \<and> ro_effort r = None \<and> ro_budget_tokens r = None \<and> ro_summary r = None"

datatype generation_options_error =
    Invalid_Max_Output_Tokens
  | Empty_Reasoning_Options
  | Invalid_Reasoning_Budget
  | Disabled_Reasoning_Controls
  | Adaptive_Reasoning_Budget
  | Blank_Reasoning_Effort
  | Blank_Reasoning_Summary

fun generation_error_text :: "generation_options_error \<Rightarrow> string" where
  "generation_error_text Invalid_Max_Output_Tokens = ''max_output_tokens must be greater than zero''"
| "generation_error_text Empty_Reasoning_Options = ''reasoning options cannot be empty''"
| "generation_error_text Invalid_Reasoning_Budget = ''reasoning budget_tokens must be greater than zero''"
| "generation_error_text Disabled_Reasoning_Controls =
     ''disabled reasoning cannot also specify effort, budget_tokens, or summary''"
| "generation_error_text Adaptive_Reasoning_Budget = ''adaptive reasoning cannot specify budget_tokens''"
| "generation_error_text Blank_Reasoning_Effort = ''custom reasoning effort cannot be empty''"
| "generation_error_text Blank_Reasoning_Summary = ''custom reasoning summary cannot be empty''"

definition validate_reasoning :: "reasoning_options \<Rightarrow> generation_options_error + unit" where
  "validate_reasoning r =
     (if reasoning_empty r then Inl Empty_Reasoning_Options
      else if ro_budget_tokens r = Some 0 then Inl Invalid_Reasoning_Budget
      else if ro_mode r = Some Mode_Disabled
              \<and> (ro_effort r \<noteq> None \<or> ro_budget_tokens r \<noteq> None \<or> ro_summary r \<noteq> None)
      then Inl Disabled_Reasoning_Controls
      else if ro_mode r = Some Mode_Adaptive \<and> ro_budget_tokens r \<noteq> None then Inl Adaptive_Reasoning_Budget
      else if (case ro_effort r of Some (Custom v) \<Rightarrow> str_trim v = [] | _ \<Rightarrow> False) then Inl Blank_Reasoning_Effort
      else if (case ro_summary r of Some (Summary_Custom v) \<Rightarrow> str_trim v = [] | _ \<Rightarrow> False)
      then Inl Blank_Reasoning_Summary
      else Inr ())"

definition validate_options :: "generation_options \<Rightarrow> generation_options_error + unit" where
  "validate_options opts =
     (if go_max_output_tokens opts = Some 0 then Inl Invalid_Max_Output_Tokens
      else case go_reasoning opts of None \<Rightarrow> Inr () | Some r \<Rightarrow> validate_reasoning r)"

section \<open>Refusals\<close>

definition unsupported :: "string \<Rightarrow> string \<Rightarrow> endpoint \<Rightarrow> string \<Rightarrow> requests_error + 'a" where
  "unsupported control provider_id e reason = Inl (Unsupported_Generation_Control control provider_id e reason)"

definition reject_mode :: "reasoning_options \<Rightarrow> string \<Rightarrow> endpoint \<Rightarrow> reasoning_mode list \<Rightarrow> string \<Rightarrow> requests_error + unit" where
  "reject_mode r provider_id e rejected reason =
     (if (case ro_mode r of None \<Rightarrow> False | Some mode \<Rightarrow> mode \<in> set rejected)
      then unsupported ''reasoning.mode'' provider_id e reason else Inr ())"

definition reject_present :: "'a option \<Rightarrow> string \<Rightarrow> string \<Rightarrow> endpoint \<Rightarrow> string \<Rightarrow> requests_error + unit" where
  "reject_present v control provider_id e reason =
     (if v \<noteq> None then unsupported control provider_id e reason else Inr ())"

definition remove_fields :: "string list \<Rightarrow> (string, json) bmap \<Rightarrow> (string, json) bmap" where
  "remove_fields names obj = fold bm_remove names obj"

fun reasoning_mode_str :: "reasoning_mode \<Rightarrow> string" where
  "reasoning_mode_str Mode_Enabled = ''enabled''"
| "reasoning_mode_str Mode_Disabled = ''disabled''"
| "reasoning_mode_str Mode_Adaptive = ''adaptive''"

text \<open>\<open>object_field\<close> gives a mutable view of a member, made an object first; here the update of that view.\<close>

definition field_object :: "string \<Rightarrow> (string, json) bmap \<Rightarrow> (string, json) bmap" where
  "field_object field obj = (case bm_get obj field of Some (J_Object m) \<Rightarrow> m | _ \<Rightarrow> [])"

definition object_field ::
  "string \<Rightarrow> ((string, json) bmap \<Rightarrow> (string, json) bmap) \<Rightarrow> (string, json) bmap \<Rightarrow> (string, json) bmap" where
  "object_field field f obj = bm_insert field (J_Object (f (field_object field obj))) obj"

section \<open>Claude models\<close>

definition normalize_claude_model :: "string \<Rightarrow> string" where
  "normalize_claude_model model = map (\<lambda>c. if c = CHR ''.'' \<or> c = CHR ''_'' then CHR ''-'' else c) (str_lower model)"

definition is_claude_model :: "string \<Rightarrow> bool" where
  "is_claude_model model \<longleftrightarrow> starts_with ''claude-'' (normalize_claude_model model)"

datatype thinking_support = Manual_Only | Adaptive_And_Manual | Adaptive_Only | Unknown_Support

definition claude_thinking_support :: "string \<Rightarrow> thinking_support" where
  "claude_thinking_support raw =
     (let model = normalize_claude_model raw in
      if str_contains ''mythos-preview'' model \<or> str_contains ''-4-6'' model then Adaptive_And_Manual
      else if str_contains ''-4-7'' model \<or> str_contains ''-4-8'' model \<or> str_contains ''claude-sonnet-5'' model
              \<or> str_contains ''claude-opus-5'' model \<or> str_contains ''claude-fable-5'' model
              \<or> str_contains ''claude-mythos-5'' model
      then Adaptive_Only
      else if str_contains ''-4-5'' model \<or> str_contains ''-4-1'' model \<or> str_contains ''-4-0'' model
              \<or> str_contains ''claude-opus-41'' model \<or> model = ''claude-sonnet-4''
              \<or> starts_with ''claude-sonnet-4-20'' model \<or> str_contains ''claude-3-7'' model
      then Manual_Only
      else Unknown_Support)"

definition claude_rejects_disabled_reasoning :: "string \<Rightarrow> bool" where
  "claude_rejects_disabled_reasoning raw \<longleftrightarrow>
     (let model = normalize_claude_model raw in
      str_contains ''claude-fable-5'' model \<or> str_contains ''claude-mythos-5'' model
      \<or> str_contains ''mythos-preview'' model)"

definition claude_rejects_sampling_controls :: "string \<Rightarrow> bool" where
  "claude_rejects_sampling_controls raw \<longleftrightarrow>
     (let model = normalize_claude_model raw in
      str_contains ''claude-fable-5'' model \<or> str_contains ''claude-mythos-5'' model
      \<or> str_contains ''mythos-preview'' model \<or> str_contains ''claude-opus-4-7'' model
      \<or> str_contains ''claude-opus-4-8'' model \<or> str_contains ''claude-opus-5'' model
      \<or> str_contains ''claude-sonnet-5'' model)"

text \<open>
  \<open>as_f64\<close> compared with 1 and with the range from 0.95 to 1. A float is its shortest decimal
  text, which is ordered as the floats are: a mantissa and an exponent of ten are compared.
\<close>

definition digits_value :: "string \<Rightarrow> int" where
  "digits_value s = foldl (\<lambda>n c. 10 * n + (int (byte c) - 48)) 0 s"

definition signed_digits :: "string \<Rightarrow> int" where
  "signed_digits s =
     (case s of CHR ''-'' # t \<Rightarrow> - digits_value t | CHR ''+'' # t \<Rightarrow> digits_value t | _ \<Rightarrow> digits_value s)"

definition float_decimal :: "string \<Rightarrow> int \<times> int" where
  "float_decimal text =
     (let (negative, s) = (case text of CHR ''-'' # t \<Rightarrow> (True, t) | _ \<Rightarrow> (False, text));
          (mantissa, ex) = (case split_once CHR ''e'' s of None \<Rightarrow> (s, 0) | Some (m, x) \<Rightarrow> (m, signed_digits x));
          (whole, fraction) = (case split_once CHR ''.'' mantissa of None \<Rightarrow> (mantissa, []) | Some p \<Rightarrow> p);
          v = digits_value (whole @ fraction)
      in (if negative then - v else v, ex - int (length fraction)))"

fun json_decimal :: "json \<Rightarrow> (int \<times> int) option" where
  "json_decimal (J_Number (N_Int n)) = Some (n, 0)"
| "json_decimal (J_Number (N_Float s)) = Some (float_decimal s)"
| "json_decimal _ = None"

fun decimal_le :: "int \<times> int \<Rightarrow> int \<times> int \<Rightarrow> bool" where
  "decimal_le (m, e) (n, f) \<longleftrightarrow> m * 10 ^ nat (e - min e f) \<le> n * 10 ^ nat (f - min e f)"

definition f64_is_one :: "json \<Rightarrow> bool" where
  "f64_is_one v = (case json_decimal v of None \<Rightarrow> False | Some x \<Rightarrow> decimal_le x (1, 0) \<and> decimal_le (1, 0) x)"

definition f64_near_one :: "json \<Rightarrow> bool" where
  "f64_near_one v = (case json_decimal v of None \<Rightarrow> False | Some x \<Rightarrow> decimal_le (95, - 2) x \<and> decimal_le x (1, 0))"

definition validate_claude_sampling ::
  "(string, json) bmap \<Rightarrow> endpoint \<Rightarrow> string \<Rightarrow> string \<Rightarrow> bool \<Rightarrow> requests_error + unit" where
  "validate_claude_sampling obj e provider_id model thinking_enabled =
     (let hot = (case bm_get obj ''temperature'' of None \<Rightarrow> False | Some v \<Rightarrow> \<not> f64_is_one v) in
      if claude_rejects_sampling_controls model
      then (if hot
            then unsupported ''temperature'' provider_id e ''this Claude model rejects non-default sampling controls''
            else if bm_get obj ''top_p'' \<noteq> None
            then unsupported ''top_p'' provider_id e ''this Claude model rejects non-default sampling controls''
            else Inr ())
      else if \<not> thinking_enabled then Inr ()
      else if hot
      then unsupported ''temperature'' provider_id e
             ''Claude requires temperature to be omitted or set to 1 while thinking is enabled''
      else if (case bm_get obj ''top_p'' of None \<Rightarrow> False | Some v \<Rightarrow> \<not> f64_near_one v)
      then unsupported ''top_p'' provider_id e
             ''Claude requires top_p to be between 0.95 and 1 while thinking is enabled''
      else Inr ())"

definition validate_claude_reasoning ::
  "(string, json) bmap \<Rightarrow> endpoint \<Rightarrow> string \<Rightarrow> string \<Rightarrow> reasoning_options \<Rightarrow> requests_error + unit" where
  "validate_claude_reasoning obj e provider_id model r =
     (let support = claude_thinking_support model;
          manual = (ro_mode r = Some Mode_Enabled \<or> ro_budget_tokens r \<noteq> None) in
      if ro_mode r = Some Mode_Disabled \<and> claude_rejects_disabled_reasoning model
      then unsupported ''reasoning.mode'' provider_id e
             ''this Claude model has adaptive reasoning enabled by default and does not support disabling it''
      else
        res_bind
          (if \<not> manual then Inr ()
           else case ro_budget_tokens r of
             None \<Rightarrow> unsupported ''reasoning.budget_tokens'' provider_id e
                       ''manual Claude reasoning requires an explicit token budget''
           | Some budget_tokens \<Rightarrow>
               if budget_tokens < 1024
               then unsupported ''reasoning.budget_tokens'' provider_id e
                      ''manual Claude reasoning requires a budget of at least 1024 tokens''
               else if support = Adaptive_Only
               then unsupported ''reasoning.mode'' provider_id e
                      ''this Claude model supports adaptive reasoning instead of manual token budgets''
               else case Option.bind (bm_get obj ''max_tokens'') json_u64 of
                 None \<Rightarrow> unsupported ''max_output_tokens'' provider_id e
                           ''manual Claude reasoning requires an explicit max_tokens limit''
               | Some max_tokens \<Rightarrow>
                   if budget_tokens \<ge> max_tokens
                   then unsupported ''reasoning.budget_tokens'' provider_id e
                          ''manual Claude reasoning requires budget_tokens to be less than max_tokens''
                   else Inr ())
          (\<lambda>_. if ro_mode r = Some Mode_Adaptive \<and> support = Manual_Only
               then unsupported ''reasoning.mode'' provider_id e
                      ''this Claude model supports manual reasoning budgets, not adaptive reasoning''
               else validate_claude_sampling obj e provider_id model (manual \<or> ro_mode r = Some Mode_Adaptive)))"

section \<open>Lowering\<close>

definition uses_max_completion_tokens :: "string \<Rightarrow> string \<Rightarrow> bool" where
  "uses_max_completion_tokens provider_id model \<longleftrightarrow>
     provider_id = ''openai''
     \<or> (provider_id = ''github-copilot''
        \<and> list_ex (\<lambda>prefix. starts_with prefix (str_lower model)) [''gpt-5'', ''o1'', ''o3'', ''o4''])"

definition lower_max_output_tokens ::
  "(string, json) bmap \<Rightarrow> endpoint \<Rightarrow> string \<Rightarrow> string \<Rightarrow> nat \<Rightarrow> requests_error + (string, json) bmap" where
  "lower_max_output_tokens obj e provider_id model max_output_tokens =
     (case e of
        Responses \<Rightarrow>
          if provider_id = ''codex''
          then unsupported ''max_output_tokens'' provider_id e
                 ''the Codex Responses backend removes explicit output-token limits''
          else Inr (bm_insert ''max_output_tokens'' (json_nat max_output_tokens)
                     (bm_remove ''max_completion_tokens'' (bm_remove ''max_tokens'' obj)))
      | Chat_Completions \<Rightarrow>
          if uses_max_completion_tokens provider_id model
          then Inr (bm_insert ''max_completion_tokens'' (json_nat max_output_tokens)
                     (bm_remove ''max_output_tokens'' (bm_remove ''max_tokens'' obj)))
          else Inr (bm_insert ''max_tokens'' (json_nat max_output_tokens)
                     (bm_remove ''max_completion_tokens'' (bm_remove ''max_output_tokens'' obj)))
      | Messages \<Rightarrow>
          Inr (bm_insert ''max_tokens'' (json_nat max_output_tokens)
                (bm_remove ''max_completion_tokens'' (bm_remove ''max_output_tokens'' obj))))"

definition lower_top_k ::
  "(string, json) bmap \<Rightarrow> endpoint \<Rightarrow> string \<Rightarrow> nat \<Rightarrow> requests_error + (string, json) bmap" where
  "lower_top_k obj e provider_id top_k =
     (if provider_id = ''llama-cpp'' \<and> e = Chat_Completions then Inr (bm_insert ''top_k'' (json_nat top_k) obj)
      else unsupported ''top_k'' provider_id e
             ''typed top_k is currently supported only for llama.cpp Chat Completions routes'')"

text \<open>The members of a body that hold strings: \<open>insert\<close> of a string value, when there is one.\<close>

definition insert_text :: "string \<Rightarrow> string option \<Rightarrow> (string, json) bmap \<Rightarrow> (string, json) bmap" where
  "insert_text name v obj = (case v of None \<Rightarrow> obj | Some s \<Rightarrow> bm_insert name (J_String s) obj)"

definition effort_text :: "reasoning_options \<Rightarrow> string option" where
  "effort_text r = map_option effort_str (ro_effort r)"

definition summary_text :: "reasoning_options \<Rightarrow> string option" where
  "summary_text r = map_option summary_str (ro_summary r)"

definition disabled_text :: "reasoning_options \<Rightarrow> string option" where
  "disabled_text r = (if ro_mode r = Some Mode_Disabled then Some ''none'' else None)"

definition lower_responses_reasoning ::
  "(string, json) bmap \<Rightarrow> string \<Rightarrow> reasoning_options \<Rightarrow> requests_error + (string, json) bmap" where
  "lower_responses_reasoning obj provider_id r =
     res_bind (reject_mode r provider_id Responses [Mode_Enabled, Mode_Adaptive]
       ''Responses reasoning is controlled by effort rather than an enabled or adaptive mode'') (\<lambda>_.
     res_bind (reject_present (ro_budget_tokens r) ''reasoning.budget_tokens'' provider_id Responses
       ''the Responses API does not accept an explicit reasoning token budget'') (\<lambda>_.
     if ro_effort r = None \<and> ro_summary r = None \<and> ro_mode r = None then Inr obj
     else Inr (object_field ''reasoning''
       (\<lambda>target. insert_text ''summary'' (summary_text r) (insert_text ''effort'' (disabled_text r)
          (insert_text ''effort'' (effort_text r) (remove_fields [''mode'', ''budget_tokens''] target)))) obj)))"

definition lower_deepseek_reasoning ::
  "(string, json) bmap \<Rightarrow> endpoint \<Rightarrow> string \<Rightarrow> reasoning_options \<Rightarrow> requests_error + (string, json) bmap" where
  "lower_deepseek_reasoning obj e provider_id r =
     res_bind (if e = Responses
       then unsupported ''reasoning'' provider_id e
              ''DeepSeek reasoning lowering supports only Chat Completions and Messages''
       else Inr (e = Messages)) (\<lambda>messages_endpoint.
     res_bind (reject_mode r provider_id e [Mode_Adaptive] ''DeepSeek does not support adaptive reasoning'') (\<lambda>_.
     res_bind (reject_present (ro_budget_tokens r) ''reasoning.budget_tokens'' provider_id e
       ''DeepSeek does not accept an explicit reasoning token budget'') (\<lambda>_.
     res_bind (reject_present (ro_summary r) ''reasoning.summary'' provider_id e
       ''DeepSeek does not support reasoning summaries'') (\<lambda>_.
     let thinking_enabled =
           (ro_mode r \<noteq> Some Mode_Disabled \<and> (ro_mode r = Some Mode_Enabled \<or> ro_effort r \<noteq> None)) in
     res_bind (if thinking_enabled
       then res_bind (reject_present (bm_get obj ''temperature'') ''temperature'' provider_id e
              ''DeepSeek ignores temperature while thinking is enabled'')
              (\<lambda>_. reject_present (bm_get obj ''top_p'') ''top_p'' provider_id e
                ''DeepSeek ignores top_p while thinking is enabled'')
       else Inr ()) (\<lambda>_.
     if ro_mode r = None \<and> ro_effort r = None then Inr obj
     else
       let obj = object_field ''thinking''
             (\<lambda>thinking. insert_text ''effort'' (effort_text r)
                (insert_text ''type'' (map_option reasoning_mode_str (ro_mode r))
                  (remove_fields [''mode'', ''budget_tokens'', ''summary''] thinking)))
             (bm_remove ''reasoning'' obj)
       in Inr (case effort_text r of
                 None \<Rightarrow> obj
               | Some effort \<Rightarrow>
                   if messages_endpoint
                   then object_field ''output_config'' (bm_insert ''effort'' (J_String effort)) obj
                   else bm_insert ''reasoning_effort'' (J_String effort) obj))))))"

definition lower_zai_reasoning ::
  "(string, json) bmap \<Rightarrow> string \<Rightarrow> reasoning_options \<Rightarrow> requests_error + (string, json) bmap" where
  "lower_zai_reasoning obj provider_id r =
     res_bind (reject_mode r provider_id Chat_Completions [Mode_Adaptive]
       ''Z.AI does not support adaptive reasoning'') (\<lambda>_.
     res_bind (reject_present (ro_effort r) ''reasoning.effort'' provider_id Chat_Completions
       ''Z.AI exposes an enabled or disabled thinking mode, not reasoning effort'') (\<lambda>_.
     res_bind (reject_present (ro_budget_tokens r) ''reasoning.budget_tokens'' provider_id Chat_Completions
       ''Z.AI does not accept an explicit reasoning token budget'') (\<lambda>_.
     res_bind (reject_present (ro_summary r) ''reasoning.summary'' provider_id Chat_Completions
       ''Z.AI does not support reasoning summaries'') (\<lambda>_.
     case ro_mode r of
       None \<Rightarrow> Inr obj
     | Some mode \<Rightarrow>
         Inr (object_field ''thinking''
           (\<lambda>thinking.
              let thinking = bm_insert ''type'' (J_String (reasoning_mode_str mode)) thinking
              in if mode = Mode_Enabled then bm_insert ''clear_thinking'' (J_Bool False) thinking
                 else bm_remove ''clear_thinking'' thinking)
           (bm_remove ''reasoning'' obj))))))"

definition claude_thinking_fields :: "reasoning_options \<Rightarrow> (string, json) bmap \<Rightarrow> (string, json) bmap" where
  "claude_thinking_fields r thinking =
     (let thinking = remove_fields [''mode'', ''effort'', ''summary''] thinking
      in if ro_mode r \<in> {Some Mode_Adaptive, Some Mode_Disabled} then bm_remove ''budget_tokens'' thinking else thinking)"

definition lower_claude_mode ::
  "(string, json) bmap \<Rightarrow> endpoint \<Rightarrow> string \<Rightarrow> reasoning_options \<Rightarrow> requests_error + (string, json) bmap" where
  "lower_claude_mode obj e provider_id r =
     (case ro_mode r of
        Some Mode_Enabled \<Rightarrow>
          Inr (object_field ''thinking''
            (\<lambda>thinking.
               let thinking = bm_insert ''type'' (J_String ''enabled'') thinking
               in case ro_budget_tokens r of
                    None \<Rightarrow> thinking
                  | Some budget_tokens \<Rightarrow> bm_insert ''budget_tokens'' (json_nat budget_tokens) thinking) obj)
      | None \<Rightarrow>
          (case ro_budget_tokens r of
             None \<Rightarrow> Inr obj
           | Some budget_tokens \<Rightarrow>
               Inr (object_field ''thinking''
                 (\<lambda>thinking. bm_insert ''budget_tokens'' (json_nat budget_tokens)
                    (bm_insert ''type'' (J_String ''enabled'') thinking)) obj))
      | Some Mode_Adaptive \<Rightarrow>
          res_map (\<lambda>_. object_field ''thinking'' (bm_insert ''type'' (J_String ''adaptive'')) obj)
            (reject_present (ro_budget_tokens r) ''reasoning.budget_tokens'' provider_id e
              ''adaptive reasoning does not accept a fixed token budget'')
      | Some Mode_Disabled \<Rightarrow>
          res_map (\<lambda>_. object_field ''thinking'' (bm_insert ''type'' (J_String ''disabled'')) obj)
            (reject_present (ro_budget_tokens r) ''reasoning.budget_tokens'' provider_id e
              ''disabled reasoning cannot have a token budget''))"

definition lower_claude_reasoning ::
  "(string, json) bmap \<Rightarrow> endpoint \<Rightarrow> string \<Rightarrow> string \<Rightarrow> reasoning_options \<Rightarrow>
   requests_error + (string, json) bmap" where
  "lower_claude_reasoning obj e provider_id model r =
     res_bind (reject_present (ro_summary r) ''reasoning.summary'' provider_id e
       ''Claude-compatible reasoning does not support summaries'') (\<lambda>_.
     res_bind (validate_claude_reasoning obj e provider_id model r) (\<lambda>_.
     let obj = (if reasoning_empty r then obj else bm_remove ''reasoning'' obj);
         obj = (case bm_get obj ''thinking'' of
                  Some (J_Object thinking) \<Rightarrow> bm_insert ''thinking'' (J_Object (claude_thinking_fields r thinking)) obj
                | _ \<Rightarrow> obj)
     in res_map
          (\<lambda>obj.
             let obj = (case effort_text r of
                          None \<Rightarrow> obj
                        | Some effort \<Rightarrow> object_field ''output_config'' (bm_insert ''effort'' (J_String effort)) obj)
             in if bm_get obj ''thinking'' = Some (J_Object []) then bm_remove ''thinking'' obj else obj)
          (lower_claude_mode obj e provider_id r)))"

definition lower_chat_reasoning ::
  "(string, json) bmap \<Rightarrow> string \<Rightarrow> string \<Rightarrow> reasoning_options \<Rightarrow> requests_error + (string, json) bmap" where
  "lower_chat_reasoning obj provider_id model r =
     (if provider_id = ''llama-cpp''
      then unsupported ''reasoning'' provider_id Chat_Completions ''llama.cpp has no portable reasoning control''
      else if provider_id = ''deepseek'' then lower_deepseek_reasoning obj Chat_Completions provider_id r
      else if provider_id \<in> set zai_providers then lower_zai_reasoning obj provider_id r
      else if provider_id = ''github-copilot'' \<and> is_claude_model model
      then lower_claude_reasoning obj Chat_Completions provider_id model r
      else
        res_bind (reject_mode r provider_id Chat_Completions [Mode_Enabled, Mode_Adaptive]
          ''Chat Completions accepts reasoning effort but not an enabled or adaptive mode'') (\<lambda>_.
        res_bind (reject_present (ro_budget_tokens r) ''reasoning.budget_tokens'' provider_id Chat_Completions
          ''Chat Completions does not accept an explicit reasoning token budget'') (\<lambda>_.
        res_bind (reject_present (ro_summary r) ''reasoning.summary'' provider_id Chat_Completions
          ''Chat Completions does not support reasoning summaries'') (\<lambda>_.
        let obj = (if ro_effort r \<noteq> None \<or> ro_mode r = Some Mode_Disabled
                   then bm_remove ''thinking'' (bm_remove ''reasoning'' obj) else obj)
        in Inr (insert_text ''reasoning_effort'' (disabled_text r)
                 (insert_text ''reasoning_effort'' (effort_text r) obj))))))"

definition lower_messages_reasoning ::
  "(string, json) bmap \<Rightarrow> string \<Rightarrow> string \<Rightarrow> reasoning_options \<Rightarrow> requests_error + (string, json) bmap" where
  "lower_messages_reasoning obj provider_id model r =
     (if provider_id = ''deepseek'' then lower_deepseek_reasoning obj Messages provider_id r
      else lower_claude_reasoning obj Messages provider_id model r)"

definition lower_controls ::
  "(string, json) bmap \<Rightarrow> endpoint \<Rightarrow> string \<Rightarrow> string \<Rightarrow> generation_options \<Rightarrow>
   requests_error + (string, json) bmap" where
  "lower_controls obj e provider_id model opts =
     res_bind (case go_max_output_tokens opts of
         None \<Rightarrow> Inr obj | Some n \<Rightarrow> lower_max_output_tokens obj e provider_id model n) (\<lambda>obj.
     res_bind (case go_top_k opts of None \<Rightarrow> Inr obj | Some n \<Rightarrow> lower_top_k obj e provider_id n) (\<lambda>obj.
     case go_reasoning opts of
       None \<Rightarrow> Inr obj
     | Some r \<Rightarrow>
         (case e of
            Responses \<Rightarrow> lower_responses_reasoning obj provider_id r
          | Chat_Completions \<Rightarrow> lower_chat_reasoning obj provider_id model r
          | Messages \<Rightarrow> lower_messages_reasoning obj provider_id model r)))"

definition first_control :: "generation_options \<Rightarrow> string" where
  "first_control opts =
     (if go_max_output_tokens opts \<noteq> None then ''max_output_tokens''
      else if go_top_k opts \<noteq> None then ''top_k'' else ''reasoning'')"

definition lower_generation_options ::
  "json \<Rightarrow> endpoint \<Rightarrow> string \<Rightarrow> string \<Rightarrow> generation_options \<Rightarrow> requests_error + json" where
  "lower_generation_options body e provider_id model opts =
     (if options_empty opts then Inr body
      else case body of
        J_Object obj \<Rightarrow> res_map J_Object (lower_controls obj e provider_id model opts)
      | _ \<Rightarrow> unsupported (first_control opts) provider_id e
               ''typed generation controls require a JSON object request body'')"

section \<open>What the model is known to support\<close>

definition ensure_model_supports_reasoning ::
  "endpoint \<Rightarrow> string \<Rightarrow> bool option \<Rightarrow> generation_options \<Rightarrow> requests_error + unit" where
  "ensure_model_supports_reasoning e provider_id reasoning_supported opts =
     (if go_reasoning opts \<noteq> None \<and> reasoning_supported = Some False
      then unsupported ''reasoning'' provider_id e ''the selected model is known not to support reasoning''
      else Inr ())"

definition ensure_model_supports_effort ::
  "endpoint \<Rightarrow> string \<Rightarrow> string \<Rightarrow> reasoning_effort list option \<Rightarrow> generation_options \<Rightarrow> requests_error + unit" where
  "ensure_model_supports_effort e provider_id model supported opts =
     (case go_reasoning opts of
        None \<Rightarrow> Inr ()
      | Some r \<Rightarrow>
          let effort = or_else (ro_effort r)
                (if ro_mode r = Some Mode_Disabled
                    \<and> (e = Responses
                       \<or> (e = Chat_Completions \<and> provider_id \<noteq> ''deepseek'' \<and> provider_id \<notin> set zai_providers
                          \<and> \<not> (provider_id = ''github-copilot'' \<and> is_claude_model model)))
                 then Some (effort_from ''none'') else None)
          in case (effort, supported) of
               (Some wanted, Some levels) \<Rightarrow>
                 if wanted \<notin> set levels
                 then unsupported ''reasoning.effort'' provider_id e
                        ''the selected model does not advertise this effort level''
                 else Inr ()
             | _ \<Rightarrow> Inr ())"

section \<open>What the upstream reads\<close>

text \<open>
  Where an upstream reads the controls: the dialect of reasoning it speaks, and for every
  control asked for the member of the body that holds it. There is none for a control the
  dialect has no word for.
\<close>

datatype reasoning_dialect =
    Effort_Object | Effort_Member | Thinking_With_Effort "string list" | Thinking_Switch | Claude_Thinking
  | No_Reasoning

definition reasoning_dialect_of :: "endpoint \<Rightarrow> string \<Rightarrow> string \<Rightarrow> reasoning_dialect" where
  "reasoning_dialect_of e provider_id model =
     (case e of
        Responses \<Rightarrow> Effort_Object
      | Messages \<Rightarrow>
          if provider_id = ''deepseek'' then Thinking_With_Effort [''output_config'', ''effort''] else Claude_Thinking
      | Chat_Completions \<Rightarrow>
          if provider_id = ''llama-cpp'' then No_Reasoning
          else if provider_id = ''deepseek'' then Thinking_With_Effort [''reasoning_effort'']
          else if provider_id \<in> set zai_providers then Thinking_Switch
          else if provider_id = ''github-copilot'' \<and> is_claude_model model then Claude_Thinking
          else Effort_Member)"

definition text_at :: "string list \<Rightarrow> string option \<Rightarrow> (string list \<times> json) list" where
  "text_at path v = (case v of None \<Rightarrow> [] | Some s \<Rightarrow> [(path, J_String s)])"

definition nat_at :: "string list \<Rightarrow> nat option \<Rightarrow> (string list \<times> json) list" where
  "nat_at path v = (case v of None \<Rightarrow> [] | Some n \<Rightarrow> [(path, json_nat n)])"

definition mode_text :: "reasoning_options \<Rightarrow> string option" where
  "mode_text r = map_option reasoning_mode_str (ro_mode r)"

fun reasoning_members :: "reasoning_dialect \<Rightarrow> reasoning_options \<Rightarrow> (string list \<times> json) list" where
  "reasoning_members Effort_Object r =
     text_at [''reasoning'', ''effort''] (or_else (effort_text r) (disabled_text r)) @
     text_at [''reasoning'', ''summary''] (summary_text r)"
| "reasoning_members Effort_Member r = text_at [''reasoning_effort''] (or_else (effort_text r) (disabled_text r))"
| "reasoning_members (Thinking_With_Effort path) r =
     text_at [''thinking'', ''type''] (mode_text r) @ text_at path (effort_text r)"
| "reasoning_members Thinking_Switch r = text_at [''thinking'', ''type''] (mode_text r)"
| "reasoning_members Claude_Thinking r =
     text_at [''thinking'', ''type'']
       (or_else (mode_text r) (if ro_budget_tokens r = None then None else Some ''enabled'')) @
     nat_at [''thinking'', ''budget_tokens''] (ro_budget_tokens r) @
     text_at [''output_config'', ''effort''] (effort_text r)"
| "reasoning_members No_Reasoning r = []"

fun sayable :: "reasoning_dialect \<Rightarrow> reasoning_options \<Rightarrow> bool" where
  "sayable Effort_Object r \<longleftrightarrow> ro_mode r \<in> {None, Some Mode_Disabled} \<and> ro_budget_tokens r = None"
| "sayable Effort_Member r \<longleftrightarrow>
     ro_mode r \<in> {None, Some Mode_Disabled} \<and> ro_budget_tokens r = None \<and> ro_summary r = None"
| "sayable (Thinking_With_Effort _) r \<longleftrightarrow>
     ro_mode r \<noteq> Some Mode_Adaptive \<and> ro_budget_tokens r = None \<and> ro_summary r = None"
| "sayable Thinking_Switch r \<longleftrightarrow>
     ro_mode r \<noteq> Some Mode_Adaptive \<and> ro_effort r = None \<and> ro_budget_tokens r = None \<and> ro_summary r = None"
| "sayable Claude_Thinking r \<longleftrightarrow> ro_summary r = None"
| "sayable No_Reasoning r \<longleftrightarrow> False"

text \<open>What the upstream demands of the rest of the body when a control is set.\<close>

definition thinks :: "reasoning_options \<Rightarrow> bool" where
  "thinks r \<longleftrightarrow> ro_mode r \<in> {Some Mode_Enabled, Some Mode_Adaptive} \<or> ro_budget_tokens r \<noteq> None"

definition claude_accepts :: "string \<Rightarrow> (string, json) bmap \<Rightarrow> reasoning_options \<Rightarrow> bool" where
  "claude_accepts model obj r \<longleftrightarrow>
     (ro_mode r = Some Mode_Disabled \<longrightarrow> \<not> claude_rejects_disabled_reasoning model) \<and>
     (ro_mode r = Some Mode_Enabled \<or> ro_budget_tokens r \<noteq> None \<longrightarrow>
        claude_thinking_support model \<noteq> Adaptive_Only \<and>
        (\<exists>budget limit. ro_budget_tokens r = Some budget \<and> Option.bind (bm_get obj ''max_tokens'') json_u64 = Some limit \<and>
           1024 \<le> budget \<and> budget < limit)) \<and>
     (ro_mode r = Some Mode_Adaptive \<longrightarrow> claude_thinking_support model \<noteq> Manual_Only) \<and>
     (thinks r \<or> claude_rejects_sampling_controls model \<longrightarrow>
        (\<forall>v. bm_get obj ''temperature'' = Some v \<longrightarrow> f64_is_one v)) \<and>
     (claude_rejects_sampling_controls model \<longrightarrow> bm_get obj ''top_p'' = None) \<and>
     (thinks r \<longrightarrow> (\<forall>v. bm_get obj ''top_p'' = Some v \<longrightarrow> f64_near_one v))"

fun upstream_accepts :: "reasoning_dialect \<Rightarrow> string \<Rightarrow> (string, json) bmap \<Rightarrow> reasoning_options \<Rightarrow> bool" where
  "upstream_accepts (Thinking_With_Effort _) model obj r \<longleftrightarrow>
     (ro_mode r = Some Mode_Enabled \<or> ro_mode r = None \<and> ro_effort r \<noteq> None \<longrightarrow>
        bm_get obj ''temperature'' = None \<and> bm_get obj ''top_p'' = None)"
| "upstream_accepts Claude_Thinking model obj r \<longleftrightarrow> claude_accepts model obj r"
| "upstream_accepts _ model obj r \<longleftrightarrow> True"

definition limit_member :: "endpoint \<Rightarrow> string \<Rightarrow> string \<Rightarrow> string" where
  "limit_member e provider_id model =
     (case e of
        Responses \<Rightarrow> ''max_output_tokens''
      | Messages \<Rightarrow> ''max_tokens''
      | Chat_Completions \<Rightarrow>
          if uses_max_completion_tokens provider_id model then ''max_completion_tokens'' else ''max_tokens'')"

definition reasoning_names :: "string set" where
  "reasoning_names = {''reasoning'', ''reasoning_effort'', ''thinking'', ''output_config''}"

definition control_names :: "string set" where
  "control_names = reasoning_names \<union> {''max_tokens'', ''max_output_tokens'', ''max_completion_tokens'', ''top_k''}"

text \<open>The members that lowering the given controls may write or remove.\<close>

definition asked_names :: "generation_options \<Rightarrow> string set" where
  "asked_names opts =
     (if go_max_output_tokens opts = None then {} else {''max_tokens'', ''max_output_tokens'', ''max_completion_tokens''}) \<union>
     (if go_top_k opts = None then {} else {''top_k''}) \<union> (if go_reasoning opts = None then {} else reasoning_names)"

lemma asked_names_control: "k \<notin> control_names \<Longrightarrow> k \<notin> asked_names opts"
  by (auto simp: asked_names_def control_names_def split: if_splits)

text \<open>
  The outcome of a lowering: it succeeds when it should, the members asked for are there, and
  no member outside \<open>names\<close> has changed.
\<close>

definition lowers ::
  "bool \<Rightarrow> (string list \<times> json) list \<Rightarrow> string set \<Rightarrow> (string, json) bmap \<Rightarrow> 'e + (string, json) bmap \<Rightarrow> bool" where
  "lowers ok members names obj res \<longleftrightarrow>
     (case res of
        Inl _ \<Rightarrow> \<not> ok
      | Inr obj' \<Rightarrow> ok \<and> (\<forall>(path, v) \<in> set members. json_pointer (J_Object obj') path = Some v) \<and>
          (\<forall>k. k \<notin> names \<longrightarrow> bm_get obj' k = bm_get obj k))"

lemma gen_bm_get_insert_any [simp]: "bm_get (bm_insert k v m) k' = (if k' = k then Some v else bm_get m k')"
  by (induction k v m rule: bm_insert.induct) auto

lemma bm_get_remove_other [simp]: "k' \<noteq> k \<Longrightarrow> bm_get (bm_remove k m) k' = bm_get m k'"
  by (induction k m rule: bm_remove.induct) auto

lemma bm_get_object_field [simp]:
  "bm_get (object_field field f obj) k = (if k = field then Some (J_Object (f (field_object field obj))) else bm_get obj k)"
  by (simp add: object_field_def)

lemma bm_get_insert_text [simp]:
  "bm_get (insert_text name v obj) k =
     (if k = name then (case v of None \<Rightarrow> bm_get obj k | Some s \<Rightarrow> Some (J_String s)) else bm_get obj k)"
  by (auto simp: insert_text_def split: option.split)

lemma bm_get_remove_fields [simp]: "k \<notin> set names \<Longrightarrow> bm_get (remove_fields names obj) k = bm_get obj k"
  unfolding remove_fields_def by (induction names arbitrary: obj) auto

lemma reject_present_eq [simp]:
  "reject_present v control p e reason = (if v = None then Inr () else unsupported control p e reason)"
  by (simp add: reject_present_def)

lemmas refusals = unsupported_def reject_mode_def

lemma members_at [simp]:
  "(\<forall>(path, v) \<in> set (text_at p t). P path v) \<longleftrightarrow> (\<forall>s. t = Some s \<longrightarrow> P p (J_String s))"
  "(\<forall>(path, v) \<in> set (nat_at p n). P path v) \<longleftrightarrow> (\<forall>i. n = Some i \<longrightarrow> P p (json_nat i))"
  by (auto simp: text_at_def nat_at_def split: option.splits)

lemma responses_lowers:
  assumes "validate_reasoning r = Inr ()"
  shows "lowers (sayable Effort_Object r) (reasoning_members Effort_Object r) reasoning_names obj
    (lower_responses_reasoning obj p r)"
  using assms
  by (cases "ro_mode r"; cases "the (ro_mode r)"; cases "ro_budget_tokens r"; cases "ro_effort r"; cases "ro_summary r")
     (auto simp: lowers_def lower_responses_reasoning_def refusals validate_reasoning_def reasoning_empty_def
       effort_text_def summary_text_def disabled_text_def ball_Un reasoning_names_def)

lemma zai_lowers:
  "lowers (sayable Thinking_Switch r) (reasoning_members Thinking_Switch r) reasoning_names obj
    (lower_zai_reasoning obj p r)"
  by (cases "ro_mode r"; cases "the (ro_mode r)"; cases "ro_budget_tokens r"; cases "ro_effort r"; cases "ro_summary r")
     (auto simp: lowers_def lower_zai_reasoning_def refusals mode_text_def reasoning_names_def Let_def)

text \<open>The body DeepSeek's lowering builds, once nothing is refused.\<close>

definition deepseek_object :: "bool \<Rightarrow> reasoning_options \<Rightarrow> (string, json) bmap \<Rightarrow> (string, json) bmap" where
  "deepseek_object messages_endpoint r obj =
     (let obj = object_field ''thinking''
             (\<lambda>thinking. insert_text ''effort'' (effort_text r)
                (insert_text ''type'' (mode_text r)
                  (remove_fields [''mode'', ''budget_tokens'', ''summary''] thinking)))
             (bm_remove ''reasoning'' obj)
      in case effort_text r of
           None \<Rightarrow> obj
         | Some effort \<Rightarrow>
             if messages_endpoint then object_field ''output_config'' (bm_insert ''effort'' (J_String effort)) obj
             else bm_insert ''reasoning_effort'' (J_String effort) obj)"

lemma deepseek_outcome:
  assumes "e \<noteq> Responses"
  shows "\<exists>err. lower_deepseek_reasoning obj e p r =
    (if sayable (Thinking_With_Effort path) r \<and> upstream_accepts (Thinking_With_Effort path) model obj r
     then Inr (if ro_mode r = None \<and> ro_effort r = None then obj else deepseek_object (e = Messages) r obj)
     else Inl err)"
  using assms
  by (cases "ro_mode r"; cases "the (ro_mode r)"; cases "ro_effort r")
     (simp_all add: lower_deepseek_reasoning_def refusals deepseek_object_def mode_text_def effort_text_def Let_def)

lemma deepseek_object_members:
  "ro_mode r = Some mode \<Longrightarrow>
     json_pointer (J_Object (deepseek_object b r obj)) [''thinking'', ''type''] = Some (J_String (reasoning_mode_str mode))"
  "ro_effort r = Some effort \<Longrightarrow>
     json_pointer (J_Object (deepseek_object False r obj)) [''reasoning_effort''] = Some (J_String (effort_str effort))"
  "ro_effort r = Some effort \<Longrightarrow>
     json_pointer (J_Object (deepseek_object True r obj)) [''output_config'', ''effort''] = Some (J_String (effort_str effort))"
  "k \<notin> reasoning_names \<Longrightarrow> bm_get (deepseek_object b r obj) k = bm_get obj k"
  by (cases "ro_effort r"; simp add: deepseek_object_def mode_text_def effort_text_def reasoning_names_def Let_def)+

lemma deepseek_lowers:
  assumes "e = Chat_Completions \<and> path = [''reasoning_effort''] \<or> e = Messages \<and> path = [''output_config'', ''effort'']"
  shows "lowers (sayable (Thinking_With_Effort path) r \<and> upstream_accepts (Thinking_With_Effort path) model obj r)
    (reasoning_members (Thinking_With_Effort path) r) reasoning_names obj (lower_deepseek_reasoning obj e p r)"
proof -
  have "e \<noteq> Responses" using assms by auto
  then obtain err where "lower_deepseek_reasoning obj e p r =
    (if sayable (Thinking_With_Effort path) r \<and> upstream_accepts (Thinking_With_Effort path) model obj r
     then Inr (if ro_mode r = None \<and> ro_effort r = None then obj else deepseek_object (e = Messages) r obj)
     else Inl err)"
    using deepseek_outcome by blast
  with assms show ?thesis
    by (auto simp: lowers_def ball_Un mode_text_def effort_text_def deepseek_object_members simp del: json_pointer.simps)
qed

lemma claude_sampling:
  "validate_claude_sampling obj e p model t = Inr () \<longleftrightarrow>
     (t \<or> claude_rejects_sampling_controls model \<longrightarrow>
        (\<forall>v. bm_get obj ''temperature'' = Some v \<longrightarrow> f64_is_one v)) \<and>
     (claude_rejects_sampling_controls model \<longrightarrow> bm_get obj ''top_p'' = None) \<and>
     (t \<longrightarrow> (\<forall>v. bm_get obj ''top_p'' = Some v \<longrightarrow> f64_near_one v))"
  by (simp add: validate_claude_sampling_def unsupported_def Let_def split: option.split)

lemma claude_validation: "validate_claude_reasoning obj e p model r = Inr () \<longleftrightarrow> claude_accepts model obj r"
proof -
  have manual: "(ro_mode r = Some Mode_Enabled \<or> ro_budget_tokens r \<noteq> None) \<or> ro_mode r = Some Mode_Adaptive \<longleftrightarrow> thinks r"
    by (auto simp: thinks_def)
  show ?thesis
    unfolding validate_claude_reasoning_def claude_accepts_def manual Let_def
    by (cases "ro_budget_tokens r"; cases "Option.bind (bm_get obj ''max_tokens'') json_u64";
        simp add: claude_sampling unsupported_def; force)
qed

lemma claude_mode_lowers:
  assumes "validate_reasoning r = Inr ()"
  shows "\<exists>obj'. lower_claude_mode obj e p r = Inr obj' \<and>
    (\<forall>s. or_else (mode_text r) (if ro_budget_tokens r = None then None else Some ''enabled'') = Some s \<longrightarrow>
       json_pointer (J_Object obj') [''thinking'', ''type''] = Some (J_String s)) \<and>
    (\<forall>n. ro_budget_tokens r = Some n \<longrightarrow> json_pointer (J_Object obj') [''thinking'', ''budget_tokens''] = Some (json_nat n)) \<and>
    (\<forall>k. k \<noteq> ''thinking'' \<longrightarrow> bm_get obj' k = bm_get obj k)"
  using assms
  by (cases "ro_mode r"; cases "the (ro_mode r)"; cases "ro_budget_tokens r")
     (auto simp: lower_claude_mode_def mode_text_def validate_reasoning_def Let_def split: if_splits)

lemma claude_lowers:
  assumes valid: "validate_reasoning r = Inr ()"
  shows "lowers (sayable Claude_Thinking r \<and> claude_accepts model obj r) (reasoning_members Claude_Thinking r)
    reasoning_names obj (lower_claude_reasoning obj e p model r)"
proof (cases "sayable Claude_Thinking r \<and> claude_accepts model obj r")
  case False
  then have "isl (lower_claude_reasoning obj e p model r)"
    using claude_validation [of obj e p model r]
    by (cases "validate_claude_reasoning obj e p model r") (auto simp: lower_claude_reasoning_def unsupported_def)
  with False show ?thesis by (auto simp: lowers_def split: sum.split)
next
  case True
  define obj1 where "obj1 = (if reasoning_empty r then obj else bm_remove ''reasoning'' obj)"
  define obj2 where "obj2 = (case bm_get obj1 ''thinking'' of
      Some (J_Object thinking) \<Rightarrow> bm_insert ''thinking'' (J_Object (claude_thinking_fields r thinking)) obj1 | _ \<Rightarrow> obj1)"
  have frame: "k \<notin> reasoning_names \<Longrightarrow> bm_get obj2 k = bm_get obj k" for k
    by (auto simp: obj2_def obj1_def reasoning_names_def split: option.split json.split)
  obtain obj3 where obj3: "lower_claude_mode obj2 e p r = Inr obj3"
    "\<And>s. or_else (mode_text r) (if ro_budget_tokens r = None then None else Some ''enabled'') = Some s \<Longrightarrow>
       json_pointer (J_Object obj3) [''thinking'', ''type''] = Some (J_String s)"
    "\<And>n. ro_budget_tokens r = Some n \<Longrightarrow> json_pointer (J_Object obj3) [''thinking'', ''budget_tokens''] = Some (json_nat n)"
    "\<And>k. k \<noteq> ''thinking'' \<Longrightarrow> bm_get obj3 k = bm_get obj2 k"
    using claude_mode_lowers [OF valid, of obj2 e p] by blast
  define obj4 where "obj4 = (case effort_text r of None \<Rightarrow> obj3
      | Some effort \<Rightarrow> object_field ''output_config'' (bm_insert ''effort'' (J_String effort)) obj3)"
  define obj5 where "obj5 = (if bm_get obj4 ''thinking'' = Some (J_Object []) then bm_remove ''thinking'' obj4 else obj4)"
  have out: "lower_claude_reasoning obj e p model r = Inr obj5"
    using True claude_validation [of obj e p model r]
    unfolding lower_claude_reasoning_def Let_def obj1_def [symmetric] obj2_def [symmetric] obj3(1)
    by (simp add: obj4_def obj5_def res_map_def)
  have effort: "json_pointer (J_Object obj5) [''output_config'', ''effort''] = Some (J_String s)" if "effort_text r = Some s" for s
    using that by (simp add: obj5_def obj4_def)
  have same: "bm_get obj4 ''thinking'' = bm_get obj3 ''thinking''" by (simp add: obj4_def split: option.split)
  have kept: "json_pointer (J_Object obj5) [''thinking'', m] = Some v" if "json_pointer (J_Object obj3) [''thinking'', m] = Some v" for m v
    using that same by (auto simp: obj5_def split: option.splits)
  have "bm_get obj5 k = bm_get obj k" if "k \<notin> reasoning_names" for k
    using that frame [of k] obj3(4) [of k] by (auto simp: obj5_def obj4_def reasoning_names_def split: option.split)
  with True effort kept obj3 show ?thesis
    by (auto simp: lowers_def out ball_Un simp del: json_pointer.simps)
qed

lemma chat_lowers:
  assumes "validate_reasoning r = Inr ()"
  shows "lowers (sayable (reasoning_dialect_of Chat_Completions p model) r \<and>
      upstream_accepts (reasoning_dialect_of Chat_Completions p model) model obj r)
    (reasoning_members (reasoning_dialect_of Chat_Completions p model) r) reasoning_names obj
    (lower_chat_reasoning obj p model r)"
proof -
  have other: "lowers (sayable Effort_Member r) (reasoning_members Effort_Member r) reasoning_names obj
      (lower_chat_reasoning obj p model r)"
    if "p \<noteq> ''llama-cpp''" "p \<noteq> ''deepseek''" "p \<notin> set zai_providers" "\<not> (p = ''github-copilot'' \<and> is_claude_model model)"
    using assms that
    by (cases "ro_mode r"; cases "the (ro_mode r)"; cases "ro_effort r")
       (auto simp: lowers_def lower_chat_reasoning_def refusals effort_text_def disabled_text_def reasoning_names_def
         validate_reasoning_def Let_def split: if_splits)
  consider (llama) "p = ''llama-cpp''" | (deepseek) "p = ''deepseek''" | (zai) "p \<in> set zai_providers"
    | (claude) "p = ''github-copilot''" "is_claude_model model"
    | (plain) "p \<noteq> ''llama-cpp''" "p \<noteq> ''deepseek''" "p \<notin> set zai_providers"
        "\<not> (p = ''github-copilot'' \<and> is_claude_model model)"
    by blast
  then show ?thesis
  proof cases
    case llama
    then show ?thesis by (simp add: lower_chat_reasoning_def reasoning_dialect_of_def lowers_def unsupported_def)
  next
    case deepseek
    then show ?thesis
      using deepseek_lowers [of Chat_Completions "[''reasoning_effort'']" r model obj p]
      by (simp add: lower_chat_reasoning_def reasoning_dialect_of_def)
  next
    case zai
    then have "p \<noteq> ''llama-cpp''" "p \<noteq> ''deepseek''" by (auto simp: zai_providers_def)
    with zai zai_lowers [of r obj p] show ?thesis by (simp add: lower_chat_reasoning_def reasoning_dialect_of_def)
  next
    case claude
    then have "p \<noteq> ''llama-cpp''" "p \<noteq> ''deepseek''" "p \<notin> set zai_providers" by (auto simp: zai_providers_def)
    with claude claude_lowers [OF assms, of model obj Chat_Completions p] show ?thesis
      by (simp add: lower_chat_reasoning_def reasoning_dialect_of_def)
  next
    case plain
    with other show ?thesis by (auto simp: reasoning_dialect_of_def)
  qed
qed

lemma reasoning_lowers:
  assumes "validate_reasoning r = Inr ()"
  shows "lowers (sayable (reasoning_dialect_of e p model) r \<and> upstream_accepts (reasoning_dialect_of e p model) model obj r)
    (reasoning_members (reasoning_dialect_of e p model) r) reasoning_names obj
    (case e of
       Responses \<Rightarrow> lower_responses_reasoning obj p r
     | Chat_Completions \<Rightarrow> lower_chat_reasoning obj p model r
     | Messages \<Rightarrow> lower_messages_reasoning obj p model r)"
proof (cases e)
  case Chat_Completions
  then show ?thesis using chat_lowers [OF assms] by simp
next
  case Responses
  then show ?thesis using responses_lowers [OF assms, of obj p] by (simp add: reasoning_dialect_of_def)
next
  case Messages
  then show ?thesis
    using deepseek_lowers [of Messages "[''output_config'', ''effort'']" r model obj p] claude_lowers [OF assms, of model obj Messages p]
    by (cases "p = ''deepseek''") (simp_all add: reasoning_dialect_of_def lower_messages_reasoning_def)
qed

text \<open>The body with the limit of output tokens set, which Claude's budgets are compared with.\<close>

definition with_limit :: "endpoint \<Rightarrow> string \<Rightarrow> string \<Rightarrow> generation_options \<Rightarrow> (string, json) bmap \<Rightarrow> (string, json) bmap" where
  "with_limit e p model opts obj =
     (case go_max_output_tokens opts of
        None \<Rightarrow> obj | Some n \<Rightarrow> bm_insert (limit_member e p model) (json_nat n) obj)"

definition controls_accepted :: "endpoint \<Rightarrow> string \<Rightarrow> string \<Rightarrow> generation_options \<Rightarrow> (string, json) bmap \<Rightarrow> bool" where
  "controls_accepted e p model opts obj \<longleftrightarrow>
     (go_max_output_tokens opts \<noteq> None \<longrightarrow> \<not> (e = Responses \<and> p = ''codex'')) \<and>
     (go_top_k opts \<noteq> None \<longrightarrow> e = Chat_Completions \<and> p = ''llama-cpp'') \<and>
     (case go_reasoning opts of
        None \<Rightarrow> True
      | Some r \<Rightarrow> sayable (reasoning_dialect_of e p model) r \<and>
          upstream_accepts (reasoning_dialect_of e p model) model (with_limit e p model opts obj) r)"

definition requested_members :: "endpoint \<Rightarrow> string \<Rightarrow> string \<Rightarrow> generation_options \<Rightarrow> (string list \<times> json) list" where
  "requested_members e p model opts =
     nat_at [limit_member e p model] (go_max_output_tokens opts) @ nat_at [''top_k''] (go_top_k opts) @
     (case go_reasoning opts of None \<Rightarrow> [] | Some r \<Rightarrow> reasoning_members (reasoning_dialect_of e p model) r)"

lemma claude_limit: "is_claude_model model \<Longrightarrow> \<not> uses_max_completion_tokens ''github-copilot'' model"
proof (cases model)
  case (Cons c s)
  assume "is_claude_model model"
  then have "to_ascii_lowercase c = CHR ''c''"
    using Cons by (auto simp: is_claude_model_def normalize_claude_model_def starts_with_def split: if_splits)
  then show ?thesis using Cons by (simp add: uses_max_completion_tokens_def starts_with_def)
qed (simp add: is_claude_model_def normalize_claude_model_def starts_with_def)

lemma claude_limit_member: "reasoning_dialect_of e p model = Claude_Thinking \<Longrightarrow> limit_member e p model = ''max_tokens''"
  using claude_limit [of model] by (auto simp: reasoning_dialect_of_def limit_member_def split: endpoint.splits if_splits)

lemma limit_outcome:
  "case (case go_max_output_tokens opts of None \<Rightarrow> Inr obj | Some n \<Rightarrow> lower_max_output_tokens obj e p model n) of
     Inl _ \<Rightarrow> go_max_output_tokens opts \<noteq> None \<and> e = Responses \<and> p = ''codex''
   | Inr obj' \<Rightarrow> (go_max_output_tokens opts \<noteq> None \<longrightarrow> \<not> (e = Responses \<and> p = ''codex'')) \<and>
       (\<forall>n. go_max_output_tokens opts = Some n \<longrightarrow> bm_get obj' (limit_member e p model) = Some (json_nat n)) \<and>
       (\<forall>k. k \<notin> {''max_tokens'', ''max_output_tokens'', ''max_completion_tokens''} \<longrightarrow> bm_get obj' k = bm_get obj k) \<and>
       (go_max_output_tokens opts = None \<longrightarrow> obj' = obj)"
  by (cases "go_max_output_tokens opts"; cases e) (auto simp: lower_max_output_tokens_def limit_member_def unsupported_def)

lemma accepts_limited:
  assumes "\<forall>n. go_max_output_tokens opts = Some n \<longrightarrow> bm_get obj' (limit_member e p model) = Some (json_nat n)"
    "\<forall>k. k \<notin> {''max_tokens'', ''max_output_tokens'', ''max_completion_tokens'', ''top_k''} \<longrightarrow> bm_get obj' k = bm_get obj k"
    "go_max_output_tokens opts = None \<longrightarrow> bm_get obj' ''max_tokens'' = bm_get obj ''max_tokens''"
  shows "upstream_accepts (reasoning_dialect_of e p model) model obj' r =
    upstream_accepts (reasoning_dialect_of e p model) model (with_limit e p model opts obj) r"
proof -
  have limit: "limit_member e p model \<noteq> ''temperature''" "limit_member e p model \<noteq> ''top_p''"
    by (simp_all add: limit_member_def split: endpoint.split)
  have "bm_get obj' ''temperature'' = bm_get obj ''temperature''" "bm_get obj' ''top_p'' = bm_get obj ''top_p''"
    by (rule assms(2) [rule_format], simp)+
  then have same: "bm_get obj' ''temperature'' = bm_get (with_limit e p model opts obj) ''temperature''"
    "bm_get obj' ''top_p'' = bm_get (with_limit e p model opts obj) ''top_p''"
    using limit by (simp_all add: with_limit_def split: option.split)
  show ?thesis
  proof (cases "reasoning_dialect_of e p model = Claude_Thinking")
    case True
    then have member: "limit_member e p model = ''max_tokens''" by (rule claude_limit_member)
    have "bm_get obj' ''max_tokens'' = bm_get (with_limit e p model opts obj) ''max_tokens''"
      using assms(1,3) unfolding member with_limit_def by (cases "go_max_output_tokens opts") simp_all
    with True same show ?thesis by (simp add: claude_accepts_def)
  next
    case False
    then show ?thesis using same by (cases "reasoning_dialect_of e p model") simp_all
  qed
qed

lemma controls_lower:
  assumes valid: "\<forall>r. go_reasoning opts = Some r \<longrightarrow> validate_reasoning r = Inr ()"
  shows "lowers (controls_accepted e p model opts obj) (requested_members e p model opts) (asked_names opts) obj
    (lower_controls obj e p model opts)"
proof (cases "case go_max_output_tokens opts of None \<Rightarrow> Inr obj | Some n \<Rightarrow> lower_max_output_tokens obj e p model n")
  case (Inl err)
  then show ?thesis
    using limit_outcome [where opts = opts and obj = obj and e = e and p = p and model = model] by (auto simp: lowers_def lower_controls_def controls_accepted_def)
next
  case (Inr obj1)
  note limit = limit_outcome [where opts = opts and obj = obj and e = e and p = p and model = model, unfolded Inr, simplified]
  show ?thesis
  proof (cases "go_top_k opts \<noteq> None \<and> \<not> (e = Chat_Completions \<and> p = ''llama-cpp'')")
    case True
    then show ?thesis
      by (auto simp: lowers_def lower_controls_def Inr lower_top_k_def unsupported_def controls_accepted_def)
  next
    case top: False
    define obj2 where "obj2 = (case go_top_k opts of None \<Rightarrow> obj1 | Some n \<Rightarrow> bm_insert ''top_k'' (json_nat n) obj1)"
    have low: "lower_controls obj e p model opts =
        (case go_reasoning opts of None \<Rightarrow> Inr obj2
         | Some r \<Rightarrow> (case e of
             Responses \<Rightarrow> lower_responses_reasoning obj2 p r
           | Chat_Completions \<Rightarrow> lower_chat_reasoning obj2 p model r
           | Messages \<Rightarrow> lower_messages_reasoning obj2 p model r))"
    proof -
      have "(case go_top_k opts of None \<Rightarrow> Inr obj1 | Some n \<Rightarrow> lower_top_k obj1 e p n) = Inr obj2"
        using top by (auto simp: lower_top_k_def obj2_def split: option.split)
      then show ?thesis by (simp add: lower_controls_def Inr)
    qed
    have gets: "bm_get obj2 k = (case if k = ''top_k'' then go_top_k opts else None of
        Some n \<Rightarrow> Some (json_nat n) | None \<Rightarrow> bm_get obj1 k)" for k
      by (simp add: obj2_def split: option.split)
    have top_member: "limit_member e p model \<noteq> ''top_k''" by (simp add: limit_member_def split: endpoint.split)
    have set2: "go_max_output_tokens opts = Some n \<Longrightarrow> bm_get obj2 (limit_member e p model) = Some (json_nat n)" for n
      using limit top_member by (simp add: gets)
    have frame2: "k \<notin> {''max_tokens'', ''max_output_tokens'', ''max_completion_tokens'', ''top_k''} \<Longrightarrow>
        bm_get obj2 k = bm_get obj k" for k
      using limit by (simp add: gets)
    have asked2: "k \<notin> asked_names opts \<Longrightarrow> bm_get obj2 k = bm_get obj k" for k
      using limit by (auto simp: gets asked_names_def split: if_splits option.splits)
    have top2: "go_top_k opts = Some n \<Longrightarrow> bm_get obj2 ''top_k'' = Some (json_nat n)" for n
      by (simp add: gets)
    have names: "limit_member e p model \<notin> reasoning_names" "''top_k'' \<notin> reasoning_names"
      by (simp_all add: limit_member_def reasoning_names_def split: endpoint.split)
    show ?thesis
    proof (cases "go_reasoning opts")
      case None
      then show ?thesis
        using limit top set2 top2 asked2
        by (auto simp: lowers_def low requested_members_def ball_Un controls_accepted_def)
    next
      case (Some r)
      have accepts: "upstream_accepts (reasoning_dialect_of e p model) model obj2 r =
          upstream_accepts (reasoning_dialect_of e p model) model (with_limit e p model opts obj) r"
        by (rule accepts_limited) (use set2 frame2 limit in \<open>auto simp: gets\<close>)
      have out: "lowers (sayable (reasoning_dialect_of e p model) r \<and>
            upstream_accepts (reasoning_dialect_of e p model) model (with_limit e p model opts obj) r)
          (reasoning_members (reasoning_dialect_of e p model) r) reasoning_names obj2 (lower_controls obj e p model opts)"
        using reasoning_lowers [of r e p model obj2] valid Some unfolding low accepts by simp
      show ?thesis
      proof (cases "lower_controls obj e p model opts")
        case (Inl err)
        with out show ?thesis by (simp add: lowers_def controls_accepted_def Some)
      next
        case (Inr obj3)
        note facts = out [unfolded lowers_def Inr, simplified sum.case]
        have gets3: "k \<notin> reasoning_names \<Longrightarrow> bm_get obj3 k = bm_get obj2 k" for k using facts by blast
        have "go_max_output_tokens opts = Some n \<Longrightarrow> bm_get obj3 (limit_member e p model) = Some (json_nat n)" for n
          using set2 gets3 names by simp
        moreover have "go_top_k opts = Some n \<Longrightarrow> bm_get obj3 ''top_k'' = Some (json_nat n)" for n
          using top2 gets3 names by simp
        moreover have "k \<notin> asked_names opts \<Longrightarrow> bm_get obj3 k = bm_get obj k" for k
          using gets3 asked2 by (simp add: asked_names_def Some)
        ultimately show ?thesis
          using facts top limit by (auto simp: lowers_def Inr requested_members_def Some ball_Un controls_accepted_def)
      qed
    qed
  qed
qed

text \<open>
  The checks of the code against the documentation (docs/sdk.md): that manual reasoning requires the mode enabled, and
  that adaptive reasoning is refused before 4.6, does not hold of a budget without a mode, nor of a
  model that the code's table does not know.
\<close>

lemma budget_without_mode_lowered:
  "case lower_generation_options (J_Object []) Messages ''anthropic'' ''claude-sonnet-4-5''
      \<lparr>go_max_output_tokens = Some 8192, go_top_k = None,
       go_reasoning = Some \<lparr>ro_mode = None, ro_effort = None, ro_budget_tokens = Some 4096, ro_summary = None\<rparr>\<rparr> of
     Inl _ \<Rightarrow> False | Inr body \<Rightarrow> json_pointer body [''thinking'', ''type''] = Some (J_String ''enabled'')"
  by code_simp

lemma adaptive_on_unknown_model_lowered:
  "case lower_generation_options (J_Object []) Messages ''anthropic'' ''claude-opus-4-20250514''
      \<lparr>go_max_output_tokens = None, go_top_k = None,
       go_reasoning = Some \<lparr>ro_mode = Some Mode_Adaptive, ro_effort = None, ro_budget_tokens = None, ro_summary = None\<rparr>\<rparr> of
     Inl _ \<Rightarrow> False | Inr body \<Rightarrow> json_pointer body [''thinking'', ''type''] = Some (J_String ''adaptive'')"
  by code_simp



end
