(* ===== verification/Tool_Defs.thy ===== *)
theory Tool_Defs
  imports Ir
begin

text \<open>
  Tool definitions and tool choices across the three dialects (crates/convert/src/tools.rs):
  every request is read with its tools in the chat shape, and written back in the shape of
  the dialect it goes to.
\<close>

section \<open>Tools\<close>

definition insert_str :: "string \<Rightarrow> json option \<Rightarrow> (string, json) bmap \<Rightarrow> (string, json) bmap" where
  "insert_str key src out =
     (case Option.bind src json_str of Some s \<Rightarrow> bm_insert key (J_String s) out | None \<Rightarrow> out)"

definition function_envelope :: "(string, json) bmap \<Rightarrow> json" where
  "function_envelope inner = json_obj [(''type'', J_String ''function''), (''function'', J_Object inner)]"

definition wrap_function :: "(string, json) bmap \<Rightarrow> json" where
  "wrap_function obj =
     function_envelope
       (insert_some ''strict'' (bm_get obj ''strict'')
       (insert_some ''parameters'' (bm_get obj ''parameters'')
       (insert_str ''description'' (bm_get obj ''description'')
       (insert_str ''name'' (bm_get obj ''name'') []))))"

definition wrap_schema :: "(string, json) bmap \<Rightarrow> json" where
  "wrap_schema obj =
     function_envelope
       (insert_some ''parameters'' (bm_get obj ''input_schema'')
       (insert_str ''description'' (bm_get obj ''description'')
       (insert_str ''name'' (bm_get obj ''name'') [])))"

definition has_key :: "(string, json) bmap \<Rightarrow> string \<Rightarrow> bool" where
  "has_key obj k \<longleftrightarrow> bm_get obj k \<noteq> None"

text \<open>\<open>value.get("function").and_then(Value::as_object)\<close>.\<close>

definition function_object :: "json \<Rightarrow> (string, json) bmap option" where
  "function_object v = Option.bind (json_get v ''function'') json_object"

definition normalise_tool :: "json \<Rightarrow> json" where
  "normalise_tool v =
     (case json_object v of
        None \<Rightarrow> v
      | Some obj \<Rightarrow>
          if function_object v \<noteq> None then v
          else if get_str v ''type'' = Some ''function'' \<and> has_key obj ''name'' then wrap_function obj
          else if has_key obj ''input_schema'' \<and> has_key obj ''name'' then wrap_schema obj
          else if has_key obj ''name'' \<and> (has_key obj ''parameters'' \<or> has_key obj ''description'')
          then wrap_function obj
          else v)"

definition normalise_tools :: "json list \<Rightarrow> json list" where
  "normalise_tools tools = map normalise_tool tools"

definition tool_to_responses :: "json \<Rightarrow> json" where
  "tool_to_responses v =
     (case function_object v of
        None \<Rightarrow> v
      | Some func \<Rightarrow>
          J_Object
            (insert_some ''strict'' (bm_get func ''strict'')
            (insert_some ''parameters'' (bm_get func ''parameters'')
            (insert_str ''description'' (bm_get func ''description'')
            (insert_str ''name'' (bm_get func ''name'')
            (bm_insert ''type'' (J_String ''function'') []))))))"

definition empty_schema :: json where
  "empty_schema = json_obj [(''type'', J_String ''object''), (''properties'', json_obj [])]"

definition tool_to_messages :: "json \<Rightarrow> json" where
  "tool_to_messages v =
     (case function_object v of
        None \<Rightarrow> v
      | Some func \<Rightarrow>
          J_Object
            (bm_insert ''input_schema'' (unwrap_or empty_schema (bm_get func ''parameters''))
            (insert_str ''description'' (bm_get func ''description'')
            (insert_str ''name'' (bm_get func ''name'') []))))"

section \<open>Tool choices\<close>

definition has_only_keys :: "(string, json) bmap \<Rightarrow> string list \<Rightarrow> bool" where
  "has_only_keys obj allowed \<longleftrightarrow> (\<forall>k \<in> set (bm_keys obj). k \<in> set allowed)"

definition named_tool_choice :: "string \<Rightarrow> json" where
  "named_tool_choice name = json_obj [(''type'', J_String ''function''), (''function'', json_obj [(''name'', J_String name)])]"

definition named_tool_choice_name :: "json \<Rightarrow> string option" where
  "named_tool_choice_name v = Option.bind (Option.bind (function_object v) (\<lambda>f. bm_get f ''name'')) json_str"

text \<open>The object with only a type and a name.\<close>

definition name_of_choice :: "json \<Rightarrow> json" where
  "name_of_choice v = (case get_str v ''name'' of Some name \<Rightarrow> named_tool_choice name | None \<Rightarrow> v)"

definition normalise_tool_choice :: "json \<Rightarrow> json" where
  "normalise_tool_choice v =
     (case json_str v of
        Some mode \<Rightarrow> J_String mode
      | None \<Rightarrow>
          (case json_object v of
             None \<Rightarrow> v
           | Some obj \<Rightarrow>
               (case get_str v ''type'' of
                  None \<Rightarrow> v
                | Some t \<Rightarrow>
                    if t = ''auto'' \<and> has_only_keys obj [''type''] then J_String ''auto''
                    else if t = ''none'' \<and> has_only_keys obj [''type''] then J_String ''none''
                    else if (t = ''any'' \<or> t = ''required'') \<and> has_only_keys obj [''type''] then J_String ''required''
                    else if t = ''tool'' \<and> has_only_keys obj [''type'', ''name''] then name_of_choice v
                    else if t = ''function'' then
                      (if function_object v \<noteq> None then v
                       else if has_only_keys obj [''type'', ''name''] then name_of_choice v
                       else v)
                    else v)))"

definition tool_choice_to_chat :: "json \<Rightarrow> json" where
  "tool_choice_to_chat v = normalise_tool_choice v"

definition tool_choice_to_responses :: "json \<Rightarrow> json" where
  "tool_choice_to_responses v =
     (let choice = normalise_tool_choice v
      in case named_tool_choice_name choice of
           Some name \<Rightarrow> json_obj [(''type'', J_String ''function''), (''name'', J_String name)]
         | None \<Rightarrow> choice)"

definition tool_choice_to_messages :: "json \<Rightarrow> json" where
  "tool_choice_to_messages v =
     (let choice = normalise_tool_choice v
      in case named_tool_choice_name choice of
           Some name \<Rightarrow> json_obj [(''type'', J_String ''tool''), (''name'', J_String name)]
         | None \<Rightarrow>
             (case json_str choice of
                None \<Rightarrow> choice
              | Some mode \<Rightarrow>
                  if mode = ''auto'' then json_obj [(''type'', J_String ''auto'')]
                  else if mode = ''none'' then json_obj [(''type'', J_String ''none'')]
                  else if mode = ''required'' then json_obj [(''type'', J_String ''any'')]
                  else choice))"

section \<open>Reading back what was written\<close>

text \<open>What a tool in the chat shape says of its function.\<close>

record function_view =
  fv_name :: "string option"
  fv_description :: "string option"
  fv_parameters :: "json option"
  fv_strict :: "json option"

definition function_says :: "json \<Rightarrow> function_view option" where
  "function_says v =
     map_option (\<lambda>f.
       \<lparr>fv_name = Option.bind (bm_get f ''name'') json_str,
        fv_description = Option.bind (bm_get f ''description'') json_str,
        fv_parameters = bm_get f ''parameters'', fv_strict = bm_get f ''strict''\<rparr>) (function_object v)"

lemma bm_ok_insert_some [simp]: "bm_ok m \<Longrightarrow> bm_ok (insert_some k v m)"
  by (cases v) (simp_all add: bm_ok_insert)

lemma bm_ok_insert_str [simp]: "bm_ok m \<Longrightarrow> bm_ok (insert_str k v m)"
  by (simp add: insert_str_def bm_ok_insert split: option.split)

lemma bm_get_insert_some [simp]:
  "bm_ok m \<Longrightarrow> bm_get (insert_some k v m) k' = (if k' = k \<and> v \<noteq> None then v else bm_get m k')"
  by (cases v) (auto simp: bm_get_insert)

lemma bm_get_insert_str [simp]:
  "bm_ok m \<Longrightarrow> bm_get (insert_str k v m) k' =
     (if k' = k \<and> Option.bind v json_str \<noteq> None then map_option J_String (Option.bind v json_str) else bm_get m k')"
  by (auto simp: insert_str_def bm_get_insert split: option.split)

lemma function_object_envelope [simp]: "function_object (function_envelope inner) = Some inner"
  by (simp add: function_object_def function_envelope_def json_get_obj)

lemma json_str_of_opt: "Option.bind (map_option J_String x) json_str = x"
  by (cases x) simp_all

lemma function_says_wrap:
  "function_says (wrap_function obj) =
     Some \<lparr>fv_name = Option.bind (bm_get obj ''name'') json_str,
           fv_description = Option.bind (bm_get obj ''description'') json_str,
           fv_parameters = bm_get obj ''parameters'', fv_strict = bm_get obj ''strict''\<rparr>"
  by (simp add: function_says_def wrap_function_def json_str_of_opt bm_ok_insert)

lemma function_says_schema:
  "function_says (wrap_schema obj) =
     Some \<lparr>fv_name = Option.bind (bm_get obj ''name'') json_str,
           fv_description = Option.bind (bm_get obj ''description'') json_str,
           fv_parameters = bm_get obj ''input_schema'', fv_strict = None\<rparr>"
  by (simp add: function_says_def wrap_schema_def json_str_of_opt bm_ok_insert)

lemma normalise_tool_of_function: "function_object v \<noteq> None \<Longrightarrow> normalise_tool v = v"
  by (simp add: normalise_tool_def split: option.split)

lemma normalise_tool_idempotent: "normalise_tool (normalise_tool v) = normalise_tool v"
proof (cases "normalise_tool v = v")
  case False
  then have "function_object (normalise_tool v) \<noteq> None"
    by (auto simp: normalise_tool_def wrap_function_def wrap_schema_def split: option.splits if_splits)
  then show ?thesis by (rule normalise_tool_of_function)
qed simp

text \<open>
  The two shapes a named function tool is written in are read back to what it says; the
  Messages shape has no \<open>strict\<close> and always a schema.
\<close>

lemma responses_tool_read_back:
  assumes "function_says v = Some f" "fv_name f \<noteq> None"
  shows "function_says (normalise_tool (tool_to_responses v)) = Some f"
proof -
  from assms obtain g n where g: "function_object v = Some g" and n: "Option.bind (bm_get g ''name'') json_str = Some n"
    and f: "f = \<lparr>fv_name = Some n, fv_description = Option.bind (bm_get g ''description'') json_str,
                 fv_parameters = bm_get g ''parameters'', fv_strict = bm_get g ''strict''\<rparr>"
    by (auto simp: function_says_def)
  obtain obj where w: "tool_to_responses v = J_Object obj"
    and obj: "bm_get obj ''type'' = Some (J_String ''function'')" "bm_get obj ''name'' = Some (J_String n)"
      "bm_get obj ''description'' = map_option J_String (Option.bind (bm_get g ''description'') json_str)"
      "bm_get obj ''parameters'' = bm_get g ''parameters''" "bm_get obj ''strict'' = bm_get g ''strict''"
      "bm_get obj ''function'' = None"
    by (rule that, simp add: tool_to_responses_def g) (simp_all add: n bm_ok_Cons)
  then have "normalise_tool (tool_to_responses v) = wrap_function obj"
    by (simp add: normalise_tool_def function_object_def get_str_def has_key_def)
  then show ?thesis by (simp add: function_says_wrap obj f json_str_of_opt)
qed

lemma messages_tool_read_back:
  assumes "function_says v = Some f" "fv_name f \<noteq> None"
  shows "function_says (normalise_tool (tool_to_messages v)) =
           Some (f\<lparr>fv_parameters := Some (unwrap_or empty_schema (fv_parameters f)), fv_strict := None\<rparr>)"
proof -
  from assms obtain g n where g: "function_object v = Some g" and n: "Option.bind (bm_get g ''name'') json_str = Some n"
    and f: "f = \<lparr>fv_name = Some n, fv_description = Option.bind (bm_get g ''description'') json_str,
                 fv_parameters = bm_get g ''parameters'', fv_strict = bm_get g ''strict''\<rparr>"
    by (auto simp: function_says_def)
  obtain obj where w: "tool_to_messages v = J_Object obj"
    and obj: "bm_get obj ''type'' = None" "bm_get obj ''name'' = Some (J_String n)"
      "bm_get obj ''description'' = map_option J_String (Option.bind (bm_get g ''description'') json_str)"
      "bm_get obj ''input_schema'' = Some (unwrap_or empty_schema (bm_get g ''parameters''))"
      "bm_get obj ''function'' = None"
    by (rule that, simp add: tool_to_messages_def g) (simp_all add: n bm_get_insert bm_ok_insert)
  then have "normalise_tool (tool_to_messages v) = wrap_schema obj"
    by (simp add: normalise_tool_def function_object_def get_str_def has_key_def)
  then show ?thesis by (simp add: function_says_schema obj f json_str_of_opt)
qed

text \<open>A choice as every dialect can say it: a named function keeps only its name.\<close>

definition canonical_choice :: "json \<Rightarrow> json" where
  "canonical_choice v =
     (case named_tool_choice_name (normalise_tool_choice v) of
        Some name \<Rightarrow> named_tool_choice name
      | None \<Rightarrow> normalise_tool_choice v)"

lemma has_only_keys_obj: "has_only_keys (bm_of_list entries) allowed \<longleftrightarrow> (\<forall>k \<in> fst ` set entries. k \<in> set allowed)"
  using keys_bm_of_list [of entries] by (force simp: has_only_keys_def bm_keys_def)

lemma json_obj_views [simp]:
  "json_str (json_obj es) = None" "json_object (json_obj es) = Some (bm_of_list es)"
  "json_array (json_obj es) = None"
  by (simp_all add: json_obj_def)

lemma named_choice_fields [simp]:
  "json_str (named_tool_choice n) = None"
  "json_object (named_tool_choice n) \<noteq> None"
  "get_str (named_tool_choice n) ''type'' = Some ''function''"
  "function_object (named_tool_choice n) \<noteq> None"
  "named_tool_choice_name (named_tool_choice n) = Some n"
  by (simp_all add: named_tool_choice_def named_tool_choice_name_def function_object_def get_obj json_get_obj bm_get_of_list)

lemma normalise_named_choice: "normalise_tool_choice (named_tool_choice n) = named_tool_choice n"
proof -
  obtain obj where "json_object (named_tool_choice n) = Some obj" using named_choice_fields(2) by blast
  then show ?thesis by (simp add: normalise_tool_choice_def)
qed

lemma normalise_choice_forms:
  "normalise_tool_choice v = v \<or> (\<exists>m. normalise_tool_choice v = J_String m) \<or>
   (\<exists>n. normalise_tool_choice v = named_tool_choice n)"
proof -
  have name: "name_of_choice v = v \<or> (\<exists>n. name_of_choice v = named_tool_choice n)"
    by (simp add: name_of_choice_def split: option.split) blast
  show ?thesis
  proof (cases "json_str v")
    case None
    note s = this
    show ?thesis
    proof (cases "json_object v = None \<or> get_str v ''type'' = None")
      case True
      then have "normalise_tool_choice v = v"
        unfolding normalise_tool_choice_def s option.case by (cases "json_object v") simp_all
      then show ?thesis by simp
    next
      case False
      then obtain obj t where "json_object v = Some obj" "get_str v ''type'' = Some t" by auto
      then have "normalise_tool_choice v \<in> {v, name_of_choice v} \<union> range J_String"
        unfolding normalise_tool_choice_def s by simp
      then show ?thesis using name by auto
    qed
  qed (simp add: normalise_tool_choice_def)
qed

lemma normalise_choice_string [simp]: "normalise_tool_choice (J_String m) = J_String m"
  by (simp add: normalise_tool_choice_def)

lemma normalise_tool_choice_idempotent: "normalise_tool_choice (normalise_tool_choice v) = normalise_tool_choice v"
  using normalise_choice_forms [of v] by (auto simp: normalise_named_choice)

lemma normalise_choice_objects:
  "normalise_tool_choice (json_obj [(''type'', J_String ''function''), (''name'', J_String n)]) = named_tool_choice n"
  "normalise_tool_choice (json_obj [(''type'', J_String ''tool''), (''name'', J_String n)]) = named_tool_choice n"
  "normalise_tool_choice (json_obj [(''type'', J_String ''auto'')]) = J_String ''auto''"
  "normalise_tool_choice (json_obj [(''type'', J_String ''none'')]) = J_String ''none''"
  "normalise_tool_choice (json_obj [(''type'', J_String ''any'')]) = J_String ''required''"
  by (simp_all add: normalise_tool_choice_def name_of_choice_def get_obj function_object_def json_get_obj has_only_keys_obj)

lemma responses_choice_read_back: "normalise_tool_choice (tool_choice_to_responses v) = canonical_choice v"
  by (cases "named_tool_choice_name (normalise_tool_choice v)")
    (simp_all add: tool_choice_to_responses_def canonical_choice_def normalise_choice_objects normalise_tool_choice_idempotent)

lemma json_str_Some: "json_str v = Some s \<longleftrightarrow> v = J_String s"
  by (cases v) auto

lemma messages_choice_read_back: "normalise_tool_choice (tool_choice_to_messages v) = canonical_choice v"
proof -
  define c where "c = normalise_tool_choice v"
  have idem: "normalise_tool_choice c = c" by (simp add: c_def normalise_tool_choice_idempotent)
  have mode: "normalise_tool_choice
      (if m = ''auto'' then json_obj [(''type'', J_String ''auto'')]
       else if m = ''none'' then json_obj [(''type'', J_String ''none'')]
       else if m = ''required'' then json_obj [(''type'', J_String ''any'')] else J_String m) = J_String m" for m
    by (simp only: normalise_choice_objects normalise_choice_string split: if_split) blast
  show ?thesis
  proof (cases "named_tool_choice_name c")
    case None
    then show ?thesis
    proof (cases "json_str c")
      case (Some m)
      with None mode [of m] show ?thesis
        by (simp only: tool_choice_to_messages_def canonical_choice_def Let_def c_def [symmetric] option.case json_str_Some json_str.simps)
    qed (simp add: tool_choice_to_messages_def canonical_choice_def c_def [symmetric] idem)
  qed (simp add: tool_choice_to_messages_def canonical_choice_def c_def [symmetric] normalise_choice_objects)
qed

end
