(* ===== verification/Request_Ir.thy ===== *)
theory Request_Ir
  imports Tool_Defs Sse_Accumulate Ip_Addr
begin

text \<open>
  The endpoint-neutral representation of requests (crates/convert/src/ir.rs) and the helpers
  the three dialects share. \<open>render\<close> is \<open>serde_json::to_string\<close> and \<open>parse\<close> is
  \<open>serde_json::from_str\<close> with an error as \<open>None\<close>; both are arguments of what uses them.

  No operation computes with a float: an \<open>f64\<close> is its text. An integer read as a float is
  rounded to 53 significant bits, ties to even.
\<close>

section \<open>Floats\<close>

type_synonym f64 = string

fun bit_length :: "nat \<Rightarrow> nat" where
  "bit_length n = (if n = 0 then 0 else Suc (bit_length (n div 2)))"

declare bit_length.simps [simp del]

definition round_53 :: "nat \<Rightarrow> nat" where
  "round_53 n =
     (let e = bit_length n - 53; q = n div 2 ^ e; r = n mod 2 ^ e
      in if e = 0 then n
         else if r > 2 ^ (e - 1) \<or> (r = 2 ^ (e - 1) \<and> odd q) then (q + 1) * 2 ^ e
         else q * 2 ^ e)"

definition f64_of_int :: "int \<Rightarrow> f64" where
  "f64_of_int n = (if n < 0 then ''-'' else []) @ show_radix 10 (round_53 (nat \<bar>n\<bar>)) @ ''.0''"

fun json_f64 :: "json \<Rightarrow> f64 option" where
  "json_f64 (J_Number (N_Int n)) = Some (f64_of_int n)"
| "json_f64 (J_Number (N_Float s)) = Some s"
| "json_f64 _ = None"

definition json_float :: "f64 \<Rightarrow> json" where
  "json_float s = J_Number (N_Float s)"

lemma json_f64_float [simp]: "json_f64 (json_float s) = Some s"
  by (simp add: json_float_def)

section \<open>Requests\<close>

record ir_message =
  im_role :: role
  im_content :: "content_part list"
  im_tool_call_id :: "string option"
  im_name :: "string option"
  im_raw :: "json option"

record sampling =
  sm_temperature :: "f64 option"
  sm_top_p :: "f64 option"
  sm_max_output_tokens :: "nat option"
  sm_stop :: "json option"
  sm_n :: "nat option"
  sm_seed :: "int option"

record ir_request =
  rq_model :: string
  rq_system :: "string option"
  rq_messages :: "ir_message list"
  rq_tools :: "json list"
  rq_tool_choice :: "json option"
  rq_sampling :: sampling
  rq_reasoning :: "json option"
  rq_stream :: bool
  rq_extras :: "(string, json) bmap"

section \<open>Shared helpers\<close>

definition get_bool :: "json \<Rightarrow> string \<Rightarrow> bool option" where
  "get_bool v k = Option.bind (json_get v k) json_bool"

definition get_f64 :: "json \<Rightarrow> string \<Rightarrow> f64 option" where
  "get_f64 v k = Option.bind (json_get v k) json_f64"

definition get_i64 :: "json \<Rightarrow> string \<Rightarrow> int option" where
  "get_i64 v k = Option.bind (json_get v k) json_i64"

definition insert_opt_f64 :: "string \<Rightarrow> f64 option \<Rightarrow> (string, json) bmap \<Rightarrow> (string, json) bmap" where
  "insert_opt_f64 k x = insert_some k (map_option json_float x)"

definition insert_opt_u64 :: "string \<Rightarrow> nat option \<Rightarrow> (string, json) bmap \<Rightarrow> (string, json) bmap" where
  "insert_opt_u64 k x = insert_some k (map_option json_nat x)"

definition insert_true :: "string \<Rightarrow> bool \<Rightarrow> (string, json) bmap \<Rightarrow> (string, json) bmap" where
  "insert_true k b m = (if b then bm_insert k (J_Bool True) m else m)"

text \<open>\<open>out.entry(k).or_insert_with(..)\<close> over the extra fields.\<close>

definition insert_absent :: "string \<Rightarrow> json \<Rightarrow> (string, json) bmap \<Rightarrow> (string, json) bmap" where
  "insert_absent k v m = (case bm_get m k of None \<Rightarrow> bm_insert k v m | Some _ \<Rightarrow> m)"

definition add_extras :: "(string, json) bmap \<Rightarrow> (string, json) bmap \<Rightarrow> (string, json) bmap" where
  "add_extras extras m = fold (\<lambda>(k, v). insert_absent k v) extras m"

definition args_to_string :: "(json \<Rightarrow> string) \<Rightarrow> json \<Rightarrow> string" where
  "args_to_string render args = (case json_str args of Some s \<Rightarrow> s | None \<Rightarrow> render args)"

definition parse_args :: "(string \<Rightarrow> json option) \<Rightarrow> json \<Rightarrow> json" where
  "parse_args parse args = (case json_str args of Some s \<Rightarrow> unwrap_or (J_String s) (parse s) | None \<Rightarrow> args)"

text \<open>Both \<open>tool_result_text\<close> of the chat dialect and \<open>tool_result_output\<close> of the Responses dialect.\<close>

definition tool_result_text :: "(json \<Rightarrow> string) \<Rightarrow> json \<Rightarrow> string" where
  "tool_result_text render content = (case json_str content of Some s \<Rightarrow> s | None \<Rightarrow> render content)"

fun is_tool_result :: "content_part \<Rightarrow> bool" where
  "is_tool_result (Tool_Result_Part _ _) = True"
| "is_tool_result _ = False"

fun is_raw :: "content_part \<Rightarrow> bool" where
  "is_raw (Raw_Part _) = True"
| "is_raw _ = False"

fun part_call :: "content_part \<Rightarrow> tool_call option" where
  "part_call (Tool_Call_Part call) = Some call"
| "part_call _ = None"

lemma bm_ok_insert_absent [simp]: "bm_ok m \<Longrightarrow> bm_ok (insert_absent k v m)"
  by (simp add: insert_absent_def bm_ok_insert split: option.split)

lemma bm_ok_add_extras [simp]: "bm_ok m \<Longrightarrow> bm_ok (add_extras es m)"
  unfolding add_extras_def by (induction es arbitrary: m) auto

lemma bm_get_add_extras [simp]:
  "bm_ok m \<Longrightarrow> bm_get (add_extras es m) k = or_else (bm_get m k) (bm_get es k)"
proof (induction es arbitrary: m)
  case Nil
  then show ?case by (cases "bm_get m k") (simp_all add: add_extras_def)
next
  case (Cons e es)
  obtain k' v where e: "e = (k', v)" by fastforce
  have "add_extras (e # es) m = add_extras es (insert_absent k' v m)" by (simp add: add_extras_def e)
  with Cons show ?case
    by (cases "bm_get m k"; cases "bm_get m k'") (auto simp: e insert_absent_def bm_get_insert bm_ok_insert)
qed

lemma bm_ok_insert_opts [simp]:
  "bm_ok m \<Longrightarrow> bm_ok (insert_opt_f64 k x m)" "bm_ok m \<Longrightarrow> bm_ok (insert_opt_u64 k y m)"
  "bm_ok m \<Longrightarrow> bm_ok (insert_true k b m)"
  by (simp_all add: insert_opt_f64_def insert_opt_u64_def insert_true_def bm_ok_insert)

lemma bm_get_insert_opts [simp]:
  "bm_ok m \<Longrightarrow> bm_get (insert_opt_f64 k x m) k' = (if k' = k \<and> x \<noteq> None then map_option json_float x else bm_get m k')"
  "bm_ok m \<Longrightarrow> bm_get (insert_opt_u64 k y m) k' = (if k' = k \<and> y \<noteq> None then map_option json_nat y else bm_get m k')"
  "bm_ok m \<Longrightarrow> bm_get (insert_true k b m) k' = (if k' = k \<and> b then Some (J_Bool True) else bm_get m k')"
  by (auto simp: insert_opt_f64_def insert_opt_u64_def insert_true_def bm_get_insert)

end
