(* ===== verification/Chat_Value.thy ===== *)
theory Chat_Value
  imports Request_Ir
begin

text \<open>
  Requests and responses of the chat completions dialect (crates/convert/src/value/chat.rs):
  reading into and writing from the endpoint-neutral representation.
\<close>

section \<open>Reading requests\<close>

definition chat_request_keys :: "string list" where
  "chat_request_keys =
     [''model'', ''messages'', ''tools'', ''tool_choice'', ''temperature'', ''top_p'', ''max_tokens'',
      ''max_completion_tokens'', ''stop'', ''n'', ''seed'', ''stream'', ''reasoning'', ''thinking'']"

definition part_from_chat :: "json \<Rightarrow> content_part" where
  "part_from_chat v =
     (if get_str v ''type'' = Some ''text'' then Text_Part (unwrap_or [] (get_str v ''text'')) else Raw_Part v)"

fun content_from_chat :: "json option \<Rightarrow> content_part list" where
  "content_from_chat (Some (J_String s)) = [Text_Part s]"
| "content_from_chat (Some (J_Array parts)) = map part_from_chat parts"
| "content_from_chat (Some J_Null) = []"
| "content_from_chat None = []"
| "content_from_chat (Some v) = [Raw_Part v]"

definition message_from_value :: "json \<Rightarrow> string \<Rightarrow> ir_message" where
  "message_from_value msg role =
     (let tool_call_id = get_str msg ''tool_call_id''
      in \<lparr>im_role = role_from_wire role,
          im_content =
            (if role = ''tool'' then [Tool_Result_Part tool_call_id (unwrap_or J_Null (json_get msg ''content''))]
             else content_from_chat (json_get msg ''content'')),
          im_tool_call_id = tool_call_id, im_name = get_str msg ''name'', im_raw = None\<rparr>)"

definition tool_call_from_chat :: "(string \<Rightarrow> json option) \<Rightarrow> json \<Rightarrow> tool_call" where
  "tool_call_from_chat parse v =
     \<lparr>tc_id = get_str v ''id'',
      tc_name = unwrap_or [] (Option.bind (json_get v ''function'') (\<lambda>f. get_str f ''name'')),
      tc_arguments = parse_args parse (unwrap_or J_Null (Option.bind (json_get v ''function'') (\<lambda>f. json_get f ''arguments'')))\<rparr>"

text \<open>One message of the conversation: its text where it is a system message.\<close>

definition chat_message :: "(string \<Rightarrow> json option) \<Rightarrow> json \<Rightarrow> string option + ir_message" where
  "chat_message parse msg =
     (let ir = message_from_value msg (unwrap_or ''user'' (get_str msg ''role''))
      in if im_role ir = System_Role then
           (let text = text_from_parts (im_content ir) in Inl (if text = [] then None else Some text))
         else
           Inr (ir\<lparr>im_content :=
             im_content ir @
             (case get_array msg ''tool_calls'' of
                Some calls \<Rightarrow> map (\<lambda>call. Tool_Call_Part (tool_call_from_chat parse call)) calls
              | None \<Rightarrow> []) @
             (case get_str msg ''reasoning_content'' of Some reasoning \<Rightarrow> [Reasoning_Part reasoning] | None \<Rightarrow> [])\<rparr>))"

fun chat_messages :: "(string \<Rightarrow> json option) \<Rightarrow> json list \<Rightarrow> string list \<times> ir_message list" where
  "chat_messages parse [] = ([], [])"
| "chat_messages parse (msg # msgs) =
     (let (system, messages) = chat_messages parse msgs
      in case chat_message parse msg of
           Inl None \<Rightarrow> (system, messages)
         | Inl (Some text) \<Rightarrow> (text # system, messages)
         | Inr ir \<Rightarrow> (system, ir # messages))"

definition join_system :: "string list \<Rightarrow> string option" where
  "join_system system = (if system = [] then None else Some (join_with [CHR 0x0A, CHR 0x0A] system))"

definition chat_request_from_value :: "(string \<Rightarrow> json option) \<Rightarrow> json \<Rightarrow> convert_error + ir_request" where
  "chat_request_from_value parse v =
     res_bind (ok_or (Bad_Shape ''body'' ''expected object'') (json_object v)) (\<lambda>obj.
     res_bind (ok_or (Missing_Field ''messages'') (get_array v ''messages'')) (\<lambda>msgs.
       let (system, messages) = chat_messages parse msgs
       in Inr \<lparr>rq_model = unwrap_or ''unknown'' (get_str v ''model''), rq_system = join_system system,
               rq_messages = messages,
               rq_tools = normalise_tools (unwrap_or [] (get_array v ''tools'')),
               rq_tool_choice = map_option normalise_tool_choice (json_get v ''tool_choice''),
               rq_sampling =
                 \<lparr>sm_temperature = get_f64 v ''temperature'', sm_top_p = get_f64 v ''top_p'',
                  sm_max_output_tokens =
                    Option.bind (or_else (json_get v ''max_completion_tokens'') (json_get v ''max_tokens'')) json_u64,
                  sm_stop = json_get v ''stop'', sm_n = get_u64 v ''n'', sm_seed = get_i64 v ''seed''\<rparr>,
               rq_reasoning = or_else (json_get v ''reasoning'') (json_get v ''thinking''),
               rq_stream = unwrap_or False (get_bool v ''stream''),
               rq_extras = extras_from_object obj chat_request_keys\<rparr>))"

section \<open>Writing requests\<close>

definition tool_call_to_chat :: "(json \<Rightarrow> string) \<Rightarrow> nat \<Rightarrow> tool_call \<Rightarrow> json" where
  "tool_call_to_chat render index call =
     json_obj
       [(''index'', json_nat index),
        (''id'', J_String (unwrap_or (''call_'' @ show_radix 10 index) (tc_id call))),
        (''type'', J_String ''function''),
        (''function'', json_obj [(''name'', J_String (tc_name call)),
                                 (''arguments'', J_String (args_to_string render (tc_arguments call)))])]"

fun content_value :: "content_part \<Rightarrow> json option" where
  "content_value (Text_Part text) = Some (json_obj [(''type'', J_String ''text''), (''text'', J_String text)])"
| "content_value (Raw_Part v) = Some v"
| "content_value _ = None"

definition content_to_chat :: "content_part list \<Rightarrow> json" where
  "content_to_chat parts =
     (if list_ex is_raw parts then J_Array (filter_map content_value parts)
      else J_String (text_from_parts parts))"

fun tool_message :: "(json \<Rightarrow> string) \<Rightarrow> string option \<Rightarrow> content_part \<Rightarrow> json option" where
  "tool_message render tool_call_id (Tool_Result_Part result_id content) =
     Some (json_obj
       [(''role'', J_String ''tool''),
        (''tool_call_id'', J_String (unwrap_or [] (or_else result_id tool_call_id))),
        (''content'', J_String (tool_result_text render content))])"
| "tool_message render tool_call_id _ = None"

text \<open>The message of the parts that are no tool results.\<close>

definition plain_message :: "(json \<Rightarrow> string) \<Rightarrow> string \<Rightarrow> ir_message \<Rightarrow> content_part list \<Rightarrow> json" where
  "plain_message render role msg remaining =
     (let calls = filter_map part_call remaining;
          reasoning = reasoning_of_parts remaining
      in J_Object
          (insert_some ''reasoning_content'' (if reasoning = [] then None else Some (J_String reasoning))
          (insert_some ''tool_calls''
             (if calls = [] then None
              else Some (J_Array (map (\<lambda>(i, call). tool_call_to_chat render i call) (enumerate 0 calls))))
          (bm_insert ''content'' (content_to_chat remaining)
          (insert_some ''name'' (map_option J_String (im_name msg))
          (insert_some ''tool_call_id'' (if role = ''tool'' then map_option J_String (im_tool_call_id msg) else None)
          (bm_insert ''role'' (J_String role) [])))))))"

definition message_to_chat :: "(json \<Rightarrow> string) \<Rightarrow> ir_message \<Rightarrow> json list" where
  "message_to_chat render msg =
     (let results = filter_map (tool_message render (im_tool_call_id msg)) (im_content msg);
          remaining = filter (\<lambda>part. \<not> is_tool_result part) (im_content msg)
      in if remaining = [] \<and> results \<noteq> [] then results
         else results @ [plain_message render (if results = [] then role_str (im_role msg) else ''user'') msg remaining])"

definition system_message :: "string \<Rightarrow> json" where
  "system_message system = json_obj [(''role'', J_String ''system''), (''content'', J_String system)]"

definition chat_request_to_value :: "(json \<Rightarrow> string) \<Rightarrow> ir_request \<Rightarrow> json" where
  "chat_request_to_value render req =
     (let messages = (case rq_system req of Some system \<Rightarrow> [system_message system] | None \<Rightarrow> []) @
                     concat (map (message_to_chat render) (rq_messages req));
          tools = filter (\<lambda>t. function_object t \<noteq> None) (rq_tools req);
          s = rq_sampling req
      in J_Object
          (add_extras (rq_extras req)
          (insert_some ''reasoning'' (rq_reasoning req)
          (insert_true ''stream'' (rq_stream req)
          (insert_some ''seed'' (map_option (\<lambda>n. J_Number (N_Int n)) (sm_seed s))
          (insert_opt_u64 ''n'' (sm_n s)
          (insert_some ''stop'' (sm_stop s)
          (insert_opt_u64 ''max_tokens'' (sm_max_output_tokens s)
          (insert_opt_f64 ''top_p'' (sm_top_p s)
          (insert_opt_f64 ''temperature'' (sm_temperature s)
          (insert_some ''tool_choice'' (map_option tool_choice_to_chat (rq_tool_choice req))
          (insert_some ''tools'' (if tools = [] then None else Some (J_Array tools))
          (bm_insert ''messages'' (J_Array messages)
          (bm_insert ''model'' (J_String (rq_model req)) []))))))))))))))"

section \<open>Responses\<close>

definition chat_response_from_value :: "(string \<Rightarrow> json option) \<Rightarrow> json \<Rightarrow> convert_error + ir_response" where
  "chat_response_from_value parse v =
     res_bind (ok_or (Missing_Field ''choices'') (first_choice v)) (\<lambda>choice.
       let msg = unwrap_or (unwrap_or J_Null (json_get choice ''delta'')) (json_get choice ''message'')
       in Inr \<lparr>ir_id = get_str v ''id'', ir_model = get_str v ''model'',
               ir_role = map_option role_from_wire (get_str msg ''role''),
               ir_content = content_from_chat (json_get msg ''content'') @
                 (case get_str msg ''reasoning_content'' of Some reasoning \<Rightarrow> [Reasoning_Part reasoning] | None \<Rightarrow> []),
               ir_tool_calls = map (tool_call_from_chat parse) (unwrap_or [] (get_array msg ''tool_calls'')),
               ir_usage = usage_from_openai v, ir_finish_reason = get_str choice ''finish_reason''\<rparr>)"

definition chat_response_to_value :: "(json \<Rightarrow> string) \<Rightarrow> ir_response \<Rightarrow> json" where
  "chat_response_to_value render resp =
     (let msg = J_Object
            (insert_some ''tool_calls''
               (if ir_tool_calls resp = [] then None
                else Some (J_Array (map (\<lambda>(i, call). tool_call_to_chat render i call) (enumerate 0 (ir_tool_calls resp)))))
            (insert_some ''reasoning_content'' (map_option J_String (reasoning_from_parts (ir_content resp)))
            (bm_insert ''content'' (J_String (text_from_parts (ir_content resp)))
            (bm_insert ''role'' (J_String (role_str (unwrap_or Assistant_Role (ir_role resp)))) []))))
      in J_Object
          (insert_some ''usage'' (map_option usage_to_chat (ir_usage resp))
          (bm_of_list
            [(''id'', J_String (unwrap_or ''chatcmpl-converted'' (ir_id resp))),
             (''object'', J_String ''chat.completion''),
             (''model'', J_String (unwrap_or [] (ir_model resp))),
             (''choices'', J_Array [json_obj
                [(''index'', json_nat 0), (''message'', msg),
                 (''finish_reason'', J_String (unwrap_or ''stop'' (ir_finish_reason resp)))]])])))"

end
