(* ===== verification/Messages_Value.thy ===== *)
theory Messages_Value
  imports Chat_Value
begin

text \<open>
  Requests and responses of the messages dialect (crates/convert/src/value/messages.rs).
\<close>

section \<open>Reading requests\<close>

definition messages_request_keys :: "string list" where
  "messages_request_keys =
     [''model'', ''system'', ''messages'', ''tools'', ''tool_choice'', ''temperature'', ''top_p'', ''max_tokens'',
      ''stop_sequences'', ''stream'', ''thinking'', ''metadata'']"

definition default_messages_max_tokens :: nat where
  "default_messages_max_tokens = 32000"

text \<open>The text of a thinking block.\<close>

definition thinking_text :: "json \<Rightarrow> string" where
  "thinking_text v = unwrap_or [] (Option.bind (or_else (json_get v ''thinking'') (json_get v ''text'')) json_str)"

definition tool_use_call :: "json \<Rightarrow> tool_call" where
  "tool_use_call v =
     \<lparr>tc_id = get_str v ''id'', tc_name = unwrap_or [] (get_str v ''name''),
      tc_arguments = unwrap_or J_Null (json_get v ''input'')\<rparr>"

definition part_from_messages :: "json \<Rightarrow> content_part" where
  "part_from_messages v =
     (case get_str v ''type'' of
        None \<Rightarrow> Raw_Part v
      | Some t \<Rightarrow>
          if t = ''text'' then Text_Part (unwrap_or [] (get_str v ''text''))
          else if t = ''thinking'' \<or> t = ''redacted_thinking'' then Reasoning_Part (thinking_text v)
          else if t = ''tool_use'' then Tool_Call_Part (tool_use_call v)
          else if t = ''tool_result''
          then Tool_Result_Part (get_str v ''tool_use_id'') (unwrap_or J_Null (json_get v ''content''))
          else Raw_Part v)"

fun content_from_messages :: "json option \<Rightarrow> content_part list" where
  "content_from_messages (Some (J_String s)) = [Text_Part s]"
| "content_from_messages (Some (J_Array parts)) = map part_from_messages parts"
| "content_from_messages (Some v) = [Raw_Part v]"
| "content_from_messages None = []"

definition message_from_messages :: "json \<Rightarrow> ir_message" where
  "message_from_messages v =
     \<lparr>im_role = role_from_wire (unwrap_or ''user'' (get_str v ''role'')),
      im_content = content_from_messages (json_get v ''content''),
      im_tool_call_id = None, im_name = None, im_raw = None\<rparr>"

fun system_to_string :: "json option \<Rightarrow> string option" where
  "system_to_string (Some (J_String s)) = Some s"
| "system_to_string (Some (J_Array parts)) =
     (let text = join_with [CHR 0x0A, CHR 0x0A] (filter_map (\<lambda>p. get_str p ''text'') parts)
      in if text = [] then None else Some text)"
| "system_to_string _ = None"

text \<open>The choice without the flag for parallel calls, and the flag.\<close>

definition messages_tool_choice_from_value :: "json option \<Rightarrow> json option \<times> bool option" where
  "messages_tool_choice_from_value tool_choice =
     (case tool_choice of
        None \<Rightarrow> (None, None)
      | Some choice \<Rightarrow>
          (case json_object choice of
             None \<Rightarrow> (Some (normalise_tool_choice choice), None)
           | Some obj \<Rightarrow>
               (Some (normalise_tool_choice (J_Object (bm_remove ''disable_parallel_tool_use'' obj))),
                map_option Not (Option.bind (bm_get obj ''disable_parallel_tool_use'') json_bool))))"

definition messages_request_from_value :: "json \<Rightarrow> convert_error + ir_request" where
  "messages_request_from_value v =
     res_bind (ok_or (Bad_Shape ''body'' ''expected object'') (json_object v)) (\<lambda>obj.
       let (tool_choice, parallel_tool_calls) = messages_tool_choice_from_value (json_get v ''tool_choice'');
           extras = insert_some ''parallel_tool_calls'' (map_option J_Bool parallel_tool_calls)
                      (extras_from_object obj messages_request_keys)
       in res_bind (ok_or (Missing_Field ''messages'') (get_array v ''messages'')) (\<lambda>msgs.
          Inr \<lparr>rq_model = unwrap_or ''unknown'' (get_str v ''model''), rq_system = system_to_string (json_get v ''system''),
               rq_messages = map message_from_messages msgs,
               rq_tools = normalise_tools (unwrap_or [] (get_array v ''tools'')),
               rq_tool_choice = tool_choice,
               rq_sampling =
                 \<lparr>sm_temperature = get_f64 v ''temperature'', sm_top_p = get_f64 v ''top_p'',
                  sm_max_output_tokens = get_u64 v ''max_tokens'', sm_stop = json_get v ''stop_sequences'',
                  sm_n = None, sm_seed = None\<rparr>,
               rq_reasoning = json_get v ''thinking'',
               rq_stream = unwrap_or False (get_bool v ''stream''),
               rq_extras = extras\<rparr>))"

section \<open>Writing requests\<close>

fun part_to_messages :: "content_part \<Rightarrow> json" where
  "part_to_messages (Text_Part text) = json_obj [(''type'', J_String ''text''), (''text'', J_String text)]"
| "part_to_messages (Reasoning_Part text) = json_obj [(''type'', J_String ''thinking''), (''thinking'', J_String text)]"
| "part_to_messages (Tool_Call_Part call) =
     json_obj [(''type'', J_String ''tool_use''), (''id'', J_String (unwrap_or ''toolu_converted'' (tc_id call))),
               (''name'', J_String (tc_name call)), (''input'', tc_arguments call)]"
| "part_to_messages (Tool_Result_Part result_id content) =
     json_obj [(''type'', J_String ''tool_result''), (''tool_use_id'', json_opt_str result_id), (''content'', content)]"
| "part_to_messages (Raw_Part v) = v"

definition message_to_messages :: "ir_message \<Rightarrow> json" where
  "message_to_messages msg =
     json_obj
       [(''role'', J_String (if list_ex is_tool_result (im_content msg) then ''user'' else role_str (im_role msg))),
        (''content'', J_Array (map part_to_messages (im_content msg)))]"

fun stop_sequences_to_messages :: "json \<Rightarrow> json" where
  "stop_sequences_to_messages (J_String s) = J_Array [J_String s]"
| "stop_sequences_to_messages stop = stop"

text \<open>The choice with the flag for parallel calls, which only an object can carry.\<close>

definition messages_tool_choice_to_value :: "json option \<Rightarrow> bool option \<Rightarrow> json option" where
  "messages_tool_choice_to_value tool_choice parallel_tool_calls =
     (let choice = map_option tool_choice_to_messages tool_choice
      in case parallel_tool_calls of
           None \<Rightarrow> choice
         | Some parallel \<Rightarrow>
             (case unwrap_or (json_obj [(''type'', J_String ''auto'')]) choice of
                J_Object obj \<Rightarrow> Some (J_Object (bm_insert ''disable_parallel_tool_use'' (J_Bool (\<not> parallel)) obj))
              | c \<Rightarrow> Some c))"

definition messages_tools_to_value :: "ir_request \<Rightarrow> (string, json) bmap \<Rightarrow> (string, json) bmap" where
  "messages_tools_to_value req out =
     (let tools = map tool_to_messages (filter (\<lambda>t. function_object t \<noteq> None) (rq_tools req))
      in if tools = [] then out
         else insert_some ''tool_choice''
                (messages_tool_choice_to_value (rq_tool_choice req)
                   (Option.bind (bm_get (rq_extras req) ''parallel_tool_calls'') json_bool))
                (bm_insert ''tools'' (J_Array tools) out))"

definition messages_request_to_value :: "ir_request \<Rightarrow> json" where
  "messages_request_to_value req =
     (let s = rq_sampling req
      in J_Object
          (add_extras (filter (\<lambda>(k, _). k \<noteq> ''parallel_tool_calls'') (rq_extras req))
          (insert_true ''stream'' (rq_stream req)
          (insert_some ''thinking'' (rq_reasoning req)
          (insert_some ''stop_sequences'' (map_option stop_sequences_to_messages (sm_stop s))
          (bm_insert ''max_tokens'' (json_nat (unwrap_or default_messages_max_tokens (sm_max_output_tokens s)))
          (insert_opt_f64 ''top_p'' (sm_top_p s)
          (insert_opt_f64 ''temperature'' (sm_temperature s)
          (messages_tools_to_value req
          (bm_insert ''messages'' (J_Array (map message_to_messages (rq_messages req)))
          (insert_some ''system'' (map_option J_String (rq_system req))
          (bm_insert ''model'' (J_String (rq_model req)) []))))))))))))"

section \<open>Responses\<close>

text \<open>A content block of a response: a part or a tool call.\<close>

definition response_block :: "json \<Rightarrow> content_part + tool_call" where
  "response_block part =
     (case get_str part ''type'' of
        None \<Rightarrow> Inl (Raw_Part part)
      | Some t \<Rightarrow>
          if t = ''text'' then Inl (Text_Part (unwrap_or [] (get_str part ''text'')))
          else if t = ''thinking'' \<or> t = ''redacted_thinking'' then Inl (Reasoning_Part (thinking_text part))
          else if t = ''tool_use'' then Inr (tool_use_call part)
          else Inl (Raw_Part part))"

fun block_part :: "content_part + tool_call \<Rightarrow> content_part option" where
  "block_part (Inl part) = Some part"
| "block_part (Inr call) = None"

fun block_call :: "content_part + tool_call \<Rightarrow> tool_call option" where
  "block_call (Inr call) = Some call"
| "block_call (Inl part) = None"

definition messages_response_from_value :: "json \<Rightarrow> convert_error + ir_response" where
  "messages_response_from_value v =
     (let blocks = map response_block (unwrap_or [] (get_array v ''content''))
      in Inr \<lparr>ir_id = get_str v ''id'', ir_model = get_str v ''model'',
              ir_role = map_option role_from_wire (get_str v ''role''),
              ir_content = filter_map block_part blocks, ir_tool_calls = filter_map block_call blocks,
              ir_usage = map_option
                (\<lambda>u. messages_usage (get_u64 u ''input_tokens'') u [''input_tokens'', ''output_tokens'']) (json_get v ''usage''),
              ir_finish_reason = map_option finish_reason_from_messages (get_str v ''stop_reason'')\<rparr>)"

definition messages_usage_to_value :: "ir_usage \<Rightarrow> json" where
  "messages_usage_to_value u =
     J_Object (bm_insert ''output_tokens'' (json_nat (unwrap_or 0 (us_output_tokens u)))
              (bm_insert ''input_tokens'' (json_nat (unwrap_or 0 (us_input_tokens u)))
              (merge_extras [] (us_extras u))))"

definition messages_response_to_value :: "ir_response \<Rightarrow> json" where
  "messages_response_to_value resp =
     (let text = text_from_parts (ir_content resp);
          content =
            (if text = [] then [] else [json_obj [(''type'', J_String ''text''), (''text'', J_String text)]]) @
            (case reasoning_from_parts (ir_content resp) of
               Some reasoning \<Rightarrow> [json_obj [(''type'', J_String ''thinking''), (''thinking'', J_String reasoning)]]
             | None \<Rightarrow> []) @
            map (\<lambda>call. part_to_messages (Tool_Call_Part call)) (ir_tool_calls resp)
      in J_Object
          (insert_some ''usage'' (map_option messages_usage_to_value (ir_usage resp))
          (bm_of_list
            [(''id'', J_String (unwrap_or ''msg_converted'' (ir_id resp))), (''type'', J_String ''message''),
             (''role'', J_String ''assistant''), (''model'', J_String (unwrap_or [] (ir_model resp))),
             (''content'', J_Array content),
             (''stop_reason'', J_String (finish_reason_to_messages (ir_finish_reason resp))),
             (''stop_sequence'', J_Null)])))"

end
