(* ===== verification/Responses_Value.thy ===== *)
theory Responses_Value
  imports Messages_Value
begin

text \<open>
  Requests and responses of the responses dialect (crates/convert/src/value/responses.rs). A
  request is a list of input items: messages, tool calls, tool results and reasoning; the
  items of the assistant in a row are one message.
\<close>

section \<open>Reading requests\<close>

definition responses_request_keys :: "string list" where
  "responses_request_keys =
     [''model'', ''input'', ''instructions'', ''tools'', ''tool_choice'', ''temperature'', ''top_p'',
      ''max_output_tokens'', ''max_tokens'', ''stop'', ''stream'', ''reasoning'', ''store'', ''metadata'']"

definition join_texts :: "json list \<Rightarrow> string list \<Rightarrow> string" where
  "join_texts arr type_filter =
     concat (filter_map (\<lambda>p. if unwrap_or [] (get_str p ''type'') \<in> set type_filter then get_str p ''text'' else None) arr)"

definition reasoning_text_from_input_item :: "json \<Rightarrow> string option" where
  "reasoning_text_from_input_item item =
     (let content_text = join_texts (unwrap_or [] (get_array item ''content'')) [''reasoning_text'', ''text''];
          summary_text = join_texts (unwrap_or [] (get_array item ''summary'')) [''summary_text'', ''text'']
      in if content_text \<noteq> [] then Some content_text
         else if summary_text = [] then None else Some summary_text)"

definition part_from_responses :: "json \<Rightarrow> content_part" where
  "part_from_responses v =
     (case get_str v ''type'' of
        None \<Rightarrow> Raw_Part v
      | Some t \<Rightarrow> if t \<in> {''input_text'', ''output_text'', ''text''} then Text_Part (unwrap_or [] (get_str v ''text''))
                  else Raw_Part v)"

fun content_from_responses :: "json option \<Rightarrow> content_part list" where
  "content_from_responses (Some (J_String s)) = [Text_Part s]"
| "content_from_responses (Some (J_Array parts)) = map part_from_responses parts"
| "content_from_responses (Some v) = [Raw_Part v]"
| "content_from_responses None = []"

definition input_item_to_message :: "json \<Rightarrow> ir_message" where
  "input_item_to_message item =
     \<lparr>im_role = role_from_wire (unwrap_or ''user'' (get_str item ''role'')),
      im_content = content_from_responses (json_get item ''content''),
      im_tool_call_id = get_str item ''call_id'', im_name = get_str item ''name'', im_raw = None\<rparr>"

definition function_call_of_item :: "(string \<Rightarrow> json option) \<Rightarrow> json \<Rightarrow> tool_call" where
  "function_call_of_item parse item =
     \<lparr>tc_id = get_str item ''call_id'', tc_name = unwrap_or [] (get_str item ''name''),
      tc_arguments = parse_args parse (unwrap_or J_Null (json_get item ''arguments''))\<rparr>"

definition function_result_of_item :: "json \<Rightarrow> ir_message" where
  "function_result_of_item item =
     (let call_id = get_str item ''call_id''
      in \<lparr>im_role = Tool_Role, im_content = [Tool_Result_Part call_id (unwrap_or J_Null (json_get item ''output''))],
          im_tool_call_id = call_id, im_name = None, im_raw = None\<rparr>)"

definition assistant_message :: "content_part list \<Rightarrow> ir_message" where
  "assistant_message parts =
     \<lparr>im_role = Assistant_Role, im_content = parts, im_tool_call_id = None, im_name = None, im_raw = None\<rparr>"

text \<open>
  The state of the loop over the items: the texts for the system prompt, the messages, and
  the parts of the assistant's message that is still open.
\<close>

record input_state =
  is_system :: "string list"
  is_messages :: "ir_message list"
  is_pending :: "content_part list option"

definition push_assistant_parts :: "content_part list \<Rightarrow> input_state \<Rightarrow> input_state" where
  "push_assistant_parts parts st = st\<lparr>is_pending := Some (unwrap_or [] (is_pending st) @ parts)\<rparr>"

definition flush_pending_assistant :: "input_state \<Rightarrow> input_state" where
  "flush_pending_assistant st =
     (case is_pending st of
        None \<Rightarrow> st
      | Some parts \<Rightarrow> st\<lparr>is_messages := is_messages st @ [assistant_message parts], is_pending := None\<rparr>)"

definition push_message :: "ir_message \<Rightarrow> input_state \<Rightarrow> input_state" where
  "push_message m st = st\<lparr>is_messages := is_messages st @ [m]\<rparr>"

definition input_step :: "(string \<Rightarrow> json option) \<Rightarrow> json \<Rightarrow> input_state \<Rightarrow> input_state" where
  "input_step parse item st =
     (let t = get_str item ''type''; role = unwrap_or ''user'' (get_str item ''role'') in
      if t = Some ''reasoning'' then
        (case reasoning_text_from_input_item item of
           Some text \<Rightarrow> push_assistant_parts [Reasoning_Part text] st
         | None \<Rightarrow> st)
      else if t = Some ''function_call'' then
        push_assistant_parts [Tool_Call_Part (function_call_of_item parse item)] st
      else if t = Some ''function_call_output'' then
        push_message (function_result_of_item item) (flush_pending_assistant st)
      else
        (let message = input_item_to_message item in
         if role = ''system'' \<or> role = ''developer'' then
           (let st' = flush_pending_assistant st; text = text_from_parts (im_content message)
            in if text = [] then st' else st'\<lparr>is_system := is_system st' @ [text]\<rparr>)
         else if role = ''assistant'' then push_assistant_parts (im_content message) st
         else push_message message (flush_pending_assistant st)))"

definition input_to_messages :: "(string \<Rightarrow> json option) \<Rightarrow> json \<Rightarrow> convert_error + string list \<times> ir_message list" where
  "input_to_messages parse input =
     (case json_str input of
        Some s \<Rightarrow>
          Inr ([], [\<lparr>im_role = User_Role, im_content = [Text_Part s], im_tool_call_id = None, im_name = None, im_raw = None\<rparr>])
      | None \<Rightarrow>
          res_bind (ok_or (Bad_Shape ''input'' ''expected string or array'') (json_array input)) (\<lambda>items.
            let st = flush_pending_assistant
                       (fold (input_step parse) items \<lparr>is_system = [], is_messages = [], is_pending = None\<rparr>)
            in Inr (is_system st, is_messages st)))"

definition responses_request_from_value :: "(string \<Rightarrow> json option) \<Rightarrow> json \<Rightarrow> convert_error + ir_request" where
  "responses_request_from_value parse v =
     res_bind (ok_or (Bad_Shape ''body'' ''expected object'') (json_object v)) (\<lambda>obj.
     res_bind (ok_or (Missing_Field ''input'') (json_get v ''input'')) (\<lambda>input.
     res_bind (input_to_messages parse input) (\<lambda>(instruction_parts, messages).
       let system_parts =
             (case get_str v ''instructions'' of
                Some instructions \<Rightarrow> if instructions = [] then [] else [instructions]
              | None \<Rightarrow> []) @ instruction_parts
       in Inr \<lparr>rq_model = unwrap_or ''unknown'' (get_str v ''model''), rq_system = join_system system_parts,
               rq_messages = messages,
               rq_tools = normalise_tools (unwrap_or [] (get_array v ''tools'')),
               rq_tool_choice = map_option normalise_tool_choice (json_get v ''tool_choice''),
               rq_sampling =
                 \<lparr>sm_temperature = get_f64 v ''temperature'', sm_top_p = get_f64 v ''top_p'',
                  sm_max_output_tokens =
                    Option.bind (or_else (json_get v ''max_output_tokens'') (json_get v ''max_tokens'')) json_u64,
                  sm_stop = json_get v ''stop'', sm_n = None, sm_seed = None\<rparr>,
               rq_reasoning = json_get v ''reasoning'',
               rq_stream = unwrap_or False (get_bool v ''stream''),
               rq_extras = extras_from_object obj responses_request_keys\<rparr>)))"

section \<open>Writing requests\<close>

definition result_item :: "(json \<Rightarrow> string) \<Rightarrow> string option \<Rightarrow> content_part \<Rightarrow> json option" where
  "result_item render tool_call_id part =
     (case part of
        Tool_Result_Part result_id content \<Rightarrow>
          Some (json_obj
            [(''type'', J_String ''function_call_output''),
             (''call_id'', J_String (unwrap_or [] (or_else result_id tool_call_id))),
             (''output'', J_String (tool_result_text render content))])
      | _ \<Rightarrow> None)"

definition text_value :: "string \<Rightarrow> content_part \<Rightarrow> json option" where
  "text_value text_type part =
     (case part of
        Text_Part text \<Rightarrow> Some (json_obj [(''type'', J_String text_type), (''text'', J_String text)])
      | Raw_Part v \<Rightarrow> Some v
      | _ \<Rightarrow> None)"

definition call_item :: "(json \<Rightarrow> string) \<Rightarrow> tool_call \<Rightarrow> json" where
  "call_item render call =
     json_obj
       [(''type'', J_String ''function_call''), (''call_id'', J_String (unwrap_or [] (tc_id call))),
        (''name'', J_String (tc_name call)), (''arguments'', J_String (args_to_string render (tc_arguments call)))]"

definition role_item :: "role \<Rightarrow> json list \<Rightarrow> json" where
  "role_item r parts = json_obj [(''role'', J_String (role_str r)), (''content'', J_Array parts)]"

definition message_to_responses_input_items :: "(json \<Rightarrow> string) \<Rightarrow> ir_message \<Rightarrow> json list" where
  "message_to_responses_input_items render msg =
     (let results = filter_map (result_item render (im_tool_call_id msg)) (im_content msg)
      in if im_role msg = Tool_Role \<and> results = [] then
           [json_obj
              [(''type'', J_String ''function_call_output''), (''call_id'', J_String (unwrap_or [] (im_tool_call_id msg))),
               (''output'', J_String (text_from_parts (im_content msg)))]]
         else
           (let r = (if results \<noteq> [] then User_Role else im_role msg);
                parts = filter_map (text_value (if r = Assistant_Role then ''output_text'' else ''input_text'')) (im_content msg);
                calls = map (call_item render) (filter_map part_call (im_content msg))
            in results @
               (if parts \<noteq> [] \<or> (results = [] \<and> calls = [] \<and> im_role msg \<noteq> Assistant_Role)
                then [role_item r parts] else []) @
               calls))"

definition normalize_reasoning :: "json option \<Rightarrow> string option \<Rightarrow> json option" where
  "normalize_reasoning reasoning reasoning_effort =
     (case reasoning_effort of
        None \<Rightarrow> reasoning
      | Some effort \<Rightarrow>
          (case reasoning of
             Some (J_Object obj) \<Rightarrow> Some (J_Object (insert_absent ''effort'' (J_String effort) obj))
           | Some other \<Rightarrow> Some other
           | None \<Rightarrow> Some (json_obj [(''effort'', J_String effort)])))"

definition normalize_text_verbosity :: "json option \<Rightarrow> (string, json) bmap \<Rightarrow> (string, json) bmap" where
  "normalize_text_verbosity verbosity out =
     (case verbosity of
        None \<Rightarrow> out
      | Some w \<Rightarrow>
          (case bm_get out ''text'' of
             Some (J_Object obj) \<Rightarrow> bm_insert ''text'' (J_Object (insert_absent ''verbosity'' w obj)) out
           | Some _ \<Rightarrow> out
           | None \<Rightarrow> bm_insert ''text'' (json_obj [(''verbosity'', w)]) out))"

definition responses_request_to_value :: "(json \<Rightarrow> string) \<Rightarrow> ir_request \<Rightarrow> json" where
  "responses_request_to_value render req =
     (let s = rq_sampling req; extras = rq_extras req
      in J_Object
          (normalize_text_verbosity (bm_get extras ''verbosity'')
          (add_extras (filter (\<lambda>(k, _). \<not> (k = ''reasoning_effort'' \<or> k = ''verbosity'')) extras)
          (insert_true ''stream'' (rq_stream req)
          (bm_insert ''store'' (unwrap_or (J_Bool False) (bm_get extras ''store''))
          (insert_some ''reasoning''
             (normalize_reasoning (rq_reasoning req) (Option.bind (bm_get extras ''reasoning_effort'') json_str))
          (insert_some ''stop'' (sm_stop s)
          (insert_opt_u64 ''max_output_tokens'' (sm_max_output_tokens s)
          (insert_opt_f64 ''top_p'' (sm_top_p s)
          (insert_opt_f64 ''temperature'' (sm_temperature s)
          (insert_some ''tool_choice'' (map_option tool_choice_to_responses (rq_tool_choice req))
          (insert_some ''tools'' (if rq_tools req = [] then None else Some (J_Array (map tool_to_responses (rq_tools req))))
          (bm_insert ''input'' (J_Array (concat (map (message_to_responses_input_items render) (rq_messages req))))
          (insert_some ''instructions'' (map_option J_String (rq_system req))
          (bm_insert ''model'' (J_String (rq_model req)) [])))))))))))))))"

section \<open>Responses\<close>

definition output_part :: "json \<Rightarrow> content_part" where
  "output_part part =
     (case get_str part ''type'' of
        None \<Rightarrow> Raw_Part part
      | Some t \<Rightarrow>
          if t = ''output_text'' \<or> t = ''text'' then Text_Part (unwrap_or [] (get_str part ''text''))
          else if t = ''reasoning''
          then Reasoning_Part (unwrap_or [] (Option.bind (or_else (json_get part ''summary'') (json_get part ''text'')) json_str))
          else Raw_Part part)"

definition output_item_parts :: "json \<Rightarrow> content_part list" where
  "output_item_parts item =
     (if get_str item ''type'' = Some ''message'' then map output_part (unwrap_or [] (get_array item ''content'')) else [])"

definition output_item_call :: "(string \<Rightarrow> json option) \<Rightarrow> json \<Rightarrow> tool_call option" where
  "output_item_call parse item =
     (if get_str item ''type'' = Some ''function_call'' then
        Some \<lparr>tc_id = Option.bind (or_else (json_get item ''call_id'') (json_get item ''id'')) json_str,
              tc_name = unwrap_or [] (get_str item ''name''),
              tc_arguments =
                unwrap_or (unwrap_or J_Null (json_get item ''arguments'')) (Option.bind (get_str item ''arguments'') parse)\<rparr>
      else None)"

definition responses_finish_reason :: "json \<Rightarrow> string option" where
  "responses_finish_reason v =
     (case get_str v ''status'' of
        None \<Rightarrow> None
      | Some status \<Rightarrow>
          if status = ''incomplete'' then
            (case Option.bind (json_pointer v [''incomplete_details'', ''reason'']) json_str of
               Some reason \<Rightarrow> Some (if reason = ''max_output_tokens'' then ''length'' else reason)
             | None \<Rightarrow> Some ''incomplete'')
          else if status = ''completed'' then
            (if response_has_tool_call_output v then Some ''tool_calls'' else Some ''stop'')
          else Some status)"

definition responses_response_from_value :: "(string \<Rightarrow> json option) \<Rightarrow> json \<Rightarrow> convert_error + ir_response" where
  "responses_response_from_value parse v =
     (let output = unwrap_or [] (get_array v ''output'')
      in Inr \<lparr>ir_id = get_str v ''id'', ir_model = get_str v ''model'', ir_role = Some Assistant_Role,
              ir_content = (case get_str v ''output_text'' of Some text \<Rightarrow> [Text_Part text] | None \<Rightarrow> []) @
                           concat (map output_item_parts output),
              ir_tool_calls = filter_map (output_item_call parse) output,
              ir_usage = usage_from_openai v, ir_finish_reason = responses_finish_reason v\<rparr>)"

definition response_call_item :: "(json \<Rightarrow> string) \<Rightarrow> tool_call \<Rightarrow> json" where
  "response_call_item render call =
     json_obj
       [(''type'', J_String ''function_call''), (''id'', J_String (unwrap_or ''fc_converted'' (tc_id call))),
        (''call_id'', J_String (unwrap_or ''call_converted'' (tc_id call))), (''name'', J_String (tc_name call)),
        (''arguments'', J_String (args_to_string render (tc_arguments call))), (''status'', J_String ''completed'')]"

definition response_message_item :: "string \<Rightarrow> content_part list \<Rightarrow> json list" where
  "response_message_item resp_id parts =
     (let text = text_from_parts parts;
          content =
            (if text = [] then []
             else [json_obj [(''type'', J_String ''output_text''), (''text'', J_String text), (''annotations'', J_Array [])]]) @
            (case reasoning_from_parts parts of
               Some reasoning \<Rightarrow> [json_obj [(''type'', J_String ''reasoning''), (''summary'', J_String reasoning)]]
             | None \<Rightarrow> [])
      in if content = [] then []
         else [json_obj [(''type'', J_String ''message''), (''id'', J_String (''msg_'' @ resp_id)),
                         (''status'', J_String ''completed''), (''role'', J_String ''assistant''),
                         (''content'', J_Array content)]])"

definition responses_response_to_value :: "(json \<Rightarrow> string) \<Rightarrow> ir_response \<Rightarrow> json" where
  "responses_response_to_value render resp =
     (let resp_id = unwrap_or ''resp_converted'' (ir_id resp);
          output = response_message_item resp_id (ir_content resp) @ map (response_call_item render) (ir_tool_calls resp);
          (status, incomplete_reason) = responses_completion_status (ir_finish_reason resp)
      in J_Object
          (insert_some ''incomplete_details'' (map_option (\<lambda>r. json_obj [(''reason'', J_String r)]) incomplete_reason)
          (insert_some ''usage'' (map_option usage_to_io (ir_usage resp))
          (bm_of_list
            [(''id'', J_String resp_id), (''object'', J_String ''response''), (''status'', J_String status),
             (''model'', J_String (unwrap_or [] (ir_model resp))), (''output'', J_Array output),
             (''output_text'', J_String (text_from_parts (ir_content resp)))]))))"

end
