(* ===== verification/Convert.thy ===== *)
theory Convert
  imports Responses_Value
begin

text \<open>
  Conversion of whole requests and responses between the dialects (crates/convert/src/lib.rs),
  and what a converted request keeps: the conversation it holds.
\<close>

section \<open>Conversion\<close>

definition read_request ::
  "(string \<Rightarrow> json option) \<Rightarrow> endpoint \<Rightarrow> json \<Rightarrow> convert_error + ir_request" where
  "read_request parse e body =
     (case e of
        Chat_Completions \<Rightarrow> chat_request_from_value parse body
      | Responses \<Rightarrow> responses_request_from_value parse body
      | Messages \<Rightarrow> messages_request_from_value body)"

definition write_request :: "(json \<Rightarrow> string) \<Rightarrow> endpoint \<Rightarrow> ir_request \<Rightarrow> json" where
  "write_request render e req =
     (case e of
        Chat_Completions \<Rightarrow> chat_request_to_value render req
      | Responses \<Rightarrow> responses_request_to_value render req
      | Messages \<Rightarrow> messages_request_to_value req)"

definition convert_request ::
  "(string \<Rightarrow> json option) \<Rightarrow> (json \<Rightarrow> string) \<Rightarrow> endpoint \<Rightarrow> endpoint \<Rightarrow> json \<Rightarrow> convert_error + json" where
  "convert_request parse render from_e to_e body =
     (if from_e = to_e then Inr body
      else res_map (write_request render to_e) (read_request parse from_e body))"

definition read_response ::
  "(string \<Rightarrow> json option) \<Rightarrow> endpoint \<Rightarrow> json \<Rightarrow> convert_error + ir_response" where
  "read_response parse e body =
     (case e of
        Chat_Completions \<Rightarrow> chat_response_from_value parse body
      | Responses \<Rightarrow> responses_response_from_value parse body
      | Messages \<Rightarrow> messages_response_from_value body)"

definition write_response :: "(json \<Rightarrow> string) \<Rightarrow> endpoint \<Rightarrow> ir_response \<Rightarrow> json" where
  "write_response render e resp =
     (case e of
        Chat_Completions \<Rightarrow> chat_response_to_value render resp
      | Responses \<Rightarrow> responses_response_to_value render resp
      | Messages \<Rightarrow> messages_response_to_value resp)"

definition convert_response ::
  "(string \<Rightarrow> json option) \<Rightarrow> (json \<Rightarrow> string) \<Rightarrow> endpoint \<Rightarrow> endpoint \<Rightarrow> json \<Rightarrow> convert_error + json" where
  "convert_response parse render from_e to_e body =
     (if from_e = to_e then Inr body
      else res_map (write_response render to_e) (read_response parse from_e body))"

section \<open>Transcripts\<close>

text \<open>
  A conversation as the sequence of what happens in it: a character said by a speaker, an
  opaque part shown (an image, a file), a tool called, a result given. Reasoning is no part
  of it: the responses dialect takes none back.
\<close>

datatype utterance =
    Said role char
  | Showed role json
  | Called "string option" string json
  | Answered "string option" string

definition speaker :: "ir_message \<Rightarrow> role" where
  "speaker m = (if list_ex is_tool_result (im_content m) then User_Role else im_role m)"

fun part_says :: "(json \<Rightarrow> string) \<Rightarrow> role \<Rightarrow> content_part \<Rightarrow> utterance list" where
  "part_says render who (Text_Part text) = map (Said who) text"
| "part_says render who (Reasoning_Part text) = []"
| "part_says render who (Tool_Call_Part call) = [Called (tc_id call) (tc_name call) (tc_arguments call)]"
| "part_says render who (Tool_Result_Part result_id content) = [Answered result_id (tool_result_text render content)]"
| "part_says render who (Raw_Part v) = [Showed who v]"

definition says :: "(json \<Rightarrow> string) \<Rightarrow> role \<Rightarrow> content_part list \<Rightarrow> utterance list" where
  "says render who parts = concat (map (part_says render who) parts)"

definition transcript :: "(json \<Rightarrow> string) \<Rightarrow> ir_message list \<Rightarrow> utterance list" where
  "transcript render ms = concat (map (\<lambda>m. says render (speaker m) (im_content m)) ms)"

text \<open>
  The messages every dialect can hold: results come first and calls last, each with an id,
  the arguments of a call survive as text, and an opaque part is none of the parts that a
  dialect reads as something else.
\<close>

fun part_rank :: "content_part \<Rightarrow> nat" where
  "part_rank (Tool_Result_Part _ _) = 0"
| "part_rank (Tool_Call_Part _) = 2"
| "part_rank _ = 1"

fun is_reasoning :: "content_part \<Rightarrow> bool" where
  "is_reasoning (Reasoning_Part _) = True"
| "is_reasoning _ = False"

definition in_order :: "content_part list \<Rightarrow> bool" where
  "in_order parts \<longleftrightarrow> sorted (map part_rank (filter (\<lambda>p. \<not> is_reasoning p) parts))"

definition opaque :: "json \<Rightarrow> bool" where
  "opaque v \<longleftrightarrow>
     get_str v ''type'' \<notin> Some ` {''text'', ''input_text'', ''output_text'', ''thinking'', ''redacted_thinking'',
                              ''tool_use'', ''tool_result''}"

fun part_ok :: "(string \<Rightarrow> json option) \<Rightarrow> (json \<Rightarrow> string) \<Rightarrow> content_part \<Rightarrow> bool" where
  "part_ok parse render (Tool_Call_Part call) \<longleftrightarrow>
     tc_id call \<noteq> None \<and> parse_args parse (J_String (args_to_string render (tc_arguments call))) = tc_arguments call"
| "part_ok parse render (Tool_Result_Part result_id content) \<longleftrightarrow> result_id \<noteq> None"
| "part_ok parse render (Raw_Part v) \<longleftrightarrow> opaque v"
| "part_ok parse render _ \<longleftrightarrow> True"

definition message_ok :: "(string \<Rightarrow> json option) \<Rightarrow> (json \<Rightarrow> string) \<Rightarrow> ir_message \<Rightarrow> bool" where
  "message_ok parse render m \<longleftrightarrow>
     im_role m \<in> {User_Role, Assistant_Role, Tool_Role} \<and>
     (im_role m = Tool_Role \<longrightarrow> list_ex is_tool_result (im_content m)) \<and>
     in_order (im_content m) \<and> list_all (part_ok parse render) (im_content m)"

section \<open>Parts in order\<close>

lemma says_simps [simp]:
  "says render who [] = []" "says render who (p # ps) = part_says render who p @ says render who ps"
  "says render who (ps @ qs) = says render who ps @ says render who qs"
  by (simp_all add: says_def)

lemma transcript_simps [simp]:
  "transcript render [] = []"
  "transcript render (m # ms) = says render (speaker m) (im_content m) @ transcript render ms"
  "transcript render (ms @ ns) = transcript render ms @ transcript render ns"
  by (simp_all add: transcript_def)

text \<open>An ordered message says its results, then its texts and opaque parts, then its calls.\<close>

definition results_of :: "content_part list \<Rightarrow> content_part list" where
  "results_of parts = filter is_tool_result parts"

definition words_of :: "content_part list \<Rightarrow> content_part list" where
  "words_of parts = filter (\<lambda>p. part_rank p = 1 \<and> \<not> is_reasoning p) parts"

definition calls_of :: "content_part list \<Rightarrow> tool_call list" where
  "calls_of parts = filter_map part_call parts"

lemma says_filter_reasoning: "says render who (filter (\<lambda>p. \<not> is_reasoning p) parts) = says render who parts"
proof (induction parts)
  case (Cons p ps)
  then show ?case by (cases p) simp_all
qed simp

lemma part_kinds:
  "is_tool_result p \<longleftrightarrow> part_rank p = 0" "part_call p = None \<longleftrightarrow> part_rank p \<noteq> 2" "part_rank p \<le> 2"
  by (cases p; simp)+

lemma says_calls: "says render who (filter (\<lambda>p. part_rank p = 2) parts) = map (\<lambda>c. Called (tc_id c) (tc_name c) (tc_arguments c)) (calls_of parts)"
  unfolding calls_of_def
proof (induction parts)
  case (Cons p ps)
  then show ?case by (cases p) simp_all
qed simp

lemma sorted_ranks:
  "sorted (map part_rank ps) \<Longrightarrow>
   ps = filter (\<lambda>p. part_rank p = 0) ps @ filter (\<lambda>p. part_rank p = 1) ps @ filter (\<lambda>p. part_rank p = 2) ps"
proof (induction ps)
  case (Cons p ps)
  then have IH: "ps = filter (\<lambda>p. part_rank p = 0) ps @ filter (\<lambda>p. part_rank p = 1) ps @ filter (\<lambda>p. part_rank p = 2) ps"
    and le: "\<forall>q \<in> set ps. part_rank p \<le> part_rank q"
    by auto
  consider "part_rank p = 0" | "part_rank p = 1" | "part_rank p = 2" using part_kinds(3) [of p] by linarith
  then show ?case
  proof cases
    case 2
    with le have "filter (\<lambda>p. part_rank p = 0) ps = []" by (auto simp: filter_empty_conv)
    with 2 IH show ?thesis by simp
  next
    case 3
    with le have "filter (\<lambda>p. part_rank p = 0) ps = []" "filter (\<lambda>p. part_rank p = 1) ps = []"
      by (force simp: filter_empty_conv)+
    with 3 IH show ?thesis by simp
  qed (use IH in simp)
qed simp

lemma says_in_order:
  assumes "in_order parts"
  shows "says render who parts =
    says render who (results_of parts) @ says render who (words_of parts) @
    map (\<lambda>c. Called (tc_id c) (tc_name c) (tc_arguments c)) (calls_of parts)"
proof -
  let ?ps = "filter (\<lambda>p. \<not> is_reasoning p) parts"
  have "says render who ?ps =
      says render who (filter (\<lambda>p. part_rank p = 0) ?ps) @ says render who (filter (\<lambda>p. part_rank p = 1) ?ps) @
      says render who (filter (\<lambda>p. part_rank p = 2) ?ps)"
    using sorted_ranks [OF assms [unfolded in_order_def]] by (metis says_simps(3))
  moreover have "filter (\<lambda>p. part_rank p = 0) ?ps = results_of parts"
    unfolding results_of_def filter_filter by (rule filter_cong [OF refl]) (auto simp: part_kinds elim: is_reasoning.elims)
  moreover have "filter (\<lambda>p. part_rank p = 1) ?ps = words_of parts"
    unfolding words_of_def filter_filter by (rule filter_cong [OF refl]) auto
  moreover have "filter (\<lambda>p. part_rank p = 2) ?ps = filter (\<lambda>p. part_rank p = 2) parts"
    unfolding filter_filter by (rule filter_cong [OF refl]) (auto elim: is_reasoning.elims)
  ultimately show ?thesis by (simp add: says_filter_reasoning says_calls)
qed

section \<open>Reading back the chat dialect\<close>

lemma chat_messages_append:
  "chat_messages parse (xs @ ys) =
     (fst (chat_messages parse xs) @ fst (chat_messages parse ys), snd (chat_messages parse xs) @ snd (chat_messages parse ys))"
proof (induction xs)
  case (Cons x xs)
  then show ?case by (auto simp: case_prod_beta Let_def split: sum.split option.split)
qed simp

definition chat_says :: "(string \<Rightarrow> json option) \<Rightarrow> (json \<Rightarrow> string) \<Rightarrow> json list \<Rightarrow> utterance list \<Rightarrow> bool" where
  "chat_says parse render msgs us \<longleftrightarrow>
     fst (chat_messages parse msgs) = [] \<and> transcript render (snd (chat_messages parse msgs)) = us"

lemma chat_says_Nil: "chat_says parse render [] []"
  by (simp add: chat_says_def)

lemma chat_says_append:
  "chat_says parse render xs us \<Longrightarrow> chat_says parse render ys ws \<Longrightarrow> chat_says parse render (xs @ ys) (us @ ws)"
  by (simp add: chat_says_def chat_messages_append)

lemma chat_says_one: "chat_message parse v = Inr m \<Longrightarrow> chat_says parse render [v] (transcript render [m])"
  by (simp add: chat_says_def)

lemma tool_result_text_string [simp]: "tool_result_text render (J_String s) = s"
  by (simp add: tool_result_text_def)

lemma chat_says_result:
  assumes "part_ok parse render p" "tool_message render call_id p = Some v"
  shows "chat_says parse render [v] (part_says render who p)"
proof -
  obtain result_id content where p: "p = Tool_Result_Part result_id content" and v: "v = json_obj
       [(''role'', J_String ''tool''), (''tool_call_id'', J_String (unwrap_or [] (or_else result_id call_id))),
        (''content'', J_String (tool_result_text render content))]"
    using assms(2) by (cases p) auto
  from assms(1) p obtain i where i: "result_id = Some i" by auto
  have "chat_message parse v = Inr
      \<lparr>im_role = Tool_Role, im_content = [Tool_Result_Part (Some i) (J_String (tool_result_text render content))],
       im_tool_call_id = Some i, im_name = None, im_raw = None\<rparr>"
    by (simp add: v i chat_message_def message_from_value_def get_obj json_get_obj role_from_wire_def Let_def)
  from chat_says_one [OF this] show ?thesis by (simp add: p i)
qed

lemma chat_says_results:
  assumes "list_all (part_ok parse render) ps"
  shows "chat_says parse render (filter_map (tool_message render call_id) ps) (says render who (results_of ps))"
  using assms
proof (induction ps)
  case Nil
  then show ?case by (simp add: chat_says_Nil results_of_def)
next
  case (Cons p ps)
  then have IH: "chat_says parse render (filter_map (tool_message render call_id) ps) (says render who (results_of ps))"
    and p: "part_ok parse render p" by auto
  show ?case
  proof (cases "tool_message render call_id p")
    case None
    then have "\<not> is_tool_result p" by (cases p) auto
    with None IH show ?thesis by (simp add: results_of_def)
  next
    case (Some v)
    then have "is_tool_result p" by (cases p) auto
    with Some chat_says_append [OF chat_says_result [OF p Some] IH] show ?thesis by (simp add: results_of_def)
  qed
qed

text \<open>A call and the content written are read back.\<close>

lemma tool_call_read_back:
  assumes "part_ok parse render (Tool_Call_Part call)"
  shows "tool_call_from_chat parse (tool_call_to_chat render i call) = call"
  using assms by (cases call) (auto simp: tool_call_from_chat_def tool_call_to_chat_def get_obj json_get_obj)

lemma calls_read_back:
  assumes "list_all (part_ok parse render) ps"
  shows "map (\<lambda>call. Tool_Call_Part (tool_call_from_chat parse call))
           (map (\<lambda>(i, call). tool_call_to_chat render i call) (enumerate k (calls_of ps))) = map Tool_Call_Part (calls_of ps)"
  using assms
proof (induction ps arbitrary: k)
  case (Cons p ps)
  then show ?case by (cases p) (simp_all add: calls_of_def tool_call_read_back)
qed (simp add: calls_of_def)

lemma says_text: "says render who [Text_Part t] = map (Said who) t"
  by simp

lemma words_of_simps [simp]:
  "words_of [] = []"
  "words_of (p # ps) = (if part_rank p = 1 \<and> \<not> is_reasoning p then p # words_of ps else words_of ps)"
  by (simp_all add: words_of_def)

lemma says_content_chat:
  assumes "list_all (part_ok parse render) ps"
  shows "says render who (content_from_chat (Some (content_to_chat ps))) = says render who (words_of ps)"
proof (cases "list_ex is_raw ps")
  case False
  then have "says render who (words_of ps) = map (Said who) (text_from_parts ps)"
  proof (induction ps)
    case (Cons p ps)
    then show ?case by (cases p) (simp_all add: text_from_parts_def)
  qed (simp add: text_from_parts_def)
  with False show ?thesis by (simp add: content_to_chat_def)
next
  case True
  have "says render who (map part_from_chat (filter_map content_value ps)) = says render who (words_of ps)"
    using assms
  proof (induction ps)
    case (Cons p ps)
    then show ?case by (cases p) (auto simp: part_from_chat_def get_obj opaque_def)
  qed simp
  with True show ?thesis by (simp add: content_to_chat_def)
qed

lemma content_from_chat_no_result: "list_all (\<lambda>p. \<not> is_tool_result p) (content_from_chat v)"
  by (cases v rule: content_from_chat.cases) (auto simp: list_all_iff part_from_chat_def)

lemma says_tool_calls: "says render who (map Tool_Call_Part calls) = map (\<lambda>c. Called (tc_id c) (tc_name c) (tc_arguments c)) calls"
  by (induction calls) simp_all

lemma get_J_Object [simp]:
  "get_str (J_Object m) k = Option.bind (bm_get m k) json_str"
  "get_array (J_Object m) k = Option.bind (bm_get m k) json_array"
  by (simp_all add: get_str_def get_array_def)

lemma bm_ok_single [simp]: "bm_ok [(k, v)]"
  by (simp add: bm_ok_Cons)

lemma plain_message_fields:
  assumes "role = ''user'' \<or> role = ''assistant''"
  shows "get_str (plain_message render role msg ps) ''role'' = Some role"
    "json_get (plain_message render role msg ps) ''content'' = Some (content_to_chat ps)"
    "get_array (plain_message render role msg ps) ''tool_calls'' =
       (if calls_of ps = [] then None
        else Some (map (\<lambda>(i, call). tool_call_to_chat render i call) (enumerate 0 (calls_of ps))))"
  using assms unfolding plain_message_def Let_def calls_of_def by (simp_all add: bm_get_insert bm_ok_insert)

lemma chat_says_plain:
  assumes role: "role = ''user'' \<or> role = ''assistant''" and ok: "list_all (part_ok parse render) ps"
  shows "chat_says parse render [plain_message render role msg ps]
           (says render (role_from_wire role) (words_of ps) @
            map (\<lambda>c. Called (tc_id c) (tc_name c) (tc_arguments c)) (calls_of ps))"
proof -
  let ?v = "plain_message render role msg ps"
  obtain rest name call_id where v: "chat_message parse ?v = Inr
      \<lparr>im_role = role_from_wire role,
       im_content = content_from_chat (Some (content_to_chat ps)) @ map Tool_Call_Part (calls_of ps) @ rest,
       im_tool_call_id = call_id, im_name = name, im_raw = None\<rparr>"
    and rest: "rest = (case get_str ?v ''reasoning_content'' of Some reasoning \<Rightarrow> [Reasoning_Part reasoning] | None \<Rightarrow> [])"
  proof
    show "chat_message parse ?v = Inr
      \<lparr>im_role = role_from_wire role,
       im_content = content_from_chat (Some (content_to_chat ps)) @ map Tool_Call_Part (calls_of ps) @
         (case get_str ?v ''reasoning_content'' of Some reasoning \<Rightarrow> [Reasoning_Part reasoning] | None \<Rightarrow> []),
       im_tool_call_id = get_str ?v ''tool_call_id'', im_name = get_str ?v ''name'', im_raw = None\<rparr>"
      using role calls_read_back [OF ok, of 0] plain_message_fields [OF role, of render msg ps]
      by (auto simp: chat_message_def message_from_value_def Let_def role_from_wire_def)
  qed (rule refl)
  have no_result: "\<not> list_ex is_tool_result (content_from_chat (Some (content_to_chat ps)) @ map Tool_Call_Part (calls_of ps) @ rest)"
    using content_from_chat_no_result [of "Some (content_to_chat ps)"] rest
    by (auto simp: list_ex_iff list_all_iff split: option.splits)
  have "says render who rest = []" for who using rest by (simp split: option.splits)
  with chat_says_one [OF v, of render] no_result show ?thesis
    by (simp add: speaker_def says_content_chat [OF ok] says_tool_calls)
qed

text \<open>A message that every dialect can hold is read back from the chat dialect as what it says.\<close>

lemma words_and_calls_of_remaining:
  "words_of (filter (\<lambda>p. \<not> is_tool_result p) ps) = words_of ps"
  "calls_of (filter (\<lambda>p. \<not> is_tool_result p) ps) = calls_of ps"
proof (induction ps)
  case (Cons p ps)
  { case 1 from Cons show ?case by (cases p) simp_all }
  { case 2 from Cons show ?case by (cases p) (simp_all add: calls_of_def) }
qed (simp_all add: calls_of_def)

lemma no_results_iff:
  "filter_map (tool_message render call_id) ps = [] \<longleftrightarrow> \<not> list_ex is_tool_result ps"
  "results_of ps = [] \<longleftrightarrow> \<not> list_ex is_tool_result ps"
proof (induction ps)
  case (Cons p ps)
  { case 1 from Cons show ?case by (cases p) simp_all }
  { case 2 from Cons show ?case by (simp add: results_of_def) }
qed (simp_all add: results_of_def)

lemma says_results_speaker: "says render who (results_of ps) = says render who' (results_of ps)"
proof (induction ps)
  case (Cons p ps)
  then show ?case by (cases p) (simp_all add: results_of_def)
qed (simp add: results_of_def)

lemma chat_says_message:
  assumes "message_ok parse render m"
  shows "chat_says parse render (message_to_chat render m) (transcript render [m])"
proof -
  let ?rs = "filter_map (tool_message render (im_tool_call_id m)) (im_content m)"
  let ?rem = "filter (\<lambda>p. \<not> is_tool_result p) (im_content m)"
  let ?role = "if ?rs = [] then role_str (im_role m) else ''user''"
  from assms have parts: "list_all (part_ok parse render) (im_content m)" and order: "in_order (im_content m)"
    and role: "im_role m \<in> {User_Role, Assistant_Role, Tool_Role}"
    and tool: "im_role m = Tool_Role \<Longrightarrow> list_ex is_tool_result (im_content m)"
    by (auto simp: message_ok_def)
  have results: "chat_says parse render ?rs (says render (speaker m) (results_of (im_content m)))"
    using chat_says_results [OF parts] by blast
  have rem: "list_all (part_ok parse render) ?rem" using parts by (auto simp: list_all_iff)
  have r: "?role = ''user'' \<or> ?role = ''assistant''" using role tool by (auto simp: no_results_iff)
  have wire: "role_from_wire ?role = speaker m"
    using role tool by (auto simp: no_results_iff speaker_def role_from_wire_def)
  have says: "transcript render [m] = says render (speaker m) (results_of (im_content m)) @
      says render (speaker m) (words_of (im_content m)) @
      map (\<lambda>c. Called (tc_id c) (tc_name c) (tc_arguments c)) (calls_of (im_content m))"
    using says_in_order [OF order] by simp
  show ?thesis
  proof (cases "?rem = [] \<and> ?rs \<noteq> []")
    case True
    then have "words_of (im_content m) = []" "calls_of (im_content m) = []"
      using words_and_calls_of_remaining [of "im_content m"] by (simp_all add: calls_of_def)
    with True results says show ?thesis by (simp add: message_to_chat_def)
  next
    case False
    then have "message_to_chat render m = ?rs @ [plain_message render ?role m ?rem]"
      by (auto simp: message_to_chat_def Let_def)
    with chat_says_append [OF results chat_says_plain [OF r rem, of m]] says wire show ?thesis
      by (simp add: words_and_calls_of_remaining)
  qed
qed

lemma chat_says_messages:
  "list_all (message_ok parse render) ms \<Longrightarrow>
   chat_says parse render (concat (map (message_to_chat render) ms)) (transcript render ms)"
proof (induction ms)
  case (Cons m ms)
  then show ?case using chat_says_append [OF chat_says_message] by fastforce
qed (simp add: chat_says_Nil)

section \<open>Reading back the messages dialect\<close>

lemma part_read_back:
  assumes "part_ok parse render p"
  shows "part_from_messages (part_to_messages p) = p"
  using assms
proof (cases p)
  case (Tool_Call_Part call)
  with assms show ?thesis
    by (cases call) (auto simp: part_from_messages_def tool_use_call_def get_obj json_get_obj)
qed (auto simp: part_from_messages_def thinking_text_def get_obj json_get_obj opaque_def image_iff split: option.splits)

lemma message_read_back:
  assumes "message_ok parse render m"
  shows "transcript render [message_from_messages (message_to_messages m)] = transcript render [m]"
proof -
  let ?m = "message_from_messages (message_to_messages m)"
  have parts: "map part_from_messages (map part_to_messages (im_content m)) = im_content m"
    using assms by (auto simp: message_ok_def list_all_iff part_read_back intro!: map_idI)
  then have content: "im_content ?m = im_content m"
    by (simp add: message_from_messages_def message_to_messages_def json_get_obj)
  have "im_role ?m = speaker m"
    using assms by (auto simp: message_from_messages_def message_to_messages_def get_obj role_from_wire_def speaker_def message_ok_def)
  with content have "speaker ?m = speaker m" by (auto simp: speaker_def)
  with content show ?thesis by simp
qed

lemma messages_read_back:
  "list_all (message_ok parse render) ms \<Longrightarrow>
   transcript render (map message_from_messages (map message_to_messages ms)) = transcript render ms"
  using message_read_back by (induction ms) fastforce+

section \<open>Reading back the responses dialect\<close>

definition state_says :: "(json \<Rightarrow> string) \<Rightarrow> input_state \<Rightarrow> utterance list" where
  "state_says render st =
     transcript render (is_messages st) @ says render Assistant_Role (unwrap_or [] (is_pending st))"

definition pending_ok :: "input_state \<Rightarrow> bool" where
  "pending_ok st \<longleftrightarrow> \<not> list_ex is_tool_result (unwrap_or [] (is_pending st))"

text \<open>Items that add utterances to what was said, whatever was said before.\<close>

definition items_say :: "(string \<Rightarrow> json option) \<Rightarrow> (json \<Rightarrow> string) \<Rightarrow> json list \<Rightarrow> utterance list \<Rightarrow> bool" where
  "items_say parse render items us \<longleftrightarrow>
     (\<forall>st. pending_ok st \<longrightarrow>
        (let st' = fold (input_step parse) items st
         in pending_ok st' \<and> is_system st' = is_system st \<and> state_says render st' = state_says render st @ us))"

lemma items_say_Nil: "items_say parse render [] []"
  by (simp add: items_say_def)

lemma items_say_append:
  "items_say parse render xs us \<Longrightarrow> items_say parse render ys ws \<Longrightarrow> items_say parse render (xs @ ys) (us @ ws)"
  by (simp add: items_say_def Let_def)

lemma flush_says:
  assumes "pending_ok st"
  shows "state_says render (flush_pending_assistant st) = state_says render st"
    "pending_ok (flush_pending_assistant st)" "is_system (flush_pending_assistant st) = is_system st"
    "is_pending (flush_pending_assistant st) = None"
  using assms
  by (auto simp: flush_pending_assistant_def state_says_def pending_ok_def assistant_message_def speaker_def split: option.split)

lemma push_message_says:
  assumes "pending_ok st" "transcript render [m] = us"
  shows "state_says render (push_message m (flush_pending_assistant st)) = state_says render st @ us"
    "pending_ok (push_message m (flush_pending_assistant st))"
    "is_system (push_message m (flush_pending_assistant st)) = is_system st"
  using flush_says [OF assms(1)] assms(2)
  by (auto simp: push_message_def state_says_def pending_ok_def)

lemma push_parts_says:
  assumes "pending_ok st" "\<not> list_ex is_tool_result parts" "says render Assistant_Role parts = us"
  shows "state_says render (push_assistant_parts parts st) = state_says render st @ us"
    "pending_ok (push_assistant_parts parts st)" "is_system (push_assistant_parts parts st) = is_system st"
  using assms by (auto simp: push_assistant_parts_def state_says_def pending_ok_def)

lemma items_say_result:
  assumes "part_ok parse render p" "result_item render call_id p = Some v"
  shows "items_say parse render [v] (part_says render who p)"
proof -
  obtain result_id content where p: "p = Tool_Result_Part result_id content" and v: "v = json_obj
       [(''type'', J_String ''function_call_output''), (''call_id'', J_String (unwrap_or [] (or_else result_id call_id))),
        (''output'', J_String (tool_result_text render content))]"
    using assms(2) by (auto simp: result_item_def split: content_part.splits)
  from assms(1) p obtain i where i: "result_id = Some i" by auto
  have step: "input_step parse v st = push_message
      \<lparr>im_role = Tool_Role, im_content = [Tool_Result_Part (Some i) (J_String (tool_result_text render content))],
       im_tool_call_id = Some i, im_name = None, im_raw = None\<rparr> (flush_pending_assistant st)" for st
    by (simp add: v i input_step_def get_obj json_get_obj function_result_of_item_def Let_def)
  show ?thesis using push_message_says [of _ render _ "part_says render who p"]
    by (simp add: items_say_def step Let_def p i)
qed

lemma items_say_results:
  assumes "list_all (part_ok parse render) ps"
  shows "items_say parse render (filter_map (result_item render call_id) ps) (says render who (results_of ps))"
  using assms
proof (induction ps)
  case Nil
  then show ?case by (simp add: items_say_Nil results_of_def)
next
  case (Cons p ps)
  then have IH: "items_say parse render (filter_map (result_item render call_id) ps) (says render who (results_of ps))"
    and p: "part_ok parse render p" by auto
  show ?case
  proof (cases "result_item render call_id p")
    case None
    then have "\<not> is_tool_result p" by (cases p) (auto simp: result_item_def)
    with None IH show ?thesis by (simp add: results_of_def)
  next
    case (Some v)
    then have "is_tool_result p" by (cases p) (auto simp: result_item_def)
    with Some items_say_append [OF items_say_result [OF p Some] IH] show ?thesis by (simp add: results_of_def)
  qed
qed

lemma items_say_calls:
  assumes "list_all (part_ok parse render) ps"
  shows "items_say parse render (map (call_item render) (calls_of ps))
           (map (\<lambda>c. Called (tc_id c) (tc_name c) (tc_arguments c)) (calls_of ps))"
  using assms
proof (induction ps)
  case (Cons p ps)
  show ?case
  proof (cases "part_call p")
    case (Some call)
    then have p: "p = Tool_Call_Part call" by (cases p) auto
    with Cons.prems obtain i where i: "tc_id call = Some i"
      and args: "parse_args parse (J_String (args_to_string render (tc_arguments call))) = tc_arguments call" by auto
    have "function_call_of_item parse (call_item render call) = call"
      using i args by (cases call) (simp add: function_call_of_item_def call_item_def get_obj json_get_obj)
    then have step: "input_step parse (call_item render call) st = push_assistant_parts [Tool_Call_Part call] st" for st
      by (simp add: input_step_def call_item_def get_obj json_get_obj)
    have "items_say parse render [call_item render call] [Called (tc_id call) (tc_name call) (tc_arguments call)]"
      using push_parts_says [of _ "[Tool_Call_Part call]" render] by (simp add: items_say_def step Let_def)
    from items_say_append [OF this] Cons show ?thesis by (simp add: calls_of_def p)
  next
    case None
    with Cons show ?thesis by (simp add: calls_of_def)
  qed
qed (simp add: items_say_Nil calls_of_def)

lemma says_content_responses:
  assumes "list_all (part_ok parse render) ps" "tt = ''output_text'' \<or> tt = ''input_text''"
  shows "says render who (map part_from_responses (filter_map (text_value tt) ps)) = says render who (words_of ps)"
  using assms
proof (induction ps)
  case (Cons p ps)
  then show ?case
    by (cases p) (auto simp: text_value_def part_from_responses_def get_obj opaque_def image_iff split: option.splits)
qed simp

lemma no_result_responses: "\<not> list_ex is_tool_result (map part_from_responses vs)"
  by (auto simp: list_ex_iff part_from_responses_def split: option.splits)

lemma items_say_role:
  assumes r: "r = User_Role \<or> r = Assistant_Role" and ok: "list_all (part_ok parse render) ps"
    and tt: "tt = ''output_text'' \<or> tt = ''input_text''"
  shows "items_say parse render [role_item r (filter_map (text_value tt) ps)] (says render r (words_of ps))"
proof -
  let ?v = "role_item r (filter_map (text_value tt) ps)"
  let ?parts = "map part_from_responses (filter_map (text_value tt) ps)"
  have says: "says render r ?parts = says render r (words_of ps)" by (rule says_content_responses [OF ok tt])
  show ?thesis
  proof (cases "r = Assistant_Role")
    case True
    then have "input_step parse ?v st = push_assistant_parts ?parts st" for st
      by (simp add: input_step_def role_item_def get_obj json_get_obj input_item_to_message_def)
    with says True show ?thesis using push_parts_says [OF _ no_result_responses]
      by (simp add: items_say_def Let_def)
  next
    case False
    with r have r: "r = User_Role" by blast
    let ?m = "\<lparr>im_role = User_Role, im_content = ?parts, im_tool_call_id = None, im_name = None, im_raw = None\<rparr>"
    have "input_step parse ?v st = push_message ?m (flush_pending_assistant st)" for st
      by (simp add: r input_step_def role_item_def get_obj json_get_obj input_item_to_message_def role_from_wire_def)
    moreover have "transcript render [?m] = says render r (words_of ps)"
      using says no_result_responses [of "filter_map (text_value tt) ps"] by (simp add: speaker_def r)
    ultimately show ?thesis using push_message_says [of _ render ?m] by (simp add: items_say_def Let_def)
  qed
qed

lemma no_text_values: "filter_map (text_value tt) ps = [] \<longleftrightarrow> words_of ps = []"
proof (induction ps)
  case (Cons p ps)
  then show ?case by (cases p) (simp_all add: text_value_def)
qed simp

lemma no_result_items: "filter_map (result_item render call_id) ps = [] \<longleftrightarrow> \<not> list_ex is_tool_result ps"
proof (induction ps)
  case (Cons p ps)
  then show ?case by (cases p) (simp_all add: result_item_def)
qed simp

lemma items_say_message:
  assumes "message_ok parse render m"
  shows "items_say parse render (message_to_responses_input_items render m) (transcript render [m])"
proof -
  let ?rs = "filter_map (result_item render (im_tool_call_id m)) (im_content m)"
  define r where "r = (if ?rs \<noteq> [] then User_Role else im_role m)"
  define tt where "tt = (if r = Assistant_Role then ''output_text'' else ''input_text'')"
  let ?parts = "filter_map (text_value tt) (im_content m)"
  let ?calls = "map (call_item render) (calls_of (im_content m))"
  let ?mid = "if ?parts \<noteq> [] \<or> (?rs = [] \<and> ?calls = [] \<and> im_role m \<noteq> Assistant_Role) then [role_item r ?parts] else []"
  from assms have parts: "list_all (part_ok parse render) (im_content m)" and order: "in_order (im_content m)"
    and role: "im_role m \<in> {User_Role, Assistant_Role, Tool_Role}"
    and tool: "im_role m = Tool_Role \<Longrightarrow> list_ex is_tool_result (im_content m)"
    by (auto simp: message_ok_def)
  have items: "message_to_responses_input_items render m = ?rs @ ?mid @ ?calls"
    using tool unfolding message_to_responses_input_items_def Let_def r_def tt_def calls_of_def
    by (auto simp: no_result_items)
  have r: "r = User_Role \<or> r = Assistant_Role" and who: "r = speaker m"
    using role tool by (auto simp: r_def no_result_items speaker_def)
  have tt: "tt = ''output_text'' \<or> tt = ''input_text''" by (simp add: tt_def)
  have "items_say parse render ?mid (says render r (words_of (im_content m)))"
    using items_say_role [OF r parts tt] by (auto simp: no_text_values items_say_Nil)
  from items_say_append [OF items_say_results [OF parts] items_say_append [OF this items_say_calls [OF parts]]]
  show ?thesis unfolding items using says_in_order [OF order, of render r] by (simp add: who)
qed

lemma items_say_messages:
  "list_all (message_ok parse render) ms \<Longrightarrow>
   items_say parse render (concat (map (message_to_responses_input_items render) ms)) (transcript render ms)"
proof (induction ms)
  case (Cons m ms)
  then show ?case using items_say_append [OF items_say_message] by fastforce
qed (simp add: items_say_Nil)

lemma input_read_back:
  assumes "list_all (message_ok parse render) ms"
  shows "\<exists>ms'. input_to_messages parse (J_Array (concat (map (message_to_responses_input_items render) ms))) = Inr ([], ms') \<and>
           transcript render ms' = transcript render ms"
proof -
  let ?st = "fold (input_step parse) (concat (map (message_to_responses_input_items render) ms))
      \<lparr>is_system = [], is_messages = [], is_pending = None\<rparr>"
  have "pending_ok ?st \<and> is_system ?st = [] \<and> state_says render ?st = transcript render ms"
    using items_say_messages [OF assms] unfolding items_say_def Let_def
    by (drule_tac x = "\<lparr>is_system = [], is_messages = [], is_pending = None\<rparr>" in spec) (simp add: pending_ok_def state_says_def)
  with flush_says [of ?st] show ?thesis
    by (simp add: input_to_messages_def state_says_def)
qed

section \<open>What a converted request keeps\<close>

text \<open>The functions offered to the model.\<close>

definition offered :: "json list \<Rightarrow> (string option \<times> string option \<times> json) list" where
  "offered tools =
     filter_map (\<lambda>t. map_option (\<lambda>f. (fv_name f, fv_description f, unwrap_or empty_schema (fv_parameters f)))
       (function_says t)) tools"

record conversation =
  cv_model :: string
  cv_system :: "string option"
  cv_transcript :: "utterance list"
  cv_functions :: "(string option \<times> string option \<times> json) list"
  cv_temperature :: "f64 option"
  cv_top_p :: "f64 option"
  cv_stream :: bool

definition conversation :: "(json \<Rightarrow> string) \<Rightarrow> ir_request \<Rightarrow> conversation" where
  "conversation render r =
     \<lparr>cv_model = rq_model r, cv_system = rq_system r, cv_transcript = transcript render (rq_messages r),
      cv_functions = offered (rq_tools r), cv_temperature = sm_temperature (rq_sampling r),
      cv_top_p = sm_top_p (rq_sampling r), cv_stream = rq_stream r\<rparr>"

definition named_function :: "json \<Rightarrow> bool" where
  "named_function t = (case function_says t of Some f \<Rightarrow> fv_name f \<noteq> None | None \<Rightarrow> True)"

text \<open>The key of the system prompt, where the dialect has one.\<close>

fun system_key :: "endpoint \<Rightarrow> string option" where
  "system_key Chat_Completions = None"
| "system_key Responses = Some ''instructions''"
| "system_key Messages = Some ''system''"

definition no_leak :: "endpoint \<Rightarrow> ir_request \<Rightarrow> bool" where
  "no_leak e r = (case system_key e of Some k \<Rightarrow> rq_system r \<noteq> None \<or> bm_get (rq_extras r) k = None | None \<Rightarrow> True)"

definition request_ok :: "(string \<Rightarrow> json option) \<Rightarrow> (json \<Rightarrow> string) \<Rightarrow> endpoint \<Rightarrow> ir_request \<Rightarrow> bool" where
  "request_ok parse render e r \<longleftrightarrow>
     list_all (message_ok parse render) (rq_messages r) \<and> rq_system r \<noteq> Some [] \<and>
     list_all named_function (rq_tools r) \<and> no_leak e r"

text \<open>What every reader guarantees.\<close>

definition read_shape :: "ir_request \<Rightarrow> bool" where
  "read_shape r \<longleftrightarrow>
     (\<forall>t \<in> set (rq_tools r). normalise_tool t = t) \<and>
     (\<forall>k \<in> {''tools'', ''temperature'', ''top_p'', ''stream''}. bm_get (rq_extras r) k = None)"

lemma bm_get_filter_key: "bm_get (filter (\<lambda>(k, v). P k) m) k = (if P k then bm_get m k else None)"
  by (induction m) (auto simp: bm_get_def)

lemma extras_lack: "k \<in> set known \<Longrightarrow> bm_get (extras_from_object obj known) k = None"
  by (simp add: extras_from_object_def bm_get_filter_key)

lemma normalised: "t \<in> set (normalise_tools ts) \<Longrightarrow> normalise_tool t = t"
  by (auto simp: normalise_tools_def normalise_tool_idempotent)

lemma bm_get_insert_other: "k' \<noteq> k \<Longrightarrow> bm_get (bm_insert k v m) k' = bm_get m k'"
  by (induction k v m rule: bm_insert.induct) auto

lemma bm_get_insert_some_other: "k' \<noteq> k \<Longrightarrow> bm_get (insert_some k v m) k' = bm_get m k'"
  by (cases v) (simp_all add: bm_get_insert_other)

lemma read_request_shape:
  assumes "read_request parse e body = Inr r"
  shows "read_shape r"
proof (cases e)
  case Chat_Completions
  with assms show ?thesis
    by (auto simp: read_request_def chat_request_from_value_def read_shape_def Let_def case_prod_beta extras_lack
        chat_request_keys_def dest: normalised)
next
  case Responses
  with assms show ?thesis
    by (auto simp: read_request_def responses_request_from_value_def read_shape_def Let_def case_prod_beta extras_lack
        responses_request_keys_def dest: normalised)
next
  case Messages
  with assms show ?thesis
    by (auto simp: read_request_def messages_request_from_value_def read_shape_def Let_def case_prod_beta extras_lack
        bm_get_insert_some_other messages_request_keys_def dest: normalised)
qed

lemma offered_simps [simp]:
  "offered [] = []"
  "offered (t # ts) = (case function_says t of None \<Rightarrow> offered ts
     | Some f \<Rightarrow> (fv_name f, fv_description f, unwrap_or empty_schema (fv_parameters f)) # offered ts)"
  by (simp_all add: offered_def split: option.split)

lemma function_says_None: "function_says t = None \<longleftrightarrow> function_object t = None"
  by (simp add: function_says_def)

lemma offered_read_back:
  assumes "\<forall>t \<in> set ts. normalise_tool t = t" "list_all named_function ts"
  shows "offered (normalise_tools (filter (\<lambda>t. function_object t \<noteq> None) ts)) = offered ts"
    "offered (normalise_tools (map tool_to_messages (filter (\<lambda>t. function_object t \<noteq> None) ts))) = offered ts"
    "offered (normalise_tools (map tool_to_responses ts)) = offered ts"
  using assms
proof (induction ts)
  case (Cons t ts)
  have IH: "offered (normalise_tools (filter (\<lambda>t. function_object t \<noteq> None) ts)) = offered ts"
    "offered (normalise_tools (map tool_to_messages (filter (\<lambda>t. function_object t \<noteq> None) ts))) = offered ts"
    "offered (normalise_tools (map tool_to_responses ts)) = offered ts"
    if "\<forall>t \<in> set ts. normalise_tool t = t" "list_all named_function ts"
    using Cons.IH that by blast+
  have plain: "function_says t = None \<Longrightarrow> tool_to_responses t = t"
    by (simp add: function_says_None tool_to_responses_def)
  have read_back: "function_says (normalise_tool (tool_to_responses t)) = Some f"
    "function_says (normalise_tool (tool_to_messages t)) =
       Some (f\<lparr>fv_parameters := Some (unwrap_or empty_schema (fv_parameters f)), fv_strict := None\<rparr>)"
    if "function_says t = Some f" "named_function t" for f
    using that responses_tool_read_back [of t f] messages_tool_read_back [of t f] by (simp_all add: named_function_def)
  { case 1 with IH show ?case
      by (cases "function_says t") (auto simp: normalise_tools_def function_says_None [symmetric]) }
  { case 2 with IH read_back show ?case
      by (cases "function_says t") (auto simp: normalise_tools_def function_says_None [symmetric]) }
  { case 3 with IH read_back plain show ?case
      by (cases "function_says t") (auto simp: normalise_tools_def) }
qed (simp_all add: normalise_tools_def)

lemma bm_ok_normalize_text [simp]: "bm_ok m \<Longrightarrow> bm_ok (normalize_text_verbosity w m)"
  by (auto simp: normalize_text_verbosity_def bm_ok_insert split: option.split json.split)

lemma bm_get_normalize_text: "k \<noteq> ''text'' \<Longrightarrow> bm_get (normalize_text_verbosity w m) k = bm_get m k"
  by (auto simp: normalize_text_verbosity_def bm_get_insert_other split: option.split json.split)

lemma or_else_None [simp]: "or_else x None = x"
  by (cases x) simp_all

lemma get_fields_object [simp]:
  "get_bool (J_Object m) k = Option.bind (bm_get m k) json_bool"
  "get_f64 (J_Object m) k = Option.bind (bm_get m k) json_f64"
  by (simp_all add: get_bool_def get_f64_def)

lemma float_field: "Option.bind (if x \<noteq> None then map_option json_float x else None) json_f64 = x"
  "Option.bind (map_option json_float x) json_f64 = x"
  by (cases x; simp)+

lemma stream_field: "unwrap_or False (Option.bind (if b then Some (J_Bool True) else None) json_bool) = b"
  by simp

lemma tools_field: "unwrap_or [] (Option.bind (if ts \<noteq> [] then Some (J_Array ts) else None) json_array) = ts"
  by simp

text \<open>What the writers put under the keys that carry the conversation.\<close>

lemma chat_written:
  fixes render :: "json \<Rightarrow> string"
  assumes "read_shape r"
  defines "w \<equiv> chat_request_to_value render r"
  shows "json_object w \<noteq> None" "get_str w ''model'' = Some (rq_model r)"
    "get_array w ''messages'' = Some ((case rq_system r of Some s \<Rightarrow> [system_message s] | None \<Rightarrow> []) @
       concat (map (message_to_chat render) (rq_messages r)))"
    "unwrap_or [] (get_array w ''tools'') = filter (\<lambda>t. function_object t \<noteq> None) (rq_tools r)"
    "get_f64 w ''temperature'' = sm_temperature (rq_sampling r)" "get_f64 w ''top_p'' = sm_top_p (rq_sampling r)"
    "unwrap_or False (get_bool w ''stream'') = rq_stream r"
  using assms(1) unfolding w_def chat_request_to_value_def Let_def read_shape_def
  by (simp_all add: bm_get_insert bm_ok_insert float_field stream_field tools_field del: bm_insert.simps)

lemma responses_written:
  fixes render :: "json \<Rightarrow> string"
  assumes "read_shape r" "no_leak Responses r"
  defines "w \<equiv> responses_request_to_value render r"
  shows "json_object w \<noteq> None" "get_str w ''model'' = Some (rq_model r)"
    "json_get w ''input'' = Some (J_Array (concat (map (message_to_responses_input_items render) (rq_messages r))))"
    "get_str w ''instructions'' = rq_system r"
    "unwrap_or [] (get_array w ''tools'') = map tool_to_responses (rq_tools r)"
    "get_f64 w ''temperature'' = sm_temperature (rq_sampling r)" "get_f64 w ''top_p'' = sm_top_p (rq_sampling r)"
    "unwrap_or False (get_bool w ''stream'') = rq_stream r"
  using assms(1,2) unfolding w_def responses_request_to_value_def Let_def read_shape_def
  by (cases "rq_system r"; simp add: bm_get_insert bm_ok_insert bm_get_normalize_text bm_get_filter_key float_field stream_field tools_field
      no_leak_def json_str_of_opt del: bm_insert.simps)+

lemma bm_ok_messages_tools [simp]: "bm_ok m \<Longrightarrow> bm_ok (messages_tools_to_value r m)"
  by (simp add: messages_tools_to_value_def Let_def bm_ok_insert)

lemma bm_get_messages_tools:
  "k \<noteq> ''tools'' \<Longrightarrow> k \<noteq> ''tool_choice'' \<Longrightarrow> bm_get (messages_tools_to_value r m) k = bm_get m k"
  by (simp add: messages_tools_to_value_def Let_def bm_get_insert_other bm_get_insert_some_other)

lemma bm_get_messages_tools_tools:
  "bm_ok m \<Longrightarrow> bm_get m ''tools'' = None \<Longrightarrow>
   bm_get (messages_tools_to_value r m) ''tools'' =
     (let ts = map tool_to_messages (filter (\<lambda>t. function_object t \<noteq> None) (rq_tools r))
      in if ts \<noteq> [] then Some (J_Array ts) else None)"
  by (simp add: messages_tools_to_value_def Let_def bm_get_insert_some_other bm_get_insert)

lemma messages_written:
  assumes "read_shape r" "no_leak Messages r"
  defines "w \<equiv> messages_request_to_value r"
  shows "json_object w \<noteq> None" "get_str w ''model'' = Some (rq_model r)"
    "get_array w ''messages'' = Some (map message_to_messages (rq_messages r))"
    "json_get w ''system'' = map_option J_String (rq_system r)"
    "unwrap_or [] (get_array w ''tools'') = map tool_to_messages (filter (\<lambda>t. function_object t \<noteq> None) (rq_tools r))"
    "get_f64 w ''temperature'' = sm_temperature (rq_sampling r)" "get_f64 w ''top_p'' = sm_top_p (rq_sampling r)"
    "unwrap_or False (get_bool w ''stream'') = rq_stream r"
  using assms(1,2) unfolding w_def messages_request_to_value_def Let_def read_shape_def
  by (cases "rq_system r"; simp add: bm_get_insert bm_ok_insert bm_get_messages_tools bm_get_messages_tools_tools bm_get_filter_key float_field
      stream_field tools_field no_leak_def json_str_of_opt del: bm_insert.simps)+

text \<open>A request that the target dialect can hold is read back as the same conversation.\<close>

lemma join_system_simps [simp]: "join_system [] = None" "join_system [s] = Some s"
  by (simp_all add: join_system_def)

lemma chat_request_read_back:
  assumes "read_shape r" "request_ok parse render Chat_Completions r"
  shows "\<exists>r'. chat_request_from_value parse (chat_request_to_value render r) = Inr r' \<and> conversation render r' = conversation render r"
proof -
  let ?w = "chat_request_to_value render r"
  let ?msgs = "(case rq_system r of Some s \<Rightarrow> [system_message s] | None \<Rightarrow> []) @ concat (map (message_to_chat render) (rq_messages r))"
  note w = chat_written [OF assms(1), of render]
  from assms have ok: "list_all (message_ok parse render) (rq_messages r)" "rq_system r \<noteq> Some []"
    "list_all named_function (rq_tools r)" "\<forall>t \<in> set (rq_tools r). normalise_tool t = t"
    by (auto simp: request_ok_def read_shape_def)
  have system: "chat_messages parse [system_message s] = ([s], [])" if "s \<noteq> []" for s
    using that by (simp add: system_message_def chat_message_def message_from_value_def get_obj json_get_obj Let_def
        role_from_wire_def text_from_parts_def)
  have msgs: "join_system (fst (chat_messages parse ?msgs)) = rq_system r"
    "transcript render (snd (chat_messages parse ?msgs)) = transcript render (rq_messages r)"
    using chat_says_messages [OF ok(1)] ok(2) system
    by (auto simp: chat_says_def chat_messages_append split: option.split)
  obtain obj where "json_object ?w = Some obj" using w(1) by auto
  with w msgs offered_read_back(1) [OF ok(4,3)] show ?thesis
    by (simp add: chat_request_from_value_def conversation_def case_prod_beta)
qed

lemma messages_request_read_back:
  assumes "read_shape r" "request_ok parse render Messages r"
  shows "\<exists>r'. messages_request_from_value (messages_request_to_value r) = Inr r' \<and> conversation render r' = conversation render r"
proof -
  let ?w = "messages_request_to_value r"
  from assms have leak: "no_leak Messages r" by (simp add: request_ok_def)
  note w = messages_written [OF assms(1) leak]
  from assms have ok: "list_all (message_ok parse render) (rq_messages r)"
    "list_all named_function (rq_tools r)" "\<forall>t \<in> set (rq_tools r). normalise_tool t = t"
    by (auto simp: request_ok_def read_shape_def)
  have system: "system_to_string (map_option J_String (rq_system r)) = rq_system r" by (cases "rq_system r") simp_all
  obtain obj where "json_object ?w = Some obj" using w(1) by auto
  with w system messages_read_back [OF ok(1)] offered_read_back(2) [OF ok(3,2)] show ?thesis
    by (simp add: messages_request_from_value_def conversation_def case_prod_beta)
qed

lemma responses_request_read_back:
  assumes "read_shape r" "request_ok parse render Responses r"
  shows "\<exists>r'. responses_request_from_value parse (responses_request_to_value render r) = Inr r' \<and>
              conversation render r' = conversation render r"
proof -
  let ?w = "responses_request_to_value render r"
  from assms have leak: "no_leak Responses r" by (simp add: request_ok_def)
  note w = responses_written [OF assms(1) leak, of render]
  from assms have ok: "list_all (message_ok parse render) (rq_messages r)" "rq_system r \<noteq> Some []"
    "list_all named_function (rq_tools r)" "\<forall>t \<in> set (rq_tools r). normalise_tool t = t"
    by (auto simp: request_ok_def read_shape_def)
  obtain ms where ms: "input_to_messages parse (J_Array (concat (map (message_to_responses_input_items render) (rq_messages r)))) =
      Inr ([], ms)" "transcript render ms = transcript render (rq_messages r)"
    using input_read_back [OF ok(1)] by blast
  have system: "join_system ((case rq_system r of Some s \<Rightarrow> if s = [] then [] else [s] | None \<Rightarrow> []) @ []) = rq_system r"
    using ok(2) by (simp split: option.split)
  obtain obj where "json_object ?w = Some obj" using w(1) by auto
  with w ms system offered_read_back(3) [OF ok(4,3)] show ?thesis
    by (simp add: responses_request_from_value_def conversation_def)
qed

text \<open>
  C2. A request read in one dialect converts to every other, and the body sent upstream,
  read in its own dialect, holds the same conversation: model, system prompt, every character
  said and by whom, opaque parts, tool calls and results in their order, the functions
  offered, sampling and streaming. It must be one that every dialect can hold
  (\<open>request_ok\<close>): parts ordered, calls and results with ids, named functions, and no extra
  field that is the target's system prompt.
\<close>

theorem converted_request_keeps_conversation:
  assumes "read_request parse from_e body = Inr r" "request_ok parse render to_e r" "from_e \<noteq> to_e"
  shows "\<exists>w r'. convert_request parse render from_e to_e body = Inr w \<and> read_request parse to_e w = Inr r' \<and>
           conversation render r' = conversation render r"
proof -
  have shape: "read_shape r" by (rule read_request_shape [OF assms(1)])
  have "\<exists>r'. read_request parse to_e (write_request render to_e r) = Inr r' \<and> conversation render r' = conversation render r"
  proof (cases to_e)
    case Chat_Completions
    with chat_request_read_back [OF shape] assms(2) show ?thesis by (simp add: read_request_def write_request_def)
  next
    case Responses
    with responses_request_read_back [OF shape] assms(2) show ?thesis by (simp add: read_request_def write_request_def)
  next
    case Messages
    with messages_request_read_back [OF shape] assms(2) show ?thesis by (simp add: read_request_def write_request_def)
  qed
  with assms show ?thesis by (simp add: convert_request_def)
qed

definition sample_parse :: "string \<Rightarrow> json option" where
  "sample_parse s = (if s = ''{}'' then Some (json_obj []) else None)"

definition sample_render :: "json \<Rightarrow> string" where
  "sample_render v = ''{}''"

definition sample_chat_request :: json where
  "sample_chat_request =
     json_obj
       [(''model'', J_String ''m''), (''stream'', J_Bool True),
        (''messages'', J_Array
          [json_obj [(''role'', J_String ''system''), (''content'', J_String ''be brief'')],
           json_obj [(''role'', J_String ''user''), (''content'', J_String ''list'')],
           json_obj [(''role'', J_String ''assistant''), (''content'', J_String ''ok''),
                     (''tool_calls'', J_Array [json_obj
                        [(''id'', J_String ''c1''), (''type'', J_String ''function''),
                         (''function'', json_obj [(''name'', J_String ''ls''), (''arguments'', J_String ''{}'')])]])],
           json_obj [(''role'', J_String ''tool''), (''tool_call_id'', J_String ''c1''), (''content'', J_String ''a'')]]),
        (''tools'', J_Array [json_obj
           [(''type'', J_String ''function''), (''function'', json_obj [(''name'', J_String ''ls'')])]])]"

lemma sample_readable:
  "\<exists>r. read_request sample_parse Chat_Completions sample_chat_request = Inr r \<and>
       request_ok sample_parse sample_render Responses r \<and> length (rq_messages r) = 3"
proof -
  have "case read_request sample_parse Chat_Completions sample_chat_request of
      Inl _ \<Rightarrow> False
    | Inr r \<Rightarrow> request_ok sample_parse sample_render Responses r \<and> length (rq_messages r) = 3"
    by code_simp
  then show ?thesis by (auto split: sum.splits)
qed

theorem converted_request_keeps_conversation_witness:
  "\<exists>w r r'. read_request sample_parse Chat_Completions sample_chat_request = Inr r \<and>
     convert_request sample_parse sample_render Chat_Completions Responses sample_chat_request = Inr w \<and>
     read_request sample_parse Responses w = Inr r' \<and> conversation sample_render r' = conversation sample_render r"
proof -
  from sample_readable obtain r where r: "read_request sample_parse Chat_Completions sample_chat_request = Inr r"
    "request_ok sample_parse sample_render Responses r" by blast
  have "Chat_Completions \<noteq> Responses" by simp
  from converted_request_keeps_conversation [OF r this] r(1) show ?thesis by blast
qed

section \<open>What a converted response keeps\<close>

text \<open>
  The calls every dialect can hold: they have an id, and their arguments survive as text. The reason
  to finish that a client reads is the upstream's as far as its dialect has a name for it: a missing
  reason reads as a normal end, the synonyms of a limit as the limit, and the Responses
  dialect tells calls from a normal end by the calls themselves.
\<close>

definition calls_ok :: "(string \<Rightarrow> json option) \<Rightarrow> (json \<Rightarrow> string) \<Rightarrow> ir_response \<Rightarrow> bool" where
  "calls_ok parse render r \<longleftrightarrow> list_all (\<lambda>c. part_ok parse render (Tool_Call_Part c)) (ir_tool_calls r)"

definition limit_reasons :: "string set" where
  "limit_reasons = {''length'', ''max_tokens'', ''max_output_tokens''}"

definition reason_told :: "endpoint \<Rightarrow> bool \<Rightarrow> string option \<Rightarrow> string" where
  "reason_told e calls reason =
     (case e of
        Chat_Completions \<Rightarrow> (case reason of None \<Rightarrow> ''stop'' | Some r \<Rightarrow> r)
      | Messages \<Rightarrow>
          (case reason of
             None \<Rightarrow> ''stop''
           | Some r \<Rightarrow>
               if r \<in> {''end_turn'', ''stop_sequence''} then ''stop''
               else if r \<in> limit_reasons then ''length''
               else if r = ''tool_use'' then ''tool_calls'' else r)
      | Responses \<Rightarrow>
          (case reason of
             None \<Rightarrow> if calls then ''tool_calls'' else ''stop''
           | Some r \<Rightarrow>
               if r \<in> limit_reasons then ''length''
               else if r = ''error'' then ''failed''
               else if r \<in> {''content_filter'', ''failed'', ''cancelled''} then r
               else if calls then ''tool_calls'' else ''stop''))"

text \<open>The reasons that every dialect keeps.\<close>

lemma reason_told_same:
  "reason_told e calls (Some ''length'') = ''length''" "reason_told e calls (Some ''content_filter'') = ''content_filter''"
  "reason_told e True (Some ''tool_calls'') = ''tool_calls''" "reason_told e False (Some ''stop'') = ''stop''"
  by (cases e; simp add: reason_told_def limit_reasons_def)+

lemma response_calls_chat:
  "list_all (\<lambda>c. part_ok parse render (Tool_Call_Part c)) calls \<Longrightarrow>
   map (tool_call_from_chat parse) (map (\<lambda>(i, call). tool_call_to_chat render i call) (enumerate k calls)) = calls"
proof (induction calls arbitrary: k)
  case (Cons c calls)
  then have "tool_call_from_chat parse (tool_call_to_chat render k c) = c" by (intro tool_call_read_back) simp
  with Cons show ?case by simp
qed simp

lemma text_reasoning_simps:
  "text_from_parts [] = []" "text_from_parts (Text_Part t # ps) = t @ text_from_parts ps"
  "text_from_parts (Reasoning_Part t # ps) = text_from_parts ps"
  "reasoning_of_parts [] = []" "reasoning_of_parts (Text_Part t # ps) = reasoning_of_parts ps"
  "reasoning_of_parts (Reasoning_Part t # ps) = t @ reasoning_of_parts ps"
  by (simp_all add: text_from_parts_def reasoning_of_parts_def)

lemma reasoning_from_of: "reasoning_from_parts ps = (if reasoning_of_parts ps = [] then None else Some (reasoning_of_parts ps))"
  by (simp add: reasoning_from_parts_def reasoning_of_parts_def)

lemma chat_response_read_back:
  assumes "calls_ok parse render r"
  shows "\<exists>r'. chat_response_from_value parse (chat_response_to_value render r) = Inr r' \<and>
    text_from_parts (ir_content r') = text_from_parts (ir_content r) \<and>
    reasoning_of_parts (ir_content r') = reasoning_of_parts (ir_content r) \<and>
    ir_tool_calls r' = ir_tool_calls r \<and> ir_finish_reason r' = Some (reason_told Chat_Completions (ir_tool_calls r \<noteq> []) (ir_finish_reason r))"
proof -
  define w where "w = chat_response_to_value render r"
  define msg where "msg = J_Object
            (insert_some ''tool_calls''
               (if ir_tool_calls r = [] then None
                else Some (J_Array (map (\<lambda>(i, call). tool_call_to_chat render i call) (enumerate 0 (ir_tool_calls r)))))
            (insert_some ''reasoning_content'' (map_option J_String (reasoning_from_parts (ir_content r)))
            (bm_insert ''content'' (J_String (text_from_parts (ir_content r)))
            (bm_insert ''role'' (J_String (role_str (unwrap_or Assistant_Role (ir_role r)))) []))))"
  define choice where "choice = json_obj [(''index'', json_nat 0), (''message'', msg),
                 (''finish_reason'', J_String (unwrap_or ''stop'' (ir_finish_reason r)))]"
  have choice: "first_choice w = Some choice"
    unfolding w_def chat_response_to_value_def first_choice_def Let_def msg_def [symmetric] choice_def [symmetric]
    by (simp add: bm_get_of_list)
  have msg_choice: "json_get choice ''message'' = Some msg" and reason: "get_str choice ''finish_reason'' = Some (reason_told Chat_Completions (ir_tool_calls r \<noteq> []) (ir_finish_reason r))"
    by (auto simp: choice_def json_get_obj get_obj reason_told_def split: option.splits)
  have fields: "json_get msg ''content'' = Some (J_String (text_from_parts (ir_content r)))"
    "get_str msg ''reasoning_content'' = reasoning_from_parts (ir_content r)"
    "unwrap_or [] (get_array msg ''tool_calls'') =
       map (\<lambda>(i, call). tool_call_to_chat render i call) (enumerate 0 (ir_tool_calls r))"
    by (simp_all add: msg_def bm_get_insert bm_ok_insert json_str_of_opt del: bm_insert.simps)
  have calls: "map (tool_call_from_chat parse) (map (\<lambda>(i, call). tool_call_to_chat render i call) (enumerate 0 (ir_tool_calls r))) =
      ir_tool_calls r"
    using assms by (intro response_calls_chat) (simp add: calls_ok_def)
  show ?thesis
    unfolding chat_response_from_value_def w_def [symmetric] choice ok_or_simps res_bind_Inr msg_choice unwrap_or_simps Let_def
      fields calls reason
    by (auto simp: text_reasoning_simps reasoning_from_of split: option.split)
qed

lemma messages_response_read_back:
  assumes "calls_ok parse render r"
  shows "\<exists>r'. messages_response_from_value (messages_response_to_value r) = Inr r' \<and>
    text_from_parts (ir_content r') = text_from_parts (ir_content r) \<and>
    reasoning_of_parts (ir_content r') = reasoning_of_parts (ir_content r) \<and>
    ir_tool_calls r' = ir_tool_calls r \<and> ir_finish_reason r' = Some (reason_told Messages (ir_tool_calls r \<noteq> []) (ir_finish_reason r))"
proof -
  define w where "w = messages_response_to_value r"
  define texts where "texts =
            (if text_from_parts (ir_content r) = [] then []
             else [json_obj [(''type'', J_String ''text''), (''text'', J_String (text_from_parts (ir_content r)))]]) @
            (case reasoning_from_parts (ir_content r) of
               Some reasoning \<Rightarrow> [json_obj [(''type'', J_String ''thinking''), (''thinking'', J_String reasoning)]]
             | None \<Rightarrow> [])"
  have w: "get_array w ''content'' = Some (texts @ map (\<lambda>call. part_to_messages (Tool_Call_Part call)) (ir_tool_calls r))"
    "get_str w ''stop_reason'' = Some (finish_reason_to_messages (ir_finish_reason r))"
    unfolding w_def messages_response_to_value_def texts_def Let_def
    by (simp_all add: bm_get_of_list del: part_to_messages.simps)
  have text_blocks: "filter_map block_call (map response_block texts) = []"
    "text_from_parts (filter_map block_part (map response_block texts)) = text_from_parts (ir_content r)"
    "reasoning_of_parts (filter_map block_part (map response_block texts)) = reasoning_of_parts (ir_content r)"
    by (auto simp: texts_def response_block_def get_obj thinking_text_def json_get_obj text_reasoning_simps reasoning_from_of
        split: option.split)
  have "response_block (part_to_messages (Tool_Call_Part call)) = Inr call"
    if "call \<in> set (ir_tool_calls r)" for call
    using that assms
    by (cases call) (auto simp: calls_ok_def list_all_iff response_block_def tool_use_call_def get_obj json_get_obj)
  then have "map (\<lambda>call. response_block (part_to_messages (Tool_Call_Part call))) (ir_tool_calls r) = map Inr (ir_tool_calls r)"
    by simp
  moreover have "filter_map block_call (map Inr calls) = calls" "filter_map block_part (map Inr calls) = []" for calls
    by (induction calls) simp_all
  ultimately have calls: "filter_map block_call (map (\<lambda>call. response_block (part_to_messages (Tool_Call_Part call))) (ir_tool_calls r)) = ir_tool_calls r"
    "filter_map block_part (map (\<lambda>call. response_block (part_to_messages (Tool_Call_Part call))) (ir_tool_calls r)) = []"
    by (simp_all only:)
  have "finish_reason_from_messages (finish_reason_to_messages (ir_finish_reason r)) =
      reason_told Messages (ir_tool_calls r \<noteq> []) (ir_finish_reason r)"
    by (cases "ir_finish_reason r")
       (simp_all add: finish_reason_to_messages_def finish_reason_from_messages_def reason_told_def limit_reasons_def)
  with w text_blocks calls show ?thesis
    unfolding messages_response_from_value_def w_def [symmetric] w Let_def by (simp add: comp_def del: part_to_messages.simps)
qed

text \<open>
  The responses dialect is written with the text twice, in \<open>output_text\<close> and in the output
  message, and is read with both.
\<close>

lemma responses_response_read_back:
  assumes "calls_ok parse render r"
  shows "\<exists>r'. responses_response_from_value parse (responses_response_to_value render r) = Inr r' \<and>
    text_from_parts (ir_content r') = text_from_parts (ir_content r) @ text_from_parts (ir_content r) \<and>
    reasoning_of_parts (ir_content r') = reasoning_of_parts (ir_content r) \<and>
    ir_tool_calls r' = ir_tool_calls r \<and> ir_finish_reason r' = Some (reason_told Responses (ir_tool_calls r \<noteq> []) (ir_finish_reason r))"
proof -
  define w where "w = responses_response_to_value render r"
  define msgs where "msgs = response_message_item (unwrap_or ''resp_converted'' (ir_id r)) (ir_content r)"
  define items where "items = map (response_call_item render) (ir_tool_calls r)"
  have fields: "get_array w ''output'' = Some (msgs @ items)" "get_str w ''output_text'' = Some (text_from_parts (ir_content r))"
    "get_str w ''status'' = Some (fst (responses_completion_status (ir_finish_reason r)))"
    "json_get w ''incomplete_details'' =
       map_option (\<lambda>reason. json_obj [(''reason'', J_String reason)]) (snd (responses_completion_status (ir_finish_reason r)))"
    unfolding w_def responses_response_to_value_def msgs_def items_def Let_def case_prod_beta
    by (simp_all add: bm_get_of_list)
  have msg: "text_from_parts (concat (map output_item_parts msgs)) = text_from_parts (ir_content r)"
    "reasoning_of_parts (concat (map output_item_parts msgs)) = reasoning_of_parts (ir_content r)"
    "filter_map (output_item_call parse) msgs = []"
    "list_ex (\<lambda>item. get_str item ''type'' \<in> {Some ''function_call'', Some ''custom_tool_call''}) msgs = False"
    by (auto simp: msgs_def response_message_item_def Let_def output_item_parts_def output_item_call_def output_part_def
        get_obj json_get_obj text_reasoning_simps reasoning_from_of split: option.split)
  have call: "output_item_call parse (response_call_item render c) = Some c"
    if "c \<in> set (ir_tool_calls r)" for c
    using that assms
    by (cases c) (auto simp: calls_ok_def list_all_iff output_item_call_def response_call_item_def get_obj json_get_obj
        parse_args_def unwrap_or_def split: option.splits)
  then have calls: "filter_map (output_item_call parse) items = ir_tool_calls r"
    unfolding items_def
  proof (induction "ir_tool_calls r" arbitrary: r)
    case (Cons c cs)
    from Cons.hyps(1) [of "r\<lparr>ir_tool_calls := cs\<rparr>"] Cons.prems [of c] Cons.prems show ?case
      unfolding Cons.hyps(2) [symmetric] by simp
  qed simp
  have parts: "concat (map output_item_parts items) = []"
    by (auto simp: items_def output_item_parts_def response_call_item_def get_obj)
  have has_calls: "response_has_tool_call_output w \<longleftrightarrow> ir_tool_calls r \<noteq> []"
    using msg(4) by (cases "ir_tool_calls r")
      (simp_all add: response_has_tool_call_output_def fields items_def response_call_item_def get_obj)
  have "responses_finish_reason w = Some (reason_told Responses (ir_tool_calls r \<noteq> []) (ir_finish_reason r))"
    by (cases "ir_finish_reason r")
       (simp_all add: responses_finish_reason_def fields has_calls responses_completion_status_def json_get_obj reason_told_def
        limit_reasons_def)
  with msg calls show ?thesis
    unfolding responses_response_from_value_def w_def [symmetric] fields Let_def unwrap_or_simps map_append concat_append parts
    by (simp add: text_reasoning_simps)
qed

text \<open>
  A response read in one dialect and converted to another, read in that dialect, has the
  same text, reasoning and tool calls, and the finish reason as that dialect tells it, where the calls have ids and arguments
  that survive as text. The responses dialect is the exception: its text is read twice.
\<close>

lemma converted_response_keeps_answer:
  assumes "read_response parse from_e body = Inr r" "calls_ok parse render r" "from_e \<noteq> to_e"
  shows "\<exists>w r'. convert_response parse render from_e to_e body = Inr w \<and> read_response parse to_e w = Inr r' \<and>
    text_from_parts (ir_content r') =
      (if to_e = Responses then text_from_parts (ir_content r) @ text_from_parts (ir_content r)
       else text_from_parts (ir_content r)) \<and>
    reasoning_of_parts (ir_content r') = reasoning_of_parts (ir_content r) \<and>
    ir_tool_calls r' = ir_tool_calls r \<and> ir_finish_reason r' = Some (reason_told to_e (ir_tool_calls r \<noteq> []) (ir_finish_reason r))"
proof (cases to_e)
  case Chat_Completions
  with chat_response_read_back [OF assms(2)] assms show ?thesis
    by (simp add: convert_response_def read_response_def write_response_def)
next
  case Responses
  with responses_response_read_back [OF assms(2)] assms show ?thesis
    by (simp add: convert_response_def read_response_def write_response_def)
next
  case Messages
  with messages_response_read_back [OF assms(2)] assms show ?thesis
    by (simp add: convert_response_def read_response_def write_response_def)
qed

end
