(* ===== verification/Body_Stages.thy ===== *)
theory Body_Stages
  imports Generation Convert
begin

text \<open>
  The stages of a managed request that read and write its body
  (crates/requests/src/stages/extract, stages/convert_request, utils/codec.rs, the endpoint helpers of
  pipeline/stages.rs), with the classification of the initiator
  (crates/core/src/util/initiator.rs) and the input transformers of the provider adapters.

  Bodies are byte strings. \<open>parse\<close> and \<open>render\<close> are the JSON library's, \<open>compress\<close> and
  \<open>decompress\<close> the two compression libraries; \<open>peek\<close> is the derived reading of the two fields a
  relay looks at, \<open>decode\<close> the reading of turn metadata. \<open>reasons\<close> is the reasoning capability of
  a model, which \<open>model_info\<close> leaves out.
\<close>

section \<open>Content encodings\<close>

datatype content_encoding = Enc_Gzip | Enc_Zstd

fun encoding_str :: "content_encoding \<Rightarrow> string" where
  "encoding_str Enc_Gzip = ''gzip''"
| "encoding_str Enc_Zstd = ''zstd''"

datatype codec_error = Multiple_Encodings | Unsupported_Encoding string | Codec_Failure content_encoding string string

definition encode_body_bytes ::
  "(content_encoding \<Rightarrow> string \<Rightarrow> string + string) \<Rightarrow> string \<Rightarrow> content_encoding option \<Rightarrow> codec_error + string" where
  "encode_body_bytes compress body encoding =
     (case encoding of
        None \<Rightarrow> Inr body
      | Some kind \<Rightarrow> map_err (Codec_Failure kind ''encode'') (compress kind body))"

definition decode_body_bytes ::
  "(content_encoding \<Rightarrow> string \<Rightarrow> string + string) \<Rightarrow> string \<Rightarrow> content_encoding option \<Rightarrow> codec_error + string" where
  "decode_body_bytes decompress body encoding =
     (case encoding of
        None \<Rightarrow> Inr body
      | Some kind \<Rightarrow> map_err (Codec_Failure kind ''decode'') (decompress kind body))"

definition request_content_encoding :: "header_map \<Rightarrow> codec_error + content_encoding option" where
  "request_content_encoding headers =
     (case header_get ''content-encoding'' headers of
        None \<Rightarrow> Inr None
      | Some v \<Rightarrow>
          if v = [] then Inr None
          else case filter (\<lambda>part. part \<noteq> [] \<and> str_lower part \<noteq> ''identity'') (map str_trim (split_on CHR '','' v)) of
            [] \<Rightarrow> Inr None
          | [first] \<Rightarrow>
              if str_lower first = ''gzip'' then Inr (Some Enc_Gzip)
              else if str_lower first = ''zstd'' then Inr (Some Enc_Zstd)
              else Inl (Unsupported_Encoding (str_lower first))
          | _ \<Rightarrow> Inl Multiple_Encodings)"

section \<open>The initiator of a request\<close>

fun role_initiator :: "json list \<Rightarrow> string option" where
  "role_initiator [] = None"
| "role_initiator (m # ms) =
     (case get_str m ''role'' of
        None \<Rightarrow> None
      | Some role \<Rightarrow>
          if role = ''system'' then role_initiator ms
          else if role = ''tool'' \<or> role = ''assistant'' then Some ''agent''
          else if role = ''user'' then Some ''user'' else None)"

definition classify_chat_initiator :: "json \<Rightarrow> string option" where
  "classify_chat_initiator body = Option.bind (get_array body ''messages'') (\<lambda>msgs. role_initiator (rev msgs))"

definition classify_response_item :: "json \<Rightarrow> string option" where
  "classify_response_item item =
     (let by_role = (case get_str item ''role'' of
            None \<Rightarrow> None
          | Some role \<Rightarrow>
              if role = ''tool'' \<or> role = ''assistant'' then Some ''agent''
              else if role = ''user'' then Some ''user'' else None)
      in case get_str item ''type'' of
           None \<Rightarrow> by_role
         | Some t \<Rightarrow>
             if t \<in> set [''function_call_output'', ''tool_result'', ''computer_call_output'', ''function_call'', ''tool_call'',
                       ''reasoning'']
             then Some ''agent''
             else if t = ''message'' then by_role else None)"

definition classify_initiator_responses :: "json \<Rightarrow> string option" where
  "classify_initiator_responses body =
     (case json_get body ''input'' of
        None \<Rightarrow> None
      | Some (J_String _) \<Rightarrow> Some ''user''
      | Some (J_Array items) \<Rightarrow> find_map classify_response_item (rev items)
      | Some input \<Rightarrow> classify_response_item input)"

definition classify_initiator :: "json \<Rightarrow> string option" where
  "classify_initiator body =
     (if json_get body ''input'' \<noteq> None then classify_initiator_responses body
      else or_else (classify_chat_initiator body)
             (if (case get_array body ''tools'' of None \<Rightarrow> False | Some a \<Rightarrow> a \<noteq> []) then Some ''agent'' else None))"

section \<open>Extraction\<close>

record raw_inbound =
  ri_headers :: header_map
  ri_raw_body :: string
  ri_decoded_body :: string
  ri_body_json :: json

record extracted_request = extracted +
  ex_stream :: bool
  ex_project_id :: "string option"
  ex_initiator :: "string option"
  ex_header_initiator :: "string option"
  ex_headers :: header_map
  ex_raw_body :: string
  ex_decoded_body :: string
  ex_body_json :: json
  ex_content_encoding :: "content_encoding option"

definition accept_is_sse :: "header_map \<Rightarrow> bool" where
  "accept_is_sse headers =
     (case header_get ''accept'' headers of
        None \<Rightarrow> False
      | Some v \<Rightarrow> list_ex (\<lambda>part. str_trim (hd (split_on CHR '';'' part)) = ''text/event-stream'') (split_on CHR '','' v))"

definition infer_stream :: "header_map \<Rightarrow> json \<Rightarrow> bool" where
  "infer_stream headers body = unwrap_or (accept_is_sse headers) (Option.bind (json_get body ''stream'') json_bool)"

definition header_initiator :: "header_map \<Rightarrow> string option" where
  "header_initiator headers =
     Option.bind (header_get ''x-initiator'' headers) (\<lambda>v.
       let s = str_lower (str_trim v) in if s = ''user'' \<or> s = ''agent'' then Some s else None)"

definition peeked_model :: "string option \<Rightarrow> string" where
  "peeked_model m = (case m of None \<Rightarrow> ''unknown'' | Some s \<Rightarrow> if s = [] then ''unknown'' else s)"

text \<open>What both extractions read of the headers.\<close>

definition extract_with ::
  "(string \<Rightarrow> inbound_correlation option) \<Rightarrow> string option \<Rightarrow> raw_inbound \<Rightarrow> string \<Rightarrow> bool \<Rightarrow> string option \<Rightarrow> json \<Rightarrow>
   extracted_request" where
  "extract_with decode agent raw model stream initiator body =
     \<lparr>ex_agent_id = agent, ex_model = model,
      ex_session_id = ic_session_id (inbound_correlation_of decode (ri_headers raw)),
      ex_route_mode_hint = non_empty (header_get ''x-route-mode'' (ri_headers raw)),
      ex_stream = stream, ex_project_id = first_present (ri_headers raw) project_id_headers,
      ex_initiator = initiator, ex_header_initiator = header_initiator (ri_headers raw),
      ex_headers = ri_headers raw, ex_raw_body = ri_raw_body raw, ex_decoded_body = ri_decoded_body raw,
      ex_body_json = body,
      ex_content_encoding = (case request_content_encoding (ri_headers raw) of Inl _ \<Rightarrow> None | Inr enc \<Rightarrow> enc)\<rparr>"

definition default_extract ::
  "(string \<Rightarrow> inbound_correlation option) \<Rightarrow> 'g pipeline_ctx \<Rightarrow> raw_inbound \<Rightarrow> extracted_request" where
  "default_extract decode ctx raw =
     extract_with decode (rc_agent_id (cx_config ctx)) raw (peeked_model (get_str (ri_body_json raw) ''model''))
       (infer_stream (ri_headers raw) (ri_body_json raw))
       (or_else (header_initiator (ri_headers raw)) (classify_initiator (ri_body_json raw)))
       (ri_body_json raw)"

definition passthrough_extract ::
  "(string \<Rightarrow> inbound_correlation option) \<Rightarrow> (string \<Rightarrow> (string option \<times> bool option) option) \<Rightarrow> 'g pipeline_ctx \<Rightarrow>
   raw_inbound \<Rightarrow> extracted_request" where
  "passthrough_extract decode peek ctx raw =
     (let (model, stream) = unwrap_or (None, None) (peek (ri_decoded_body raw)) in
      extract_with decode (rc_agent_id (cx_config ctx)) raw (peeked_model model)
        (unwrap_or (accept_is_sse (ri_headers raw)) stream) (header_initiator (ri_headers raw)) J_Null)"

section \<open>The endpoints of a resolved request\<close>

definition run_upstream_endpoint_key :: string where
  "run_upstream_endpoint_key = ''run.upstream_endpoint''"

definition parse_endpoint :: "string \<Rightarrow> endpoint option" where
  "parse_endpoint v =
     (if v \<in> set [''chat_completions'', ''chat'', ''chat-completions''] then Some Chat_Completions
      else if v = ''responses'' then Some Responses
      else if v = ''messages'' then Some Messages else None)"

definition configured_upstream_endpoint :: "'g pipeline_ctx \<Rightarrow> stage \<Rightarrow> pipeline_error + endpoint option" where
  "configured_upstream_endpoint ctx st =
     (case config_get_str (cx_config ctx) run_upstream_endpoint_key of
        None \<Rightarrow> Inr None
      | Some v \<Rightarrow>
          (case parse_endpoint v of
             None \<Rightarrow> Inl (permanent st (Invalid_Configured_Endpoint run_upstream_endpoint_key v))
           | Some e \<Rightarrow> Inr (Some e)))"

definition resolved_upstream_endpoint ::
  "'g pipeline_ctx \<Rightarrow> resolved \<Rightarrow> stage \<Rightarrow> pipeline_error + endpoint option" where
  "resolved_upstream_endpoint ctx res st =
     res_map (\<lambda>configured. or_else configured (route_upstream_endpoint (rs_route res))) (configured_upstream_endpoint ctx st)"

definition require_resolved_endpoint :: "'g pipeline_ctx \<Rightarrow> resolved \<Rightarrow> stage \<Rightarrow> pipeline_error + endpoint" where
  "require_resolved_endpoint ctx res st =
     ok_or (permanent st (Missing_Resolved_Endpoint (request_endpoint_str (cx_request_endpoint ctx))))
       (route_resolved_endpoint (rs_route res))"

definition require_upstream_endpoint :: "'g pipeline_ctx \<Rightarrow> resolved \<Rightarrow> stage \<Rightarrow> pipeline_error + endpoint" where
  "require_upstream_endpoint ctx res st =
     res_bind (resolved_upstream_endpoint ctx res st)
       (ok_or (permanent st (Missing_Upstream_Endpoint (request_endpoint_str (cx_request_endpoint ctx)))))"

section \<open>Input transformers\<close>

text \<open>Z.ai (crates/provider-zai/src/transform.rs, zai.rs).\<close>

definition shape_zai_request :: "json \<Rightarrow> bool \<Rightarrow> json" where
  "shape_zai_request body reasoning_enabled =
     (if \<not> reasoning_enabled then body
      else case body of
        J_Object obj \<Rightarrow>
          if bm_get obj ''thinking'' \<noteq> None then body
          else J_Object (bm_insert ''thinking''
                 (json_obj [(''type'', J_String ''enabled''), (''clear_thinking'', J_Bool False)]) obj)
      | _ \<Rightarrow> body)"

definition transform_zai :: "(string \<Rightarrow> bool option) \<Rightarrow> json \<Rightarrow> json" where
  "transform_zai model_reasoning body =
     (let model_id = unwrap_or [] (get_str body ''model'')
      in shape_zai_request body (unwrap_or (starts_with ''glm-'' model_id) (model_reasoning model_id)))"

text \<open>DeepSeek (crates/provider-deepseek/src/deepseek.rs).\<close>

definition extract_effort :: "json option \<Rightarrow> string option" where
  "extract_effort v = (case v of Some (J_Object m) \<Rightarrow> Option.bind (bm_get m ''effort'') json_str | _ \<Rightarrow> None)"

fun explicit_thinking_mode :: "json \<Rightarrow> string option" where
  "explicit_thinking_mode (J_Bool b) = Some (if b then ''enabled'' else ''disabled'')"
| "explicit_thinking_mode (J_String s) =
     (if str_lower s = ''enabled'' then Some ''enabled'' else if str_lower s = ''disabled'' then Some ''disabled'' else None)"
| "explicit_thinking_mode (J_Object m) =
     Option.bind (Option.bind (bm_get m ''type'') json_str)
       (\<lambda>t. if t = ''enabled'' \<or> t = ''disabled'' then Some t else None)"
| "explicit_thinking_mode _ = None"

definition extract_thinking_mode :: "json option \<Rightarrow> json option \<Rightarrow> bool \<Rightarrow> string" where
  "extract_thinking_mode thinking reasoning has_effort =
     (case or_else (Option.bind thinking explicit_thinking_mode) (Option.bind reasoning explicit_thinking_mode) of
        Some mode \<Rightarrow> mode
      | None \<Rightarrow> if thinking \<noteq> None \<or> reasoning \<noteq> None \<or> has_effort then ''enabled'' else ''disabled'')"

definition body_effort :: "(string, json) bmap \<Rightarrow> string option" where
  "body_effort obj =
     or_else (extract_effort (bm_get obj ''thinking''))
       (or_else (extract_effort (bm_get obj ''reasoning''))
         (or_else (Option.bind (bm_get obj ''reasoning_effort'') json_str) (extract_effort (bm_get obj ''output_config''))))"

definition shape_deepseek_request :: "endpoint \<Rightarrow> json \<Rightarrow> json" where
  "shape_deepseek_request e body =
     (case body of
        J_Object obj \<Rightarrow>
          let effort = body_effort obj;
              mode = extract_thinking_mode (bm_get obj ''thinking'') (bm_get obj ''reasoning'') (effort \<noteq> None);
              obj = bm_remove ''reasoning'' (bm_insert ''thinking'' (json_obj [(''type'', J_String mode)]) obj)
          in J_Object (case e of
               Chat_Completions \<Rightarrow>
                 (case effort of
                    Some s \<Rightarrow> bm_insert ''reasoning_effort'' (J_String s) (bm_remove ''output_config'' obj)
                  | None \<Rightarrow> bm_remove ''reasoning_effort'' (bm_remove ''output_config'' obj))
             | Messages \<Rightarrow>
                 (case effort of
                    Some s \<Rightarrow> bm_insert ''output_config'' (json_obj [(''effort'', J_String s)]) (bm_remove ''reasoning_effort'' obj)
                  | None \<Rightarrow> bm_remove ''output_config'' (bm_remove ''reasoning_effort'' obj))
             | Responses \<Rightarrow> obj)
      | _ \<Rightarrow> body)"

text \<open>Codex (crates/provider-openai/src/codex.rs).\<close>

definition normalize_reasoning_effort :: "(string, json) bmap \<Rightarrow> (string, json) bmap" where
  "normalize_reasoning_effort obj =
     (case Option.bind (bm_get obj ''reasoning_effort'') json_str of
        None \<Rightarrow> bm_remove ''reasoning_effort'' obj
      | Some effort \<Rightarrow>
          let obj = bm_remove ''reasoning_effort'' obj in
          case bm_get obj ''reasoning'' of
            Some (J_Object reasoning) \<Rightarrow>
              (if bm_get reasoning ''effort'' \<noteq> None then obj
               else bm_insert ''reasoning'' (J_Object (bm_insert ''effort'' (J_String effort) reasoning)) obj)
          | Some _ \<Rightarrow> obj
          | None \<Rightarrow> bm_insert ''reasoning'' (json_obj [(''effort'', J_String effort)]) obj)"

definition normalize_verbosity :: "(string, json) bmap \<Rightarrow> (string, json) bmap" where
  "normalize_verbosity obj =
     (case bm_get obj ''verbosity'' of
        None \<Rightarrow> obj
      | Some verbosity \<Rightarrow>
          let obj = bm_remove ''verbosity'' obj in
          case bm_get obj ''text'' of
            Some (J_Object t) \<Rightarrow>
              (if bm_get t ''verbosity'' \<noteq> None then obj
               else bm_insert ''text'' (J_Object (bm_insert ''verbosity'' verbosity t)) obj)
          | Some _ \<Rightarrow> obj
          | None \<Rightarrow> bm_insert ''text'' (json_obj [(''verbosity'', verbosity)]) obj)"

fun normalize_codex_input :: "json \<Rightarrow> json" where
  "normalize_codex_input (J_Array items) = J_Array items"
| "normalize_codex_input (J_String text) =
     J_Array [json_obj [(''role'', J_String ''user''),
       (''content'', J_Array [json_obj [(''type'', J_String ''input_text''), (''text'', J_String text)]])]]"
| "normalize_codex_input J_Null = J_Array []"
| "normalize_codex_input other = J_Array [other]"

definition codex_request :: "(string, json) bmap \<Rightarrow> (string, json) bmap" where
  "codex_request obj =
     (let obj = normalize_verbosity (bm_insert ''stream'' (J_Bool True)
                  (bm_insert ''store'' (J_Bool False) (bm_remove ''max_output_tokens'' obj)));
          obj = (case bm_get obj ''input'' of None \<Rightarrow> obj | Some v \<Rightarrow> bm_insert ''input'' (normalize_codex_input v) obj);
          obj = (if Option.bind (bm_get obj ''instructions'') json_str = None
                 then bm_insert ''instructions'' (J_String []) obj else obj)
      in normalize_reasoning_effort obj)"

definition transform_codex :: "endpoint \<Rightarrow> json \<Rightarrow> json" where
  "transform_codex e body =
     (case body of J_Object obj \<Rightarrow> if e = Responses then J_Object (codex_request obj) else body | _ \<Rightarrow> body)"

text \<open>\<open>Provider::input_transformer\<close>: the other adapters have none.\<close>

fun input_transformer :: "(string \<Rightarrow> bool option) \<Rightarrow> adapter \<Rightarrow> (endpoint \<Rightarrow> json \<Rightarrow> json) option" where
  "input_transformer model_reasoning (Zai_Adapter _) = Some (\<lambda>e. transform_zai model_reasoning)"
| "input_transformer model_reasoning (Deepseek_Adapter _) = Some shape_deepseek_request"
| "input_transformer model_reasoning (Codex_Adapter _ _) = Some transform_codex"
| "input_transformer model_reasoning Copilot_Adapter = Some (\<lambda>e body. body)"
| "input_transformer model_reasoning _ = None"

section \<open>Conversion of the request\<close>

record converted_request =
  cq_body :: json
  cq_wire_body :: string
  cq_debug_body :: string
  cq_content_encoding :: "content_encoding option"

definition convert_perm :: "requests_error \<Rightarrow> pipeline_error" where
  "convert_perm e = permanent Convert_Request_Stage e"

definition rewrite_model :: "json \<Rightarrow> string \<Rightarrow> json" where
  "rewrite_model body model =
     (case body of J_Object obj \<Rightarrow> J_Object (bm_insert ''model'' (J_String model) obj) | _ \<Rightarrow> body)"

definition check_generation_options ::
  "(model_info \<Rightarrow> bool) \<Rightarrow> provider \<Rightarrow> endpoint \<Rightarrow> string \<Rightarrow> generation_options \<Rightarrow> pipeline_error + unit" where
  "check_generation_options reasons p e model opts =
     res_bind (map_err (\<lambda>err. convert_perm (Invalid_Generation_Options (generation_error_text err))) (validate_options opts)) (\<lambda>_.
     let efforts = reasoning_efforts p model in
     res_bind (map_err convert_perm (ensure_model_supports_effort e (pi_id (pv_info p)) model efforts opts)) (\<lambda>_.
     let reasoning_supported =
           (if (case efforts of None \<Rightarrow> False | Some levels \<Rightarrow> levels \<noteq> []) then Some True
            else map_option reasons (default_model_info (pv_info p) model))
     in map_err convert_perm (ensure_model_supports_reasoning e (pi_id (pv_info p)) reasoning_supported opts)))"

definition transform_body :: "(model_info \<Rightarrow> bool) \<Rightarrow> adapter \<Rightarrow> provider \<Rightarrow> endpoint \<Rightarrow> json \<Rightarrow> json" where
  "transform_body reasons a p e body =
     (case input_transformer (\<lambda>m. map_option reasons (default_model_info (pv_info p) m)) a of
        None \<Rightarrow> body | Some f \<Rightarrow> f e body)"

text \<open>\<open>show_convert\<close> and \<open>show_codec\<close> are the texts of foreign errors; an adapter's transformation never fails.\<close>

definition default_convert_request ::
  "(string \<Rightarrow> json option) \<Rightarrow> (json \<Rightarrow> string) \<Rightarrow> (content_encoding \<Rightarrow> string \<Rightarrow> string + string) \<Rightarrow>
   (convert_error \<Rightarrow> string) \<Rightarrow> (codec_error \<Rightarrow> string) \<Rightarrow> (model_info \<Rightarrow> bool) \<Rightarrow> adapter \<Rightarrow> provider \<Rightarrow>
   generation_options pipeline_ctx \<Rightarrow> extracted_request \<Rightarrow> resolved \<Rightarrow> pipeline_error + converted_request" where
  "default_convert_request parse render compress show_convert show_codec reasons a p ctx ex res =
     res_bind (require_resolved_endpoint ctx res Convert_Request_Stage) (\<lambda>inbound.
     res_bind (require_upstream_endpoint ctx res Convert_Request_Stage) (\<lambda>upstream.
     let model = rs_upstream_model res; options = rc_generation_options (cx_config ctx) in
     res_bind (case options of
         None \<Rightarrow> Inr () | Some opts \<Rightarrow> check_generation_options reasons p upstream model opts) (\<lambda>_.
     res_bind (map_err (\<lambda>err. convert_perm (Request_Conversion (show_convert err)))
         (convert_request parse render inbound upstream (rewrite_model (ex_body_json ex) model))) (\<lambda>body.
     res_bind (case options of
         None \<Rightarrow> Inr body
       | Some opts \<Rightarrow> map_err convert_perm (lower_generation_options body upstream (pi_id (pv_info p)) model opts)) (\<lambda>body.
     let body = transform_body reasons a p upstream body;
         debug = render body
     in res_map (\<lambda>wire. \<lparr>cq_body = body, cq_wire_body = wire, cq_debug_body = debug,
                         cq_content_encoding = ex_content_encoding ex\<rparr>)
          (if body = ex_body_json ex then Inr (ex_raw_body ex)
           else map_err (\<lambda>err. convert_perm (Reencode_Outbound_Body (show_codec err)))
                  (encode_body_bytes compress debug (ex_content_encoding ex))))))))"

definition noop_convert_request :: "extracted_request \<Rightarrow> converted_request" where
  "noop_convert_request ex =
     \<lparr>cq_body = ex_body_json ex, cq_wire_body = ex_raw_body ex, cq_debug_body = ex_decoded_body ex,
      cq_content_encoding = ex_content_encoding ex\<rparr>"

definition passthrough_convert_request ::
  "provider \<Rightarrow> generation_options pipeline_ctx \<Rightarrow> extracted_request \<Rightarrow> resolved \<Rightarrow> pipeline_error + converted_request" where
  "passthrough_convert_request p ctx ex res =
     res_bind (case rc_generation_options (cx_config ctx) of
         None \<Rightarrow> Inr ()
       | Some opts \<Rightarrow>
           res_bind (map_err (\<lambda>err. permanent Convert_Request_Stage (Invalid_Generation_Options (generation_error_text err)))
             (validate_options opts)) (\<lambda>_.
           if options_empty opts then Inr ()
           else res_bind (require_upstream_endpoint ctx res Convert_Request_Stage) (\<lambda>e.
             Inl (permanent Convert_Request_Stage (Unsupported_Generation_Control (first_control opts) (pi_id (pv_info p)) e
               ''verbatim routing cannot lower provider-neutral generation controls''))))) (\<lambda>_.
     Inr \<lparr>cq_body = J_Null, cq_wire_body = ex_raw_body ex, cq_debug_body = ex_decoded_body ex,
          cq_content_encoding = ex_content_encoding ex\<rparr>)"

section \<open>What the stages keep\<close>

text \<open>The adapter built for a provider id (the descriptors of the crates name them).\<close>

fun adapter_serves :: "adapter \<Rightarrow> string \<Rightarrow> bool" where
  "adapter_serves Copilot_Adapter pid \<longleftrightarrow> pid = ''github-copilot''"
| "adapter_serves (Deepseek_Adapter _) pid \<longleftrightarrow> pid = ''deepseek''"
| "adapter_serves (Zai_Adapter _) pid \<longleftrightarrow> pid \<in> set zai_providers"
| "adapter_serves (Llama_Cpp_Adapter _) pid \<longleftrightarrow> pid = ''llama-cpp''"
| "adapter_serves (Openai_Adapter _) pid \<longleftrightarrow> pid = ''openai''"
| "adapter_serves (Codex_Adapter _ _) pid \<longleftrightarrow> pid = ''codex''"
| "adapter_serves (Opencode_Go_Adapter _) pid \<longleftrightarrow> pid = ''opencode-go''"

definition holds_member :: "json \<Rightarrow> string list \<Rightarrow> json \<Rightarrow> bool" where
  "holds_member body path v \<longleftrightarrow> path \<noteq> [] \<and> json_pointer body path = Some v"

lemma holds_member_object:
  "holds_member (J_Object obj) (k # ks) v \<longleftrightarrow> (\<exists>w. bm_get obj k = Some w \<and> json_pointer w ks = Some v)"
  by (simp add: holds_member_def split: option.split)

lemma holds_member_cases:
  assumes "holds_member body path v"
  obtains obj k ks w where "body = J_Object obj" "path = k # ks" "bm_get obj k = Some w" "json_pointer w ks = Some v"
  using assms by (cases body; cases path) (auto simp: holds_member_def split: option.splits)

lemma zai_keeps:
  assumes "holds_member body path v"
  shows "holds_member (transform_zai f body) path v"
  using assms
  by (rule holds_member_cases) (auto simp: transform_zai_def shape_zai_request_def holds_member_object Let_def)

lemma normalize_verbosity_get:
  "k \<notin> {''verbosity'', ''text''} \<Longrightarrow> bm_get (normalize_verbosity obj) k = bm_get obj k"
  by (auto simp: normalize_verbosity_def Let_def split: option.split json.split)

lemma normalize_reasoning_effort_get:
  "k \<notin> {''reasoning_effort'', ''reasoning''} \<Longrightarrow> bm_get (normalize_reasoning_effort obj) k = bm_get obj k"
  by (auto simp: normalize_reasoning_effort_def Let_def split: option.split json.split)

lemma normalize_reasoning_effort_keeps:
  assumes "bm_get obj ''reasoning'' = Some (J_Object m)" "bm_get m k = Some w"
  shows "\<exists>m'. bm_get (normalize_reasoning_effort obj) ''reasoning'' = Some (J_Object m') \<and> bm_get m' k = Some w"
  using assms by (auto simp: normalize_reasoning_effort_def Let_def split: option.split)

definition codex_names :: "string set" where
  "codex_names = {''max_output_tokens'', ''store'', ''stream'', ''verbosity'', ''text'', ''input'', ''instructions'', ''reasoning_effort''}"

lemma codex_keeps:
  assumes "holds_member body path v" "hd path \<notin> codex_names" "hd path = ''reasoning'' \<longrightarrow> length path = 2"
  shows "holds_member (transform_codex e body) path v"
  using assms(1)
proof (rule holds_member_cases)
  fix obj k ks w
  assume body: "body = J_Object obj" "path = k # ks" and w: "bm_get obj k = Some w" "json_pointer w ks = Some v"
  define obj1 where "obj1 = normalize_verbosity (bm_insert ''stream'' (J_Bool True)
                  (bm_insert ''store'' (J_Bool False) (bm_remove ''max_output_tokens'' obj)))"
  define obj2 where "obj2 = (case bm_get obj1 ''input'' of None \<Rightarrow> obj1 | Some v \<Rightarrow> bm_insert ''input'' (normalize_codex_input v) obj1)"
  define obj3 where "obj3 = (if Option.bind (bm_get obj2 ''instructions'') json_str = None
                 then bm_insert ''instructions'' (J_String []) obj2 else obj2)"
  have out: "codex_request obj = normalize_reasoning_effort obj3"
    unfolding codex_request_def Let_def obj1_def [symmetric] obj2_def [symmetric] obj3_def [symmetric] by (rule refl)
  have "bm_get obj1 k = Some w"
    using assms(2) w(1) unfolding obj1_def body(2) codex_names_def by (subst normalize_verbosity_get) auto
  then have obj3: "bm_get obj3 k = Some w"
    using assms(2) unfolding obj3_def obj2_def body(2) codex_names_def by (auto split: option.split)
  show ?thesis
  proof (cases "k = ''reasoning''")
    case True
    then obtain x where ks: "ks = [x]" using assms(3) body(2) by (cases ks) auto
    then obtain m where m: "w = J_Object m" "bm_get m x = Some v"
      using w(2) by (cases w) (auto split: option.splits)
    have "\<exists>m'. bm_get (normalize_reasoning_effort obj3) ''reasoning'' = Some (J_Object m') \<and> bm_get m' x = Some v"
      by (rule normalize_reasoning_effort_keeps) (use obj3 True m in auto)
    then show ?thesis using w ks True m unfolding body transform_codex_def by (auto simp: holds_member_object out)
  next
    case False
    then have "bm_get (normalize_reasoning_effort obj3) k = Some w"
      using assms(2) obj3 unfolding body(2) codex_names_def by (subst normalize_reasoning_effort_get) auto
    then show ?thesis using w unfolding body transform_codex_def by (auto simp: holds_member_object out)
  qed
qed

lemma deepseek_keeps_other:
  assumes "holds_member body path v" "hd path \<notin> {''thinking'', ''reasoning'', ''reasoning_effort'', ''output_config''}"
  shows "holds_member (shape_deepseek_request e body) path v"
  using assms(1)
proof (rule holds_member_cases)
  fix obj k ks w
  assume body: "body = J_Object obj" "path = k # ks" and w: "bm_get obj k = Some w" "json_pointer w ks = Some v"
  have k: "k \<noteq> ''thinking''" "k \<noteq> ''reasoning''" "k \<noteq> ''reasoning_effort''" "k \<noteq> ''output_config''"
    using assms(2) body(2) by auto
  show ?thesis unfolding body
    using w k by (cases e) (simp_all add: shape_deepseek_request_def holds_member_object Let_def split: option.split)
qed

text \<open>The mode and the effort that the lowering wrote survive the shaping.\<close>

lemma deepseek_keeps_mode:
  assumes "holds_member body [''thinking'', ''type''] (J_String (reasoning_mode_str mode))" "mode \<noteq> Mode_Adaptive"
  shows "holds_member (shape_deepseek_request e body) [''thinking'', ''type''] (J_String (reasoning_mode_str mode))"
  using assms(1)
proof (rule holds_member_cases)
  fix obj k ks w
  assume body: "body = J_Object obj" "[''thinking'', ''type''] = k # ks" and w: "bm_get obj k = Some w"
    "json_pointer w ks = Some (J_String (reasoning_mode_str mode))"
  then obtain m where m: "w = J_Object m" "bm_get m ''type'' = Some (J_String (reasoning_mode_str mode))"
    by (cases w) (auto split: option.splits)
  have "extract_thinking_mode (bm_get obj ''thinking'') r b = reasoning_mode_str mode" for r b
    using assms(2) w(1) m body(2) by (cases mode) (simp_all add: extract_thinking_mode_def)
  then show ?thesis unfolding body(1)
    by (cases e) (simp_all add: shape_deepseek_request_def holds_member_object Let_def json_get_obj split: option.split)
qed

lemma deepseek_keeps_effort:
  assumes "json_pointer body [''thinking'', ''effort''] = Some (J_String s)"
  shows "holds_member (shape_deepseek_request Chat_Completions body) [''reasoning_effort''] (J_String s)"
    and "holds_member (shape_deepseek_request Messages body) [''output_config'', ''effort''] (J_String s)"
proof -
  obtain obj m where obj: "body = J_Object obj" "bm_get obj ''thinking'' = Some (J_Object m)" "bm_get m ''effort'' = Some (J_String s)"
    using assms by (cases body) (auto split: option.splits elim!: json_get.elims)
  then have "body_effort obj = Some s" by (simp add: body_effort_def extract_effort_def)
  then show "holds_member (shape_deepseek_request Chat_Completions body) [''reasoning_effort''] (J_String s)"
    and "holds_member (shape_deepseek_request Messages body) [''output_config'', ''effort''] (J_String s)"
    by (simp_all add: obj(1) shape_deepseek_request_def holds_member_object Let_def json_get_obj)
qed

lemma lowered_deepseek_effort:
  assumes low: "lower_generation_options body e ''deepseek'' model opts = Inr body'" and e: "e \<noteq> Responses"
    and r: "go_reasoning opts = Some r" "ro_effort r = Some effort"
  shows "json_pointer body' [''thinking'', ''effort''] = Some (J_String (effort_str effort))"
proof -
  obtain obj obj' obj1 where body: "body' = J_Object obj'" and out: "lower_deepseek_reasoning obj1 e ''deepseek'' r = Inr obj'"
    using low r e
    by (cases body; cases e)
       (auto simp: lower_generation_options_def options_empty_def unsupported_def res_map_def lower_controls_def
         lower_chat_reasoning_def lower_messages_reasoning_def split: sum.splits)
  obtain err where "lower_deepseek_reasoning obj1 e ''deepseek'' r =
    (if sayable (Thinking_With_Effort []) r \<and> upstream_accepts (Thinking_With_Effort []) model obj1 r
     then Inr (if ro_mode r = None \<and> ro_effort r = None then obj1 else deepseek_object (e = Messages) r obj1)
     else Inl err)"
    using deepseek_outcome [OF e] by blast
  with out r(2) have "obj' = deepseek_object (e = Messages) r obj1"
    by (auto split: if_splits)
  then show ?thesis using r(2) by (simp add: body deepseek_object_def effort_text_def Let_def)
qed

lemma requested_path: "(path, v) \<in> set (requested_members e p model opts) \<Longrightarrow> path \<noteq> []"
proof -
  have "(path, v) \<in> set (reasoning_members (reasoning_dialect_of e p model) r) \<Longrightarrow> path \<noteq> []" for r
    by (auto simp: reasoning_dialect_of_def text_at_def nat_at_def split: endpoint.splits if_splits option.splits)
  then show "(path, v) \<in> set (requested_members e p model opts) \<Longrightarrow> path \<noteq> []"
    by (auto simp: requested_members_def text_at_def nat_at_def split: option.splits)
qed

lemma lowered_members:
  assumes "validate_options opts = Inr ()" "lower_generation_options (J_Object obj) e p model opts = Inr body"
  shows "controls_accepted e p model opts obj"
    and "(path, v) \<in> set (requested_members e p model opts) \<Longrightarrow> holds_member body path v"
    and "k \<notin> control_names \<Longrightarrow> json_get body k = bm_get obj k"
  using controls_lower [of opts e p model obj] assms asked_names_control [of k opts]
  by (auto simp: holds_member_def lowers_def lower_generation_options_def lower_controls_def options_empty_def
      validate_options_def res_map_def requested_path split: sum.splits if_splits option.splits)

lemma codex_requests:
  assumes "controls_accepted Responses ''codex'' model opts obj" "(path, v) \<in> set (requested_members Responses ''codex'' model opts)"
  shows "hd path \<notin> codex_names" "hd path = ''reasoning'' \<longrightarrow> length path = 2"
  using assms
  by (auto simp: controls_accepted_def requested_members_def nat_at_def text_at_def reasoning_dialect_of_def codex_names_def
      split: option.splits)

lemma deepseek_requests:
  assumes "e \<noteq> Responses" "(path, v) \<in> set (requested_members e ''deepseek'' model opts)"
  obtains "hd path \<notin> {''thinking'', ''reasoning'', ''reasoning_effort'', ''output_config''}"
  | r mode where "go_reasoning opts = Some r" "ro_mode r = Some mode" "path = [''thinking'', ''type'']"
      "v = J_String (reasoning_mode_str mode)"
  | r effort where "go_reasoning opts = Some r" "ro_effort r = Some effort" "v = J_String (effort_str effort)"
      "path = (if e = Messages then [''output_config'', ''effort''] else [''reasoning_effort''])"
proof -
  have limit: "limit_member e ''deepseek'' model \<notin> {''thinking'', ''reasoning'', ''reasoning_effort'', ''output_config''}"
    by (simp add: limit_member_def split: endpoint.split)
  have "(path, v) \<in> set (nat_at [limit_member e ''deepseek'' model] (go_max_output_tokens opts)) \<or>
      (path, v) \<in> set (nat_at [''top_k''] (go_top_k opts)) \<or>
      (\<exists>r. go_reasoning opts = Some r \<and>
        ((path, v) \<in> set (text_at [''thinking'', ''type''] (mode_text r)) \<or>
         (path, v) \<in> set (text_at (if e = Messages then [''output_config'', ''effort''] else [''reasoning_effort'']) (effort_text r))))"
    using assms by (cases e) (auto simp: requested_members_def reasoning_dialect_of_def split: option.splits)
  then show thesis
  proof (elim disjE exE conjE)
    assume "(path, v) \<in> set (nat_at [limit_member e ''deepseek'' model] (go_max_output_tokens opts))"
    then show thesis using limit that(1) by (auto simp: nat_at_def split: option.splits)
  next
    assume "(path, v) \<in> set (nat_at [''top_k''] (go_top_k opts))"
    then show thesis using that(1) by (auto simp: nat_at_def split: option.splits)
  next
    fix r assume "go_reasoning opts = Some r" "(path, v) \<in> set (text_at [''thinking'', ''type''] (mode_text r))"
    then show thesis using that(2) [of r] by (auto simp: text_at_def mode_text_def split: option.splits dest: sym)
  next
    fix r assume "go_reasoning opts = Some r"
      "(path, v) \<in> set (text_at (if e = Messages then [''output_config'', ''effort''] else [''reasoning_effort'']) (effort_text r))"
    then show thesis using that(3) [of r] by (auto simp: text_at_def effort_text_def split: option.splits dest: sym)
  qed
qed

lemma accepted_mode:
  assumes "controls_accepted e ''deepseek'' model opts obj" "e \<noteq> Responses" "go_reasoning opts = Some r"
  shows "ro_mode r \<noteq> Some Mode_Adaptive"
  using assms by (cases e) (auto simp: controls_accepted_def reasoning_dialect_of_def)

lemma transformed_members:
  assumes valid: "validate_options opts = Inr ()"
    and low: "lower_generation_options (J_Object obj) e pid model opts = Inr body"
    and a: "adapter_serves a pid" "pid = ''deepseek'' \<longrightarrow> e \<noteq> Responses"
    and member: "(path, v) \<in> set (requested_members e pid model opts)"
  shows "holds_member (transform_body reasons a p e body) path v"
proof -
  note low_facts = lowered_members [OF valid low]
  have held: "holds_member body path v" by (rule low_facts(2) [OF member])
  show ?thesis
  proof (cases a)
    case (Zai_Adapter key)
    then show ?thesis using held zai_keeps by (simp add: transform_body_def)
  next
    case (Codex_Adapter token account)
    then have pid: "pid = ''codex''" using a by simp
    show ?thesis
    proof (cases "e = Responses")
      case True
      have "controls_accepted Responses ''codex'' model opts obj" "(path, v) \<in> set (requested_members Responses ''codex'' model opts)"
        using low_facts(1) member True pid by simp_all
      from codex_requests [OF this] show ?thesis
        using codex_keeps [OF held] by (simp add: transform_body_def Codex_Adapter)
    next
      case False
      then show ?thesis using held by (cases body) (simp_all add: transform_body_def Codex_Adapter transform_codex_def)
    qed
  next
    case (Deepseek_Adapter key)
    then have pid: "pid = ''deepseek''" and e: "e \<noteq> Responses" using a by simp_all
    have out: "transform_body reasons a p e body = shape_deepseek_request e body"
      by (simp add: transform_body_def Deepseek_Adapter)
    have m: "(path, v) \<in> set (requested_members e ''deepseek'' model opts)" using member pid by simp
    show ?thesis unfolding out
    proof (rule deepseek_requests [OF e m])
      assume "hd path \<notin> {''thinking'', ''reasoning'', ''reasoning_effort'', ''output_config''}"
      then show "holds_member (shape_deepseek_request e body) path v" by (rule deepseek_keeps_other [OF held])
    next
      fix r mode
      assume r: "go_reasoning opts = Some r" "ro_mode r = Some mode" "path = [''thinking'', ''type'']"
        "v = J_String (reasoning_mode_str mode)"
      have "mode \<noteq> Mode_Adaptive" using accepted_mode [of e model opts obj r] low_facts(1) pid e r by auto
      then show "holds_member (shape_deepseek_request e body) path v" using deepseek_keeps_mode held r by simp
    next
      fix r effort
      assume r: "go_reasoning opts = Some r" "ro_effort r = Some effort" "v = J_String (effort_str effort)"
        "path = (if e = Messages then [''output_config'', ''effort''] else [''reasoning_effort''])"
      have "json_pointer body [''thinking'', ''effort''] = Some (J_String (effort_str effort))"
        by (rule lowered_deepseek_effort [OF low [unfolded pid] e r(1,2)])
      then show "holds_member (shape_deepseek_request e body) path v"
        using deepseek_keeps_effort e r(3,4) by (cases e) simp_all
    qed
  qed (use held in \<open>simp_all add: transform_body_def\<close>)
qed

lemma transformed_model:
  assumes "get_str body ''model'' = Some m"
  shows "get_str (transform_body reasons a p e body) ''model'' = Some m"
proof -
  have "holds_member body [''model''] (J_String m)"
    using assms by (auto simp: holds_member_def get_str_def bind_eq_Some_conv elim!: json_str.elims split: option.split)
  then have "holds_member (transform_body reasons a p e body) [''model''] (J_String m)"
    by (cases a) (simp_all add: transform_body_def zai_keeps codex_keeps deepseek_keeps_other codex_names_def)
  then show ?thesis by (auto simp: holds_member_def get_str_def split: option.splits)
qed

text \<open>A converted request names the model of the request it was read from.\<close>

lemma converted_model:
  assumes "convert_request parse render from_e to_e body = Inr w" "get_str body ''model'' = Some m" "json_object body \<noteq> None"
  shows "get_str w ''model'' = Some m" "json_object w \<noteq> None"
proof -
  have read: "read_request parse from_e body = Inr r \<Longrightarrow> rq_model r = m" for r
    using assms(2)
    by (cases from_e)
       (auto simp: read_request_def chat_request_from_value_def messages_request_from_value_def
         responses_request_from_value_def Let_def case_prod_beta)
  have wrote: "get_str (write_request render to_e r) ''model'' = Some (rq_model r)" for r
    by (cases to_e)
       (simp_all add: write_request_def chat_request_to_value_def responses_request_to_value_def messages_request_to_value_def
         get_str_def Let_def bm_get_messages_tools bm_get_normalize_text bm_ok_insert del: bm_insert.simps)
  show "get_str w ''model'' = Some m"
    using assms read wrote by (auto simp: convert_request_def res_map_def split: if_splits sum.splits)
  then show "json_object w \<noteq> None" by (cases w) (simp_all add: get_str_def)
qed

lemma default_convert_stages:
  assumes "default_convert_request parse render compress sc sk reasons a p ctx ex res = Inr out"
    "require_upstream_endpoint ctx res Convert_Request_Stage = Inr e"
  obtains inbound body1 body2 where
    "convert_request parse render inbound e (rewrite_model (ex_body_json ex) (rs_upstream_model res)) = Inr body1"
    "case rc_generation_options (cx_config ctx) of
       None \<Rightarrow> body2 = body1
     | Some opts \<Rightarrow> validate_options opts = Inr () \<and>
         lower_generation_options body1 e (pi_id (pv_info p)) (rs_upstream_model res) opts = Inr body2"
    "cq_body out = transform_body reasons a p e body2"
    "cq_content_encoding out = ex_content_encoding ex" "cq_debug_body out = render (cq_body out)"
    "if cq_body out = ex_body_json ex then cq_wire_body out = ex_raw_body ex
     else encode_body_bytes compress (render (cq_body out)) (ex_content_encoding ex) = Inr (cq_wire_body out)"
proof -
  let ?options = "rc_generation_options (cx_config ctx)" and ?model = "rs_upstream_model res" and ?pid = "pi_id (pv_info p)"
  have e: "require_upstream_endpoint ctx res Convert_Request_Stage = Inr e' \<Longrightarrow> e' = e" for e'
    using assms(2) by simp
  obtain inbound u body1 body2 where
    checked: "(case ?options of None \<Rightarrow> Inr () | Some opts \<Rightarrow> check_generation_options reasons p e ?model opts) = Inr u"
    and conv: "map_err (\<lambda>err. convert_perm (Request_Conversion (sc err)))
        (convert_request parse render inbound e (rewrite_model (ex_body_json ex) ?model)) = Inr body1"
    and low: "(case ?options of None \<Rightarrow> Inr body1
        | Some opts \<Rightarrow> map_err convert_perm (lower_generation_options body1 e ?pid ?model opts)) = Inr body2"
    and enc: "res_map (\<lambda>wire. \<lparr>cq_body = transform_body reasons a p e body2, cq_wire_body = wire,
            cq_debug_body = render (transform_body reasons a p e body2), cq_content_encoding = ex_content_encoding ex\<rparr>)
        (if transform_body reasons a p e body2 = ex_body_json ex then Inr (ex_raw_body ex)
         else map_err (\<lambda>err. convert_perm (Reencode_Outbound_Body (sk err)))
                (encode_body_bytes compress (render (transform_body reasons a p e body2)) (ex_content_encoding ex))) = Inr out"
    using assms(1) e unfolding default_convert_request_def Let_def res_bind_eq_Inr by blast
  obtain wire where wire: "(if transform_body reasons a p e body2 = ex_body_json ex then Inr (ex_raw_body ex)
         else map_err (\<lambda>err. convert_perm (Reencode_Outbound_Body (sk err)))
                (encode_body_bytes compress (render (transform_body reasons a p e body2)) (ex_content_encoding ex))) = Inr wire"
    and out: "out = \<lparr>cq_body = transform_body reasons a p e body2, cq_wire_body = wire,
            cq_debug_body = render (transform_body reasons a p e body2), cq_content_encoding = ex_content_encoding ex\<rparr>"
    using enc by (auto simp: res_map_def split: sum.splits)
  show thesis
  proof (rule that)
    show "convert_request parse render inbound e (rewrite_model (ex_body_json ex) ?model) = Inr body1"
      using conv by (simp add: map_err_def split: sum.splits)
    show "case ?options of None \<Rightarrow> body2 = body1
     | Some opts \<Rightarrow> validate_options opts = Inr () \<and> lower_generation_options body1 e ?pid ?model opts = Inr body2"
      using low checked by (auto simp: check_generation_options_def map_err_def split: option.splits sum.splits)
    show "if cq_body out = ex_body_json ex then cq_wire_body out = ex_raw_body ex
     else encode_body_bytes compress (render (cq_body out)) (ex_content_encoding ex) = Inr (cq_wire_body out)"
      using wire by (simp add: out map_err_def split: if_splits sum.splits)
  qed (simp_all add: out)
qed

text \<open>
  C4. What a managed request sends. The bytes of a converted request decode, in the encoding
  announced for them, to a JSON body that names the model its account serves and that holds every
  generation control the caller asked for, where the selected provider reads it: neither the
  conversion between dialects nor the provider's own transformation loses one. It rests
  on the compression library being invertible and on the inbound body being the decoding of its
  bytes; the DeepSeek adapter has no Responses endpoint.
\<close>

theorem controls_reach_upstream:
  assumes out: "default_convert_request parse render compress show_convert show_codec reasons a p ctx ex res = Inr out"
    and adapter: "adapter_serves a (pi_id (pv_info p))" "require_upstream_endpoint ctx res Convert_Request_Stage = Inr e"
      "pi_id (pv_info p) = ''deepseek'' \<longrightarrow> e \<noteq> Responses"
    and codec: "\<forall>kind text wire. compress kind text = Inr wire \<longrightarrow> decompress kind wire = Inr text"
      "parse (render (cq_body out)) = Some (cq_body out)"
    and inbound: "decode_body_bytes decompress (ex_raw_body ex) (ex_content_encoding ex) = Inr plain"
      "parse plain = Some (ex_body_json ex)" "json_object (ex_body_json ex) \<noteq> None"
  shows "\<exists>sent body. decode_body_bytes decompress (cq_wire_body out) (cq_content_encoding out) = Inr sent \<and>
    parse sent = Some body \<and> get_str body ''model'' = Some (rs_upstream_model res) \<and>
    (\<forall>opts path v. rc_generation_options (cx_config ctx) = Some opts \<longrightarrow>
       (path, v) \<in> set (requested_members e (pi_id (pv_info p)) (rs_upstream_model res) opts) \<longrightarrow>
       json_pointer body path = Some v)"
proof -
  obtain inb body1 body2 where
    conv: "convert_request parse render inb e (rewrite_model (ex_body_json ex) (rs_upstream_model res)) = Inr body1"
    and low: "case rc_generation_options (cx_config ctx) of
       None \<Rightarrow> body2 = body1
     | Some opts \<Rightarrow> validate_options opts = Inr () \<and>
         lower_generation_options body1 e (pi_id (pv_info p)) (rs_upstream_model res) opts = Inr body2"
    and body: "cq_body out = transform_body reasons a p e body2"
    and enc: "cq_content_encoding out = ex_content_encoding ex"
    and wire: "if cq_body out = ex_body_json ex then cq_wire_body out = ex_raw_body ex
     else encode_body_bytes compress (render (cq_body out)) (ex_content_encoding ex) = Inr (cq_wire_body out)"
    by (rule default_convert_stages [OF out adapter(2)])
  obtain inner where inner: "ex_body_json ex = J_Object inner" using inbound(3) by (cases "ex_body_json ex") auto
  have "get_str body1 ''model'' = Some (rs_upstream_model res)" "json_object body1 \<noteq> None"
    using converted_model [OF conv] by (simp_all add: inner rewrite_model_def get_str_def)
  then obtain obj where obj: "body1 = J_Object obj" "get_str body1 ''model'' = Some (rs_upstream_model res)"
    by (cases body1) auto
  have "get_str body2 ''model'' = Some (rs_upstream_model res)"
    using low obj lowered_members(3) [of _ obj e "pi_id (pv_info p)" "rs_upstream_model res" body2 "''model''"]
    by (auto simp: get_str_def control_names_def reasoning_names_def split: option.splits)
  then have model: "get_str (cq_body out) ''model'' = Some (rs_upstream_model res)"
    unfolding body by (rule transformed_model)
  have members: "json_pointer (cq_body out) path = Some v"
    if "rc_generation_options (cx_config ctx) = Some opts"
      "(path, v) \<in> set (requested_members e (pi_id (pv_info p)) (rs_upstream_model res) opts)" for opts path v
    using transformed_members [of opts obj e _ _ body2 a] low that adapter obj(1) unfolding body by (auto simp: holds_member_def)
  have "\<exists>sent. decode_body_bytes decompress (cq_wire_body out) (cq_content_encoding out) = Inr sent \<and>
      parse sent = Some (cq_body out)"
    using wire inbound codec
    by (auto simp: enc encode_body_bytes_def decode_body_bytes_def map_err_def split: if_splits option.splits sum.splits)
  with model members show ?thesis by blast
qed

definition sample_inbound :: json where
  "sample_inbound = json_obj [(''model'', J_String ''best''), (''messages'', J_Array [])]"

definition sample_outbound :: json where
  "sample_outbound =
     json_obj [(''model'', J_String ''deepseek-chat''), (''messages'', J_Array []), (''reasoning_effort'', J_String ''high''),
               (''thinking'', json_obj [(''type'', J_String ''enabled'')])]"

definition sample_body_parse :: "string \<Rightarrow> json option" where
  "sample_body_parse s = (if s = ''in'' then Some sample_inbound else if s = ''out'' then Some sample_outbound else None)"

definition sample_compress :: "content_encoding \<Rightarrow> string \<Rightarrow> string + string" where
  "sample_compress kind s = Inr (CHR ''z'' # s)"

definition sample_decompress :: "content_encoding \<Rightarrow> string \<Rightarrow> string + string" where
  "sample_decompress kind s = (case s of [] \<Rightarrow> Inl ''empty'' | c # t \<Rightarrow> Inr t)"

definition sample_deepseek :: provider where
  "sample_deepseek = \<lparr>pv_id = ''deepseek:a'', pv_info = \<lparr>pi_id = ''deepseek'', pi_auth_kind = Auth_Static_Key, pi_default_models = [],
     pi_default_endpoints = [Chat_Completions], pi_model_cache = empty_model_cache\<rparr>, pv_driver = Default_Driver None\<rparr>"

definition sample_options :: generation_options where
  "sample_options = \<lparr>go_max_output_tokens = None, go_top_k = None,
     go_reasoning = Some \<lparr>ro_mode = None, ro_effort = Some High, ro_budget_tokens = None, ro_summary = None\<rparr>\<rparr>"

definition sample_body_ctx :: "generation_options pipeline_ctx" where
  "sample_body_ctx = \<lparr>cx_request_id = ''r'', cx_attempt = 0, cx_request_endpoint = Known Chat_Completions,
     cx_config = \<lparr>rc_inner = [], rc_agent_id = None, rc_generation_options = Some sample_options, rc_request_method = None\<rparr>\<rparr>"

definition sample_extracted :: extracted_request where
  "sample_extracted = \<lparr>ex_agent_id = None, ex_model = ''best'', ex_session_id = None, ex_route_mode_hint = None,
     ex_stream = False, ex_project_id = None, ex_initiator = None, ex_header_initiator = None, ex_headers = [],
     ex_raw_body = ''zin'', ex_decoded_body = ''in'', ex_body_json = sample_inbound, ex_content_encoding = Some Enc_Gzip\<rparr>"

definition sample_resolved :: resolved where
  "sample_resolved = \<lparr>rs_agent_id = None, rs_model = ''best'', rs_upstream_model = ''deepseek-chat'',
     rs_route = Route_Operation Chat_Completions Chat_Completions, rs_account_id = ''a'', rs_provider_id = ''deepseek'',
     rs_account_handle = Stub_Handle ''a'' ''deepseek''\<rparr>"

definition sample_converted :: "pipeline_error + converted_request" where
  "sample_converted =
     default_convert_request sample_body_parse (\<lambda>v. ''out'') sample_compress (\<lambda>e. []) (\<lambda>e. []) (\<lambda>m. True) (Deepseek_Adapter ''k'')
       sample_deepseek sample_body_ctx sample_extracted sample_resolved"

lemma sample_converts: "sample_converted =
    Inr \<lparr>cq_body = sample_outbound, cq_wire_body = ''zout'', cq_debug_body = ''out'', cq_content_encoding = Some Enc_Gzip\<rparr>"
  by code_simp

theorem controls_reach_upstream_witness:
  "\<exists>out body. sample_converted = Inr out \<and> decode_body_bytes sample_decompress (cq_wire_body out) (cq_content_encoding out) = Inr ''out'' \<and>
     sample_body_parse ''out'' = Some body \<and> get_str body ''model'' = Some ''deepseek-chat'' \<and>
     json_pointer body [''reasoning_effort''] = Some (J_String ''high'')"
proof -
  let ?out = "\<lparr>cq_body = sample_outbound, cq_wire_body = ''zout'', cq_debug_body = ''out'', cq_content_encoding = Some Enc_Gzip\<rparr>"
  have member: "([''reasoning_effort''], J_String ''high'') \<in>
      set (requested_members Chat_Completions (pi_id (pv_info sample_deepseek)) (rs_upstream_model sample_resolved) sample_options)"
    by code_simp
  have "\<exists>sent body. decode_body_bytes sample_decompress (cq_wire_body ?out) (cq_content_encoding ?out) = Inr sent \<and>
    sample_body_parse sent = Some body \<and> get_str body ''model'' = Some (rs_upstream_model sample_resolved) \<and>
    (\<forall>opts path v. rc_generation_options (cx_config sample_body_ctx) = Some opts \<longrightarrow>
       (path, v) \<in> set (requested_members Chat_Completions (pi_id (pv_info sample_deepseek)) (rs_upstream_model sample_resolved) opts) \<longrightarrow>
       json_pointer body path = Some v)"
  proof (rule controls_reach_upstream [OF sample_converts [unfolded sample_converted_def], where plain = "''in''"])
    show "require_upstream_endpoint sample_body_ctx sample_resolved Convert_Request_Stage = Inr Chat_Completions" by code_simp
    show "adapter_serves (Deepseek_Adapter ''k'') (pi_id (pv_info sample_deepseek))" by code_simp
    show "\<forall>kind text wire. sample_compress kind text = Inr wire \<longrightarrow> sample_decompress kind wire = Inr text"
      by (auto simp: sample_compress_def sample_decompress_def)
    show "sample_body_parse ''out'' = Some (cq_body ?out)" by (simp add: sample_body_parse_def)
    show "decode_body_bytes sample_decompress (ex_raw_body sample_extracted) (ex_content_encoding sample_extracted) = Inr ''in''"
      by code_simp
    show "sample_body_parse ''in'' = Some (ex_body_json sample_extracted)"
      by (simp add: sample_body_parse_def sample_extracted_def)
    show "json_object (ex_body_json sample_extracted) \<noteq> None" by (simp add: sample_extracted_def sample_inbound_def json_obj_def)
  qed (simp add: sample_resolved_def)
  moreover have "decode_body_bytes sample_decompress (cq_wire_body ?out) (cq_content_encoding ?out) = Inr ''out''" by code_simp
  moreover have "rc_generation_options (cx_config sample_body_ctx) = Some sample_options" by (simp add: sample_body_ctx_def)
  ultimately have "\<exists>body. sample_body_parse ''out'' = Some body \<and> get_str body ''model'' = Some (rs_upstream_model sample_resolved) \<and>
      json_pointer body [''reasoning_effort''] = Some (J_String ''high'')"
    using member by fastforce
  then show ?thesis
    by (intro exI [of _ ?out]) (auto simp: sample_converts sample_resolved_def decode_body_bytes_def sample_decompress_def)
qed

end
