(* ===== verification/Response_Stages.thy ===== *)
theory Response_Stages
  imports Body_Stages
begin

text \<open>
  Sending a managed request and answering its client (crates/requests/src/stages/send/default.rs,
  stages/convert_response, the dispatch of pipeline/stages.rs), with the usage figures read off the
  answer (crates/convert/src/usage.rs).

  What the provider answers is an argument: an error of the provider, or a status, headers and a
  body; reading the body as text may fail. \<open>decode_events\<close> is the event decoder run over a whole
  body, \<open>json_error\<close> the text of the JSON library's error. A stage returns what it records on the event bus beside its outcome; the background
  tasks that only count a stream's progress are left out.
\<close>

section \<open>Usage figures\<close>

datatype usage_type = Usage_Chat | Usage_Responses | Usage_Messages

record usage_figures =
  uf_input_tokens :: "nat option"
  uf_output_tokens :: "nat option"
  uf_total_tokens :: "nat option"
  uf_usage_type :: "usage_type option"
  uf_cache_read :: "nat option"
  uf_cache_write :: "nat option"
  uf_reasoning :: "nat option"

definition no_usage :: usage_figures where
  "no_usage = \<lparr>uf_input_tokens = None, uf_output_tokens = None, uf_total_tokens = None, uf_usage_type = None,
     uf_cache_read = None, uf_cache_write = None, uf_reasoning = None\<rparr>"

definition usage_has_any :: "usage_figures \<Rightarrow> bool" where
  "usage_has_any u \<longleftrightarrow>
     uf_input_tokens u \<noteq> None \<or> uf_output_tokens u \<noteq> None \<or> uf_total_tokens u \<noteq> None \<or>
     uf_cache_read u \<noteq> None \<or> uf_cache_write u \<noteq> None \<or> uf_reasoning u \<noteq> None"

definition ptr_u64 :: "json option \<Rightarrow> string list \<Rightarrow> nat option" where
  "ptr_u64 v path = Option.bind (Option.bind v (\<lambda>w. json_pointer w path)) json_u64"

definition has_anthropic_usage_markers :: "json \<Rightarrow> bool" where
  "has_anthropic_usage_markers u \<longleftrightarrow>
     ptr_u64 (Some u) [''cache_creation_input_tokens''] \<noteq> None \<or> ptr_u64 (Some u) [''cache_read_input_tokens''] \<noteq> None"

definition detect_usage_type :: "json option \<Rightarrow> usage_type option" where
  "detect_usage_type v =
     Option.bind v (\<lambda>u.
       if has_anthropic_usage_markers u then Some Usage_Messages
       else if ptr_u64 (Some u) [''prompt_tokens''] \<noteq> None \<or> ptr_u64 (Some u) [''completion_tokens''] \<noteq> None then Some Usage_Chat
       else if ptr_u64 (Some u) [''input_tokens''] \<noteq> None \<or> ptr_u64 (Some u) [''output_tokens''] \<noteq> None then Some Usage_Responses
       else None)"

definition parse_openai_chat_usage :: "json option \<Rightarrow> usage_figures option" where
  "parse_openai_chat_usage u =
     (let input = ptr_u64 u [''prompt_tokens'']; output = ptr_u64 u [''completion_tokens''] in
      if input = None \<and> output = None then None
      else Some \<lparr>uf_input_tokens = input, uf_output_tokens = output, uf_total_tokens = ptr_u64 u [''total_tokens''],
                 uf_usage_type = Some Usage_Chat, uf_cache_read = ptr_u64 u [''prompt_tokens_details'', ''cached_tokens''],
                 uf_cache_write = None, uf_reasoning = ptr_u64 u [''completion_tokens_details'', ''reasoning_tokens'']\<rparr>)"

definition parse_openai_responses_usage :: "json option \<Rightarrow> usage_figures option" where
  "parse_openai_responses_usage u =
     (let input = ptr_u64 u [''input_tokens'']; output = ptr_u64 u [''output_tokens''] in
      if input = None \<and> output = None then None
      else Some \<lparr>uf_input_tokens = input, uf_output_tokens = output, uf_total_tokens = ptr_u64 u [''total_tokens''],
                 uf_usage_type = Some Usage_Responses, uf_cache_read = ptr_u64 u [''input_tokens_details'', ''cached_tokens''],
                 uf_cache_write = None, uf_reasoning = ptr_u64 u [''output_tokens_details'', ''reasoning_tokens'']\<rparr>)"

text \<open>The sum of the three counts wraps, as in the release profile.\<close>

definition parse_anthropic_usage :: "json option \<Rightarrow> usage_figures option" where
  "parse_anthropic_usage v =
     Option.bind v (\<lambda>u.
       let raw = ptr_u64 v [''input_tokens'']; write = ptr_u64 v [''cache_creation_input_tokens''];
           read = ptr_u64 v [''cache_read_input_tokens''] in
       if \<not> has_anthropic_usage_markers u then None
       else Some \<lparr>uf_input_tokens =
                    (if raw = None \<and> write = None \<and> read = None then None
                     else Some ((unwrap_or 0 raw + unwrap_or 0 write + unwrap_or 0 read) mod 2 ^ 64)),
                  uf_output_tokens = ptr_u64 v [''output_tokens''], uf_total_tokens = ptr_u64 v [''total_tokens''],
                  uf_usage_type = Some Usage_Messages, uf_cache_read = read, uf_cache_write = write, uf_reasoning = None\<rparr>)"

definition parse_usage_any_value :: "json \<Rightarrow> usage_figures" where
  "parse_usage_any_value v =
     (let usage = json_pointer v [''usage''] in
      unwrap_or no_usage
        (or_else (parse_anthropic_usage (json_pointer v [''message'', ''usage'']))
        (or_else (parse_openai_responses_usage (json_pointer v [''response'', ''usage'']))
        (or_else (case detect_usage_type usage of
                    Some Usage_Chat \<Rightarrow> parse_openai_chat_usage usage
                  | Some Usage_Responses \<Rightarrow> parse_openai_responses_usage usage
                  | Some Usage_Messages \<Rightarrow> parse_anthropic_usage usage
                  | None \<Rightarrow> None)
        (or_else (parse_openai_chat_usage usage)
        (or_else (parse_openai_responses_usage usage) (parse_anthropic_usage usage)))))))"

definition parse_usage_any_json :: "(string \<Rightarrow> json option) \<Rightarrow> string \<Rightarrow> usage_figures" where
  "parse_usage_any_json parse bytes = (case parse bytes of None \<Rightarrow> no_usage | Some v \<Rightarrow> parse_usage_any_value v)"

section \<open>Sending\<close>

datatype record_event =
    Rec_Upstream_Req string string header_map string
  | Rec_Upstream_Resp nat header_map
  | Rec_Upstream_Body string
  | Rec_Usage usage_figures

definition record_usage :: "usage_figures \<Rightarrow> record_event list" where
  "record_usage u = (if usage_has_any u then [Rec_Usage u] else [])"

text \<open>What \<open>util::http::send\<close> captured of the request, when the provider sent it that way.\<close>

record outbound_snapshot =
  os_method :: "string option"
  os_url :: "string option"
  os_headers :: header_map
  os_body :: string

datatype upstream_error = Http_Error string | Other_Provider_Error string

record 'b upstream_answer =
  ua_status :: nat
  ua_headers :: header_map
  ua_text :: "string + string"
  ua_body :: 'b

record 'b sent_response =
  se_status :: nat
  se_headers :: header_map
  se_stream :: bool
  se_upstream_endpoint :: "endpoint option"
  se_response :: 'b

text \<open>An outcome of a stage that may panic: slicing a string off a character boundary does.\<close>

datatype 'a send_outcome = Sent 'a | Send_Error pipeline_error | Send_Panic

definition classify_provider_error :: "upstream_error \<Rightarrow> pipeline_error" where
  "classify_provider_error err =
     (case err of
        Http_Error text \<Rightarrow> recoverable Send_Stage (Provider_Failure text)
      | Other_Provider_Error text \<Rightarrow> permanent Send_Stage (Provider_Failure text))"

definition is_char_boundary :: "string \<Rightarrow> nat \<Rightarrow> bool" where
  "is_char_boundary s i \<longleftrightarrow> i = 0 \<or> i = length s \<or> i < length s \<and> \<not> (128 \<le> byte (s ! i) \<and> byte (s ! i) < 192)"

definition ellipsis :: string where
  "ellipsis = [char_of (226::nat), char_of (128::nat), char_of (166::nat)]"

definition truncate_text :: "string \<Rightarrow> nat \<Rightarrow> string option" where
  "truncate_text s limit =
     (if length s \<le> limit then Some s
      else if is_char_boundary s limit then Some (take limit s @ ellipsis) else None)"

definition status_error :: "(stage \<Rightarrow> requests_error \<Rightarrow> pipeline_error) \<Rightarrow> nat \<Rightarrow> string \<Rightarrow> 'a send_outcome" where
  "status_error verdict status text =
     (case truncate_text text 512 of
        None \<Rightarrow> Send_Panic
      | Some shown \<Rightarrow> Send_Error (verdict Send_Stage (Upstream_Status status shown)))"

definition default_send ::
  "'g pipeline_ctx \<Rightarrow> extracted_request \<Rightarrow> resolved \<Rightarrow> outbound_snapshot option \<Rightarrow>
   upstream_error + 'b upstream_answer \<Rightarrow> 'b sent_response send_outcome \<times> record_event list" where
  "default_send ctx ex res snapshot answer =
     (case require_upstream_endpoint ctx res Send_Stage of
        Inl err \<Rightarrow> (Send_Error err, [])
      | Inr e \<Rightarrow>
          let sent = (case snapshot of
                None \<Rightarrow> []
              | Some s \<Rightarrow> [Rec_Upstream_Req (unwrap_or ''POST'' (os_method s)) (unwrap_or [] (os_url s)) (os_headers s) (os_body s)])
          in case answer of
               Inl err \<Rightarrow> (Send_Error (classify_provider_error err), sent)
             | Inr a \<Rightarrow>
                 let status = ua_status a; seen = sent @ [Rec_Upstream_Resp status (ua_headers a)] in
                 if status \<ge> 500
                 then (case ua_text a of
                         Inl e \<Rightarrow> (Send_Error (recoverable Send_Stage (Upstream_Read_Failed status e)), seen)
                       | Inr text \<Rightarrow> (status_error recoverable status text, seen @ [Rec_Upstream_Body text]))
                 else if status \<ge> 400
                 then let text = (case ua_text a of Inl _ \<Rightarrow> [] | Inr text \<Rightarrow> text)
                      in (status_error permanent status text, seen @ [Rec_Upstream_Body text])
                 else (Sent \<lparr>se_status = status, se_headers = ua_headers a, se_stream = ex_stream ex,
                             se_upstream_endpoint = Some e, se_response = ua_body a\<rparr>, seen))"

section \<open>Answering\<close>

datatype response_kind = Managed_Kind | Opaque_Kind

text \<open>A streamed body forwards the upstream's, or runs the event pipeline over it, translating when the dialects differ.\<close>

datatype answer_body =
    Buffered_Answer "json option" string
  | Forwarded_Stream
  | Event_Stream "(endpoint \<times> endpoint) option"

record client_answer =
  ca_status :: nat
  ca_headers :: header_map
  ca_kind :: response_kind
  ca_body :: answer_body

definition body_looks_like_sse :: "string \<Rightarrow> bool" where
  "body_looks_like_sse body \<longleftrightarrow>
     (let s = dropWhile is_ascii_whitespace body in starts_with ''event:'' s \<or> starts_with ''data:'' s)"

definition media_type :: "header_map \<Rightarrow> string option" where
  "media_type headers =
     map_option (\<lambda>v. str_trim (hd (split_on CHR '';'' v))) (name_get key_content_type headers)"

definition headers_indicate_sse :: "header_map \<Rightarrow> bool" where
  "headers_indicate_sse headers =
     (case media_type headers of None \<Rightarrow> False | Some t \<Rightarrow> str_lower t = ''text/event-stream'')"

definition answer_endpoints ::
  "'g pipeline_ctx \<Rightarrow> endpoint option \<Rightarrow> pipeline_error + endpoint \<times> endpoint" where
  "answer_endpoints ctx upstream =
     (let name = request_endpoint_str (cx_request_endpoint ctx) in
      res_bind (ok_or (permanent Convert_Response_Stage (Missing_Resolved_Endpoint name)) (resolved_of (cx_request_endpoint ctx)))
        (\<lambda>inbound. res_map (\<lambda>e. (inbound, e))
           (ok_or (permanent Convert_Response_Stage (Missing_Upstream_Endpoint name)) upstream)))"

definition response_perm :: "(convert_error \<Rightarrow> string) \<Rightarrow> convert_error \<Rightarrow> pipeline_error" where
  "response_perm show_convert err = permanent Convert_Response_Stage (Response_Conversion (show_convert err))"

definition convert_buffered_sse ::
  "(json \<Rightarrow> string) \<Rightarrow> (string \<Rightarrow> (string + sse_event) list) \<Rightarrow> (convert_error \<Rightarrow> string) \<Rightarrow> 'g pipeline_ctx \<Rightarrow> nat \<Rightarrow>
   header_map \<Rightarrow> endpoint option \<Rightarrow> string \<Rightarrow> pipeline_error + client_answer \<times> record_event list" where
  "convert_buffered_sse render decode_events show_convert ctx status headers upstream body =
     res_bind (answer_endpoints ctx upstream) (\<lambda>(inbound, e).
     res_map (\<lambda>accumulated.
         let body_json = write_response render inbound accumulated in
         (\<lparr>ca_status = status,
           ca_headers = header_remove ''content-length'' (header_insert key_content_type ''application/json'' headers),
           ca_kind = Managed_Kind, ca_body = Buffered_Answer (Some body_json) (render body_json)\<rparr>,
          record_usage (parse_usage_any_value body_json)))
       (map_err (response_perm show_convert) (sse_accumulate render e (decode_events body))))"

definition default_convert_buffered ::
  "(string \<Rightarrow> json option) \<Rightarrow> (string \<Rightarrow> string) \<Rightarrow> (json \<Rightarrow> string) \<Rightarrow> (string \<Rightarrow> (string + sse_event) list) \<Rightarrow>
   (convert_error \<Rightarrow> string) \<Rightarrow> 'g pipeline_ctx \<Rightarrow> nat \<Rightarrow> header_map \<Rightarrow> endpoint option \<Rightarrow> string \<Rightarrow> pipeline_error + client_answer \<times> record_event list" where
  "default_convert_buffered parse json_error render decode_events show_convert ctx status headers upstream body =
     (if headers_indicate_sse headers \<or> body_looks_like_sse body
      then convert_buffered_sse render decode_events show_convert ctx status headers upstream body
      else
        res_bind (answer_endpoints ctx upstream) (\<lambda>(inbound, e).
        let answer = (\<lambda>value bytes. \<lparr>ca_status = status, ca_headers = headers, ca_kind = Managed_Kind,
                                     ca_body = Buffered_Answer value bytes\<rparr>) in
        if body = [] then Inr (answer None [], [])
        else
          res_bind (ok_or (permanent Convert_Response_Stage (Upstream_Body_Not_Json (json_error body))) (parse body)) (\<lambda>upstream_json.
          let usage = record_usage (parse_usage_any_value upstream_json) in
          if e = inbound then Inr (answer (Some upstream_json) body, usage)
          else res_map (\<lambda>translated. (answer (Some translated) (render translated), usage))
                 (map_err (response_perm show_convert) (convert_response parse render e inbound upstream_json)))))"

definition default_convert_stream ::
  "'g pipeline_ctx \<Rightarrow> nat \<Rightarrow> header_map \<Rightarrow> endpoint option \<Rightarrow> pipeline_error + client_answer \<times> record_event list" where
  "default_convert_stream ctx status headers upstream =
     res_map (\<lambda>(inbound, e).
         (\<lparr>ca_status = status, ca_headers = headers, ca_kind = Managed_Kind,
           ca_body = Event_Stream (if e \<noteq> inbound then Some (e, inbound) else None)\<rparr>, []))
       (answer_endpoints ctx upstream)"

definition passthrough_convert_buffered ::
  "(string \<Rightarrow> json option) \<Rightarrow> nat \<Rightarrow> header_map \<Rightarrow> string \<Rightarrow> client_answer \<times> record_event list" where
  "passthrough_convert_buffered parse status headers body =
     (\<lparr>ca_status = status, ca_headers = headers, ca_kind = Opaque_Kind, ca_body = Buffered_Answer None body\<rparr>,
      if body = [] then [] else record_usage (parse_usage_any_json parse body))"

definition passthrough_convert_stream :: "nat \<Rightarrow> header_map \<Rightarrow> client_answer \<times> record_event list" where
  "passthrough_convert_stream status headers =
     (\<lparr>ca_status = status, ca_headers = headers, ca_kind = Opaque_Kind, ca_body = Forwarded_Stream\<rparr>, [])"

definition passthrough_is_sse_response :: "'b sent_response \<Rightarrow> bool" where
  "passthrough_is_sse_response sent =
     (if se_status sent \<ge> 400 then False
      else case media_type (se_headers sent) of
        Some t \<Rightarrow> str_lower t = ''text/event-stream''
      | None \<Rightarrow> se_stream sent)"

text \<open>The dispatch that both stages inherit: the response's bytes may fail to arrive.\<close>

definition reading_failed :: "string \<Rightarrow> pipeline_error" where
  "reading_failed e = recoverable Convert_Response_Stage (Reading_Upstream_Body e)"

definition default_convert_response ::
  "(string \<Rightarrow> json option) \<Rightarrow> (string \<Rightarrow> string) \<Rightarrow> (json \<Rightarrow> string) \<Rightarrow> (string \<Rightarrow> (string + sse_event) list) \<Rightarrow>
   (convert_error \<Rightarrow> string) \<Rightarrow> 'g pipeline_ctx \<Rightarrow> (string + string) sent_response \<Rightarrow> (pipeline_error + client_answer) \<times> record_event list" where
  "default_convert_response parse json_error render decode_events show_convert ctx sent =
     (if se_stream sent
      then (case default_convert_stream ctx (se_status sent) (se_headers sent) (se_upstream_endpoint sent) of
              Inl err \<Rightarrow> (Inl err, [])
            | Inr (a, events) \<Rightarrow> (Inr a, events))
      else case se_response sent of
        Inl e \<Rightarrow> (Inl (reading_failed e), [])
      | Inr raw \<Rightarrow>
          (case default_convert_buffered parse json_error render decode_events show_convert ctx (se_status sent) (se_headers sent)
                  (se_upstream_endpoint sent) raw of
             Inl err \<Rightarrow> (Inl err, [Rec_Upstream_Body raw])
           | Inr (a, events) \<Rightarrow> (Inr a, Rec_Upstream_Body raw # events)))"

definition passthrough_convert_response ::
  "(string \<Rightarrow> json option) \<Rightarrow> (string + string) sent_response \<Rightarrow> (pipeline_error + client_answer) \<times> record_event list" where
  "passthrough_convert_response parse sent =
     (if passthrough_is_sse_response sent
      then (let (a, events) = passthrough_convert_stream (se_status sent) (se_headers sent) in (Inr a, events))
      else case se_response sent of
        Inl e \<Rightarrow> (Inl (reading_failed e), [])
      | Inr raw \<Rightarrow>
          (let (a, events) = passthrough_convert_buffered parse (se_status sent) (se_headers sent) raw
           in (Inr a, Rec_Upstream_Body raw # events)))"

section \<open>What the client is told\<close>

text \<open>The answer an upstream gave: the accumulation of its events, or its body read in its dialect.\<close>

definition answers_in_events :: "header_map \<Rightarrow> string \<Rightarrow> bool" where
  "answers_in_events headers body \<longleftrightarrow> headers_indicate_sse headers \<or> body_looks_like_sse body"

definition upstream_said ::
  "(string \<Rightarrow> json option) \<Rightarrow> (json \<Rightarrow> string) \<Rightarrow> (string \<Rightarrow> (string + sse_event) list) \<Rightarrow> header_map \<Rightarrow> endpoint \<Rightarrow> string \<Rightarrow>
   ir_response \<Rightarrow> bool" where
  "upstream_said parse render decode_events headers e body r \<longleftrightarrow>
     (if answers_in_events headers body then sse_accumulate render e (decode_events body) = Inr r
      else body \<noteq> [] \<and> (\<exists>v. parse body = Some v \<and> read_response parse e v = Inr r))"

definition same_answer :: "bool \<Rightarrow> string option \<Rightarrow> ir_response \<Rightarrow> ir_response \<Rightarrow> bool" where
  "same_answer twice reason r r' \<longleftrightarrow>
     text_from_parts (ir_content r') =
       (if twice then text_from_parts (ir_content r) @ text_from_parts (ir_content r) else text_from_parts (ir_content r)) \<and>
     reasoning_of_parts (ir_content r') = reasoning_of_parts (ir_content r) \<and>
     ir_tool_calls r' = ir_tool_calls r \<and> ir_finish_reason r' = reason"

lemma written_answer:
  assumes "calls_ok parse render r"
  shows "\<exists>r'. read_response parse e (write_response render e r) = Inr r' \<and>
    same_answer (e = Responses) (Some (reason_told e (ir_tool_calls r \<noteq> []) (ir_finish_reason r))) r r'"
proof (cases e)
  case Chat_Completions
  with chat_response_read_back [OF assms] show ?thesis by (simp add: read_response_def write_response_def same_answer_def)
next
  case Responses
  with responses_response_read_back [OF assms] show ?thesis by (simp add: read_response_def write_response_def same_answer_def)
next
  case Messages
  with messages_response_read_back [OF assms] show ?thesis by (simp add: read_response_def write_response_def same_answer_def)
qed

lemma same_answer_refl: "same_answer False (ir_finish_reason r) r r"
  by (simp add: same_answer_def)

text \<open>The answer is written anew unless the upstream sent one body in the client's own dialect.\<close>

definition rewritten :: "header_map \<Rightarrow> string \<Rightarrow> endpoint \<Rightarrow> endpoint \<Rightarrow> bool" where
  "rewritten headers body e inbound \<longleftrightarrow> answers_in_events headers body \<or> e \<noteq> inbound"

text \<open>
  C3. A buffered answer reaches the client in its own dialect: whether the upstream answered in
  one body or in a stream of events, and in whichever dialect, if the answer can be read in that dialect then
  the stage succeeds with the
  upstream's status and a body whose bytes, parsed and read in the dialect of the client's
  endpoint, give the text, the reasoning and the tool calls that the upstream gave. The Responses
  dialect is the exception: text written in it is read twice. A body of the client's dialect is
  forwarded with the upstream's finish reason; an answer that is written anew tells the reason
  as its dialect can (\<open>reason_told\<close>): length, content filter, calls of an answer with calls and stop of
  one without are kept; a missing reason becomes a normal end, and in the Responses dialect
  any other reason becomes calls or stop as there are calls or not. An answer written anew
  is assumed to have calls with ids and arguments that survive as text, and to be
  a value whose rendered text parses to it.
\<close>

theorem buffered_answer_reaches_client:
  assumes said: "upstream_said parse render decode_events headers e body r"
    and endpoint: "resolved_of (cx_request_endpoint ctx) = Some inbound"
    and held: "rewritten headers body e inbound \<longrightarrow>
      calls_ok parse render r \<and> (let v = write_response render inbound r in parse (render v) = Some v)"
  shows "\<exists>a events v bytes r'.
    default_convert_buffered parse json_error render decode_events show_convert ctx status headers (Some e) body = Inr (a, events) \<and>
    ca_status a = status \<and> ca_body a = Buffered_Answer (Some v) bytes \<and> parse bytes = Some v \<and>
    read_response parse inbound v = Inr r' \<and>
    same_answer (inbound = Responses \<and> rewritten headers body e inbound)
      (if rewritten headers body e inbound then Some (reason_told inbound (ir_tool_calls r \<noteq> []) (ir_finish_reason r))
       else ir_finish_reason r) r r'"
proof -
  have ends: "answer_endpoints ctx (Some e) = Inr (inbound, e)"
    using endpoint by (simp add: answer_endpoints_def Let_def)
  show ?thesis
  proof (cases "answers_in_events headers body")
    case True
    then have "sse_accumulate render e (decode_events body) = Inr r" using said by (simp add: upstream_said_def)
    moreover have "headers_indicate_sse headers \<or> body_looks_like_sse body" using True by (simp add: answers_in_events_def)
    ultimately show ?thesis
      using True held written_answer [of parse render r inbound]
      by (auto simp: default_convert_buffered_def convert_buffered_sse_def ends Let_def rewritten_def)
  next
    case False
    then obtain v where v: "body \<noteq> []" "parse body = Some v" "read_response parse e v = Inr r"
      using said by (auto simp: upstream_said_def)
    have plain: "\<not> (headers_indicate_sse headers \<or> body_looks_like_sse body)" using False by (simp add: answers_in_events_def)
    show ?thesis
    proof (cases "e = inbound")
      case True
      have "default_convert_buffered parse json_error render decode_events show_convert ctx status headers (Some e) body =
          Inr (\<lparr>ca_status = status, ca_headers = headers, ca_kind = Managed_Kind, ca_body = Buffered_Answer (Some v) body\<rparr>,
               record_usage (parse_usage_any_value v))"
        using v plain True by (simp add: default_convert_buffered_def ends [unfolded True] Let_def)
      then show ?thesis using v True False same_answer_refl [of r] by (auto simp: rewritten_def)
    next
      case other: False
      then have "convert_response parse render e inbound v = Inr (write_response render inbound r)"
        using v by (simp add: convert_response_def)
      with other show ?thesis
        using v plain False held written_answer [of parse render r inbound]
        by (auto simp: default_convert_buffered_def ends Let_def rewritten_def)
    qed
  qed
qed

definition sample_sse_events :: "string \<Rightarrow> (string + sse_event) list" where
  "sample_sse_events body =
     [Inr \<lparr>se_event = None, se_data = Text_Data [],
           se_json = Some (json_obj [(''choices'', J_Array [json_obj [(''delta'', json_obj [(''content'', J_String ''hi'')])]])])\<rparr>,
      Inr \<lparr>se_event = None, se_data = Text_Data [],
           se_json = Some (json_obj [(''choices'', J_Array [json_obj [(''delta'', json_obj []), (''finish_reason'', J_String ''stop'')]])])\<rparr>]"

definition sample_accumulated :: ir_response where
  "sample_accumulated = projr (sse_accumulate (\<lambda>v. []) Chat_Completions (sample_sse_events []))"

definition sample_answer_parse :: "string \<Rightarrow> json option" where
  "sample_answer_parse s = (if s = ''out'' then Some (write_response (\<lambda>v. ''out'') Messages sample_accumulated) else None)"

definition sample_answer_ctx :: "generation_options pipeline_ctx" where
  "sample_answer_ctx = \<lparr>cx_request_id = ''r'', cx_attempt = 0, cx_request_endpoint = Known Messages,
     cx_config = \<lparr>rc_inner = [], rc_agent_id = None, rc_generation_options = None, rc_request_method = None\<rparr>\<rparr>"

theorem buffered_answer_reaches_client_witness:
  "\<exists>a events v bytes r'.
    default_convert_buffered sample_answer_parse (\<lambda>s. s) (\<lambda>v. ''out'') sample_sse_events (\<lambda>e. []) sample_answer_ctx 200 []
      (Some Chat_Completions) ''data: ...'' = Inr (a, events) \<and>
    ca_body a = Buffered_Answer (Some v) bytes \<and> read_response sample_answer_parse Messages v = Inr r' \<and>
    text_from_parts (ir_content r') = ''hi'' \<and> ir_finish_reason r' = Some ''stop''"
proof -
  have run: "case sse_accumulate (\<lambda>v. ''out'') Chat_Completions (sample_sse_events ''data: ...'') of
      Inl _ \<Rightarrow> False
    | Inr r \<Rightarrow> r = sample_accumulated \<and> calls_ok sample_answer_parse (\<lambda>v. ''out'') r \<and>
        text_from_parts (ir_content r) = ''hi'' \<and> ir_finish_reason r = Some ''stop''"
    by code_simp
  have events: "answers_in_events [] ''data: ...''" by code_simp
  have said: "upstream_said sample_answer_parse (\<lambda>v. ''out'') sample_sse_events [] Chat_Completions ''data: ...'' sample_accumulated"
    using run events by (auto simp: upstream_said_def split: sum.splits)
  have "resolved_of (cx_request_endpoint sample_answer_ctx) = Some Messages" by code_simp
  moreover have "rewritten [] ''data: ...'' Chat_Completions Messages" by (simp add: rewritten_def)
  moreover have "ir_tool_calls sample_accumulated = []" by code_simp
  ultimately show ?thesis
    using buffered_answer_reaches_client [OF said, of sample_answer_ctx Messages "\<lambda>s. s" "\<lambda>e. []" 200] run
    by (auto simp: sample_answer_parse_def same_answer_def reason_told_same split: sum.splits)
qed

section \<open>Errors of the upstream\<close>

text \<open>
  An error body is quoted in at most 512 bytes. The quotation panics exactly on a longer
  body whose byte 512 continues a character: the error and what it means for the account are lost.
\<close>

lemma send_panics_iff:
  "fst (default_send ctx ex res snapshot (Inr a)) = Send_Panic \<longleftrightarrow>
     \<not> isl (require_upstream_endpoint ctx res Send_Stage) \<and> ua_status a \<ge> 400 \<and>
     (\<exists>body. ua_text a = Inr body \<and> 512 < length body \<and> \<not> is_char_boundary body 512)"
  by (cases "require_upstream_endpoint ctx res Send_Stage"; cases "ua_text a")
     (auto simp: default_send_def status_error_def truncate_text_def Let_def split: option.split)

lemma send_outcome:
  assumes "require_upstream_endpoint ctx res Send_Stage = Inr e" "fst (default_send ctx ex res snapshot answer) \<noteq> Send_Panic"
  shows "case fst (default_send ctx ex res snapshot answer) of
      Sent s \<Rightarrow> (\<exists>a. answer = Inr a \<and> se_status s = ua_status a \<and> ua_status a < 400)
    | Send_Error err \<Rightarrow> pe_recoverable err \<longleftrightarrow>
        (case answer of Inl (Http_Error _) \<Rightarrow> True | Inl (Other_Provider_Error _) \<Rightarrow> False | Inr a \<Rightarrow> 500 \<le> ua_status a)
    | Send_Panic \<Rightarrow> False"
  using assms
  by (auto simp: default_send_def status_error_def classify_provider_error_def recoverable_def permanent_def Let_def
      split: option.splits sum.splits upstream_error.splits if_splits)

end
