(* ===== verification/Proxy_Send.thy ===== *)
theory Proxy_Send
  imports Proxy_Gate Response_Stages
begin

text \<open>
  The send stage of the relays (crates/requests/src/stages/send/proxy.rs): the request it builds from
  the run configuration the proxy wrote, the credentials it may add, and what it makes of the answer;
  with the destination of a request relayed from the forward proxy, from the dispatch to the wire.

  \<open>method_error\<close> is the HTTP library's reading of a method, \<open>adapter_of\<close> the provider adapter of an account
  and \<open>patch_text\<close> the text of its error; \<open>answer_to\<close> is the network: what the upstream answers to a request, or why
  it does not. \<open>forward_all\<close> is set by every relay of the gateway.
\<close>

section \<open>The request\<close>

record wire_request =
  wr_method :: string
  wr_url :: string
  wr_headers :: "(string \<times> string) list"
  wr_body :: string

definition missing_config :: "string \<Rightarrow> pipeline_error" where
  "missing_config key =
     permanent Send_Stage (Other_Error (''proxy passthrough pipeline requires `'' @ key @ ''` in RunConfig''))"

definition provider_request_kind ::
  "'g pipeline_ctx \<Rightarrow> resolved \<Rightarrow> stage \<Rightarrow> pipeline_error + request_kind" where
  "provider_request_kind ctx res st =
     (case rs_route res of
        Route_Operation _ upstream \<Rightarrow>
          res_map (\<lambda>configured. Operation_Request (unwrap_or upstream configured)) (configured_upstream_endpoint ctx st)
      | Provider_Traffic (Operation e) \<Rightarrow> Inr (Operation_Request e)
      | Provider_Traffic Provider_Core.Models_Request \<Rightarrow> Inr Provider_Headers.Models_Request
      | Provider_Traffic Provider_Core.Opaque_Request \<Rightarrow> Inr Provider_Headers.Opaque_Request)"

definition injects_auth :: "'g run_config \<Rightarrow> bool" where
  "injects_auth c = unwrap_or False (Option.bind (config_get c inject_auth_key) json_bool)"

definition proxy_outbound_headers ::
  "string \<Rightarrow> (account_ref \<Rightarrow> adapter) \<Rightarrow> (header_patch_error \<Rightarrow> string) \<Rightarrow> 'g pipeline_ctx \<Rightarrow> extracted_request \<Rightarrow>
   resolved \<Rightarrow> built_headers \<Rightarrow> converted_request \<Rightarrow> pipeline_error + header_map" where
  "proxy_outbound_headers user_agent adapter_of patch_text ctx ex res headers body =
     (if \<not> injects_auth (cx_config ctx) then Inr (bh_headers headers)
      else
        res_bind (provider_request_kind ctx res Send_Stage) (\<lambda>kind.
        map_err (\<lambda>e. permanent Send_Stage (Provider_Failure (patch_text e)))
          (patch_headers user_agent (adapter_of (rs_account_handle res))
             \<lparr>hp_kind = kind, hp_bearer_token = None,
              hp_content_encoding = map_option encoding_str (cq_content_encoding body), hp_stream = ex_stream ex,
              hp_initiator = unwrap_or ''user'' (ex_initiator ex), hp_vars = bh_vars headers,
              hp_agent_id = bh_agent_id headers\<rparr>
             (bh_headers headers))))"

text \<open>The request with the headers its record shows: the record leaves the host out.\<close>

definition proxy_request ::
  "(string \<Rightarrow> string option) \<Rightarrow> string \<Rightarrow> (account_ref \<Rightarrow> adapter) \<Rightarrow> (header_patch_error \<Rightarrow> string) \<Rightarrow>
   'g pipeline_ctx \<Rightarrow> extracted_request \<Rightarrow> resolved \<Rightarrow> built_headers \<Rightarrow> converted_request \<Rightarrow>
   pipeline_error + wire_request \<times> header_map" where
  "proxy_request method_error user_agent adapter_of patch_text ctx ex res headers body =
     res_bind (ok_or (missing_config proxy_host_key) (config_get_str (cx_config ctx) proxy_host_key)) (\<lambda>host.
     let path = unwrap_or ''/'' (config_get_str (cx_config ctx) proxy_path_key);
         meth = unwrap_or ''POST'' (config_get_str (cx_config ctx) proxy_method_key);
         scheme = unwrap_or ''https'' (config_get_str (cx_config ctx) proxy_scheme_key)
     in case method_error meth of
          Some e \<Rightarrow> Inl (permanent Send_Stage (Other_Error (''invalid proxy method `'' @ meth @ ''`: '' @ e)))
        | None \<Rightarrow>
            res_map (\<lambda>patched.
                let outbound = header_remove ''host'' patched in
                (\<lparr>wr_method = meth, wr_url = scheme @ ''://'' @ host @ path,
                  wr_headers = map (\<lambda>(n, v). (hn_lower n, v)) outbound @ [(''host'', host)],
                  wr_body = cq_wire_body body\<rparr>, outbound))
              (proxy_outbound_headers user_agent adapter_of patch_text ctx ex res headers body))"

section \<open>The answer\<close>

record transport_error =
  te_text :: string
  te_has_source :: bool
  te_connect :: bool
  te_timeout :: bool
  te_request :: bool

definition proxy_send_error_hint :: "string \<Rightarrow> bool \<Rightarrow> string" where
  "proxy_send_error_hint err_text has_inner_source =
     (if str_contains ''with no inner error'' err_text \<or>
         \<not> has_inner_source \<and> str_contains ''error sending request for url'' err_text
      then '' (upstream/network details were not exposed by reqwest; this is often a TLS shutdown or connection reset by the upstream)''
      else [])"

definition format_proxy_send_error :: "string \<Rightarrow> transport_error \<Rightarrow> string" where
  "format_proxy_send_error url err =
     ''proxy upstream `'' @ url @ ''` failed: '' @ te_text err @ proxy_send_error_hint (te_text err) (te_has_source err)"

definition proxy_send ::
  "bool \<Rightarrow> (string \<Rightarrow> string option) \<Rightarrow> string \<Rightarrow> (account_ref \<Rightarrow> adapter) \<Rightarrow> (header_patch_error \<Rightarrow> string) \<Rightarrow>
   (wire_request \<Rightarrow> transport_error + 'b upstream_answer) \<Rightarrow> 'g pipeline_ctx \<Rightarrow> extracted_request \<Rightarrow> resolved \<Rightarrow>
   built_headers \<Rightarrow> converted_request \<Rightarrow> 'b sent_response send_outcome \<times> record_event list" where
  "proxy_send forward_all method_error user_agent adapter_of patch_text answer_to ctx ex res headers body =
     (case res_bind (resolved_upstream_endpoint ctx res Send_Stage) (\<lambda>endpoint.
             res_map (\<lambda>r. (endpoint, r)) (proxy_request method_error user_agent adapter_of patch_text ctx ex res headers body)) of
        Inl err \<Rightarrow> (Send_Error err, [])
      | Inr (endpoint, request, outbound) \<Rightarrow>
          let sent = [Rec_Upstream_Req (wr_method request) (wr_url request) outbound (wr_body request)] in
          (case answer_to request of
             Inl err \<Rightarrow>
               (Send_Error ((if te_connect err \<or> te_timeout err \<or> te_request err then recoverable else permanent) Send_Stage
                  (Other_Error (format_proxy_send_error (wr_url request) err))), sent)
           | Inr a \<Rightarrow>
               let status = ua_status a; seen = sent @ [Rec_Upstream_Resp status (ua_headers a)] in
               if status \<ge> 500 \<and> \<not> forward_all
               then (case ua_text a of
                       Inl e \<Rightarrow> (Send_Error (recoverable Send_Stage (Upstream_Read_Failed status e)), seen)
                     | Inr text \<Rightarrow> (status_error recoverable status text, seen @ [Rec_Upstream_Body text]))
               else (Sent \<lparr>se_status = status, se_headers = ua_headers a, se_stream = ex_stream ex,
                           se_upstream_endpoint = endpoint, se_response = ua_body a\<rparr>, seen)))"

text \<open>
  The stage meets the network once at most, with the request it records; a relay of the gateway
  passes every status on.
\<close>

lemma proxy_send_forwards:
  assumes "proxy_request method_error user_agent adapter_of patch_text ctx ex res headers body = Inr (request, outbound)"
    and "resolved_upstream_endpoint ctx res Send_Stage = Inr endpoint" and "answer_to request = Inr a"
  shows "proxy_send True method_error user_agent adapter_of patch_text answer_to ctx ex res headers body =
    (Sent \<lparr>se_status = ua_status a, se_headers = ua_headers a, se_stream = ex_stream ex,
       se_upstream_endpoint = endpoint, se_response = ua_body a\<rparr>,
     [Rec_Upstream_Req (wr_method request) (wr_url request) outbound (wr_body request),
      Rec_Upstream_Resp (ua_status a) (ua_headers a)])"
  using assms by (simp add: proxy_send_def Let_def)

text \<open>What the stage refuses before it sends is never retried. The Copilot adapter needs a token the stage never has.\<close>

lemma res_map_eq_Inl [simp]: "res_map f r = Inl e \<longleftrightarrow> r = Inl e"
  by (cases r) auto

lemma configured_endpoint_permanent: "configured_upstream_endpoint ctx st = Inl err \<Longrightarrow> \<not> pe_recoverable err"
  by (auto simp: configured_upstream_endpoint_def permanent_def split: option.splits)

lemma proxy_outbound_permanent:
  assumes "proxy_outbound_headers user_agent adapter_of patch_text ctx ex res headers body = Inl err"
  shows "\<not> pe_recoverable err"
proof (cases "provider_request_kind ctx res Send_Stage")
  case (Inl e)
  then have "\<not> pe_recoverable e"
    by (auto simp: provider_request_kind_def split: resolved_route.splits Provider_Core.provider_request_kind.splits
        dest: configured_endpoint_permanent)
  with Inl assms show ?thesis by (auto simp: proxy_outbound_headers_def split: if_splits)
next
  case (Inr kind)
  with assms show ?thesis
    by (auto simp: proxy_outbound_headers_def permanent_def map_err_def split: if_splits sum.splits)
qed

lemma proxy_request_permanent:
  assumes "proxy_request method_error user_agent adapter_of patch_text ctx ex res headers body = Inl err"
  shows "\<not> pe_recoverable err"
proof (cases "config_get_str (cx_config ctx) proxy_host_key")
  case None
  with assms show ?thesis by (auto simp: proxy_request_def missing_config_def permanent_def)
next
  case (Some host)
  with assms show ?thesis
    by (cases "method_error (unwrap_or ''POST'' (config_get_str (cx_config ctx) proxy_method_key))")
      (auto simp: proxy_request_def Let_def permanent_def dest: proxy_outbound_permanent)
qed

lemma copilot_relay_never_sends:
  assumes inject: "injects_auth (cx_config ctx)" and copilot: "adapter_of (rs_account_handle res) = Copilot_Adapter"
  shows "\<exists>err. proxy_send forward_all method_error user_agent adapter_of patch_text answer_to ctx ex res headers body =
    (Send_Error err, []) \<and> \<not> pe_recoverable err"
proof -
  have "\<exists>err. proxy_outbound_headers user_agent adapter_of patch_text ctx ex res headers body = Inl err"
    using inject copilot
    by (auto simp: proxy_outbound_headers_def patch_headers_def res_bind_def split: sum.split)
  then obtain err where outbound: "proxy_outbound_headers user_agent adapter_of patch_text ctx ex res headers body = Inl err" ..
  have "\<exists>err. proxy_request method_error user_agent adapter_of patch_text ctx ex res headers body = Inl err"
    using outbound
    by (cases "config_get_str (cx_config ctx) proxy_host_key";
        cases "method_error (unwrap_or ''POST'' (config_get_str (cx_config ctx) proxy_method_key))")
      (simp_all add: proxy_request_def)
  then obtain e where "proxy_request method_error user_agent adapter_of patch_text ctx ex res headers body = Inl e" ..
  then show ?thesis
    by (cases "configured_upstream_endpoint ctx Send_Stage")
      (auto simp: proxy_send_def resolved_upstream_endpoint_def dest: proxy_request_permanent configured_endpoint_permanent)
qed

section \<open>What the URL library is relied on for\<close>

text \<open>
  The scheme of a URL is the one its text begins with, and two URLs of the same origin have the
  same scheme, host and port.
\<close>

definition url_library :: "(string \<Rightarrow> string + url) \<Rightarrow> bool" where
  "url_library parse_url \<longleftrightarrow>
     (\<forall>raw u. parse_url raw = Inr u \<longrightarrow>
        (starts_with ''https://'' raw \<longrightarrow> url_scheme u = ''https'') \<and> (starts_with ''http://'' raw \<longrightarrow> url_scheme u = ''http'')) \<and>
     (\<forall>raw raw' u u'. parse_url raw = Inr u \<longrightarrow> parse_url raw' = Inr u' \<longrightarrow> url_scheme u \<in> {''http'', ''https''} \<longrightarrow>
        url_scheme u' \<in> {''http'', ''https''} \<longrightarrow> url_origin u = url_origin u' \<longrightarrow>
        url_scheme u = url_scheme u' \<and> url_host u = url_host u' \<and> url_port u = url_port u')"

text \<open>The authority of a URL is its host, with the port the URL names.\<close>

definition authority_library :: "(url \<Rightarrow> string) \<Rightarrow> bool" where
  "authority_library authority_of \<longleftrightarrow>
     (\<forall>u t. url_host u = Some t \<longrightarrow> authority_of u = t @ port_text (url_port u))"

section \<open>Where a proxied request goes\<close>

definition scheme_port :: "string \<Rightarrow> nat" where
  "scheme_port scheme = (if scheme = ''http'' then 80 else 443)"

lemma parse_http_url_Inr:
  assumes "parse_http_url parse_url raw = Inr (u, a)"
  shows "\<exists>remainder t. http_remainder raw = Some remainder \<and> parse_authority (raw_authority remainder) = Inr a \<and>
    parse_url raw = Inr u \<and> url_scheme u \<in> {''http'', ''https''} \<and> url_host u = Some t \<and> parse_host t = Inr (ca_host a) \<and>
    unwrap_or (scheme_port (url_scheme u)) (ca_port a) = unwrap_or (scheme_port (url_scheme u)) (url_port u)"
  using assms
  by (auto simp: parse_http_url_def Let_def scheme_port_def unwrap_or_def split: if_splits option.splits)

lemma display_authority_chars:
  assumes "parse_host (ch_value (ia_host i)) = Inr (ia_host i)"
  shows "\<forall>c \<in> set (display_authority i scheme). authority_char c"
proof
  fix c assume "c \<in> set (display_authority i scheme)"
  then have "host_char c \<or> c \<in> {CHR ''['', CHR '']''} \<or> c \<in> set (port_text (Some (ia_port i)))"
    using parse_host_text(2) [OF assms] by (auto simp: display_authority_def Let_def port_text_def split: if_splits)
  then show "authority_char c" using host_char_authority bracket_authority port_text_chars by blast
qed

lemma display_raw_authority:
  assumes "parse_host (ch_value (ia_host i)) = Inr (ia_host i)"
  shows "raw_authority (display_authority i scheme) = display_authority i scheme"
  unfolding raw_authority_def takeWhile_eq_all_conv
  using display_authority_chars [OF assms, of scheme] by (auto simp: authority_char_def)

lemma origin_reads:
  assumes lib: "url_library parse_url" and scheme: "scheme \<in> {''http'', ''https''}"
    and host: "parse_host (ch_value (ia_host i)) = Inr (ia_host i)" and port: "0 < ia_port i" "ia_port i < 65536"
    and origin: "parse_http_origin parse_url (canonical_origin scheme i) cleartext = Inr origin"
  shows "\<exists>u t. parse_url (canonical_origin scheme i) = Inr u \<and> url_origin u = origin \<and> url_scheme u = scheme \<and>
    url_host u = Some t \<and> parse_host t = Inr (ia_host i) \<and>
    unwrap_or (scheme_port scheme) (url_port u) = ia_port i"
proof -
  let ?d = "if scheme = ''https'' then 443 else (80::nat)"
  obtain u a where ua: "parse_http_url parse_url (canonical_origin scheme i) = Inr (u, a)" and o: "url_origin u = origin"
    using origin by (auto simp: parse_http_origin_def split: if_splits)
  obtain remainder t where f: "http_remainder (canonical_origin scheme i) = Some remainder"
      "parse_authority (raw_authority remainder) = Inr a" "parse_url (canonical_origin scheme i) = Inr u"
      "url_host u = Some t" "parse_host t = Inr (ca_host a)"
      "unwrap_or (scheme_port (url_scheme u)) (ca_port a) = unwrap_or (scheme_port (url_scheme u)) (url_port u)"
    using parse_http_url_Inr [OF ua] by blast
  have "remainder = display_authority i scheme"
    using f(1) scheme by (auto simp: http_remainder_def canonical_origin_def)
  with f(2) display_raw_authority [OF host] have "parse_authority (display_authority i scheme) = Inr a" by simp
  with display_authority_parses [OF host port, of scheme] have a: "into_resolved a ?d = ia_authority i" by simp
  have starts: "starts_with (scheme @ ''://'') (canonical_origin scheme i)" by (simp add: canonical_origin_def starts_with_iff)
  have s: "url_scheme u = scheme"
    using lib f(3) starts scheme by (auto simp: url_library_def)
  have "ca_host a = ia_host i" "unwrap_or ?d (ca_port a) = ia_port i"
    by (simp_all add: into_resolved_def ia_host_def ia_port_def a [symmetric] unwrap_or_def split: option.split)
  moreover have "?d = scheme_port scheme" using scheme by (auto simp: scheme_port_def)
  ultimately show ?thesis using f s o by simp
qed

lemma request_url_Inr:
  assumes "request_url parse_url origin target = Inr u"
  shows "url_origin u = origin \<and> url_path u = pq_path target \<and> url_query u = pq_query target \<and>
    (\<exists>raw. parse_url raw = Inr u) \<and> url_scheme u \<in> {''http'', ''https''}"
  using assms
  by (auto simp: request_url_def parse_composed_request_url_def ensure_origin_def ensure_path_and_query_def
      validated_request_path_def Let_def split: if_splits dest!: parse_http_url_Inr)

lemma relay_url_Inr:
  assumes "relay_url parse_url base target = Inr u"
  shows "url_origin u = url_origin base \<and> url_path u = url_path base @ tl (pq_path target) \<and> url_query u = pq_query target \<and>
    \<not> list_ex (\<lambda>segment. canonical_dot_segment segment \<in> {Some ''.'', Some ''..''}) (split_on CHR ''/'' (pq_path target)) \<and>
    (\<exists>raw. parse_url raw = Inr u) \<and> url_scheme u \<in> {''http'', ''https''}"
  using assms
  by (auto simp: relay_url_def parse_composed_request_url_def ensure_origin_def ensure_path_and_query_def
      validated_request_path_def Let_def split: if_splits dest!: parse_http_url_Inr)

section \<open>What the send stage reads\<close>

definition request_target :: "string \<Rightarrow> string option \<Rightarrow> string" where
  "request_target path query = path @ (case query of None \<Rightarrow> [] | Some q \<Rightarrow> CHR ''?'' # q)"

definition host_values :: "wire_request \<Rightarrow> string list" where
  "host_values r = map snd (filter (\<lambda>(n, _). n = ''host'') (wr_headers r))"

lemma config_get_str_with:
  "config_get_str (with_str k v c) k' = (if k' = k then Some v else config_get_str c k')"
  "k' \<noteq> k \<Longrightarrow> config_get_str (with_value k j c) k' = config_get_str c k'"
  "k' \<noteq> k \<Longrightarrow> config_get_str (with_str_opt k w c) k' = config_get_str c k'"
  by (simp_all add: config_get_str_def with_str_def with_value_def with_str_opt_def bm_get_insert_any split: option.split)

lemma config_get_str_access:
  "k \<noteq> access_allowed_providers_key \<Longrightarrow> config_get_str (with_access access c) k = config_get_str c k"
  by (simp add: with_access_def config_get_str_with split: option.split)

lemma config_get_str_identity:
  "k \<noteq> proxy_account_id_key \<Longrightarrow> k \<noteq> proxy_provider_id_key \<Longrightarrow>
   config_get_str (with_original_identity identity fallback c) k = config_get_str c k"
  by (simp add: with_original_identity_def config_get_str_with)

lemma proxy_keys_distinct:
  "distinct [proxy_host_key, proxy_path_key, proxy_method_key, proxy_scheme_key, v2_proxy_origin_key, proxy_provider_id_key,
     proxy_account_id_key, inject_auth_key, access_allowed_providers_key]"
  by code_simp

lemmas config_reads = config_get_str_with config_get_str_access config_get_str_identity

lemma proxy_run_config_keys:
  assumes "cx_config ctx = proxy_run_config authority_of identify runtime access ingress scheme meth u"
  shows "config_get_str (cx_config ctx) proxy_host_key = Some (authority_of u)"
    "config_get_str (cx_config ctx) proxy_scheme_key = Some (url_scheme u)"
    "config_get_str (cx_config ctx) proxy_method_key = Some meth"
    "config_get_str (cx_config ctx) proxy_path_key = Some (request_target (url_path u) (url_query u))"
  unfolding assms proxy_run_config_def Let_def url_destination_def request_target_def
  using proxy_keys_distinct
  by (simp_all add: config_reads split: proxy_destination.split)

lemma host_removed: "filter (\<lambda>(n, _). n = ''host'') (map (\<lambda>(n, v). (hn_lower n, v)) (header_remove ''host'' h)) = []"
proof -
  have "str_lower ''host'' = ''host''" by code_simp
  then show ?thesis unfolding header_remove_def by (simp only:) (induction h; auto)
qed

lemma proxy_request_Inr:
  assumes "proxy_request method_error user_agent adapter_of patch_text ctx ex res headers body = Inr (request, outbound)"
    and "config_get_str (cx_config ctx) proxy_host_key = Some host" "config_get_str (cx_config ctx) proxy_scheme_key = Some scheme"
    and "config_get_str (cx_config ctx) proxy_method_key = Some meth" "config_get_str (cx_config ctx) proxy_path_key = Some path"
  shows "wr_method request = meth \<and> wr_url request = scheme @ ''://'' @ host @ path \<and> host_values request = [host] \<and>
    wr_body request = cq_wire_body body"
  using assms by (auto simp: proxy_request_def Let_def host_values_def host_removed split: option.splits)

section \<open>Where a relayed request goes\<close>

text \<open>The URL the dispatch found is the one the stage reads.\<close>

lemma dispatched_config:
  assumes "dispatch_proxied parse_url parse_pq url_of debug authority_of identify listener profiles ingress scheme
      access meth uri h = Inr x"
    and "select_proxy_profile listener profiles ingress meth (ru_path uri) = Inr runtime"
  shows "\<exists>u. proxied_url parse_url parse_pq url_of debug (pr_proxy_destination runtime) ingress scheme (uri_text uri) = Inr u \<and>
    px_config x = proxy_run_config authority_of (identify h) runtime access ingress scheme meth u"
  using assms by (auto simp: dispatch_proxied_def)

lemma original_destination:
  assumes lib: "url_library parse_url" "authority_library authority_of" and scheme: "scheme \<in> {''http'', ''https''}"
    and ingress: "parse_host (ch_value (ia_host ingress)) = Inr (ia_host ingress)" "0 < ia_port ingress" "ia_port ingress < 65536"
    and origin: "parse_http_origin parse_url (canonical_origin scheme ingress) Allow_Cleartext = Inr origin"
    and url: "request_url parse_url origin target = Inr u"
  shows "url_scheme u = scheme \<and> url_path u = pq_path target \<and> url_query u = pq_query target \<and>
    (\<exists>name port. authority_of u = name @ port_text port \<and> parse_host name = Inr (ia_host ingress) \<and>
       unwrap_or (scheme_port scheme) port = ia_port ingress)"
proof -
  obtain u0 t where u0: "parse_url (canonical_origin scheme ingress) = Inr u0" "url_origin u0 = origin"
      "url_scheme u0 = scheme" "url_host u0 = Some t" "parse_host t = Inr (ia_host ingress)"
      "unwrap_or (scheme_port scheme) (url_port u0) = ia_port ingress"
    using origin_reads [OF lib(1) scheme ingress origin] by blast
  from request_url_Inr [OF url] obtain raw where u: "parse_url raw = Inr u" "url_origin u = origin"
      "url_scheme u \<in> {''http'', ''https''}" "url_path u = pq_path target" "url_query u = pq_query target"
    by blast
  have "url_scheme u = url_scheme u0 \<and> url_host u = url_host u0 \<and> url_port u = url_port u0"
    using lib(1) [unfolded url_library_def, THEN conjunct2, rule_format, OF u(1) u0(1) u(3)] u0(2,3) u(2) scheme by simp
  moreover from this have "authority_of u = t @ port_text (url_port u0)"
    using lib(2) u0(4) by (simp add: authority_library_def)
  ultimately show ?thesis using u0 u by auto
qed

lemma fixed_destination:
  assumes lib: "url_library parse_url" "authority_library authority_of"
    and base: "parse_url raw = Inr base" "url_scheme base \<in> {''http'', ''https''}" "url_host base \<noteq> None"
    and url: "relay_url parse_url base target = Inr u"
  shows "url_scheme u = url_scheme base \<and> authority_of u = authority_of base \<and>
    url_path u = url_path base @ tl (pq_path target) \<and> url_query u = pq_query target \<and>
    \<not> list_ex (\<lambda>segment. canonical_dot_segment segment \<in> {Some ''.'', Some ''..''}) (split_on CHR ''/'' (pq_path target))"
proof -
  from relay_url_Inr [OF url] obtain raw' where u: "parse_url raw' = Inr u" "url_origin u = url_origin base"
      "url_scheme u \<in> {''http'', ''https''}"
    by blast
  have same: "url_scheme u = url_scheme base \<and> url_host u = url_host base \<and> url_port u = url_port base"
    using lib(1) [unfolded url_library_def, THEN conjunct2, rule_format, OF u(1) base(1) u(3) base(2) u(2)] .
  moreover from this have "authority_of u = authority_of base"
    using lib(2) base(3) by (auto simp: authority_library_def)
  ultimately show ?thesis using relay_url_Inr [OF url] by blast
qed


definition gate_url :: "string \<Rightarrow> string \<Rightarrow> string option \<Rightarrow> url" where
  "gate_url text path query =
     \<lparr>url_text = text, url_scheme = ''http'', url_host = Some ''example.com'', url_port = Some 8080, url_path = path,
      url_query = query, url_fragment = None, url_username = [], url_password = None, url_origin = ''http://example.com:8080''\<rparr>"

definition gate_parse_url :: "string \<Rightarrow> string + url" where
  "gate_parse_url raw =
     (if raw = ''http://example.com:8080'' then Inr (gate_url raw ''/'' None)
      else if raw = ''http://example.com:8080/v1/x?q'' then Inr (gate_url raw ''/v1/x'' (Some ''q''))
      else Inl [])"

definition gate_ingress :: ingress_authority where
  "gate_ingress = \<lparr>ia_authority = \<lparr>ra_host = sample_host ''example.com'', ra_port = 8080\<rparr>, ia_source = Direct_Http\<rparr>"

definition gate_profiles :: "(string, unit profile_runtime) bmap" where
  "gate_profiles =
     [(''main'',
       \<lparr>pr_api_service = None, pr_proxy_service = Some gate_service, pr_route_kind = Relay_Kind, pr_record_mode = ''switch'',
        pr_credential_policy = Account_Credentials, pr_agent_id = None, pr_api_destination = None,
        pr_proxy_destination = Original_Upstream\<rparr>)]"

definition gate_authority :: "url \<Rightarrow> string" where
  "gate_authority u = unwrap_or [] (url_host u) @ port_text (url_port u)"

definition gate_uri :: request_uri where
  "gate_uri = \<lparr>ru_path = ''/v1/x'', ru_path_and_query = Some ''/v1/x?q''\<rparr>"

definition gate_listener :: forward_proxy_listener_plan where
  "gate_listener = sample_proxy\<lparr>fp_http_bindings := [], fp_default_http_action := Route_To ''main''\<rparr>"

definition gate_dispatched :: "api_error + generation_options proxied_execution" where
  "gate_dispatched =
     dispatch_proxied gate_parse_url (\<lambda>_. Inr \<lparr>pq_path = ''/v1/x'', pq_query = Some ''q''\<rparr>) (\<lambda>_. gate_url [] [] None) (\<lambda>_. [])
       gate_authority (\<lambda>_ _. \<lparr>ai_account_id = None, ai_provider_id = None\<rparr>) gate_listener gate_profiles gate_ingress ''http''
       unrestricted ''GET'' gate_uri gate_headers"

definition gate_sent :: "generation_options run_config \<Rightarrow> pipeline_error + wire_request \<times> header_map" where
  "gate_sent c =
     proxy_request (\<lambda>_. None) ''agent'' (\<lambda>_. Openai_Adapter ''key'') (\<lambda>_. [])
       \<lparr>cx_request_id = ''r'', cx_attempt = 0, cx_request_endpoint = Custom_Path ''/v1/x'', cx_config = c\<rparr> sample_extracted
       (sample_resolved\<lparr>rs_route := Provider_Traffic Provider_Core.Opaque_Request\<rparr>)
       \<lparr>bh_headers = [(new_header_name ''Host'', ''stale'')], bh_vars = build_template_vars (\<lambda>_. None) [], bh_agent_id = Opencode\<rparr>
       \<lparr>cq_body = J_Null, cq_wire_body = ''zin'', cq_debug_body = ''zin'', cq_content_encoding = None\<rparr>"

lemma gate_library: "url_library gate_parse_url"
proof -
  have "\<not> starts_with ''https://'' ''http://example.com:8080''" "\<not> starts_with ''https://'' ''http://example.com:8080/v1/x?q''"
    by code_simp+
  then show ?thesis by (auto simp: url_library_def gate_parse_url_def gate_url_def split: if_splits)
qed

lemma gate_authority_library: "authority_library gate_authority"
  by (simp add: authority_library_def gate_authority_def unwrap_or_def)


end
