(* ===== verification/Spec2Isabelle.thy ===== *)
theory Spec2Isabelle
  imports Rule_Shadowing Sse_Pipeline Gateway_Serving Proxy_Send
begin

text \<open>
  A verification development of the gateway: what stands between a client that speaks one
  dialect of an LLM API and the accounts of several providers that answer it.

  \<^bold>\<open>The program.\<close> An operator writes a configuration: providers, accounts, account pools,
  routes, profiles and listeners. Loading compiles it into a closed plan; building turns the
  plan into a runtime with one service per endpoint or relay of a profile. A listener is an
  LLM API or a forward proxy. A request on it is authenticated, dispatched to a service,
  assigned an account of a pool, given the headers and credentials its provider expects,
  converted to the dialect the provider speaks, sent with retries, and the answer, often a
  stream of server-sent events, is converted back. A running gateway may be reloaded with a
  new configuration.

  The theories follow that path. File names are under src/crates/. A record of a theory is the
  struct of the same name, a datatype the enum; functions have the names of the code, a
  method that clashes with another type's method carries a short prefix of its type.

  \<^bold>\<open>Foundations.\<close>
  \<^item> \<open>Prelude\<close>: strings as bytes, ASCII tests, lists, options, sums as results, the
    collections of simplification rules. \<open>Std_Str\<close>, \<open>Std_Time\<close>, \<open>Ordered_Map\<close>, \<open>Ip_Addr\<close>: what the
    code uses of the standard library (trimming, durations with their checked sums, ordered
    maps and sets, the text forms of addresses). \<open>Json\<close>: the values of the JSON library with
    the accessors the code calls.

  \<^bold>\<open>Policy\<close> (policy/src).
  \<^item> \<open>Identifiers\<close> (id.rs), \<open>Authority\<close> and \<open>Authority_Text\<close> (authority.rs): the scans that
    accept an identifier, a host, an authority; a text form parses back to what it denotes.
  \<^item> \<open>Route_Plan\<close> (route.rs): managed and relay routes, their derived axes, the score table,
    whose prefix search is the longest matching prefix rule.
  \<^item> \<open>Topology\<close> (topology.rs, cors.rs): listener plans and host patterns; the locale
    \<open>pattern_cover\<close> states when one pattern covers another.

  \<^bold>\<open>From the configuration to the plan\<close> (config/src/v2).
  \<^item> \<open>Listener_Compile\<close> (compile/listeners.rs): raw listeners, bindings and CONNECT rules to
    listener plans, with every error. \<open>Rule_Shadowing\<close>: a rejected rule is one the earlier rules
    cover, judged by the selection the proxy performs at run time, where the operation of a request follows from
    its method and path; and every such rule is rejected when it names no operation, or the method POST with it.
  \<^item> \<open>Resource_Compile\<close> (compile/resources.rs, resources/profiles.rs, defaults.rs,
    compile/mod.rs): providers, pools, routes, profiles and the default policy.
  \<^item> \<open>Compiled_Plan\<close>: the invariant \<open>plan_closed\<close> of every accepted configuration, the contract the
    runtime below relies on.

  \<^bold>\<open>Accounts and their selection\<close> (core/src, accounts/src, router/src/v2/selector.rs).
  \<^item> \<open>Provider_Core\<close> (core/src/provider.rs): endpoints, glob rules, capabilities of a provider.
    \<open>Accounts\<close>: accounts, the handle and its health, the inventory. \<open>Upstream_Url\<close>: base URLs,
    origins and the request URLs below them.
  \<^item> \<open>Provider_Graph\<close> and \<open>Account_Pools\<close> (accounts/src/link): the linker of destinations, bindings
    and pools, with every error.
  \<^item> \<open>Affinity\<close> and \<open>Pool_Runtime\<close> (affinity.rs, link/selection.rs): sessions, cooldowns, cursors.
    \<open>pool_step\<close> is the step relation of a pool; the invariant of its reachable states, the
    selection contract, stickiness, back-off and fairness are proved over it. \<open>session_store\<close> is
    the interface between the two.
  \<^item> \<open>Selector\<close> (v2/selector.rs and the resolve stages of requests/src): which account a managed
    request or a relay gets, and the outcome when there is none.

  \<^bold>\<open>Running one request\<close> (requests/src, headers/src, provider-*/src).
  \<^item> \<open>Pipeline\<close> (requests/src/pipeline): the stages of an attempt, its drop guard and events, and
    the retry loop.
  \<^item> \<open>Headers\<close>, \<open>Header_Schemas\<close> (headers/src, stages/build_headers): header maps, correlation,
    the personas and overlays with the registry, the header stages of relays and of managed
    requests. \<open>Provider_Headers\<close>: the credentials each provider adapter adds.
  \<^item> \<open>Generation\<close> (core/src/generation.rs, stages/convert_request/generation.rs): the generation controls
    and their lowering for each provider; \<open>requested_members\<close> is where an upstream reads each control.
  \<^item> \<open>Body_Stages\<close> (stages/extract, stages/convert_request, utils/codec.rs, the input transformers of
    provider-*/src): from the inbound body to the bytes sent upstream.
  \<^item> \<open>Response_Stages\<close> (stages/send/default.rs, stages/convert_response, convert/src/usage.rs): the
    classification of the upstream's answer, and the answer the client gets. \<open>reason_told\<close> says which
    finish reason each dialect can tell.
  \<^item> \<open>Proxy_Send\<close> (stages/send/proxy.rs): the request a relay sends and what it makes of the answer; with
    \<open>Proxy_Gate\<close>, the destination of a relayed request from the dispatch to the wire.

  \<^bold>\<open>Converting between dialects\<close> (convert/src).
  \<^item> \<open>Ir\<close>, \<open>Tool_Defs\<close>, \<open>Request_Ir\<close> (ir.rs, tools.rs): the neutral representation. \<open>Chat_Value\<close>,
    \<open>Messages_Value\<close>, \<open>Responses_Value\<close> (value/) read and write it, \<open>Convert\<close> (lib.rs) composes them.
  \<^item> \<open>Sse_Delta\<close>, \<open>Sse_Accumulate\<close>, \<open>Responses_Emit\<close>, \<open>Sse_Translate\<close>, \<open>Sse_Pipeline\<close> (sse/): events and
    deltas, the accumulators, the emitter of the Responses lifecycle against a client that
    checks the protocol, the translator, and the stream as the client polls it.

  \<^bold>\<open>The gateway\<close> (router/src, access/src).
  \<^item> \<open>Proxy_Matching\<close>: rule selection on a proxy, and \<open>policy_decides\<close>, what its bindings say of a request.
    \<open>Access\<close>: API keys of clients. \<open>Discovery\<close>: what clients are told of providers and models, with
    \<open>listable\<close>, what a profile offers a key after the refreshes so far.
  \<^item> \<open>Gateway_Runtime\<close>, \<open>Gateway_Serving\<close> (v2/mod.rs, v2/mounts.rs): services, mounts and the building
    of the runtime; over a closed plan it resolves every reference.
  \<^item> \<open>Live_Reload\<close> (v2/mod.rs, gateway-cli/src/cli/serve.rs): listener states and generations.
  \<^item> \<open>Request_Gate\<close>, \<open>Proxy_Gate\<close> (v2/mod.rs, v2/mounts.rs, api/identity.rs): from an HTTP request to
    the run of its service, on an API listener and inside a forward proxy.

  \<^bold>\<open>What the lemmas show.\<close> Each theory proves its well-formedness invariant with the operations that
  preserve it, the behaviour of its operations on every branch, and then its properties:
  text forms round-trip; the compiler's checks reject no rule a request needs; a closed plan makes
  a runtime without dangling references; a pool meets its selection contract in every reachable
  state; retries are bounded and avoid the failed account; conversion keeps the conversation, a
  translated stream the words of its source; an emitted stream follows its protocol; credentials and
  keys stay where the policy puts them; a generation control is carried out or refused; a buffered
  answer reaches the client in its own dialect; a relayed request goes where its client or its route says; a reload commits completely or not at all.

  \<^bold>\<open>Parameters.\<close> What is not in the repository is an argument of the definitions that use it:
  \<^item> the URL and HTTP libraries: \<open>parse_url\<close>, \<open>push_path\<close>, \<open>origin_of\<close>, \<open>authority_of\<close>, \<open>url_of\<close>, \<open>parse_pq\<close>,
    \<open>cors_origin\<close>; the laws the lemmas need are \<open>url_library\<close> of \<open>parse_url\<close> and \<open>authority_library\<close> of
    \<open>authority_of\<close>;
  \<^item> the JSON library's text forms \<open>render\<close> and \<open>parse\<close>, the reading \<open>decode\<close> of turn metadata, the
    digest and the random identifiers; \<open>compress\<close> and \<open>decompress\<close> of the compression libraries;
  \<^item> the clock (each reading is an argument) and the last instant \<open>horizon\<close> of the platform;
  \<^item> the event decoder: a script of chunks, events, faults and waits, or \<open>decode_events\<close> over a whole body;
  \<^item> the network: answers of upstreams and accounts, \<open>http_error\<close>, \<open>answer_to\<close>; the file system: certificate
    loading, \<open>relative_to\<close>;
  \<^item> function pointers the code stores in descriptors are fields of the records.
  The witnesses instantiate them with concrete functions.

  \<^bold>\<open>Choices.\<close> Integers that may wrap are words (cursors, operation counters) or have the wrap
  written out (token counts, as in the release profile). Counters a run cannot exhaust, the sequence numbers of the
  emitter and the generations of a reload, are naturals. A float is its shortest decimal text,
  compared exactly where the code compares it. Locks are never
  poisoned, and what a lock makes atomic is one step. A panic is a constructor of the result
  (\<open>Dangling\<close>, \<open>Missing_Listener\<close>) that the properties rule out, except \<open>Send_Panic\<close>, of which
  \<open>send_panics_iff\<close> says exactly when it happens.

  \<^bold>\<open>Recursion and fuel.\<close> Every function terminates. Loops are recursion on the data or carry a
  measure; the deadline search halves its interval. The retry loop counts the attempts its policy allows,
  so no fuel is needed there. The polls of a stream are a list of the client's steps, and
  \<open>pipeline_delivers_translation\<close> gives a number of polls that reaches the end. The asserted
  outcome of a run is the value of the whole function, never conditional on returning.

  \<^bold>\<open>Not modelled.\<close>
  \<^item> Servers, sockets, TLS, CONNECT tunnels, the reading of bodies, and the background tasks that count a
    stream's progress: I/O of the async runtime around the modelled decisions.
  \<^item> TOML parsing, editing and the JSON schema of the configuration: text to raw records is the
    library's; the modelled compiler starts at the raw records.
  \<^item> Persistence of requests and sessions, whose logic is in SQL; the table of keys is modelled.
  \<^item> Migration of other agents' configuration files: format-preserving edits on disk.
  \<^item> Sign-in flows, credential files and quota readers of the providers: network and file system.
  \<^item> The legacy router's account pool, superseded by the linked pools, and the older configuration format.
  \<^item> The command line, the desktop shell, language bindings, the client library, the mock server and the
    embedded model catalogue: glue or data.
\<close>

end
